(* ===== verification/Iot_Prelude.thy ===== *)
theory Iot_Prelude
  imports Main "HOL-Library.Word"
begin

text \<open>
  Shared vocabulary of the development: the machine integers of the firmware as words, byte
  strings, the byte-order helpers the wire formats use, the constant-time comparison every
  verifier of the firmware uses, the scans over bounded tables that most modules repeat, and the
  interfaces (locales) the components are proved against.

  Conventions of the model.  An input pointer that the code compares with \<open>NULL\<close> is an
  \<open>option\<close>; an out-parameter is a component of the result, so its own \<open>NULL\<close> test has no
  counterpart.  The file-level \<open>static\<close> variables of a module are one record, passed and
  returned.  An array with a fill count is the list of its used entries; an array scanned as a
  whole is a list of its fixed length.
\<close>

unbundle bit_operations_syntax

named_theorems iot_defs \<open>definitions unfolded by the component proofs\<close>

type_synonym u8 = "8 word"
type_synonym u16 = "16 word"
type_synonym u32 = "32 word"
type_synonym u64 = "64 word"
type_synonym bytes = "8 word list"

section \<open>Byte orders\<close>

definition le_bytes16 :: "u16 \<Rightarrow> bytes" where
  "le_bytes16 w = [ucast w, ucast (drop_bit 8 w)]"

definition le_word16 :: "u8 \<Rightarrow> u8 \<Rightarrow> u16" where
  "le_word16 b0 b1 = ucast b0 OR push_bit 8 (ucast b1)"

definition le_bytes32 :: "u32 \<Rightarrow> bytes" where
  "le_bytes32 w = [ucast w, ucast (drop_bit 8 w), ucast (drop_bit 16 w), ucast (drop_bit 24 w)]"

definition le_word32 :: "u8 \<Rightarrow> u8 \<Rightarrow> u8 \<Rightarrow> u8 \<Rightarrow> u32" where
  "le_word32 b0 b1 b2 b3 =
     ucast b0 OR push_bit 8 (ucast b1) OR push_bit 16 (ucast b2) OR push_bit 24 (ucast b3)"

definition get_uint32_le :: "bytes \<Rightarrow> nat \<Rightarrow> u32" where
  "get_uint32_le d i = le_word32 (d ! i) (d ! (i + 1)) (d ! (i + 2)) (d ! (i + 3))"

definition le_bytes64 :: "u64 \<Rightarrow> bytes" where
  "le_bytes64 w = map (\<lambda>i. ucast (drop_bit (i * 8) w)) [0, 1, 2, 3, 4, 5, 6, 7]"

definition le_word64 :: "bytes \<Rightarrow> u64" where
  "le_word64 bs = ucast (le_word32 (bs ! 0) (bs ! 1) (bs ! 2) (bs ! 3))
     OR push_bit 32 (ucast (le_word32 (bs ! 4) (bs ! 5) (bs ! 6) (bs ! 7)))"

definition be_bytes32 :: "u32 \<Rightarrow> bytes" where
  "be_bytes32 w = [ucast (drop_bit 24 w), ucast (drop_bit 16 w), ucast (drop_bit 8 w), ucast w]"

definition be_bytes64 :: "u64 \<Rightarrow> bytes" where
  "be_bytes64 w = map (\<lambda>i. ucast (drop_bit (i * 8) w)) [7, 6, 5, 4, 3, 2, 1, 0]"

lemma length_le_bytes16 [simp]: "length (le_bytes16 w) = 2"
  by (simp add: le_bytes16_def)

lemma length_le_bytes32 [simp]: "length (le_bytes32 w) = 4"
  by (simp add: le_bytes32_def)

lemma length_le_bytes64 [simp]: "length (le_bytes64 w) = 8"
  by (simp add: le_bytes64_def)

lemma length_be_bytes32 [simp]: "length (be_bytes32 w) = 4"
  by (simp add: be_bytes32_def)

lemma length_be_bytes64 [simp]: "length (be_bytes64 w) = 8"
  by (simp add: be_bytes64_def)

lemma le_word16_le_bytes16 [simp]:
  "le_word16 (ucast w) (ucast (drop_bit 8 w)) = w"
  by (rule bit_word_eqI) (auto simp: le_word16_def bit_simps)

lemma le_word32_le_bytes32 [simp]:
  "le_word32 (ucast w) (ucast (drop_bit 8 w)) (ucast (drop_bit 16 w)) (ucast (drop_bit 24 w)) = w"
proof (rule bit_word_eqI)
  fix n
  assume "n < LENGTH(32)"
  then consider "n < 8" | "8 \<le> n" "n < 16" | "16 \<le> n" "n < 24" | "24 \<le> n" "n < 32"
    by fastforce
  then show "bit (le_word32 (ucast w) (ucast (drop_bit 8 w)) (ucast (drop_bit 16 w))
      (ucast (drop_bit 24 w))) n \<longleftrightarrow> bit w n"
    by cases (auto simp: le_word32_def bit_simps)
qed

lemma le_word64_le_bytes64 [simp]: "le_word64 (le_bytes64 w @ bs) = w"
proof -
  have parts: "le_bytes64 w = le_bytes32 (ucast w) @ le_bytes32 (ucast (drop_bit 32 w))"
    by (simp add: le_bytes64_def le_bytes32_def) (auto intro!: bit_word_eqI simp: bit_simps)
  have "le_word64 (le_bytes64 w @ bs) = ucast (ucast w :: u32) OR push_bit 32 (ucast (ucast (drop_bit 32 w) :: u32))"
    unfolding le_word64_def parts by (simp add: le_bytes32_def)
  also have "\<dots> = w"
    by (rule bit_word_eqI) (auto simp: bit_simps)
  finally show ?thesis .
qed

lemma unat_u8_less: "unat (w :: u8) < 256"
  and unat_u16_less: "unat (v :: u16) < 65536"
  and unat_u32_less: "unat (x :: u32) < 4294967296"
  and unat_u64_less: "unat (y :: u64) < 18446744073709551616"
  using unsigned_less[of w, where 'a = nat] unsigned_less[of v, where 'a = nat]
    unsigned_less[of x, where 'a = nat] unsigned_less[of y, where 'a = nat] by simp_all

lemma unat_word_of_nat_small: "n < 2 ^ LENGTH('a) \<Longrightarrow> unat (word_of_nat n :: 'a :: len word) = n"
  by (simp add: unsigned_of_nat take_bit_nat_eq_self)

lemma unat_ucast_up:
  "LENGTH('a) \<le> LENGTH('b) \<Longrightarrow> unat (ucast (w :: 'a :: len word) :: 'b :: len word) = unat w"
  using order_less_le_trans[OF unsigned_less[of w] power_increasing[of "LENGTH('a)" "LENGTH('b)" "2 :: nat"]]
  by (simp add: unsigned_ucast_eq take_bit_nat_eq_self)

lemma ucast_up_inj:
  "LENGTH('a) \<le> LENGTH('b) \<Longrightarrow> (ucast (v :: 'a :: len word) :: 'b :: len word) = ucast w \<Longrightarrow> v = w"
  by (metis unat_ucast_up word_unat_eq_iff)

lemma word_xor_cancel [simp]:
  "(a XOR k = b XOR k) \<longleftrightarrow> a = (b :: 'w :: len word)"
  "(k XOR a = k XOR b) \<longleftrightarrow> a = b"
  by (metis xor.assoc xor.right_neutral xor_self_eq, metis xor.assoc xor.left_neutral xor_self_eq)

lemma word_and_1_iff: "(w AND 1 = 0) \<longleftrightarrow> \<not> bit (w :: 'w :: len word) 0"
  using and_exp_eq_0_iff_not_bit[of w 0] by simp

lemma be_bytes32_inj: "be_bytes32 v = be_bytes32 w \<Longrightarrow> v = w"
proof -
  assume eq: "be_bytes32 v = be_bytes32 w"
  have "v = le_word32 (ucast v) (ucast (drop_bit 8 v)) (ucast (drop_bit 16 v)) (ucast (drop_bit 24 v))"
    by simp
  also have "\<dots> = le_word32 (ucast w) (ucast (drop_bit 8 w)) (ucast (drop_bit 16 w)) (ucast (drop_bit 24 w))"
    using eq by (simp add: be_bytes32_def del: le_word32_le_bytes32)
  finally show "v = w" by simp
qed

text \<open>Distance of two natural numbers, for the clock-drift tests.\<close>

definition ndist :: "nat \<Rightarrow> nat \<Rightarrow> nat" where
  "ndist a b = (a - b) + (b - a)"

lemma drift_nat:
  "((if a > b then a - b else b - a) > (d :: u64)) \<longleftrightarrow> unat d < ndist (unat a) (unat b)"
  by (auto simp: ndist_def word_less_nat_alt unat_sub_if')

section \<open>Constant-time comparison\<close>

text \<open>The accumulator loop \<open>diff |= a[i] ^ b[i]\<close> that every verifier of the firmware runs.\<close>

definition ct_diff :: "bytes \<Rightarrow> bytes \<Rightarrow> u8" where
  "ct_diff xs ys = fold (\<lambda>(a, b) acc. acc OR (a XOR b)) (zip xs ys) 0"

lemma word_or_eq_0_iff: "(a OR b = 0) \<longleftrightarrow> a = 0 \<and> b = (0 :: 'w :: len word)"
  by (fact or_eq_0_iff)

lemma word_xor_eq_0_iff: "(a XOR b = 0) \<longleftrightarrow> a = (b :: 'w :: len word)"
  by (metis xor.assoc xor.left_neutral xor_self_eq)

lemma ct_fold_eq_0_iff:
  "length xs = length ys \<Longrightarrow>
    (fold (\<lambda>(a, b) acc. acc OR (a XOR b)) (zip xs ys) acc = (0 :: u8)) \<longleftrightarrow> acc = 0 \<and> xs = ys"
  by (induction xs ys arbitrary: acc rule: list_induct2)
    (auto simp: word_or_eq_0_iff word_xor_eq_0_iff)

lemma ct_diff_eq_0_iff: "length xs = length ys \<Longrightarrow> (ct_diff xs ys = 0) \<longleftrightarrow> xs = ys"
  by (simp add: ct_diff_def ct_fold_eq_0_iff)

lemma ct_diff_refl [simp]: "ct_diff xs xs = 0"
  by (simp add: ct_diff_eq_0_iff)

section \<open>Scans over tables\<close>

text \<open>
  \<open>upd_first P f xs\<close> is the loop that changes the first entry satisfying \<open>P\<close> and returns;
  \<open>None\<close> when the loop runs off the end.
\<close>

fun upd_first :: "('a \<Rightarrow> bool) \<Rightarrow> ('a \<Rightarrow> 'a) \<Rightarrow> 'a list \<Rightarrow> 'a list option" where
  "upd_first P f [] = None"
| "upd_first P f (x # xs) = (if P x then Some (f x # xs) else map_option ((#) x) (upd_first P f xs))"

lemma upd_first_None_iff [simp]: "upd_first P f xs = None \<longleftrightarrow> (\<forall>x \<in> set xs. \<not> P x)"
  by (induction xs) auto

lemma upd_first_length: "upd_first P f xs = Some ys \<Longrightarrow> length ys = length xs"
  by (induction xs arbitrary: ys) (auto split: if_splits)

lemma upd_first_set:
  "upd_first P f xs = Some ys \<Longrightarrow> y \<in> set ys \<Longrightarrow> y \<in> set xs \<or> (\<exists>x \<in> set xs. P x \<and> y = f x)"
  by (induction xs arbitrary: ys) (auto split: if_splits)

lemma upd_first_SomeE:
  assumes "upd_first P f xs = Some ys"
  obtains us x vs where "xs = us @ x # vs" "P x" "\<forall>u \<in> set us. \<not> P u" "ys = us @ f x # vs"
  using assms
proof (induction xs arbitrary: ys thesis)
  case (Cons a as)
  show ?case
  proof (cases "P a")
    case True
    then show ?thesis using Cons.prems(1)[of "[]" a as] Cons.prems(2) by simp
  next
    case False
    then obtain zs where zs: "upd_first P f as = Some zs" "ys = a # zs"
      using Cons.prems(2) by auto
    from zs(1) obtain us x vs where "as = us @ x # vs" "P x" "\<forall>u \<in> set us. \<not> P u" "zs = us @ f x # vs"
      using Cons.IH by blast
    then show ?thesis using False zs(2) Cons.prems(1)[of "a # us" x vs] by simp
  qed
qed simp

lemma upd_first_map_inv:
  assumes "upd_first P f xs = Some ys" and "\<And>x. P x \<Longrightarrow> g (f x) = g x"
  shows "map g ys = map g xs"
  using assms by (elim upd_first_SomeE) auto

lemma find_upd_first:
  assumes "upd_first (\<lambda>x. key x = key e) (\<lambda>_. e) xs = Some ys"
  shows "find (\<lambda>x. key x = k) ys = (if k = key e then Some e else find (\<lambda>x. key x = k) xs)"
  using assms by (induction xs arbitrary: ys) (auto split: if_splits)

lemma find_upd_first_key:
  assumes "upd_first (\<lambda>x. key x = k0) f xs = Some ys" and "\<And>x. key (f x) = key x"
  shows "find (\<lambda>x. key x = k) ys = (if k = k0 then map_option f (find (\<lambda>x. key x = k0) xs) else find (\<lambda>x. key x = k) xs)"
  using assms(1) by (induction xs arbitrary: ys) (auto simp: assms(2) split: if_splits)

lemma find_snoc:
  "find P (xs @ [x]) = (case find P xs of Some y \<Rightarrow> Some y | None \<Rightarrow> if P x then Some x else None)"
  by (induction xs) auto

lemma find_append: "find P (xs @ ys) = (case find P xs of Some x \<Rightarrow> Some x | None \<Rightarrow> find P ys)"
  by (induction xs) auto

lemma find_SomeD: "find P xs = Some x \<Longrightarrow> x \<in> set xs \<and> P x"
  by (auto simp: find_Some_iff)

text \<open>The position of the first entry satisfying \<open>P\<close>, for scans that return a pointer to a slot.\<close>

fun find_index :: "('a \<Rightarrow> bool) \<Rightarrow> 'a list \<Rightarrow> nat option" where
  "find_index P [] = None"
| "find_index P (x # xs) = (if P x then Some 0 else map_option Suc (find_index P xs))"

lemma find_index_None_iff: "find_index P xs = None \<longleftrightarrow> (\<forall>x \<in> set xs. \<not> P x)"
  by (induction xs) auto

lemma find_index_SomeD: "find_index P xs = Some i \<Longrightarrow> i < length xs \<and> P (xs ! i) \<and> (\<forall>j < i. \<not> P (xs ! j))"
proof (induction xs arbitrary: i)
  case (Cons x xs)
  then show ?case by (auto simp: nth_Cons split: if_splits nat.splits)
qed simp

lemma find_index_SomeI:
  "i < length xs \<Longrightarrow> P (xs ! i) \<Longrightarrow> (\<forall>j < length xs. P (xs ! j) \<longrightarrow> j = i) \<Longrightarrow> find_index P xs = Some i"
  by (metis find_index_None_iff find_index_SomeD nth_mem option.exhaust)

lemma upd_first_find_index:
  "upd_first P f xs = (case find_index P xs of None \<Rightarrow> None | Some i \<Rightarrow> Some (xs[i := f (xs ! i)]))"
  by (induction xs) (auto split: option.splits)

lemma upd_first_map:
  assumes "\<And>x. Q (h x) = P x" and "\<And>x. P x \<Longrightarrow> h (f x) = f' (h x)"
  shows "upd_first Q f' (map h xs) = map_option (map h) (upd_first P f xs)"
  by (induction xs) (auto simp: assms option.map_comp comp_def)

text \<open>Replace the entry with the same key, or append: the tail of every registration routine.\<close>

definition list_put :: "('e \<Rightarrow> 'k) \<Rightarrow> 'e \<Rightarrow> 'e list \<Rightarrow> 'e list" where
  "list_put key e t =
    (case upd_first (\<lambda>x. key x = key e) (\<lambda>_. e) t of Some t' \<Rightarrow> t' | None \<Rightarrow> t @ [e])"

lemma find_list_put:
  "find (\<lambda>x. key x = k) (list_put key e t) = (if k = key e then Some e else find (\<lambda>x. key x = k) t)"
proof (cases "upd_first (\<lambda>x. key x = key e) (\<lambda>_. e) t")
  case None
  then have "list_put key e t = t @ [e]" by (simp only: list_put_def option.case)
  moreover have "find (\<lambda>x. key x = key e) t = None" using None by (auto simp: find_None_iff)
  ultimately show ?thesis by (auto simp: find_snoc split: option.splits)
next
  case (Some t')
  then show ?thesis using find_upd_first[OF Some] by (simp add: list_put_def)
qed

lemma length_list_put: "length (list_put key e t) \<le> Suc (length t)"
  by (auto simp: list_put_def dest: upd_first_length split: option.splits)

lemma distinct_list_put: "distinct (map key t) \<Longrightarrow> distinct (map key (list_put key e t))"
proof (cases "upd_first (\<lambda>x. key x = key e) (\<lambda>_. e) t")
  case (Some t')
  then have "map key t' = map key t" by (rule upd_first_map_inv) simp
  then show "distinct (map key t) \<Longrightarrow> ?thesis" using Some by (simp add: list_put_def)
next
  case None
  then have "list_put key e t = t @ [e]" by (simp only: list_put_def option.case)
  then show "distinct (map key t) \<Longrightarrow> ?thesis" using None by auto
qed

lemma set_list_put: "set (list_put key e t) \<subseteq> insert e (set t)"
  by (auto simp: list_put_def dest: upd_first_set split: option.splits)

lemma find_distinct_key:
  "distinct (map key t) \<Longrightarrow> find (\<lambda>x. key x = k \<and> P x) t =
     (case find (\<lambda>x. key x = k) t of Some x \<Rightarrow> if P x then Some x else None | None \<Rightarrow> None)"
proof (induction t)
  case (Cons a t)
  have "key a = k \<Longrightarrow> find (\<lambda>x. key x = k \<and> P x) t = None"
    using Cons.prems by (auto simp: find_None_iff image_iff)
  with Cons show ?case by auto
qed simp

section \<open>Bounded keyed tables\<close>

text \<open>
  The interface of the registries of the firmware: entries with a key, a lookup and an insertion
  that replaces an entry with the same key and may refuse.
\<close>

primrec put_all :: "('s \<Rightarrow> 'e \<Rightarrow> 's option) \<Rightarrow> 's \<Rightarrow> 'e list \<Rightarrow> 's option" where
  "put_all put s [] = Some s"
| "put_all put s (e # es) = (case put s e of None \<Rightarrow> None | Some s' \<Rightarrow> put_all put s' es)"

locale keyed_table =
  fixes key :: "'e \<Rightarrow> 'k"
    and get :: "'s \<Rightarrow> 'k \<Rightarrow> 'e option"
    and put :: "'s \<Rightarrow> 'e \<Rightarrow> 's option"
    and inv :: "'s \<Rightarrow> bool"
  assumes put_inv: "inv s \<Longrightarrow> put s e = Some s' \<Longrightarrow> inv s'"
    and get_put: "inv s \<Longrightarrow> put s e = Some s' \<Longrightarrow> get s' k = (if k = key e then Some e else get s k)"
begin

lemma put_all_inv: "inv s \<Longrightarrow> put_all put s es = Some s' \<Longrightarrow> inv s'"
  by (induction es arbitrary: s) (auto split: option.splits dest: put_inv)

lemma get_put_all:
  "inv s \<Longrightarrow> put_all put s es = Some s' \<Longrightarrow>
    get s' k = (case find (\<lambda>e. key e = k) (rev es) of Some e \<Rightarrow> Some e | None \<Rightarrow> get s k)"
proof (induction es arbitrary: s)
  case (Cons e es)
  then obtain s1 where s1: "put s e = Some s1" "put_all put s1 es = Some s'"
    by (auto split: option.splits)
  have "get s' k = (case find (\<lambda>e. key e = k) (rev es) of Some e \<Rightarrow> Some e | None \<Rightarrow> get s1 k)"
    using Cons.IH[OF put_inv[OF Cons.prems(1) s1(1)] s1(2)] .
  then show ?case
    using get_put[OF Cons.prems(1) s1(1), of k] by (auto simp: find_snoc split: option.splits)
qed simp

lemma get_last_writer:
  assumes "inv s" and "put_all put s (es @ [e]) = Some s'"
  shows "get s' (key e) = Some e"
  using get_put_all[OF assms, of "key e"] by simp

end

locale bounded_table = keyed_table key get put inv
  for key :: "'e \<Rightarrow> 'k" and get :: "'s \<Rightarrow> 'k \<Rightarrow> 'e option" and put :: "'s \<Rightarrow> 'e \<Rightarrow> 's option"
    and inv :: "'s \<Rightarrow> bool" +
  fixes size_of :: "'s \<Rightarrow> nat" and cap :: nat
  assumes size_le_cap: "inv s \<Longrightarrow> size_of s \<le> cap"
    and put_size: "inv s \<Longrightarrow> put s e = Some s' \<Longrightarrow> size_of s' \<le> Suc (size_of s)"
    and put_ok: "inv s \<Longrightarrow> size_of s < cap \<Longrightarrow> put s e \<noteq> None"
begin

lemma put_all_ok:
  "inv s \<Longrightarrow> size_of s + length es \<le> cap \<Longrightarrow> \<exists>s'. put_all put s es = Some s'"
proof (induction es arbitrary: s)
  case (Cons e es)
  from put_ok[OF Cons.prems(1)] Cons.prems(2) obtain s1 where s1: "put s e = Some s1" by auto
  then have "size_of s1 + length es \<le> cap"
    using put_size[OF Cons.prems(1) s1] Cons.prems(2) by simp
  from Cons.IH[OF put_inv[OF Cons.prems(1) s1] this] s1 show ?case by simp
qed simp

lemma register_all:
  assumes "inv s" and "size_of s + length es \<le> cap"
  obtains s' where "put_all put s es = Some s'" "inv s'"
    "\<And>k. get s' k = (case find (\<lambda>e. key e = k) (rev es) of Some e \<Rightarrow> Some e | None \<Rightarrow> get s k)"
  using put_all_ok[OF assms] get_put_all[OF assms(1)] put_all_inv[OF assms(1)] by blast

end

section \<open>Checksum registers\<close>

text \<open>
  A checksum register that is fed byte by byte.  When a step loses no information, neither about the register nor
  about the byte, the checksum of two messages that differ in one byte differs.
\<close>

locale checksum_register =
  fixes feed :: "'c \<Rightarrow> 'b \<Rightarrow> 'c"
  assumes feed_inj_register: "feed c b = feed d b \<Longrightarrow> c = d"
    and feed_inj_byte: "feed c a = feed c b \<Longrightarrow> a = b"
begin

lemma feed_all_inj: "foldl feed c xs = foldl feed d xs \<Longrightarrow> c = d"
  by (induction xs arbitrary: c d) (auto dest: feed_inj_register)

lemma detects_byte: "a \<noteq> b \<Longrightarrow> foldl feed c (xs @ a # ys) \<noteq> foldl feed c (xs @ b # ys)"
  by (auto dest: feed_all_inj feed_inj_byte)

lemma detects_update:
  assumes "i < length xs" and "b \<noteq> xs ! i"
  shows "foldl feed c (xs[i := b]) \<noteq> foldl feed c xs"
  using detects_byte[OF assms(2), of c "take i xs" "drop (Suc i) xs"]
  unfolding upd_conv_take_nth_drop[OF assms(1)] id_take_nth_drop[OF assms(1), symmetric] .

end

section \<open>Datagram links\<close>

text \<open>
  The interface of a radio link: a datagram that fits is accepted, and the next receive on the other side returns
  exactly it.  \<open>relay\<close> is a sender and a receiver that take turns.
\<close>

primrec relay ::
  "('s \<Rightarrow> bytes \<Rightarrow> bool \<times> 's) \<Rightarrow> ('s \<Rightarrow> bytes option \<times> 's) \<Rightarrow> 's \<Rightarrow> bytes list \<Rightarrow> bytes option list \<times> 's"
where
  "relay send recv s [] = ([], s)"
| "relay send recv s (p # ps) =
    (case send s p of (_, s) \<Rightarrow> case recv s of (r, s) \<Rightarrow> case relay send recv s ps of (rs, s) \<Rightarrow> (r # rs, s))"

locale datagram_link =
  fixes ready :: "'s \<Rightarrow> bool" and mtu :: nat
    and send :: "'s \<Rightarrow> bytes \<Rightarrow> bool \<times> 's" and recv :: "'s \<Rightarrow> bytes option \<times> 's"
  assumes transfer: "ready s \<Longrightarrow> p \<noteq> [] \<Longrightarrow> length p \<le> mtu \<Longrightarrow>
      \<exists>s1 s2. send s p = (True, s1) \<and> ready s1 \<and> recv s1 = (Some p, s2) \<and> ready s2"
begin

lemma relay_all:
  "ready s \<Longrightarrow> \<forall>p \<in> set ps. p \<noteq> [] \<and> length p \<le> mtu \<Longrightarrow> fst (relay send recv s ps) = map Some ps"
proof (induction ps arbitrary: s)
  case (Cons p ps)
  then obtain s1 s2 where t: "send s p = (True, s1)" "recv s1 = (Some p, s2)" "ready s2"
    using transfer[of s p] by auto
  then show ?case using Cons.IH[of s2] Cons.prems(2) by (simp add: case_prod_beta)
qed simp

end

section \<open>Transition systems\<close>

text \<open>Reachability of a module: the calls its clients can make, from its initial state.\<close>

locale invariant_system =
  fixes init :: "'s \<Rightarrow> bool" and step :: "'s \<Rightarrow> 's \<Rightarrow> bool" and inv :: "'s \<Rightarrow> bool"
  assumes init_inv: "init s \<Longrightarrow> inv s" and step_inv: "inv s \<Longrightarrow> step s s' \<Longrightarrow> inv s'"
begin

lemma steps_inv: "step\<^sup>*\<^sup>* s s' \<Longrightarrow> inv s \<Longrightarrow> inv s'"
  by (induction rule: rtranclp_induct) (auto intro: step_inv)

lemma reachable_inv: "init s \<Longrightarrow> step\<^sup>*\<^sup>* s s' \<Longrightarrow> inv s'"
  using steps_inv init_inv by blast

end

section \<open>Logs that keep the last entries\<close>

definition last_n :: "nat \<Rightarrow> 'a list \<Rightarrow> 'a list" where
  "last_n n xs = drop (length xs - n) xs"

lemma length_last_n [simp]: "length (last_n n xs) = min n (length xs)"
  by (simp add: last_n_def min_def)

lemma last_n_all [simp]: "length xs \<le> n \<Longrightarrow> last_n n xs = xs"
  by (simp add: last_n_def)

lemma last_n_append: "last_n n (last_n n xs @ ys) = last_n n (xs @ ys)"
proof (cases "length xs \<le> n")
  case False
  then have "last_n n (xs @ ys) = last_n n (drop (length xs - n) xs @ ys)"
    by (auto simp: last_n_def add.commute)
  then show ?thesis by (simp add: last_n_def)
qed simp

text \<open>A ring stored in a list, read from its write position.\<close>

lemma take_Suc_update: "i < length xs \<Longrightarrow> take (Suc i) (xs[i := x]) = take i xs @ [x]"
  by (simp add: take_Suc_conv_app_nth)

lemma ring_shift:
  assumes "w < n" and "length xs = n"
  shows "(let w' = Suc w mod n; ys = xs[w := x] in drop w' ys @ take w' ys)
       = drop (Suc w) xs @ take w xs @ [x]"
proof (cases "Suc w = n")
  case True
  then show ?thesis using assms by (simp add: take_Suc_update[symmetric])
next
  case False
  then have "Suc w mod n = Suc w" using assms by simp
  then show ?thesis using assms by (simp add: take_Suc_update)
qed

lemma ring_drop_oldest:
  "w < length xs \<Longrightarrow> drop 1 ((drop w xs @ take w xs) @ [x]) = drop (Suc w) xs @ take w xs @ [x]"
  by (simp add: Cons_nth_drop_Suc[symmetric])

lemma hd_ring: "w < length xs \<Longrightarrow> hd (drop w xs @ take w xs) = xs ! w"
  by (simp add: hd_append hd_drop_conv_nth)

locale ring_log =
  fixes push :: "'s \<Rightarrow> 'a \<Rightarrow> 's" and contents :: "'s \<Rightarrow> 'a list" and cap :: nat
    and inv :: "'s \<Rightarrow> bool"
  assumes push_inv: "inv s \<Longrightarrow> inv (push s x)"
    and contents_push: "inv s \<Longrightarrow> contents (push s x) = last_n cap (contents s @ [x])"
begin

lemma push_all_inv: "inv s \<Longrightarrow> inv (foldl push s xs)"
  by (induction xs arbitrary: s) (auto intro: push_inv)

lemma contents_push_all:
  "inv s \<Longrightarrow> length (contents s) \<le> cap \<Longrightarrow> contents (foldl push s xs) = last_n cap (contents s @ xs)"
proof (induction xs arbitrary: s)
  case (Cons x xs)
  have "contents (foldl push (push s x) xs) = last_n cap (contents (push s x) @ xs)"
    using Cons.prems by (intro Cons.IH) (auto simp: push_inv contents_push)
  then show ?case using Cons.prems by (simp add: contents_push last_n_append)
qed simp

end

section \<open>First-in first-out buffers\<close>

locale fifo_buffer =
  fixes enq :: "'s \<Rightarrow> 'a \<Rightarrow> 's option" and deq :: "'s \<Rightarrow> ('a \<times> 's) option"
    and contents :: "'s \<Rightarrow> 'a list" and inv :: "'s \<Rightarrow> bool"
  assumes enq_inv: "inv s \<Longrightarrow> enq s x = Some s' \<Longrightarrow> inv s'"
    and contents_enq: "inv s \<Longrightarrow> enq s x = Some s' \<Longrightarrow> contents s' = contents s @ [x]"
    and deq_inv: "inv s \<Longrightarrow> deq s = Some (x, s') \<Longrightarrow> inv s'"
    and contents_deq: "inv s \<Longrightarrow> deq s = Some (x, s') \<Longrightarrow> contents s = x # contents s'"
    and deq_None: "inv s \<Longrightarrow> deq s = None \<Longrightarrow> contents s = []"
begin

lemma enq_all_contents:
  "inv s \<Longrightarrow> put_all enq s xs = Some s' \<Longrightarrow> contents s' = contents s @ xs"
proof (induction xs arbitrary: s)
  case (Cons x xs)
  then obtain s1 where "enq s x = Some s1" "put_all enq s1 xs = Some s'"
    by (auto split: option.splits)
  with Cons show ?case using enq_inv[of s x s1] contents_enq[of s x s1] by simp
qed simp

lemma enq_all_inv: "inv s \<Longrightarrow> put_all enq s xs = Some s' \<Longrightarrow> inv s'"
  by (induction xs arbitrary: s) (auto split: option.splits dest: enq_inv)

lemma deq_of_contents: "inv s \<Longrightarrow> contents s = x # xs \<Longrightarrow> \<exists>s'. deq s = Some (x, s') \<and> contents s' = xs"
  using contents_deq deq_None by (cases "deq s") fastforce+

end

end
