(* ===== verification/Float32.thy ===== *)
theory Float32
  imports Iot_Prelude "HOL-Library.Log_Nat"
begin

text \<open>
  C's \<open>float\<close> as IEEE 754 binary32.  A value is its 32-bit pattern, so that NaN, the infinities
  and the two zeros are the ones the compiled firmware sees, and the comparison operators are
  false on NaN exactly as in C.  Arithmetic is computed exactly on integers, in units of the
  smallest positive subnormal number, and rounded to nearest, ties to even.  The lemmas at the
  end relate the comparisons to the integers the patterns denote.
\<close>

type_synonym f32 = u32

section \<open>Classification and order\<close>

definition f32_mag :: "f32 \<Rightarrow> nat" where
  "f32_mag x = unat x mod 2147483648"

definition f32_sign :: "f32 \<Rightarrow> bool" where
  "f32_sign x \<longleftrightarrow> 2147483648 \<le> unat x"

definition f32_is_nan :: "f32 \<Rightarrow> bool" where
  "f32_is_nan x \<longleftrightarrow> 2139095040 < f32_mag x"

definition f32_is_inf :: "f32 \<Rightarrow> bool" where
  "f32_is_inf x \<longleftrightarrow> f32_mag x = 2139095040"

text \<open>The patterns without NaN, ordered as the reals they denote.\<close>

definition f32_key :: "f32 \<Rightarrow> int" where
  "f32_key x = (if f32_sign x then - int (f32_mag x) else int (f32_mag x))"

definition f32_lt :: "f32 \<Rightarrow> f32 \<Rightarrow> bool" where
  "f32_lt x y \<longleftrightarrow> \<not> f32_is_nan x \<and> \<not> f32_is_nan y \<and> f32_key x < f32_key y"

definition f32_le :: "f32 \<Rightarrow> f32 \<Rightarrow> bool" where
  "f32_le x y \<longleftrightarrow> \<not> f32_is_nan x \<and> \<not> f32_is_nan y \<and> f32_key x \<le> f32_key y"

definition f32_eq :: "f32 \<Rightarrow> f32 \<Rightarrow> bool" where
  "f32_eq x y \<longleftrightarrow> \<not> f32_is_nan x \<and> \<not> f32_is_nan y \<and> f32_key x = f32_key y"

section \<open>Values and rounding\<close>

text \<open>The finite value of a magnitude, in units of \<open>2 ^ -149\<close>.\<close>

definition mag_units :: "nat \<Rightarrow> nat" where
  "mag_units m = (let e = m div 8388608; f = m mod 8388608
     in if e = 0 then f else (8388608 + f) * 2 ^ (e - 1))"

definition f32_units :: "f32 \<Rightarrow> int" where
  "f32_units x = (if f32_sign x then - int (mag_units (f32_mag x)) else int (mag_units (f32_mag x)))"

definition f32_nan :: f32 where "f32_nan = 0x7FC00000"

definition f32_of_mag :: "bool \<Rightarrow> nat \<Rightarrow> f32" where
  "f32_of_mag neg m = word_of_nat (if neg then m + 2147483648 else m)"

text \<open>
  \<open>round_mag n d\<close> is the magnitude nearest to \<open>n / d\<close> units: \<open>s\<close> is the number of bits the
  quotient has beyond the 24 of a significand.
\<close>

definition round_mag :: "nat \<Rightarrow> nat \<Rightarrow> nat" where
  "round_mag n d =
    (let s = floorlog 2 (n div d) - 24; D = d * 2 ^ s; q = n div D; r = n mod D;
         q' = (if 2 * r > D \<or> 2 * r = D \<and> odd q then q + 1 else q);
         m = s * 8388608 + q'
     in if m < 2139095040 then m else 2139095040)"

definition f32_round :: "bool \<Rightarrow> nat \<Rightarrow> nat \<Rightarrow> f32" where
  "f32_round neg n d = f32_of_mag neg (round_mag n d)"

section \<open>Arithmetic\<close>

definition f32_neg :: "f32 \<Rightarrow> f32" where
  "f32_neg x = x XOR 0x80000000"

definition f32_abs :: "f32 \<Rightarrow> f32" where
  "f32_abs x = x AND 0x7FFFFFFF"

definition f32_add :: "f32 \<Rightarrow> f32 \<Rightarrow> f32" where
  "f32_add x y =
    (if f32_is_nan x \<or> f32_is_nan y then f32_nan
     else if f32_is_inf x then (if f32_is_inf y \<and> f32_sign x \<noteq> f32_sign y then f32_nan else x)
     else if f32_is_inf y then y
     else let u = f32_units x + f32_units y
          in if u = 0 then f32_of_mag (f32_sign x \<and> f32_sign y) 0
             else f32_round (u < 0) (nat \<bar>u\<bar>) 1)"

definition f32_sub :: "f32 \<Rightarrow> f32 \<Rightarrow> f32" where
  "f32_sub x y = (if f32_is_nan y then f32_nan else f32_add x (f32_neg y))"

definition f32_mul :: "f32 \<Rightarrow> f32 \<Rightarrow> f32" where
  "f32_mul x y =
    (let neg = (f32_sign x \<noteq> f32_sign y)
     in if f32_is_nan x \<or> f32_is_nan y then f32_nan
        else if f32_is_inf x \<or> f32_is_inf y
          then (if f32_mag x = 0 \<or> f32_mag y = 0 then f32_nan else f32_of_mag neg 2139095040)
        else f32_round neg (mag_units (f32_mag x) * mag_units (f32_mag y)) (2 ^ 149))"

definition f32_div :: "f32 \<Rightarrow> f32 \<Rightarrow> f32" where
  "f32_div x y =
    (let neg = (f32_sign x \<noteq> f32_sign y)
     in if f32_is_nan x \<or> f32_is_nan y then f32_nan
        else if f32_is_inf x then (if f32_is_inf y then f32_nan else f32_of_mag neg 2139095040)
        else if f32_is_inf y then f32_of_mag neg 0
        else if f32_mag y = 0
          then (if f32_mag x = 0 then f32_nan else f32_of_mag neg 2139095040)
        else f32_round neg (mag_units (f32_mag x) * 2 ^ 149) (mag_units (f32_mag y)))"

text \<open>Conversion of an unsigned or signed integer.\<close>

definition f32_of_int :: "int \<Rightarrow> f32" where
  "f32_of_int i = f32_round (i < 0) (nat \<bar>i\<bar> * 2 ^ 149) 1"

text \<open>Conversion to an integer: truncation towards zero of a finite value.\<close>

definition f32_trunc :: "f32 \<Rightarrow> int" where
  "f32_trunc x = (if f32_sign x then - int (mag_units (f32_mag x) div 2 ^ 149)
                  else int (mag_units (f32_mag x) div 2 ^ 149))"

section \<open>Facts about the comparisons\<close>

lemmas f32_cmp_defs = f32_lt_def f32_le_def f32_eq_def f32_is_nan_def f32_key_def f32_sign_def f32_mag_def

lemma f32_lt_nan [simp]: "f32_is_nan x \<Longrightarrow> \<not> f32_lt x y" "f32_is_nan x \<Longrightarrow> \<not> f32_lt y x"
  by (auto simp: f32_lt_def)

lemma f32_le_nan [simp]: "f32_is_nan x \<Longrightarrow> \<not> f32_le x y" "f32_is_nan x \<Longrightarrow> \<not> f32_le y x"
  by (auto simp: f32_le_def)

lemma f32_eq_nan [simp]: "f32_is_nan x \<Longrightarrow> \<not> f32_eq x y" "f32_is_nan x \<Longrightarrow> \<not> f32_eq y x"
  by (auto simp: f32_eq_def)

lemma f32_not_lt: "\<not> f32_is_nan x \<Longrightarrow> \<not> f32_is_nan y \<Longrightarrow> \<not> f32_lt x y \<longleftrightarrow> f32_le y x"
  by (auto simp: f32_lt_def f32_le_def)

lemma f32_lt_not_le: "f32_lt x y \<Longrightarrow> \<not> f32_le y x"
  by (auto simp: f32_lt_def f32_le_def)

lemma f32_le_trans: "f32_le x y \<Longrightarrow> f32_le y z \<Longrightarrow> f32_le x z"
  by (auto simp: f32_le_def)

lemma f32_lt_le_trans: "f32_lt x y \<Longrightarrow> f32_le y z \<Longrightarrow> f32_lt x z"
  by (auto simp: f32_le_def f32_lt_def)

lemma f32_le_lt_trans: "f32_le x y \<Longrightarrow> f32_lt y z \<Longrightarrow> f32_lt x z"
  by (auto simp: f32_le_def f32_lt_def)

lemma f32_le_refl: "\<not> f32_is_nan x \<Longrightarrow> f32_le x x"
  by (simp add: f32_le_def)

lemma f32_eq_refl: "\<not> f32_is_nan x \<Longrightarrow> f32_eq x x"
  by (simp add: f32_eq_def)

text \<open>The bit order of magnitudes is the order of the numbers they denote.\<close>

lemma mag_units_Suc: "mag_units m < mag_units (Suc m)"
proof (cases "Suc (m mod 8388608) = 8388608")
  case True
  then have "Suc m div 8388608 = Suc (m div 8388608)" "Suc m mod 8388608 = 0"
    by (simp_all add: div_Suc mod_Suc)
  with True show ?thesis
    by (cases "m div 8388608") (auto simp: mag_units_def Let_def)
next
  case False
  then have "Suc m div 8388608 = m div 8388608" "Suc m mod 8388608 = Suc (m mod 8388608)"
    by (simp_all add: div_Suc mod_Suc)
  then show ?thesis by (simp add: mag_units_def Let_def)
qed

lemma mag_units_less_iff [simp]: "mag_units m < mag_units n \<longleftrightarrow> m < n"
  by (rule strict_mono_less) (simp add: strict_mono_Suc_iff mag_units_Suc)

lemma mag_units_le_iff [simp]: "mag_units m \<le> mag_units n \<longleftrightarrow> m \<le> n"
  by (simp flip: linorder_not_less)

lemma mag_units_0 [simp]: "mag_units 0 = 0"
  by (simp add: mag_units_def)

lemma f32_key_less_iff: "f32_key x < f32_key y \<longleftrightarrow> f32_units x < f32_units y"
proof -
  have pos: "0 < mag_units m \<longleftrightarrow> 0 < m" for m
    using mag_units_less_iff[of 0 m] by simp
  have z: "mag_units m = 0 \<longleftrightarrow> m = 0" for m
    using pos[of m] by auto
  have neg: "- int a < int b \<longleftrightarrow> 0 < a \<or> 0 < b" for a b
    by auto
  show ?thesis
    by (auto simp: f32_key_def f32_units_def pos z neg)
qed

text \<open>On finite patterns C's \<open><\<close> and \<open><=\<close> are the orders of the exact values.\<close>

lemma f32_lt_units:
  "\<not> f32_is_nan x \<Longrightarrow> \<not> f32_is_nan y \<Longrightarrow> f32_lt x y \<longleftrightarrow> f32_units x < f32_units y"
  by (simp add: f32_lt_def f32_key_less_iff)

lemma f32_le_units:
  "\<not> f32_is_nan x \<Longrightarrow> \<not> f32_is_nan y \<Longrightarrow> f32_le x y \<longleftrightarrow> f32_units x \<le> f32_units y"
  using f32_key_less_iff[of y x] by (auto simp: f32_le_def)

text \<open>Rounding is the identity on the values that a pattern denotes.\<close>

lemma round_mag_units:
  assumes "m < 2139095040"
  shows "round_mag (mag_units m) 1 = m"
proof (cases "m < 8388608")
  case True
  then have u: "mag_units m = m" by (simp add: mag_units_def)
  have "floorlog 2 m \<le> 24"
    using True by (intro floorlog_leI) auto
  with u assms show ?thesis by (simp add: round_mag_def)
next
  case False
  define e f where "e = m div 8388608" and "f = m mod 8388608"
  have e: "1 \<le> e" using False unfolding e_def by simp
  have f: "f < 8388608" unfolding f_def by simp
  have m: "m = e * 8388608 + f" unfolding e_def f_def by simp
  have u: "mag_units m = (8388608 + f) * 2 ^ (e - 1)"
    using e unfolding mag_units_def e_def f_def by (simp add: Let_def)
  have "floorlog 2 (8388608 + f) = 24"
    using f by (intro antisym floorlog_leI floorlog_geI) auto
  then have "floorlog 2 (mag_units m) - 24 = e - 1"
    unfolding u by (subst floorlog_power) simp_all
  moreover have "mag_units m div 2 ^ (e - 1) = 8388608 + f" "mag_units m mod 2 ^ (e - 1) = 0"
    unfolding u by simp_all
  moreover have "(e - 1) * 8388608 + (8388608 + f) = m"
    using e m by (cases e) auto
  ultimately show ?thesis using assms by (simp add: round_mag_def)
qed

end
