(* ===== verification/Stateful_Cache.thy ===== *)
theory Stateful_Cache
  imports Float32
begin

text \<open>
  The gateway's value cache (\<open>firmware/gateway/stateful_cache.{h,c}\<close>) and the delta filter in front
  of it (\<open>firmware/gateway/delta_filter.{h,c}\<close>).  The cache is the used prefix of \<open>s_entries\<close> with its
  statistics.  Values are compared with C's \<open>==\<close>, so a NaN is always a change and the two zeros are
  the same value.
\<close>

section \<open>Cache: data\<close>

definition GATEWAY_MAX_NODES :: nat where "GATEWAY_MAX_NODES = 64"
definition GATEWAY_MAX_METRICS :: nat where "GATEWAY_MAX_METRICS = 16"

record CacheEntry_t =
  ce_node_id :: u16
  ce_metric_id :: u8
  ce_value :: f32
  ce_valid :: bool
  ce_dirty :: bool

record CacheStats_t =
  cs_total_updates :: u32
  cs_total_hits :: u32
  cs_total_suppressed :: u32
  cs_active_entries :: u8

record cache =
  ca_entries :: "CacheEntry_t list"
  ca_stats :: CacheStats_t

section \<open>Cache: operations\<close>

definition cache_match :: "u16 \<Rightarrow> u8 \<Rightarrow> CacheEntry_t \<Rightarrow> bool" where
  "cache_match node_id metric_id e \<longleftrightarrow> ce_valid e \<and> ce_node_id e = node_id \<and> ce_metric_id e = metric_id"

definition find_entry :: "cache \<Rightarrow> u16 \<Rightarrow> u8 \<Rightarrow> nat option" where
  "find_entry c node_id metric_id = find_index (cache_match node_id metric_id) (ca_entries c)"

definition cache_stats_zero :: CacheStats_t where
  "cache_stats_zero = \<lparr>cs_total_updates = 0, cs_total_hits = 0, cs_total_suppressed = 0, cs_active_entries = 0\<rparr>"

definition cache_init :: "cache \<Rightarrow> cache" where
  "cache_init c = \<lparr>ca_entries = [], ca_stats = cache_stats_zero\<rparr>"

definition bump_hits :: "cache \<Rightarrow> cache" where
  "bump_hits c = c\<lparr>ca_stats := (ca_stats c)\<lparr>cs_total_hits := cs_total_hits (ca_stats c) + 1\<rparr>\<rparr>"

definition cache_write :: "cache \<Rightarrow> u16 \<Rightarrow> u8 \<Rightarrow> f32 \<Rightarrow> bool \<times> cache" where
  "cache_write c0 node_id metric_id val =
    (let st = ca_stats c0;
         c = c0\<lparr>ca_stats := st\<lparr>cs_total_updates := cs_total_updates st + 1\<rparr>\<rparr>
     in case find_entry c node_id metric_id of
          Some idx \<Rightarrow>
            let e = ca_entries c ! idx
            in if f32_eq (ce_value e) val
               then (True, c\<lparr>ca_stats := (ca_stats c)\<lparr>cs_total_suppressed := cs_total_suppressed (ca_stats c) + 1\<rparr>\<rparr>)
               else (True, bump_hits (c\<lparr>ca_entries := (ca_entries c)[idx := e\<lparr>ce_value := val, ce_dirty := True\<rparr>]\<rparr>))
        | None \<Rightarrow>
            if GATEWAY_MAX_NODES * GATEWAY_MAX_METRICS \<le> length (ca_entries c) then (False, c)
            else (True, bump_hits (c\<lparr>ca_entries := ca_entries c @
                   [\<lparr>ce_node_id = node_id, ce_metric_id = metric_id, ce_value = val, ce_valid = True, ce_dirty = True\<rparr>]\<rparr>)))"

definition cache_read :: "cache \<Rightarrow> u16 \<Rightarrow> u8 \<Rightarrow> f32 option" where
  "cache_read c node_id metric_id =
    (case find_entry c node_id metric_id of
       None \<Rightarrow> None
     | Some idx \<Rightarrow> if \<not> ce_valid (ca_entries c ! idx) then None else Some (ce_value (ca_entries c ! idx)))"

definition cache_is_dirty :: "cache \<Rightarrow> u16 \<Rightarrow> u8 \<Rightarrow> bool" where
  "cache_is_dirty c node_id metric_id =
    (case find_entry c node_id metric_id of
       None \<Rightarrow> False
     | Some idx \<Rightarrow> ce_valid (ca_entries c ! idx) \<and> ce_dirty (ca_entries c ! idx))"

definition cache_clear_dirty :: "cache \<Rightarrow> u16 \<Rightarrow> u8 \<Rightarrow> bool \<times> cache" where
  "cache_clear_dirty c node_id metric_id =
    (case find_entry c node_id metric_id of
       None \<Rightarrow> (False, c)
     | Some idx \<Rightarrow>
         if \<not> ce_valid (ca_entries c ! idx) then (False, c)
         else (True, c\<lparr>ca_entries := (ca_entries c)[idx := (ca_entries c ! idx)\<lparr>ce_dirty := False\<rparr>]\<rparr>))"

text \<open>The collecting loop, with the entries copied so far.\<close>

fun get_dirty_loop :: "CacheEntry_t list \<Rightarrow> nat \<Rightarrow> CacheEntry_t list \<Rightarrow> CacheEntry_t list" where
  "get_dirty_loop [] max_entries out = out"
| "get_dirty_loop (e # es) max_entries out =
    (if \<not> length out < max_entries then out
     else if ce_valid e \<and> ce_dirty e then get_dirty_loop es max_entries (out @ [e])
     else get_dirty_loop es max_entries out)"

definition cache_get_dirty :: "cache \<Rightarrow> u8 \<Rightarrow> CacheEntry_t list" where
  "cache_get_dirty c max_entries =
    (if max_entries = 0 then [] else get_dirty_loop (ca_entries c) (unat max_entries) [])"

definition cache_get_stats :: "cache \<Rightarrow> CacheStats_t \<times> cache" where
  "cache_get_stats c =
    (let st = (ca_stats c)\<lparr>cs_active_entries := word_of_nat (length (filter ce_valid (ca_entries c)))\<rparr>
     in (st, c\<lparr>ca_stats := st\<rparr>))"

definition cache_entry_count :: "cache \<Rightarrow> u16" where
  "cache_entry_count c = word_of_nat (length (ca_entries c))"

section \<open>Delta filter\<close>

definition DELTA_FILTER_MAX_METRICS :: nat where "DELTA_FILTER_MAX_METRICS = 16"

datatype DeltaFilterResult_t = DELTA_FORWARD | DELTA_SUPPRESS | DELTA_FIRST_READ | DELTA_ERR_NOT_FOUND

record DeltaThreshold_t =
  dt_metric_id :: u8
  dt_abs_threshold :: f32
  dt_configured :: bool

type_synonym delta_filter = "DeltaThreshold_t list"

definition find_threshold :: "delta_filter \<Rightarrow> u8 \<Rightarrow> DeltaThreshold_t option" where
  "find_threshold d metric_id = find (\<lambda>t. dt_configured t \<and> dt_metric_id t = metric_id) d"

definition delta_filter_init :: "delta_filter \<Rightarrow> delta_filter" where
  "delta_filter_init d = []"

definition delta_filter_set_threshold :: "delta_filter \<Rightarrow> u8 \<Rightarrow> f32 \<Rightarrow> bool \<times> delta_filter" where
  "delta_filter_set_threshold d metric_id abs_threshold =
    (case upd_first (\<lambda>t. dt_configured t \<and> dt_metric_id t = metric_id) (\<lambda>t. t\<lparr>dt_abs_threshold := abs_threshold\<rparr>) d of
       Some d' \<Rightarrow> (True, d')
     | None \<Rightarrow>
         if DELTA_FILTER_MAX_METRICS \<le> length d then (False, d)
         else (True, d @ [\<lparr>dt_metric_id = metric_id, dt_abs_threshold = abs_threshold, dt_configured = True\<rparr>]))"

definition delta_filter_evaluate :: "delta_filter \<Rightarrow> cache \<Rightarrow> u16 \<Rightarrow> u8 \<Rightarrow> f32 \<Rightarrow> DeltaFilterResult_t" where
  "delta_filter_evaluate d c node_id metric_id new_value =
    (case find_threshold d metric_id of
       None \<Rightarrow> DELTA_ERR_NOT_FOUND
     | Some t \<Rightarrow>
         (case cache_read c node_id metric_id of
            None \<Rightarrow> DELTA_FIRST_READ
          | Some cached \<Rightarrow>
              let delta = f32_abs (f32_sub new_value cached)
              in if f32_lt (dt_abs_threshold t) delta then DELTA_FORWARD else DELTA_SUPPRESS))"

definition delta_filter_config_count :: "delta_filter \<Rightarrow> u8" where
  "delta_filter_config_count d = word_of_nat (length d)"

section \<open>The invariant of the cache\<close>

definition cache_key :: "CacheEntry_t \<Rightarrow> u16 \<times> u8" where
  "cache_key e = (ce_node_id e, ce_metric_id e)"

definition cache_ok :: "cache \<Rightarrow> bool" where
  "cache_ok c \<longleftrightarrow> length (ca_entries c) \<le> 1024 \<and> (\<forall>e \<in> set (ca_entries c). ce_valid e)
     \<and> distinct (map cache_key (ca_entries c))"

text \<open>The entry of a key: the abstract view of the linear scan.\<close>

definition cache_lookup :: "cache \<Rightarrow> u16 \<times> u8 \<Rightarrow> CacheEntry_t option" where
  "cache_lookup c k = find (\<lambda>e. ce_valid e \<and> cache_key e = k) (ca_entries c)"

lemma find_index_find: "find P xs = map_option ((!) xs) (find_index P xs)"
  by (induction xs) (auto simp: option.map_comp comp_def)

lemma cache_match_key: "cache_match n m = (\<lambda>e. ce_valid e \<and> cache_key e = (n, m))"
  by (auto simp: cache_match_def cache_key_def fun_eq_iff)

lemma find_entry_lookup: "cache_lookup c (n, m) = map_option ((!) (ca_entries c)) (find_entry c n m)"
  by (simp add: cache_lookup_def find_entry_def cache_match_key find_index_find)

lemma find_entry_SomeD:
  "find_entry c n m = Some i \<Longrightarrow> i < length (ca_entries c) \<and> ce_valid (ca_entries c ! i)
     \<and> cache_key (ca_entries c ! i) = (n, m)"
  using find_index_SomeD[of "cache_match n m" "ca_entries c" i]
  by (auto simp: find_entry_def cache_match_def cache_key_def)

lemma cache_read_lookup: "cache_read c n m = map_option ce_value (cache_lookup c (n, m))"
  by (auto simp: cache_read_def find_entry_lookup dest: find_entry_SomeD split: option.splits)

lemma cache_is_dirty_lookup:
  "cache_is_dirty c n m \<longleftrightarrow> (\<exists>e. cache_lookup c (n, m) = Some e \<and> ce_dirty e)"
  by (auto simp: cache_is_dirty_def find_entry_lookup dest: find_entry_SomeD split: option.splits)

lemma find_list_update_key:
  assumes "distinct (map f xs)" and "i < length xs" and "P (xs ! i)" and "P x" and "f x = f (xs ! i)"
  shows "find (\<lambda>e. P e \<and> f e = k) (xs[i := x]) =
           (if k = f x then Some x else find (\<lambda>e. P e \<and> f e = k) xs)"
  using assms
proof (induction xs arbitrary: i)
  case (Cons a as)
  show ?case
  proof (cases i)
    case (Suc j)
    then have "f a \<noteq> f (as ! j)" using Cons.prems by (auto simp: image_iff)
    then show ?thesis using Suc Cons by auto
  qed (use Cons in auto)
qed simp

lemma cache_ok_update:
  assumes "cache_ok c" and "i < length (ca_entries c)" and "cache_key e = cache_key (ca_entries c ! i)" and "ce_valid e"
  shows "cache_ok (c\<lparr>ca_entries := (ca_entries c)[i := e]\<rparr>)"
proof -
  have "map cache_key ((ca_entries c)[i := e]) = map cache_key (ca_entries c)"
    using assms by (intro nth_equalityI) (auto simp: nth_list_update)
  then show ?thesis using assms set_update_subset_insert[of "ca_entries c" i e]
    by (auto simp: cache_ok_def)
qed

lemma cache_lookup_update:
  assumes "cache_ok c" and "i < length (ca_entries c)" and "cache_key e = cache_key (ca_entries c ! i)" and "ce_valid e"
  shows "cache_lookup (c\<lparr>ca_entries := (ca_entries c)[i := e]\<rparr>) k =
           (if k = cache_key e then Some e else cache_lookup c k)"
  using assms find_list_update_key[of cache_key "ca_entries c" i ce_valid e k]
  by (auto simp: cache_lookup_def cache_ok_def)

lemma cache_stats_irrelevant [simp]:
  "cache_lookup (c\<lparr>ca_stats := s\<rparr>) k = cache_lookup c k" "cache_ok (c\<lparr>ca_stats := s\<rparr>) = cache_ok c"
  "find_entry (c\<lparr>ca_stats := s\<rparr>) n m = find_entry c n m"
  "cache_lookup (bump_hits c) k = cache_lookup c k" "cache_ok (bump_hits c) = cache_ok c"
  by (simp_all add: cache_lookup_def cache_ok_def find_entry_def bump_hits_def)

text \<open>What a write does to every key.\<close>

lemma cache_write_lookup:
  assumes ok: "cache_ok c" and w: "cache_write c n m v = (r, c')"
  shows "cache_ok c'"
    and "k \<noteq> (n, m) \<Longrightarrow> cache_lookup c' k = cache_lookup c k"
    and "r \<Longrightarrow> (case cache_lookup c (n, m) of
           Some e \<Rightarrow> cache_lookup c' (n, m) =
             Some (if f32_eq (ce_value e) v then e else e\<lparr>ce_value := v, ce_dirty := True\<rparr>)
         | None \<Rightarrow> cache_lookup c' (n, m) = Some \<lparr>ce_node_id = n, ce_metric_id = m, ce_value = v,
             ce_valid = True, ce_dirty = True\<rparr>)"
    and "\<not> r \<longleftrightarrow> cache_lookup c (n, m) = None \<and> length (ca_entries c) = 1024"
proof -
  have *: "cache_ok c' \<and> (k \<noteq> (n, m) \<longrightarrow> cache_lookup c' k = cache_lookup c k) \<and>
    (r \<longrightarrow> (case cache_lookup c (n, m) of
           Some e \<Rightarrow> cache_lookup c' (n, m) =
             Some (if f32_eq (ce_value e) v then e else e\<lparr>ce_value := v, ce_dirty := True\<rparr>)
         | None \<Rightarrow> cache_lookup c' (n, m) = Some \<lparr>ce_node_id = n, ce_metric_id = m, ce_value = v,
             ce_valid = True, ce_dirty = True\<rparr>)) \<and>
    (\<not> r \<longleftrightarrow> cache_lookup c (n, m) = None \<and> length (ca_entries c) = 1024)"
  proof (cases "find_entry c n m")
    case (Some i)
    note i = find_entry_SomeD[OF Some]
    let ?e = "(ca_entries c ! i)\<lparr>ce_value := v, ce_dirty := True\<rparr>"
    have "cache_key ?e = cache_key (ca_entries c ! i)" "ce_valid ?e" using i by (auto simp: cache_key_def)
    note upd = cache_ok_update[OF ok conjunct1[OF i] this] cache_lookup_update[OF ok conjunct1[OF i] this]
    have lk: "cache_lookup c (n, m) = Some (ca_entries c ! i)" using Some by (simp add: find_entry_lookup)
    have key: "cache_key ?e = (n, m)" using i by (simp add: cache_key_def)
    show ?thesis
    proof (cases "f32_eq (ce_value (ca_entries c ! i)) v")
      case True then show ?thesis using w Some lk ok by (auto simp: cache_write_def Let_def)
    next
      case False
      then have r: "r" and c': "ca_entries c' = (ca_entries c)[i := ?e]"
        using w Some by (auto simp: cache_write_def Let_def bump_hits_def)
      have "cache_lookup c' k = cache_lookup (c\<lparr>ca_entries := (ca_entries c)[i := ?e]\<rparr>) k" for k
        by (simp add: cache_lookup_def c')
      moreover have "cache_ok c' = cache_ok (c\<lparr>ca_entries := (ca_entries c)[i := ?e]\<rparr>)"
        by (simp add: cache_ok_def c')
      ultimately show ?thesis using upd lk key False r by simp
    qed
  next
    case None
    let ?e = "\<lparr>ce_node_id = n, ce_metric_id = m, ce_value = v, ce_valid = True, ce_dirty = True\<rparr>"
    have nl: "cache_lookup c (n, m) = None" using None by (simp add: find_entry_lookup)
    then have nk: "\<forall>e \<in> set (ca_entries c). cache_key e \<noteq> (n, m)"
      using ok by (auto simp: cache_lookup_def find_None_iff cache_ok_def)
    show ?thesis
    proof (cases "1024 \<le> length (ca_entries c)")
      case True
      then show ?thesis using w None nl ok
        by (auto simp: cache_write_def Let_def GATEWAY_MAX_NODES_def GATEWAY_MAX_METRICS_def cache_ok_def cache_lookup_def)
    next
      case False
      then have r: "r" and c': "ca_entries c' = ca_entries c @ [?e]"
        using w None by (auto simp: cache_write_def Let_def GATEWAY_MAX_NODES_def GATEWAY_MAX_METRICS_def bump_hits_def)
      have "cache_ok c'" using ok nk c' False by (auto simp: cache_ok_def cache_key_def)
      moreover have "cache_lookup c' k = (case cache_lookup c k of Some e \<Rightarrow> Some e
          | None \<Rightarrow> if k = (n, m) then Some ?e else None)" for k
        unfolding cache_lookup_def c' find_snoc by (simp add: cache_key_def)
      ultimately show ?thesis using r nl False by (auto split: option.splits)
    qed
  qed
  show "cache_ok c'"
    and "k \<noteq> (n, m) \<Longrightarrow> cache_lookup c' k = cache_lookup c k"
    and "r \<Longrightarrow> (case cache_lookup c (n, m) of
           Some e \<Rightarrow> cache_lookup c' (n, m) =
             Some (if f32_eq (ce_value e) v then e else e\<lparr>ce_value := v, ce_dirty := True\<rparr>)
         | None \<Rightarrow> cache_lookup c' (n, m) = Some \<lparr>ce_node_id = n, ce_metric_id = m, ce_value = v,
             ce_valid = True, ce_dirty = True\<rparr>)"
    and "\<not> r \<longleftrightarrow> cache_lookup c (n, m) = None \<and> length (ca_entries c) = 1024"
    using * by blast+
qed

lemma get_dirty_loop_eq:
  "length out \<le> k \<Longrightarrow> get_dirty_loop es k out =
     out @ take (k - length out) (filter (\<lambda>e. ce_valid e \<and> ce_dirty e) es)"
proof (induction es arbitrary: out)
  case (Cons e es)
  show ?case
  proof (cases "length out < k")
    case True
    then have "k - length out = Suc (k - Suc (length out))" by simp
    with True Cons.IH[of out] Cons.IH[of "out @ [e]"] show ?thesis by auto
  qed (use Cons.prems in auto)
qed simp

lemma cache_get_dirty_eq:
  "cache_get_dirty c k = take (unat k) (filter (\<lambda>e. ce_valid e \<and> ce_dirty e) (ca_entries c))"
  by (auto simp: cache_get_dirty_def get_dirty_loop_eq)

lemma cache_ok_init: "cache_ok (cache_init c)"
  by (simp add: cache_ok_def cache_init_def)

section \<open>Properties\<close>

text \<open>
  Read after write: a successful write is read back (as an equal float), every other key keeps
  its value and its dirty flag, the entry is dirty afterwards exactly when it was dirty before or
  the value changed, and a write fails only for a new key in a cache of 1024 entries.
\<close>

theorem cache_read_after_write:
  assumes "cache_ok c" and "cache_write c n m v = (r, c')"
  shows "cache_ok c'
    \<and> (r \<longrightarrow> (\<exists>x. cache_read c' n m = Some x \<and> (x = v \<or> f32_eq x v)))
    \<and> (r \<longrightarrow> (cache_is_dirty c' n m \<longleftrightarrow> cache_is_dirty c n m \<or>
           (case cache_read c n m of Some x \<Rightarrow> \<not> f32_eq x v | None \<Rightarrow> True)))
    \<and> ((p, q) \<noteq> (n, m) \<longrightarrow> cache_read c' p q = cache_read c p q \<and> cache_is_dirty c' p q = cache_is_dirty c p q)
    \<and> (\<not> r \<longleftrightarrow> cache_read c n m = None \<and> length (ca_entries c) = 1024)"
  using cache_write_lookup[OF assms]
  by (auto simp: cache_read_lookup cache_is_dirty_lookup split: option.splits if_splits)

definition demo_cache :: cache where
  "demo_cache = snd (cache_write (cache_init \<lparr>ca_entries = [], ca_stats = cache_stats_zero\<rparr>) 7 1 0x41A00000)"

lemma demo_cache_ok: "cache_ok demo_cache"
  unfolding demo_cache_def by (rule cache_write_lookup(1)[OF cache_ok_init prod.collapse[symmetric]])

theorem cache_read_after_write_witness:
  "\<exists>x. cache_read (snd (cache_write demo_cache 7 2 0x3F800000)) 7 2 = Some x \<and> (x = 0x3F800000 \<or> f32_eq x 0x3F800000)"
  by (rule cache_read_after_write[OF demo_cache_ok prod.collapse[symmetric], THEN conjunct2, THEN conjunct1, rule_format])
    (simp add: demo_cache_def cache_write_def Let_def cache_init_def find_entry_def bump_hits_def
      GATEWAY_MAX_NODES_def GATEWAY_MAX_METRICS_def cache_match_def)

text \<open>
  A NaN in the cache silences its metric: whatever reading follows, the delta filter answers
  suppress, never forward, because the difference with NaN exceeds no threshold.
\<close>

theorem nan_cached_suppresses:
  assumes "find_threshold d m = Some t" and "cache_read c n m = Some x" and "f32_is_nan x"
  shows "delta_filter_evaluate d c n m v = DELTA_SUPPRESS"
proof -
  have "f32_abs (f32_sub v x) = f32_nan"
    using assms(3) by (simp add: f32_sub_def f32_nan_def f32_abs_def)
  moreover have "f32_is_nan f32_nan" by (simp add: f32_is_nan_def f32_mag_def f32_nan_def)
  ultimately show ?thesis using assms(1,2) by (simp add: delta_filter_evaluate_def)
qed

theorem nan_cached_suppresses_witness:
  "delta_filter_evaluate [\<lparr>dt_metric_id = 1, dt_abs_threshold = 0x3F000000, dt_configured = True\<rparr>]
     (snd (cache_write \<lparr>ca_entries = [], ca_stats = cache_stats_zero\<rparr> 7 1 0x7FC00000)) 7 1 0x42480000 = DELTA_SUPPRESS"
  by (rule nan_cached_suppresses)
    (auto simp: find_threshold_def cache_read_def find_entry_def cache_write_def Let_def bump_hits_def
      GATEWAY_MAX_NODES_def GATEWAY_MAX_METRICS_def cache_match_def f32_is_nan_def f32_mag_def)

end
