(* ===== verification/Attestation.thy ===== *)
theory Attestation
  imports Iot_Prelude
begin

text \<open>
  Challenge-response attestation (\<open>firmware/shared/attestation.{h,c}\<close>).  HMAC-SHA256 is mbedTLS
  code: it is the parameter \<open>md\<close>, a function of key and data that fails or returns a digest, of
  which only the digest length is ever assumed (\<open>md_hmac_ok\<close>).  The state is the registered prefix
  of \<open>g_key_table\<close>.
\<close>

section \<open>Data\<close>

definition ATTESTATION_HMAC_SIZE :: nat where "ATTESTATION_HMAC_SIZE = 32"
definition ATTESTATION_CHALLENGE_SIZE :: nat where "ATTESTATION_CHALLENGE_SIZE = 16"
definition ATTESTATION_KEY_SIZE :: nat where "ATTESTATION_KEY_SIZE = 32"
definition ATTESTATION_MAX_KEYS :: nat where "ATTESTATION_MAX_KEYS = 32"

type_synonym md_hmac = "bytes \<Rightarrow> bytes \<Rightarrow> bytes option"

definition md_hmac_ok :: "md_hmac \<Rightarrow> bool" where
  "md_hmac_ok md \<longleftrightarrow> (\<forall>k d out. md k d = Some out \<longrightarrow> length out = ATTESTATION_HMAC_SIZE)"

record AttestationChallenge_t =
  ac_challenge :: bytes
  ac_timestamp_ms :: u64
  ac_sender_id :: u8

record AttestationResponse_t =
  ar_response :: bytes
  ar_timestamp_ms :: u64
  ar_responder_id :: u8

datatype AttestationResult_t =
  ATTEST_OK | ATTEST_ERR_HMAC_MISMATCH | ATTEST_ERR_STALE_TIMESTAMP | ATTEST_ERR_UNKNOWN_NODE
| ATTEST_ERR_PARAM_NULL

record AttestationKeyRecord_t =
  ak_node_id :: u8
  ak_key :: bytes
  ak_active :: bool

record attestation =
  at_key_table :: "AttestationKeyRecord_t list"
  at_g_initialised :: bool

section \<open>Operations\<close>

definition iot_hmac_sha256 :: "md_hmac \<Rightarrow> bytes \<Rightarrow> bytes \<Rightarrow> bytes" where
  "iot_hmac_sha256 md key data =
    (case md key data of Some out \<Rightarrow> out | None \<Rightarrow> replicate ATTESTATION_HMAC_SIZE 0)"

definition attestation_init :: "attestation \<Rightarrow> bool \<times> attestation" where
  "attestation_init g = (True, \<lparr>at_key_table = [], at_g_initialised = True\<rparr>)"

definition attestation_register_key ::
  "attestation \<Rightarrow> AttestationKeyRecord_t option \<Rightarrow> AttestationResult_t \<times> attestation"
where
  "attestation_register_key g record =
    (case record of
       None \<Rightarrow> (ATTEST_ERR_PARAM_NULL, g)
     | Some r \<Rightarrow>
         if \<not> at_g_initialised g then (ATTEST_ERR_PARAM_NULL, g)
         else if ATTESTATION_MAX_KEYS \<le> length (at_key_table g) then (ATTEST_ERR_PARAM_NULL, g)
         else (ATTEST_OK, g\<lparr>at_key_table := list_put ak_node_id r (at_key_table g)\<rparr>))"

definition attestation_payload :: "AttestationChallenge_t \<Rightarrow> bytes" where
  "attestation_payload c = ac_challenge c @ be_bytes64 (ac_timestamp_ms c) @ [ac_sender_id c]"

definition attestation_compute_response :: "md_hmac \<Rightarrow> bytes \<Rightarrow> AttestationChallenge_t \<Rightarrow> bytes" where
  "attestation_compute_response md key challenge = iot_hmac_sha256 md key (attestation_payload challenge)"

definition attestation_verify ::
  "md_hmac \<Rightarrow> attestation \<Rightarrow> AttestationChallenge_t option \<Rightarrow> AttestationResponse_t option \<Rightarrow> u64 \<Rightarrow>
   AttestationResult_t"
where
  "attestation_verify md g challenge response max_drift_ms =
    (case (challenge, response) of
       (Some c, Some r) \<Rightarrow>
         if \<not> at_g_initialised g then ATTEST_ERR_PARAM_NULL
         else
           let diff = (if ac_timestamp_ms c > ar_timestamp_ms r
                       then ac_timestamp_ms c - ar_timestamp_ms r
                       else ar_timestamp_ms r - ac_timestamp_ms c)
           in if diff > max_drift_ms then ATTEST_ERR_STALE_TIMESTAMP
              else (case find (\<lambda>k. ak_node_id k = ar_responder_id r \<and> ak_active k) (at_key_table g) of
                 None \<Rightarrow> ATTEST_ERR_UNKNOWN_NODE
               | Some key_rec \<Rightarrow>
                   if ct_diff (ar_response r) (attestation_compute_response md (ak_key key_rec) c) = 0
                   then ATTEST_OK else ATTEST_ERR_HMAC_MISMATCH)
     | _ \<Rightarrow> ATTEST_ERR_PARAM_NULL)"

section \<open>The key table as a registry\<close>

definition attestation_ok :: "attestation \<Rightarrow> bool" where
  "attestation_ok g \<longleftrightarrow> at_g_initialised g \<and> length (at_key_table g) \<le> ATTESTATION_MAX_KEYS
     \<and> distinct (map ak_node_id (at_key_table g))"

definition attestation_put :: "attestation \<Rightarrow> AttestationKeyRecord_t \<Rightarrow> attestation option" where
  "attestation_put g r = (case attestation_register_key g (Some r) of
     (res, g') \<Rightarrow> if res = ATTEST_OK then Some g' else None)"

definition attestation_get :: "attestation \<Rightarrow> u8 \<Rightarrow> AttestationKeyRecord_t option" where
  "attestation_get g n = find (\<lambda>k. ak_node_id k = n) (at_key_table g)"

lemma attestation_put_eq:
  "attestation_put g r = Some g' \<longleftrightarrow> at_g_initialised g \<and> length (at_key_table g) < ATTESTATION_MAX_KEYS
     \<and> g' = g\<lparr>at_key_table := list_put ak_node_id r (at_key_table g)\<rparr>"
  by (auto simp: attestation_put_def attestation_register_key_def)

lemma attestation_put_ok: "attestation_ok g \<Longrightarrow> attestation_put g r = Some g' \<Longrightarrow> attestation_ok g'"
  using length_list_put[of ak_node_id r "at_key_table g"]
  by (simp add: attestation_put_eq attestation_ok_def distinct_list_put)

interpretation key_table: bounded_table ak_node_id attestation_get attestation_put attestation_ok
  "\<lambda>g. length (at_key_table g)" ATTESTATION_MAX_KEYS
proof
  fix g r g'
  show "attestation_ok g \<Longrightarrow> length (at_key_table g) < ATTESTATION_MAX_KEYS \<Longrightarrow> attestation_put g r \<noteq> None"
    by (simp add: attestation_put_def attestation_register_key_def attestation_ok_def)
  show "attestation_ok g \<Longrightarrow> attestation_put g r = Some g' \<Longrightarrow> attestation_ok g'"
    by (rule attestation_put_ok)
qed (auto simp: attestation_get_def attestation_put_eq attestation_ok_def length_list_put find_list_put)

lemma attestation_ok_init: "attestation_ok (snd (attestation_init g))"
  by (simp add: attestation_ok_def attestation_init_def)

lemma length_iot_hmac [simp]: "md_hmac_ok md \<Longrightarrow> length (iot_hmac_sha256 md k d) = ATTESTATION_HMAC_SIZE"
  by (auto simp: iot_hmac_sha256_def md_hmac_ok_def split: option.splits)

lemma attestation_find_active:
  "attestation_ok g \<Longrightarrow> find (\<lambda>k. ak_node_id k = n \<and> ak_active k) (at_key_table g) =
     (case attestation_get g n of Some r \<Rightarrow> if ak_active r then Some r else None | None \<Rightarrow> None)"
  by (simp add: attestation_get_def attestation_ok_def find_distinct_key)

section \<open>Properties\<close>

definition demo_md :: md_hmac where
  "demo_md k d = Some (take 32 (map2 (XOR) (k @ replicate 32 0) (d @ replicate 32 0)))"

definition demo_key :: "u8 \<Rightarrow> bool \<Rightarrow> AttestationKeyRecord_t" where
  "demo_key n a = \<lparr>ak_node_id = n, ak_key = replicate 32 n, ak_active = a\<rparr>"

definition demo_challenge :: AttestationChallenge_t where
  "demo_challenge = \<lparr>ac_challenge = replicate 16 7, ac_timestamp_ms = 1000, ac_sender_id = 1\<rparr>"

lemma demo_md_ok: "md_hmac_ok demo_md"
  by (auto simp: md_hmac_ok_def demo_md_def ATTESTATION_HMAC_SIZE_def)

lemma verify_iff:
  assumes "md_hmac_ok md" and "attestation_ok g" and "length (ar_response r) = ATTESTATION_HMAC_SIZE"
  shows "attestation_verify md g (Some c) (Some r) drift = ATTEST_OK \<longleftrightarrow>
    ndist (unat (ac_timestamp_ms c)) (unat (ar_timestamp_ms r)) \<le> unat drift \<and>
    (\<exists>k. attestation_get g (ar_responder_id r) = Some k \<and> ak_active k \<and>
         ar_response r = attestation_compute_response md (ak_key k) c)"
proof -
  have "length (ar_response r) = length (attestation_compute_response md key c)" for key
    using assms by (simp add: attestation_compute_response_def)
  moreover have "at_g_initialised g" using assms(2) by (simp add: attestation_ok_def)
  ultimately show ?thesis
    unfolding attestation_verify_def attestation_find_active[OF assms(2)] Let_def drift_nat
    by (auto simp: ct_diff_eq_0_iff split: option.splits)
qed

text \<open>
  Attestation succeeds exactly when the responder has a registered, active key, the two
  timestamps differ by at most the tolerance (in either direction, without wrap-around) and the
  32-byte response is the HMAC of the challenge under that key; the constant-time comparison is
  equality.
\<close>

theorem attestation_verify_iff:
  assumes "md_hmac_ok md" and "attestation_ok g" and "length (ar_response r) = ATTESTATION_HMAC_SIZE"
  shows "attestation_verify md g (Some c) (Some r) drift = ATTEST_OK \<longleftrightarrow>
    ndist (unat (ac_timestamp_ms c)) (unat (ar_timestamp_ms r)) \<le> unat drift \<and>
    (\<exists>k. attestation_get g (ar_responder_id r) = Some k \<and> ak_active k \<and>
         ar_response r = attestation_compute_response md (ak_key k) c)"
  by (rule verify_iff[OF assms])

theorem attestation_verify_iff_witness:
  "attestation_verify demo_md \<lparr>at_key_table = [demo_key 3 True], at_g_initialised = True\<rparr>
     (Some demo_challenge)
     (Some \<lparr>ar_response = attestation_compute_response demo_md (replicate 32 3) demo_challenge,
        ar_timestamp_ms = 3000, ar_responder_id = 3\<rparr>) 5000 = ATTEST_OK"
  by (subst attestation_verify_iff[OF demo_md_ok])
    (simp_all add: attestation_ok_def attestation_get_def demo_key_def demo_challenge_def
      ATTESTATION_MAX_KEYS_def attestation_compute_response_def demo_md_ok ndist_def)

text \<open>
  A node whose key was registered last as revoked, after any sequence of registrations, is
  rejected: no response of it is ever answered \<open>ATTEST_OK\<close>.
\<close>

theorem revoked_never_attests:
  assumes "put_all attestation_put (snd (attestation_init g)) (rs @ [r]) = Some g'"
    and "\<not> ak_active r" and "ar_responder_id resp = ak_node_id r"
  shows "attestation_verify md g' ch (Some resp) drift \<noteq> ATTEST_OK"
proof -
  have "attestation_get g' (ak_node_id r) = Some r"
    by (rule key_table.get_last_writer[OF attestation_ok_init assms(1)])
  moreover have "attestation_ok g'"
    by (rule key_table.put_all_inv[OF attestation_ok_init assms(1)])
  ultimately show ?thesis using assms(2,3)
    by (auto simp: attestation_verify_def attestation_find_active Let_def split: option.splits)
qed

theorem revoked_never_attests_witness:
  "attestation_verify demo_md
     \<lparr>at_key_table = [demo_key 3 False], at_g_initialised = True\<rparr> (Some demo_challenge)
     (Some \<lparr>ar_response = attestation_compute_response demo_md (replicate 32 3) demo_challenge,
        ar_timestamp_ms = 1000, ar_responder_id = 3\<rparr>) 5000 \<noteq> ATTEST_OK"
  by (rule revoked_never_attests[where rs = "[demo_key 3 True]" and r = "demo_key 3 False"
        and g = "\<lparr>at_key_table = [], at_g_initialised = False\<rparr>"])
    (simp_all add: attestation_put_eq attestation_init_def attestation_put_def list_put_def
      attestation_register_key_def ATTESTATION_MAX_KEYS_def demo_key_def)

end
