(* ===== verification/Time_Source.thy ===== *)
theory Time_Source
  imports Iot_Prelude
begin

text \<open>
  The time source with NTP/RTC fallback (\<open>firmware/shared/time_source.{h,c}\<close>).  The registered
  backend is hardware: its callbacks are data of the model, a missing callback is \<open>None\<close>, and the
  value is what the call returns at that moment.  The values handed to the storage callback
  \<open>save\<close> are kept in the ghost trace \<open>ts_saved\<close>.
\<close>

section \<open>Data\<close>

datatype TimeSourceState_t =
  TIME_SRC_UNINITIALISED | TIME_SRC_NTP_ACTIVE | TIME_SRC_RTC_ONLY | TIME_SRC_UNRELIABLE

record TimeSourceBackend_t =
  tb_ntp_time_get :: "u64 option"
  tb_ntp_is_synced :: "bool option"
  tb_rtc_time_get :: "u64 option"
  tb_rtc_is_available :: "bool option"

text \<open>\<open>ts_load\<close>: the callback, if any, and the value it loads or its failure.\<close>

record TimeSourceStorage_t =
  ts_has_save :: bool
  ts_load :: "u64 option option"

record time_source =
  ts_state :: TimeSourceState_t
  ts_backend :: "TimeSourceBackend_t option"
  ts_storage :: "TimeSourceStorage_t option"
  ts_mock_time :: u64
  ts_mock_reliable :: bool
  ts_mock_active :: bool
  ts_mock_rtc_persistent :: u64
  ts_mock_rtc_persistent_loaded :: bool
  ts_saved :: "u64 list"

section \<open>Operations\<close>

definition mock_rtc_persist :: "time_source \<Rightarrow> time_source" where
  "mock_rtc_persist g =
    (case ts_storage g of
       Some st \<Rightarrow> if ts_has_save st then g\<lparr>ts_saved := ts_saved g @ [ts_mock_rtc_persistent g]\<rparr> else g
     | None \<Rightarrow> g)"

definition time_source_set_storage :: "time_source \<Rightarrow> TimeSourceStorage_t option \<Rightarrow> time_source" where
  "time_source_set_storage g storage = g\<lparr>ts_storage := storage\<rparr>"

definition time_source_init :: "time_source \<Rightarrow> bool \<times> time_source" where
  "time_source_init g0 =
    (let g = g0\<lparr>ts_state := TIME_SRC_UNINITIALISED, ts_mock_active := False, ts_mock_time := 0,
                ts_mock_reliable := False, ts_mock_rtc_persistent_loaded := False\<rparr>
     in (True,
         case ts_storage g of
           Some st \<Rightarrow> (case ts_load st of
               Some (Some loaded_rtc) \<Rightarrow>
                 g\<lparr>ts_mock_rtc_persistent := loaded_rtc, ts_mock_rtc_persistent_loaded := loaded_rtc > 0\<rparr>
             | Some None \<Rightarrow> g
             | None \<Rightarrow> g\<lparr>ts_mock_rtc_persistent := 0\<rparr>)
         | None \<Rightarrow> g\<lparr>ts_mock_rtc_persistent := 0\<rparr>))"

definition time_source_set_backend :: "time_source \<Rightarrow> TimeSourceBackend_t option \<Rightarrow> time_source" where
  "time_source_set_backend g backend = g\<lparr>ts_backend := backend\<rparr>"

definition time_source_get_ms :: "time_source \<Rightarrow> u64 \<times> time_source" where
  "time_source_get_ms g =
    (if ts_mock_active g then
       (ts_mock_time g,
        g\<lparr>ts_state := (if ts_mock_reliable g then TIME_SRC_NTP_ACTIVE else TIME_SRC_UNRELIABLE)\<rparr>)
     else (case ts_backend g of
        None \<Rightarrow> (0, g\<lparr>ts_state := TIME_SRC_UNRELIABLE\<rparr>)
      | Some b \<Rightarrow>
          let ntp_time = (case tb_ntp_time_get b of Some t \<Rightarrow> t | None \<Rightarrow> 0);
              rtc_time = (case tb_rtc_time_get b of Some t \<Rightarrow> t | None \<Rightarrow> 0)
          in if tb_ntp_is_synced b = Some True \<and> ntp_time > 0
               then (ntp_time, g\<lparr>ts_state := TIME_SRC_NTP_ACTIVE\<rparr>)
             else if tb_rtc_is_available b = Some True \<and> rtc_time > 0
               then (rtc_time, g\<lparr>ts_state := TIME_SRC_RTC_ONLY\<rparr>)
             else (0, g\<lparr>ts_state := TIME_SRC_UNRELIABLE\<rparr>)))"

definition time_source_is_reliable :: "time_source \<Rightarrow> bool" where
  "time_source_is_reliable g \<longleftrightarrow> ts_state g = TIME_SRC_NTP_ACTIVE \<or> ts_state g = TIME_SRC_RTC_ONLY"

definition time_source_get_state :: "time_source \<Rightarrow> TimeSourceState_t" where
  "time_source_get_state g = ts_state g"

definition time_source_mock_set :: "time_source \<Rightarrow> u64 \<Rightarrow> bool \<Rightarrow> time_source" where
  "time_source_mock_set g ms reliable =
     g\<lparr>ts_mock_time := ms, ts_mock_reliable := reliable, ts_mock_active := True\<rparr>"

definition time_source_mock_advance :: "time_source \<Rightarrow> u64 \<Rightarrow> time_source" where
  "time_source_mock_advance g delta_ms =
     (if ts_mock_active g then g\<lparr>ts_mock_time := ts_mock_time g + delta_ms\<rparr> else g)"

definition time_source_mock_set_rtc_persistent :: "time_source \<Rightarrow> u64 \<Rightarrow> time_source" where
  "time_source_mock_set_rtc_persistent g ms =
     mock_rtc_persist (g\<lparr>ts_mock_rtc_persistent := ms, ts_mock_rtc_persistent_loaded := True\<rparr>)"

section \<open>Properties\<close>

text \<open>
  Reading the time decides its trustworthiness: with hardware sources (no mock) the reading is
  marked reliable exactly when it is not zero, a synchronised non-zero NTP time wins over the RTC,
  and the state names the source used.
\<close>

theorem time_source_fallback:
  assumes "\<not> ts_mock_active g" and "time_source_get_ms g = (t, g')"
  shows "(time_source_is_reliable g' \<longleftrightarrow> t \<noteq> 0)
    \<and> (ts_state g' = TIME_SRC_NTP_ACTIVE \<longleftrightarrow>
        (\<exists>b. ts_backend g = Some b \<and> tb_ntp_is_synced b = Some True \<and> tb_ntp_time_get b = Some t \<and> t \<noteq> 0))
    \<and> (ts_state g' = TIME_SRC_RTC_ONLY \<longrightarrow>
        (\<exists>b. ts_backend g = Some b \<and> tb_rtc_is_available b = Some True \<and> tb_rtc_time_get b = Some t))"
  using assms
  by (auto simp: time_source_get_ms_def time_source_is_reliable_def Let_def word_neq_0_conv
      split: option.splits if_splits)

theorem time_source_fallback_witness:
  "time_source_is_reliable (snd (time_source_get_ms
     \<lparr>ts_state = TIME_SRC_UNINITIALISED,
      ts_backend = Some \<lparr>tb_ntp_time_get = Some 7, tb_ntp_is_synced = Some False,
        tb_rtc_time_get = Some 9, tb_rtc_is_available = Some True\<rparr>,
      ts_storage = None, ts_mock_time = 0, ts_mock_reliable = False, ts_mock_active = False,
      ts_mock_rtc_persistent = 0, ts_mock_rtc_persistent_loaded = False, ts_saved = []\<rparr>))"
  by (subst time_source_fallback[THEN conjunct1, rotated, OF prod.collapse[symmetric]])
    (simp_all add: time_source_get_ms_def)

end
