(* ===== verification/Audit_Log.thy ===== *)
theory Audit_Log
  imports Attestation Time_Source
begin

text \<open>
  The tamper-evident audit log (\<open>firmware/shared/audit_log.{h,c}\<close>): a ring of 32 entries chained by
  HMAC.  The write index is the 8-bit counter of the code, which wraps.  The bytes that enter the
  chain are the structure up to \<open>chain_hmac\<close>, in the little-endian layout of the target with its one
  padding byte zero, as the static array starts.  Calls of the storage callback \<open>save\<close> are kept in
  the ghost trace \<open>au_saved\<close>; \<open>load\<close> is a function of the buffers it is given.
\<close>

section \<open>Data\<close>

definition AUDIT_LOG_MAX_ENTRIES :: nat where "AUDIT_LOG_MAX_ENTRIES = 32"
definition AUDIT_LOG_HMAC_SIZE :: nat where "AUDIT_LOG_HMAC_SIZE = 32"

datatype AuditEventType_t =
  AUDIT_AUTH_SUCCESS | AUDIT_AUTH_FAILURE | AUDIT_SAFETY_LOCKED_REJECTED | AUDIT_CONFIG_WRITE
| AUDIT_SESSION_CREATED | AUDIT_SESSION_EXPIRED | AUDIT_TAMPER_DETECTED | AUDIT_MODULE_ATTESTATION_FAIL

primrec audit_event_code :: "AuditEventType_t \<Rightarrow> u32" where
  "audit_event_code AUDIT_AUTH_SUCCESS = 0"
| "audit_event_code AUDIT_AUTH_FAILURE = 1"
| "audit_event_code AUDIT_SAFETY_LOCKED_REJECTED = 2"
| "audit_event_code AUDIT_CONFIG_WRITE = 3"
| "audit_event_code AUDIT_SESSION_CREATED = 4"
| "audit_event_code AUDIT_SESSION_EXPIRED = 5"
| "audit_event_code AUDIT_TAMPER_DETECTED = 6"
| "audit_event_code AUDIT_MODULE_ATTESTATION_FAIL = 7"

record AuditLogEntry_t =
  ae_timestamp_ms :: u64
  ae_event_type :: AuditEventType_t
  ae_session_id :: u8
  ae_rule_id :: u16
  ae_detail :: bytes
  ae_chain_hmac :: bytes

type_synonym audit_image = "AuditLogEntry_t list \<times> u8 \<times> u32"

record AuditLogStorage_t =
  as_has_save :: bool
  as_load :: "(audit_image \<Rightarrow> audit_image) option"

record audit =
  au_log :: "AuditLogEntry_t list"
  au_write_index :: u8
  au_auth_failure_count :: u32
  au_chain_key :: bytes
  au_chain_key_set :: bool
  au_g_initialised :: bool
  au_storage :: "AuditLogStorage_t option"
  au_saved :: "(AuditLogEntry_t list \<times> u8 \<times> u8 \<times> u32) list"

section \<open>Operations\<close>

definition audit_entry_zero :: AuditLogEntry_t where
  "audit_entry_zero = \<lparr>ae_timestamp_ms = 0, ae_event_type = AUDIT_AUTH_SUCCESS, ae_session_id = 0,
     ae_rule_id = 0, ae_detail = replicate 64 0, ae_chain_hmac = replicate AUDIT_LOG_HMAC_SIZE 0\<rparr>"

definition audit_log_get_count :: "audit \<Rightarrow> u8" where
  "audit_log_get_count g =
    (if \<not> au_g_initialised g then 0
     else if unat (au_write_index g) < AUDIT_LOG_MAX_ENTRIES then au_write_index g
     else word_of_nat AUDIT_LOG_MAX_ENTRIES)"

definition audit_log_persist :: "audit \<Rightarrow> audit" where
  "audit_log_persist g =
    (case au_storage g of
       Some st \<Rightarrow>
         if as_has_save st then
           let count = (if unat (au_write_index g) < AUDIT_LOG_MAX_ENTRIES then au_write_index g
                        else word_of_nat AUDIT_LOG_MAX_ENTRIES)
           in g\<lparr>au_saved := au_saved g @ [(au_log g, count, au_write_index g, au_auth_failure_count g)]\<rparr>
         else g
     | None \<Rightarrow> g)"

text \<open>The first \<open>offsetof(AuditLogEntry_t, chain_hmac)\<close> bytes of an entry.\<close>

definition audit_content :: "AuditLogEntry_t \<Rightarrow> bytes" where
  "audit_content e = le_bytes64 (ae_timestamp_ms e) @ le_bytes32 (audit_event_code (ae_event_type e)) @
     [ae_session_id e, 0] @ le_bytes16 (ae_rule_id e) @ ae_detail e"

definition audit_log_compute_chain_hmac :: "md_hmac \<Rightarrow> audit \<Rightarrow> AuditLogEntry_t \<Rightarrow> bytes \<Rightarrow> AuditLogEntry_t" where
  "audit_log_compute_chain_hmac md g entry prev_hmac =
    (if \<not> au_chain_key_set g then entry\<lparr>ae_chain_hmac := replicate AUDIT_LOG_HMAC_SIZE 0\<rparr>
     else entry\<lparr>ae_chain_hmac := iot_hmac_sha256 md (au_chain_key g) (audit_content entry @ prev_hmac)\<rparr>)"

definition audit_log_init :: "audit \<Rightarrow> bool \<times> audit" where
  "audit_log_init g0 =
    (let g = g0\<lparr>au_write_index := 0, au_auth_failure_count := 0, au_chain_key_set := False\<rparr>;
         g = (case Option.bind (au_storage g) as_load of
                Some load \<Rightarrow>
                  (case load (au_log g, au_write_index g, au_auth_failure_count g) of
                     (es, wi, fc) \<Rightarrow> g\<lparr>au_log := es, au_write_index := wi, au_auth_failure_count := fc\<rparr>)
              | None \<Rightarrow> g\<lparr>au_log := replicate AUDIT_LOG_MAX_ENTRIES audit_entry_zero\<rparr>)
     in (True, g\<lparr>au_g_initialised := True\<rparr>))"

definition audit_log_set_storage :: "audit \<Rightarrow> AuditLogStorage_t option \<Rightarrow> audit" where
  "audit_log_set_storage g storage = g\<lparr>au_storage := storage\<rparr>"

text \<open>\<open>strncpy\<close> into the 64-byte field with its terminator, or only the terminator.\<close>

definition audit_detail :: "bytes \<Rightarrow> bytes option \<Rightarrow> bytes" where
  "audit_detail old detail =
    (case detail of
       Some d \<Rightarrow> let s = take 63 (takeWhile (\<lambda>c. c \<noteq> 0) d) in s @ replicate (64 - length s) 0
     | None \<Rightarrow> old[0 := 0])"

text \<open>Storing the finished entry in its slot and counting it.\<close>

definition audit_store :: "audit \<Rightarrow> AuditLogEntry_t \<Rightarrow> audit" where
  "audit_store g e =
     g\<lparr>au_log := (au_log g)[unat (au_write_index g) mod AUDIT_LOG_MAX_ENTRIES := e],
       au_write_index := au_write_index g + 1\<rparr>"

definition audit_prev_hmac :: "audit \<Rightarrow> bytes" where
  "audit_prev_hmac g =
    (if au_write_index g > 0
     then ae_chain_hmac (au_log g ! ((unat (au_write_index g) - 1) mod AUDIT_LOG_MAX_ENTRIES))
     else replicate AUDIT_LOG_HMAC_SIZE 0)"

definition audit_log_add ::
  "md_hmac \<Rightarrow> audit \<Rightarrow> time_source \<Rightarrow> AuditEventType_t \<Rightarrow> u8 \<Rightarrow> u16 \<Rightarrow> bytes option \<Rightarrow> audit \<times> time_source"
where
  "audit_log_add md g ts event_type session_id rule_id detail =
    (if \<not> au_g_initialised g then (g, ts)
     else
       let slot = au_log g ! (unat (au_write_index g) mod AUDIT_LOG_MAX_ENTRIES);
           prev_hmac = audit_prev_hmac g;
           (now, ts) = time_source_get_ms ts;
           entry = slot\<lparr>ae_timestamp_ms := now, ae_event_type := event_type, ae_session_id := session_id,
                        ae_rule_id := rule_id, ae_detail := audit_detail (ae_detail slot) detail\<rparr>;
           g = (if event_type = AUDIT_AUTH_FAILURE
                then g\<lparr>au_auth_failure_count := au_auth_failure_count g + 1\<rparr> else g);
           entry = audit_log_compute_chain_hmac md g entry prev_hmac
       in (audit_log_persist (audit_store g entry), ts))"

text \<open>
  The audit log and the clock it reads are shared by many modules; \<open>audit_note\<close> is a call with both
  passed as one environment.  \<open>cstr\<close> gives the bytes of an ASCII literal, \<open>emdash\<close> those of the UTF-8
  dash that some literals contain.
\<close>

type_synonym audit_env = "audit \<times> time_source"

definition audit_note :: "md_hmac \<Rightarrow> audit_env \<Rightarrow> AuditEventType_t \<Rightarrow> u8 \<Rightarrow> u16 \<Rightarrow> bytes \<Rightarrow> audit_env" where
  "audit_note md env event_type session_id rule_id detail =
     audit_log_add md (fst env) (snd env) event_type session_id rule_id (Some detail)"

definition cstr :: "string \<Rightarrow> bytes" where
  "cstr s = map of_char s"

definition emdash :: bytes where "emdash = [0xE2, 0x80, 0x94]"

definition audit_start_idx :: "audit \<Rightarrow> nat" where
  "audit_start_idx g =
    (if AUDIT_LOG_MAX_ENTRIES \<le> unat (au_write_index g)
     then unat (au_write_index g) mod AUDIT_LOG_MAX_ENTRIES else 0)"

definition audit_log_get_entries :: "audit \<Rightarrow> u8 \<Rightarrow> u8 \<times> AuditLogEntry_t list" where
  "audit_log_get_entries g max_entries =
    (if max_entries = 0 \<or> \<not> au_g_initialised g then (0, [])
     else let count = audit_log_get_count g;
              to_copy = (if count < max_entries then count else max_entries)
          in (to_copy, map (\<lambda>i. au_log g ! ((audit_start_idx g + i) mod AUDIT_LOG_MAX_ENTRIES)) [0..<unat to_copy]))"

definition audit_log_get_auth_failure_count :: "audit \<Rightarrow> u32" where
  "audit_log_get_auth_failure_count g = au_auth_failure_count g"

text \<open>The verification loop over the entries in chronological order.\<close>

fun verify_loop :: "md_hmac \<Rightarrow> bytes \<Rightarrow> bytes \<Rightarrow> AuditLogEntry_t list \<Rightarrow> bool" where
  "verify_loop md key prev_hmac [] = True"
| "verify_loop md key prev_hmac (entry # es) =
    (let expected = iot_hmac_sha256 md key (audit_content entry @ prev_hmac)
     in if ct_diff (ae_chain_hmac entry) expected \<noteq> 0 then False
        else verify_loop md key (ae_chain_hmac entry) es)"

definition audit_log_verify_chain :: "md_hmac \<Rightarrow> audit \<Rightarrow> bytes option \<Rightarrow> bool" where
  "audit_log_verify_chain md g hmac_key =
    (case hmac_key of
       None \<Rightarrow> False
     | Some key \<Rightarrow>
         if key = [] \<or> \<not> au_g_initialised g then False
         else let count = audit_log_get_count g
              in if count = 0 then True
                 else verify_loop md key (replicate AUDIT_LOG_HMAC_SIZE 0)
                   (map (\<lambda>i. au_log g ! ((audit_start_idx g + i) mod AUDIT_LOG_MAX_ENTRIES)) [0..<unat count]))"

definition audit_log_set_chain_key :: "audit \<Rightarrow> bytes option \<Rightarrow> audit" where
  "audit_log_set_chain_key g key =
    (case key of
       None \<Rightarrow> g
     | Some k \<Rightarrow> if k = [] then g
         else g\<lparr>au_chain_key := take 32 k @ replicate (32 - length k) 0, au_chain_key_set := True\<rparr>)"

section \<open>The ring\<close>

definition audit_ok :: "audit \<Rightarrow> bool" where
  "audit_ok g \<longleftrightarrow> length (au_log g) = AUDIT_LOG_MAX_ENTRIES"

definition audit_slot :: "audit \<Rightarrow> nat" where
  "audit_slot g = unat (au_write_index g) mod AUDIT_LOG_MAX_ENTRIES"

text \<open>All slots, oldest first; and the entries the readers see.\<close>

definition audit_ring :: "audit \<Rightarrow> AuditLogEntry_t list" where
  "audit_ring g = drop (audit_slot g) (au_log g) @ take (audit_slot g) (au_log g)"

definition audit_seq :: "audit \<Rightarrow> AuditLogEntry_t list" where
  "audit_seq g = map (\<lambda>i. au_log g ! ((audit_start_idx g + i) mod AUDIT_LOG_MAX_ENTRIES))
     [0..<min AUDIT_LOG_MAX_ENTRIES (unat (au_write_index g))]"

lemma unat_Suc_u8: "unat (w + 1 :: u8) = (if unat w = 255 then 0 else Suc (unat w))"
  using unat_u8_less[of w] by (auto simp: unat_word_ariths mod_Suc)

lemma audit_slot_store: "audit_slot (audit_store g e) = Suc (audit_slot g) mod AUDIT_LOG_MAX_ENTRIES"
  by (auto simp: audit_slot_def audit_store_def unat_Suc_u8 AUDIT_LOG_MAX_ENTRIES_def mod_Suc)

lemma audit_ring_store:
  "audit_ok g \<Longrightarrow> audit_ring (audit_store g e) = last_n AUDIT_LOG_MAX_ENTRIES (audit_ring g @ [e])"
proof -
  assume ok: "audit_ok g"
  let ?w = "audit_slot g"
  have w: "?w < AUDIT_LOG_MAX_ENTRIES" by (simp add: audit_slot_def AUDIT_LOG_MAX_ENTRIES_def)
  have len: "length (au_log g) = AUDIT_LOG_MAX_ENTRIES" using ok by (simp add: audit_ok_def)
  have log: "au_log (audit_store g e) = (au_log g)[?w := e]" by (simp add: audit_store_def audit_slot_def)
  have "audit_ring (audit_store g e) = drop (Suc ?w) (au_log g) @ take ?w (au_log g) @ [e]"
    using ring_shift[OF w len, of e] by (simp add: audit_ring_def audit_slot_store log Let_def)
  also have "\<dots> = drop 1 (audit_ring g @ [e])"
    using ring_drop_oldest[of ?w "au_log g" e] w len by (simp add: audit_ring_def)
  also have "\<dots> = last_n AUDIT_LOG_MAX_ENTRIES (audit_ring g @ [e])"
    using len w by (simp add: last_n_def audit_ring_def)
  finally show ?thesis .
qed

lemma audit_ok_store: "audit_ok g \<Longrightarrow> audit_ok (audit_store g e)"
  by (simp add: audit_ok_def audit_store_def)

interpretation audit_ring_log: ring_log audit_store audit_ring AUDIT_LOG_MAX_ENTRIES audit_ok
  by unfold_locales (simp_all add: audit_ok_store audit_ring_store)

lemma nth_ring: "w < length xs \<Longrightarrow> i < length xs \<Longrightarrow>
    (drop w xs @ take w xs) ! i = xs ! ((w + i) mod length xs)"
  by (auto simp: nth_append mod_if less_diff_conv add.commute)

lemma audit_seq_ring:
  assumes "audit_ok g"
  shows "audit_seq g = last_n (unat (au_write_index g)) (audit_ring g)"
proof (cases "unat (au_write_index g) < AUDIT_LOG_MAX_ENTRIES")
  case True
  then have "audit_seq g = map ((!) (au_log g)) [0..<unat (au_write_index g)]"
    by (simp add: audit_seq_def audit_start_idx_def)
  also have "\<dots> = take (unat (au_write_index g)) (au_log g)"
    using assms True by (intro nth_equalityI) (simp_all add: audit_ok_def)
  finally show ?thesis using True assms by (simp add: audit_ring_def audit_slot_def last_n_def audit_ok_def)
next
  case False
  have len: "length (au_log g) = AUDIT_LOG_MAX_ENTRIES" using assms by (simp add: audit_ok_def)
  have w: "audit_slot g < AUDIT_LOG_MAX_ENTRIES" by (simp add: audit_slot_def AUDIT_LOG_MAX_ENTRIES_def)
  have "audit_seq g = audit_ring g"
    using False len w nth_ring[of "audit_slot g" "au_log g"]
    by (intro nth_equalityI) (auto simp: audit_seq_def audit_ring_def audit_start_idx_def audit_slot_def)
  then show ?thesis using False len w by (simp add: audit_ring_def)
qed

lemma length_audit_seq [simp]: "length (audit_seq g) = min AUDIT_LOG_MAX_ENTRIES (unat (au_write_index g))"
  by (simp add: audit_seq_def)

lemma unat_audit_count:
  "au_g_initialised g \<Longrightarrow> unat (audit_log_get_count g) = min AUDIT_LOG_MAX_ENTRIES (unat (au_write_index g))"
  by (simp add: audit_log_get_count_def AUDIT_LOG_MAX_ENTRIES_def)

lemma audit_verify_eq:
  "audit_log_verify_chain md g (Some key) \<longleftrightarrow> key \<noteq> [] \<and> au_g_initialised g \<and>
     verify_loop md key (replicate AUDIT_LOG_HMAC_SIZE 0) (audit_seq g)"
proof (cases "au_g_initialised g")
  case True
  have "(audit_log_get_count g = 0) \<longleftrightarrow> audit_seq g = []"
    using unat_audit_count[OF True] length_audit_seq[of g] unat_eq_zero by (metis length_0_conv)
  then show ?thesis using True unat_audit_count[OF True]
    by (auto simp: audit_log_verify_chain_def audit_seq_def Let_def)
qed (simp add: audit_log_verify_chain_def)

text \<open>Below 255 entries the readers see the last 32 of what was stored.\<close>

lemma audit_seq_store:
  assumes "audit_ok g" and "unat (au_write_index g) < 255"
  shows "audit_seq (audit_store g e) = last_n AUDIT_LOG_MAX_ENTRIES (audit_seq g @ [e])"
proof -
  let ?n = "unat (au_write_index g)" and ?r = "audit_ring g"
  have len: "length ?r = 32" using assms(1)
    by (simp add: audit_ring_def audit_ok_def audit_slot_def AUDIT_LOG_MAX_ENTRIES_def)
  have wi: "unat (au_write_index (audit_store g e)) = Suc ?n"
    using assms(2) by (simp add: audit_store_def unat_Suc_u8)
  have "audit_seq (audit_store g e) = last_n (Suc ?n) (last_n 32 (?r @ [e]))"
    using audit_seq_ring[OF audit_ok_store[OF assms(1)], of e] audit_ring_store[OF assms(1), of e] wi
    by (simp add: AUDIT_LOG_MAX_ENTRIES_def)
  also have "\<dots> = last_n 32 (last_n ?n ?r @ [e])"
  proof (cases "?n < 32")
    case True
    then have "Suc (31 - ?n) = 32 - ?n" by simp
    then show ?thesis using len True by (simp add: last_n_def)
  qed (use len in \<open>simp add: last_n_def\<close>)
  finally show ?thesis using audit_seq_ring[OF assms(1)] by (simp add: AUDIT_LOG_MAX_ENTRIES_def)
qed

section \<open>The chain\<close>

text \<open>The reference: the digests of a list of contents, each over the content and the digest before.\<close>

fun chain_macs :: "md_hmac \<Rightarrow> bytes \<Rightarrow> bytes \<Rightarrow> bytes list \<Rightarrow> bytes list" where
  "chain_macs md key prev [] = []"
| "chain_macs md key prev (c # cs) =
    (let m = iot_hmac_sha256 md key (c @ prev) in m # chain_macs md key m cs)"

text \<open>The messages that were authenticated in the chain of a list of entries.\<close>

fun chain_msgs :: "bytes \<Rightarrow> AuditLogEntry_t list \<Rightarrow> bytes set" where
  "chain_msgs prev [] = {}"
| "chain_msgs prev (e # es) = insert (audit_content e @ prev) (chain_msgs (ae_chain_hmac e) es)"

lemma verify_loop_snoc:
  "verify_loop md key prev (es @ [e]) \<longleftrightarrow> verify_loop md key prev es \<and>
     ct_diff (ae_chain_hmac e) (iot_hmac_sha256 md key (audit_content e @
       (if es = [] then prev else ae_chain_hmac (last es)))) = 0"
  by (induction es arbitrary: prev) (auto simp: Let_def)

lemma verify_loop_iff_macs:
  assumes "md_hmac_ok md" and "\<forall>e \<in> set es. length (ae_chain_hmac e) = AUDIT_LOG_HMAC_SIZE"
  shows "verify_loop md key prev es \<longleftrightarrow> map ae_chain_hmac es = chain_macs md key prev (map audit_content es)"
  using assms(2)
proof (induction es arbitrary: prev)
  case (Cons e es)
  have "length (ae_chain_hmac e) = length (iot_hmac_sha256 md key (audit_content e @ prev))"
    using Cons.prems assms(1) by (simp add: AUDIT_LOG_HMAC_SIZE_def ATTESTATION_HMAC_SIZE_def)
  then show ?case using Cons by (auto simp: Let_def ct_diff_eq_0_iff)
qed simp

lemma verify_loop_same_last:
  assumes "md_hmac_ok md" and "length es = length fs" and "es \<noteq> []" and "length p = length q"
    and "verify_loop md key p es" and "verify_loop md key q fs"
    and "\<forall>e \<in> set es \<union> set fs. length (ae_chain_hmac e) = AUDIT_LOG_HMAC_SIZE"
    and "ae_chain_hmac (last es) = ae_chain_hmac (last fs)"
    and "inj_on (iot_hmac_sha256 md key) (chain_msgs p es \<union> chain_msgs q fs)"
  shows "map audit_content es = map audit_content fs \<and> p = q"
  using assms(2-9)
proof (induction es fs arbitrary: p q rule: list_induct2)
  case (Cons e es f fs)
  let ?H = "iot_hmac_sha256 md key"
  have len: "length (ae_chain_hmac e) = 32" "length (ae_chain_hmac f) = 32"
    using Cons.prems(5) by (auto simp: AUDIT_LOG_HMAC_SIZE_def)
  have mac: "ae_chain_hmac e = ?H (audit_content e @ p)" "ae_chain_hmac f = ?H (audit_content f @ q)"
    using Cons.prems(3,4) len assms(1)
    by (auto simp: Let_def ct_diff_eq_0_iff ATTESTATION_HMAC_SIZE_def split: if_splits)
  have rest: "map audit_content es = map audit_content fs \<and> ae_chain_hmac e = ae_chain_hmac f"
  proof (cases "es = []")
    case True
    then show ?thesis using Cons.hyps Cons.prems(6) by simp
  next
    case False
    with Cons.hyps have "fs \<noteq> []" by auto
    have "inj_on ?H (chain_msgs (ae_chain_hmac e) es \<union> chain_msgs (ae_chain_hmac f) fs)"
      using Cons.prems(7) by (rule inj_on_subset) auto
    with False \<open>fs \<noteq> []\<close> Cons.prems len show ?thesis
      by (intro Cons.IH) (auto simp: Let_def split: if_splits)
  qed
  with mac have "?H (audit_content e @ p) = ?H (audit_content f @ q)" by simp
  then have "audit_content e @ p = audit_content f @ q"
    by (rule inj_onD[OF Cons.prems(7)]) simp_all
  then show ?case using rest Cons.prems(2) by simp
qed simp

section \<open>Adding entries\<close>

text \<open>The entry a call of \<open>audit_log_add\<close> stores.\<close>

definition audit_new_entry ::
  "md_hmac \<Rightarrow> audit \<Rightarrow> u64 \<Rightarrow> AuditEventType_t \<Rightarrow> u8 \<Rightarrow> u16 \<Rightarrow> bytes option \<Rightarrow> AuditLogEntry_t"
where
  "audit_new_entry md g now ev sid rid detail =
    (let slot = au_log g ! (unat (au_write_index g) mod AUDIT_LOG_MAX_ENTRIES)
     in audit_log_compute_chain_hmac md g
          (slot\<lparr>ae_timestamp_ms := now, ae_event_type := ev, ae_session_id := sid, ae_rule_id := rid,
                ae_detail := audit_detail (ae_detail slot) detail\<rparr>) (audit_prev_hmac g))"

lemma audit_persist_sel [simp]:
  "au_log (audit_log_persist g) = au_log g" "au_write_index (audit_log_persist g) = au_write_index g"
  "au_chain_key (audit_log_persist g) = au_chain_key g"
  "au_chain_key_set (audit_log_persist g) = au_chain_key_set g"
  "au_g_initialised (audit_log_persist g) = au_g_initialised g"
  "au_auth_failure_count (audit_log_persist g) = au_auth_failure_count g"
  by (simp_all add: audit_log_persist_def Let_def split: option.splits)

lemma audit_add_sel:
  assumes "au_g_initialised g"
  shows "au_log (fst (audit_log_add md g ts ev sid rid d)) =
           au_log (audit_store g (audit_new_entry md g (fst (time_source_get_ms ts)) ev sid rid d))"
    and "au_write_index (fst (audit_log_add md g ts ev sid rid d)) = au_write_index g + 1"
    and "au_chain_key (fst (audit_log_add md g ts ev sid rid d)) = au_chain_key g"
    and "au_chain_key_set (fst (audit_log_add md g ts ev sid rid d)) = au_chain_key_set g"
    and "au_g_initialised (fst (audit_log_add md g ts ev sid rid d))"
  using assms
  by (auto simp: audit_log_add_def audit_new_entry_def audit_store_def audit_log_compute_chain_hmac_def
      Let_def split: prod.splits)

lemma audit_seq_cong:
  "au_log g = au_log h \<Longrightarrow> au_write_index g = au_write_index h \<Longrightarrow> audit_seq g = audit_seq h"
  by (simp add: audit_seq_def audit_start_idx_def)

lemma audit_seq_add:
  assumes "audit_ok g" and "au_g_initialised g" and "unat (au_write_index g) < 255"
  shows "audit_seq (fst (audit_log_add md g ts ev sid rid d)) = last_n AUDIT_LOG_MAX_ENTRIES
           (audit_seq g @ [audit_new_entry md g (fst (time_source_get_ms ts)) ev sid rid d])"
  using audit_seq_store[OF assms(1,3)] audit_add_sel(1,2)[OF assms(2), of md ts ev sid rid d]
  by (subst audit_seq_cong) (auto simp: audit_store_def)

lemma audit_prev_hmac_seq:
  assumes "audit_ok g" and "unat (au_write_index g) \<le> 255"
  shows "audit_prev_hmac g = (if audit_seq g = [] then replicate AUDIT_LOG_HMAC_SIZE 0
                              else ae_chain_hmac (last (audit_seq g)))"
proof (cases "au_write_index g = 0")
  case False
  let ?n = "unat (au_write_index g)"
  have n: "0 < ?n" using False by (simp add: unat_gt_0)
  let ?m = "min AUDIT_LOG_MAX_ENTRIES ?n"
  have m: "0 < ?m" using n by (simp add: AUDIT_LOG_MAX_ENTRIES_def)
  have nth: "audit_seq g ! i = au_log g ! ((audit_start_idx g + i) mod AUDIT_LOG_MAX_ENTRIES)" if "i < ?m" for i
    using that by (simp add: audit_seq_def)
  have ne: "audit_seq g \<noteq> []"
  proof
    assume "audit_seq g = []"
    with length_audit_seq[of g] m show False by simp
  qed
  have "last (audit_seq g) = audit_seq g ! (?m - 1)"
    using ne by (simp add: last_conv_nth)
  also have "\<dots> = au_log g ! ((audit_start_idx g + (?m - 1)) mod AUDIT_LOG_MAX_ENTRIES)"
    by (rule nth) (use m in linarith)
  also have "(audit_start_idx g + (?m - 1)) mod AUDIT_LOG_MAX_ENTRIES = (?n - 1) mod AUDIT_LOG_MAX_ENTRIES"
  proof (cases "32 \<le> ?n")
    case True
    then obtain k where k: "?n = 32 + k" by (metis le_Suc_ex)
    then have "?m - 1 = 31" "?n - 1 = k + 31" by (auto simp: AUDIT_LOG_MAX_ENTRIES_def)
    moreover have "audit_start_idx g = k mod 32" using k by (simp add: audit_start_idx_def AUDIT_LOG_MAX_ENTRIES_def)
    moreover have "(k mod 32 + 31) mod 32 = (k + 31) mod 32" by (rule mod_add_left_eq)
    ultimately show ?thesis by (simp only: AUDIT_LOG_MAX_ENTRIES_def)
  qed (use n in \<open>simp add: audit_start_idx_def AUDIT_LOG_MAX_ENTRIES_def\<close>)
  finally show ?thesis using ne False by (simp add: audit_prev_hmac_def word_neq_0_conv)
qed (simp add: audit_prev_hmac_def audit_seq_def)

type_synonym audit_call = "AuditEventType_t \<times> u8 \<times> u16 \<times> bytes option"

definition audit_add_call :: "md_hmac \<Rightarrow> audit \<times> time_source \<Rightarrow> audit_call \<Rightarrow> audit \<times> time_source" where
  "audit_add_call md s c = (case c of (ev, sid, rid, d) \<Rightarrow> audit_log_add md (fst s) (snd s) ev sid rid d)"

definition audit_keyed :: "md_hmac \<Rightarrow> bytes \<Rightarrow> audit \<Rightarrow> bool" where
  "audit_keyed md key g \<longleftrightarrow> audit_ok g \<and> au_g_initialised g \<and> au_chain_key_set g \<and> au_chain_key g = key \<and>
     unat (au_write_index g) \<le> AUDIT_LOG_MAX_ENTRIES \<and>
     verify_loop md key (replicate AUDIT_LOG_HMAC_SIZE 0) (audit_seq g)"

lemma audit_ok_add: "audit_ok g \<Longrightarrow> audit_ok (fst (audit_log_add md g ts ev sid rid d))"
  by (auto simp: audit_ok_def audit_log_add_def audit_store_def Let_def split: prod.splits)

lemma audit_new_entry_mac:
  assumes "audit_ok g" and "au_chain_key_set g" and "unat (au_write_index g) \<le> 255"
  shows "ae_chain_hmac (audit_new_entry md g now ev sid rid d) =
    iot_hmac_sha256 md (au_chain_key g) (audit_content (audit_new_entry md g now ev sid rid d) @
      (if audit_seq g = [] then replicate AUDIT_LOG_HMAC_SIZE 0 else ae_chain_hmac (last (audit_seq g))))"
proof -
  have "audit_content (e\<lparr>ae_chain_hmac := h\<rparr>) = audit_content e" for e h
    by (simp add: audit_content_def)
  then show ?thesis using assms(2) audit_prev_hmac_seq[OF assms(1,3)]
    by (simp add: audit_new_entry_def audit_log_compute_chain_hmac_def Let_def)
qed

lemma audit_keyed_add:
  assumes "audit_keyed md key g" and "unat (au_write_index g) < AUDIT_LOG_MAX_ENTRIES"
  shows "audit_keyed md key (fst (audit_log_add md g ts ev sid rid d))
       \<and> unat (au_write_index (fst (audit_log_add md g ts ev sid rid d))) = Suc (unat (au_write_index g))"
proof -
  let ?g = "fst (audit_log_add md g ts ev sid rid d)"
  let ?e = "audit_new_entry md g (fst (time_source_get_ms ts)) ev sid rid d"
  have n: "unat (au_write_index g) < 32" using assms(2) by (simp add: AUDIT_LOG_MAX_ENTRIES_def)
  have k: "audit_ok g" "au_g_initialised g" "au_chain_key_set g" "au_chain_key g = key"
    "verify_loop md key (replicate AUDIT_LOG_HMAC_SIZE 0) (audit_seq g)"
    using assms(1) by (auto simp: audit_keyed_def)
  have "audit_seq ?g = audit_seq g @ [?e]"
    using audit_seq_add[OF k(1,2)] n by (simp add: AUDIT_LOG_MAX_ENTRIES_def)
  then have "verify_loop md key (replicate AUDIT_LOG_HMAC_SIZE 0) (audit_seq ?g)"
    using k n audit_new_entry_mac[OF k(1,3)] by (simp add: verify_loop_snoc)
  moreover have "unat (au_write_index ?g) = Suc (unat (au_write_index g))"
    using n audit_add_sel(2)[OF k(2)] by (simp add: unat_Suc_u8)
  ultimately show ?thesis
    using k n audit_add_sel(3-5)[OF k(2)] audit_ok_add[OF k(1)]
    by (simp add: audit_keyed_def AUDIT_LOG_MAX_ENTRIES_def)
qed

lemma audit_keyed_add_all:
  "audit_keyed md key (fst s) \<Longrightarrow> unat (au_write_index (fst s)) + length calls \<le> AUDIT_LOG_MAX_ENTRIES \<Longrightarrow>
   audit_keyed md key (fst (foldl (audit_add_call md) s calls)) \<and>
   unat (au_write_index (fst (foldl (audit_add_call md) s calls))) = unat (au_write_index (fst s)) + length calls"
proof (induction calls arbitrary: s)
  case (Cons c cs)
  obtain ev sid rid d where c: "c = (ev, sid, rid, d)" by (cases c) auto
  have "audit_keyed md key (fst (audit_add_call md s c))
      \<and> unat (au_write_index (fst (audit_add_call md s c))) = Suc (unat (au_write_index (fst s)))"
    using audit_keyed_add[OF Cons.prems(1), of "snd s" ev sid rid d] Cons.prems(2)
    by (simp add: audit_add_call_def c)
  with Cons.IH[of "audit_add_call md s c"] Cons.prems(2) show ?case by simp
qed simp

section \<open>Properties\<close>

text \<open>
  An untouched log verifies: after initialisation and setting a 32-byte chain key, up to 32
  calls of \<open>audit_log_add\<close> with any events, details and clock give a log whose chain verifies under
  that key and whose count is the number of calls.
\<close>

theorem audit_chain_verifies:
  assumes "au_storage g0 = None" and "length key = 32" and "length calls \<le> AUDIT_LOG_MAX_ENTRIES"
    and "s = foldl (audit_add_call md) (audit_log_set_chain_key (snd (audit_log_init g0)) (Some key), ts) calls"
  shows "audit_log_verify_chain md (fst s) (Some key)
       \<and> unat (audit_log_get_count (fst s)) = length calls"
proof -
  let ?g = "audit_log_set_chain_key (snd (audit_log_init g0)) (Some key)"
  have ne: "key \<noteq> []" using assms(2) by auto
  have "audit_keyed md key ?g" and wi: "unat (au_write_index ?g) = 0"
    using assms(1,2) ne by (simp_all add: audit_keyed_def audit_ok_def audit_log_init_def
        audit_log_set_chain_key_def Let_def audit_seq_def)
  from audit_keyed_add_all[of md key "(?g, ts)" calls] this assms(3,4)
  have k: "audit_keyed md key (fst s)" "unat (au_write_index (fst s)) = length calls" by simp_all
  then show ?thesis using ne assms(3) unat_audit_count[of "fst s"]
    by (simp add: audit_verify_eq audit_keyed_def)
qed

definition demo_audit :: audit where
  "demo_audit = \<lparr>au_log = [], au_write_index = 9, au_auth_failure_count = 0, au_chain_key = [],
     au_chain_key_set = False, au_g_initialised = False, au_storage = None, au_saved = []\<rparr>"

definition demo_time :: time_source where
  "demo_time = \<lparr>ts_state = TIME_SRC_UNINITIALISED, ts_backend = None, ts_storage = None, ts_mock_time = 5,
     ts_mock_reliable = True, ts_mock_active = True, ts_mock_rtc_persistent = 0,
     ts_mock_rtc_persistent_loaded = False, ts_saved = []\<rparr>"

theorem audit_chain_verifies_witness:
  "audit_log_verify_chain demo_md
     (fst (foldl (audit_add_call demo_md)
        (audit_log_set_chain_key (snd (audit_log_init demo_audit)) (Some (replicate 32 9)), demo_time)
        [(AUDIT_AUTH_FAILURE, 1, 0, None), (AUDIT_CONFIG_WRITE, 1, 7, Some [65, 66, 0])]))
     (Some (replicate 32 9))"
  by (rule audit_chain_verifies[THEN conjunct1, OF _ _ _ refl])
    (simp_all add: demo_audit_def AUDIT_LOG_MAX_ENTRIES_def)

text \<open>
  C7.  Tamper evidence: two non-empty logs of the same length that both verify under a key and end
  in the same digest have the same contents, entry by entry, provided the HMAC does not collide on
  the messages of the two chains.
\<close>

theorem audit_tamper_evident:
  assumes "md_hmac_ok md"
    and "audit_log_verify_chain md g (Some key)" and "audit_log_verify_chain md h (Some key)"
    and "length (audit_seq g) = length (audit_seq h)" and "audit_seq g \<noteq> []"
    and "ae_chain_hmac (last (audit_seq g)) = ae_chain_hmac (last (audit_seq h))"
    and "\<forall>e \<in> set (audit_seq g) \<union> set (audit_seq h). length (ae_chain_hmac e) = AUDIT_LOG_HMAC_SIZE"
    and "inj_on (iot_hmac_sha256 md key)
           (chain_msgs (replicate AUDIT_LOG_HMAC_SIZE 0) (audit_seq g) \<union>
            chain_msgs (replicate AUDIT_LOG_HMAC_SIZE 0) (audit_seq h))"
  shows "map audit_content (audit_seq g) = map audit_content (audit_seq h)"
  using verify_loop_same_last[OF assms(1,4,5) refl _ _ assms(7,6,8)] assms(2,3)
  by (simp add: audit_verify_eq)

definition demo_log :: "u16 \<Rightarrow> audit" where
  "demo_log r = demo_audit\<lparr>au_log := audit_entry_zero\<lparr>ae_rule_id := r, ae_chain_hmac :=
       iot_hmac_sha256 demo_md (replicate 32 9) (audit_content (audit_entry_zero\<lparr>ae_rule_id := r\<rparr>) @ replicate 32 0)\<rparr>
       # replicate 31 audit_entry_zero,
     au_write_index := 1, au_g_initialised := True\<rparr>"

lemma demo_log_seq: "audit_seq (demo_log r) = [hd (au_log (demo_log r))]"
  by (simp add: audit_seq_def demo_log_def audit_start_idx_def AUDIT_LOG_MAX_ENTRIES_def)

lemma demo_log_verifies: "audit_log_verify_chain demo_md (demo_log r) (Some (replicate 32 9))"
  by (simp add: audit_verify_eq demo_log_seq)
    (simp add: demo_log_def audit_content_def AUDIT_LOG_HMAC_SIZE_def)

theorem audit_tamper_evident_witness:
  "map audit_content (audit_seq (demo_log 5)) =
     map audit_content (audit_seq (demo_log 5\<lparr>au_log := au_log (demo_log 5) @ [audit_entry_zero]\<rparr>))"
proof (rule audit_tamper_evident[OF demo_md_ok demo_log_verifies[of 5]])
  let ?h = "demo_log 5\<lparr>au_log := au_log (demo_log 5) @ [audit_entry_zero]\<rparr>"
  have seq: "audit_seq ?h = audit_seq (demo_log 5)"
    by (simp add: audit_seq_def demo_log_def audit_start_idx_def AUDIT_LOG_MAX_ENTRIES_def)
  show "audit_log_verify_chain demo_md ?h (Some (replicate 32 9))"
    using demo_log_verifies[of 5] by (simp add: audit_verify_eq seq)
  show "length (audit_seq (demo_log 5)) = length (audit_seq ?h)" "audit_seq (demo_log 5) \<noteq> []"
    "ae_chain_hmac (last (audit_seq (demo_log 5))) = ae_chain_hmac (last (audit_seq ?h))"
    by (simp_all only: seq) (simp add: demo_log_seq)
  show "\<forall>e \<in> set (audit_seq (demo_log 5)) \<union> set (audit_seq ?h). length (ae_chain_hmac e) = AUDIT_LOG_HMAC_SIZE"
    by (simp add: seq demo_log_seq)
      (simp add: demo_log_def demo_md_ok ATTESTATION_HMAC_SIZE_def AUDIT_LOG_HMAC_SIZE_def)
  show "inj_on (iot_hmac_sha256 demo_md (replicate 32 9))
      (chain_msgs (replicate AUDIT_LOG_HMAC_SIZE 0) (audit_seq (demo_log 5)) \<union>
       chain_msgs (replicate AUDIT_LOG_HMAC_SIZE 0) (audit_seq ?h))"
    by (simp add: seq demo_log_seq)
qed

text \<open>
  After the ring has wrapped the chain no longer verifies: when a thirty-third entry is
  added, the verifier starts the chain of the oldest remaining entry from zeros, although it was
  chained to the entry just evicted.  So verification of an untouched log fails, unless the HMAC
  gives both messages the same digest.
\<close>

theorem audit_chain_breaks_after_wrap:
  assumes "md_hmac_ok md" and "audit_keyed md key g" and "au_write_index g = 32"
    and "audit_seq g = e0 # e1 # es" and "length (ae_chain_hmac e1) = AUDIT_LOG_HMAC_SIZE"
    and "iot_hmac_sha256 md key (audit_content e1 @ ae_chain_hmac e0) \<noteq>
         iot_hmac_sha256 md key (audit_content e1 @ replicate AUDIT_LOG_HMAC_SIZE 0)"
  shows "\<not> audit_log_verify_chain md (fst (audit_log_add md g ts ev sid rid d)) (Some key)"
proof -
  let ?g = "fst (audit_log_add md g ts ev sid rid d)"
  let ?e = "audit_new_entry md g (fst (time_source_get_ms ts)) ev sid rid d"
  have k: "audit_ok g" "au_g_initialised g" using assms(2) by (auto simp: audit_keyed_def)
  have len: "length (e0 # e1 # es) = 32"
    using length_audit_seq[of g] assms(3,4) by (simp add: AUDIT_LOG_MAX_ENTRIES_def)
  have "audit_seq ?g = last_n 32 ((e0 # e1 # es) @ [?e])"
    using audit_seq_add[OF k, of md ts ev sid rid d] assms(3,4) by (simp add: AUDIT_LOG_MAX_ENTRIES_def)
  also have "\<dots> = e1 # es @ [?e]" using len by (simp add: last_n_def)
  finally have seq: "audit_seq ?g = e1 # es @ [?e]" .
  have "ct_diff (ae_chain_hmac e1) (iot_hmac_sha256 md key (audit_content e1 @ ae_chain_hmac e0)) = 0"
    using assms(2,4) by (auto simp: audit_keyed_def Let_def split: if_splits)
  then have "ae_chain_hmac e1 = iot_hmac_sha256 md key (audit_content e1 @ ae_chain_hmac e0)"
    using assms(1,5) by (simp add: ct_diff_eq_0_iff AUDIT_LOG_HMAC_SIZE_def ATTESTATION_HMAC_SIZE_def)
  then have "ct_diff (ae_chain_hmac e1) (iot_hmac_sha256 md key
      (audit_content e1 @ replicate AUDIT_LOG_HMAC_SIZE 0)) \<noteq> 0"
    using assms(1,6) by (simp add: ct_diff_eq_0_iff)
  then show ?thesis by (simp add: audit_verify_eq seq Let_def)
qed

text \<open>A digest that looks only at the last byte, and a full log chained with it.\<close>

definition last_md :: md_hmac where
  "last_md k d = Some (replicate 32 (if last d = 0 then 1 else 2))"

definition full_log :: audit where
  "full_log = demo_audit\<lparr>au_log := audit_entry_zero\<lparr>ae_chain_hmac := replicate 32 1\<rparr>
       # replicate 31 (audit_entry_zero\<lparr>ae_chain_hmac := replicate 32 2\<rparr>),
     au_write_index := 32, au_g_initialised := True, au_chain_key_set := True, au_chain_key := [7]\<rparr>"

lemma full_log_seq: "audit_seq full_log = au_log full_log"
proof -
  have "audit_ok full_log" by (simp add: audit_ok_def full_log_def AUDIT_LOG_MAX_ENTRIES_def)
  then show ?thesis
    by (simp add: audit_seq_ring audit_ring_def audit_slot_def full_log_def AUDIT_LOG_MAX_ENTRIES_def)
qed

lemma last_md_hmac:
  "iot_hmac_sha256 last_md k (c @ replicate 32 b) = replicate 32 (if b = 0 then 1 else 2)"
  by (simp add: iot_hmac_sha256_def last_md_def)

lemma full_log_tail:
  "verify_loop last_md k (replicate 32 b) (replicate n (e\<lparr>ae_chain_hmac := replicate 32 2\<rparr>)) \<longleftrightarrow> n = 0 \<or> b \<noteq> 0"
proof (induction n arbitrary: b)
  case (Suc n)
  have "ct_diff (replicate 32 2) (replicate 32 1) \<noteq> 0" by (subst ct_diff_eq_0_iff) simp_all
  with Suc show ?case by (auto simp: Let_def last_md_hmac)
qed simp

theorem audit_chain_breaks_after_wrap_witness:
  "\<not> audit_log_verify_chain last_md
     (fst (audit_log_add last_md full_log demo_time AUDIT_AUTH_SUCCESS 1 0 None)) (Some [7])"
proof (rule audit_chain_breaks_after_wrap)
  show "md_hmac_ok last_md" by (auto simp: md_hmac_ok_def last_md_def ATTESTATION_HMAC_SIZE_def)
  show "audit_keyed last_md [7] full_log"
    using full_log_tail[of "[7]" 1 31 audit_entry_zero] last_md_hmac[of "[7]" _ 0]
    by (simp add: audit_keyed_def full_log_seq)
      (simp add: audit_ok_def full_log_def AUDIT_LOG_MAX_ENTRIES_def AUDIT_LOG_HMAC_SIZE_def Let_def)
  show "audit_seq full_log = (audit_entry_zero\<lparr>ae_chain_hmac := replicate 32 1\<rparr>) #
      (audit_entry_zero\<lparr>ae_chain_hmac := replicate 32 2\<rparr>) #
      replicate 30 (audit_entry_zero\<lparr>ae_chain_hmac := replicate 32 2\<rparr>)"
    by (simp add: full_log_seq) (simp add: full_log_def numeral_eq_Suc)
qed (simp_all add: full_log_def AUDIT_LOG_HMAC_SIZE_def last_md_hmac)

text \<open>
  The 8-bit write index wraps: the call that follows 255 stored entries leaves a log that
  reports no entries at all and verifies under every key, although 32 entries are in memory.
\<close>

theorem audit_index_wraps:
  assumes "au_g_initialised g" and "au_write_index g = 255" and "key \<noteq> []"
  shows "audit_log_get_count (fst (audit_log_add md g ts ev sid rid d)) = 0
       \<and> audit_log_verify_chain md (fst (audit_log_add md g ts ev sid rid d)) (Some key)"
proof -
  let ?g = "fst (audit_log_add md g ts ev sid rid d)"
  have wi: "au_write_index ?g = 0" using audit_add_sel(2)[OF assms(1)] assms(2) by simp
  then show ?thesis using audit_add_sel(5)[OF assms(1)] assms(3)
    by (simp add: audit_verify_eq audit_log_get_count_def audit_seq_def AUDIT_LOG_MAX_ENTRIES_def)
qed

theorem audit_index_wraps_witness:
  "audit_log_get_count (fst (audit_log_add demo_md (full_log\<lparr>au_write_index := 255\<rparr>) demo_time
     AUDIT_AUTH_SUCCESS 1 0 None)) = 0"
  by (rule audit_index_wraps[where key = "[1]", THEN conjunct1]) (simp_all add: full_log_def)

end
