(* ===== verification/Gateway.thy ===== *)
theory Gateway
  imports Stateful_Cache Audit_Log
begin

text \<open>
  The gateway's batch frames (\<open>firmware/gateway/batch_forwarder.{h,c}\<close>) and their authentication,
  with the hub's side of it (\<open>firmware/gateway/gateway_auth.{h,c}\<close>).  The radio send function is a
  parameter: a function of the frame, true when it was acknowledged.  The arrays with counts are
  lists of the used entries.  A decoder that fails has no result; its callers never look at the
  partly filled header.
\<close>

section \<open>Data\<close>

definition BATCH_MAX_ENTRIES :: nat where "BATCH_MAX_ENTRIES = 22"
definition BATCH_FRAME_HEADER_SIZE :: nat where "BATCH_FRAME_HEADER_SIZE = 8"
definition BATCH_FRAME_ENTRY_SIZE :: nat where "BATCH_FRAME_ENTRY_SIZE = 7"
definition BATCH_FRAME_HMAC_SIZE :: nat where "BATCH_FRAME_HMAC_SIZE = 32"
definition BATCH_FRAME_MAX_SIZE :: nat where
  "BATCH_FRAME_MAX_SIZE = BATCH_FRAME_HEADER_SIZE + BATCH_MAX_ENTRIES * BATCH_FRAME_ENTRY_SIZE + BATCH_FRAME_HMAC_SIZE"
definition BATCH_FRAME_MAGIC :: u8 where "BATCH_FRAME_MAGIC = 0xB7"
definition BATCH_FRAME_VERSION :: u8 where "BATCH_FRAME_VERSION = 0x02"
definition GATEWAY_HMAC_SIZE :: nat where "GATEWAY_HMAC_SIZE = 32"
definition EDGE_NODE_TRACKER_MAX :: nat where "EDGE_NODE_TRACKER_MAX = 32"
definition EDGE_NODE_ATTEST_EXPIRY_MS :: u64 where "EDGE_NODE_ATTEST_EXPIRY_MS = 24 * 60 * 60 * 1000"

lemmas batch_consts = BATCH_MAX_ENTRIES_def BATCH_FRAME_HEADER_SIZE_def BATCH_FRAME_ENTRY_SIZE_def
  BATCH_FRAME_HMAC_SIZE_def BATCH_FRAME_MAX_SIZE_def BATCH_FRAME_MAGIC_def BATCH_FRAME_VERSION_def
  GATEWAY_HMAC_SIZE_def

record BatchForwarderStats_t =
  bs_total_batches :: u32
  bs_total_entries_sent :: u32
  bs_total_send_ok :: u32
  bs_total_send_fail :: u32

record BatchFrameHeader_t =
  bh_magic :: u8
  bh_version :: u8
  bh_entry_count :: u8
  bh_flags :: u8
  bh_sequence_number :: u32

record BatchFrameEntry_t =
  be_node_id :: u16
  be_metric_id :: u8
  be_value :: f32

datatype GatewayAuthState_t = GW_AUTH_UNINIT | GW_AUTH_IDLE | GW_AUTH_AUTHENTICATED | GW_AUTH_FAILED

record GatewayAuthContext_t =
  ga_gateway_node_id :: u8
  ga_hub_node_id :: u8
  ga_session_key :: bytes
  ga_tx_sequence :: u32
  ga_state :: GatewayAuthState_t

record GatewayGatewayTracker_t =
  gt_gateway_node_id :: u8
  gt_last_sequence :: u32
  gt_sequence_initialized :: bool
  gt_session_key :: bytes
  gt_authenticated :: bool

datatype GatewayFrameResult_t =
  GW_FRAME_OK | GW_FRAME_ERR_HMAC_MISMATCH | GW_FRAME_ERR_GAP_DETECTED | GW_FRAME_ERR_NOT_AUTH
| GW_FRAME_ERR_PARAM_NULL

record EdgeNodeTrackerEntry_t =
  et_node_id :: u8
  et_attested :: bool
  et_attested_at_ms :: u64
  et_active :: bool

record EdgeNodeTracker_t =
  et_entries :: "EdgeNodeTrackerEntry_t list"
  et_expiry_ms :: u64

text \<open>The three things a caller can pass as \<open>edge_tracker\<close>.\<close>

datatype edge_tracker_arg = Edge_Null | Edge_Check_Disabled | Edge_Tracker EdgeNodeTracker_t

section \<open>Authentication, gateway side\<close>

definition gateway_auth_init :: "GatewayAuthContext_t \<Rightarrow> u8 \<Rightarrow> u8 \<Rightarrow> bytes option \<Rightarrow> GatewayAuthContext_t" where
  "gateway_auth_init ctx gateway_id hub_id session_key =
    (case session_key of
       None \<Rightarrow> ctx
     | Some k \<Rightarrow> \<lparr>ga_gateway_node_id = gateway_id, ga_hub_node_id = hub_id,
         ga_session_key = take GATEWAY_HMAC_SIZE k, ga_tx_sequence = 0, ga_state = GW_AUTH_IDLE\<rparr>)"

definition gateway_sign_frame :: "md_hmac \<Rightarrow> GatewayAuthContext_t option \<Rightarrow> bytes option \<Rightarrow> bytes option" where
  "gateway_sign_frame md ctx encoded_frame =
    (case (ctx, encoded_frame) of
       (Some c, Some f) \<Rightarrow>
         if ga_state c \<noteq> GW_AUTH_AUTHENTICATED then None
         else if f = [] then None
         else Some (iot_hmac_sha256 md (ga_session_key c) f)
     | _ \<Rightarrow> None)"

definition gateway_advance_sequence :: "GatewayAuthContext_t option \<Rightarrow> GatewayAuthContext_t option" where
  "gateway_advance_sequence ctx = map_option (\<lambda>c. c\<lparr>ga_tx_sequence := ga_tx_sequence c + 1\<rparr>) ctx"

definition gateway_get_sequence :: "GatewayAuthContext_t option \<Rightarrow> u32" where
  "gateway_get_sequence ctx = (case ctx of Some c \<Rightarrow> ga_tx_sequence c | None \<Rightarrow> 0)"

definition gateway_get_state :: "GatewayAuthContext_t option \<Rightarrow> GatewayAuthState_t" where
  "gateway_get_state ctx = (case ctx of Some c \<Rightarrow> ga_state c | None \<Rightarrow> GW_AUTH_UNINIT)"

definition gateway_set_state :: "GatewayAuthContext_t option \<Rightarrow> GatewayAuthState_t \<Rightarrow> GatewayAuthContext_t option" where
  "gateway_set_state ctx state = map_option (\<lambda>c. c\<lparr>ga_state := state\<rparr>) ctx"

section \<open>Wire format\<close>

definition encode_header :: "BatchFrameHeader_t \<Rightarrow> bytes" where
  "encode_header h = [bh_magic h, bh_version h, bh_entry_count h, bh_flags h] @ le_bytes32 (bh_sequence_number h)"

definition encode_entry :: "BatchFrameEntry_t \<Rightarrow> bytes" where
  "encode_entry e = le_bytes16 (be_node_id e) @ [be_metric_id e] @ le_bytes32 (be_value e)"

definition batch_encode_frame :: "BatchFrameHeader_t option \<Rightarrow> BatchFrameEntry_t list option \<Rightarrow> nat \<Rightarrow> bytes option" where
  "batch_encode_frame header entries buf_size =
    (case (header, entries) of
       (Some h, Some es) \<Rightarrow>
         let needed = BATCH_FRAME_HEADER_SIZE + length es * BATCH_FRAME_ENTRY_SIZE
         in if buf_size < needed then None
            else Some (encode_header h @ concat (map encode_entry es)
                       @ (if bh_version h = 0x02 then replicate BATCH_FRAME_HMAC_SIZE 0 else []))
     | _ \<Rightarrow> None)"

definition decode_entry :: "bytes \<Rightarrow> nat \<Rightarrow> BatchFrameEntry_t" where
  "decode_entry buf pos =
     \<lparr>be_node_id = le_word16 (buf ! pos) (buf ! (pos + 1)), be_metric_id = buf ! (pos + 2),
      be_value = le_word32 (buf ! (pos + 3)) (buf ! (pos + 4)) (buf ! (pos + 5)) (buf ! (pos + 6))\<rparr>"

definition decode_entries :: "bytes \<Rightarrow> nat \<Rightarrow> nat \<Rightarrow> BatchFrameEntry_t list" where
  "decode_entries buf pos count = map (\<lambda>i. decode_entry buf (pos + BATCH_FRAME_ENTRY_SIZE * i)) [0..<count]"

definition batch_decode_frame_untrusted ::
  "bytes option \<Rightarrow> nat \<Rightarrow> (BatchFrameHeader_t \<times> BatchFrameEntry_t list) option"
where
  "batch_decode_frame_untrusted wire max_entries =
    (case wire of
       None \<Rightarrow> None
     | Some buf \<Rightarrow>
         if length buf < 4 then None
         else
           let h = \<lparr>bh_magic = buf ! 0, bh_version = buf ! 1, bh_entry_count = buf ! 2, bh_flags = buf ! 3,
                    bh_sequence_number = 0\<rparr>;
               n = unat (bh_entry_count h);
               count = (if n > max_entries then max_entries else n)
           in if bh_magic h \<noteq> BATCH_FRAME_MAGIC then None
              else if bh_version h = 0x01 then
                (if length buf < 4 + n * BATCH_FRAME_ENTRY_SIZE then None
                 else Some (h, decode_entries buf 4 count))
              else if bh_version h \<noteq> 0x02 then None
              else if length buf < BATCH_FRAME_HEADER_SIZE then None
              else
                let h = h\<lparr>bh_sequence_number := le_word32 (buf ! 4) (buf ! 5) (buf ! 6) (buf ! 7)\<rparr>;
                    entries_and_hmac_len = length buf - BATCH_FRAME_HEADER_SIZE
                in if entries_and_hmac_len < BATCH_FRAME_HMAC_SIZE then None
                   else if entries_and_hmac_len - BATCH_FRAME_HMAC_SIZE < n * BATCH_FRAME_ENTRY_SIZE then None
                   else Some (h, decode_entries buf BATCH_FRAME_HEADER_SIZE count))"

section \<open>The forwarder\<close>

record batch_forwarder =
  bf_send_func :: "(bytes \<Rightarrow> bool) option"
  bf_stats :: BatchForwarderStats_t
  bf_auth_ctx :: "GatewayAuthContext_t option"

definition batch_stats_zero :: BatchForwarderStats_t where
  "batch_stats_zero = \<lparr>bs_total_batches = 0, bs_total_entries_sent = 0, bs_total_send_ok = 0, bs_total_send_fail = 0\<rparr>"

definition batch_forwarder_init :: "(bytes \<Rightarrow> bool) option \<Rightarrow> batch_forwarder" where
  "batch_forwarder_init send_func = \<lparr>bf_send_func = send_func, bf_stats = batch_stats_zero, bf_auth_ctx = None\<rparr>"

definition batch_forwarder_set_auth :: "batch_forwarder \<Rightarrow> GatewayAuthContext_t option \<Rightarrow> batch_forwarder" where
  "batch_forwarder_set_auth b auth_ctx = b\<lparr>bf_auth_ctx := auth_ctx\<rparr>"

definition batch_entry_of :: "CacheEntry_t \<Rightarrow> BatchFrameEntry_t" where
  "batch_entry_of e = \<lparr>be_node_id = ce_node_id e, be_metric_id = ce_metric_id e, be_value = ce_value e\<rparr>"

definition clear_all_dirty :: "cache \<Rightarrow> CacheEntry_t list \<Rightarrow> cache" where
  "clear_all_dirty c es = foldl (\<lambda>c e. snd (cache_clear_dirty c (ce_node_id e) (ce_metric_id e))) c es"

text \<open>The result: the returned count, the frame handed to the radio, the cache and the forwarder.\<close>

definition batch_forwarder_flush ::
  "md_hmac \<Rightarrow> batch_forwarder \<Rightarrow> cache \<Rightarrow> u8 \<times> bytes option \<times> cache \<times> batch_forwarder"
where
  "batch_forwarder_flush md b c =
    (case bf_send_func b of
       None \<Rightarrow> (0, None, c, b)
     | Some send \<Rightarrow>
         if bf_auth_ctx b = None \<or> gateway_get_state (bf_auth_ctx b) \<noteq> GW_AUTH_AUTHENTICATED then (0, None, c, b)
         else
           let dirty = cache_get_dirty c (word_of_nat BATCH_MAX_ENTRIES)
           in if dirty = [] then (0, None, c, b)
              else
                let st = bf_stats b;
                    b = b\<lparr>bf_stats := st\<lparr>bs_total_batches := bs_total_batches st + 1\<rparr>\<rparr>;
                    header = \<lparr>bh_magic = BATCH_FRAME_MAGIC, bh_version = BATCH_FRAME_VERSION,
                      bh_entry_count = word_of_nat (length dirty), bh_flags = 0,
                      bh_sequence_number = gateway_get_sequence (bf_auth_ctx b)\<rparr>
                in case batch_encode_frame (Some header) (Some (map batch_entry_of dirty)) BATCH_FRAME_MAX_SIZE of
                     None \<Rightarrow> (0, None, c, b)
                   | Some wire \<Rightarrow>
                       let body = take (length wire - GATEWAY_HMAC_SIZE) wire;
                           frame = (case gateway_sign_frame md (bf_auth_ctx b) (Some body) of
                                      Some hmac \<Rightarrow> body @ hmac | None \<Rightarrow> wire);
                           st = bf_stats b
                       in if send frame then
                            (word_of_nat (length dirty), Some frame, clear_all_dirty c dirty,
                             b\<lparr>bf_auth_ctx := gateway_advance_sequence (bf_auth_ctx b),
                               bf_stats := st\<lparr>bs_total_send_ok := bs_total_send_ok st + 1,
                                 bs_total_entries_sent := bs_total_entries_sent st + word_of_nat (length dirty)\<rparr>\<rparr>)
                          else
                            (word_of_nat (length dirty), Some frame, c,
                             b\<lparr>bf_stats := st\<lparr>bs_total_send_fail := bs_total_send_fail st + 1\<rparr>\<rparr>))"

definition batch_forwarder_get_stats :: "batch_forwarder \<Rightarrow> BatchForwarderStats_t" where
  "batch_forwarder_get_stats b = bf_stats b"

section \<open>Hub side\<close>

definition gateway_tracker_init :: "GatewayGatewayTracker_t \<Rightarrow> u8 \<Rightarrow> bytes option \<Rightarrow> GatewayGatewayTracker_t" where
  "gateway_tracker_init tracker gateway_id session_key =
    (case session_key of
       None \<Rightarrow> tracker
     | Some k \<Rightarrow> \<lparr>gt_gateway_node_id = gateway_id, gt_last_sequence = 0, gt_sequence_initialized = False,
         gt_session_key = take GATEWAY_HMAC_SIZE k, gt_authenticated = False\<rparr>)"

definition msg_unsupported_version :: bytes where
  "msg_unsupported_version = cstr ''Gateway batch frame rejected: unsupported version '' @ emdash @ cstr '' possible downgrade attack''"
definition msg_hmac_mismatch :: bytes where
  "msg_hmac_mismatch = cstr ''Gateway batch frame HMAC mismatch '' @ emdash @ cstr '' possible tampering''"
definition msg_sequence_gap :: bytes where
  "msg_sequence_gap = cstr ''Gateway sequence gap detected '' @ emdash @ cstr '' possible suppression''"
definition msg_decode_failed :: bytes where
  "msg_decode_failed = cstr ''Gateway frame passed HMAC but failed structural decode''"
definition msg_null_tracker :: bytes where
  "msg_null_tracker = cstr ''gateway_ingest_frame: NULL edge_tracker '' @ emdash @ cstr '' parameter error''"
definition msg_node_rejected :: bytes where
  "msg_node_rejected = cstr ''Edge Node data rejected: attestation not verified or expired''"

definition gateway_verify_frame ::
  "md_hmac \<Rightarrow> audit_env \<Rightarrow> GatewayGatewayTracker_t option \<Rightarrow> bytes option \<Rightarrow> GatewayFrameResult_t \<times> audit_env"
where
  "gateway_verify_frame md env tracker encoded_frame =
    (case (tracker, encoded_frame) of
       (Some t, Some f) \<Rightarrow>
         if \<not> gt_authenticated t then (GW_FRAME_ERR_NOT_AUTH, env)
         else if length f < 4 then (GW_FRAME_ERR_PARAM_NULL, env)
         else if f ! 1 \<noteq> 0x02 then
           (GW_FRAME_ERR_HMAC_MISMATCH, audit_note md env AUDIT_AUTH_FAILURE 0 0 msg_unsupported_version)
         else if length f < 4 + 4 + 32 then (GW_FRAME_ERR_PARAM_NULL, env)
         else
           let sequence = le_word32 (f ! 4) (f ! 5) (f ! 6) (f ! 7);
               verify_len = length f - GATEWAY_HMAC_SIZE;
               received_hmac = drop verify_len f;
               expected_hmac = iot_hmac_sha256 md (gt_session_key t) (take verify_len f)
           in if ct_diff received_hmac expected_hmac \<noteq> 0 then
                (GW_FRAME_ERR_HMAC_MISMATCH, audit_note md env AUDIT_AUTH_FAILURE 0 0 msg_hmac_mismatch)
              else (GW_FRAME_OK,
                if gt_sequence_initialized t \<and> sequence \<noteq> gt_last_sequence t + 1
                then audit_note md env AUDIT_CONFIG_WRITE 0 0 msg_sequence_gap else env)
     | _ \<Rightarrow> (GW_FRAME_ERR_PARAM_NULL, env))"

definition gateway_tracker_update_sequence :: "GatewayGatewayTracker_t \<Rightarrow> u32 \<Rightarrow> GatewayGatewayTracker_t" where
  "gateway_tracker_update_sequence t sequence = t\<lparr>gt_last_sequence := sequence, gt_sequence_initialized := True\<rparr>"

definition edge_tracker_init :: "u64 \<Rightarrow> EdgeNodeTracker_t" where
  "edge_tracker_init expiry_ms =
     \<lparr>et_entries = [], et_expiry_ms = (if expiry_ms > 0 then expiry_ms else EDGE_NODE_ATTEST_EXPIRY_MS)\<rparr>"

definition edge_tracker_attest ::
  "md_hmac \<Rightarrow> attestation \<Rightarrow> EdgeNodeTracker_t option \<Rightarrow> AttestationChallenge_t option \<Rightarrow>
   AttestationResponse_t option \<Rightarrow> u64 \<Rightarrow> AttestationResult_t \<times> EdgeNodeTracker_t option"
where
  "edge_tracker_attest md att tracker challenge response current_ms =
    (case (tracker, challenge, response) of
       (Some t, Some c, Some r) \<Rightarrow>
         let result = attestation_verify md att (Some c) (Some r) 5000
         in if result \<noteq> ATTEST_OK then (result, Some t)
            else
              let node_id = ar_responder_id r
              in case upd_first (\<lambda>e. et_active e \<and> et_node_id e = node_id)
                        (\<lambda>e. e\<lparr>et_attested := True, et_attested_at_ms := current_ms\<rparr>) (et_entries t) of
                   Some es \<Rightarrow> (ATTEST_OK, Some (t\<lparr>et_entries := es\<rparr>))
                 | None \<Rightarrow>
                     if EDGE_NODE_TRACKER_MAX \<le> length (et_entries t) then (ATTEST_ERR_PARAM_NULL, Some t)
                     else (ATTEST_OK, Some (t\<lparr>et_entries := et_entries t @
                            [\<lparr>et_node_id = node_id, et_attested = True, et_attested_at_ms = current_ms, et_active = True\<rparr>]\<rparr>))
     | _ \<Rightarrow> (ATTEST_ERR_PARAM_NULL, tracker))"

definition edge_tracker_is_trusted :: "EdgeNodeTracker_t option \<Rightarrow> u8 \<Rightarrow> u64 \<Rightarrow> bool" where
  "edge_tracker_is_trusted tracker node_id current_ms =
    (case tracker of
       None \<Rightarrow> False
     | Some t \<Rightarrow>
         (case find (\<lambda>e. et_active e \<and> et_node_id e = node_id) (et_entries t) of
            None \<Rightarrow> False
          | Some e \<Rightarrow>
              if \<not> et_attested e then False
              else if current_ms > 0 \<and> et_expiry_ms t > 0
                then \<not> current_ms - et_attested_at_ms e > et_expiry_ms t
              else True))"

definition edge_tracker_count :: "EdgeNodeTracker_t option \<Rightarrow> u8" where
  "edge_tracker_count tracker = (case tracker of None \<Rightarrow> 0 | Some t \<Rightarrow> word_of_nat (length (et_entries t)))"

text \<open>Step 4 of the ingestion: the filter loop with its audit entries.\<close>

fun filter_trusted ::
  "md_hmac \<Rightarrow> audit_env \<Rightarrow> edge_tracker_arg \<Rightarrow> nat \<Rightarrow> BatchFrameEntry_t list \<Rightarrow> BatchFrameEntry_t list \<Rightarrow>
   BatchFrameEntry_t list \<times> audit_env"
where
  "filter_trusted md env et max_entries [] out = (out, env)"
| "filter_trusted md env et max_entries (e # es) out =
    (if \<not> length out < max_entries then (out, env)
     else
       let node_id = (ucast (be_node_id e) :: u8);
           trusted = (case et of Edge_Check_Disabled \<Rightarrow> True | Edge_Null \<Rightarrow> False
                      | Edge_Tracker t \<Rightarrow> edge_tracker_is_trusted (Some t) node_id 0)
       in if \<not> trusted
          then filter_trusted md (audit_note md env AUDIT_AUTH_FAILURE node_id 0 msg_node_rejected) et max_entries es out
          else filter_trusted md env et max_entries es (out @ [e]))"

text \<open>The result: code, header and entries (none on an error), tracker and audit log.\<close>

definition gateway_ingest_frame ::
  "md_hmac \<Rightarrow> audit_env \<Rightarrow> GatewayGatewayTracker_t option \<Rightarrow> edge_tracker_arg \<Rightarrow> bytes option \<Rightarrow> u8 \<Rightarrow>
   GatewayFrameResult_t \<times> (BatchFrameHeader_t \<times> BatchFrameEntry_t list) option \<times> GatewayGatewayTracker_t option \<times> audit_env"
where
  "gateway_ingest_frame md env tracker edge_tracker raw_frame max_entries =
    (case (tracker, raw_frame) of
       (Some t, Some f) \<Rightarrow>
         (case gateway_verify_frame md env tracker raw_frame of
            (vr, env) \<Rightarrow>
              if vr \<noteq> GW_FRAME_OK then (vr, None, tracker, env)
              else (case batch_decode_frame_untrusted raw_frame BATCH_MAX_ENTRIES of
                 None \<Rightarrow> (GW_FRAME_ERR_HMAC_MISMATCH, None, tracker,
                           audit_note md env AUDIT_AUTH_FAILURE 0 0 msg_decode_failed)
               | Some (h, es) \<Rightarrow>
                   let t = gateway_tracker_update_sequence t (bh_sequence_number h)
                   in if edge_tracker = Edge_Null then
                        (GW_FRAME_ERR_PARAM_NULL, None, Some t,
                         audit_note md env AUDIT_AUTH_FAILURE 0 0 msg_null_tracker)
                      else (case filter_trusted md env edge_tracker (unat max_entries) es [] of
                         (out, env) \<Rightarrow> (GW_FRAME_OK, Some (h, out), Some t, env))))
     | _ \<Rightarrow> (GW_FRAME_ERR_PARAM_NULL, None, tracker, env))"

section \<open>Decoding what was encoded\<close>

lemma length_encode_header [simp]: "length (encode_header h) = 8"
  by (simp add: encode_header_def)

lemma length_encode_entry [simp]: "length (encode_entry e) = 7"
  by (simp add: encode_entry_def)

lemma length_encode_entries [simp]: "length (concat (map encode_entry es)) = 7 * length es"
  by (induction es) auto

lemma decode_encode_entry: "decode_entry (encode_entry e @ rest) 0 = e"
  by (simp add: decode_entry_def encode_entry_def le_bytes16_def le_bytes32_def)

lemma decode_entry_shift: "decode_entry (pre @ buf) (length pre + k) = decode_entry buf k"
  by (simp add: decode_entry_def nth_append add.assoc)

lemma nth_encode_entries:
  "i < length es \<Longrightarrow> decode_entry (concat (map encode_entry es) @ rest) (7 * i) = es ! i"
proof (induction es arbitrary: i)
  case (Cons e es)
  show ?case
  proof (cases i)
    case 0 then show ?thesis by (simp add: decode_encode_entry)
  next
    case (Suc j)
    have "decode_entry (encode_entry e @ (concat (map encode_entry es) @ rest)) (length (encode_entry e) + 7 * j) = es ! j"
      using Suc Cons by (subst decode_entry_shift) simp
    then show ?thesis using Suc by (simp add: algebra_simps)
  qed
qed simp

lemma decode_entries_encode:
  assumes "length pre = p" and "n \<le> length es"
  shows "decode_entries (pre @ concat (map encode_entry es) @ rest) p n = take n es"
proof (rule nth_equalityI)
  fix i assume "i < length (decode_entries (pre @ concat (map encode_entry es) @ rest) p n)"
  then have i: "i < n" by (simp add: decode_entries_def)
  then show "decode_entries (pre @ concat (map encode_entry es) @ rest) p n ! i = take n es ! i"
    using assms decode_entry_shift[of pre _ "7 * i"] nth_encode_entries[of i es rest]
    by (simp add: decode_entries_def BATCH_FRAME_ENTRY_SIZE_def)
qed (use assms in \<open>simp add: decode_entries_def\<close>)

text \<open>A version 2 frame with any tag decodes to its header and its entries.\<close>

lemma decode_frame:
  assumes "bh_magic h = BATCH_FRAME_MAGIC" and "bh_version h = 0x02" and "unat (bh_entry_count h) = length es"
    and "length tag = 32"
  shows "batch_decode_frame_untrusted (Some (encode_header h @ concat (map encode_entry es) @ tag)) max_entries =
           Some (h, take max_entries es)"
proof -
  let ?buf = "encode_header h @ concat (map encode_entry es) @ tag"
  have b: "?buf ! 0 = bh_magic h" "?buf ! 1 = bh_version h" "?buf ! 2 = bh_entry_count h" "?buf ! 3 = bh_flags h"
    and seq: "le_word32 (?buf ! 4) (?buf ! 5) (?buf ! 6) (?buf ! 7) = bh_sequence_number h"
    by (simp_all add: encode_header_def le_bytes32_def)
  have len: "length ?buf = 40 + 7 * length es" using assms(4) by simp
  have es: "decode_entries ?buf 8 (if length es > max_entries then max_entries else length es) = take max_entries es"
    using decode_entries_encode[of "encode_header h" 8 _ es tag] by simp
  show ?thesis
    unfolding batch_decode_frame_untrusted_def option.case Let_def b seq len BATCH_FRAME_HEADER_SIZE_def
    using assms(1-3) es by (cases "max_entries < length es") (simp_all add: batch_consts)
qed

lemma batch_encode_Some:
  "batch_encode_frame (Some h) (Some es) n = Some w \<Longrightarrow>
     w = encode_header h @ concat (map encode_entry es) @ (if bh_version h = 0x02 then replicate 32 0 else [])
     \<and> 8 + 7 * length es \<le> n"
  by (auto simp: batch_encode_frame_def Let_def batch_consts split: if_splits)

section \<open>Verification and trust\<close>

lemma verify_frame_OK:
  assumes "md_hmac_ok md" and "length tag = 32"
  shows "fst (gateway_verify_frame md env (Some t) (Some (body @ tag))) = GW_FRAME_OK \<longleftrightarrow>
     gt_authenticated t \<and> 8 \<le> length body \<and> (body @ tag) ! 1 = 0x02 \<and> tag = iot_hmac_sha256 md (gt_session_key t) body"
proof -
  have "length tag = length (iot_hmac_sha256 md (gt_session_key t) body)"
    using assms by (simp add: ATTESTATION_HMAC_SIZE_def)
  then show ?thesis using assms(2)
    by (auto simp: gateway_verify_frame_def Let_def GATEWAY_HMAC_SIZE_def ct_diff_eq_0_iff)
qed

definition edge_trusts :: "edge_tracker_arg \<Rightarrow> BatchFrameEntry_t \<Rightarrow> bool" where
  "edge_trusts et e = (case et of Edge_Check_Disabled \<Rightarrow> True | Edge_Null \<Rightarrow> False
     | Edge_Tracker t \<Rightarrow> edge_tracker_is_trusted (Some t) (ucast (be_node_id e)) 0)"

lemma filter_trusted_eq:
  "length out \<le> k \<Longrightarrow> fst (filter_trusted md env et k es out) = out @ take (k - length out) (filter (edge_trusts et) es)"
proof (induction es arbitrary: out env)
  case (Cons e es)
  show ?case
  proof (cases "length out < k")
    case True
    then have "k - length out = Suc (k - Suc (length out))" by simp
    with True Cons.IH[of out] Cons.IH[of "out @ [e]"] show ?thesis by (simp add: edge_trusts_def Let_def)
  qed (use Cons.prems in auto)
qed simp

text \<open>What an accepted frame amounts to.\<close>

lemma ingest_OK_iff:
  "fst (gateway_ingest_frame md env (Some t) et (Some f) k) = GW_FRAME_OK \<longleftrightarrow>
     fst (gateway_verify_frame md env (Some t) (Some f)) = GW_FRAME_OK \<and> et \<noteq> Edge_Null \<and>
     batch_decode_frame_untrusted (Some f) BATCH_MAX_ENTRIES \<noteq> None"
  by (auto simp: gateway_ingest_frame_def Let_def split: prod.splits option.splits)

lemma ingest_result:
  assumes "gateway_ingest_frame md env (Some t) et (Some f) k = (GW_FRAME_OK, res, t', env')"
  shows "\<exists>h es. batch_decode_frame_untrusted (Some f) BATCH_MAX_ENTRIES = Some (h, es) \<and>
     res = Some (h, take (unat k) (filter (edge_trusts et) es)) \<and>
     t' = Some (gateway_tracker_update_sequence t (bh_sequence_number h))"
  using assms filter_trusted_eq[of "[]" "unat k" md]
  by (auto simp: gateway_ingest_frame_def Let_def split: prod.splits option.splits if_splits) (metis fst_conv)+

text \<open>The frame a flush hands to the radio.\<close>

definition flush_header :: "GatewayAuthContext_t \<Rightarrow> CacheEntry_t list \<Rightarrow> BatchFrameHeader_t" where
  "flush_header ctx dirty = \<lparr>bh_magic = BATCH_FRAME_MAGIC, bh_version = BATCH_FRAME_VERSION,
     bh_entry_count = word_of_nat (length dirty), bh_flags = 0, bh_sequence_number = ga_tx_sequence ctx\<rparr>"

definition flush_body :: "GatewayAuthContext_t \<Rightarrow> CacheEntry_t list \<Rightarrow> bytes" where
  "flush_body ctx dirty = encode_header (flush_header ctx dirty) @ concat (map encode_entry (map batch_entry_of dirty))"

definition flush_frame :: "md_hmac \<Rightarrow> GatewayAuthContext_t \<Rightarrow> CacheEntry_t list \<Rightarrow> bytes" where
  "flush_frame md ctx dirty = flush_body ctx dirty @ iot_hmac_sha256 md (ga_session_key ctx) (flush_body ctx dirty)"

lemma length_cache_get_dirty: "length (cache_get_dirty c k) \<le> unat k"
  by (simp add: cache_get_dirty_eq)

lemma flush_sends:
  assumes "bf_send_func b = Some send" and "bf_auth_ctx b = Some ctx" and "ga_state ctx = GW_AUTH_AUTHENTICATED"
    and dirty: "dirty = cache_get_dirty c 22" and "dirty \<noteq> []" and frame_def: "frame = flush_frame md ctx dirty"
  shows "\<exists>b'. batch_forwarder_flush md b c = (word_of_nat (length dirty), Some frame,
      if send frame then clear_all_dirty c dirty else c, b')
    \<and> bf_auth_ctx b' = (if send frame then Some (ctx\<lparr>ga_tx_sequence := ga_tx_sequence ctx + 1\<rparr>) else Some ctx)
    \<and> bf_send_func b' = Some send"
proof -
  have n: "length dirty \<le> 22" using length_cache_get_dirty[of c 22] dirty by simp
  have enc: "batch_encode_frame (Some (flush_header ctx dirty)) (Some (map batch_entry_of dirty)) BATCH_FRAME_MAX_SIZE
      = Some (flush_body ctx dirty @ replicate 32 0)"
    using n by (simp add: batch_encode_frame_def flush_body_def flush_header_def batch_consts Let_def)
  have ne: "flush_body ctx dirty \<noteq> []" by (simp add: flush_body_def encode_header_def)
  show ?thesis
    using assms(1-3,5) enc ne unfolding batch_forwarder_flush_def
    by (simp add: dirty[symmetric] gateway_get_state_def gateway_get_sequence_def gateway_sign_frame_def Let_def
        flush_header_def[symmetric] frame_def flush_frame_def GATEWAY_HMAC_SIZE_def gateway_advance_sequence_def BATCH_MAX_ENTRIES_def)
qed

lemma clear_dirty_lookup:
  assumes "cache_ok c"
  shows "cache_ok (snd (cache_clear_dirty c n m)) \<and>
    cache_lookup (snd (cache_clear_dirty c n m)) k =
      (if k = (n, m) then map_option (\<lambda>e. e\<lparr>ce_dirty := False\<rparr>) (cache_lookup c k) else cache_lookup c k)"
proof (cases "find_entry c n m")
  case None then show ?thesis using assms by (simp add: cache_clear_dirty_def find_entry_lookup)
next
  case (Some i)
  note i = find_entry_SomeD[OF Some]
  let ?e = "(ca_entries c ! i)\<lparr>ce_dirty := False\<rparr>"
  have e: "cache_key ?e = cache_key (ca_entries c ! i)" "ce_valid ?e" using i by (auto simp: cache_key_def)
  then show ?thesis
    using Some i cache_ok_update[OF assms _ e] cache_lookup_update[OF assms _ e, of k]
    by (auto simp: cache_clear_dirty_def find_entry_lookup)
qed

lemma clear_all_lookup:
  "cache_ok c \<Longrightarrow> cache_ok (clear_all_dirty c es) \<and> cache_lookup (clear_all_dirty c es) k =
    (if k \<in> cache_key ` set es then map_option (\<lambda>e. e\<lparr>ce_dirty := False\<rparr>) (cache_lookup c k) else cache_lookup c k)"
proof (induction es arbitrary: c)
  case (Cons e es)
  let ?c = "snd (cache_clear_dirty c (ce_node_id e) (ce_metric_id e))"
  have "clear_all_dirty c (e # es) = clear_all_dirty ?c es" by (simp add: clear_all_dirty_def)
  moreover have "(ce_node_id e, ce_metric_id e) = cache_key e" by (simp add: cache_key_def)
  ultimately show ?case
    using Cons.IH[of ?c] clear_dirty_lookup[OF Cons.prems, of "ce_node_id e" "ce_metric_id e" k]
      clear_dirty_lookup[OF Cons.prems, of "ce_node_id e" "ce_metric_id e"]
    by (auto simp: option.map_comp comp_def)
qed (simp add: clear_all_dirty_def)

section \<open>Properties\<close>

text \<open>
  End to end: a flush of an authenticated gateway, delivered to a hub that tracks this gateway
  with the same session key, is accepted, and the hub gets exactly the sent cache entries of the
  edge nodes it trusts, in cache order, with the gateway's sequence number.
\<close>

lemma flush_ingest:
  assumes "md_hmac_ok md" and "bf_send_func b = Some send"
    and "bf_auth_ctx b = Some ctx" and "ga_state ctx = GW_AUTH_AUTHENTICATED"
    and "gt_authenticated t" and "gt_session_key t = ga_session_key ctx"
    and "cache_get_dirty c 22 \<noteq> []" and "et \<noteq> Edge_Null" and "22 \<le> unat k"
  shows "\<exists>frame h env'. fst (snd (batch_forwarder_flush md b c)) = Some frame \<and>
    gateway_ingest_frame md env (Some t) et (Some frame) k =
      (GW_FRAME_OK, Some (h, filter (edge_trusts et) (map batch_entry_of (cache_get_dirty c 22))),
       Some (gateway_tracker_update_sequence t (ga_tx_sequence ctx)), env') \<and>
    bh_sequence_number h = ga_tx_sequence ctx"
proof -
  let ?d = "cache_get_dirty c 22"
  let ?h = "flush_header ctx ?d" and ?es = "map batch_entry_of ?d"
  let ?body = "flush_body ctx ?d"
  let ?tag = "iot_hmac_sha256 md (ga_session_key ctx) ?body"
  have tag: "length ?tag = 32" using assms(1) by (simp add: ATTESTATION_HMAC_SIZE_def)
  have n: "length ?es \<le> 22" using length_cache_get_dirty[of c 22] by simp
  have cnt: "unat (bh_entry_count ?h) = length ?es"
    using n by (simp add: flush_header_def unat_word_of_nat_small)
  have dec: "batch_decode_frame_untrusted (Some (?body @ ?tag)) BATCH_MAX_ENTRIES = Some (?h, ?es)"
    using decode_frame[of ?h ?es ?tag BATCH_MAX_ENTRIES] cnt tag n
    by (simp add: flush_body_def flush_header_def batch_consts)
  have ver: "fst (gateway_verify_frame md env (Some t) (Some (?body @ ?tag))) = GW_FRAME_OK"
    using verify_frame_OK[OF assms(1) tag, of env t ?body] assms(5,6)
    by (simp add: flush_body_def) (simp add: encode_header_def flush_header_def BATCH_FRAME_VERSION_def)
  have "fst (gateway_ingest_frame md env (Some t) et (Some (?body @ ?tag)) k) = GW_FRAME_OK"
    using ver dec assms(8) by (simp add: ingest_OK_iff)
  then obtain res t' env' where ing: "gateway_ingest_frame md env (Some t) et (Some (?body @ ?tag)) k = (GW_FRAME_OK, res, t', env')"
    by (metis prod.collapse)
  have "length (filter (edge_trusts et) ?es) \<le> unat k"
    using le_trans[OF length_filter_le le_trans[OF n assms(9)]] .
  then have "res = Some (?h, filter (edge_trusts et) ?es)" "t' = Some (gateway_tracker_update_sequence t (ga_tx_sequence ctx))"
    using ingest_result[OF ing] dec by (auto simp: flush_header_def)
  with ing flush_sends[OF assms(2-4) refl assms(7) refl, of md] show ?thesis
    by (auto simp: flush_header_def flush_frame_def)
qed

definition demo_ctx :: GatewayAuthContext_t where
  "demo_ctx = \<lparr>ga_gateway_node_id = 0xF0, ga_hub_node_id = 1, ga_session_key = replicate 32 5,
     ga_tx_sequence = 7, ga_state = GW_AUTH_AUTHENTICATED\<rparr>"

definition demo_forwarder :: "bool \<Rightarrow> batch_forwarder" where
  "demo_forwarder ack = \<lparr>bf_send_func = Some (\<lambda>_. ack), bf_stats = batch_stats_zero, bf_auth_ctx = Some demo_ctx\<rparr>"

definition demo_tracker :: GatewayGatewayTracker_t where
  "demo_tracker = \<lparr>gt_gateway_node_id = 0xF0, gt_last_sequence = 6, gt_sequence_initialized = True,
     gt_session_key = replicate 32 5, gt_authenticated = True\<rparr>"

definition demo_edge :: edge_tracker_arg where
  "demo_edge = Edge_Tracker \<lparr>et_entries = [\<lparr>et_node_id = 7, et_attested = True, et_attested_at_ms = 0, et_active = True\<rparr>],
     et_expiry_ms = 1000\<rparr>"

lemma demo_cache_dirty:
  "cache_get_dirty demo_cache 22 = [\<lparr>ce_node_id = 7, ce_metric_id = 1, ce_value = 0x41A00000, ce_valid = True, ce_dirty = True\<rparr>]"
  by (simp add: cache_get_dirty_eq demo_cache_def cache_write_def Let_def cache_init_def find_entry_def
      bump_hits_def GATEWAY_MAX_NODES_def GATEWAY_MAX_METRICS_def)

text \<open>
  C27.  The ingestion gate: an accepted frame carries version 2 and a tag that is the HMAC of the rest
  of the frame under the gateway's session key; the entries handed on are, in order and up to the size of the array, those of
  the decoded frame that the edge tracker trusts, and each names (in its low byte) an edge node whose attestation was recorded.
\<close>

theorem ingest_gate:
  assumes "md_hmac_ok md"
    and "gateway_ingest_frame md env (Some t) (Edge_Tracker et) (Some f) k = (GW_FRAME_OK, Some (h, out), t', env')"
  shows "gt_authenticated t \<and> f ! 1 = 0x02 \<and>
     drop (length f - 32) f = iot_hmac_sha256 md (gt_session_key t) (take (length f - 32) f) \<and>
     length out \<le> unat k \<and>
     (\<exists>es. batch_decode_frame_untrusted (Some f) BATCH_MAX_ENTRIES = Some (h, es) \<and>
        out = take (unat k) (filter (edge_trusts (Edge_Tracker et)) es)) \<and>
     (\<forall>e \<in> set out. \<exists>n \<in> set (et_entries et). et_node_id n = ucast (be_node_id e) \<and> et_attested n \<and> et_active n)"
proof -
  have ver: "fst (gateway_verify_frame md env (Some t) (Some f)) = GW_FRAME_OK"
    using assms(2) ingest_OK_iff[of md env t "Edge_Tracker et" f k] by simp
  then have len: "40 \<le> length f"
    by (auto simp: gateway_verify_frame_def split: if_splits)
  let ?body = "take (length f - 32) f" and ?tag = "drop (length f - 32) f"
  have "fst (gateway_verify_frame md env (Some t) (Some (?body @ ?tag))) = GW_FRAME_OK" using ver by simp
  then have v: "gt_authenticated t" "f ! 1 = 0x02" "?tag = iot_hmac_sha256 md (gt_session_key t) ?body"
    using verify_frame_OK[OF assms(1), of ?tag env t ?body] len by auto
  obtain es where dec: "batch_decode_frame_untrusted (Some f) BATCH_MAX_ENTRIES = Some (h, es)"
    and out: "out = take (unat k) (filter (edge_trusts (Edge_Tracker et)) es)"
    using ingest_result[OF assms(2)] by auto
  have "\<exists>n \<in> set (et_entries et). et_node_id n = ucast (be_node_id e) \<and> et_attested n \<and> et_active n"
    if "e \<in> set out" for e
  proof -
    have "edge_trusts (Edge_Tracker et) e" using that out by (auto dest: in_set_takeD)
    then show ?thesis
      by (auto simp: edge_trusts_def edge_tracker_is_trusted_def split: option.splits if_splits dest!: find_SomeD)
  qed
  then show ?thesis using v dec out by simp
qed

definition demo_wire :: bytes where
  "demo_wire = the (fst (snd (batch_forwarder_flush demo_md (demo_forwarder True) demo_cache)))"

lemma demo_wire_eq: "demo_wire = flush_frame demo_md demo_ctx (cache_get_dirty demo_cache 22)"
  using flush_sends[of "demo_forwarder True" "\<lambda>_. True" demo_ctx _ demo_cache _ demo_md, OF _ _ _ refl _ refl]
  by (auto simp: demo_wire_def demo_cache_dirty demo_forwarder_def demo_ctx_def)

lemma demo_wire_len: "length demo_wire = 47"
  by (simp add: demo_wire_eq flush_frame_def flush_body_def demo_md_ok demo_cache_dirty ATTESTATION_HMAC_SIZE_def)

lemma demo_wire_decodes:
  "batch_decode_frame_untrusted (Some demo_wire) BATCH_MAX_ENTRIES =
     Some (flush_header demo_ctx (cache_get_dirty demo_cache 22), [\<lparr>be_node_id = 7, be_metric_id = 1, be_value = 0x41A00000\<rparr>])"
  unfolding demo_wire_eq flush_frame_def flush_body_def append.assoc
  by (subst decode_frame) (simp_all add: flush_header_def demo_cache_dirty demo_md_ok ATTESTATION_HMAC_SIZE_def
      batch_consts batch_entry_of_def)

lemma demo_wire_accepted:
  "\<exists>h t' env'. gateway_ingest_frame demo_md env (Some demo_tracker) demo_edge (Some demo_wire) 22 =
     (GW_FRAME_OK, Some (h, [\<lparr>be_node_id = 7, be_metric_id = 1, be_value = 0x41A00000\<rparr>]), Some t', env')
     \<and> gt_authenticated t' \<and> gt_session_key t' = gt_session_key demo_tracker"
proof -
  have "fst (gateway_verify_frame demo_md env (Some demo_tracker) (Some demo_wire)) = GW_FRAME_OK"
    unfolding demo_wire_eq flush_frame_def
    by (subst verify_frame_OK[OF demo_md_ok])
      (simp_all add: demo_md_ok ATTESTATION_HMAC_SIZE_def demo_tracker_def demo_ctx_def flush_body_def
        flush_header_def encode_header_def batch_consts)
  then have "fst (gateway_ingest_frame demo_md env (Some demo_tracker) demo_edge (Some demo_wire) 22) = GW_FRAME_OK"
    by (simp add: ingest_OK_iff demo_wire_decodes demo_edge_def)
  then obtain res t' env' where
    ing: "gateway_ingest_frame demo_md env (Some demo_tracker) demo_edge (Some demo_wire) 22 = (GW_FRAME_OK, res, t', env')"
    by (metis prod.collapse)
  from ingest_result[OF ing] ing show ?thesis
    by (auto simp: demo_wire_decodes demo_edge_def edge_trusts_def edge_tracker_is_trusted_def
        gateway_tracker_update_sequence_def demo_tracker_def)
qed

theorem ingest_gate_witness:
  "drop 15 demo_wire = iot_hmac_sha256 demo_md (replicate 32 5) (take 15 demo_wire)"
proof -
  obtain h t' env' out where "gateway_ingest_frame demo_md (demo_audit, demo_time) (Some demo_tracker) demo_edge (Some demo_wire) 22
      = (GW_FRAME_OK, Some (h, out), t', env')" using demo_wire_accepted by blast
  from ingest_gate[OF demo_md_ok this[unfolded demo_edge_def]] show ?thesis
    by (simp add: demo_wire_len demo_tracker_def)
qed

text \<open>
  Retry safety of the forwarder: without an authenticated context nothing is sent; when the
  radio does not acknowledge, the cache and the sequence number are unchanged, so every entry stays
  dirty; when it does, exactly the entries in the frame become clean, all values are kept and the
  sequence number advances by one.
\<close>

theorem flush_clears_only_on_ack:
  assumes "cache_ok c" and "batch_forwarder_flush md b c = (n, sent, c', b')"
  shows "(sent = None \<longrightarrow> c' = c \<and> b' = b)
    \<and> (\<forall>frame. sent = Some frame \<longrightarrow>
        (\<exists>send ctx. bf_send_func b = Some send \<and> bf_auth_ctx b = Some ctx \<and> ga_state ctx = GW_AUTH_AUTHENTICATED \<and>
          frame = flush_frame md ctx (cache_get_dirty c 22) \<and>
          (if send frame then
             bf_auth_ctx b' = Some (ctx\<lparr>ga_tx_sequence := ga_tx_sequence ctx + 1\<rparr>) \<and>
             (\<forall>p q. cache_read c' p q = cache_read c p q \<and>
                (cache_is_dirty c' p q \<longleftrightarrow> cache_is_dirty c p q \<and> (p, q) \<notin> cache_key ` set (cache_get_dirty c 22)))
           else c' = c \<and> bf_auth_ctx b' = bf_auth_ctx b)))"
proof (cases "\<exists>send ctx. bf_send_func b = Some send \<and> bf_auth_ctx b = Some ctx \<and> ga_state ctx = GW_AUTH_AUTHENTICATED
    \<and> cache_get_dirty c 22 \<noteq> []")
  case False
  then have "batch_forwarder_flush md b c = (0, None, c, b)"
    by (auto simp: batch_forwarder_flush_def gateway_get_state_def Let_def BATCH_MAX_ENTRIES_def split: option.splits)
  then show ?thesis using assms(2) by simp
next
  case True
  then obtain send ctx where s: "bf_send_func b = Some send" "bf_auth_ctx b = Some ctx"
    "ga_state ctx = GW_AUTH_AUTHENTICATED" "cache_get_dirty c 22 \<noteq> []" by blast
  let ?d = "cache_get_dirty c 22" and ?f = "flush_frame md ctx (cache_get_dirty c 22)"
  have r: "sent = Some ?f" "c' = (if send ?f then clear_all_dirty c ?d else c)"
    "bf_auth_ctx b' = (if send ?f then Some (ctx\<lparr>ga_tx_sequence := ga_tx_sequence ctx + 1\<rparr>) else Some ctx)"
    using flush_sends[OF s(1-3) refl s(4) refl, of md] assms(2) by auto
  have "cache_read (clear_all_dirty c ?d) p q = cache_read c p q \<and>
      (cache_is_dirty (clear_all_dirty c ?d) p q \<longleftrightarrow> cache_is_dirty c p q \<and> (p, q) \<notin> cache_key ` set ?d)" for p q
    using clear_all_lookup[OF assms(1), of ?d "(p, q)"]
    by (auto simp: cache_read_lookup cache_is_dirty_lookup option.map_comp comp_def)
  then show ?thesis using r s by auto
qed

theorem flush_clears_only_on_ack_witness:
  "fst (snd (snd (batch_forwarder_flush demo_md (demo_forwarder False) demo_cache))) = demo_cache"
proof -
  obtain n sent c' b' where f: "batch_forwarder_flush demo_md (demo_forwarder False) demo_cache = (n, sent, c', b')"
    by (metis prod_cases4)
  from flush_clears_only_on_ack[OF demo_cache_ok f] f show ?thesis
    by (cases sent) (auto simp: demo_forwarder_def)
qed

text \<open>The same tracker with other attestation times and another expiry.\<close>

definition retime :: "(EdgeNodeTrackerEntry_t \<Rightarrow> u64) \<Rightarrow> u64 \<Rightarrow> EdgeNodeTracker_t \<Rightarrow> EdgeNodeTracker_t" where
  "retime f x t = t\<lparr>et_entries := map (\<lambda>e. e\<lparr>et_attested_at_ms := f e\<rparr>) (et_entries t), et_expiry_ms := x\<rparr>"

lemma find_map_inv: "(\<And>x. P (g x) = P x) \<Longrightarrow> find P (map g xs) = map_option g (find P xs)"
  by (induction xs) auto

lemma filter_trusted_cong:
  "(\<And>e. edge_trusts (Edge_Tracker s) e = edge_trusts (Edge_Tracker t) e) \<Longrightarrow>
    filter_trusted md env (Edge_Tracker s) k es out = filter_trusted md env (Edge_Tracker t) k es out"
  by (induction es arbitrary: env out) (auto simp: edge_trusts_def Let_def)

text \<open>
  Expiry of edge attestations is never enforced on ingestion: the gate passes time 0 to the
  trust test, so the recorded attestation times and the configured expiry have no effect on what
  is accepted.
\<close>

theorem ingest_ignores_expiry:
  "gateway_ingest_frame md env tracker (Edge_Tracker (retime f x et)) frame k =
   gateway_ingest_frame md env tracker (Edge_Tracker et) frame k"
proof -
  have "edge_trusts (Edge_Tracker (retime f x et)) e = edge_trusts (Edge_Tracker et) e" for e
    by (auto simp: edge_trusts_def edge_tracker_is_trusted_def retime_def find_map_inv split: option.splits)
  then have "filter_trusted md env (Edge_Tracker (retime f x et)) k es out = filter_trusted md env (Edge_Tracker et) k es out"
    for env k es out by (rule filter_trusted_cong)
  then show ?thesis by (simp add: gateway_ingest_frame_def Let_def split: option.splits prod.splits)
qed

text \<open>
  The sequence number does not stop a replay: a frame that was accepted is accepted again, with
  the same header and entries, any number of times; a wrong sequence number is only written to the
  audit log.
\<close>

theorem ingest_accepts_replay:
  assumes "gateway_ingest_frame md env (Some t) et (Some f) k = (GW_FRAME_OK, res, Some t', env')"
  shows "\<exists>t'' env''. gateway_ingest_frame md env' (Some t') et (Some f) k = (GW_FRAME_OK, res, Some t'', env'')"
proof -
  from ingest_result[OF assms] obtain h es where
    d: "batch_decode_frame_untrusted (Some f) BATCH_MAX_ENTRIES = Some (h, es)"
    "res = Some (h, take (unat k) (filter (edge_trusts et) es))"
    "t' = gateway_tracker_update_sequence t (bh_sequence_number h)" by auto
  have "fst (gateway_verify_frame md env' (Some t') (Some f)) = GW_FRAME_OK"
    using assms ingest_OK_iff[of md env t et f k]
    by (auto simp: d(3) gateway_tracker_update_sequence_def gateway_verify_frame_def Let_def split: if_splits)
  then have "fst (gateway_ingest_frame md env' (Some t') et (Some f) k) = GW_FRAME_OK"
    using assms ingest_OK_iff[of md env t et f k] ingest_OK_iff[of md env' t' et f k] by simp
  then obtain res2 t2 env2 where
    i: "gateway_ingest_frame md env' (Some t') et (Some f) k = (GW_FRAME_OK, res2, t2, env2)" by (metis prod.collapse)
  with ingest_result[OF i] d show ?thesis by auto
qed

theorem ingest_accepts_replay_witness:
  "\<exists>h t' env' t'' env''.
     gateway_ingest_frame demo_md (demo_audit, demo_time) (Some demo_tracker) demo_edge (Some demo_wire) 22 =
       (GW_FRAME_OK, Some (h, [\<lparr>be_node_id = 7, be_metric_id = 1, be_value = 0x41A00000\<rparr>]), Some t', env') \<and>
     gateway_ingest_frame demo_md env' (Some t') demo_edge (Some demo_wire) 22 =
       (GW_FRAME_OK, Some (h, [\<lparr>be_node_id = 7, be_metric_id = 1, be_value = 0x41A00000\<rparr>]), Some t'', env'')"
proof -
  obtain h t' env' where i: "gateway_ingest_frame demo_md (demo_audit, demo_time) (Some demo_tracker) demo_edge (Some demo_wire) 22
      = (GW_FRAME_OK, Some (h, [\<lparr>be_node_id = 7, be_metric_id = 1, be_value = 0x41A00000\<rparr>]), Some t', env')"
    using demo_wire_accepted by blast
  from ingest_accepts_replay[OF i] i show ?thesis by blast
qed

text \<open>
  The size check of the encoder does not count the tag: with a buffer that has room for header
  and entries only, a version 2 frame is still produced, 32 bytes longer than the buffer.
\<close>

theorem encode_overruns_buffer:
  assumes "bh_version h = 0x02"
  shows "\<exists>w. batch_encode_frame (Some h) (Some es) (8 + 7 * length es) = Some w \<and>
     length w = (8 + 7 * length es) + 32"
  using assms by (simp add: batch_encode_frame_def Let_def batch_consts)

theorem encode_overruns_buffer_witness:
  "\<exists>w. batch_encode_frame (Some (flush_header demo_ctx [])) (Some []) 8 = Some w \<and> length w = 40"
  using encode_overruns_buffer[of "flush_header demo_ctx []" "[]"]
  by (simp add: flush_header_def BATCH_FRAME_VERSION_def)

end
