(* ===== verification/Transport.thy ===== *)
theory Transport
  imports Attestation
begin

text \<open>
  Transport encryption (\<open>firmware/shared/transport_encryption.{h,c}\<close>): session creation with derived
  direction keys, encryption and decryption of frames with nonce counters.  AES-128-CCM is the
  business of \<open>Device_Crypto\<close>: here \<open>enc\<close> and \<open>dec\<close> are parameters, functions of key, nonce and data that may fail (the key setup
  included).  \<open>ccm_ok\<close> is what the session layer needs of the pair: encryption keeps the length, the tag has
  the requested length, and decryption with the same key, nonce and tag gives the plaintext back.
\<close>

section \<open>Data\<close>

definition TRANSPORT_AES_KEY_SIZE :: nat where "TRANSPORT_AES_KEY_SIZE = 16"
definition TRANSPORT_NONCE_SIZE :: nat where "TRANSPORT_NONCE_SIZE = 13"
definition TRANSPORT_MIC_SIZE :: nat where "TRANSPORT_MIC_SIZE = 4"
definition TRANSPORT_MAX_PAYLOAD :: nat where "TRANSPORT_MAX_PAYLOAD = 256"
definition TRANSPORT_SESSION_KEY_TTL_MS :: u64 where "TRANSPORT_SESSION_KEY_TTL_MS = 3600000"

record TransportSession_t =
  tn_session_id :: u8
  tn_local_node_id :: u8
  tn_remote_node_id :: u8
  tn_tx_key :: bytes
  tn_rx_key :: bytes
  tn_tx_nonce_counter :: u32
  tn_rx_nonce_counter :: u32
  tn_created_ms :: u64
  tn_active :: bool

text \<open>\<open>tf_ciphertext\<close> is the used part of the array, of length \<open>ciphertext_len\<close>.\<close>

record TransportFrame_t =
  tf_session_id :: u8
  tf_nonce_counter :: u32
  tf_mic :: bytes
  tf_ciphertext :: bytes

datatype TransportDecryptResult_t =
  TRANSPORT_DECRYPT_OK | TRANSPORT_DECRYPT_ERR_MIC_FAIL | TRANSPORT_DECRYPT_ERR_SESSION
| TRANSPORT_DECRYPT_ERR_NONCE | TRANSPORT_DECRYPT_ERR_PARAM_NULL | TRANSPORT_DECRYPT_ERR_TOO_LONG

type_synonym ccm_enc = "bytes \<Rightarrow> bytes \<Rightarrow> bytes \<Rightarrow> (bytes \<times> bytes) option"
type_synonym ccm_dec = "bytes \<Rightarrow> bytes \<Rightarrow> bytes \<Rightarrow> bytes \<Rightarrow> bytes option"

definition ccm_ok :: "ccm_enc \<Rightarrow> ccm_dec \<Rightarrow> bool" where
  "ccm_ok enc dec \<longleftrightarrow> (\<forall>k n p c t. enc k n p = Some (c, t) \<longrightarrow>
     length c = length p \<and> length t = TRANSPORT_MIC_SIZE \<and> dec k n c t = Some p)"

record transport =
  tr_g_initialised :: bool
  tr_next_session_id :: u8

section \<open>Operations\<close>

definition transport_init :: "transport \<Rightarrow> bool \<times> transport" where
  "transport_init g = (True, \<lparr>tr_g_initialised = True, tr_next_session_id = 1\<rparr>)"

text \<open>The ASCII bytes of \<open>"a_to_b"\<close> and \<open>"b_to_a"\<close>.\<close>

definition dir_a_to_b :: bytes where "dir_a_to_b = [97, 95, 116, 111, 95, 98]"
definition dir_b_to_a :: bytes where "dir_b_to_a = [98, 95, 116, 111, 95, 97]"

definition transport_derive_keys ::
  "md_hmac \<Rightarrow> bytes \<Rightarrow> bytes \<Rightarrow> bytes \<Rightarrow> bytes \<Rightarrow> bytes \<times> bytes"
where
  "transport_derive_keys md shared_key salt tx_direction rx_direction =
    (let copy_len = (if length salt > 30 then 30 else length salt)
     in (take TRANSPORT_AES_KEY_SIZE (iot_hmac_sha256 md shared_key (tx_direction @ take copy_len salt)),
         take TRANSPORT_AES_KEY_SIZE (iot_hmac_sha256 md shared_key (rx_direction @ take copy_len salt))))"

definition transport_create_session ::
  "md_hmac \<Rightarrow> transport \<Rightarrow> u8 \<Rightarrow> u8 \<Rightarrow> bytes option \<Rightarrow> TransportSession_t option \<times> transport"
where
  "transport_create_session md g local_node_id remote_node_id shared_key =
    (case shared_key of
       None \<Rightarrow> (None, g)
     | Some key \<Rightarrow>
         if \<not> tr_g_initialised g then (None, g)
         else
           let lower = (if local_node_id < remote_node_id then local_node_id else remote_node_id);
               upper = (if local_node_id < remote_node_id then remote_node_id else local_node_id);
               local_is_lower = (local_node_id = lower);
               (tx, rx) = (if local_is_lower
                           then transport_derive_keys md key [lower, upper] dir_a_to_b dir_b_to_a
                           else transport_derive_keys md key [lower, upper] dir_b_to_a dir_a_to_b)
           in (Some \<lparr>tn_session_id = tr_next_session_id g, tn_local_node_id = local_node_id,
                 tn_remote_node_id = remote_node_id, tn_tx_key = tx, tn_rx_key = rx,
                 tn_tx_nonce_counter = 0, tn_rx_nonce_counter = 0, tn_created_ms = 0, tn_active = True\<rparr>,
               g\<lparr>tr_next_session_id := tr_next_session_id g + 1\<rparr>))"

definition transport_session_valid :: "TransportSession_t option \<Rightarrow> u64 \<Rightarrow> bool" where
  "transport_session_valid session current_ms =
    (case session of
       None \<Rightarrow> False
     | Some s \<Rightarrow> tn_active s \<and> \<not> current_ms < tn_created_ms s
         \<and> \<not> current_ms - tn_created_ms s > TRANSPORT_SESSION_KEY_TTL_MS)"

definition build_ccm_nonce :: "u8 \<Rightarrow> u32 \<Rightarrow> bytes" where
  "build_ccm_nonce session_id nonce_counter = session_id # be_bytes32 nonce_counter @ replicate 8 0"

definition transport_encrypt ::
  "ccm_enc \<Rightarrow> TransportSession_t \<Rightarrow> bytes option \<Rightarrow> (TransportFrame_t \<times> TransportSession_t) option"
where
  "transport_encrypt enc session plaintext =
    (case plaintext of
       None \<Rightarrow> None
     | Some pt \<Rightarrow>
         if \<not> tn_active session then None
         else if length pt > TRANSPORT_MAX_PAYLOAD then None
         else (case enc (tn_tx_key session)
                 (build_ccm_nonce (tn_session_id session) (tn_tx_nonce_counter session)) pt of
            None \<Rightarrow> None
          | Some (ct, tag) \<Rightarrow>
              Some (\<lparr>tf_session_id = tn_session_id session, tf_nonce_counter = tn_tx_nonce_counter session,
                     tf_mic = tag, tf_ciphertext = ct\<rparr>,
                    session\<lparr>tn_tx_nonce_counter := tn_tx_nonce_counter session + 1\<rparr>)))"

definition transport_decrypt ::
  "ccm_dec \<Rightarrow> TransportSession_t \<Rightarrow> TransportFrame_t option \<Rightarrow>
   TransportDecryptResult_t \<times> bytes option \<times> TransportSession_t"
where
  "transport_decrypt dec session frame =
    (case frame of
       None \<Rightarrow> (TRANSPORT_DECRYPT_ERR_PARAM_NULL, None, session)
     | Some f \<Rightarrow>
         if \<not> tn_active session then (TRANSPORT_DECRYPT_ERR_SESSION, None, session)
         else if tf_nonce_counter f < tn_rx_nonce_counter session
           then (TRANSPORT_DECRYPT_ERR_NONCE, None, session)
         else if length (tf_ciphertext f) > TRANSPORT_MAX_PAYLOAD
           then (TRANSPORT_DECRYPT_ERR_PARAM_NULL, None, session)
         else (case dec (tn_rx_key session) (build_ccm_nonce (tf_session_id f) (tf_nonce_counter f))
                 (tf_ciphertext f) (tf_mic f) of
            None \<Rightarrow> (TRANSPORT_DECRYPT_ERR_MIC_FAIL, None, session)
          | Some pt \<Rightarrow> (TRANSPORT_DECRYPT_OK, Some pt,
                session\<lparr>tn_rx_nonce_counter := tf_nonce_counter f + 1\<rparr>)))"

definition transport_session_invalidate :: "TransportSession_t \<Rightarrow> TransportSession_t" where
  "transport_session_invalidate s =
     s\<lparr>tn_active := False, tn_tx_key := replicate TRANSPORT_AES_KEY_SIZE 0,
       tn_rx_key := replicate TRANSPORT_AES_KEY_SIZE 0\<rparr>"

section \<open>Streams of frames\<close>

text \<open>A sender encrypting a list of messages, and a receiver working through a list of frames.\<close>

fun send_all :: "ccm_enc \<Rightarrow> TransportSession_t \<Rightarrow> bytes list \<Rightarrow> (TransportFrame_t list \<times> TransportSession_t) option" where
  "send_all enc s [] = Some ([], s)"
| "send_all enc s (m # ms) =
    (case transport_encrypt enc s (Some m) of
       None \<Rightarrow> None
     | Some (f, s') \<Rightarrow> map_option (\<lambda>(fs, s''). (f # fs, s'')) (send_all enc s' ms))"

fun recv_all :: "ccm_dec \<Rightarrow> TransportSession_t \<Rightarrow> TransportFrame_t list \<Rightarrow> (u32 \<times> bytes) list \<times> TransportSession_t" where
  "recv_all dec s [] = ([], s)"
| "recv_all dec s (f # fs) =
    (case transport_decrypt dec s (Some f) of
       (TRANSPORT_DECRYPT_OK, Some p, s') \<Rightarrow>
         (case recv_all dec s' fs of (ps, s'') \<Rightarrow> ((tf_nonce_counter f, p) # ps, s''))
     | (_, _, s') \<Rightarrow> recv_all dec s' fs)"

definition paired :: "TransportSession_t \<Rightarrow> TransportSession_t \<Rightarrow> bool" where
  "paired a b \<longleftrightarrow> tn_tx_key a = tn_rx_key b \<and> tn_active a \<and> tn_active b \<and>
     tn_tx_nonce_counter a = tn_rx_nonce_counter b"

lemma encrypt_decrypt:
  assumes "ccm_ok enc dec" and "paired a b" and "transport_encrypt enc a (Some m) = Some (f, a')"
  shows "transport_decrypt dec b (Some f) = (TRANSPORT_DECRYPT_OK, Some m,
           b\<lparr>tn_rx_nonce_counter := tn_rx_nonce_counter b + 1\<rparr>)"
    and "paired a' (b\<lparr>tn_rx_nonce_counter := tn_rx_nonce_counter b + 1\<rparr>)"
    and "tf_nonce_counter f = tn_rx_nonce_counter b"
  using assms
  by (auto simp: transport_encrypt_def transport_decrypt_def paired_def ccm_ok_def
      split: if_splits option.splits)

lemma decrypt_OK_cases:
  assumes "transport_decrypt dec s (Some f) = (r, p, s')"
  shows "r = TRANSPORT_DECRYPT_OK \<Longrightarrow> \<exists>q. p = Some q \<and> tn_rx_nonce_counter s \<le> tf_nonce_counter f \<and>
           s' = s\<lparr>tn_rx_nonce_counter := tf_nonce_counter f + 1\<rparr>"
    and "r \<noteq> TRANSPORT_DECRYPT_OK \<Longrightarrow> s' = s"
  using assms
  by (cases "dec (tn_rx_key s) (build_ccm_nonce (tf_session_id f) (tf_nonce_counter f)) (tf_ciphertext f) (tf_mic f)";
      auto simp: transport_decrypt_def split: if_splits)+

text \<open>While the counter has room, the accepted counters increase strictly.\<close>

lemma recv_all_increasing:
  "recv_all dec s fs = (ps, s') \<Longrightarrow> \<forall>f \<in> set fs. tf_nonce_counter f \<noteq> 0xFFFFFFFF \<Longrightarrow>
    sorted_wrt (<) (map fst ps) \<and> (\<forall>n \<in> set (map fst ps). tn_rx_nonce_counter s \<le> n)"
proof (induction fs arbitrary: s ps)
  case (Cons f fs)
  obtain r p s1 where d: "transport_decrypt dec s (Some f) = (r, p, s1)" by (metis prod_cases3)
  show ?case
  proof (cases "r = TRANSPORT_DECRYPT_OK")
    case True
    let ?c = "tf_nonce_counter f"
    obtain q where q: "p = Some q" "tn_rx_nonce_counter s \<le> ?c" "s1 = s\<lparr>tn_rx_nonce_counter := ?c + 1\<rparr>"
      using decrypt_OK_cases(1)[OF d True] by auto
    obtain ps' where ps: "recv_all dec s1 fs = (ps', s')" "ps = (?c, q) # ps'"
      using Cons.prems(1) d True q by (auto split: prod.splits)
    have less: "?c < ?c + 1"
      using Cons.prems(2) unat_u32_less[of ?c] by (auto simp: word_less_nat_alt unat_word_ariths word_unat_eq_iff)
    have "sorted_wrt (<) (map fst ps') \<and> (\<forall>n \<in> set (map fst ps'). ?c + 1 \<le> n)"
      using Cons.IH[OF ps(1)] Cons.prems(2) q(3) by simp
    then show ?thesis using ps(2) q(2) less by (auto intro: order_trans order_less_le_trans less_imp_le)
  next
    case False
    then have "recv_all dec s fs = (ps, s')"
      using Cons.prems(1) d decrypt_OK_cases(2)[OF d False]
      by (cases r; cases p) auto
    then show ?thesis using Cons.IH[of s ps] Cons.prems(2) by simp
  qed
qed simp

section \<open>Properties\<close>

text \<open>
  Key agreement: two different nodes that create a session with the same shared key, each from
  its own side, get mirrored keys: the transmit key of one is the receive key of the other.
\<close>

theorem transport_key_agreement:
  assumes "a \<noteq> b"
    and "transport_create_session md g a b (Some key) = (Some sa, g')"
    and "transport_create_session md h b a (Some key) = (Some sb, h')"
  shows "tn_tx_key sa = tn_rx_key sb \<and> tn_rx_key sa = tn_tx_key sb \<and> paired sa sb \<and> paired sb sa"
  using assms
  by (auto simp: transport_create_session_def transport_derive_keys_def paired_def Let_def
      split: if_splits)

theorem transport_key_agreement_witness:
  "tn_tx_key (the (fst (transport_create_session demo_md \<lparr>tr_g_initialised = True, tr_next_session_id = 1\<rparr> 3 9 (Some (replicate 16 5)))))
   = tn_rx_key (the (fst (transport_create_session demo_md \<lparr>tr_g_initialised = True, tr_next_session_id = 4\<rparr> 9 3 (Some (replicate 16 5)))))"
proof -
  let ?g = "\<lparr>tr_g_initialised = True, tr_next_session_id = 1\<rparr>"
  let ?h = "\<lparr>tr_g_initialised = True, tr_next_session_id = 4\<rparr>"
  have "\<exists>s g'. transport_create_session demo_md ?g 3 9 (Some (replicate 16 5)) = (Some s, g')"
    "\<exists>s g'. transport_create_session demo_md ?h 9 3 (Some (replicate 16 5)) = (Some s, g')"
    by (auto simp: transport_create_session_def Let_def split: prod.splits)
  then obtain sa g' sb h' where
    a: "transport_create_session demo_md ?g 3 9 (Some (replicate 16 5)) = (Some sa, g')" and
    b: "transport_create_session demo_md ?h 9 3 (Some (replicate 16 5)) = (Some sb, h')" by blast
  from transport_key_agreement[OF _ a b] show ?thesis by (simp add: a b)
qed

lemma stream_roundtrip:
  assumes "ccm_ok enc dec" and "paired a b" and "send_all enc a ms = Some (fs, a')"
  shows "map snd (fst (recv_all dec b fs)) = ms \<and> paired a' (snd (recv_all dec b fs))"
  using assms(2,3)
proof (induction ms arbitrary: a b fs)
  case (Cons m ms)
  obtain f a1 fs1 where s: "transport_encrypt enc a (Some m) = Some (f, a1)"
    "send_all enc a1 ms = Some (fs1, a')" "fs = f # fs1"
    using Cons.prems(2) by (auto split: option.splits)
  note ed = encrypt_decrypt[OF assms(1) Cons.prems(1) s(1)]
  from Cons.IH[OF ed(2) s(2)] show ?case
    using ed(1) s(3) by (auto split: prod.splits)
qed simp

definition demo_enc :: ccm_enc where
  "demo_enc k n p = Some (map (\<lambda>x. x + 1) p, [1, 2, 3, 4])"

definition demo_dec :: ccm_dec where
  "demo_dec k n c t = (if t = [1, 2, 3, 4] then Some (map (\<lambda>x. x - 1) c) else None)"

definition demo_session :: TransportSession_t where
  "demo_session = \<lparr>tn_session_id = 1, tn_local_node_id = 3, tn_remote_node_id = 9,
     tn_tx_key = replicate 16 0, tn_rx_key = replicate 16 0, tn_tx_nonce_counter = 0,
     tn_rx_nonce_counter = 0, tn_created_ms = 0, tn_active = True\<rparr>"

text \<open>
  C26.  No replay within a session: in any sequence of received frames, replayed, reordered or
  forged, the accepted nonce counters are strictly increasing, so no frame is accepted twice, as
  long as no frame carries the last counter value \<open>2 ^ 32 - 1\<close>.
\<close>

theorem transport_no_replay:
  assumes "\<forall>f \<in> set fs. tf_nonce_counter f \<noteq> 0xFFFFFFFF"
  shows "sorted_wrt (<) (map fst (fst (recv_all dec s fs)))"
  using recv_all_increasing[of dec s fs "fst (recv_all dec s fs)" "snd (recv_all dec s fs)"] assms
  by simp

theorem transport_no_replay_witness:
  "sorted_wrt (<) (map fst (fst (recv_all demo_dec demo_session
     [\<lparr>tf_session_id = 1, tf_nonce_counter = 5, tf_mic = [1, 2, 3, 4], tf_ciphertext = [7]\<rparr>,
      \<lparr>tf_session_id = 1, tf_nonce_counter = 5, tf_mic = [1, 2, 3, 4], tf_ciphertext = [7]\<rparr>])))"
  by (rule transport_no_replay) simp

text \<open>
  The counter wraps: after a frame with counter \<open>2 ^ 32 - 1\<close> was accepted the receiver expects
  counter 0 again, and a recorded frame of the session is accepted a second time.
\<close>

theorem transport_counter_wrap_replay:
  assumes "tn_active s" and "length (tf_ciphertext f) \<le> TRANSPORT_MAX_PAYLOAD"
    and "dec (tn_rx_key s) (build_ccm_nonce (tf_session_id f) (tf_nonce_counter f)) (tf_ciphertext f) (tf_mic f) = Some p"
    and "transport_decrypt dec s (Some g) = (TRANSPORT_DECRYPT_OK, q, s')" and "tf_nonce_counter g = 0xFFFFFFFF"
  shows "fst (transport_decrypt dec s' (Some f)) = TRANSPORT_DECRYPT_OK"
proof -
  have "s' = s\<lparr>tn_rx_nonce_counter := 0\<rparr>"
    using decrypt_OK_cases(1)[OF assms(4)] assms(5) by auto
  then show ?thesis using assms(1-3) by (simp add: transport_decrypt_def)
qed

theorem transport_counter_wrap_replay_witness:
  "fst (transport_decrypt demo_dec (demo_session\<lparr>tn_rx_nonce_counter := 0\<rparr>)
     (Some \<lparr>tf_session_id = 1, tf_nonce_counter = 5, tf_mic = [1, 2, 3, 4], tf_ciphertext = [7]\<rparr>))
   = TRANSPORT_DECRYPT_OK"
  by (rule transport_counter_wrap_replay[where s = "demo_session\<lparr>tn_rx_nonce_counter := 6\<rparr>" and p = "[6]"
        and g = "\<lparr>tf_session_id = 1, tf_nonce_counter = 0xFFFFFFFF, tf_mic = [1, 2, 3, 4], tf_ciphertext = []\<rparr>"
        and q = "Some []"])
    (simp_all add: demo_session_def demo_dec_def transport_decrypt_def TRANSPORT_MAX_PAYLOAD_def)

end
