(* ===== verification/Historian.thy ===== *)
theory Historian
  imports Transport
begin

text \<open>
  The hub's historian (\<open>firmware/hub/historian.{h,c}\<close>): a ring of encrypted records with eviction by
  age and by capacity, batched write-back to a storage backend, queries and recovery at start-up.
  The ring array is a function from positions to the 40 bytes stored there; counters are 32-bit
  words.  AES-CCM is a parameter as in \<open>Transport\<close>, here with 16-byte tags; the storage callbacks
  are parameters with a state \<open>'st\<close> of their own.
\<close>

section \<open>Data\<close>

definition HISTORIAN_CAPACITY :: u32 where "HISTORIAN_CAPACITY = 16384"
definition HISTORIAN_CCM_TAG_SIZE :: nat where "HISTORIAN_CCM_TAG_SIZE = 16"
definition HISTORIAN_CCM_NONCE_SIZE :: nat where "HISTORIAN_CCM_NONCE_SIZE = 13"
definition HISTORIAN_KEY_SIZE :: nat where "HISTORIAN_KEY_SIZE = 16"
definition HISTORIAN_ONDISK_RECORD_SIZE :: nat where "HISTORIAN_ONDISK_RECORD_SIZE = 40"
definition HISTORIAN_30_DAY_MS :: u64 where "HISTORIAN_30_DAY_MS = 30 * 24 * 60 * 60 * 1000"
definition HISTORIAN_FLUSH_INTERVAL_MS :: u64 where "HISTORIAN_FLUSH_INTERVAL_MS = 60 * 1000"
definition HISTORIAN_PENDING_MAX :: u32 where "HISTORIAN_PENDING_MAX = 64"

record HistorianRecord_t =
  hr_timestamp_ms :: u64
  hr_value :: u32
  hr_sequence :: u32
  hr_node_id :: u16
  hr_metric_id :: u8
  hr_domain_profile_id :: u8
  hr_reserved :: u32

record HistorianStats_t =
  hs_records_written :: u32
  hs_records_evicted :: u32
  hs_write_errors :: u32
  hs_read_errors :: u32
  hs_enc_errors :: u32
  hs_dec_errors :: u32

record HistorianQuery_t =
  hq_time_start_ms :: u64
  hq_time_end_ms :: u64
  hq_node_id :: u16
  hq_metric_id :: u8

text \<open>
  The callbacks: \<open>append\<close> gets position, record, count and write index; \<open>load\<close> fills the ring (also
  when it fails) and reports success, count and write index.
\<close>

record 'st HistorianStorage_t =
  st_append :: "(u32 \<Rightarrow> bytes \<Rightarrow> u32 \<Rightarrow> u32 \<Rightarrow> 'st \<Rightarrow> bool \<times> 'st) option"
  st_load :: "('st \<Rightarrow> (u32 \<Rightarrow> bytes) \<Rightarrow> bool \<times> (u32 \<Rightarrow> bytes) \<times> u32 \<times> u32) option"

record 'st historian =
  h_ring :: "u32 \<Rightarrow> bytes"
  h_write_index :: u32
  h_count :: u32
  h_pending_start :: u32
  h_pending_count :: u32
  h_last_flush_ms :: u64
  h_key :: bytes
  h_key_set :: bool
  h_storage :: "'st HistorianStorage_t option"
  h_stats :: HistorianStats_t
  h_initialised :: bool
  h_backend :: 'st

definition stats_zero :: HistorianStats_t where
  "stats_zero = \<lparr>hs_records_written = 0, hs_records_evicted = 0, hs_write_errors = 0,
     hs_read_errors = 0, hs_enc_errors = 0, hs_dec_errors = 0\<rparr>"

text \<open>The packed 24-byte layout of a record in memory, little endian.\<close>

definition record_bytes :: "HistorianRecord_t \<Rightarrow> bytes" where
  "record_bytes r = le_bytes64 (hr_timestamp_ms r) @ le_bytes32 (hr_value r) @ le_bytes32 (hr_sequence r)
     @ le_bytes16 (hr_node_id r) @ [hr_metric_id r, hr_domain_profile_id r] @ le_bytes32 (hr_reserved r)"

definition bytes_record :: "bytes \<Rightarrow> HistorianRecord_t" where
  "bytes_record b = \<lparr>hr_timestamp_ms = le_word64 b,
     hr_value = le_word32 (b ! 8) (b ! 9) (b ! 10) (b ! 11),
     hr_sequence = le_word32 (b ! 12) (b ! 13) (b ! 14) (b ! 15),
     hr_node_id = le_word16 (b ! 16) (b ! 17), hr_metric_id = b ! 18, hr_domain_profile_id = b ! 19,
     hr_reserved = le_word32 (b ! 20) (b ! 21) (b ! 22) (b ! 23)\<rparr>"

section \<open>Encryption of records\<close>

definition build_nonce :: "u32 \<Rightarrow> u32 \<Rightarrow> bytes" where
  "build_nonce record_index counter = be_bytes32 record_index @ be_bytes32 counter @ replicate 5 0"

definition encrypt_record :: "ccm_enc \<Rightarrow> 'st historian \<Rightarrow> u32 \<Rightarrow> u32 \<Rightarrow> HistorianRecord_t \<Rightarrow> bytes option" where
  "encrypt_record enc h ring_index counter plaintext =
    (if \<not> h_key_set h then None
     else case enc (h_key h) (build_nonce ring_index counter) (record_bytes plaintext) of
         None \<Rightarrow> None
       | Some (ct, tag) \<Rightarrow> Some (ct @ tag))"

definition decrypt_record :: "ccm_dec \<Rightarrow> 'st historian \<Rightarrow> u32 \<Rightarrow> u32 \<Rightarrow> bytes \<Rightarrow> HistorianRecord_t option" where
  "decrypt_record dec h ring_index counter ondisk =
    (if \<not> h_key_set h then None
     else case dec (h_key h) (build_nonce ring_index counter) (take 24 ondisk) (take 16 (drop 24 ondisk)) of
         None \<Rightarrow> None
       | Some pt \<Rightarrow> Some (bytes_record pt))"

section \<open>Write-back\<close>

definition historian_buffer_for_flush :: "'st historian \<Rightarrow> u32 \<Rightarrow> 'st historian" where
  "historian_buffer_for_flush h ring_index =
    (let h1 = (if h_pending_count h = 0 then h\<lparr>h_pending_start := ring_index\<rparr> else h)
     in h1\<lparr>h_pending_count := h_pending_count h1 + 1\<rparr>)"

text \<open>The flush loop over \<open>i = 0, 1, \<dots>\<close>.\<close>

fun flush_loop ::
  "(u32 \<Rightarrow> bytes \<Rightarrow> u32 \<Rightarrow> u32 \<Rightarrow> 'st \<Rightarrow> bool \<times> 'st) \<Rightarrow> nat list \<Rightarrow> 'st historian \<Rightarrow> 'st historian"
where
  "flush_loop append_cb [] h = h"
| "flush_loop append_cb (i # is) h =
    (let pos = (h_pending_start h + word_of_nat i) mod HISTORIAN_CAPACITY;
         (ok, st) = append_cb pos (h_ring h pos) (h_count h) (h_write_index h) (h_backend h);
         h1 = h\<lparr>h_backend := st\<rparr>
     in flush_loop append_cb is
          (if ok then h1 else h1\<lparr>h_stats := (h_stats h1)\<lparr>hs_write_errors := hs_write_errors (h_stats h1) + 1\<rparr>\<rparr>))"

definition historian_flush :: "'st historian \<Rightarrow> u64 \<Rightarrow> 'st historian" where
  "historian_flush h current_ms =
    (if \<not> h_initialised h then h
     else if h_pending_count h = 0 then h
     else case h_storage h of
         None \<Rightarrow> h
       | Some storage \<Rightarrow> (case st_append storage of
           None \<Rightarrow> h
         | Some append_cb \<Rightarrow>
             (flush_loop append_cb [0..<unat (h_pending_count h)] h)
               \<lparr>h_pending_count := 0, h_pending_start := 0, h_last_flush_ms := current_ms\<rparr>))"

definition historian_pending_count :: "'st historian \<Rightarrow> u32" where
  "historian_pending_count h = h_pending_count h"

definition historian_auto_flush :: "'st historian \<Rightarrow> u64 \<Rightarrow> 'st historian" where
  "historian_auto_flush h current_ms =
    (if h_pending_count h \<ge> HISTORIAN_PENDING_MAX then historian_flush h current_ms
     else if h_last_flush_ms h > 0 \<and> current_ms - h_last_flush_ms h \<ge> HISTORIAN_FLUSH_INTERVAL_MS
       then historian_flush h current_ms
     else h)"

section \<open>Eviction\<close>

definition oldest_pos :: "'st historian \<Rightarrow> u32" where
  "oldest_pos h = (h_write_index h - h_count h + HISTORIAN_CAPACITY) mod HISTORIAN_CAPACITY"

definition count_evicted :: "'st historian \<Rightarrow> 'st historian" where
  "count_evicted h = h\<lparr>h_count := h_count h - 1,
     h_stats := (h_stats h)\<lparr>hs_records_evicted := hs_records_evicted (h_stats h) + 1\<rparr>\<rparr>"

definition count_dec_error :: "'st historian \<Rightarrow> 'st historian" where
  "count_dec_error h = h\<lparr>h_stats := (h_stats h)\<lparr>hs_dec_errors := hs_dec_errors (h_stats h) + 1\<rparr>\<rparr>"

text \<open>The age test of the C code, in 64-bit arithmetic.\<close>

definition too_old :: "u64 \<Rightarrow> HistorianRecord_t \<Rightarrow> bool" where
  "too_old current_ms oldest \<longleftrightarrow> current_ms > 0 \<and> hr_timestamp_ms oldest > 0
     \<and> current_ms - hr_timestamp_ms oldest > HISTORIAN_30_DAY_MS"

function evict_by_age :: "ccm_dec \<Rightarrow> u64 \<Rightarrow> 'st historian \<Rightarrow> 'st historian" where
  "evict_by_age dec current_ms h =
    (if h_count h > 0 then
       (case decrypt_record dec h (oldest_pos h) (oldest_pos h) (h_ring h (oldest_pos h)) of
          Some oldest \<Rightarrow>
            if too_old current_ms oldest then evict_by_age dec current_ms (count_evicted h) else h
        | None \<Rightarrow> evict_by_age dec current_ms (count_dec_error (count_evicted h)))
     else h)"
  by pat_completeness auto

termination
  by (relation "measure (\<lambda>(_, _, h). unat (h_count h))")
    (auto simp: count_evicted_def count_dec_error_def unat_minus_one word_gt_0 unat_gt_0)

function evict_by_capacity :: "'st historian \<Rightarrow> 'st historian" where
  "evict_by_capacity h =
    (if h_count h \<ge> HISTORIAN_CAPACITY then evict_by_capacity (count_evicted h) else h)"
  by pat_completeness auto

termination
  by (relation "measure (\<lambda>h. unat (h_count h))")
    (auto simp: count_evicted_def HISTORIAN_CAPACITY_def word_le_nat_alt unat_sub_if')

declare evict_by_age.simps [simp del] evict_by_capacity.simps [simp del]

definition historian_evict :: "ccm_dec \<Rightarrow> 'st historian \<Rightarrow> u64 \<Rightarrow> 'st historian" where
  "historian_evict dec h current_ms = evict_by_capacity (evict_by_age dec current_ms h)"

section \<open>Interface\<close>

definition historian_init :: "'st historian \<Rightarrow> bool \<times> 'st historian" where
  "historian_init h =
    (let h0 = h\<lparr>h_ring := \<lambda>_. replicate HISTORIAN_ONDISK_RECORD_SIZE 0, h_write_index := 0, h_count := 0,
           h_pending_start := 0, h_pending_count := 0, h_last_flush_ms := 0, h_stats := stats_zero\<rparr>;
         h1 = (case h_storage h of
             None \<Rightarrow> h0
           | Some storage \<Rightarrow> (case st_load storage of
               None \<Rightarrow> h0
             | Some load \<Rightarrow>
                 (case load (h_backend h0) (h_ring h0) of
                    (ok, ring, loaded_count, loaded_write_index) \<Rightarrow>
                      let h2 = h0\<lparr>h_ring := ring\<rparr>
                      in if ok \<and> loaded_count \<le> HISTORIAN_CAPACITY
                         then h2\<lparr>h_count := loaded_count,
                                h_write_index := loaded_write_index mod HISTORIAN_CAPACITY\<rparr>
                         else h2)))
     in (True, h1\<lparr>h_initialised := True\<rparr>))"

definition historian_set_storage :: "'st historian \<Rightarrow> 'st HistorianStorage_t option \<Rightarrow> 'st historian" where
  "historian_set_storage h storage = h\<lparr>h_storage := storage\<rparr>"

definition historian_set_key :: "'st historian \<Rightarrow> bytes option \<Rightarrow> 'st historian" where
  "historian_set_key h key =
    (case key of
       None \<Rightarrow> h
     | Some k \<Rightarrow> if length k < HISTORIAN_KEY_SIZE then h
                 else h\<lparr>h_key := take HISTORIAN_KEY_SIZE k, h_key_set := True\<rparr>)"

definition historian_write ::
  "ccm_enc \<Rightarrow> ccm_dec \<Rightarrow> 'st historian \<Rightarrow> HistorianRecord_t option \<Rightarrow> bool \<times> 'st historian"
where
  "historian_write enc dec h record =
    (if \<not> h_initialised h then (False, h)
     else case record of
         None \<Rightarrow> (False, h)
       | Some r \<Rightarrow>
           if \<not> h_key_set h
           then (False, h\<lparr>h_stats := (h_stats h)\<lparr>hs_write_errors := hs_write_errors (h_stats h) + 1\<rparr>\<rparr>)
           else
             let h1 = historian_evict dec h (hr_timestamp_ms r)
             in (case encrypt_record enc h1 (h_write_index h1) (h_write_index h1) r of
                  None \<Rightarrow> (False, h1\<lparr>h_stats := (h_stats h1)
                      \<lparr>hs_enc_errors := hs_enc_errors (h_stats h1) + 1,
                       hs_write_errors := hs_write_errors (h_stats h1) + 1\<rparr>\<rparr>)
                | Some ondisk \<Rightarrow>
                    let written_index = h_write_index h1;
                        h2 = h1\<lparr>h_ring := (h_ring h1)(written_index := ondisk),
                               h_write_index := (written_index + 1) mod HISTORIAN_CAPACITY,
                               h_count := (if h_count h1 < HISTORIAN_CAPACITY then h_count h1 + 1 else h_count h1),
                               h_stats := (h_stats h1)\<lparr>hs_records_written := hs_records_written (h_stats h1) + 1\<rparr>\<rparr>
                    in (True, historian_auto_flush (historian_buffer_for_flush h2 written_index)
                          (hr_timestamp_ms r))))"

definition query_matches :: "HistorianQuery_t option \<Rightarrow> HistorianRecord_t \<Rightarrow> bool" where
  "query_matches query rec =
    (case query of
       None \<Rightarrow> True
     | Some q \<Rightarrow>
         \<not> (hq_time_start_ms q > 0 \<and> hr_timestamp_ms rec < hq_time_start_ms q)
       \<and> \<not> (hq_time_end_ms q > 0 \<and> hr_timestamp_ms rec > hq_time_end_ms q)
       \<and> \<not> (hq_node_id q \<noteq> 0 \<and> hr_node_id rec \<noteq> hq_node_id q)
       \<and> \<not> (hq_metric_id q \<noteq> 0 \<and> hr_metric_id rec \<noteq> hq_metric_id q))"

text \<open>The scan loop; \<open>found\<close> is the used part of the output array.\<close>

fun read_loop ::
  "ccm_dec \<Rightarrow> HistorianQuery_t option \<Rightarrow> u32 \<Rightarrow> nat \<Rightarrow> nat list \<Rightarrow> HistorianRecord_t list \<Rightarrow> 'st historian \<Rightarrow>
   HistorianRecord_t list \<times> 'st historian"
where
  "read_loop dec query oldest max_records [] found h = (found, h)"
| "read_loop dec query oldest max_records (j # js) found h =
    (if \<not> length found < max_records then (found, h)
     else
       let pos = (oldest + word_of_nat j) mod HISTORIAN_CAPACITY
       in case decrypt_record dec h pos pos (h_ring h pos) of
            None \<Rightarrow> read_loop dec query oldest max_records js found (count_dec_error h)
          | Some rec \<Rightarrow>
              if query_matches query rec then read_loop dec query oldest max_records js (found @ [rec]) h
              else read_loop dec query oldest max_records js found h)"

definition historian_read ::
  "ccm_dec \<Rightarrow> 'st historian \<Rightarrow> HistorianQuery_t option \<Rightarrow> u32 \<Rightarrow> HistorianRecord_t list \<times> 'st historian"
where
  "historian_read dec h query max_records =
    (if \<not> h_initialised h then ([], h)
     else if max_records = 0 then ([], h)
     else read_loop dec query (oldest_pos h) (unat max_records) [0..<unat (h_count h)] [] h)"

definition historian_count :: "'st historian \<Rightarrow> u32" where
  "historian_count h = h_count h"

definition historian_get_stats :: "'st historian \<Rightarrow> HistorianStats_t" where
  "historian_get_stats h = h_stats h"

definition historian_reset_stats :: "'st historian \<Rightarrow> 'st historian" where
  "historian_reset_stats h = h\<lparr>h_stats := stats_zero\<rparr>"

definition historian_ondisk_record_size :: nat where
  "historian_ondisk_record_size = HISTORIAN_ONDISK_RECORD_SIZE"

definition historian_capacity :: u32 where
  "historian_capacity = HISTORIAN_CAPACITY"

section \<open>The ring as a list\<close>

definition historian_ok :: "'st historian \<Rightarrow> bool" where
  "historian_ok h \<longleftrightarrow> h_write_index h < HISTORIAN_CAPACITY \<and> h_count h \<le> HISTORIAN_CAPACITY"

definition slot_pos :: "'st historian \<Rightarrow> nat \<Rightarrow> u32" where
  "slot_pos h j = (oldest_pos h + word_of_nat j) mod HISTORIAN_CAPACITY"

definition slot :: "ccm_dec \<Rightarrow> 'st historian \<Rightarrow> nat \<Rightarrow> HistorianRecord_t option" where
  "slot dec h j = decrypt_record dec h (slot_pos h j) (slot_pos h j) (h_ring h (slot_pos h j))"

text \<open>What the ring holds, oldest first; \<open>None\<close> stands for an entry that does not decrypt.\<close>

definition historian_slots :: "ccm_dec \<Rightarrow> 'st historian \<Rightarrow> HistorianRecord_t option list" where
  "historian_slots dec h = map (slot dec h) [0..<unat (h_count h)]"

definition historian_contents :: "ccm_dec \<Rightarrow> 'st historian \<Rightarrow> HistorianRecord_t list" where
  "historian_contents dec h = map the (filter (\<lambda>s. s \<noteq> None) (historian_slots dec h))"

definition evictable :: "u64 \<Rightarrow> HistorianRecord_t option \<Rightarrow> bool" where
  "evictable now s = (case s of None \<Rightarrow> True | Some r \<Rightarrow> too_old now r)"

definition historian_ccm_ok :: "ccm_enc \<Rightarrow> ccm_dec \<Rightarrow> bool" where
  "historian_ccm_ok enc dec \<longleftrightarrow> (\<forall>k n p. length k = HISTORIAN_KEY_SIZE \<longrightarrow> length n = HISTORIAN_CCM_NONCE_SIZE \<longrightarrow> length p = 24 \<longrightarrow>
     (\<exists>c t. enc k n p = Some (c, t) \<and> length c = length p \<and> length t = HISTORIAN_CCM_TAG_SIZE \<and> dec k n c t = Some p))"

lemma length_record_bytes [simp]: "length (record_bytes r) = 24"
  by (simp add: record_bytes_def)

lemma bytes_record_bytes [simp]: "bytes_record (record_bytes r) = r"
proof -
  have eight: "le_bytes64 w = [le_bytes64 w ! 0, le_bytes64 w ! 1, le_bytes64 w ! 2, le_bytes64 w ! 3,
      le_bytes64 w ! 4, le_bytes64 w ! 5, le_bytes64 w ! 6, le_bytes64 w ! 7]" for w
    by (simp add: le_bytes64_def)
  have "(le_bytes64 w @ bs) ! (8 + n) = bs ! n" for w bs n
    using nth_append_length_plus[of "le_bytes64 w" bs n] by simp
  from this[of _ _ 0] this[of _ _ 1] this[of _ _ 2] this[of _ _ 3] this[of _ _ 4] this[of _ _ 5] this[of _ _ 6]
    this[of _ _ 7] this[of _ _ 8] this[of _ _ 9] this[of _ _ 10] this[of _ _ 11] this[of _ _ 12] this[of _ _ 13]
    this[of _ _ 14] this[of _ _ 15]
  show ?thesis
    by (simp add: bytes_record_def record_bytes_def le_bytes32_def le_bytes16_def)
qed

lemma length_build_nonce [simp]: "length (build_nonce i c) = 13"
  by (simp add: build_nonce_def)

lemma decrypt_encrypt:
  assumes "historian_ccm_ok enc dec" "h_key_set h" "length (h_key h) = 16"
  shows "\<exists>b. encrypt_record enc h i c r = Some b \<and> length b = 40 \<and> decrypt_record dec h i c b = Some r"
proof -
  obtain ct t where "enc (h_key h) (build_nonce i c) (record_bytes r) = Some (ct, t)" "length ct = 24" "length t = 16"
    "dec (h_key h) (build_nonce i c) ct t = Some (record_bytes r)"
    using assms unfolding historian_ccm_ok_def HISTORIAN_KEY_SIZE_def HISTORIAN_CCM_NONCE_SIZE_def HISTORIAN_CCM_TAG_SIZE_def
    by (metis length_build_nonce length_record_bytes)
  then show ?thesis using assms(2) by (simp add: encrypt_record_def decrypt_record_def)
qed

subsection \<open>Positions\<close>

lemma unat_capacity [simp]: "unat HISTORIAN_CAPACITY = 16384"
  by (simp add: HISTORIAN_CAPACITY_def)

lemma unat_oldest_pos:
  assumes "historian_ok h"
  shows "unat (oldest_pos h) = (unat (h_write_index h) + 16384 - unat (h_count h)) mod 16384"
proof -
  have le: "unat (h_write_index h) < 16384" "unat (h_count h) \<le> 16384"
    using assms by (auto simp: historian_ok_def word_less_nat_alt word_le_nat_alt)
  have eq: "h_write_index h - h_count h + HISTORIAN_CAPACITY = h_write_index h + (HISTORIAN_CAPACITY - h_count h)"
    by simp
  have "unat (HISTORIAN_CAPACITY - h_count h) = 16384 - unat (h_count h)"
    using le by (subst unat_sub) (auto simp: word_le_nat_alt)
  then have "unat (h_write_index h - h_count h + HISTORIAN_CAPACITY) = unat (h_write_index h) + (16384 - unat (h_count h))"
    unfolding eq using le by (subst unat_add_lem[THEN iffD1]) simp_all
  then show ?thesis using le by (simp add: oldest_pos_def unat_mod)
qed

lemma unat_slot_pos:
  assumes "historian_ok h" "j \<le> 16384"
  shows "unat (slot_pos h j) = (unat (h_write_index h) + 16384 - unat (h_count h) + j) mod 16384"
proof -
  have "unat (oldest_pos h) < 16384" using unat_oldest_pos[OF assms(1)] by simp
  then have "unat (oldest_pos h + word_of_nat j) = unat (oldest_pos h) + j"
    using assms(2) by (simp add: unat_word_ariths unat_word_of_nat_small)
  then show ?thesis by (simp add: slot_pos_def unat_mod unat_oldest_pos[OF assms(1)] mod_simps)
qed

lemma slot_pos_eqI:
  assumes "historian_ok h" "historian_ok h'" "j \<le> 16384" "j' \<le> 16384"
    and "(unat (h_write_index h) + 16384 - unat (h_count h) + j) mod 16384 =
      (unat (h_write_index h') + 16384 - unat (h_count h') + j') mod 16384"
  shows "slot_pos h j = slot_pos h' j'"
  using assms by (simp add: word_unat_eq_iff unat_slot_pos)

lemma mod_window: "w < n \<Longrightarrow> c < n \<Longrightarrow> j < c \<Longrightarrow> (w + n - c + j) mod n \<noteq> (w :: nat)"
proof
  assume le: "w < n" "c < n" "j < c" and "(w + n - c + j) mod n = w"
  then have "(w + (n - c + j)) mod n = w mod n" by (simp add: algebra_simps)
  then have "n dvd n - c + j"
    by (metis add_diff_cancel_left' dvd_minus_mod le_add1 mod_eq_dvd_iff_nat)
  with le show False by (auto dest: dvd_imp_le)
qed

lemma mod_step:
  assumes "w < n" "c < n"
  shows "(Suc w mod n + n - Suc c + j) mod n = (w + n - c + j) mod (n :: nat)"
proof (cases "Suc w = n")
  case True
  then have "w + n - c + j = (n - Suc c + j) + n" using assms by simp
  then show ?thesis using True by (metis add_0 mod_add_self2 mod_self)
qed (use assms in simp)

subsection \<open>Eviction\<close>

lemma evictable_simps [simp]: "evictable now None" "evictable now (Some r) = too_old now r"
  by (simp_all add: evictable_def)

lemma historian_ok_evicted: "historian_ok h \<Longrightarrow> h_count h > 0 \<Longrightarrow> historian_ok (count_evicted h)"
  unfolding historian_ok_def count_evicted_def
  by (auto simp: word_le_nat_alt word_gt_0 unat_minus_one)

lemma slots_evicted:
  assumes "historian_ok h" "h_count h > 0"
  shows "historian_slots dec (count_evicted h) = tl (historian_slots dec h)"
proof -
  have c: "unat (h_count h - 1) = unat (h_count h) - 1" "0 < unat (h_count h)" "unat (h_count h) \<le> 16384"
    using assms by (auto simp: unat_minus_one word_gt_0 unat_gt_0 historian_ok_def word_le_nat_alt)
  have pos: "slot_pos (count_evicted h) j = slot_pos h (Suc j)" if "Suc j < unat (h_count h)" for j
    using assms historian_ok_evicted[OF assms] c that
    by (intro slot_pos_eqI) (auto simp: count_evicted_def historian_ok_def word_le_nat_alt intro!: arg_cong[of _ _ "\<lambda>x. x mod 16384"])
  have "slot dec (count_evicted h) j = slot dec h (Suc j)" if "Suc j < unat (h_count h)" for j
    unfolding slot_def pos[OF that] by (simp add: count_evicted_def decrypt_record_def)
  then show ?thesis using c(1,2)
    by (auto simp: historian_slots_def count_evicted_def[of h] nth_tl intro!: nth_equalityI)
qed

lemma count_dec_error_keeps [simp]:
  "historian_ok (count_dec_error h) = historian_ok h"
  "historian_slots dec (count_dec_error h) = historian_slots dec h"
  "h_count (count_dec_error h) = h_count h"
  "h_write_index (count_dec_error h) = h_write_index h"
  by (simp_all add: count_dec_error_def historian_ok_def historian_slots_def slot_def slot_pos_def oldest_pos_def decrypt_record_def)

lemma historian_slots_Cons:
  assumes "h_count h > 0"
  shows "historian_slots dec h = slot dec h 0 # tl (historian_slots dec h)"
  using assms by (simp add: historian_slots_def upt_conv_Cons word_gt_0 unat_gt_0)

lemma slot_0: "historian_ok h \<Longrightarrow> slot dec h 0 =
    decrypt_record dec h (oldest_pos h) (oldest_pos h) (h_ring h (oldest_pos h))"
proof -
  assume "historian_ok h"
  from unat_oldest_pos[OF this] unat_slot_pos[OF this, of 0] have "slot_pos h 0 = oldest_pos h"
    by (simp add: word_unat_eq_iff)
  then show ?thesis by (simp add: slot_def)
qed

lemma evict_by_age_slots:
  "historian_ok h \<Longrightarrow> historian_ok (evict_by_age dec now h) \<and>
     historian_slots dec (evict_by_age dec now h) = dropWhile (evictable now) (historian_slots dec h)"
proof (induction dec now h rule: evict_by_age.induct)
  case (1 dec now h)
  show ?case
  proof (cases "h_count h > 0")
    case True
    obtain rest where rest: "historian_slots dec h = slot dec h 0 # rest"
      using historian_slots_Cons[OF True] by blast
    have ev: "historian_slots dec (count_evicted h) = rest"
      using slots_evicted[OF "1.prems" True, of dec] rest by simp
    show ?thesis
      using "1.IH" True ev historian_ok_evicted[OF "1.prems" True] "1.prems" slot_0[OF "1.prems", of dec]
      unfolding rest
      by (subst (1 2) evict_by_age.simps) (auto simp: rest split: option.splits)
  next
    case False
    then have "h_count h = 0" by (simp add: word_gt_0)
    then show ?thesis using "1.prems" by (simp add: evict_by_age.simps[of dec now h] historian_slots_def)
  qed
qed

lemma length_historian_slots [simp]: "length (historian_slots dec h) = unat (h_count h)"
  by (simp add: historian_slots_def)

lemma evict_by_capacity_slots:
  assumes "historian_ok h"
  shows "historian_ok (evict_by_capacity h) \<and> h_count (evict_by_capacity h) < HISTORIAN_CAPACITY \<and>
     historian_slots dec (evict_by_capacity h) = last_n 16383 (historian_slots dec h)"
proof (cases "h_count h < HISTORIAN_CAPACITY")
  case True
  then have "unat (h_count h) \<le> 16383" by (simp add: word_less_nat_alt)
  moreover have "\<not> HISTORIAN_CAPACITY \<le> h_count h" using True by (simp add: not_le)
  ultimately show ?thesis using True assms by (simp add: evict_by_capacity.simps[of h])
next
  case False
  then have full: "h_count h = HISTORIAN_CAPACITY" using assms by (simp add: historian_ok_def)
  then have "evict_by_capacity h = count_evicted h"
    by (simp add: evict_by_capacity.simps[of h] evict_by_capacity.simps[of "count_evicted h"])
      (simp add: count_evicted_def HISTORIAN_CAPACITY_def)
  moreover have pos: "h_count h > 0" using full by (simp add: HISTORIAN_CAPACITY_def)
  moreover have "h_count (count_evicted h) < HISTORIAN_CAPACITY"
    using full by (simp add: count_evicted_def HISTORIAN_CAPACITY_def)
  ultimately show ?thesis
    using historian_ok_evicted[OF assms pos] slots_evicted[OF assms pos, of dec] full
    by (simp add: last_n_def drop_Suc)
qed

subsection \<open>What the operations leave alone\<close>

definition same_ring :: "'st historian \<Rightarrow> 'st historian \<Rightarrow> bool" where
  "same_ring h h' \<longleftrightarrow> h_ring h' = h_ring h \<and> h_write_index h' = h_write_index h \<and> h_count h' = h_count h
     \<and> h_key h' = h_key h \<and> h_key_set h' = h_key_set h \<and> h_initialised h' = h_initialised h \<and> h_storage h' = h_storage h"

lemma same_ring_slots: "same_ring h h' \<Longrightarrow> historian_slots dec h' = historian_slots dec h"
  by (simp add: same_ring_def historian_slots_def slot_def slot_pos_def oldest_pos_def decrypt_record_def)

lemma same_ring_ok: "same_ring h h' \<Longrightarrow> historian_ok h' = historian_ok h"
  by (simp add: same_ring_def historian_ok_def)

lemma flush_loop_same: "same_ring h (flush_loop cb is h) \<and> h_pending_start (flush_loop cb is h) = h_pending_start h"
  by (induction cb "is" h rule: flush_loop.induct) (auto simp: same_ring_def Let_def split: prod.splits)

lemma same_ring_flush: "same_ring h (historian_flush h now)"
  using flush_loop_same[of h] by (auto simp: historian_flush_def same_ring_def split: option.splits)

lemma same_ring_store: "same_ring h (historian_auto_flush (historian_buffer_for_flush h i) now)"
  using same_ring_flush[of "historian_buffer_for_flush h i" now]
  by (auto simp: historian_auto_flush_def historian_buffer_for_flush_def same_ring_def Let_def)

lemma evict_by_age_keeps:
  "h_ring (evict_by_age dec now h) = h_ring h \<and> h_write_index (evict_by_age dec now h) = h_write_index h
   \<and> h_key (evict_by_age dec now h) = h_key h \<and> h_key_set (evict_by_age dec now h) = h_key_set h
   \<and> h_initialised (evict_by_age dec now h) = h_initialised h \<and> h_storage (evict_by_age dec now h) = h_storage h
   \<and> h_pending_start (evict_by_age dec now h) = h_pending_start h \<and> h_pending_count (evict_by_age dec now h) = h_pending_count h
   \<and> h_backend (evict_by_age dec now h) = h_backend h"
proof (induction dec now h rule: evict_by_age.induct)
  case (1 dec now h)
  then show ?case
    by (simp add: evict_by_age.simps[of dec now h] count_evicted_def count_dec_error_def split: option.split)
qed

lemma evict_by_capacity_keeps:
  "h_ring (evict_by_capacity h) = h_ring h \<and> h_write_index (evict_by_capacity h) = h_write_index h
   \<and> h_key (evict_by_capacity h) = h_key h \<and> h_key_set (evict_by_capacity h) = h_key_set h
   \<and> h_initialised (evict_by_capacity h) = h_initialised h \<and> h_storage (evict_by_capacity h) = h_storage h
   \<and> h_pending_start (evict_by_capacity h) = h_pending_start h \<and> h_pending_count (evict_by_capacity h) = h_pending_count h
   \<and> h_backend (evict_by_capacity h) = h_backend h"
proof (induction h rule: evict_by_capacity.induct)
  case (1 h)
  then show ?case by (simp add: evict_by_capacity.simps[of h] count_evicted_def)
qed

lemma evict_by_age_timer: "h_last_flush_ms (evict_by_age dec now h) = h_last_flush_ms h"
proof (induction dec now h rule: evict_by_age.induct)
  case (1 dec now h)
  then show ?case
    by (simp add: evict_by_age.simps[of dec now h] count_evicted_def count_dec_error_def split: option.split)
qed

lemma evict_by_capacity_timer: "h_last_flush_ms (evict_by_capacity h) = h_last_flush_ms h"
proof (induction h rule: evict_by_capacity.induct)
  case (1 h)
  then show ?case by (simp add: evict_by_capacity.simps[of h] count_evicted_def)
qed

lemmas evict_timer = evict_by_age_timer evict_by_capacity_timer

lemmas evict_keeps = evict_by_age_keeps evict_by_capacity_keeps


subsection \<open>Writing and reading\<close>

definition store_record :: "'st historian \<Rightarrow> bytes \<Rightarrow> 'st historian" where
  "store_record h b = h\<lparr>h_ring := (h_ring h)(h_write_index h := b),
     h_write_index := (h_write_index h + 1) mod HISTORIAN_CAPACITY,
     h_count := (if h_count h < HISTORIAN_CAPACITY then h_count h + 1 else h_count h),
     h_stats := (h_stats h)\<lparr>hs_records_written := hs_records_written (h_stats h) + 1\<rparr>\<rparr>"

lemma store_record_slots:
  assumes ok: "historian_ok h" and room: "h_count h < HISTORIAN_CAPACITY"
    and d: "decrypt_record dec h (h_write_index h) (h_write_index h) b = Some r"
  shows "historian_ok (store_record h b) \<and> historian_slots dec (store_record h b) = historian_slots dec h @ [Some r]"
proof -
  let ?h = "store_record h b" and ?w = "unat (h_write_index h)" and ?c = "unat (h_count h)"
  have le: "?w < 16384" "?c < 16384" using ok room by (auto simp: historian_ok_def word_less_nat_alt)
  have c': "unat (h_count ?h) = Suc ?c"
    using room le(2) by (simp add: store_record_def unat_word_ariths)
  have w': "unat (h_write_index ?h) = Suc ?w mod 16384"
    using le(1) by (simp add: store_record_def unat_mod unat_word_ariths)
  have ok': "historian_ok ?h"
    using le c' w' by (simp add: historian_ok_def word_less_nat_alt word_le_nat_alt)
  have "(Suc ?w mod 16384 + 16384 - Suc ?c + j) mod 16384 = (?w + 16384 - ?c + j) mod 16384" for j
    by (rule mod_step[OF le])
  then have pos: "slot_pos ?h j = slot_pos h j" if "j \<le> ?c" for j
    using that ok ok' le by (intro slot_pos_eqI) (auto simp: c' w')
  have wpos: "slot_pos h ?c = h_write_index h"
    using unat_slot_pos[OF ok, of ?c] le by (simp add: word_unat_eq_iff)
  have old: "slot_pos h j \<noteq> h_write_index h" if "j < ?c" for j
    using unat_slot_pos[OF ok, of j] mod_window[OF le that] le that by (auto simp: word_unat_eq_iff)
  have "slot dec ?h j = slot dec h j" if "j < ?c" for j
    using pos[of j] old[OF that] that by (simp add: slot_def store_record_def decrypt_record_def)
  moreover have "slot dec ?h ?c = Some r"
    unfolding slot_def pos[OF order_refl] wpos using d by (simp add: store_record_def decrypt_record_def split: if_splits)
  ultimately show ?thesis using ok' by (simp add: historian_slots_def c')
qed

lemma historian_write_unfold:
  assumes "h_initialised h" "h_key_set h"
    and h1: "h1 = historian_evict dec h (hr_timestamp_ms r)"
    and "encrypt_record enc h1 (h_write_index h1) (h_write_index h1) r = Some b"
  shows "historian_write enc dec h (Some r) =
    (True, historian_auto_flush (historian_buffer_for_flush (store_record h1 b) (h_write_index h1)) (hr_timestamp_ms r))"
  using assms(1,2,4) unfolding h1[symmetric] historian_write_def
  by (simp add: store_record_def Let_def h1[symmetric])

lemma write_slots:
  assumes ccm: "historian_ccm_ok enc dec" and ok: "historian_ok h" and init: "h_initialised h"
    and key: "h_key_set h" "length (h_key h) = 16"
  shows "\<exists>h'. historian_write enc dec h (Some r) = (True, h') \<and> historian_ok h' \<and>
     h_initialised h' \<and> h_key_set h' \<and> h_key h' = h_key h \<and>
     historian_slots dec h' =
       last_n 16384 (dropWhile (evictable (hr_timestamp_ms r)) (historian_slots dec h) @ [Some r])"
proof -
  define h1 where "h1 = historian_evict dec h (hr_timestamp_ms r)"
  have k1: "h_key h1 = h_key h" "h_key_set h1" "h_initialised h1"
    using key init by (simp_all add: h1_def historian_evict_def evict_keeps)
  have ok1: "historian_ok h1" "h_count h1 < HISTORIAN_CAPACITY" "historian_slots dec h1 =
      last_n 16383 (dropWhile (evictable (hr_timestamp_ms r)) (historian_slots dec h))"
    using evict_by_age_slots[OF ok, of dec "hr_timestamp_ms r"] evict_by_capacity_slots
    unfolding h1_def historian_evict_def by metis+
  obtain b where b: "encrypt_record enc h1 (h_write_index h1) (h_write_index h1) r = Some b"
      "decrypt_record dec h1 (h_write_index h1) (h_write_index h1) b = Some r"
    using decrypt_encrypt[OF ccm, of h1] k1 key by fastforce
  let ?h = "historian_auto_flush (historian_buffer_for_flush (store_record h1 b) (h_write_index h1)) (hr_timestamp_ms r)"
  note st = store_record_slots[OF ok1(1,2) b(2)]
  have same: "same_ring (store_record h1 b) ?h" by (rule same_ring_store)
  have "historian_slots dec ?h = last_n 16383 (dropWhile (evictable (hr_timestamp_ms r)) (historian_slots dec h)) @ [Some r]"
    using same_ring_slots[OF same] st ok1(3) by simp
  also have "\<dots> = last_n 16384 (dropWhile (evictable (hr_timestamp_ms r)) (historian_slots dec h) @ [Some r])"
    by (simp add: last_n_def)
  finally show ?thesis
    using historian_write_unfold[OF init key(1) h1_def b(1)] same_ring_ok[OF same] st same k1
    by (simp add: same_ring_def) (simp add: store_record_def)
qed

lemma read_loop_eq:
  "h_ring h = h_ring h0 \<Longrightarrow> h_key h = h_key h0 \<Longrightarrow> h_key_set h = h_key_set h0 \<Longrightarrow> length found \<le> max_records \<Longrightarrow>
   fst (read_loop dec q (oldest_pos h0) max_records js found h) =
     take max_records (found @ filter (query_matches q) (map the (filter (\<lambda>s. s \<noteq> None) (map (slot dec h0) js))))"
proof (induction dec q "oldest_pos h0" max_records js found h rule: read_loop.induct)
  case (2 dec q max_records j js found h)
  have dec: "decrypt_record dec h p p (h_ring h p) = decrypt_record dec h0 p p (h_ring h0 p)" for p
    using "2.prems" by (simp add: decrypt_record_def)
  show ?case
  proof (cases "length found < max_records")
    case True
    have "slot dec h0 j = decrypt_record dec h (slot_pos h0 j) (slot_pos h0 j) (h_ring h (slot_pos h0 j))"
      by (simp add: slot_def dec)
    then show ?thesis using "2.hyps" "2.prems" True
      by (auto simp: Let_def slot_pos_def[symmetric] count_dec_error_def split: option.splits)
  qed (use "2.prems" in simp)
qed simp


section \<open>Persistence\<close>

text \<open>
  The documented behaviour of a storage backend, over what it holds (\<open>img\<close>: ring image, count and write
  index): appending stores the record at its position and the metadata, loading returns all of it.
\<close>

definition storage_ok :: "'st HistorianStorage_t \<Rightarrow> ('st \<Rightarrow> (u32 \<Rightarrow> bytes) \<times> u32 \<times> u32) \<Rightarrow> bool" where
  "storage_ok sto img \<longleftrightarrow>
     (\<exists>app. st_append sto = Some app \<and> (\<forall>pos b cnt wi s. \<exists>s'. app pos b cnt wi s = (True, s') \<and>
        img s' = ((fst (img s))(pos := b), cnt, wi))) \<and>
     (\<exists>ld. st_load sto = Some ld \<and> (\<forall>s ring. ld s ring = (True, img s)))"

definition pending_pos :: "'st historian \<Rightarrow> u32 set" where
  "pending_pos h = (\<lambda>i. (h_pending_start h + word_of_nat i) mod HISTORIAN_CAPACITY) ` {..<unat (h_pending_count h)}"

definition persisted :: "('st \<Rightarrow> (u32 \<Rightarrow> bytes) \<times> u32 \<times> u32) \<Rightarrow> 'st historian \<Rightarrow> bool" where
  "persisted img h \<longleftrightarrow> h_pending_start h < HISTORIAN_CAPACITY \<and> h_pending_count h < HISTORIAN_PENDING_MAX
     \<and> (h_pending_count h \<noteq> 0 \<longrightarrow> (h_pending_start h + h_pending_count h) mod HISTORIAN_CAPACITY = h_write_index h)
     \<and> (\<forall>p. p < HISTORIAN_CAPACITY \<longrightarrow> p \<notin> pending_pos h \<longrightarrow> fst (img (h_backend h)) p = h_ring h p)
     \<and> (h_pending_count h = 0 \<longrightarrow> snd (img (h_backend h)) = (h_count h, h_write_index h))"

lemma flush_loop_img:
  assumes app: "\<And>pos b cnt wi s. \<exists>s'. app pos b cnt wi s = (True, s') \<and> img s' = ((fst (img s))(pos := b), cnt, wi)"
  shows "(\<forall>p. fst (img (h_backend (flush_loop app is h))) p =
      (if p \<in> (\<lambda>i. (h_pending_start h + word_of_nat i) mod HISTORIAN_CAPACITY) ` set is then h_ring h p
       else fst (img (h_backend h)) p))
    \<and> snd (img (h_backend (flush_loop app is h))) = (if is = [] then snd (img (h_backend h)) else (h_count h, h_write_index h))"
proof (induction "is" arbitrary: h)
  case (Cons i "is")
  define pos where "pos = (h_pending_start h + word_of_nat i) mod HISTORIAN_CAPACITY"
  obtain s' where s': "app pos (h_ring h pos) (h_count h) (h_write_index h) (h_backend h) = (True, s')"
    "img s' = ((fst (img (h_backend h)))(pos := h_ring h pos), h_count h, h_write_index h)"
    using app by metis
  have "flush_loop app (i # is) h = flush_loop app is (h\<lparr>h_backend := s'\<rparr>)"
    using s'(1) by (simp add: pos_def Let_def)
  then show ?case using Cons.IH[of "h\<lparr>h_backend := s'\<rparr>"] s'(2) by (auto simp: pos_def)
qed simp

lemma flush_persists:
  assumes sto: "h_storage h = Some sto" "storage_ok sto img" and init: "h_initialised h"
    and img: "\<forall>p. p < HISTORIAN_CAPACITY \<longrightarrow> p \<notin> pending_pos h \<longrightarrow> fst (img (h_backend h)) p = h_ring h p"
    and meta: "h_pending_count h = 0 \<longrightarrow> snd (img (h_backend h)) = (h_count h, h_write_index h)"
  shows "h_pending_count (historian_flush h now) = 0 \<and>
     (h_pending_count h \<noteq> 0 \<longrightarrow> h_pending_start (historian_flush h now) = 0) \<and>
     (\<forall>p. p < HISTORIAN_CAPACITY \<longrightarrow> fst (img (h_backend (historian_flush h now))) p = h_ring h p) \<and>
     snd (img (h_backend (historian_flush h now))) = (h_count h, h_write_index h)"
proof (cases "h_pending_count h = 0")
  case True
  then show ?thesis using img meta by (simp add: historian_flush_def pending_pos_def)
next
  case False
  obtain app where app: "st_append sto = Some app"
    "\<And>pos b cnt wi s. \<exists>s'. app pos b cnt wi s = (True, s') \<and> img s' = ((fst (img s))(pos := b), cnt, wi)"
    using sto(2) unfolding storage_ok_def by blast
  have "[0..<unat (h_pending_count h)] \<noteq> []" using False by (simp add: unat_gt_0)
  then show ?thesis
    using flush_loop_img[OF app(2), of "[0..<unat (h_pending_count h)]" h] img False init sto(1) app(1)
    by (auto simp: historian_flush_def pending_pos_def atLeast0LessThan)
qed

lemma persisted_flush:
  assumes "h_storage h = Some sto" "storage_ok sto img" "h_initialised h"
    and "h_pending_start h < HISTORIAN_CAPACITY"
    and "\<forall>p. p < HISTORIAN_CAPACITY \<longrightarrow> p \<notin> pending_pos h \<longrightarrow> fst (img (h_backend h)) p = h_ring h p"
    and "h_pending_count h = 0 \<longrightarrow> snd (img (h_backend h)) = (h_count h, h_write_index h)"
  shows "persisted img (historian_flush h now)"
proof -
  note fl = flush_persists[OF assms(1,2,3,5,6), of now] and same = same_ring_flush[of h now]
  have "h_pending_start (historian_flush h now) < HISTORIAN_CAPACITY"
  proof (cases "h_pending_count h = 0")
    case True
    then show ?thesis using assms(4) by (simp add: historian_flush_def)
  next
    case False
    then show ?thesis using fl by (simp add: HISTORIAN_CAPACITY_def)
  qed
  then show ?thesis using fl same
    by (simp add: persisted_def same_ring_def HISTORIAN_PENDING_MAX_def)
qed

lemma pending_pos_buffer:
  assumes "h_pending_count h < HISTORIAN_PENDING_MAX"
    and "h_pending_count h \<noteq> 0 \<longrightarrow> (h_pending_start h + h_pending_count h) mod HISTORIAN_CAPACITY = i"
    and "i < HISTORIAN_CAPACITY"
  shows "pending_pos (historian_buffer_for_flush h i) = insert i (pending_pos h)"
proof -
  have c: "unat (h_pending_count h + 1) = Suc (unat (h_pending_count h))"
    using assms(1) by (simp add: HISTORIAN_PENDING_MAX_def word_less_nat_alt unat_word_ariths)
  show ?thesis
  proof (cases "h_pending_count h = 0")
    case True
    have "i mod HISTORIAN_CAPACITY = i" using assms(3) by (simp add: word_unat_eq_iff unat_mod word_less_nat_alt)
    then show ?thesis using True by (simp add: historian_buffer_for_flush_def pending_pos_def lessThan_Suc)
  next
    case False
    then show ?thesis using assms(2) c
      by (simp add: historian_buffer_for_flush_def pending_pos_def lessThan_Suc)
  qed
qed

lemma word_mod_Suc:
  assumes "unat (a :: u32) < 20000"
  shows "(a + 1) mod HISTORIAN_CAPACITY = (a mod HISTORIAN_CAPACITY + 1) mod HISTORIAN_CAPACITY"
proof -
  have "unat (a mod HISTORIAN_CAPACITY + 1) = unat a mod 16384 + 1" "unat (a + 1) = unat a + 1"
    using assms by (simp_all add: unat_word_ariths unat_mod)
  then show ?thesis by (simp add: word_unat_eq_iff unat_mod mod_simps)
qed


text \<open>Buffering the freshly stored record keeps image and ring in step outside the pending positions.\<close>

lemma persisted_store:
  assumes p: "persisted img h0" and ok: "h_write_index h0 < HISTORIAN_CAPACITY"
    and eq: "h_ring h = (h_ring h0)(h_write_index h0 := b)" "h_write_index h = (h_write_index h0 + 1) mod HISTORIAN_CAPACITY"
      "h_pending_start h = h_pending_start h0" "h_pending_count h = h_pending_count h0" "h_backend h = h_backend h0"
      "h_storage h = Some sto" "h_initialised h" and sto: "storage_ok sto img"
  shows "persisted img (historian_auto_flush (historian_buffer_for_flush h (h_write_index h0)) now)"
proof -
  let ?h = "historian_buffer_for_flush h (h_write_index h0)"
  have pc: "h_pending_count h0 < HISTORIAN_PENDING_MAX" and
    nx: "h_pending_count h0 \<noteq> 0 \<longrightarrow> (h_pending_start h0 + h_pending_count h0) mod HISTORIAN_CAPACITY = h_write_index h0"
    and st: "h_pending_start h0 < HISTORIAN_CAPACITY" and im: "\<forall>p. p < HISTORIAN_CAPACITY \<longrightarrow> p \<notin> pending_pos h0 \<longrightarrow>
        fst (img (h_backend h0)) p = h_ring h0 p"
    using p by (simp_all add: persisted_def)
  have "pending_pos h = pending_pos h0" using eq by (simp add: pending_pos_def)
  then have pp: "pending_pos ?h = insert (h_write_index h0) (pending_pos h0)"
    using pending_pos_buffer[of h "h_write_index h0"] pc nx ok eq by simp
  have b: "h_ring ?h = h_ring h" "h_backend ?h = h_backend h0" "h_storage ?h = Some sto" "h_initialised ?h"
      "h_write_index ?h = h_write_index h" "h_pending_count ?h = h_pending_count h0 + 1"
      "h_pending_start ?h = (if h_pending_count h0 = 0 then h_write_index h0 else h_pending_start h0)"
    using eq by (simp_all add: historian_buffer_for_flush_def Let_def)
  have img: "\<forall>p. p < HISTORIAN_CAPACITY \<longrightarrow> p \<notin> pending_pos ?h \<longrightarrow> fst (img (h_backend ?h)) p = h_ring ?h p"
    using im by (simp add: b pp eq)
  have pcn: "unat (h_pending_count h0) < 64" using pc by (simp add: HISTORIAN_PENDING_MAX_def word_less_nat_alt)
  then have ne: "h_pending_count ?h \<noteq> 0" by (simp add: b word_unat_eq_iff unat_word_ariths)
  have start: "h_pending_start ?h < HISTORIAN_CAPACITY" using st ok by (simp add: b)
  have fl: "persisted img (historian_flush ?h now)"
    using persisted_flush[OF b(3) sto b(4) start img] ne by simp
  have "(h_pending_start ?h + h_pending_count ?h) mod HISTORIAN_CAPACITY = h_write_index ?h"
  proof (cases "h_pending_count h0 = 0")
    case False
    have "unat (h_pending_start h0 + h_pending_count h0) < 20000"
      using st pcn by (simp add: word_less_nat_alt unat_word_ariths)
    from word_mod_Suc[OF this] show ?thesis using False nx by (simp add: b eq add.assoc)
  qed (simp add: b eq)
  then have "persisted img ?h" if "h_pending_count ?h < HISTORIAN_PENDING_MAX"
    using that start img ne by (simp add: persisted_def)
  then show ?thesis using fl by (simp add: historian_auto_flush_def not_le)
qed

definition writes :: "ccm_enc \<Rightarrow> ccm_dec \<Rightarrow> 'st historian \<Rightarrow> HistorianRecord_t list \<Rightarrow> 'st historian" where
  "writes enc dec h rs = foldl (\<lambda>h r. snd (historian_write enc dec h (Some r))) h rs"

text \<open>The working state: initialised, keyed, with a storage backend that is in step with the ring.\<close>

definition historian_live :: "'st HistorianStorage_t \<Rightarrow> ('st \<Rightarrow> (u32 \<Rightarrow> bytes) \<times> u32 \<times> u32) \<Rightarrow> 'st historian \<Rightarrow> bool" where
  "historian_live sto img h \<longleftrightarrow> historian_ok h \<and> h_initialised h \<and> h_key_set h \<and> length (h_key h) = 16
     \<and> h_storage h = Some sto \<and> storage_ok sto img \<and> persisted img h"

lemma write_live:
  assumes ccm: "historian_ccm_ok enc dec" and live: "historian_live sto img h"
  shows "historian_live sto img (snd (historian_write enc dec h (Some r)))
    \<and> h_key (snd (historian_write enc dec h (Some r))) = h_key h"
proof -
  have l: "historian_ok h" "h_initialised h" "h_key_set h" "length (h_key h) = 16" "h_storage h = Some sto"
    "storage_ok sto img" "persisted img h" using live by (simp_all add: historian_live_def)
  obtain h' where w: "historian_write enc dec h (Some r) = (True, h')" "historian_ok h'" "h_initialised h'"
      "h_key_set h'" "h_key h' = h_key h"
    using write_slots[OF ccm l(1-4)] by blast
  define h1 where "h1 = historian_evict dec h (hr_timestamp_ms r)"
  have k: "h_key h1 = h_key h" "h_key_set h1" "h_initialised h1" "h_storage h1 = Some sto" "h_ring h1 = h_ring h"
    "h_write_index h1 = h_write_index h" "h_pending_start h1 = h_pending_start h"
    "h_pending_count h1 = h_pending_count h" "h_backend h1 = h_backend h"
    using l by (simp_all add: h1_def historian_evict_def evict_keeps)
  obtain b where b: "encrypt_record enc h1 (h_write_index h1) (h_write_index h1) r = Some b"
    using decrypt_encrypt[OF ccm, of h1] k l by fastforce
  have h': "h' = historian_auto_flush (historian_buffer_for_flush (store_record h1 b) (h_write_index h)) (hr_timestamp_ms r)"
    using historian_write_unfold[OF l(2,3) h1_def b] w(1) by (simp add: k)
  have "persisted img h'" unfolding h'
    by (rule persisted_store[where h = "store_record h1 b" and b = b and sto = sto])
      (use l k in \<open>auto simp: store_record_def historian_ok_def\<close>)
  moreover have "h_storage h' = Some sto"
    using same_ring_store[of "store_record h1 b" "h_write_index h" "hr_timestamp_ms r"] k
    by (simp add: h' same_ring_def store_record_def)
  ultimately show ?thesis using w l by (simp add: historian_live_def)
qed

lemma writes_live:
  "historian_ccm_ok enc dec \<Longrightarrow> historian_live sto img h \<Longrightarrow>
   historian_live sto img (writes enc dec h rs) \<and> h_key (writes enc dec h rs) = h_key h"
proof (induction rs arbitrary: h)
  case (Cons r rs)
  show ?case
    using Cons.IH[OF Cons.prems(1), of "snd (historian_write enc dec h (Some r))"] write_live[OF Cons.prems, of r]
    by (simp add: writes_def)
qed (simp add: writes_def)

lemma init_live:
  assumes "h_storage h = Some sto" "storage_ok sto img" "h_key_set h" "length (h_key h) = 16"
    and "fst (snd (img (h_backend h))) \<le> HISTORIAN_CAPACITY" "snd (snd (img (h_backend h))) < HISTORIAN_CAPACITY"
  shows "historian_live sto img (snd (historian_init h))"
    and "h_ring (snd (historian_init h)) = fst (img (h_backend h))"
    and "h_count (snd (historian_init h)) = fst (snd (img (h_backend h)))"
    and "h_write_index (snd (historian_init h)) = snd (snd (img (h_backend h)))"
    and "h_key (snd (historian_init h)) = h_key h" and "h_key_set (snd (historian_init h))"
proof -
  obtain ld where ld: "st_load sto = Some ld" "\<And>s ring. ld s ring = (True, img s)"
    using assms(2) unfolding storage_ok_def by blast
  obtain R c w where img: "img (h_backend h) = (R, c, w)" by (metis prod_cases3)
  have "w mod HISTORIAN_CAPACITY = w"
    using assms(6) img by (simp add: word_unat_eq_iff unat_mod word_less_nat_alt)
  then show "historian_live sto img (snd (historian_init h))"
    "h_ring (snd (historian_init h)) = fst (img (h_backend h))"
    "h_count (snd (historian_init h)) = fst (snd (img (h_backend h)))"
    "h_write_index (snd (historian_init h)) = snd (snd (img (h_backend h)))"
    "h_key (snd (historian_init h)) = h_key h" "h_key_set (snd (historian_init h))"
    using assms ld img
    by (simp_all add: historian_init_def Let_def historian_live_def historian_ok_def persisted_def
        HISTORIAN_PENDING_MAX_def pending_pos_def) (simp_all add: HISTORIAN_CAPACITY_def)
qed


section \<open>Specification\<close>

text \<open>The historian as a list of records, oldest first.\<close>

definition spec_write :: "HistorianRecord_t list \<Rightarrow> HistorianRecord_t \<Rightarrow> HistorianRecord_t list" where
  "spec_write cs r = last_n 16384 (dropWhile (too_old (hr_timestamp_ms r)) cs @ [r])"

definition spec_read :: "HistorianRecord_t list \<Rightarrow> HistorianQuery_t option \<Rightarrow> nat \<Rightarrow> HistorianRecord_t list" where
  "spec_read cs q n = take n (filter (query_matches q) cs)"

definition historian_ready :: "'st historian \<Rightarrow> bool" where
  "historian_ready h \<longleftrightarrow> historian_ok h \<and> h_initialised h \<and> h_key_set h \<and> length (h_key h) = 16"

lemma last_n_map: "last_n n (map f xs) = map f (last_n n xs)"
  by (simp add: last_n_def drop_map)

lemma dropWhile_evictable: "dropWhile (evictable now) (map Some cs) = map Some (dropWhile (too_old now) cs)"
  by (induction cs) auto

lemma write_refines:
  assumes "historian_ccm_ok enc dec" "historian_ready h" "historian_slots dec h = map Some cs"
  shows "\<exists>h'. historian_write enc dec h (Some r) = (True, h') \<and> historian_ready h' \<and>
     historian_slots dec h' = map Some (spec_write cs r)"
proof -
  have "dropWhile (evictable now) (map Some cs) @ [Some r] = map Some (dropWhile (too_old now) cs @ [r])" for now
    by (simp add: dropWhile_evictable)
  then show ?thesis
    using write_slots[OF assms(1), of h r] assms(2,3) unfolding historian_ready_def spec_write_def
    by (metis last_n_map)
qed

lemma writes_refine:
  "historian_ccm_ok enc dec \<Longrightarrow> historian_ready h \<Longrightarrow> historian_slots dec h = map Some cs \<Longrightarrow>
   historian_ready (writes enc dec h rs) \<and> historian_slots dec (writes enc dec h rs) = map Some (foldl spec_write cs rs)"
proof (induction rs arbitrary: h cs)
  case (Cons r rs)
  obtain h' where h': "historian_write enc dec h (Some r) = (True, h')" "historian_ready h'"
      "historian_slots dec h' = map Some (spec_write cs r)"
    using write_refines[OF Cons.prems] by blast
  then show ?case using Cons.IH[OF Cons.prems(1) h'(2,3)] by (simp add: writes_def)
qed (simp add: writes_def)

lemma read_refines:
  assumes "historian_ready h" "historian_slots dec h = map Some cs"
  shows "fst (historian_read dec h q n) = spec_read cs q (unat n)"
proof -
  have "map the (filter (\<lambda>s. s \<noteq> None) (map Some cs)) = cs" by (induction cs) auto
  then show ?thesis
    using assms read_loop_eq[of h h "[]" "unat n" dec q "[0..<unat (h_count h)]"]
    by (auto simp: historian_read_def historian_ready_def spec_read_def historian_slots_def)
qed

section \<open>Properties\<close>

text \<open>
  C4.  The historian refines its specification: after any sequence of writes a query returns, up to
  the size of the output array, exactly the records of the specification list that match it, oldest
  first; the list evolves by dropping the leading records older than 30 days, appending, and keeping
  the newest 16384.
\<close>

theorem historian_refines_list:
  assumes "historian_ccm_ok enc dec" and "historian_ready h" and "historian_slots dec h = map Some cs"
  shows "fst (historian_read dec (writes enc dec h rs) q n) = spec_read (foldl spec_write cs rs) q (unat n)"
  using read_refines writes_refine[OF assms] by blast

text \<open>Instances for the parameters: a toy cipher and a storage that keeps what it is given.\<close>

definition hdemo_enc :: ccm_enc where
  "hdemo_enc k n p = Some (map (\<lambda>x. x + 1) p, replicate 16 7)"

definition hdemo_dec :: ccm_dec where
  "hdemo_dec k n c t = (if t = replicate 16 7 then Some (map (\<lambda>x. x - 1) c) else None)"

lemma hdemo_ccm_ok: "historian_ccm_ok hdemo_enc hdemo_dec"
  by (simp add: historian_ccm_ok_def hdemo_enc_def hdemo_dec_def HISTORIAN_CCM_TAG_SIZE_def comp_def)

definition hdemo_storage :: "((u32 \<Rightarrow> bytes) \<times> u32 \<times> u32) HistorianStorage_t" where
  "hdemo_storage = \<lparr>st_append = Some (\<lambda>pos b cnt wi s. (True, ((fst s)(pos := b), cnt, wi))),
     st_load = Some (\<lambda>s ring. (True, s))\<rparr>"

lemma hdemo_storage_ok: "storage_ok hdemo_storage (\<lambda>s. s)"
  by (simp add: storage_ok_def hdemo_storage_def)

definition hdemo :: "((u32 \<Rightarrow> bytes) \<times> u32 \<times> u32) historian" where
  "hdemo = \<lparr>h_ring = \<lambda>_. replicate 40 0, h_write_index = 0, h_count = 0, h_pending_start = 0, h_pending_count = 0,
     h_last_flush_ms = 0, h_key = replicate 16 1, h_key_set = True, h_storage = Some hdemo_storage,
     h_stats = stats_zero, h_initialised = True, h_backend = (\<lambda>_. replicate 40 0, 0, 0)\<rparr>"

definition hdemo_rec :: "u64 \<Rightarrow> u8 \<Rightarrow> HistorianRecord_t" where
  "hdemo_rec t m = \<lparr>hr_timestamp_ms = t, hr_value = 0x40800000, hr_sequence = 1, hr_node_id = 5, hr_metric_id = m,
     hr_domain_profile_id = 3, hr_reserved = 0\<rparr>"

lemma hdemo_ready: "historian_ready hdemo" and hdemo_slots: "historian_slots dec hdemo = map Some []"
  by (simp_all add: historian_ready_def historian_ok_def hdemo_def HISTORIAN_CAPACITY_def historian_slots_def)

theorem historian_refines_list_witness:
  "fst (historian_read hdemo_dec (writes hdemo_enc hdemo_dec hdemo [hdemo_rec 1000 1, hdemo_rec 2000 2, hdemo_rec 3000 1])
      (Some \<lparr>hq_time_start_ms = 0, hq_time_end_ms = 0, hq_node_id = 0, hq_metric_id = 1\<rparr>) 8)
   = [hdemo_rec 1000 1, hdemo_rec 3000 1]"
  unfolding historian_refines_list[OF hdemo_ccm_ok hdemo_ready hdemo_slots]
  by (simp add: spec_read_def spec_write_def too_old_def hdemo_rec_def HISTORIAN_30_DAY_MS_def query_matches_def)

text \<open>
  C25.  Records survive a restart: after any sequence of writes, a flush and a re-initialisation of the
  historian from its storage, the ring holds the same records in the same order.
\<close>

theorem historian_survives_reboot:
  assumes "historian_ccm_ok enc dec" and "historian_live sto img h"
  shows "historian_slots dec (snd (historian_init (historian_flush (writes enc dec h rs) now))) =
     historian_slots dec (writes enc dec h rs)"
proof -
  let ?h = "writes enc dec h rs" let ?f = "historian_flush ?h now"
  have l: "historian_live sto img ?h" using writes_live[OF assms] by blast
  have fl: "\<forall>p. p < HISTORIAN_CAPACITY \<longrightarrow> fst (img (h_backend ?f)) p = h_ring ?h p"
      "snd (img (h_backend ?f)) = (h_count ?h, h_write_index ?h)"
    using l flush_persists[of ?h sto img now] by (simp_all add: historian_live_def persisted_def)
  have same: "h_storage ?f = Some sto" "storage_ok sto img" "h_key_set ?f" "length (h_key ?f) = 16" "h_key ?f = h_key ?h"
    "h_key_set ?h" using l same_ring_flush[of ?h now] by (simp_all add: historian_live_def same_ring_def)
  note init = init_live[OF same(1-4)]
  have ok: "historian_ok ?h" using l by (simp add: historian_live_def)
  let ?g = "snd (historian_init ?f)"
  have g: "h_count ?g = h_count ?h" "h_write_index ?g = h_write_index ?h" "h_ring ?g = fst (img (h_backend ?f))"
    "h_key ?g = h_key ?h" "h_key_set ?g"
    using init ok fl(2) same(5) by (simp_all add: historian_ok_def)
  have "slot_pos ?g j = slot_pos ?h j" for j by (simp add: slot_pos_def oldest_pos_def g)
  moreover have "slot_pos ?h j < HISTORIAN_CAPACITY" for j
    by (simp add: slot_pos_def word_less_nat_alt unat_mod)
  ultimately have "slot dec ?g j = slot dec ?h j" for j
    using fl(1) same(6) g by (simp add: slot_def decrypt_record_def)
  then show ?thesis by (simp add: historian_slots_def g)
qed

lemma hdemo_live: "historian_live hdemo_storage (\<lambda>s. s) hdemo"
  using hdemo_ready hdemo_storage_ok
  by (simp add: historian_live_def historian_ready_def persisted_def) (simp add: hdemo_def HISTORIAN_CAPACITY_def HISTORIAN_PENDING_MAX_def)

theorem historian_survives_reboot_witness:
  "historian_slots hdemo_dec (snd (historian_init (historian_flush
      (writes hdemo_enc hdemo_dec hdemo [hdemo_rec 1000 1, hdemo_rec 2000 2]) 5000))) =
    [Some (hdemo_rec 1000 1), Some (hdemo_rec 2000 2)]"
  unfolding historian_survives_reboot[OF hdemo_ccm_ok hdemo_live]
  using writes_refine[OF hdemo_ccm_ok hdemo_ready hdemo_slots, of "[hdemo_rec 1000 1, hdemo_rec 2000 2]"]
  by (simp add: spec_write_def too_old_def hdemo_rec_def HISTORIAN_30_DAY_MS_def)


lemma too_old_nat:
  assumes "hr_timestamp_ms s > 0" "hr_timestamp_ms s \<le> now"
  shows "too_old now s \<longleftrightarrow> unat (hr_timestamp_ms s) + 2592000000 < unat now"
  using assms by (auto simp: too_old_def HISTORIAN_30_DAY_MS_def word_less_nat_alt word_le_nat_alt unat_sub_if')

text \<open>
  The 30-day window: if the stored records have non-zero, non-decreasing timestamps and the new
  record is not older than the last of them, then after the write every stored record is at most 30
  days older than the new one.
\<close>

theorem historian_window:
  assumes "historian_ccm_ok enc dec" and "historian_ready h" and "historian_slots dec h = map Some cs"
    and "sorted (map hr_timestamp_ms (cs @ [r]))" and "\<forall>s \<in> set cs. hr_timestamp_ms s > 0"
  shows "\<exists>h' kept. historian_write enc dec h (Some r) = (True, h') \<and> historian_slots dec h' = map Some kept \<and>
     sorted (map hr_timestamp_ms kept) \<and>
     (\<forall>s \<in> set kept. unat (hr_timestamp_ms r) \<le> unat (hr_timestamp_ms s) + 2592000000)"
proof -
  let ?d = "dropWhile (too_old (hr_timestamp_ms r)) cs"
  have suf: "\<exists>xs. cs @ [r] = xs @ spec_write cs r"
    unfolding spec_write_def last_n_def by (metis append_assoc append_take_drop_id takeWhile_dropWhile_id)
  then have kept: "sorted (map hr_timestamp_ms (spec_write cs r))"
    using assms(4) by (metis map_append sorted_append)
  have le: "hr_timestamp_ms s \<le> hr_timestamp_ms r" if "s \<in> set cs" for s
    using assms(4) that by (auto simp: sorted_append)
  have old: "unat (hr_timestamp_ms r) \<le> unat (hr_timestamp_ms s) + 2592000000" if "s \<in> set ?d" for s
  proof (cases ?d)
    case (Cons a as)
    have a: "\<not> too_old (hr_timestamp_ms r) a" "a \<in> set cs" "s \<in> set cs"
      using Cons hd_dropWhile[of "too_old (hr_timestamp_ms r)" cs] set_dropWhileD[of _ "too_old (hr_timestamp_ms r)" cs] that
      by (auto simp: Cons)
    have "sorted (map hr_timestamp_ms ?d)"
      using assms(4) by (metis map_append sorted_append takeWhile_dropWhile_id)
    then have "hr_timestamp_ms a \<le> hr_timestamp_ms s" using that Cons by auto
    then show ?thesis using a too_old_nat[of a] assms(5) le by (fastforce simp: word_le_nat_alt)
  next
    case Nil
    then show ?thesis using that by (metis empty_iff list.set(1))
  qed
  then have "\<forall>s \<in> set (spec_write cs r). unat (hr_timestamp_ms r) \<le> unat (hr_timestamp_ms s) + 2592000000"
    by (auto simp: spec_write_def last_n_def dest: in_set_dropD)
  then show ?thesis using write_refines[OF assms(1-3), of r] kept by blast
qed

theorem historian_window_witness:
  "\<exists>h' kept. historian_write hdemo_enc hdemo_dec hdemo (Some (hdemo_rec 1000 1)) = (True, h') \<and>
     historian_slots hdemo_dec h' = map Some kept \<and> sorted (map hr_timestamp_ms kept) \<and>
     (\<forall>s \<in> set kept. unat (hr_timestamp_ms (hdemo_rec 1000 1)) \<le> unat (hr_timestamp_ms s) + 2592000000)"
  using historian_window[OF hdemo_ccm_ok hdemo_ready hdemo_slots, of "hdemo_rec 1000 1"] by simp

text \<open>
  A clock step backwards wipes the history: one record whose timestamp is earlier than all the
  stored ones (a non-zero one, and not so much earlier that the 64-bit difference is small again)
  makes the age test wrap, and the write leaves the ring with that record alone.
\<close>

theorem historian_clock_step_back_wipes:
  assumes "historian_ccm_ok enc dec" and "historian_ready h" and "historian_slots dec h = map Some cs"
    and "0 < hr_timestamp_ms r"
    and "\<forall>s \<in> set cs. hr_timestamp_ms r < hr_timestamp_ms s \<and>
        unat (hr_timestamp_ms s) < unat (hr_timestamp_ms r) + (2 ^ 64 - 2592000000)"
  shows "\<exists>h'. historian_write enc dec h (Some r) = (True, h') \<and> historian_slots dec h' = [Some r]"
proof -
  have "too_old (hr_timestamp_ms r) s" if s: "s \<in> set cs" for s
  proof -
    have "hr_timestamp_ms r < hr_timestamp_ms s" "unat (hr_timestamp_ms s) < unat (hr_timestamp_ms r) + (2 ^ 64 - 2592000000)"
      using assms(5) s by auto
    then show ?thesis using assms(4)
      by (auto simp: too_old_def HISTORIAN_30_DAY_MS_def word_less_nat_alt unat_sub_if' word_gt_0)
  qed
  then have d: "dropWhile (too_old (hr_timestamp_ms r)) cs = []" by simp
  have "spec_write cs r = [r]" unfolding spec_write_def d by simp
  then show ?thesis using write_refines[OF assms(1-3), of r] by force
qed

theorem historian_clock_step_back_wipes_witness:
  "\<exists>h'. historian_write hdemo_enc hdemo_dec (writes hdemo_enc hdemo_dec hdemo [hdemo_rec 5000 1, hdemo_rec 6000 1])
      (Some (hdemo_rec 4999 1)) = (True, h') \<and> historian_slots hdemo_dec h' = [Some (hdemo_rec 4999 1)]"
proof -
  have "foldl spec_write [] [hdemo_rec 5000 1, hdemo_rec 6000 1] = [hdemo_rec 5000 1, hdemo_rec 6000 1]"
    by (simp add: spec_write_def too_old_def hdemo_rec_def HISTORIAN_30_DAY_MS_def)
  with writes_refine[OF hdemo_ccm_ok hdemo_ready hdemo_slots, of "[hdemo_rec 5000 1, hdemo_rec 6000 1]"]
  have w: "historian_ready (writes hdemo_enc hdemo_dec hdemo [hdemo_rec 5000 1, hdemo_rec 6000 1])"
    "historian_slots hdemo_dec (writes hdemo_enc hdemo_dec hdemo [hdemo_rec 5000 1, hdemo_rec 6000 1]) =
       map Some [hdemo_rec 5000 1, hdemo_rec 6000 1]" by simp_all
  show ?thesis by (rule historian_clock_step_back_wipes[OF hdemo_ccm_ok w]) (simp_all add: hdemo_rec_def)
qed

text \<open>
  The 60-second timer is not running after start-up: with nothing pending and no flush so far,
  the first 63 records are not written back however much time passes between them.
\<close>

theorem historian_timer_not_started:
  assumes "historian_ccm_ok enc dec" and "historian_ready h"
    and "h_pending_count h = 0" and "h_last_flush_ms h = 0" and "length rs < 64"
  shows "h_backend (writes enc dec h rs) = h_backend h"
proof -
  have "historian_ready h \<Longrightarrow> h_last_flush_ms h = 0 \<Longrightarrow> unat (h_pending_count h) + length rs < 64 \<Longrightarrow>
      h_backend (writes enc dec h rs) = h_backend h" for h :: "'a historian"
  proof (induction rs arbitrary: h)
    case (Cons r rs)
    have rdy: "historian_ready (snd (historian_write enc dec h (Some r)))"
      using write_slots[OF assms(1), of h r] Cons.prems(1) by (auto simp: historian_ready_def)
    define h1 where "h1 = historian_evict dec h (hr_timestamp_ms r)"
    have k: "h_key h1 = h_key h" "h_key_set h1" "h_pending_count h1 = h_pending_count h" "h_backend h1 = h_backend h"
      "h_last_flush_ms h1 = 0"
      using Cons.prems by (simp_all add: h1_def historian_evict_def evict_keeps historian_ready_def evict_timer)
    obtain b where b: "encrypt_record enc h1 (h_write_index h1) (h_write_index h1) r = Some b"
      using decrypt_encrypt[OF assms(1), of h1] k Cons.prems(1) by (fastforce simp: historian_ready_def)
    have pc: "unat (h_pending_count h + 1) = Suc (unat (h_pending_count h))"
      using Cons.prems(3) by (simp add: unat_word_ariths)
    have "snd (historian_write enc dec h (Some r)) = historian_buffer_for_flush (store_record h1 b) (h_write_index h1)"
      using historian_write_unfold[OF _ _ h1_def b] Cons.prems k pc
      by (simp add: historian_ready_def historian_auto_flush_def historian_buffer_for_flush_def Let_def store_record_def
          HISTORIAN_PENDING_MAX_def word_le_nat_alt)
    then show ?case using Cons.IH[OF rdy] Cons.prems k pc
      by (simp add: writes_def) (simp add: historian_buffer_for_flush_def Let_def store_record_def)
  qed (simp add: writes_def)
  then show ?thesis using assms by simp
qed

theorem historian_timer_not_started_witness:
  "h_backend (writes hdemo_enc hdemo_dec hdemo [hdemo_rec 1000 1, hdemo_rec 9000000 1]) = h_backend hdemo"
  by (rule historian_timer_not_started[OF hdemo_ccm_ok hdemo_ready]) (simp_all add: hdemo_def)

end
