(* ===== verification/Rule_Engine.thy ===== *)
theory Rule_Engine
  imports Float32
begin

text \<open>
  The rule engine core (\<open>firmware/shared/rule_engine_core.{h,c}\<close>): rule entries, sensor
  readings, the table of functions a domain profile provides, and the evaluation loop.  The state
  of the module is its \<open>g_initialised\<close> flag.  A profile's functions may read and change the
  profile's own state, which is the type parameter of the table.  The lemmas give the loop a
  loop-free reference: the results are the triggered rules, in table order, cut at the size of the
  output array.
\<close>

section \<open>Data\<close>

definition RULE_MAX_ENTRIES :: nat where "RULE_MAX_ENTRIES = 32"
definition RULE_ENGINE_MAX_ACTIONS :: nat where "RULE_ENGINE_MAX_ACTIONS = 8"

definition RULE_CLASS_SAFETY_LOCKED :: u8 where "RULE_CLASS_SAFETY_LOCKED = 0"
definition RULE_CLASS_OPERATIONAL :: u8 where "RULE_CLASS_OPERATIONAL = 1"

definition RULE_ACTION_NONE :: u8 where "RULE_ACTION_NONE = 0"
definition RULE_ACTION_SET_ACTUATOR :: u8 where "RULE_ACTION_SET_ACTUATOR = 1"
definition RULE_ACTION_TRIGGER_ALERT :: u8 where "RULE_ACTION_TRIGGER_ALERT = 2"
definition RULE_ACTION_INTERLOCK :: u8 where "RULE_ACTION_INTERLOCK = 3"

definition ACTUATOR_STATE_OFF :: u8 where "ACTUATOR_STATE_OFF = 0"
definition ACTUATOR_STATE_ON :: u8 where "ACTUATOR_STATE_ON = 1"
definition ACTUATOR_STATE_SAFE :: u8 where "ACTUATOR_STATE_SAFE = 2"

definition RULE_COMPARE_ABOVE :: u8 where "RULE_COMPARE_ABOVE = 0"
definition RULE_COMPARE_BELOW :: u8 where "RULE_COMPARE_BELOW = 1"

lemmas rule_consts =
  RULE_CLASS_SAFETY_LOCKED_def RULE_CLASS_OPERATIONAL_def
  RULE_ACTION_NONE_def RULE_ACTION_SET_ACTUATOR_def RULE_ACTION_TRIGGER_ALERT_def
  RULE_ACTION_INTERLOCK_def ACTUATOR_STATE_OFF_def ACTUATOR_STATE_ON_def ACTUATOR_STATE_SAFE_def
  RULE_COMPARE_ABOVE_def RULE_COMPARE_BELOW_def

record RuleEntry_t =
  re_rule_id :: u16
  re_priority :: u8
  re_threshold :: f32
  re_action_type :: u8
  re_actuator_id :: u8
  re_metric_id :: u8
  re_rule_class :: u8
  re_interlock_id :: u8
  re_comparison_type :: u8
  re_reserved :: "u8 \<times> u8 \<times> u8"

record RuleEvaluationResult_t =
  rr_rule_id :: u16
  rr_triggered :: bool
  rr_action_type :: u8
  rr_actuator_id :: u8
  rr_actuator_state :: u8

record SensorReading_t =
  sr_node_id :: u8
  sr_metric_id :: u8
  sr_value :: f32
  sr_timestamp_ms :: u64

text \<open>
  The functions of a domain profile over the profile's state \<open>'p\<close>.  \<open>getRuleTable\<close> returns the
  entries up to the count, or \<open>None\<close> for a null pointer.
\<close>

record 'p DomainProfileVTable_t =
  getRuleTable :: "'p \<Rightarrow> RuleEntry_t list option"
  validateSensorReading :: "'p \<Rightarrow> SensorReading_t option \<Rightarrow> bool"
  getFailSafeMode :: "'p \<Rightarrow> u8 \<Rightarrow> bool \<Rightarrow> u8"
  executeAction :: "'p \<Rightarrow> u8 \<Rightarrow> u8 \<Rightarrow> bool \<times> 'p"

record rule_engine = rule_g_initialised :: bool

section \<open>Operations\<close>

definition rule_engine_init :: "rule_engine \<Rightarrow> bool \<times> rule_engine" where
  "rule_engine_init g = (True, g\<lparr>rule_g_initialised := True\<rparr>)"

text \<open>The loop: \<open>results\<close> holds the entries written so far, so its length is \<open>triggered_count\<close>.\<close>

fun evaluate_loop ::
  "RuleEntry_t list \<Rightarrow> SensorReading_t \<Rightarrow> nat \<Rightarrow> RuleEvaluationResult_t list \<Rightarrow> RuleEvaluationResult_t list"
where
  "evaluate_loop [] reading max_results results = results"
| "evaluate_loop (rule # rules) reading max_results results =
    (if \<not> length results < max_results then results
     else if re_metric_id rule \<noteq> sr_metric_id reading
       then evaluate_loop rules reading max_results results
     else
       let triggered = (if re_comparison_type rule = RULE_COMPARE_BELOW
                        then f32_lt (sr_value reading) (re_threshold rule)
                        else f32_le (re_threshold rule) (sr_value reading))
       in if triggered then
            evaluate_loop rules reading max_results
              (results @ [\<lparr>rr_rule_id = re_rule_id rule, rr_triggered = True,
                 rr_action_type = re_action_type rule, rr_actuator_id = re_actuator_id rule,
                 rr_actuator_state =
                   (if f32_le (re_threshold rule) (sr_value reading) then ACTUATOR_STATE_ON
                    else ACTUATOR_STATE_OFF)\<rparr>])
          else evaluate_loop rules reading max_results results)"

definition rule_engine_evaluate ::
  "rule_engine \<Rightarrow> 'p \<Rightarrow> 'p DomainProfileVTable_t option \<Rightarrow> SensorReading_t option \<Rightarrow> u8 \<Rightarrow>
   u8 \<times> RuleEvaluationResult_t list"
where
  "rule_engine_evaluate g p vtable reading max_results =
    (case (vtable, reading) of
       (Some vt, Some r) \<Rightarrow>
         if max_results = 0 then (0, [])
         else if \<not> rule_g_initialised g then (0, [])
         else (case getRuleTable vt p of
            None \<Rightarrow> (0, [])
          | Some rules \<Rightarrow>
              if rules = [] then (0, [])
              else let results = evaluate_loop rules r (unat max_results) []
                   in (word_of_nat (length results), results))
     | _ \<Rightarrow> (0, []))"

definition rule_engine_find_rule ::
  "rule_engine \<Rightarrow> 'p \<Rightarrow> 'p DomainProfileVTable_t option \<Rightarrow> u16 \<Rightarrow> RuleEntry_t option"
where
  "rule_engine_find_rule g p vtable rule_id =
    (case vtable of
       None \<Rightarrow> None
     | Some vt \<Rightarrow>
         if \<not> rule_g_initialised g then None
         else (case getRuleTable vt p of
            None \<Rightarrow> None
          | Some rules \<Rightarrow> find (\<lambda>r. re_rule_id r = rule_id) rules))"

definition rule_is_safety_locked :: "RuleEntry_t option \<Rightarrow> bool" where
  "rule_is_safety_locked rule =
    (case rule of None \<Rightarrow> False | Some r \<Rightarrow> re_rule_class r = RULE_CLASS_SAFETY_LOCKED)"

section \<open>The reference evaluation\<close>

definition rule_triggers :: "SensorReading_t \<Rightarrow> RuleEntry_t \<Rightarrow> bool" where
  "rule_triggers reading rule \<longleftrightarrow>
     re_metric_id rule = sr_metric_id reading \<and>
     (if re_comparison_type rule = RULE_COMPARE_BELOW
      then f32_lt (sr_value reading) (re_threshold rule)
      else f32_le (re_threshold rule) (sr_value reading))"

definition rule_result :: "RuleEntry_t \<Rightarrow> RuleEvaluationResult_t" where
  "rule_result rule = \<lparr>rr_rule_id = re_rule_id rule, rr_triggered = True,
     rr_action_type = re_action_type rule, rr_actuator_id = re_actuator_id rule,
     rr_actuator_state = (if re_comparison_type rule = RULE_COMPARE_BELOW then ACTUATOR_STATE_OFF
                          else ACTUATOR_STATE_ON)\<rparr>"

lemma evaluate_loop_full [simp]:
  "max_results \<le> length results \<Longrightarrow> evaluate_loop rules reading max_results results = results"
  by (cases rules) auto

lemma evaluate_loop_eq:
  "length results \<le> max_results \<Longrightarrow>
   evaluate_loop rules reading max_results results =
     results @ take (max_results - length results) (map rule_result (filter (rule_triggers reading) rules))"
proof (induction rules arbitrary: results)
  case (Cons rule rules)
  show ?case
  proof (cases "length results < max_results")
    case True
    then have "max_results - length results = Suc (max_results - Suc (length results))" by simp
    with True show ?thesis
      using Cons.IH[of results] Cons.IH[of "results @ [_]"]
      by (auto simp: rule_triggers_def rule_result_def Let_def dest: f32_lt_not_le)
  qed (use Cons.prems in simp)
qed simp

lemma rule_triggers_nan: "f32_is_nan (sr_value reading) \<Longrightarrow> \<not> rule_triggers reading rule"
  by (simp add: rule_triggers_def)

lemma rule_result_sel [simp]:
  "rr_rule_id (rule_result r) = re_rule_id r"
  "rr_action_type (rule_result r) = re_action_type r"
  "rr_actuator_id (rule_result r) = re_actuator_id r"
  "rr_actuator_state (rule_result r) =
     (if re_comparison_type r = RULE_COMPARE_BELOW then ACTUATOR_STATE_OFF else ACTUATOR_STATE_ON)"
  by (simp_all add: rule_result_def)

lemma evaluate_results:
  assumes "rule_g_initialised g" and "getRuleTable vt p = Some rules" and "0 < max_results"
  shows "snd (rule_engine_evaluate g p (Some vt) (Some r) max_results) =
           take (unat max_results) (map rule_result (filter (rule_triggers r) rules))"
  using assms by (auto simp: rule_engine_evaluate_def evaluate_loop_eq Let_def)

section \<open>Properties\<close>

text \<open>
  C6.  The evaluation loop of an initialised engine agrees with the loop-free reference: it
  returns, in table order, the result records of the rules that match the metric and whose
  comparison holds, cut at the caller's array size, and the returned count is the number of
  records written.
\<close>

theorem evaluate_eq_reference:
  assumes "rule_g_initialised g" and "getRuleTable vt p = Some rules" and "0 < max_results"
  shows "rule_engine_evaluate g p (Some vt) (Some r) max_results =
    (let rs = take (unat max_results) (map rule_result (filter (rule_triggers r) rules))
     in (word_of_nat (length rs), rs))
   \<and> unat (fst (rule_engine_evaluate g p (Some vt) (Some r) max_results)) \<le> unat max_results"
proof -
  let ?rs = "take (unat max_results) (map rule_result (filter (rule_triggers r) rules))"
  have eq: "rule_engine_evaluate g p (Some vt) (Some r) max_results = (word_of_nat (length ?rs), ?rs)"
    using assms by (auto simp: rule_engine_evaluate_def evaluate_loop_eq Let_def)
  have "unat (word_of_nat (length ?rs) :: u8) \<le> unat max_results"
    by (metis le_unat_uoi length_take min.cobounded2)
  with eq show ?thesis by (simp add: Let_def)
qed

definition demo_rule :: "u16 \<Rightarrow> f32 \<Rightarrow> u8 \<Rightarrow> u8 \<Rightarrow> RuleEntry_t" where
  "demo_rule i t a c = \<lparr>re_rule_id = i, re_priority = 0, re_threshold = t,
     re_action_type = RULE_ACTION_SET_ACTUATOR, re_actuator_id = a, re_metric_id = 1,
     re_rule_class = RULE_CLASS_SAFETY_LOCKED, re_interlock_id = 0, re_comparison_type = c,
     re_reserved = (0, 0, 0)\<rparr>"

definition demo_vtable :: "RuleEntry_t list DomainProfileVTable_t" where
  "demo_vtable = \<lparr>getRuleTable = Some, validateSensorReading = (\<lambda>_ r. r \<noteq> None),
     getFailSafeMode = (\<lambda>_ _ _. ACTUATOR_STATE_SAFE), executeAction = (\<lambda>p _ _. (True, p))\<rparr>"

definition demo_reading :: "f32 \<Rightarrow> SensorReading_t" where
  "demo_reading v = \<lparr>sr_node_id = 1, sr_metric_id = 1, sr_value = v, sr_timestamp_ms = 0\<rparr>"

lemmas demo_defs = demo_rule_def demo_vtable_def demo_reading_def

theorem evaluate_eq_reference_witness:
  "rule_engine_evaluate \<lparr>rule_g_initialised = True\<rparr>
      [demo_rule 7 0x40800000 1 0, demo_rule 8 0x40800000 1 1] (Some demo_vtable)
      (Some (demo_reading 0x40A00000)) 4
   = (1, [rule_result (demo_rule 7 0x40800000 1 0)])"
  using evaluate_eq_reference[of "\<lparr>rule_g_initialised = True\<rparr>" demo_vtable
      "[demo_rule 7 0x40800000 1 0, demo_rule 8 0x40800000 1 1]"
      "[demo_rule 7 0x40800000 1 0, demo_rule 8 0x40800000 1 1]" 4 "demo_reading 0x40A00000"]
  by (simp add: demo_defs rule_triggers_def rule_consts f32_cmp_defs Let_def rule_result_def)

text \<open>
  A rule that fires in an evaluation whose output array is large enough is never lost: its
  identifier, action and actuator appear in the results, and nothing appears that did not fire.
\<close>

theorem evaluate_complete:
  assumes "rule_g_initialised g" and "getRuleTable vt p = Some rules"
    and "length rules \<le> unat max_results" and "0 < max_results"
  shows "set (snd (rule_engine_evaluate g p (Some vt) (Some r) max_results)) =
           rule_result ` {rule \<in> set rules. rule_triggers r rule}"
proof -
  have "length (map rule_result (filter (rule_triggers r) rules)) \<le> unat max_results"
    using le_trans[OF length_filter_le assms(3)] by simp
  then show ?thesis
    unfolding evaluate_results[OF assms(1,2,4)] by simp
qed

theorem evaluate_complete_witness:
  "set (snd (rule_engine_evaluate \<lparr>rule_g_initialised = True\<rparr> [demo_rule 7 0x40800000 1 1]
      (Some demo_vtable) (Some (demo_reading 0x3F800000)) 8))
   = {rule_result (demo_rule 7 0x40800000 1 1)}"
proof -
  have "{rule \<in> set [demo_rule 7 0x40800000 1 1]. rule_triggers (demo_reading 0x3F800000) rule}
      = {demo_rule 7 0x40800000 1 1}"
    by (auto simp: demo_defs rule_triggers_def rule_consts f32_cmp_defs)
  with evaluate_complete[of "\<lparr>rule_g_initialised = True\<rparr>" demo_vtable "[demo_rule 7 0x40800000 1 1]"
      "[demo_rule 7 0x40800000 1 1]" 8 "demo_reading 0x3F800000"]
  show ?thesis by (simp add: demo_vtable_def)
qed

text \<open>
  The commanded state is a function of the comparison direction alone: a rule that fired
  because the value is at or above its threshold commands ON, a rule that fired because the value
  is below commands OFF, whatever the actuator does when it is on.
\<close>

theorem commanded_state_by_direction:
  assumes "res \<in> set (snd (rule_engine_evaluate g p (Some vt) (Some r) max_results))"
    and "getRuleTable vt p = Some rules"
  shows "\<exists>rule \<in> set rules. rule_triggers r rule \<and> rr_rule_id res = re_rule_id rule \<and>
           rr_actuator_id res = re_actuator_id rule \<and>
           rr_actuator_state res = (if re_comparison_type rule = RULE_COMPARE_BELOW
                                    then ACTUATOR_STATE_OFF else ACTUATOR_STATE_ON)"
proof -
  from assms have "rule_g_initialised g" "max_results \<noteq> 0"
    by (auto simp: rule_engine_evaluate_def split: if_splits)
  with assms evaluate_results[of g vt p rules max_results r]
  have "res \<in> set (map rule_result (filter (rule_triggers r) rules))"
    by (auto simp: word_neq_0_conv dest: in_set_takeD)
  then show ?thesis by auto
qed

theorem commanded_state_by_direction_witness:
  "\<exists>rule \<in> set [demo_rule 7 0x40800000 1 1].
     rr_actuator_state (rule_result (demo_rule 7 0x40800000 1 1)) =
       (if re_comparison_type rule = RULE_COMPARE_BELOW then ACTUATOR_STATE_OFF else ACTUATOR_STATE_ON)"
proof -
  have "rule_result (demo_rule 7 0x40800000 1 1) \<in> set (snd (rule_engine_evaluate
      \<lparr>rule_g_initialised = True\<rparr> [demo_rule 7 0x40800000 1 1] (Some demo_vtable)
      (Some (demo_reading 0x3F800000)) 8))"
    by (simp add: demo_defs rule_engine_evaluate_def rule_consts f32_cmp_defs rule_result_def)
  from commanded_state_by_direction[OF this, of "[demo_rule 7 0x40800000 1 1]"]
  show ?thesis by (auto simp: demo_vtable_def)
qed

text \<open>
  A NaN reading fires no rule of any profile, neither an upper nor a lower limit: all
  comparisons with it are false.
\<close>

theorem nan_fires_nothing:
  assumes "f32_is_nan (sr_value r)"
  shows "rule_engine_evaluate g p vtable (Some r) max_results = (0, [])"
  using assms
  by (auto simp: rule_engine_evaluate_def evaluate_loop_eq rule_triggers_nan Let_def
      split: option.splits)

theorem nan_fires_nothing_witness:
  "rule_engine_evaluate \<lparr>rule_g_initialised = True\<rparr> [demo_rule 7 0x40800000 1 0, demo_rule 8 0x40800000 1 1]
     (Some demo_vtable) (Some (demo_reading 0x7FC00000)) 8 = (0, [])"
  by (rule nan_fires_nothing) (simp add: demo_reading_def f32_is_nan_def f32_mag_def)

end
