(* ===== verification/Sensor_Validation.thy ===== *)
theory Sensor_Validation
  imports Rule_Engine
begin

text \<open>
  The plausibility gate in front of the rule engine (\<open>firmware/shared/sensor_validation.{h,c}\<close>):
  the bounds of a metric, the rolling history of a sensor, the validation function with its three
  checks in the order of the code, and the history update.  The history is a ring of
  \<open>SENSOR_HISTORY_SIZE\<close> slots; it refines a log that keeps the last readings.
\<close>

section \<open>Data\<close>

definition SENSOR_HISTORY_SIZE :: nat where "SENSOR_HISTORY_SIZE = 16"
definition SENSOR_MAX_METRICS :: nat where "SENSOR_MAX_METRICS = 16"

record SensorValidationBounds_t =
  vb_min_physical :: f32
  vb_max_physical :: f32
  vb_max_rate_of_change :: f32
  vb_stuck_timeout_sec :: u16
  vb_cross_check_node_id :: u8

datatype SensorValidationResult_t =
  SENSOR_VALID | SENSOR_OUT_OF_PHYSICAL_RANGE | SENSOR_RATE_EXCEEDED | SENSOR_STUCK
| SENSOR_CROSS_CHECK_MISMATCH

record SensorHistory_t =
  sh_node_id :: u8
  sh_metric_id :: u8
  sh_values :: "f32 list"
  sh_timestamps_ms :: "u64 list"
  sh_write_index :: nat
  sh_count :: nat
  sh_last_value :: f32
  sh_last_change_ms :: u64
  sh_initialised :: bool

record sensor_validation = sv_g_initialised :: bool

section \<open>Operations\<close>

definition sensor_validation_init :: "sensor_validation \<Rightarrow> bool \<times> sensor_validation" where
  "sensor_validation_init g = (True, g\<lparr>sv_g_initialised := True\<rparr>)"

text \<open>\<open>memset(history, 0, sizeof(SensorHistory_t))\<close>.\<close>

definition sensor_history_zero :: SensorHistory_t where
  "sensor_history_zero = \<lparr>sh_node_id = 0, sh_metric_id = 0,
     sh_values = replicate SENSOR_HISTORY_SIZE 0, sh_timestamps_ms = replicate SENSOR_HISTORY_SIZE 0,
     sh_write_index = 0, sh_count = 0, sh_last_value = 0, sh_last_change_ms = 0,
     sh_initialised = False\<rparr>"

definition latest_idx :: "SensorHistory_t \<Rightarrow> nat" where
  "latest_idx h = (if SENSOR_HISTORY_SIZE \<le> sh_count h then sh_write_index h else sh_count h - 1)"

text \<open>Check 2; \<open>0x447A0000\<close> is \<open>1000.0f\<close>.\<close>

definition rate_exceeded :: "SensorValidationBounds_t \<Rightarrow> SensorHistory_t \<Rightarrow> f32 \<Rightarrow> u64 \<Rightarrow> bool" where
  "rate_exceeded bounds h new_value current_ms =
    (if f32_lt 0 (vb_max_rate_of_change bounds) \<and> sh_count h > 0 then
       let prev_value = sh_values h ! latest_idx h;
           prev_ts = sh_timestamps_ms h ! latest_idx h
       in if current_ms > prev_ts \<and> prev_ts > 0 then
            let dt_sec = f32_div (f32_of_int (uint (current_ms - prev_ts))) 0x447A0000
            in if f32_lt 0 dt_sec then
                 let delta = f32_sub new_value prev_value;
                     delta = (if f32_lt delta 0 then f32_neg delta else delta);
                     rate = f32_div delta dt_sec
                 in f32_lt (vb_max_rate_of_change bounds) rate
               else False
          else False
     else False)"

text \<open>Check 3.\<close>

definition stuck :: "SensorValidationBounds_t \<Rightarrow> SensorHistory_t \<Rightarrow> f32 \<Rightarrow> u64 \<Rightarrow> bool" where
  "stuck bounds h new_value current_ms =
    (if vb_stuck_timeout_sec bounds > 0 \<and> sh_count h > 0 then
       if f32_eq new_value (sh_last_value h) then
         if sh_last_change_ms h > 0 \<and> current_ms > sh_last_change_ms h then
           let stuck_ms = current_ms - sh_last_change_ms h;
               timeout_ms = (ucast (vb_stuck_timeout_sec bounds) :: u64) * 1000
           in stuck_ms > timeout_ms
         else False
       else False
     else False)"

definition sensorValidate ::
  "sensor_validation \<Rightarrow> u8 \<Rightarrow> u8 \<Rightarrow> f32 \<Rightarrow> SensorValidationBounds_t option \<Rightarrow>
   SensorHistory_t option \<Rightarrow> u64 \<Rightarrow> SensorValidationResult_t"
where
  "sensorValidate g node_id metric_id new_value bounds history current_ms =
    (case (bounds, history) of
       (Some b, Some h) \<Rightarrow>
         if \<not> sv_g_initialised g then SENSOR_OUT_OF_PHYSICAL_RANGE
         else if f32_lt new_value (vb_min_physical b) \<or> f32_lt (vb_max_physical b) new_value
           then SENSOR_OUT_OF_PHYSICAL_RANGE
         else if \<not> sh_initialised h \<or> sh_count h < 1 then SENSOR_VALID
         else if rate_exceeded b h new_value current_ms then SENSOR_RATE_EXCEEDED
         else if stuck b h new_value current_ms then SENSOR_STUCK
         else SENSOR_VALID
     | _ \<Rightarrow> SENSOR_OUT_OF_PHYSICAL_RANGE)"

definition sensor_history_record ::
  "SensorHistory_t \<Rightarrow> u8 \<Rightarrow> u8 \<Rightarrow> f32 \<Rightarrow> u64 \<Rightarrow> SensorHistory_t"
where
  "sensor_history_record history node_id metric_id val timestamp_ms =
    (let h = (if sh_initialised history then history
              else sensor_history_zero\<lparr>sh_node_id := node_id, sh_metric_id := metric_id,
                     sh_initialised := True\<rparr>);
         h = (if \<not> f32_eq val (sh_last_value h) then h\<lparr>sh_last_change_ms := timestamp_ms\<rparr> else h);
         h = h\<lparr>sh_last_value := val\<rparr>;
         h = h\<lparr>sh_values := (sh_values h)[sh_write_index h := val],
               sh_timestamps_ms := (sh_timestamps_ms h)[sh_write_index h := timestamp_ms]\<rparr>;
         h = h\<lparr>sh_write_index := (sh_write_index h + 1) mod SENSOR_HISTORY_SIZE\<rparr>
     in if sh_count h < SENSOR_HISTORY_SIZE then h\<lparr>sh_count := sh_count h + 1\<rparr> else h)"

definition sensor_history_reset :: "SensorHistory_t option \<Rightarrow> SensorHistory_t option" where
  "sensor_history_reset history = map_option (\<lambda>_. sensor_history_zero) history"

section \<open>The history as a log\<close>

text \<open>
  Shape of a live history: the ring starts at slot 0, so the count is the write position until it
  is full.  \<open>history_entries\<close> lists the stored readings, oldest first.
\<close>

definition history_ok :: "SensorHistory_t \<Rightarrow> bool" where
  "history_ok h \<longleftrightarrow> sh_initialised h \<and> length (sh_values h) = SENSOR_HISTORY_SIZE
     \<and> length (sh_timestamps_ms h) = SENSOR_HISTORY_SIZE \<and> sh_count h \<le> SENSOR_HISTORY_SIZE
     \<and> sh_write_index h < SENSOR_HISTORY_SIZE
     \<and> (sh_count h < SENSOR_HISTORY_SIZE \<longrightarrow> sh_write_index h = sh_count h)"

definition history_entries :: "SensorHistory_t \<Rightarrow> (f32 \<times> u64) list" where
  "history_entries h =
    (let xs = zip (sh_values h) (sh_timestamps_ms h)
     in if sh_count h < SENSOR_HISTORY_SIZE then take (sh_count h) xs
        else drop (sh_write_index h) xs @ take (sh_write_index h) xs)"

definition record_reading :: "SensorHistory_t \<Rightarrow> f32 \<times> u64 \<Rightarrow> SensorHistory_t" where
  "record_reading h vt = sensor_history_record h (sh_node_id h) (sh_metric_id h) (fst vt) (snd vt)"

lemma history_ok_record: "history_ok h \<Longrightarrow> history_ok (record_reading h vt)"
  by (auto simp: history_ok_def record_reading_def sensor_history_record_def Let_def
      SENSOR_HISTORY_SIZE_def mod_Suc)

lemma history_entries_record:
  assumes "history_ok h"
  shows "history_entries (record_reading h vt) = last_n SENSOR_HISTORY_SIZE (history_entries h @ [vt])"
proof -
  let ?n = SENSOR_HISTORY_SIZE and ?w = "sh_write_index h"
  let ?xs = "zip (sh_values h) (sh_timestamps_ms h)"
  have len: "length ?xs = ?n" and w: "?w < ?n" using assms by (auto simp: history_ok_def)
  have upd: "zip (vs[i := fst vt]) (ts[i := snd vt]) = (zip vs ts)[i := vt]" for vs ts i
    by (simp add: update_zip)
  show ?thesis
  proof (cases "sh_count h < ?n")
    case less: True
    then have cw: "?w = sh_count h" using assms by (simp add: history_ok_def)
    have rhs: "last_n ?n (history_entries h @ [vt]) = take (sh_count h) ?xs @ [vt]"
      using less len by (simp add: history_entries_def)
    have t: "take (Suc ?w) (?xs[?w := vt]) = take ?w ?xs @ [vt]"
      using w len by (intro take_Suc_update) simp
    have l: "length (?xs[?w := vt]) = ?n" using len by simp
    show ?thesis
    proof (cases "Suc (sh_count h) < ?n")
      case True
      then show ?thesis unfolding rhs using less cw t assms
        by (simp add: history_entries_def record_reading_def sensor_history_record_def Let_def
            history_ok_def upd)
    next
      case False
      then have "Suc ?w = ?n" using less cw by simp
      then have "take (Suc ?w) (?xs[?w := vt]) = ?xs[?w := vt]" using l by simp
      then show ?thesis unfolding rhs using less cw t assms \<open>Suc ?w = ?n\<close>
        by (simp add: history_entries_def record_reading_def sensor_history_record_def Let_def
            history_ok_def upd)
    qed
  next
    case full: False
    have "history_entries (record_reading h vt) = drop (Suc ?w) ?xs @ take ?w ?xs @ [vt]"
      using full assms ring_shift[OF w len, of vt]
      by (simp add: history_entries_def record_reading_def sensor_history_record_def Let_def
          history_ok_def upd)
    moreover have "history_entries h = drop ?w ?xs @ take ?w ?xs"
      using full by (simp only: history_entries_def Let_def if_False)
    moreover have "last_n ?n ((drop ?w ?xs @ take ?w ?xs) @ [vt]) = drop 1 ((drop ?w ?xs @ take ?w ?xs) @ [vt])"
      using w len by (simp only: last_n_def length_append length_drop length_take) simp
    ultimately show ?thesis using ring_drop_oldest[of ?w ?xs vt] w len by (simp only:)
  qed
qed

interpretation sensor_log: ring_log record_reading history_entries SENSOR_HISTORY_SIZE history_ok
  by unfold_locales (auto intro: history_ok_record simp: history_entries_record)

lemma history_entry_at:
  "history_ok h \<Longrightarrow> i < SENSOR_HISTORY_SIZE \<Longrightarrow>
    (sh_values h ! i, sh_timestamps_ms h ! i) = zip (sh_values h) (sh_timestamps_ms h) ! i"
  by (simp add: history_ok_def)

lemma history_ok_fresh: "history_ok (sensor_history_zero\<lparr>sh_initialised := True\<rparr>)"
  by (simp add: history_ok_def sensor_history_zero_def SENSOR_HISTORY_SIZE_def)

lemma f32_sub_nan: "f32_is_nan x \<Longrightarrow> f32_is_nan (f32_sub x y)"
  by (simp add: f32_sub_def f32_add_def f32_nan_def f32_is_nan_def f32_mag_def)

lemma f32_div_nan: "f32_is_nan x \<Longrightarrow> f32_is_nan (f32_div x y)"
  by (simp add: f32_div_def f32_nan_def f32_is_nan_def f32_mag_def)

section \<open>Properties\<close>

text \<open>
  A reading that is a number passes the gate only when it lies in the physical range of the
  bounds; outside the range the answer is \<open>SENSOR_OUT_OF_PHYSICAL_RANGE\<close> whatever the history
  holds, and a missing pointer or an uninitialised module gives that answer too.
\<close>

theorem gate_physical_range:
  assumes "\<not> f32_is_nan v" and "\<not> f32_is_nan (vb_min_physical b)" and "\<not> f32_is_nan (vb_max_physical b)"
  shows "(sensorValidate g n m v (Some b) (Some h) t = SENSOR_OUT_OF_PHYSICAL_RANGE) =
           (\<not> sv_g_initialised g \<or> \<not> (f32_le (vb_min_physical b) v \<and> f32_le v (vb_max_physical b)))
         \<and> sensorValidate g n m v None hist t = SENSOR_OUT_OF_PHYSICAL_RANGE
         \<and> sensorValidate g n m v bo None t = SENSOR_OUT_OF_PHYSICAL_RANGE"
  using assms f32_not_lt[of v "vb_min_physical b"] f32_not_lt[of "vb_max_physical b" v]
  by (auto simp: sensorValidate_def split: option.splits)

definition demo_bounds :: SensorValidationBounds_t where
  "demo_bounds = \<lparr>vb_min_physical = 0, vb_max_physical = 0x41600000, vb_max_rate_of_change = 0x3F000000,
     vb_stuck_timeout_sec = 60, vb_cross_check_node_id = 0\<rparr>"

theorem gate_physical_range_witness:
  "sensorValidate \<lparr>sv_g_initialised = True\<rparr> 1 1 0x41700000 (Some demo_bounds)
     (Some sensor_history_zero) 5 = SENSOR_OUT_OF_PHYSICAL_RANGE"
  using gate_physical_range[where v = "0x41700000" and b = demo_bounds
      and g = "\<lparr>sv_g_initialised = True\<rparr>" and n = 1 and m = 1 and h = sensor_history_zero and t = 5]
  by (simp add: demo_bounds_def f32_cmp_defs)

text \<open>
  The history keeps exactly the last sixteen recorded readings, in order, however many were
  recorded since the sensor was first seen.
\<close>

theorem history_keeps_last_readings:
  "history_entries (foldl record_reading (sensor_history_zero\<lparr>sh_initialised := True\<rparr>) rs)
     = last_n SENSOR_HISTORY_SIZE rs"
  using sensor_log.contents_push_all[OF history_ok_fresh, of rs]
  by (simp add: history_entries_def sensor_history_zero_def SENSOR_HISTORY_SIZE_def)

text \<open>
  The reading the rate check compares with: while the ring is filling it is the most recent
  one; once sixteen readings are stored it is the oldest one, although the code calls it the most
  recent entry.
\<close>

theorem rate_check_reference_entry:
  assumes "history_ok h" and "0 < sh_count h"
  shows "(sh_values h ! latest_idx h, sh_timestamps_ms h ! latest_idx h) =
           (if sh_count h < SENSOR_HISTORY_SIZE then last (history_entries h) else hd (history_entries h))"
proof -
  let ?xs = "zip (sh_values h) (sh_timestamps_ms h)"
  have len: "length ?xs = SENSOR_HISTORY_SIZE" and w: "sh_write_index h < SENSOR_HISTORY_SIZE"
    using assms(1) by (auto simp: history_ok_def)
  have "latest_idx h < SENSOR_HISTORY_SIZE"
    using assms w by (auto simp: latest_idx_def history_ok_def)
  then have "(sh_values h ! latest_idx h, sh_timestamps_ms h ! latest_idx h) = ?xs ! latest_idx h"
    by (rule history_entry_at[OF assms(1)])
  also have "\<dots> = (if sh_count h < SENSOR_HISTORY_SIZE then last (history_entries h)
                   else hd (history_entries h))"
  proof (cases "sh_count h < SENSOR_HISTORY_SIZE")
    case True
    then have "take (sh_count h) ?xs \<noteq> []" and "length (take (sh_count h) ?xs) = sh_count h"
      using assms(2) len by auto
    then show ?thesis using True assms(2)
      by (simp add: latest_idx_def history_entries_def last_conv_nth)
  next
    case False
    then show ?thesis using hd_ring[of "sh_write_index h" ?xs] w len
      by (simp only: latest_idx_def history_entries_def Let_def if_False not_less[symmetric] simp_thms if_True)
  qed
  finally show ?thesis .
qed

theorem rate_check_reference_entry_witness:
  "let h = \<lparr>sh_node_id = 1, sh_metric_id = 1, sh_values = 17 # map word_of_nat [2..<17],
         sh_timestamps_ms = 17 # map word_of_nat [2..<17], sh_write_index = 1, sh_count = 16,
         sh_last_value = 17, sh_last_change_ms = 17, sh_initialised = True\<rparr>
   in (sh_values h ! latest_idx h, sh_timestamps_ms h ! latest_idx h) = (2, 2)
      \<and> hd (history_entries h) = (2, 2) \<and> last (history_entries h) = (17, 17)"
proof -
  let ?h = "\<lparr>sh_node_id = 1, sh_metric_id = 1, sh_values = 17 # map word_of_nat [2..<17],
         sh_timestamps_ms = 17 # map word_of_nat [2..<17], sh_write_index = 1, sh_count = 16,
         sh_last_value = 17, sh_last_change_ms = 17, sh_initialised = True\<rparr>"
  have ok: "history_ok ?h" "0 < sh_count ?h" by (simp_all add: history_ok_def SENSOR_HISTORY_SIZE_def)
  have ent: "hd (history_entries ?h) = (2, 2)" "last (history_entries ?h) = (17, 17)"
    by (simp_all add: history_entries_def SENSOR_HISTORY_SIZE_def Let_def upt_rec)
  from rate_check_reference_entry[OF ok] ent show ?thesis
    by (simp add: Let_def SENSOR_HISTORY_SIZE_def)
qed

text \<open>
  NaN passes the gate: with an initialised module, any bounds and any history, a NaN reading
  is answered \<open>SENSOR_VALID\<close>, because every check of the gate is a comparison with it.
\<close>

theorem nan_passes_gate:
  assumes "f32_is_nan v" and "sv_g_initialised g"
  shows "sensorValidate g n m v (Some b) (Some h) t = SENSOR_VALID"
proof -
  have "\<not> rate_exceeded b h v t"
    using f32_div_nan[OF f32_sub_nan[OF assms(1)]] f32_sub_nan[OF assms(1)]
    by (simp add: rate_exceeded_def Let_def)
  moreover have "\<not> stuck b h v t" using assms(1) by (simp add: stuck_def)
  ultimately show ?thesis using assms by (simp add: sensorValidate_def)
qed

theorem nan_passes_gate_witness:
  "sensorValidate \<lparr>sv_g_initialised = True\<rparr> 1 1 0x7FC00000 (Some demo_bounds)
     (Some sensor_history_zero) 5 = SENSOR_VALID"
  by (rule nan_passes_gate) (simp_all add: f32_is_nan_def f32_mag_def)

text \<open>
  Stuck detection: when the value repeats the last recorded one for longer than the
  configured timeout, an in-range reading that the rate check lets through is answered
  \<open>SENSOR_STUCK\<close>; the timeout product cannot overflow.
\<close>

theorem stuck_detected:
  assumes "sv_g_initialised g" and "sh_initialised h" and "0 < sh_count h"
    and "\<not> f32_lt v (vb_min_physical b)" and "\<not> f32_lt (vb_max_physical b) v"
    and "\<not> rate_exceeded b h v t" and "0 < vb_stuck_timeout_sec b"
    and "f32_eq v (sh_last_value h)" and "0 < sh_last_change_ms h"
  shows "sensorValidate g n m v (Some b) (Some h) t =
    (if unat (sh_last_change_ms h) + unat (vb_stuck_timeout_sec b) * 1000 < unat t
     then SENSOR_STUCK else SENSOR_VALID)"
proof -
  let ?to = "(ucast (vb_stuck_timeout_sec b) :: u64) * 1000"
  have "unat (ucast (vb_stuck_timeout_sec b) :: u64) = unat (vb_stuck_timeout_sec b)"
    by (rule unat_ucast_up) simp
  moreover have "unat (vb_stuck_timeout_sec b) < 65536"
    using unsigned_less[of "vb_stuck_timeout_sec b"] by simp
  ultimately have to: "unat ?to = unat (vb_stuck_timeout_sec b) * 1000"
    by (subst unat_mult_lem[THEN iffD1]) simp_all
  have "stuck b h v t \<longleftrightarrow> sh_last_change_ms h < t \<and> ?to < t - sh_last_change_ms h"
    using assms by (simp add: stuck_def Let_def)
  also have "\<dots> \<longleftrightarrow> unat (sh_last_change_ms h) + unat (vb_stuck_timeout_sec b) * 1000 < unat t"
    by (auto simp: word_less_nat_alt unat_sub_if' to split: if_splits)
  finally show ?thesis using assms by (simp add: sensorValidate_def)
qed

theorem stuck_detected_witness:
  "sensorValidate \<lparr>sv_g_initialised = True\<rparr> 1 1 0x40000000 (Some demo_bounds)
     (Some (sensor_history_zero\<lparr>sh_initialised := True, sh_count := 1, sh_write_index := 1,
        sh_last_value := 0x40000000, sh_last_change_ms := 1\<rparr>)) 60002 = SENSOR_STUCK"
  using stuck_detected[where g = "\<lparr>sv_g_initialised = True\<rparr>" and v = "0x40000000" and b = demo_bounds and t = 60002
      and h = "sensor_history_zero\<lparr>sh_initialised := True, sh_count := 1, sh_write_index := 1,
        sh_last_value := 0x40000000, sh_last_change_ms := 1\<rparr>"]
  by (simp add: demo_bounds_def f32_cmp_defs rate_exceeded_def latest_idx_def sensor_history_zero_def
      SENSOR_HISTORY_SIZE_def)

end
