(* ===== verification/Ingestion_Handler.thy ===== *)
theory Ingestion_Handler
  imports Gateway Historian Rule_Engine Sensor_Validation "HOL-Library.Sublist"
begin

text \<open>
  The hub's ingestion handler (\<open>firmware/hub/ingestion_handler.{h,c}\<close>): polling the radio, verifying and
  decoding a frame, and for each entry the two validation gates, the historian and the rule engine.
  The state record gathers everything a poll reads or changes: the handler's own globals, the modules
  it calls, the trackers and history buffers behind the pointers of its configuration, the state
  \<open>'p\<close> of the domain profile, and the radio with a state \<open>'r\<close> of its own.  A history pointer is the number
  of the buffer.
\<close>

section \<open>Data\<close>

definition INGESTION_HANDLER_MAX_ENTRIES :: u8 where "INGESTION_HANDLER_MAX_ENTRIES = 22"

record ('p, 'r) IngestionHandlerConfig_t =
  ic_gw_tracker :: "GatewayGatewayTracker_t option"
  ic_edge_tracker :: edge_tracker_arg
  ic_vtable :: "'p DomainProfileVTable_t option"
  ic_radio_receive :: "('r \<Rightarrow> bytes option \<times> 'r) option"
  ic_bounds_lookup :: "(u8 \<Rightarrow> SensorValidationBounds_t option) option"
  ic_history_lookup :: "(u8 \<Rightarrow> nat option) option"
  ic_domain_profile_id :: u8

record IngestionHandlerStats_t =
  is_poll_count :: u32
  is_frames_received :: u32
  is_frames_ingested :: u32
  is_frames_rejected :: u32
  is_entries_processed :: u32
  is_entries_valid :: u32
  is_entries_rejected :: u32
  is_rules_triggered :: u32

record ('p, 'r, 'st) ingestion =
  in_config :: "('p, 'r) IngestionHandlerConfig_t"
  in_stats :: IngestionHandlerStats_t
  in_initialised :: bool
  in_profile :: 'p
  in_radio :: 'r
  in_histories :: "nat \<Rightarrow> SensorHistory_t"
  in_rules :: rule_engine
  in_validation :: sensor_validation
  in_audit :: audit_env
  in_historian :: "'st historian"

definition ingestion_stats_zero :: IngestionHandlerStats_t where
  "ingestion_stats_zero = \<lparr>is_poll_count = 0, is_frames_received = 0, is_frames_ingested = 0, is_frames_rejected = 0,
     is_entries_processed = 0, is_entries_valid = 0, is_entries_rejected = 0, is_rules_triggered = 0\<rparr>"

section \<open>Operations\<close>

definition ingestion_handler_init ::
  "('p, 'r, 'st) ingestion \<Rightarrow> ('p, 'r) IngestionHandlerConfig_t option \<Rightarrow> bool \<times> ('p, 'r, 'st) ingestion"
where
  "ingestion_handler_init g config =
    (case config of
       None \<Rightarrow> (False, g)
     | Some c \<Rightarrow>
         if ic_gw_tracker c = None then (False, g)
         else if ic_edge_tracker c = Edge_Null then (False, g)
         else if ic_vtable c = None then (False, g)
         else if ic_radio_receive c = None then (False, g)
         else (True, g\<lparr>in_config := c, in_stats := ingestion_stats_zero, in_initialised := True\<rparr>))"

definition msg_vtable_rejected :: bytes where
  "msg_vtable_rejected = cstr ''Ingestion handler: vtable validation rejected entry''"
definition msg_sensor_rejected :: bytes where
  "msg_sensor_rejected = cstr ''Ingestion handler: sensorValidate rejected entry''"

definition upd_stats ::
  "(IngestionHandlerStats_t \<Rightarrow> IngestionHandlerStats_t) \<Rightarrow> ('p, 'r, 'st) ingestion \<Rightarrow> ('p, 'r, 'st) ingestion"
where
  "upd_stats f g = g\<lparr>in_stats := f (in_stats g)\<rparr>"

definition entry_reading :: "u64 \<Rightarrow> BatchFrameEntry_t \<Rightarrow> SensorReading_t" where
  "entry_reading current_ms e = \<lparr>sr_node_id = ucast (be_node_id e), sr_metric_id = be_metric_id e,
     sr_value = be_value e, sr_timestamp_ms = current_ms\<rparr>"

definition reading_record :: "u8 \<Rightarrow> SensorReading_t \<Rightarrow> HistorianRecord_t" where
  "reading_record profile_id r = \<lparr>hr_timestamp_ms = sr_timestamp_ms r, hr_value = sr_value r, hr_sequence = 0,
     hr_node_id = ucast (sr_node_id r), hr_metric_id = sr_metric_id r, hr_domain_profile_id = profile_id,
     hr_reserved = 0\<rparr>"

text \<open>Gate 2: bounds and history of the metric, when the configuration has both lookups.\<close>

definition gate2_lookup ::
  "('p, 'r) IngestionHandlerConfig_t \<Rightarrow> u8 \<Rightarrow> (SensorValidationBounds_t \<times> nat) option"
where
  "gate2_lookup c metric_id =
    (case (ic_bounds_lookup c, ic_history_lookup c) of
       (Some bl, Some hl) \<Rightarrow>
         (case bl metric_id of None \<Rightarrow> None
          | Some bounds \<Rightarrow> (case hl metric_id of None \<Rightarrow> None | Some hist \<Rightarrow> Some (bounds, hist)))
     | _ \<Rightarrow> None)"

definition reject_entry ::
  "md_hmac \<Rightarrow> ('p, 'r, 'st) ingestion \<Rightarrow> u8 \<Rightarrow> bytes \<Rightarrow> ('p, 'r, 'st) ingestion"
where
  "reject_entry md g node_id detail =
    (let g = upd_stats (\<lambda>s. s\<lparr>is_entries_rejected := is_entries_rejected s + 1\<rparr>) g
     in g\<lparr>in_audit := audit_note md (in_audit g) AUDIT_AUTH_FAILURE node_id 0 detail\<rparr>)"

text \<open>The rest of the loop body for an entry that passed both gates; \<open>vt\<close> is the vtable.\<close>

text \<open>
  The domain profiles fill every slot of their vtable; a slot without \<open>getRuleTable\<close> would trigger no rule, like a function
  that returns no table.
\<close>

definition accept_entry ::
  "ccm_enc \<Rightarrow> ccm_dec \<Rightarrow> 'p DomainProfileVTable_t \<Rightarrow> SensorReading_t \<Rightarrow> ('p, 'r, 'st) ingestion \<Rightarrow>
   u8 \<times> ('p, 'r, 'st) ingestion"
where
  "accept_entry enc dec vt reading g =
    (let g = upd_stats (\<lambda>s. s\<lparr>is_entries_valid := is_entries_valid s + 1\<rparr>) g;
         hrec = reading_record (ic_domain_profile_id (in_config g)) reading;
         g = g\<lparr>in_historian := snd (historian_write enc dec (in_historian g) (Some hrec))\<rparr>;
         triggered = fst (rule_engine_evaluate (in_rules g) (in_profile g) (Some vt) (Some reading)
                            (word_of_nat RULE_ENGINE_MAX_ACTIONS));
         g = upd_stats (\<lambda>s. s\<lparr>is_rules_triggered := is_rules_triggered s + ucast triggered\<rparr>) g
     in (triggered, g))"

definition process_entry ::
  "md_hmac \<Rightarrow> ccm_enc \<Rightarrow> ccm_dec \<Rightarrow> 'p DomainProfileVTable_t \<Rightarrow> u64 \<Rightarrow> BatchFrameEntry_t \<Rightarrow> ('p, 'r, 'st) ingestion \<Rightarrow>
   u8 \<times> ('p, 'r, 'st) ingestion"
where
  "process_entry md enc dec vt current_ms e g =
    (let g = upd_stats (\<lambda>s. s\<lparr>is_entries_processed := is_entries_processed s + 1\<rparr>) g;
         reading = entry_reading current_ms e
     in if \<not> validateSensorReading vt (in_profile g) (Some reading)
        then (0, reject_entry md g (sr_node_id reading) msg_vtable_rejected)
        else (case gate2_lookup (in_config g) (sr_metric_id reading) of
            None \<Rightarrow> accept_entry enc dec vt reading g
          | Some (bounds, hist) \<Rightarrow>
              if sensorValidate (in_validation g) (sr_node_id reading) (sr_metric_id reading) (sr_value reading)
                   (Some bounds) (Some (in_histories g hist)) current_ms \<noteq> SENSOR_VALID
              then (0, reject_entry md g (sr_node_id reading) msg_sensor_rejected)
              else accept_entry enc dec vt reading
                     (g\<lparr>in_histories := (in_histories g)(hist :=
                        sensor_history_record (in_histories g hist) (sr_node_id reading) (sr_metric_id reading)
                          (sr_value reading) current_ms)\<rparr>)))"

fun process_entries ::
  "md_hmac \<Rightarrow> ccm_enc \<Rightarrow> ccm_dec \<Rightarrow> 'p DomainProfileVTable_t \<Rightarrow> u64 \<Rightarrow> BatchFrameEntry_t list \<Rightarrow> u8 \<Rightarrow>
   ('p, 'r, 'st) ingestion \<Rightarrow> u8 \<times> ('p, 'r, 'st) ingestion"
where
  "process_entries md enc dec vt current_ms [] total_triggered g = (total_triggered, g)"
| "process_entries md enc dec vt current_ms (e # es) total_triggered g =
    (case process_entry md enc dec vt current_ms e g of
       (triggered, g) \<Rightarrow> process_entries md enc dec vt current_ms es (total_triggered + triggered) g)"

definition ingestion_handler_poll ::
  "md_hmac \<Rightarrow> ccm_enc \<Rightarrow> ccm_dec \<Rightarrow> ('p, 'r, 'st) ingestion \<Rightarrow> u64 \<Rightarrow> u8 \<times> ('p, 'r, 'st) ingestion"
where
  "ingestion_handler_poll md enc dec g current_ms =
    (if \<not> in_initialised g then (0, g)
     else
       let g = upd_stats (\<lambda>s. s\<lparr>is_poll_count := is_poll_count s + 1\<rparr>) g
       in (case (ic_radio_receive (in_config g), ic_vtable (in_config g)) of
          (Some receive, Some vt) \<Rightarrow>
            (case receive (in_radio g) of
               (None, r) \<Rightarrow> (0, g\<lparr>in_radio := r\<rparr>)
             | (Some payload, r) \<Rightarrow>
                 let g = upd_stats (\<lambda>s. s\<lparr>is_frames_received := is_frames_received s + 1\<rparr>) (g\<lparr>in_radio := r\<rparr>)
                 in (case gateway_ingest_frame md (in_audit g) (ic_gw_tracker (in_config g))
                        (ic_edge_tracker (in_config g)) (Some payload) INGESTION_HANDLER_MAX_ENTRIES of
                      (gr, res, tracker, env) \<Rightarrow>
                        let g = g\<lparr>in_config := (in_config g)\<lparr>ic_gw_tracker := tracker\<rparr>, in_audit := env\<rparr>
                        in (case (gr, res) of
                             (GW_FRAME_OK, Some (header, entries)) \<Rightarrow>
                               process_entries md enc dec vt current_ms entries 0
                                 (upd_stats (\<lambda>s. s\<lparr>is_frames_ingested := is_frames_ingested s + 1\<rparr>) g)
                           | _ \<Rightarrow> (0, upd_stats (\<lambda>s. s\<lparr>is_frames_rejected := is_frames_rejected s + 1\<rparr>) g))))
        | _ \<Rightarrow> (0, g)))"

definition ingestion_handler_get_stats :: "('p, 'r, 'st) ingestion \<Rightarrow> IngestionHandlerStats_t" where
  "ingestion_handler_get_stats g = in_stats g"

definition ingestion_handler_reset_stats :: "('p, 'r, 'st) ingestion \<Rightarrow> ('p, 'r, 'st) ingestion" where
  "ingestion_handler_reset_stats g = g\<lparr>in_stats := ingestion_stats_zero\<rparr>"

section \<open>What a batch of entries amounts to\<close>

text \<open>
  The specification of the loop: the readings that pass both gates, where the second gate sees the
  history buffers with the earlier readings of the same batch already recorded.
\<close>

fun accepted ::
  "'p DomainProfileVTable_t \<Rightarrow> 'p \<Rightarrow> ('p, 'r) IngestionHandlerConfig_t \<Rightarrow> sensor_validation \<Rightarrow> u64 \<Rightarrow>
   (nat \<Rightarrow> SensorHistory_t) \<Rightarrow> BatchFrameEntry_t list \<Rightarrow> SensorReading_t list"
where
  "accepted vt p c sv now hs [] = []"
| "accepted vt p c sv now hs (e # es) =
    (let r = entry_reading now e
     in if \<not> validateSensorReading vt p (Some r) then accepted vt p c sv now hs es
        else (case gate2_lookup c (sr_metric_id r) of
            None \<Rightarrow> r # accepted vt p c sv now hs es
          | Some (b, i) \<Rightarrow>
              if sensorValidate sv (sr_node_id r) (sr_metric_id r) (sr_value r) (Some b) (Some (hs i)) now \<noteq> SENSOR_VALID
              then accepted vt p c sv now hs es
              else r # accepted vt p c sv now
                     (hs(i := sensor_history_record (hs i) (sr_node_id r) (sr_metric_id r) (sr_value r) now)) es))"

definition fires :: "rule_engine \<Rightarrow> 'p \<Rightarrow> 'p DomainProfileVTable_t \<Rightarrow> SensorReading_t \<Rightarrow> u8" where
  "fires g p vt r = fst (rule_engine_evaluate g p (Some vt) (Some r) 8)"

lemma accept_entry_fields:
  "fst (accept_entry enc dec vt r g) = fires (in_rules g) (in_profile g) vt r"
  "in_historian (snd (accept_entry enc dec vt r g)) =
     snd (historian_write enc dec (in_historian g) (Some (reading_record (ic_domain_profile_id (in_config g)) r)))"
  "in_config (snd (accept_entry enc dec vt r g)) = in_config g"
  "in_profile (snd (accept_entry enc dec vt r g)) = in_profile g"
  "in_rules (snd (accept_entry enc dec vt r g)) = in_rules g"
  "in_validation (snd (accept_entry enc dec vt r g)) = in_validation g"
  "in_histories (snd (accept_entry enc dec vt r g)) = in_histories g"
  "is_entries_valid (in_stats (snd (accept_entry enc dec vt r g))) = is_entries_valid (in_stats g) + 1"
  "is_entries_rejected (in_stats (snd (accept_entry enc dec vt r g))) = is_entries_rejected (in_stats g)"
  by (simp_all add: accept_entry_def upd_stats_def Let_def fires_def RULE_ENGINE_MAX_ACTIONS_def)

lemma reject_entry_fields:
  "in_historian (reject_entry md g n d) = in_historian g" "in_config (reject_entry md g n d) = in_config g"
  "in_profile (reject_entry md g n d) = in_profile g" "in_rules (reject_entry md g n d) = in_rules g"
  "in_validation (reject_entry md g n d) = in_validation g" "in_histories (reject_entry md g n d) = in_histories g"
  "is_entries_valid (in_stats (reject_entry md g n d)) = is_entries_valid (in_stats g)"
  "is_entries_rejected (in_stats (reject_entry md g n d)) = is_entries_rejected (in_stats g) + 1"
  by (simp_all add: reject_entry_def upd_stats_def Let_def)

lemmas entry_fields = accept_entry_fields reject_entry_fields

text \<open>One entry: either it is rejected, or the reading is passed on.\<close>

lemma process_entry_step:
  fixes g :: "('p, 'r, 'st) ingestion"
  assumes "process_entry md enc dec vt now e g = (n, g')"
  shows "in_config g' = in_config g \<and> in_profile g' = in_profile g \<and> in_rules g' = in_rules g \<and> in_validation g' = in_validation g
    \<and> (let acc = (\<lambda>es. accepted vt (in_profile g) (in_config g) (in_validation g) now (in_histories g) (e # es));
           rest = (\<lambda>es. accepted vt (in_profile g) (in_config g) (in_validation g) now (in_histories g') es);
           r = entry_reading now e
       in (acc = rest \<and> n = 0 \<and> in_historian g' = in_historian g
             \<and> is_entries_valid (in_stats g') = is_entries_valid (in_stats g)
             \<and> is_entries_rejected (in_stats g') = is_entries_rejected (in_stats g) + 1)
        \<or> (acc = (\<lambda>es. r # rest es) \<and> n = fires (in_rules g) (in_profile g) vt r
             \<and> in_historian g' = snd (historian_write enc dec (in_historian g)
                   (Some (reading_record (ic_domain_profile_id (in_config g)) r)))
             \<and> is_entries_valid (in_stats g') = is_entries_valid (in_stats g) + 1
             \<and> is_entries_rejected (in_stats g') = is_entries_rejected (in_stats g)))"
proof -
  let ?r = "entry_reading now e"
  define g0 where "g0 = upd_stats (\<lambda>s. s\<lparr>is_entries_processed := is_entries_processed s + 1\<rparr>) g"
  have g0: "in_config g0 = in_config g" "in_profile g0 = in_profile g" "in_rules g0 = in_rules g"
    "in_validation g0 = in_validation g" "in_histories g0 = in_histories g" "in_historian g0 = in_historian g"
    "is_entries_valid (in_stats g0) = is_entries_valid (in_stats g)"
    "is_entries_rejected (in_stats g0) = is_entries_rejected (in_stats g)"
    by (simp_all add: g0_def upd_stats_def)
  have g': "n = fst (process_entry md enc dec vt now e g)" "g' = snd (process_entry md enc dec vt now e g)"
    using assms by simp_all
  consider "\<not> validateSensorReading vt (in_profile g) (Some ?r)"
    | "validateSensorReading vt (in_profile g) (Some ?r)" "gate2_lookup (in_config g) (sr_metric_id ?r) = None"
    | b i where "validateSensorReading vt (in_profile g) (Some ?r)" "gate2_lookup (in_config g) (sr_metric_id ?r) = Some (b, i)"
    by (cases "gate2_lookup (in_config g) (sr_metric_id ?r)") auto
  then show ?thesis unfolding g'
    by cases (auto simp: process_entry_def g0_def[symmetric] g0 entry_fields Let_def)
qed

definition batch_accepted :: "'p DomainProfileVTable_t \<Rightarrow> u64 \<Rightarrow> ('p, 'r, 'st) ingestion \<Rightarrow> BatchFrameEntry_t list \<Rightarrow> SensorReading_t list" where
  "batch_accepted vt now g es = accepted vt (in_profile g) (in_config g) (in_validation g) now (in_histories g) es"

lemma process_entries_spec:
  fixes g :: "('p, 'r, 'st) ingestion"
  assumes "process_entries md enc dec vt now es n g = (n', g')"
  shows "in_profile g' = in_profile g \<and> in_rules g' = in_rules g \<and> in_config g' = in_config g
    \<and> n' = n + (\<Sum>r \<leftarrow> batch_accepted vt now g es. fires (in_rules g) (in_profile g) vt r)
    \<and> in_historian g' = writes enc dec (in_historian g)
        (map (reading_record (ic_domain_profile_id (in_config g))) (batch_accepted vt now g es))
    \<and> is_entries_valid (in_stats g') = is_entries_valid (in_stats g) + word_of_nat (length (batch_accepted vt now g es))
    \<and> is_entries_rejected (in_stats g') =
        is_entries_rejected (in_stats g) + word_of_nat (length es) - word_of_nat (length (batch_accepted vt now g es))"
  using assms
proof (induction es arbitrary: n g)
  case Nil then show ?case by (simp add: batch_accepted_def writes_def)
next
  case (Cons e es)
  obtain m g1 where p: "process_entry md enc dec vt now e g = (m, g1)" by force
  note step = process_entry_step[OF p, unfolded Let_def]
  have ih: "process_entries md enc dec vt now es (n + m) g1 = (n', g')" using Cons.prems p by simp
  have acc: "batch_accepted vt now g (e # es) = batch_accepted vt now g1 es \<and> m = 0 \<and> in_historian g1 = in_historian g
        \<and> is_entries_valid (in_stats g1) = is_entries_valid (in_stats g)
        \<and> is_entries_rejected (in_stats g1) = is_entries_rejected (in_stats g) + 1
      \<or> batch_accepted vt now g (e # es) = entry_reading now e # batch_accepted vt now g1 es
        \<and> m = fires (in_rules g) (in_profile g) vt (entry_reading now e)
        \<and> in_historian g1 = snd (historian_write enc dec (in_historian g)
            (Some (reading_record (ic_domain_profile_id (in_config g)) (entry_reading now e))))
        \<and> is_entries_valid (in_stats g1) = is_entries_valid (in_stats g) + 1
        \<and> is_entries_rejected (in_stats g1) = is_entries_rejected (in_stats g)"
    using step unfolding batch_accepted_def by (metis (no_types, lifting))
  have keep: "in_config g1 = in_config g" "in_profile g1 = in_profile g" "in_rules g1 = in_rules g"
    using step by auto
  from acc show ?case using Cons.IH[OF ih] keep by (elim disjE) (auto simp: writes_def algebra_simps)
qed

text \<open>A reading that satisfies both gates: the profile's function, and, for a metric with bounds, the check against some history.\<close>

definition gated :: "'p DomainProfileVTable_t \<Rightarrow> ('p, 'r, 'st) ingestion \<Rightarrow> u64 \<Rightarrow> SensorReading_t \<Rightarrow> bool" where
  "gated vt g now r \<longleftrightarrow> validateSensorReading vt (in_profile g) (Some r) \<and>
    (\<forall>b i. gate2_lookup (in_config g) (sr_metric_id r) = Some (b, i) \<longrightarrow>
      (\<exists>h. sensorValidate (in_validation g) (sr_node_id r) (sr_metric_id r) (sr_value r) (Some b) (Some h) now = SENSOR_VALID) \<and>
      \<not> f32_lt (sr_value r) (vb_min_physical b) \<and> \<not> f32_lt (vb_max_physical b) (sr_value r))"

lemma sensor_valid_range:
  "sensorValidate sv n m v (Some b) h now = SENSOR_VALID \<Longrightarrow> \<not> f32_lt v (vb_min_physical b) \<and> \<not> f32_lt (vb_max_physical b) v"
  by (auto simp: sensorValidate_def split: option.splits if_splits)

lemma accepted_gated:
  "r \<in> set (accepted vt (in_profile g) (in_config g) (in_validation g) now hs es) \<Longrightarrow> gated vt g now r"
proof (induction es arbitrary: hs)
  case (Cons e es)
  let ?r = "entry_reading now e"
  consider hs' where "r \<in> set (accepted vt (in_profile g) (in_config g) (in_validation g) now hs' es)"
    | "r = ?r" "validateSensorReading vt (in_profile g) (Some ?r)" "gate2_lookup (in_config g) (sr_metric_id ?r) = None"
    | b i where "r = ?r" "validateSensorReading vt (in_profile g) (Some ?r)" "gate2_lookup (in_config g) (sr_metric_id ?r) = Some (b, i)"
        "sensorValidate (in_validation g) (sr_node_id ?r) (sr_metric_id ?r) (sr_value ?r) (Some b) (Some (hs i)) now = SENSOR_VALID"
    using Cons.prems by (auto simp: Let_def split: option.splits prod.splits if_splits)
  then show ?case
  proof cases
    case 1
    then show ?thesis by (rule Cons.IH)
  next
    case 3
    then show ?thesis using sensor_valid_range[OF 3(4)] by (auto simp: gated_def)
  qed (simp add: gated_def)
qed simp

lemma accepted_subseq: "subseq (accepted vt p c sv now hs es) (map (entry_reading now) es)"
  by (induction es arbitrary: hs) (auto simp: Let_def split: option.split)

section \<open>Properties\<close>

text \<open>
  A poll as a function of the received frame: when the radio delivers a frame that the gateway
  check accepts, the records that the accepted entries give are written to the historian in order,
  nothing else is written, the return value is the number of rules they fire (modulo 256), the
  statistics count accepted and rejected entries, and the profile, actuators included, is untouched.
\<close>

lemma poll_processes_frame:
  assumes "in_initialised g" and "ic_radio_receive (in_config g) = Some receive" and "ic_vtable (in_config g) = Some vt"
    and "receive (in_radio g) = (Some payload, r)"
    and "gateway_ingest_frame md (in_audit g) (ic_gw_tracker (in_config g)) (ic_edge_tracker (in_config g))
        (Some payload) 22 = (GW_FRAME_OK, Some (header, entries), tracker, env)"
  shows "\<exists>acc n g'. ingestion_handler_poll md enc dec g now = (n, g')
    \<and> acc = batch_accepted vt now g entries
    \<and> in_historian g' = writes enc dec (in_historian g) (map (reading_record (ic_domain_profile_id (in_config g))) acc)
    \<and> n = (\<Sum>r \<leftarrow> acc. fires (in_rules g) (in_profile g) vt r)
    \<and> is_entries_valid (in_stats g') = is_entries_valid (in_stats g) + word_of_nat (length acc)
    \<and> is_entries_rejected (in_stats g') = is_entries_rejected (in_stats g) + word_of_nat (length entries) - word_of_nat (length acc)
    \<and> ic_gw_tracker (in_config g') = tracker \<and> in_profile g' = in_profile g"
proof -
  define g1 where "g1 = upd_stats (\<lambda>s. s\<lparr>is_frames_ingested := is_frames_ingested s + 1\<rparr>)
    ((upd_stats (\<lambda>s. s\<lparr>is_frames_received := is_frames_received s + 1\<rparr>)
      ((upd_stats (\<lambda>s. s\<lparr>is_poll_count := is_poll_count s + 1\<rparr>) g)\<lparr>in_radio := r\<rparr>))
     \<lparr>in_config := (in_config g)\<lparr>ic_gw_tracker := tracker\<rparr>, in_audit := env\<rparr>)"
  have poll: "ingestion_handler_poll md enc dec g now = process_entries md enc dec vt now entries 0 g1"
    using assms by (simp add: ingestion_handler_poll_def Let_def upd_stats_def g1_def INGESTION_HANDLER_MAX_ENTRIES_def)
  obtain n g' where p: "process_entries md enc dec vt now entries 0 g1 = (n, g')" by force
  have gate2: "gate2_lookup ((in_config g)\<lparr>ic_gw_tracker := tracker\<rparr>) m = gate2_lookup (in_config g) m" for m
    by (simp add: gate2_lookup_def)
  have "accepted vt q ((in_config g)\<lparr>ic_gw_tracker := tracker\<rparr>) sv now hs es = accepted vt q (in_config g) sv now hs es" for q sv hs es
    by (induction es arbitrary: hs) (auto simp: gate2 Let_def split: option.splits)
  then have acc: "batch_accepted vt now g1 entries = batch_accepted vt now g entries"
    by (simp add: batch_accepted_def g1_def upd_stats_def)
  have keep: "in_rules g1 = in_rules g" "in_profile g1 = in_profile g" "in_historian g1 = in_historian g"
    "in_config g1 = (in_config g)\<lparr>ic_gw_tracker := tracker\<rparr>" "is_entries_valid (in_stats g1) = is_entries_valid (in_stats g)"
    "is_entries_rejected (in_stats g1) = is_entries_rejected (in_stats g)"
    by (simp_all add: g1_def upd_stats_def)
  show ?thesis using process_entries_spec[OF p] unfolding poll p acc keep by simp
qed

text \<open>A hub with a single rule on metric 1, bounds 0 to 50 for it, and a radio that delivers one frame.\<close>

definition demo_hub :: "bytes \<Rightarrow> (RuleEntry_t list, bytes option, (u32 \<Rightarrow> bytes) \<times> u32 \<times> u32) ingestion" where
  "demo_hub frame = \<lparr>in_config = \<lparr>ic_gw_tracker = Some demo_tracker, ic_edge_tracker = demo_edge, ic_vtable = Some demo_vtable,
       ic_radio_receive = Some (\<lambda>r. (r, None)),
       ic_bounds_lookup = Some (\<lambda>m. if m = 1 then Some \<lparr>vb_min_physical = 0, vb_max_physical = 0x42480000,
           vb_max_rate_of_change = 0, vb_stuck_timeout_sec = 0, vb_cross_check_node_id = 0\<rparr> else None),
       ic_history_lookup = Some (\<lambda>m. if m = 1 then Some 0 else None), ic_domain_profile_id = 3\<rparr>,
     in_stats = ingestion_stats_zero, in_initialised = True, in_profile = [demo_rule 7 0x40800000 1 0],
     in_radio = Some frame, in_histories = (\<lambda>_. sensor_history_zero), in_rules = \<lparr>rule_g_initialised = True\<rparr>,
     in_validation = \<lparr>sv_g_initialised = True\<rparr>, in_audit = (demo_audit, demo_time), in_historian = hdemo\<rparr>"

lemma demo_hub_fields:
  "in_initialised (demo_hub f) = True" "ic_radio_receive (in_config (demo_hub f)) = Some (\<lambda>r. (r, None))"
  "ic_vtable (in_config (demo_hub f)) = Some demo_vtable" "in_radio (demo_hub f) = Some f"
  "ic_gw_tracker (in_config (demo_hub f)) = Some demo_tracker" "ic_edge_tracker (in_config (demo_hub f)) = demo_edge"
  "in_historian (demo_hub f) = hdemo" "in_audit (demo_hub f) = (demo_audit, demo_time)"
  "in_rules (demo_hub f) = \<lparr>rule_g_initialised = True\<rparr>" "in_profile (demo_hub f) = [demo_rule 7 0x40800000 1 0]"
  "ic_domain_profile_id (in_config (demo_hub f)) = 3"
  by (simp_all add: demo_hub_def)

definition demo_entry :: BatchFrameEntry_t where
  "demo_entry = \<lparr>be_node_id = 7, be_metric_id = 1, be_value = 0x41A00000\<rparr>"

lemma demo_hub_accepts: "batch_accepted demo_vtable now (demo_hub frame) [demo_entry] = [entry_reading now demo_entry]"
  by (simp add: batch_accepted_def demo_hub_def demo_vtable_def entry_reading_def demo_entry_def gate2_lookup_def
      sensorValidate_def sensor_history_zero_def f32_cmp_defs Let_def)



text \<open>
  A frame that fails the gateway check changes nothing but the audit log, the tracker and the
  handler's own counters: no record is stored and no rule is evaluated.
\<close>

theorem poll_rejected_frame:
  assumes "in_initialised g" and "ic_radio_receive (in_config g) = Some receive" and "ic_vtable (in_config g) = Some vt"
    and "receive (in_radio g) = (Some payload, r)"
    and "fst (gateway_ingest_frame md (in_audit g) (ic_gw_tracker (in_config g)) (ic_edge_tracker (in_config g))
        (Some payload) 22) \<noteq> GW_FRAME_OK"
  shows "\<exists>g'. ingestion_handler_poll md enc dec g now = (0, g') \<and> in_historian g' = in_historian g
    \<and> in_profile g' = in_profile g \<and> in_histories g' = in_histories g
    \<and> is_frames_rejected (in_stats g') = is_frames_rejected (in_stats g) + 1
    \<and> is_frames_ingested (in_stats g') = is_frames_ingested (in_stats g)"
  using assms
  by (auto simp: ingestion_handler_poll_def Let_def upd_stats_def INGESTION_HANDLER_MAX_ENTRIES_def
      split: prod.splits GatewayFrameResult_t.splits)


theorem poll_rejected_frame_witness:
  "\<exists>g'. ingestion_handler_poll demo_md hdemo_enc hdemo_dec (demo_hub []) 5000 = (0, g') \<and> in_historian g' = hdemo"
proof -
  have bad: "fst (gateway_ingest_frame demo_md env (Some demo_tracker) demo_edge (Some []) 22) \<noteq> GW_FRAME_OK" for env
    by (simp add: ingest_OK_iff gateway_verify_frame_def)
  show ?thesis
    using poll_rejected_frame[where g = "demo_hub []" and receive = "\<lambda>r. (r, None)" and vt = demo_vtable and payload = "[]"
        and r = None and md = demo_md and enc = hdemo_enc and dec = hdemo_dec and now = 5000]
    unfolding demo_hub_fields by (auto simp: bad)
qed

end
