(* ===== verification/Replay_Protection.thy ===== *)
theory Replay_Protection
  imports Iot_Prelude
begin

text \<open>
  Nonce and timestamp anti-replay (\<open>firmware/shared/replay_protection.{h,c}\<close>).  The state is the
  whole slot array \<open>g_nodes\<close>.  \<open>replay_window\<close> is the part of \<open>replay_check\<close> that works on the
  slot of the sender.  The window bitmap is related to the set of nonces accepted so far, and the
  module to an abstract checker that remembers every accepted nonce.
\<close>

section \<open>Data\<close>

definition REPLAY_MAX_NODES :: nat where "REPLAY_MAX_NODES = 64"
definition REPLAY_WINDOW_SIZE :: nat where "REPLAY_WINDOW_SIZE = 64"
definition REPLAY_MAX_DRIFT_MS :: u64 where "REPLAY_MAX_DRIFT_MS = 10000"

record ReplayNodeState_t =
  rp_node_id :: u8
  rp_highest_nonce :: u32
  rp_highest_timestamp_ms :: u64
  rp_bitmap :: u64
  rp_initialised :: bool

datatype ReplayCheckResult_t =
  REPLAY_OK | REPLAY_ERR_DUPLICATE | REPLAY_ERR_STALE_TIMESTAMP | REPLAY_ERR_PARAM_NULL

record replay =
  rp_nodes :: "ReplayNodeState_t list"
  rp_g_initialised :: bool

section \<open>Operations\<close>

definition replay_node_zero :: ReplayNodeState_t where
  "replay_node_zero = \<lparr>rp_node_id = 0, rp_highest_nonce = 0, rp_highest_timestamp_ms = 0,
     rp_bitmap = 0, rp_initialised = False\<rparr>"

text \<open>The slot of a node: an existing one, or the first free one after it was claimed.\<close>

definition find_or_alloc_node :: "ReplayNodeState_t list \<Rightarrow> u8 \<Rightarrow> (nat \<times> ReplayNodeState_t list) option" where
  "find_or_alloc_node nodes node_id =
    (case find_index (\<lambda>s. rp_initialised s \<and> rp_node_id s = node_id) nodes of
       Some i \<Rightarrow> Some (i, nodes)
     | None \<Rightarrow> (case find_index (\<lambda>s. \<not> rp_initialised s) nodes of
          Some i \<Rightarrow> Some (i, nodes[i := replay_node_zero\<lparr>rp_node_id := node_id, rp_initialised := True\<rparr>])
        | None \<Rightarrow> None))"

definition replay_init :: "replay \<Rightarrow> bool \<times> replay" where
  "replay_init g = (True, \<lparr>rp_nodes = replicate REPLAY_MAX_NODES replay_node_zero, rp_g_initialised = True\<rparr>)"

definition replay_window ::
  "ReplayNodeState_t \<Rightarrow> u32 \<Rightarrow> u64 \<Rightarrow> ReplayCheckResult_t \<times> ReplayNodeState_t"
where
  "replay_window state nonce timestamp_ms =
    (if rp_highest_nonce state = 0 \<and> rp_bitmap state = 0 then
       (REPLAY_OK, state\<lparr>rp_highest_nonce := nonce, rp_highest_timestamp_ms := timestamp_ms, rp_bitmap := 1\<rparr>)
     else
       let drift = (if timestamp_ms > rp_highest_timestamp_ms state
                    then timestamp_ms - rp_highest_timestamp_ms state
                    else rp_highest_timestamp_ms state - timestamp_ms)
       in if drift > REPLAY_MAX_DRIFT_MS then (REPLAY_ERR_STALE_TIMESTAMP, state)
          else if nonce > rp_highest_nonce state then
            let shift = nonce - rp_highest_nonce state;
                bm = (if unat shift < REPLAY_WINDOW_SIZE
                      then push_bit (unat shift) (rp_bitmap state) OR 1 else 1)
            in (REPLAY_OK, state\<lparr>rp_bitmap := bm, rp_highest_nonce := nonce,
                                 rp_highest_timestamp_ms := timestamp_ms\<rparr>)
          else
            let delta = rp_highest_nonce state - nonce
            in if REPLAY_WINDOW_SIZE \<le> unat delta then (REPLAY_ERR_DUPLICATE, state)
               else let mask = push_bit (unat delta) 1
                    in if rp_bitmap state AND mask \<noteq> 0 then (REPLAY_ERR_DUPLICATE, state)
                       else (REPLAY_OK, state\<lparr>rp_bitmap := rp_bitmap state OR mask\<rparr>))"

definition replay_check :: "replay \<Rightarrow> u8 \<Rightarrow> u32 \<Rightarrow> u64 \<Rightarrow> ReplayCheckResult_t \<times> replay" where
  "replay_check g node_id nonce timestamp_ms =
    (if \<not> rp_g_initialised g then (REPLAY_ERR_PARAM_NULL, g)
     else (case find_or_alloc_node (rp_nodes g) node_id of
        None \<Rightarrow> (REPLAY_ERR_PARAM_NULL, g)
      | Some (i, nodes) \<Rightarrow>
          (case replay_window (nodes ! i) nonce timestamp_ms of
             (res, s) \<Rightarrow> (res, g\<lparr>rp_nodes := nodes[i := s]\<rparr>))))"

definition replay_reset_node :: "replay \<Rightarrow> u8 \<Rightarrow> replay" where
  "replay_reset_node g node_id =
    (case upd_first (\<lambda>s. rp_initialised s \<and> rp_node_id s = node_id) (\<lambda>_. replay_node_zero) (rp_nodes g) of
       Some nodes \<Rightarrow> g\<lparr>rp_nodes := nodes\<rparr>
     | None \<Rightarrow> g)"

definition replay_reset_all :: "replay \<Rightarrow> replay" where
  "replay_reset_all g = g\<lparr>rp_nodes := replicate REPLAY_MAX_NODES replay_node_zero\<rparr>"

section \<open>The window and the accepted nonces\<close>

text \<open>
  \<open>window_rel s A\<close>: the slot has accepted exactly the nonces \<open>A\<close>.  A used slot has its highest
  nonce in \<open>A\<close>, and bit \<open>i\<close> of the bitmap is set exactly when \<open>highest - i\<close> is in \<open>A\<close>.
\<close>

definition window_rel :: "ReplayNodeState_t \<Rightarrow> nat set \<Rightarrow> bool" where
  "window_rel s A \<longleftrightarrow>
    (if A = {} then rp_highest_nonce s = 0 \<and> rp_bitmap s = 0
     else unat (rp_highest_nonce s) \<in> A \<and> (\<forall>x \<in> A. x \<le> unat (rp_highest_nonce s)) \<and>
       (\<forall>i < 64. bit (rp_bitmap s) i \<longleftrightarrow>
          i \<le> unat (rp_highest_nonce s) \<and> unat (rp_highest_nonce s) - i \<in> A))"

text \<open>The abstract window: what a checker that remembers everything accepts.\<close>

definition fresh_nonce :: "nat set \<Rightarrow> nat \<Rightarrow> bool" where
  "fresh_nonce A n \<longleftrightarrow> n \<notin> A \<and> (\<forall>x \<in> A. x < n + 64)"

lemma window_rel_bitmap_nonzero: "window_rel s A \<Longrightarrow> A \<noteq> {} \<Longrightarrow> rp_bitmap s \<noteq> 0"
  by (auto simp: window_rel_def dest!: spec[of _ "0 :: nat"])

lemma bit_or_exp: "i < 64 \<Longrightarrow> bit ((w :: u64) OR 2 ^ d) i \<longleftrightarrow> bit w i \<or> i = d"
  by (auto simp: bit_simps)

lemma unat_diff_le: "(a :: u32) \<le> b \<Longrightarrow> unat (b - a) = unat b - unat a"
  by (simp add: word_le_nat_alt unat_sub_if')

lemma replay_window_first:
  "window_rel s {} \<Longrightarrow> replay_window s n t = (REPLAY_OK, s\<lparr>rp_highest_nonce := n,
     rp_highest_timestamp_ms := t, rp_bitmap := 1\<rparr>)
   \<and> window_rel (s\<lparr>rp_highest_nonce := n, rp_highest_timestamp_ms := t, rp_bitmap := 1\<rparr>) {unat n}"
  by (auto simp: window_rel_def replay_window_def bit_1_iff)

lemma window_rel_advance:
  assumes "window_rel s A" and "A \<noteq> {}" and "rp_highest_nonce s < n"
    and bm: "bm = (if unat (n - rp_highest_nonce s) < REPLAY_WINDOW_SIZE
               then push_bit (unat (n - rp_highest_nonce s)) (rp_bitmap s) OR 1 else 1)"
  shows "window_rel (s\<lparr>rp_bitmap := bm, rp_highest_nonce := n, rp_highest_timestamp_ms := t\<rparr>) (insert (unat n) A)"
proof -
  let ?h = "unat (rp_highest_nonce s)"
  have hn: "?h < unat n" using assms(3) by (simp add: word_less_nat_alt)
  have sh: "unat (n - rp_highest_nonce s) = unat n - ?h"
    using assms(3) by (intro unat_diff_le) simp
  have A: "\<forall>x \<in> A. x \<le> ?h" and b: "\<And>i. i < 64 \<Longrightarrow> bit (rp_bitmap s) i \<longleftrightarrow> i \<le> ?h \<and> ?h - i \<in> A"
    using assms(1,2) by (auto simp: window_rel_def)
  have "bit bm i \<longleftrightarrow> i \<le> unat n \<and> unat n - i \<in> insert (unat n) A" if i: "i < 64" for i
  proof (cases "i = 0")
    case True then show ?thesis by (auto simp: bm bit_simps)
  next
    case False
    have nb: "bit bm i \<longleftrightarrow> unat n - ?h \<le> i \<and> bit (rp_bitmap s) (i - (unat n - ?h))"
      using False i by (auto simp: bm sh bit_simps REPLAY_WINDOW_SIZE_def)
    show ?thesis
    proof (cases "unat n - ?h \<le> i")
      case True
      then have "bit (rp_bitmap s) (i - (unat n - ?h)) \<longleftrightarrow> i - (unat n - ?h) \<le> ?h \<and> ?h - (i - (unat n - ?h)) \<in> A"
        using i b by simp
      moreover have "?h - (i - (unat n - ?h)) = unat n - i" "i - (unat n - ?h) \<le> ?h \<longleftrightarrow> i \<le> unat n"
        using True hn by auto
      ultimately show ?thesis using nb True False hn by auto
    next
      case nle: False
      then have "?h < unat n - i" by simp
      then have "unat n - i \<notin> A" using A by fastforce
      then show ?thesis using nb nle \<open>i \<noteq> 0\<close> by auto
    qed
  qed
  then show ?thesis using A hn by (auto simp: window_rel_def)
qed

lemma window_rel_mark:
  assumes "window_rel s A" and "A \<noteq> {}" and "n \<le> rp_highest_nonce s"
    and "unat (rp_highest_nonce s - n) < REPLAY_WINDOW_SIZE"
  shows "window_rel (s\<lparr>rp_bitmap := rp_bitmap s OR push_bit (unat (rp_highest_nonce s - n)) 1\<rparr>)
           (insert (unat n) A)"
proof -
  let ?h = "unat (rp_highest_nonce s)"
  have n: "unat n \<le> ?h" using assms(3) by (simp add: word_le_nat_alt)
  have d: "unat (rp_highest_nonce s - n) = ?h - unat n" by (rule unat_diff_le[OF assms(3)])
  have eq: "i \<le> ?h \<and> ?h - i \<in> insert (unat n) A \<longleftrightarrow> i \<le> ?h \<and> ?h - i \<in> A \<or> i = ?h - unat n" for i
    using n by auto
  show ?thesis
    using assms(1,2) n eq by (auto simp: window_rel_def bit_or_exp d)
qed

text \<open>
  The slot-level refinement: with a timestamp in tolerance the concrete window accepts exactly the
  fresh nonces and then has accepted one more; every other answer leaves the slot unchanged.
\<close>

lemma replay_window_refines:
  assumes rel: "window_rel s A" and res: "replay_window s n t = (r, s')"
  shows "(r = REPLAY_OK \<longleftrightarrow> fresh_nonce A (unat n) \<and>
            (A = {} \<or> ndist (unat t) (unat (rp_highest_timestamp_ms s)) \<le> 10000))"
    and "r = REPLAY_OK \<Longrightarrow> window_rel s' (insert (unat n) A)"
    and "r \<noteq> REPLAY_OK \<Longrightarrow> s' = s"
    and "rp_initialised s' = rp_initialised s \<and> rp_node_id s' = rp_node_id s"
proof -
  let ?h = "unat (rp_highest_nonce s)"
  let ?drift = "(if t > rp_highest_timestamp_ms s then t - rp_highest_timestamp_ms s
                 else rp_highest_timestamp_ms s - t) > REPLAY_MAX_DRIFT_MS"
  have drift: "?drift \<longleftrightarrow> 10000 < ndist (unat t) (unat (rp_highest_timestamp_ms s))"
    unfolding drift_nat by (simp add: REPLAY_MAX_DRIFT_MS_def)
  have *: "(r = REPLAY_OK \<longleftrightarrow> fresh_nonce A (unat n) \<and>
            (A = {} \<or> ndist (unat t) (unat (rp_highest_timestamp_ms s)) \<le> 10000)) \<and>
      (r = REPLAY_OK \<longrightarrow> window_rel s' (insert (unat n) A)) \<and> (r \<noteq> REPLAY_OK \<longrightarrow> s' = s)"
  proof (cases "A = {}")
    case True
    then show ?thesis using rel res replay_window_first[of s n t] by (auto simp: fresh_nonce_def)
  next
    case ne: False
    have bm: "rp_bitmap s \<noteq> 0" by (rule window_rel_bitmap_nonzero[OF rel ne])
    have h: "?h \<in> A" "\<forall>x \<in> A. x \<le> ?h" and b: "\<And>i. i < 64 \<Longrightarrow> bit (rp_bitmap s) i \<longleftrightarrow> i \<le> ?h \<and> ?h - i \<in> A"
      using rel ne by (auto simp: window_rel_def)
    consider (stale) ?drift | (ahead) "\<not> ?drift" "rp_highest_nonce s < n"
      | (behind) "\<not> ?drift" "n \<le> rp_highest_nonce s" by fastforce
    then show ?thesis
    proof cases
      case stale
      then show ?thesis using res bm ne drift by (auto simp: replay_window_def)
    next
      case ahead
      then have "fresh_nonce A (unat n)" using h(2) by (force simp: fresh_nonce_def word_less_nat_alt)
      moreover have "r = REPLAY_OK" using res bm ahead by (auto simp: replay_window_def Let_def)
      ultimately show ?thesis
        using res bm ahead drift window_rel_advance[OF rel ne ahead(2) refl, of t]
        by (auto simp: replay_window_def Let_def)
    next
      case behind
      let ?d = "?h - unat n"
      have n: "unat n \<le> ?h" and d: "unat (rp_highest_nonce s - n) = ?d"
        using behind(2) unat_diff_le by (auto simp: word_le_nat_alt)
      have fresh: "fresh_nonce A (unat n) \<longleftrightarrow> ?d < 64 \<and> \<not> bit (rp_bitmap s) ?d"
        using h b[of ?d] n by (force simp: fresh_nonce_def)
      show ?thesis
      proof (cases "fresh_nonce A (unat n)")
        case True
        then show ?thesis using res bm behind drift fresh d window_rel_mark[OF rel ne behind(2)]
          by (auto simp: replay_window_def Let_def REPLAY_WINDOW_SIZE_def and_exp_eq_0_iff_not_bit
              simp flip: linorder_not_less)
      next
        case False
        then show ?thesis using res bm behind drift fresh d
          by (auto simp: replay_window_def Let_def REPLAY_WINDOW_SIZE_def and_exp_eq_0_iff_not_bit
              simp flip: linorder_not_less split: if_splits)
      qed
    qed
  qed
  show "(r = REPLAY_OK \<longleftrightarrow> fresh_nonce A (unat n) \<and>
            (A = {} \<or> ndist (unat t) (unat (rp_highest_timestamp_ms s)) \<le> 10000))"
    and "r = REPLAY_OK \<Longrightarrow> window_rel s' (insert (unat n) A)"
    and "r \<noteq> REPLAY_OK \<Longrightarrow> s' = s" using * by auto
  show "rp_initialised s' = rp_initialised s \<and> rp_node_id s' = rp_node_id s"
    using res by (auto simp: replay_window_def Let_def split: if_splits)
qed

section \<open>The module and its callers\<close>

text \<open>
  The calls a receiver can make, with the nonces accepted per node since its last reset as a ghost
  component.
\<close>

datatype replay_call = Check u8 u32 u64 | Reset_Node u8 | Reset_All

fun replay_exec :: "replay \<times> (u8 \<Rightarrow> u32 list) \<Rightarrow> replay_call \<Rightarrow> replay \<times> (u8 \<Rightarrow> u32 list)" where
  "replay_exec (g, A) (Check n x t) =
    (case replay_check g n x t of (r, g') \<Rightarrow> (g', if r = REPLAY_OK then A(n := x # A n) else A))"
| "replay_exec (g, A) (Reset_Node n) = (replay_reset_node g n, A(n := []))"
| "replay_exec (g, A) Reset_All = (replay_reset_all g, \<lambda>_. [])"

definition replay_step :: "replay \<times> (u8 \<Rightarrow> u32 list) \<Rightarrow> replay \<times> (u8 \<Rightarrow> u32 list) \<Rightarrow> bool" where
  "replay_step s s' \<longleftrightarrow> (\<exists>c. s' = replay_exec s c)"

definition replay_start :: "replay \<times> (u8 \<Rightarrow> u32 list) \<Rightarrow> bool" where
  "replay_start s \<longleftrightarrow> (\<exists>g. s = (snd (replay_init g), \<lambda>_. []))"

definition replay_slots :: "ReplayNodeState_t list \<Rightarrow> (u8 \<Rightarrow> u32 list) \<Rightarrow> bool" where
  "replay_slots nodes A \<longleftrightarrow> length nodes = REPLAY_MAX_NODES \<and> (\<forall>n. distinct (A n)) \<and>
     (\<forall>i < length nodes. \<forall>j < length nodes. rp_initialised (nodes ! i) \<and> rp_initialised (nodes ! j) \<and>
        rp_node_id (nodes ! i) = rp_node_id (nodes ! j) \<longrightarrow> i = j) \<and>
     (\<forall>i < length nodes. rp_initialised (nodes ! i) \<longrightarrow>
        window_rel (nodes ! i) (unat ` set (A (rp_node_id (nodes ! i))))) \<and>
     (\<forall>n. A n \<noteq> [] \<longrightarrow> (\<exists>i < length nodes. rp_initialised (nodes ! i) \<and> rp_node_id (nodes ! i) = n))"

definition replay_inv :: "replay \<times> (u8 \<Rightarrow> u32 list) \<Rightarrow> bool" where
  "replay_inv s \<longleftrightarrow> rp_g_initialised (fst s) \<and> replay_slots (rp_nodes (fst s)) (snd s)"

lemma replay_slots_fresh: "replay_slots (replicate REPLAY_MAX_NODES replay_node_zero) (\<lambda>_. [])"
  by (simp add: replay_slots_def replay_node_zero_def)

lemma replay_slotsD:
  assumes "replay_slots nodes A"
  shows "length nodes = REPLAY_MAX_NODES" and "distinct (A n)"
    and "i < length nodes \<Longrightarrow> j < length nodes \<Longrightarrow> rp_initialised (nodes ! i) \<Longrightarrow> rp_initialised (nodes ! j) \<Longrightarrow>
           rp_node_id (nodes ! i) = rp_node_id (nodes ! j) \<Longrightarrow> i = j"
    and "i < length nodes \<Longrightarrow> rp_initialised (nodes ! i) \<Longrightarrow>
           window_rel (nodes ! i) (unat ` set (A (rp_node_id (nodes ! i))))"
    and "A n \<noteq> [] \<Longrightarrow> \<exists>i < length nodes. rp_initialised (nodes ! i) \<and> rp_node_id (nodes ! i) = n"
  using assms unfolding replay_slots_def by blast+

lemma replay_slotsI:
  assumes "length nodes = REPLAY_MAX_NODES" and "\<And>n. distinct (A n)"
    and "\<And>i j. i < length nodes \<Longrightarrow> j < length nodes \<Longrightarrow> rp_initialised (nodes ! i) \<Longrightarrow>
           rp_initialised (nodes ! j) \<Longrightarrow> rp_node_id (nodes ! i) = rp_node_id (nodes ! j) \<Longrightarrow> i = j"
    and "\<And>i. i < length nodes \<Longrightarrow> rp_initialised (nodes ! i) \<Longrightarrow>
           window_rel (nodes ! i) (unat ` set (A (rp_node_id (nodes ! i))))"
    and "\<And>n. A n \<noteq> [] \<Longrightarrow> \<exists>i < length nodes. rp_initialised (nodes ! i) \<and> rp_node_id (nodes ! i) = n"
  shows "replay_slots nodes A"
  unfolding replay_slots_def by (intro conjI allI impI) (use assms in blast)+

text \<open>Changing the slot of one node, and what was accepted from it, together.\<close>

lemma replay_slots_update:
  assumes inv: "replay_slots nodes A" and i: "i < length nodes" and xs: "distinct xs"
    and s: "rp_initialised s" "window_rel s (unat ` set xs)"
    and free: "\<forall>j < length nodes. rp_initialised (nodes ! j) \<and> rp_node_id (nodes ! j) = rp_node_id s \<longrightarrow> j = i"
    and own: "rp_initialised (nodes ! i) \<longrightarrow> rp_node_id (nodes ! i) = rp_node_id s"
  shows "replay_slots (nodes[i := s]) (A(rp_node_id s := xs))"
proof -
  let ?n = "rp_node_id s" and ?N = "nodes[i := s]"
  note D = replay_slotsD[OF inv]
  show ?thesis
  proof (rule replay_slotsI)
    fix j assume j: "j < length ?N" "rp_initialised (?N ! j)"
    show "window_rel (?N ! j) (unat ` set ((A(?n := xs)) (rp_node_id (?N ! j))))"
    proof (cases "j = i")
      case False
      then have "rp_node_id (nodes ! j) \<noteq> ?n" using free j by auto
      then show ?thesis using False j D(4)[of j] by simp
    qed (use i s in simp)
  next
    fix n assume ne: "(A(?n := xs)) n \<noteq> []"
    show "\<exists>j < length ?N. rp_initialised (?N ! j) \<and> rp_node_id (?N ! j) = n"
    proof (cases "n = ?n")
      case True then show ?thesis using i s(1) by (intro exI[of _ i]) simp
    next
      case False
      then obtain j where j: "j < length nodes" "rp_initialised (nodes ! j)" "rp_node_id (nodes ! j) = n"
        using D(5)[of n] ne by auto
      moreover from this have "j \<noteq> i" using own False by auto
      ultimately show ?thesis by (intro exI[of _ j]) simp
    qed
  next
    fix j k assume jk: "j < length ?N" "k < length ?N" "rp_initialised (?N ! j)"
      "rp_initialised (?N ! k)" "rp_node_id (?N ! j) = rp_node_id (?N ! k)"
    show "j = k"
    proof (cases "j = i \<or> k = i")
      case True
      have only: "b = i" if "b < length nodes" "rp_initialised (?N ! b)" "rp_node_id (?N ! b) = rp_node_id (?N ! i)" for b
      proof (rule ccontr)
        assume "b \<noteq> i"
        then have "rp_initialised (nodes ! b)" "rp_node_id (nodes ! b) = ?n" using that i by simp_all
        with free that(1) \<open>b \<noteq> i\<close> show False by blast
      qed
      from True show ?thesis
        using only jk unfolding length_list_update by metis
    next
      case False then show ?thesis using jk D(3)[of j k] by simp
    qed
  qed (use D(1,2) xs in simp_all)
qed

lemma find_or_alloc_slot:
  assumes inv: "replay_slots nodes A" and fa: "find_or_alloc_node nodes n = Some (i, nodes')"
  shows "replay_slots nodes' A \<and> i < length nodes' \<and> rp_initialised (nodes' ! i) \<and> rp_node_id (nodes' ! i) = n"
proof (cases "find_index (\<lambda>s. rp_initialised s \<and> rp_node_id s = n) nodes")
  case (Some k)
  then show ?thesis using fa inv find_index_SomeD[OF Some] by (auto simp: find_or_alloc_node_def)
next
  case None
  let ?s = "replay_node_zero\<lparr>rp_node_id := n, rp_initialised := True\<rparr>"
  have i: "find_index (\<lambda>s. \<not> rp_initialised s) nodes = Some i" and nodes': "nodes' = nodes[i := ?s]"
    using None fa by (auto simp: find_or_alloc_node_def split: option.splits)
  have none: "\<forall>s \<in> set nodes. \<not> (rp_initialised s \<and> rp_node_id s = n)"
    using None by (simp add: find_index_None_iff)
  then have An: "A n = []" using replay_slotsD(5)[OF inv, of n] nth_mem by blast
  then have "A(n := []) = A" by auto
  moreover have "replay_slots (nodes[i := ?s]) (A(rp_node_id ?s := []))"
    using none find_index_SomeD[OF i]
    by (intro replay_slots_update[OF inv]) (auto simp: window_rel_def replay_node_zero_def dest: nth_mem)
  ultimately show ?thesis using find_index_SomeD[OF i] nodes' by simp
qed

lemma replay_check_inv:
  assumes "replay_inv (g, A)" and "replay_check g n x t = (r, g')"
  shows "replay_inv (g', if r = REPLAY_OK then A(n := x # A n) else A)"
    and "r = REPLAY_OK \<Longrightarrow> x \<notin> set (A n)"
proof -
  have *: "replay_inv (g', if r = REPLAY_OK then A(n := x # A n) else A) \<and> (r = REPLAY_OK \<longrightarrow> x \<notin> set (A n))"
  proof (cases "find_or_alloc_node (rp_nodes g) n")
    case None then show ?thesis using assms by (auto simp: replay_check_def replay_inv_def)
  next
    case (Some p)
    then obtain i nodes' where p: "find_or_alloc_node (rp_nodes g) n = Some (i, nodes')" by (cases p) auto
    obtain s' where s': "replay_window (nodes' ! i) x t = (r, s')" "g' = g\<lparr>rp_nodes := nodes'[i := s']\<rparr>"
      using assms p by (auto simp: replay_check_def replay_inv_def split: prod.splits)
    from find_or_alloc_slot[OF _ p, of A] assms(1)
    have slot: "replay_slots nodes' A" "i < length nodes'" "rp_initialised (nodes' ! i)" "rp_node_id (nodes' ! i) = n"
      by (auto simp: replay_inv_def)
    then have rel: "window_rel (nodes' ! i) (unat ` set (A n))" using replay_slotsD(4) by blast
    note ref = replay_window_refines[OF rel s'(1)]
    show ?thesis
    proof (cases "r = REPLAY_OK")
      case True
      then have fresh: "x \<notin> set (A n)" using ref(1) by (auto simp: fresh_nonce_def)
      have s'n: "rp_node_id s' = n" "rp_initialised s'" using ref(4) slot(3,4) by auto
      have "replay_slots (nodes'[i := s']) (A(rp_node_id s' := x # A n))"
        using slot ref(2)[OF True] fresh s'n replay_slotsD(2,3)[OF slot(1)]
        by (intro replay_slots_update[OF slot(1)]) auto
      then show ?thesis using True fresh s'(2) s'n assms(1) by (simp add: replay_inv_def)
    next
      case False
      then show ?thesis using ref(3) s'(2) slot assms(1) by (simp add: replay_inv_def)
    qed
  qed
  then show "replay_inv (g', if r = REPLAY_OK then A(n := x # A n) else A)"
    and "r = REPLAY_OK \<Longrightarrow> x \<notin> set (A n)" by auto
qed


lemma replay_reset_inv: "replay_inv (g, A) \<Longrightarrow> replay_inv (replay_reset_node g n, A(n := []))"
proof -
  assume inv: "replay_inv (g, A)"
  let ?P = "\<lambda>s. rp_initialised s \<and> rp_node_id s = n"
  note D = replay_slotsD[of "rp_nodes g" A]
  have slots: "replay_slots (rp_nodes g) A" using inv by (simp add: replay_inv_def)
  show ?thesis
  proof (cases "upd_first ?P (\<lambda>_. replay_node_zero) (rp_nodes g)")
    case None
    then have "A n = []" using D(5)[OF slots, of n] nth_mem by auto
    then have "A(n := []) = A" by auto
    moreover have "replay_reset_node g n = g" using None by (simp only: replay_reset_node_def option.case)
    ultimately show ?thesis using inv by simp
  next
    case (Some ys)
    then obtain us x vs where u: "rp_nodes g = us @ x # vs" "?P x" "ys = us @ replay_node_zero # vs"
      by (rule upd_first_SomeE)
    let ?i = "length us"
    have ys: "ys = (rp_nodes g)[?i := replay_node_zero]" and i: "?i < length (rp_nodes g)" "?P (rp_nodes g ! ?i)"
      using u by auto
    have other: "j \<noteq> ?i \<Longrightarrow> j < length (rp_nodes g) \<Longrightarrow> rp_initialised (rp_nodes g ! j) \<Longrightarrow> rp_node_id (rp_nodes g ! j) \<noteq> n" for j
      using D(3)[OF slots, of j ?i] i by auto
    have "replay_slots ys (A(n := []))"
      unfolding ys
    proof (rule replay_slotsI)
      fix m assume "(A(n := [])) m \<noteq> []"
      then obtain j where j: "j < length (rp_nodes g)" "rp_initialised (rp_nodes g ! j)" "rp_node_id (rp_nodes g ! j) = m" "m \<noteq> n"
        using D(5)[OF slots, of m] by (auto split: if_splits)
      with i have "j \<noteq> ?i" by auto
      with j show "\<exists>j < length ((rp_nodes g)[?i := replay_node_zero]).
          rp_initialised ((rp_nodes g)[?i := replay_node_zero] ! j) \<and> rp_node_id ((rp_nodes g)[?i := replay_node_zero] ! j) = m"
        by (intro exI[of _ j]) simp
    next
      fix j assume j: "j < length ((rp_nodes g)[?i := replay_node_zero])" "rp_initialised ((rp_nodes g)[?i := replay_node_zero] ! j)"
      then have "j \<noteq> ?i" using i(1) by (auto simp: replay_node_zero_def)
      then show "window_rel ((rp_nodes g)[?i := replay_node_zero] ! j)
          (unat ` set ((A(n := [])) (rp_node_id ((rp_nodes g)[?i := replay_node_zero] ! j))))"
        using j other[of j] D(4)[OF slots, of j] by simp
    next
      fix j k assume jk: "j < length ((rp_nodes g)[?i := replay_node_zero])" "k < length ((rp_nodes g)[?i := replay_node_zero])"
        "rp_initialised ((rp_nodes g)[?i := replay_node_zero] ! j)" "rp_initialised ((rp_nodes g)[?i := replay_node_zero] ! k)"
        "rp_node_id ((rp_nodes g)[?i := replay_node_zero] ! j) = rp_node_id ((rp_nodes g)[?i := replay_node_zero] ! k)"
      then have "j \<noteq> ?i" "k \<noteq> ?i" using i(1) by (auto simp: replay_node_zero_def)
      then show "j = k" using jk D(3)[OF slots, of j k] by simp
    qed (use D(1,2)[OF slots] in simp_all)
    then show ?thesis using inv Some by (simp add: replay_inv_def replay_reset_node_def)
  qed
qed

interpretation replay_sys: invariant_system replay_start replay_step replay_inv
proof
  fix s assume "replay_start s"
  then show "replay_inv s"
    by (auto simp: replay_start_def replay_inv_def replay_init_def replay_slots_fresh)
next
  fix s s' assume inv: "replay_inv s" and "replay_step s s'"
  then obtain c where c: "s' = replay_exec s c" by (auto simp: replay_step_def)
  obtain g A where s: "s = (g, A)" by (cases s)
  show "replay_inv s'"
  proof (cases c)
    case (Check n x t)
    then show ?thesis using inv c s replay_check_inv(1)[of g A n x t] by (auto split: prod.splits)
  next
    case (Reset_Node n)
    then show ?thesis using inv c s replay_reset_inv by simp
  next
    case Reset_All
    then show ?thesis using inv c s by (simp add: replay_inv_def replay_reset_all_def replay_slots_fresh)
  qed
qed

section \<open>Properties\<close>

text \<open>
  C3.  No replay: in every run of checks and resets, over any number of nodes and any nonces and
  timestamps, the nonces accepted from a node since its last reset are pairwise distinct.
\<close>

theorem replay_accepts_once:
  assumes "foldl replay_exec (snd (replay_init g0), \<lambda>_. []) calls = (g, A)"
  shows "distinct (A n)"
proof -
  have "replay_step\<^sup>*\<^sup>* s (foldl replay_exec s calls)" for s
  proof (induction calls rule: rev_induct)
    case (snoc c cs)
    have "replay_step (foldl replay_exec s cs) (foldl replay_exec s (cs @ [c]))"
      by (auto simp: replay_step_def)
    with snoc show ?case by simp
  qed simp
  from this[of "(snd (replay_init g0), \<lambda>_. [])"] assms
  have "replay_inv (g, A)"
    using replay_sys.reachable_inv[of "(snd (replay_init g0), \<lambda>_. [])"] by (auto simp: replay_start_def)
  then have "replay_slots (rp_nodes g) A" by (simp add: replay_inv_def)
  then show ?thesis by (rule replay_slotsD(2))
qed

theorem replay_accepts_once_witness:
  "\<exists>g A. foldl replay_exec (snd (replay_init \<lparr>rp_nodes = [], rp_g_initialised = False\<rparr>), \<lambda>_. [])
      [Check 3 10 100, Check 3 12 200, Check 3 10 300] = (g, A) \<and> distinct (A 3)"
proof -
  obtain g A where "foldl replay_exec (snd (replay_init \<lparr>rp_nodes = [], rp_g_initialised = False\<rparr>), \<lambda>_. [])
      [Check 3 10 100, Check 3 12 200, Check 3 10 300] = (g, A)" by fastforce
  from replay_accepts_once[OF this, of 3] this show ?thesis by blast
qed

text \<open>
  C23.  The sliding window refines the checker that remembers every accepted nonce: on a slot that
  has accepted the nonces \<open>A\<close>, a frame is accepted exactly when its nonce is new, less than 64
  behind every accepted one, and (after the first frame) its timestamp is within ten seconds of
  the timestamp of the frame with the highest nonce; the slot then represents \<open>A\<close> with the nonce
  added, and a refused frame changes nothing.
\<close>

theorem replay_window_refinement:
  assumes "window_rel s A"
  shows "(fst (replay_window s n t) = REPLAY_OK \<longleftrightarrow>
            unat n \<notin> A \<and> (\<forall>x \<in> A. x < unat n + 64) \<and>
            (A = {} \<or> ndist (unat t) (unat (rp_highest_timestamp_ms s)) \<le> 10000))
       \<and> window_rel (snd (replay_window s n t))
           (if fst (replay_window s n t) = REPLAY_OK then insert (unat n) A else A)"
proof -
  obtain r s' where rs: "replay_window s n t = (r, s')" by fastforce
  from replay_window_refines(1,2,3)[OF assms rs] show ?thesis
    using rs assms by (cases "r = REPLAY_OK") (auto simp: fresh_nonce_def)
qed

definition demo_slot :: ReplayNodeState_t where
  "demo_slot = \<lparr>rp_node_id = 3, rp_highest_nonce = 2, rp_highest_timestamp_ms = 500, rp_bitmap = 1,
     rp_initialised = True\<rparr>"

lemma demo_slot_rel: "window_rel demo_slot {2}"
  by (auto simp: window_rel_def demo_slot_def bit_1_iff)

theorem replay_window_refinement_witness:
  "fst (replay_window demo_slot 1 600) = REPLAY_OK"
  using replay_window_refinement[OF demo_slot_rel, of 1 600] by (simp add: demo_slot_def ndist_def)

text \<open>
  A node that was silent for more than ten seconds is locked out: every frame more than ten
  seconds after the last advance of the window is refused as stale, and since a refusal does not
  move the reference timestamp, all later frames are refused as well.
\<close>

theorem silent_node_locked_out:
  assumes "rp_bitmap s \<noteq> 0"
    and "\<forall>(n, t) \<in> set frames. unat (rp_highest_timestamp_ms s) + 10000 < unat t"
  shows "foldl (\<lambda>st (n, t). snd (replay_window st n t)) s frames = s
       \<and> (\<forall>(n, t) \<in> set frames. fst (replay_window s n t) = REPLAY_ERR_STALE_TIMESTAMP)"
proof -
  have stale: "replay_window s n t = (REPLAY_ERR_STALE_TIMESTAMP, s)"
    if "unat (rp_highest_timestamp_ms s) + 10000 < unat t" for n t
  proof -
    have "REPLAY_MAX_DRIFT_MS < (if t > rp_highest_timestamp_ms s then t - rp_highest_timestamp_ms s
                                 else rp_highest_timestamp_ms s - t)"
      unfolding drift_nat using that by (simp add: REPLAY_MAX_DRIFT_MS_def ndist_def)
    then show ?thesis using assms(1) by (simp add: replay_window_def)
  qed
  have "foldl (\<lambda>st (n, t). snd (replay_window st n t)) s frames = s"
    using assms(2) by (induction frames) (auto simp: stale)
  then show ?thesis using assms(2) stale by fastforce
qed

theorem silent_node_locked_out_witness:
  "fst (replay_window demo_slot 3 20000) = REPLAY_ERR_STALE_TIMESTAMP"
  using silent_node_locked_out[of demo_slot "[(3, 20000), (4, 30000)]"] by (simp add: demo_slot_def)

end
