(* ===== verification/Rs485.thy ===== *)
theory Rs485
  imports Iot_Prelude
begin

text \<open>
  The RS-485 wire format (\<open>firmware/shared/rs485_protocol.{h,c}\<close>): CRC-16/MODBUS, encoding, parsing
  and frame construction.  \<open>payload\<close> is the whole 128-byte array, so that what a routine leaves
  untouched in an output frame is visible.
\<close>

section \<open>Data\<close>

definition RS485_MAX_FRAME_PAYLOAD :: nat where "RS485_MAX_FRAME_PAYLOAD = 128"
definition RS485_CRC_POLYNOMIAL :: u16 where "RS485_CRC_POLYNOMIAL = 0xA001"
definition RS485_START_BYTE :: u8 where "RS485_START_BYTE = 0xAA"
definition RS485_HEADER_SIZE :: nat where "RS485_HEADER_SIZE = 4"
definition RS485_CRC_SIZE :: nat where "RS485_CRC_SIZE = 2"
definition RS485_MIN_FRAME :: nat where "RS485_MIN_FRAME = RS485_HEADER_SIZE + RS485_CRC_SIZE"

lemmas rs485_consts = RS485_MAX_FRAME_PAYLOAD_def RS485_CRC_POLYNOMIAL_def RS485_START_BYTE_def
  RS485_HEADER_SIZE_def RS485_CRC_SIZE_def RS485_MIN_FRAME_def

record RS485Frame_t =
  rs_dest_addr :: u8
  rs_src_addr :: u8
  rs_payload_len :: u8
  rs_payload :: bytes

datatype RS485ParseResult_t =
  RS485_OK | RS485_ERR_CRC | RS485_ERR_TOO_SHORT | RS485_ERR_TOO_LONG | RS485_ERR_BAD_START
| RS485_ERR_PARAM_NULL

section \<open>Operations\<close>

definition crc_shift :: "u16 \<Rightarrow> u16" where
  "crc_shift crc = (if crc AND 1 \<noteq> 0 then drop_bit 1 crc XOR RS485_CRC_POLYNOMIAL else drop_bit 1 crc)"

definition crc_byte :: "u16 \<Rightarrow> u8 \<Rightarrow> u16" where
  "crc_byte crc b = (crc_shift ^^ 8) (crc XOR ucast b)"

definition rs485_crc16 :: "bytes \<Rightarrow> u16" where
  "rs485_crc16 data = foldl crc_byte 0xFFFF data"

definition rs485_encode :: "RS485Frame_t option \<Rightarrow> nat \<Rightarrow> bytes option" where
  "rs485_encode frame buf_size =
    (case frame of
       None \<Rightarrow> None
     | Some f \<Rightarrow>
         let plen = unat (rs_payload_len f);
             total = RS485_HEADER_SIZE + plen + RS485_CRC_SIZE
         in if buf_size < total then None
            else if RS485_MAX_FRAME_PAYLOAD < plen then None
            else let body = [rs_dest_addr f, rs_src_addr f, rs_payload_len f] @ take plen (rs_payload f);
                     crc = rs485_crc16 body
                 in Some ([RS485_START_BYTE] @ body @ [ucast (drop_bit 8 crc), ucast crc]))"

definition rs485_parse :: "bytes option \<Rightarrow> RS485Frame_t \<Rightarrow> RS485ParseResult_t \<times> RS485Frame_t" where
  "rs485_parse wire out =
    (case wire of
       None \<Rightarrow> (RS485_ERR_PARAM_NULL, out)
     | Some buf \<Rightarrow>
         if length buf < RS485_MIN_FRAME then (RS485_ERR_TOO_SHORT, out)
         else if buf ! 0 \<noteq> RS485_START_BYTE then (RS485_ERR_BAD_START, out)
         else
           let plen = unat (buf ! 3);
               expected_total = RS485_HEADER_SIZE + plen + RS485_CRC_SIZE
           in if length buf < expected_total then (RS485_ERR_TOO_SHORT, out)
              else if RS485_MAX_FRAME_PAYLOAD < plen then (RS485_ERR_TOO_LONG, out)
              else
                let received_crc = push_bit 8 (ucast (buf ! (RS485_HEADER_SIZE + plen)) :: u16)
                                   OR ucast (buf ! (RS485_HEADER_SIZE + plen + 1));
                    computed_crc = rs485_crc16 (take (3 + plen) (drop 1 buf))
                in if received_crc \<noteq> computed_crc then (RS485_ERR_CRC, out)
                   else (RS485_OK, out\<lparr>rs_dest_addr := buf ! 1, rs_src_addr := buf ! 2,
                           rs_payload_len := buf ! 3,
                           rs_payload := take plen (drop RS485_HEADER_SIZE buf) @ drop plen (rs_payload out)\<rparr>))"

definition rs485_create_frame :: "RS485Frame_t \<Rightarrow> u8 \<Rightarrow> u8 \<Rightarrow> bytes option \<Rightarrow> u8 \<Rightarrow> RS485Frame_t" where
  "rs485_create_frame out dest_addr src_addr payload payload_len =
    (let f = out\<lparr>rs_dest_addr := dest_addr, rs_src_addr := src_addr, rs_payload_len := payload_len\<rparr>
     in case payload of
          Some p \<Rightarrow>
            if payload_len > 0 \<and> unat payload_len \<le> RS485_MAX_FRAME_PAYLOAD
            then f\<lparr>rs_payload := take (unat payload_len) p @ drop (unat payload_len) (rs_payload f)\<rparr>
            else f
        | None \<Rightarrow> f)"

section \<open>The CRC register\<close>

text \<open>The polynomial has its top bit set, so a shift can be undone: the register step is injective.\<close>

lemma bit_crc_shift_top: "bit (crc_shift c) 15 \<longleftrightarrow> bit c 0"
proof -
  have "\<not> bit c 16" by (auto dest: bit_imp_le_length)
  then show ?thesis by (simp add: crc_shift_def word_and_1_iff bit_simps RS485_CRC_POLYNOMIAL_def)
qed

lemma crc_shift_inj: "inj crc_shift"
proof (rule injI)
  fix c d
  assume eq: "crc_shift c = crc_shift d"
  then have b0: "bit c 0 \<longleftrightarrow> bit d 0" using bit_crc_shift_top by metis
  then have odd: "(c AND 1 \<noteq> 0) \<longleftrightarrow> (d AND 1 \<noteq> 0)"
    by (simp add: word_and_1_iff)
  have sh: "drop_bit 1 c = drop_bit 1 d"
  proof (cases "c AND 1 \<noteq> 0")
    case True
    then show ?thesis using eq odd by (simp add: crc_shift_def)
  qed (use eq odd in \<open>simp add: crc_shift_def\<close>)
  show "c = d"
  proof (rule bit_word_eqI)
    fix n
    show "bit c n \<longleftrightarrow> bit d n"
    proof (cases n)
      case (Suc m)
      have "bit (drop_bit 1 c) m = bit (drop_bit 1 d) m" using sh by simp
      then show ?thesis using Suc by (simp add: bit_drop_bit_eq)
    qed (use b0 in simp)
  qed
qed

lemma crc_shift_funpow: "(crc_shift ^^ n) c = (crc_shift ^^ n) d \<longleftrightarrow> c = d"
  using inj_fn[OF crc_shift_inj] by (rule inj_eq)

lemma crc_byte_inj_crc: "crc_byte c b = crc_byte d b \<Longrightarrow> c = d"
  by (simp add: crc_byte_def crc_shift_funpow)

lemma crc_byte_inj_byte: "crc_byte c a = crc_byte c b \<Longrightarrow> a = b"
  using ucast_up_inj[of a b, where 'b = 16] by (simp add: crc_byte_def crc_shift_funpow)

interpretation modbus: checksum_register crc_byte
  by unfold_locales (auto dest: crc_byte_inj_crc crc_byte_inj_byte)

lemma crc_bytes_join: "push_bit 8 (ucast (ucast (drop_bit 8 c) :: u8)) OR ucast (ucast c :: u8) = (c :: u16)"
  by (rule bit_word_eqI) (auto simp: bit_simps)

section \<open>Properties\<close>

lemma rs485_encode_Some:
  assumes "rs485_encode (Some f) n = Some w"
  defines "plen \<equiv> unat (rs_payload_len f)"
  defines "body \<equiv> [rs_dest_addr f, rs_src_addr f, rs_payload_len f] @ take plen (rs_payload f)"
  shows "w = [RS485_START_BYTE] @ body @ [ucast (drop_bit 8 (rs485_crc16 body)), ucast (rs485_crc16 body)]"
    and "plen \<le> RS485_MAX_FRAME_PAYLOAD" and "6 + plen \<le> n"
  using assms by (auto simp: rs485_encode_def Let_def rs485_consts split: if_splits)

lemma parse_encode:
  assumes "rs485_encode (Some f) n = Some w" and "length (rs_payload f) = RS485_MAX_FRAME_PAYLOAD"
  shows "rs485_parse (Some (w @ rest)) out =
    (RS485_OK, out\<lparr>rs_dest_addr := rs_dest_addr f, rs_src_addr := rs_src_addr f,
       rs_payload_len := rs_payload_len f,
       rs_payload := take (unat (rs_payload_len f)) (rs_payload f)
                     @ drop (unat (rs_payload_len f)) (rs_payload out)\<rparr>)"
proof -
  let ?p = "unat (rs_payload_len f)"
  let ?pl = "take ?p (rs_payload f)"
  let ?body = "[rs_dest_addr f, rs_src_addr f, rs_payload_len f] @ ?pl"
  let ?crc = "rs485_crc16 ?body"
  note enc = rs485_encode_Some[OF assms(1)]
  have len: "length ?pl = ?p" using enc(2) assms(2) by simp
  let ?buf = "RS485_START_BYTE # rs_dest_addr f # rs_src_addr f # rs_payload_len f # ?pl
      @ ucast (drop_bit 8 ?crc) # ucast ?crc # rest"
  have buf: "w @ rest = ?buf" using enc(1) by simp
  have body: "take (3 + ?p) (drop 1 ?buf) = ?body"
    using len by (simp add: numeral_3_eq_3)
  have hi: "?buf ! (RS485_HEADER_SIZE + ?p) = ucast (drop_bit 8 ?crc)"
    and lo: "?buf ! (RS485_HEADER_SIZE + ?p + 1) = ucast ?crc"
    using len by (simp_all add: RS485_HEADER_SIZE_def nth_append numeral_eq_Suc)
  have pay: "take ?p (drop RS485_HEADER_SIZE ?buf) = ?pl"
    using len by (simp add: RS485_HEADER_SIZE_def numeral_eq_Suc)
  have total: "6 + ?p \<le> length ?buf" using len by simp
  have hd: "?buf ! 0 = RS485_START_BYTE" "?buf ! 1 = rs_dest_addr f" "?buf ! 2 = rs_src_addr f"
    "?buf ! 3 = rs_payload_len f" by simp_all
  show ?thesis
    unfolding buf rs485_parse_def option.case hd body hi lo pay Let_def crc_bytes_join
    using total enc(2) by (simp add: RS485_MIN_FRAME_def RS485_HEADER_SIZE_def RS485_CRC_SIZE_def)
qed

text \<open>
  C22.  Round trip: parsing what \<open>rs485_encode\<close> wrote, also with further bytes behind it in the
  receive buffer, succeeds and restores addresses, length and payload; the unused tail of the
  output frame's payload array is not touched.
\<close>

theorem rs485_roundtrip:
  assumes "rs485_encode (Some f) n = Some w" and "length (rs_payload f) = RS485_MAX_FRAME_PAYLOAD"
  shows "rs485_parse (Some (w @ rest)) out =
    (RS485_OK, out\<lparr>rs_dest_addr := rs_dest_addr f, rs_src_addr := rs_src_addr f,
       rs_payload_len := rs_payload_len f,
       rs_payload := take (unat (rs_payload_len f)) (rs_payload f)
                     @ drop (unat (rs_payload_len f)) (rs_payload out)\<rparr>)"
  by (rule parse_encode[OF assms])

definition demo_frame :: RS485Frame_t where
  "demo_frame = \<lparr>rs_dest_addr = 2, rs_src_addr = 1, rs_payload_len = 3,
     rs_payload = [10, 20, 30] @ replicate 125 0\<rparr>"

lemma demo_frame_encodes:
  "rs485_encode (Some demo_frame) 64 = Some (0xAA # [2, 1, 3, 10, 20, 30] @
     [ucast (drop_bit 8 (rs485_crc16 [2, 1, 3, 10, 20, 30])), ucast (rs485_crc16 [2, 1, 3, 10, 20, 30])])"
  by (simp add: rs485_encode_def demo_frame_def Let_def rs485_consts)

theorem rs485_roundtrip_witness:
  "rs485_parse (Some ((0xAA # [2, 1, 3, 10, 20, 30] @
     [ucast (drop_bit 8 (rs485_crc16 [2, 1, 3, 10, 20, 30])), ucast (rs485_crc16 [2, 1, 3, 10, 20, 30])]) @ [1, 2]))
     demo_frame = (RS485_OK, demo_frame)"
  using rs485_roundtrip[OF demo_frame_encodes, of "[1, 2]" demo_frame]
  by (simp add: demo_frame_def RS485_MAX_FRAME_PAYLOAD_def)

text \<open>
  Error detection: a frame in which one byte of the addresses or the payload was changed on
  the wire is refused with \<open>RS485_ERR_CRC\<close>, for every frame and every position, and the output frame
  is not touched.
\<close>

theorem rs485_detects_corruption:
  assumes "rs485_encode (Some f) n = Some w" and "length (rs_payload f) = RS485_MAX_FRAME_PAYLOAD"
    and "1 \<le> i" and "i < 4 + unat (rs_payload_len f)" and "i \<noteq> 3" and "b \<noteq> w ! i"
  shows "rs485_parse (Some (w[i := b])) out = (RS485_ERR_CRC, out)"
proof -
  let ?p = "unat (rs_payload_len f)"
  define body where "body = [rs_dest_addr f, rs_src_addr f, rs_payload_len f] @ take ?p (rs_payload f)"
  let ?crc = "rs485_crc16 body"
  define tail where "tail = ([ucast (drop_bit 8 ?crc), ucast ?crc] :: bytes)"
  have plen: "?p \<le> RS485_MAX_FRAME_PAYLOAD" and w: "w = RS485_START_BYTE # body @ tail"
    using rs485_encode_Some[OF assms(1)] by (simp_all add: body_def tail_def)
  have len: "length body = 3 + ?p" and b2: "body ! 2 = rs_payload_len f"
    using plen assms(2) by (simp_all add: body_def)
  obtain j where j: "i = Suc j" "j < length body" "j \<noteq> 2"
    using assms(3-5) len by (cases i) auto
  define body' where "body' = body[j := b]"
  have wi: "w[i := b] = RS485_START_BYTE # body' @ tail"
    using w j by (simp add: list_update_append body'_def)
  have bj: "b \<noteq> body ! j" using assms(6) w j by (simp add: nth_append)
  have crc: "rs485_crc16 body' \<noteq> ?crc"
    using modbus.detects_update[OF j(2) bj] by (simp add: body'_def rs485_crc16_def)
  have len': "length body' = 3 + ?p" using len by (simp add: body'_def)
  have "(RS485_START_BYTE # body' @ tail) ! 3 = rs_payload_len f"
    using j len' b2 by (simp add: nth_append body'_def)
  moreover have "(RS485_START_BYTE # body' @ tail) ! (RS485_HEADER_SIZE + ?p) = ucast (drop_bit 8 ?crc)"
    and "(RS485_START_BYTE # body' @ tail) ! (RS485_HEADER_SIZE + ?p + 1) = ucast ?crc"
    using len' by (simp_all add: RS485_HEADER_SIZE_def nth_append tail_def)
  moreover have "take (3 + ?p) (drop 1 (RS485_START_BYTE # body' @ tail)) = body'"
    using len' by simp
  moreover have "length (RS485_START_BYTE # body' @ tail) = 6 + ?p"
    using len' by (simp add: tail_def)
  ultimately show ?thesis
    unfolding wi rs485_parse_def option.case Let_def using plen crc crc_bytes_join[of ?crc]
    by (simp only: RS485_MIN_FRAME_def RS485_HEADER_SIZE_def RS485_CRC_SIZE_def) simp
qed

theorem rs485_detects_corruption_witness:
  "rs485_parse (Some ((0xAA # [2, 1, 3, 10, 20, 30] @ [ucast (drop_bit 8 (rs485_crc16 [2, 1, 3, 10, 20, 30])),
     ucast (rs485_crc16 [2, 1, 3, 10, 20, 30])])[5 := 21])) demo_frame = (RS485_ERR_CRC, demo_frame)"
  by (rule rs485_detects_corruption[OF demo_frame_encodes])
    (simp_all add: demo_frame_def RS485_MAX_FRAME_PAYLOAD_def)

end
