(* ===== verification/Actuator_Failsafe.thy ===== *)
theory Actuator_Failsafe
  imports Iot_Prelude
begin

text \<open>
  The actuator fail-safe decision table (\<open>firmware/shared/actuator_failsafe.{h,c}\<close>).  The state
  is the registered prefix of \<open>g_failsafe_table\<close> and the initialisation flag.  \<open>execute\<close> also
  returns the mode the code selects for the HAL, \<open>None\<close> while the last state is held.  The module
  is an instance of the bounded keyed table.
\<close>

section \<open>Data\<close>

definition ACTUATOR_FAILSAFE_MAX_ENTRIES :: nat where "ACTUATOR_FAILSAFE_MAX_ENTRIES = 16"

datatype ActuatorFailSafeMode_t =
  FAILSAFE_DE_ENERGIZE | FAILSAFE_HOLD_LAST | FAILSAFE_FORCE_OFF | FAILSAFE_FORCE_SAFE_POS

datatype ActuatorSafetyClass_t = ACTUATOR_SAFETY_CRITICAL | ACTUATOR_SAFETY_STANDARD

record ActuatorFailSafeEntry_t =
  fs_actuator_id :: u8
  fs_criticality :: ActuatorSafetyClass_t
  fs_power_loss_mode :: ActuatorFailSafeMode_t
  fs_comms_loss_mode :: ActuatorFailSafeMode_t
  fs_comms_timeout_sec :: u16

record failsafe =
  fs_table :: "ActuatorFailSafeEntry_t list"
  fs_g_initialised :: bool

section \<open>Operations\<close>

definition actuator_failsafe_init :: "failsafe \<Rightarrow> bool \<times> failsafe" where
  "actuator_failsafe_init g = (True, \<lparr>fs_table = [], fs_g_initialised = True\<rparr>)"

definition actuator_failsafe_register ::
  "failsafe \<Rightarrow> ActuatorFailSafeEntry_t option \<Rightarrow> bool \<times> failsafe"
where
  "actuator_failsafe_register g entry =
    (case entry of
       None \<Rightarrow> (False, g)
     | Some e \<Rightarrow>
         if \<not> fs_g_initialised g then (False, g)
         else if ACTUATOR_FAILSAFE_MAX_ENTRIES \<le> length (fs_table g) then (False, g)
         else (True, g\<lparr>fs_table := list_put fs_actuator_id e (fs_table g)\<rparr>))"

definition actuator_failsafe_lookup :: "failsafe \<Rightarrow> u8 \<Rightarrow> bool \<Rightarrow> ActuatorFailSafeEntry_t option" where
  "actuator_failsafe_lookup g actuator_id is_power_loss =
    (if \<not> fs_g_initialised g then None
     else find (\<lambda>x. fs_actuator_id x = actuator_id) (fs_table g))"

definition actuator_failsafe_execute ::
  "failsafe \<Rightarrow> u8 \<Rightarrow> bool \<Rightarrow> u16 \<Rightarrow> bool \<times> ActuatorFailSafeMode_t option"
where
  "actuator_failsafe_execute g actuator_id is_power_loss comms_loss_elapsed_sec =
    (if \<not> fs_g_initialised g then (False, None)
     else (case actuator_failsafe_lookup g actuator_id is_power_loss of
        None \<Rightarrow> (False, None)
      | Some entry \<Rightarrow>
          if is_power_loss then (True, Some (fs_power_loss_mode entry))
          else if comms_loss_elapsed_sec < fs_comms_timeout_sec entry then (True, None)
          else (True, Some (fs_comms_loss_mode entry))))"

definition actuator_failsafe_count :: "failsafe \<Rightarrow> u8" where
  "actuator_failsafe_count g = word_of_nat (length (fs_table g))"

section \<open>The table as a registry\<close>

definition failsafe_ok :: "failsafe \<Rightarrow> bool" where
  "failsafe_ok g \<longleftrightarrow> fs_g_initialised g \<and> length (fs_table g) \<le> ACTUATOR_FAILSAFE_MAX_ENTRIES
     \<and> distinct (map fs_actuator_id (fs_table g))"

definition failsafe_put :: "failsafe \<Rightarrow> ActuatorFailSafeEntry_t \<Rightarrow> failsafe option" where
  "failsafe_put g e = (case actuator_failsafe_register g (Some e) of
     (ok, g') \<Rightarrow> if ok then Some g' else None)"

definition failsafe_get :: "failsafe \<Rightarrow> u8 \<Rightarrow> ActuatorFailSafeEntry_t option" where
  "failsafe_get g a = actuator_failsafe_lookup g a False"

lemma failsafe_put_eq:
  "failsafe_put g e = Some g' \<longleftrightarrow> fs_g_initialised g \<and> length (fs_table g) < ACTUATOR_FAILSAFE_MAX_ENTRIES
     \<and> g' = g\<lparr>fs_table := list_put fs_actuator_id e (fs_table g)\<rparr>"
  by (auto simp: failsafe_put_def actuator_failsafe_register_def)

lemma failsafe_put_ok: "failsafe_ok g \<Longrightarrow> failsafe_put g e = Some g' \<Longrightarrow> failsafe_ok g'"
  using length_list_put[of fs_actuator_id e "fs_table g"]
  by (simp add: failsafe_put_eq failsafe_ok_def distinct_list_put)

lemma failsafe_get_put:
  "failsafe_put g e = Some g' \<Longrightarrow>
    failsafe_get g' k = (if k = fs_actuator_id e then Some e else failsafe_get g k)"
  by (auto simp: failsafe_put_eq failsafe_get_def actuator_failsafe_lookup_def find_list_put)

interpretation failsafe_table: bounded_table fs_actuator_id failsafe_get failsafe_put failsafe_ok
  "\<lambda>g. length (fs_table g)" ACTUATOR_FAILSAFE_MAX_ENTRIES
proof
  fix g e g'
  show "failsafe_ok g \<Longrightarrow> length (fs_table g) < ACTUATOR_FAILSAFE_MAX_ENTRIES \<Longrightarrow> failsafe_put g e \<noteq> None"
    by (simp add: failsafe_put_def actuator_failsafe_register_def failsafe_ok_def)
  show "failsafe_ok g \<Longrightarrow> failsafe_put g e = Some g' \<Longrightarrow> failsafe_ok g'"
    by (rule failsafe_put_ok)
qed (auto simp: failsafe_get_put failsafe_put_eq failsafe_ok_def length_list_put)

lemma failsafe_ok_init: "failsafe_ok (snd (actuator_failsafe_init g))"
  by (simp add: failsafe_ok_def actuator_failsafe_init_def)

section \<open>Properties\<close>

text \<open>
  After initialisation, registering up to sixteen entries always succeeds, and looking an
  actuator up then gives the entry registered last for it, or nothing when there was none.
\<close>

theorem failsafe_register_lookup:
  assumes "length es \<le> ACTUATOR_FAILSAFE_MAX_ENTRIES"
  shows "\<exists>g'. put_all failsafe_put (snd (actuator_failsafe_init g)) es = Some g' \<and> failsafe_ok g' \<and>
    (\<forall>a. actuator_failsafe_lookup g' a pl = find (\<lambda>e. fs_actuator_id e = a) (rev es))"
proof -
  have "length (fs_table (snd (actuator_failsafe_init g))) + length es \<le> ACTUATOR_FAILSAFE_MAX_ENTRIES"
    using assms by (simp add: actuator_failsafe_init_def)
  from failsafe_table.register_all[OF failsafe_ok_init this] obtain g' where
    g': "put_all failsafe_put (snd (actuator_failsafe_init g)) es = Some g'" "failsafe_ok g'"
    "\<And>k. failsafe_get g' k = (case find (\<lambda>e. fs_actuator_id e = k) (rev es) of
        Some e \<Rightarrow> Some e | None \<Rightarrow> failsafe_get (snd (actuator_failsafe_init g)) k)"
    by blast
  have "failsafe_get (snd (actuator_failsafe_init g)) k = None" for k
    by (simp add: failsafe_get_def actuator_failsafe_lookup_def actuator_failsafe_init_def)
  with g' have "actuator_failsafe_lookup g' a pl = find (\<lambda>e. fs_actuator_id e = a) (rev es)" for a
    by (auto simp: failsafe_get_def actuator_failsafe_lookup_def split: option.splits)
  with g' show ?thesis by blast
qed

definition demo_failsafe :: "u8 \<Rightarrow> u16 \<Rightarrow> ActuatorFailSafeEntry_t" where
  "demo_failsafe a t = \<lparr>fs_actuator_id = a, fs_criticality = ACTUATOR_SAFETY_CRITICAL,
     fs_power_loss_mode = FAILSAFE_FORCE_SAFE_POS, fs_comms_loss_mode = FAILSAFE_FORCE_OFF,
     fs_comms_timeout_sec = t\<rparr>"

theorem failsafe_register_lookup_witness:
  "\<exists>g'. put_all failsafe_put (snd (actuator_failsafe_init \<lparr>fs_table = [], fs_g_initialised = False\<rparr>))
      [demo_failsafe 1 30, demo_failsafe 2 5, demo_failsafe 1 10] = Some g' \<and>
     actuator_failsafe_lookup g' 1 False = Some (demo_failsafe 1 10)"
  using failsafe_register_lookup[of "[demo_failsafe 1 30, demo_failsafe 2 5, demo_failsafe 1 10]"
      "\<lparr>fs_table = [], fs_g_initialised = False\<rparr>" False]
  by (auto simp: ACTUATOR_FAILSAFE_MAX_ENTRIES_def demo_failsafe_def)

text \<open>
  Power loss and communication loss are not conflated: for a registered actuator power loss
  selects its power-loss mode at once, communication loss selects nothing before the configured
  timeout and the communication-loss mode from the timeout on; an unregistered actuator is an error.
\<close>

theorem failsafe_execute_modes:
  assumes "fs_g_initialised g"
  shows "actuator_failsafe_execute g a pl elapsed =
    (case failsafe_get g a of
       None \<Rightarrow> (False, None)
     | Some e \<Rightarrow> (True,
         if pl then Some (fs_power_loss_mode e)
         else if unat elapsed < unat (fs_comms_timeout_sec e) then None
         else Some (fs_comms_loss_mode e)))"
  using assms
  by (auto simp: actuator_failsafe_execute_def failsafe_get_def actuator_failsafe_lookup_def
      word_less_nat_alt split: option.splits)

theorem failsafe_execute_modes_witness:
  "actuator_failsafe_execute \<lparr>fs_table = [demo_failsafe 1 30], fs_g_initialised = True\<rparr> 1 False 30
     = (True, Some FAILSAFE_FORCE_OFF)"
  by (simp add: failsafe_execute_modes failsafe_get_def actuator_failsafe_lookup_def demo_failsafe_def)

text \<open>
  A full table refuses every registration, also one that would only change the entry of an
  actuator it already holds: the capacity test comes before the search for an existing entry.
\<close>

theorem failsafe_full_refuses_update:
  assumes "ACTUATOR_FAILSAFE_MAX_ENTRIES \<le> length (fs_table g)"
  shows "actuator_failsafe_register g entry = (False, g)"
  using assms by (auto simp: actuator_failsafe_register_def split: option.splits)

theorem failsafe_full_refuses_update_witness:
  "actuator_failsafe_register
     \<lparr>fs_table = map (\<lambda>i. demo_failsafe (word_of_nat i) 30) [0..<16], fs_g_initialised = True\<rparr>
     (Some (demo_failsafe 3 10))
   = (False, \<lparr>fs_table = map (\<lambda>i. demo_failsafe (word_of_nat i) 30) [0..<16], fs_g_initialised = True\<rparr>)"
  by (rule failsafe_full_refuses_update) (simp add: ACTUATOR_FAILSAFE_MAX_ENTRIES_def)

end
