(* ===== verification/Profiles.thy ===== *)
theory Profiles
  imports Rule_Engine Sensor_Validation Actuator_Failsafe
begin

text \<open>
  The four domain profiles (\<open>firmware/profiles/{home,agriculture,hvac,water_treatment}\<close>): rule tables,
  plausibility bounds, fail-safe tables, the functions of their vtables, and the HVAC short-cycle
  protection with its own state.  Float literals are their binary32 patterns; the lemma
  \<open>profile_literals\<close> ties them to the numbers in the source.  The statically allocated history buffers
  are named by their number in the profile.  What the core relies on is the locale
  \<open>domain_profile\<close>, interpreted for each of the four.
\<close>

section \<open>Shared shape\<close>

text \<open>Enum values of \<open>ActuatorFailSafeMode_t\<close>, which the vtable functions return as \<open>uint8_t\<close>.\<close>

primrec failsafe_code :: "ActuatorFailSafeMode_t \<Rightarrow> u8" where
  "failsafe_code FAILSAFE_DE_ENERGIZE = 0"
| "failsafe_code FAILSAFE_HOLD_LAST = 1"
| "failsafe_code FAILSAFE_FORCE_OFF = 2"
| "failsafe_code FAILSAFE_FORCE_SAFE_POS = 3"

text \<open>The loop of every \<open>*_failsafe_register_all\<close> and of every \<open>*_get_comms_timeout\<close>.\<close>

fun register_table :: "ActuatorFailSafeEntry_t list \<Rightarrow> failsafe \<Rightarrow> bool \<times> failsafe" where
  "register_table [] g = (True, g)"
| "register_table (e # es) g =
    (case actuator_failsafe_register g (Some e) of
       (ok, g') \<Rightarrow> (case register_table es g' of (success, g'') \<Rightarrow> (ok \<and> success, g'')))"

definition comms_timeout_in :: "ActuatorFailSafeEntry_t list \<Rightarrow> u8 \<Rightarrow> u16" where
  "comms_timeout_in table actuator_id =
    (case find (\<lambda>e. fs_actuator_id e = actuator_id) table of Some e \<Rightarrow> fs_comms_timeout_sec e | None \<Rightarrow> 0)"

definition in_bounds :: "SensorValidationBounds_t option \<Rightarrow> f32 \<Rightarrow> bool" where
  "in_bounds bounds v =
    (case bounds of None \<Rightarrow> False
     | Some b \<Rightarrow> \<not> (f32_lt v (vb_min_physical b) \<or> f32_lt (vb_max_physical b) v))"

section \<open>Home and building\<close>

definition HOME_RULE_DOOR_LOCK_CRITICAL :: u16 where "HOME_RULE_DOOR_LOCK_CRITICAL = 1001"
definition HOME_RULE_IRRIGATION_OPERATIONAL :: u16 where "HOME_RULE_IRRIGATION_OPERATIONAL = 2001"
definition HOME_RULE_LIGHTING_OPERATIONAL :: u16 where "HOME_RULE_LIGHTING_OPERATIONAL = 2002"
definition HOME_METRIC_SECURITY_STATE :: u8 where "HOME_METRIC_SECURITY_STATE = 10"
definition HOME_METRIC_DOOR_CONTACT :: u8 where "HOME_METRIC_DOOR_CONTACT = 11"
definition HOME_METRIC_LIGHT_LEVEL :: u8 where "HOME_METRIC_LIGHT_LEVEL = 12"
definition HOME_METRIC_SOIL_MOISTURE :: u8 where "HOME_METRIC_SOIL_MOISTURE = 13"
definition HOME_ACTUATOR_DOOR_LOCK :: u8 where "HOME_ACTUATOR_DOOR_LOCK = 1"
definition HOME_ACTUATOR_IRRIGATION_VALVE :: u8 where "HOME_ACTUATOR_IRRIGATION_VALVE = 2"
definition HOME_ACTUATOR_LIGHT_RELAY :: u8 where "HOME_ACTUATOR_LIGHT_RELAY = 3"
definition HOME_DOOR_LOCK_COMMS_TIMEOUT :: u16 where "HOME_DOOR_LOCK_COMMS_TIMEOUT = 0"
definition HOME_IRRIGATION_COMMS_TIMEOUT :: u16 where "HOME_IRRIGATION_COMMS_TIMEOUT = 600"
definition HOME_LIGHT_RELAY_COMMS_TIMEOUT :: u16 where "HOME_LIGHT_RELAY_COMMS_TIMEOUT = 0"

definition home_rule_door_lock :: RuleEntry_t where
  "home_rule_door_lock = \<lparr>re_rule_id = HOME_RULE_DOOR_LOCK_CRITICAL, re_priority = 0, re_threshold = 0x3F800000,
     re_action_type = RULE_ACTION_SET_ACTUATOR, re_actuator_id = HOME_ACTUATOR_DOOR_LOCK, re_metric_id = HOME_METRIC_SECURITY_STATE,
     re_rule_class = RULE_CLASS_SAFETY_LOCKED, re_interlock_id = 0, re_comparison_type = RULE_COMPARE_ABOVE,
     re_reserved = (0, 0, 0)\<rparr>"

definition home_rule_irrigation :: RuleEntry_t where
  "home_rule_irrigation = \<lparr>re_rule_id = HOME_RULE_IRRIGATION_OPERATIONAL, re_priority = 5, re_threshold = 0x41F00000,
     re_action_type = RULE_ACTION_SET_ACTUATOR, re_actuator_id = HOME_ACTUATOR_IRRIGATION_VALVE, re_metric_id = HOME_METRIC_SOIL_MOISTURE,
     re_rule_class = RULE_CLASS_OPERATIONAL, re_interlock_id = 0, re_comparison_type = RULE_COMPARE_ABOVE,
     re_reserved = (0, 0, 0)\<rparr>"

definition home_rule_lighting :: RuleEntry_t where
  "home_rule_lighting = \<lparr>re_rule_id = HOME_RULE_LIGHTING_OPERATIONAL, re_priority = 8, re_threshold = 0x42C80000,
     re_action_type = RULE_ACTION_SET_ACTUATOR, re_actuator_id = HOME_ACTUATOR_LIGHT_RELAY, re_metric_id = HOME_METRIC_LIGHT_LEVEL,
     re_rule_class = RULE_CLASS_OPERATIONAL, re_interlock_id = 0, re_comparison_type = RULE_COMPARE_ABOVE,
     re_reserved = (0, 0, 0)\<rparr>"

definition home_rules :: "RuleEntry_t list" where
  "home_rules = [home_rule_door_lock, home_rule_irrigation, home_rule_lighting]"

definition home_door_contact_bounds :: SensorValidationBounds_t where
  "home_door_contact_bounds = \<lparr>vb_min_physical = 0x00000000, vb_max_physical = 0x3F800000, vb_max_rate_of_change = 0x40000000,
     vb_stuck_timeout_sec = 0, vb_cross_check_node_id = 0\<rparr>"

definition home_light_level_bounds :: SensorValidationBounds_t where
  "home_light_level_bounds = \<lparr>vb_min_physical = 0x00000000, vb_max_physical = 0x447A0000, vb_max_rate_of_change = 0x43FA0000,
     vb_stuck_timeout_sec = 3600, vb_cross_check_node_id = 0\<rparr>"

definition home_soil_moisture_bounds :: SensorValidationBounds_t where
  "home_soil_moisture_bounds = \<lparr>vb_min_physical = 0x00000000, vb_max_physical = 0x42C80000, vb_max_rate_of_change = 0x41200000,
     vb_stuck_timeout_sec = 7200, vb_cross_check_node_id = 0\<rparr>"

definition home_get_validation_bounds :: "u8 \<Rightarrow> SensorValidationBounds_t option" where
  "home_get_validation_bounds metric_id =
    (if metric_id = HOME_METRIC_DOOR_CONTACT then Some home_door_contact_bounds
     else if metric_id = HOME_METRIC_LIGHT_LEVEL then Some home_light_level_bounds
     else if metric_id = HOME_METRIC_SOIL_MOISTURE then Some home_soil_moisture_bounds
     else None)"

definition home_get_metric_history :: "u8 \<Rightarrow> nat option" where
  "home_get_metric_history metric_id =
    (if metric_id = HOME_METRIC_DOOR_CONTACT then Some 0
     else if metric_id = HOME_METRIC_LIGHT_LEVEL then Some 1
     else if metric_id = HOME_METRIC_SOIL_MOISTURE then Some 2
     else None)"

definition home_validateSensorReading :: "SensorReading_t option \<Rightarrow> bool" where
  "home_validateSensorReading reading =
    (case reading of None \<Rightarrow> False
     | Some r \<Rightarrow> f32_le 0 (sr_value r))"

definition home_getFailSafeMode :: "u8 \<Rightarrow> bool \<Rightarrow> u8" where
  "home_getFailSafeMode actuator_id is_power_loss =
    (if is_power_loss then
       (if actuator_id = HOME_ACTUATOR_DOOR_LOCK then failsafe_code FAILSAFE_FORCE_SAFE_POS
        else if actuator_id = HOME_ACTUATOR_IRRIGATION_VALVE then failsafe_code FAILSAFE_FORCE_OFF
        else if actuator_id = HOME_ACTUATOR_LIGHT_RELAY then failsafe_code FAILSAFE_FORCE_OFF
        else failsafe_code FAILSAFE_DE_ENERGIZE)
     else
       (if actuator_id = HOME_ACTUATOR_DOOR_LOCK then failsafe_code FAILSAFE_HOLD_LAST
        else if actuator_id = HOME_ACTUATOR_IRRIGATION_VALVE then failsafe_code FAILSAFE_HOLD_LAST
        else if actuator_id = HOME_ACTUATOR_LIGHT_RELAY then failsafe_code FAILSAFE_HOLD_LAST
        else failsafe_code FAILSAFE_HOLD_LAST))"

definition home_executeAction :: "u8 \<Rightarrow> u8 \<Rightarrow> bool" where
  "home_executeAction actuator_id state = True"

definition home_profile_vtable :: "unit DomainProfileVTable_t" where
  "home_profile_vtable = \<lparr>getRuleTable = (\<lambda>_. Some home_rules),
     validateSensorReading = (\<lambda>_. home_validateSensorReading),
     getFailSafeMode = (\<lambda>_. home_getFailSafeMode),
     executeAction = (\<lambda>p a s. (home_executeAction a s, p))\<rparr>"

definition home_fs_door_lock :: ActuatorFailSafeEntry_t where
  "home_fs_door_lock = \<lparr>fs_actuator_id = HOME_ACTUATOR_DOOR_LOCK, fs_criticality = ACTUATOR_SAFETY_CRITICAL,
     fs_power_loss_mode = FAILSAFE_FORCE_SAFE_POS, fs_comms_loss_mode = FAILSAFE_HOLD_LAST, fs_comms_timeout_sec = HOME_DOOR_LOCK_COMMS_TIMEOUT\<rparr>"

definition home_fs_irrigation :: ActuatorFailSafeEntry_t where
  "home_fs_irrigation = \<lparr>fs_actuator_id = HOME_ACTUATOR_IRRIGATION_VALVE, fs_criticality = ACTUATOR_SAFETY_STANDARD,
     fs_power_loss_mode = FAILSAFE_FORCE_OFF, fs_comms_loss_mode = FAILSAFE_HOLD_LAST, fs_comms_timeout_sec = HOME_IRRIGATION_COMMS_TIMEOUT\<rparr>"

definition home_fs_light :: ActuatorFailSafeEntry_t where
  "home_fs_light = \<lparr>fs_actuator_id = HOME_ACTUATOR_LIGHT_RELAY, fs_criticality = ACTUATOR_SAFETY_STANDARD,
     fs_power_loss_mode = FAILSAFE_FORCE_OFF, fs_comms_loss_mode = FAILSAFE_HOLD_LAST, fs_comms_timeout_sec = HOME_LIGHT_RELAY_COMMS_TIMEOUT\<rparr>"

definition home_failsafe_table :: "ActuatorFailSafeEntry_t list" where
  "home_failsafe_table = [home_fs_door_lock, home_fs_irrigation, home_fs_light]"

definition home_failsafe_register_all :: "failsafe \<Rightarrow> bool \<times> failsafe" where
  "home_failsafe_register_all g = register_table home_failsafe_table g"

definition home_get_comms_timeout :: "u8 \<Rightarrow> u16" where
  "home_get_comms_timeout actuator_id = comms_timeout_in home_failsafe_table actuator_id"

lemmas home_consts = HOME_RULE_DOOR_LOCK_CRITICAL_def HOME_RULE_IRRIGATION_OPERATIONAL_def HOME_RULE_LIGHTING_OPERATIONAL_def HOME_METRIC_SECURITY_STATE_def HOME_METRIC_DOOR_CONTACT_def HOME_METRIC_LIGHT_LEVEL_def HOME_METRIC_SOIL_MOISTURE_def HOME_ACTUATOR_DOOR_LOCK_def HOME_ACTUATOR_IRRIGATION_VALVE_def HOME_ACTUATOR_LIGHT_RELAY_def HOME_DOOR_LOCK_COMMS_TIMEOUT_def HOME_IRRIGATION_COMMS_TIMEOUT_def HOME_LIGHT_RELAY_COMMS_TIMEOUT_def

lemmas home_rule_defs = home_rule_door_lock_def home_rule_irrigation_def home_rule_lighting_def home_rules_def

lemmas home_fs_defs = home_fs_door_lock_def home_fs_irrigation_def home_fs_light_def home_failsafe_table_def

lemmas home_bounds_defs = home_door_contact_bounds_def home_light_level_bounds_def home_soil_moisture_bounds_def home_get_validation_bounds_def

section \<open>Agriculture\<close>

definition AGRI_RULE_PUMP_DRY_RUN_CRITICAL :: u16 where "AGRI_RULE_PUMP_DRY_RUN_CRITICAL = 3001"
definition AGRI_RULE_IRRIGATION_OPERATIONAL :: u16 where "AGRI_RULE_IRRIGATION_OPERATIONAL = 3002"
definition AGRI_RULE_FROST_PROTECT_OPERATIONAL :: u16 where "AGRI_RULE_FROST_PROTECT_OPERATIONAL = 3003"
definition AGRI_METRIC_SOIL_MOISTURE :: u8 where "AGRI_METRIC_SOIL_MOISTURE = 20"
definition AGRI_METRIC_AMBIENT_TEMP :: u8 where "AGRI_METRIC_AMBIENT_TEMP = 21"
definition AGRI_METRIC_AMBIENT_HUMIDITY :: u8 where "AGRI_METRIC_AMBIENT_HUMIDITY = 22"
definition AGRI_METRIC_WATER_LEVEL :: u8 where "AGRI_METRIC_WATER_LEVEL = 23"
definition AGRI_ACTUATOR_IRRIGATION_PUMP :: u8 where "AGRI_ACTUATOR_IRRIGATION_PUMP = 1"
definition AGRI_ACTUATOR_IRRIGATION_VALVE :: u8 where "AGRI_ACTUATOR_IRRIGATION_VALVE = 2"
definition AGRI_ACTUATOR_FROST_VALVE :: u8 where "AGRI_ACTUATOR_FROST_VALVE = 3"
definition AGRI_PUMP_COMMS_TIMEOUT :: u16 where "AGRI_PUMP_COMMS_TIMEOUT = 30"
definition AGRI_VALVE_COMMS_TIMEOUT :: u16 where "AGRI_VALVE_COMMS_TIMEOUT = 600"
definition AGRI_FROST_VALVE_COMMS_TIMEOUT :: u16 where "AGRI_FROST_VALVE_COMMS_TIMEOUT = 300"

definition agriculture_rule_dry_run :: RuleEntry_t where
  "agriculture_rule_dry_run = \<lparr>re_rule_id = AGRI_RULE_PUMP_DRY_RUN_CRITICAL, re_priority = 0, re_threshold = 0x41200000,
     re_action_type = RULE_ACTION_SET_ACTUATOR, re_actuator_id = AGRI_ACTUATOR_IRRIGATION_PUMP, re_metric_id = AGRI_METRIC_WATER_LEVEL,
     re_rule_class = RULE_CLASS_SAFETY_LOCKED, re_interlock_id = 0, re_comparison_type = RULE_COMPARE_BELOW,
     re_reserved = (0, 0, 0)\<rparr>"

definition agriculture_rule_irrigation :: RuleEntry_t where
  "agriculture_rule_irrigation = \<lparr>re_rule_id = AGRI_RULE_IRRIGATION_OPERATIONAL, re_priority = 5, re_threshold = 0x41C80000,
     re_action_type = RULE_ACTION_SET_ACTUATOR, re_actuator_id = AGRI_ACTUATOR_IRRIGATION_VALVE, re_metric_id = AGRI_METRIC_SOIL_MOISTURE,
     re_rule_class = RULE_CLASS_OPERATIONAL, re_interlock_id = 0, re_comparison_type = RULE_COMPARE_BELOW,
     re_reserved = (0, 0, 0)\<rparr>"

definition agriculture_rule_frost :: RuleEntry_t where
  "agriculture_rule_frost = \<lparr>re_rule_id = AGRI_RULE_FROST_PROTECT_OPERATIONAL, re_priority = 3, re_threshold = 0x40000000,
     re_action_type = RULE_ACTION_SET_ACTUATOR, re_actuator_id = AGRI_ACTUATOR_FROST_VALVE, re_metric_id = AGRI_METRIC_AMBIENT_TEMP,
     re_rule_class = RULE_CLASS_OPERATIONAL, re_interlock_id = 0, re_comparison_type = RULE_COMPARE_BELOW,
     re_reserved = (0, 0, 0)\<rparr>"

definition agriculture_rules :: "RuleEntry_t list" where
  "agriculture_rules = [agriculture_rule_dry_run, agriculture_rule_irrigation, agriculture_rule_frost]"

definition agriculture_soil_moisture_bounds :: SensorValidationBounds_t where
  "agriculture_soil_moisture_bounds = \<lparr>vb_min_physical = 0x00000000, vb_max_physical = 0x42C80000, vb_max_rate_of_change = 0x40A00000,
     vb_stuck_timeout_sec = 7200, vb_cross_check_node_id = 0\<rparr>"

definition agriculture_ambient_temp_bounds :: SensorValidationBounds_t where
  "agriculture_ambient_temp_bounds = \<lparr>vb_min_physical = 0xC2200000, vb_max_physical = 0x42700000, vb_max_rate_of_change = 0x40A00000,
     vb_stuck_timeout_sec = 3600, vb_cross_check_node_id = 0\<rparr>"

definition agriculture_ambient_humidity_bounds :: SensorValidationBounds_t where
  "agriculture_ambient_humidity_bounds = \<lparr>vb_min_physical = 0x00000000, vb_max_physical = 0x42C80000, vb_max_rate_of_change = 0x41200000,
     vb_stuck_timeout_sec = 3600, vb_cross_check_node_id = 0\<rparr>"

definition agriculture_water_level_bounds :: SensorValidationBounds_t where
  "agriculture_water_level_bounds = \<lparr>vb_min_physical = 0x00000000, vb_max_physical = 0x42C80000, vb_max_rate_of_change = 0x40000000,
     vb_stuck_timeout_sec = 1800, vb_cross_check_node_id = 0\<rparr>"

definition agriculture_get_validation_bounds :: "u8 \<Rightarrow> SensorValidationBounds_t option" where
  "agriculture_get_validation_bounds metric_id =
    (if metric_id = AGRI_METRIC_SOIL_MOISTURE then Some agriculture_soil_moisture_bounds
     else if metric_id = AGRI_METRIC_AMBIENT_TEMP then Some agriculture_ambient_temp_bounds
     else if metric_id = AGRI_METRIC_AMBIENT_HUMIDITY then Some agriculture_ambient_humidity_bounds
     else if metric_id = AGRI_METRIC_WATER_LEVEL then Some agriculture_water_level_bounds
     else None)"

definition agriculture_get_metric_history :: "u8 \<Rightarrow> nat option" where
  "agriculture_get_metric_history metric_id =
    (if metric_id = AGRI_METRIC_SOIL_MOISTURE then Some 0
     else if metric_id = AGRI_METRIC_AMBIENT_TEMP then Some 1
     else if metric_id = AGRI_METRIC_AMBIENT_HUMIDITY then Some 2
     else if metric_id = AGRI_METRIC_WATER_LEVEL then Some 3
     else None)"

definition agriculture_validateSensorReading :: "SensorReading_t option \<Rightarrow> bool" where
  "agriculture_validateSensorReading reading =
    (case reading of None \<Rightarrow> False
     | Some r \<Rightarrow> f32_le 0 (sr_value r))"

definition agriculture_getFailSafeMode :: "u8 \<Rightarrow> bool \<Rightarrow> u8" where
  "agriculture_getFailSafeMode actuator_id is_power_loss =
    (if is_power_loss then
       (if actuator_id = AGRI_ACTUATOR_IRRIGATION_PUMP then failsafe_code FAILSAFE_FORCE_OFF
        else if actuator_id = AGRI_ACTUATOR_IRRIGATION_VALVE then failsafe_code FAILSAFE_DE_ENERGIZE
        else if actuator_id = AGRI_ACTUATOR_FROST_VALVE then failsafe_code FAILSAFE_DE_ENERGIZE
        else failsafe_code FAILSAFE_DE_ENERGIZE)
     else
       (if actuator_id = AGRI_ACTUATOR_IRRIGATION_PUMP then failsafe_code FAILSAFE_FORCE_OFF
        else if actuator_id = AGRI_ACTUATOR_IRRIGATION_VALVE then failsafe_code FAILSAFE_HOLD_LAST
        else if actuator_id = AGRI_ACTUATOR_FROST_VALVE then failsafe_code FAILSAFE_HOLD_LAST
        else failsafe_code FAILSAFE_HOLD_LAST))"

definition agriculture_executeAction :: "u8 \<Rightarrow> u8 \<Rightarrow> bool" where
  "agriculture_executeAction actuator_id state = True"

definition agriculture_profile_vtable :: "unit DomainProfileVTable_t" where
  "agriculture_profile_vtable = \<lparr>getRuleTable = (\<lambda>_. Some agriculture_rules),
     validateSensorReading = (\<lambda>_. agriculture_validateSensorReading),
     getFailSafeMode = (\<lambda>_. agriculture_getFailSafeMode),
     executeAction = (\<lambda>p a s. (agriculture_executeAction a s, p))\<rparr>"

definition agriculture_fs_pump :: ActuatorFailSafeEntry_t where
  "agriculture_fs_pump = \<lparr>fs_actuator_id = AGRI_ACTUATOR_IRRIGATION_PUMP, fs_criticality = ACTUATOR_SAFETY_CRITICAL,
     fs_power_loss_mode = FAILSAFE_FORCE_OFF, fs_comms_loss_mode = FAILSAFE_FORCE_OFF, fs_comms_timeout_sec = AGRI_PUMP_COMMS_TIMEOUT\<rparr>"

definition agriculture_fs_valve :: ActuatorFailSafeEntry_t where
  "agriculture_fs_valve = \<lparr>fs_actuator_id = AGRI_ACTUATOR_IRRIGATION_VALVE, fs_criticality = ACTUATOR_SAFETY_STANDARD,
     fs_power_loss_mode = FAILSAFE_DE_ENERGIZE, fs_comms_loss_mode = FAILSAFE_HOLD_LAST, fs_comms_timeout_sec = AGRI_VALVE_COMMS_TIMEOUT\<rparr>"

definition agriculture_fs_frost :: ActuatorFailSafeEntry_t where
  "agriculture_fs_frost = \<lparr>fs_actuator_id = AGRI_ACTUATOR_FROST_VALVE, fs_criticality = ACTUATOR_SAFETY_STANDARD,
     fs_power_loss_mode = FAILSAFE_DE_ENERGIZE, fs_comms_loss_mode = FAILSAFE_HOLD_LAST, fs_comms_timeout_sec = AGRI_FROST_VALVE_COMMS_TIMEOUT\<rparr>"

definition agriculture_failsafe_table :: "ActuatorFailSafeEntry_t list" where
  "agriculture_failsafe_table = [agriculture_fs_pump, agriculture_fs_valve, agriculture_fs_frost]"

definition agriculture_failsafe_register_all :: "failsafe \<Rightarrow> bool \<times> failsafe" where
  "agriculture_failsafe_register_all g = register_table agriculture_failsafe_table g"

definition agriculture_get_comms_timeout :: "u8 \<Rightarrow> u16" where
  "agriculture_get_comms_timeout actuator_id = comms_timeout_in agriculture_failsafe_table actuator_id"

lemmas agriculture_consts = AGRI_RULE_PUMP_DRY_RUN_CRITICAL_def AGRI_RULE_IRRIGATION_OPERATIONAL_def AGRI_RULE_FROST_PROTECT_OPERATIONAL_def AGRI_METRIC_SOIL_MOISTURE_def AGRI_METRIC_AMBIENT_TEMP_def AGRI_METRIC_AMBIENT_HUMIDITY_def AGRI_METRIC_WATER_LEVEL_def AGRI_ACTUATOR_IRRIGATION_PUMP_def AGRI_ACTUATOR_IRRIGATION_VALVE_def AGRI_ACTUATOR_FROST_VALVE_def AGRI_PUMP_COMMS_TIMEOUT_def AGRI_VALVE_COMMS_TIMEOUT_def AGRI_FROST_VALVE_COMMS_TIMEOUT_def

lemmas agriculture_rule_defs = agriculture_rule_dry_run_def agriculture_rule_irrigation_def agriculture_rule_frost_def agriculture_rules_def

lemmas agriculture_fs_defs = agriculture_fs_pump_def agriculture_fs_valve_def agriculture_fs_frost_def agriculture_failsafe_table_def

lemmas agriculture_bounds_defs = agriculture_soil_moisture_bounds_def agriculture_ambient_temp_bounds_def agriculture_ambient_humidity_bounds_def agriculture_water_level_bounds_def agriculture_get_validation_bounds_def

section \<open>HVAC\<close>

definition HVAC_RULE_COMPRESSOR_POST_RUN_LOCKOUT :: u16 where "HVAC_RULE_COMPRESSOR_POST_RUN_LOCKOUT = 4001"
definition HVAC_RULE_COMFORT_SETPOINT :: u16 where "HVAC_RULE_COMFORT_SETPOINT = 4002"
definition HVAC_RULE_OVERTEMP_PROTECT :: u16 where "HVAC_RULE_OVERTEMP_PROTECT = 4003"
definition HVAC_METRIC_SUPPLY_TEMP :: u8 where "HVAC_METRIC_SUPPLY_TEMP = 30"
definition HVAC_METRIC_RETURN_TEMP :: u8 where "HVAC_METRIC_RETURN_TEMP = 31"
definition HVAC_METRIC_INDOOR_HUMIDITY :: u8 where "HVAC_METRIC_INDOOR_HUMIDITY = 32"
definition HVAC_METRIC_AMBIENT_TEMP :: u8 where "HVAC_METRIC_AMBIENT_TEMP = 33"
definition HVAC_ACTUATOR_COMPRESSOR_RELAY :: u8 where "HVAC_ACTUATOR_COMPRESSOR_RELAY = 1"
definition HVAC_ACTUATOR_DAMPER_MOTOR :: u8 where "HVAC_ACTUATOR_DAMPER_MOTOR = 2"
definition HVAC_ACTUATOR_FAN_MOTOR :: u8 where "HVAC_ACTUATOR_FAN_MOTOR = 3"
definition HVAC_COMPRESSOR_COMMS_TIMEOUT :: u16 where "HVAC_COMPRESSOR_COMMS_TIMEOUT = 30"
definition HVAC_DAMPER_COMMS_TIMEOUT :: u16 where "HVAC_DAMPER_COMMS_TIMEOUT = 300"
definition HVAC_FAN_COMMS_TIMEOUT :: u16 where "HVAC_FAN_COMMS_TIMEOUT = 300"

definition hvac_rule_post_run :: RuleEntry_t where
  "hvac_rule_post_run = \<lparr>re_rule_id = HVAC_RULE_COMPRESSOR_POST_RUN_LOCKOUT, re_priority = 0, re_threshold = 0x42340000,
     re_action_type = RULE_ACTION_SET_ACTUATOR, re_actuator_id = HVAC_ACTUATOR_COMPRESSOR_RELAY, re_metric_id = HVAC_METRIC_SUPPLY_TEMP,
     re_rule_class = RULE_CLASS_SAFETY_LOCKED, re_interlock_id = 0, re_comparison_type = RULE_COMPARE_ABOVE,
     re_reserved = (0, 0, 0)\<rparr>"

definition hvac_rule_overtemp :: RuleEntry_t where
  "hvac_rule_overtemp = \<lparr>re_rule_id = HVAC_RULE_OVERTEMP_PROTECT, re_priority = 0, re_threshold = 0x425C0000,
     re_action_type = RULE_ACTION_SET_ACTUATOR, re_actuator_id = HVAC_ACTUATOR_COMPRESSOR_RELAY, re_metric_id = HVAC_METRIC_SUPPLY_TEMP,
     re_rule_class = RULE_CLASS_SAFETY_LOCKED, re_interlock_id = 0, re_comparison_type = RULE_COMPARE_ABOVE,
     re_reserved = (0, 0, 0)\<rparr>"

definition hvac_rule_comfort :: RuleEntry_t where
  "hvac_rule_comfort = \<lparr>re_rule_id = HVAC_RULE_COMFORT_SETPOINT, re_priority = 5, re_threshold = 0x41A00000,
     re_action_type = RULE_ACTION_SET_ACTUATOR, re_actuator_id = HVAC_ACTUATOR_FAN_MOTOR, re_metric_id = HVAC_METRIC_RETURN_TEMP,
     re_rule_class = RULE_CLASS_OPERATIONAL, re_interlock_id = 0, re_comparison_type = RULE_COMPARE_BELOW,
     re_reserved = (0, 0, 0)\<rparr>"

definition hvac_rules :: "RuleEntry_t list" where
  "hvac_rules = [hvac_rule_post_run, hvac_rule_overtemp, hvac_rule_comfort]"

definition hvac_supply_temp_bounds :: SensorValidationBounds_t where
  "hvac_supply_temp_bounds = \<lparr>vb_min_physical = 0x00000000, vb_max_physical = 0x42700000, vb_max_rate_of_change = 0x40000000,
     vb_stuck_timeout_sec = 600, vb_cross_check_node_id = 0\<rparr>"

definition hvac_return_temp_bounds :: SensorValidationBounds_t where
  "hvac_return_temp_bounds = \<lparr>vb_min_physical = 0x00000000, vb_max_physical = 0x42700000, vb_max_rate_of_change = 0x3F800000,
     vb_stuck_timeout_sec = 900, vb_cross_check_node_id = 0\<rparr>"

definition hvac_indoor_humidity_bounds :: SensorValidationBounds_t where
  "hvac_indoor_humidity_bounds = \<lparr>vb_min_physical = 0x00000000, vb_max_physical = 0x42C80000, vb_max_rate_of_change = 0x40A00000,
     vb_stuck_timeout_sec = 1800, vb_cross_check_node_id = 0\<rparr>"

definition hvac_ambient_temp_bounds :: SensorValidationBounds_t where
  "hvac_ambient_temp_bounds = \<lparr>vb_min_physical = 0xC1200000, vb_max_physical = 0x42480000, vb_max_rate_of_change = 0x3F800000,
     vb_stuck_timeout_sec = 1800, vb_cross_check_node_id = 0\<rparr>"

definition hvac_get_validation_bounds :: "u8 \<Rightarrow> SensorValidationBounds_t option" where
  "hvac_get_validation_bounds metric_id =
    (if metric_id = HVAC_METRIC_SUPPLY_TEMP then Some hvac_supply_temp_bounds
     else if metric_id = HVAC_METRIC_RETURN_TEMP then Some hvac_return_temp_bounds
     else if metric_id = HVAC_METRIC_INDOOR_HUMIDITY then Some hvac_indoor_humidity_bounds
     else if metric_id = HVAC_METRIC_AMBIENT_TEMP then Some hvac_ambient_temp_bounds
     else None)"

definition hvac_get_metric_history :: "u8 \<Rightarrow> nat option" where
  "hvac_get_metric_history metric_id =
    (if metric_id = HVAC_METRIC_SUPPLY_TEMP then Some 0
     else if metric_id = HVAC_METRIC_RETURN_TEMP then Some 1
     else if metric_id = HVAC_METRIC_INDOOR_HUMIDITY then Some 2
     else if metric_id = HVAC_METRIC_AMBIENT_TEMP then Some 3
     else None)"

definition hvac_validateSensorReading :: "SensorReading_t option \<Rightarrow> bool" where
  "hvac_validateSensorReading reading =
    (case reading of None \<Rightarrow> False
     | Some r \<Rightarrow> in_bounds (hvac_get_validation_bounds (sr_metric_id r)) (sr_value r))"

definition hvac_getFailSafeMode :: "u8 \<Rightarrow> bool \<Rightarrow> u8" where
  "hvac_getFailSafeMode actuator_id is_power_loss =
    (if is_power_loss then
       (if actuator_id = HVAC_ACTUATOR_COMPRESSOR_RELAY then failsafe_code FAILSAFE_FORCE_OFF
        else if actuator_id = HVAC_ACTUATOR_DAMPER_MOTOR then failsafe_code FAILSAFE_FORCE_SAFE_POS
        else if actuator_id = HVAC_ACTUATOR_FAN_MOTOR then failsafe_code FAILSAFE_FORCE_OFF
        else failsafe_code FAILSAFE_DE_ENERGIZE)
     else
       (if actuator_id = HVAC_ACTUATOR_COMPRESSOR_RELAY then failsafe_code FAILSAFE_FORCE_OFF
        else if actuator_id = HVAC_ACTUATOR_DAMPER_MOTOR then failsafe_code FAILSAFE_HOLD_LAST
        else if actuator_id = HVAC_ACTUATOR_FAN_MOTOR then failsafe_code FAILSAFE_HOLD_LAST
        else failsafe_code FAILSAFE_HOLD_LAST))"

definition hvac_executeAction :: "u8 \<Rightarrow> u8 \<Rightarrow> bool" where
  "hvac_executeAction actuator_id state = True"

definition hvac_profile_vtable :: "unit DomainProfileVTable_t" where
  "hvac_profile_vtable = \<lparr>getRuleTable = (\<lambda>_. Some hvac_rules),
     validateSensorReading = (\<lambda>_. hvac_validateSensorReading),
     getFailSafeMode = (\<lambda>_. hvac_getFailSafeMode),
     executeAction = (\<lambda>p a s. (hvac_executeAction a s, p))\<rparr>"

definition hvac_fs_compressor :: ActuatorFailSafeEntry_t where
  "hvac_fs_compressor = \<lparr>fs_actuator_id = HVAC_ACTUATOR_COMPRESSOR_RELAY, fs_criticality = ACTUATOR_SAFETY_CRITICAL,
     fs_power_loss_mode = FAILSAFE_FORCE_OFF, fs_comms_loss_mode = FAILSAFE_FORCE_OFF, fs_comms_timeout_sec = HVAC_COMPRESSOR_COMMS_TIMEOUT\<rparr>"

definition hvac_fs_damper :: ActuatorFailSafeEntry_t where
  "hvac_fs_damper = \<lparr>fs_actuator_id = HVAC_ACTUATOR_DAMPER_MOTOR, fs_criticality = ACTUATOR_SAFETY_STANDARD,
     fs_power_loss_mode = FAILSAFE_FORCE_SAFE_POS, fs_comms_loss_mode = FAILSAFE_HOLD_LAST, fs_comms_timeout_sec = HVAC_DAMPER_COMMS_TIMEOUT\<rparr>"

definition hvac_fs_fan :: ActuatorFailSafeEntry_t where
  "hvac_fs_fan = \<lparr>fs_actuator_id = HVAC_ACTUATOR_FAN_MOTOR, fs_criticality = ACTUATOR_SAFETY_STANDARD,
     fs_power_loss_mode = FAILSAFE_FORCE_OFF, fs_comms_loss_mode = FAILSAFE_HOLD_LAST, fs_comms_timeout_sec = HVAC_FAN_COMMS_TIMEOUT\<rparr>"

definition hvac_failsafe_table :: "ActuatorFailSafeEntry_t list" where
  "hvac_failsafe_table = [hvac_fs_compressor, hvac_fs_damper, hvac_fs_fan]"

definition hvac_failsafe_register_all :: "failsafe \<Rightarrow> bool \<times> failsafe" where
  "hvac_failsafe_register_all g = register_table hvac_failsafe_table g"

definition hvac_get_comms_timeout :: "u8 \<Rightarrow> u16" where
  "hvac_get_comms_timeout actuator_id = comms_timeout_in hvac_failsafe_table actuator_id"

lemmas hvac_consts = HVAC_RULE_COMPRESSOR_POST_RUN_LOCKOUT_def HVAC_RULE_COMFORT_SETPOINT_def HVAC_RULE_OVERTEMP_PROTECT_def HVAC_METRIC_SUPPLY_TEMP_def HVAC_METRIC_RETURN_TEMP_def HVAC_METRIC_INDOOR_HUMIDITY_def HVAC_METRIC_AMBIENT_TEMP_def HVAC_ACTUATOR_COMPRESSOR_RELAY_def HVAC_ACTUATOR_DAMPER_MOTOR_def HVAC_ACTUATOR_FAN_MOTOR_def HVAC_COMPRESSOR_COMMS_TIMEOUT_def HVAC_DAMPER_COMMS_TIMEOUT_def HVAC_FAN_COMMS_TIMEOUT_def

lemmas hvac_rule_defs = hvac_rule_post_run_def hvac_rule_overtemp_def hvac_rule_comfort_def hvac_rules_def

lemmas hvac_fs_defs = hvac_fs_compressor_def hvac_fs_damper_def hvac_fs_fan_def hvac_failsafe_table_def

lemmas hvac_bounds_defs = hvac_supply_temp_bounds_def hvac_return_temp_bounds_def hvac_indoor_humidity_bounds_def hvac_ambient_temp_bounds_def hvac_get_validation_bounds_def

section \<open>Water treatment\<close>

definition WATER_RULE_CHLORINE_SAFETY :: u16 where "WATER_RULE_CHLORINE_SAFETY = 5001"
definition WATER_RULE_PH_HIGH_SAFETY :: u16 where "WATER_RULE_PH_HIGH_SAFETY = 5002"
definition WATER_RULE_PH_LOW_SAFETY :: u16 where "WATER_RULE_PH_LOW_SAFETY = 5004"
definition WATER_RULE_TANK_REFILL :: u16 where "WATER_RULE_TANK_REFILL = 5003"
definition WATER_METRIC_CHLORINE_LEVEL :: u8 where "WATER_METRIC_CHLORINE_LEVEL = 40"
definition WATER_METRIC_PH :: u8 where "WATER_METRIC_PH = 41"
definition WATER_METRIC_TANK_LEVEL :: u8 where "WATER_METRIC_TANK_LEVEL = 42"
definition WATER_METRIC_FLOW_RATE :: u8 where "WATER_METRIC_FLOW_RATE = 43"
definition WATER_ACTUATOR_DOSING_VALVE :: u8 where "WATER_ACTUATOR_DOSING_VALVE = 1"
definition WATER_ACTUATOR_MAIN_SUPPLY_VALVE :: u8 where "WATER_ACTUATOR_MAIN_SUPPLY_VALVE = 2"
definition WATER_ACTUATOR_CIRCULATION_PUMP :: u8 where "WATER_ACTUATOR_CIRCULATION_PUMP = 3"
definition WATER_DOSING_VALVE_COMMS_TIMEOUT :: u16 where "WATER_DOSING_VALVE_COMMS_TIMEOUT = 10"
definition WATER_MAIN_VALVE_COMMS_TIMEOUT :: u16 where "WATER_MAIN_VALVE_COMMS_TIMEOUT = 60"
definition WATER_CIRC_PUMP_COMMS_TIMEOUT :: u16 where "WATER_CIRC_PUMP_COMMS_TIMEOUT = 120"

definition water_rule_chlorine :: RuleEntry_t where
  "water_rule_chlorine = \<lparr>re_rule_id = WATER_RULE_CHLORINE_SAFETY, re_priority = 0, re_threshold = 0x40800000,
     re_action_type = RULE_ACTION_SET_ACTUATOR, re_actuator_id = WATER_ACTUATOR_DOSING_VALVE, re_metric_id = WATER_METRIC_CHLORINE_LEVEL,
     re_rule_class = RULE_CLASS_SAFETY_LOCKED, re_interlock_id = 0, re_comparison_type = RULE_COMPARE_ABOVE,
     re_reserved = (0, 0, 0)\<rparr>"

definition water_rule_ph_high :: RuleEntry_t where
  "water_rule_ph_high = \<lparr>re_rule_id = WATER_RULE_PH_HIGH_SAFETY, re_priority = 0, re_threshold = 0x41080000,
     re_action_type = RULE_ACTION_SET_ACTUATOR, re_actuator_id = WATER_ACTUATOR_DOSING_VALVE, re_metric_id = WATER_METRIC_PH,
     re_rule_class = RULE_CLASS_SAFETY_LOCKED, re_interlock_id = 0, re_comparison_type = RULE_COMPARE_ABOVE,
     re_reserved = (0, 0, 0)\<rparr>"

definition water_rule_ph_low :: RuleEntry_t where
  "water_rule_ph_low = \<lparr>re_rule_id = WATER_RULE_PH_LOW_SAFETY, re_priority = 0, re_threshold = 0x40D00000,
     re_action_type = RULE_ACTION_SET_ACTUATOR, re_actuator_id = WATER_ACTUATOR_DOSING_VALVE, re_metric_id = WATER_METRIC_PH,
     re_rule_class = RULE_CLASS_SAFETY_LOCKED, re_interlock_id = 0, re_comparison_type = RULE_COMPARE_BELOW,
     re_reserved = (0, 0, 0)\<rparr>"

definition water_rule_tank_refill :: RuleEntry_t where
  "water_rule_tank_refill = \<lparr>re_rule_id = WATER_RULE_TANK_REFILL, re_priority = 5, re_threshold = 0x41A00000,
     re_action_type = RULE_ACTION_SET_ACTUATOR, re_actuator_id = WATER_ACTUATOR_MAIN_SUPPLY_VALVE, re_metric_id = WATER_METRIC_TANK_LEVEL,
     re_rule_class = RULE_CLASS_OPERATIONAL, re_interlock_id = 0, re_comparison_type = RULE_COMPARE_BELOW,
     re_reserved = (0, 0, 0)\<rparr>"

definition water_rules :: "RuleEntry_t list" where
  "water_rules = [water_rule_chlorine, water_rule_ph_high, water_rule_ph_low, water_rule_tank_refill]"

definition water_chlorine_bounds :: SensorValidationBounds_t where
  "water_chlorine_bounds = \<lparr>vb_min_physical = 0x00000000, vb_max_physical = 0x41200000, vb_max_rate_of_change = 0x40000000,
     vb_stuck_timeout_sec = 1800, vb_cross_check_node_id = 0\<rparr>"

definition water_ph_bounds :: SensorValidationBounds_t where
  "water_ph_bounds = \<lparr>vb_min_physical = 0x00000000, vb_max_physical = 0x41600000, vb_max_rate_of_change = 0x3F800000,
     vb_stuck_timeout_sec = 3600, vb_cross_check_node_id = 0\<rparr>"

definition water_tank_level_bounds :: SensorValidationBounds_t where
  "water_tank_level_bounds = \<lparr>vb_min_physical = 0x00000000, vb_max_physical = 0x42C80000, vb_max_rate_of_change = 0x40A00000,
     vb_stuck_timeout_sec = 1800, vb_cross_check_node_id = 0\<rparr>"

definition water_flow_rate_bounds :: SensorValidationBounds_t where
  "water_flow_rate_bounds = \<lparr>vb_min_physical = 0x00000000, vb_max_physical = 0x42480000, vb_max_rate_of_change = 0x41200000,
     vb_stuck_timeout_sec = 900, vb_cross_check_node_id = 0\<rparr>"

definition water_get_validation_bounds :: "u8 \<Rightarrow> SensorValidationBounds_t option" where
  "water_get_validation_bounds metric_id =
    (if metric_id = WATER_METRIC_CHLORINE_LEVEL then Some water_chlorine_bounds
     else if metric_id = WATER_METRIC_PH then Some water_ph_bounds
     else if metric_id = WATER_METRIC_TANK_LEVEL then Some water_tank_level_bounds
     else if metric_id = WATER_METRIC_FLOW_RATE then Some water_flow_rate_bounds
     else None)"

definition water_get_metric_history :: "u8 \<Rightarrow> nat option" where
  "water_get_metric_history metric_id =
    (if metric_id = WATER_METRIC_CHLORINE_LEVEL then Some 0
     else if metric_id = WATER_METRIC_PH then Some 1
     else if metric_id = WATER_METRIC_TANK_LEVEL then Some 2
     else if metric_id = WATER_METRIC_FLOW_RATE then Some 3
     else None)"

definition water_validateSensorReading :: "SensorReading_t option \<Rightarrow> bool" where
  "water_validateSensorReading reading =
    (case reading of None \<Rightarrow> False
     | Some r \<Rightarrow> in_bounds (water_get_validation_bounds (sr_metric_id r)) (sr_value r))"

definition water_getFailSafeMode :: "u8 \<Rightarrow> bool \<Rightarrow> u8" where
  "water_getFailSafeMode actuator_id is_power_loss =
    (if is_power_loss then
       (if actuator_id = WATER_ACTUATOR_DOSING_VALVE then failsafe_code FAILSAFE_FORCE_OFF
        else if actuator_id = WATER_ACTUATOR_MAIN_SUPPLY_VALVE then failsafe_code FAILSAFE_DE_ENERGIZE
        else if actuator_id = WATER_ACTUATOR_CIRCULATION_PUMP then failsafe_code FAILSAFE_FORCE_OFF
        else failsafe_code FAILSAFE_DE_ENERGIZE)
     else
       (if actuator_id = WATER_ACTUATOR_DOSING_VALVE then failsafe_code FAILSAFE_FORCE_OFF
        else if actuator_id = WATER_ACTUATOR_MAIN_SUPPLY_VALVE then failsafe_code FAILSAFE_HOLD_LAST
        else if actuator_id = WATER_ACTUATOR_CIRCULATION_PUMP then failsafe_code FAILSAFE_HOLD_LAST
        else failsafe_code FAILSAFE_HOLD_LAST))"

definition water_executeAction :: "u8 \<Rightarrow> u8 \<Rightarrow> bool" where
  "water_executeAction actuator_id state = True"

definition water_profile_vtable :: "unit DomainProfileVTable_t" where
  "water_profile_vtable = \<lparr>getRuleTable = (\<lambda>_. Some water_rules),
     validateSensorReading = (\<lambda>_. water_validateSensorReading),
     getFailSafeMode = (\<lambda>_. water_getFailSafeMode),
     executeAction = (\<lambda>p a s. (water_executeAction a s, p))\<rparr>"

definition water_fs_dosing :: ActuatorFailSafeEntry_t where
  "water_fs_dosing = \<lparr>fs_actuator_id = WATER_ACTUATOR_DOSING_VALVE, fs_criticality = ACTUATOR_SAFETY_CRITICAL,
     fs_power_loss_mode = FAILSAFE_FORCE_OFF, fs_comms_loss_mode = FAILSAFE_FORCE_OFF, fs_comms_timeout_sec = WATER_DOSING_VALVE_COMMS_TIMEOUT\<rparr>"

definition water_fs_main :: ActuatorFailSafeEntry_t where
  "water_fs_main = \<lparr>fs_actuator_id = WATER_ACTUATOR_MAIN_SUPPLY_VALVE, fs_criticality = ACTUATOR_SAFETY_CRITICAL,
     fs_power_loss_mode = FAILSAFE_DE_ENERGIZE, fs_comms_loss_mode = FAILSAFE_HOLD_LAST, fs_comms_timeout_sec = WATER_MAIN_VALVE_COMMS_TIMEOUT\<rparr>"

definition water_fs_pump :: ActuatorFailSafeEntry_t where
  "water_fs_pump = \<lparr>fs_actuator_id = WATER_ACTUATOR_CIRCULATION_PUMP, fs_criticality = ACTUATOR_SAFETY_STANDARD,
     fs_power_loss_mode = FAILSAFE_FORCE_OFF, fs_comms_loss_mode = FAILSAFE_HOLD_LAST, fs_comms_timeout_sec = WATER_CIRC_PUMP_COMMS_TIMEOUT\<rparr>"

definition water_failsafe_table :: "ActuatorFailSafeEntry_t list" where
  "water_failsafe_table = [water_fs_dosing, water_fs_main, water_fs_pump]"

definition water_failsafe_register_all :: "failsafe \<Rightarrow> bool \<times> failsafe" where
  "water_failsafe_register_all g = register_table water_failsafe_table g"

definition water_get_comms_timeout :: "u8 \<Rightarrow> u16" where
  "water_get_comms_timeout actuator_id = comms_timeout_in water_failsafe_table actuator_id"

lemmas water_consts = WATER_RULE_CHLORINE_SAFETY_def WATER_RULE_PH_HIGH_SAFETY_def WATER_RULE_PH_LOW_SAFETY_def WATER_RULE_TANK_REFILL_def WATER_METRIC_CHLORINE_LEVEL_def WATER_METRIC_PH_def WATER_METRIC_TANK_LEVEL_def WATER_METRIC_FLOW_RATE_def WATER_ACTUATOR_DOSING_VALVE_def WATER_ACTUATOR_MAIN_SUPPLY_VALVE_def WATER_ACTUATOR_CIRCULATION_PUMP_def WATER_DOSING_VALVE_COMMS_TIMEOUT_def WATER_MAIN_VALVE_COMMS_TIMEOUT_def WATER_CIRC_PUMP_COMMS_TIMEOUT_def

lemmas water_rule_defs = water_rule_chlorine_def water_rule_ph_high_def water_rule_ph_low_def water_rule_tank_refill_def water_rules_def

lemmas water_fs_defs = water_fs_dosing_def water_fs_main_def water_fs_pump_def water_failsafe_table_def

lemmas water_bounds_defs = water_chlorine_bounds_def water_ph_bounds_def water_tank_level_bounds_def water_flow_rate_bounds_def water_get_validation_bounds_def

section \<open>The literals\<close>

lemma profile_literals:
  "map f32_units [0x3F800000, 0x40000000, 0x40800000, 0x40A00000, 0x41200000, 0x41600000, 0x41A00000, 0x41C80000, 0x41F00000, 0x42340000, 0x42480000, 0x425C0000, 0x42700000, 0x42C80000, 0x43FA0000, 0x447A0000, 0xC1200000, 0xC2200000] = map (\<lambda>n. n * 2 ^ 149) [1, 2, 4, 5, 10, 14, 20, 25, 30, 45, 50, 55, 60, 100, 500, 1000, - 10, - 40]"
  "2 * f32_units 0x40D00000 = 13 * 2 ^ 149" "2 * f32_units 0x41080000 = 17 * 2 ^ 149"
  by (simp_all add: f32_units_def f32_sign_def f32_mag_def mag_units_def)

section \<open>HVAC short-cycle protection\<close>

definition HVAC_MIN_COMPRESSOR_OFF_SEC :: u32 where "HVAC_MIN_COMPRESSOR_OFF_SEC = 300"
definition HVAC_CLOCK_UNRELIABLE_FALLBACK_SEC :: u32 where "HVAC_CLOCK_UNRELIABLE_FALLBACK_SEC = 120"

record short_cycle =
  sc_last_off_time_sec :: u32
  sc_tracked :: bool
  sc_clock_unreliable :: bool

definition hvac_short_cycle_record_off :: "short_cycle \<Rightarrow> u32 \<Rightarrow> short_cycle" where
  "hvac_short_cycle_record_off s current_time_sec = s\<lparr>sc_last_off_time_sec := current_time_sec, sc_tracked := True\<rparr>"

definition hvac_short_cycle_check :: "short_cycle \<Rightarrow> u32 \<Rightarrow> bool \<times> short_cycle" where
  "hvac_short_cycle_check s current_time_sec =
    (if \<not> sc_tracked s then (True, s)
     else if current_time_sec < sc_last_off_time_sec s then (False, s\<lparr>sc_clock_unreliable := True\<rparr>)
     else
       let elapsed = current_time_sec - sc_last_off_time_sec s
       in if sc_clock_unreliable s then (elapsed \<ge> HVAC_CLOCK_UNRELIABLE_FALLBACK_SEC, s)
          else (elapsed \<ge> HVAC_MIN_COMPRESSOR_OFF_SEC, s))"

definition hvac_short_cycle_reset :: "short_cycle \<Rightarrow> short_cycle" where
  "hvac_short_cycle_reset s = \<lparr>sc_last_off_time_sec = 0, sc_tracked = False, sc_clock_unreliable = False\<rparr>"

definition hvac_short_cycle_get_min_off_sec :: u32 where
  "hvac_short_cycle_get_min_off_sec = HVAC_MIN_COMPRESSOR_OFF_SEC"

definition hvac_short_cycle_get_last_off :: "short_cycle \<Rightarrow> u32" where
  "hvac_short_cycle_get_last_off s = sc_last_off_time_sec s"

definition hvac_clock_unreliable_fallback_sec :: u32 where
  "hvac_clock_unreliable_fallback_sec = HVAC_CLOCK_UNRELIABLE_FALLBACK_SEC"

section \<open>The contract of a profile\<close>

lemma register_table_put_all:
  "put_all failsafe_put g es = Some g' \<Longrightarrow> register_table es g = (True, g')"
proof (induction es arbitrary: g)
  case (Cons e es)
  then obtain g1 where g1: "failsafe_put g e = Some g1" "put_all failsafe_put g1 es = Some g'"
    by (auto split: option.splits)
  have "actuator_failsafe_register g (Some e) = (True, g1)"
    using g1(1) by (simp add: failsafe_put_def split: prod.splits if_splits)
  then show ?case using Cons.IH[OF g1(2)] by simp
qed simp

lemma find_distinct_member: "distinct (map f xs) \<Longrightarrow> x \<in> set xs \<Longrightarrow> find (\<lambda>y. f y = f x) xs = Some x"
  by (induction xs) (auto simp: image_iff)

locale domain_profile =
  fixes vt :: "unit DomainProfileVTable_t" and rules :: "RuleEntry_t list"
    and fs :: "ActuatorFailSafeEntry_t list"
    and bounds :: "u8 \<Rightarrow> SensorValidationBounds_t option" and history :: "u8 \<Rightarrow> nat option"
  assumes table: "getRuleTable vt () = Some rules"
    and rules_nonempty: "rules \<noteq> []"
    and rules_fit: "length rules \<le> RULE_ENGINE_MAX_ACTIONS"
    and rules_distinct: "distinct (map re_rule_id rules)"
    and rules_numeric: "r \<in> set rules \<Longrightarrow> \<not> f32_is_nan (re_threshold r)"
    and fs_fit: "length fs \<le> ACTUATOR_FAILSAFE_MAX_ENTRIES"
    and fs_distinct: "distinct (map fs_actuator_id fs)"
    and fs_mode: "e \<in> set fs \<Longrightarrow> getFailSafeMode vt () (fs_actuator_id e) pl =
          failsafe_code (if pl then fs_power_loss_mode e else fs_comms_loss_mode e)"
    and actuators_covered: "r \<in> set rules \<Longrightarrow> \<exists>e \<in> set fs. fs_actuator_id e = re_actuator_id r"
    and bounds_history: "bounds m = None \<longleftrightarrow> history m = None"
    and history_inj: "history m = Some i \<Longrightarrow> history n = Some i \<Longrightarrow> m = n"
    and null_rejected: "\<not> validateSensorReading vt () None"
begin

text \<open>With the eight result slots of the ingestion handler no triggered rule is lost.\<close>

lemma no_action_lost:
  assumes "rule_g_initialised g"
  shows "snd (rule_engine_evaluate g () (Some vt) (Some r) 8) = map rule_result (filter (rule_triggers r) rules)"
proof -
  have "length (map rule_result (filter (rule_triggers r) rules)) \<le> 8"
    using le_trans[OF length_filter_le rules_fit] by (simp add: RULE_ENGINE_MAX_ACTIONS_def)
  then show ?thesis using evaluate_results[OF assms table, of 8 r] by simp
qed

lemma finds_own_rules:
  "rule_g_initialised g \<Longrightarrow> r \<in> set rules \<Longrightarrow> rule_engine_find_rule g () (Some vt) (re_rule_id r) = Some r"
  by (simp add: rule_engine_find_rule_def table find_distinct_member[OF rules_distinct])

text \<open>Registration on a fresh table succeeds, and then every entry of the profile is looked up.\<close>

lemma registers:
  "\<exists>g'. register_table fs (snd (actuator_failsafe_init g)) = (True, g') \<and> fs_g_initialised g' \<and>
     (\<forall>a. failsafe_get g' a = find (\<lambda>e. fs_actuator_id e = a) (rev fs))"
proof -
  have "length (fs_table (snd (actuator_failsafe_init g))) + length fs \<le> ACTUATOR_FAILSAFE_MAX_ENTRIES"
    using fs_fit by (simp add: actuator_failsafe_init_def)
  from failsafe_table.register_all[OF failsafe_ok_init this] obtain g' where
    g': "put_all failsafe_put (snd (actuator_failsafe_init g)) fs = Some g'" "failsafe_ok g'"
    "\<And>k. failsafe_get g' k = (case find (\<lambda>e. fs_actuator_id e = k) (rev fs) of
        Some e \<Rightarrow> Some e | None \<Rightarrow> failsafe_get (snd (actuator_failsafe_init g)) k)"
    by blast
  have "failsafe_get (snd (actuator_failsafe_init g)) k = None" for k
    by (simp add: failsafe_get_def actuator_failsafe_lookup_def actuator_failsafe_init_def)
  with g' show ?thesis using register_table_put_all[OF g'(1)]
    by (auto simp: failsafe_ok_def split: option.splits)
qed

text \<open>The two sources of the fail-safe direction, the table and the vtable, agree.\<close>

lemma failsafe_agrees:
  assumes "e \<in> set fs"
  shows "\<exists>g'. register_table fs (snd (actuator_failsafe_init g)) = (True, g') \<and>
     actuator_failsafe_execute g' (fs_actuator_id e) True elapsed = (True, Some (fs_power_loss_mode e)) \<and>
     failsafe_code (fs_power_loss_mode e) = getFailSafeMode vt () (fs_actuator_id e) True \<and>
     actuator_failsafe_execute g' (fs_actuator_id e) False elapsed =
       (True, if unat elapsed < unat (fs_comms_timeout_sec e) then None else Some (fs_comms_loss_mode e)) \<and>
     failsafe_code (fs_comms_loss_mode e) = getFailSafeMode vt () (fs_actuator_id e) False"
proof -
  obtain g' where g': "register_table fs (snd (actuator_failsafe_init g)) = (True, g')" "fs_g_initialised g'"
    "\<forall>a. failsafe_get g' a = find (\<lambda>e. fs_actuator_id e = a) (rev fs)" using registers by blast
  have "distinct (map fs_actuator_id (rev fs))" using fs_distinct by (simp flip: rev_map)
  then have "failsafe_get g' (fs_actuator_id e) = Some e"
    using find_distinct_member[of fs_actuator_id "rev fs" e] g'(3) assms by simp
  then show ?thesis using g'(1,2) fs_mode[OF assms]
    by (auto simp: actuator_failsafe_execute_def failsafe_get_def actuator_failsafe_lookup_def word_less_nat_alt)
qed

end

interpretation home: domain_profile home_profile_vtable home_rules home_failsafe_table
  home_get_validation_bounds home_get_metric_history
  by unfold_locales
    (auto simp: home_profile_vtable_def home_rule_defs home_fs_defs home_consts rule_consts
      RULE_ENGINE_MAX_ACTIONS_def ACTUATOR_FAILSAFE_MAX_ENTRIES_def home_getFailSafeMode_def
      f32_is_nan_def f32_mag_def home_get_validation_bounds_def home_get_metric_history_def
      home_validateSensorReading_def split: if_splits)

interpretation agriculture: domain_profile agriculture_profile_vtable agriculture_rules agriculture_failsafe_table
  agriculture_get_validation_bounds agriculture_get_metric_history
  by unfold_locales
    (auto simp: agriculture_profile_vtable_def agriculture_rule_defs agriculture_fs_defs agriculture_consts rule_consts
      RULE_ENGINE_MAX_ACTIONS_def ACTUATOR_FAILSAFE_MAX_ENTRIES_def agriculture_getFailSafeMode_def
      f32_is_nan_def f32_mag_def agriculture_get_validation_bounds_def agriculture_get_metric_history_def
      agriculture_validateSensorReading_def split: if_splits)

interpretation hvac: domain_profile hvac_profile_vtable hvac_rules hvac_failsafe_table
  hvac_get_validation_bounds hvac_get_metric_history
  by unfold_locales
    (auto simp: hvac_profile_vtable_def hvac_rule_defs hvac_fs_defs hvac_consts rule_consts
      RULE_ENGINE_MAX_ACTIONS_def ACTUATOR_FAILSAFE_MAX_ENTRIES_def hvac_getFailSafeMode_def
      f32_is_nan_def f32_mag_def hvac_get_validation_bounds_def hvac_get_metric_history_def
      hvac_validateSensorReading_def split: if_splits)

interpretation water: domain_profile water_profile_vtable water_rules water_failsafe_table
  water_get_validation_bounds water_get_metric_history
  by unfold_locales
    (auto simp: water_profile_vtable_def water_rule_defs water_fs_defs water_consts rule_consts
      RULE_ENGINE_MAX_ACTIONS_def ACTUATOR_FAILSAFE_MAX_ENTRIES_def water_getFailSafeMode_def
      f32_is_nan_def f32_mag_def water_get_validation_bounds_def water_get_metric_history_def
      water_validateSensorReading_def split: if_splits)

section \<open>Properties\<close>

text \<open>The mode of every entry: power loss has a definite direction, communication loss only for three actuators.\<close>

lemma table_modes:
  assumes "e \<in> set home_failsafe_table \<union> set agriculture_failsafe_table \<union> set hvac_failsafe_table \<union> set water_failsafe_table"
  shows "fs_power_loss_mode e \<noteq> FAILSAFE_HOLD_LAST"
    and "fs_comms_loss_mode e =
      (if e \<in> {agriculture_fs_pump, hvac_fs_compressor, water_fs_dosing} then FAILSAFE_FORCE_OFF else FAILSAFE_HOLD_LAST)"
  using assms by (auto simp: home_fs_defs agriculture_fs_defs hvac_fs_defs water_fs_defs home_consts agriculture_consts
      hvac_consts water_consts)

text \<open>
  C33.  Fail-safe tables of all four profiles: registering a profile on a fresh table succeeds, and for each of its actuators
  the mode that \<open>actuator_failsafe_execute\<close> then selects on power loss, at once, and on communication loss, from the timeout on,
  is the one the profile's vtable function returns.  On power loss no actuator holds its last state.  On communication loss
  the irrigation pump, the compressor and the dosing valve are forced off; every other actuator holds its last state, however
  long the loss lasts.  For the door lock and the light relay that is what the comments of the tables ask for.  For the other
  seven the comments, and the requirement SR-043 for the fan, say that after the timeout they are forced off, de-energized or
  driven to the safe position: an entry has a single mode for communication loss, the tables give it as \<open>HOLD_LAST\<close>,
  and so this second phase never happens.
\<close>

theorem profile_failsafe_consistent:
  assumes "(vt, fs) \<in> {(home_profile_vtable, home_failsafe_table), (agriculture_profile_vtable, agriculture_failsafe_table),
      (hvac_profile_vtable, hvac_failsafe_table), (water_profile_vtable, water_failsafe_table)}" and "e \<in> set fs"
  shows "\<exists>g'. register_table fs (snd (actuator_failsafe_init g)) = (True, g') \<and>
     actuator_failsafe_execute g' (fs_actuator_id e) True elapsed = (True, Some (fs_power_loss_mode e)) \<and>
     failsafe_code (fs_power_loss_mode e) = getFailSafeMode vt () (fs_actuator_id e) True \<and>
     actuator_failsafe_execute g' (fs_actuator_id e) False elapsed =
       (True, if unat elapsed < unat (fs_comms_timeout_sec e) then None else Some (fs_comms_loss_mode e)) \<and>
     failsafe_code (fs_comms_loss_mode e) = getFailSafeMode vt () (fs_actuator_id e) False \<and>
     fs_power_loss_mode e \<noteq> FAILSAFE_HOLD_LAST \<and>
     fs_comms_loss_mode e =
       (if e \<in> {agriculture_fs_pump, hvac_fs_compressor, water_fs_dosing} then FAILSAFE_FORCE_OFF else FAILSAFE_HOLD_LAST)"
proof -
  have "e \<in> set home_failsafe_table \<union> set agriculture_failsafe_table \<union> set hvac_failsafe_table \<union> set water_failsafe_table"
    using assms by blast
  note modes = table_modes[OF this]
  have "\<exists>g'. register_table fs (snd (actuator_failsafe_init g)) = (True, g') \<and>
     actuator_failsafe_execute g' (fs_actuator_id e) True elapsed = (True, Some (fs_power_loss_mode e)) \<and>
     failsafe_code (fs_power_loss_mode e) = getFailSafeMode vt () (fs_actuator_id e) True \<and>
     actuator_failsafe_execute g' (fs_actuator_id e) False elapsed =
       (True, if unat elapsed < unat (fs_comms_timeout_sec e) then None else Some (fs_comms_loss_mode e)) \<and>
     failsafe_code (fs_comms_loss_mode e) = getFailSafeMode vt () (fs_actuator_id e) False"
    using assms home.failsafe_agrees[of e g elapsed] agriculture.failsafe_agrees[of e g elapsed]
      hvac.failsafe_agrees[of e g elapsed] water.failsafe_agrees[of e g elapsed] by blast
  with modes show ?thesis by blast
qed

theorem profile_failsafe_consistent_witness:
  "\<exists>g'. water_failsafe_register_all (snd (actuator_failsafe_init \<lparr>fs_table = [], fs_g_initialised = False\<rparr>)) = (True, g') \<and>
     actuator_failsafe_execute g' 1 False 10 = (True, Some FAILSAFE_FORCE_OFF)"
  using profile_failsafe_consistent[of water_profile_vtable water_failsafe_table water_fs_dosing
      "\<lparr>fs_table = [], fs_g_initialised = False\<rparr>" 10]
  by (auto simp: water_failsafe_register_all_def water_fs_defs water_consts)

text \<open>
  Water chemistry limits: every numeric pH reading is either in the safe band from 6.5 up to, not
  including, 8.5 and fires no rule, or fires exactly one of the two pH rules; a chlorine reading of
  4.0 ppm or more fires the chlorine rule.
\<close>

theorem water_limits_fire:
  assumes "rule_g_initialised g" and "\<not> f32_is_nan (sr_value r)"
  shows "(sr_metric_id r = WATER_METRIC_PH \<longrightarrow>
      map rr_rule_id (snd (rule_engine_evaluate g () (Some water_profile_vtable) (Some r) 8)) =
        (if f32_lt (sr_value r) 0x40D00000 then [WATER_RULE_PH_LOW_SAFETY]
         else if f32_lt (sr_value r) 0x41080000 then [] else [WATER_RULE_PH_HIGH_SAFETY]))
    \<and> (sr_metric_id r = WATER_METRIC_CHLORINE_LEVEL \<longrightarrow>
      map rr_rule_id (snd (rule_engine_evaluate g () (Some water_profile_vtable) (Some r) 8)) =
        (if f32_lt (sr_value r) 0x40800000 then [] else [WATER_RULE_CHLORINE_SAFETY]))"
proof -
  have nn: "\<not> f32_is_nan (0x40D00000 :: f32)" "\<not> f32_is_nan (0x41080000 :: f32)" "\<not> f32_is_nan (0x40800000 :: f32)"
    by (simp_all add: f32_is_nan_def f32_mag_def)
  have le: "f32_le (0x40D00000 :: f32) 0x41080000"
    by (simp add: f32_cmp_defs)
  have low: "f32_lt (sr_value r) 0x40D00000 \<Longrightarrow> f32_lt (sr_value r) 0x41080000"
    using f32_lt_le_trans[OF _ le] .
  note cases = f32_not_lt[OF assms(2) nn(1)] f32_not_lt[OF assms(2) nn(2)] f32_not_lt[OF assms(2) nn(3)]
  show ?thesis unfolding water.no_action_lost[OF assms(1)]
  proof (intro conjI impI)
    assume "sr_metric_id r = WATER_METRIC_PH"
    then show "map rr_rule_id (map rule_result (filter (rule_triggers r) water_rules)) =
        (if f32_lt (sr_value r) 0x40D00000 then [WATER_RULE_PH_LOW_SAFETY]
         else if f32_lt (sr_value r) 0x41080000 then [] else [WATER_RULE_PH_HIGH_SAFETY])"
      using low cases by (auto simp: water_rule_defs water_consts rule_consts rule_triggers_def rule_result_def)
  next
    assume "sr_metric_id r = WATER_METRIC_CHLORINE_LEVEL"
    then show "map rr_rule_id (map rule_result (filter (rule_triggers r) water_rules)) =
        (if f32_lt (sr_value r) 0x40800000 then [] else [WATER_RULE_CHLORINE_SAFETY])"
      using cases by (auto simp: water_rule_defs water_consts rule_consts rule_triggers_def rule_result_def)
  qed
qed

theorem water_limits_fire_witness:
  "map rr_rule_id (snd (rule_engine_evaluate \<lparr>rule_g_initialised = True\<rparr> () (Some water_profile_vtable)
     (Some \<lparr>sr_node_id = 1, sr_metric_id = WATER_METRIC_PH, sr_value = 0x40C00000, sr_timestamp_ms = 0\<rparr>) 8))
   = [WATER_RULE_PH_LOW_SAFETY]"
  using water_limits_fire[of "\<lparr>rule_g_initialised = True\<rparr>"
      "\<lparr>sr_node_id = 1, sr_metric_id = WATER_METRIC_PH, sr_value = 0x40C00000, sr_timestamp_ms = 0\<rparr>"]
  by (simp add: f32_cmp_defs)

text \<open>
  The over-dose rule commands the wrong state: for every chlorine reading of 4.0 ppm or more the
  result record of the safety rule commands the dosing valve ON, although the rule is there to stop
  dosing and the fail-safe direction of the same valve is FORCE\_OFF.
\<close>

theorem water_overdose_commands_on:
  assumes "rule_g_initialised g" and "sr_metric_id r = WATER_METRIC_CHLORINE_LEVEL"
    and "f32_le 0x40800000 (sr_value r)"
  shows "snd (rule_engine_evaluate g () (Some water_profile_vtable) (Some r) 8) =
      [\<lparr>rr_rule_id = WATER_RULE_CHLORINE_SAFETY, rr_triggered = True, rr_action_type = RULE_ACTION_SET_ACTUATOR,
        rr_actuator_id = WATER_ACTUATOR_DOSING_VALVE, rr_actuator_state = ACTUATOR_STATE_ON\<rparr>]
    \<and> water_getFailSafeMode WATER_ACTUATOR_DOSING_VALVE True = failsafe_code FAILSAFE_FORCE_OFF"
  unfolding water.no_action_lost[OF assms(1)] using assms(2,3)
  by (simp add: water_rule_defs water_consts rule_consts rule_triggers_def rule_result_def water_getFailSafeMode_def)

theorem water_overdose_commands_on_witness:
  "map rr_actuator_state (snd (rule_engine_evaluate \<lparr>rule_g_initialised = True\<rparr> () (Some water_profile_vtable)
     (Some \<lparr>sr_node_id = 1, sr_metric_id = WATER_METRIC_CHLORINE_LEVEL, sr_value = 0x40C00000, sr_timestamp_ms = 0\<rparr>) 8))
   = [ACTUATOR_STATE_ON]"
  using water_overdose_commands_on[of "\<lparr>rule_g_initialised = True\<rparr>"
      "\<lparr>sr_node_id = 1, sr_metric_id = WATER_METRIC_CHLORINE_LEVEL, sr_value = 0x40C00000, sr_timestamp_ms = 0\<rparr>"]
  by (simp add: f32_cmp_defs)

text \<open>
  Compressor protection: with a clock that never ran backwards a restart is allowed exactly when
  at least 300 seconds have passed since the last stop; a check before the recorded stop time is
  refused, and from then on, through any further stops, 120 seconds are enough until the state is
  reset.
\<close>

theorem hvac_short_cycle:
  assumes "sc_tracked s"
  shows "(fst (hvac_short_cycle_check s t) \<longleftrightarrow>
      unat (sc_last_off_time_sec s) + (if sc_clock_unreliable s then 120 else 300) \<le> unat t)
    \<and> (t < sc_last_off_time_sec s \<longrightarrow>
      (fst (hvac_short_cycle_check (hvac_short_cycle_record_off (snd (hvac_short_cycle_check s t)) t1) t2) \<longleftrightarrow>
        unat t1 + 120 \<le> unat t2))"
proof -
  have el: "(c \<le> b - a) \<longleftrightarrow> unat a + unat c \<le> unat b" if "\<not> b < a" for a b c :: u32
    using that by (auto simp: word_less_nat_alt word_le_nat_alt unat_sub_if')
  have chk: "fst (hvac_short_cycle_check s t) \<longleftrightarrow>
      unat (sc_last_off_time_sec s) + (if sc_clock_unreliable s then 120 else 300) \<le> unat t"
    if "sc_tracked s" for s t
    using that el[of t "sc_last_off_time_sec s"]
    by (auto simp: hvac_short_cycle_check_def Let_def HVAC_MIN_COMPRESSOR_OFF_SEC_def
        HVAC_CLOCK_UNRELIABLE_FALLBACK_SEC_def word_less_nat_alt)
  have "fst (hvac_short_cycle_check (hvac_short_cycle_record_off (snd (hvac_short_cycle_check s t)) t1) t2) \<longleftrightarrow>
        unat t1 + 120 \<le> unat t2" if "t < sc_last_off_time_sec s"
    using that assms by (subst chk) (auto simp: hvac_short_cycle_record_off_def hvac_short_cycle_check_def)
  then show ?thesis using chk[OF assms] by blast
qed

theorem hvac_short_cycle_witness:
  "\<not> fst (hvac_short_cycle_check \<lparr>sc_last_off_time_sec = 1000, sc_tracked = True, sc_clock_unreliable = False\<rparr> 1299)
    \<and> fst (hvac_short_cycle_check \<lparr>sc_last_off_time_sec = 1000, sc_tracked = True, sc_clock_unreliable = False\<rparr> 1300)"
  using hvac_short_cycle[of "\<lparr>sc_last_off_time_sec = 1000, sc_tracked = True, sc_clock_unreliable = False\<rparr>" 1299 0 0]
    hvac_short_cycle[of "\<lparr>sc_last_off_time_sec = 1000, sc_tracked = True, sc_clock_unreliable = False\<rparr>" 1300 0 0]
  by simp

end
