(* ===== verification/Device_Identity.thy ===== *)
theory Device_Identity
  imports Iot_Prelude
begin

text \<open>
  Device identity (\<open>firmware/shared/device_identity.{h,c}\<close>): factory provisioning, the running and the
  pending firmware version, and their persistence.  The storage callbacks are parameters with a state
  \<open>'st\<close> of their own; \<open>identity_storage_ok\<close> is what the module relies on.  Rebooting is a call of
  \<open>device_identity_init\<close>.
\<close>

section \<open>Data\<close>

definition DEVICE_UUID_SIZE :: nat where "DEVICE_UUID_SIZE = 16"
definition DEVICE_ID_NO_VERSION :: u32 where "DEVICE_ID_NO_VERSION = 0"

text \<open>The enum is kept as a number, since the code also uses the value 0 that has no name.\<close>

type_synonym DomainProfileId_t = u32

definition DOMAIN_PROFILE_HOME :: DomainProfileId_t where "DOMAIN_PROFILE_HOME = 1"
definition DOMAIN_PROFILE_AGRICULTURE :: DomainProfileId_t where "DOMAIN_PROFILE_AGRICULTURE = 2"
definition DOMAIN_PROFILE_HVAC :: DomainProfileId_t where "DOMAIN_PROFILE_HVAC = 3"
definition DOMAIN_PROFILE_WATER_TREATMENT :: DomainProfileId_t where "DOMAIN_PROFILE_WATER_TREATMENT = 4"

record DeviceIdentity_t =
  id_device_uuid :: bytes
  id_domain_profile_id :: DomainProfileId_t
  id_hw_variant_id :: u8
  id_fw_version :: u32

datatype DeviceIdentityResult_t =
  DEVICE_ID_OK | DEVICE_ID_ERR_ALREADY_PROVISIONED | DEVICE_ID_ERR_NOT_PROVISIONED | DEVICE_ID_ERR_PARAM_NULL

text \<open>\<open>load\<close> gets the identity buffer, which it may overwrite even when it fails.\<close>

record 'st DeviceIdentityStorage_t =
  ds_save :: "(DeviceIdentity_t \<Rightarrow> bool \<Rightarrow> u32 \<Rightarrow> 'st \<Rightarrow> bool \<times> 'st) option"
  ds_load :: "('st \<Rightarrow> DeviceIdentity_t \<Rightarrow> bool \<times> DeviceIdentity_t \<times> bool \<times> u32) option"

record 'st device_identity =
  di_identity :: DeviceIdentity_t
  di_provisioned :: bool
  di_initialised :: bool
  di_fw_version_pending :: u32
  di_storage :: "'st DeviceIdentityStorage_t option"
  di_backend :: 'st

definition device_identity_zero :: DeviceIdentity_t where
  "device_identity_zero = \<lparr>id_device_uuid = replicate DEVICE_UUID_SIZE 0, id_domain_profile_id = 0, id_hw_variant_id = 0, id_fw_version = 0\<rparr>"

section \<open>Operations\<close>

definition identity_persist :: "'st device_identity \<Rightarrow> 'st device_identity" where
  "identity_persist g =
    (case di_storage g of
       None \<Rightarrow> g
     | Some s \<Rightarrow> (case ds_save s of
         None \<Rightarrow> g
       | Some save \<Rightarrow> g\<lparr>di_backend := snd (save (di_identity g) (di_provisioned g) (di_fw_version_pending g) (di_backend g))\<rparr>))"

definition device_identity_set_storage :: "'st device_identity \<Rightarrow> 'st DeviceIdentityStorage_t option \<Rightarrow> 'st device_identity" where
  "device_identity_set_storage g storage = g\<lparr>di_storage := storage\<rparr>"

definition device_identity_init :: "'st device_identity \<Rightarrow> bool \<times> 'st device_identity" where
  "device_identity_init g =
    (let g = g\<lparr>di_identity := device_identity_zero, di_provisioned := False, di_fw_version_pending := DEVICE_ID_NO_VERSION\<rparr>;
         g = (case di_storage g of
             None \<Rightarrow> g
           | Some s \<Rightarrow> (case ds_load s of
               None \<Rightarrow> g
             | Some load \<Rightarrow>
                 (case load (di_backend g) (di_identity g) of
                    (ok, identity, persisted_provisioned, persisted_pending) \<Rightarrow>
                      let g = g\<lparr>di_identity := identity\<rparr>
                      in if ok then
                           let g = g\<lparr>di_provisioned := persisted_provisioned\<rparr>
                           in if persisted_pending \<noteq> DEVICE_ID_NO_VERSION
                              then identity_persist (g\<lparr>di_fw_version_pending := DEVICE_ID_NO_VERSION\<rparr>)
                              else g
                         else g)))
     in (True, g\<lparr>di_initialised := True\<rparr>))"

definition device_identity_set ::
  "'st device_identity \<Rightarrow> DeviceIdentity_t option \<Rightarrow> DeviceIdentityResult_t \<times> 'st device_identity"
where
  "device_identity_set g identity =
    (if \<not> di_initialised g then (DEVICE_ID_ERR_NOT_PROVISIONED, g)
     else (case identity of
         None \<Rightarrow> (DEVICE_ID_ERR_PARAM_NULL, g)
       | Some i \<Rightarrow>
           if di_provisioned g then (DEVICE_ID_ERR_ALREADY_PROVISIONED, g)
           else (DEVICE_ID_OK, identity_persist (g\<lparr>di_identity := i, di_provisioned := True\<rparr>))))"

definition device_identity_get :: "'st device_identity \<Rightarrow> DeviceIdentityResult_t \<times> DeviceIdentity_t option" where
  "device_identity_get g =
    (if \<not> di_initialised g then (DEVICE_ID_ERR_NOT_PROVISIONED, None)
     else if \<not> di_provisioned g then (DEVICE_ID_ERR_NOT_PROVISIONED, None)
     else (DEVICE_ID_OK, Some (di_identity g)))"

definition device_identity_get_domain :: "'st device_identity \<Rightarrow> DomainProfileId_t" where
  "device_identity_get_domain g = (if \<not> di_initialised g \<or> \<not> di_provisioned g then 0 else id_domain_profile_id (di_identity g))"

definition device_identity_get_hw_variant :: "'st device_identity \<Rightarrow> u8" where
  "device_identity_get_hw_variant g = (if \<not> di_initialised g \<or> \<not> di_provisioned g then 0 else id_hw_variant_id (di_identity g))"

definition device_identity_get_fw_version :: "'st device_identity \<Rightarrow> u32" where
  "device_identity_get_fw_version g = (if \<not> di_initialised g \<or> \<not> di_provisioned g then 0 else id_fw_version (di_identity g))"

definition device_identity_set_pending_version ::
  "'st device_identity \<Rightarrow> u32 \<Rightarrow> DeviceIdentityResult_t \<times> 'st device_identity"
where
  "device_identity_set_pending_version g new_version =
    (if \<not> di_initialised g then (DEVICE_ID_ERR_NOT_PROVISIONED, g)
     else if \<not> di_provisioned g then (DEVICE_ID_ERR_NOT_PROVISIONED, g)
     else (DEVICE_ID_OK, identity_persist (g\<lparr>di_fw_version_pending := new_version\<rparr>)))"

definition device_identity_confirm_boot :: "'st device_identity \<Rightarrow> DeviceIdentityResult_t \<times> 'st device_identity" where
  "device_identity_confirm_boot g =
    (if \<not> di_initialised g then (DEVICE_ID_ERR_NOT_PROVISIONED, g)
     else if \<not> di_provisioned g then (DEVICE_ID_ERR_NOT_PROVISIONED, g)
     else if di_fw_version_pending g = DEVICE_ID_NO_VERSION then (DEVICE_ID_OK, g)
     else (DEVICE_ID_OK, identity_persist
       (g\<lparr>di_identity := (di_identity g)\<lparr>id_fw_version := di_fw_version_pending g\<rparr>,
          di_fw_version_pending := DEVICE_ID_NO_VERSION\<rparr>)))"

definition device_identity_get_pending_version :: "'st device_identity \<Rightarrow> u32" where
  "device_identity_get_pending_version g =
    (if \<not> di_initialised g \<or> \<not> di_provisioned g then DEVICE_ID_NO_VERSION else di_fw_version_pending g)"

definition device_identity_has_pending_version :: "'st device_identity \<Rightarrow> bool" where
  "device_identity_has_pending_version g \<longleftrightarrow>
     di_initialised g \<and> di_provisioned g \<and> di_fw_version_pending g \<noteq> DEVICE_ID_NO_VERSION"

definition device_identity_is_provisioned :: "'st device_identity \<Rightarrow> bool" where
  "device_identity_is_provisioned g \<longleftrightarrow> di_initialised g \<and> di_provisioned g"

section \<open>Runs\<close>

text \<open>A storage backend that returns what was saved last; \<open>img\<close> is what it holds.\<close>

definition identity_storage_ok ::
  "'st DeviceIdentityStorage_t \<Rightarrow> ('st \<Rightarrow> DeviceIdentity_t \<times> bool \<times> u32) \<Rightarrow> bool"
where
  "identity_storage_ok s img \<longleftrightarrow>
     (\<exists>save. ds_save s = Some save \<and> (\<forall>i p v st. img (snd (save i p v st)) = (i, p, v))) \<and>
     (\<exists>load. ds_load s = Some load \<and> (\<forall>st i. load st i = (True, img st)))"

text \<open>The steps of a device's life, reboots included.\<close>

inductive identity_step :: "'st device_identity \<Rightarrow> 'st device_identity \<Rightarrow> bool" where
  reboot: "identity_step g (snd (device_identity_init g))"
| provision: "identity_step g (snd (device_identity_set g i))"
| pending: "identity_step g (snd (device_identity_set_pending_version g v))"
| confirm: "identity_step g (snd (device_identity_confirm_boot g))"

definition fixed_part :: "DeviceIdentity_t \<Rightarrow> bytes \<times> DomainProfileId_t \<times> u8" where
  "fixed_part i = (id_device_uuid i, id_domain_profile_id i, id_hw_variant_id i)"

lemma persist_keeps [simp]:
  "di_identity (identity_persist g) = di_identity g" "di_provisioned (identity_persist g) = di_provisioned g"
  "di_initialised (identity_persist g) = di_initialised g" "di_storage (identity_persist g) = di_storage g"
  "di_fw_version_pending (identity_persist g) = di_fw_version_pending g"
  by (simp_all add: identity_persist_def split: option.splits)

lemma persist_img:
  "di_storage g = Some s \<Longrightarrow> identity_storage_ok s img \<Longrightarrow>
   img (di_backend (identity_persist g)) = (di_identity g, di_provisioned g, di_fw_version_pending g)"
  by (auto simp: identity_persist_def identity_storage_ok_def)

text \<open>Memory and storage agree on a provisioned identity; \<open>F\<close> is its immutable part.\<close>

definition provisioned_as ::
  "'st DeviceIdentityStorage_t \<Rightarrow> ('st \<Rightarrow> DeviceIdentity_t \<times> bool \<times> u32) \<Rightarrow> bytes \<times> DomainProfileId_t \<times> u8 \<Rightarrow>
   'st device_identity \<Rightarrow> bool"
where
  "provisioned_as s img F g \<longleftrightarrow> di_storage g = Some s \<and> identity_storage_ok s img \<and> di_initialised g \<and> di_provisioned g
     \<and> fixed_part (di_identity g) = F \<and> img (di_backend g) = (di_identity g, True, di_fw_version_pending g)"

lemma init_provisioned:
  assumes "provisioned_as s img F g"
  shows "provisioned_as s img F (snd (device_identity_init g))"
    and "di_identity (snd (device_identity_init g)) = di_identity g"
    and "di_fw_version_pending (snd (device_identity_init g)) = DEVICE_ID_NO_VERSION"
proof -
  note a = assms[unfolded provisioned_as_def]
  obtain load where load: "ds_load s = Some load" "\<And>st i. load st i = (True, img st)"
    using a unfolding identity_storage_ok_def by blast
  have img: "img (di_backend g) = (di_identity g, True, di_fw_version_pending g)" using a by blast
  show "provisioned_as s img F (snd (device_identity_init g))"
    "di_identity (snd (device_identity_init g)) = di_identity g"
    "di_fw_version_pending (snd (device_identity_init g)) = DEVICE_ID_NO_VERSION"
    using a load img persist_img[of _ s img]
    by (auto simp: device_identity_init_def provisioned_as_def Let_def)
qed

lemma step_provisioned:
  assumes "provisioned_as s img F g" and "identity_step g g'"
  shows "provisioned_as s img F g'"
  using assms(2)
proof (cases rule: identity_step.cases)
  case reboot then show ?thesis using init_provisioned(1)[OF assms(1)] by simp
next
  case (provision i) then show ?thesis using assms(1)
    by (simp add: device_identity_set_def provisioned_as_def split: option.splits)
next
  case (pending v) then show ?thesis using assms(1) persist_img[of _ s img]
    by (auto simp: device_identity_set_pending_version_def provisioned_as_def)
next
  case confirm then show ?thesis using assms(1) persist_img[of _ s img]
    by (auto simp: device_identity_confirm_boot_def provisioned_as_def fixed_part_def)
qed

interpretation identity_sys: invariant_system "provisioned_as s img F" identity_step "provisioned_as s img F"
  by unfold_locales (auto intro: step_provisioned)

section \<open>Properties\<close>

text \<open>
  The identity is immutable: once a device is provisioned, no sequence of provisioning attempts,
  version updates, confirmations and reboots changes its UUID, domain profile or hardware variant, and
  the device stays provisioned.
\<close>

theorem identity_immutable:
  assumes "di_storage g = Some s" and "identity_storage_ok s img"
    and "device_identity_set g (Some i) = (DEVICE_ID_OK, g0)" and "identity_step\<^sup>*\<^sup>* g0 g1"
  shows "device_identity_is_provisioned g1 \<and> fixed_part (di_identity g1) = fixed_part i"
proof -
  have "provisioned_as s img (fixed_part i) g0"
    using assms(1-3) persist_img[of _ s img]
    by (auto simp: device_identity_set_def provisioned_as_def split: if_splits)
  from identity_sys.reachable_inv[OF this assms(4)] show ?thesis
    by (simp add: provisioned_as_def device_identity_is_provisioned_def)
qed

definition demo_identity :: "u32 \<Rightarrow> DeviceIdentity_t" where
  "demo_identity v = \<lparr>id_device_uuid = replicate 16 9, id_domain_profile_id = DOMAIN_PROFILE_HVAC, id_hw_variant_id = 2, id_fw_version = v\<rparr>"

definition demo_id_storage :: "(DeviceIdentity_t \<times> bool \<times> u32) DeviceIdentityStorage_t" where
  "demo_id_storage = \<lparr>ds_save = Some (\<lambda>i p v st. (True, (i, p, v))), ds_load = Some (\<lambda>st i. (True, st))\<rparr>"

definition demo_device :: "bool \<Rightarrow> (DeviceIdentity_t \<times> bool \<times> u32) device_identity" where
  "demo_device p = \<lparr>di_identity = demo_identity 5, di_provisioned = p, di_initialised = True, di_fw_version_pending = 0,
     di_storage = Some demo_id_storage, di_backend = (demo_identity 5, p, 0)\<rparr>"

lemma demo_id_storage_ok: "identity_storage_ok demo_id_storage (\<lambda>st. st)"
  by (simp add: identity_storage_ok_def demo_id_storage_def)

theorem identity_immutable_witness:
  "fixed_part (di_identity (snd (device_identity_init (snd (device_identity_set_pending_version
      (snd (device_identity_set (demo_device False) (Some (demo_identity 7)))) 8))))) = fixed_part (demo_identity 7)"
proof -
  let ?g0 = "snd (device_identity_set (demo_device False) (Some (demo_identity 7)))"
  have s: "di_storage (demo_device False) = Some demo_id_storage" by (simp add: demo_device_def)
  have "device_identity_set (demo_device False) (Some (demo_identity 7)) = (DEVICE_ID_OK, ?g0)"
    by (simp add: device_identity_set_def demo_device_def)
  note imm = identity_immutable[OF s demo_id_storage_ok this]
  have "identity_step\<^sup>*\<^sup>* ?g0 (snd (device_identity_set_pending_version ?g0 8))"
    by (rule r_into_rtranclp) (rule identity_step.pending)
  then have "identity_step\<^sup>*\<^sup>* ?g0 (snd (device_identity_init (snd (device_identity_set_pending_version ?g0 8))))"
    by (rule rtranclp.rtrancl_into_rtrancl) (rule identity_step.reboot)
  from imm[OF this] show ?thesis by blast
qed

text \<open>
  Confirm before commit: the running version recorded for a device changes only when a boot is
  confirmed while a version is pending, and a reboot before that discards the pending version and
  keeps the confirmed one, in storage as well.
\<close>

theorem confirm_before_commit:
  assumes "provisioned_as s img F g"
  shows "(v \<noteq> DEVICE_ID_NO_VERSION \<longrightarrow>
      device_identity_get_fw_version (snd (device_identity_confirm_boot (snd (device_identity_set_pending_version g v)))) = v)
    \<and> device_identity_get_fw_version (snd (device_identity_init (snd (device_identity_set_pending_version g v)))) =
        device_identity_get_fw_version g
    \<and> \<not> device_identity_has_pending_version (snd (device_identity_init (snd (device_identity_set_pending_version g v))))
    \<and> snd (snd (img (di_backend (snd (device_identity_init (snd (device_identity_set_pending_version g v))))))) = DEVICE_ID_NO_VERSION"
proof -
  let ?p = "snd (device_identity_set_pending_version g v)"
  have p: "provisioned_as s img F ?p" using step_provisioned[OF assms pending] .
  have i: "di_identity ?p = di_identity g"
    using assms by (simp add: device_identity_set_pending_version_def provisioned_as_def)
  note r = init_provisioned[OF p]
  have v: "di_fw_version_pending ?p = v" "di_initialised ?p" "di_provisioned ?p"
    using assms by (simp_all add: device_identity_set_pending_version_def provisioned_as_def)
  have c: "v \<noteq> DEVICE_ID_NO_VERSION \<longrightarrow> device_identity_get_fw_version (snd (device_identity_confirm_boot ?p)) = v"
    using v by (simp add: device_identity_confirm_boot_def device_identity_get_fw_version_def)
  show ?thesis using r i c assms
    by (auto simp: device_identity_get_fw_version_def device_identity_has_pending_version_def provisioned_as_def)
qed


lemma demo_provisioned: "provisioned_as demo_id_storage (\<lambda>st. st) (fixed_part (demo_identity 5)) (demo_device True)"
  using demo_id_storage_ok by (simp add: provisioned_as_def demo_device_def)

theorem confirm_before_commit_witness:
  "device_identity_get_fw_version (snd (device_identity_confirm_boot
      (snd (device_identity_set_pending_version (demo_device True) 8)))) = 8
   \<and> device_identity_get_fw_version (snd (device_identity_init
      (snd (device_identity_set_pending_version (demo_device True) 8)))) = 5"
proof -
  have "device_identity_get_fw_version (demo_device True) = 5"
    by (simp add: device_identity_get_fw_version_def demo_device_def demo_identity_def)
  then show ?thesis using confirm_before_commit[OF demo_provisioned, of 8] by (simp add: DEVICE_ID_NO_VERSION_def)
qed

end
