(* ===== verification/Flash_Partition.thy ===== *)
theory Flash_Partition
  imports Iot_Prelude
begin

text \<open>
  A/B flash slots (\<open>firmware/shared/flash_partition.{h,c}\<close>): the slot logic over a backend of callbacks,
  and the in-memory backend of the repository.  The contents of a slot are a function from byte
  positions; the module's globals and those of the in-memory backend are one record, since
  \<open>flash_partition_init\<close> resets both.
\<close>

section \<open>Data\<close>

definition FLASH_PARTITION_SLOT_COUNT :: u8 where "FLASH_PARTITION_SLOT_COUNT = 2"
definition FLASH_PARTITION_SLOT_A :: u8 where "FLASH_PARTITION_SLOT_A = 0"
definition FLASH_PARTITION_SLOT_B :: u8 where "FLASH_PARTITION_SLOT_B = 1"
definition FLASH_PARTITION_MAX_SIZE :: u32 where "FLASH_PARTITION_MAX_SIZE = 256 * 1024"

datatype FlashSlotState_t =
  FLASH_SLOT_STATE_UNKNOWN | FLASH_SLOT_STATE_ERASED | FLASH_SLOT_STATE_WRITING | FLASH_SLOT_STATE_VALID
| FLASH_SLOT_STATE_BOOTABLE

text \<open>State of the in-memory backend.\<close>

record mock_flash =
  mf_slot_data :: "u8 \<Rightarrow> nat \<Rightarrow> u8"
  mf_slot_write_offset :: "u8 \<Rightarrow> u32"
  mf_slot_state :: "u8 \<Rightarrow> FlashSlotState_t"

text \<open>The callbacks that the slot logic calls.\<close>

record FlashPartitionBackend_t =
  fb_begin :: "mock_flash \<Rightarrow> u8 \<Rightarrow> u32 \<Rightarrow> bool \<times> mock_flash"
  fb_write :: "mock_flash \<Rightarrow> u8 \<Rightarrow> u32 \<Rightarrow> bytes \<Rightarrow> bool \<times> mock_flash"
  fb_end :: "mock_flash \<Rightarrow> u8 \<Rightarrow> bool \<times> mock_flash"
  fb_set_boot_partition :: "mock_flash \<Rightarrow> u8 \<Rightarrow> bool \<times> mock_flash"
  fb_get_boot_partition :: "mock_flash \<Rightarrow> u8"
  fb_get_slot_state :: "mock_flash \<Rightarrow> u8 \<Rightarrow> FlashSlotState_t"
  fb_read :: "mock_flash \<Rightarrow> u8 \<Rightarrow> u32 \<Rightarrow> u32 \<Rightarrow> bytes option"
  fb_get_data :: "mock_flash \<Rightarrow> u8 \<Rightarrow> (nat \<Rightarrow> u8) option"
  fb_get_write_offset :: "mock_flash \<Rightarrow> u8 \<Rightarrow> u32"

record flash_partition =
  fp_backend :: "FlashPartitionBackend_t option"
  fp_initialised :: bool
  fp_mock :: mock_flash
  fp_boot_partition :: u8
  fp_original_boot_partition :: u8
  fp_ota_target :: u8
  fp_ota_in_progress :: bool

section \<open>The in-memory backend\<close>

definition mock_begin :: "mock_flash \<Rightarrow> u8 \<Rightarrow> u32 \<Rightarrow> bool \<times> mock_flash" where
  "mock_begin m slot size_bytes =
    (if slot \<ge> FLASH_PARTITION_SLOT_COUNT then (False, m)
     else if size_bytes > FLASH_PARTITION_MAX_SIZE then (False, m)
     else (True, m\<lparr>mf_slot_data := (mf_slot_data m)(slot := \<lambda>i. if i < unat size_bytes then 0xFF else mf_slot_data m slot i),
                   mf_slot_write_offset := (mf_slot_write_offset m)(slot := 0),
                   mf_slot_state := (mf_slot_state m)(slot := FLASH_SLOT_STATE_WRITING)\<rparr>))"

text \<open>\<open>memcpy\<close> of a list of bytes to a position.\<close>

definition put_bytes :: "(nat \<Rightarrow> u8) \<Rightarrow> nat \<Rightarrow> bytes \<Rightarrow> nat \<Rightarrow> u8" where
  "put_bytes d offset bs = (\<lambda>i. if offset \<le> i \<and> i < offset + length bs then bs ! (i - offset) else d i)"

definition mock_write :: "mock_flash \<Rightarrow> u8 \<Rightarrow> u32 \<Rightarrow> bytes \<Rightarrow> bool \<times> mock_flash" where
  "mock_write m slot offset data =
    (let data_len = (word_of_nat (length data) :: u32)
     in if slot \<ge> FLASH_PARTITION_SLOT_COUNT then (False, m)
        else if offset + data_len > FLASH_PARTITION_MAX_SIZE then (False, m)
        else if mf_slot_state m slot \<noteq> FLASH_SLOT_STATE_WRITING then (False, m)
        else (True, m\<lparr>mf_slot_data := (mf_slot_data m)(slot := put_bytes (mf_slot_data m slot) (unat offset) data),
                      mf_slot_write_offset := (mf_slot_write_offset m)(slot := offset + data_len)\<rparr>))"

definition mock_end :: "mock_flash \<Rightarrow> u8 \<Rightarrow> bool \<times> mock_flash" where
  "mock_end m slot =
    (if slot \<ge> FLASH_PARTITION_SLOT_COUNT then (False, m)
     else if mf_slot_state m slot \<noteq> FLASH_SLOT_STATE_WRITING then (False, m)
     else (True, m\<lparr>mf_slot_state := (mf_slot_state m)(slot := FLASH_SLOT_STATE_VALID)\<rparr>))"

definition mock_set_boot_partition :: "mock_flash \<Rightarrow> u8 \<Rightarrow> bool \<times> mock_flash" where
  "mock_set_boot_partition m slot =
    (if slot \<ge> FLASH_PARTITION_SLOT_COUNT then (False, m)
     else (True, m\<lparr>mf_slot_state := (mf_slot_state m)(slot := FLASH_SLOT_STATE_BOOTABLE)\<rparr>))"

definition mock_get_boot_partition :: "mock_flash \<Rightarrow> u8" where
  "mock_get_boot_partition m =
    (case find (\<lambda>i. mf_slot_state m i = FLASH_SLOT_STATE_BOOTABLE) [0, 1] of
       Some i \<Rightarrow> i | None \<Rightarrow> FLASH_PARTITION_SLOT_A)"

definition mock_get_slot_state :: "mock_flash \<Rightarrow> u8 \<Rightarrow> FlashSlotState_t" where
  "mock_get_slot_state m slot = (if slot \<ge> FLASH_PARTITION_SLOT_COUNT then FLASH_SLOT_STATE_UNKNOWN else mf_slot_state m slot)"

definition mock_read :: "mock_flash \<Rightarrow> u8 \<Rightarrow> u32 \<Rightarrow> u32 \<Rightarrow> bytes option" where
  "mock_read m slot offset read_len =
    (if slot \<ge> FLASH_PARTITION_SLOT_COUNT then None
     else if offset + read_len > FLASH_PARTITION_MAX_SIZE then None
     else Some (map (mf_slot_data m slot) [unat offset..<unat offset + unat read_len]))"

definition mock_get_data :: "mock_flash \<Rightarrow> u8 \<Rightarrow> (nat \<Rightarrow> u8) option" where
  "mock_get_data m slot = (if slot \<ge> FLASH_PARTITION_SLOT_COUNT then None else Some (mf_slot_data m slot))"

definition mock_get_write_offset :: "mock_flash \<Rightarrow> u8 \<Rightarrow> u32" where
  "mock_get_write_offset m slot = (if slot \<ge> FLASH_PARTITION_SLOT_COUNT then 0 else mf_slot_write_offset m slot)"

definition mock_backend :: FlashPartitionBackend_t where
  "mock_backend = \<lparr>fb_begin = mock_begin, fb_write = mock_write, fb_end = mock_end,
     fb_set_boot_partition = mock_set_boot_partition, fb_get_boot_partition = mock_get_boot_partition,
     fb_get_slot_state = mock_get_slot_state, fb_read = mock_read, fb_get_data = mock_get_data,
     fb_get_write_offset = mock_get_write_offset\<rparr>"

section \<open>The slot logic\<close>

definition flash_partition_init :: "flash_partition \<Rightarrow> bool \<times> flash_partition" where
  "flash_partition_init f =
    (True, f\<lparr>fp_mock := \<lparr>mf_slot_data = (\<lambda>_ _. 0xFF), mf_slot_write_offset = (\<lambda>_. 0),
               mf_slot_state = (\<lambda>_. FLASH_SLOT_STATE_ERASED)\<rparr>,
             fp_boot_partition := FLASH_PARTITION_SLOT_A, fp_original_boot_partition := FLASH_PARTITION_SLOT_A,
             fp_ota_target := FLASH_PARTITION_SLOT_B, fp_ota_in_progress := False,
             fp_backend := (case fp_backend f of None \<Rightarrow> Some mock_backend | Some b \<Rightarrow> Some b),
             fp_initialised := True\<rparr>)"

definition flash_partition_set_backend :: "flash_partition \<Rightarrow> FlashPartitionBackend_t option \<Rightarrow> flash_partition" where
  "flash_partition_set_backend f backend = f\<lparr>fp_backend := backend\<rparr>"

definition other_slot :: "u8 \<Rightarrow> u8" where
  "other_slot s = (if s = FLASH_PARTITION_SLOT_A then FLASH_PARTITION_SLOT_B else FLASH_PARTITION_SLOT_A)"

definition flash_partition_ota_begin :: "flash_partition \<Rightarrow> u32 \<Rightarrow> bool \<times> flash_partition" where
  "flash_partition_ota_begin f image_size =
    (case fp_backend f of
       None \<Rightarrow> (False, f)
     | Some b \<Rightarrow>
         if \<not> fp_initialised f then (False, f)
         else if fp_ota_in_progress f then (False, f)
         else
           let f = f\<lparr>fp_original_boot_partition := fp_boot_partition f, fp_ota_target := other_slot (fp_boot_partition f)\<rparr>;
               (ok, m) = fb_begin b (fp_mock f) (fp_ota_target f) image_size;
               f = f\<lparr>fp_mock := m\<rparr>
           in if ok then (True, f\<lparr>fp_ota_in_progress := True\<rparr>) else (False, f))"

definition flash_partition_ota_write :: "flash_partition \<Rightarrow> u32 \<Rightarrow> bytes \<Rightarrow> bool \<times> flash_partition" where
  "flash_partition_ota_write f offset data =
    (case fp_backend f of
       None \<Rightarrow> (False, f)
     | Some b \<Rightarrow>
         if \<not> fp_initialised f then (False, f)
         else if \<not> fp_ota_in_progress f then (False, f)
         else (case fb_write b (fp_mock f) (fp_ota_target f) offset data of (ok, m) \<Rightarrow> (ok, f\<lparr>fp_mock := m\<rparr>)))"

definition flash_partition_ota_end :: "flash_partition \<Rightarrow> bool \<times> flash_partition" where
  "flash_partition_ota_end f =
    (case fp_backend f of
       None \<Rightarrow> (False, f)
     | Some b \<Rightarrow>
         if \<not> fp_initialised f then (False, f)
         else if \<not> fp_ota_in_progress f then (False, f)
         else (case fb_end b (fp_mock f) (fp_ota_target f) of
            (ok, m) \<Rightarrow> (ok, f\<lparr>fp_mock := m, fp_ota_in_progress := False\<rparr>)))"

definition flash_partition_set_boot :: "flash_partition \<Rightarrow> bool \<times> flash_partition" where
  "flash_partition_set_boot f =
    (case fp_backend f of
       None \<Rightarrow> (False, f)
     | Some b \<Rightarrow>
         if \<not> fp_initialised f then (False, f)
         else (case fb_set_boot_partition b (fp_mock f) (fp_ota_target f) of
            (ok, m) \<Rightarrow> if ok then (True, f\<lparr>fp_mock := m, fp_boot_partition := fp_ota_target f\<rparr>)
                        else (False, f\<lparr>fp_mock := m\<rparr>)))"

definition flash_partition_rollback :: "flash_partition \<Rightarrow> bool \<times> flash_partition" where
  "flash_partition_rollback f =
    (case fp_backend f of
       None \<Rightarrow> (False, f)
     | Some b \<Rightarrow>
         if \<not> fp_initialised f then (False, f)
         else (case fb_set_boot_partition b (fp_mock f) (fp_original_boot_partition f) of
            (ok, m) \<Rightarrow> if ok then (True, f\<lparr>fp_mock := m, fp_boot_partition := fp_original_boot_partition f\<rparr>)
                        else (False, f\<lparr>fp_mock := m\<rparr>)))"

definition flash_partition_get_active_slot :: "flash_partition \<Rightarrow> u8" where
  "flash_partition_get_active_slot f = fp_boot_partition f"

definition flash_partition_get_inactive_slot :: "flash_partition \<Rightarrow> u8" where
  "flash_partition_get_inactive_slot f = other_slot (fp_boot_partition f)"

definition flash_partition_get_backend :: "flash_partition \<Rightarrow> FlashPartitionBackend_t option" where
  "flash_partition_get_backend f = fp_backend f"

section \<open>Slots in use\<close>

lemmas flash_consts = FLASH_PARTITION_SLOT_COUNT_def FLASH_PARTITION_SLOT_A_def FLASH_PARTITION_SLOT_B_def
  FLASH_PARTITION_MAX_SIZE_def

definition flash_ok :: "flash_partition \<Rightarrow> bool" where
  "flash_ok f \<longleftrightarrow> fp_initialised f \<and> fp_backend f = Some mock_backend \<and> fp_boot_partition f < 2
     \<and> fp_original_boot_partition f < 2 \<and> fp_ota_target f < 2"

lemma other_slot_less [simp]: "other_slot s < 2" and other_slot_neq: "other_slot s \<noteq> s"
  by (auto simp: other_slot_def flash_consts)

lemma flash_ok_init: "fp_backend f = None \<or> fp_backend f = Some mock_backend \<Longrightarrow> flash_ok (snd (flash_partition_init f))"
  by (auto simp: flash_partition_init_def flash_ok_def flash_consts)

text \<open>Steps of the slot logic.\<close>

inductive flash_step :: "flash_partition \<Rightarrow> flash_partition \<Rightarrow> bool" where
  ota_begin: "flash_step f (snd (flash_partition_ota_begin f n))"
| ota_write: "flash_step f (snd (flash_partition_ota_write f off d))"
| ota_end: "flash_step f (snd (flash_partition_ota_end f))"
| set_boot: "flash_step f (snd (flash_partition_set_boot f))"
| rollback: "flash_step f (snd (flash_partition_rollback f))"

lemma flash_step_ok: "flash_ok f \<Longrightarrow> flash_step f f' \<Longrightarrow> flash_ok f'"
  by (erule flash_step.cases)
    (auto simp: flash_ok_def flash_partition_ota_begin_def flash_partition_ota_write_def flash_partition_ota_end_def
      flash_partition_set_boot_def flash_partition_rollback_def mock_backend_def Let_def split: prod.splits)

interpretation flash_sys: invariant_system flash_ok flash_step flash_ok
  by unfold_locales (auto intro: flash_step_ok)

lemma mock_write_other:
  "mock_write m slot off d = (ok, m') \<Longrightarrow> s \<noteq> slot \<Longrightarrow> mf_slot_data m' s = mf_slot_data m s"
  by (auto simp: mock_write_def Let_def split: if_splits)

lemma mock_begin_other:
  "mock_begin m slot n = (ok, m') \<Longrightarrow> s \<noteq> slot \<Longrightarrow> mf_slot_data m' s = mf_slot_data m s"
  by (auto simp: mock_begin_def split: if_splits)

section \<open>Properties\<close>

text \<open>
  While a transfer runs, the target is the slot that is not booted from.  This is kept by every step
  but a switch of the boot slot in the middle of a transfer.
\<close>

definition target_inactive :: "flash_partition \<Rightarrow> bool" where
  "target_inactive f \<longleftrightarrow> (fp_ota_in_progress f \<longrightarrow> fp_ota_target f \<noteq> fp_boot_partition f)"

text \<open>
  The running image is never written: in every step of the slot logic that does not switch the
  boot slot, the contents of the slot booted from are unchanged, and the target of a running transfer
  stays the other slot.
\<close>

theorem active_slot_untouched:
  assumes "flash_ok f" and "target_inactive f" and "flash_step f f'" and "fp_boot_partition f' = fp_boot_partition f"
  shows "mf_slot_data (fp_mock f') (fp_boot_partition f) = mf_slot_data (fp_mock f) (fp_boot_partition f)
    \<and> target_inactive f'"
  using assms(3)
proof cases
  case (ota_begin n)
  then show ?thesis using assms(1,2) mock_begin_other[of "fp_mock f" "other_slot (fp_boot_partition f)" n] other_slot_neq[of "fp_boot_partition f"]
    by (auto simp: flash_partition_ota_begin_def target_inactive_def flash_ok_def mock_backend_def Let_def split: prod.splits)
next
  case (ota_write off d)
  then show ?thesis using assms(1,2) mock_write_other[of "fp_mock f" "fp_ota_target f" off d]
    by (auto simp: flash_partition_ota_write_def target_inactive_def flash_ok_def mock_backend_def split: prod.splits)
next
  case ota_end
  then show ?thesis using assms(1,2)
    by (auto simp: flash_partition_ota_end_def target_inactive_def flash_ok_def mock_backend_def mock_end_def split: prod.splits if_splits)
next
  case set_boot
  then show ?thesis using assms
    by (auto simp: flash_partition_set_boot_def target_inactive_def flash_ok_def mock_backend_def mock_set_boot_partition_def
        split: prod.splits if_splits)
next
  case rollback
  then show ?thesis using assms
    by (auto simp: flash_partition_rollback_def target_inactive_def flash_ok_def mock_backend_def mock_set_boot_partition_def
        split: prod.splits if_splits)
qed

definition demo_flash :: flash_partition where
  "demo_flash = \<lparr>fp_backend = Some mock_backend, fp_initialised = True,
     fp_mock = \<lparr>mf_slot_data = (\<lambda>_ _. 0xFF), mf_slot_write_offset = (\<lambda>_. 0), mf_slot_state = (\<lambda>_. FLASH_SLOT_STATE_ERASED)\<rparr>,
     fp_boot_partition = 0, fp_original_boot_partition = 0, fp_ota_target = 1, fp_ota_in_progress = False\<rparr>"

lemma demo_flash_ok: "flash_ok demo_flash"
  by (simp add: flash_ok_def demo_flash_def)

theorem active_slot_untouched_witness:
  "mf_slot_data (fp_mock (snd (flash_partition_ota_begin demo_flash 1000))) 0 = (\<lambda>_. 0xFF)"
proof -
  have "fp_boot_partition (snd (flash_partition_ota_begin demo_flash 1000)) = fp_boot_partition demo_flash"
    by (simp add: flash_partition_ota_begin_def demo_flash_def Let_def split: prod.splits)
  from active_slot_untouched[OF demo_flash_ok _ ota_begin this] show ?thesis
    by (simp add: target_inactive_def) (simp add: demo_flash_def)
qed

text \<open>
  The bound check of a write wraps: for every non-empty piece of data there is an offset beyond the
  end of the slot at which the check \<open>offset + data_len > MAX\<close> does not fire, so that the write is accepted.
\<close>

theorem flash_write_bound_wraps:
  assumes "flash_ok f" and "fp_ota_in_progress f" and "mf_slot_state (fp_mock f) (fp_ota_target f) = FLASH_SLOT_STATE_WRITING"
    and "0 < length d" and "length d \<le> 262144"
  shows "\<exists>off. unat off + length d > 262144 \<and> fst (flash_partition_ota_write f off d)"
proof (intro exI conjI)
  let ?off = "0xFFFFFFFF :: u32"
  show "unat ?off + length d > 262144" by simp
  have "?off + word_of_nat (length d) = word_of_nat (length d - 1)"
  proof -
    have "?off = - 1" by simp
    then show ?thesis using assms(4) by (simp only: of_nat_diff Suc_leI of_nat_1 One_nat_def) simp
  qed
  moreover have "unat (word_of_nat (length d - 1) :: u32) \<le> 262144"
    using assms(5) by (subst unat_word_of_nat_small) auto
  ultimately have "\<not> ?off + word_of_nat (length d) > FLASH_PARTITION_MAX_SIZE"
    by (simp add: word_less_nat_alt FLASH_PARTITION_MAX_SIZE_def)
  then show "fst (flash_partition_ota_write f ?off d)"
    using assms(1-3)
    by (simp add: flash_partition_ota_write_def flash_ok_def mock_backend_def mock_write_def Let_def FLASH_PARTITION_SLOT_COUNT_def not_le
        split: prod.splits)
qed

theorem flash_write_bound_wraps_witness:
  "\<exists>off. unat off + length [1, 2 :: u8] > 262144 \<and> fst (flash_partition_ota_write (snd (flash_partition_ota_begin demo_flash 1000)) off [1, 2])"
  by (rule flash_write_bound_wraps)
    (simp_all add: flash_partition_ota_begin_def demo_flash_def flash_ok_def mock_backend_def mock_begin_def other_slot_def flash_consts Let_def
      word_le_nat_alt)

end
