(* ===== verification/Ota.thy ===== *)
theory Ota
  imports Device_Identity Flash_Partition Attestation Rule_Engine Sensor_Validation Actuator_Failsafe
begin

text \<open>
  Firmware updates (\<open>firmware/shared/ota_manifest.{h,c}\<close>, \<open>firmware/shared/ota_session.{h,c}\<close>): the
  compatibility check and the transfer session that writes chunks to the inactive slot, plus the
  self-check at boot.  A device is the session context together with the modules the session calls.
  The transport callbacks are not called by the code and are left out; a chunk's \<open>data\<close> is the array
  of 256 bytes of which \<open>data_len\<close> are used.
\<close>

section \<open>Manifest\<close>

record FirmwareManifest_t =
  fm_target_domain_profile_id :: DomainProfileId_t
  fm_target_hw_variant_id :: u8
  fm_fw_version :: u32
  fm_image_size :: u32
  fm_image_hmac :: bytes

datatype OtaCompatResult_t =
  OTA_COMPAT_OK | OTA_COMPAT_ERR_DOMAIN_MISMATCH | OTA_COMPAT_ERR_VARIANT_MISMATCH
| OTA_COMPAT_ERR_VERSION_DOWNGRADE | OTA_COMPAT_ERR_PARAM_NULL

definition ota_compatibility_check :: "DeviceIdentity_t option \<Rightarrow> FirmwareManifest_t option \<Rightarrow> OtaCompatResult_t" where
  "ota_compatibility_check device manifest =
    (case (device, manifest) of
       (Some d, Some m) \<Rightarrow>
         if id_domain_profile_id d \<noteq> fm_target_domain_profile_id m then OTA_COMPAT_ERR_DOMAIN_MISMATCH
         else if id_hw_variant_id d \<noteq> fm_target_hw_variant_id m then OTA_COMPAT_ERR_VARIANT_MISMATCH
         else if fm_fw_version m \<le> id_fw_version d then OTA_COMPAT_ERR_VERSION_DOWNGRADE
         else OTA_COMPAT_OK
     | _ \<Rightarrow> OTA_COMPAT_ERR_PARAM_NULL)"

section \<open>Session\<close>

definition OTA_SESSION_MAX_CHUNK_SIZE :: u16 where "OTA_SESSION_MAX_CHUNK_SIZE = 256"
definition OTA_SESSION_MAX_IMAGE_SIZE :: u32 where "OTA_SESSION_MAX_IMAGE_SIZE = 128 * 1024"

datatype OtaSessionState_t =
  OTA_STATE_IDLE | OTA_STATE_MANIFEST | OTA_STATE_TRANSFER | OTA_STATE_VERIFY | OTA_STATE_COMPLETE | OTA_STATE_ERROR

datatype OtaSessionResult_t =
  OTA_RESULT_OK | OTA_RESULT_ERR_COMPAT | OTA_RESULT_ERR_SEQUENCE | OTA_RESULT_ERR_SIZE | OTA_RESULT_ERR_INTEGRITY
| OTA_RESULT_ERR_FLASH | OTA_RESULT_ERR_STATE | OTA_RESULT_ERR_PARAM_NULL

record OtaChunk_t =
  oc_sequence :: u32
  oc_offset :: u32
  oc_data_len :: u16
  oc_data :: bytes

record OtaSessionStats_t =
  os_chunks_received :: u32
  os_chunks_accepted :: u32
  os_chunks_rejected :: u32
  os_bytes_written :: u32
  os_retries_requested :: u32

record OtaSessionContext_t =
  ox_state :: OtaSessionState_t
  ox_manifest :: FirmwareManifest_t
  ox_image_size :: u32
  ox_chunks_expected :: u32
  ox_next_sequence :: u32
  ox_bytes_received :: u32
  ox_running_hmac :: bytes
  ox_hmac_started :: bool
  ox_stats :: OtaSessionStats_t

record 'st ota_device =
  od_initialised :: bool
  od_ctx :: OtaSessionContext_t
  od_identity :: "'st device_identity"
  od_flash :: flash_partition
  od_attestation :: attestation
  od_rules :: rule_engine
  od_validation :: sensor_validation
  od_failsafe :: failsafe

definition manifest_zero :: FirmwareManifest_t where
  "manifest_zero = \<lparr>fm_target_domain_profile_id = 0, fm_target_hw_variant_id = 0, fm_fw_version = 0, fm_image_size = 0,
     fm_image_hmac = replicate 32 0\<rparr>"

definition ota_stats_zero :: OtaSessionStats_t where
  "ota_stats_zero = \<lparr>os_chunks_received = 0, os_chunks_accepted = 0, os_chunks_rejected = 0, os_bytes_written = 0, os_retries_requested = 0\<rparr>"

definition ota_ctx_zero :: OtaSessionContext_t where
  "ota_ctx_zero = \<lparr>ox_state = OTA_STATE_IDLE, ox_manifest = manifest_zero, ox_image_size = 0, ox_chunks_expected = 0,
     ox_next_sequence = 0, ox_bytes_received = 0, ox_running_hmac = replicate 32 0, ox_hmac_started = False, ox_stats = ota_stats_zero\<rparr>"

definition ota_session_init :: "'st ota_device \<Rightarrow> bool \<times> 'st ota_device" where
  "ota_session_init g = (True, g\<lparr>od_initialised := True\<rparr>)"

definition ota_session_begin :: "'st ota_device \<Rightarrow> FirmwareManifest_t option \<Rightarrow> OtaSessionResult_t \<times> 'st ota_device" where
  "ota_session_begin g manifest =
    (if \<not> od_initialised g then (OTA_RESULT_ERR_STATE, g)
     else case manifest of
         None \<Rightarrow> (OTA_RESULT_ERR_PARAM_NULL, g)
       | Some m \<Rightarrow>
           let ctx = ota_ctx_zero\<lparr>ox_state := OTA_STATE_MANIFEST\<rparr>
           in (case device_identity_get (od_identity g) of
                (DEVICE_ID_OK, device) \<Rightarrow>
                  if ota_compatibility_check device (Some m) \<noteq> OTA_COMPAT_OK
                  then (OTA_RESULT_ERR_COMPAT, g\<lparr>od_ctx := ctx\<lparr>ox_state := OTA_STATE_ERROR\<rparr>\<rparr>)
                  else
                    let ctx = ctx\<lparr>ox_manifest := m, ox_image_size := fm_image_size m\<rparr>
                    in if ox_image_size ctx = 0 \<or> ox_image_size ctx > OTA_SESSION_MAX_IMAGE_SIZE
                       then (OTA_RESULT_ERR_SIZE, g\<lparr>od_ctx := ctx\<lparr>ox_state := OTA_STATE_ERROR\<rparr>\<rparr>)
                       else
                         let ctx = ctx\<lparr>ox_chunks_expected := 0, ox_next_sequence := 0, ox_bytes_received := 0\<rparr>
                         in (case flash_partition_ota_begin (od_flash g) (ox_image_size ctx) of
                              (ok, f) \<Rightarrow>
                                if \<not> ok then (OTA_RESULT_ERR_FLASH, g\<lparr>od_flash := f, od_ctx := ctx\<lparr>ox_state := OTA_STATE_ERROR\<rparr>\<rparr>)
                                else (OTA_RESULT_OK, g\<lparr>od_flash := f, od_ctx := ctx\<lparr>ox_state := OTA_STATE_TRANSFER\<rparr>\<rparr>))
              | _ \<Rightarrow> (OTA_RESULT_ERR_COMPAT, g\<lparr>od_ctx := ctx\<lparr>ox_state := OTA_STATE_ERROR\<rparr>\<rparr>)))"

definition ota_reject :: "OtaSessionContext_t \<Rightarrow> OtaSessionContext_t" where
  "ota_reject ctx = ctx\<lparr>ox_stats := (ox_stats ctx)\<lparr>os_chunks_rejected := os_chunks_rejected (ox_stats ctx) + 1\<rparr>\<rparr>"

text \<open>The last chunk: closing the slot, then pending version and boot slot.\<close>

definition ota_finish :: "'st ota_device \<Rightarrow> OtaSessionResult_t \<times> 'st ota_device" where
  "ota_finish g =
    (let g = g\<lparr>od_ctx := (od_ctx g)\<lparr>ox_state := OTA_STATE_VERIFY\<rparr>\<rparr>
     in (case flash_partition_ota_end (od_flash g) of
          (ok, f) \<Rightarrow>
            let g = g\<lparr>od_flash := f\<rparr>
            in if \<not> ok then (OTA_RESULT_ERR_FLASH, g\<lparr>od_ctx := (od_ctx g)\<lparr>ox_state := OTA_STATE_ERROR\<rparr>\<rparr>)
               else
                 let g = g\<lparr>od_ctx := (od_ctx g)\<lparr>ox_state := OTA_STATE_COMPLETE\<rparr>\<rparr>;
                     g = g\<lparr>od_identity := snd (device_identity_set_pending_version (od_identity g) (fm_fw_version (ox_manifest (od_ctx g))))\<rparr>
                 in (OTA_RESULT_OK, g\<lparr>od_flash := snd (flash_partition_set_boot (od_flash g))\<rparr>)))"

definition ota_session_process_chunk :: "'st ota_device \<Rightarrow> OtaChunk_t option \<Rightarrow> OtaSessionResult_t \<times> 'st ota_device" where
  "ota_session_process_chunk g chunk =
    (case chunk of
       None \<Rightarrow> (OTA_RESULT_ERR_PARAM_NULL, g)
     | Some c \<Rightarrow>
         if ox_state (od_ctx g) \<noteq> OTA_STATE_TRANSFER then (OTA_RESULT_ERR_STATE, g)
         else
           let ctx = od_ctx g;
               ctx = ctx\<lparr>ox_stats := (ox_stats ctx)\<lparr>os_chunks_received := os_chunks_received (ox_stats ctx) + 1\<rparr>\<rparr>
           in if oc_sequence c \<noteq> ox_next_sequence ctx then
                let ctx = ota_reject ctx
                in (OTA_RESULT_ERR_SEQUENCE, g\<lparr>od_ctx := ctx\<lparr>ox_stats := (ox_stats ctx)
                      \<lparr>os_retries_requested := os_retries_requested (ox_stats ctx) + 1\<rparr>\<rparr>\<rparr>)
              else if oc_data_len c = 0 \<or> oc_data_len c > OTA_SESSION_MAX_CHUNK_SIZE
                then (OTA_RESULT_ERR_SIZE, g\<lparr>od_ctx := ota_reject ctx\<rparr>)
              else if oc_offset c \<noteq> ox_bytes_received ctx then (OTA_RESULT_ERR_SIZE, g\<lparr>od_ctx := ota_reject ctx\<rparr>)
              else if oc_offset c + ucast (oc_data_len c) > OTA_SESSION_MAX_IMAGE_SIZE
                then (OTA_RESULT_ERR_SIZE, g\<lparr>od_ctx := ota_reject ctx\<rparr>)
              else (case flash_partition_ota_write (od_flash g) (oc_offset c) (take (unat (oc_data_len c)) (oc_data c)) of
                 (ok, f) \<Rightarrow>
                   if \<not> ok then (OTA_RESULT_ERR_FLASH, g\<lparr>od_flash := f, od_ctx := ctx\<lparr>ox_state := OTA_STATE_ERROR\<rparr>\<rparr>)
                   else
                     let ctx = ctx\<lparr>ox_next_sequence := ox_next_sequence ctx + 1,
                                   ox_bytes_received := ox_bytes_received ctx + ucast (oc_data_len c),
                                   ox_stats := (ox_stats ctx)\<lparr>os_chunks_accepted := os_chunks_accepted (ox_stats ctx) + 1,
                                      os_bytes_written := os_bytes_written (ox_stats ctx) + ucast (oc_data_len c)\<rparr>\<rparr>;
                         g = g\<lparr>od_flash := f, od_ctx := ctx\<rparr>
                     in if ox_bytes_received ctx \<ge> ox_image_size ctx then ota_finish g else (OTA_RESULT_OK, g)))"

definition ota_session_get_state :: "OtaSessionContext_t option \<Rightarrow> OtaSessionState_t" where
  "ota_session_get_state ctx = (case ctx of None \<Rightarrow> OTA_STATE_IDLE | Some c \<Rightarrow> ox_state c)"

definition ota_session_get_stats :: "OtaSessionContext_t option \<Rightarrow> OtaSessionStats_t option" where
  "ota_session_get_stats ctx = (case ctx of None \<Rightarrow> None | Some c \<Rightarrow> Some (ox_stats c))"

definition ota_session_abort :: "'st ota_device \<Rightarrow> 'st ota_device" where
  "ota_session_abort g = g\<lparr>od_ctx := (od_ctx g)\<lparr>ox_state := OTA_STATE_ERROR\<rparr>\<rparr>"

definition ota_session_boot_self_check :: "'st ota_device \<Rightarrow> bool \<times> 'st ota_device" where
  "ota_session_boot_self_check g =
    (if \<not> device_identity_has_pending_version (od_identity g) then (True, g)
     else
       let (c1, att) = attestation_init (od_attestation g);
           (c2, rul) = rule_engine_init (od_rules g);
           (c3, val) = sensor_validation_init (od_validation g);
           (c4, fs) = actuator_failsafe_init (od_failsafe g);
           g = g\<lparr>od_attestation := att, od_rules := rul, od_validation := val, od_failsafe := fs\<rparr>
       in if c1 \<and> c2 \<and> c3 \<and> c4
          then (True, g\<lparr>od_identity := snd (device_identity_confirm_boot (od_identity g))\<rparr>)
          else (False, g\<lparr>od_flash := snd (flash_partition_rollback (od_flash g))\<rparr>))"

text \<open>The topic as the bytes of the string; \<open>None\<close> when it does not fit the buffer of \<open>buf_size\<close> bytes.\<close>

definition ota_build_chunk_topic :: "nat \<Rightarrow> string option \<Rightarrow> string option \<Rightarrow> string option \<Rightarrow> string option" where
  "ota_build_chunk_topic buf_size tenant_id site_id device_id =
    (if buf_size = 0 then None
     else case (tenant_id, site_id, device_id) of
         (Some t, Some s, Some d) \<Rightarrow>
           let topic = ''rainmaker/'' @ t @ ''/'' @ s @ ''/'' @ d @ ''/ota/chunk''
           in if 0 < length topic \<and> length topic < buf_size then Some topic else None
       | _ \<Rightarrow> None)"

definition ota_session_result_str :: "OtaSessionResult_t \<Rightarrow> string" where
  "ota_session_result_str r =
    (case r of
       OTA_RESULT_OK \<Rightarrow> ''OK''
     | OTA_RESULT_ERR_COMPAT \<Rightarrow> ''Compatibility check failed''
     | OTA_RESULT_ERR_SEQUENCE \<Rightarrow> ''Chunk sequence mismatch''
     | OTA_RESULT_ERR_SIZE \<Rightarrow> ''Chunk size/offset error''
     | OTA_RESULT_ERR_INTEGRITY \<Rightarrow> ''Image integrity check failed''
     | OTA_RESULT_ERR_FLASH \<Rightarrow> ''Flash write error''
     | OTA_RESULT_ERR_STATE \<Rightarrow> ''Invalid state for operation''
     | OTA_RESULT_ERR_PARAM_NULL \<Rightarrow> ''NULL pointer argument'')"

section \<open>A complete transfer\<close>

text \<open>The chunks of a sender that cuts an image into pieces, and a device working through them.\<close>

definition mk_chunk :: "nat \<Rightarrow> nat \<Rightarrow> bytes \<Rightarrow> OtaChunk_t" where
  "mk_chunk seq off d = \<lparr>oc_sequence = word_of_nat seq, oc_offset = word_of_nat off, oc_data_len = word_of_nat (length d),
     oc_data = d @ replicate (256 - length d) 0\<rparr>"

fun mk_chunks :: "nat \<Rightarrow> nat \<Rightarrow> bytes list \<Rightarrow> OtaChunk_t list" where
  "mk_chunks seq off [] = []"
| "mk_chunks seq off (d # ds) = mk_chunk seq off d # mk_chunks (Suc seq) (off + length d) ds"

fun process_all :: "'st ota_device \<Rightarrow> OtaChunk_t list \<Rightarrow> OtaSessionResult_t list \<times> 'st ota_device" where
  "process_all g [] = ([], g)"
| "process_all g (c # cs) =
    (case ota_session_process_chunk g (Some c) of (r, g') \<Rightarrow>
       (case process_all g' cs of (rs, g'') \<Rightarrow> (r # rs, g'')))"

text \<open>
  In the middle of a transfer of manifest \<open>m\<close> to slot \<open>t\<close>: \<open>n\<close> chunks with contents \<open>pre\<close> are written, and
  the other slot holds \<open>old\<close>.
\<close>

definition transferring ::
  "FirmwareManifest_t \<Rightarrow> u8 \<Rightarrow> (nat \<Rightarrow> u8) \<Rightarrow> nat \<Rightarrow> bytes \<Rightarrow> 'st ota_device \<Rightarrow> bool"
where
  "transferring m t old n pre g \<longleftrightarrow>
     ox_state (od_ctx g) = OTA_STATE_TRANSFER \<and> ox_manifest (od_ctx g) = m \<and> ox_image_size (od_ctx g) = fm_image_size m
   \<and> ox_next_sequence (od_ctx g) = word_of_nat n \<and> ox_bytes_received (od_ctx g) = word_of_nat (length pre)
   \<and> flash_ok (od_flash g) \<and> fp_ota_in_progress (od_flash g) \<and> fp_ota_target (od_flash g) = t \<and> fp_boot_partition (od_flash g) \<noteq> t
   \<and> mf_slot_state (fp_mock (od_flash g)) t = FLASH_SLOT_STATE_WRITING
   \<and> (\<forall>i < length pre. mf_slot_data (fp_mock (od_flash g)) t i = pre ! i)
   \<and> mf_slot_data (fp_mock (od_flash g)) (fp_boot_partition (od_flash g)) = old"

lemma put_bytes_app:
  "\<forall>i < length pre. d i = pre ! i \<Longrightarrow> i < length (pre @ bs) \<Longrightarrow> put_bytes d (length pre) bs i = (pre @ bs) ! i"
  by (auto simp: put_bytes_def nth_append)

lemma flash_write_ok:
  assumes "flash_ok f" "fp_ota_in_progress f" "mf_slot_state (fp_mock f) (fp_ota_target f) = FLASH_SLOT_STATE_WRITING"
    and "off + length d \<le> 131072"
  shows "\<exists>m. flash_partition_ota_write f (word_of_nat off) d = (True, f\<lparr>fp_mock := m\<rparr>) \<and>
     mf_slot_state m = mf_slot_state (fp_mock f) \<and>
     mf_slot_data m = (mf_slot_data (fp_mock f))(fp_ota_target f := put_bytes (mf_slot_data (fp_mock f) (fp_ota_target f)) off d)"
proof -
  let ?m = "(fp_mock f)\<lparr>mf_slot_data := (mf_slot_data (fp_mock f))(fp_ota_target f :=
        put_bytes (mf_slot_data (fp_mock f) (fp_ota_target f)) off d),
      mf_slot_write_offset := (mf_slot_write_offset (fp_mock f))(fp_ota_target f := word_of_nat off + word_of_nat (length d))\<rparr>"
  have "unat (word_of_nat off + word_of_nat (length d) :: u32) = off + length d"
    using assms(4) by (simp flip: of_nat_add add: unat_word_of_nat_small)
  then have "\<not> FLASH_PARTITION_MAX_SIZE < (word_of_nat off + word_of_nat (length d) :: u32)"
    using assms(4) by (simp add: word_less_nat_alt FLASH_PARTITION_MAX_SIZE_def)
  moreover have "unat (word_of_nat off :: u32) = off" using assms(4) by (simp add: unat_word_of_nat_small)
  ultimately have "flash_partition_ota_write f (word_of_nat off) d = (True, f\<lparr>fp_mock := ?m\<rparr>)" using assms(1-3)
    by (simp add: flash_partition_ota_write_def flash_ok_def mock_backend_def mock_write_def Let_def
        FLASH_PARTITION_SLOT_COUNT_def not_le)
  then show ?thesis by (intro exI[of _ ?m]) simp
qed

lemma chunk_write:
  assumes t: "transferring m t old n pre g" and d: "0 < length d" "length d \<le> 256"
    and size: "length pre + length d \<le> unat (fm_image_size m)" "unat (fm_image_size m) \<le> 131072"
  shows "\<exists>g1. transferring m t old (Suc n) (pre @ d) g1 \<and> od_identity g1 = od_identity g \<and>
     fp_original_boot_partition (od_flash g1) = fp_original_boot_partition (od_flash g) \<and> fp_boot_partition (od_flash g1) = fp_boot_partition (od_flash g) \<and>
     ota_session_process_chunk g (Some (mk_chunk n (length pre) d)) =
       (if length pre + length d = unat (fm_image_size m) then ota_finish g1 else (OTA_RESULT_OK, g1))"
proof -
  note t' = t[unfolded transferring_def]
  obtain mk where w: "flash_partition_ota_write (od_flash g) (word_of_nat (length pre)) d = (True, (od_flash g)\<lparr>fp_mock := mk\<rparr>)"
      "mf_slot_state mk = mf_slot_state (fp_mock (od_flash g))"
      "mf_slot_data mk = (mf_slot_data (fp_mock (od_flash g)))(t := put_bytes (mf_slot_data (fp_mock (od_flash g)) t) (length pre) d)"
    using flash_write_ok[of "od_flash g" "length pre" d] t' size by auto
  define ctx where "ctx = (od_ctx g)\<lparr>ox_stats := (ox_stats (od_ctx g))\<lparr>os_chunks_received := os_chunks_received (ox_stats (od_ctx g)) + 1\<rparr>\<rparr>"
  define g1 where "g1 = g\<lparr>od_flash := (od_flash g)\<lparr>fp_mock := mk\<rparr>,
     od_ctx := ctx\<lparr>ox_next_sequence := ox_next_sequence ctx + 1,
       ox_bytes_received := ox_bytes_received ctx + ucast (word_of_nat (length d) :: u16),
       ox_stats := (ox_stats ctx)\<lparr>os_chunks_accepted := os_chunks_accepted (ox_stats ctx) + 1,
          os_bytes_written := os_bytes_written (ox_stats ctx) + ucast (word_of_nat (length d) :: u16)\<rparr>\<rparr>\<rparr>"
  have len: "unat (word_of_nat (length d) :: u16) = length d" using d by (simp add: unat_word_of_nat_small)
  have uc: "ucast (word_of_nat (length d) :: u16) = (word_of_nat (length d) :: u32)"
    using d by (simp add: word_unat_eq_iff unat_ucast_up len unat_word_of_nat_small)
  have sum: "unat (word_of_nat (length pre) + word_of_nat (length d) :: u32) = length pre + length d"
    using size by (simp flip: of_nat_add add: unat_word_of_nat_small)
  have lens: "word_of_nat (length d) \<noteq> (0 :: u16)" "\<not> OTA_SESSION_MAX_CHUNK_SIZE < word_of_nat (length d)"
    "\<not> OTA_SESSION_MAX_IMAGE_SIZE < word_of_nat (length pre) + word_of_nat (length d)"
    using d size len sum by (auto simp: OTA_SESSION_MAX_CHUNK_SIZE_def OTA_SESSION_MAX_IMAGE_SIZE_def word_less_nat_alt)
  have last: "(fm_image_size m \<le> word_of_nat (length pre) + word_of_nat (length d)) \<longleftrightarrow> length pre + length d = unat (fm_image_size m)"
    using size sum by (auto simp: word_le_nat_alt)
  have "ota_session_process_chunk g (Some (mk_chunk n (length pre) d)) =
       (if length pre + length d = unat (fm_image_size m) then ota_finish g1 else (OTA_RESULT_OK, g1))"
    using t' w(1) lens last
    by (simp add: ota_session_process_chunk_def mk_chunk_def len uc Let_def g1_def ctx_def)
  moreover have "transferring m t old (Suc n) (pre @ d) g1"
    using t' w(2,3) put_bytes_app[of pre "mf_slot_data (fp_mock (od_flash g)) t" _ d]
    by (auto simp: transferring_def g1_def ctx_def uc flash_ok_def)
  ultimately show ?thesis by (intro exI[of _ g1]) (simp add: g1_def)
qed


definition updated ::
  "FirmwareManifest_t \<Rightarrow> u8 \<Rightarrow> (nat \<Rightarrow> u8) \<Rightarrow> bytes \<Rightarrow> 'st ota_device \<Rightarrow> bool"
where
  "updated m t old img g \<longleftrightarrow> ox_state (od_ctx g) = OTA_STATE_COMPLETE
     \<and> (\<forall>i < length img. mf_slot_data (fp_mock (od_flash g)) t i = img ! i)
     \<and> mf_slot_data (fp_mock (od_flash g)) (other_slot t) = old
     \<and> flash_partition_get_active_slot (od_flash g) = t
     \<and> device_identity_get_pending_version (od_identity g) = fm_fw_version m"

lemma slot_other: "s < 2 \<Longrightarrow> t < 2 \<Longrightarrow> s \<noteq> t \<Longrightarrow> other_slot t = (s :: u8)"
  by (auto simp: other_slot_def flash_consts word_less_nat_alt word_unat_eq_iff)

lemma finish_updates:
  assumes t: "transferring m t old n img g" and id: "di_initialised (od_identity g)" "di_provisioned (od_identity g)"
  shows "\<exists>g'. ota_finish g = (OTA_RESULT_OK, g') \<and> updated m t old img g' \<and>
     od_identity g' = snd (device_identity_set_pending_version (od_identity g) (fm_fw_version m))"
proof -
  note t' = t[unfolded transferring_def]
  have o: "other_slot t = fp_boot_partition (od_flash g)"
    using t' slot_other[of "fp_boot_partition (od_flash g)" t] by (auto simp: flash_ok_def)
  show ?thesis using t' id o
    by (auto simp: ota_finish_def updated_def Let_def flash_partition_ota_end_def flash_partition_set_boot_def flash_ok_def
        mock_backend_def mock_end_def mock_set_boot_partition_def FLASH_PARTITION_SLOT_COUNT_def not_le
        flash_partition_get_active_slot_def device_identity_get_pending_version_def device_identity_set_pending_version_def
        simp flip: not_less)
qed

lemma process_transfer:
  assumes "\<forall>d \<in> set ds. 0 < length d \<and> length d \<le> 256" and "ds \<noteq> []"
    and "transferring m t old n pre g" and "length pre + length (concat ds) = unat (fm_image_size m)"
    and "unat (fm_image_size m) \<le> 131072"
    and "di_initialised (od_identity g)" "di_provisioned (od_identity g)"
  shows "\<exists>g'. process_all g (mk_chunks n (length pre) ds) = (replicate (length ds) OTA_RESULT_OK, g')
    \<and> updated m t old (pre @ concat ds) g'
    \<and> od_identity g' = snd (device_identity_set_pending_version (od_identity g) (fm_fw_version m))"
  using assms
proof (induction ds arbitrary: n pre g)
  case (Cons d ds)
  have d: "0 < length d" "length d \<le> 256" "length pre + length d \<le> unat (fm_image_size m)" using Cons.prems by auto
  obtain g1 where g1: "transferring m t old (Suc n) (pre @ d) g1" "od_identity g1 = od_identity g"
    "ota_session_process_chunk g (Some (mk_chunk n (length pre) d)) =
       (if length pre + length d = unat (fm_image_size m) then ota_finish g1 else (OTA_RESULT_OK, g1))"
    using chunk_write[OF Cons.prems(3) d Cons.prems(5)] by blast
  show ?case
  proof (cases "ds = []")
    case True
    then show ?thesis using finish_updates[OF g1(1)] g1 Cons.prems by auto
  next
    case False
    then have "0 < length (concat ds)" using Cons.prems(1) by (cases ds) auto
    moreover have "length pre + (length d + length (concat ds)) = unat (fm_image_size m)" using Cons.prems(4) by simp
    ultimately have "length pre + length d \<noteq> unat (fm_image_size m)" by linarith
    then show ?thesis using Cons.IH[OF _ False g1(1)] g1 Cons.prems by auto
  qed
qed simp

lemma transfer_completes:
  assumes "od_initialised g" and "flash_ok (od_flash g)" and "\<not> fp_ota_in_progress (od_flash g)"
    and "di_initialised (od_identity g)" and "di_provisioned (od_identity g)"
    and "ota_compatibility_check (Some (di_identity (od_identity g))) (Some m) = OTA_COMPAT_OK"
    and "\<forall>d \<in> set ds. 0 < length d \<and> length d \<le> 256" and "ds \<noteq> []"
    and "length (concat ds) = unat (fm_image_size m)" and "unat (fm_image_size m) \<le> 131072"
  shows "\<exists>g1 g2. ota_session_begin g (Some m) = (OTA_RESULT_OK, g1)
    \<and> process_all g1 (mk_chunks 0 0 ds) = (replicate (length ds) OTA_RESULT_OK, g2)
    \<and> updated m (flash_partition_get_inactive_slot (od_flash g))
        (mf_slot_data (fp_mock (od_flash g)) (flash_partition_get_active_slot (od_flash g))) (concat ds) g2"
proof -
  let ?a = "fp_boot_partition (od_flash g)" let ?t = "other_slot ?a"
  have "0 < length (concat ds)" using assms(7,8) by (cases ds) auto
  then have sz: "fm_image_size m \<noteq> 0" "\<not> OTA_SESSION_MAX_IMAGE_SIZE < fm_image_size m"
    "\<not> FLASH_PARTITION_MAX_SIZE < fm_image_size m"
    using assms(9,10) by (auto simp: OTA_SESSION_MAX_IMAGE_SIZE_def FLASH_PARTITION_MAX_SIZE_def word_less_nat_alt)
  have t: "\<not> FLASH_PARTITION_SLOT_COUNT \<le> ?t" using other_slot_less[of ?a] by (simp add: FLASH_PARTITION_SLOT_COUNT_def not_le)
  obtain g1 where g1: "ota_session_begin g (Some m) = (OTA_RESULT_OK, g1)" "od_identity g1 = od_identity g"
    "transferring m ?t (mf_slot_data (fp_mock (od_flash g)) ?a) 0 [] g1"
    using assms(1-6) sz t other_slot_neq[of ?a]
    by (auto simp: ota_session_begin_def device_identity_get_def Let_def flash_partition_ota_begin_def flash_ok_def mock_backend_def
        mock_begin_def transferring_def)
  from process_transfer[OF assms(7,8) g1(3)] assms(4,5,9,10) g1(1,2) show ?thesis
    by (auto simp: flash_partition_get_inactive_slot_def flash_partition_get_active_slot_def)
qed


section \<open>Properties\<close>

text \<open>
  C5.  A complete transfer: on a provisioned device with an idle flash, a manifest for the same domain and
  hardware with a higher version and an image of 1 to 131072 bytes, cut into pieces of 1 to 256 bytes
  sent in order, every step succeeds; at the end the slot that was inactive holds exactly the image,
  the slot that was running is unchanged, the device boots from the new slot and the manifest's
  version is pending.
\<close>

theorem ota_transfer_installs:
  assumes "od_initialised g" and "flash_ok (od_flash g)" and "\<not> fp_ota_in_progress (od_flash g)"
    and "di_initialised (od_identity g)" and "di_provisioned (od_identity g)"
    and "ota_compatibility_check (Some (di_identity (od_identity g))) (Some m) = OTA_COMPAT_OK"
    and "\<forall>d \<in> set ds. 0 < length d \<and> length d \<le> 256" and "ds \<noteq> []"
    and "length (concat ds) = unat (fm_image_size m)" and "unat (fm_image_size m) \<le> 131072"
  shows "\<exists>g1 g2. ota_session_begin g (Some m) = (OTA_RESULT_OK, g1)
    \<and> process_all g1 (mk_chunks 0 0 ds) = (replicate (length ds) OTA_RESULT_OK, g2)
    \<and> updated m (flash_partition_get_inactive_slot (od_flash g))
        (mf_slot_data (fp_mock (od_flash g)) (flash_partition_get_active_slot (od_flash g))) (concat ds) g2"
  using assms by (rule transfer_completes)

definition demo_manifest :: FirmwareManifest_t where
  "demo_manifest = \<lparr>fm_target_domain_profile_id = DOMAIN_PROFILE_HVAC, fm_target_hw_variant_id = 2, fm_fw_version = 8,
     fm_image_size = 3, fm_image_hmac = replicate 32 0\<rparr>"

definition demo_ota :: "(DeviceIdentity_t \<times> bool \<times> u32) ota_device" where
  "demo_ota = \<lparr>od_initialised = True, od_ctx = ota_ctx_zero, od_identity = demo_device True, od_flash = demo_flash,
     od_attestation = \<lparr>at_key_table = [], at_g_initialised = True\<rparr>, od_rules = \<lparr>rule_g_initialised = True\<rparr>,
     od_validation = \<lparr>sv_g_initialised = True\<rparr>, od_failsafe = \<lparr>fs_table = [], fs_g_initialised = True\<rparr>\<rparr>"

lemma demo_ota_ready:
  "od_initialised demo_ota" "flash_ok (od_flash demo_ota)" "\<not> fp_ota_in_progress (od_flash demo_ota)"
  "di_initialised (od_identity demo_ota)" "di_provisioned (od_identity demo_ota)"
  "ota_compatibility_check (Some (di_identity (od_identity demo_ota))) (Some demo_manifest) = OTA_COMPAT_OK"
  using demo_flash_ok
  by (simp_all add: demo_ota_def demo_device_def demo_flash_def demo_manifest_def demo_identity_def ota_compatibility_check_def)

theorem ota_transfer_installs_witness:
  "\<exists>g1 g2. ota_session_begin demo_ota (Some demo_manifest) = (OTA_RESULT_OK, g1)
    \<and> process_all g1 (mk_chunks 0 0 [[10, 11], [12]]) = ([OTA_RESULT_OK, OTA_RESULT_OK], g2)
    \<and> updated demo_manifest 1 (\<lambda>_. 0xFF) [10, 11, 12] g2"
proof -
  have s: "flash_partition_get_inactive_slot (od_flash demo_ota) = 1" "flash_partition_get_active_slot (od_flash demo_ota) = 0"
    "mf_slot_data (fp_mock (od_flash demo_ota)) 0 = (\<lambda>_. 0xFF)"
    by (simp_all add: demo_ota_def demo_flash_def flash_partition_get_inactive_slot_def flash_partition_get_active_slot_def
        other_slot_def flash_consts)
  from ota_transfer_installs[OF demo_ota_ready, of "[[10, 11], [12]]"] show ?thesis
    by (simp add: s numeral_2_eq_2) (simp add: demo_manifest_def)
qed

lemma demo_ota_run:
  "ds \<noteq> [] \<Longrightarrow> length (concat ds) = unat (fm_image_size demo_manifest) \<Longrightarrow> \<forall>d \<in> set ds. 0 < length d \<and> length d \<le> 256 \<Longrightarrow>
   \<exists>g1 g2. ota_session_begin demo_ota (Some demo_manifest) = (OTA_RESULT_OK, g1)
     \<and> process_all g1 (mk_chunks 0 0 ds) = (replicate (length ds) OTA_RESULT_OK, g2) \<and> ox_state (od_ctx g2) = OTA_STATE_COMPLETE"
  using transfer_completes[OF demo_ota_ready, of ds] by (auto simp: updated_def demo_manifest_def)

text \<open>
  Image targeting: a session starts only if the manifest names the device's domain profile and
  hardware variant and carries a strictly higher version; an equal version is refused.
\<close>

theorem ota_begin_targets:
  assumes "fst (ota_session_begin g (Some m)) = OTA_RESULT_OK"
  shows "fm_target_domain_profile_id m = device_identity_get_domain (od_identity g)
    \<and> fm_target_hw_variant_id m = device_identity_get_hw_variant (od_identity g)
    \<and> device_identity_get_fw_version (od_identity g) < fm_fw_version m
    \<and> 0 < unat (fm_image_size m) \<and> unat (fm_image_size m) \<le> 131072"
  using assms
  by (auto simp: ota_session_begin_def device_identity_get_def ota_compatibility_check_def Let_def not_le
      device_identity_get_domain_def device_identity_get_hw_variant_def device_identity_get_fw_version_def
      OTA_SESSION_MAX_IMAGE_SIZE_def word_less_nat_alt unat_gt_0 split: if_splits prod.splits)

theorem ota_begin_targets_witness:
  "fm_target_hw_variant_id demo_manifest = device_identity_get_hw_variant (od_identity demo_ota)"
proof -
  have "fst (ota_session_begin demo_ota (Some demo_manifest)) = OTA_RESULT_OK"
    using demo_ota_ready
    by (simp add: ota_session_begin_def device_identity_get_def Let_def)
      (simp add: demo_ota_def demo_manifest_def demo_flash_def flash_partition_ota_begin_def mock_backend_def mock_begin_def other_slot_def flash_consts
        OTA_SESSION_MAX_IMAGE_SIZE_def Let_def word_le_nat_alt)
  from ota_begin_targets[OF this] show ?thesis by blast
qed

text \<open>
  An aborted transfer blocks all later ones: after a session has started and is aborted, every
  further manifest is refused, compatible ones with a flash error, because the slot logic still
  believes a transfer is running; only a re-initialisation of the flash module clears that.
\<close>

theorem ota_abort_blocks_updates:
  assumes "ota_session_begin g (Some m) = (OTA_RESULT_OK, g1)"
  shows "fst (ota_session_begin (ota_session_abort g1) (Some m')) \<in>
      {OTA_RESULT_ERR_COMPAT, OTA_RESULT_ERR_SIZE, OTA_RESULT_ERR_FLASH}
    \<and> (fm_image_size m' = fm_image_size m \<and> fm_target_domain_profile_id m' = fm_target_domain_profile_id m \<and>
       fm_target_hw_variant_id m' = fm_target_hw_variant_id m \<and> fm_fw_version m \<le> fm_fw_version m'
       \<longrightarrow> fst (ota_session_begin (ota_session_abort g1) (Some m')) = OTA_RESULT_ERR_FLASH)"
proof -
  have g1: "od_initialised g1" "fp_ota_in_progress (od_flash g1)" "od_identity g1 = od_identity g"
    using assms by (auto simp: ota_session_begin_def Let_def flash_partition_ota_begin_def
        split: if_splits prod.splits option.splits DeviceIdentityResult_t.splits)
  have fl: "flash_partition_ota_begin (od_flash (ota_session_abort g1)) n = (False, od_flash (ota_session_abort g1))" for n
    using g1(2) by (simp add: ota_session_abort_def flash_partition_ota_begin_def split: option.splits)
  have id: "od_initialised (ota_session_abort g1)" "od_identity (ota_session_abort g1) = od_identity g"
    using g1 by (simp_all add: ota_session_abort_def)
  have r: "di_initialised (od_identity g)" "di_provisioned (od_identity g)" "fm_image_size m \<noteq> 0"
    "\<not> OTA_SESSION_MAX_IMAGE_SIZE < fm_image_size m"
    "ota_compatibility_check (Some (di_identity (od_identity g))) (Some m) = OTA_COMPAT_OK"
    using assms by (auto simp: ota_session_begin_def Let_def device_identity_get_def split: if_splits prod.splits)
  have "ota_compatibility_check (Some (di_identity (od_identity g))) (Some m') = OTA_COMPAT_OK"
    if "fm_target_domain_profile_id m' = fm_target_domain_profile_id m"
      "fm_target_hw_variant_id m' = fm_target_hw_variant_id m" "fm_fw_version m \<le> fm_fw_version m'"
    using r(5) that by (auto simp: ota_compatibility_check_def split: if_splits)
  then show ?thesis
    using r(1-4) fl id by (simp add: ota_session_begin_def Let_def device_identity_get_def)
qed

theorem ota_abort_blocks_updates_witness:
  "\<exists>g1. ota_session_begin demo_ota (Some demo_manifest) = (OTA_RESULT_OK, g1) \<and>
     fst (ota_session_begin (ota_session_abort g1) (Some demo_manifest)) = OTA_RESULT_ERR_FLASH"
proof -
  have "fst (ota_session_begin demo_ota (Some demo_manifest)) = OTA_RESULT_OK"
    using demo_ota_ready
    by (simp add: ota_session_begin_def device_identity_get_def Let_def)
      (simp add: demo_ota_def demo_manifest_def demo_flash_def flash_partition_ota_begin_def mock_backend_def mock_begin_def other_slot_def flash_consts
        OTA_SESSION_MAX_IMAGE_SIZE_def Let_def word_le_nat_alt)
  then obtain g1 where b: "ota_session_begin demo_ota (Some demo_manifest) = (OTA_RESULT_OK, g1)" by (metis prod.collapse)
  from ota_abort_blocks_updates[OF b, of demo_manifest] b show ?thesis by auto
qed


lemma chunk_identity:
  assumes "ota_session_process_chunk g (Some c) = (r, g')"
  shows "ox_manifest (od_ctx g') = ox_manifest (od_ctx g)
    \<and> (if ox_state (od_ctx g) = OTA_STATE_TRANSFER \<and> ox_state (od_ctx g') = OTA_STATE_COMPLETE
       then od_identity g' = snd (device_identity_set_pending_version (od_identity g) (fm_fw_version (ox_manifest (od_ctx g))))
       else od_identity g' = od_identity g)
    \<and> (ox_state (od_ctx g) \<noteq> OTA_STATE_TRANSFER \<longrightarrow> g' = g)"
  using assms
  by (auto simp: ota_session_process_chunk_def ota_finish_def ota_reject_def Let_def split: if_splits prod.splits)

lemma process_all_done: "ox_state (od_ctx g) \<noteq> OTA_STATE_TRANSFER \<Longrightarrow> snd (process_all g cs) = g"
  by (induction cs) (auto simp: ota_session_process_chunk_def split: prod.splits)

lemma process_all_identity:
  "ox_state (od_ctx g) = OTA_STATE_TRANSFER \<Longrightarrow> process_all g cs = (rs, g') \<Longrightarrow> ox_state (od_ctx g') = OTA_STATE_COMPLETE \<Longrightarrow>
   od_identity g' = snd (device_identity_set_pending_version (od_identity g) (fm_fw_version (ox_manifest (od_ctx g))))"
proof (induction cs arbitrary: g rs)
  case (Cons c cs)
  obtain r g1 where c: "ota_session_process_chunk g (Some c) = (r, g1)" by force
  then obtain rs1 where r1: "process_all g1 cs = (rs1, g')" using Cons.prems(2) by (auto split: prod.splits)
  show ?case
  proof (cases "ox_state (od_ctx g1) = OTA_STATE_TRANSFER")
    case True
    then show ?thesis using Cons.IH[OF True r1 Cons.prems(3)] chunk_identity[OF c] Cons.prems(1) by simp
  next
    case False
    then have "g1 = g'" using process_all_done[OF False, of cs] r1 by simp
    then show ?thesis using chunk_identity[OF c] Cons.prems by simp
  qed
qed simp

text \<open>
  A finished update is never confirmed: after any completed transfer, a reboot re-initialises the
  device identity and so discards the pending version; the boot self-check then does nothing, the
  recorded firmware version is still the old one, and the same manifest passes the compatibility
  check again.
\<close>

theorem ota_update_never_confirmed:
  assumes "provisioned_as s img F (od_identity g)" and "ota_session_begin g (Some m) = (OTA_RESULT_OK, g1)"
    and "process_all g1 cs = (rs, g2)" and "ox_state (od_ctx g2) = OTA_STATE_COMPLETE"
    and "g3 = g2\<lparr>od_identity := snd (device_identity_init (od_identity g2))\<rparr>"
  shows "ota_session_boot_self_check g3 = (True, g3)
    \<and> device_identity_get_fw_version (od_identity g3) = device_identity_get_fw_version (od_identity g)
    \<and> ota_compatibility_check (Some (di_identity (od_identity g3))) (Some m) = OTA_COMPAT_OK"
proof -
  have b: "ox_state (od_ctx g1) = OTA_STATE_TRANSFER" "od_identity g1 = od_identity g"
    "ota_compatibility_check (Some (di_identity (od_identity g))) (Some m) = OTA_COMPAT_OK"
    using assms(1,2) by (auto simp: ota_session_begin_def Let_def device_identity_get_def split: if_splits prod.splits)
  have id: "od_identity g2 = snd (device_identity_set_pending_version (od_identity g) (fm_fw_version (ox_manifest (od_ctx g1))))"
    using process_all_identity[OF b(1) assms(3,4)] b(2) by simp
  then have p2: "provisioned_as s img F (od_identity g2)" using step_provisioned[OF assms(1) identity_step.pending] by simp
  have "di_identity (od_identity g2) = di_identity (od_identity g)"
    using assms(1) by (simp add: id device_identity_set_pending_version_def provisioned_as_def)
  then show ?thesis
    using init_provisioned[OF p2] assms(1,5) b(3)
    by (simp add: ota_session_boot_self_check_def device_identity_has_pending_version_def device_identity_get_fw_version_def provisioned_as_def)
qed

theorem ota_update_never_confirmed_witness:
  "\<exists>g1 g2. ota_session_begin demo_ota (Some demo_manifest) = (OTA_RESULT_OK, g1)
    \<and> process_all g1 (mk_chunks 0 0 [[10, 11], [12]]) = ([OTA_RESULT_OK, OTA_RESULT_OK], g2)
    \<and> device_identity_get_fw_version (snd (device_identity_init (od_identity g2))) = device_identity_get_fw_version (demo_device True)"
proof -
  from demo_ota_run[of "[[10, 11], [12]]"] obtain g1 g2 where r: "ota_session_begin demo_ota (Some demo_manifest) = (OTA_RESULT_OK, g1)"
      "process_all g1 (mk_chunks 0 0 [[10, 11], [12]]) = ([OTA_RESULT_OK, OTA_RESULT_OK], g2)" "ox_state (od_ctx g2) = OTA_STATE_COMPLETE"
    by (auto simp: demo_manifest_def)
  have "provisioned_as demo_id_storage (\<lambda>st. st) (fixed_part (demo_identity 5)) (od_identity demo_ota)"
    using demo_provisioned by (simp add: demo_ota_def)
  from ota_update_never_confirmed[OF this r refl] r show ?thesis by (auto simp: demo_ota_def)
qed

definition with_hmac :: "bytes \<Rightarrow> 'st ota_device \<Rightarrow> 'st ota_device" where
  "with_hmac h g = g\<lparr>od_ctx := (od_ctx g)\<lparr>ox_manifest := (ox_manifest (od_ctx g))\<lparr>fm_image_hmac := h\<rparr>\<rparr>\<rparr>"

lemma chunk_with_hmac:
  "ota_session_process_chunk (with_hmac h g) (Some c) =
     (case ota_session_process_chunk g (Some c) of (r, g') \<Rightarrow> (r, with_hmac h g'))"
  "fst (ota_session_process_chunk g (Some c)) \<noteq> OTA_RESULT_ERR_INTEGRITY"
  by (auto simp: ota_session_process_chunk_def with_hmac_def ota_finish_def ota_reject_def Let_def split: if_splits prod.splits)

text \<open>
  The image digest plays no role: a session that has accepted a manifest reacts to every sequence of
  chunks in the same way whatever digest the manifest carried; in particular no chunk is ever answered
  with an integrity error.
\<close>

theorem ota_ignores_digest:
  "process_all (with_hmac h g) cs = (case process_all g cs of (rs, g') \<Rightarrow> (rs, with_hmac h g'))
   \<and> OTA_RESULT_ERR_INTEGRITY \<notin> set (fst (process_all g cs))"
proof (induction cs arbitrary: g)
  case (Cons c cs)
  obtain r g1 where "ota_session_process_chunk g (Some c) = (r, g1)" by force
  moreover obtain rs g2 where "process_all g1 cs = (rs, g2)" by force
  ultimately show ?case using Cons.IH[of g1] chunk_with_hmac(1)[of h g c] chunk_with_hmac(2)[of g c] by auto
qed simp

end
