(* ===== verification/Ota_Canary.thy ===== *)
theory Ota_Canary
  imports Device_Identity
begin

text \<open>
  Canary rollout (\<open>firmware/shared/ota_canary.{h,c}\<close>): groups per domain profile and hardware variant,
  deterministic bucketing with FNV-1a, error rates and rollback.  The 16 group slots are a list of that
  length; a group pointer is the number of its slot.
\<close>

section \<open>Data\<close>

definition OTA_CANARY_MAX_GROUPS :: nat where "OTA_CANARY_MAX_GROUPS = 16"

record OtaCanaryGroup_t =
  cg_domain_profile_id :: DomainProfileId_t
  cg_hw_variant_id :: u8
  cg_canary_percentage :: u8
  cg_devices_in_canary :: u32
  cg_devices_pending :: u32
  cg_devices_rolled_out :: u32
  cg_error_rate_threshold :: u8
  cg_error_count :: u32
  cg_total_attempts :: u32
  cg_rollback_triggered :: bool
  cg_active :: bool

datatype OtaCanaryResult_t =
  OTA_CANARY_OK | OTA_CANARY_ERR_GROUP_NOT_FOUND | OTA_CANARY_ERR_GROUP_FULL | OTA_CANARY_ERR_PARAM_NULL
| OTA_CANARY_ERR_NOT_ACTIVE

record canary =
  cn_groups :: "OtaCanaryGroup_t list"
  cn_initialised :: bool

definition canary_group_zero :: OtaCanaryGroup_t where
  "canary_group_zero = \<lparr>cg_domain_profile_id = 0, cg_hw_variant_id = 0, cg_canary_percentage = 0, cg_devices_in_canary = 0,
     cg_devices_pending = 0, cg_devices_rolled_out = 0, cg_error_rate_threshold = 0, cg_error_count = 0, cg_total_attempts = 0,
     cg_rollback_triggered = False, cg_active = False\<rparr>"

section \<open>Operations\<close>

definition fnv1a_hash :: "bytes \<Rightarrow> u32" where
  "fnv1a_hash data = foldl (\<lambda>hash b. (hash XOR ucast b) * 16777619) 2166136261 data"

definition ota_canary_init :: "canary \<Rightarrow> bool \<times> canary" where
  "ota_canary_init g = (True, \<lparr>cn_groups = replicate OTA_CANARY_MAX_GROUPS canary_group_zero, cn_initialised = True\<rparr>)"

definition canary_match :: "DomainProfileId_t \<Rightarrow> u8 \<Rightarrow> OtaCanaryGroup_t \<Rightarrow> bool" where
  "canary_match domain_profile_id hw_variant_id c \<longleftrightarrow>
     cg_active c \<and> cg_domain_profile_id c = domain_profile_id \<and> cg_hw_variant_id c = hw_variant_id"

definition ota_canary_create_group ::
  "canary \<Rightarrow> DomainProfileId_t \<Rightarrow> u8 \<Rightarrow> u8 \<Rightarrow> u8 \<Rightarrow> OtaCanaryResult_t \<times> nat option \<times> canary"
where
  "ota_canary_create_group g domain_profile_id hw_variant_id canary_percentage error_threshold =
    (if \<not> cn_initialised g then (OTA_CANARY_ERR_PARAM_NULL, None, g)
     else
       let pct = (if canary_percentage > 100 then 100 else canary_percentage)
       in (case find_index (canary_match domain_profile_id hw_variant_id) (cn_groups g) of
            Some i \<Rightarrow> (OTA_CANARY_OK, Some i, g)
          | None \<Rightarrow> (case find_index (\<lambda>c. \<not> cg_active c) (cn_groups g) of
              Some i \<Rightarrow> (OTA_CANARY_OK, Some i, g\<lparr>cn_groups := (cn_groups g)[i :=
                  canary_group_zero\<lparr>cg_domain_profile_id := domain_profile_id, cg_hw_variant_id := hw_variant_id,
                    cg_canary_percentage := pct, cg_error_rate_threshold := error_threshold, cg_active := True\<rparr>]\<rparr>)
            | None \<Rightarrow> (OTA_CANARY_ERR_GROUP_FULL, None, g))))"

definition ota_canary_hash_bucket :: "bytes option \<Rightarrow> u8" where
  "ota_canary_hash_bucket data =
    (case data of None \<Rightarrow> 0 | Some d \<Rightarrow> if d = [] then 0 else ucast (fnv1a_hash d mod 100))"

definition ota_canary_is_in_canary :: "bytes option \<Rightarrow> OtaCanaryGroup_t option \<Rightarrow> bool" where
  "ota_canary_is_in_canary device_uuid grp =
    (case (device_uuid, grp) of
       (Some uuid, Some c) \<Rightarrow>
         if \<not> cg_active c then False
         else if cg_canary_percentage c = 0 then False
         else if cg_canary_percentage c \<ge> 100 then True
         else
           let hash_input = take 16 uuid @ [ucast (cg_domain_profile_id c), cg_hw_variant_id c];
               bucket = ota_canary_hash_bucket (Some hash_input)
           in bucket < cg_canary_percentage c
     | _ \<Rightarrow> False)"

definition ota_canary_record_attempt :: "OtaCanaryGroup_t \<Rightarrow> bool \<Rightarrow> bool \<times> OtaCanaryGroup_t" where
  "ota_canary_record_attempt c success =
    (if \<not> cg_active c then (False, c)
     else
       let c = c\<lparr>cg_total_attempts := cg_total_attempts c + 1\<rparr>;
           c = (if \<not> success then c\<lparr>cg_error_count := cg_error_count c + 1\<rparr>
                else c\<lparr>cg_devices_rolled_out := cg_devices_rolled_out c + 1\<rparr>);
           c = (if cg_total_attempts c > 0 then
                  let error_rate = (cg_error_count c * 100) div cg_total_attempts c
                  in if error_rate > ucast (cg_error_rate_threshold c) \<and> cg_error_rate_threshold c > 0
                     then c\<lparr>cg_rollback_triggered := True\<rparr> else c
                else c)
       in (\<not> cg_rollback_triggered c, c))"

text \<open>The same through a group pointer, which is how the fleet is updated.\<close>

definition record_attempt_at :: "canary \<Rightarrow> nat \<Rightarrow> bool \<Rightarrow> bool \<times> canary" where
  "record_attempt_at g i success =
    (case ota_canary_record_attempt (cn_groups g ! i) success of (ok, c) \<Rightarrow> (ok, g\<lparr>cn_groups := (cn_groups g)[i := c]\<rparr>))"

definition ota_canary_get_group :: "canary \<Rightarrow> DomainProfileId_t \<Rightarrow> u8 \<Rightarrow> OtaCanaryResult_t \<times> nat option" where
  "ota_canary_get_group g domain_profile_id hw_variant_id =
    (if \<not> cn_initialised g then (OTA_CANARY_ERR_PARAM_NULL, None)
     else (case find_index (canary_match domain_profile_id hw_variant_id) (cn_groups g) of
         Some i \<Rightarrow> (OTA_CANARY_OK, Some i) | None \<Rightarrow> (OTA_CANARY_ERR_GROUP_NOT_FOUND, None)))"

definition ota_canary_rollback :: "OtaCanaryGroup_t option \<Rightarrow> OtaCanaryResult_t \<times> OtaCanaryGroup_t option" where
  "ota_canary_rollback grp =
    (case grp of
       None \<Rightarrow> (OTA_CANARY_ERR_PARAM_NULL, None)
     | Some c \<Rightarrow> if \<not> cg_active c then (OTA_CANARY_ERR_PARAM_NULL, Some c) else (OTA_CANARY_OK, Some (c\<lparr>cg_rollback_triggered := True\<rparr>)))"

definition ota_canary_get_group_count :: "canary \<Rightarrow> u8" where
  "ota_canary_get_group_count g = (if \<not> cn_initialised g then 0 else word_of_nat (length (filter cg_active (cn_groups g))))"

section \<open>Attempts\<close>

definition attempts :: "OtaCanaryGroup_t \<Rightarrow> bool list \<Rightarrow> OtaCanaryGroup_t" where
  "attempts c rs = foldl (\<lambda>c r. snd (ota_canary_record_attempt c r)) c rs"

lemma record_attempt_fields:
  assumes "cg_active c"
  shows "cg_active (snd (ota_canary_record_attempt c r))"
    "cg_total_attempts (snd (ota_canary_record_attempt c r)) = cg_total_attempts c + 1"
    "cg_error_count (snd (ota_canary_record_attempt c r)) = (if r then cg_error_count c else cg_error_count c + 1)"
    "cg_error_rate_threshold (snd (ota_canary_record_attempt c r)) = cg_error_rate_threshold c"
    "cg_canary_percentage (snd (ota_canary_record_attempt c r)) = cg_canary_percentage c"
    "cg_domain_profile_id (snd (ota_canary_record_attempt c r)) = cg_domain_profile_id c"
    "cg_hw_variant_id (snd (ota_canary_record_attempt c r)) = cg_hw_variant_id c"
    "cg_rollback_triggered c \<Longrightarrow> cg_rollback_triggered (snd (ota_canary_record_attempt c r))"
  using assms by (simp_all add: ota_canary_record_attempt_def Let_def)

lemma rollback_stays: "cg_active c \<Longrightarrow> cg_rollback_triggered c \<Longrightarrow> cg_active (attempts c rs) \<and> cg_rollback_triggered (attempts c rs)"
  by (induction rs arbitrary: c) (auto simp: attempts_def record_attempt_fields)

lemma attempts_counts:
  "cg_active c \<Longrightarrow> cg_active (attempts c rs) \<and> cg_error_rate_threshold (attempts c rs) = cg_error_rate_threshold c
   \<and> cg_total_attempts (attempts c rs) = cg_total_attempts c + word_of_nat (length rs)
   \<and> cg_error_count (attempts c rs) = cg_error_count c + word_of_nat (length (filter Not rs))"
  by (induction rs arbitrary: c) (auto simp: attempts_def record_attempt_fields algebra_simps)

lemma attempts_snoc: "attempts c (rs @ [r]) = snd (ota_canary_record_attempt (attempts c rs) r)"
  by (simp add: attempts_def)

section \<open>Properties\<close>

text \<open>
  Automatic rollback: for a fresh group with threshold \<open>t\<close> greater than 0, after each of its first
  \<open>2 ^ 32 div 100\<close> attempts the rollback flag is set if among these or any earlier prefix of attempts the
  integer error rate in percent exceeded \<open>t\<close>, and only then; the flag then stays set.
\<close>

theorem canary_auto_rollback:
  assumes "cg_active c" and "\<not> cg_rollback_triggered c" and "cg_total_attempts c = 0" and "cg_error_count c = 0"
    and "0 < cg_error_rate_threshold c" and "length rs \<le> 42949672"
  shows "cg_rollback_triggered (attempts c rs) \<longleftrightarrow>
    (\<exists>n \<le> length rs. 0 < n \<and> unat (cg_error_rate_threshold c) < (length (filter Not (take n rs)) * 100) div n)"
  using assms(6)
proof (induction rs rule: rev_induct)
  case Nil then show ?case using assms by (simp add: attempts_def)
next
  case (snoc r rs)
  let ?d = "attempts c rs" and ?e = "length (filter Not (rs @ [r]))" and ?n = "length (rs @ [r])"
  let ?c' = "snd (ota_canary_record_attempt ?d r)"
  have d: "cg_active ?d" "cg_error_rate_threshold ?d = cg_error_rate_threshold c"
    using attempts_counts[OF assms(1), of rs] by auto
  have cnt: "cg_total_attempts ?c' = word_of_nat ?n" "cg_error_count ?c' = word_of_nat ?e"
    using attempts_counts[OF assms(1), of "rs @ [r]"] assms(3,4) by (simp_all add: attempts_snoc)
  have e: "?e \<le> ?n" using length_filter_le by blast
  have n: "?n \<le> 42949672" using snoc.prems by simp
  have lt: "?n < 2 ^ LENGTH(32)" using n by simp
  have un: "unat (word_of_nat ?n :: u32) = ?n" "unat (word_of_nat ?e :: u32) = ?e"
    by (rule unat_word_of_nat_small[OF lt], rule unat_word_of_nat_small[OF le_less_trans[OF e lt]])
  have rate: "unat ((word_of_nat ?e * 100 :: u32) div word_of_nat ?n) = (?e * 100) div ?n"
  proof -
    have "unat (word_of_nat ?e :: u32) * unat (100 :: u32) < 2 ^ LENGTH(32)" unfolding un(2) using n e by simp
    then have "unat (word_of_nat ?e * 100 :: u32) = ?e * 100" using un(2) unat_mult_lem[of "word_of_nat ?e :: u32" 100] by simp
    then show ?thesis by (simp only: unat_div un)
  qed
  have "cg_rollback_triggered ?c' \<longleftrightarrow> cg_rollback_triggered ?d \<or> unat (cg_error_rate_threshold c) < (?e * 100) div ?n"
  proof -
    have "cg_rollback_triggered ?c' \<longleftrightarrow> cg_rollback_triggered ?d \<or>
        (ucast (cg_error_rate_threshold c) < (cg_error_count ?c' * 100) div cg_total_attempts ?c' \<and> cg_total_attempts ?c' > 0)"
      using d assms(5) by (auto simp: ota_canary_record_attempt_def Let_def)
    moreover have "cg_total_attempts ?c' > 0" using un(1) cnt(1) by (simp add: word_gt_0 word_unat_eq_iff)
    moreover have "unat (ucast (cg_error_rate_threshold c) :: u32) = unat (cg_error_rate_threshold c)" by (simp add: unat_ucast_up)
    ultimately show ?thesis unfolding cnt word_less_nat_alt rate by simp
  qed
  moreover have "(\<exists>n \<le> length (rs @ [r]). 0 < n \<and> unat (cg_error_rate_threshold c) < (length (filter Not (take n (rs @ [r]))) * 100) div n) \<longleftrightarrow>
      (\<exists>n \<le> length rs. 0 < n \<and> unat (cg_error_rate_threshold c) < (length (filter Not (take n rs)) * 100) div n) \<or>
      unat (cg_error_rate_threshold c) < (?e * 100) div ?n"
    by (auto simp: le_Suc_eq)
  ultimately show ?case using snoc by (simp add: attempts_snoc)
qed


definition demo_group :: OtaCanaryGroup_t where
  "demo_group = canary_group_zero\<lparr>cg_domain_profile_id := 3, cg_hw_variant_id := 2, cg_canary_percentage := 10,
     cg_error_rate_threshold := 20, cg_active := True\<rparr>"

theorem canary_auto_rollback_witness:
  "cg_rollback_triggered (attempts demo_group [True, True, False, True])"
proof -
  have "cg_rollback_triggered (attempts demo_group [True, True, False, True]) \<longleftrightarrow>
    (\<exists>n \<le> length [True, True, False, True]. 0 < n \<and>
      unat (cg_error_rate_threshold demo_group) < (length (filter Not (take n [True, True, False, True])) * 100) div n)"
    by (rule canary_auto_rollback) (simp_all add: demo_group_def canary_group_zero_def)
  moreover have "(3 :: nat) \<le> length [True, True, False, True] \<and> (0 :: nat) < 3 \<and>
      unat (cg_error_rate_threshold demo_group) < (length (filter Not (take 3 [True, True, False, True])) * 100) div 3"
    by (simp add: demo_group_def canary_group_zero_def)
  ultimately show ?thesis by blast
qed

text \<open>
  Staged rollout is monotone: the bucket of a device is below 100 and depends only on its UUID and
  the group's domain and variant, so that a device which is in the canary wave stays in it when the
  percentage is raised, and 100 percent includes every device.
\<close>

theorem canary_wave_monotone:
  assumes "cg_active c" and "cg_canary_percentage c \<le> p"
  shows "(ota_canary_is_in_canary (Some uuid) (Some c) \<longrightarrow>
      ota_canary_is_in_canary (Some uuid) (Some (c\<lparr>cg_canary_percentage := p\<rparr>)))
    \<and> unat (ota_canary_hash_bucket (Some (take 16 uuid @ [ucast (cg_domain_profile_id c), cg_hw_variant_id c]))) < 100
    \<and> ota_canary_is_in_canary (Some uuid) (Some (c\<lparr>cg_canary_percentage := 100\<rparr>))"
proof -
  have "unat (h mod 100 :: u32) < 100" for h by (simp add: unat_mod)
  then have b: "unat (ucast (h mod 100 :: u32) :: u8) < 100" for h
    by (metis (no_types, lifting) le_less_trans take_bit_nat_less_eq_self unsigned_ucast_eq)
  have "p \<noteq> 0" if "cg_canary_percentage c \<noteq> 0" using assms(2) that by (auto simp: word_le_nat_alt word_unat_eq_iff)
  then have m: "ota_canary_is_in_canary (Some uuid) (Some (c\<lparr>cg_canary_percentage := p\<rparr>))"
    if "ota_canary_is_in_canary (Some uuid) (Some c)"
    using that assms by (auto simp: ota_canary_is_in_canary_def Let_def split: if_splits)
  have "ota_canary_is_in_canary (Some uuid) (Some (c\<lparr>cg_canary_percentage := 100\<rparr>))"
    using assms(1) by (simp add: ota_canary_is_in_canary_def)
  moreover have "unat (ota_canary_hash_bucket (Some (take 16 uuid @ [ucast (cg_domain_profile_id c), cg_hw_variant_id c]))) < 100"
    using b by (simp add: ota_canary_hash_bucket_def)
  ultimately show ?thesis using m by blast
qed

theorem canary_wave_monotone_witness:
  "ota_canary_is_in_canary (Some (replicate 16 1)) (Some (demo_group\<lparr>cg_canary_percentage := 100\<rparr>))"
  using canary_wave_monotone[of demo_group 100 "replicate 16 1"] by (simp add: demo_group_def canary_group_zero_def)

text \<open>
  Rollout groups are isolated: recording an attempt through one group leaves every other group as
  it is, rollback flags included.
\<close>

theorem canary_groups_isolated:
  assumes "j \<noteq> i" and "record_attempt_at g i success = (ok, g')"
  shows "cn_groups g' ! j = cn_groups g ! j \<and> length (cn_groups g') = length (cn_groups g)"
  using assms by (auto simp: record_attempt_at_def split: prod.splits)

theorem canary_groups_isolated_witness:
  "cn_groups (snd (record_attempt_at \<lparr>cn_groups = [demo_group, demo_group\<lparr>cg_hw_variant_id := 9\<rparr>], cn_initialised = True\<rparr> 0 False)) ! 1
   = demo_group\<lparr>cg_hw_variant_id := 9\<rparr>"
  using canary_groups_isolated[of 1 0 "\<lparr>cn_groups = [demo_group, demo_group\<lparr>cg_hw_variant_id := 9\<rparr>], cn_initialised = True\<rparr>" False]
  by (auto simp: prod_eq_iff)

end
