(* ===== verification/Fault_Tree.thy ===== *)
theory Fault_Tree
  imports Iot_Prelude
begin

text \<open>
  The fault tree (\<open>firmware/shared/fault_tree.{h,c}\<close>): active faults, the degradation matrix and the
  system level.  Fault identifiers and levels are the numbers of the C enums, since the code compares
  them and uses them as array indices; the fault array is the list of its used slots.
\<close>

section \<open>Data\<close>

definition FAULT_TREE_MAX_FAULTS :: nat where "FAULT_TREE_MAX_FAULTS = 16"

type_synonym FaultId_t = nat
type_synonym DegradationLevel_t = nat

definition FAULT_NONE :: FaultId_t where "FAULT_NONE = 0"
definition FAULT_RADIO_LOST :: FaultId_t where "FAULT_RADIO_LOST = 1"
definition FAULT_CLOUD_UNREACHABLE :: FaultId_t where "FAULT_CLOUD_UNREACHABLE = 2"
definition FAULT_SENSOR_INVALID :: FaultId_t where "FAULT_SENSOR_INVALID = 3"
definition FAULT_ATTESTATION_FAILED :: FaultId_t where "FAULT_ATTESTATION_FAILED = 4"
definition FAULT_FLASH_WRITE_ERROR :: FaultId_t where "FAULT_FLASH_WRITE_ERROR = 5"
definition FAULT_CLOCK_DRIFT :: FaultId_t where "FAULT_CLOCK_DRIFT = 6"
definition FAULT_MEMORY_LOW :: FaultId_t where "FAULT_MEMORY_LOW = 7"
definition FAULT_RULE_ENGINE_STALL :: FaultId_t where "FAULT_RULE_ENGINE_STALL = 8"
definition FAULT_COUNT :: nat where "FAULT_COUNT = 9"

definition DEGRADE_LEVEL_NORMAL :: DegradationLevel_t where "DEGRADE_LEVEL_NORMAL = 0"
definition DEGRADE_LEVEL_REDUCED :: DegradationLevel_t where "DEGRADE_LEVEL_REDUCED = 1"
definition DEGRADE_LEVEL_LOCAL_ONLY :: DegradationLevel_t where "DEGRADE_LEVEL_LOCAL_ONLY = 2"
definition DEGRADE_LEVEL_SAFE_MODE :: DegradationLevel_t where "DEGRADE_LEVEL_SAFE_MODE = 3"
definition DEGRADE_LEVEL_EMERGENCY :: DegradationLevel_t where "DEGRADE_LEVEL_EMERGENCY = 4"

record FaultState_t =
  ft_fault_id :: FaultId_t
  ft_current_level :: DegradationLevel_t
  ft_since_ms :: u32
  ft_count :: u32
  ft_active :: bool

record FaultTreeContext_t =
  fx_faults :: "FaultState_t list"
  fx_system_level :: DegradationLevel_t
  fx_initialized :: bool

definition degradation_matrix :: "DegradationLevel_t list list" where
  "degradation_matrix =
    [[0, 0, 0, 0, 0],
     [1, 2, 2, 3, 4],
     [1, 2, 2, 3, 4],
     [1, 2, 3, 3, 4],
     [2, 3, 3, 3, 4],
     [1, 1, 2, 3, 4],
     [1, 2, 2, 3, 4],
     [1, 2, 3, 4, 4],
     [3, 4, 4, 4, 4]]"

section \<open>Operations\<close>

fun max_active :: "FaultState_t list \<Rightarrow> DegradationLevel_t \<Rightarrow> DegradationLevel_t" where
  "max_active [] max_level = max_level"
| "max_active (f # fs) max_level =
    max_active fs (if ft_active f then (if ft_current_level f > max_level then ft_current_level f else max_level) else max_level)"

definition evaluate_system_level :: "FaultTreeContext_t \<Rightarrow> DegradationLevel_t" where
  "evaluate_system_level ctx = max_active (fx_faults ctx) DEGRADE_LEVEL_NORMAL"

definition fault_tree_init :: "FaultTreeContext_t option \<Rightarrow> FaultTreeContext_t option" where
  "fault_tree_init ctx =
    (case ctx of None \<Rightarrow> None
     | Some _ \<Rightarrow> Some \<lparr>fx_faults = [], fx_system_level = DEGRADE_LEVEL_NORMAL, fx_initialized = True\<rparr>)"

text \<open>A slot that is used for the first time holds zeros.\<close>

definition fault_state_zero :: FaultState_t where
  "fault_state_zero = \<lparr>ft_fault_id = 0, ft_current_level = DEGRADE_LEVEL_NORMAL, ft_since_ms = 0, ft_count = 0, ft_active = False\<rparr>"

definition note_fault :: "FaultId_t \<Rightarrow> DegradationLevel_t \<Rightarrow> u32 \<Rightarrow> FaultState_t \<Rightarrow> FaultState_t" where
  "note_fault fault_id system_level timestamp f =
    (let f = f\<lparr>ft_fault_id := fault_id, ft_active := True, ft_count := ft_count f + 1\<rparr>;
         new_level = degradation_matrix ! fault_id ! system_level;
         f = (if new_level > ft_current_level f then f\<lparr>ft_current_level := new_level\<rparr> else f)
     in f\<lparr>ft_since_ms := timestamp\<rparr>)"

definition fault_tree_report_fault ::
  "FaultTreeContext_t \<Rightarrow> FaultId_t \<Rightarrow> u32 \<Rightarrow> DegradationLevel_t \<times> FaultTreeContext_t"
where
  "fault_tree_report_fault ctx fault_id timestamp =
    (if \<not> fx_initialized ctx \<or> fault_id \<ge> FAULT_COUNT then (DEGRADE_LEVEL_EMERGENCY, ctx)
     else
       let found = find_index (\<lambda>f. ft_fault_id f = fault_id) (fx_faults ctx);
           slots = (case found of
               Some i \<Rightarrow> Some (i, fx_faults ctx)
             | None \<Rightarrow> if length (fx_faults ctx) < FAULT_TREE_MAX_FAULTS
                       then Some (length (fx_faults ctx), fx_faults ctx @ [fault_state_zero]) else None)
       in (case slots of
            None \<Rightarrow> (fx_system_level ctx, ctx)
          | Some (i, fs) \<Rightarrow>
              let ctx = ctx\<lparr>fx_faults := fs[i := note_fault fault_id (fx_system_level ctx) timestamp (fs ! i)]\<rparr>;
                  ctx = ctx\<lparr>fx_system_level := evaluate_system_level ctx\<rparr>
              in (fx_system_level ctx, ctx)))"

definition fault_tree_clear_fault :: "FaultTreeContext_t \<Rightarrow> FaultId_t \<Rightarrow> DegradationLevel_t \<times> FaultTreeContext_t" where
  "fault_tree_clear_fault ctx fault_id =
    (if \<not> fx_initialized ctx \<or> fault_id \<ge> FAULT_COUNT then (DEGRADE_LEVEL_EMERGENCY, ctx)
     else
       let fs = (case find_index (\<lambda>f. ft_fault_id f = fault_id) (fx_faults ctx) of
               None \<Rightarrow> fx_faults ctx
             | Some i \<Rightarrow> (fx_faults ctx)[i := (fx_faults ctx ! i)\<lparr>ft_active := False, ft_current_level := DEGRADE_LEVEL_NORMAL\<rparr>]);
           ctx = ctx\<lparr>fx_faults := fs\<rparr>;
           ctx = ctx\<lparr>fx_system_level := evaluate_system_level ctx\<rparr>
       in (fx_system_level ctx, ctx))"

definition fault_tree_get_level :: "FaultTreeContext_t option \<Rightarrow> DegradationLevel_t" where
  "fault_tree_get_level ctx =
    (case ctx of None \<Rightarrow> DEGRADE_LEVEL_EMERGENCY
     | Some c \<Rightarrow> if fx_initialized c then fx_system_level c else DEGRADE_LEVEL_EMERGENCY)"

definition fault_tree_is_fault_active :: "FaultTreeContext_t option \<Rightarrow> FaultId_t \<Rightarrow> bool" where
  "fault_tree_is_fault_active ctx fault_id =
    (case ctx of None \<Rightarrow> False
     | Some c \<Rightarrow> fx_initialized c \<and> fault_id < FAULT_COUNT \<and> (\<exists>f \<in> set (fx_faults c). ft_fault_id f = fault_id \<and> ft_active f))"

definition fault_tree_get_active_count :: "FaultTreeContext_t option \<Rightarrow> u8" where
  "fault_tree_get_active_count ctx =
    (case ctx of None \<Rightarrow> 0
     | Some c \<Rightarrow> if fx_initialized c then word_of_nat (length (filter ft_active (fx_faults c))) else 0)"

section \<open>Invariant\<close>

definition fault_ok :: "FaultTreeContext_t \<Rightarrow> bool" where
  "fault_ok ctx \<longleftrightarrow> fx_initialized ctx \<and> distinct (map ft_fault_id (fx_faults ctx))
     \<and> (\<forall>f \<in> set (fx_faults ctx). ft_fault_id f < 9 \<and> ft_current_level f \<le> 4 \<and> (\<not> ft_active f \<longrightarrow> ft_current_level f = 0))
     \<and> fx_system_level ctx = evaluate_system_level ctx"

lemma max_active_le_iff:
  "max_active fs m \<le> b \<longleftrightarrow> m \<le> b \<and> (\<forall>f \<in> set fs. ft_active f \<longrightarrow> ft_current_level f \<le> b)"
  by (induction fs arbitrary: m) auto

lemma max_active_member: "f \<in> set fs \<Longrightarrow> ft_active f \<Longrightarrow> ft_current_level f \<le> max_active fs m"
  using max_active_le_iff[of fs m "max_active fs m"] by auto

text \<open>The loop computes a maximum: an upper bound that is attained.\<close>

lemma max_active_Max: "max_active fs m = Max (insert m (ft_current_level ` {f \<in> set fs. ft_active f}))"
proof (rule order_antisym)
  show "max_active fs m \<le> Max (insert m (ft_current_level ` {f \<in> set fs. ft_active f}))"
    unfolding max_active_le_iff by (auto intro!: Max_ge)
  have "m \<le> max_active fs m" using max_active_le_iff[of fs m "max_active fs m"] by simp
  then show "Max (insert m (ft_current_level ` {f \<in> set fs. ft_active f})) \<le> max_active fs m"
    by (auto intro: max_active_member)
qed

lemma system_level_le: "fault_ok ctx \<Longrightarrow> fx_system_level ctx \<le> 4"
  unfolding fault_ok_def evaluate_system_level_def DEGRADE_LEVEL_NORMAL_def by (auto simp: max_active_le_iff)

lemma matrix_range:
  assumes "i < 9" "l \<le> 4"
  shows "degradation_matrix ! i ! l \<le> 4" and "i \<noteq> 0 \<Longrightarrow> l \<le> degradation_matrix ! i ! l" and "i \<noteq> 0 \<Longrightarrow> 1 \<le> degradation_matrix ! i ! l"
proof -
  have "i \<in> {0, 1, 2, 3, 4, 5, 6, 7, 8}" "l \<in> {0, 1, 2, 3, 4}" using assms by auto
  then show "degradation_matrix ! i ! l \<le> 4" and "i \<noteq> 0 \<Longrightarrow> l \<le> degradation_matrix ! i ! l" and "i \<noteq> 0 \<Longrightarrow> 1 \<le> degradation_matrix ! i ! l"
    by (auto simp: degradation_matrix_def)
qed

lemma report_room: "fault_ok ctx \<Longrightarrow> length (fx_faults ctx) \<le> 9"
proof -
  assume ok: "fault_ok ctx"
  then have "card (set (map ft_fault_id (fx_faults ctx))) = length (fx_faults ctx)"
    using distinct_card[of "map ft_fault_id (fx_faults ctx)"] by (simp add: fault_ok_def)
  moreover have "set (map ft_fault_id (fx_faults ctx)) \<subseteq> {..<9}" using ok by (auto simp: fault_ok_def)
  then have "card (set (map ft_fault_id (fx_faults ctx))) \<le> card {..<9 :: nat}" by (intro card_mono) auto
  ultimately show ?thesis by simp
qed

text \<open>What a report does: the slot of the fault is updated, or a new one appended.\<close>

lemma report_cases:
  assumes ok: "fault_ok ctx" and i: "i < 9"
  obtains c fs k f where "fault_tree_report_fault ctx i t = (fx_system_level c, c)"
    and "c = ctx\<lparr>fx_faults := fs[k := note_fault i (fx_system_level ctx) t f], fx_system_level := max_active (fs[k := note_fault i (fx_system_level ctx) t f]) 0\<rparr>"
    and "k < length fs" and "f = fs ! k"
    and "(fs = fx_faults ctx \<and> ft_fault_id f = i) \<or>
         (fs = fx_faults ctx @ [f] \<and> f = fault_state_zero \<and> k = length (fx_faults ctx) \<and> (\<forall>g \<in> set (fx_faults ctx). ft_fault_id g \<noteq> i))"
proof (cases "find_index (\<lambda>f. ft_fault_id f = i) (fx_faults ctx)")
  case (Some k)
  from find_index_SomeD[OF this] Some ok i show ?thesis
    by (intro that[of _ "fx_faults ctx" k "fx_faults ctx ! k"])
      (auto simp: fault_tree_report_fault_def fault_ok_def FAULT_COUNT_def Let_def evaluate_system_level_def DEGRADE_LEVEL_NORMAL_def)
next
  case None
  then have "\<forall>g \<in> set (fx_faults ctx). ft_fault_id g \<noteq> i" by (simp add: find_index_None_iff)
  with None ok i report_room[OF ok] show ?thesis
    by (intro that[of _ "fx_faults ctx @ [fault_state_zero]" "length (fx_faults ctx)" fault_state_zero])
      (auto simp: fault_tree_report_fault_def fault_ok_def FAULT_COUNT_def FAULT_TREE_MAX_FAULTS_def Let_def evaluate_system_level_def DEGRADE_LEVEL_NORMAL_def)
qed


lemma note_fault_fields:
  "ft_fault_id (note_fault i l t f) = i" "ft_active (note_fault i l t f)"
  "ft_current_level (note_fault i l t f) = max (ft_current_level f) (degradation_matrix ! i ! l)"
  by (auto simp: note_fault_def Let_def)

lemma report_ok:
  assumes ok: "fault_ok ctx" and i: "i < 9"
  shows "fault_ok (snd (fault_tree_report_fault ctx i t))
    \<and> fst (fault_tree_report_fault ctx i t) = fx_system_level (snd (fault_tree_report_fault ctx i t))
    \<and> fx_system_level ctx \<le> fx_system_level (snd (fault_tree_report_fault ctx i t))
    \<and> degradation_matrix ! i ! fx_system_level ctx \<le> fx_system_level (snd (fault_tree_report_fault ctx i t))
    \<and> fault_tree_is_fault_active (Some (snd (fault_tree_report_fault ctx i t))) i"
proof -
  from report_cases[OF ok i, of t] obtain c fs k f where r: "fault_tree_report_fault ctx i t = (fx_system_level c, c)"
    and c: "c = ctx\<lparr>fx_faults := fs[k := note_fault i (fx_system_level ctx) t f],
        fx_system_level := max_active (fs[k := note_fault i (fx_system_level ctx) t f]) 0\<rparr>"
    and k: "k < length fs" "f = fs ! k"
    and fs: "(fs = fx_faults ctx \<and> ft_fault_id f = i) \<or> (fs = fx_faults ctx @ [f] \<and> f = fault_state_zero \<and> k = length (fx_faults ctx)
        \<and> (\<forall>g \<in> set (fx_faults ctx). ft_fault_id g \<noteq> i))" .
  let ?n = "note_fault i (fx_system_level ctx) t f"
  have lv: "fx_system_level ctx \<le> 4" using system_level_le[OF ok] .
  have f: "ft_current_level f \<le> 4" using fs k ok by (auto simp: fault_ok_def fault_state_zero_def DEGRADE_LEVEL_NORMAL_def)
  have n: "?n \<in> set (fs[k := ?n])" using k by (simp add: set_update_memI)
  have sub: "set (fs[k := ?n]) \<subseteq> insert ?n (set (fx_faults ctx))"
    using fs set_update_subset_insert[of fs k ?n] by (auto simp: list_update_append)
  have ids: "distinct (map ft_fault_id (fs[k := ?n]))"
  proof -
    have "map ft_fault_id (fs[k := ?n]) = (map ft_fault_id fs)[k := i]" by (simp add: map_update note_fault_fields)
    also have "\<dots> = (if fs = fx_faults ctx then map ft_fault_id fs else map ft_fault_id (fx_faults ctx) @ [i])"
      using fs k by (auto simp: list_update_append list_update_same_conv)
    finally show ?thesis using fs ok by (auto simp: fault_ok_def)
  qed
  have "ft_current_level g \<le> max_active (fs[k := ?n]) 0" if gm: "g \<in> set (fx_faults ctx)" and ga: "ft_active g" for g
  proof (cases "g = f \<and> fs = fx_faults ctx")
    case True
    then show ?thesis using max_active_member[OF n, of 0] by (auto simp: note_fault_fields)
  next
    case False
    obtain j where j: "j < length (fx_faults ctx)" "fx_faults ctx ! j = g" using gm by (auto simp: in_set_conv_nth)
    from fs have "j < length fs \<and> j \<noteq> k \<and> fs ! j = g"
    proof
      assume "fs = fx_faults ctx \<and> ft_fault_id f = i"
      then show ?thesis using j False k(2) by auto
    qed (use j in \<open>auto simp: nth_append\<close>)
    then have "g \<in> set (fs[k := ?n])" by (metis length_list_update nth_list_update_neq nth_mem)
    then show ?thesis using max_active_member ga by blast
  qed
  then have mono: "fx_system_level ctx \<le> max_active (fs[k := ?n]) 0"
    using ok by (auto simp: fault_ok_def evaluate_system_level_def max_active_le_iff DEGRADE_LEVEL_NORMAL_def)
  have "fault_ok c"
    using ok ids sub i f matrix_range(1)[OF i lv] unfolding fault_ok_def c
    by (auto simp: note_fault_fields evaluate_system_level_def DEGRADE_LEVEL_NORMAL_def)
  moreover have "degradation_matrix ! i ! fx_system_level ctx \<le> max_active (fs[k := ?n]) 0"
    using max_active_member[OF n, of 0] by (simp add: note_fault_fields)
  moreover have "fault_tree_is_fault_active (Some c) i"
    using ok n i note_fault_fields[of i "fx_system_level ctx" t f]
    by (auto simp: fault_tree_is_fault_active_def fault_ok_def c FAULT_COUNT_def)
  ultimately show ?thesis using r mono c by simp
qed


lemma update_by_key:
  "distinct (map key xs) \<Longrightarrow> k < length xs \<Longrightarrow> key (xs ! k) = i \<Longrightarrow>
   xs[k := h (xs ! k)] = map (\<lambda>x. if key x = i then h x else x) xs"
  by (rule nth_equalityI) (auto simp: nth_list_update distinct_conv_nth)

lemma clear_ok:
  assumes ok: "fault_ok ctx" and i: "i < 9"
  shows "fault_ok (snd (fault_tree_clear_fault ctx i))
    \<and> (\<forall>j. fault_tree_is_fault_active (Some (snd (fault_tree_clear_fault ctx i))) j \<longleftrightarrow>
          j \<noteq> i \<and> fault_tree_is_fault_active (Some ctx) j)
    \<and> fx_system_level (snd (fault_tree_clear_fault ctx i)) \<le> fx_system_level ctx"
proof (cases "find_index (\<lambda>f. ft_fault_id f = i) (fx_faults ctx)")
  case None
  then have none: "\<forall>f \<in> set (fx_faults ctx). ft_fault_id f \<noteq> i" by (simp add: find_index_None_iff)
  have "snd (fault_tree_clear_fault ctx i) = ctx"
    using None ok i by (simp add: fault_tree_clear_fault_def fault_ok_def FAULT_COUNT_def Let_def)
  then show ?thesis using ok none by (auto simp: fault_tree_is_fault_active_def)
next
  case (Some k)
  let ?f = "(fx_faults ctx ! k)\<lparr>ft_active := False, ft_current_level := DEGRADE_LEVEL_NORMAL\<rparr>"
  let ?fs = "(fx_faults ctx)[k := ?f]"
  have k: "k < length (fx_faults ctx)" "ft_fault_id (fx_faults ctx ! k) = i" using find_index_SomeD[OF Some] by auto
  have c: "snd (fault_tree_clear_fault ctx i) = ctx\<lparr>fx_faults := ?fs, fx_system_level := max_active ?fs 0\<rparr>"
    using Some ok i by (simp add: fault_tree_clear_fault_def fault_ok_def FAULT_COUNT_def Let_def evaluate_system_level_def DEGRADE_LEVEL_NORMAL_def)
  have ids: "map ft_fault_id ?fs = map ft_fault_id (fx_faults ctx)"
    using k by (simp add: map_update list_update_same_conv)
  have mem: "g \<in> set ?fs \<and> ft_active g \<longleftrightarrow> g \<in> set (fx_faults ctx) \<and> ft_active g \<and> ft_fault_id g \<noteq> i" for g
  proof -
    have d: "distinct (map ft_fault_id (fx_faults ctx))" using ok by (simp add: fault_ok_def)
    show ?thesis
      using update_by_key[OF d k, of "\<lambda>f. f\<lparr>ft_active := False, ft_current_level := DEGRADE_LEVEL_NORMAL\<rparr>"] by auto
  qed
  have "fault_ok (snd (fault_tree_clear_fault ctx i))"
    using ok ids set_update_subset_insert[of "fx_faults ctx" k ?f] k unfolding c fault_ok_def
    by (auto simp: evaluate_system_level_def DEGRADE_LEVEL_NORMAL_def dest!: subsetD)
  moreover have "max_active ?fs 0 \<le> fx_system_level ctx"
    using ok mem max_active_member[of _ "fx_faults ctx" 0]
    by (auto simp: max_active_le_iff fault_ok_def evaluate_system_level_def DEGRADE_LEVEL_NORMAL_def)
  ultimately show ?thesis using mem unfolding c fault_tree_is_fault_active_def by (auto simp: FAULT_COUNT_def)
qed


inductive fault_step :: "FaultTreeContext_t \<Rightarrow> FaultTreeContext_t \<Rightarrow> bool" where
  report: "fault_step ctx (snd (fault_tree_report_fault ctx i t))"
| clear: "fault_step ctx (snd (fault_tree_clear_fault ctx i))"

lemma fault_step_ok: "fault_ok ctx \<Longrightarrow> fault_step ctx ctx' \<Longrightarrow> fault_ok ctx'"
proof (erule fault_step.cases)
  fix c i t
  assume a: "fault_ok ctx" "ctx = c" "ctx' = snd (fault_tree_report_fault c i t)"
  show "fault_ok ctx'"
  proof (cases "i < 9")
    case False then show ?thesis using a by (simp add: fault_tree_report_fault_def FAULT_COUNT_def)
  qed (use a report_ok in simp)
next
  fix c i
  assume a: "fault_ok ctx" "ctx = c" "ctx' = snd (fault_tree_clear_fault c i)"
  show "fault_ok ctx'"
  proof (cases "i < 9")
    case False then show ?thesis using a by (simp add: fault_tree_clear_fault_def FAULT_COUNT_def)
  qed (use a clear_ok in simp)
qed

interpretation fault_sys: invariant_system "\<lambda>c. fault_tree_init (Some c0) = Some c" fault_step fault_ok
proof unfold_locales
  show "fault_ok c" if "fault_tree_init (Some c0) = Some c" for c
    using that by (auto simp: fault_tree_init_def fault_ok_def evaluate_system_level_def DEGRADE_LEVEL_NORMAL_def)
qed (rule fault_step_ok)

section \<open>Properties\<close>

text \<open>
  C31.  The system level in every reachable state: after any sequence of reports and clearings it is the largest level of
  an active fault, which some active fault has, and NORMAL when no fault is active; it is at most EMERGENCY, and the table
  never overflows, since there is at most one slot per kind of fault.
\<close>

theorem fault_level_invariant:
  assumes "fault_tree_init (Some c0) = Some c" and "fault_step\<^sup>*\<^sup>* c ctx"
  shows "fx_system_level ctx = Max (insert DEGRADE_LEVEL_NORMAL (ft_current_level ` {f \<in> set (fx_faults ctx). ft_active f}))
    \<and> fx_system_level ctx \<le> DEGRADE_LEVEL_EMERGENCY \<and> length (fx_faults ctx) \<le> 9
    \<and> (\<forall>f \<in> set (fx_faults ctx). ft_active f \<longrightarrow> ft_current_level f \<le> fx_system_level ctx)
    \<and> ((\<exists>i. fault_tree_is_fault_active (Some ctx) i) \<longrightarrow>
        (\<exists>f \<in> set (fx_faults ctx). ft_active f \<and> ft_current_level f = fx_system_level ctx))
    \<and> ((\<forall>i. \<not> fault_tree_is_fault_active (Some ctx) i) \<longrightarrow> fx_system_level ctx = DEGRADE_LEVEL_NORMAL)"
proof -
  let ?L = "ft_current_level ` {f \<in> set (fx_faults ctx). ft_active f}"
  have ok: "fault_ok ctx" using fault_sys.reachable_inv[OF assms] .
  then have m: "fx_system_level ctx = Max (insert DEGRADE_LEVEL_NORMAL ?L)"
    by (simp add: fault_ok_def evaluate_system_level_def max_active_Max)
  have none: "?L = {}" if "\<forall>i. \<not> fault_tree_is_fault_active (Some ctx) i"
    using that ok by (auto simp: fault_tree_is_fault_active_def fault_ok_def FAULT_COUNT_def)
  have some: "\<exists>f \<in> set (fx_faults ctx). ft_active f \<and> ft_current_level f = fx_system_level ctx"
    if act: "\<exists>i. fault_tree_is_fault_active (Some ctx) i"
  proof -
    have "?L \<noteq> {}" using act by (auto simp: fault_tree_is_fault_active_def)
    then have "fx_system_level ctx = Max ?L" unfolding m by (simp add: DEGRADE_LEVEL_NORMAL_def)
    then have "fx_system_level ctx \<in> ?L" using \<open>?L \<noteq> {}\<close> Max_in[of ?L] by simp
    then show ?thesis by auto
  qed
  have "\<forall>f \<in> set (fx_faults ctx). ft_active f \<longrightarrow> ft_current_level f \<le> fx_system_level ctx" unfolding m by simp
  moreover have "(\<forall>i. \<not> fault_tree_is_fault_active (Some ctx) i) \<longrightarrow> fx_system_level ctx = DEGRADE_LEVEL_NORMAL"
  proof
    assume "\<forall>i. \<not> fault_tree_is_fault_active (Some ctx) i"
    from none[OF this] show "fx_system_level ctx = DEGRADE_LEVEL_NORMAL" unfolding m by (simp only: Max_singleton)
  qed
  ultimately show ?thesis using m some report_room[OF ok] system_level_le[OF ok] by (simp add: DEGRADE_LEVEL_EMERGENCY_def)
qed

definition demo_faults :: FaultTreeContext_t where
  "demo_faults = \<lparr>fx_faults = [], fx_system_level = DEGRADE_LEVEL_NORMAL, fx_initialized = True\<rparr>"

lemma demo_faults_ok: "fault_ok demo_faults"
  by (simp add: demo_faults_def fault_ok_def evaluate_system_level_def DEGRADE_LEVEL_NORMAL_def)

theorem fault_level_invariant_witness:
  "fx_system_level (snd (fault_tree_report_fault (snd (fault_tree_report_fault demo_faults FAULT_RADIO_LOST 10)) FAULT_ATTESTATION_FAILED 20)) = 3"
proof -
  let ?c = "snd (fault_tree_report_fault (snd (fault_tree_report_fault demo_faults FAULT_RADIO_LOST 10)) FAULT_ATTESTATION_FAILED 20)"
  have "fault_tree_init (Some demo_faults) = Some demo_faults" by (simp add: fault_tree_init_def demo_faults_def)
  moreover have "fault_step\<^sup>*\<^sup>* demo_faults ?c"
    by (rule rtranclp.rtrancl_into_rtrancl[OF r_into_rtranclp]) (rule report)+
  ultimately have "fx_system_level ?c = Max (insert DEGRADE_LEVEL_NORMAL (ft_current_level ` {f \<in> set (fx_faults ?c). ft_active f}))"
    using fault_level_invariant by blast
  moreover have "{f \<in> set (fx_faults ?c). ft_active f} = set (fx_faults ?c)" and "ft_current_level ` set (fx_faults ?c) = {1, 3}"
    by (auto simp: demo_faults_def fault_tree_report_fault_def fault_state_zero_def note_fault_def degradation_matrix_def
        evaluate_system_level_def FAULT_RADIO_LOST_def FAULT_ATTESTATION_FAILED_def FAULT_COUNT_def FAULT_TREE_MAX_FAULTS_def
        DEGRADE_LEVEL_NORMAL_def Let_def)
  ultimately show ?thesis by (simp add: DEGRADE_LEVEL_NORMAL_def)
qed

text \<open>
  A report never improves the level: a reported fault is active afterwards, the system level does
  not go down and is at least the entry of the degradation matrix; a stalled rule engine leads to
  SAFE MODE or worse, and reported again to EMERGENCY.
\<close>

theorem fault_report_degrades:
  assumes "fault_ok ctx" and "i < FAULT_COUNT"
  shows "\<exists>l c. fault_tree_report_fault ctx i t = (l, c) \<and> fault_tree_is_fault_active (Some c) i
    \<and> fx_system_level ctx \<le> l \<and> degradation_matrix ! i ! fx_system_level ctx \<le> l
    \<and> (i = FAULT_RULE_ENGINE_STALL \<longrightarrow> DEGRADE_LEVEL_SAFE_MODE \<le> l
         \<and> fst (fault_tree_report_fault c i t') = DEGRADE_LEVEL_EMERGENCY)"
proof -
  have i: "i < 9" using assms(2) by (simp add: FAULT_COUNT_def)
  obtain l c where r: "fault_tree_report_fault ctx i t = (l, c)" by force
  have c: "fault_ok c" "l = fx_system_level c" "fx_system_level ctx \<le> l" "degradation_matrix ! i ! fx_system_level ctx \<le> l"
    "fault_tree_is_fault_active (Some c) i" using report_ok[OF assms(1) i, of t] r by auto
  have stall: "n \<le> 4 \<Longrightarrow> 3 \<le> degradation_matrix ! 8 ! n \<and> (1 \<le> n \<longrightarrow> degradation_matrix ! 8 ! n = 4)" for n
    by (cases "n \<in> {0, 1, 2, 3, 4}") (auto simp: degradation_matrix_def)
  have s: "DEGRADE_LEVEL_SAFE_MODE \<le> l \<and> fst (fault_tree_report_fault c i t') = DEGRADE_LEVEL_EMERGENCY" if "i = FAULT_RULE_ENGINE_STALL"
  proof -
    have "i = 8" using that by (simp add: FAULT_RULE_ENGINE_STALL_def)
    then have l: "3 \<le> l" using c(4) stall[of "fx_system_level ctx"] system_level_le[OF assms(1)] by simp
    then have "degradation_matrix ! i ! fx_system_level c = 4"
      using stall[of "fx_system_level c"] system_level_le[OF c(1)] c(2) \<open>i = 8\<close> by simp
    then show ?thesis using l report_ok[OF c(1) i, of t'] system_level_le[of "snd (fault_tree_report_fault c i t')"]
      by (simp add: DEGRADE_LEVEL_SAFE_MODE_def DEGRADE_LEVEL_EMERGENCY_def)
  qed
  show ?thesis using r c s by blast
qed

theorem fault_report_degrades_witness:
  "\<exists>l c. fault_tree_report_fault demo_faults FAULT_RULE_ENGINE_STALL 10 = (l, c) \<and> DEGRADE_LEVEL_SAFE_MODE \<le> l"
  using fault_report_degrades[OF demo_faults_ok, of FAULT_RULE_ENGINE_STALL 10 20]
  by (auto simp: FAULT_RULE_ENGINE_STALL_def FAULT_COUNT_def)

text \<open>
  Clearing one fault recovers at once: exactly that fault becomes inactive and the level is
  recomputed from the others, so it can improve while other faults are still active.
\<close>

theorem fault_clear_recovers:
  assumes "fault_ok ctx" and "i < FAULT_COUNT"
  shows "\<exists>l c. fault_tree_clear_fault ctx i = (l, c) \<and> l = fx_system_level c \<and> l \<le> fx_system_level ctx \<and> fault_ok c
    \<and> (\<forall>j. fault_tree_is_fault_active (Some c) j \<longleftrightarrow> j \<noteq> i \<and> fault_tree_is_fault_active (Some ctx) j)"
proof -
  have i: "i < 9" using assms(2) by (simp add: FAULT_COUNT_def)
  obtain l c where r: "fault_tree_clear_fault ctx i = (l, c)" by force
  then have "l = fx_system_level c"
    using assms by (auto simp: fault_tree_clear_fault_def fault_ok_def Let_def)
  then show ?thesis using clear_ok[OF assms(1) i] r by auto
qed

theorem fault_clear_recovers_witness:
  "\<exists>l c. fault_tree_clear_fault (snd (fault_tree_report_fault demo_faults FAULT_RADIO_LOST 10)) FAULT_RADIO_LOST = (l, c)
    \<and> \<not> fault_tree_is_fault_active (Some c) FAULT_RADIO_LOST"
  using fault_clear_recovers[OF fault_step_ok[OF demo_faults_ok report], of FAULT_RADIO_LOST FAULT_RADIO_LOST 10]
  by (auto simp: FAULT_RADIO_LOST_def FAULT_COUNT_def)

end
