(* ===== verification/Safety_Monitor.thy ===== *)
theory Safety_Monitor
  imports Time_Source
begin

text \<open>
  The safety monitor (\<open>firmware/shared/safety_monitor.{h,c}\<close>): heartbeat supervision, tracking of
  safety rules and the fail-safe trigger.  The fail-safe callback is a function on the state \<open>'a\<close> of the
  actuators, which the operations carry along; the rule array is the list of its used slots, and the
  clock is the one of \<open>Time_Source\<close>.
\<close>

section \<open>Data\<close>

definition SAFETY_MONITOR_DEADLINE_MS :: u64 where "SAFETY_MONITOR_DEADLINE_MS = 500"
definition SAFETY_MONITOR_RULE_DEADLINE_MS :: u64 where "SAFETY_MONITOR_RULE_DEADLINE_MS = 1000"
definition SAFETY_MONITOR_MAX_RULES :: nat where "SAFETY_MONITOR_MAX_RULES = 32"
definition SAFETY_MONITOR_MISSED_THRESHOLD :: u64 where "SAFETY_MONITOR_MISSED_THRESHOLD = 3"

datatype SafetyMonitorState_t = SAFETY_STATE_IDLE | SAFETY_STATE_ACTIVE | SAFETY_STATE_DEGRADED | SAFETY_STATE_EMERGENCY
datatype SafetyMonitorResult_t = SAFETY_MON_OK | SAFETY_MON_ERR_NOT_INIT | SAFETY_MON_ERR_PARAM_NULL

record SafetyRuleTracker_t =
  st_rule_id :: u16
  st_last_evaluated_ms :: u64
  st_active :: bool

record 'a SafetyMonitorContext_t =
  sm_state :: SafetyMonitorState_t
  sm_last_heartbeat_ms :: u64
  sm_missed_count :: u32
  sm_failsafe_cb :: "('a \<Rightarrow> 'a) option"
  sm_rules :: "SafetyRuleTracker_t list"
  sm_initialized :: bool

section \<open>Operations\<close>

definition safety_monitor_init ::
  "'a SafetyMonitorContext_t option \<Rightarrow> ('a \<Rightarrow> 'a) option \<Rightarrow> SafetyMonitorResult_t \<times> 'a SafetyMonitorContext_t option"
where
  "safety_monitor_init ctx failsafe =
    (case (ctx, failsafe) of
       (Some _, Some cb) \<Rightarrow>
         (SAFETY_MON_OK, Some \<lparr>sm_state = SAFETY_STATE_IDLE, sm_last_heartbeat_ms = 0, sm_missed_count = 0,
            sm_failsafe_cb = Some cb, sm_rules = [], sm_initialized = True\<rparr>)
     | _ \<Rightarrow> (SAFETY_MON_ERR_PARAM_NULL, ctx))"

definition safety_monitor_heartbeat ::
  "'a SafetyMonitorContext_t \<Rightarrow> time_source \<Rightarrow> SafetyMonitorResult_t \<times> 'a SafetyMonitorContext_t \<times> time_source"
where
  "safety_monitor_heartbeat ctx ts =
    (if \<not> sm_initialized ctx then (SAFETY_MON_ERR_PARAM_NULL, ctx, ts)
     else (case time_source_get_ms ts of
        (now, ts) \<Rightarrow>
          let ctx = ctx\<lparr>sm_last_heartbeat_ms := now, sm_missed_count := 0\<rparr>;
              ctx = (if sm_state ctx = SAFETY_STATE_DEGRADED \<or> sm_state ctx = SAFETY_STATE_IDLE
                     then ctx\<lparr>sm_state := SAFETY_STATE_ACTIVE\<rparr> else ctx)
          in (SAFETY_MON_OK, ctx, ts)))"

definition safety_monitor_rule_evaluated ::
  "'a SafetyMonitorContext_t \<Rightarrow> u16 \<Rightarrow> u64 \<Rightarrow> SafetyMonitorResult_t \<times> 'a SafetyMonitorContext_t"
where
  "safety_monitor_rule_evaluated ctx rule_id timestamp =
    (if \<not> sm_initialized ctx then (SAFETY_MON_ERR_PARAM_NULL, ctx)
     else (case upd_first (\<lambda>r. st_active r \<and> st_rule_id r = rule_id) (\<lambda>r. r\<lparr>st_last_evaluated_ms := timestamp\<rparr>) (sm_rules ctx) of
         Some rules \<Rightarrow> (SAFETY_MON_OK, ctx\<lparr>sm_rules := rules\<rparr>)
       | None \<Rightarrow>
           if length (sm_rules ctx) < SAFETY_MONITOR_MAX_RULES
           then (SAFETY_MON_OK, ctx\<lparr>sm_rules := sm_rules ctx @
                  [\<lparr>st_rule_id = rule_id, st_last_evaluated_ms = timestamp, st_active = True\<rparr>]\<rparr>)
           else (SAFETY_MON_OK, ctx)))"

definition safety_monitor_check ::
  "'a SafetyMonitorContext_t option \<Rightarrow> time_source \<Rightarrow> SafetyMonitorState_t \<times> time_source"
where
  "safety_monitor_check ctx ts =
    (case ctx of
       None \<Rightarrow> (SAFETY_STATE_EMERGENCY, ts)
     | Some c \<Rightarrow>
         if \<not> sm_initialized c then (SAFETY_STATE_EMERGENCY, ts)
         else if sm_state c = SAFETY_STATE_EMERGENCY then (SAFETY_STATE_EMERGENCY, ts)
         else (case time_source_get_ms ts of
            (now, ts) \<Rightarrow>
              if sm_state c = SAFETY_STATE_IDLE
              then (if now > 2 * SAFETY_MONITOR_DEADLINE_MS then (SAFETY_STATE_EMERGENCY, ts) else (SAFETY_STATE_IDLE, ts))
              else
                let elapsed = now - sm_last_heartbeat_ms c
                in if elapsed > SAFETY_MONITOR_DEADLINE_MS * SAFETY_MONITOR_MISSED_THRESHOLD then (SAFETY_STATE_EMERGENCY, ts)
                   else if elapsed > SAFETY_MONITOR_DEADLINE_MS then (SAFETY_STATE_DEGRADED, ts)
                   else (SAFETY_STATE_ACTIVE, ts)))"

definition safety_monitor_get_missed_count :: "'a SafetyMonitorContext_t option \<Rightarrow> u32" where
  "safety_monitor_get_missed_count ctx =
    (case ctx of None \<Rightarrow> 0 | Some c \<Rightarrow> if sm_initialized c then sm_missed_count c else 0)"

definition safety_monitor_trigger_failsafe ::
  "'a SafetyMonitorContext_t \<Rightarrow> 'a \<Rightarrow> SafetyMonitorResult_t \<times> 'a SafetyMonitorContext_t \<times> 'a"
where
  "safety_monitor_trigger_failsafe ctx act =
    (if \<not> sm_initialized ctx then (SAFETY_MON_ERR_PARAM_NULL, ctx, act)
     else
       let ctx = ctx\<lparr>sm_state := SAFETY_STATE_EMERGENCY\<rparr>
       in (SAFETY_MON_OK, ctx, case sm_failsafe_cb ctx of None \<Rightarrow> act | Some cb \<Rightarrow> cb act))"

section \<open>Runs\<close>

text \<open>The world a monitor lives in: its context, the actuators and the clock; every call of the interface is a step.\<close>

type_synonym 'a monitored = "'a SafetyMonitorContext_t \<times> 'a \<times> time_source"

inductive monitor_step :: "'a monitored \<Rightarrow> 'a monitored \<Rightarrow> bool" where
  heartbeat: "safety_monitor_heartbeat c ts = (r, c', ts') \<Longrightarrow> monitor_step (c, a, ts) (c', a, ts')"
| rule: "safety_monitor_rule_evaluated c i t = (r, c') \<Longrightarrow> monitor_step (c, a, ts) (c', a, ts)"
| check: "safety_monitor_check (Some c) ts = (s, ts') \<Longrightarrow> monitor_step (c, a, ts) (c, a, ts')"
| clock: "monitor_step (c, a, ts) (c, a, ts')"

definition no_trigger :: "'a \<Rightarrow> 'a monitored \<Rightarrow> bool" where
  "no_trigger a0 w = (case w of (c, a, _) \<Rightarrow> a = a0 \<and> sm_initialized c \<and> sm_missed_count c = 0 \<and> sm_state c \<noteq> SAFETY_STATE_EMERGENCY)"

lemma monitor_step_no_trigger: "no_trigger a0 w \<Longrightarrow> monitor_step w w' \<Longrightarrow> no_trigger a0 w'"
  by (erule monitor_step.cases)
    (auto simp: no_trigger_def safety_monitor_heartbeat_def safety_monitor_rule_evaluated_def Let_def
      split: if_splits prod.splits option.splits)

interpretation monitor_sys: invariant_system "no_trigger a0" monitor_step "no_trigger a0"
  by unfold_locales (auto intro: monitor_step_no_trigger)

definition latched :: "'a monitored \<Rightarrow> bool" where
  "latched w = (case w of (c, _, _) \<Rightarrow> sm_initialized c \<and> sm_state c = SAFETY_STATE_EMERGENCY)"

lemma monitor_step_latched: "latched w \<Longrightarrow> monitor_step w w' \<Longrightarrow> latched w'"
  by (erule monitor_step.cases)
    (auto simp: latched_def safety_monitor_heartbeat_def safety_monitor_rule_evaluated_def Let_def
      split: if_splits prod.splits option.splits)

interpretation latch_sys: invariant_system latched monitor_step latched
  by unfold_locales (auto intro: monitor_step_latched)

section \<open>Properties\<close>

text \<open>
  The check classifies the age of the last heartbeat: for an active monitor and a clock that has
  not run backwards, up to 500 ms is ACTIVE, up to 1500 ms DEGRADED and beyond that EMERGENCY; a clock
  that reads earlier than the last heartbeat gives EMERGENCY (up to a wrap of about 584 million years).
\<close>

theorem monitor_check_classifies:
  assumes "sm_initialized c" and "sm_state c \<in> {SAFETY_STATE_ACTIVE, SAFETY_STATE_DEGRADED}"
    and "time_source_get_ms ts = (now, ts')"
  shows "fst (safety_monitor_check (Some c) ts) =
     (if sm_last_heartbeat_ms c \<le> now then
        (if unat now \<le> unat (sm_last_heartbeat_ms c) + 500 then SAFETY_STATE_ACTIVE
         else if unat now \<le> unat (sm_last_heartbeat_ms c) + 1500 then SAFETY_STATE_DEGRADED else SAFETY_STATE_EMERGENCY)
      else if 2 ^ 64 - (unat (sm_last_heartbeat_ms c) - unat now) \<le> 500 then SAFETY_STATE_ACTIVE
      else if 2 ^ 64 - (unat (sm_last_heartbeat_ms c) - unat now) \<le> 1500 then SAFETY_STATE_DEGRADED else SAFETY_STATE_EMERGENCY)"
  using assms unat_u64_less[of "sm_last_heartbeat_ms c"]
  by (auto simp: safety_monitor_check_def Let_def SAFETY_MONITOR_DEADLINE_MS_def SAFETY_MONITOR_MISSED_THRESHOLD_def
      word_less_nat_alt word_le_nat_alt unat_sub_if')

definition demo_monitor :: "nat SafetyMonitorContext_t" where
  "demo_monitor = \<lparr>sm_state = SAFETY_STATE_ACTIVE, sm_last_heartbeat_ms = 1000, sm_missed_count = 0,
     sm_failsafe_cb = Some (\<lambda>_. 0), sm_rules = [], sm_initialized = True\<rparr>"

definition demo_clock :: "u64 \<Rightarrow> time_source" where
  "demo_clock t = \<lparr>ts_state = TIME_SRC_NTP_ACTIVE, ts_backend = None, ts_storage = None, ts_mock_time = t,
     ts_mock_reliable = True, ts_mock_active = True, ts_mock_rtc_persistent = 0, ts_mock_rtc_persistent_loaded = False, ts_saved = []\<rparr>"

lemma demo_clock_reads: "time_source_get_ms (demo_clock t) = (t, demo_clock t)"
  by (simp add: time_source_get_ms_def demo_clock_def)

theorem monitor_check_classifies_witness:
  "fst (safety_monitor_check (Some demo_monitor) (demo_clock 1600)) = SAFETY_STATE_DEGRADED
   \<and> fst (safety_monitor_check (Some demo_monitor) (demo_clock 999)) = SAFETY_STATE_EMERGENCY"
  using monitor_check_classifies[of demo_monitor "demo_clock 1600" 1600 "demo_clock 1600"]
    monitor_check_classifies[of demo_monitor "demo_clock 999" 999 "demo_clock 999"]
  by (simp add: demo_clock_reads) (simp add: demo_monitor_def)

text \<open>
  A manual fail-safe is latched: after \<open>safety_monitor_trigger_failsafe\<close> the callback has run once,
  and through any sequence of heartbeats, rule notes, checks and clock changes every check reports
  EMERGENCY.
\<close>

theorem monitor_failsafe_latched:
  assumes "sm_initialized c" and "sm_failsafe_cb c = Some cb"
    and "safety_monitor_trigger_failsafe c a = (r, c1, a1)" and "monitor_step\<^sup>*\<^sup>* (c1, a1, ts) (c2, a2, ts2)"
  shows "a1 = cb a \<and> fst (safety_monitor_check (Some c2) ts2) = SAFETY_STATE_EMERGENCY"
proof -
  have "latched (c1, a1, ts)" "a1 = cb a"
    using assms(1-3) by (auto simp: latched_def safety_monitor_trigger_failsafe_def Let_def)
  then show ?thesis using latch_sys.reachable_inv[OF _ assms(4)]
    by (simp add: latched_def safety_monitor_check_def)
qed

theorem monitor_failsafe_latched_witness:
  "\<exists>r c1 a1. safety_monitor_trigger_failsafe demo_monitor 7 = (r, c1, a1) \<and> a1 = 0 \<and>
     fst (safety_monitor_check (Some c1) (demo_clock 1001)) = SAFETY_STATE_EMERGENCY"
proof -
  obtain r c1 a1 where t: "safety_monitor_trigger_failsafe demo_monitor 7 = (r, c1, a1)" by (metis prod_cases3)
  have "sm_initialized demo_monitor" "sm_failsafe_cb demo_monitor = Some (\<lambda>_. 0)" by (simp_all add: demo_monitor_def)
  from monitor_failsafe_latched[OF this t rtranclp.rtrancl_refl, of "demo_clock 1001"] t show ?thesis by blast
qed

text \<open>
  Missed heartbeats never reach the actuators: in every run of the monitor without a manual trigger
  the actuators stay as they were, however long the heartbeat is missing and whatever the checks
  report; the count of missed heartbeats stays 0; and after one further heartbeat the monitor counts as
  alive again.
\<close>

theorem monitor_never_actuates:
  assumes "sm_initialized c" and "sm_missed_count c = 0" and "sm_state c \<noteq> SAFETY_STATE_EMERGENCY"
    and "monitor_step\<^sup>*\<^sup>* (c, a, ts) (c', a', ts')"
  shows "a' = a \<and> safety_monitor_get_missed_count (Some c') = 0
    \<and> (\<forall>r c'' ts'' s. safety_monitor_heartbeat c' ts' = (r, c'', ts'') \<longrightarrow> time_source_get_ms ts'' = (sm_last_heartbeat_ms c'', s)
         \<longrightarrow> fst (safety_monitor_check (Some c'') ts'') = SAFETY_STATE_ACTIVE)"
proof -
  have "no_trigger a (c, a, ts)" using assms(1-3) by (simp add: no_trigger_def)
  from monitor_sys.reachable_inv[OF this assms(4)]
  have n: "a' = a" "sm_initialized c'" "sm_missed_count c' = 0" "sm_state c' \<noteq> SAFETY_STATE_EMERGENCY"
    by (simp_all add: no_trigger_def)
  have "fst (safety_monitor_check (Some c'') ts'') = SAFETY_STATE_ACTIVE"
    if h: "safety_monitor_heartbeat c' ts' = (r, c'', ts'')" and g: "time_source_get_ms ts'' = (sm_last_heartbeat_ms c'', s)" for r c'' ts'' s
  proof -
    have st: "sm_state c' = SAFETY_STATE_IDLE \<or> sm_state c' = SAFETY_STATE_ACTIVE \<or> sm_state c' = SAFETY_STATE_DEGRADED"
      using n(4) by (cases "sm_state c'") auto
    have "sm_initialized c''" "sm_state c'' = SAFETY_STATE_ACTIVE"
      using h n(2) st
      by (auto simp: safety_monitor_heartbeat_def Let_def split: prod.splits if_splits)
    then show ?thesis using g by (simp add: safety_monitor_check_def Let_def)
  qed
  then show ?thesis using n by (simp add: safety_monitor_get_missed_count_def)
qed

theorem monitor_never_actuates_witness:
  "monitor_step\<^sup>*\<^sup>* (demo_monitor, 7, demo_clock 1000) (demo_monitor, 7, demo_clock 90000)
   \<and> fst (safety_monitor_check (Some demo_monitor) (demo_clock 90000)) = SAFETY_STATE_EMERGENCY
   \<and> safety_monitor_get_missed_count (Some demo_monitor) = 0"
proof -
  have run: "monitor_step\<^sup>*\<^sup>* (demo_monitor, 7, demo_clock 1000) (demo_monitor, 7, demo_clock 90000)"
    by (rule r_into_rtranclp) (rule clock)
  have "safety_monitor_get_missed_count (Some demo_monitor) = 0"
    using monitor_never_actuates[OF _ _ _ run] by (simp add: demo_monitor_def)
  moreover have "fst (safety_monitor_check (Some demo_monitor) (demo_clock 90000)) = SAFETY_STATE_EMERGENCY"
    by (simp add: safety_monitor_check_def demo_clock_reads demo_monitor_def SAFETY_MONITOR_DEADLINE_MS_def SAFETY_MONITOR_MISSED_THRESHOLD_def)
  ultimately show ?thesis using run by blast
qed

end
