(* ===== verification/Net_Resilience.thy ===== *)
theory Net_Resilience
  imports Float32
begin

text \<open>
  Network resilience (\<open>firmware/shared/net_resilience.{h,c}\<close>): the offline queue, backpressure and the
  reconnection backoff.  The record array of the queue is a function from slots; a context pointer is
  an option.  The queue is an interpretation of \<open>fifo_buffer\<close>.
\<close>

section \<open>Data\<close>

definition OFFLINE_QUEUE_MAX_RECORDS :: nat where "OFFLINE_QUEUE_MAX_RECORDS = 512"
definition RECONNECT_MAX_DELAY_MS :: u32 where "RECONNECT_MAX_DELAY_MS = 300000"
definition RECONNECT_BASE_DELAY_MS :: u32 where "RECONNECT_BASE_DELAY_MS = 1000"
definition RECONNECT_MULTIPLIER :: u32 where "RECONNECT_MULTIPLIER = 2"

record OfflineRecord_t =
  or_timestamp_ms :: u32
  or_node_id :: u8
  or_metric_id :: u8
  or_value :: f32
  or_valid :: bool

record OfflineQueue_t =
  oq_records :: "nat \<Rightarrow> OfflineRecord_t"
  oq_head :: u16
  oq_tail :: u16
  oq_count :: u16
  oq_overflow :: bool

datatype BackpressureLevel_t = PRESSURE_OK | PRESSURE_MODERATE | PRESSURE_HIGH | PRESSURE_CRITICAL

record ReconnectStrategy_t =
  rc_attempt :: u32
  rc_delay_ms :: u32
  rc_max_delay_ms :: u32
  rc_next_retry_ms :: u32
  rc_waiting :: bool

record NetResilienceContext_t =
  nr_queue :: OfflineQueue_t
  nr_reconnect :: ReconnectStrategy_t
  nr_pressure :: BackpressureLevel_t
  nr_cloud_publish_rate_ms :: u32
  nr_last_publish_ms :: u32
  nr_cloud_connected :: bool
  nr_initialized :: bool

definition offline_record_zero :: OfflineRecord_t where
  "offline_record_zero = \<lparr>or_timestamp_ms = 0, or_node_id = 0, or_metric_id = 0, or_value = 0, or_valid = False\<rparr>"

definition offline_queue_zero :: OfflineQueue_t where
  "offline_queue_zero = \<lparr>oq_records = (\<lambda>_. offline_record_zero), oq_head = 0, oq_tail = 0, oq_count = 0, oq_overflow = False\<rparr>"

section \<open>Operations\<close>

definition net_resilience_init :: "NetResilienceContext_t option \<Rightarrow> NetResilienceContext_t option" where
  "net_resilience_init ctx =
    (case ctx of
       None \<Rightarrow> None
     | Some _ \<Rightarrow> Some \<lparr>nr_queue = offline_queue_zero,
         nr_reconnect = \<lparr>rc_attempt = 0, rc_delay_ms = RECONNECT_BASE_DELAY_MS, rc_max_delay_ms = RECONNECT_MAX_DELAY_MS,
           rc_next_retry_ms = 0, rc_waiting = False\<rparr>,
         nr_pressure = PRESSURE_OK, nr_cloud_publish_rate_ms = 0, nr_last_publish_ms = 0,
         nr_cloud_connected = True, nr_initialized = True\<rparr>)"

definition net_resilience_enqueue ::
  "NetResilienceContext_t \<Rightarrow> OfflineRecord_t option \<Rightarrow> bool \<times> NetResilienceContext_t"
where
  "net_resilience_enqueue ctx record =
    (case record of
       None \<Rightarrow> (False, ctx)
     | Some rec \<Rightarrow>
         if \<not> nr_initialized ctx then (False, ctx)
         else
           let q = nr_queue ctx
           in if unat (oq_count q) \<ge> OFFLINE_QUEUE_MAX_RECORDS
              then (False, ctx\<lparr>nr_queue := q\<lparr>oq_overflow := True\<rparr>\<rparr>)
              else let slot = (unat (oq_head q) + unat (oq_count q)) mod OFFLINE_QUEUE_MAX_RECORDS
                   in (True, ctx\<lparr>nr_queue := q\<lparr>oq_records := (oq_records q)(slot := rec), oq_count := oq_count q + 1\<rparr>\<rparr>))"

definition net_resilience_dequeue ::
  "NetResilienceContext_t \<Rightarrow> OfflineRecord_t option \<times> NetResilienceContext_t"
where
  "net_resilience_dequeue ctx =
    (if \<not> nr_initialized ctx then (None, ctx)
     else
       let q = nr_queue ctx
       in if oq_count q = 0 then (None, ctx)
          else (Some (oq_records q (unat (oq_head q))),
                ctx\<lparr>nr_queue := q\<lparr>oq_head := word_of_nat ((unat (oq_head q) + 1) mod OFFLINE_QUEUE_MAX_RECORDS),
                                 oq_count := oq_count q - 1\<rparr>\<rparr>))"

definition net_resilience_queue_count :: "NetResilienceContext_t option \<Rightarrow> u16" where
  "net_resilience_queue_count ctx =
    (case ctx of None \<Rightarrow> 0 | Some c \<Rightarrow> if nr_initialized c then oq_count (nr_queue c) else 0)"

definition net_resilience_queue_overflowed :: "NetResilienceContext_t option \<Rightarrow> bool" where
  "net_resilience_queue_overflowed ctx =
    (case ctx of None \<Rightarrow> False | Some c \<Rightarrow> nr_initialized c \<and> oq_overflow (nr_queue c))"

definition net_resilience_update_connection ::
  "NetResilienceContext_t \<Rightarrow> bool \<Rightarrow> u32 \<Rightarrow> BackpressureLevel_t \<times> NetResilienceContext_t"
where
  "net_resilience_update_connection ctx is_connected free_heap =
    (if \<not> nr_initialized ctx then (PRESSURE_CRITICAL, ctx)
     else
       let p = (if \<not> is_connected then PRESSURE_HIGH
                else if free_heap < 10240 then PRESSURE_CRITICAL
                else if free_heap < 32768 then PRESSURE_HIGH
                else if free_heap < 65536 then PRESSURE_MODERATE
                else PRESSURE_OK)
       in (p, ctx\<lparr>nr_cloud_connected := is_connected, nr_pressure := p\<rparr>))"

definition net_resilience_can_publish :: "NetResilienceContext_t option \<Rightarrow> u32 \<Rightarrow> bool" where
  "net_resilience_can_publish ctx now_ms =
    (case ctx of
       None \<Rightarrow> False
     | Some c \<Rightarrow>
         if \<not> nr_initialized c then False
         else if \<not> nr_cloud_connected c then False
         else (case nr_pressure c of
             PRESSURE_CRITICAL \<Rightarrow> False
           | PRESSURE_HIGH \<Rightarrow> False
           | p \<Rightarrow>
               let min_interval = (if p = PRESSURE_MODERATE then nr_cloud_publish_rate_ms c * 4
                                   else nr_cloud_publish_rate_ms c);
                   min_interval = (if min_interval = 0 then 1000 else min_interval)
               in now_ms - nr_last_publish_ms c \<ge> min_interval))"

definition net_resilience_report_publish :: "NetResilienceContext_t \<Rightarrow> u32 \<Rightarrow> NetResilienceContext_t" where
  "net_resilience_report_publish ctx now_ms =
    (if \<not> nr_initialized ctx then ctx else ctx\<lparr>nr_last_publish_ms := now_ms\<rparr>)"

definition net_resilience_get_reconnect_delay :: "NetResilienceContext_t option \<Rightarrow> u32" where
  "net_resilience_get_reconnect_delay ctx =
    (case ctx of None \<Rightarrow> RECONNECT_MAX_DELAY_MS
     | Some c \<Rightarrow> if \<not> nr_initialized c then RECONNECT_MAX_DELAY_MS else rc_delay_ms (nr_reconnect c))"

definition net_resilience_report_reconnect_fail :: "NetResilienceContext_t \<Rightarrow> NetResilienceContext_t" where
  "net_resilience_report_reconnect_fail ctx =
    (if \<not> nr_initialized ctx then ctx
     else
       let r = nr_reconnect ctx;
           r = r\<lparr>rc_attempt := rc_attempt r + 1, rc_delay_ms := rc_delay_ms r * RECONNECT_MULTIPLIER\<rparr>;
           r = (if rc_delay_ms r > rc_max_delay_ms r then r\<lparr>rc_delay_ms := rc_max_delay_ms r\<rparr> else r)
       in ctx\<lparr>nr_reconnect := r\<lparr>rc_waiting := True\<rparr>\<rparr>)"

definition net_resilience_report_reconnect_success :: "NetResilienceContext_t \<Rightarrow> NetResilienceContext_t" where
  "net_resilience_report_reconnect_success ctx =
    (if \<not> nr_initialized ctx then ctx
     else ctx\<lparr>nr_reconnect := (nr_reconnect ctx)\<lparr>rc_attempt := 0, rc_delay_ms := RECONNECT_BASE_DELAY_MS, rc_waiting := False\<rparr>,
            nr_cloud_connected := True\<rparr>)"

definition net_resilience_get_pressure :: "NetResilienceContext_t option \<Rightarrow> BackpressureLevel_t" where
  "net_resilience_get_pressure ctx =
    (case ctx of None \<Rightarrow> PRESSURE_CRITICAL | Some c \<Rightarrow> if nr_initialized c then nr_pressure c else PRESSURE_CRITICAL)"

section \<open>The queue\<close>

definition queue_ok :: "NetResilienceContext_t \<Rightarrow> bool" where
  "queue_ok ctx \<longleftrightarrow> nr_initialized ctx \<and> unat (oq_head (nr_queue ctx)) < 512 \<and> unat (oq_count (nr_queue ctx)) \<le> 512"

definition queue_contents :: "NetResilienceContext_t \<Rightarrow> OfflineRecord_t list" where
  "queue_contents ctx = map (\<lambda>i. oq_records (nr_queue ctx) ((unat (oq_head (nr_queue ctx)) + i) mod 512))
     [0..<unat (oq_count (nr_queue ctx))]"

definition enq :: "NetResilienceContext_t \<Rightarrow> OfflineRecord_t \<Rightarrow> NetResilienceContext_t option" where
  "enq ctx r = (case net_resilience_enqueue ctx (Some r) of (ok, c) \<Rightarrow> if ok then Some c else None)"

definition deq :: "NetResilienceContext_t \<Rightarrow> (OfflineRecord_t \<times> NetResilienceContext_t) option" where
  "deq ctx = (case net_resilience_dequeue ctx of (Some r, c) \<Rightarrow> Some (r, c) | (None, _) \<Rightarrow> None)"

lemma ring_slot_neq: "i < c \<Longrightarrow> c < 512 \<Longrightarrow> (h + i) mod 512 \<noteq> (h + c) mod (512 :: nat)"
proof
  assume a: "i < c" "c < 512" "(h + i) mod 512 = (h + c) mod (512 :: nat)"
  then have "(512 :: nat) dvd (h + c) - (h + i)" using mod_eq_dvd_iff_nat[of "h + i" "h + c" 512] by simp
  with a show False by (auto dest: dvd_imp_le)
qed

lemma enqueue_contents:
  assumes ok: "queue_ok ctx" and room: "unat (oq_count (nr_queue ctx)) < 512"
  shows "\<exists>c. net_resilience_enqueue ctx (Some r) = (True, c) \<and> queue_ok c \<and> queue_contents c = queue_contents ctx @ [r]"
proof -
  let ?q = "nr_queue ctx" let ?h = "unat (oq_head ?q)" and ?n = "unat (oq_count ?q)"
  define c where "c = ctx\<lparr>nr_queue := ?q\<lparr>oq_records := (oq_records ?q)((?h + ?n) mod 512 := r), oq_count := oq_count ?q + 1\<rparr>\<rparr>"
  have e: "net_resilience_enqueue ctx (Some r) = (True, c)"
    using ok room by (simp add: net_resilience_enqueue_def queue_ok_def Let_def OFFLINE_QUEUE_MAX_RECORDS_def c_def)
  have n: "unat (oq_count ?q + 1) = Suc ?n" using room by (simp add: unat_word_ariths)
  have "queue_ok c" using ok room n by (simp add: queue_ok_def c_def)
  moreover have "queue_contents c = queue_contents ctx @ [r]"
    using ring_slot_neq[of _ ?n ?h] room by (auto simp: queue_contents_def c_def n)
  ultimately show ?thesis using e by blast
qed

lemma dequeue_contents:
  assumes ok: "queue_ok ctx" and some: "oq_count (nr_queue ctx) \<noteq> 0"
  shows "\<exists>r c. net_resilience_dequeue ctx = (Some r, c) \<and> queue_ok c \<and> queue_contents ctx = r # queue_contents c"
proof -
  let ?q = "nr_queue ctx" let ?h = "unat (oq_head ?q)" and ?n = "unat (oq_count ?q)"
  define c where "c = ctx\<lparr>nr_queue := ?q\<lparr>oq_head := word_of_nat ((?h + 1) mod 512), oq_count := oq_count ?q - 1\<rparr>\<rparr>"
  have h: "unat (word_of_nat (Suc ?h mod 512) :: u16) = Suc ?h mod 512"
    by (subst unat_word_of_nat_small) (auto intro: less_trans[OF mod_less_divisor])
  have n: "unat (oq_count ?q - 1) = ?n - 1" "0 < ?n" using some by (simp_all add: unat_minus_one unat_gt_0)
  have d: "net_resilience_dequeue ctx = (Some (oq_records ?q ?h), c)"
    using ok some by (simp add: net_resilience_dequeue_def queue_ok_def Let_def OFFLINE_QUEUE_MAX_RECORDS_def c_def)
  have "[0..<?n] = 0 # map Suc [0..<?n - 1]" using n(2) by (simp add: map_Suc_upt upt_conv_Cons)
  moreover have "(Suc ?h mod 512 + i) mod 512 = (?h + Suc i) mod 512" for i by (simp add: mod_simps)
  ultimately have "queue_contents ctx = oq_records ?q ?h # queue_contents c"
    using ok by (simp add: queue_contents_def c_def h n(1) queue_ok_def comp_def)
  moreover have "queue_ok c" using ok n unfolding queue_ok_def c_def by (auto simp: h)
  ultimately show ?thesis using d by blast
qed

lemma enqueue_full:
  "queue_ok ctx \<Longrightarrow> unat (oq_count (nr_queue ctx)) = 512 \<Longrightarrow>
   net_resilience_enqueue ctx (Some r) = (False, ctx\<lparr>nr_queue := (nr_queue ctx)\<lparr>oq_overflow := True\<rparr>\<rparr>)"
  by (simp add: net_resilience_enqueue_def queue_ok_def Let_def OFFLINE_QUEUE_MAX_RECORDS_def)

interpretation offline_queue: fifo_buffer enq deq queue_contents queue_ok
proof unfold_locales
  fix s s' :: NetResilienceContext_t and x :: OfflineRecord_t
  assume ok: "queue_ok s"
  show "queue_ok s'" "queue_contents s' = queue_contents s @ [x]" if e: "enq s x = Some s'"
  proof -
    have "unat (oq_count (nr_queue s)) \<noteq> 512" using enqueue_full[OF ok, of x] e by (auto simp: enq_def)
    then have "unat (oq_count (nr_queue s)) < 512" using ok by (simp add: queue_ok_def)
    from enqueue_contents[OF ok this, of x] e show "queue_ok s'" "queue_contents s' = queue_contents s @ [x]"
      by (auto simp: enq_def)
  qed
  show "queue_ok s'" "queue_contents s = x # queue_contents s'" if d: "deq s = Some (x, s')"
  proof -
    have "oq_count (nr_queue s) \<noteq> 0"
      using d by (auto simp: deq_def net_resilience_dequeue_def Let_def split: if_splits)
    from dequeue_contents[OF ok this] d show "queue_ok s'" "queue_contents s = x # queue_contents s'"
      by (auto simp: deq_def)
  qed
  show "queue_contents s = []" if "deq s = None"
  proof (rule ccontr)
    assume "queue_contents s \<noteq> []"
    then have "oq_count (nr_queue s) \<noteq> 0" by (auto simp: queue_contents_def)
    from dequeue_contents[OF ok this] that show False by (auto simp: deq_def)
  qed
qed


section \<open>Properties\<close>

text \<open>Taking records out until the queue is empty, at most \<open>n\<close> times.\<close>

fun drain :: "nat \<Rightarrow> NetResilienceContext_t \<Rightarrow> OfflineRecord_t list" where
  "drain 0 ctx = []"
| "drain (Suc n) ctx = (case net_resilience_dequeue ctx of (Some r, c) \<Rightarrow> r # drain n c | (None, _) \<Rightarrow> [])"

lemma drain_contents: "queue_ok ctx \<Longrightarrow> drain n ctx = take n (queue_contents ctx)"
proof (induction n arbitrary: ctx)
  case (Suc n)
  show ?case
  proof (cases "oq_count (nr_queue ctx) = 0")
    case True
    then show ?thesis using Suc.prems
      by (simp add: net_resilience_dequeue_def queue_contents_def queue_ok_def Let_def)
  next
    case False
    from dequeue_contents[OF Suc.prems this] obtain r c where
      "net_resilience_dequeue ctx = (Some r, c)" "queue_ok c" "queue_contents ctx = r # queue_contents c" by blast
    then show ?thesis using Suc.IH[of c] by simp
  qed
qed simp

lemma enq_all_room:
  "queue_ok ctx \<Longrightarrow> length (queue_contents ctx) + length rs \<le> 512 \<Longrightarrow> \<exists>c. put_all enq ctx rs = Some c"
proof (induction rs arbitrary: ctx)
  case (Cons r rs)
  then have "unat (oq_count (nr_queue ctx)) < 512" by (simp add: queue_contents_def)
  from enqueue_contents[OF Cons.prems(1) this, of r] obtain c where
    c: "enq ctx r = Some c" "queue_ok c" "queue_contents c = queue_contents ctx @ [r]" by (auto simp: enq_def)
  then show ?case using Cons.IH[of c] Cons.prems by simp
qed simp

text \<open>
  C32.  The offline queue is first-in first-out and loses nothing while there is room: after enqueuing
  records that fit, every enqueue succeeded, and draining returns what was in the queue before
  followed by the new records in order, through any wrap-around of the 512 slots.
\<close>

theorem offline_queue_fifo:
  assumes "queue_ok ctx" and "length (queue_contents ctx) + length rs \<le> 512"
  shows "\<exists>c. put_all enq ctx rs = Some c \<and> drain 512 c = queue_contents ctx @ rs"
proof -
  obtain c where c: "put_all enq ctx rs = Some c" using enq_all_room[OF assms] by blast
  from offline_queue.enq_all_contents[OF assms(1) c] offline_queue.enq_all_inv[OF assms(1) c]
  show ?thesis using c assms(2) drain_contents[of c 512] by simp
qed

definition demo_net :: NetResilienceContext_t where
  "demo_net = \<lparr>nr_queue = offline_queue_zero\<lparr>oq_head := 511\<rparr>,
     nr_reconnect = \<lparr>rc_attempt = 0, rc_delay_ms = 1000, rc_max_delay_ms = 300000, rc_next_retry_ms = 0, rc_waiting = False\<rparr>,
     nr_pressure = PRESSURE_OK, nr_cloud_publish_rate_ms = 0, nr_last_publish_ms = 0,
     nr_cloud_connected = True, nr_initialized = True\<rparr>"

lemma demo_net_ok: "queue_ok demo_net" and demo_net_empty: "queue_contents demo_net = []"
  by (simp_all add: demo_net_def queue_ok_def queue_contents_def offline_queue_zero_def)

theorem offline_queue_fifo_witness:
  "\<exists>c. put_all enq demo_net [offline_record_zero\<lparr>or_node_id := 1\<rparr>, offline_record_zero\<lparr>or_node_id := 2\<rparr>] = Some c \<and>
     drain 512 c = [offline_record_zero\<lparr>or_node_id := 1\<rparr>, offline_record_zero\<lparr>or_node_id := 2\<rparr>]"
  using offline_queue_fifo[OF demo_net_ok, of "[offline_record_zero\<lparr>or_node_id := 1\<rparr>, offline_record_zero\<lparr>or_node_id := 2\<rparr>]"]
  by (simp add: demo_net_empty)

text \<open>
  A full queue keeps its records: the new record is refused, the overflow flag is raised and the
  queued records stay as they are.
\<close>

theorem offline_queue_full:
  assumes "queue_ok ctx" and "length (queue_contents ctx) = 512"
  shows "\<exists>c. net_resilience_enqueue ctx (Some r) = (False, c) \<and> queue_contents c = queue_contents ctx
    \<and> net_resilience_queue_overflowed (Some c)"
  using enqueue_full[OF assms(1), of r] assms
  by (simp add: queue_contents_def net_resilience_queue_overflowed_def queue_ok_def)

theorem offline_queue_full_witness:
  "\<exists>c. net_resilience_enqueue (demo_net\<lparr>nr_queue := offline_queue_zero\<lparr>oq_count := 512\<rparr>\<rparr>) (Some offline_record_zero) = (False, c)
    \<and> net_resilience_queue_overflowed (Some c)"
  using offline_queue_full[of "demo_net\<lparr>nr_queue := offline_queue_zero\<lparr>oq_count := 512\<rparr>\<rparr>" offline_record_zero]
  by (auto simp: queue_ok_def queue_contents_def demo_net_def offline_queue_zero_def)

lemma reconnect_fail_step:
  assumes "nr_initialized c" "rc_max_delay_ms (nr_reconnect c) = RECONNECT_MAX_DELAY_MS"
  shows "nr_initialized (net_resilience_report_reconnect_fail c)
    \<and> rc_max_delay_ms (nr_reconnect (net_resilience_report_reconnect_fail c)) = RECONNECT_MAX_DELAY_MS
    \<and> unat (rc_delay_ms (nr_reconnect (net_resilience_report_reconnect_fail c))) =
        min (unat (rc_delay_ms (nr_reconnect c) * 2)) 300000"
  using assms
  by (auto simp: net_resilience_report_reconnect_fail_def RECONNECT_MULTIPLIER_def RECONNECT_MAX_DELAY_MS_def
      Let_def word_less_nat_alt)

text \<open>
  Exponential backoff: after \<open>n\<close> failed attempts following a successful connection the delay is
  \<open>1000 * 2 ^ n\<close> milliseconds, capped at five minutes; the doubling never overflows.
\<close>

theorem reconnect_backoff:
  assumes "nr_initialized ctx" and "rc_max_delay_ms (nr_reconnect ctx) = RECONNECT_MAX_DELAY_MS"
  shows "unat (net_resilience_get_reconnect_delay
      (Some ((net_resilience_report_reconnect_fail ^^ n) (net_resilience_report_reconnect_success ctx)))) =
    min (1000 * 2 ^ n) 300000"
proof -
  let ?c = "\<lambda>n. (net_resilience_report_reconnect_fail ^^ n) (net_resilience_report_reconnect_success ctx)"
  have "nr_initialized (?c n) \<and> rc_max_delay_ms (nr_reconnect (?c n)) = RECONNECT_MAX_DELAY_MS \<and>
      unat (rc_delay_ms (nr_reconnect (?c n))) = min (1000 * 2 ^ n) 300000"
  proof (induction n)
    case 0
    then show ?case using assms
      by (simp add: net_resilience_report_reconnect_success_def RECONNECT_BASE_DELAY_MS_def)
  next
    case (Suc n)
    let ?d = "?c n"
    have "unat (rc_delay_ms (nr_reconnect ?d) * 2) = 2 * min (1000 * 2 ^ n) 300000"
      using Suc.IH by (subst unat_mult_lem[THEN iffD1]) simp_all
    moreover have "?c (Suc n) = net_resilience_report_reconnect_fail ?d" by simp
    ultimately show ?case using Suc.IH reconnect_fail_step[of ?d] by (simp del: funpow.simps add: min_def)
  qed
  then show ?thesis by (simp add: net_resilience_get_reconnect_delay_def)
qed

theorem reconnect_backoff_witness:
  "unat (net_resilience_get_reconnect_delay
      (Some ((net_resilience_report_reconnect_fail ^^ 3) (net_resilience_report_reconnect_success demo_net)))) = 8000"
  using reconnect_backoff[of demo_net 3] by (simp add: demo_net_def RECONNECT_MAX_DELAY_MS_def)

text \<open>
  Reconnecting does not restore publishing: after a connection loss was reported, a reported
  reconnection marks the cloud as connected but leaves the pressure at HIGH, so that no publish is
  allowed at any time until the connection state is evaluated again.
\<close>

theorem reconnect_leaves_pressure_high:
  assumes "nr_initialized ctx"
  shows "\<not> net_resilience_can_publish (Some (net_resilience_report_reconnect_success
      (snd (net_resilience_update_connection ctx False free_heap)))) now
    \<and> nr_cloud_connected (net_resilience_report_reconnect_success
      (snd (net_resilience_update_connection ctx False free_heap)))"
  using assms
  by (simp add: net_resilience_can_publish_def net_resilience_report_reconnect_success_def
      net_resilience_update_connection_def Let_def)

theorem reconnect_leaves_pressure_high_witness:
  "\<not> net_resilience_can_publish (Some (net_resilience_report_reconnect_success
      (snd (net_resilience_update_connection demo_net False 100000)))) 5000"
  using reconnect_leaves_pressure_high[of demo_net 100000 5000] by (simp add: demo_net_def)

end
