(* ===== verification/Power_Profile.thy ===== *)
theory Power_Profile
  imports Iot_Prelude
begin

text \<open>
  Power profiles (\<open>firmware/shared/power_profile.{h,c}\<close>): the profile table, the preset profiles and the
  battery evaluation.  The profile array is the list of its used slots.
\<close>

section \<open>Data\<close>

definition POWER_PROFILE_MAX_PROFILES :: nat where "POWER_PROFILE_MAX_PROFILES = 8"

datatype PowerSource_t = POWER_SOURCE_MAINS | POWER_SOURCE_BATTERY | POWER_SOURCE_SOLAR

record PowerProfile_t =
  pp_source :: PowerSource_t
  pp_active_duration_ms :: u32
  pp_sleep_duration_ms :: u32
  pp_low_battery_mv :: u16
  pp_critical_battery_mv :: u16
  pp_deep_sleep_enabled :: bool
  pp_telemetry_duty_cycle :: bool

record PowerState_t =
  ps_last_wake_ms :: u64
  ps_last_sleep_ms :: u64
  ps_battery_mv :: u16
  ps_cycle_count :: u8
  ps_low_battery :: bool
  ps_critical_battery :: bool

datatype PowerAction_t =
  POWER_ACTION_STAY_ACTIVE | POWER_ACTION_THROTTLE | POWER_ACTION_ENTER_SLEEP | POWER_ACTION_ENTER_DEEP_SLEEP
| POWER_ACTION_SHUTDOWN

record power_profile =
  pw_profiles :: "PowerProfile_t list"
  pw_initialised :: bool

section \<open>Operations\<close>

definition power_profile_init :: "power_profile \<Rightarrow> bool \<times> power_profile" where
  "power_profile_init g = (True, \<lparr>pw_profiles = [], pw_initialised = True\<rparr>)"

definition power_profile_register :: "power_profile \<Rightarrow> PowerProfile_t option \<Rightarrow> bool \<times> power_profile" where
  "power_profile_register g profile =
    (case profile of
       None \<Rightarrow> (False, g)
     | Some p \<Rightarrow>
         if \<not> pw_initialised g then (False, g)
         else if length (pw_profiles g) \<ge> POWER_PROFILE_MAX_PROFILES then (False, g)
         else (True, g\<lparr>pw_profiles := pw_profiles g @ [p]\<rparr>))"

definition power_profile_get :: "power_profile \<Rightarrow> u8 \<Rightarrow> PowerProfile_t option" where
  "power_profile_get g index =
    (if \<not> pw_initialised g \<or> unat index \<ge> length (pw_profiles g) then None else Some (pw_profiles g ! unat index))"

definition power_profile_evaluate ::
  "power_profile \<Rightarrow> PowerState_t option \<Rightarrow> PowerProfile_t option \<Rightarrow> u64 \<Rightarrow> u16 \<Rightarrow> PowerAction_t \<times> PowerState_t option"
where
  "power_profile_evaluate g state profile current_ms battery_mv =
    (case (state, profile) of
       (Some s, Some p) \<Rightarrow>
         if \<not> pw_initialised g then (POWER_ACTION_STAY_ACTIVE, state)
         else
           let s = s\<lparr>ps_battery_mv := battery_mv\<rparr>
           in if battery_mv > 0 \<and> pp_critical_battery_mv p > 0 then
                if battery_mv < pp_critical_battery_mv p
                then (POWER_ACTION_SHUTDOWN, Some (s\<lparr>ps_critical_battery := True, ps_low_battery := True\<rparr>))
                else if battery_mv < pp_low_battery_mv p
                then (POWER_ACTION_THROTTLE, Some (s\<lparr>ps_low_battery := True\<rparr>))
                else (POWER_ACTION_STAY_ACTIVE, Some (s\<lparr>ps_low_battery := False, ps_critical_battery := False\<rparr>))
              else (POWER_ACTION_STAY_ACTIVE, Some s)
     | _ \<Rightarrow> (POWER_ACTION_STAY_ACTIVE, state))"

definition power_profile_count :: "power_profile \<Rightarrow> u8" where
  "power_profile_count g = word_of_nat (length (pw_profiles g))"

definition power_profile_create_mains :: PowerProfile_t where
  "power_profile_create_mains = \<lparr>pp_source = POWER_SOURCE_MAINS, pp_active_duration_ms = 0, pp_sleep_duration_ms = 0,
     pp_low_battery_mv = 0, pp_critical_battery_mv = 0, pp_deep_sleep_enabled = False, pp_telemetry_duty_cycle = False\<rparr>"

definition critical_for :: "u16 \<Rightarrow> u16" where
  "critical_for low_battery_mv = (if low_battery_mv > 200 then low_battery_mv - 200 else 2800)"

definition power_profile_create_battery :: "u32 \<Rightarrow> u32 \<Rightarrow> u16 \<Rightarrow> PowerProfile_t" where
  "power_profile_create_battery active_ms sleep_ms low_battery_mv = \<lparr>pp_source = POWER_SOURCE_BATTERY,
     pp_active_duration_ms = active_ms, pp_sleep_duration_ms = sleep_ms, pp_low_battery_mv = low_battery_mv,
     pp_critical_battery_mv = critical_for low_battery_mv, pp_deep_sleep_enabled = True, pp_telemetry_duty_cycle = True\<rparr>"

definition power_profile_create_solar :: "u32 \<Rightarrow> u32 \<Rightarrow> u16 \<Rightarrow> PowerProfile_t" where
  "power_profile_create_solar active_ms sleep_ms low_battery_mv = \<lparr>pp_source = POWER_SOURCE_SOLAR,
     pp_active_duration_ms = active_ms, pp_sleep_duration_ms = sleep_ms, pp_low_battery_mv = low_battery_mv,
     pp_critical_battery_mv = critical_for low_battery_mv, pp_deep_sleep_enabled = True, pp_telemetry_duty_cycle = True\<rparr>"

section \<open>Properties\<close>

text \<open>
  Battery bands: for a battery profile whose low threshold is above 200 mV the critical threshold is
  200 mV below it, and a non-zero reading leads to a shutdown below the critical threshold, to
  throttling between the two and to normal operation from the low threshold on; for a low threshold of
  200 mV or less the device shuts down at anything below 2800 mV and is never throttled.
\<close>

theorem battery_bands:
  assumes "pw_initialised g" and "0 < v"
  shows "fst (power_profile_evaluate g (Some s) (Some (power_profile_create_battery a d low)) now v) =
    (if 200 < unat low then
       (if unat v < unat low - 200 then POWER_ACTION_SHUTDOWN
        else if unat v < unat low then POWER_ACTION_THROTTLE else POWER_ACTION_STAY_ACTIVE)
     else if unat v < 2800 then POWER_ACTION_SHUTDOWN else POWER_ACTION_STAY_ACTIVE)"
  using assms
  by (auto simp: power_profile_evaluate_def power_profile_create_battery_def critical_for_def Let_def
      word_less_nat_alt unat_sub_if')

theorem battery_bands_witness:
  "fst (power_profile_evaluate \<lparr>pw_profiles = [], pw_initialised = True\<rparr>
     (Some \<lparr>ps_last_wake_ms = 0, ps_last_sleep_ms = 0, ps_battery_mv = 0, ps_cycle_count = 0, ps_low_battery = False, ps_critical_battery = False\<rparr>)
     (Some (power_profile_create_battery 1000 60000 3300)) 0 3200) = POWER_ACTION_THROTTLE"
  using battery_bands[of "\<lparr>pw_profiles = [], pw_initialised = True\<rparr>" 3200 _ 1000 60000 3300 0] by simp

text \<open>
  No evaluation ever asks for sleep: whatever the profile, the deep-sleep setting and the time, the
  action is to stay active, to throttle or to shut down.
\<close>

theorem power_never_sleeps:
  "fst (power_profile_evaluate g s p now v) \<in> {POWER_ACTION_STAY_ACTIVE, POWER_ACTION_THROTTLE, POWER_ACTION_SHUTDOWN}"
  by (simp add: power_profile_evaluate_def Let_def split: option.splits)

text \<open>
  Registered profiles keep their index: registering succeeds while fewer than eight profiles are
  stored, the new profile gets the next index, and all earlier ones are still found under theirs.
\<close>

theorem power_register_get:
  assumes "pw_initialised g" and "length (pw_profiles g) < 8"
  shows "\<exists>g'. power_profile_register g (Some p) = (True, g') \<and> power_profile_get g' (power_profile_count g) = Some p
    \<and> (\<forall>i < length (pw_profiles g). power_profile_get g' (word_of_nat i) = power_profile_get g (word_of_nat i))"
proof -
  have u: "unat (word_of_nat i :: u8) = i" if "i \<le> 8" for i using that by (simp add: unat_word_of_nat_small)
  show ?thesis using assms u
    by (auto simp: power_profile_register_def power_profile_get_def power_profile_count_def POWER_PROFILE_MAX_PROFILES_def nth_append)
qed

theorem power_register_get_witness:
  "\<exists>g'. power_profile_register \<lparr>pw_profiles = [power_profile_create_mains], pw_initialised = True\<rparr>
      (Some (power_profile_create_solar 1 2 3300)) = (True, g')
    \<and> power_profile_get g' 1 = Some (power_profile_create_solar 1 2 3300)"
  using power_register_get[of "\<lparr>pw_profiles = [power_profile_create_mains], pw_initialised = True\<rparr>" "power_profile_create_solar 1 2 3300"]
  by (auto simp: power_profile_count_def)

end
