(* ===== verification/Config_Portal.thy ===== *)
theory Config_Portal
  imports Audit_Log Rule_Engine
begin

text \<open>
  The configuration portal (\<open>firmware/hub/config_portal.{h,c}\<close>): user accounts with roles, sessions,
  configuration writes.  The user array is the list of the slots below the high-water mark, the session
  array a list of four slots; user names and session names are the 16-byte C arrays.  A session that a
  caller passes in is the caller's own copy.  Account storage is a parameter with a state \<open>'st\<close>.
\<close>

section \<open>Data\<close>

definition CONFIG_PORTAL_SESSION_TOKEN_SIZE :: nat where "CONFIG_PORTAL_SESSION_TOKEN_SIZE = 32"
definition CONFIG_PORTAL_CREDENTIAL_MAX_LEN :: nat where "CONFIG_PORTAL_CREDENTIAL_MAX_LEN = 16"
definition CONFIG_PORTAL_HASH_SIZE :: nat where "CONFIG_PORTAL_HASH_SIZE = 32"
definition CONFIG_PORTAL_MAX_SESSIONS :: nat where "CONFIG_PORTAL_MAX_SESSIONS = 4"
definition CONFIG_PORTAL_MAX_USERS :: nat where "CONFIG_PORTAL_MAX_USERS = 8"
definition CONFIG_PORTAL_USERNAME_MAX_LEN :: nat where "CONFIG_PORTAL_USERNAME_MAX_LEN = 16"
definition CONFIG_PORTAL_IDLE_TIMEOUT_MS :: u64 where "CONFIG_PORTAL_IDLE_TIMEOUT_MS = 15 * 60 * 1000"

datatype UserRole_t = ROLE_TECHNICIAN | ROLE_ADMIN

datatype ConfigPortalResult_t =
  CONFIG_OK | CONFIG_ERR_AUTH_FAILED | CONFIG_ERR_NO_SESSION | CONFIG_ERR_SESSION_EXPIRED | CONFIG_ERR_SAFETY_LOCKED
| CONFIG_ERR_NOT_AUTHORIZED | CONFIG_ERR_USER_NOT_FOUND | CONFIG_ERR_USER_EXISTS | CONFIG_ERR_USERS_FULL
| CONFIG_ERR_LAST_ADMIN | CONFIG_ERR_PARAM_NULL | CONFIG_ERR_NOT_INIT | CONFIG_ERR_INTERNAL

record UserAccount_t =
  ua_username :: bytes
  ua_credential_hash :: bytes
  ua_role :: UserRole_t
  ua_active :: bool

record ConfigSession_t =
  se_session_token :: bytes
  se_session_id :: u8
  se_last_active_ms :: u64
  se_active :: bool
  se_user_index :: u8
  se_role :: UserRole_t
  se_username :: bytes

record ConfigWriteRequest_t =
  cw_rule_id :: u16
  cw_new_threshold :: f32
  cw_new_action_type :: u8
  cw_new_actuator_id :: u8

text \<open>\<open>load\<close> gives the accounts below the loaded count; its return value is not used by the code.\<close>

record 'st ConfigPortalStorage_t =
  cs_save :: "(UserAccount_t list \<Rightarrow> 'st \<Rightarrow> bool \<times> 'st) option"
  cs_load :: "('st \<Rightarrow> UserAccount_t list) option"

record 'st config_portal =
  cp_users :: "UserAccount_t list"
  cp_initialised :: bool
  cp_sessions :: "ConfigSession_t list"
  cp_next_session_id :: u8
  cp_storage :: "'st ConfigPortalStorage_t option"
  cp_backend :: 'st
  cp_audit :: audit_env

definition session_zero :: ConfigSession_t where
  "session_zero = \<lparr>se_session_token = replicate 32 0, se_session_id = 0, se_last_active_ms = 0, se_active = False,
     se_user_index = 0, se_role = ROLE_TECHNICIAN, se_username = replicate 16 0\<rparr>"

section \<open>Helpers\<close>

definition credential_salt :: bytes where "credential_salt = cstr ''config_portal_credential_salt_v2''"

definition hash_credential :: "md_hmac \<Rightarrow> bytes \<Rightarrow> bytes" where
  "hash_credential md credential = iot_hmac_sha256 md credential_salt credential"

text \<open>\<open>strlen\<close> of a character array.\<close>

definition array_strlen :: "bytes \<Rightarrow> nat" where
  "array_strlen a = length (takeWhile (\<lambda>b. b \<noteq> 0) a)"

definition user_match :: "bytes \<Rightarrow> UserAccount_t \<Rightarrow> bool" where
  "user_match username u \<longleftrightarrow> ua_active u \<and> array_strlen (ua_username u) = length username
     \<and> take (length username) (ua_username u) = username"

definition find_user :: "UserAccount_t list \<Rightarrow> bytes \<Rightarrow> nat option" where
  "find_user users username = find_index (user_match username) users"

definition persist_users :: "'st config_portal \<Rightarrow> 'st config_portal" where
  "persist_users g =
    (case cp_storage g of
       None \<Rightarrow> g
     | Some s \<Rightarrow> (case cs_save s of None \<Rightarrow> g | Some save \<Rightarrow> g\<lparr>cp_backend := snd (save (cp_users g) (cp_backend g))\<rparr>))"

definition count_active_admins :: "UserAccount_t list \<Rightarrow> nat" where
  "count_active_admins users = length (filter (\<lambda>u. ua_active u \<and> ua_role u = ROLE_ADMIN) users)"

definition portal_note :: "md_hmac \<Rightarrow> 'st config_portal \<Rightarrow> AuditEventType_t \<Rightarrow> u8 \<Rightarrow> u16 \<Rightarrow> bytes \<Rightarrow> 'st config_portal" where
  "portal_note md g ev sid rid detail = g\<lparr>cp_audit := audit_note md (cp_audit g) ev sid rid detail\<rparr>"

section \<open>Operations\<close>

definition config_portal_init :: "'st config_portal \<Rightarrow> bool \<times> 'st config_portal" where
  "config_portal_init g =
    (let g = g\<lparr>cp_users := [], cp_sessions := replicate CONFIG_PORTAL_MAX_SESSIONS session_zero, cp_next_session_id := 1\<rparr>;
         g = (case cp_storage g of
             None \<Rightarrow> g
           | Some s \<Rightarrow> (case cs_load s of None \<Rightarrow> g | Some load \<Rightarrow> g\<lparr>cp_users := load (cp_backend g)\<rparr>));
         g = g\<lparr>cp_audit := (snd (audit_log_init (fst (cp_audit g))), snd (cp_audit g))\<rparr>
     in (True, g\<lparr>cp_initialised := True\<rparr>))"

definition config_portal_set_storage :: "'st config_portal \<Rightarrow> 'st ConfigPortalStorage_t option \<Rightarrow> 'st config_portal" where
  "config_portal_set_storage g storage = g\<lparr>cp_storage := storage\<rparr>"

definition config_portal_validate_session ::
  "'st config_portal \<Rightarrow> ConfigSession_t option \<Rightarrow> u64 \<Rightarrow> ConfigPortalResult_t"
where
  "config_portal_validate_session g session current_ms =
    (case session of
       None \<Rightarrow> CONFIG_ERR_PARAM_NULL
     | Some s \<Rightarrow>
         if \<not> cp_initialised g then CONFIG_ERR_NOT_INIT
         else if \<not> se_active s then CONFIG_ERR_NO_SESSION
         else if current_ms - se_last_active_ms s > CONFIG_PORTAL_IDLE_TIMEOUT_MS then CONFIG_ERR_SESSION_EXPIRED
         else CONFIG_OK)"

definition new_account :: "md_hmac \<Rightarrow> bytes \<Rightarrow> bytes \<Rightarrow> UserRole_t \<Rightarrow> UserAccount_t" where
  "new_account md username credential role = \<lparr>ua_username = username @ replicate (CONFIG_PORTAL_USERNAME_MAX_LEN - length username) 0,
     ua_credential_hash = hash_credential md credential, ua_role = role, ua_active = True\<rparr>"

text \<open>Duplicate check, slot allocation and storing of \<open>config_portal_add_user\<close>.\<close>

definition add_account ::
  "md_hmac \<Rightarrow> 'st config_portal \<Rightarrow> bytes \<Rightarrow> bytes \<Rightarrow> UserRole_t \<Rightarrow> ConfigPortalResult_t \<times> 'st config_portal"
where
  "add_account md g username credential role =
    (if find_user (cp_users g) username \<noteq> None then (CONFIG_ERR_USER_EXISTS, g)
     else
       let user = new_account md username credential role;
           slot = find_index (\<lambda>u. \<not> ua_active u) (cp_users g)
       in if slot = None \<and> length (cp_users g) \<ge> CONFIG_PORTAL_MAX_USERS then (CONFIG_ERR_USERS_FULL, g)
          else
            let users = (case slot of Some i \<Rightarrow> (cp_users g)[i := user] | None \<Rightarrow> cp_users g @ [user]);
                g = persist_users (g\<lparr>cp_users := users\<rparr>)
            in (CONFIG_OK, portal_note md g AUDIT_CONFIG_WRITE 0 0 (cstr ''User account added'')))"

definition config_portal_add_user ::
  "md_hmac \<Rightarrow> 'st config_portal \<Rightarrow> ConfigSession_t option \<Rightarrow> bytes option \<Rightarrow> bytes option \<Rightarrow> UserRole_t \<Rightarrow> u64 \<Rightarrow>
   ConfigPortalResult_t \<times> 'st config_portal"
where
  "config_portal_add_user md g session username credential role current_ms =
    (case (username, credential) of
       (Some n, Some c) \<Rightarrow>
         if \<not> cp_initialised g then (CONFIG_ERR_NOT_INIT, g)
         else if length n = 0 \<or> length n \<ge> CONFIG_PORTAL_USERNAME_MAX_LEN then (CONFIG_ERR_PARAM_NULL, g)
         else if length c = 0 \<or> length c > CONFIG_PORTAL_CREDENTIAL_MAX_LEN then (CONFIG_ERR_PARAM_NULL, g)
         else if length (cp_users g) > 0 then
           (case session of
              None \<Rightarrow> (CONFIG_ERR_NOT_AUTHORIZED,
                portal_note md g AUDIT_AUTH_FAILURE 0 0 (cstr ''Add user denied: no session (post-bootstrap)''))
            | Some s \<Rightarrow>
                if se_role s \<noteq> ROLE_ADMIN then (CONFIG_ERR_NOT_AUTHORIZED,
                  portal_note md g AUDIT_SAFETY_LOCKED_REJECTED (se_session_id s) 0 (cstr ''Add user denied: not admin''))
                else
                  let session_result = config_portal_validate_session g session current_ms
                  in if session_result \<noteq> CONFIG_OK then (session_result, g) else add_account md g n c role)
         else add_account md g n c role
     | _ \<Rightarrow> (CONFIG_ERR_PARAM_NULL, g))"

definition config_portal_remove_user ::
  "md_hmac \<Rightarrow> 'st config_portal \<Rightarrow> ConfigSession_t option \<Rightarrow> bytes option \<Rightarrow> u64 \<Rightarrow> ConfigPortalResult_t \<times> 'st config_portal"
where
  "config_portal_remove_user md g session username current_ms =
    (case (session, username) of
       (Some s, Some n) \<Rightarrow>
         if \<not> cp_initialised g then (CONFIG_ERR_NOT_INIT, g)
         else if se_role s \<noteq> ROLE_ADMIN then (CONFIG_ERR_NOT_AUTHORIZED,
           portal_note md g AUDIT_SAFETY_LOCKED_REJECTED (se_session_id s) 0 (cstr ''Remove user denied: not admin''))
         else
           let session_result = config_portal_validate_session g session current_ms
           in if session_result \<noteq> CONFIG_OK then (session_result, g)
              else (case find_user (cp_users g) n of
                 None \<Rightarrow> (CONFIG_ERR_USER_NOT_FOUND, g)
               | Some idx \<Rightarrow>
                   if ua_role (cp_users g ! idx) = ROLE_ADMIN \<and> count_active_admins (cp_users g) \<le> 1
                   then (CONFIG_ERR_LAST_ADMIN,
                     portal_note md g AUDIT_SAFETY_LOCKED_REJECTED (se_session_id s) 0 (cstr ''Remove user denied: last admin''))
                   else
                     let user = (cp_users g ! idx)\<lparr>ua_active := False, ua_credential_hash := replicate CONFIG_PORTAL_HASH_SIZE 0\<rparr>;
                         g = persist_users (g\<lparr>cp_users := (cp_users g)[idx := user]\<rparr>)
                     in (CONFIG_OK, portal_note md g AUDIT_CONFIG_WRITE (se_session_id s) 0 (cstr ''User account removed'')))
     | _ \<Rightarrow> (CONFIG_ERR_PARAM_NULL, g))"

definition config_portal_change_role ::
  "md_hmac \<Rightarrow> 'st config_portal \<Rightarrow> ConfigSession_t option \<Rightarrow> bytes option \<Rightarrow> UserRole_t \<Rightarrow> u64 \<Rightarrow> ConfigPortalResult_t \<times> 'st config_portal"
where
  "config_portal_change_role md g session username new_role current_ms =
    (case (session, username) of
       (Some s, Some n) \<Rightarrow>
         if \<not> cp_initialised g then (CONFIG_ERR_NOT_INIT, g)
         else if se_role s \<noteq> ROLE_ADMIN then (CONFIG_ERR_NOT_AUTHORIZED,
           portal_note md g AUDIT_SAFETY_LOCKED_REJECTED (se_session_id s) 0 (cstr ''Role change denied: not admin''))
         else
           let session_result = config_portal_validate_session g session current_ms
           in if session_result \<noteq> CONFIG_OK then (session_result, g)
              else (case find_user (cp_users g) n of
                 None \<Rightarrow> (CONFIG_ERR_USER_NOT_FOUND, g)
               | Some idx \<Rightarrow>
                   if ua_role (cp_users g ! idx) = ROLE_ADMIN \<and> new_role \<noteq> ROLE_ADMIN \<and> count_active_admins (cp_users g) \<le> 1
                   then (CONFIG_ERR_LAST_ADMIN,
                     portal_note md g AUDIT_SAFETY_LOCKED_REJECTED (se_session_id s) 0
                       (cstr ''Role change denied: last admin cannot be demoted''))
                   else
                     let user = (cp_users g ! idx)\<lparr>ua_role := new_role\<rparr>;
                         g = persist_users (g\<lparr>cp_users := (cp_users g)[idx := user]\<rparr>)
                     in (CONFIG_OK, portal_note md g AUDIT_CONFIG_WRITE (se_session_id s) 0 (cstr ''User role changed'')))
     | _ \<Rightarrow> (CONFIG_ERR_PARAM_NULL, g))"

definition new_session :: "UserAccount_t \<Rightarrow> nat \<Rightarrow> u8 \<Rightarrow> u64 \<Rightarrow> ConfigSession_t" where
  "new_session user idx sid current_ms =
    \<lparr>se_session_token = map (\<lambda>i. ucast (ucast sid * 31 + word_of_nat i * 17 + current_ms)) [0..<CONFIG_PORTAL_SESSION_TOKEN_SIZE],
     se_session_id = sid, se_last_active_ms = current_ms, se_active = True, se_user_index = word_of_nat idx,
     se_role = ua_role user,
     se_username = (let n = take 15 (takeWhile (\<lambda>b. b \<noteq> 0) (ua_username user)) in n @ replicate (16 - length n) 0)\<rparr>"

definition config_portal_authenticate ::
  "md_hmac \<Rightarrow> 'st config_portal \<Rightarrow> bytes option \<Rightarrow> bytes option \<Rightarrow> u64 \<Rightarrow>
   ConfigPortalResult_t \<times> ConfigSession_t option \<times> 'st config_portal"
where
  "config_portal_authenticate md g username credential current_ms =
    (case (username, credential) of
       (Some n, Some c) \<Rightarrow>
         if \<not> cp_initialised g then (CONFIG_ERR_NOT_INIT, None, g)
         else (case find_user (cp_users g) n of
            None \<Rightarrow> (CONFIG_ERR_AUTH_FAILED, None, portal_note md g AUDIT_AUTH_FAILURE 0 0 (cstr ''Username not found''))
          | Some idx \<Rightarrow>
              if ct_diff (hash_credential md c) (ua_credential_hash (cp_users g ! idx)) \<noteq> 0
              then (CONFIG_ERR_AUTH_FAILED, None, portal_note md g AUDIT_AUTH_FAILURE 0 0 (cstr ''Credential authentication failed''))
              else (case find_index (\<lambda>s. \<not> se_active s) (cp_sessions g) of
                 None \<Rightarrow> (CONFIG_ERR_INTERNAL, None, portal_note md g AUDIT_AUTH_FAILURE 0 0 (cstr ''No free session slots''))
               | Some i \<Rightarrow>
                   let session = new_session (cp_users g ! idx) idx (cp_next_session_id g) current_ms;
                       g = g\<lparr>cp_sessions := (cp_sessions g)[i := session], cp_next_session_id := cp_next_session_id g + 1\<rparr>;
                       g = portal_note md g AUDIT_SESSION_CREATED (se_session_id session) 0 (cstr ''Session created'');
                       g = portal_note md g AUDIT_AUTH_SUCCESS (se_session_id session) 0 n
                   in (CONFIG_OK, Some session, g)))
     | _ \<Rightarrow> (CONFIG_ERR_PARAM_NULL, None, g))"

definition config_portal_write ::
  "md_hmac \<Rightarrow> 'st config_portal \<Rightarrow> ConfigSession_t option \<Rightarrow> ConfigWriteRequest_t option \<Rightarrow> u64 \<Rightarrow> ConfigPortalResult_t \<times> 'st config_portal"
where
  "config_portal_write md g session request current_ms =
    (case (session, request) of
       (Some s, Some r) \<Rightarrow>
         if \<not> cp_initialised g then (CONFIG_ERR_NOT_INIT, g)
         else
           let session_result = config_portal_validate_session g session current_ms
           in if session_result \<noteq> CONFIG_OK then (session_result, g)
              else (CONFIG_OK, portal_note md g AUDIT_CONFIG_WRITE (se_session_id s) (cw_rule_id r) (cstr ''Config write accepted''))
     | _ \<Rightarrow> (CONFIG_ERR_PARAM_NULL, g))"

definition config_portal_reject_safety_locked ::
  "md_hmac \<Rightarrow> 'st config_portal \<Rightarrow> ConfigSession_t option \<Rightarrow> u16 \<Rightarrow> u64 \<Rightarrow> ConfigPortalResult_t \<times> 'st config_portal"
where
  "config_portal_reject_safety_locked md g session rule_id current_ms =
    (case session of
       None \<Rightarrow> (CONFIG_ERR_PARAM_NULL, g)
     | Some s \<Rightarrow>
         if \<not> cp_initialised g then (CONFIG_ERR_NOT_INIT, g)
         else
           let session_result = config_portal_validate_session g session current_ms
           in if session_result \<noteq> CONFIG_OK then (session_result, g)
              else (CONFIG_ERR_SAFETY_LOCKED, portal_note md g AUDIT_SAFETY_LOCKED_REJECTED (se_session_id s) rule_id
                     (cstr ''Write rejected: SAFETY_LOCKED rule is immutable from field'')))"

text \<open>Logging out works on the caller's copy of the session.\<close>

definition config_portal_logout ::
  "md_hmac \<Rightarrow> 'st config_portal \<Rightarrow> ConfigSession_t option \<Rightarrow> ConfigSession_t option \<times> 'st config_portal"
where
  "config_portal_logout md g session =
    (case session of
       None \<Rightarrow> (None, g)
     | Some s \<Rightarrow>
         if se_active s
         then (Some (s\<lparr>se_active := False, se_session_token := replicate CONFIG_PORTAL_SESSION_TOKEN_SIZE 0\<rparr>),
               portal_note md g AUDIT_SESSION_EXPIRED (se_session_id s) 0 (cstr ''Session logged out''))
         else (Some s, g))"

definition config_portal_get_audit_log :: "'st config_portal \<Rightarrow> u8 \<Rightarrow> u8 \<times> AuditLogEntry_t list" where
  "config_portal_get_audit_log g max_entries = audit_log_get_entries (fst (cp_audit g)) max_entries"

definition config_portal_get_auth_failure_count :: "'st config_portal \<Rightarrow> u32" where
  "config_portal_get_auth_failure_count g = audit_log_get_auth_failure_count (fst (cp_audit g))"

section \<open>Runs\<close>

text \<open>
  Every call of the portal's interface after its start, with any session a caller may present.  \<open>config_portal_init\<close> is the
  start: it empties the tables and loads the accounts from the storage.
\<close>

inductive portal_step :: "md_hmac \<Rightarrow> 'st config_portal \<Rightarrow> 'st config_portal \<Rightarrow> bool" for md where
  add: "portal_step md g (snd (config_portal_add_user md g s n c r t))"
| remove: "portal_step md g (snd (config_portal_remove_user md g s n t))"
| change: "portal_step md g (snd (config_portal_change_role md g s n r t))"
| login: "portal_step md g (snd (snd (config_portal_authenticate md g n c t)))"
| config: "portal_step md g (snd (config_portal_write md g s q t))"
| reject: "portal_step md g (snd (config_portal_reject_safety_locked md g s i t))"
| logout: "portal_step md g (snd (config_portal_logout md g s))"
| storage: "portal_step md g (config_portal_set_storage g st)"

lemma portal_note_fields [simp]:
  "cp_users (portal_note md g ev sid rid d) = cp_users g"
  "cp_sessions (portal_note md g ev sid rid d) = cp_sessions g"
  "cp_initialised (portal_note md g ev sid rid d) = cp_initialised g"
  by (simp_all add: portal_note_def)

lemma persist_users_fields [simp]:
  "cp_users (persist_users g) = cp_users g"
  "cp_sessions (persist_users g) = cp_sessions g"
  "cp_initialised (persist_users g) = cp_initialised g"
  by (simp_all add: persist_users_def split: option.splits)

lemma admins_update:
  assumes "i < length us"
  shows "count_active_admins (us[i := u]) + (if ua_active (us ! i) \<and> ua_role (us ! i) = ROLE_ADMIN then 1 else 0)
       = count_active_admins us + (if ua_active u \<and> ua_role u = ROLE_ADMIN then 1 else 0)"
proof -
  obtain xs ys where us: "us = xs @ us ! i # ys" and i: "length xs = i"
    using that[of "take i us" "drop (Suc i) us"] id_take_nth_drop[OF assms] assms by simp
  have "us[i := u] = xs @ u # ys" by (subst us) (simp add: i list_update_append)
  then show ?thesis by (subst (3) us) (simp add: count_active_admins_def)
qed

lemma admins_append: "count_active_admins us \<le> count_active_admins (us @ [u])"
  by (simp add: count_active_admins_def)

lemma find_user_SomeD: "find_user us n = Some i \<Longrightarrow> i < length us \<and> ua_active (us ! i)"
  unfolding find_user_def by (drule find_index_SomeD) (simp add: user_match_def)

lemma add_account_admins:
  "count_active_admins (cp_users g) \<le> count_active_admins (cp_users (snd (add_account md g n c r)))"
proof (cases "find_index (\<lambda>u. \<not> ua_active u) (cp_users g)")
  case None
  then show ?thesis by (simp add: add_account_def Let_def admins_append)
next
  case (Some i)
  then have i: "i < length (cp_users g)" "\<not> ua_active (cp_users g ! i)" using find_index_SomeD by blast+
  then show ?thesis using Some admins_update[OF i(1), of "new_account md n c r"]
    by (simp add: add_account_def Let_def split: if_splits)
qed

lemma remove_keeps_admin:
  assumes "0 < count_active_admins (cp_users g)"
  shows "0 < count_active_admins (cp_users (snd (config_portal_remove_user md g s n t)))"
proof (cases "cp_users (snd (config_portal_remove_user md g s n t)) = cp_users g")
  case False
  then obtain m i where i: "find_user (cp_users g) m = Some i"
      "\<not> (ua_role (cp_users g ! i) = ROLE_ADMIN \<and> count_active_admins (cp_users g) \<le> 1)"
    and u: "cp_users (snd (config_portal_remove_user md g s n t)) = (cp_users g)[i :=
      (cp_users g ! i)\<lparr>ua_active := False, ua_credential_hash := replicate CONFIG_PORTAL_HASH_SIZE 0\<rparr>]"
    by (auto simp: config_portal_remove_user_def Let_def split: option.splits if_splits)
  note d = find_user_SomeD[OF i(1)]
  from admins_update[OF conjunct1[OF d], of "(cp_users g ! i)\<lparr>ua_active := False, ua_credential_hash := replicate CONFIG_PORTAL_HASH_SIZE 0\<rparr>"]
  show ?thesis unfolding u using i(2) d assms by (simp split: if_splits)
qed (use assms in simp)

lemma change_keeps_admin:
  assumes "0 < count_active_admins (cp_users g)"
  shows "0 < count_active_admins (cp_users (snd (config_portal_change_role md g s n r t)))"
proof (cases "cp_users (snd (config_portal_change_role md g s n r t)) = cp_users g")
  case False
  then obtain m i where i: "find_user (cp_users g) m = Some i"
      "\<not> (ua_role (cp_users g ! i) = ROLE_ADMIN \<and> r \<noteq> ROLE_ADMIN \<and> count_active_admins (cp_users g) \<le> 1)"
    and u: "cp_users (snd (config_portal_change_role md g s n r t)) = (cp_users g)[i := (cp_users g ! i)\<lparr>ua_role := r\<rparr>]"
    by (auto simp: config_portal_change_role_def Let_def split: option.splits if_splits)
  note d = find_user_SomeD[OF i(1)]
  from admins_update[OF conjunct1[OF d], of "(cp_users g ! i)\<lparr>ua_role := r\<rparr>"]
  show ?thesis unfolding u using i(2) d assms by (simp split: if_splits)
qed (use assms in simp)

lemma add_user_users:
  "cp_users (snd (config_portal_add_user md g s n c r t)) = cp_users g \<or>
   (\<exists>m k. n = Some m \<and> c = Some k \<and> config_portal_add_user md g s n c r t = add_account md g m k r
     \<and> (cp_users g = [] \<or> (\<exists>a. s = Some a \<and> se_role a = ROLE_ADMIN \<and> config_portal_validate_session g s t = CONFIG_OK)))"
  by (auto simp: config_portal_add_user_def Let_def split: option.splits if_splits)

lemma quiet_steps [simp]:
  "cp_users (snd (snd (config_portal_authenticate md g n c t))) = cp_users g"
  "cp_users (snd (config_portal_write md g s q t)) = cp_users g"
  "cp_users (snd (config_portal_reject_safety_locked md g s i t)) = cp_users g"
  "cp_users (snd (config_portal_logout md g s)) = cp_users g"
  "cp_users (config_portal_set_storage g st) = cp_users g"
  by (simp_all add: config_portal_authenticate_def config_portal_write_def config_portal_reject_safety_locked_def
      config_portal_set_storage_def config_portal_logout_def Let_def split: option.splits)

definition has_admin :: "'st config_portal \<Rightarrow> bool" where
  "has_admin g \<longleftrightarrow> 0 < count_active_admins (cp_users g)"

lemma portal_step_has_admin: "has_admin g \<Longrightarrow> portal_step md g g' \<Longrightarrow> has_admin g'"
proof (unfold has_admin_def, erule portal_step.cases, goal_cases)
  case (1 g s n c r t)
  then show ?case using add_user_users[of md g s n c r t] add_account_admins[of g md] by (metis order_less_le_trans)
qed (simp_all add: remove_keeps_admin change_keeps_admin)

interpretation portal_sys: invariant_system has_admin "portal_step md" has_admin
  by unfold_locales (auto intro: portal_step_has_admin)

definition sessions_full :: "'st config_portal \<Rightarrow> bool" where
  "sessions_full g \<longleftrightarrow> (\<forall>s \<in> set (cp_sessions g). se_active s)"

lemma sessions_kept:
  "cp_sessions (snd (config_portal_add_user md g s n c r t)) = cp_sessions g"
  "cp_sessions (snd (config_portal_remove_user md g s n t)) = cp_sessions g"
  "cp_sessions (snd (config_portal_change_role md g s n r t)) = cp_sessions g"
  "cp_sessions (snd (config_portal_write md g s q t)) = cp_sessions g"
  "cp_sessions (snd (config_portal_reject_safety_locked md g s i t)) = cp_sessions g"
  "cp_sessions (snd (config_portal_logout md g s)) = cp_sessions g"
  "cp_sessions (config_portal_set_storage g st) = cp_sessions g"
  by (simp_all add: config_portal_set_storage_def config_portal_add_user_def add_account_def config_portal_remove_user_def config_portal_change_role_def
      config_portal_write_def config_portal_reject_safety_locked_def config_portal_logout_def Let_def split: option.splits)

lemma full_no_login:
  assumes "sessions_full g"
  shows "fst (config_portal_authenticate md g n c t) \<noteq> CONFIG_OK"
    and "cp_sessions (snd (snd (config_portal_authenticate md g n c t))) = cp_sessions g"
proof -
  have "find_index (\<lambda>s. \<not> se_active s) (cp_sessions g) = None"
    using assms by (simp add: find_index_None_iff sessions_full_def)
  then show "fst (config_portal_authenticate md g n c t) \<noteq> CONFIG_OK"
    "cp_sessions (snd (snd (config_portal_authenticate md g n c t))) = cp_sessions g"
    by (simp_all add: config_portal_authenticate_def split: option.splits)
qed

lemma portal_step_full: "sessions_full g \<Longrightarrow> portal_step md g g' \<Longrightarrow> sessions_full g'"
  by (erule portal_step.cases) (simp_all add: sessions_full_def sessions_kept full_no_login(2)[unfolded sessions_full_def])

interpretation session_sys: invariant_system sessions_full "portal_step md" sessions_full
  by unfold_locales (auto intro: portal_step_full)

section \<open>Properties\<close>

text \<open>
  C24.  The last administrator is never lost: from a portal with an active administrator, whatever calls
  follow with whatever session data, an active administrator exists; the three account calls change the accounts only when
  they present an administrator session that is active and not idle too long, and no other call changes them.
\<close>

theorem portal_keeps_admin:
  assumes "0 < count_active_admins (cp_users g)" and "(portal_step md)\<^sup>*\<^sup>* g g'"
  shows "0 < count_active_admins (cp_users g')
    \<and> (\<forall>s n c r t. cp_users (snd (config_portal_add_user md g' s n c r t)) \<noteq> cp_users g'
          \<or> cp_users (snd (config_portal_remove_user md g' s n t)) \<noteq> cp_users g'
          \<or> cp_users (snd (config_portal_change_role md g' s n r t)) \<noteq> cp_users g'
        \<longrightarrow> (\<exists>a. s = Some a \<and> se_role a = ROLE_ADMIN \<and> se_active a
              \<and> t - se_last_active_ms a \<le> CONFIG_PORTAL_IDLE_TIMEOUT_MS))
    \<and> (\<forall>n c t. cp_users (snd (snd (config_portal_authenticate md g' n c t))) = cp_users g')
    \<and> (\<forall>s q t. cp_users (snd (config_portal_write md g' s q t)) = cp_users g')
    \<and> (\<forall>s i t. cp_users (snd (config_portal_reject_safety_locked md g' s i t)) = cp_users g')
    \<and> (\<forall>s. cp_users (snd (config_portal_logout md g' s)) = cp_users g')
    \<and> (\<forall>st. cp_users (config_portal_set_storage g' st) = cp_users g')"
proof -
  have adm: "has_admin g'" using portal_sys.steps_inv[OF assms(2)] assms(1) by (simp add: has_admin_def)
  then have ne: "cp_users g' \<noteq> []" by (auto simp: has_admin_def count_active_admins_def)
  have v: "config_portal_validate_session g' (Some a) t = CONFIG_OK \<Longrightarrow>
      se_active a \<and> t - se_last_active_ms a \<le> CONFIG_PORTAL_IDLE_TIMEOUT_MS" for a t
    by (simp add: config_portal_validate_session_def split: if_splits)
  have "cp_users (snd (config_portal_remove_user md g' s n t)) \<noteq> cp_users g'
          \<or> cp_users (snd (config_portal_change_role md g' s n r t)) \<noteq> cp_users g'
        \<Longrightarrow> \<exists>a. s = Some a \<and> se_role a = ROLE_ADMIN \<and> config_portal_validate_session g' (Some a) t = CONFIG_OK" for s n r t
    by (auto simp: config_portal_remove_user_def config_portal_change_role_def Let_def split: option.splits if_splits)
  then have "\<forall>s n c r t. cp_users (snd (config_portal_add_user md g' s n c r t)) \<noteq> cp_users g'
          \<or> cp_users (snd (config_portal_remove_user md g' s n t)) \<noteq> cp_users g'
          \<or> cp_users (snd (config_portal_change_role md g' s n r t)) \<noteq> cp_users g'
        \<longrightarrow> (\<exists>a. s = Some a \<and> se_role a = ROLE_ADMIN \<and> se_active a
              \<and> t - se_last_active_ms a \<le> CONFIG_PORTAL_IDLE_TIMEOUT_MS)"
    using add_user_users[of md g'] ne v by metis
  with adm show ?thesis unfolding has_admin_def quiet_steps by blast
qed

definition demo_portal :: "UserAccount_t list \<Rightarrow> unit config_portal" where
  "demo_portal us = \<lparr>cp_users = us, cp_initialised = True, cp_sessions = replicate CONFIG_PORTAL_MAX_SESSIONS session_zero,
     cp_next_session_id = 1, cp_storage = None, cp_backend = (), cp_audit = (demo_audit, demo_time)\<rparr>"

definition demo_admin :: UserAccount_t where
  "demo_admin = \<lparr>ua_username = cstr ''root'' @ replicate 12 0, ua_credential_hash = replicate 32 1, ua_role = ROLE_ADMIN, ua_active = True\<rparr>"

definition demo_session :: ConfigSession_t where
  "demo_session = session_zero\<lparr>se_active := True, se_role := ROLE_ADMIN, se_session_id := 1\<rparr>"

theorem portal_keeps_admin_witness:
  "0 < count_active_admins (cp_users (snd (config_portal_change_role demo_md (demo_portal [demo_admin])
      (Some demo_session) (Some (cstr ''root'')) ROLE_TECHNICIAN 5)))"
proof -
  have "0 < count_active_admins (cp_users (demo_portal [demo_admin]))"
    by (simp add: count_active_admins_def demo_portal_def demo_admin_def)
  moreover have "(portal_step demo_md)\<^sup>*\<^sup>* (demo_portal [demo_admin]) (snd (config_portal_change_role demo_md (demo_portal [demo_admin])
      (Some demo_session) (Some (cstr ''root'')) ROLE_TECHNICIAN 5))"
    by (rule r_into_rtranclp) (rule portal_step.change)
  ultimately show ?thesis using portal_keeps_admin by blast
qed

lemma array_strlen_pad: "0 \<notin> set n \<Longrightarrow> length n < m \<Longrightarrow> array_strlen (n @ replicate (m - length n) 0) = length n"
proof -
  assume "0 \<notin> set n" "length n < m"
  then have "takeWhile (\<lambda>b. b \<noteq> 0) (n @ replicate (m - length n) 0) = n"
    by (subst takeWhile_append2) (auto simp: takeWhile_eq_Nil_iff hd_replicate)
  then show ?thesis by (simp add: array_strlen_def)
qed

lemma find_index_update:
  assumes "find_index P xs = None" and "i < length xs" and "P x"
  shows "find_index P (xs[i := x]) = Some i"
proof (rule find_index_SomeI)
  show "\<forall>j < length (xs[i := x]). P (xs[i := x] ! j) \<longrightarrow> j = i"
    using assms(1,2) unfolding find_index_None_iff by (metis length_list_update nth_list_update_neq nth_mem)
qed (use assms in auto)

lemma find_index_snoc: "find_index P xs = None \<Longrightarrow> P x \<Longrightarrow> find_index P (xs @ [x]) = Some (length xs)"
  by (induction xs) (auto split: if_splits)

lemma add_account_found:
  assumes "fst (add_account md g n c r) = CONFIG_OK" and "0 \<notin> set n" and "length n < CONFIG_PORTAL_USERNAME_MAX_LEN"
  obtains i where "find_user (cp_users (snd (add_account md g n c r))) n = Some i"
    "cp_users (snd (add_account md g n c r)) ! i = new_account md n c r"
    "cp_initialised (snd (add_account md g n c r)) = cp_initialised g"
    "cp_sessions (snd (add_account md g n c r)) = cp_sessions g"
proof -
  have none: "find_index (user_match n) (cp_users g) = None"
    using assms(1) by (auto simp: add_account_def find_user_def split: if_splits)
  have m: "user_match n (new_account md n c r)"
    using array_strlen_pad[OF assms(2,3)] by (simp add: user_match_def new_account_def)
  show thesis
  proof (cases "find_index (\<lambda>u. \<not> ua_active u) (cp_users g)")
    case None
    then show thesis using that[of "length (cp_users g)"] none assms(1) find_index_snoc[OF none m]
      by (auto simp: add_account_def find_user_def Let_def split: if_splits)
  next
    case (Some i)
    then have "i < length (cp_users g)" using find_index_SomeD by blast
    then show thesis using that[of i] none Some find_index_update[OF none _ m, of i]
      by (auto simp: add_account_def find_user_def Let_def)
  qed
qed

text \<open>
  An account that was added can be logged into: after a successful addition of a name without a zero
  byte, with a free session slot, its credential opens a session that carries the account's role, and a
  credential with another hash does not.
\<close>

theorem portal_add_login:
  assumes "md_hmac_ok md" and "\<exists>s \<in> set (cp_sessions g). \<not> se_active s" and "0 \<notin> set n"
    and "config_portal_add_user md g s (Some n) (Some c) r t = (CONFIG_OK, g')"
  shows "(\<exists>sess g''. config_portal_authenticate md g' (Some n) (Some c) t' = (CONFIG_OK, Some sess, g'')
        \<and> se_role sess = r \<and> se_active sess \<and> sess \<in> set (cp_sessions g''))
    \<and> (hash_credential md c' \<noteq> hash_credential md c \<longrightarrow>
        fst (config_portal_authenticate md g' (Some n) (Some c') t') = CONFIG_ERR_AUTH_FAILED)"
proof -
  have acc: "add_account md g n c r = (CONFIG_OK, g')" and len: "length n < CONFIG_PORTAL_USERNAME_MAX_LEN"
    and init: "cp_initialised g"
    using assms(4) by (auto simp: config_portal_add_user_def Let_def split: if_splits option.splits)
  from add_account_found[of md g n c r] acc assms(3) len obtain i where
    i: "find_user (cp_users g') n = Some i" "cp_users g' ! i = new_account md n c r"
    and g': "cp_initialised g'" "cp_sessions g' = cp_sessions g" using init by auto
  have "find_index (\<lambda>s. \<not> se_active s) (cp_sessions g') \<noteq> None"
    using assms(2) g'(2) by (auto simp: find_index_None_iff)
  then obtain j where j: "find_index (\<lambda>s. \<not> se_active s) (cp_sessions g') = Some j" "j < length (cp_sessions g')"
    using find_index_SomeD by fastforce
  have h: "length (hash_credential md c) = length (hash_credential md c')"
    using assms(1) by (simp add: hash_credential_def iot_hmac_sha256_def md_hmac_ok_def split: option.splits)
  show ?thesis using i g'(1) j h
    by (auto simp: config_portal_authenticate_def new_account_def Let_def ct_diff_eq_0_iff new_session_def set_update_memI)
qed

theorem portal_add_login_witness:
  "fst (config_portal_authenticate demo_md (snd (config_portal_add_user demo_md (demo_portal []) None (Some [65, 66])
      (Some [1, 2]) ROLE_ADMIN 5)) (Some [65, 66]) (Some [1, 2]) 9) = CONFIG_OK
   \<and> fst (config_portal_authenticate demo_md (snd (config_portal_add_user demo_md (demo_portal []) None (Some [65, 66])
      (Some [1, 2]) ROLE_ADMIN 5)) (Some [65, 66]) (Some [1, 3]) 9) = CONFIG_ERR_AUTH_FAILED"
proof -
  let ?g = "snd (config_portal_add_user demo_md (demo_portal []) None (Some [65, 66]) (Some [1, 2]) ROLE_ADMIN 5)"
  have s: "\<exists>s \<in> set (cp_sessions (demo_portal [])). \<not> se_active s"
    by (simp add: demo_portal_def session_zero_def CONFIG_PORTAL_MAX_SESSIONS_def)
  have z: "(0 :: u8) \<notin> set [65, 66]" by simp
  have a: "config_portal_add_user demo_md (demo_portal []) None (Some [65, 66]) (Some [1, 2]) ROLE_ADMIN 5 = (CONFIG_OK, ?g)"
    by (simp add: config_portal_add_user_def add_account_def demo_portal_def find_user_def Let_def
        CONFIG_PORTAL_USERNAME_MAX_LEN_def CONFIG_PORTAL_CREDENTIAL_MAX_LEN_def CONFIG_PORTAL_MAX_USERS_def)
  have "hash_credential demo_md [1, 3] \<noteq> hash_credential demo_md [1, 2]"
    by (simp add: hash_credential_def iot_hmac_sha256_def demo_md_def credential_salt_def cstr_def)
  then show ?thesis using portal_add_login[OF demo_md_ok s z a, of 9 "[1, 3]"] by auto
qed

text \<open>
  Session slots are never given back: once all four are taken, no sequence of calls, logging out
  included, makes a later login succeed.
\<close>

theorem portal_sessions_exhausted:
  assumes "\<forall>s \<in> set (cp_sessions g). se_active s" and "(portal_step md)\<^sup>*\<^sup>* g g'"
  shows "fst (config_portal_authenticate md g' n c t) \<noteq> CONFIG_OK"
  using full_no_login(1)[OF session_sys.steps_inv[OF assms(2)]] assms(1) by (simp add: sessions_full_def)

definition demo_full :: "unit config_portal" where
  "demo_full = (demo_portal [demo_admin])\<lparr>cp_sessions := replicate CONFIG_PORTAL_MAX_SESSIONS demo_session\<rparr>"

theorem portal_sessions_exhausted_witness:
  "fst (config_portal_authenticate demo_md (snd (config_portal_logout demo_md demo_full (Some demo_session)))
      (Some (cstr ''root'')) (Some [1, 2]) 9) \<noteq> CONFIG_OK"
proof -
  have "\<forall>s \<in> set (cp_sessions demo_full). se_active s" by (simp add: demo_full_def demo_session_def)
  moreover have "(portal_step demo_md)\<^sup>*\<^sup>* demo_full (snd (config_portal_logout demo_md demo_full (Some demo_session)))"
    by (rule r_into_rtranclp) (rule portal_step.logout)
  ultimately show ?thesis by (rule portal_sessions_exhausted)
qed

lemma login_session:
  "config_portal_authenticate md g n c t = (CONFIG_OK, Some sess, g') \<Longrightarrow>
     se_active sess \<and> se_last_active_ms sess = t \<and> cp_initialised g'"
  by (auto simp: config_portal_authenticate_def new_session_def Let_def split: option.splits if_splits)

lemma remove_ok:
  "config_portal_remove_user md g s (Some n) t = (CONFIG_OK, g') \<Longrightarrow>
     cp_initialised g' \<and> (\<exists>i. i < length (cp_users g') \<and> \<not> ua_active (cp_users g' ! i))"
  by (auto simp: config_portal_remove_user_def Let_def nth_list_update dest!: find_user_SomeD split: option.splits if_splits)

text \<open>
  A session outlives its account: after another administrator has removed the account an
  administrator session was opened with, that session, used within the idle timeout, still adds a new
  administrator account.
\<close>

theorem removed_admin_adds_admin:
  assumes "config_portal_authenticate md g n c t = (CONFIG_OK, Some sess, g1)" and "se_role sess = ROLE_ADMIN"
    and "config_portal_remove_user md g1 (Some other) n t1 = (CONFIG_OK, g2)"
    and "t2 - t \<le> CONFIG_PORTAL_IDLE_TIMEOUT_MS" and "find_user (cp_users g2) m = None"
    and "0 < length m" "length m < CONFIG_PORTAL_USERNAME_MAX_LEN"
    and "0 < length k" "length k \<le> CONFIG_PORTAL_CREDENTIAL_MAX_LEN"
  shows "\<exists>g3. config_portal_add_user md g2 (Some sess) (Some m) (Some k) ROLE_ADMIN t2 = (CONFIG_OK, g3)
    \<and> new_account md m k ROLE_ADMIN \<in> set (cp_users g3)"
proof -
  note s = login_session[OF assms(1)]
  from assms(1) obtain n' where n: "n = Some n'"
    by (auto simp: config_portal_authenticate_def split: option.splits)
  note r = remove_ok[OF assms(3)[unfolded n]]
  then have "find_index (\<lambda>u. \<not> ua_active u) (cp_users g2) \<noteq> None" unfolding find_index_None_iff by force
  then obtain i where i: "find_index (\<lambda>u. \<not> ua_active u) (cp_users g2) = Some i" "i < length (cp_users g2)"
    using find_index_SomeD by fastforce
  have "config_portal_validate_session g2 (Some sess) t2 = CONFIG_OK"
    using s r assms(4) by (simp add: config_portal_validate_session_def)
  then have "config_portal_add_user md g2 (Some sess) (Some m) (Some k) ROLE_ADMIN t2 = add_account md g2 m k ROLE_ADMIN"
    using r assms by (auto simp: config_portal_add_user_def)
  then show ?thesis using i assms(5) by (auto simp: add_account_def Let_def set_update_memI)
qed

definition demo_tech :: "u8 \<Rightarrow> UserAccount_t" where
  "demo_tech x = \<lparr>ua_username = x # replicate 15 0, ua_credential_hash = hash_credential demo_md [x], ua_role = ROLE_ADMIN, ua_active = True\<rparr>"

lemma user_match_demo_tech: "user_match [y] (demo_tech x) \<longleftrightarrow> x = y \<and> x \<noteq> 0"
  by (auto simp: user_match_def demo_tech_def array_strlen_def)

theorem removed_admin_adds_admin_witness:
  "\<exists>sess g1 g2 g3. config_portal_authenticate demo_md (demo_portal [demo_tech 65, demo_tech 66]) (Some [65]) (Some [65]) 10
        = (CONFIG_OK, Some sess, g1)
    \<and> config_portal_remove_user demo_md g1 (Some demo_session) (Some [65]) 20 = (CONFIG_OK, g2)
    \<and> config_portal_add_user demo_md g2 (Some sess) (Some [67]) (Some [1]) ROLE_ADMIN 30 = (CONFIG_OK, g3)"
proof -
  let ?g = "demo_portal [demo_tech 65, demo_tech 66]"
  obtain r so g1 where a: "config_portal_authenticate demo_md ?g (Some [65]) (Some [65]) 10 = (r, so, g1)"
    using prod_cases3 by blast
  have fi: "find_index (\<lambda>s. \<not> se_active s) (cp_sessions ?g) = Some 0"
    by (simp add: demo_portal_def CONFIG_PORTAL_MAX_SESSIONS_def numeral_eq_Suc session_zero_def)
  have fu: "find_user (cp_users ?g) [65] = Some 0" "cp_users ?g ! 0 = demo_tech 65" "cp_initialised ?g"
    by (simp_all add: demo_portal_def find_user_def user_match_demo_tech)
  have "r = CONFIG_OK \<and> (\<exists>sess. so = Some sess \<and> se_role sess = ROLE_ADMIN) \<and> cp_users g1 = cp_users ?g \<and> cp_initialised g1"
    using a fi fu by (auto simp: config_portal_authenticate_def Let_def new_session_def demo_tech_def)
  then obtain sess where a: "config_portal_authenticate demo_md ?g (Some [65]) (Some [65]) 10 = (CONFIG_OK, Some sess, g1)"
    and s: "se_role sess = ROLE_ADMIN" and g1: "cp_users g1 = [demo_tech 65, demo_tech 66]" "cp_initialised g1"
    using a by (auto simp: demo_portal_def)
  obtain r g2 where r: "config_portal_remove_user demo_md g1 (Some demo_session) (Some [65]) 20 = (r, g2)" by fastforce
  have "find_user (cp_users g1) [65] = Some 0" by (simp add: g1 find_user_def user_match_demo_tech)
  then have "r = CONFIG_OK \<and> cp_users g2 = [(demo_tech 65)\<lparr>ua_active := False, ua_credential_hash := replicate 32 0\<rparr>, demo_tech 66]"
    using r g1 by (auto simp: config_portal_remove_user_def config_portal_validate_session_def demo_session_def session_zero_def Let_def
        CONFIG_PORTAL_IDLE_TIMEOUT_MS_def count_active_admins_def CONFIG_PORTAL_HASH_SIZE_def demo_tech_def)
  then have r: "config_portal_remove_user demo_md g1 (Some demo_session) (Some [65]) 20 = (CONFIG_OK, g2)"
    and g2: "cp_users g2 = [(demo_tech 65)\<lparr>ua_active := False, ua_credential_hash := replicate 32 0\<rparr>, demo_tech 66]"
    using r by auto
  have f: "find_user (cp_users g2) [67] = None"
    by (simp add: g2 find_user_def user_match_demo_tech) (simp add: user_match_def)
  have t: "(30 :: u64) - 10 \<le> CONFIG_PORTAL_IDLE_TIMEOUT_MS" by (simp add: CONFIG_PORTAL_IDLE_TIMEOUT_MS_def)
  from removed_admin_adds_admin[OF a s r t f, of "[1]"] a r show ?thesis
    by (auto simp: CONFIG_PORTAL_USERNAME_MAX_LEN_def CONFIG_PORTAL_CREDENTIAL_MAX_LEN_def)
qed

text \<open>
  A configuration write is accepted from any active session, of either role and for any rule, a
  safety-locked one included, and changes nothing but the audit log.
\<close>

theorem portal_write_unchecked:
  assumes "cp_initialised g" and "se_active s" and "t - se_last_active_ms s \<le> CONFIG_PORTAL_IDLE_TIMEOUT_MS"
  shows "config_portal_write md g (Some s) (Some q) t = (CONFIG_OK, g\<lparr>cp_audit :=
      audit_note md (cp_audit g) AUDIT_CONFIG_WRITE (se_session_id s) (cw_rule_id q) (cstr ''Config write accepted'')\<rparr>)"
  using assms by (auto simp: config_portal_write_def config_portal_validate_session_def portal_note_def)

theorem portal_write_unchecked_witness:
  "fst (config_portal_write demo_md (demo_portal []) (Some (demo_session\<lparr>se_role := ROLE_TECHNICIAN\<rparr>))
     (Some \<lparr>cw_rule_id = 1, cw_new_threshold = 0, cw_new_action_type = 0, cw_new_actuator_id = 0\<rparr>) 5) = CONFIG_OK"
  using portal_write_unchecked[of "demo_portal []" "demo_session\<lparr>se_role := ROLE_TECHNICIAN\<rparr>" 5 demo_md
    "\<lparr>cw_rule_id = 1, cw_new_threshold = 0, cw_new_action_type = 0, cw_new_actuator_id = 0\<rparr>"]
  by (auto simp: demo_portal_def demo_session_def session_zero_def CONFIG_PORTAL_IDLE_TIMEOUT_MS_def)

end
