(* ===== verification/Digest_Stream.thy ===== *)
theory Digest_Stream
  imports Iot_Prelude
begin

text \<open>
  The part that the digests of the vendored library share (\<open>sha256.c\<close>, \<open>sha512.c\<close>, \<open>sha1.c\<close>, \<open>md5.c\<close>, \<open>ripemd160.c\<close> repeat
  it with their own constants): a context with a two-word byte count, the chaining value and a buffer; the update function
  that fills the buffer and processes whole blocks; the padding of the finish function.  The locale \<open>block_digest\<close>
  states what a digest has to provide, a processing function that computes a compression function, and proves
  once that feeding a message in pieces gives the chained blocks of the padded message.
\<close>

section \<open>Code\<close>

record 'v digest_ctx =
  dg_total0 :: 'v
  dg_total1 :: 'v
  dg_state :: "'v list"
  dg_buffer :: bytes

text \<open>\<open>memcpy(buffer + off, xs, n)\<close>.\<close>

definition buf_put :: "bytes \<Rightarrow> nat \<Rightarrow> bytes \<Rightarrow> bytes" where
  "buf_put buf off xs = take off buf @ xs @ drop (off + length xs) buf"

text \<open>The loop over whole blocks of the input: the context and the bytes left over.\<close>

function digest_blocks :: "nat \<Rightarrow> ('c \<Rightarrow> bytes \<Rightarrow> 'c) \<Rightarrow> 'c \<Rightarrow> bytes \<Rightarrow> 'c \<times> bytes" where
  "digest_blocks blk process ctx input =
    (if 0 < blk \<and> length input \<ge> blk then digest_blocks blk process (process ctx (take blk input)) (drop blk input)
     else (ctx, input))"
  by pat_completeness auto
termination
  by (relation "measure (\<lambda>(_, _, _, input). length input)") auto

definition digest_update ::
  "nat \<Rightarrow> (('w :: len word, 'm) digest_ctx_scheme \<Rightarrow> bytes \<Rightarrow> ('w word, 'm) digest_ctx_scheme) \<Rightarrow> ('w word, 'm) digest_ctx_scheme \<Rightarrow> bytes \<Rightarrow> ('w word, 'm) digest_ctx_scheme" where
  "digest_update blk process ctx input =
    (if length input = 0 then ctx
     else
       let ilen = word_of_nat (length input) :: 'w word;
           left = unat (dg_total0 ctx AND word_of_nat (blk - 1));
           fill = blk - left;
           ctx = ctx\<lparr>dg_total0 := dg_total0 ctx + ilen\<rparr>;
           ctx = (if dg_total0 ctx < ilen then ctx\<lparr>dg_total1 := dg_total1 ctx + 1\<rparr> else ctx);
           (ctx, input, left) =
             (if left \<noteq> 0 \<and> length input \<ge> fill
              then let ctx = ctx\<lparr>dg_buffer := buf_put (dg_buffer ctx) left (take fill input)\<rparr>
                   in (process ctx (dg_buffer ctx), drop fill input, 0)
              else (ctx, input, left));
           (ctx, input) = digest_blocks blk process ctx input
       in if length input > 0 then ctx\<lparr>dg_buffer := buf_put (dg_buffer ctx) left input\<rparr> else ctx)"

text \<open>
  The finish function up to the last processed block: \<open>lim\<close> is where the length field starts, \<open>put_len\<close> writes its high
  and low words.
\<close>

definition digest_finish ::
  "nat \<Rightarrow> nat \<Rightarrow> ('w :: len word \<Rightarrow> 'w word \<Rightarrow> bytes) \<Rightarrow> (('w word, 'm) digest_ctx_scheme \<Rightarrow> bytes \<Rightarrow> ('w word, 'm) digest_ctx_scheme)
     \<Rightarrow> ('w word, 'm) digest_ctx_scheme \<Rightarrow> ('w word, 'm) digest_ctx_scheme" where
  "digest_finish blk lim put_len process ctx =
    (let used = unat (dg_total0 ctx AND word_of_nat (blk - 1));
         ctx = ctx\<lparr>dg_buffer := (dg_buffer ctx)[used := 0x80]\<rparr>;
         used = used + 1;
         ctx = (if used \<le> lim then ctx\<lparr>dg_buffer := buf_put (dg_buffer ctx) used (replicate (lim - used) 0)\<rparr>
                else
                  let ctx = ctx\<lparr>dg_buffer := buf_put (dg_buffer ctx) used (replicate (blk - used) 0)\<rparr>;
                      ctx = process ctx (dg_buffer ctx)
                  in ctx\<lparr>dg_buffer := buf_put (dg_buffer ctx) 0 (replicate lim 0)\<rparr>);
         high = drop_bit (LENGTH('w) - 3) (dg_total0 ctx) OR push_bit 3 (dg_total1 ctx);
         low = push_bit 3 (dg_total0 ctx);
         ctx = ctx\<lparr>dg_buffer := buf_put (dg_buffer ctx) lim (put_len high low)\<rparr>
     in process ctx (dg_buffer ctx))"

section \<open>Reference\<close>

text \<open>The chaining value after the whole blocks of a message, and the bytes behind them.\<close>

function chain_blocks :: "nat \<Rightarrow> ('h \<Rightarrow> bytes \<Rightarrow> 'h) \<Rightarrow> 'h \<Rightarrow> bytes \<Rightarrow> 'h" where
  "chain_blocks blk compress h m =
    (if 0 < blk \<and> length m \<ge> blk then chain_blocks blk compress (compress h (take blk m)) (drop blk m) else h)"
  by pat_completeness auto
termination
  by (relation "measure (\<lambda>(_, _, _, m). length m)") auto

definition block_tail :: "nat \<Rightarrow> bytes \<Rightarrow> bytes" where
  "block_tail blk m = drop (length m - length m mod blk) m"

text \<open>Padding: a one bit, zeros up to the length field, and the number of bits in two words.\<close>

definition digest_padding :: "nat \<Rightarrow> nat \<Rightarrow> ('w :: len word \<Rightarrow> 'w word \<Rightarrow> bytes) \<Rightarrow> bytes \<Rightarrow> bytes" where
  "digest_padding blk lim put_len m = 0x80 # replicate ((blk + lim - 1 - length m mod blk) mod blk) 0
     @ put_len (word_of_nat (8 * length m div 2 ^ LENGTH('w))) (word_of_nat (8 * length m))"

declare chain_blocks.simps [simp del] digest_blocks.simps [simp del]

lemma length_block_tail [simp]: "length (block_tail blk m) = length m mod blk"
  by (simp add: block_tail_def)

lemma block_tail_Nil: "block_tail blk m = [] \<longleftrightarrow> length m mod blk = 0"
  by (metis length_0_conv length_block_tail)

lemma chain_short: "length m < blk \<Longrightarrow> chain_blocks blk f h m = h"
  by (subst chain_blocks.simps) simp

lemma chain_block: "length b = blk \<Longrightarrow> 0 < blk \<Longrightarrow> chain_blocks blk f h (b @ m) = chain_blocks blk f (f h b) m"
  by (subst chain_blocks.simps) simp

lemma block_tail_block: "length b = blk \<Longrightarrow> block_tail blk (b @ m) = block_tail blk m"
proof -
  assume b: "length b = blk"
  have "blk \<le> blk + length m - length m mod blk" using mod_less_eq_dividend[of "length m" blk] by linarith
  then show ?thesis using b by (simp add: block_tail_def)
qed

lemma block_tail_short: "length m < blk \<Longrightarrow> block_tail blk m = m"
  by (simp add: block_tail_def)

lemma chain_append:
  "0 < blk \<Longrightarrow> chain_blocks blk f h (m @ xs) = chain_blocks blk f (chain_blocks blk f h m) (block_tail blk m @ xs)
     \<and> block_tail blk (m @ xs) = block_tail blk (block_tail blk m @ xs)"
proof (induction blk f h m rule: chain_blocks.induct)
  case (1 blk f h m)
  show ?case
  proof (cases "length m \<ge> blk")
    case True
    then have b: "length (take blk m) = blk" and m: "take blk m @ drop blk m = m" by simp_all
    have "chain_blocks blk f h (take blk m @ drop blk m @ xs) =
        chain_blocks blk f (chain_blocks blk f h (take blk m @ drop blk m)) (block_tail blk (take blk m @ drop blk m) @ xs)"
      "block_tail blk (take blk m @ drop blk m @ xs) = block_tail blk (block_tail blk (take blk m @ drop blk m) @ xs)"
      unfolding chain_block[OF b \<open>0 < blk\<close>] block_tail_block[OF b] using 1 True by simp_all
    then show ?thesis unfolding append_assoc[symmetric] m by simp
  next
    case False
    then show ?thesis by (simp add: chain_short block_tail_short)
  qed
qed

lemma length_chain: "(\<And>h b. length h = n \<Longrightarrow> length (f h b) = n) \<Longrightarrow> length h = n \<Longrightarrow> length (chain_blocks blk f h m) = n"
  by (induction blk f h m rule: chain_blocks.induct) (subst chain_blocks.simps, simp)

lemma take_buf_put: "off \<le> length buf \<Longrightarrow> n = off + length xs \<Longrightarrow> take n (buf_put buf off xs) = take off buf @ xs"
  by (simp add: buf_put_def)

lemma length_buf_put [simp]: "off + length xs \<le> length buf \<Longrightarrow> length (buf_put buf off xs) = length buf"
  by (simp add: buf_put_def)

section \<open>Counting bytes in two words\<close>

lemma and_low_bits:
  assumes "k \<le> LENGTH('w)"
  shows "unat (w AND word_of_nat (2 ^ k - 1)) = unat (w :: 'w :: len word) mod 2 ^ k"
proof -
  have "(word_of_nat (2 ^ k - 1) :: 'w word) = mask k" by (simp add: mask_eq_exp_minus_1)
  then have "w AND word_of_nat (2 ^ k - 1) = take_bit k w" by (simp only: take_bit_eq_mask)
  then show ?thesis by (simp only: unsigned_take_bit_eq) (simp add: take_bit_eq_mod)
qed

lemma word_of_nat_mod: "k \<le> LENGTH('w :: len) \<Longrightarrow> unat (word_of_nat n :: 'w word) mod 2 ^ k = n mod 2 ^ k"
  by (simp add: unsigned_of_nat take_bit_eq_mod mod_mod_cancel le_imp_power_dvd)

lemma total_step:
  assumes "n < 2 ^ LENGTH('w :: len)"
  shows "(word_of_nat l + word_of_nat n < (word_of_nat n :: 'w word)) \<longleftrightarrow> (l + n) div 2 ^ LENGTH('w) \<noteq> l div 2 ^ LENGTH('w)"
    and "(l + n) div 2 ^ LENGTH('w) = l div 2 ^ LENGTH('w) \<or> (l + n) div 2 ^ LENGTH('w) = Suc (l div 2 ^ LENGTH('w))"
proof -
  define B :: nat where "B = 2 ^ LENGTH('w)"
  have B: "0 < B" by (simp add: B_def)
  let ?r = "l mod B"
  have d: "(l + n) div B = l div B + (?r + n) div B"
    using assms by (subst div_add1_eq) (simp add: B_def)
  have r: "?r < B" using B by simp
  have n: "n < B" using assms by (simp add: B_def)
  have small: "?r + n - B < B" using r n by linarith
  then have q: "(?r + n) div B = (if ?r + n < B then 0 else 1)" by (auto simp: le_div_geq[OF B])
  have u: "unat (word_of_nat l + word_of_nat n :: 'w word) = (?r + n) mod B" "unat (word_of_nat n :: 'w word) = n"
    using assms by (simp_all add: B_def unat_word_ariths unsigned_of_nat take_bit_eq_mod take_bit_nat_eq_self mod_add_eq)
  have m: "(?r + n) mod B = (if ?r + n < B then ?r + n else ?r + n - B)"
    using small by (simp add: le_mod_geq)
  show "(word_of_nat l + word_of_nat n < (word_of_nat n :: 'w word)) \<longleftrightarrow> (l + n) div 2 ^ LENGTH('w) \<noteq> l div 2 ^ LENGTH('w)"
    "(l + n) div 2 ^ LENGTH('w) = l div 2 ^ LENGTH('w) \<or> (l + n) div 2 ^ LENGTH('w) = Suc (l div 2 ^ LENGTH('w))"
    unfolding word_less_nat_alt B_def[symmetric] d u q m using r by auto
qed

lemma bit_word_of_nat: "bit (word_of_nat n :: 'w :: len word) i \<longleftrightarrow> i < LENGTH('w) \<and> bit n i"
  by transfer (simp add: bit_take_bit_iff bit_of_nat_iff_bit)

text \<open>The words that the finish functions compute from the two totals are those of the number of bits.\<close>

lemma length_words:
  assumes "3 \<le> LENGTH('w :: len)"
  shows "drop_bit (LENGTH('w) - 3) (word_of_nat n) OR push_bit 3 (word_of_nat (n div 2 ^ LENGTH('w))) = (word_of_nat (8 * n div 2 ^ LENGTH('w)) :: 'w word)"
    and "push_bit 3 (word_of_nat n) = (word_of_nat (8 * n) :: 'w word)"
proof -
  have e: "8 * n = push_bit 3 n" by (simp add: push_bit_eq_mult)
  have d: "m div 2 ^ LENGTH('w) = drop_bit LENGTH('w) m" for m :: nat by (simp add: drop_bit_eq_div)
  show "drop_bit (LENGTH('w) - 3) (word_of_nat n) OR push_bit 3 (word_of_nat (n div 2 ^ LENGTH('w))) = (word_of_nat (8 * n div 2 ^ LENGTH('w)) :: 'w word)"
    unfolding e d using assms by (intro bit_word_eqI) (auto simp: bit_simps bit_word_of_nat bit_push_bit_iff_nat bit_drop_bit_eq)
  show "push_bit 3 (word_of_nat n) = (word_of_nat (8 * n) :: 'w word)"
    unfolding e by (rule bit_word_eqI) (auto simp: bit_simps bit_word_of_nat bit_push_bit_iff_nat)
qed

section \<open>Words in memory, rotations\<close>

text \<open>The macros of \<open>common.h\<close> that read a word, and the two ways to write the length field.\<close>

definition get_uint32_be :: "bytes \<Rightarrow> nat \<Rightarrow> u32" where
  "get_uint32_be d i = push_bit 24 (ucast (d ! i)) OR push_bit 16 (ucast (d ! (i + 1)))
     OR push_bit 8 (ucast (d ! (i + 2))) OR ucast (d ! (i + 3))"

definition put_len_be32 :: "u32 \<Rightarrow> u32 \<Rightarrow> bytes" where
  "put_len_be32 high low = be_bytes32 high @ be_bytes32 low"

definition put_len_le32 :: "u32 \<Rightarrow> u32 \<Rightarrow> bytes" where
  "put_len_le32 high low = le_bytes32 low @ le_bytes32 high"

text \<open>The macro \<open>S\<close> of \<open>sha1.c\<close>, \<open>md5.c\<close> and \<open>ripemd160.c\<close>.\<close>

definition shift_S :: "u32 \<Rightarrow> nat \<Rightarrow> u32" where
  "shift_S x n = push_bit n x OR drop_bit (32 - n) (x AND 0xFFFFFFFF)"

text \<open>
  The macro calls of \<open>sha1.c\<close> and \<open>ripemd160.c\<close> pass five registers, rotated by one position more in every step: argument
  \<open>j\<close> of step \<open>t\<close> is register \<open>(j - t) mod 5\<close>.
\<close>

definition reg5 :: "nat \<Rightarrow> nat \<Rightarrow> nat" where
  "reg5 t j = (j + 5 - t mod 5) mod 5"

definition view5 :: "u32 list \<Rightarrow> nat \<Rightarrow> u32 list" where
  "view5 A t = map (\<lambda>j. A ! reg5 t j) [0..<5]"

lemma view5_turn: "length A = 5 \<Longrightarrow> t mod 5 = 0 \<Longrightarrow> view5 A t = A"
  by (auto simp: view5_def reg5_def intro: nth_equalityI)

lemma length_put_len32 [simp]: "length (put_len_be32 h l) = 8" "length (put_len_le32 h l) = 8"
  by (simp_all add: put_len_be32_def put_len_le32_def)

lemma length_be_words [simp]: "length (concat (map be_bytes32 ws)) = 4 * length ws"
  by (induction ws) simp_all

lemma length_le_words [simp]: "length (concat (map le_bytes32 ws)) = 4 * length ws"
  by (induction ws) simp_all

text \<open>The macro \<open>ROTR\<close> is the rotation of the standard.\<close>

lemma rotate_by_shifts:
  assumes "n < LENGTH('w :: len)"
  shows "drop_bit n x OR push_bit (LENGTH('w) - n) x = (word_rotr n x :: 'w word)"
proof (rule bit_word_eqI)
  fix j assume j: "j < LENGTH('w)"
  have r: "bit (word_rotr n x) j \<longleftrightarrow> bit x ((j + n) mod LENGTH('w))" using j by (simp add: bit_word_rotr_iff)
  have l: "bit (drop_bit n x OR push_bit (LENGTH('w) - n) x) j \<longleftrightarrow> bit x (n + j) \<or> LENGTH('w) - n \<le> j \<and> bit x (j - (LENGTH('w) - n))"
    using j by (auto simp: bit_simps)
  show "bit (drop_bit n x OR push_bit (LENGTH('w) - n) x) j = bit (word_rotr n x) j"
  proof (cases "j + n < LENGTH('w)")
    case True
    then have "\<not> LENGTH('w) - n \<le> j" by linarith
    then show ?thesis using r l True by (simp add: add.commute)
  next
    case False
    then have "(j + n) mod LENGTH('w) = j - (LENGTH('w) - n)" "\<not> bit x (n + j)"
      using j assms by (simp_all add: mod_if) (auto dest: bit_imp_le_length)
    moreover have "LENGTH('w) - n \<le> j" using False by linarith
    ultimately show ?thesis using r l by simp
  qed
qed

lemma shift_S_rotl: "0 < n \<Longrightarrow> n < 32 \<Longrightarrow> shift_S x n = word_rotl n x"
proof -
  assume n: "0 < n" "n < 32"
  have m: "(0xFFFFFFFF :: u32) = - 1" by simp
  have "drop_bit (32 - n) x OR push_bit n x = word_rotr (32 - n) x" using rotate_by_shifts[of "32 - n" x] n by simp
  then show ?thesis using n unfolding shift_S_def m by (simp add: word_rotl_eq_word_rotr or.commute)
qed

section \<open>The interface of a digest\<close>

locale block_digest =
  fixes process :: "('w :: len word, 'm) digest_ctx_scheme \<Rightarrow> bytes \<Rightarrow> ('w word, 'm) digest_ctx_scheme"
    and compress :: "'w word list \<Rightarrow> bytes \<Rightarrow> 'w word list"
    and blk lim nw k :: nat
    and put_len :: "'w word \<Rightarrow> 'w word \<Rightarrow> bytes"
  assumes process_compress: "length (dg_state ctx) = nw \<Longrightarrow> process ctx data = ctx\<lparr>dg_state := compress (dg_state ctx) data\<rparr>"
    and length_compress: "length h = nw \<Longrightarrow> length (compress h b) = nw"
    and blk: "blk = 2 ^ k" and k: "k \<le> LENGTH('w)" and w: "3 \<le> LENGTH('w)"
    and lim: "0 < lim" "lim < blk" and length_put_len: "length (put_len hi lo) = blk - lim"
begin

lemma blk_pos: "0 < blk"
  using lim by simp

lemma blocks_eq:
  "length (dg_state ctx) = nw \<Longrightarrow> digest_blocks blk process ctx xs = (ctx\<lparr>dg_state := chain_blocks blk compress (dg_state ctx) xs\<rparr>, block_tail blk xs)"
proof (induction xs arbitrary: ctx rule: length_induct)
  case (1 xs)
  show ?case
  proof (cases "length xs \<ge> blk")
    case True
    then have b: "length (take blk xs) = blk" and xs: "take blk xs @ drop blk xs = xs" by simp_all
    have "digest_blocks blk process ctx xs =
        (ctx\<lparr>dg_state := chain_blocks blk compress (dg_state ctx) (take blk xs @ drop blk xs)\<rparr>, block_tail blk (take blk xs @ drop blk xs))"
      unfolding chain_block[OF b blk_pos] block_tail_block[OF b] using 1 True blk_pos
      by (subst digest_blocks.simps) (simp add: process_compress length_compress)
    then show ?thesis unfolding xs .
  next
    case False
    then show ?thesis by (subst digest_blocks.simps) (simp add: chain_short block_tail_short)
  qed
qed

text \<open>The context after the message \<open>m\<close> was fed in, from the initial value \<open>H\<close>.\<close>

definition digest_rel :: "'w word list \<Rightarrow> ('w word, 'm) digest_ctx_scheme \<Rightarrow> bytes \<Rightarrow> bool" where
  "digest_rel H ctx m \<longleftrightarrow> length H = nw \<and> dg_state ctx = chain_blocks blk compress H m \<and> length (dg_buffer ctx) = blk
     \<and> take (length m mod blk) (dg_buffer ctx) = block_tail blk m
     \<and> dg_total0 ctx = word_of_nat (length m) \<and> dg_total1 ctx = word_of_nat (length m div 2 ^ LENGTH('w))"

lemma used_bytes: "digest_rel H ctx m \<Longrightarrow> unat (dg_total0 ctx AND word_of_nat (blk - 1)) = length m mod blk"
  using and_low_bits[OF k, of "word_of_nat (length m)"] word_of_nat_mod[OF k, of "length m"] unfolding blk[symmetric]
  by (simp add: digest_rel_def)

lemma update_state:
  assumes "length (dg_state ctx) = nw" and "length (dg_buffer ctx) = blk" and "unat (dg_total0 ctx AND word_of_nat (blk - 1)) = length w" and "length w < blk"
    and "take (length w) (dg_buffer ctx) = w"
  shows "\<exists>buf. digest_update blk process ctx xs = ctx\<lparr>dg_state := chain_blocks blk compress (dg_state ctx) (w @ xs), dg_buffer := buf,
      dg_total0 := dg_total0 ctx + word_of_nat (length xs),
      dg_total1 := (if xs \<noteq> [] \<and> dg_total0 ctx + word_of_nat (length xs) < word_of_nat (length xs) then dg_total1 ctx + 1 else dg_total1 ctx)\<rparr>
    \<and> length buf = blk \<and> take (length (w @ xs) mod blk) buf = block_tail blk (w @ xs)"
proof (cases "xs = []")
  case True
  then show ?thesis using assms by (intro exI[of _ "dg_buffer ctx"]) (simp add: digest_update_def chain_short block_tail_short)
next
  case ne: False
  show ?thesis
  proof (cases "w \<noteq> [] \<and> length xs \<ge> blk - length w")
    case True
    then obtain b r where xs: "xs = b @ r" and lb: "length b = blk - length w"
      by (metis append_take_drop_id length_take min.absorb2)
    have b: "length (w @ b) = blk" using lb assms(4) by simp
    have p: "buf_put (dg_buffer ctx) (length w) b = w @ b" using assms(2,4,5) lb by (simp add: buf_put_def)
    have q: "take (length r mod blk) (buf_put (w @ b) 0 (block_tail blk r)) = block_tail blk r" "length (buf_put (w @ b) 0 (block_tail blk r)) = blk"
      using b mod_less_divisor[OF blk_pos, of "length r"] by (simp_all add: buf_put_def)
    have m: "length (w @ xs) mod blk = length r mod blk" using b by (simp add: xs add.assoc[symmetric])
    have "chain_blocks blk compress h (w @ xs) = chain_blocks blk compress (compress h (w @ b)) r" "block_tail blk (w @ xs) = block_tail blk r" for h
      using chain_block[OF b blk_pos, of _ _ r] block_tail_block[OF b, of r] by (simp_all add: xs)
    then show ?thesis unfolding m using assms(1,3,4) ne True lb p q b
      by (intro exI[of _ "if length r mod blk = 0 then w @ b else buf_put (w @ b) 0 (block_tail blk r)"])
        (auto simp: digest_update_def Let_def process_compress blocks_eq length_compress xs block_tail_Nil)
  next
    case False
    show ?thesis
    proof (cases "w = []")
      case True
      have "length xs mod blk \<le> blk" using mod_less_divisor[OF blk_pos, of "length xs"] by linarith
      then have "take (length xs mod blk) (buf_put (dg_buffer ctx) 0 (block_tail blk xs)) = block_tail blk xs"
        "length (buf_put (dg_buffer ctx) 0 (block_tail blk xs)) = blk" using assms(2) by (simp_all add: take_buf_put)
      then show ?thesis using True ne assms(1,2,3) block_tail_Nil[of blk xs]
        by (intro exI[of _ "if length xs mod blk = 0 then dg_buffer ctx else buf_put (dg_buffer ctx) 0 (block_tail blk xs)"])
          (auto simp: digest_update_def Let_def blocks_eq)
    next
      case False
      then have nf: "\<not> blk - length w \<le> length xs" using \<open>\<not> (w \<noteq> [] \<and> _)\<close> by simp
      then have "length (w @ xs) < blk" by simp
      moreover have "take (length w + length xs) (buf_put (dg_buffer ctx) (length w) xs) = w @ xs"
        using assms(2,4,5) by (simp add: take_buf_put)
      ultimately show ?thesis using ne assms False nf
        by (intro exI[of _ "buf_put (dg_buffer ctx) (length w) xs"])
          (auto simp: digest_update_def Let_def blocks_eq chain_short block_tail_short)
    qed
  qed
qed

lemma rel_update:
  assumes "digest_rel H ctx m" and "length xs < 2 ^ LENGTH('w)"
  shows "digest_rel H (digest_update blk process ctx xs) (m @ xs)
    \<and> digest_ctx.more (digest_update blk process ctx xs) = digest_ctx.more ctx"
proof -
  have u: "unat (dg_total0 ctx AND word_of_nat (blk - 1)) = length (block_tail blk m)" using used_bytes[OF assms(1)] by simp
  have t: "take (length (block_tail blk m)) (dg_buffer ctx) = block_tail blk m" using assms(1) by (simp add: digest_rel_def)
  have s: "length (dg_state ctx) = nw" using assms(1) length_chain[of nw compress H blk m] length_compress by (simp add: digest_rel_def)
  have b: "length (dg_buffer ctx) = blk" "length (block_tail blk m) < blk" using assms(1) blk_pos by (simp_all add: digest_rel_def)
  let ?T = "word_of_nat (length m div 2 ^ LENGTH('w)) :: 'w word"
  have tot: "(if xs \<noteq> [] \<and> word_of_nat (length m) + word_of_nat (length xs) < (word_of_nat (length xs) :: 'w word) then ?T + 1 else ?T) =
      word_of_nat (length (m @ xs) div 2 ^ LENGTH('w))"
    using total_step[OF assms(2), of "length m"] by (cases "xs = []") auto
  have l: "length (block_tail blk m @ xs) mod blk = length (m @ xs) mod blk" by (simp add: mod_simps)
  from update_state[OF s b(1) u b(2) t, of xs, unfolded l] show ?thesis
    using assms(1) tot chain_append[OF blk_pos, of compress H m xs] by (auto simp: digest_rel_def)
qed

lemma rel_updates:
  "digest_rel H ctx m \<Longrightarrow> \<forall>p \<in> set ps. length p < 2 ^ LENGTH('w) \<Longrightarrow>
    digest_rel H (foldl (digest_update blk process) ctx ps) (m @ concat ps)
    \<and> digest_ctx.more (foldl (digest_update blk process) ctx ps) = digest_ctx.more ctx"
proof (induction ps arbitrary: ctx m)
  case (Cons p ps)
  then show ?case using rel_update[of H ctx m p] Cons.IH[of "digest_update blk process ctx p" "m @ p"] by auto
qed simp

lemma rel_start:
  "length (dg_state ctx) = nw \<Longrightarrow> length (dg_buffer ctx) = blk \<Longrightarrow> dg_total0 ctx = 0 \<Longrightarrow> dg_total1 ctx = 0 \<Longrightarrow> digest_rel (dg_state ctx) ctx []"
  using blk_pos by (simp add: digest_rel_def chain_short block_tail_def)

lemma finish_spec:
  assumes "digest_rel H ctx m"
  shows "\<exists>buf. digest_finish blk lim put_len process ctx =
      ctx\<lparr>dg_state := chain_blocks blk compress H (m @ digest_padding blk lim put_len m), dg_buffer := buf\<rparr> \<and> length buf = blk"
proof -
  let ?w = "block_tail blk m" and ?u = "length m mod blk"
  let ?L = "put_len (word_of_nat (8 * length m div 2 ^ LENGTH('w))) (word_of_nat (8 * length m))"
  have H: "length (dg_buffer ctx) = blk" "take ?u (dg_buffer ctx) = ?w" "dg_state ctx = chain_blocks blk compress H m"
    using assms by (simp_all add: digest_rel_def)
  have s: "length (dg_state ctx) = nw" using assms length_chain[of nw compress H blk m] length_compress by (simp add: digest_rel_def)
  note u = used_bytes[OF assms]
  have ub: "?u < blk" using blk_pos by simp
  have L: "put_len (drop_bit (LENGTH('w) - 3) (dg_total0 ctx) OR push_bit 3 (dg_total1 ctx)) (push_bit 3 (dg_total0 ctx)) = ?L"
    using assms length_words[OF w, of "length m"] by (simp add: digest_rel_def)
  have pad: "chain_blocks blk compress H (m @ xs) = chain_blocks blk compress (dg_state ctx) (?w @ xs)" for xs
    using chain_append[OF blk_pos, of compress H m xs] H(3) by simp
  have b80: "take (Suc ?u) ((dg_buffer ctx)[?u := 0x80]) = ?w @ [0x80]"
    using H(1,2) ub by (simp add: take_Suc_conv_app_nth)
  show ?thesis
  proof (cases "Suc ?u \<le> lim")
    case True
    let ?b = "?w @ 0x80 # replicate (lim - Suc ?u) 0 @ ?L"
    have z: "(blk + lim - Suc ?u) mod blk = lim - Suc ?u"
    proof -
      have "blk + lim - Suc ?u = (lim - Suc ?u) + blk" "lim - Suc ?u < blk" using True lim by simp_all
      then show ?thesis by (simp only: mod_add_self2 mod_less)
    qed
    have p: "?w @ digest_padding blk lim put_len m = ?b" and l: "length ?b = blk"
      using True lim by (auto simp: digest_padding_def z length_put_len)
    have "buf_put (buf_put ((dg_buffer ctx)[?u := 0x80]) (Suc ?u) (replicate (lim - Suc ?u) 0)) lim ?L = ?b"
      using True H(1) b80 lim Suc_diff_Suc[of ?u lim] by (simp add: buf_put_def length_put_len flip: Suc_diff_Suc)
    then have "digest_finish blk lim put_len process ctx = ctx\<lparr>dg_state := compress (dg_state ctx) ?b, dg_buffer := ?b\<rparr>"
      using u L True by (simp add: digest_finish_def Let_def process_compress s)
    then show ?thesis using l chain_block[OF l blk_pos, of compress _ "[]"] blk_pos unfolding pad p
      by (intro exI[of _ ?b]) (simp add: chain_short)
  next
    case False
    let ?b = "?w @ 0x80 # replicate (blk - Suc ?u) 0" and ?c = "replicate lim 0 @ ?L"
    have z: "(blk + lim - Suc ?u) mod blk = (blk - Suc ?u) + lim"
      using False ub by (subst mod_less) (use lim in linarith)+
    have r: "replicate ((blk + lim - Suc ?u) mod blk) (0 :: u8) = replicate (blk - Suc ?u) 0 @ replicate lim 0"
      by (simp only: z replicate_add)
    have ub': "?u + (blk - Suc ?u) = blk - 1" using ub by linarith
    have p: "?w @ digest_padding blk lim put_len m = ?b @ ?c" and l: "length ?b = blk" "length ?c = blk"
      using ub' blk_pos lim by (auto simp: digest_padding_def r length_put_len)
    have b: "buf_put ((dg_buffer ctx)[?u := 0x80]) (Suc ?u) (replicate (blk - Suc ?u) 0) = ?b"
      using H(1) ub b80 by (simp add: buf_put_def)
    have c: "buf_put (buf_put ?b 0 (replicate lim 0)) lim ?L = ?c"
      using l(1) lim by (simp add: buf_put_def length_put_len)
    have "digest_finish blk lim put_len process ctx = ctx\<lparr>dg_state := compress (compress (dg_state ctx) ?b) ?c, dg_buffer := ?c\<rparr>"
      using u L False b c by (simp add: digest_finish_def Let_def process_compress length_compress s)
    then show ?thesis using l chain_block[OF l(1) blk_pos, of compress _ ?c] chain_block[OF l(2) blk_pos, of compress _ "[]"] blk_pos unfolding pad p
      by (intro exI[of _ ?c]) (simp add: chain_short)
  qed
qed

text \<open>The chaining value keeps its length, whatever is fed in.\<close>

lemma update_length: "length (dg_state ctx) = nw \<Longrightarrow> length (dg_state (digest_update blk process ctx xs)) = nw"
  by (simp add: digest_update_def Let_def process_compress length_compress blocks_eq length_chain)

lemma finish_length: "length (dg_state ctx) = nw \<Longrightarrow> length (dg_state (digest_finish blk lim put_len process ctx)) = nw"
  by (simp add: digest_finish_def Let_def process_compress length_compress)

lemma update_more: "length (dg_state ctx) = nw \<Longrightarrow> digest_ctx.more (digest_update blk process ctx xs) = digest_ctx.more ctx"
  by (simp add: digest_update_def Let_def process_compress length_compress blocks_eq)

lemma finish_more: "length (dg_state ctx) = nw \<Longrightarrow> digest_ctx.more (digest_finish blk lim put_len process ctx) = digest_ctx.more ctx"
  by (simp add: digest_finish_def Let_def process_compress length_compress)

text \<open>A message fed in pieces of any size.\<close>

lemma stream_correct:
  assumes "length (dg_state ctx) = nw" and "length (dg_buffer ctx) = blk" and "dg_total0 ctx = 0" and "dg_total1 ctx = 0"
    and "\<forall>p \<in> set ps. length p < 2 ^ LENGTH('w)"
  shows "dg_state (digest_finish blk lim put_len process (foldl (digest_update blk process) ctx ps)) =
      chain_blocks blk compress (dg_state ctx) (concat ps @ digest_padding blk lim put_len (concat ps))"
    and "digest_ctx.more (digest_finish blk lim put_len process (foldl (digest_update blk process) ctx ps)) = digest_ctx.more ctx"
  using rel_updates[OF rel_start[OF assms(1-4)] assms(5)] finish_spec[of "dg_state ctx" "foldl (digest_update blk process) ctx ps" "concat ps"]
  by auto

end

end
