(* ===== verification/Sha2_Rounds.thy ===== *)
theory Sha2_Rounds
  imports Digest_Stream
begin

text \<open>
  What SHA-256 and SHA-512 share, over words of either width: the macros \<open>F0\<close>, \<open>F1\<close> and \<open>P\<close> of \<open>sha256.c\<close> and \<open>sha512.c\<close> with
  their rotating registers, and the step of the standard that moves eight working variables.
\<close>

section \<open>Code\<close>

definition F0 :: "'w :: len word \<Rightarrow> 'w word \<Rightarrow> 'w word \<Rightarrow> 'w word" where "F0 x y z = (x AND y) OR (z AND (x OR y))"
definition F1 :: "'w :: len word \<Rightarrow> 'w word \<Rightarrow> 'w word \<Rightarrow> 'w word" where "F1 x y z = z XOR (x AND (y XOR z))"

text \<open>
  The macro \<open>P\<close> in round \<open>t\<close>: the code passes the eight registers rotated by one position more in every
  round, so that the register named \<open>j\<close> in the macro is \<open>A[(j - t) mod 8]\<close>.
\<close>

definition reg :: "nat \<Rightarrow> nat \<Rightarrow> nat" where
  "reg t j = (j + 8 - t mod 8) mod 8"

definition sha_P :: "('w :: len word \<Rightarrow> 'w word) \<Rightarrow> ('w word \<Rightarrow> 'w word) \<Rightarrow> 'w word list \<Rightarrow> nat \<Rightarrow> 'w word \<Rightarrow> 'w word \<Rightarrow> 'w word list" where
  "sha_P S2 S3 A t x k =
    (let v = (\<lambda>j. A ! reg t j);
         temp1 = v 7 + S3 (v 4) + F1 (v 4) (v 5) (v 6) + k + x;
         temp2 = S2 (v 0) + F0 (v 0) (v 1) (v 2)
     in A[reg t 3 := v 3 + temp1, reg t 7 := temp1 + temp2])"

section \<open>Reference: the standard\<close>

definition Ch :: "'w :: len word \<Rightarrow> 'w word \<Rightarrow> 'w word \<Rightarrow> 'w word" where "Ch x y z = (x AND y) XOR (NOT x AND z)"
definition Maj :: "'w :: len word \<Rightarrow> 'w word \<Rightarrow> 'w word \<Rightarrow> 'w word" where "Maj x y z = (x AND y) XOR (x AND z) XOR (y AND z)"

fun sha_step :: "('w :: len word \<Rightarrow> 'w word) \<Rightarrow> ('w word \<Rightarrow> 'w word) \<Rightarrow> 'w word list \<Rightarrow> 'w word \<times> 'w word \<Rightarrow> 'w word list" where
  "sha_step bsig0 bsig1 [a, b, c, d, e, f, g, h] (k, w) =
    (let T1 = h + bsig1 e + Ch e f g + k + w; T2 = bsig0 a + Maj a b c in [T1 + T2, a, b, c, d + T1, e, f, g])"
| "sha_step bsig0 bsig1 v kw = v"

section \<open>The step\<close>

lemma choice_eq: "F1 = Ch" "F0 = Maj"
  by (intro ext bit_word_eqI; auto simp: F0_def F1_def Ch_def Maj_def bit_simps)+

text \<open>The working variables of the standard as the code's registers hold them before round \<open>t\<close>.\<close>

definition view :: "'w :: len word list \<Rightarrow> nat \<Rightarrow> 'w word list" where
  "view A t = map (\<lambda>j. A ! reg t j) [0..<8]"

lemma length_sha_P [simp]: "length (sha_P S2 S3 A t x k) = length A"
  by (simp add: sha_P_def Let_def)

lemma length_sha_step [simp]: "length (sha_step b0 b1 v kw) = length v"
  by (cases "(b0, b1, v, kw)" rule: sha_step.cases) (simp_all add: Let_def)

lemma view_step:
  assumes "length A = 8"
  shows "view (sha_P S2 S3 A t x k) (Suc t) = sha_step S2 S3 (view A t) (k, x)"
proof -
  have up: "[0..<8] = [0, 1, 2, 3, 4, 5, 6, 7 :: nat]" by (simp add: upt_rec)
  have "t mod 8 < 8" by simp
  then consider "t mod 8 = 0" | "t mod 8 = 1" | "t mod 8 = 2" | "t mod 8 = 3" | "t mod 8 = 4" | "t mod 8 = 5" | "t mod 8 = 6" | "t mod 8 = 7"
    by linarith
  then show ?thesis
    by cases (simp_all add: view_def up sha_P_def Let_def reg_def choice_eq mod_Suc nth_list_update assms,
      simp_all add: numeral_2_eq_2 numeral_3_eq_3)
qed

lemma view_0 [simp]: "length A = 8 \<Longrightarrow> view A 0 = A"
  by (auto simp: view_def reg_def intro: nth_equalityI)

lemma view_turn [simp]: "length A = 8 \<Longrightarrow> t mod 8 = 0 \<Longrightarrow> view A t = A"
  by (auto simp: view_def reg_def intro: nth_equalityI)

end
