(* ===== verification/Sha256.thy ===== *)
theory Sha256
  imports Sha2_Rounds
begin

text \<open>
  SHA-256 as mbedTLS computes it (\<open>lib/mbedtls/library/sha256.c\<close>, the unrolled variant the build
  selects): the macros, the compression function with its rotating registers, the streaming interface and
  the one-shot function.  The reference is the text of the standard: a message schedule, a step that moves
  eight working variables, padding, and the blocks of the padded message folded into the initial value.
  The argument checks of \<open>SHA256_VALIDATE\<close> are empty macros in this configuration; the digest with
  \<open>is224\<close> set keeps only seven words.
\<close>

section \<open>Code\<close>

definition K :: "u32 list" where
  "K = [0x428A2F98, 0x71374491, 0xB5C0FBCF, 0xE9B5DBA5, 0x3956C25B, 0x59F111F1, 0x923F82A4, 0xAB1C5ED5,
    0xD807AA98, 0x12835B01, 0x243185BE, 0x550C7DC3, 0x72BE5D74, 0x80DEB1FE, 0x9BDC06A7, 0xC19BF174,
    0xE49B69C1, 0xEFBE4786, 0x0FC19DC6, 0x240CA1CC, 0x2DE92C6F, 0x4A7484AA, 0x5CB0A9DC, 0x76F988DA,
    0x983E5152, 0xA831C66D, 0xB00327C8, 0xBF597FC7, 0xC6E00BF3, 0xD5A79147, 0x06CA6351, 0x14292967,
    0x27B70A85, 0x2E1B2138, 0x4D2C6DFC, 0x53380D13, 0x650A7354, 0x766A0ABB, 0x81C2C92E, 0x92722C85,
    0xA2BFE8A1, 0xA81A664B, 0xC24B8B70, 0xC76C51A3, 0xD192E819, 0xD6990624, 0xF40E3585, 0x106AA070,
    0x19A4C116, 0x1E376C08, 0x2748774C, 0x34B0BCB5, 0x391C0CB3, 0x4ED8AA4A, 0x5B9CCA4F, 0x682E6FF3,
    0x748F82EE, 0x78A5636F, 0x84C87814, 0x8CC70208, 0x90BEFFFA, 0xA4506CEB, 0xBEF9A3F7, 0xC67178F2]"

definition SHR :: "u32 \<Rightarrow> nat \<Rightarrow> u32" where
  "SHR x n = drop_bit n (x AND 0xFFFFFFFF)"

definition ROTR :: "u32 \<Rightarrow> nat \<Rightarrow> u32" where
  "ROTR x n = SHR x n OR push_bit (32 - n) x"

definition S0 :: "u32 \<Rightarrow> u32" where "S0 x = ROTR x 7 XOR ROTR x 18 XOR SHR x 3"
definition S1 :: "u32 \<Rightarrow> u32" where "S1 x = ROTR x 17 XOR ROTR x 19 XOR SHR x 10"
definition S2 :: "u32 \<Rightarrow> u32" where "S2 x = ROTR x 2 XOR ROTR x 13 XOR ROTR x 22"
definition S3 :: "u32 \<Rightarrow> u32" where "S3 x = ROTR x 6 XOR ROTR x 11 XOR ROTR x 25"
text \<open>The macro \<open>R\<close>: the next word of the schedule.\<close>

definition sched_next :: "u32 list \<Rightarrow> nat \<Rightarrow> u32" where
  "sched_next W t = S1 (W ! (t - 2)) + W ! (t - 7) + S0 (W ! (t - 15)) + W ! (t - 16)"

definition sha_round :: "u32 list \<times> u32 list \<Rightarrow> nat \<Rightarrow> u32 list \<times> u32 list" where
  "sha_round = (\<lambda>(A, W) t.
     let W = (if t < 16 then W else W @ [sched_next W t]) in (sha_P S2 S3 A t (W ! t) (K ! t), W))"

record mbedtls_sha256_context = "u32 digest_ctx" +
  sha_is224 :: bool

definition mbedtls_sha256_init :: mbedtls_sha256_context where
  "mbedtls_sha256_init = \<lparr>dg_total0 = 0, dg_total1 = 0, dg_state = replicate 8 0, dg_buffer = replicate 64 0, sha_is224 = False\<rparr>"

definition mbedtls_sha256_starts_ret :: "mbedtls_sha256_context \<Rightarrow> bool \<Rightarrow> mbedtls_sha256_context" where
  "mbedtls_sha256_starts_ret ctx is224 = ctx\<lparr>dg_total0 := 0, dg_total1 := 0,
     dg_state := (if \<not> is224
       then [0x6A09E667, 0xBB67AE85, 0x3C6EF372, 0xA54FF53A, 0x510E527F, 0x9B05688C, 0x1F83D9AB, 0x5BE0CD19]
       else [0xC1059ED8, 0x367CD507, 0x3070DD17, 0xF70E5939, 0xFFC00B31, 0x68581511, 0x64F98FA7, 0xBEFA4FA4]),
     sha_is224 := is224\<rparr>"

definition mbedtls_internal_sha256_process :: "mbedtls_sha256_context \<Rightarrow> bytes \<Rightarrow> mbedtls_sha256_context" where
  "mbedtls_internal_sha256_process ctx data =
    (let W = map (\<lambda>i. get_uint32_be data (4 * i)) [0..<16];
         A = fst (foldl sha_round (dg_state ctx, W) [0..<64])
     in ctx\<lparr>dg_state := map2 (+) (dg_state ctx) A\<rparr>)"

definition mbedtls_sha256_update_ret :: "mbedtls_sha256_context \<Rightarrow> bytes \<Rightarrow> mbedtls_sha256_context" where
  "mbedtls_sha256_update_ret = digest_update 64 mbedtls_internal_sha256_process"

definition mbedtls_sha256_finish_ret :: "mbedtls_sha256_context \<Rightarrow> bytes \<times> mbedtls_sha256_context" where
  "mbedtls_sha256_finish_ret ctx =
    (let ctx = digest_finish 64 56 put_len_be32 mbedtls_internal_sha256_process ctx
     in (concat (map be_bytes32 (if sha_is224 ctx then take 7 (dg_state ctx) else dg_state ctx)), ctx))"

definition mbedtls_sha256_ret :: "bytes \<Rightarrow> bool \<Rightarrow> bytes" where
  "mbedtls_sha256_ret input is224 =
    fst (mbedtls_sha256_finish_ret (mbedtls_sha256_update_ret (mbedtls_sha256_starts_ret mbedtls_sha256_init is224) input))"

section \<open>Reference: the standard\<close>

definition bsig0 :: "u32 \<Rightarrow> u32" where "bsig0 x = word_rotr 2 x XOR word_rotr 13 x XOR word_rotr 22 x"
definition bsig1 :: "u32 \<Rightarrow> u32" where "bsig1 x = word_rotr 6 x XOR word_rotr 11 x XOR word_rotr 25 x"
definition ssig0 :: "u32 \<Rightarrow> u32" where "ssig0 x = word_rotr 7 x XOR word_rotr 18 x XOR drop_bit 3 x"
definition ssig1 :: "u32 \<Rightarrow> u32" where "ssig1 x = word_rotr 17 x XOR word_rotr 19 x XOR drop_bit 10 x"

primrec schedule :: "u32 list \<Rightarrow> nat \<Rightarrow> u32 list" where
  "schedule M 0 = M"
| "schedule M (Suc n) = (let W = schedule M n; t = 16 + n in
     W @ [ssig1 (W ! (t - 2)) + W ! (t - 7) + ssig0 (W ! (t - 15)) + W ! (t - 16)])"

definition compress :: "u32 list \<Rightarrow> bytes \<Rightarrow> u32 list" where
  "compress h block = map2 (+) h (foldl (sha_step bsig0 bsig1) h (zip K (schedule (map (\<lambda>i. get_uint32_be block (4 * i)) [0..<16]) 48)))"

definition sha_padding :: "bytes \<Rightarrow> bytes" where
  "sha_padding m = 0x80 # replicate ((119 - length m mod 64) mod 64) 0 @ be_bytes64 (word_of_nat (8 * length m))"

definition sha256_H0 :: "u32 list" where
  "sha256_H0 = [0x6A09E667, 0xBB67AE85, 0x3C6EF372, 0xA54FF53A, 0x510E527F, 0x9B05688C, 0x1F83D9AB, 0x5BE0CD19]"

definition sha256_spec :: "bytes \<Rightarrow> bytes" where
  "sha256_spec m = concat (map be_bytes32 (chain_blocks 64 compress sha256_H0 (m @ sha_padding m)))"

section \<open>The compression function\<close>

lemma SHR_drop [simp]: "SHR x n = drop_bit n x"
proof -
  have m: "(0xFFFFFFFF :: u32) = - 1" by simp
  show ?thesis unfolding SHR_def m by simp
qed

lemma ROTR_rotr: "n < 32 \<Longrightarrow> ROTR x n = word_rotr n x"
  using rotate_by_shifts[of n x] by (simp add: ROTR_def)

lemma sigma_eq: "S0 = ssig0" "S1 = ssig1" "S2 = bsig0" "S3 = bsig1"
  by (auto simp: fun_eq_iff S0_def S1_def S2_def S3_def ssig0_def ssig1_def bsig0_def bsig1_def ROTR_rotr)

lemma schedule_length [simp]: "length (schedule M n) = length M + n"
  by (induction n) (simp_all add: Let_def)

lemma schedule_nth: "m \<le> n \<Longrightarrow> i < length M + m \<Longrightarrow> schedule M n ! i = schedule M m ! i"
  by (induction n) (auto simp: le_Suc_eq Let_def nth_append)

lemma rounds:
  assumes "length A = 8" and "length M = 16" and "n \<le> 64"
  shows "length (fst (foldl sha_round (A, M) [0..<n])) = 8
    \<and> snd (foldl sha_round (A, M) [0..<n]) = schedule M (n - 16)
    \<and> view (fst (foldl sha_round (A, M) [0..<n])) n = foldl (sha_step bsig0 bsig1) (view A 0) (zip (take n K) (take n (schedule M 48)))"
  using assms(3)
proof (induction n)
  case 0
  then show ?case using assms by simp
next
  case (Suc n)
  obtain B W where BW: "foldl sha_round (A, M) [0..<n] = (B, W)" by force
  then have IH: "length B = 8" "W = schedule M (n - 16)" "view B n = foldl (sha_step bsig0 bsig1) (view A 0) (zip (take n K) (take n (schedule M 48)))"
    using Suc by simp_all
  let ?W = "schedule M (Suc n - 16)"
  have W: "(if n < 16 then W else W @ [sched_next W n]) = ?W"
  proof (cases "n < 16")
    case False
    then have n: "Suc n - 16 = Suc (n - 16)" "16 + (n - 16) = n" by auto
    show ?thesis using False unfolding n(1) schedule.simps Let_def n(2) by (simp add: IH(2) sched_next_def sigma_eq)
  qed (simp add: IH(2))
  have step: "foldl sha_round (A, M) [0..<Suc n] = (sha_P S2 S3 B n (?W ! n) (K ! n), ?W)"
    using BW W by (simp add: sha_round_def Let_def)
  have w: "?W ! n = schedule M 48 ! n" using Suc.prems assms(2) by (intro schedule_nth[symmetric]) auto
  have lens: "n < length K" "n < length (schedule M 48)" using Suc.prems assms(2) by (simp_all add: K_def)
  show ?case unfolding step using IH(1,3) lens w assms(2) view_step[OF IH(1), of S2 S3 n]
    by (simp add: take_Suc_conv_app_nth sigma_eq)
qed

lemma process_compress:
  assumes "length (dg_state ctx) = 8"
  shows "mbedtls_internal_sha256_process ctx data = ctx\<lparr>dg_state := compress (dg_state ctx) data\<rparr>"
proof -
  let ?M = "map (\<lambda>i. get_uint32_be data (4 * i)) [0..<16]"
  have "length K = 64" by (simp add: K_def)
  then show ?thesis using rounds[OF assms, of ?M 64] assms view_turn[of "fst (foldl sha_round (dg_state ctx, ?M) [0..<64])" 64]
    by (simp add: mbedtls_internal_sha256_process_def compress_def Let_def del: view_turn)
qed

lemma length_compress [simp]: "length (compress h b) = length h"
proof -
  have "length (foldl (sha_step bsig0 bsig1) h kws) = length h" for kws by (induction kws arbitrary: h) simp_all
  then show ?thesis by (simp add: compress_def)
qed


section \<open>Streaming\<close>

interpretation sha256: block_digest mbedtls_internal_sha256_process compress 64 56 8 6 put_len_be32
  by unfold_locales (auto simp: process_compress put_len_be32_def)

lemma be64_split: "be_bytes64 w = be_bytes32 (ucast (drop_bit 32 w)) @ be_bytes32 (ucast w)"
  by (simp add: be_bytes64_def be_bytes32_def) (auto intro!: bit_word_eqI simp: bit_simps)

lemma be64_words: "be_bytes64 (word_of_nat n) = put_len_be32 (word_of_nat (n div 2 ^ 32)) (word_of_nat n)"
proof -
  have "ucast (drop_bit 32 (word_of_nat n :: u64)) = (word_of_nat (drop_bit 32 n) :: u32)"
    by (intro bit_word_eqI) (auto simp: bit_simps bit_word_of_nat bit_drop_bit_eq simp del: of_nat_drop_bit)
  moreover have "ucast (word_of_nat n :: u64) = (word_of_nat n :: u32)"
    by (intro bit_word_eqI) (auto simp: bit_simps bit_word_of_nat)
  ultimately show ?thesis by (simp add: put_len_be32_def be64_split drop_bit_eq_div)
qed

lemma sha_padding_eq: "digest_padding 64 56 put_len_be32 m = sha_padding m"
  using be64_words[of "8 * length m"] by (simp add: digest_padding_def sha_padding_def)

lemma sha256_finish:
  assumes "sha256.digest_rel H ctx m"
  obtains ctx' where "mbedtls_sha256_finish_ret ctx =
      (concat (map be_bytes32 (if sha_is224 ctx then take 7 (chain_blocks 64 compress H (m @ sha_padding m)) else chain_blocks 64 compress H (m @ sha_padding m))), ctx')"
    "length (dg_buffer ctx') = 64"
  using sha256.finish_spec[OF assms] that by (auto simp: mbedtls_sha256_finish_ret_def sha_padding_eq Let_def)

lemma sha256_more: "digest_ctx.more ctx = digest_ctx.more ctx' \<Longrightarrow> sha_is224 ctx = sha_is224 ctx'"
  by (cases ctx; cases ctx') simp

lemma sha256_start: "sha256.digest_rel sha256_H0 (mbedtls_sha256_starts_ret ctx False) [] \<longleftrightarrow> length (dg_buffer ctx) = 64"
  using sha256.rel_start[of "mbedtls_sha256_starts_ret ctx False"]
  by (auto simp: mbedtls_sha256_starts_ret_def sha256_H0_def sha256.digest_rel_def)

section \<open>Properties\<close>

text \<open>
  C11.  Hashing in pieces: whatever pieces of less than 4 GiB a message is fed in, starting the digest,
  updating it with each piece in turn and finishing it gives the SHA-256 digest of the concatenation as the
  standard defines it (schedule, 64 steps, padding, block chaining).
\<close>

theorem sha256_stream_correct:
  assumes "\<forall>p \<in> set ps. length p < 2 ^ 32" and "length (dg_buffer ctx) = 64"
  shows "fst (mbedtls_sha256_finish_ret (foldl mbedtls_sha256_update_ret (mbedtls_sha256_starts_ret ctx False) ps)) = sha256_spec (concat ps)"
proof -
  let ?c = "mbedtls_sha256_starts_ret ctx False"
  have "\<forall>p \<in> set ps. length p < 2 ^ LENGTH(32)" using assms(1) by simp
  note u = sha256.rel_updates[OF sha256_start[THEN iffD2, OF assms(2)] this, folded mbedtls_sha256_update_ret_def]
  have r: "sha256.digest_rel sha256_H0 (foldl mbedtls_sha256_update_ret ?c ps) (concat ps)" using u by simp
  have "sha_is224 (foldl mbedtls_sha256_update_ret ?c ps) = sha_is224 ?c" by (rule sha256_more[OF conjunct2[OF u]])
  then have "\<not> sha_is224 (foldl mbedtls_sha256_update_ret ?c ps)" by (simp add: mbedtls_sha256_starts_ret_def)
  with r show ?thesis by (auto elim: sha256_finish simp: sha256_spec_def)
qed

lemma sha256_abc:
  "sha256_spec [0x61, 0x62, 0x63] =
    [0xBA, 0x78, 0x16, 0xBF, 0x8F, 0x01, 0xCF, 0xEA, 0x41, 0x41, 0x40, 0xDE, 0x5D, 0xAE, 0x22, 0x23,
     0xB0, 0x03, 0x61, 0xA3, 0x96, 0x17, 0x7A, 0x9C, 0xB4, 0x10, 0xFF, 0x61, 0xF2, 0x00, 0x15, 0xAD]"
  by code_simp

theorem sha256_stream_correct_witness:
  "fst (mbedtls_sha256_finish_ret (mbedtls_sha256_update_ret (mbedtls_sha256_update_ret
      (mbedtls_sha256_starts_ret mbedtls_sha256_init False) [0x61]) [0x62, 0x63])) =
    [0xBA, 0x78, 0x16, 0xBF, 0x8F, 0x01, 0xCF, 0xEA, 0x41, 0x41, 0x40, 0xDE, 0x5D, 0xAE, 0x22, 0x23,
     0xB0, 0x03, 0x61, 0xA3, 0x96, 0x17, 0x7A, 0x9C, 0xB4, 0x10, 0xFF, 0x61, 0xF2, 0x00, 0x15, 0xAD]"
proof -
  have "\<forall>p \<in> set [[0x61 :: u8], [0x62, 0x63]]. length p < 2 ^ 32" "length (dg_buffer mbedtls_sha256_init) = 64"
    by (simp_all add: mbedtls_sha256_init_def)
  from sha256_stream_correct[OF this] show ?thesis using sha256_abc by simp
qed

end
