(* ===== verification/Md_Hmac.thy ===== *)
theory Md_Hmac
  imports Sha256 Attestation
begin

text \<open>
  HMAC as mbedTLS computes it (\<open>lib/mbedtls/library/md.c\<close>), for the message digest the firmware asks for,
  SHA-256: the generic digest context with its pad buffers, set-up with its two allocations, start, update,
  finish and the one-shot function \<open>iot_hmac_sha256\<close> of the firmware calls.  The allocations of \<open>calloc\<close> are
  two flags.  The reference is the construction of the standard over \<open>sha256_spec\<close>.
\<close>

section \<open>Code\<close>

definition md_block_size :: nat where "md_block_size = 64"
definition md_size :: nat where "md_size = 32"

record mbedtls_md_context_t =
  md_ctx :: mbedtls_sha256_context
  md_hmac_ctx :: "bytes option"

definition mbedtls_md_setup :: "bool \<Rightarrow> bool \<Rightarrow> bool \<Rightarrow> mbedtls_md_context_t option" where
  "mbedtls_md_setup alloc_ctx alloc_hmac hmac =
    (if \<not> alloc_ctx then None
     else if hmac \<and> \<not> alloc_hmac then None
     else Some \<lparr>md_ctx = mbedtls_sha256_init, md_hmac_ctx = (if hmac then Some (replicate (2 * md_block_size) 0) else None)\<rparr>)"

definition mbedtls_md_starts :: "mbedtls_md_context_t \<Rightarrow> mbedtls_md_context_t" where
  "mbedtls_md_starts ctx = ctx\<lparr>md_ctx := mbedtls_sha256_starts_ret (md_ctx ctx) False\<rparr>"

definition mbedtls_md_update :: "mbedtls_md_context_t \<Rightarrow> bytes \<Rightarrow> mbedtls_md_context_t" where
  "mbedtls_md_update ctx input = ctx\<lparr>md_ctx := mbedtls_sha256_update_ret (md_ctx ctx) input\<rparr>"

definition mbedtls_md_finish :: "mbedtls_md_context_t \<Rightarrow> bytes \<times> mbedtls_md_context_t" where
  "mbedtls_md_finish ctx = (case mbedtls_sha256_finish_ret (md_ctx ctx) of (d, c) \<Rightarrow> (d, ctx\<lparr>md_ctx := c\<rparr>))"

text \<open>The loop that mixes the key into a pad.\<close>

definition xor_pad :: "u8 \<Rightarrow> bytes \<Rightarrow> bytes" where
  "xor_pad p key = map (\<lambda>i. if i < length key then p XOR key ! i else p) [0..<md_block_size]"

definition mbedtls_md_hmac_starts :: "mbedtls_md_context_t \<Rightarrow> bytes \<Rightarrow> mbedtls_md_context_t option" where
  "mbedtls_md_hmac_starts ctx key =
    (case md_hmac_ctx ctx of
       None \<Rightarrow> None
     | Some _ \<Rightarrow>
         let (key, ctx) = (if length key > md_block_size
               then mbedtls_md_finish (mbedtls_md_update (mbedtls_md_starts ctx) key)
               else (key, ctx));
             ctx = ctx\<lparr>md_hmac_ctx := Some (xor_pad 0x36 key @ xor_pad 0x5C key)\<rparr>
         in Some (mbedtls_md_update (mbedtls_md_starts ctx) (xor_pad 0x36 key)))"

definition mbedtls_md_hmac_update :: "mbedtls_md_context_t \<Rightarrow> bytes \<Rightarrow> mbedtls_md_context_t option" where
  "mbedtls_md_hmac_update ctx input = (case md_hmac_ctx ctx of None \<Rightarrow> None | Some _ \<Rightarrow> Some (mbedtls_md_update ctx input))"

definition mbedtls_md_hmac_finish :: "mbedtls_md_context_t \<Rightarrow> (bytes \<times> mbedtls_md_context_t) option" where
  "mbedtls_md_hmac_finish ctx =
    (case md_hmac_ctx ctx of
       None \<Rightarrow> None
     | Some pads \<Rightarrow>
         let opad = drop md_block_size pads;
             (tmp, ctx) = mbedtls_md_finish ctx;
             ctx = mbedtls_md_update (mbedtls_md_starts ctx) opad;
             ctx = mbedtls_md_update ctx (take md_size tmp)
         in Some (mbedtls_md_finish ctx))"

definition mbedtls_md_hmac_reset :: "mbedtls_md_context_t \<Rightarrow> mbedtls_md_context_t option" where
  "mbedtls_md_hmac_reset ctx =
    (case md_hmac_ctx ctx of
       None \<Rightarrow> None
     | Some pads \<Rightarrow> Some (mbedtls_md_update (mbedtls_md_starts ctx) (take md_block_size pads)))"

definition mbedtls_md_hmac :: "bool \<Rightarrow> bool \<Rightarrow> bytes \<Rightarrow> bytes \<Rightarrow> bytes option" where
  "mbedtls_md_hmac alloc_ctx alloc_hmac key input =
    (case mbedtls_md_setup alloc_ctx alloc_hmac True of
       None \<Rightarrow> None
     | Some ctx \<Rightarrow> (case mbedtls_md_hmac_starts ctx key of
         None \<Rightarrow> None
       | Some ctx \<Rightarrow> (case mbedtls_md_hmac_update ctx input of
           None \<Rightarrow> None
         | Some ctx \<Rightarrow> map_option fst (mbedtls_md_hmac_finish ctx))))"

section \<open>Reference\<close>

definition hmac_key :: "bytes \<Rightarrow> bytes" where
  "hmac_key key = (let k = (if length key > 64 then sha256_spec key else key) in k @ replicate (64 - length k) 0)"

definition hmac_spec :: "bytes \<Rightarrow> bytes \<Rightarrow> bytes" where
  "hmac_spec key m = sha256_spec (map ((XOR) 0x5C) (hmac_key key) @ sha256_spec (map ((XOR) 0x36) (hmac_key key) @ m))"

section \<open>Correctness\<close>

lemma length_sha256_spec [simp]: "length (sha256_spec m) = 32"
  using length_chain[of 8 compress sha256_H0 64 "m @ sha_padding m"] by (simp add: sha256_spec_def sha256_H0_def)

lemma xor_pad_key: "length k \<le> 64 \<Longrightarrow> xor_pad p k = map ((XOR) p) (k @ replicate (64 - length k) 0)"
  by (rule nth_equalityI) (auto simp: xor_pad_def md_block_size_def nth_append)

lemma length_xor_pad [simp]: "length (xor_pad p k) = 64"
  by (simp add: xor_pad_def md_block_size_def)

text \<open>A context that has taken in the message \<open>m\<close>, with the given pads.\<close>

definition md_rel :: "mbedtls_md_context_t \<Rightarrow> bytes option \<Rightarrow> bytes \<Rightarrow> bool" where
  "md_rel ctx pads m \<longleftrightarrow> md_hmac_ctx ctx = pads \<and> sha256.digest_rel sha256_H0 (md_ctx ctx) m \<and> \<not> sha_is224 (md_ctx ctx)"

lemma md_rel_starts: "length (dg_buffer (md_ctx ctx)) = 64 \<Longrightarrow> md_rel (mbedtls_md_starts ctx) (md_hmac_ctx ctx) []"
  using sha256_start[of "md_ctx ctx"] by (simp add: md_rel_def mbedtls_md_starts_def mbedtls_sha256_starts_ret_def)

lemma md_rel_update: "md_rel ctx pads m \<Longrightarrow> length xs < 2 ^ 32 \<Longrightarrow> md_rel (mbedtls_md_update ctx xs) pads (m @ xs)"
  using sha256.rel_update[of sha256_H0 "md_ctx ctx" m xs, folded mbedtls_sha256_update_ret_def]
  by (auto simp: md_rel_def mbedtls_md_update_def dest: sha256_more)

lemma md_rel_finish:
  assumes "md_rel ctx pads m"
  obtains ctx' where "mbedtls_md_finish ctx = (sha256_spec m, ctx')" "md_hmac_ctx ctx' = pads" "length (dg_buffer (md_ctx ctx')) = 64"
proof -
  have r: "sha256.digest_rel sha256_H0 (md_ctx ctx) m" and i: "\<not> sha_is224 (md_ctx ctx)" and p: "md_hmac_ctx ctx = pads"
    using assms by (simp_all add: md_rel_def)
  from r show thesis
  proof (rule sha256_finish)
    fix c assume "mbedtls_sha256_finish_ret (md_ctx ctx) =
      (concat (map be_bytes32 (if sha_is224 (md_ctx ctx) then take 7 (chain_blocks 64 compress sha256_H0 (m @ sha_padding m))
         else chain_blocks 64 compress sha256_H0 (m @ sha_padding m))), c)" and "length (dg_buffer c) = 64"
    then show thesis using i p that[of "ctx\<lparr>md_ctx := c\<rparr>"] by (simp add: mbedtls_md_finish_def sha256_spec_def)
  qed
qed

lemma hmac_starts_rel:
  assumes "md_hmac_ctx ctx = Some p" and "length (dg_buffer (md_ctx ctx)) = 64" and "length key < 2 ^ 32"
  obtains ctx' where "mbedtls_md_hmac_starts ctx key = Some ctx'"
    "md_rel ctx' (Some (map ((XOR) 0x36) (hmac_key key) @ map ((XOR) 0x5C) (hmac_key key))) (map ((XOR) 0x36) (hmac_key key))"
proof -
  define k where "k = (if length key > 64 then sha256_spec key else key)"
  have k: "length k \<le> 64" by (simp add: k_def)
  have hk: "map ((XOR) q) (hmac_key key) = xor_pad q k" for q
    unfolding xor_pad_key[OF k] by (simp add: hmac_key_def k_def Let_def)
  have fin: "\<exists>c. (if length key > md_block_size
               then mbedtls_md_finish (mbedtls_md_update (mbedtls_md_starts ctx) key)
               else (key, ctx)) = (k, c) \<and> length (dg_buffer (md_ctx c)) = 64"
  proof (cases "length key > 64")
    case True
    obtain c where "mbedtls_md_finish (mbedtls_md_update (mbedtls_md_starts ctx) key) = (sha256_spec key, c)" "length (dg_buffer (md_ctx c)) = 64"
      using md_rel_finish[OF md_rel_update[OF md_rel_starts[OF assms(2)] assms(3)]] by auto
    then show ?thesis using True by (simp add: md_block_size_def k_def)
  qed (use assms(2) in \<open>simp add: md_block_size_def k_def\<close>)
  then obtain c where c: "(if length key > md_block_size
               then mbedtls_md_finish (mbedtls_md_update (mbedtls_md_starts ctx) key)
               else (key, ctx)) = (k, c)" "length (dg_buffer (md_ctx c)) = 64" by blast
  let ?c = "c\<lparr>md_hmac_ctx := Some (xor_pad 0x36 k @ xor_pad 0x5C k)\<rparr>"
  have "md_rel (mbedtls_md_starts ?c) (md_hmac_ctx ?c) []" by (rule md_rel_starts) (simp add: c(2))
  from md_rel_update[OF this, of "xor_pad 0x36 k"]
  have "md_rel (mbedtls_md_update (mbedtls_md_starts ?c) (xor_pad 0x36 k)) (Some (xor_pad 0x36 k @ xor_pad 0x5C k)) (xor_pad 0x36 k)" by simp
  then show thesis using that[of "mbedtls_md_update (mbedtls_md_starts ?c) (xor_pad 0x36 k)"] assms(1)
    unfolding mbedtls_md_hmac_starts_def hk by (simp add: c(1) Let_def)
qed

lemma hmac_finish_rel:
  assumes "md_rel ctx (Some pads) m" and "length pads = 128"
  shows "\<exists>c. mbedtls_md_hmac_finish ctx = Some (sha256_spec (drop 64 pads @ sha256_spec m), c)"
proof -
  obtain c where c: "mbedtls_md_finish ctx = (sha256_spec m, c)" "md_hmac_ctx c = Some pads" "length (dg_buffer (md_ctx c)) = 64"
    using md_rel_finish[OF assms(1)] by blast
  have "md_rel (mbedtls_md_update (mbedtls_md_update (mbedtls_md_starts c) (drop 64 pads)) (sha256_spec m)) (Some pads) (drop 64 pads @ sha256_spec m)"
    using md_rel_update[OF md_rel_update[OF md_rel_starts[OF c(3)], of "drop 64 pads"], of "sha256_spec m"] c(2) assms(2) by simp
  then obtain c' where "mbedtls_md_finish (mbedtls_md_update (mbedtls_md_update (mbedtls_md_starts c) (drop 64 pads)) (sha256_spec m))
      = (sha256_spec (drop 64 pads @ sha256_spec m), c')" using md_rel_finish by metis
  then show ?thesis using assms(1) c(1)
    by (simp add: mbedtls_md_hmac_finish_def md_rel_def md_block_size_def md_size_def Let_def)
qed

lemma length_hmac_key [simp]: "length (hmac_key key) = 64"
  by (simp add: hmac_key_def Let_def)

lemma hmac_value:
  assumes "length key < 2 ^ 32" and "length m < 2 ^ 32"
  shows "mbedtls_md_hmac a b key m = (if a \<and> b then Some (hmac_spec key m) else None)"
proof (cases "a \<and> b")
  case True
  let ?c = "\<lparr>md_ctx = mbedtls_sha256_init, md_hmac_ctx = Some (replicate (2 * md_block_size) 0)\<rparr>"
  let ?p = "map ((XOR) 0x36) (hmac_key key) @ map ((XOR) 0x5C) (hmac_key key)"
  obtain c where c: "mbedtls_md_hmac_starts ?c key = Some c" "md_rel c (Some ?p) (map ((XOR) 0x36) (hmac_key key))"
    by (rule hmac_starts_rel[of ?c]) (use assms in \<open>simp_all add: mbedtls_sha256_init_def\<close>)
  have u: "mbedtls_md_hmac_update c m = Some (mbedtls_md_update c m)" using c(2) by (simp add: mbedtls_md_hmac_update_def md_rel_def)
  from hmac_finish_rel[OF md_rel_update[OF c(2) assms(2)]]
  obtain c' where "mbedtls_md_hmac_finish (mbedtls_md_update c m) = Some (hmac_spec key m, c')" by (auto simp: hmac_spec_def)
  then show ?thesis using True c(1) u by (simp add: mbedtls_md_hmac_def mbedtls_md_setup_def)
qed (auto simp: mbedtls_md_hmac_def mbedtls_md_setup_def)

section \<open>Digest length for inputs of any size\<close>

definition sha_sized :: "mbedtls_sha256_context \<Rightarrow> bool" where
  "sha_sized ctx \<longleftrightarrow> length (dg_state ctx) = 8 \<and> \<not> sha_is224 ctx"

lemma sized_update: "sha_sized ctx \<Longrightarrow> sha_sized (mbedtls_sha256_update_ret ctx xs)"
  using sha256.update_length[of ctx xs] sha256_more[OF sha256.update_more[of ctx xs]]
  by (simp add: sha_sized_def mbedtls_sha256_update_ret_def)

lemma sized_finish: "sha_sized ctx \<Longrightarrow> length (fst (mbedtls_sha256_finish_ret ctx)) = 32"
  using sha256.finish_length[of ctx] sha256_more[OF sha256.finish_more[of ctx]]
  by (simp add: sha_sized_def mbedtls_sha256_finish_ret_def Let_def length_be_words)

lemma sized_md:
  "sha_sized (md_ctx (mbedtls_md_starts ctx))"
  "sha_sized (md_ctx ctx) \<Longrightarrow> sha_sized (md_ctx (mbedtls_md_update ctx xs))"
  "sha_sized (md_ctx ctx) \<Longrightarrow> length (fst (mbedtls_md_finish ctx)) = 32"
  by (simp add: mbedtls_md_starts_def mbedtls_sha256_starts_ret_def sha_sized_def,
      simp add: mbedtls_md_update_def sized_update, simp add: mbedtls_md_finish_def sized_finish case_prod_beta)

lemma hmac_finish_length: "mbedtls_md_hmac_finish ctx = Some p \<Longrightarrow> length (fst p) = 32"
  by (auto simp: mbedtls_md_hmac_finish_def Let_def case_prod_beta sized_md split: option.splits)

lemma hmac_length: "md_hmac_ok (mbedtls_md_hmac a b)"
  by (auto simp: md_hmac_ok_def mbedtls_md_hmac_def ATTESTATION_HMAC_SIZE_def dest: hmac_finish_length split: option.splits)

section \<open>Properties\<close>

text \<open>
  C10.  HMAC-SHA256: for keys and messages of less than 4 GiB the function returns the HMAC of the standard
  (keys longer than a block are hashed first), and nothing when one of its two allocations fails.
\<close>

theorem hmac_correct:
  assumes "length key < 2 ^ 32" and "length m < 2 ^ 32"
  shows "mbedtls_md_hmac alloc_ctx alloc_hmac key m = (if alloc_ctx \<and> alloc_hmac then Some (hmac_spec key m) else None)"
  by (rule hmac_value[OF assms])

theorem hmac_correct_witness:
  "mbedtls_md_hmac True True [0x4A, 0x65, 0x66, 0x65] [1, 2, 3] = Some (hmac_spec [0x4A, 0x65, 0x66, 0x65] [1, 2, 3])"
  using hmac_correct[of "[0x4A, 0x65, 0x66, 0x65]" "[1, 2, 3]" True True] by simp

end
