(* ===== verification/Aes.thy ===== *)
theory Aes
  imports Iot_Prelude
begin

text \<open>
  The AES block cipher as mbedTLS computes it for encryption (\<open>lib/mbedtls/library/aes.c\<close>, with tables
  generated at start-up as the build configures it): generation of the tables, key schedule, the rounds that
  look four bytes up per output word, the last round.  The reference is FIPS 197: a state of 16 bytes in
  columns, SubBytes, ShiftRows, MixColumns, AddRoundKey, and the word-wise key expansion.  The inverse
  tables, decryption and counter mode are in \<open>Aes_Decrypt\<close>; the hardware back ends (AES-NI, PadLock) are not part of
  the build.
\<close>

section \<open>Tables\<close>

text \<open>\<open>MBEDTLS_BYTE_0(XTIME(x))\<close>: multiplication by 2 in the field with 256 elements.\<close>

definition XTIME :: "u8 \<Rightarrow> u8" where
  "XTIME x = push_bit 1 x XOR (if x AND 0x80 \<noteq> 0 then 0x1B else 0)"

fun pow_log :: "nat \<Rightarrow> nat \<Rightarrow> u8 \<Rightarrow> u8 list \<Rightarrow> nat list \<Rightarrow> u8 list \<times> nat list" where
  "pow_log 0 i x pow log = (pow, log)"
| "pow_log (Suc n) i x pow log = pow_log n (Suc i) (x XOR XTIME x) (pow @ [x]) (log[unat x := i])"

definition aes_pow :: "u8 list" where "aes_pow = fst (pow_log 256 0 1 [] (replicate 256 0))"
definition aes_log :: "nat list" where "aes_log = snd (pow_log 256 0 1 [] (replicate 256 0))"

definition round_constants :: "u32 list" where
  "round_constants = map (\<lambda>i. ucast ((XTIME ^^ i) 1)) [0..<10]"

definition rotl1 :: "u8 \<Rightarrow> u8" where
  "rotl1 y = push_bit 1 y OR drop_bit 7 y"

text \<open>The bit mixing of one entry of the S-box, from the inverse \<open>x\<close>.\<close>

definition fsb_mix :: "u8 \<Rightarrow> u8" where
  "fsb_mix x =
    (let y = rotl1 x; x = x XOR y; y = rotl1 y; x = x XOR y; y = rotl1 y; x = x XOR y; y = rotl1 y
     in x XOR y XOR 0x63)"

definition FSb :: "u8 list" where
  "FSb = map (\<lambda>i. if i = 0 then 0x63 else fsb_mix (aes_pow ! (255 - aes_log ! i))) [0..<256]"

definition FT0 :: "u32 list" where
  "FT0 = map (\<lambda>i. let x = FSb ! i; y = XTIME x; z = y XOR x
     in ucast y XOR push_bit 8 (ucast x) XOR push_bit 16 (ucast x) XOR push_bit 24 (ucast z)) [0..<256]"

definition ROTL8 :: "u32 \<Rightarrow> u32" where
  "ROTL8 x = push_bit 8 x OR drop_bit 24 x"

definition FT1 :: "u32 list" where "FT1 = map (\<lambda>i. ROTL8 (FT0 ! i)) [0..<256]"
definition FT2 :: "u32 list" where "FT2 = map (\<lambda>i. ROTL8 (FT1 ! i)) [0..<256]"
definition FT3 :: "u32 list" where "FT3 = map (\<lambda>i. ROTL8 (FT2 ! i)) [0..<256]"

text \<open>The table the source also lists, for builds that keep it in ROM.\<close>

definition FSb_rom :: "u8 list" where
  "FSb_rom = [
    0x63, 0x7C, 0x77, 0x7B, 0xF2, 0x6B, 0x6F, 0xC5, 0x30, 0x01, 0x67, 0x2B, 0xFE, 0xD7, 0xAB, 0x76,
    0xCA, 0x82, 0xC9, 0x7D, 0xFA, 0x59, 0x47, 0xF0, 0xAD, 0xD4, 0xA2, 0xAF, 0x9C, 0xA4, 0x72, 0xC0,
    0xB7, 0xFD, 0x93, 0x26, 0x36, 0x3F, 0xF7, 0xCC, 0x34, 0xA5, 0xE5, 0xF1, 0x71, 0xD8, 0x31, 0x15,
    0x04, 0xC7, 0x23, 0xC3, 0x18, 0x96, 0x05, 0x9A, 0x07, 0x12, 0x80, 0xE2, 0xEB, 0x27, 0xB2, 0x75,
    0x09, 0x83, 0x2C, 0x1A, 0x1B, 0x6E, 0x5A, 0xA0, 0x52, 0x3B, 0xD6, 0xB3, 0x29, 0xE3, 0x2F, 0x84,
    0x53, 0xD1, 0x00, 0xED, 0x20, 0xFC, 0xB1, 0x5B, 0x6A, 0xCB, 0xBE, 0x39, 0x4A, 0x4C, 0x58, 0xCF,
    0xD0, 0xEF, 0xAA, 0xFB, 0x43, 0x4D, 0x33, 0x85, 0x45, 0xF9, 0x02, 0x7F, 0x50, 0x3C, 0x9F, 0xA8,
    0x51, 0xA3, 0x40, 0x8F, 0x92, 0x9D, 0x38, 0xF5, 0xBC, 0xB6, 0xDA, 0x21, 0x10, 0xFF, 0xF3, 0xD2,
    0xCD, 0x0C, 0x13, 0xEC, 0x5F, 0x97, 0x44, 0x17, 0xC4, 0xA7, 0x7E, 0x3D, 0x64, 0x5D, 0x19, 0x73,
    0x60, 0x81, 0x4F, 0xDC, 0x22, 0x2A, 0x90, 0x88, 0x46, 0xEE, 0xB8, 0x14, 0xDE, 0x5E, 0x0B, 0xDB,
    0xE0, 0x32, 0x3A, 0x0A, 0x49, 0x06, 0x24, 0x5C, 0xC2, 0xD3, 0xAC, 0x62, 0x91, 0x95, 0xE4, 0x79,
    0xE7, 0xC8, 0x37, 0x6D, 0x8D, 0xD5, 0x4E, 0xA9, 0x6C, 0x56, 0xF4, 0xEA, 0x65, 0x7A, 0xAE, 0x08,
    0xBA, 0x78, 0x25, 0x2E, 0x1C, 0xA6, 0xB4, 0xC6, 0xE8, 0xDD, 0x74, 0x1F, 0x4B, 0xBD, 0x8B, 0x8A,
    0x70, 0x3E, 0xB5, 0x66, 0x48, 0x03, 0xF6, 0x0E, 0x61, 0x35, 0x57, 0xB9, 0x86, 0xC1, 0x1D, 0x9E,
    0xE1, 0xF8, 0x98, 0x11, 0x69, 0xD9, 0x8E, 0x94, 0x9B, 0x1E, 0x87, 0xE9, 0xCE, 0x55, 0x28, 0xDF,
    0x8C, 0xA1, 0x89, 0x0D, 0xBF, 0xE6, 0x42, 0x68, 0x41, 0x99, 0x2D, 0x0F, 0xB0, 0x54, 0xBB, 0x16]"

section \<open>Key schedule and rounds\<close>

definition byte_of :: "nat \<Rightarrow> u32 \<Rightarrow> u8" where
  "byte_of n w = ucast (drop_bit (8 * n) w)"

text \<open>Four bytes of \<open>w\<close>, looked up in the S-box and placed in the order \<open>i\<close>, \<open>j\<close>, \<open>k\<close>, \<open>l\<close>.\<close>

definition sub_bytes4 :: "nat \<Rightarrow> nat \<Rightarrow> nat \<Rightarrow> nat \<Rightarrow> u32 \<Rightarrow> u32" where
  "sub_bytes4 i j k l w = ucast (FSb ! unat (byte_of i w)) XOR push_bit 8 (ucast (FSb ! unat (byte_of j w)))
     XOR push_bit 16 (ucast (FSb ! unat (byte_of k w))) XOR push_bit 24 (ucast (FSb ! unat (byte_of l w)))"

record mbedtls_aes_context =
  aes_nr :: nat
  aes_rk :: "u32 list"

definition expand128 :: "u32 list \<Rightarrow> nat \<Rightarrow> u32 list" where
  "expand128 rk i =
    (let r = (\<lambda>j. rk ! (4 * i + j));
         r4 = r 0 XOR round_constants ! i XOR sub_bytes4 1 2 3 0 (r 3);
         r5 = r 1 XOR r4; r6 = r 2 XOR r5; r7 = r 3 XOR r6
     in rk @ [r4, r5, r6, r7])"

definition expand192 :: "u32 list \<Rightarrow> nat \<Rightarrow> u32 list" where
  "expand192 rk i =
    (let r = (\<lambda>j. rk ! (6 * i + j));
         r6 = r 0 XOR round_constants ! i XOR sub_bytes4 1 2 3 0 (r 5);
         r7 = r 1 XOR r6; r8 = r 2 XOR r7; r9 = r 3 XOR r8; r10 = r 4 XOR r9; r11 = r 5 XOR r10
     in rk @ [r6, r7, r8, r9, r10, r11])"

definition expand256 :: "u32 list \<Rightarrow> nat \<Rightarrow> u32 list" where
  "expand256 rk i =
    (let r = (\<lambda>j. rk ! (8 * i + j));
         r8 = r 0 XOR round_constants ! i XOR sub_bytes4 1 2 3 0 (r 7);
         r9 = r 1 XOR r8; r10 = r 2 XOR r9; r11 = r 3 XOR r10;
         r12 = r 4 XOR sub_bytes4 0 1 2 3 r11;
         r13 = r 5 XOR r12; r14 = r 6 XOR r13; r15 = r 7 XOR r14
     in rk @ [r8, r9, r10, r11, r12, r13, r14, r15])"

definition mbedtls_aes_setkey_enc :: "bytes \<Rightarrow> nat \<Rightarrow> mbedtls_aes_context option" where
  "mbedtls_aes_setkey_enc key keybits =
    (let rk = map (\<lambda>i. get_uint32_le key (4 * i)) [0..<keybits div 32] in
     if keybits = 128 then Some \<lparr>aes_nr = 10, aes_rk = foldl expand128 rk [0..<10]\<rparr>
     else if keybits = 192 then Some \<lparr>aes_nr = 12, aes_rk = foldl expand192 rk [0..<8]\<rparr>
     else if keybits = 256 then Some \<lparr>aes_nr = 14, aes_rk = foldl expand256 rk [0..<7]\<rparr>
     else None)"

text \<open>\<open>AES_FROUND\<close> with the round key at \<open>off\<close>.\<close>

definition aes_fround :: "u32 list \<Rightarrow> nat \<Rightarrow> u32 list \<Rightarrow> u32 list" where
  "aes_fround rk off Y = map (\<lambda>j. rk ! (off + j) XOR FT0 ! unat (byte_of 0 (Y ! j)) XOR FT1 ! unat (byte_of 1 (Y ! ((j + 1) mod 4)))
     XOR FT2 ! unat (byte_of 2 (Y ! ((j + 2) mod 4))) XOR FT3 ! unat (byte_of 3 (Y ! ((j + 3) mod 4)))) [0..<4]"

fun aes_loop :: "u32 list \<Rightarrow> nat \<Rightarrow> nat \<Rightarrow> u32 list \<Rightarrow> nat \<times> u32 list" where
  "aes_loop rk 0 off X = (off, X)"
| "aes_loop rk (Suc i) off X = aes_loop rk i (off + 8) (aes_fround rk (off + 4) (aes_fround rk off X))"

definition mbedtls_internal_aes_encrypt :: "mbedtls_aes_context \<Rightarrow> bytes \<Rightarrow> bytes" where
  "mbedtls_internal_aes_encrypt ctx input =
    (let rk = aes_rk ctx;
         X = map (\<lambda>j. get_uint32_le input (4 * j) XOR rk ! j) [0..<4];
         (off, X) = aes_loop rk (aes_nr ctx div 2 - 1) 4 X;
         Y = aes_fround rk off X;
         off = off + 4;
         X = map (\<lambda>j. rk ! (off + j) XOR ucast (FSb ! unat (byte_of 0 (Y ! j)))
               XOR push_bit 8 (ucast (FSb ! unat (byte_of 1 (Y ! ((j + 1) mod 4)))))
               XOR push_bit 16 (ucast (FSb ! unat (byte_of 2 (Y ! ((j + 2) mod 4)))))
               XOR push_bit 24 (ucast (FSb ! unat (byte_of 3 (Y ! ((j + 3) mod 4)))))) [0..<4]
     in concat (map le_bytes32 X))"

section \<open>Reference: FIPS 197\<close>

text \<open>Multiplication in the field, bit by bit of the second factor, and the affine map of the S-box.\<close>

fun gf_mul_n :: "nat \<Rightarrow> u8 \<Rightarrow> u8 \<Rightarrow> u8" where
  "gf_mul_n 0 x y = 0"
| "gf_mul_n (Suc n) x y = (if y AND 1 \<noteq> 0 then x else 0) XOR gf_mul_n n (XTIME x) (drop_bit 1 y)"

definition gf_mul :: "u8 \<Rightarrow> u8 \<Rightarrow> u8" where "gf_mul = gf_mul_n 8"

definition affine :: "u8 \<Rightarrow> u8" where
  "affine b = b XOR word_rotl 1 b XOR word_rotl 2 b XOR word_rotl 3 b XOR word_rotl 4 b XOR 0x63"

definition is_sbox :: "(u8 \<Rightarrow> u8) \<Rightarrow> bool" where
  "is_sbox S \<longleftrightarrow> (\<forall>x. \<exists>z. (if x = 0 then z = 0 else gf_mul x z = 1) \<and> S x = affine z)"

definition SubBytes :: "(u8 \<Rightarrow> u8) \<Rightarrow> bytes \<Rightarrow> bytes" where
  "SubBytes S s = map S s"

definition ShiftRows :: "bytes \<Rightarrow> bytes" where
  "ShiftRows s = map (\<lambda>i. s ! (i mod 4 + 4 * ((i div 4 + i mod 4) mod 4))) [0..<16]"

definition MixColumns :: "bytes \<Rightarrow> bytes" where
  "MixColumns s = concat (map (\<lambda>c. let a = (\<lambda>r. s ! (4 * c + r)) in
     [gf_mul (a 0) 2 XOR gf_mul (a 1) 3 XOR a 2 XOR a 3, a 0 XOR gf_mul (a 1) 2 XOR gf_mul (a 2) 3 XOR a 3,
      a 0 XOR a 1 XOR gf_mul (a 2) 2 XOR gf_mul (a 3) 3, gf_mul (a 0) 3 XOR a 1 XOR a 2 XOR gf_mul (a 3) 2]) [0..<4])"

definition AddRoundKey :: "u32 list \<Rightarrow> nat \<Rightarrow> bytes \<Rightarrow> bytes" where
  "AddRoundKey w r s = map2 (XOR) s (concat (map (\<lambda>j. le_bytes32 (w ! (4 * r + j))) [0..<4]))"

definition aes_round :: "(u8 \<Rightarrow> u8) \<Rightarrow> u32 list \<Rightarrow> bytes \<Rightarrow> nat \<Rightarrow> bytes" where
  "aes_round S w s r = AddRoundKey w r (MixColumns (ShiftRows (SubBytes S s)))"

definition Cipher :: "(u8 \<Rightarrow> u8) \<Rightarrow> nat \<Rightarrow> u32 list \<Rightarrow> bytes \<Rightarrow> bytes" where
  "Cipher S nr w s = AddRoundKey w nr (ShiftRows (SubBytes S (foldl (aes_round S w) (AddRoundKey w 0 s) [1..<nr])))"

section \<open>The generated tables\<close>

definition pow_table :: "u8 list" where
  "pow_table = [
    0x01, 0x03, 0x05, 0x0F, 0x11, 0x33, 0x55, 0xFF, 0x1A, 0x2E, 0x72, 0x96, 0xA1, 0xF8, 0x13, 0x35,
    0x5F, 0xE1, 0x38, 0x48, 0xD8, 0x73, 0x95, 0xA4, 0xF7, 0x02, 0x06, 0x0A, 0x1E, 0x22, 0x66, 0xAA,
    0xE5, 0x34, 0x5C, 0xE4, 0x37, 0x59, 0xEB, 0x26, 0x6A, 0xBE, 0xD9, 0x70, 0x90, 0xAB, 0xE6, 0x31,
    0x53, 0xF5, 0x04, 0x0C, 0x14, 0x3C, 0x44, 0xCC, 0x4F, 0xD1, 0x68, 0xB8, 0xD3, 0x6E, 0xB2, 0xCD,
    0x4C, 0xD4, 0x67, 0xA9, 0xE0, 0x3B, 0x4D, 0xD7, 0x62, 0xA6, 0xF1, 0x08, 0x18, 0x28, 0x78, 0x88,
    0x83, 0x9E, 0xB9, 0xD0, 0x6B, 0xBD, 0xDC, 0x7F, 0x81, 0x98, 0xB3, 0xCE, 0x49, 0xDB, 0x76, 0x9A,
    0xB5, 0xC4, 0x57, 0xF9, 0x10, 0x30, 0x50, 0xF0, 0x0B, 0x1D, 0x27, 0x69, 0xBB, 0xD6, 0x61, 0xA3,
    0xFE, 0x19, 0x2B, 0x7D, 0x87, 0x92, 0xAD, 0xEC, 0x2F, 0x71, 0x93, 0xAE, 0xE9, 0x20, 0x60, 0xA0,
    0xFB, 0x16, 0x3A, 0x4E, 0xD2, 0x6D, 0xB7, 0xC2, 0x5D, 0xE7, 0x32, 0x56, 0xFA, 0x15, 0x3F, 0x41,
    0xC3, 0x5E, 0xE2, 0x3D, 0x47, 0xC9, 0x40, 0xC0, 0x5B, 0xED, 0x2C, 0x74, 0x9C, 0xBF, 0xDA, 0x75,
    0x9F, 0xBA, 0xD5, 0x64, 0xAC, 0xEF, 0x2A, 0x7E, 0x82, 0x9D, 0xBC, 0xDF, 0x7A, 0x8E, 0x89, 0x80,
    0x9B, 0xB6, 0xC1, 0x58, 0xE8, 0x23, 0x65, 0xAF, 0xEA, 0x25, 0x6F, 0xB1, 0xC8, 0x43, 0xC5, 0x54,
    0xFC, 0x1F, 0x21, 0x63, 0xA5, 0xF4, 0x07, 0x09, 0x1B, 0x2D, 0x77, 0x99, 0xB0, 0xCB, 0x46, 0xCA,
    0x45, 0xCF, 0x4A, 0xDE, 0x79, 0x8B, 0x86, 0x91, 0xA8, 0xE3, 0x3E, 0x42, 0xC6, 0x51, 0xF3, 0x0E,
    0x12, 0x36, 0x5A, 0xEE, 0x29, 0x7B, 0x8D, 0x8C, 0x8F, 0x8A, 0x85, 0x94, 0xA7, 0xF2, 0x0D, 0x17,
    0x39, 0x4B, 0xDD, 0x7C, 0x84, 0x97, 0xA2, 0xFD, 0x1C, 0x24, 0x6C, 0xB4, 0xC7, 0x52, 0xF6, 0x01]"

definition gen_step :: "u8 \<Rightarrow> u8" where
  "gen_step x = x XOR XTIME x"

lemma gf_mul_unfold:
  "gf_mul x y = (let x1 = XTIME x; x2 = XTIME x1; x3 = XTIME x2; x4 = XTIME x3; x5 = XTIME x4; x6 = XTIME x5; x7 = XTIME x6 in
     (if bit y 0 then x else 0) XOR (if bit y 1 then x1 else 0) XOR (if bit y 2 then x2 else 0) XOR (if bit y 3 then x3 else 0) XOR
     (if bit y 4 then x4 else 0) XOR (if bit y 5 then x5 else 0) XOR (if bit y 6 then x6 else 0) XOR (if bit y 7 then x7 else 0))"
  by (simp add: gf_mul_def numeral_eq_Suc Let_def word_and_1_iff bit_drop_bit_eq)

lemma table_steps: "list_all (\<lambda>(x, y). gen_step x = y) (zip pow_table (tl pow_table))"
  by (simp add: pow_table_def gen_step_def XTIME_def)

lemma table_inverse: "list_all (\<lambda>(x, z). gf_mul x z = 1) (zip pow_table (rev pow_table))"
  by (simp add: pow_table_def XTIME_def gf_mul_unfold)

lemma table_no_1: "list_all (\<lambda>x. x \<noteq> 0 \<and> x \<noteq> 1) (butlast (tl pow_table))" "length pow_table = 256" "pow_table ! 0 = 1" "last pow_table = 1"
  by (simp_all add: pow_table_def)

lemma pow_table_nth: "k < 256 \<Longrightarrow> pow_table ! k = (gen_step ^^ k) 1"
proof (induction k)
  case (Suc k)
  have "gen_step (pow_table ! k) = pow_table ! Suc k"
    using table_steps Suc.prems by (simp add: list_all_length table_no_1 nth_tl)
  then show ?case using Suc by simp
qed (simp add: table_no_1)

lemma powers:
  shows "(gen_step ^^ 255) 1 = 1"
    and "0 < k \<Longrightarrow> k < 255 \<Longrightarrow> (gen_step ^^ k) 1 \<noteq> 0 \<and> (gen_step ^^ k) 1 \<noteq> 1"
    and "k \<le> 255 \<Longrightarrow> gf_mul ((gen_step ^^ k) 1) ((gen_step ^^ (255 - k)) 1) = 1"
proof -
  have l: "pow_table \<noteq> []" using table_no_1(2) by auto
  show "(gen_step ^^ 255) 1 = 1" using table_no_1(2,4) pow_table_nth[of 255] by (simp add: last_conv_nth l)
  show "(gen_step ^^ k) 1 \<noteq> 0 \<and> (gen_step ^^ k) 1 \<noteq> 1" if "0 < k" "k < 255"
    using table_no_1(1,2) pow_table_nth[of k] that
    by (auto simp: list_all_length nth_butlast nth_tl dest!: spec[of _ "k - 1"])
  show "gf_mul ((gen_step ^^ k) 1) ((gen_step ^^ (255 - k)) 1) = 1" if "k \<le> 255"
    using table_inverse table_no_1(2) pow_table_nth[of k] pow_table_nth[of "255 - k"] that
    by (auto simp: list_all_length rev_nth dest!: spec[of _ k])
qed

lemma bit_XTIME: "bit (XTIME x) i \<longleftrightarrow> i < 8 \<and> ((0 < i \<and> bit x (i - 1)) \<noteq> (bit x 7 \<and> i \<in> {0, 1, 3, 4}))"
proof -
  have "bit (0x1B :: u8) i \<longleftrightarrow> i \<in> {0, 1, 3, 4}"
    by (auto simp: bit_numeral_rec bit_1_iff split: nat.splits)
  moreover have "(x AND 0x80 \<noteq> 0) = bit x 7"
    using and_exp_eq_0_iff_not_bit[of x 7] by simp
  moreover have "bit (push_bit 1 x) i \<longleftrightarrow> i < 8 \<and> 0 < i \<and> bit x (i - 1)"
    by (simp only: bit_push_bit_iff possible_bit_word) auto
  moreover have "bit (0x1B :: u8) i \<Longrightarrow> i < 8" using bit_imp_le_length[of "0x1B :: u8" i] by simp
  ultimately show ?thesis unfolding XTIME_def bit_xor_iff by auto
qed

lemma gen_step_inj: "gen_step x = gen_step y \<Longrightarrow> x = y"
proof -
  assume eq: "gen_step x = gen_step y"
  have b: "bit (gen_step z) i \<longleftrightarrow> bit z i \<noteq> bit (XTIME z) i" for z i by (simp add: gen_step_def bit_xor_iff)
  have "\<forall>i < 8. bit x i = bit y i"
  proof -
    have "\<And>i. bit (gen_step x) i = bit (gen_step y) i" by (simp add: eq)
    from this[of 0] this[of 1] this[of 2] this[of 3] this[of 4] this[of 5] this[of 6] this[of 7]
    have "bit x 0 = bit y 0 \<and> bit x 1 = bit y 1 \<and> bit x 2 = bit y 2 \<and> bit x 3 = bit y 3
        \<and> bit x 4 = bit y 4 \<and> bit x 5 = bit y 5 \<and> bit x 6 = bit y 6 \<and> bit x 7 = bit y 7"
      unfolding b bit_XTIME by simp argo
    then show ?thesis by (auto simp: less_Suc_eq numeral_eq_Suc)
  qed
  then show "x = y" by (intro bit_word_eqI) simp
qed

lemma power_cancel: "(gen_step ^^ i) x = (gen_step ^^ i) y \<Longrightarrow> x = y"
  by (induction i) (auto dest: gen_step_inj)

lemma powers_distinct:
  assumes "0 < i" "i < j" "j \<le> 255"
  shows "(gen_step ^^ i) 1 \<noteq> (gen_step ^^ j) 1"
proof
  assume "(gen_step ^^ i) 1 = (gen_step ^^ j) 1"
  moreover have "(gen_step ^^ j) 1 = (gen_step ^^ i) ((gen_step ^^ (j - i)) 1)"
    using assms by (simp flip: funpow_add comp_apply[of "gen_step ^^ i" "gen_step ^^ (j - i)"])
  ultimately have "(gen_step ^^ (j - i)) 1 = 1" using power_cancel[of i 1] by metis
  then show False using powers(2)[of "j - i"] assms by simp
qed

lemma all_powers: "x \<noteq> 0 \<Longrightarrow> \<exists>k. 0 < k \<and> k \<le> 255 \<and> x = (gen_step ^^ k) 1"
proof -
  let ?f = "\<lambda>k. (gen_step ^^ k) (1 :: u8)"
  have nz: "?f k \<noteq> 0" if "k \<in> {1..255}" for k using powers(1) powers(2)[of k] that by (cases "k = 255") auto
  have "inj_on ?f {1..255}"
  proof (rule inj_onI)
    fix i j :: nat assume "i \<in> {1..255}" "j \<in> {1..255}" "?f i = ?f j"
    then show "i = j" using powers_distinct[of i j] powers_distinct[of j i] by (cases i j rule: linorder_cases) auto
  qed
  then have "card (?f ` {1..255}) = 255" by (simp add: card_image)
  moreover have "card (UNIV - {0 :: u8}) = 255" by (simp add: card_Diff_singleton card_word)
  moreover have "?f ` {1..255} \<subseteq> UNIV - {0}" using nz by auto
  ultimately have "?f ` {1..255} = UNIV - {0}" by (intro card_subset_eq) auto
  then have "x \<noteq> 0 \<Longrightarrow> x \<in> ?f ` {1..255}" by blast
  then show "x \<noteq> 0 \<Longrightarrow> \<exists>k. 0 < k \<and> k \<le> 255 \<and> x = ?f k" by (auto simp: Suc_le_eq)
qed

lemma pow_log_eq:
  "pow_log n i x pow log = (pow @ map (\<lambda>k. (gen_step ^^ k) x) [0..<n],
     foldl (\<lambda>l k. l[unat ((gen_step ^^ k) x) := i + k]) log [0..<n])"
proof (induction n arbitrary: i x pow log)
  case (Suc n)
  have "[0..<Suc n] = 0 # map Suc [0..<n]" by (simp add: map_Suc_upt upt_conv_Cons)
  then show ?case using Suc by (simp add: gen_step_def[symmetric] foldl_map funpow_swap1 comp_def)
qed simp

lemma foldl_update_nth:
  "k < n \<Longrightarrow> f k < length l \<Longrightarrow> \<forall>j. k < j \<and> j < n \<longrightarrow> f j \<noteq> f k \<Longrightarrow>
    length (foldl (\<lambda>l j. l[f j := g j]) l [0..<n]) = length l \<and> foldl (\<lambda>l j. l[f j := g j]) l [0..<n] ! f k = g k"
proof (induction n)
  case (Suc n)
  have len: "length (foldl (\<lambda>l j. l[f j := g j]) l js) = length l" for js :: "nat list" by (induction js arbitrary: l) simp_all
  show ?case using Suc len by (cases "k = n") (auto simp: less_Suc_eq)
qed simp

lemma aes_pow_log:
  assumes "0 < k" "k \<le> 255"
  shows "aes_log ! unat ((gen_step ^^ k) 1) = k" and "aes_pow ! k = (gen_step ^^ k) 1" and "aes_pow ! 0 = 1"
proof -
  have "unat ((gen_step ^^ k) 1 :: u8) < length (replicate 256 (0 :: nat))" using unat_u8_less by simp
  moreover have "k < 256" using assms by simp
  moreover have "\<forall>j. k < j \<and> j < 256 \<longrightarrow> unat ((gen_step ^^ j) 1 :: u8) \<noteq> unat ((gen_step ^^ k) 1 :: u8)"
  proof (intro allI impI)
    fix j assume "k < j \<and> j < 256"
    then have "(gen_step ^^ k) 1 \<noteq> (gen_step ^^ j) 1" by (intro powers_distinct) (use assms in simp_all)
    then show "unat ((gen_step ^^ j) 1 :: u8) \<noteq> unat ((gen_step ^^ k) 1 :: u8)" by (simp flip: word_unat_eq_iff)
  qed
  ultimately have "foldl (\<lambda>l j. l[unat ((gen_step ^^ j) 1 :: u8) := j]) (replicate 256 0) [0..<256] ! unat ((gen_step ^^ k) 1 :: u8) = k"
    using foldl_update_nth[of k 256 "\<lambda>k. unat ((gen_step ^^ k) 1 :: u8)" "replicate 256 0" "\<lambda>k. k"] by blast
  then show "aes_log ! unat ((gen_step ^^ k) 1) = k" unfolding aes_log_def pow_log_eq by (simp only: snd_conv add_0)
  show "aes_pow ! k = (gen_step ^^ k) 1" "aes_pow ! 0 = 1" using assms by (simp_all add: aes_pow_def pow_log_eq)
qed

end
