(* ===== verification/Aes_Cipher.thy ===== *)
theory Aes_Cipher
  imports Aes
begin

text \<open>
  The encryption of \<open>aes.c\<close> is the cipher of FIPS 197: the generated S-box is the inversion followed by the
  affine map, one round of table look-ups is SubBytes, ShiftRows, MixColumns and AddRoundKey, and the whole
  unrolled function is the cipher over the expanded key.
\<close>

section \<open>The S-box\<close>

definition sbox :: "u8 \<Rightarrow> u8" where
  "sbox x = FSb ! unat x"

lemma less_8_cases: "n < 8 \<Longrightarrow> n = 0 \<or> n = 1 \<or> n = 2 \<or> n = 3 \<or> n = 4 \<or> n = 5 \<or> n = 6 \<or> n = (7 :: nat)"
  by auto

lemma rotl1_eq: "rotl1 y = word_rotl 1 y"
proof (rule bit_word_eqI)
  fix n assume "n < LENGTH(8)"
  then have "n = 0 \<or> n = 1 \<or> n = 2 \<or> n = 3 \<or> n = 4 \<or> n = 5 \<or> n = 6 \<or> n = 7" using less_8_cases by simp
  then show "bit (rotl1 y) n = bit (word_rotl 1 y) n"
    unfolding rotl1_def bit_or_iff bit_push_bit_iff bit_drop_bit_eq bit_word_rotl_iff
    by (elim disjE) (simp_all add: impossible_bit possible_bit_word)
qed

lemma word_rotl_Suc: "word_rotl 1 (word_rotl k y) = word_rotl (Suc k) (y :: u8)" if "k \<in> {1, 2, 3}"
proof (rule bit_word_eqI)
  fix n assume "n < LENGTH(8)"
  then have "n = 0 \<or> n = 1 \<or> n = 2 \<or> n = 3 \<or> n = 4 \<or> n = 5 \<or> n = 6 \<or> n = 7" using less_8_cases by simp
  then show "bit (word_rotl 1 (word_rotl k y)) n = bit (word_rotl (Suc k) y) n"
    using that by (elim disjE insertE emptyE) (simp_all add: bit_word_rotl_iff)
qed

lemma fsb_mix_eq: "fsb_mix x = affine x"
  using word_rotl_Suc[of 1 x] word_rotl_Suc[of 2 x] word_rotl_Suc[of 3 x]
  by (simp add: fsb_mix_def affine_def Let_def rotl1_eq xor.assoc numeral_2_eq_2 numeral_3_eq_3 eval_nat_numeral)

lemma sbox_0: "sbox 0 = 0x63"
  by (simp add: sbox_def FSb_def)

lemma sbox_power:
  assumes "0 < k" "k \<le> 255"
  shows "sbox ((gen_step ^^ k) 1) = affine ((gen_step ^^ (255 - k)) 1)"
proof -
  let ?x = "(gen_step ^^ k) 1 :: u8"
  have "?x \<noteq> 0" using powers(1) powers(2)[of k] assms by (cases "k = 255") auto
  then have "unat ?x \<noteq> 0" by (simp add: unat_eq_0)
  then have "sbox ?x = affine (aes_pow ! (255 - k))"
    using unat_u8_less[of ?x] aes_pow_log(1)[OF assms] by (simp add: sbox_def FSb_def fsb_mix_eq)
  also have "aes_pow ! (255 - k) = (gen_step ^^ (255 - k)) 1"
    using aes_pow_log(2)[of "255 - k"] aes_pow_log(3)[of 1] assms by (cases "k = 255") simp_all
  finally show ?thesis .
qed

lemma is_sbox_sbox: "is_sbox sbox"
  unfolding is_sbox_def
proof
  fix x :: u8
  show "\<exists>z. (if x = 0 then z = 0 else gf_mul x z = 1) \<and> sbox x = affine z"
  proof (cases "x = 0")
    case False
    then obtain k where "0 < k" "k \<le> 255" "x = (gen_step ^^ k) 1" using all_powers by blast
    then show ?thesis using False sbox_power powers(3) by (intro exI[of _ "(gen_step ^^ (255 - k)) 1"]) simp
  qed (simp add: sbox_0 affine_def)
qed

lemma rom_entries: "list_all (\<lambda>(x, z). FSb_rom ! unat x = fsb_mix z) (zip (tl pow_table) (tl (rev pow_table)))"
  by (simp add: pow_table_def FSb_rom_def fsb_mix_def rotl1_def Let_def)

lemma rom_0: "FSb_rom ! 0 = 0x63" "length FSb_rom = 256"
  by (simp_all add: FSb_rom_def)

text \<open>The S-box that \<open>aes_gen_tables\<close> computes at start-up from the powers of 3 and their logarithms is, entry by
  entry, the table the source lists for builds that keep it in ROM.\<close>

theorem generated_sbox_is_rom: "FSb = FSb_rom"
proof (rule nth_equalityI)
  fix i assume "i < length FSb"
  then have i: "i < 256" by (simp add: FSb_def)
  let ?x = "word_of_nat i :: u8"
  have u: "unat ?x = i" using i by (simp add: unat_of_nat take_bit_eq_mod)
  show "FSb ! i = FSb_rom ! i"
  proof (cases "?x = 0")
    case True
    then show ?thesis using u rom_0(1) sbox_0 by (simp add: sbox_def)
  next
    case False
    then obtain k where k: "0 < k" "k \<le> 255" "?x = (gen_step ^^ k) 1" using all_powers by blast
    have "FSb_rom ! unat (tl pow_table ! (k - 1)) = fsb_mix (tl (rev pow_table) ! (k - 1))"
      using rom_entries k table_no_1(2) by (auto simp: list_all_length dest!: spec[of _ "k - 1"])
    then have "FSb_rom ! unat ?x = affine ((gen_step ^^ (255 - k)) 1)"
      using k pow_table_nth[of k] pow_table_nth[of "255 - k"] table_no_1(2) by (simp add: nth_tl rev_nth fsb_mix_eq)
    then show ?thesis using sbox_power[OF k(1,2)] k(3) u by (simp add: sbox_def)
  qed
qed (simp add: FSb_def rom_0)

section \<open>Words and bytes\<close>

lemma le_word32_bits:
  "bit (le_word32 a b c d) n \<longleftrightarrow> n < 32 \<and>
    (if n < 8 then bit a n else if n < 16 then bit b (n - 8) else if n < 24 then bit c (n - 16) else bit d (n - 24))"
  by (auto simp: le_word32_def bit_simps dest: bit_imp_le_length)

lemma le_word32_xor:
  "le_word32 a b c d XOR le_word32 a' b' c' d' = le_word32 (a XOR a') (b XOR b') (c XOR c') (d XOR d')"
  by (rule bit_word_eqI) (simp add: le_word32_bits bit_xor_iff)

lemma xor_bytes:
  "ucast a XOR push_bit 8 (ucast b) XOR push_bit 16 (ucast c) XOR push_bit 24 (ucast d) = le_word32 a b c d"
  by (rule bit_word_eqI) (auto simp: le_word32_bits bit_simps dest: bit_imp_le_length)

lemma ROTL8_word: "ROTL8 (le_word32 a b c d) = le_word32 d a b c"
  by (rule bit_word_eqI) (auto simp: le_word32_bits ROTL8_def bit_or_iff bit_push_bit_iff bit_drop_bit_eq possible_bit_word)

lemma byte_of_word:
  "byte_of 0 (le_word32 a b c d) = a" "byte_of (Suc 0) (le_word32 a b c d) = b" "byte_of 2 (le_word32 a b c d) = c" "byte_of 3 (le_word32 a b c d) = d"
  by (auto intro!: bit_word_eqI simp: le_word32_bits byte_of_def bit_simps)

lemma le_bytes32_word: "le_bytes32 (le_word32 a b c d) = [a, b, c, d]"
  using byte_of_word[of a b c d] by (simp add: le_bytes32_def byte_of_def)

lemma gf_mul_2_3: "gf_mul x 2 = XTIME x" "gf_mul x 3 = XTIME x XOR x"
  by (simp_all add: gf_mul_unfold Let_def xor.commute)

lemma FT_nth:
  "FT0 ! unat x = le_word32 (XTIME (sbox x)) (sbox x) (sbox x) (XTIME (sbox x) XOR sbox x)"
  "FT1 ! unat x = le_word32 (XTIME (sbox x) XOR sbox x) (XTIME (sbox x)) (sbox x) (sbox x)"
  "FT2 ! unat x = le_word32 (sbox x) (XTIME (sbox x) XOR sbox x) (XTIME (sbox x)) (sbox x)"
  "FT3 ! unat x = le_word32 (sbox x) (sbox x) (XTIME (sbox x) XOR sbox x) (XTIME (sbox x))"
proof -
  have x: "unat x < 256" using unat_u8_less .
  show 0: "FT0 ! unat x = le_word32 (XTIME (sbox x)) (sbox x) (sbox x) (XTIME (sbox x) XOR sbox x)"
    using x by (simp add: FT0_def Let_def sbox_def flip: xor_bytes)
  show 1: "FT1 ! unat x = le_word32 (XTIME (sbox x) XOR sbox x) (XTIME (sbox x)) (sbox x) (sbox x)"
    using x by (simp add: FT1_def 0 ROTL8_word)
  show 2: "FT2 ! unat x = le_word32 (sbox x) (XTIME (sbox x) XOR sbox x) (XTIME (sbox x)) (sbox x)"
    using x by (simp add: FT2_def 1 ROTL8_word)
  show "FT3 ! unat x = le_word32 (sbox x) (sbox x) (XTIME (sbox x) XOR sbox x) (XTIME (sbox x))"
    using x by (simp add: FT3_def 2 ROTL8_word)
qed

section \<open>Rounds\<close>

definition state_words :: "bytes \<Rightarrow> u32 list" where
  "state_words s = map (\<lambda>j. get_uint32_le s (4 * j)) [0..<4]"

lemma upt_4: "[0..<4] = [0, 1, 2, 3 :: nat]" and upt_16: "[0..<16] = [0, 1, 2, 3, 4, 5, 6, 7, 8, 9, 10, 11, 12, 13, 14, 15 :: nat]"
  by (simp_all add: upt_rec)

lemma state_16:
  assumes "length s = 16"
  obtains s0 s1 s2 s3 s4 s5 s6 s7 s8 s9 s10 s11 s12 s13 s14 s15 where
    "s = [s0, s1, s2, s3, s4, s5, s6, s7, s8, s9, s10, s11, s12, s13, s14, s15]"
  using assms by (auto simp: length_Suc_conv numeral_eq_Suc)

lemma word_of_bytes: obtains a b c d where "w = le_word32 a b c d"
  using le_word32_le_bytes32[of w] by metis

lemma key_words:
  obtains k0 k1 k2 k3 k4 k5 k6 k7 k8 k9 k10 k11 k12 k13 k14 k15 where
    "w ! i = le_word32 k0 k1 k2 k3" "w ! (i + 1) = le_word32 k4 k5 k6 k7"
    "w ! (i + 2) = le_word32 k8 k9 k10 k11" "w ! (i + 3) = le_word32 k12 k13 k14 k15"
  by (metis word_of_bytes)

lemma fround_state:
  assumes "length s = 16"
  shows "aes_fround w (4 * r) (state_words s) = state_words (aes_round sbox w s r)"
    and "length (aes_round sbox w s r) = 16"
proof -
  obtain s0 s1 s2 s3 s4 s5 s6 s7 s8 s9 s10 s11 s12 s13 s14 s15 where
    s: "s = [s0, s1, s2, s3, s4, s5, s6, s7, s8, s9, s10, s11, s12, s13, s14, s15]"
    using assms by (rule state_16)
  obtain k0 k1 k2 k3 k4 k5 k6 k7 k8 k9 k10 k11 k12 k13 k14 k15 where
    k: "w ! (4 * r) = le_word32 k0 k1 k2 k3" "w ! (4 * r + 1) = le_word32 k4 k5 k6 k7"
    "w ! (4 * r + 2) = le_word32 k8 k9 k10 k11" "w ! (4 * r + 3) = le_word32 k12 k13 k14 k15"
    by (rule key_words)
  show "length (aes_round sbox w s r) = 16"
    by (simp add: aes_round_def AddRoundKey_def MixColumns_def upt_4 Let_def)
  show "aes_fround w (4 * r) (state_words s) = state_words (aes_round sbox w s r)"
    by (simp add: aes_fround_def state_words_def aes_round_def AddRoundKey_def MixColumns_def ShiftRows_def SubBytes_def s k[simplified]
        get_uint32_le_def upt_4 upt_16 Let_def le_bytes32_word byte_of_word FT_nth gf_mul_2_3 le_word32_xor
        xor.assoc xor.commute xor.left_commute)
qed

lemma final_state:
  assumes "length s = 16"
  shows "map (\<lambda>j. w ! (4 * r + j) XOR ucast (FSb ! unat (byte_of 0 (state_words s ! j)))
               XOR push_bit 8 (ucast (FSb ! unat (byte_of 1 (state_words s ! ((j + 1) mod 4)))))
               XOR push_bit 16 (ucast (FSb ! unat (byte_of 2 (state_words s ! ((j + 2) mod 4)))))
               XOR push_bit 24 (ucast (FSb ! unat (byte_of 3 (state_words s ! ((j + 3) mod 4)))))) [0..<4]
    = state_words (AddRoundKey w r (ShiftRows (SubBytes sbox s)))"
    and "length (AddRoundKey w r (ShiftRows (SubBytes sbox s))) = 16"
proof -
  obtain s0 s1 s2 s3 s4 s5 s6 s7 s8 s9 s10 s11 s12 s13 s14 s15 where
    s: "s = [s0, s1, s2, s3, s4, s5, s6, s7, s8, s9, s10, s11, s12, s13, s14, s15]"
    using assms by (rule state_16)
  obtain k0 k1 k2 k3 k4 k5 k6 k7 k8 k9 k10 k11 k12 k13 k14 k15 where
    k: "w ! (4 * r) = le_word32 k0 k1 k2 k3" "w ! (4 * r + 1) = le_word32 k4 k5 k6 k7"
    "w ! (4 * r + 2) = le_word32 k8 k9 k10 k11" "w ! (4 * r + 3) = le_word32 k12 k13 k14 k15"
    by (rule key_words)
  show "length (AddRoundKey w r (ShiftRows (SubBytes sbox s))) = 16"
    by (simp add: AddRoundKey_def ShiftRows_def upt_4)
  show "map (\<lambda>j. w ! (4 * r + j) XOR ucast (FSb ! unat (byte_of 0 (state_words s ! j)))
               XOR push_bit 8 (ucast (FSb ! unat (byte_of 1 (state_words s ! ((j + 1) mod 4)))))
               XOR push_bit 16 (ucast (FSb ! unat (byte_of 2 (state_words s ! ((j + 2) mod 4)))))
               XOR push_bit 24 (ucast (FSb ! unat (byte_of 3 (state_words s ! ((j + 3) mod 4)))))) [0..<4]
    = state_words (AddRoundKey w r (ShiftRows (SubBytes sbox s)))"
    by (simp only: xor_bytes) (simp add: state_words_def AddRoundKey_def ShiftRows_def SubBytes_def s k[simplified] sbox_def
        get_uint32_le_def upt_4 upt_16 le_bytes32_word byte_of_word le_word32_xor xor.commute)
qed

section \<open>The cipher\<close>

lemma loop_state:
  "length s = 16 \<Longrightarrow> aes_loop w n (4 * r) (state_words s) =
     (4 * (r + 2 * n), state_words (foldl (aes_round sbox w) s [r..<r + 2 * n]))"
proof (induction n arbitrary: r s)
  case (Suc n)
  let ?s1 = "aes_round sbox w s r"
  have 1: "aes_fround w (4 * r) (state_words s) = state_words ?s1" "length ?s1 = 16" using fround_state Suc.prems by auto
  have 2: "aes_fround w (4 * (r + 1)) (state_words ?s1) = state_words (aes_round sbox w ?s1 (r + 1))"
    "length (aes_round sbox w ?s1 (r + 1)) = 16" using fround_state[OF 1(2)] by blast+
  have u: "[r..<r + 2 * Suc n] = r # (r + 1) # [r + 2..<r + 2 + 2 * n]" by (simp add: upt_conv_Cons)
  show ?case unfolding u using 1 2 Suc.IH[OF 2(2), of "r + 2"] by (simp add: add.commute add.left_commute)
qed simp

lemma length_rounds: "length s = 16 \<Longrightarrow> length (foldl (aes_round sbox w) s rs) = 16"
  using fround_state(2) by (induction rs arbitrary: s) auto

lemma first_key:
  assumes "length s = 16"
  shows "map (\<lambda>j. get_uint32_le s (4 * j) XOR w ! j) [0..<4] = state_words (AddRoundKey w 0 s)"
    and "length (AddRoundKey w 0 s) = 16"
proof -
  obtain s0 s1 s2 s3 s4 s5 s6 s7 s8 s9 s10 s11 s12 s13 s14 s15 where
    s: "s = [s0, s1, s2, s3, s4, s5, s6, s7, s8, s9, s10, s11, s12, s13, s14, s15]"
    using assms by (rule state_16)
  obtain k0 k1 k2 k3 k4 k5 k6 k7 k8 k9 k10 k11 k12 k13 k14 k15 where
    k: "w ! 0 = le_word32 k0 k1 k2 k3" "w ! (0 + 1) = le_word32 k4 k5 k6 k7"
    "w ! (0 + 2) = le_word32 k8 k9 k10 k11" "w ! (0 + 3) = le_word32 k12 k13 k14 k15"
    by (rule key_words)
  have k2: "w ! 2 = le_word32 k8 k9 k10 k11" using k(3) by (simp only: add_0)
  show "map (\<lambda>j. get_uint32_le s (4 * j) XOR w ! j) [0..<4] = state_words (AddRoundKey w 0 s)"
    by (simp add: state_words_def AddRoundKey_def s k[simplified] k2 get_uint32_le_def upt_4 le_bytes32_word le_word32_xor)
  show "length (AddRoundKey w 0 s) = 16" using assms by (simp add: AddRoundKey_def upt_4)
qed

lemma state_bytes: "length s = 16 \<Longrightarrow> concat (map le_bytes32 (state_words s)) = s"
  by (erule state_16) (simp add: state_words_def get_uint32_le_def upt_4 le_bytes32_word)

lemma encrypt_eq_Cipher:
  assumes "even (aes_nr ctx)" and "4 \<le> aes_nr ctx" and "length input = 16"
  shows "mbedtls_internal_aes_encrypt ctx input = Cipher sbox (aes_nr ctx) (aes_rk ctx) input"
    and "length (mbedtls_internal_aes_encrypt ctx input) = 16"
proof -
  let ?w = "aes_rk ctx" and ?nr = "aes_nr ctx"
  let ?n = "?nr div 2 - 1"
  let ?s0 = "AddRoundKey ?w 0 input"
  let ?s1 = "foldl (aes_round sbox ?w) ?s0 [1..<1 + 2 * ?n]"
  have n: "1 + 2 * ?n = ?nr - 1" using assms(1,2) by (auto elim!: evenE)
  have l: "length ?s0 = 16" "length ?s1 = 16" using first_key(2) assms(3) length_rounds by auto
  let ?s2 = "aes_round sbox ?w ?s1 (?nr - 1)"
  have s2: "?s2 = foldl (aes_round sbox ?w) ?s0 [1..<?nr]" "length ?s2 = 16"
  proof -
    have "[1..<?nr] = [1..<1 + 2 * ?n] @ [?nr - 1]" using assms(2) unfolding n by (simp flip: upt_Suc_append)
    then show "?s2 = foldl (aes_round sbox ?w) ?s0 [1..<?nr]" by simp
  qed (rule fround_state(2)[OF l(2)])
  have loop: "aes_loop ?w ?n 4 (state_words ?s0) = (4 * (?nr - 1), state_words ?s1)"
    using loop_state[OF l(1), of ?w ?n 1] unfolding n by simp
  have off: "4 * (?nr - 1) + 4 = 4 * ?nr" using assms(2) by simp
  have "mbedtls_internal_aes_encrypt ctx input = AddRoundKey ?w ?nr (ShiftRows (SubBytes sbox ?s2))"
    by (simp only: mbedtls_internal_aes_encrypt_def Let_def first_key(1)[OF assms(3)] loop prod.case fround_state(1)[OF l(2)] off
        final_state(1)[OF s2(2)] state_bytes[OF final_state(2)[OF s2(2)]])
  then show "mbedtls_internal_aes_encrypt ctx input = Cipher sbox ?nr ?w input"
      "length (mbedtls_internal_aes_encrypt ctx input) = 16"
    using s2 final_state(2)[OF s2(2)] by (simp_all add: Cipher_def)
qed

section \<open>Key expansion\<close>

text \<open>The key expansion of FIPS 197, one word at a time, for keys of \<open>nk\<close> words.\<close>

definition SubWord :: "(u8 \<Rightarrow> u8) \<Rightarrow> u32 \<Rightarrow> u32" where
  "SubWord S w = le_word32 (S (byte_of 0 w)) (S (byte_of 1 w)) (S (byte_of 2 w)) (S (byte_of 3 w))"

definition RotWord :: "u32 \<Rightarrow> u32" where
  "RotWord w = le_word32 (byte_of 1 w) (byte_of 2 w) (byte_of 3 w) (byte_of 0 w)"

definition Rcon :: "nat \<Rightarrow> u32" where
  "Rcon j = le_word32 (((\<lambda>x. gf_mul x 2) ^^ (j - 1)) 1) 0 0 0"

definition key_word :: "(u8 \<Rightarrow> u8) \<Rightarrow> nat \<Rightarrow> u32 list \<Rightarrow> u32 list" where
  "key_word S nk w =
    (let i = length w; temp = w ! (i - 1) in
     w @ [w ! (i - nk) XOR
       (if i mod nk = 0 then SubWord S (RotWord temp) XOR Rcon (i div nk)
        else if 6 < nk \<and> i mod nk = 4 then SubWord S temp else temp)])"

definition KeyExpansion :: "(u8 \<Rightarrow> u8) \<Rightarrow> bytes \<Rightarrow> nat \<Rightarrow> u32 list" where
  "KeyExpansion S key nk =
     (key_word S nk ^^ (4 * (nk + 7) - nk)) (map (\<lambda>i. get_uint32_le key (4 * i)) [0..<nk])"

lemma sub_bytes4_eq: "sub_bytes4 1 2 3 0 w = SubWord sbox (RotWord w)" "sub_bytes4 0 1 2 3 w = SubWord sbox w"
  by (simp_all add: sub_bytes4_def xor_bytes SubWord_def RotWord_def byte_of_word sbox_def)

lemma Rcon_eq: "i < 10 \<Longrightarrow> round_constants ! i = Rcon (Suc i)"
proof -
  have "ucast a = le_word32 a 0 0 0" for a :: u8 by (simp add: le_word32_def)
  then show "i < 10 \<Longrightarrow> round_constants ! i = Rcon (Suc i)" by (simp add: round_constants_def Rcon_def gf_mul_2_3)
qed

lemma suffix_obtain: "m \<le> length xs \<Longrightarrow> \<exists>ys zs. xs = ys @ zs \<and> length zs = m"
  by (metis append_take_drop_id diff_diff_cancel length_drop)

lemma key_word_step:
  assumes "length ys = nk * i" and "length zs = nk + j" and "j < nk"
  shows "key_word S nk (ys @ zs) = ys @ zs @ [zs ! j XOR
    (let temp = zs ! (nk + j - 1) in if j = 0 then SubWord S (RotWord temp) XOR Rcon (Suc i) else if 6 < nk \<and> j = 4 then SubWord S temp else temp)]"
proof -
  have n: "length (ys @ zs) = nk * Suc i + j" using assms by simp
  have "(nk * Suc i + j) mod nk = j" "(nk * Suc i + j) div nk = Suc i" using assms(3) by (simp_all del: mult_Suc_right)
  moreover have "(ys @ zs) ! (nk * Suc i + j - 1) = zs ! (nk + j - 1)" "(ys @ zs) ! (nk * Suc i + j - nk) = zs ! j"
  proof -
    have "nk * Suc i + j - 1 = length ys + (nk + j - 1)" "nk * Suc i + j - nk = length ys + j" using assms by simp_all
    then show "(ys @ zs) ! (nk * Suc i + j - 1) = zs ! (nk + j - 1)" "(ys @ zs) ! (nk * Suc i + j - nk) = zs ! j"
      by (simp_all only: nth_append_length_plus)
  qed
  ultimately show ?thesis unfolding key_word_def n by (simp only: Let_def append_assoc)
qed

lemma suffix_words:
  assumes "length rk = nk * i + nk"
  obtains ys zs where "rk = ys @ zs" "length zs = nk" "length ys = nk * i"
  using assms suffix_obtain[of nk rk] by auto

lemma funpow_468: "(f ^^ 4) x = f (f (f (f x)))" "(f ^^ 6) x = f (f (f (f (f (f x)))))" "(f ^^ 8) x = f (f (f (f (f (f (f (f x)))))))"
  by (simp_all add: numeral_eq_Suc)

lemmas expand_simps = Let_def nth_append sub_bytes4_eq[unfolded One_nat_def] funpow_468 xor.assoc xor.commute xor.left_commute

lemma expand128_eq:
  assumes "length rk = 4 * i + 4" "i < 10"
  shows "expand128 rk i = (key_word sbox 4 ^^ 4) rk"
proof -
  obtain ys zs where r: "rk = ys @ zs" "length zs = 4" "length ys = 4 * i" using assms(1) by (rule suffix_words)
  moreover obtain a b c d where "zs = [a, b, c, d]" using r(2) by (auto simp: length_Suc_conv numeral_eq_Suc)
  ultimately show ?thesis
    using Rcon_eq[OF assms(2)] by (simp add: expand128_def key_word_step[of ys 4 i] expand_simps)
qed

lemma expand192_eq:
  assumes "length rk = 6 * i + 6" "i < 8"
  shows "expand192 rk i = (key_word sbox 6 ^^ 6) rk"
proof -
  obtain ys zs where r: "rk = ys @ zs" "length zs = 6" "length ys = 6 * i" using assms(1) by (rule suffix_words)
  moreover obtain a b c d e f where "zs = [a, b, c, d, e, f]" using r(2) by (auto simp: length_Suc_conv numeral_eq_Suc)
  ultimately show ?thesis
    using Rcon_eq[of i] assms(2) by (simp add: expand192_def key_word_step[of ys 6 i] expand_simps)
qed

lemma expand256_eq:
  assumes "length rk = 8 * i + 8" "i < 7"
  shows "expand256 rk i = (key_word sbox 8 ^^ 8) rk"
proof -
  obtain ys zs where r: "rk = ys @ zs" "length zs = 8" "length ys = 8 * i" using assms(1) by (rule suffix_words)
  moreover obtain a b c d e f g h where "zs = [a, b, c, d, e, f, g, h]" using r(2) by (auto simp: length_Suc_conv numeral_eq_Suc)
  ultimately show ?thesis
    using Rcon_eq[of i] assms(2) by (simp add: expand256_def key_word_step[of ys 8 i] expand_simps)
qed

lemma length_key_word [simp]: "length (key_word S nk w) = Suc (length w)"
  by (simp add: key_word_def Let_def)

lemma length_key_words [simp]: "length ((key_word S nk ^^ n) w) = n + length w"
  by (induction n) simp_all

lemma take_key_words: "n \<le> m \<Longrightarrow> take (n + length w) ((key_word S nk ^^ m) w) = (key_word S nk ^^ n) w"
proof (induction m)
  case (Suc m)
  have "take k (key_word S nk v) = take k v" if "k \<le> length v" for k v using that by (simp add: key_word_def Let_def)
  then show ?case using Suc by (cases "n = Suc m") simp_all
qed simp

lemma expand_all:
  assumes "\<And>rk i. length rk = nk * i + nk \<Longrightarrow> i < m \<Longrightarrow> ex rk i = (key_word S nk ^^ nk) rk" and "length rk = nk" and "n \<le> m"
  shows "foldl ex rk [0..<n] = (key_word S nk ^^ (nk * n)) rk"
  using assms(3)
proof (induction n)
  case (Suc n)
  then have "foldl ex rk [0..<Suc n] = (key_word S nk ^^ nk) ((key_word S nk ^^ (nk * n)) rk)" using assms(1,2) by simp
  then show ?case by (simp add: funpow_add)
qed simp

lemma setkey_expansion:
  assumes "mbedtls_aes_setkey_enc key keybits = Some ctx"
  shows "keybits \<in> {128, 192, 256}" and "aes_nr ctx = keybits div 32 + 6"
    and "take (4 * (aes_nr ctx + 1)) (aes_rk ctx) = KeyExpansion sbox key (keybits div 32)"
proof -
  have ks: "length (map (\<lambda>i. get_uint32_le key (4 * i)) [0..<n]) = n" for n by simp
  show kb: "keybits \<in> {128, 192, 256}" and nr: "aes_nr ctx = keybits div 32 + 6"
    using assms by (auto simp: mbedtls_aes_setkey_enc_def Let_def split: if_splits)
  show "take (4 * (aes_nr ctx + 1)) (aes_rk ctx) = KeyExpansion sbox key (keybits div 32)"
    using kb
  proof (elim insertE emptyE)
    assume "keybits = 128"
    then show ?thesis using assms nr expand_all[of 4 10 expand128 sbox, OF expand128_eq ks, of 10] take_key_words[of 40 40 "map (\<lambda>i. get_uint32_le key (4 * i)) [0..<4]" sbox 4]
      by (auto simp: mbedtls_aes_setkey_enc_def KeyExpansion_def simp del: funpow.simps)
  next
    assume "keybits = 192"
    then show ?thesis using assms nr expand_all[of 6 8 expand192 sbox, OF expand192_eq ks, of 8] take_key_words[of 46 48 "map (\<lambda>i. get_uint32_le key (4 * i)) [0..<6]" sbox 6]
      by (auto simp: mbedtls_aes_setkey_enc_def KeyExpansion_def simp del: funpow.simps)
  next
    assume "keybits = 256"
    then show ?thesis using assms nr expand_all[of 8 7 expand256 sbox, OF expand256_eq ks, of 7] take_key_words[of 52 56 "map (\<lambda>i. get_uint32_le key (4 * i)) [0..<8]" sbox 8]
      by (auto simp: mbedtls_aes_setkey_enc_def KeyExpansion_def simp del: funpow.simps)
  qed
qed

lemma AddRoundKey_take: "4 * r + 4 \<le> n \<Longrightarrow> AddRoundKey (take n w) r s = AddRoundKey w r s"
  by (simp add: AddRoundKey_def upt_4)

lemma Cipher_take:
  assumes "4 * (nr + 1) \<le> n" and "0 < nr"
  shows "Cipher S nr (take n w) s = Cipher S nr w s"
proof -
  have "foldl (aes_round S (take n w)) t rs = foldl (aes_round S w) t rs" if "\<forall>r \<in> set rs. r < nr" for t rs
    using that assms by (induction rs arbitrary: t) (simp_all add: aes_round_def AddRoundKey_take)
  then show ?thesis using assms by (simp add: Cipher_def AddRoundKey_take)
qed

text \<open>
  C9.  Encrypting a block with the code's AES (tables generated at start-up, key schedule of
  \<open>mbedtls_aes_setkey_enc\<close>, unrolled rounds over the combined tables) gives the cipher of FIPS 197 for keys of
  128, 192 and 256 bits: the word-wise key expansion, the rounds of SubBytes, ShiftRows, MixColumns and AddRoundKey,
  with an S-box that is inversion in the field followed by the affine map.
\<close>

theorem aes_encrypt_correct:
  assumes "mbedtls_aes_setkey_enc key keybits = Some ctx" and "length input = 16"
  shows "is_sbox sbox \<and> mbedtls_internal_aes_encrypt ctx input =
    Cipher sbox (keybits div 32 + 6) (KeyExpansion sbox key (keybits div 32)) input"
proof -
  note k = setkey_expansion[OF assms(1)]
  have "even (aes_nr ctx)" "4 \<le> aes_nr ctx" using k(1,2) by auto
  then have "mbedtls_internal_aes_encrypt ctx input = Cipher sbox (aes_nr ctx) (aes_rk ctx) input"
    using encrypt_eq_Cipher(1) assms(2) by blast
  then show ?thesis
    using is_sbox_sbox k(2,3) Cipher_take[of "aes_nr ctx" "4 * (aes_nr ctx + 1)" sbox "aes_rk ctx" input] by simp
qed

theorem aes_encrypt_correct_witness:
  "mbedtls_internal_aes_encrypt (the (mbedtls_aes_setkey_enc (replicate 16 0) 128)) (replicate 16 0) =
     Cipher sbox 10 (KeyExpansion sbox (replicate 16 0) 4) (replicate 16 0)"
proof -
  have "mbedtls_aes_setkey_enc (replicate 16 0) 128 = Some (the (mbedtls_aes_setkey_enc (replicate 16 0) 128))"
    by (simp add: mbedtls_aes_setkey_enc_def)
  from aes_encrypt_correct[OF this, of "replicate 16 0"] show ?thesis by simp
qed

lemma aes_block_fun: "mbedtls_aes_setkey_enc key keybits = Some ctx \<Longrightarrow> length b = 16 \<Longrightarrow> length (mbedtls_internal_aes_encrypt ctx b) = 16"
  using setkey_expansion[of key keybits ctx] by (intro encrypt_eq_Cipher(2)) auto

end
