(* ===== verification/Aes_Decrypt.thy ===== *)
theory Aes_Decrypt
  imports Aes_Cipher
begin

text \<open>
  The decryption half of \<open>lib/mbedtls/library/aes.c\<close> and its modes of operation as the build configures them: the
  inverse tables, the decryption key schedule, the block decryption, the dispatch of \<open>mbedtls_aes_crypt_ecb\<close> and the
  counter mode.  Decryption is the equivalent inverse cipher of FIPS 197: its round keys are passed through
  InvMixColumns, so that its rounds have the shape of the encryption rounds.
\<close>

section \<open>Tables\<close>

definition RSb :: "u8 list" where
  "RSb = foldl (\<lambda>R i. R[unat (FSb ! i) := word_of_nat i]) ((replicate 256 0)[0x63 := 0]) [1..<256]"

definition MUL :: "u8 \<Rightarrow> u8 \<Rightarrow> u8" where
  "MUL x y = (if x \<noteq> 0 \<and> y \<noteq> 0 then aes_pow ! ((aes_log ! unat x + aes_log ! unat y) mod 255) else 0)"

definition RT0 :: "u32 list" where
  "RT0 = map (\<lambda>i. let x = RSb ! i in ucast (MUL 0x0E x) XOR push_bit 8 (ucast (MUL 0x09 x))
     XOR push_bit 16 (ucast (MUL 0x0D x)) XOR push_bit 24 (ucast (MUL 0x0B x))) [0..<256]"

definition RT1 :: "u32 list" where "RT1 = map (\<lambda>i. ROTL8 (RT0 ! i)) [0..<256]"
definition RT2 :: "u32 list" where "RT2 = map (\<lambda>i. ROTL8 (RT1 ! i)) [0..<256]"
definition RT3 :: "u32 list" where "RT3 = map (\<lambda>i. ROTL8 (RT2 ! i)) [0..<256]"

text \<open>The inverse S-box the source lists for builds that keep it in ROM.\<close>

definition RSb_rom :: "u8 list" where
  "RSb_rom = [
    0x52, 0x09, 0x6A, 0xD5, 0x30, 0x36, 0xA5, 0x38, 0xBF, 0x40, 0xA3, 0x9E, 0x81, 0xF3, 0xD7, 0xFB,
    0x7C, 0xE3, 0x39, 0x82, 0x9B, 0x2F, 0xFF, 0x87, 0x34, 0x8E, 0x43, 0x44, 0xC4, 0xDE, 0xE9, 0xCB,
    0x54, 0x7B, 0x94, 0x32, 0xA6, 0xC2, 0x23, 0x3D, 0xEE, 0x4C, 0x95, 0x0B, 0x42, 0xFA, 0xC3, 0x4E,
    0x08, 0x2E, 0xA1, 0x66, 0x28, 0xD9, 0x24, 0xB2, 0x76, 0x5B, 0xA2, 0x49, 0x6D, 0x8B, 0xD1, 0x25,
    0x72, 0xF8, 0xF6, 0x64, 0x86, 0x68, 0x98, 0x16, 0xD4, 0xA4, 0x5C, 0xCC, 0x5D, 0x65, 0xB6, 0x92,
    0x6C, 0x70, 0x48, 0x50, 0xFD, 0xED, 0xB9, 0xDA, 0x5E, 0x15, 0x46, 0x57, 0xA7, 0x8D, 0x9D, 0x84,
    0x90, 0xD8, 0xAB, 0x00, 0x8C, 0xBC, 0xD3, 0x0A, 0xF7, 0xE4, 0x58, 0x05, 0xB8, 0xB3, 0x45, 0x06,
    0xD0, 0x2C, 0x1E, 0x8F, 0xCA, 0x3F, 0x0F, 0x02, 0xC1, 0xAF, 0xBD, 0x03, 0x01, 0x13, 0x8A, 0x6B,
    0x3A, 0x91, 0x11, 0x41, 0x4F, 0x67, 0xDC, 0xEA, 0x97, 0xF2, 0xCF, 0xCE, 0xF0, 0xB4, 0xE6, 0x73,
    0x96, 0xAC, 0x74, 0x22, 0xE7, 0xAD, 0x35, 0x85, 0xE2, 0xF9, 0x37, 0xE8, 0x1C, 0x75, 0xDF, 0x6E,
    0x47, 0xF1, 0x1A, 0x71, 0x1D, 0x29, 0xC5, 0x89, 0x6F, 0xB7, 0x62, 0x0E, 0xAA, 0x18, 0xBE, 0x1B,
    0xFC, 0x56, 0x3E, 0x4B, 0xC6, 0xD2, 0x79, 0x20, 0x9A, 0xDB, 0xC0, 0xFE, 0x78, 0xCD, 0x5A, 0xF4,
    0x1F, 0xDD, 0xA8, 0x33, 0x88, 0x07, 0xC7, 0x31, 0xB1, 0x12, 0x10, 0x59, 0x27, 0x80, 0xEC, 0x5F,
    0x60, 0x51, 0x7F, 0xA9, 0x19, 0xB5, 0x4A, 0x0D, 0x2D, 0xE5, 0x7A, 0x9F, 0x93, 0xC9, 0x9C, 0xEF,
    0xA0, 0xE0, 0x3B, 0x4D, 0xAE, 0x2A, 0xF5, 0xB0, 0xC8, 0xEB, 0xBB, 0x3C, 0x83, 0x53, 0x99, 0x61,
    0x17, 0x2B, 0x04, 0x7E, 0xBA, 0x77, 0xD6, 0x26, 0xE1, 0x69, 0x14, 0x63, 0x55, 0x21, 0x0C, 0x7D]"

section \<open>Key schedule and rounds\<close>

definition inv_key_word :: "u32 \<Rightarrow> u32" where
  "inv_key_word w = RT0 ! unat (FSb ! unat (byte_of 0 w)) XOR RT1 ! unat (FSb ! unat (byte_of 1 w))
     XOR RT2 ! unat (FSb ! unat (byte_of 2 w)) XOR RT3 ! unat (FSb ! unat (byte_of 3 w))"

text \<open>The round keys after the first, from the round \<open>i\<close> of the encryption down to the first.\<close>

fun dec_keys :: "u32 list \<Rightarrow> nat \<Rightarrow> u32 list" where
  "dec_keys sk 0 = map (\<lambda>j. sk ! j) [0..<4]"
| "dec_keys sk (Suc i) = map (\<lambda>j. inv_key_word (sk ! (4 * Suc i + j))) [0..<4] @ dec_keys sk i"

definition mbedtls_aes_setkey_dec :: "bytes \<Rightarrow> nat \<Rightarrow> mbedtls_aes_context option" where
  "mbedtls_aes_setkey_dec key keybits =
    (case mbedtls_aes_setkey_enc key keybits of
       None \<Rightarrow> None
     | Some cty \<Rightarrow> let nr = aes_nr cty; sk = aes_rk cty
         in Some \<lparr>aes_nr = nr, aes_rk = map (\<lambda>j. sk ! (4 * nr + j)) [0..<4] @ dec_keys sk (nr - 1)\<rparr>)"

text \<open>\<open>AES_RROUND\<close> with the round key at \<open>off\<close>.\<close>

definition aes_rround :: "u32 list \<Rightarrow> nat \<Rightarrow> u32 list \<Rightarrow> u32 list" where
  "aes_rround rk off Y = map (\<lambda>j. rk ! (off + j) XOR RT0 ! unat (byte_of 0 (Y ! j)) XOR RT1 ! unat (byte_of 1 (Y ! ((j + 3) mod 4)))
     XOR RT2 ! unat (byte_of 2 (Y ! ((j + 2) mod 4))) XOR RT3 ! unat (byte_of 3 (Y ! ((j + 1) mod 4)))) [0..<4]"

fun aes_rloop :: "u32 list \<Rightarrow> nat \<Rightarrow> nat \<Rightarrow> u32 list \<Rightarrow> nat \<times> u32 list" where
  "aes_rloop rk 0 off X = (off, X)"
| "aes_rloop rk (Suc i) off X = aes_rloop rk i (off + 8) (aes_rround rk (off + 4) (aes_rround rk off X))"

definition mbedtls_internal_aes_decrypt :: "mbedtls_aes_context \<Rightarrow> bytes \<Rightarrow> bytes" where
  "mbedtls_internal_aes_decrypt ctx input =
    (let rk = aes_rk ctx;
         X = map (\<lambda>j. get_uint32_le input (4 * j) XOR rk ! j) [0..<4];
         (off, X) = aes_rloop rk (aes_nr ctx div 2 - 1) 4 X;
         Y = aes_rround rk off X;
         off = off + 4;
         X = map (\<lambda>j. rk ! (off + j) XOR ucast (RSb ! unat (byte_of 0 (Y ! j)))
               XOR push_bit 8 (ucast (RSb ! unat (byte_of 1 (Y ! ((j + 3) mod 4)))))
               XOR push_bit 16 (ucast (RSb ! unat (byte_of 2 (Y ! ((j + 2) mod 4)))))
               XOR push_bit 24 (ucast (RSb ! unat (byte_of 3 (Y ! ((j + 1) mod 4)))))) [0..<4]
     in concat (map le_bytes32 X))"

datatype aes_mode = MBEDTLS_AES_ENCRYPT | MBEDTLS_AES_DECRYPT

definition mbedtls_aes_crypt_ecb :: "mbedtls_aes_context \<Rightarrow> aes_mode \<Rightarrow> bytes \<Rightarrow> bytes" where
  "mbedtls_aes_crypt_ecb ctx mode input =
    (if mode = MBEDTLS_AES_ENCRYPT then mbedtls_internal_aes_encrypt ctx input else mbedtls_internal_aes_decrypt ctx input)"

section \<open>Counter mode\<close>

text \<open>The increment of the counter block starts at its last byte and stops at the first byte that does not wrap.\<close>

fun incr_rev :: "bytes \<Rightarrow> bytes" where
  "incr_rev [] = []"
| "incr_rev (b # bs) = (if b + 1 \<noteq> 0 then (b + 1) # bs else (b + 1) # incr_rev bs)"

definition counter_incr :: "bytes \<Rightarrow> bytes" where
  "counter_incr nonce_counter = rev (incr_rev (rev nonce_counter))"

record ctr_state =
  cs_nc_off :: nat
  cs_nonce_counter :: bytes
  cs_stream_block :: bytes

definition ctr_fill :: "mbedtls_aes_context \<Rightarrow> ctr_state \<Rightarrow> ctr_state" where
  "ctr_fill ctx s =
    (if cs_nc_off s = 0
     then s\<lparr>cs_stream_block := mbedtls_aes_crypt_ecb ctx MBEDTLS_AES_ENCRYPT (cs_nonce_counter s),
            cs_nonce_counter := counter_incr (cs_nonce_counter s)\<rparr>
     else s)"

fun ctr_loop :: "mbedtls_aes_context \<Rightarrow> ctr_state \<Rightarrow> bytes \<Rightarrow> bytes \<times> ctr_state" where
  "ctr_loop ctx s [] = ([], s)"
| "ctr_loop ctx s (c # input) =
    (let s = ctr_fill ctx s; o1 = c XOR cs_stream_block s ! cs_nc_off s;
         (os, s) = ctr_loop ctx (s\<lparr>cs_nc_off := (cs_nc_off s + 1) mod 16\<rparr>) input
     in (o1 # os, s))"

text \<open>\<open>None\<close> is \<open>MBEDTLS_ERR_AES_BAD_INPUT_DATA\<close>.\<close>

definition mbedtls_aes_crypt_ctr :: "mbedtls_aes_context \<Rightarrow> ctr_state \<Rightarrow> bytes \<Rightarrow> (bytes \<times> ctr_state) option" where
  "mbedtls_aes_crypt_ctr ctx s input = (if cs_nc_off s > 15 then None else Some (ctr_loop ctx s input))"

section \<open>The inverse tables\<close>

lemma rom_inverse: "list_all (\<lambda>(i, x). RSb_rom ! unat x = word_of_nat i) (zip [0..<256] FSb_rom)"
  by (simp add: RSb_rom_def FSb_rom_def upt_rec)

lemma FSb_inverse_rom: "i < 256 \<Longrightarrow> RSb_rom ! unat (FSb ! i) = word_of_nat i"
  using rom_inverse rom_0(2) generated_sbox_is_rom by (auto simp: list_all_length dest!: spec[of _ i])

lemma FSb_inj: "i < 256 \<Longrightarrow> j < 256 \<Longrightarrow> FSb ! i = FSb ! j \<Longrightarrow> i = j"
proof -
  assume "i < 256" "j < 256" "FSb ! i = FSb ! j"
  then have "(word_of_nat i :: u8) = word_of_nat j" using FSb_inverse_rom[of i] FSb_inverse_rom[of j] by simp
  then have "unat (word_of_nat i :: u8) = unat (word_of_nat j :: u8)" by simp
  with \<open>i < 256\<close> \<open>j < 256\<close> show "i = j" by (simp add: unat_of_nat take_bit_eq_mod)
qed

lemma RSb_FSb: "i < 256 \<Longrightarrow> RSb ! unat (FSb ! i) = word_of_nat i" and length_RSb: "length RSb = 256"
proof -
  have "[0..<256] = 0 # [1..<256]" by (simp add: upt_conv_Cons)
  moreover have "FSb ! 0 = 0x63" using sbox_0 by (simp add: sbox_def)
  ultimately have eq: "RSb = foldl (\<lambda>R i. R[unat (FSb ! i) := word_of_nat i]) (replicate 256 0) [0..<256]"
    by (simp add: RSb_def)
  have "length (foldl (\<lambda>R i. R[unat (FSb ! i) := word_of_nat i]) xs is) = length xs" for xs :: "u8 list" and "is" :: "nat list"
    by (induction "is" arbitrary: xs) simp_all
  then show "length RSb = 256" unfolding eq by simp
  show "RSb ! unat (FSb ! i) = word_of_nat i" if "i < 256"
  proof -
    have "\<forall>j. i < j \<and> j < 256 \<longrightarrow> unat (FSb ! j) \<noteq> unat (FSb ! i)"
      using FSb_inj that by (auto simp flip: word_unat_eq_iff)
    then show ?thesis
      unfolding eq using foldl_update_nth[of i 256 "\<lambda>i. unat (FSb ! i)" "replicate 256 0" "word_of_nat :: nat \<Rightarrow> u8"] that unat_u8_less
      by simp
  qed
qed

text \<open>The inverse S-box, as a function.\<close>

definition rsbox :: "u8 \<Rightarrow> u8" where
  "rsbox x = RSb ! unat x"

lemma rsbox_sbox [simp]: "rsbox (sbox x) = x"
  using RSb_FSb[of "unat x"] unat_u8_less[of x] by (simp add: rsbox_def sbox_def)

text \<open>The inverse S-box computed at start-up is the table the source lists.\<close>

theorem generated_rsbox_is_rom: "RSb = RSb_rom"
proof (rule nth_equalityI)
  have "length RSb_rom = 256" by (simp add: RSb_rom_def)
  then show "length RSb = length RSb_rom" using length_RSb by simp
  fix k assume "k < length RSb"
  then have k: "k < 256" using length_RSb by simp
  have "inj_on (\<lambda>i. unat (FSb ! i)) {0..<256}" using FSb_inj by (auto intro!: inj_onI simp flip: word_unat_eq_iff)
  then have "card ((\<lambda>i. unat (FSb ! i)) ` {0..<256}) = 256" by (simp add: card_image)
  moreover have "(\<lambda>i. unat (FSb ! i)) ` {0..<256} \<subseteq> {0..<256}" using unat_u8_less by auto
  ultimately have "(\<lambda>i. unat (FSb ! i)) ` {0..<256} = {0..<256}" by (intro card_subset_eq) auto
  then have "k \<in> (\<lambda>i. unat (FSb ! i)) ` {0..<256}" using k by simp
  then obtain i where "i < 256" "k = unat (FSb ! i)" by auto
  then show "RSb ! k = RSb_rom ! k" using RSb_FSb FSb_inverse_rom by simp
qed

section \<open>Multiplication in the field\<close>

lemma XTIME_xor: "XTIME (x XOR y) = XTIME x XOR XTIME y"
  by (rule bit_word_eqI) (auto simp: bit_XTIME bit_xor_iff)

lemma XTIME_0 [simp]: "XTIME 0 = 0"
  by (simp add: XTIME_def)

lemma gf_mul_0 [simp]: "gf_mul 0 y = 0"
  by (simp add: gf_mul_unfold)

lemma gen_step_XTIME: "XTIME (gen_step x) = gen_step (XTIME x)"
  by (simp add: gen_step_def XTIME_xor)

lemma gen_step_xor: "gen_step (x XOR y) = gen_step x XOR gen_step y"
  by (simp add: gen_step_def XTIME_xor xor.assoc xor.left_commute)

lemma gen_step_if: "gen_step (if b then x else 0) = (if b then gen_step x else 0)"
  by (simp add: gen_step_def)

lemma gf_mul_gen_step: "gf_mul (gen_step x) y = gen_step (gf_mul x y)"
  by (simp only: gf_mul_unfold Let_def gen_step_xor gen_step_if gen_step_XTIME)

lemma gf_mul_one: "gf_mul 1 y = y"
proof (rule bit_word_eqI)
  fix n assume "n < LENGTH(8)"
  then have "n = 0 \<or> n = 1 \<or> n = 2 \<or> n = 3 \<or> n = 4 \<or> n = 5 \<or> n = 6 \<or> n = 7" using less_8_cases by simp
  then show "bit (gf_mul 1 y) n = bit y n"
    unfolding gf_mul_unfold Let_def bit_xor_iff if_distrib[of "\<lambda>x. bit x n"] bit_XTIME
    by (elim disjE) (simp_all add: bit_1_iff)
qed

lemma gf_mul_powers: "gf_mul ((gen_step ^^ k) 1) y = (gen_step ^^ k) y"
  by (induction k) (simp_all add: gf_mul_one gf_mul_gen_step)

lemma powers_mod: "(gen_step ^^ (k mod 255)) 1 = (gen_step ^^ k) 1"
proof (induction k rule: less_induct)
  case (less k)
  show ?case
  proof (cases "k < 255")
    case False
    then have "(gen_step ^^ k) 1 = (gen_step ^^ (k - 255)) ((gen_step ^^ 255) 1)"
      by (simp flip: funpow_add comp_apply[of "gen_step ^^ (k - 255)" "gen_step ^^ 255"])
    then show ?thesis using less.IH[of "k - 255"] False powers(1) by (simp add: le_mod_geq)
  qed simp
qed

lemma MUL_eq: "c \<noteq> 0 \<Longrightarrow> MUL c x = gf_mul x c"
proof (cases "x = 0")
  case False
  assume "c \<noteq> 0"
  then obtain j where j: "0 < j" "j \<le> 255" "c = (gen_step ^^ j) 1" using all_powers by blast
  obtain k where k: "0 < k" "k \<le> 255" "x = (gen_step ^^ k) 1" using all_powers False by blast
  have m: "(j + k) mod 255 \<le> 255" by (simp add: less_imp_le)
  have p: "aes_pow ! i = (gen_step ^^ i) 1" if "i \<le> 255" for i using aes_pow_log(2)[of i] aes_pow_log(3)[of 1] that by (cases "i = 0") auto
  have "MUL c x = (gen_step ^^ ((j + k) mod 255)) 1"
    using \<open>c \<noteq> 0\<close> False aes_pow_log(1)[OF j(1,2)] aes_pow_log(1)[OF k(1,2)] p[OF m] by (simp add: MUL_def j(3)[symmetric] k(3)[symmetric])
  also have "\<dots> = (gen_step ^^ (k + j)) 1" by (simp only: powers_mod add.commute)
  also have "\<dots> = gf_mul x c" unfolding k(3) gf_mul_powers j(3) by (simp add: funpow_add)
  finally show ?thesis .
qed (simp add: MUL_def)

lemma gf_mul_inv:
  "gf_mul x 9 = XTIME (XTIME (XTIME x)) XOR x" "gf_mul x 11 = XTIME (XTIME (XTIME x)) XOR XTIME x XOR x"
  "gf_mul x 13 = XTIME (XTIME (XTIME x)) XOR XTIME (XTIME x) XOR x" "gf_mul x 14 = XTIME (XTIME (XTIME x)) XOR XTIME (XTIME x) XOR XTIME x"
  by (simp_all add: gf_mul_unfold Let_def xor.commute xor.left_commute bit_numeral_rec)

lemma RT_nth:
  "RT0 ! unat x = le_word32 (gf_mul (rsbox x) 14) (gf_mul (rsbox x) 9) (gf_mul (rsbox x) 13) (gf_mul (rsbox x) 11)"
  "RT1 ! unat x = le_word32 (gf_mul (rsbox x) 11) (gf_mul (rsbox x) 14) (gf_mul (rsbox x) 9) (gf_mul (rsbox x) 13)"
  "RT2 ! unat x = le_word32 (gf_mul (rsbox x) 13) (gf_mul (rsbox x) 11) (gf_mul (rsbox x) 14) (gf_mul (rsbox x) 9)"
  "RT3 ! unat x = le_word32 (gf_mul (rsbox x) 9) (gf_mul (rsbox x) 13) (gf_mul (rsbox x) 11) (gf_mul (rsbox x) 14)"
proof -
  have x: "unat x < 256" using unat_u8_less .
  show 0: "RT0 ! unat x = le_word32 (gf_mul (rsbox x) 14) (gf_mul (rsbox x) 9) (gf_mul (rsbox x) 13) (gf_mul (rsbox x) 11)"
    using x by (simp add: RT0_def Let_def rsbox_def MUL_eq flip: xor_bytes)
  show 1: "RT1 ! unat x = le_word32 (gf_mul (rsbox x) 11) (gf_mul (rsbox x) 14) (gf_mul (rsbox x) 9) (gf_mul (rsbox x) 13)"
    using x by (simp add: RT1_def 0 ROTL8_word)
  show 2: "RT2 ! unat x = le_word32 (gf_mul (rsbox x) 13) (gf_mul (rsbox x) 11) (gf_mul (rsbox x) 14) (gf_mul (rsbox x) 9)"
    using x by (simp add: RT2_def 1 ROTL8_word)
  show "RT3 ! unat x = le_word32 (gf_mul (rsbox x) 9) (gf_mul (rsbox x) 13) (gf_mul (rsbox x) 11) (gf_mul (rsbox x) 14)"
    using x by (simp add: RT3_def 2 ROTL8_word)
qed

section \<open>The inverse transformations of FIPS 197\<close>

definition InvSubBytes :: "bytes \<Rightarrow> bytes" where
  "InvSubBytes s = map rsbox s"

definition InvShiftRows :: "bytes \<Rightarrow> bytes" where
  "InvShiftRows s = map (\<lambda>i. s ! (i mod 4 + 4 * ((i div 4 + 4 - i mod 4) mod 4))) [0..<16]"

definition InvMixColumns :: "bytes \<Rightarrow> bytes" where
  "InvMixColumns s = concat (map (\<lambda>c. let a = (\<lambda>r. s ! (4 * c + r)) in
     [gf_mul (a 0) 14 XOR gf_mul (a 1) 11 XOR gf_mul (a 2) 13 XOR gf_mul (a 3) 9,
      gf_mul (a 0) 9 XOR gf_mul (a 1) 14 XOR gf_mul (a 2) 11 XOR gf_mul (a 3) 13,
      gf_mul (a 0) 13 XOR gf_mul (a 1) 9 XOR gf_mul (a 2) 14 XOR gf_mul (a 3) 11,
      gf_mul (a 0) 11 XOR gf_mul (a 1) 13 XOR gf_mul (a 2) 9 XOR gf_mul (a 3) 14]) [0..<4])"

definition round_key :: "u32 list \<Rightarrow> nat \<Rightarrow> bytes" where
  "round_key w r = concat (map (\<lambda>j. le_bytes32 (w ! (4 * r + j))) [0..<4])"

lemma AddRoundKey_eq: "AddRoundKey w r s = map2 (XOR) s (round_key w r)"
  by (simp add: AddRoundKey_def round_key_def)

lemma length_round_key [simp]: "length (round_key w r) = 16"
  by (simp add: round_key_def upt_4)

lemma xor_key_twice: "length s = length k \<Longrightarrow> map2 (XOR) (map2 (XOR) s k) k = (s :: bytes)"
  by (induction s k rule: list_induct2) (simp_all add: xor.assoc)

lemma AddRoundKey_twice: "length s = 16 \<Longrightarrow> AddRoundKey w r (AddRoundKey w r s) = s"
  by (simp add: AddRoundKey_eq xor_key_twice)

lemma length_transforms [simp]:
  "length (AddRoundKey w r s) = min (length s) 16" "length (ShiftRows s) = 16" "length (InvShiftRows s) = 16"
  "length (MixColumns s) = 16" "length (InvMixColumns s) = 16" "length (SubBytes S s) = length s" "length (InvSubBytes s) = length s"
  by (simp_all add: AddRoundKey_eq ShiftRows_def InvShiftRows_def MixColumns_def InvMixColumns_def SubBytes_def InvSubBytes_def upt_4 Let_def)

lemma inv_sub_shift: "length s = 16 \<Longrightarrow> InvShiftRows (InvSubBytes (ShiftRows (SubBytes sbox s))) = s"
  by (erule state_16) (simp add: InvShiftRows_def InvSubBytes_def ShiftRows_def SubBytes_def upt_16)

lemma xor_cancel: "x XOR (x XOR y) = (y :: u8)"
  by (simp flip: xor.assoc)

lemma inv_mix_rows:
  fixes a b c d :: u8
  defines "m0 \<equiv> gf_mul a 2 XOR gf_mul b 3 XOR c XOR d" and "m1 \<equiv> a XOR gf_mul b 2 XOR gf_mul c 3 XOR d"
    and "m2 \<equiv> a XOR b XOR gf_mul c 2 XOR gf_mul d 3" and "m3 \<equiv> gf_mul a 3 XOR b XOR c XOR gf_mul d 2"
  shows "gf_mul m0 14 XOR gf_mul m1 11 XOR gf_mul m2 13 XOR gf_mul m3 9 = a"
    and "gf_mul m0 9 XOR gf_mul m1 14 XOR gf_mul m2 11 XOR gf_mul m3 13 = b"
    and "gf_mul m0 13 XOR gf_mul m1 9 XOR gf_mul m2 14 XOR gf_mul m3 11 = c"
    and "gf_mul m0 11 XOR gf_mul m1 13 XOR gf_mul m2 9 XOR gf_mul m3 14 = d"
  unfolding m0_def m1_def m2_def m3_def gf_mul_inv gf_mul_2_3 XTIME_xor
  by (simp_all add: xor.assoc xor.commute xor.left_commute xor_cancel)

lemma inv_mix_mix: "length s = 16 \<Longrightarrow> InvMixColumns (MixColumns s) = s"
  by (erule state_16) (simp add: InvMixColumns_def MixColumns_def upt_4 inv_mix_rows)

lemma gf_mul_xor: "gf_mul (x XOR y) c = gf_mul x c XOR gf_mul y c" if "c \<in> {9, 11, 13, 14}"
  using that by (auto simp: gf_mul_inv XTIME_xor xor.assoc xor.commute xor.left_commute)

lemma inv_mix_xor:
  assumes "length s = 16" "length t = 16"
  shows "InvMixColumns (map2 (XOR) s t) = map2 (XOR) (InvMixColumns s) (InvMixColumns t)"
proof -
  have n: "map2 (XOR) s t ! i = s ! i XOR t ! i" if "i < 16" for i using that assms by simp
  show ?thesis by (simp add: InvMixColumns_def upt_4 n gf_mul_xor xor.assoc xor.left_commute)
qed

section \<open>The rounds\<close>

definition aes_inv_round :: "u32 list \<Rightarrow> bytes \<Rightarrow> nat \<Rightarrow> bytes" where
  "aes_inv_round w s r = AddRoundKey w r (InvMixColumns (InvShiftRows (InvSubBytes s)))"

lemma length_inv_round [simp]: "length (aes_inv_round w s r) = 16"
  by (simp add: aes_inv_round_def)

lemma rround_state:
  assumes "length s = 16"
  shows "aes_rround w (4 * r) (state_words s) = state_words (aes_inv_round w s r)"
proof -
  obtain s0 s1 s2 s3 s4 s5 s6 s7 s8 s9 s10 s11 s12 s13 s14 s15 where
    s: "s = [s0, s1, s2, s3, s4, s5, s6, s7, s8, s9, s10, s11, s12, s13, s14, s15]"
    using assms by (rule state_16)
  obtain k0 k1 k2 k3 k4 k5 k6 k7 k8 k9 k10 k11 k12 k13 k14 k15 where
    k: "w ! (4 * r) = le_word32 k0 k1 k2 k3" "w ! (4 * r + 1) = le_word32 k4 k5 k6 k7"
    "w ! (4 * r + 2) = le_word32 k8 k9 k10 k11" "w ! (4 * r + 3) = le_word32 k12 k13 k14 k15"
    by (rule key_words)
  show ?thesis
    by (simp add: aes_rround_def state_words_def aes_inv_round_def AddRoundKey_def InvMixColumns_def InvShiftRows_def InvSubBytes_def s k[simplified]
        get_uint32_le_def upt_4 upt_16 Let_def le_bytes32_word byte_of_word RT_nth le_word32_xor
        xor.assoc xor.commute xor.left_commute)
qed

lemma rfinal_state:
  assumes "length s = 16"
  shows "map (\<lambda>j. w ! (4 * r + j) XOR ucast (RSb ! unat (byte_of 0 (state_words s ! j)))
               XOR push_bit 8 (ucast (RSb ! unat (byte_of 1 (state_words s ! ((j + 3) mod 4)))))
               XOR push_bit 16 (ucast (RSb ! unat (byte_of 2 (state_words s ! ((j + 2) mod 4)))))
               XOR push_bit 24 (ucast (RSb ! unat (byte_of 3 (state_words s ! ((j + 1) mod 4)))))) [0..<4]
    = state_words (AddRoundKey w r (InvShiftRows (InvSubBytes s)))"
proof -
  obtain s0 s1 s2 s3 s4 s5 s6 s7 s8 s9 s10 s11 s12 s13 s14 s15 where
    s: "s = [s0, s1, s2, s3, s4, s5, s6, s7, s8, s9, s10, s11, s12, s13, s14, s15]"
    using assms by (rule state_16)
  obtain k0 k1 k2 k3 k4 k5 k6 k7 k8 k9 k10 k11 k12 k13 k14 k15 where
    k: "w ! (4 * r) = le_word32 k0 k1 k2 k3" "w ! (4 * r + 1) = le_word32 k4 k5 k6 k7"
    "w ! (4 * r + 2) = le_word32 k8 k9 k10 k11" "w ! (4 * r + 3) = le_word32 k12 k13 k14 k15"
    by (rule key_words)
  show ?thesis
    by (simp only: xor_bytes) (simp add: state_words_def AddRoundKey_def InvShiftRows_def InvSubBytes_def s k[simplified] rsbox_def
        get_uint32_le_def upt_4 upt_16 le_bytes32_word byte_of_word le_word32_xor xor.commute)
qed

lemma rloop_state:
  "length s = 16 \<Longrightarrow> aes_rloop w n (4 * r) (state_words s) =
     (4 * (r + 2 * n), state_words (foldl (aes_inv_round w) s [r..<r + 2 * n]))"
proof (induction n arbitrary: r s)
  case (Suc n)
  have u: "[r..<r + 2 * Suc n] = r # (r + 1) # [r + 2..<r + 2 + 2 * n]" by (simp add: upt_conv_Cons)
  have "aes_rround w (4 * r + 4) (aes_rround w (4 * r) (state_words s)) = state_words (aes_inv_round w (aes_inv_round w s r) (r + 1))"
    using rround_state[OF Suc.prems, of w r] rround_state[of "aes_inv_round w s r" w "r + 1"] by (simp add: add.commute)
  then show ?case unfolding u using Suc.IH[of "aes_inv_round w (aes_inv_round w s r) (r + 1)" "r + 2"]
    by (simp add: add.commute add.left_commute)
qed simp

definition InvCipher :: "nat \<Rightarrow> u32 list \<Rightarrow> bytes \<Rightarrow> bytes" where
  "InvCipher nr w s = AddRoundKey w nr (InvShiftRows (InvSubBytes (foldl (aes_inv_round w) (AddRoundKey w 0 s) [1..<nr])))"

lemma length_inv_rounds: "length s = 16 \<Longrightarrow> length (foldl (aes_inv_round w) s rs) = 16"
  by (induction rs arbitrary: s) auto

lemma decrypt_eq_InvCipher:
  assumes "even (aes_nr ctx)" and "4 \<le> aes_nr ctx" and "length input = 16"
  shows "mbedtls_internal_aes_decrypt ctx input = InvCipher (aes_nr ctx) (aes_rk ctx) input"
proof -
  let ?w = "aes_rk ctx" and ?nr = "aes_nr ctx"
  let ?n = "?nr div 2 - 1"
  let ?s0 = "AddRoundKey ?w 0 input"
  let ?s1 = "foldl (aes_inv_round ?w) ?s0 [1..<1 + 2 * ?n]"
  let ?s2 = "aes_inv_round ?w ?s1 (?nr - 1)"
  have n: "1 + 2 * ?n = ?nr - 1" using assms(1,2) by (auto elim!: evenE)
  have l: "length ?s0 = 16" "length ?s1 = 16" using assms(3) length_inv_rounds by auto
  have s2: "?s2 = foldl (aes_inv_round ?w) ?s0 [1..<?nr]"
  proof -
    have "[1..<?nr] = [1..<1 + 2 * ?n] @ [?nr - 1]" using assms(2) unfolding n by (simp flip: upt_Suc_append)
    then show ?thesis by simp
  qed
  have loop: "aes_rloop ?w ?n 4 (state_words ?s0) = (4 * (?nr - 1), state_words ?s1)"
    using rloop_state[OF l(1), of ?w ?n 1] unfolding n by simp
  have off: "4 * (?nr - 1) + 4 = 4 * ?nr" using assms(2) by simp
  have f: "length (AddRoundKey ?w ?nr (InvShiftRows (InvSubBytes ?s2))) = 16" by simp
  show ?thesis
    by (simp only: mbedtls_internal_aes_decrypt_def Let_def first_key(1)[OF assms(3)] loop prod.case rround_state[OF l(2)] off
        rfinal_state[OF length_inv_round] state_bytes[OF f] InvCipher_def s2[symmetric])
qed

section \<open>Decryption inverts encryption\<close>

lemma inv_key_word_eq: "le_bytes32 (inv_key_word (le_word32 a b c d)) =
  [gf_mul a 14 XOR gf_mul b 11 XOR gf_mul c 13 XOR gf_mul d 9, gf_mul a 9 XOR gf_mul b 14 XOR gf_mul c 11 XOR gf_mul d 13,
   gf_mul a 13 XOR gf_mul b 9 XOR gf_mul c 14 XOR gf_mul d 11, gf_mul a 11 XOR gf_mul b 13 XOR gf_mul c 9 XOR gf_mul d 14]"
  by (simp add: inv_key_word_def byte_of_word RT_nth le_word32_xor le_bytes32_word xor.assoc flip: sbox_def)

lemma round_key_inv:
  assumes "\<And>j. j < 4 \<Longrightarrow> w' ! (4 * i + j) = inv_key_word (w ! (4 * r + j))"
  shows "round_key w' i = InvMixColumns (round_key w r)"
proof -
  obtain k0 k1 k2 k3 k4 k5 k6 k7 k8 k9 k10 k11 k12 k13 k14 k15 where
    k: "w ! (4 * r) = le_word32 k0 k1 k2 k3" "w ! (4 * r + 1) = le_word32 k4 k5 k6 k7"
    "w ! (4 * r + 2) = le_word32 k8 k9 k10 k11" "w ! (4 * r + 3) = le_word32 k12 k13 k14 k15"
    by (rule key_words)
  show ?thesis
    using assms[of 0] assms[of 1] assms[of 2] assms[of 3]
    by (simp add: round_key_def InvMixColumns_def upt_4 k[simplified] inv_key_word_eq le_bytes32_word)
qed

lemma dec_keys_nth:
  "i \<le> m \<Longrightarrow> j < 4 \<Longrightarrow> dec_keys sk m ! (4 * i + j) = (if i = m then sk ! j else inv_key_word (sk ! (4 * (m - i) + j)))"
proof (induction m arbitrary: i)
  case (Suc m)
  then show ?case by (cases i) (simp_all add: nth_append)
qed simp

lemma setkey_dec_keys:
  assumes "mbedtls_aes_setkey_enc key keybits = Some e" and "mbedtls_aes_setkey_dec key keybits = Some d"
  shows "aes_nr d = aes_nr e" and "round_key (aes_rk d) 0 = round_key (aes_rk e) (aes_nr e)"
    and "round_key (aes_rk d) (aes_nr e) = round_key (aes_rk e) 0"
    and "0 < i \<Longrightarrow> i < aes_nr e \<Longrightarrow> round_key (aes_rk d) i = InvMixColumns (round_key (aes_rk e) (aes_nr e - i))"
proof -
  let ?nr = "aes_nr e" and ?sk = "aes_rk e"
  have nr: "0 < ?nr" using setkey_expansion(1,2)[OF assms(1)] by auto
  have d: "aes_nr d = ?nr" "aes_rk d = map (\<lambda>j. ?sk ! (4 * ?nr + j)) [0..<4] @ dec_keys ?sk (?nr - 1)"
    using assms by (auto simp: mbedtls_aes_setkey_dec_def Let_def)
  have later: "aes_rk d ! (4 * i + j) = (if i = ?nr then ?sk ! j else inv_key_word (?sk ! (4 * (?nr - i) + j)))"
    if "0 < i" "i \<le> ?nr" "j < 4" for i j
  proof -
    have "aes_rk d ! (4 * i + j) = dec_keys ?sk (?nr - 1) ! (4 * (i - 1) + j)" using that by (cases i) (simp_all add: d nth_append)
    then show ?thesis using dec_keys_nth[of "i - 1" "?nr - 1" j ?sk] that by (auto split: if_splits)
  qed
  show "aes_nr d = ?nr" by (rule d(1))
  show "round_key (aes_rk d) 0 = round_key ?sk ?nr" by (simp add: round_key_def upt_4 d nth_append)
  show "round_key (aes_rk d) ?nr = round_key ?sk 0" 
    unfolding round_key_def using later[of ?nr] nr by (intro arg_cong[of _ _ concat] map_cong) simp_all
  show "0 < i \<Longrightarrow> i < ?nr \<Longrightarrow> round_key (aes_rk d) i = InvMixColumns (round_key ?sk (?nr - i))"
    using later[of i] by (intro round_key_inv) simp
qed

lemma inv_round_step:
  assumes "length s = 16" and "round_key w' i = InvMixColumns (round_key w r)"
  shows "aes_inv_round w' (ShiftRows (SubBytes sbox (aes_round sbox w s r))) i = ShiftRows (SubBytes sbox s)"
proof -
  let ?m = "MixColumns (ShiftRows (SubBytes sbox s))"
  have r: "aes_round sbox w s r = AddRoundKey w r ?m" by (simp add: aes_round_def)
  have "aes_inv_round w' (ShiftRows (SubBytes sbox (aes_round sbox w s r))) i =
      AddRoundKey w' i (InvMixColumns (AddRoundKey w r ?m))"
    unfolding aes_inv_round_def r by (subst inv_sub_shift) simp_all
  also have "\<dots> = InvMixColumns (AddRoundKey w r (AddRoundKey w r ?m))"
    by (simp add: AddRoundKey_eq assms(2) inv_mix_xor)
  also have "\<dots> = ShiftRows (SubBytes sbox s)" by (simp add: AddRoundKey_twice inv_mix_mix)
  finally show ?thesis .
qed

lemma InvCipher_Cipher:
  assumes "length p = 16" and "0 < nr"
    and "round_key w' 0 = round_key w nr" and "round_key w' nr = round_key w 0"
    and "\<And>i. 0 < i \<Longrightarrow> i < nr \<Longrightarrow> round_key w' i = InvMixColumns (round_key w (nr - i))"
  shows "InvCipher nr w' (Cipher sbox nr w p) = p"
proof -
  define S where "S r = foldl (aes_round sbox w) (AddRoundKey w 0 p) [1..<Suc r]" for r
  have len: "length (S r) = 16" for r unfolding S_def using assms(1) by (intro length_rounds) simp
  have step: "S (Suc r) = aes_round sbox w (S r) (Suc r)" for r by (simp add: S_def)
  have rounds: "foldl (aes_inv_round w') (ShiftRows (SubBytes sbox (S (nr - 1)))) [1..<Suc i] = ShiftRows (SubBytes sbox (S (nr - 1 - i)))"
    if "i \<le> nr - 1" for i
    using that
  proof (induction i)
    case (Suc i)
    then obtain r where r: "nr - 1 - i = Suc r" "nr - 1 - Suc i = r" "nr - Suc i = Suc r" by (metis Suc_diff_Suc Suc_le_lessD diff_Suc_eq_diff_pred diff_commute Suc_eq_plus1)
    have "round_key w' (Suc i) = InvMixColumns (round_key w (Suc r))" using assms(5)[of "Suc i"] Suc.prems r by simp
    then show ?case using Suc r inv_round_step[OF len, of w' "Suc i" w "Suc r" r] step[of r] by simp
  qed simp
  have C: "Cipher sbox nr w p = AddRoundKey w nr (ShiftRows (SubBytes sbox (S (nr - 1))))"
    using assms(2) by (simp add: Cipher_def S_def)
  have 0: "AddRoundKey w' 0 (Cipher sbox nr w p) = ShiftRows (SubBytes sbox (S (nr - 1)))"
    unfolding C using AddRoundKey_twice[of "ShiftRows (SubBytes sbox (S (nr - 1)))" w nr] by (simp add: AddRoundKey_eq assms(3))
  have "foldl (aes_inv_round w') (ShiftRows (SubBytes sbox (S (nr - 1)))) [1..<nr] = ShiftRows (SubBytes sbox (S 0))"
    using rounds[of "nr - 1"] assms(2) by simp
  then have "InvCipher nr w' (Cipher sbox nr w p) = AddRoundKey w' nr (S 0)"
    unfolding InvCipher_def 0 by (simp add: inv_sub_shift len)
  also have "\<dots> = p" using AddRoundKey_twice[OF assms(1), of w 0] by (simp add: S_def AddRoundKey_eq assms(4))
  finally show ?thesis .
qed

lemma decrypt_encrypt_block:
  assumes "mbedtls_aes_setkey_enc key keybits = Some e" and "mbedtls_aes_setkey_dec key keybits = Some d" and "length b = 16"
  shows "mbedtls_internal_aes_decrypt d (mbedtls_internal_aes_encrypt e b) = b"
proof -
  note k = setkey_dec_keys[OF assms(1,2)]
  have nr: "even (aes_nr e)" "4 \<le> aes_nr e" "0 < aes_nr e" using setkey_expansion(1,2)[OF assms(1)] by auto
  have "mbedtls_internal_aes_decrypt d (mbedtls_internal_aes_encrypt e b) =
      InvCipher (aes_nr e) (aes_rk d) (Cipher sbox (aes_nr e) (aes_rk e) b)"
    using decrypt_eq_InvCipher[of d "mbedtls_internal_aes_encrypt e b"] encrypt_eq_Cipher[OF nr(1,2) assms(3)] nr k(1) by simp
  also have "\<dots> = b" by (rule InvCipher_Cipher[OF assms(3) nr(3) k(2,3,4)])
  finally show ?thesis .
qed

lemma setkey_dec_iff: "mbedtls_aes_setkey_dec key keybits = None \<longleftrightarrow> mbedtls_aes_setkey_enc key keybits = None"
  by (simp add: mbedtls_aes_setkey_dec_def Let_def split: option.split)

lemma encrypt_decrypt_block:
  assumes "mbedtls_aes_setkey_enc key keybits = Some e" and "mbedtls_aes_setkey_dec key keybits = Some d" and "length b = 16"
  shows "mbedtls_internal_aes_encrypt e (mbedtls_internal_aes_decrypt d b) = b"
proof -
  let ?B = "{b :: bytes. length b = 16}" and ?E = "mbedtls_internal_aes_encrypt e" and ?D = "mbedtls_internal_aes_decrypt d"
  have fin: "finite ?B" using finite_lists_length_eq[of "UNIV :: u8 set" 16] by simp
  have DE: "?D (?E x) = x" if "x \<in> ?B" for x using decrypt_encrypt_block[OF assms(1,2)] that by simp
  have "?E ` ?B \<subseteq> ?B" using aes_block_fun[OF assms(1)] by auto
  moreover have "inj_on ?E ?B" using DE by (intro inj_onI) metis
  ultimately have "?E ` ?B = ?B" using fin endo_inj_surj by blast
  then obtain x where "x \<in> ?B" "b = ?E x" using assms(3) by (metis (mono_tags, lifting) imageE mem_Collect_eq)
  then show ?thesis using DE by simp
qed

text \<open>
  For every key length the code supports the two key schedules give inverse permutations of the blocks: decrypting what was
  encrypted gives the block back and the other way round, and both schedules refuse the same key lengths.
\<close>

theorem aes_decrypt_inverts:
  assumes "mbedtls_aes_setkey_enc key keybits = Some e" and "length b = 16"
  shows "\<exists>d. mbedtls_aes_setkey_dec key keybits = Some d
    \<and> mbedtls_aes_crypt_ecb d MBEDTLS_AES_DECRYPT (mbedtls_aes_crypt_ecb e MBEDTLS_AES_ENCRYPT b) = b
    \<and> mbedtls_aes_crypt_ecb e MBEDTLS_AES_ENCRYPT (mbedtls_aes_crypt_ecb d MBEDTLS_AES_DECRYPT b) = b"
proof -
  obtain d where "mbedtls_aes_setkey_dec key keybits = Some d" using setkey_dec_iff assms(1) by (metis not_None_eq)
  then show ?thesis
    using decrypt_encrypt_block[OF assms(1) _ assms(2)] encrypt_decrypt_block[OF assms(1) _ assms(2)]
    by (simp add: mbedtls_aes_crypt_ecb_def)
qed

theorem aes_decrypt_inverts_witness:
  "\<exists>d. mbedtls_aes_setkey_dec (replicate 32 7) 256 = Some d \<and>
    mbedtls_aes_crypt_ecb d MBEDTLS_AES_DECRYPT
      (mbedtls_aes_crypt_ecb (the (mbedtls_aes_setkey_enc (replicate 32 7) 256)) MBEDTLS_AES_ENCRYPT (replicate 16 3)) = replicate 16 3"
proof -
  have "mbedtls_aes_setkey_enc (replicate 32 7) 256 = Some (the (mbedtls_aes_setkey_enc (replicate 32 7) 256))"
    by (simp add: mbedtls_aes_setkey_enc_def)
  from aes_decrypt_inverts[OF this, of "replicate 16 3"] show ?thesis by auto
qed

section \<open>Counter mode as a stream\<close>

lemma ctr_append: "ctr_loop ctx s (xs @ ys) =
    (let (o1, s) = ctr_loop ctx s xs; (o2, s) = ctr_loop ctx s ys in (o1 @ o2, s))"
  by (induction xs arbitrary: s) (simp_all add: Let_def split: prod.split)

lemma ctr_involution: "ctr_loop ctx s (fst (ctr_loop ctx s xs)) = (xs, snd (ctr_loop ctx s xs))"
  by (induction xs arbitrary: s) (simp_all add: Let_def split_beta xor.assoc)

lemma ctr_off: "cs_nc_off s \<le> 15 \<Longrightarrow> cs_nc_off (snd (ctr_loop ctx s xs)) \<le> 15"
proof (induction xs arbitrary: s)
  case (Cons x xs)
  let ?s = "(ctr_fill ctx s)\<lparr>cs_nc_off := (cs_nc_off (ctr_fill ctx s) + 1) mod 16\<rparr>"
  have "cs_nc_off ?s < 16" by simp
  then have "cs_nc_off ?s \<le> 15" by linarith
  from Cons.IH[OF this] show ?case by (simp add: Let_def split_beta)
qed simp

end
