(* ===== verification/Ccm.thy ===== *)
theory Ccm
  imports Iot_Prelude
begin

text \<open>
  Counter mode with CBC-MAC as mbedTLS computes it (\<open>lib/mbedtls/library/ccm.c\<close>): the loop that
  authenticates and encrypts block by block with its counter increment, encryption and decryption with
  the tag comparison.  The block cipher is an argument, a function on 16 bytes.  The reference is the
  text of SP 800-38C: formatted blocks, CBC-MAC over all of them, key stream blocks numbered by a counter.
\<close>

section \<open>Code\<close>

datatype ccm_error = MBEDTLS_ERR_CCM_BAD_INPUT | MBEDTLS_ERR_CCM_AUTH_FAILED

datatype ccm_mode = CCM_ENCRYPT | CCM_DECRYPT

definition xor16 :: "bytes \<Rightarrow> bytes \<Rightarrow> bytes" where
  "xor16 = map2 (XOR)"

definition pad16 :: "bytes \<Rightarrow> bytes" where
  "pad16 xs = xs @ replicate (16 - length xs) 0"

text \<open>\<open>UPDATE_CBC_MAC\<close>, with the block cipher \<open>E\<close>.\<close>

definition cbc_update :: "(bytes \<Rightarrow> bytes) \<Rightarrow> bytes \<Rightarrow> bytes \<Rightarrow> bytes" where
  "cbc_update E y b = E (xor16 y b)"

text \<open>\<open>CTR_CRYPT\<close>: the bytes of \<open>src\<close> masked with the encrypted counter block.\<close>

definition ctr_crypt :: "(bytes \<Rightarrow> bytes) \<Rightarrow> bytes \<Rightarrow> bytes \<Rightarrow> bytes" where
  "ctr_crypt E ctr src = map2 (XOR) src (E ctr)"

definition ccm_b0 :: "nat \<Rightarrow> bytes \<Rightarrow> nat \<Rightarrow> nat \<Rightarrow> bytes" where
  "ccm_b0 len iv add_len tag_len =
    (let q = 15 - length iv in
     ((if add_len > 0 then push_bit 6 1 else 0)
        OR ucast (push_bit 3 ((word_of_nat tag_len - 2 :: u64) div 2)) OR word_of_nat (q - 1))
     # iv @ rev (map (\<lambda>i. word_of_nat (len div 256 ^ i)) [0..<q]))"

text \<open>The loop over the additional data after its first 14 bytes.\<close>

function cbc_blocks :: "(bytes \<Rightarrow> bytes) \<Rightarrow> bytes \<Rightarrow> bytes \<Rightarrow> bytes" where
  "cbc_blocks E y src = (if src = [] then y else cbc_blocks E (cbc_update E y (pad16 (take 16 src))) (drop 16 src))"
  by pat_completeness auto
termination
  by (relation "measure (\<lambda>(_, _, src). length src)") auto

definition ccm_aad :: "(bytes \<Rightarrow> bytes) \<Rightarrow> bytes \<Rightarrow> bytes \<Rightarrow> bytes" where
  "ccm_aad E y add =
    (if length add > 0
     then cbc_blocks E (cbc_update E y (pad16 ([word_of_nat (length add div 256), word_of_nat (length add)] @ take 14 add))) (drop 14 add)
     else y)"

text \<open>The counter increment: the last \<open>q\<close> bytes, from the end, until one does not become zero.\<close>

fun ctr_incr :: "nat \<Rightarrow> nat \<Rightarrow> bytes \<Rightarrow> bytes" where
  "ctr_incr 0 i ctr = ctr"
| "ctr_incr (Suc n) i ctr =
    (let ctr = ctr[15 - i := ctr ! (15 - i) + 1] in if ctr ! (15 - i) \<noteq> 0 then ctr else ctr_incr n (Suc i) ctr)"

text \<open>The main loop: authenticated bytes so far, counter, remaining input; output and final MAC.\<close>

function ccm_loop :: "(bytes \<Rightarrow> bytes) \<Rightarrow> ccm_mode \<Rightarrow> nat \<Rightarrow> bytes \<Rightarrow> bytes \<Rightarrow> bytes \<Rightarrow> bytes \<times> bytes" where
  "ccm_loop E mode q y ctr src =
    (if src = [] then ([], y)
     else
       let s = take 16 src;
           y = (if mode = CCM_ENCRYPT then cbc_update E y (pad16 s) else y);
           d = ctr_crypt E ctr s;
           y = (if mode = CCM_DECRYPT then cbc_update E y (pad16 d) else y);
           (out, y) = ccm_loop E mode q y (ctr_incr q 0 ctr) (drop 16 src)
       in (d @ out, y))"
  by pat_completeness auto
termination
  by (relation "measure (\<lambda>(_, _, _, _, _, src). length src)") auto

definition ccm_auth_crypt ::
  "(bytes \<Rightarrow> bytes) \<Rightarrow> ccm_mode \<Rightarrow> bytes \<Rightarrow> bytes \<Rightarrow> bytes \<Rightarrow> nat \<Rightarrow> ccm_error + (bytes \<times> bytes)"
where
  "ccm_auth_crypt E mode iv add input tag_len =
    (if tag_len = 2 \<or> tag_len > 16 \<or> tag_len mod 2 \<noteq> 0 then Inl MBEDTLS_ERR_CCM_BAD_INPUT
     else if length iv < 7 \<or> length iv > 13 then Inl MBEDTLS_ERR_CCM_BAD_INPUT
     else if length add \<ge> 0xFF00 then Inl MBEDTLS_ERR_CCM_BAD_INPUT
     else
       let q = 15 - length iv
       in if length input div 256 ^ q > 0 then Inl MBEDTLS_ERR_CCM_BAD_INPUT
          else
            let y = cbc_update E (replicate 16 0) (ccm_b0 (length input) iv (length add) tag_len);
                y = ccm_aad E y add;
                ctr = (word_of_nat (q - 1) # iv @ replicate q 0)[15 := 1];
                (out, y) = ccm_loop E mode q y ctr input;
                ctr = word_of_nat (q - 1) # iv @ replicate q 0
            in Inr (out, take tag_len (ctr_crypt E ctr y)))"

definition mbedtls_ccm_star_encrypt_and_tag ::
  "(bytes \<Rightarrow> bytes) \<Rightarrow> bytes \<Rightarrow> bytes \<Rightarrow> bytes \<Rightarrow> nat \<Rightarrow> ccm_error + (bytes \<times> bytes)"
where
  "mbedtls_ccm_star_encrypt_and_tag E iv add input tag_len = ccm_auth_crypt E CCM_ENCRYPT iv add input tag_len"

definition mbedtls_ccm_encrypt_and_tag ::
  "(bytes \<Rightarrow> bytes) \<Rightarrow> bytes \<Rightarrow> bytes \<Rightarrow> bytes \<Rightarrow> nat \<Rightarrow> ccm_error + (bytes \<times> bytes)"
where
  "mbedtls_ccm_encrypt_and_tag E iv add input tag_len =
    (if tag_len = 0 then Inl MBEDTLS_ERR_CCM_BAD_INPUT else mbedtls_ccm_star_encrypt_and_tag E iv add input tag_len)"

text \<open>On a wrong tag the output buffer is cleared and only the error is returned.\<close>

definition mbedtls_ccm_star_auth_decrypt ::
  "(bytes \<Rightarrow> bytes) \<Rightarrow> bytes \<Rightarrow> bytes \<Rightarrow> bytes \<Rightarrow> bytes \<Rightarrow> ccm_error + bytes"
where
  "mbedtls_ccm_star_auth_decrypt E iv add input tag =
    (case ccm_auth_crypt E CCM_DECRYPT iv add input (length tag) of
       Inl e \<Rightarrow> Inl e
     | Inr (out, check_tag) \<Rightarrow> if ct_diff tag check_tag \<noteq> 0 then Inl MBEDTLS_ERR_CCM_AUTH_FAILED else Inr out)"

definition mbedtls_ccm_auth_decrypt ::
  "(bytes \<Rightarrow> bytes) \<Rightarrow> bytes \<Rightarrow> bytes \<Rightarrow> bytes \<Rightarrow> bytes \<Rightarrow> ccm_error + bytes"
where
  "mbedtls_ccm_auth_decrypt E iv add input tag =
    (if length tag = 0 then Inl MBEDTLS_ERR_CCM_BAD_INPUT else mbedtls_ccm_star_auth_decrypt E iv add input tag)"

section \<open>Reference\<close>

fun chunks16 :: "bytes \<Rightarrow> bytes list" where
  "chunks16 [] = []"
| "chunks16 xs = take 16 xs # chunks16 (drop 16 xs)"

text \<open>The number \<open>n\<close> in \<open>q\<close> bytes, most significant first.\<close>

definition be_num :: "nat \<Rightarrow> nat \<Rightarrow> bytes" where
  "be_num q n = map (\<lambda>i. word_of_nat (n div 256 ^ (q - 1 - i))) [0..<q]"

definition ccm_ctr :: "bytes \<Rightarrow> nat \<Rightarrow> bytes" where
  "ccm_ctr iv i = (let q = 15 - length iv in word_of_nat (q - 1) # iv @ be_num q i)"

definition ccm_format :: "bytes \<Rightarrow> bytes \<Rightarrow> bytes \<Rightarrow> nat \<Rightarrow> bytes list" where
  "ccm_format iv add p t =
    (let q = 15 - length iv in
     [word_of_nat ((if add = [] then 0 else 64) + 8 * ((t - 2) div 2) + (q - 1)) # iv @ be_num q (length p)]
     @ map pad16 (if add = [] then [] else chunks16 (be_num 2 (length add) @ add)) @ map pad16 (chunks16 p))"

definition cbc_mac :: "(bytes \<Rightarrow> bytes) \<Rightarrow> bytes list \<Rightarrow> bytes" where
  "cbc_mac E bs = foldl (cbc_update E) (replicate 16 0) bs"

definition key_stream :: "(bytes \<Rightarrow> bytes) \<Rightarrow> bytes \<Rightarrow> nat \<Rightarrow> bytes" where
  "key_stream E iv n = concat (map (\<lambda>i. E (ccm_ctr iv (Suc i))) [0..<n])"

definition ccm_spec :: "(bytes \<Rightarrow> bytes) \<Rightarrow> bytes \<Rightarrow> bytes \<Rightarrow> bytes \<Rightarrow> nat \<Rightarrow> bytes \<times> bytes" where
  "ccm_spec E iv add p t =
    (map2 (XOR) p (key_stream E iv (length (chunks16 p))),
     take t (map2 (XOR) (cbc_mac E (ccm_format iv add p t)) (E (ccm_ctr iv 0))))"

section \<open>The loops\<close>

declare cbc_blocks.simps [simp del] ccm_loop.simps [simp del]

lemma chunks16_unfold: "xs \<noteq> [] \<Longrightarrow> chunks16 xs = take 16 xs # chunks16 (drop 16 xs)"
  by (cases xs) simp_all

lemma cbc_blocks_eq: "cbc_blocks E y src = foldl (cbc_update E) y (map pad16 (chunks16 src))"
proof (induction E y src rule: cbc_blocks.induct)
  case (1 E y src)
  then show ?case by (subst cbc_blocks.simps) (simp add: chunks16_unfold)
qed

lemma be_num_Suc: "be_num (Suc m) x = be_num m (x div 256) @ [word_of_nat x]"
  by (auto simp: be_num_def div_mult2_eq[symmetric] Suc_diff_le less_Suc_eq_le[symmetric] Suc_diff_Suc
      simp flip: power_Suc intro!: nth_equalityI)

lemma length_be_num [simp]: "length (be_num q n) = q"
  by (simp add: be_num_def)

lemma ctr_incr_be_num:
  "length pre + m + length suf = 16 \<Longrightarrow>
   ctr_incr m (length suf) (pre @ be_num m x @ suf) = pre @ be_num m (Suc x) @ suf"
proof (induction m arbitrary: x suf)
  case 0
  then show ?case by (simp add: be_num_def)
next
  case (Suc m)
  have pos: "15 - length suf = length (pre @ be_num m (x div 256))" using Suc.prems by simp
  have upd: "(pre @ be_num (Suc m) x @ suf)[15 - length suf := (pre @ be_num (Suc m) x @ suf) ! (15 - length suf) + 1]
      = pre @ be_num m (x div 256) @ word_of_nat (Suc x) # suf"
    unfolding pos be_num_Suc by (simp add: list_update_append nth_append)
  have at: "(pre @ be_num m (x div 256) @ word_of_nat (Suc x) # suf) ! (15 - length suf) = (word_of_nat (Suc x) :: u8)"
    unfolding pos by (simp add: nth_append)
  have z: "(word_of_nat (Suc x) :: u8) = 0 \<longleftrightarrow> Suc x mod 256 = 0"
    by (simp add: word_of_nat_eq_0_iff del: of_nat_Suc) (simp add: mod_eq_0_iff_dvd)
  show ?case
  proof (cases "Suc x mod 256 = 0")
    case True
    then have "Suc x div 256 = Suc (x div 256)" by (simp add: div_Suc)
    then show ?thesis using Suc.IH[of "0 # suf" "x div 256"] Suc.prems True z
      unfolding ctr_incr.simps Let_def upd at by (simp add: be_num_Suc del: of_nat_Suc)
  next
    case False
    then have "Suc x div 256 = x div 256" by (simp add: div_Suc)
    then show ?thesis using False z unfolding ctr_incr.simps Let_def upd at by (simp add: be_num_Suc del: of_nat_Suc)
  qed
qed

lemma ctr_step: "length iv \<le> 13 \<Longrightarrow> ctr_incr (15 - length iv) 0 (ccm_ctr iv i) = ccm_ctr iv (Suc i)"
  using ctr_incr_be_num[of "word_of_nat (15 - length iv - 1) # iv" "15 - length iv" "[]" i]
  by (simp add: ccm_ctr_def Let_def)

text \<open>A block cipher maps 16 bytes to 16 bytes.\<close>

definition block_fun :: "(bytes \<Rightarrow> bytes) \<Rightarrow> bool" where
  "block_fun E \<longleftrightarrow> (\<forall>b. length b = 16 \<longrightarrow> length (E b) = 16)"

lemma length_ccm_ctr: "length iv \<le> 13 \<Longrightarrow> length (ccm_ctr iv i) = 16"
  by (simp add: ccm_ctr_def Let_def)

definition stream_from :: "(bytes \<Rightarrow> bytes) \<Rightarrow> bytes \<Rightarrow> nat \<Rightarrow> nat \<Rightarrow> bytes" where
  "stream_from E iv i n = concat (map (\<lambda>k. E (ccm_ctr iv (i + k))) [0..<n])"

lemma stream_from_Suc: "stream_from E iv i (Suc n) = E (ccm_ctr iv i) @ stream_from E iv (Suc i) n"
proof -
  have "[0..<Suc n] = 0 # map Suc [0..<n]" by (simp add: map_Suc_upt upt_conv_Cons)
  then show ?thesis by (simp add: stream_from_def comp_def)
qed

lemma length_stream_from: "block_fun E \<Longrightarrow> length iv \<le> 13 \<Longrightarrow> length (stream_from E iv i n) = 16 * n"
  by (induction n arbitrary: i) (simp_all add: stream_from_Suc length_ccm_ctr block_fun_def, simp add: stream_from_def)

lemma loop_eq:
  assumes "block_fun E" and "length iv \<le> 13"
  shows "ccm_loop E mode (15 - length iv) y (ccm_ctr iv i) src =
    (let out = map2 (XOR) src (stream_from E iv i (length (chunks16 src)))
     in (out, foldl (cbc_update E) y (map pad16 (chunks16 (if mode = CCM_ENCRYPT then src else out)))))"
proof (induction "length src" arbitrary: src y i rule: less_induct)
  case less
  show ?case
  proof (cases "src = []")
    case True
    then show ?thesis by (subst ccm_loop.simps) (cases mode; simp)
  next
    case False
    let ?s = "take 16 src" and ?r = "drop 16 src" and ?e = "E (ccm_ctr iv i)"
    have e: "length ?e = 16" using assms length_ccm_ctr by (simp add: block_fun_def)
    have IH: "ccm_loop E mode (15 - length iv) y (ccm_ctr iv (Suc i)) ?r =
        (let out = map2 (XOR) ?r (stream_from E iv (Suc i) (length (chunks16 ?r)))
         in (out, foldl (cbc_update E) y (map pad16 (chunks16 (if mode = CCM_ENCRYPT then ?r else out)))))" for y
      using False by (intro less) simp
    have z: "map2 (XOR) src (?e @ ks) = map2 (XOR) ?s ?e @ map2 (XOR) ?r ks" for ks
      by (simp add: zip_append2 e)
    let ?o = "map2 (XOR) ?s ?e" and ?o' = "map2 (XOR) ?r (stream_from E iv (Suc i) (length (chunks16 ?r)))"
    have c: "chunks16 (?o @ ?o') = ?o # chunks16 ?o'" if "mode \<noteq> CCM_ENCRYPT"
    proof -
      have "?o \<noteq> []" using False e by (cases src; cases "?e") auto
      moreover have "take 16 (?o @ ?o') = ?o" "drop 16 (?o @ ?o') = ?o'" using e by (cases "length src \<ge> 16"; simp)+
      ultimately show ?thesis by (subst chunks16_unfold) auto
    qed
    show ?thesis using False c IH
      by (subst ccm_loop.simps) (cases mode; simp add: ctr_step[OF assms(2)] ctr_crypt_def Let_def chunks16_unfold stream_from_Suc z)
  qed
qed

lemma length_cbc_fold:
  "block_fun E \<Longrightarrow> length y = 16 \<Longrightarrow> \<forall>b \<in> set bs. length b = 16 \<Longrightarrow> length (foldl (cbc_update E) y bs) = 16"
  by (induction bs arbitrary: y) (simp_all add: cbc_update_def xor16_def block_fun_def)

lemma chunks16_lengths: "\<forall>b \<in> set (map pad16 (chunks16 xs)). length b = 16"
  by (induction xs rule: chunks16.induct) (auto simp: pad16_def)

lemma length_chunks16: "length xs \<le> 16 * length (chunks16 xs)"
  by (induction xs rule: chunks16.induct) auto

text \<open>The arguments that \<open>ccm_auth_crypt\<close> accepts for a non-empty tag.\<close>

definition ccm_args :: "bytes \<Rightarrow> bytes \<Rightarrow> bytes \<Rightarrow> nat \<Rightarrow> bool" where
  "ccm_args iv add p t \<longleftrightarrow> t \<in> {4, 6, 8, 10, 12, 14, 16} \<and> length iv \<in> {7..13} \<and> length add < 0xFF00 \<and> length p < 256 ^ (15 - length iv)"

lemma ccm_args_iff:
  "t \<noteq> 0 \<Longrightarrow> ccm_args iv add p t \<longleftrightarrow>
    \<not> (t = 2 \<or> t > 16 \<or> t mod 2 \<noteq> 0) \<and> \<not> (length iv < 7 \<or> length iv > 13) \<and> \<not> length add \<ge> 0xFF00 \<and> \<not> length p div 256 ^ (15 - length iv) > 0"
proof -
  assume "t \<noteq> 0"
  moreover have "t \<le> 16 \<Longrightarrow> t mod 2 = 0 \<Longrightarrow> 
      t = 0 \<or> t = 2 \<or> t = 4 \<or> t = 6 \<or> t = 8 \<or> t = 10 \<or> t = 12 \<or> t = 14 \<or> t = 16" by presburger
  ultimately show ?thesis by (auto simp: ccm_args_def div_eq_0_iff)
qed

lemma rev_map_be_num: "rev (map (\<lambda>i. word_of_nat (n div 256 ^ i)) [0..<q]) = (be_num q n :: bytes)"
  by (rule nth_equalityI) (simp_all add: be_num_def rev_nth)

lemma b0_format:
  assumes "ccm_args iv add p t"
  shows "ccm_b0 (length p) iv (length add) t =
    word_of_nat ((if add = [] then 0 else 64) + 8 * ((t - 2) div 2) + (15 - length iv - 1)) # iv @ be_num (15 - length iv) (length p)"
proof -
  have "length iv = 7 \<or> length iv = 8 \<or> length iv = 9 \<or> length iv = 10 \<or> length iv = 11 \<or> length iv = 12 \<or> length iv = 13"
    using assms by (auto simp: ccm_args_def)
  moreover have "t = 4 \<or> t = 6 \<or> t = 8 \<or> t = 10 \<or> t = 12 \<or> t = 14 \<or> t = 16" using assms by (auto simp: ccm_args_def)
  ultimately have "(if length add > 0 then push_bit 6 1 else 0) OR ucast (push_bit 3 ((word_of_nat t - 2 :: u64) div 2)) OR word_of_nat (15 - length iv - 1)
      = (word_of_nat ((if add = [] then 0 else 64) + 8 * ((t - 2) div 2) + (15 - length iv - 1)) :: u8)"
    by (cases "add = []") (elim disjE; simp)+
  then show ?thesis by (simp add: ccm_b0_def Let_def rev_map_be_num)
qed

lemma be_num_0: "be_num q 0 = replicate q 0"
  by (simp add: be_num_def map_replicate_const)

lemma ctr_zero: "word_of_nat (15 - length iv - 1) # iv @ replicate (15 - length iv) 0 = ccm_ctr iv 0"
  by (simp add: ccm_ctr_def Let_def be_num_0)

lemma ctr_one:
  assumes "length iv \<le> 13"
  shows "(ccm_ctr iv 0)[15 := 1] = ccm_ctr iv 1"
proof -
  obtain q where q: "15 - length iv = Suc q" using assms by (cases "15 - length iv") auto
  let ?p = "word_of_nat (Suc q - 1) # iv @ replicate q 0"
  have p: "15 = length ?p" using q assms by simp
  have "(?p @ [0])[15 := 1] = ?p @ [1 :: u8]" unfolding p by (rule list_update_length)
  moreover have "?p @ [0] = word_of_nat (Suc q - 1) # iv @ replicate (Suc q) 0" by (simp add: replicate_append_same)
  ultimately show ?thesis unfolding ccm_ctr_def Let_def q be_num_0 by (simp add: be_num_Suc be_num_0)
qed

lemma aad_eq:
  assumes "length add < 0xFF00"
  shows "ccm_aad E y add = foldl (cbc_update E) y (map pad16 (if add = [] then [] else chunks16 (be_num 2 (length add) @ add)))"
proof (cases "add = []")
  case False
  have "be_num 2 n = [word_of_nat (n div 256), word_of_nat n]" for n
    using be_num_Suc[of 1 n] be_num_Suc[of 0 "n div 256"] by (simp add: numeral_2_eq_2 be_num_def)
  then have "chunks16 (be_num 2 (length add) @ add) =
      ([word_of_nat (length add div 256), word_of_nat (length add)] @ take 14 add) # chunks16 (drop 14 add)"
    by simp
  then show ?thesis using False by (simp add: ccm_aad_def cbc_blocks_eq)
qed (simp add: ccm_aad_def)

lemma auth_crypt_eq:
  assumes "block_fun E" and "ccm_args iv add p t" and "t \<noteq> 0"
  shows "ccm_auth_crypt E mode iv add p t =
    (let out = map2 (XOR) p (key_stream E iv (length (chunks16 p)))
     in Inr (out, take t (map2 (XOR) (cbc_mac E (take (length (ccm_format iv add [] t)) (ccm_format iv add p t) @
           map pad16 (chunks16 (if mode = CCM_ENCRYPT then p else out)))) (E (ccm_ctr iv 0)))))"
proof -
  have iv: "length iv \<le> 13" using assms(2) by (auto simp: ccm_args_def)
  have guards: "\<not> (t = 2 \<or> t > 16 \<or> t mod 2 \<noteq> 0)" "\<not> (length iv < 7 \<or> length iv > 13)" "\<not> length add \<ge> 0xFF00"
      "\<not> length p div 256 ^ (15 - length iv) > 0"
    using ccm_args_iff[OF assms(3)] assms(2) by blast+
  have ks: "stream_from E iv 1 n = key_stream E iv n" for n by (simp add: stream_from_def key_stream_def)
  have "length add < 0xFF00" using guards(3) by simp
  note aad = aad_eq[OF this]
  show ?thesis unfolding ccm_auth_crypt_def Let_def if_not_P[OF guards(1)] if_not_P[OF guards(2)] if_not_P[OF guards(3)] if_not_P[OF guards(4)]
      ctr_zero ctr_one[OF iv] b0_format[OF assms(2)] aad loop_eq[OF assms(1) iv] ks prod.case
    by (simp add: ctr_crypt_def cbc_mac_def ccm_format_def Let_def)
qed

lemma format_prefix: "take (length (ccm_format iv add [] t)) (ccm_format iv add p t) @ map pad16 (chunks16 p) = ccm_format iv add p t"
  by (simp add: ccm_format_def Let_def)

lemma format_cong: "length p = length c \<Longrightarrow>
  take (length (ccm_format iv add [] t)) (ccm_format iv add c t) = take (length (ccm_format iv add [] t)) (ccm_format iv add p t)"
  by (simp add: ccm_format_def Let_def)

lemma encrypt_eq:
  assumes "block_fun E"
  shows "mbedtls_ccm_encrypt_and_tag E iv add p t =
    (if ccm_args iv add p t then Inr (ccm_spec E iv add p t) else Inl MBEDTLS_ERR_CCM_BAD_INPUT)"
proof (cases "ccm_args iv add p t")
  case True
  then have "t \<noteq> 0" by (auto simp: ccm_args_def)
  then show ?thesis using True auth_crypt_eq[OF assms True, of CCM_ENCRYPT]
    by (simp add: mbedtls_ccm_encrypt_and_tag_def mbedtls_ccm_star_encrypt_and_tag_def Let_def format_prefix ccm_spec_def)
next
  case False
  then show ?thesis using ccm_args_iff[of t iv add p]
    by (auto simp: mbedtls_ccm_encrypt_and_tag_def mbedtls_ccm_star_encrypt_and_tag_def ccm_auth_crypt_def Let_def)
qed

lemma length_cbc_mac_format:
  assumes "block_fun E" and "length iv \<le> 13"
  shows "length (cbc_mac E (ccm_format iv add p t)) = 16"
  unfolding cbc_mac_def
  by (rule length_cbc_fold) (use assms(2) chunks16_lengths in \<open>auto simp: assms(1) ccm_format_def Let_def split: if_splits\<close>)

lemma length_key_stream: "block_fun E \<Longrightarrow> length iv \<le> 13 \<Longrightarrow> length p \<le> length (key_stream E iv (length (chunks16 p)))"
  using length_stream_from[of E iv 1 "length (chunks16 p)"] length_chunks16[of p]
  by (simp add: stream_from_def key_stream_def)

lemma length_chunks16_eq: "length p = length c \<Longrightarrow> length (chunks16 p) = length (chunks16 c)"
proof (induction p arbitrary: c rule: chunks16.induct)
  case (2 x xs)
  then obtain y ys where "c = y # ys" by (cases c) auto
  with 2 show ?case by simp
qed simp

lemma xor_stream_cancel: "length p \<le> length ks \<Longrightarrow> map2 (XOR) (map2 (XOR) p ks) ks = (p :: bytes)"
  by (rule nth_equalityI) (simp_all add: xor.assoc)

lemma decrypt_eq:
  assumes "block_fun E"
  shows "mbedtls_ccm_auth_decrypt E iv add c tag =
    (if \<not> ccm_args iv add c (length tag) then Inl MBEDTLS_ERR_CCM_BAD_INPUT
     else let p = map2 (XOR) c (key_stream E iv (length (chunks16 c)))
          in if tag = snd (ccm_spec E iv add p (length tag)) then Inr p else Inl MBEDTLS_ERR_CCM_AUTH_FAILED)"
proof (cases "ccm_args iv add c (length tag)")
  case True
  let ?p = "map2 (XOR) c (key_stream E iv (length (chunks16 c)))" and ?t = "length tag"
  have t: "?t \<noteq> 0" "?t \<le> 16" and iv: "length iv \<le> 13" using True by (auto simp: ccm_args_def)
  have lp: "length ?p = length c" using length_key_stream[OF assms iv, of c] by simp
  let ?k = "take ?t (map2 (XOR) (cbc_mac E (ccm_format iv add ?p ?t)) (E (ccm_ctr iv 0)))"
  have "ccm_auth_crypt E CCM_DECRYPT iv add c ?t = Inr (?p, ?k)"
    using auth_crypt_eq[OF assms True t(1), of CCM_DECRYPT] format_cong[OF lp, of iv add ?t] format_prefix[of iv add ?t ?p] by (simp add: Let_def)
  moreover have "length ?k = ?t" using t(2) length_cbc_mac_format[OF assms iv] assms length_ccm_ctr[OF iv] by (simp add: block_fun_def)
  ultimately show ?thesis using True t(1)
    by (simp add: mbedtls_ccm_auth_decrypt_def mbedtls_ccm_star_auth_decrypt_def ct_diff_eq_0_iff Let_def ccm_spec_def)
next
  case False
  then show ?thesis using ccm_args_iff[of "length tag" iv add c]
    by (auto simp: mbedtls_ccm_auth_decrypt_def mbedtls_ccm_star_auth_decrypt_def ccm_auth_crypt_def Let_def)
qed

lemma ccm_args_length: "length p = length c \<Longrightarrow> ccm_args iv add p t = ccm_args iv add c t"
  by (simp add: ccm_args_def)

lemma decrypt_encrypt_iff:
  assumes "block_fun E"
  shows "mbedtls_ccm_auth_decrypt E iv add c tag = Inr p \<longleftrightarrow> mbedtls_ccm_encrypt_and_tag E iv add p (length tag) = Inr (c, tag)"
proof (cases "length iv \<le> 13")
  case True
  note ks = length_key_stream[OF assms True]
  have inv: "p = map2 (XOR) c (key_stream E iv (length (chunks16 c))) \<longleftrightarrow> c = map2 (XOR) p (key_stream E iv (length (chunks16 p)))"
    if "length p = length c"
    using xor_stream_cancel[OF ks[of c]] xor_stream_cancel[OF ks[of p]] length_chunks16_eq[OF that] by auto
  have len: "length (map2 (XOR) x (key_stream E iv (length (chunks16 x)))) = length x" for x using ks[of x] by simp
  show ?thesis unfolding decrypt_eq[OF assms] encrypt_eq[OF assms] Let_def
    using inv len[of c] len[of p] ccm_args_length[of p c iv add "length tag"] by (auto simp: ccm_spec_def split: if_splits)
qed (simp add: decrypt_eq[OF assms] encrypt_eq[OF assms], simp add: ccm_args_def)

section \<open>Properties\<close>

text \<open>
  CCM encryption: for every block cipher, the function returns the ciphertext and tag that SP 800-38C
  defines (formatted blocks through the CBC-MAC, key stream from the numbered counter blocks) when the tag
  length is an even number from 4 to 16, the nonce has 7 to 13 bytes, the additional data fewer than 65280
  and the length of the message fits its field, and \<open>MBEDTLS_ERR_CCM_BAD_INPUT\<close> otherwise.
\<close>

theorem ccm_encrypt_correct:
  assumes "block_fun E"
  shows "mbedtls_ccm_encrypt_and_tag E iv add p t =
    (if t \<in> {4, 6, 8, 10, 12, 14, 16} \<and> length iv \<in> {7..13} \<and> length add < 0xFF00 \<and> length p < 256 ^ (15 - length iv)
     then Inr (ccm_spec E iv add p t) else Inl MBEDTLS_ERR_CCM_BAD_INPUT)"
  using encrypt_eq[OF assms] unfolding ccm_args_def .

definition demo_E :: "bytes \<Rightarrow> bytes" where "demo_E b = map (\<lambda>x. 3 * x + 1) b"

lemma demo_block_fun: "block_fun demo_E"
  by (simp add: block_fun_def demo_E_def)

theorem ccm_encrypt_correct_witness:
  "mbedtls_ccm_encrypt_and_tag demo_E (replicate 13 7) [] [1, 2, 3] 4 = Inr (ccm_spec demo_E (replicate 13 7) [] [1, 2, 3] 4)"
  using ccm_encrypt_correct[OF demo_block_fun, of "replicate 13 7" "[]" "[1, 2, 3]" 4] by simp

text \<open>
  Decryption accepts exactly what encryption produces: for every block cipher, nonce and additional
  data, decrypting \<open>c\<close> with a tag gives the plaintext \<open>p\<close> if and only if encrypting \<open>p\<close> with that tag
  length gives \<open>c\<close> and this tag; every other input is refused.
\<close>

theorem ccm_decrypt_iff_encrypt:
  assumes "block_fun E"
  shows "mbedtls_ccm_auth_decrypt E iv add c tag = Inr p \<longleftrightarrow> mbedtls_ccm_encrypt_and_tag E iv add p (length tag) = Inr (c, tag)"
  by (rule decrypt_encrypt_iff[OF assms])

theorem ccm_decrypt_iff_encrypt_witness:
  "mbedtls_ccm_auth_decrypt demo_E (replicate 13 7) [9] (fst (ccm_spec demo_E (replicate 13 7) [9] [1, 2, 3] 4))
     (snd (ccm_spec demo_E (replicate 13 7) [9] [1, 2, 3] 4)) = Inr [1, 2, 3]"
proof -
  have "length (snd (ccm_spec demo_E (replicate 13 7) [9] [1, 2, 3] 4)) = 4"
    using length_cbc_mac_format[OF demo_block_fun, of "replicate 13 7" "[9]" "[1, 2, 3]" 4] length_ccm_ctr[of "replicate 13 7" 0]
    by (simp add: ccm_spec_def demo_E_def[of "ccm_ctr _ _"])
  then show ?thesis
    unfolding ccm_decrypt_iff_encrypt[OF demo_block_fun] encrypt_eq[OF demo_block_fun] by (simp add: ccm_args_def)
qed

end
