(* ===== verification/Cipher_Layer.thy ===== *)
theory Cipher_Layer
  imports Aes_Decrypt Ccm
begin

text \<open>
  The generic cipher layer of the vendored library (\<open>lib/mbedtls/library/cipher.c\<close>, \<open>cipher_wrap.c\<close>) and the key setup of
  \<open>ccm.c\<close> on top of it, for the configuration of the build: AES in ECB, counter and CCM mode.  CCM runs its block
  cipher through this layer; the lemmas show that every such call succeeds and is one AES encryption.  A call on a context
  that was never set up dereferences a null pointer in C and is outside the model.
\<close>

section \<open>Ciphers\<close>

datatype mbedtls_cipher_id_t =
  MBEDTLS_CIPHER_ID_NONE | MBEDTLS_CIPHER_ID_NULL | MBEDTLS_CIPHER_ID_AES | MBEDTLS_CIPHER_ID_DES | MBEDTLS_CIPHER_ID_3DES
| MBEDTLS_CIPHER_ID_CAMELLIA | MBEDTLS_CIPHER_ID_BLOWFISH | MBEDTLS_CIPHER_ID_ARC4 | MBEDTLS_CIPHER_ID_ARIA | MBEDTLS_CIPHER_ID_CHACHA20

datatype mbedtls_cipher_mode_t =
  MBEDTLS_MODE_NONE | MBEDTLS_MODE_ECB | MBEDTLS_MODE_CBC | MBEDTLS_MODE_CFB | MBEDTLS_MODE_OFB | MBEDTLS_MODE_CTR | MBEDTLS_MODE_GCM
| MBEDTLS_MODE_STREAM | MBEDTLS_MODE_CCM | MBEDTLS_MODE_XTS | MBEDTLS_MODE_CHACHAPOLY | MBEDTLS_MODE_KW | MBEDTLS_MODE_KWP

datatype mbedtls_operation_t = MBEDTLS_OPERATION_NONE | MBEDTLS_DECRYPT | MBEDTLS_ENCRYPT

text \<open>The identifiers of the ciphers that the configuration compiles.\<close>

datatype mbedtls_cipher_type_t =
  MBEDTLS_CIPHER_NONE | MBEDTLS_CIPHER_AES_128_ECB | MBEDTLS_CIPHER_AES_192_ECB | MBEDTLS_CIPHER_AES_256_ECB
| MBEDTLS_CIPHER_AES_128_CTR | MBEDTLS_CIPHER_AES_192_CTR | MBEDTLS_CIPHER_AES_256_CTR
| MBEDTLS_CIPHER_AES_128_CCM | MBEDTLS_CIPHER_AES_192_CCM | MBEDTLS_CIPHER_AES_256_CCM

text \<open>The two tables of functions; the calls through them are the functions \<open>ctx_alloc\<close>, \<open>base_setkey\<close>, \<open>ecb_func\<close> and
  \<open>ctr_func\<close> below.\<close>

datatype mbedtls_cipher_base_t = aes_info | ccm_aes_info

definition MBEDTLS_CIPHER_VARIABLE_IV_LEN :: u32 where "MBEDTLS_CIPHER_VARIABLE_IV_LEN = 0x01"
definition MBEDTLS_CIPHER_VARIABLE_KEY_LEN :: u32 where "MBEDTLS_CIPHER_VARIABLE_KEY_LEN = 0x02"
definition MBEDTLS_MAX_IV_LENGTH :: nat where "MBEDTLS_MAX_IV_LENGTH = 16"
definition MBEDTLS_MAX_BLOCK_LENGTH :: nat where "MBEDTLS_MAX_BLOCK_LENGTH = 16"

record mbedtls_cipher_info_t =
  ci_type :: mbedtls_cipher_type_t
  ci_mode :: mbedtls_cipher_mode_t
  ci_key_bitlen :: nat
  ci_name :: string
  ci_iv_size :: nat
  ci_flags :: u32
  ci_block_size :: nat
  ci_base :: mbedtls_cipher_base_t

definition aes_128_ecb_info :: mbedtls_cipher_info_t where
  "aes_128_ecb_info = \<lparr>ci_type = MBEDTLS_CIPHER_AES_128_ECB, ci_mode = MBEDTLS_MODE_ECB, ci_key_bitlen = 128, ci_name = ''AES-128-ECB'',
     ci_iv_size = 0, ci_flags = 0, ci_block_size = 16, ci_base = aes_info\<rparr>"

definition aes_192_ecb_info :: mbedtls_cipher_info_t where
  "aes_192_ecb_info = \<lparr>ci_type = MBEDTLS_CIPHER_AES_192_ECB, ci_mode = MBEDTLS_MODE_ECB, ci_key_bitlen = 192, ci_name = ''AES-192-ECB'',
     ci_iv_size = 0, ci_flags = 0, ci_block_size = 16, ci_base = aes_info\<rparr>"

definition aes_256_ecb_info :: mbedtls_cipher_info_t where
  "aes_256_ecb_info = \<lparr>ci_type = MBEDTLS_CIPHER_AES_256_ECB, ci_mode = MBEDTLS_MODE_ECB, ci_key_bitlen = 256, ci_name = ''AES-256-ECB'',
     ci_iv_size = 0, ci_flags = 0, ci_block_size = 16, ci_base = aes_info\<rparr>"

definition aes_128_ctr_info :: mbedtls_cipher_info_t where
  "aes_128_ctr_info = \<lparr>ci_type = MBEDTLS_CIPHER_AES_128_CTR, ci_mode = MBEDTLS_MODE_CTR, ci_key_bitlen = 128, ci_name = ''AES-128-CTR'',
     ci_iv_size = 16, ci_flags = 0, ci_block_size = 16, ci_base = aes_info\<rparr>"

definition aes_192_ctr_info :: mbedtls_cipher_info_t where
  "aes_192_ctr_info = \<lparr>ci_type = MBEDTLS_CIPHER_AES_192_CTR, ci_mode = MBEDTLS_MODE_CTR, ci_key_bitlen = 192, ci_name = ''AES-192-CTR'',
     ci_iv_size = 16, ci_flags = 0, ci_block_size = 16, ci_base = aes_info\<rparr>"

definition aes_256_ctr_info :: mbedtls_cipher_info_t where
  "aes_256_ctr_info = \<lparr>ci_type = MBEDTLS_CIPHER_AES_256_CTR, ci_mode = MBEDTLS_MODE_CTR, ci_key_bitlen = 256, ci_name = ''AES-256-CTR'',
     ci_iv_size = 16, ci_flags = 0, ci_block_size = 16, ci_base = aes_info\<rparr>"

definition aes_128_ccm_info :: mbedtls_cipher_info_t where
  "aes_128_ccm_info = \<lparr>ci_type = MBEDTLS_CIPHER_AES_128_CCM, ci_mode = MBEDTLS_MODE_CCM, ci_key_bitlen = 128, ci_name = ''AES-128-CCM'',
     ci_iv_size = 12, ci_flags = MBEDTLS_CIPHER_VARIABLE_IV_LEN, ci_block_size = 16, ci_base = ccm_aes_info\<rparr>"

definition aes_192_ccm_info :: mbedtls_cipher_info_t where
  "aes_192_ccm_info = \<lparr>ci_type = MBEDTLS_CIPHER_AES_192_CCM, ci_mode = MBEDTLS_MODE_CCM, ci_key_bitlen = 192, ci_name = ''AES-192-CCM'',
     ci_iv_size = 12, ci_flags = MBEDTLS_CIPHER_VARIABLE_IV_LEN, ci_block_size = 16, ci_base = ccm_aes_info\<rparr>"

definition aes_256_ccm_info :: mbedtls_cipher_info_t where
  "aes_256_ccm_info = \<lparr>ci_type = MBEDTLS_CIPHER_AES_256_CCM, ci_mode = MBEDTLS_MODE_CCM, ci_key_bitlen = 256, ci_name = ''AES-256-CCM'',
     ci_iv_size = 12, ci_flags = MBEDTLS_CIPHER_VARIABLE_IV_LEN, ci_block_size = 16, ci_base = ccm_aes_info\<rparr>"

definition mbedtls_cipher_definitions :: "(mbedtls_cipher_type_t \<times> mbedtls_cipher_info_t) list" where
  "mbedtls_cipher_definitions =
    [(MBEDTLS_CIPHER_AES_128_ECB, aes_128_ecb_info), (MBEDTLS_CIPHER_AES_192_ECB, aes_192_ecb_info), (MBEDTLS_CIPHER_AES_256_ECB, aes_256_ecb_info),
     (MBEDTLS_CIPHER_AES_128_CTR, aes_128_ctr_info), (MBEDTLS_CIPHER_AES_192_CTR, aes_192_ctr_info), (MBEDTLS_CIPHER_AES_256_CTR, aes_256_ctr_info),
     (MBEDTLS_CIPHER_AES_128_CCM, aes_128_ccm_info), (MBEDTLS_CIPHER_AES_192_CCM, aes_192_ccm_info), (MBEDTLS_CIPHER_AES_256_CCM, aes_256_ccm_info)]"

primrec base_cipher :: "mbedtls_cipher_base_t \<Rightarrow> mbedtls_cipher_id_t" where
  "base_cipher aes_info = MBEDTLS_CIPHER_ID_AES"
| "base_cipher ccm_aes_info = MBEDTLS_CIPHER_ID_AES"

definition mbedtls_cipher_list :: "mbedtls_cipher_type_t list" where
  "mbedtls_cipher_list = map fst mbedtls_cipher_definitions"

definition mbedtls_cipher_info_from_type :: "mbedtls_cipher_type_t \<Rightarrow> mbedtls_cipher_info_t option" where
  "mbedtls_cipher_info_from_type t = map_option snd (find (\<lambda>def. fst def = t) mbedtls_cipher_definitions)"

definition mbedtls_cipher_info_from_string :: "string option \<Rightarrow> mbedtls_cipher_info_t option" where
  "mbedtls_cipher_info_from_string name =
    (case name of None \<Rightarrow> None | Some n \<Rightarrow> map_option snd (find (\<lambda>def. ci_name (snd def) = n) mbedtls_cipher_definitions))"

definition mbedtls_cipher_info_from_values :: "mbedtls_cipher_id_t \<Rightarrow> nat \<Rightarrow> mbedtls_cipher_mode_t \<Rightarrow> mbedtls_cipher_info_t option" where
  "mbedtls_cipher_info_from_values cipher_id key_bitlen mode =
    map_option snd (find (\<lambda>def. base_cipher (ci_base (snd def)) = cipher_id \<and> ci_key_bitlen (snd def) = key_bitlen \<and> ci_mode (snd def) = mode)
      mbedtls_cipher_definitions)"

section \<open>Contexts\<close>

datatype cipher_error =
  MBEDTLS_ERR_CIPHER_FEATURE_UNAVAILABLE | MBEDTLS_ERR_CIPHER_BAD_INPUT_DATA | MBEDTLS_ERR_CIPHER_ALLOC_FAILED
| MBEDTLS_ERR_CIPHER_FULL_BLOCK_EXPECTED | MBEDTLS_ERR_CIPHER_AUTH_FAILED | MBEDTLS_ERR_CIPHER_INVALID_CONTEXT
| MBEDTLS_ERR_AES_INVALID_KEY_LENGTH | MBEDTLS_ERR_AES_BAD_INPUT_DATA | Ccm_Err ccm_error

text \<open>The cipher-specific context behind the pointer \<open>cipher_ctx\<close>: that of AES, or that of CCM, whose only member is again a
  generic context.\<close>

datatype cipher_ctx = Aes_Ctx mbedtls_aes_context | Ccm_Ctx mbedtls_cipher_context_t
and mbedtls_cipher_context_t = Cipher_Context
  (cc_info: "mbedtls_cipher_info_t option") (cc_key_bitlen: nat) (cc_operation: mbedtls_operation_t) (cc_unprocessed_data: bytes)
  (cc_unprocessed_len: nat) (cc_iv: bytes) (cc_iv_size: nat) (cc_ctx: "cipher_ctx option")

definition mbedtls_cipher_init :: mbedtls_cipher_context_t where
  "mbedtls_cipher_init = Cipher_Context None 0 MBEDTLS_DECRYPT (replicate MBEDTLS_MAX_BLOCK_LENGTH 0) 0 (replicate MBEDTLS_MAX_IV_LENGTH 0) 0 None"

definition mbedtls_aes_init :: mbedtls_aes_context where
  "mbedtls_aes_init = \<lparr>aes_nr = 0, aes_rk = []\<rparr>"

text \<open>\<open>alloc\<close> says which allocations succeed.\<close>

definition ctx_alloc :: "(mbedtls_cipher_base_t \<Rightarrow> bool) \<Rightarrow> mbedtls_cipher_base_t \<Rightarrow> cipher_ctx option" where
  "ctx_alloc alloc base =
    (if alloc base then Some (case base of aes_info \<Rightarrow> Aes_Ctx mbedtls_aes_init | ccm_aes_info \<Rightarrow> Ccm_Ctx mbedtls_cipher_init) else None)"

text \<open>A result \<open>None\<close> is the return value 0.  The build has no mode with padding.\<close>

definition mbedtls_cipher_setup ::
  "(mbedtls_cipher_base_t \<Rightarrow> bool) \<Rightarrow> mbedtls_cipher_info_t option \<Rightarrow> mbedtls_cipher_context_t \<Rightarrow> cipher_error option \<times> mbedtls_cipher_context_t"
where
  "mbedtls_cipher_setup alloc info ctx =
    (case info of
       None \<Rightarrow> (Some MBEDTLS_ERR_CIPHER_BAD_INPUT_DATA, ctx)
     | Some i \<Rightarrow> (case ctx_alloc alloc (ci_base i) of
           None \<Rightarrow> (Some MBEDTLS_ERR_CIPHER_ALLOC_FAILED, mbedtls_cipher_init)
         | Some c \<Rightarrow> (None, Cipher_Context (Some i) 0 MBEDTLS_DECRYPT (replicate MBEDTLS_MAX_BLOCK_LENGTH 0) 0 (replicate MBEDTLS_MAX_IV_LENGTH 0) 0 (Some c))))"

section \<open>Keys\<close>

text \<open>\<open>aes_setkey_enc_wrap\<close> and \<open>aes_setkey_dec_wrap\<close>.\<close>

definition aes_setkey_wrap :: "aes_mode \<Rightarrow> cipher_ctx option \<Rightarrow> bytes \<Rightarrow> nat \<Rightarrow> cipher_error option \<times> cipher_ctx option" where
  "aes_setkey_wrap mode c key key_bitlen =
    (case (if mode = MBEDTLS_AES_ENCRYPT then mbedtls_aes_setkey_enc key key_bitlen else mbedtls_aes_setkey_dec key key_bitlen) of
       None \<Rightarrow> (Some MBEDTLS_ERR_AES_INVALID_KEY_LENGTH, c)
     | Some a \<Rightarrow> (None, Some (Aes_Ctx a)))"

text \<open>The body of \<open>mbedtls_cipher_setkey\<close>, with the key functions of the base as an argument: CCM calls it for the ECB context
  it owns, whose base is that of AES.\<close>

definition setkey_through ::
  "(mbedtls_cipher_base_t \<Rightarrow> aes_mode \<Rightarrow> cipher_ctx option \<Rightarrow> bytes \<Rightarrow> nat \<Rightarrow> cipher_error option \<times> cipher_ctx option) \<Rightarrow>
   mbedtls_cipher_context_t \<Rightarrow> bytes \<Rightarrow> nat \<Rightarrow> mbedtls_operation_t \<Rightarrow> cipher_error option \<times> mbedtls_cipher_context_t"
where
  "setkey_through setkey ctx key key_bitlen operation =
    (case ctx of Cipher_Context info kb op ud ul iv ivs c \<Rightarrow>
       (case info of
          None \<Rightarrow> (Some MBEDTLS_ERR_CIPHER_BAD_INPUT_DATA, ctx)
        | Some i \<Rightarrow>
            if ci_flags i AND MBEDTLS_CIPHER_VARIABLE_KEY_LEN = 0 \<and> ci_key_bitlen i \<noteq> key_bitlen then (Some MBEDTLS_ERR_CIPHER_BAD_INPUT_DATA, ctx)
            else if operation = MBEDTLS_ENCRYPT \<or> ci_mode i \<in> {MBEDTLS_MODE_CFB, MBEDTLS_MODE_OFB, MBEDTLS_MODE_CTR}
            then (case setkey (ci_base i) MBEDTLS_AES_ENCRYPT c key key_bitlen of
                    (ret, c) \<Rightarrow> (ret, Cipher_Context info key_bitlen operation ud ul iv ivs c))
            else if operation = MBEDTLS_DECRYPT
            then (case setkey (ci_base i) MBEDTLS_AES_DECRYPT c key key_bitlen of
                    (ret, c) \<Rightarrow> (ret, Cipher_Context info key_bitlen operation ud ul iv ivs c))
            else (Some MBEDTLS_ERR_CIPHER_BAD_INPUT_DATA, Cipher_Context info key_bitlen operation ud ul iv ivs c)))"

definition mbedtls_ccm_setkey ::
  "(mbedtls_cipher_base_t \<Rightarrow> bool) \<Rightarrow> mbedtls_cipher_context_t \<Rightarrow> mbedtls_cipher_id_t \<Rightarrow> bytes \<Rightarrow> nat \<Rightarrow> cipher_error option \<times> mbedtls_cipher_context_t"
where
  "mbedtls_ccm_setkey alloc ctx cipher key keybits =
    (case mbedtls_cipher_info_from_values cipher keybits MBEDTLS_MODE_ECB of
       None \<Rightarrow> (Some (Ccm_Err MBEDTLS_ERR_CCM_BAD_INPUT), ctx)
     | Some info \<Rightarrow>
         if ci_block_size info \<noteq> 16 then (Some (Ccm_Err MBEDTLS_ERR_CCM_BAD_INPUT), ctx)
         else (case mbedtls_cipher_setup alloc (Some info) mbedtls_cipher_init of
                 (Some ret, ctx) \<Rightarrow> (Some ret, ctx)
               | (None, ctx) \<Rightarrow> setkey_through (\<lambda>_. aes_setkey_wrap) ctx key keybits MBEDTLS_ENCRYPT))"

text \<open>\<open>setkey_enc_func\<close> and \<open>setkey_dec_func\<close> of the two bases.\<close>

definition base_setkey ::
  "(mbedtls_cipher_base_t \<Rightarrow> bool) \<Rightarrow> mbedtls_cipher_base_t \<Rightarrow> aes_mode \<Rightarrow> cipher_ctx option \<Rightarrow> bytes \<Rightarrow> nat \<Rightarrow> cipher_error option \<times> cipher_ctx option"
where
  "base_setkey alloc base mode c key key_bitlen =
    (case base of
       aes_info \<Rightarrow> aes_setkey_wrap mode c key key_bitlen
     | ccm_aes_info \<Rightarrow> (case c of
           Some (Ccm_Ctx ctx) \<Rightarrow> (case mbedtls_ccm_setkey alloc ctx MBEDTLS_CIPHER_ID_AES key key_bitlen of (ret, ctx) \<Rightarrow> (ret, Some (Ccm_Ctx ctx)))
         | _ \<Rightarrow> (Some MBEDTLS_ERR_CIPHER_BAD_INPUT_DATA, c)))"

definition mbedtls_cipher_setkey ::
  "(mbedtls_cipher_base_t \<Rightarrow> bool) \<Rightarrow> mbedtls_cipher_context_t \<Rightarrow> bytes \<Rightarrow> nat \<Rightarrow> mbedtls_operation_t \<Rightarrow> cipher_error option \<times> mbedtls_cipher_context_t"
where
  "mbedtls_cipher_setkey alloc = setkey_through (base_setkey alloc)"

section \<open>Processing data\<close>

definition mbedtls_cipher_get_block_size :: "mbedtls_cipher_context_t \<Rightarrow> nat" where
  "mbedtls_cipher_get_block_size ctx = (case cc_info ctx of None \<Rightarrow> 0 | Some i \<Rightarrow> ci_block_size i)"

definition mbedtls_cipher_set_iv :: "mbedtls_cipher_context_t \<Rightarrow> bytes \<Rightarrow> cipher_error option \<times> mbedtls_cipher_context_t" where
  "mbedtls_cipher_set_iv ctx new_iv =
    (case ctx of Cipher_Context info kb op ud ul iv ivs c \<Rightarrow>
       (case info of
          None \<Rightarrow> (Some MBEDTLS_ERR_CIPHER_BAD_INPUT_DATA, ctx)
        | Some i \<Rightarrow>
            if length new_iv > MBEDTLS_MAX_IV_LENGTH then (Some MBEDTLS_ERR_CIPHER_FEATURE_UNAVAILABLE, ctx)
            else
              let variable_iv = ci_flags i AND MBEDTLS_CIPHER_VARIABLE_IV_LEN \<noteq> 0;
                  actual_iv_size = (if variable_iv then length new_iv else ci_iv_size i)
              in if \<not> variable_iv \<and> actual_iv_size > length new_iv then (Some MBEDTLS_ERR_CIPHER_BAD_INPUT_DATA, ctx)
                 else if actual_iv_size \<noteq> 0
                 then (None, Cipher_Context info kb op ud ul (take actual_iv_size new_iv @ drop actual_iv_size iv) actual_iv_size c)
                 else (None, ctx)))"

definition mbedtls_cipher_reset :: "mbedtls_cipher_context_t \<Rightarrow> cipher_error option \<times> mbedtls_cipher_context_t" where
  "mbedtls_cipher_reset ctx =
    (case ctx of Cipher_Context info kb op ud ul iv ivs c \<Rightarrow>
       (if info = None then (Some MBEDTLS_ERR_CIPHER_BAD_INPUT_DATA, ctx) else (None, Cipher_Context info kb op ud 0 iv ivs c)))"

text \<open>\<open>aes_crypt_ecb_wrap\<close>, the only block function of the build; the operation is handed on as the mode.\<close>

definition ecb_func :: "cipher_ctx option \<Rightarrow> mbedtls_operation_t \<Rightarrow> bytes \<Rightarrow> bytes" where
  "ecb_func c operation input =
    (case c of
       Some (Aes_Ctx a) \<Rightarrow> mbedtls_aes_crypt_ecb a (if operation = MBEDTLS_ENCRYPT then MBEDTLS_AES_ENCRYPT else MBEDTLS_AES_DECRYPT) input
     | _ \<Rightarrow> [])"

definition ctr_func :: "cipher_ctx option \<Rightarrow> ctr_state \<Rightarrow> bytes \<Rightarrow> (bytes \<times> ctr_state) option" where
  "ctr_func c s input = (case c of Some (Aes_Ctx a) \<Rightarrow> mbedtls_aes_crypt_ctr a s input | _ \<Rightarrow> None)"

text \<open>The result, the output with its length, and the context; \<open>in_place\<close> says that input and output are the same buffer.\<close>

definition mbedtls_cipher_update ::
  "mbedtls_cipher_context_t \<Rightarrow> bool \<Rightarrow> bytes \<Rightarrow> cipher_error option \<times> bytes \<times> mbedtls_cipher_context_t"
where
  "mbedtls_cipher_update ctx in_place input =
    (case ctx of Cipher_Context info kb op ud ul iv ivs c \<Rightarrow>
       (case info of
          None \<Rightarrow> (Some MBEDTLS_ERR_CIPHER_BAD_INPUT_DATA, [], ctx)
        | Some i \<Rightarrow>
            let block_size = mbedtls_cipher_get_block_size ctx
            in if block_size = 0 then (Some MBEDTLS_ERR_CIPHER_INVALID_CONTEXT, [], ctx)
               else if ci_mode i = MBEDTLS_MODE_ECB
               then if length input \<noteq> block_size then (Some MBEDTLS_ERR_CIPHER_FULL_BLOCK_EXPECTED, [], ctx)
                    else (None, ecb_func c op input, ctx)
               else if in_place \<and> (ul \<noteq> 0 \<or> length input mod block_size \<noteq> 0) then (Some MBEDTLS_ERR_CIPHER_BAD_INPUT_DATA, [], ctx)
               else if ci_mode i = MBEDTLS_MODE_CTR
               then (case ctr_func c \<lparr>cs_nc_off = ul, cs_nonce_counter = iv, cs_stream_block = ud\<rparr> input of
                       None \<Rightarrow> (Some MBEDTLS_ERR_AES_BAD_INPUT_DATA, [], ctx)
                     | Some (out, s) \<Rightarrow>
                         (None, out, Cipher_Context info kb op (cs_stream_block s) (cs_nc_off s) (cs_nonce_counter s) ivs c))
               else (Some MBEDTLS_ERR_CIPHER_FEATURE_UNAVAILABLE, [], ctx)))"

definition mbedtls_cipher_finish :: "mbedtls_cipher_context_t \<Rightarrow> cipher_error option" where
  "mbedtls_cipher_finish ctx =
    (case cc_info ctx of
       None \<Rightarrow> Some MBEDTLS_ERR_CIPHER_BAD_INPUT_DATA
     | Some i \<Rightarrow>
         if ci_mode i \<in> {MBEDTLS_MODE_CFB, MBEDTLS_MODE_OFB, MBEDTLS_MODE_CTR, MBEDTLS_MODE_GCM, MBEDTLS_MODE_XTS, MBEDTLS_MODE_STREAM} then None
         else if ci_mode i = MBEDTLS_MODE_ECB
         then if cc_unprocessed_len ctx \<noteq> 0 then Some MBEDTLS_ERR_CIPHER_FULL_BLOCK_EXPECTED else None
         else Some MBEDTLS_ERR_CIPHER_FEATURE_UNAVAILABLE)"

definition mbedtls_cipher_crypt ::
  "mbedtls_cipher_context_t \<Rightarrow> bytes \<Rightarrow> bool \<Rightarrow> bytes \<Rightarrow> cipher_error option \<times> bytes \<times> mbedtls_cipher_context_t"
where
  "mbedtls_cipher_crypt ctx iv in_place input =
    (case mbedtls_cipher_set_iv ctx iv of
       (Some ret, ctx) \<Rightarrow> (Some ret, [], ctx)
     | (None, ctx) \<Rightarrow> (case mbedtls_cipher_reset ctx of
           (Some ret, ctx) \<Rightarrow> (Some ret, [], ctx)
         | (None, ctx) \<Rightarrow> (case mbedtls_cipher_update ctx in_place input of
               (Some ret, out, ctx) \<Rightarrow> (Some ret, out, ctx)
             | (None, out, ctx) \<Rightarrow> (mbedtls_cipher_finish ctx, out, ctx))))"

section \<open>Authenticated encryption\<close>

text \<open>The block function that \<open>ccm.c\<close> uses: one call of \<open>mbedtls_cipher_update\<close> on the context it owns.\<close>

definition ccm_block :: "mbedtls_cipher_context_t \<Rightarrow> bytes \<Rightarrow> bytes" where
  "ccm_block ctx b = fst (snd (mbedtls_cipher_update ctx True b))"

definition mbedtls_cipher_aead_encrypt ::
  "mbedtls_cipher_context_t \<Rightarrow> bytes \<Rightarrow> bytes \<Rightarrow> bytes \<Rightarrow> nat \<Rightarrow> cipher_error + (bytes \<times> bytes)"
where
  "mbedtls_cipher_aead_encrypt ctx iv ad input tag_len =
    (case (map_option ci_mode (cc_info ctx), cc_ctx ctx) of
       (Some MBEDTLS_MODE_CCM, Some (Ccm_Ctx ccm)) \<Rightarrow>
         (case mbedtls_ccm_encrypt_and_tag (ccm_block ccm) iv ad input tag_len of Inl e \<Rightarrow> Inl (Ccm_Err e) | Inr out \<Rightarrow> Inr out)
     | _ \<Rightarrow> Inl MBEDTLS_ERR_CIPHER_FEATURE_UNAVAILABLE)"

definition mbedtls_cipher_aead_decrypt ::
  "mbedtls_cipher_context_t \<Rightarrow> bytes \<Rightarrow> bytes \<Rightarrow> bytes \<Rightarrow> bytes \<Rightarrow> cipher_error + bytes"
where
  "mbedtls_cipher_aead_decrypt ctx iv ad input tag =
    (case (map_option ci_mode (cc_info ctx), cc_ctx ctx) of
       (Some MBEDTLS_MODE_CCM, Some (Ccm_Ctx ccm)) \<Rightarrow>
         (case mbedtls_ccm_auth_decrypt (ccm_block ccm) iv ad input tag of
            Inl MBEDTLS_ERR_CCM_AUTH_FAILED \<Rightarrow> Inl MBEDTLS_ERR_CIPHER_AUTH_FAILED
          | Inl e \<Rightarrow> Inl (Ccm_Err e)
          | Inr out \<Rightarrow> Inr out)
     | _ \<Rightarrow> Inl MBEDTLS_ERR_CIPHER_FEATURE_UNAVAILABLE)"

text \<open>The tag follows the text in one buffer of \<open>output_len\<close> bytes.\<close>

definition mbedtls_cipher_auth_encrypt_ext ::
  "mbedtls_cipher_context_t \<Rightarrow> bytes \<Rightarrow> bytes \<Rightarrow> bytes \<Rightarrow> nat \<Rightarrow> nat \<Rightarrow> cipher_error + bytes"
where
  "mbedtls_cipher_auth_encrypt_ext ctx iv ad input output_len tag_len =
    (if output_len < length input + tag_len then Inl MBEDTLS_ERR_CIPHER_BAD_INPUT_DATA
     else (case mbedtls_cipher_aead_encrypt ctx iv ad input tag_len of Inl e \<Rightarrow> Inl e | Inr (out, tag) \<Rightarrow> Inr (out @ tag)))"

definition mbedtls_cipher_auth_decrypt_ext ::
  "mbedtls_cipher_context_t \<Rightarrow> bytes \<Rightarrow> bytes \<Rightarrow> bytes \<Rightarrow> nat \<Rightarrow> nat \<Rightarrow> cipher_error + bytes"
where
  "mbedtls_cipher_auth_decrypt_ext ctx iv ad input output_len tag_len =
    (if length input < tag_len \<or> output_len < length input - tag_len then Inl MBEDTLS_ERR_CIPHER_BAD_INPUT_DATA
     else mbedtls_cipher_aead_decrypt ctx iv ad (take (length input - tag_len) input) (drop (length input - tag_len) input))"

section \<open>The table\<close>

lemmas info_defs = aes_128_ecb_info_def aes_192_ecb_info_def aes_256_ecb_info_def aes_128_ctr_info_def aes_192_ctr_info_def
  aes_256_ctr_info_def aes_128_ccm_info_def aes_192_ccm_info_def aes_256_ccm_info_def

definition info_ok :: "mbedtls_cipher_info_t \<Rightarrow> bool" where
  "info_ok i \<longleftrightarrow> ci_key_bitlen i \<in> {128, 192, 256} \<and> ci_block_size i = 16 \<and> ci_flags i AND MBEDTLS_CIPHER_VARIABLE_KEY_LEN = 0
     \<and> (if ci_mode i = MBEDTLS_MODE_CCM then ci_base i = ccm_aes_info
        else ci_mode i \<in> {MBEDTLS_MODE_ECB, MBEDTLS_MODE_CTR} \<and> ci_base i = aes_info \<and> ci_flags i = 0
          \<and> ci_iv_size i = (if ci_mode i = MBEDTLS_MODE_ECB then 0 else 16))"

lemma definitions_ok: "list_all (\<lambda>def. ci_type (snd def) = fst def \<and> info_ok (snd def)) mbedtls_cipher_definitions"
  by (simp add: mbedtls_cipher_definitions_def info_ok_def info_defs MBEDTLS_CIPHER_VARIABLE_KEY_LEN_def MBEDTLS_CIPHER_VARIABLE_IV_LEN_def)

lemma info_from_type: "mbedtls_cipher_info_from_type t = Some i \<Longrightarrow> ci_type i = t \<and> info_ok i"
  using definitions_ok by (auto simp: mbedtls_cipher_info_from_type_def list_all_iff dest!: find_SomeD)

lemma ecb_info: "mbedtls_cipher_info_from_values MBEDTLS_CIPHER_ID_AES bits MBEDTLS_MODE_ECB = Some i \<longleftrightarrow>
    bits = 128 \<and> i = aes_128_ecb_info \<or> bits = 192 \<and> i = aes_192_ecb_info \<or> bits = 256 \<and> i = aes_256_ecb_info"
  by (auto simp: mbedtls_cipher_info_from_values_def mbedtls_cipher_definitions_def info_defs)

section \<open>Contexts of AES\<close>

text \<open>A context of a cipher of the table that runs AES directly, with the key schedule of its operation.\<close>

definition aes_context :: "mbedtls_cipher_info_t \<Rightarrow> bytes \<Rightarrow> mbedtls_operation_t \<Rightarrow> mbedtls_cipher_context_t \<Rightarrow> bool" where
  "aes_context i key op ctx \<longleftrightarrow>
    (\<exists>a. (if op = MBEDTLS_ENCRYPT \<or> ci_mode i = MBEDTLS_MODE_CTR then mbedtls_aes_setkey_enc key (ci_key_bitlen i)
          else mbedtls_aes_setkey_dec key (ci_key_bitlen i)) = Some a
      \<and> ctx = Cipher_Context (Some i) (ci_key_bitlen i) op (replicate 16 0) 0 (replicate 16 0) 0 (Some (Aes_Ctx a)))"

lemma setkey_enc_succeeds: "bits \<in> {128, 192, 256} \<Longrightarrow> \<exists>a. mbedtls_aes_setkey_enc key bits = Some a"
  by (auto simp: mbedtls_aes_setkey_enc_def)

lemma setkey_dec_succeeds: "bits \<in> {128, 192, 256} \<Longrightarrow> \<exists>a. mbedtls_aes_setkey_dec key bits = Some a"
  using setkey_dec_iff setkey_enc_succeeds by (metis not_None_eq)

lemma through_aes:
  assumes "info_ok i" and "ci_mode i \<noteq> MBEDTLS_MODE_CCM" and "op \<noteq> MBEDTLS_OPERATION_NONE" and "setkey aes_info = aes_setkey_wrap"
    and "alloc aes_info"
  shows "\<exists>c ctx. mbedtls_cipher_setup alloc (Some i) c0 = (None, c)
    \<and> setkey_through setkey c key (ci_key_bitlen i) op = (None, ctx) \<and> aes_context i key op ctx"
proof -
  obtain e d where k: "mbedtls_aes_setkey_enc key (ci_key_bitlen i) = Some e" "mbedtls_aes_setkey_dec key (ci_key_bitlen i) = Some d"
    using setkey_enc_succeeds setkey_dec_succeeds assms(1) unfolding info_ok_def by meson
  have b: "ci_base i = aes_info" "ci_mode i \<in> {MBEDTLS_MODE_ECB, MBEDTLS_MODE_CTR}" "ci_flags i = 0"
    using assms(1,2) by (auto simp: info_ok_def)
  show ?thesis
    using assms(3) b by (cases op) (auto simp: mbedtls_cipher_setup_def ctx_alloc_def assms(4,5) setkey_through_def aes_setkey_wrap_def k aes_context_def
        MBEDTLS_MAX_BLOCK_LENGTH_def MBEDTLS_MAX_IV_LENGTH_def)
qed

lemma ecb_infos_ok: "info_ok aes_128_ecb_info" "info_ok aes_192_ecb_info" "info_ok aes_256_ecb_info"
  using definitions_ok by (simp_all add: mbedtls_cipher_definitions_def)

lemma ccm_setkey_context:
  assumes "mbedtls_ccm_setkey alloc ctx0 MBEDTLS_CIPHER_ID_AES key bits = (None, ctx)"
  obtains i where "info_ok i" "ci_mode i = MBEDTLS_MODE_ECB" "ci_key_bitlen i = bits" "aes_context i key MBEDTLS_ENCRYPT ctx"
proof -
  obtain i where i: "mbedtls_cipher_info_from_values MBEDTLS_CIPHER_ID_AES bits MBEDTLS_MODE_ECB = Some i"
    using assms by (cases "mbedtls_cipher_info_from_values MBEDTLS_CIPHER_ID_AES bits MBEDTLS_MODE_ECB") (auto simp: mbedtls_ccm_setkey_def)
  then have ok: "info_ok i" "ci_mode i = MBEDTLS_MODE_ECB" "ci_key_bitlen i = bits" "ci_block_size i = 16" "ci_base i = aes_info"
    using ecb_infos_ok unfolding ecb_info by (auto simp: info_defs)
  have "alloc aes_info" using assms i ok by (cases "alloc aes_info") (auto simp: mbedtls_ccm_setkey_def mbedtls_cipher_setup_def ctx_alloc_def)
  then have "aes_context i key MBEDTLS_ENCRYPT ctx"
    using through_aes[of i MBEDTLS_ENCRYPT "\<lambda>_. aes_setkey_wrap" alloc mbedtls_cipher_init key] assms i ok by (auto simp: mbedtls_ccm_setkey_def)
  with ok show thesis using that by blast
qed

lemma ccm_setkey_succeeds:
  assumes "alloc aes_info" and "bits \<in> {128, 192, 256}"
  shows "\<exists>ctx. mbedtls_ccm_setkey alloc ctx0 MBEDTLS_CIPHER_ID_AES key bits = (None, ctx)"
proof -
  obtain i where i: "mbedtls_cipher_info_from_values MBEDTLS_CIPHER_ID_AES bits MBEDTLS_MODE_ECB = Some i"
    using assms(2) ecb_info by blast
  then have ok: "info_ok i" "ci_mode i = MBEDTLS_MODE_ECB" "ci_key_bitlen i = bits" "ci_block_size i = 16"
    using ecb_infos_ok unfolding ecb_info by (auto simp: info_defs)
  then show ?thesis
    using through_aes[of i MBEDTLS_ENCRYPT "\<lambda>_. aes_setkey_wrap" alloc mbedtls_cipher_init key] assms(1) i by (auto simp: mbedtls_ccm_setkey_def)
qed

lemma ccm_setkey_block:
  assumes "mbedtls_ccm_setkey alloc ctx0 MBEDTLS_CIPHER_ID_AES key bits = (None, ctx)"
  obtains a where "mbedtls_aes_setkey_enc key bits = Some a"
    "\<And>b ip. length b = 16 \<Longrightarrow> mbedtls_cipher_update ctx ip b = (None, mbedtls_internal_aes_encrypt a b, ctx)"
proof -
  obtain i where i: "info_ok i" "ci_mode i = MBEDTLS_MODE_ECB" "ci_key_bitlen i = bits" "aes_context i key MBEDTLS_ENCRYPT ctx"
    using ccm_setkey_context[OF assms] by blast
  then obtain a where a: "mbedtls_aes_setkey_enc key bits = Some a"
    "ctx = Cipher_Context (Some i) bits MBEDTLS_ENCRYPT (replicate 16 0) 0 (replicate 16 0) 0 (Some (Aes_Ctx a))"
    by (auto simp: aes_context_def)
  have "mbedtls_cipher_update ctx ip b = (None, mbedtls_internal_aes_encrypt a b, ctx)" if "length b = 16" for b ip
    using i that by (simp add: mbedtls_cipher_update_def a mbedtls_cipher_get_block_size_def ecb_func_def mbedtls_aes_crypt_ecb_def info_ok_def)
  with a(1) show thesis using that by blast
qed

lemma ccm_block_fun:
  assumes "mbedtls_ccm_setkey alloc ctx0 MBEDTLS_CIPHER_ID_AES key bits = (None, ctx)"
  shows "block_fun (ccm_block ctx)"
proof -
  obtain a where "mbedtls_aes_setkey_enc key bits = Some a"
    "\<And>b ip. length b = 16 \<Longrightarrow> mbedtls_cipher_update ctx ip b = (None, mbedtls_internal_aes_encrypt a b, ctx)"
    using ccm_setkey_block[OF assms] by blast
  then show ?thesis using aes_block_fun[of key bits a] by (simp add: block_fun_def ccm_block_def)
qed

section \<open>Properties\<close>

lemma crypt_aes:
  assumes "info_ok i" and "ci_mode i \<noteq> MBEDTLS_MODE_CCM" and "length iv = 16" and "ip \<longrightarrow> length p mod 16 = 0"
    and "ci_mode i = MBEDTLS_MODE_ECB \<longrightarrow> length p = 16"
    and "ctx = Cipher_Context (Some i) kb op (replicate 16 0) 0 (replicate 16 0) 0 (Some (Aes_Ctx a))"
  shows "\<exists>ctx'. mbedtls_cipher_crypt ctx iv ip p =
    (None, if ci_mode i = MBEDTLS_MODE_ECB then mbedtls_aes_crypt_ecb a (if op = MBEDTLS_ENCRYPT then MBEDTLS_AES_ENCRYPT else MBEDTLS_AES_DECRYPT) p
           else fst (ctr_loop a \<lparr>cs_nc_off = 0, cs_nonce_counter = iv, cs_stream_block = replicate 16 0\<rparr> p), ctx')"
proof -
  let ?s = "\<lparr>cs_nc_off = 0, cs_nonce_counter = iv, cs_stream_block = replicate 16 0\<rparr>"
  have i: "ci_mode i \<in> {MBEDTLS_MODE_ECB, MBEDTLS_MODE_CTR}" "ci_flags i = 0" "ci_block_size i = 16"
    "ci_iv_size i = (if ci_mode i = MBEDTLS_MODE_ECB then 0 else 16)" using assms(1,2) by (auto simp: info_ok_def)
  show ?thesis
  proof (cases "ci_mode i = MBEDTLS_MODE_ECB")
    case True
    then show ?thesis using i assms(3,5)
      by (simp add: assms(6) mbedtls_cipher_crypt_def mbedtls_cipher_set_iv_def mbedtls_cipher_reset_def mbedtls_cipher_update_def
          mbedtls_cipher_get_block_size_def mbedtls_cipher_finish_def ecb_func_def MBEDTLS_MAX_IV_LENGTH_def)
  next
    case False
    then show ?thesis using i assms(3,4)
      by (simp add: assms(6) mbedtls_cipher_crypt_def mbedtls_cipher_set_iv_def mbedtls_cipher_reset_def mbedtls_cipher_update_def
          mbedtls_cipher_get_block_size_def mbedtls_cipher_finish_def ctr_func_def mbedtls_aes_crypt_ctr_def MBEDTLS_MAX_IV_LENGTH_def split_beta)
  qed
qed

lemma length_ctr_loop: "length (fst (ctr_loop a s p)) = length p"
  by (induction p arbitrary: s) (simp_all add: Let_def split_beta)

text \<open>
  C39.  Round trip through the cipher layer: for every cipher of the table other than CCM, setting up a context succeeds when its
  memory is available, setting the key succeeds for both operations, and what the encrypting context makes of a message (one
  block in ECB mode, any length in counter mode) the decrypting context turns back into the message.
\<close>

theorem cipher_crypt_roundtrip:
  assumes "mbedtls_cipher_info_from_type t = Some i" and "ci_mode i \<noteq> MBEDTLS_MODE_CCM" and "alloc aes_info"
    and "length iv = 16" and "ip \<longrightarrow> length p mod 16 = 0" and "ci_mode i = MBEDTLS_MODE_ECB \<longrightarrow> length p = 16"
  shows "\<exists>c e d out e' d'. mbedtls_cipher_setup alloc (Some i) c0 = (None, c)
    \<and> mbedtls_cipher_setkey alloc c key (ci_key_bitlen i) MBEDTLS_ENCRYPT = (None, e)
    \<and> mbedtls_cipher_setkey alloc c key (ci_key_bitlen i) MBEDTLS_DECRYPT = (None, d)
    \<and> mbedtls_cipher_crypt e iv ip p = (None, out, e') \<and> length out = length p
    \<and> mbedtls_cipher_crypt d iv ip out = (None, p, d')"
proof -
  have i: "info_ok i" using info_from_type[OF assms(1)] by blast
  have b: "base_setkey alloc aes_info = aes_setkey_wrap" by (intro ext) (simp add: base_setkey_def)
  obtain c e where e: "mbedtls_cipher_setup alloc (Some i) c0 = (None, c)"
    "mbedtls_cipher_setkey alloc c key (ci_key_bitlen i) MBEDTLS_ENCRYPT = (None, e)" "aes_context i key MBEDTLS_ENCRYPT e"
    using through_aes[of i MBEDTLS_ENCRYPT "base_setkey alloc" alloc c0 key] i assms(2,3) b by (auto simp: mbedtls_cipher_setkey_def)
  obtain d where d: "mbedtls_cipher_setkey alloc c key (ci_key_bitlen i) MBEDTLS_DECRYPT = (None, d)" "aes_context i key MBEDTLS_DECRYPT d"
    using through_aes[of i MBEDTLS_DECRYPT "base_setkey alloc" alloc c0 key] i assms(2,3) b e(1) by (auto simp: mbedtls_cipher_setkey_def)
  obtain ea where ea: "mbedtls_aes_setkey_enc key (ci_key_bitlen i) = Some ea"
    "e = Cipher_Context (Some i) (ci_key_bitlen i) MBEDTLS_ENCRYPT (replicate 16 0) 0 (replicate 16 0) 0 (Some (Aes_Ctx ea))"
    using e(3) by (auto simp: aes_context_def)
  obtain da where da: "(if ci_mode i = MBEDTLS_MODE_CTR then mbedtls_aes_setkey_enc key (ci_key_bitlen i)
      else mbedtls_aes_setkey_dec key (ci_key_bitlen i)) = Some da"
    "d = Cipher_Context (Some i) (ci_key_bitlen i) MBEDTLS_DECRYPT (replicate 16 0) 0 (replicate 16 0) 0 (Some (Aes_Ctx da))"
    using d(2) by (auto simp: aes_context_def)
  let ?s = "\<lparr>cs_nc_off = 0, cs_nonce_counter = iv, cs_stream_block = replicate 16 0\<rparr>"
  let ?out = "if ci_mode i = MBEDTLS_MODE_ECB then mbedtls_aes_crypt_ecb ea MBEDTLS_AES_ENCRYPT p else fst (ctr_loop ea ?s p)"
  have len: "length ?out = length p"
    using assms(6) aes_block_fun[OF ea(1)] by (simp add: length_ctr_loop mbedtls_aes_crypt_ecb_def)
  obtain e' where 1: "mbedtls_cipher_crypt e iv ip p = (None, ?out, e')"
    using crypt_aes[OF i assms(2,4,5,6) ea(2)] by auto
  have "ip \<longrightarrow> length ?out mod 16 = 0" "ci_mode i = MBEDTLS_MODE_ECB \<longrightarrow> length ?out = 16" using len assms(5,6) by auto
  from crypt_aes[OF i assms(2,4) this da(2)] obtain d' where
    2: "mbedtls_cipher_crypt d iv ip ?out = (None, if ci_mode i = MBEDTLS_MODE_ECB then mbedtls_aes_crypt_ecb da MBEDTLS_AES_DECRYPT ?out
           else fst (ctr_loop da ?s ?out), d')" by auto
  have "(if ci_mode i = MBEDTLS_MODE_ECB then mbedtls_aes_crypt_ecb da MBEDTLS_AES_DECRYPT ?out else fst (ctr_loop da ?s ?out)) = p"
  proof (cases "ci_mode i = MBEDTLS_MODE_ECB")
    case True
    then show ?thesis using da(1) decrypt_encrypt_block[OF ea(1), of da p] assms(6) by (simp add: mbedtls_aes_crypt_ecb_def)
  next
    case False
    then have "ci_mode i = MBEDTLS_MODE_CTR" using i assms(2) by (auto simp: info_ok_def)
    then show ?thesis using da(1) ea(1) ctr_involution[of ea ?s p] by simp
  qed
  then show ?thesis using e(1,2) d(1) 1 2 len by auto
qed

theorem cipher_crypt_roundtrip_witness:
  "\<exists>c e d out e' d'. mbedtls_cipher_setup (\<lambda>_. True) (Some aes_256_ctr_info) mbedtls_cipher_init = (None, c)
    \<and> mbedtls_cipher_setkey (\<lambda>_. True) c (replicate 32 1) 256 MBEDTLS_ENCRYPT = (None, e)
    \<and> mbedtls_cipher_setkey (\<lambda>_. True) c (replicate 32 1) 256 MBEDTLS_DECRYPT = (None, d)
    \<and> mbedtls_cipher_crypt e (replicate 16 9) False [1, 2, 3] = (None, out, e') \<and> length out = 3
    \<and> mbedtls_cipher_crypt d (replicate 16 9) False out = (None, [1, 2, 3], d')"
proof -
  let ?p = "[1, 2, 3] :: bytes"
  have i: "mbedtls_cipher_info_from_type MBEDTLS_CIPHER_AES_256_CTR = Some aes_256_ctr_info"
    by (simp add: mbedtls_cipher_info_from_type_def mbedtls_cipher_definitions_def)
  have m: "ci_mode aes_256_ctr_info \<noteq> MBEDTLS_MODE_CCM" "ci_mode aes_256_ctr_info = MBEDTLS_MODE_ECB \<longrightarrow> length ?p = 16"
    and k: "ci_key_bitlen aes_256_ctr_info = 256" and l: "length (replicate 16 (9 :: u8)) = 16" "False \<longrightarrow> length ?p mod 16 = 0" "length ?p = 3"
    by (simp_all add: aes_256_ctr_info_def)
  show ?thesis
    using cipher_crypt_roundtrip[where alloc = "\<lambda>_. True", OF i m(1) TrueI l(1,2) m(2), of mbedtls_cipher_init "replicate 32 1"]
    unfolding k l(3) .
qed

lemma length_ccm_spec:
  assumes "block_fun E" and "length iv \<le> 13" and "t \<le> 16"
  shows "length (fst (ccm_spec E iv add p t)) = length p" and "length (snd (ccm_spec E iv add p t)) = t"
  using length_key_stream[OF assms(1,2), of p] length_cbc_mac_format[OF assms(1,2)] length_ccm_ctr[OF assms(2), of 0] assms(1,3)
  by (auto simp: ccm_spec_def block_fun_def)

lemma ccm_encrypt_lengths:
  assumes "block_fun E" and "mbedtls_ccm_encrypt_and_tag E iv ad p t = Inr (c, tag)"
  shows "length c = length p" and "length tag = t"
proof -
  have "ccm_args iv ad p t" "(c, tag) = ccm_spec E iv ad p t" using assms by (simp_all add: encrypt_eq split: if_splits)
  then show "length c = length p" "length tag = t"
    using length_ccm_spec[OF assms(1), of iv t ad p] by (auto simp: ccm_args_def) (metis fst_conv snd_conv)+
qed

lemma ccm_context:
  assumes "info_ok i" and "ci_mode i = MBEDTLS_MODE_CCM" and "alloc aes_info" and "alloc ccm_aes_info"
    and "op \<noteq> MBEDTLS_OPERATION_NONE"
  shows "\<exists>c ctx ccm. mbedtls_cipher_setup alloc (Some i) c0 = (None, c) \<and> mbedtls_cipher_setkey alloc c key (ci_key_bitlen i) op = (None, ctx)
    \<and> map_option ci_mode (cc_info ctx) = Some MBEDTLS_MODE_CCM \<and> cc_ctx ctx = Some (Ccm_Ctx ccm) \<and> block_fun (ccm_block ccm)"
proof -
  have i: "ci_key_bitlen i \<in> {128, 192, 256}" "ci_base i = ccm_aes_info" "ci_flags i AND MBEDTLS_CIPHER_VARIABLE_KEY_LEN = 0"
    using assms(1,2) by (auto simp: info_ok_def)
  obtain ccm where c: "mbedtls_ccm_setkey alloc mbedtls_cipher_init MBEDTLS_CIPHER_ID_AES key (ci_key_bitlen i) = (None, ccm)"
    using ccm_setkey_succeeds assms(3) i(1) by blast
  show ?thesis
    using assms(2,5) i(2,3) ccm_block_fun[OF c]
    by (cases op) (auto simp: mbedtls_cipher_setup_def ctx_alloc_def assms(4) mbedtls_cipher_setkey_def setkey_through_def base_setkey_def c)
qed

text \<open>
  C12.  Authenticated encryption through the cipher layer: for each CCM cipher of the table setting up and keying a context succeeds
  when its memory is available, with either operation, and decryption of a buffer accepts exactly the buffers that
  encryption produces.
\<close>

theorem cipher_aead_iff:
  assumes "mbedtls_cipher_info_from_type t = Some i" and "ci_mode i = MBEDTLS_MODE_CCM" and "alloc aes_info" and "alloc ccm_aes_info"
    and "op \<noteq> MBEDTLS_OPERATION_NONE"
  shows "\<exists>c ctx. mbedtls_cipher_setup alloc (Some i) c0 = (None, c) \<and> mbedtls_cipher_setkey alloc c key (ci_key_bitlen i) op = (None, ctx)
    \<and> (\<forall>iv ad buf p t. mbedtls_cipher_auth_decrypt_ext ctx iv ad buf (length p) t = Inr p
         \<longleftrightarrow> mbedtls_cipher_auth_encrypt_ext ctx iv ad p (length buf) t = Inr buf)"
proof -
  have "info_ok i" using info_from_type[OF assms(1)] by blast
  from ccm_context[OF this assms(2-5), of c0 key] obtain c ctx ccm where
    c: "mbedtls_cipher_setup alloc (Some i) c0 = (None, c)" "mbedtls_cipher_setkey alloc c key (ci_key_bitlen i) op = (None, ctx)"
    and m: "map_option ci_mode (cc_info ctx) = Some MBEDTLS_MODE_CCM" "cc_ctx ctx = Some (Ccm_Ctx ccm)" and E: "block_fun (ccm_block ccm)" by blast
  have "mbedtls_cipher_auth_decrypt_ext ctx iv ad buf (length p) t = Inr p
         \<longleftrightarrow> mbedtls_cipher_auth_encrypt_ext ctx iv ad p (length buf) t = Inr buf" for iv ad buf p t
  proof -
    have dec: "mbedtls_cipher_aead_decrypt ctx iv ad x y = Inr p \<longleftrightarrow> mbedtls_ccm_auth_decrypt (ccm_block ccm) iv ad x y = Inr p" for x y
      by (auto simp: mbedtls_cipher_aead_decrypt_def m split: sum.splits ccm_error.splits)
    have enc: "mbedtls_cipher_aead_encrypt ctx iv ad p t = Inr z \<longleftrightarrow> mbedtls_ccm_encrypt_and_tag (ccm_block ccm) iv ad p t = Inr z" for z
      by (auto simp: mbedtls_cipher_aead_encrypt_def m split: sum.splits)
    let ?n = "length buf - t"
    have ccm: "mbedtls_ccm_auth_decrypt (ccm_block ccm) iv ad (take ?n buf) (drop ?n buf) = Inr p \<longleftrightarrow>
        mbedtls_ccm_encrypt_and_tag (ccm_block ccm) iv ad p t = Inr (take ?n buf, drop ?n buf)" if "t \<le> length buf"
      using decrypt_encrypt_iff[OF E, of iv ad "take ?n buf" "drop ?n buf" p] that by simp
    show ?thesis
    proof
      assume "mbedtls_cipher_auth_decrypt_ext ctx iv ad buf (length p) t = Inr p"
      then have "t \<le> length buf" and 1: "mbedtls_ccm_encrypt_and_tag (ccm_block ccm) iv ad p t = Inr (take ?n buf, drop ?n buf)"
        using dec ccm by (auto simp: mbedtls_cipher_auth_decrypt_ext_def split: if_splits)
      moreover from this have "length buf = length p + t" using ccm_encrypt_lengths(1)[OF E 1] by simp
      ultimately show "mbedtls_cipher_auth_encrypt_ext ctx iv ad p (length buf) t = Inr buf"
        using enc[of "(take ?n buf, drop ?n buf)"] by (simp add: mbedtls_cipher_auth_encrypt_ext_def)
    next
      assume "mbedtls_cipher_auth_encrypt_ext ctx iv ad p (length buf) t = Inr buf"
      then obtain c tag where 1: "mbedtls_cipher_aead_encrypt ctx iv ad p t = Inr (c, tag)" "buf = c @ tag"
        by (auto simp: mbedtls_cipher_auth_encrypt_ext_def split: if_splits sum.splits)
      note len = ccm_encrypt_lengths[OF E 1(1)[unfolded enc]]
      show "mbedtls_cipher_auth_decrypt_ext ctx iv ad buf (length p) t = Inr p"
        using dec[of c tag] ccm 1 len enc[of "(c, tag)"] by (simp add: mbedtls_cipher_auth_decrypt_ext_def)
    qed
  qed
  then show ?thesis using c by blast
qed

theorem cipher_aead_iff_witness:
  "\<exists>c ctx. mbedtls_cipher_setup (\<lambda>_. True) (Some aes_128_ccm_info) mbedtls_cipher_init = (None, c)
    \<and> mbedtls_cipher_setkey (\<lambda>_. True) c (replicate 16 5) 128 MBEDTLS_DECRYPT = (None, ctx)
    \<and> (mbedtls_cipher_auth_decrypt_ext ctx (replicate 13 1) [] (replicate 20 0) 16 4 = Inr (replicate 16 0)
       \<longleftrightarrow> mbedtls_cipher_auth_encrypt_ext ctx (replicate 13 1) [] (replicate 16 0) 20 4 = Inr (replicate 20 0))"
proof -
  have "mbedtls_cipher_info_from_type MBEDTLS_CIPHER_AES_128_CCM = Some aes_128_ccm_info"
    by (simp add: mbedtls_cipher_info_from_type_def mbedtls_cipher_definitions_def)
  moreover have "ci_mode aes_128_ccm_info = MBEDTLS_MODE_CCM" "ci_key_bitlen aes_128_ccm_info = 128" by (simp_all add: aes_128_ccm_info_def)
  ultimately obtain c ctx where "mbedtls_cipher_setup (\<lambda>_. True) (Some aes_128_ccm_info) mbedtls_cipher_init = (None, c)"
    "mbedtls_cipher_setkey (\<lambda>_. True) c (replicate 16 5) 128 MBEDTLS_DECRYPT = (None, ctx)"
    "\<forall>iv ad buf p t. mbedtls_cipher_auth_decrypt_ext ctx iv ad buf (length p) t = Inr p
         \<longleftrightarrow> mbedtls_cipher_auth_encrypt_ext ctx iv ad p (length buf) t = Inr buf"
    using cipher_aead_iff[of MBEDTLS_CIPHER_AES_128_CCM aes_128_ccm_info "\<lambda>_. True" MBEDTLS_DECRYPT mbedtls_cipher_init "replicate 16 5"] by auto
  moreover from this(3)[rule_format, of "replicate 13 1" "[]" "replicate 20 0" "replicate 16 0" 4]
  have "mbedtls_cipher_auth_decrypt_ext ctx (replicate 13 1) [] (replicate 20 0) 16 4 = Inr (replicate 16 0)
       \<longleftrightarrow> mbedtls_cipher_auth_encrypt_ext ctx (replicate 13 1) [] (replicate 16 0) 20 4 = Inr (replicate 20 0)" by (simp only: length_replicate)
  ultimately show ?thesis by blast
qed

end
