(* ===== verification/Device_Crypto.thy ===== *)
theory Device_Crypto
  imports Transport Historian Md_Hmac Cipher_Layer
begin

text \<open>
  The cryptography of the devices, put together: the calls of \<open>ccm.c\<close>, over the cipher layer and AES, that
  \<open>transport_encryption.c\<close> and \<open>historian.c\<close> make (128-bit keys, nonces of 13 bytes, no additional data,
  tags of 4 and 16 bytes).  The session layer and the historian are generic in these functions; here their
  contracts are proved for the code that runs, and the round trip of a session holds without any hypothesis
  about cryptography.
\<close>

section \<open>AES-CCM as the devices call it\<close>

text \<open>
  \<open>alloc\<close> says whether the allocation of the cipher context succeeds.  The functions the other theories are instantiated with
  take it to succeed; when it fails, both calls return their error, which the session layer and the historian, generic in
  them, handle in their own theories.
\<close>

definition device_encrypt :: "nat \<Rightarrow> bool \<Rightarrow> ccm_enc" where
  "device_encrypt tag_len alloc key nonce plaintext =
    (case mbedtls_ccm_setkey (\<lambda>_. alloc) mbedtls_cipher_init MBEDTLS_CIPHER_ID_AES key 128 of
       (Some _, _) \<Rightarrow> None
     | (None, ctx) \<Rightarrow> (case mbedtls_ccm_encrypt_and_tag (ccm_block ctx) nonce [] plaintext tag_len of
           Inl _ \<Rightarrow> None | Inr out \<Rightarrow> Some out))"

definition device_decrypt :: "bool \<Rightarrow> ccm_dec" where
  "device_decrypt alloc key nonce ciphertext tag =
    (case mbedtls_ccm_setkey (\<lambda>_. alloc) mbedtls_cipher_init MBEDTLS_CIPHER_ID_AES key 128 of
       (Some _, _) \<Rightarrow> None
     | (None, ctx) \<Rightarrow> (case mbedtls_ccm_auth_decrypt (ccm_block ctx) nonce [] ciphertext tag of
           Inl _ \<Rightarrow> None | Inr p \<Rightarrow> Some p))"

definition transport_ccm :: ccm_enc where "transport_ccm = device_encrypt TRANSPORT_MIC_SIZE True"
definition historian_ccm :: ccm_enc where "historian_ccm = device_encrypt HISTORIAN_CCM_TAG_SIZE True"
definition device_ccm_dec :: ccm_dec where "device_ccm_dec = device_decrypt True"
definition device_hmac :: md_hmac where "device_hmac = mbedtls_md_hmac True True"

section \<open>The contracts\<close>

lemma setkey_128:
  obtains ctx where "mbedtls_ccm_setkey (\<lambda>_. True) mbedtls_cipher_init MBEDTLS_CIPHER_ID_AES key 128 = (None, ctx)" "block_fun (ccm_block ctx)"
  using ccm_setkey_succeeds[of "\<lambda>_. True" 128 mbedtls_cipher_init key] ccm_block_fun by auto

lemma device_roundtrip:
  assumes "device_encrypt t True k n p = Some (c, tag)"
  shows "length c = length p" and "length tag = t" and "device_decrypt True k n c tag = Some p"
proof -
  obtain ctx where ctx: "mbedtls_ccm_setkey (\<lambda>_. True) mbedtls_cipher_init MBEDTLS_CIPHER_ID_AES k 128 = (None, ctx)"
    and E: "block_fun (ccm_block ctx)" by (rule setkey_128)
  have e: "mbedtls_ccm_encrypt_and_tag (ccm_block ctx) n [] p t = Inr (c, tag)"
    using assms ctx by (simp add: device_encrypt_def split: sum.splits)
  show "length c = length p" and t: "length tag = t" using ccm_encrypt_lengths[OF E e] .
  show "device_decrypt True k n c tag = Some p"
    using decrypt_encrypt_iff[OF E, of n "[]" c tag p] e t by (simp add: device_decrypt_def ctx)
qed

lemma device_encrypt_succeeds:
  assumes "length n = 13" and "length p < 65536" and "t \<in> {4, 16}"
  shows "\<exists>c tag. device_encrypt t True k n p = Some (c, tag)"
proof -
  obtain ctx where ctx: "mbedtls_ccm_setkey (\<lambda>_. True) mbedtls_cipher_init MBEDTLS_CIPHER_ID_AES k 128 = (None, ctx)"
    and E: "block_fun (ccm_block ctx)" by (rule setkey_128)
  have "ccm_args n [] p t" using assms by (auto simp: ccm_args_def)
  then show ?thesis
    using encrypt_eq[OF E, of n "[]" p t]
    by (cases "ccm_spec (ccm_block ctx) n [] p t") (simp add: device_encrypt_def ctx)
qed

lemma device_ccm_ok: "ccm_ok transport_ccm device_ccm_dec"
  unfolding ccm_ok_def transport_ccm_def device_ccm_dec_def using device_roundtrip by blast

lemma device_historian_ccm_ok: "historian_ccm_ok historian_ccm device_ccm_dec"
  unfolding historian_ccm_ok_def historian_ccm_def device_ccm_dec_def HISTORIAN_CCM_NONCE_SIZE_def HISTORIAN_CCM_TAG_SIZE_def
proof (intro allI impI)
  fix k n p :: bytes assume "length n = 13" "length p = 24"
  then obtain c tag where "device_encrypt 16 True k n p = Some (c, tag)" using device_encrypt_succeeds[of n p 16 k] by auto
  then show "\<exists>c t. device_encrypt 16 True k n p = Some (c, t) \<and> length c = length p \<and> length t = 16 \<and> device_decrypt True k n c t = Some p"
    using device_roundtrip[of 16 k n p c tag] by blast
qed

lemma device_hmac_ok: "md_hmac_ok device_hmac"
  unfolding device_hmac_def by (rule hmac_length)

lemma transport_sends:
  assumes "tn_active s" and "\<forall>m \<in> set ms. length m \<le> TRANSPORT_MAX_PAYLOAD"
  shows "\<exists>fs s'. send_all transport_ccm s ms = Some (fs, s')"
  using assms
proof (induction ms arbitrary: s)
  case (Cons m ms)
  let ?n = "build_ccm_nonce (tn_session_id s) (tn_tx_nonce_counter s)"
  have "length ?n = 13" by (simp add: build_ccm_nonce_def be_bytes32_def)
  then obtain c t where "transport_ccm (tn_tx_key s) ?n m = Some (c, t)"
    using device_encrypt_succeeds[of ?n m 4] Cons.prems unfolding transport_ccm_def TRANSPORT_MIC_SIZE_def TRANSPORT_MAX_PAYLOAD_def by fastforce
  then show ?case
    using Cons.IH[of "s\<lparr>tn_tx_nonce_counter := tn_tx_nonce_counter s + 1\<rparr>"] Cons.prems by (auto simp: transport_encrypt_def)
qed simp

section \<open>Properties\<close>

text \<open>
  C8.  Round trip of a session, through the devices' own AES-CCM: whatever messages of at most the
  payload size a paired sender encrypts, encryption succeeds for each of them, the receiver decrypts the
  frames in order to exactly these messages, and the two ends stay paired.
\<close>

theorem transport_stream_roundtrip:
  assumes "paired a b" and "\<forall>m \<in> set ms. length m \<le> TRANSPORT_MAX_PAYLOAD"
  shows "\<exists>fs a'. send_all transport_ccm a ms = Some (fs, a')
    \<and> map snd (fst (recv_all device_ccm_dec b fs)) = ms \<and> paired a' (snd (recv_all device_ccm_dec b fs))"
proof -
  obtain fs a' where "send_all transport_ccm a ms = Some (fs, a')"
    using transport_sends[OF _ assms(2), of a] assms(1) by (auto simp: paired_def)
  then show ?thesis using stream_roundtrip[OF device_ccm_ok assms(1)] by blast
qed

theorem transport_stream_roundtrip_witness:
  "\<exists>fs a'. send_all transport_ccm demo_session [[1, 2], [], [3]] = Some (fs, a') \<and>
     map snd (fst (recv_all device_ccm_dec demo_session fs)) = [[1, 2], [], [3]]"
proof -
  have "paired demo_session demo_session" by (simp add: paired_def demo_session_def)
  from transport_stream_roundtrip[OF this, of "[[1, 2], [], [3]]"] show ?thesis by (auto simp: TRANSPORT_MAX_PAYLOAD_def)
qed

end
