(* ===== verification/Boot_Security.thy ===== *)
theory Boot_Security
  imports Audit_Log "HOL-Library.Sublist"
begin

text \<open>
  The boot chain and the hardware security modules: verification of an image over its bytes
  (\<open>shared/firmware_integrity.c\<close>), the check of the boot image with rollback (\<open>verified_boot.c\<close>), the tamper switch
  with its entry in the audit log (\<open>tamper_detect.c\<close>) and the confirmation gate in front of the JTAG fuse
  (\<open>jtag_disable.c\<close>).  The level of a pin is an argument of the calls that read it; the flash that the boot
  callbacks act on is a state of its own.
\<close>

section \<open>Firmware integrity\<close>

definition FW_INTEGRITY_HMAC_SIZE :: nat where "FW_INTEGRITY_HMAC_SIZE = 32"
definition FW_INTEGRITY_MANIFEST_MAGIC :: u32 where "FW_INTEGRITY_MANIFEST_MAGIC = 0x4657494D"

record FirmwareImageHeader_t =
  fh_magic :: u32
  fh_image_size :: u32
  fh_image_crc32 :: u32
  fh_hmac :: bytes
  fh_version :: u32
  fh_domain_profile_id :: u8
  fh_hw_variant_id :: u8
  fh_reserved :: u16

datatype FirmwareCheckResult_t =
  FW_CHECK_OK | FW_CHECK_ERR_HMAC | FW_CHECK_ERR_MAGIC | FW_CHECK_ERR_SIZE | FW_CHECK_ERR_PARAM_NULL | FW_CHECK_ERR_NOT_INIT

record firmware_integrity =
  fi_hmac_key :: bytes
  fi_key_set :: bool
  fi_initialised :: bool

definition firmware_integrity_init :: "firmware_integrity \<Rightarrow> bool \<times> firmware_integrity" where
  "firmware_integrity_init g =
     (True, \<lparr>fi_hmac_key = replicate FW_INTEGRITY_HMAC_SIZE 0, fi_key_set = False, fi_initialised = True\<rparr>)"

definition firmware_integrity_set_key :: "firmware_integrity \<Rightarrow> bytes option \<Rightarrow> bool \<times> firmware_integrity" where
  "firmware_integrity_set_key g key =
    (if \<not> fi_initialised g then (False, g)
     else (case key of
        None \<Rightarrow> (False, g)
      | Some k \<Rightarrow> if length k \<noteq> FW_INTEGRITY_HMAC_SIZE then (False, g)
          else (True, g\<lparr>fi_hmac_key := k, fi_key_set := True\<rparr>)))"

definition firmware_integrity_compute_hmac :: "md_hmac \<Rightarrow> bytes \<Rightarrow> bytes \<Rightarrow> bytes" where
  "firmware_integrity_compute_hmac md key image_data = iot_hmac_sha256 md key image_data"

definition firmware_integrity_verify ::
  "md_hmac \<Rightarrow> firmware_integrity \<Rightarrow> FirmwareImageHeader_t option \<Rightarrow> bytes option \<Rightarrow> FirmwareCheckResult_t"
where
  "firmware_integrity_verify md g header image_data =
    (case (header, image_data) of
       (Some h, Some d) \<Rightarrow>
         if \<not> fi_initialised g then FW_CHECK_ERR_NOT_INIT
         else if \<not> fi_key_set g then FW_CHECK_ERR_NOT_INIT
         else if fh_magic h \<noteq> FW_INTEGRITY_MANIFEST_MAGIC then FW_CHECK_ERR_MAGIC
         else if unat (fh_image_size h) \<noteq> length d then FW_CHECK_ERR_SIZE
         else if ct_diff (fh_hmac h) (firmware_integrity_compute_hmac md (fi_hmac_key g) d) = 0 then FW_CHECK_OK
         else FW_CHECK_ERR_HMAC
     | _ \<Rightarrow> FW_CHECK_ERR_PARAM_NULL)"

section \<open>Verified boot\<close>

definition VERIFIED_BOOT_HASH_SIZE :: nat where "VERIFIED_BOOT_HASH_SIZE = 32"
definition VERIFIED_BOOT_KEY_SIZE :: nat where "VERIFIED_BOOT_KEY_SIZE = 32"

datatype VerifiedBootResult_t =
  BOOT_OK | BOOT_ERR_INTEGRITY | BOOT_ERR_KEY_DERIVATION | BOOT_ERR_NOT_PROVISIONED | BOOT_ERR_PARAM_NULL

record BootVerification_t =
  bv_result :: VerifiedBootResult_t
  bv_image_valid :: bool
  bv_rollback_triggered :: bool
  bv_fw_version :: u32

definition boot_verification_zero :: BootVerification_t where
  "boot_verification_zero = \<lparr>bv_result = BOOT_OK, bv_image_valid = False, bv_rollback_triggered = False, bv_fw_version = 0\<rparr>"

record FlashImageDescriptor_t =
  fd_slot :: u32
  fd_size :: u32
  fd_version :: u32
  fd_hash :: bytes
  fd_present :: bool

definition derivation_context :: bytes where
  "derivation_context = cstr ''verified_boot_key_derivation''"

definition verified_boot_derive_key :: "md_hmac \<Rightarrow> bytes option \<Rightarrow> VerifiedBootResult_t \<times> bytes option" where
  "verified_boot_derive_key md identity_key =
    (case identity_key of
       None \<Rightarrow> (BOOT_ERR_PARAM_NULL, None)
     | Some k \<Rightarrow> if length k \<noteq> VERIFIED_BOOT_KEY_SIZE then (BOOT_ERR_KEY_DERIVATION, None)
         else (BOOT_OK, Some (take VERIFIED_BOOT_KEY_SIZE (iot_hmac_sha256 md k derivation_context))))"

definition boot_data :: "FlashImageDescriptor_t \<Rightarrow> bytes" where
  "boot_data d = be_bytes32 (fd_version d) @ be_bytes32 (fd_size d) @ [ucast (fd_slot d)]"

text \<open>The second component is what the function leaves in \<open>*result\<close>.\<close>

definition verified_boot_check ::
  "md_hmac \<Rightarrow> FlashImageDescriptor_t option \<Rightarrow> bytes option \<Rightarrow> BootVerification_t option \<Rightarrow>
   VerifiedBootResult_t \<times> BootVerification_t option"
where
  "verified_boot_check md descriptor identity_key result =
    (case (descriptor, identity_key, result) of
       (Some d, Some k, Some _) \<Rightarrow>
         let r = boot_verification_zero\<lparr>bv_fw_version := fd_version d\<rparr> in
         if \<not> fd_present d then (BOOT_OK, Some (r\<lparr>bv_result := BOOT_ERR_INTEGRITY, bv_image_valid := False\<rparr>))
         else (case verified_boot_derive_key md (Some k) of
            (BOOT_OK, Some derived_key) \<Rightarrow>
              let computed_hash = iot_hmac_sha256 md derived_key (boot_data d);
                  valid = (take VERIFIED_BOOT_HASH_SIZE computed_hash = take VERIFIED_BOOT_HASH_SIZE (fd_hash d))
              in (BOOT_OK, Some (r\<lparr>bv_image_valid := valid, bv_result := (if valid then BOOT_OK else BOOT_ERR_INTEGRITY)\<rparr>))
          | (dk_result, _) \<Rightarrow> (BOOT_OK, Some (r\<lparr>bv_result := dk_result, bv_image_valid := False\<rparr>)))
     | _ \<Rightarrow> (BOOT_ERR_PARAM_NULL, result))"

definition verified_boot_full_check ::
  "md_hmac \<Rightarrow> (u32 \<Rightarrow> 'f \<Rightarrow> FlashImageDescriptor_t option) option \<Rightarrow> (u32 \<Rightarrow> 'f \<Rightarrow> bool \<times> 'f) option \<Rightarrow> bytes option \<Rightarrow> u32 \<Rightarrow>
   BootVerification_t option \<Rightarrow> 'f \<Rightarrow> VerifiedBootResult_t \<times> BootVerification_t option \<times> 'f"
where
  "verified_boot_full_check md read_image rollback identity_key active_slot result flash =
    (case (read_image, identity_key, result) of
       (Some read_img, Some k, Some _) \<Rightarrow>
         (case read_img active_slot flash of
            None \<Rightarrow> (BOOT_OK, Some (boot_verification_zero\<lparr>bv_result := BOOT_ERR_NOT_PROVISIONED, bv_image_valid := False\<rparr>), flash)
          | Some desc \<Rightarrow>
              (case verified_boot_check md (Some desc) (Some k) (Some boot_verification_zero) of
                 (BOOT_OK, Some r) \<Rightarrow>
                   (case rollback of
                      Some roll \<Rightarrow>
                        if \<not> bv_image_valid r then
                          (case roll (if active_slot = 0 then 1 else 0) flash of
                             (ok, flash') \<Rightarrow> (BOOT_OK, Some (if ok then r\<lparr>bv_rollback_triggered := True\<rparr> else r), flash'))
                        else (BOOT_OK, Some r, flash)
                    | None \<Rightarrow> (BOOT_OK, Some r, flash))
               | (vr, r) \<Rightarrow> (vr, r, flash)))
     | _ \<Rightarrow> (BOOT_ERR_PARAM_NULL, result, flash))"

section \<open>Tamper switch\<close>

datatype TamperState_t = TAMPER_STATE_NONE | TAMPER_STATE_DETECTED

record TamperConfig_t =
  tm_gpio_pin :: u8
  tm_active_high :: bool
  tm_debounce_ms :: u32

text \<open>The callback \<open>gpio_read\<close> is modelled by the pin levels \<open>pins\<close> at the time of the call.\<close>

record tamper =
  tp_config :: TamperConfig_t
  tp_has_gpio :: bool
  tp_state :: TamperState_t
  tp_initialised :: bool

definition tamper_detect_read_gpio :: "tamper \<Rightarrow> (u8 \<Rightarrow> bool) \<Rightarrow> bool" where
  "tamper_detect_read_gpio g pins =
    (if \<not> tp_initialised g \<or> \<not> tp_has_gpio g then False
     else let raw = pins (tm_gpio_pin (tp_config g)) in if tm_active_high (tp_config g) then raw else \<not> raw)"

text \<open>\<open>gpio\<close>: no structure, or whether its function pointer is set.\<close>

definition tamper_detect_init :: "TamperConfig_t option \<Rightarrow> bool option \<Rightarrow> (u8 \<Rightarrow> bool) \<Rightarrow> tamper \<Rightarrow> bool \<times> tamper" where
  "tamper_detect_init config gpio pins g =
    (case (config, gpio) of
       (Some c, Some True) \<Rightarrow>
         let g = \<lparr>tp_config = c, tp_has_gpio = True, tp_state = TAMPER_STATE_NONE, tp_initialised = True\<rparr>
         in (True, if tamper_detect_read_gpio g pins then g\<lparr>tp_state := TAMPER_STATE_DETECTED\<rparr> else g)
     | _ \<Rightarrow> (False, g))"

definition tamper_detect_get_state ::
  "md_hmac \<Rightarrow> (u8 \<Rightarrow> bool) \<Rightarrow> tamper \<times> audit \<times> time_source \<Rightarrow> TamperState_t \<times> tamper \<times> audit \<times> time_source"
where
  "tamper_detect_get_state md pins s =
    (case s of (g, a, ts) \<Rightarrow>
       if \<not> tp_initialised g then (TAMPER_STATE_NONE, g, a, ts)
       else if tamper_detect_read_gpio g pins \<and> tp_state g \<noteq> TAMPER_STATE_DETECTED
       then (TAMPER_STATE_DETECTED, g\<lparr>tp_state := TAMPER_STATE_DETECTED\<rparr>,
             audit_log_add md a ts AUDIT_TAMPER_DETECTED 0 0 (Some (cstr ''Physical tamper switch triggered'')))
       else (tp_state g, g, a, ts))"

definition tamper_detect_reset :: "(u8 \<Rightarrow> bool) \<Rightarrow> tamper \<Rightarrow> bool \<times> tamper" where
  "tamper_detect_reset pins g =
    (if \<not> tp_initialised g then (False, g)
     else if tamper_detect_read_gpio g pins then (False, g)
     else (True, g\<lparr>tp_state := TAMPER_STATE_NONE\<rparr>))"

definition tamper_detect_is_initialised :: "tamper \<Rightarrow> bool" where
  "tamper_detect_is_initialised g = tp_initialised g"

section \<open>JTAG fuse\<close>

datatype JtagResult_t =
  JTAG_RESULT_OK | JTAG_RESULT_NOT_INITIALISED | JTAG_RESULT_NOT_CONFIRMED | JTAG_RESULT_ALREADY_DISABLED | JTAG_RESULT_HARDWARE_ERROR

record JtagConfig_t =
  jc_require_two_step_confirm :: bool
  jc_audit_before_and_after :: bool

record jtag =
  jt_config :: JtagConfig_t
  jt_initialised :: bool
  jt_enabled :: bool
  jt_step1_done :: bool
  jt_step2_done :: bool

definition jtag_disable_init :: "JtagConfig_t option \<Rightarrow> jtag \<Rightarrow> bool \<times> jtag" where
  "jtag_disable_init config g =
    (case config of None \<Rightarrow> (False, g)
     | Some c \<Rightarrow> (True, \<lparr>jt_config = c, jt_initialised = True, jt_enabled = True, jt_step1_done = False, jt_step2_done = False\<rparr>))"

definition jtag_disable_is_enabled :: "jtag \<Rightarrow> bool" where
  "jtag_disable_is_enabled g = jt_enabled g"

definition jtag_disable_confirm_step1 :: "jtag \<Rightarrow> bool \<times> jtag" where
  "jtag_disable_confirm_step1 g = (if \<not> jt_initialised g then (False, g) else (True, g\<lparr>jt_step1_done := True\<rparr>))"

definition jtag_disable_confirm_step2 :: "jtag \<Rightarrow> bool \<times> jtag" where
  "jtag_disable_confirm_step2 g =
    (if \<not> jt_initialised g then (False, g)
     else if \<not> jt_step1_done g then (False, g)
     else (True, g\<lparr>jt_step2_done := True\<rparr>))"

text \<open>Both builds, with and without the burn, do the same.\<close>

definition jtag_disable_perform :: "jtag \<Rightarrow> JtagResult_t \<times> jtag" where
  "jtag_disable_perform g =
    (if \<not> jt_initialised g then (JTAG_RESULT_NOT_INITIALISED, g)
     else if \<not> jt_enabled g then (JTAG_RESULT_ALREADY_DISABLED, g)
     else if jc_require_two_step_confirm (jt_config g) \<and> (\<not> jt_step1_done g \<or> \<not> jt_step2_done g) then (JTAG_RESULT_NOT_CONFIRMED, g)
     else (JTAG_RESULT_OK, g\<lparr>jt_enabled := False, jt_step1_done := False, jt_step2_done := False\<rparr>))"

section \<open>Images\<close>

text \<open>
  A firmware image is accepted exactly when the module has its key, the header carries the magic number and
  the length of the image, and the stored HMAC is the one of the image bytes under the key; in particular an image
  that was stamped with the key is accepted.
\<close>

theorem firmware_verify_iff:
  assumes "md_hmac_ok md" and "length (fh_hmac h) = FW_INTEGRITY_HMAC_SIZE"
  shows "firmware_integrity_verify md g (Some h) (Some d) = FW_CHECK_OK \<longleftrightarrow>
    fi_initialised g \<and> fi_key_set g \<and> fh_magic h = FW_INTEGRITY_MANIFEST_MAGIC \<and> unat (fh_image_size h) = length d \<and>
    fh_hmac h = firmware_integrity_compute_hmac md (fi_hmac_key g) d"
proof -
  have "length (fh_hmac h) = length (firmware_integrity_compute_hmac md (fi_hmac_key g) d)"
    using assms by (simp add: firmware_integrity_compute_hmac_def FW_INTEGRITY_HMAC_SIZE_def ATTESTATION_HMAC_SIZE_def)
  then show ?thesis by (auto simp: firmware_integrity_verify_def ct_diff_eq_0_iff)
qed

definition boot_demo_fi :: firmware_integrity where
  "boot_demo_fi = \<lparr>fi_hmac_key = replicate 32 4, fi_key_set = True, fi_initialised = True\<rparr>"

definition boot_demo_header :: FirmwareImageHeader_t where
  "boot_demo_header = \<lparr>fh_magic = 0x4657494D, fh_image_size = 3, fh_image_crc32 = 0,
     fh_hmac = firmware_integrity_compute_hmac demo_md (replicate 32 4) [1, 2, 3], fh_version = 1, fh_domain_profile_id = 1,
     fh_hw_variant_id = 1, fh_reserved = 0\<rparr>"

theorem firmware_verify_iff_witness:
  "firmware_integrity_verify demo_md boot_demo_fi (Some boot_demo_header) (Some [1, 2, 3]) = FW_CHECK_OK"
proof -
  have "length (fh_hmac boot_demo_header) = FW_INTEGRITY_HMAC_SIZE"
    using demo_md_ok by (simp add: boot_demo_header_def firmware_integrity_compute_hmac_def FW_INTEGRITY_HMAC_SIZE_def ATTESTATION_HMAC_SIZE_def)
  from firmware_verify_iff[OF demo_md_ok this, of boot_demo_fi "[1, 2, 3]"] show ?thesis
    by (simp add: boot_demo_fi_def boot_demo_header_def FW_INTEGRITY_MANIFEST_MAGIC_def)
qed

text \<open>
  C30.  The boot check: with a readable descriptor and a key of 32 bytes the image is declared valid exactly when it is
  present and its stored hash is the HMAC of version, size and slot under the derived key; the other slot is requested
  exactly when the image is invalid and a rollback function is given, and the flash changes only through that
  function.
\<close>

theorem boot_check_spec:
  assumes "md_hmac_ok md" and "length k = VERIFIED_BOOT_KEY_SIZE" and "read_img slot flash = Some d" and "length (fd_hash d) = VERIFIED_BOOT_HASH_SIZE"
  defines "valid \<equiv> fd_present d \<and> fd_hash d = iot_hmac_sha256 md (iot_hmac_sha256 md k derivation_context) (boot_data d)"
  shows "verified_boot_full_check md (Some read_img) rollback (Some k) slot (Some r0) flash =
    (let r = \<lparr>bv_result = (if valid then BOOT_OK else BOOT_ERR_INTEGRITY), bv_image_valid = valid, bv_rollback_triggered = False, bv_fw_version = fd_version d\<rparr>
     in if valid \<or> rollback = None then (BOOT_OK, Some r, flash)
        else case (the rollback) (if slot = 0 then 1 else 0) flash of
               (ok, flash') \<Rightarrow> (BOOT_OK, Some (r\<lparr>bv_rollback_triggered := ok\<rparr>), flash'))"
proof -
  have l: "length (iot_hmac_sha256 md a b) = 32" for a b using assms(1) by (simp add: ATTESTATION_HMAC_SIZE_def)
  have "verified_boot_check md (Some d) (Some k) (Some boot_verification_zero) =
      (BOOT_OK, Some \<lparr>bv_result = (if valid then BOOT_OK else BOOT_ERR_INTEGRITY), bv_image_valid = valid, bv_rollback_triggered = False,
        bv_fw_version = fd_version d\<rparr>)"
    using assms(2,4) l
    by (auto simp: verified_boot_check_def verified_boot_derive_key_def boot_verification_zero_def Let_def valid_def
        VERIFIED_BOOT_KEY_SIZE_def VERIFIED_BOOT_HASH_SIZE_def)
  then show ?thesis using assms(3)
    by (auto simp: verified_boot_full_check_def Let_def split: option.splits prod.splits)
qed

theorem boot_check_spec_witness:
  "verified_boot_full_check demo_md (Some (\<lambda>s f. Some \<lparr>fd_slot = s, fd_size = 9, fd_version = 2, fd_hash = replicate 32 0, fd_present = False\<rparr>))
     (Some (\<lambda>s f. (True, s))) (Some (replicate 32 1)) 0 (Some boot_verification_zero) 0 =
   (BOOT_OK, Some \<lparr>bv_result = BOOT_ERR_INTEGRITY, bv_image_valid = False, bv_rollback_triggered = True, bv_fw_version = 2\<rparr>, 1)"
proof -
  let ?read = "\<lambda>s f. Some \<lparr>fd_slot = s, fd_size = 9, fd_version = 2, fd_hash = replicate 32 0, fd_present = False\<rparr>"
  have "length (replicate 32 (1 :: u8)) = VERIFIED_BOOT_KEY_SIZE" "length (replicate 32 (0 :: u8)) = VERIFIED_BOOT_HASH_SIZE"
    by (simp_all add: VERIFIED_BOOT_KEY_SIZE_def VERIFIED_BOOT_HASH_SIZE_def)
  then show ?thesis
    using boot_check_spec[OF demo_md_ok, of "replicate 32 1" ?read 0 "0 :: u32" _ "Some (\<lambda>s f. (True, s))" boot_verification_zero] by (simp add: Let_def)
qed

section \<open>Tamper events\<close>

datatype tamper_event = Poll "u8 \<Rightarrow> bool" | Clear "u8 \<Rightarrow> bool"

definition tamper_apply :: "md_hmac \<Rightarrow> tamper \<times> audit \<times> time_source \<Rightarrow> tamper_event \<Rightarrow> tamper \<times> audit \<times> time_source" where
  "tamper_apply md s e =
    (case e of Poll pins \<Rightarrow> snd (tamper_detect_get_state md pins s)
     | Clear pins \<Rightarrow> (case s of (g, a, ts) \<Rightarrow> (snd (tamper_detect_reset pins g), a, ts)))"

text \<open>Whether the switch is triggered, the latch that polls set and successful resets clear, and how often it is set.\<close>

definition triggered :: "TamperConfig_t \<Rightarrow> (u8 \<Rightarrow> bool) \<Rightarrow> bool" where
  "triggered c pins \<longleftrightarrow> pins (tm_gpio_pin c) = tm_active_high c"

fun latch :: "TamperConfig_t \<Rightarrow> bool \<Rightarrow> tamper_event list \<Rightarrow> bool" where
  "latch c b [] = b"
| "latch c b (Poll p # es) = latch c (b \<or> triggered c p) es"
| "latch c b (Clear p # es) = latch c (b \<and> triggered c p) es"

fun rises :: "TamperConfig_t \<Rightarrow> bool \<Rightarrow> tamper_event list \<Rightarrow> nat" where
  "rises c b [] = 0"
| "rises c b (Poll p # es) = (if \<not> b \<and> triggered c p then 1 else 0) + rises c (b \<or> triggered c p) es"
| "rises c b (Clear p # es) = rises c (b \<and> triggered c p) es"

lemma read_gpio_triggered: "tp_initialised g \<Longrightarrow> tp_has_gpio g \<Longrightarrow> tamper_detect_read_gpio g pins = triggered (tp_config g) pins"
  by (simp add: tamper_detect_read_gpio_def triggered_def Let_def)

lemma audit_add_index:
  "au_g_initialised a \<Longrightarrow> au_write_index (fst (audit_log_add md a ts ev sid rid d)) = au_write_index a + 1
     \<and> au_g_initialised (fst (audit_log_add md a ts ev sid rid d))"
  by (auto simp: audit_log_add_def audit_store_def audit_log_persist_def audit_log_compute_chain_hmac_def Let_def split: prod.splits option.splits)

lemma tamper_run_spec:
  assumes "tp_initialised g" and "tp_has_gpio g" and "au_g_initialised a"
  shows "\<exists>g' a' ts'. foldl (tamper_apply md) (g, a, ts) es = (g', a', ts')
    \<and> tp_state g' = (if latch (tp_config g) (tp_state g = TAMPER_STATE_DETECTED) es then TAMPER_STATE_DETECTED else TAMPER_STATE_NONE)
    \<and> au_write_index a' = au_write_index a + word_of_nat (rises (tp_config g) (tp_state g = TAMPER_STATE_DETECTED) es)"
  using assms
proof (induction es arbitrary: g a ts)
  case Nil
  then show ?case by (cases "tp_state g") simp_all
next
  case (Cons e es)
  obtain g1 a1 ts1 where s1: "tamper_apply md (g, a, ts) e = (g1, a1, ts1)" by (cases "tamper_apply md (g, a, ts) e") auto
  let ?c = "tp_config g" and ?b = "tp_state g = TAMPER_STATE_DETECTED"
  have ok: "tp_initialised g1" "tp_has_gpio g1" "au_g_initialised a1" "tp_config g1 = ?c"
    and st: "(tp_state g1 = TAMPER_STATE_DETECTED) = latch ?c ?b [e]"
    and ix: "au_write_index a1 = au_write_index a + word_of_nat (rises ?c ?b [e])"
    using s1 Cons.prems audit_add_index[OF Cons.prems(3), of md ts AUDIT_TAMPER_DETECTED 0 0 "Some (cstr ''Physical tamper switch triggered'')"]
    by (cases e; cases "tp_state g";
        auto simp: tamper_apply_def tamper_detect_get_state_def tamper_detect_reset_def read_gpio_triggered split: if_splits)+
  have "latch ?c ?b (e # es) = latch ?c (latch ?c ?b [e]) es" "rises ?c ?b (e # es) = rises ?c ?b [e] + rises ?c (latch ?c ?b [e]) es"
    by (cases e; simp)+
  then show ?case using Cons.IH[OF ok(1-3), of ts1] s1 ok(4) st ix by (auto simp: add.assoc)
qed

text \<open>
  The tamper latch: after initialisation and any sequence of polls and resets, the module reports tampering exactly
  when the switch was triggered at boot or at some poll and no reset with a released switch came after it, and the audit
  log grew by exactly one entry for every poll that found the switch triggered while no tampering was latched.  A switch
  that is already triggered at boot is therefore latched without any entry.
\<close>

theorem tamper_latched_and_logged:
  assumes "tamper_detect_init (Some c) (Some True) pins g0 = (True, g)" and "au_g_initialised a"
  shows "\<exists>g' a' ts'. foldl (tamper_apply md) (g, a, ts) es = (g', a', ts')
    \<and> (tp_state g' = TAMPER_STATE_DETECTED \<longleftrightarrow> latch c (triggered c pins) es)
    \<and> au_write_index a' = au_write_index a + word_of_nat (rises c (triggered c pins) es)"
proof -
  have g: "tp_initialised g" "tp_has_gpio g" "tp_config g = c" "(tp_state g = TAMPER_STATE_DETECTED) = triggered c pins"
    using assms(1) by (auto simp: tamper_detect_init_def Let_def read_gpio_triggered split: if_splits)
  from tamper_run_spec[OF g(1,2) assms(2), of md ts es] show ?thesis unfolding g(3,4) by auto
qed

definition boot_demo_tamper :: tamper where
  "boot_demo_tamper = \<lparr>tp_config = \<lparr>tm_gpio_pin = 0, tm_active_high = False, tm_debounce_ms = 0\<rparr>, tp_has_gpio = False,
     tp_state = TAMPER_STATE_NONE, tp_initialised = False\<rparr>"

theorem tamper_latched_and_logged_witness:
  "\<exists>g' a' ts'. foldl (tamper_apply demo_md) (snd (tamper_detect_init (Some \<lparr>tm_gpio_pin = 3, tm_active_high = True, tm_debounce_ms = 50\<rparr>)
       (Some True) (\<lambda>_. True) boot_demo_tamper), demo_audit\<lparr>au_g_initialised := True\<rparr>, demo_time) [Poll (\<lambda>_. True), Poll (\<lambda>_. False)] = (g', a', ts')
    \<and> tp_state g' = TAMPER_STATE_DETECTED \<and> au_write_index a' = 9"
proof -
  let ?c = "\<lparr>tm_gpio_pin = 3, tm_active_high = True, tm_debounce_ms = 50\<rparr>"
  have "tamper_detect_init (Some ?c) (Some True) (\<lambda>_. True) boot_demo_tamper =
      (True, snd (tamper_detect_init (Some ?c) (Some True) (\<lambda>_. True) boot_demo_tamper))" by (simp add: tamper_detect_init_def Let_def)
  from tamper_latched_and_logged[OF this, of "demo_audit\<lparr>au_g_initialised := True\<rparr>" demo_md demo_time "[Poll (\<lambda>_. True), Poll (\<lambda>_. False)]"]
  show ?thesis by (auto simp: triggered_def demo_audit_def)
qed

section \<open>The confirmation gate\<close>

datatype jtag_op = Confirm1 | Confirm2 | Perform

fun jtag_apply :: "jtag \<Rightarrow> jtag_op \<Rightarrow> jtag" where
  "jtag_apply g Confirm1 = snd (jtag_disable_confirm_step1 g)"
| "jtag_apply g Confirm2 = snd (jtag_disable_confirm_step2 g)"
| "jtag_apply g Perform = snd (jtag_disable_perform g)"

lemma subseq_snoc: "subseq (xs @ [x]) (ys @ [y]) \<longleftrightarrow> subseq (xs @ [x]) ys \<or> x = y \<and> subseq xs ys"
proof
  assume "subseq (xs @ [x]) (ys @ [y])"
  then obtain us vs where u: "xs @ [x] = us @ vs" "subseq us ys" "subseq vs [y]" by (auto simp: subseq_append_iff)
  show "subseq (xs @ [x]) ys \<or> x = y \<and> subseq xs ys"
  proof (cases vs rule: rev_cases)
    case (snoc ws w)
    moreover have "length vs \<le> 1" using list_emb_length[OF u(3)] by simp
    ultimately show ?thesis using u by auto
  qed (use u in simp)
next
  assume "subseq (xs @ [x]) ys \<or> x = y \<and> subseq xs ys"
  then show "subseq (xs @ [x]) (ys @ [y])" by (auto intro: subseq_rev_drop_many)
qed

lemma both_steps_first: "subseq [Confirm1, Confirm2] ops \<Longrightarrow> subseq [Confirm1] ops"
  by (rule subseq_order.trans[of _ "[Confirm1, Confirm2]"]) simp_all

lemma jtag_run_spec:
  assumes "jc_require_two_step_confirm c"
  defines "g0 \<equiv> \<lparr>jt_config = c, jt_initialised = True, jt_enabled = True, jt_step1_done = False, jt_step2_done = False\<rparr>"
  shows "jt_config (foldl jtag_apply g0 ops) = c \<and> jt_initialised (foldl jtag_apply g0 ops)
    \<and> (jt_enabled (foldl jtag_apply g0 ops) \<longleftrightarrow> \<not> subseq [Confirm1, Confirm2, Perform] ops)
    \<and> (jt_enabled (foldl jtag_apply g0 ops) \<longrightarrow>
        jt_step1_done (foldl jtag_apply g0 ops) = subseq [Confirm1] ops \<and> jt_step2_done (foldl jtag_apply g0 ops) = subseq [Confirm1, Confirm2] ops)"
proof (induction ops rule: rev_induct)
  case Nil
  then show ?case by (simp add: g0_def)
next
  case (snoc op ops)
  have "subseq [Confirm1, Confirm2, Perform] (ops @ [op]) \<longleftrightarrow> subseq [Confirm1, Confirm2, Perform] ops \<or> op = Perform \<and> subseq [Confirm1, Confirm2] ops"
    "subseq [Confirm1, Confirm2] (ops @ [op]) \<longleftrightarrow> subseq [Confirm1, Confirm2] ops \<or> op = Confirm2 \<and> subseq [Confirm1] ops"
    "subseq [Confirm1] (ops @ [op]) \<longleftrightarrow> subseq [Confirm1] ops \<or> op = Confirm1"
    using subseq_snoc[of "[Confirm1, Confirm2]" Perform ops op] subseq_snoc[of "[Confirm1]" Confirm2 ops op] subseq_snoc[of "[]" Confirm1 ops op]
    by auto
  moreover note both_steps_first[of ops]
  ultimately show ?case using snoc assms(1)
    by (cases op) (auto simp: jtag_disable_confirm_step1_def jtag_disable_confirm_step2_def jtag_disable_perform_def)
qed

text \<open>
  The gate in front of the fuse: with two-step confirmation configured, after any sequence of confirmations and
  attempts an attempt succeeds exactly when the first step was confirmed and later the second, and no earlier attempt
  succeeded; there is no other way, and it succeeds at most once.
\<close>

theorem jtag_needs_both_steps:
  assumes "jtag_disable_init (Some c) g = (True, g0)" and "jc_require_two_step_confirm c"
  shows "fst (jtag_disable_perform (foldl jtag_apply g0 ops)) = JTAG_RESULT_OK \<longleftrightarrow>
    subseq [Confirm1, Confirm2] ops \<and> \<not> subseq [Confirm1, Confirm2, Perform] ops"
proof -
  have "g0 = \<lparr>jt_config = c, jt_initialised = True, jt_enabled = True, jt_step1_done = False, jt_step2_done = False\<rparr>"
    using assms(1) by (simp add: jtag_disable_init_def)
  moreover note both_steps_first[of ops]
  ultimately show ?thesis using jtag_run_spec[OF assms(2), of ops] assms(2) by (auto simp: jtag_disable_perform_def)
qed

theorem jtag_needs_both_steps_witness:
  "fst (jtag_disable_perform (foldl jtag_apply (snd (jtag_disable_init (Some \<lparr>jc_require_two_step_confirm = True, jc_audit_before_and_after = True\<rparr>)
      \<lparr>jt_config = \<lparr>jc_require_two_step_confirm = False, jc_audit_before_and_after = False\<rparr>, jt_initialised = False, jt_enabled = True,
        jt_step1_done = False, jt_step2_done = False\<rparr>)) [Confirm2, Confirm1, Perform, Confirm2])) = JTAG_RESULT_OK"
  by (subst jtag_needs_both_steps[where c = "\<lparr>jc_require_two_step_confirm = True, jc_audit_before_and_after = True\<rparr>"
        and g = "\<lparr>jt_config = \<lparr>jc_require_two_step_confirm = False, jc_audit_before_and_after = False\<rparr>, jt_initialised = False, jt_enabled = True,
        jt_step1_done = False, jt_step2_done = False\<rparr>"])
    (simp_all add: jtag_disable_init_def)

end
