(* ===== verification/Text_Format.thy ===== *)
theory Text_Format
  imports Iot_Prelude
begin

text \<open>
  Decimal output as \<open>printf\<close> produces it for \<open>%lu\<close> and \<open>%u\<close>, and \<open>snprintf\<close> into a buffer of a given size: the
  text is cut to leave room for the terminator, the value returned is the length of the uncut text.
\<close>

definition digit_char :: "nat \<Rightarrow> char" where
  "digit_char d = char_of (48 + d)"

fun dec :: "nat \<Rightarrow> string" where
  "dec n = (if n < 10 then [digit_char n] else dec (n div 10) @ [digit_char (n mod 10)])"

declare dec.simps [simp del]

definition snprintf_text :: "nat \<Rightarrow> string \<Rightarrow> string" where
  "snprintf_text n txt = take (n - 1) txt"

lemma dec_nonempty: "dec n \<noteq> []"
  by (subst dec.simps) simp

lemma length_dec: "n < 10 ^ k \<Longrightarrow> 0 < k \<Longrightarrow> length (dec n) \<le> k"
proof (induction k arbitrary: n)
  case (Suc k)
  show ?case
  proof (cases "n < 10")
    case True
    then show ?thesis by (subst dec.simps) simp
  next
    case False
    then have "n div 10 < 10 ^ k" "0 < k" using Suc.prems by (auto simp: less_mult_imp_div_less mult.commute intro!: Nat.gr0I)
    then show ?thesis using Suc.IH[of "n div 10"] False by (subst dec.simps) simp
  qed
qed simp

lemma length_dec_u32: "length (dec (unat (w :: u32))) \<le> 10"
proof -
  have "unat w < 10 ^ 10" using unat_u32_less[of w] by simp
  then show ?thesis by (intro length_dec) simp_all
qed

text \<open>Reading a number back.\<close>

definition digit_val :: "char \<Rightarrow> nat" where
  "digit_val c = of_char c - 48"

definition undec :: "string \<Rightarrow> nat" where
  "undec s = foldl (\<lambda>n c. 10 * n + digit_val c) 0 s"

definition is_digit :: "char \<Rightarrow> bool" where
  "is_digit c \<longleftrightarrow> 48 \<le> (of_char c :: nat) \<and> (of_char c :: nat) \<le> 57"

lemma digit_val_char: "d < 10 \<Longrightarrow> digit_val (digit_char d) = d" and is_digit_char: "d < 10 \<Longrightarrow> is_digit (digit_char d)"
  by (simp_all add: digit_val_def digit_char_def is_digit_def of_char_of)

lemma undec_dec: "undec (dec n) = n"
proof (induction n rule: dec.induct)
  case (1 n)
  then show ?case
    by (subst dec.simps) (cases "n < 10", auto simp: undec_def digit_val_char)
qed

lemma dec_digits: "list_all is_digit (dec n)"
proof (induction n rule: dec.induct)
  case (1 n)
  then show ?case by (subst dec.simps) (cases "n < 10", auto simp: is_digit_char)
qed

end
