(* ===== verification/Cloud_Ingestion.thy ===== *)
theory Cloud_Ingestion
  imports Text_Format Float32
begin

text \<open>
  The cloud side: the telemetry store with its tenants and tokens (\<open>cloud/telemetry_store.c\<close>) and the ingestion
  service that parses topics and payloads (\<open>cloud/ingestion_service.c\<close>).  Tags are C strings.  The calls of the
  cardinality callback are kept in the trace \<open>is_warnings\<close>.
\<close>

section \<open>Parsing numbers\<close>

text \<open>\<open>strtof\<close> of the C library in the default locale: white space, sign, infinity, NaN, decimal and hexadecimal numbers.\<close>

definition is_space :: "char \<Rightarrow> bool" where
  "is_space c \<longleftrightarrow> (of_char c :: nat) \<in> {9, 10, 11, 12, 13, 32}"

definition lower :: "char \<Rightarrow> char" where
  "lower c = (if 65 \<le> (of_char c :: nat) \<and> (of_char c :: nat) \<le> 90 then char_of ((of_char c :: nat) + 32) else c)"

definition hex_val :: "char \<Rightarrow> nat option" where
  "hex_val c = (if is_digit c then Some (digit_val c)
     else if 97 \<le> (of_char (lower c) :: nat) \<and> (of_char (lower c) :: nat) \<le> 102 then Some (of_char (lower c) - 87) else None)"

definition split_sign :: "string \<Rightarrow> bool \<times> string" where
  "split_sign s = (case s of c # r \<Rightarrow> if c = CHR ''-'' then (True, r) else if c = CHR ''+'' then (False, r) else (False, s) | [] \<Rightarrow> (False, []))"

text \<open>An exponent after the letter \<open>l\<close>; without digits there is none.\<close>

definition parse_exponent :: "char \<Rightarrow> string \<Rightarrow> int" where
  "parse_exponent l s =
    (case s of
       c # r \<Rightarrow>
         if lower c = l
         then (case split_sign r of (neg, r) \<Rightarrow> let d = int (undec (takeWhile is_digit r)) in if neg then - d else d)
         else 0
     | [] \<Rightarrow> 0)"

text \<open>The value \<open>m * base ^ e\<close>, rounded.\<close>

definition f32_scaled :: "bool \<Rightarrow> nat \<Rightarrow> nat \<Rightarrow> int \<Rightarrow> f32" where
  "f32_scaled neg m base e =
    (if 0 \<le> e then f32_round neg (m * base ^ nat e * 2 ^ 149) 1 else f32_round neg (m * 2 ^ 149) (base ^ nat (- e)))"

definition split_digits :: "(char \<Rightarrow> bool) \<Rightarrow> string \<Rightarrow> string \<times> string \<times> string" where
  "split_digits P s =
    (let ds = takeWhile P s; r = dropWhile P s
     in case r of c # r' \<Rightarrow> if c = CHR ''.'' then (ds, takeWhile P r', dropWhile P r') else (ds, [], r) | [] \<Rightarrow> (ds, [], []))"

definition strtof :: "string \<Rightarrow> f32" where
  "strtof s =
    (case split_sign (dropWhile is_space s) of (neg, s) \<Rightarrow>
       let l = map lower s in
       if take 3 l = ''inf'' then f32_of_mag neg 2139095040
       else if take 3 l = ''nan'' then f32_of_mag neg 2143289344
       else
         let (hd, hf, hr) = split_digits (\<lambda>c. hex_val c \<noteq> None) (drop 2 s) in
         if take 2 l = ''0x'' \<and> hd @ hf \<noteq> []
         then f32_scaled neg (foldl (\<lambda>n c. 16 * n + the (hex_val c)) 0 (hd @ hf)) 2 (parse_exponent (CHR ''p'') hr - 4 * int (length hf))
         else
           let (ds, fs, r) = split_digits is_digit s in
           if ds @ fs = [] then 0
           else f32_scaled neg (undec (ds @ fs)) 10 (parse_exponent (CHR ''e'') r - int (length fs)))"

section \<open>The telemetry store\<close>

definition TELEMETRY_STORE_MAX_SERIES :: nat where "TELEMETRY_STORE_MAX_SERIES = 1024"
definition TELEMETRY_STORE_MAX_TAG_LEN :: nat where "TELEMETRY_STORE_MAX_TAG_LEN = 64"
definition TELEMETRY_STORE_MAX_TENANTS :: nat where "TELEMETRY_STORE_MAX_TENANTS = 16"

lemmas store_consts = TELEMETRY_STORE_MAX_SERIES_def TELEMETRY_STORE_MAX_TAG_LEN_def TELEMETRY_STORE_MAX_TENANTS_def

record TelemetryDataPoint_t =
  td_tenant_id :: string
  td_site_id :: string
  td_node_id :: string
  td_device_class :: string
  td_metric_id :: string
  td_domain_profile_id :: string
  td_value :: f32
  td_timestamp_ms :: u64

record TenantCardinality_t =
  tc_tenant_id :: string
  tc_series_count :: u32
  tc_active :: bool

record TenantToken_t =
  tk_token_id :: u32
  tk_bound_tenant_id :: string
  tk_valid :: bool

datatype TelemetryStoreResult_t =
  STORE_OK | STORE_ERR_FULL | STORE_ERR_PARAM_NULL | STORE_ERR_TENANT_NOT_FOUND | STORE_ERR_UNAUTHORIZED

record telemetry_store =
  tl_store :: "TelemetryDataPoint_t list"
  tl_initialised :: bool
  tl_cardinality :: "TenantCardinality_t list"
  tl_next_token_id :: u32

definition make_series_key :: "TelemetryDataPoint_t \<Rightarrow> nat \<Rightarrow> string" where
  "make_series_key point key_size =
     snprintf_text key_size (td_site_id point @ '':'' @ td_node_id point @ '':'' @ td_metric_id point)"

text \<open>The position of the tenant's entry, after creating it if there is room.\<close>

definition find_or_create_cardinality :: "telemetry_store \<Rightarrow> string \<Rightarrow> nat option \<times> telemetry_store" where
  "find_or_create_cardinality g tenant_id =
    (case find_index (\<lambda>c. tc_active c \<and> tc_tenant_id c = tenant_id) (tl_cardinality g) of
       Some i \<Rightarrow> (Some i, g)
     | None \<Rightarrow>
         if TELEMETRY_STORE_MAX_TENANTS \<le> length (tl_cardinality g) then (None, g)
         else (Some (length (tl_cardinality g)), g\<lparr>tl_cardinality := tl_cardinality g @
           [\<lparr>tc_tenant_id = take (TELEMETRY_STORE_MAX_TAG_LEN - 1) tenant_id, tc_series_count = 0, tc_active = True\<rparr>]\<rparr>))"

definition telemetry_store_init :: "telemetry_store \<Rightarrow> bool \<times> telemetry_store" where
  "telemetry_store_init g = (True, \<lparr>tl_store = [], tl_initialised = True, tl_cardinality = [], tl_next_token_id = 1\<rparr>)"

text \<open>The recount: the keys of the tenant seen so far.\<close>

definition seen_keys :: "string \<Rightarrow> TelemetryDataPoint_t list \<Rightarrow> string list" where
  "seen_keys tenant_id store = foldl (\<lambda>seen p.
     if td_tenant_id p \<noteq> tenant_id then seen
     else let key = make_series_key p (TELEMETRY_STORE_MAX_TAG_LEN * 3)
          in if key \<in> set seen then seen else seen @ [take (TELEMETRY_STORE_MAX_TAG_LEN * 3 - 1) key]) [] store"

text \<open>The test of the key before the recount has an empty body and is left out.\<close>

definition telemetry_store_write :: "telemetry_store \<Rightarrow> TelemetryDataPoint_t option \<Rightarrow> TelemetryStoreResult_t \<times> telemetry_store" where
  "telemetry_store_write g point =
    (if \<not> tl_initialised g then (STORE_ERR_PARAM_NULL, g)
     else (case point of
        None \<Rightarrow> (STORE_ERR_PARAM_NULL, g)
      | Some p \<Rightarrow>
          if TELEMETRY_STORE_MAX_SERIES \<le> length (tl_store g) then (STORE_ERR_FULL, g)
          else
            let g = g\<lparr>tl_store := tl_store g @ [p]\<rparr>;
                (card, g) = find_or_create_cardinality g (td_tenant_id p)
            in (case card of
                  None \<Rightarrow> (STORE_OK, g)
                | Some i \<Rightarrow> (STORE_OK, g\<lparr>tl_cardinality := (tl_cardinality g)[i := (tl_cardinality g ! i)
                    \<lparr>tc_series_count := word_of_nat (length (seen_keys (td_tenant_id p) (tl_store g)))\<rparr>]\<rparr>))))"

definition telemetry_issue_tenant_token :: "telemetry_store \<Rightarrow> string option \<Rightarrow> TelemetryStoreResult_t \<times> TenantToken_t option \<times> telemetry_store" where
  "telemetry_issue_tenant_token g tenant_id =
    (if \<not> tl_initialised g then (STORE_ERR_PARAM_NULL, None, g)
     else (case tenant_id of
        None \<Rightarrow> (STORE_ERR_PARAM_NULL, None, g)
      | Some t \<Rightarrow> (STORE_OK,
          Some \<lparr>tk_token_id = tl_next_token_id g, tk_bound_tenant_id = take (TELEMETRY_STORE_MAX_TAG_LEN - 1) t, tk_valid = True\<rparr>,
          g\<lparr>tl_next_token_id := tl_next_token_id g + 1\<rparr>)))"

fun query_loop :: "string \<Rightarrow> nat \<Rightarrow> TelemetryDataPoint_t list \<Rightarrow> TelemetryDataPoint_t list \<Rightarrow> TelemetryDataPoint_t list" where
  "query_loop t max_points out [] = out"
| "query_loop t max_points out (p # ps) =
    (if \<not> length out < max_points then out
     else query_loop t max_points (if td_tenant_id p = t then out @ [p] else out) ps)"

definition telemetry_store_query ::
  "telemetry_store \<Rightarrow> TenantToken_t option \<Rightarrow> u8 \<Rightarrow> TelemetryStoreResult_t \<times> TelemetryDataPoint_t list option"
where
  "telemetry_store_query g token max_points =
    (if \<not> tl_initialised g then (STORE_ERR_PARAM_NULL, None)
     else (case token of
        None \<Rightarrow> (STORE_ERR_PARAM_NULL, None)
      | Some tk \<Rightarrow>
          if \<not> tk_valid tk then (STORE_ERR_UNAUTHORIZED, None)
          else if tk_bound_tenant_id tk = [] then (STORE_ERR_UNAUTHORIZED, None)
          else (STORE_OK, Some (query_loop (tk_bound_tenant_id tk) (unat max_points) [] (tl_store g)))))"

definition telemetry_store_get_cardinality :: "telemetry_store \<Rightarrow> string option \<Rightarrow> u32" where
  "telemetry_store_get_cardinality g tenant_id =
    (case tenant_id of
       None \<Rightarrow> 0
     | Some t \<Rightarrow> if \<not> tl_initialised g then 0
         else (case find (\<lambda>c. tc_active c \<and> tc_tenant_id c = t) (tl_cardinality g) of Some c \<Rightarrow> tc_series_count c | None \<Rightarrow> 0))"

definition telemetry_store_get_all_cardinality :: "telemetry_store \<Rightarrow> bool \<Rightarrow> u8 \<Rightarrow> TenantCardinality_t list" where
  "telemetry_store_get_all_cardinality g want max_entries =
    (if \<not> tl_initialised g \<or> \<not> want then [] else take (unat max_entries) (tl_cardinality g))"

definition telemetry_store_cardinality_exceeds :: "telemetry_store \<Rightarrow> string option \<Rightarrow> u32 \<Rightarrow> bool" where
  "telemetry_store_cardinality_exceeds g tenant_id threshold = (telemetry_store_get_cardinality g tenant_id > threshold)"

section \<open>The ingestion service\<close>

definition INGESTION_DEFAULT_CARDINALITY_THRESHOLD :: u32 where "INGESTION_DEFAULT_CARDINALITY_THRESHOLD = 10000"

datatype IngestionResult_t = INGEST_OK | INGEST_ERR_PARAM_NULL | INGEST_ERR_TOPIC_PARSE | INGEST_ERR_STORE_FULL | INGEST_ERR_NOT_INIT

record ingestion_service =
  is_threshold :: u32
  is_initialised :: bool
  is_callback :: bool
  is_warnings :: "(string \<times> u32 \<times> u32) list"

text \<open>The loop that walks to the component: what is left of the topic and the index reached.\<close>

fun skip_components :: "nat \<Rightarrow> nat \<Rightarrow> string \<Rightarrow> string \<times> nat" where
  "skip_components current index [] = ([], current)"
| "skip_components current index (c # p) =
    (if current < index then skip_components (if c = CHR ''/'' then Suc current else current) index p else (c # p, current))"

definition extract_component :: "string \<Rightarrow> nat \<Rightarrow> nat \<Rightarrow> string option" where
  "extract_component topic index out_size =
    (let p = (case topic of c # r \<Rightarrow> if c = CHR ''/'' then r else topic | [] \<Rightarrow> []);
         (p, current) = skip_components 0 index p
     in if current \<noteq> index then None
        else let out = take (out_size - 1) (takeWhile (\<lambda>c. c \<noteq> CHR ''/'') p) in if out = [] then None else Some out)"

definition ingestion_service_init :: "u32 option \<Rightarrow> ingestion_service \<Rightarrow> bool \<times> ingestion_service" where
  "ingestion_service_init config g =
     (True, g\<lparr>is_threshold := (case config of Some t \<Rightarrow> t | None \<Rightarrow> INGESTION_DEFAULT_CARDINALITY_THRESHOLD),
        is_callback := False, is_initialised := True\<rparr>)"

definition ingestion_parse_topic :: "string option \<Rightarrow> IngestionResult_t \<times> (string \<times> string \<times> string) option" where
  "ingestion_parse_topic topic =
    (case topic of
       None \<Rightarrow> (INGEST_ERR_PARAM_NULL, None)
     | Some t \<Rightarrow>
         if extract_component t 0 16 \<noteq> Some ''rainmaker'' then (INGEST_ERR_TOPIC_PARSE, None)
         else (case (extract_component t 1 TELEMETRY_STORE_MAX_TAG_LEN, extract_component t 2 TELEMETRY_STORE_MAX_TAG_LEN,
                     extract_component t 3 TELEMETRY_STORE_MAX_TAG_LEN) of
            (Some tenant, Some site, Some device) \<Rightarrow>
              if extract_component t 4 16 \<noteq> Some ''telemetry'' then (INGEST_ERR_TOPIC_PARSE, None)
              else (INGEST_OK, Some (tenant, site, device))
          | _ \<Rightarrow> (INGEST_ERR_TOPIC_PARSE, None)))"

definition parse_payload :: "string \<Rightarrow> string \<times> f32" where
  "parse_payload payload =
    (if CHR '':'' \<in> set payload
     then (take (TELEMETRY_STORE_MAX_TAG_LEN - 1) (takeWhile (\<lambda>c. c \<noteq> CHR '':'') payload),
           strtof (tl (dropWhile (\<lambda>c. c \<noteq> CHR '':'') payload)))
     else (''unknown'', 0))"

definition ingestion_ingest ::
  "ingestion_service \<Rightarrow> telemetry_store \<Rightarrow> string option \<Rightarrow> string option \<Rightarrow> u64 \<Rightarrow> IngestionResult_t \<times> ingestion_service \<times> telemetry_store"
where
  "ingestion_ingest g st topic payload timestamp_ms =
    (if \<not> is_initialised g then (INGEST_ERR_NOT_INIT, g, st)
     else (case (topic, payload) of
        (Some tp, Some pl) \<Rightarrow>
          (case ingestion_parse_topic (Some tp) of
             (INGEST_OK, Some (tenant_id, site_id, device_id)) \<Rightarrow>
               let (metric_id, v) = parse_payload pl;
                   point = \<lparr>td_tenant_id = tenant_id, td_site_id = site_id, td_node_id = device_id, td_device_class = [],
                     td_metric_id = metric_id, td_domain_profile_id = ''unknown'', td_value = v, td_timestamp_ms = timestamp_ms\<rparr>;
                   (store_result, st) = telemetry_store_write st (Some point)
               in if store_result = STORE_ERR_FULL then (INGEST_ERR_STORE_FULL, g, st)
                  else
                    let cardinality = telemetry_store_get_cardinality st (Some tenant_id);
                        g = (if is_threshold g > 0 \<and> is_callback g \<and> cardinality > is_threshold g
                             then g\<lparr>is_warnings := is_warnings g @ [(tenant_id, cardinality, is_threshold g)]\<rparr> else g)
                    in (INGEST_OK, g, st)
           | (r, _) \<Rightarrow> (r, g, st))
      | _ \<Rightarrow> (INGEST_ERR_PARAM_NULL, g, st)))"

definition ingestion_set_cardinality_callback :: "ingestion_service \<Rightarrow> bool \<Rightarrow> ingestion_service" where
  "ingestion_set_cardinality_callback g callback = g\<lparr>is_callback := callback\<rparr>"

definition ingestion_get_config :: "ingestion_service \<Rightarrow> u32 option" where
  "ingestion_get_config g = (if is_initialised g then Some (is_threshold g) else None)"

section \<open>Queries\<close>

definition store_writes :: "telemetry_store \<Rightarrow> TelemetryDataPoint_t list \<Rightarrow> telemetry_store" where
  "store_writes = foldl (\<lambda>g p. snd (telemetry_store_write g (Some p)))"

lemma query_loop_eq: "length out \<le> n \<Longrightarrow> query_loop t n out ps = take n (out @ filter (\<lambda>p. td_tenant_id p = t) ps)"
  by (induction ps arbitrary: out) (auto simp: take_Cons')

lemma create_fields:
  "tl_store (snd (find_or_create_cardinality g t)) = tl_store g" "tl_initialised (snd (find_or_create_cardinality g t)) = tl_initialised g"
  by (simp_all add: find_or_create_cardinality_def split: option.splits)

lemma write_fields:
  "tl_store (snd (telemetry_store_write g (Some p))) = (if tl_initialised g \<and> length (tl_store g) < TELEMETRY_STORE_MAX_SERIES then tl_store g @ [p] else tl_store g)"
  "tl_initialised (snd (telemetry_store_write g (Some p))) = tl_initialised g"
  using create_fields[of "g\<lparr>tl_store := tl_store g @ [p]\<rparr>" "td_tenant_id p"]
  by (auto simp: telemetry_store_write_def Let_def split: prod.splits option.splits)

lemma store_writes_store:
  "tl_initialised g \<Longrightarrow> length (tl_store g) \<le> TELEMETRY_STORE_MAX_SERIES \<Longrightarrow>
    tl_store (store_writes g ps) = take TELEMETRY_STORE_MAX_SERIES (tl_store g @ ps) \<and> tl_initialised (store_writes g ps)"
proof (induction ps arbitrary: g)
  case (Cons p ps)
  have "store_writes g (p # ps) = store_writes (snd (telemetry_store_write g (Some p))) ps" by (simp add: store_writes_def)
  then show ?case using Cons.IH[of "snd (telemetry_store_write g (Some p))"] Cons.prems write_fields[of g p]
    by (cases "length (tl_store g) < TELEMETRY_STORE_MAX_SERIES") auto
qed (simp add: store_writes_def)

section \<open>Topics\<close>

definition telemetry_topic :: "string \<Rightarrow> string \<Rightarrow> string \<Rightarrow> string" where
  "telemetry_topic tenant site device = ''rainmaker'' @ ''/'' @ tenant @ ''/'' @ site @ ''/'' @ device @ ''/'' @ ''telemetry''"

lemma skip_here: "skip_components i i p = (p, i)"
  by (cases p) simp_all

lemma skip_one: "CHR ''/'' \<notin> set x \<Longrightarrow> i < n \<Longrightarrow> skip_components i n (x @ CHR ''/'' # p) = skip_components (Suc i) n p"
  by (induction x) auto

lemma takeWhile_component: "CHR ''/'' \<notin> set x \<Longrightarrow> takeWhile (\<lambda>c. c \<noteq> CHR ''/'') (x @ CHR ''/'' # p) = x"
  by (induction x) auto

lemma parse_telemetry_topic:
  assumes "tenant \<noteq> []" "site \<noteq> []" "device \<noteq> []" "CHR ''/'' \<notin> set (tenant @ site @ device)"
  shows "ingestion_parse_topic (Some (telemetry_topic tenant site device)) = (INGEST_OK, Some (take 63 tenant, take 63 site, take 63 device))"
proof -
  let ?t = "telemetry_topic tenant site device"
  have s: "skip_components 0 n (''rainmaker'' @ CHR ''/'' # p) = (if n = 0 then (''rainmaker'' @ CHR ''/'' # p, 0) else skip_components 1 n p)" for n p
    using skip_one[of "''rainmaker''" 0 n p] by (simp add: skip_here)
  have t: "?t = CHR ''r'' # tl ?t" "?t = ''rainmaker'' @ CHR ''/'' # tenant @ CHR ''/'' # site @ CHR ''/'' # device @ CHR ''/'' # ''telemetry''"
    by (simp_all add: telemetry_topic_def)
  have first: "(case ?t of [] \<Rightarrow> [] | c # r \<Rightarrow> if c = CHR ''/'' then r else ?t) = ?t" by (subst (1 2) t(1)) simp
  have n: "CHR ''/'' \<notin> set tenant" "CHR ''/'' \<notin> set site" "CHR ''/'' \<notin> set device" using assms(4) by auto
  have sk: "skip_components 0 0 ?t = (?t, 0)" "skip_components 0 1 ?t = (tenant @ CHR ''/'' # site @ CHR ''/'' # device @ CHR ''/'' # ''telemetry'', 1)"
    "skip_components 0 2 ?t = (site @ CHR ''/'' # device @ CHR ''/'' # ''telemetry'', 2)" "skip_components 0 3 ?t = (device @ CHR ''/'' # ''telemetry'', 3)"
    "skip_components 0 4 ?t = (''telemetry'', 4)"
    unfolding t(2) using n by (simp_all add: s skip_here skip_one numeral_eq_Suc)
  have tw: "takeWhile (\<lambda>c. c \<noteq> CHR ''/'') ?t = ''rainmaker''" by (subst t(2)) (rule takeWhile_component, simp)
  have e: "extract_component ?t 0 16 = Some ''rainmaker''" "extract_component ?t 1 64 = Some (take 63 tenant)"
    "extract_component ?t 2 64 = Some (take 63 site)" "extract_component ?t 3 64 = Some (take 63 device)" "extract_component ?t 4 16 = Some ''telemetry''"
    unfolding extract_component_def Let_def first sk using n assms(1-3) tw by (simp_all add: takeWhile_component)
  show ?thesis unfolding ingestion_parse_topic_def option.case TELEMETRY_STORE_MAX_TAG_LEN_def e by simp
qed

section \<open>Cardinality\<close>

abbreviation series_key :: "TelemetryDataPoint_t \<Rightarrow> string" where
  "series_key p \<equiv> make_series_key p 192"

lemma seen_keys_snoc:
  "seen_keys t (ps @ [p]) = (if td_tenant_id p \<noteq> t \<or> series_key p \<in> set (seen_keys t ps) then seen_keys t ps else seen_keys t ps @ [series_key p])"
proof -
  have "take 191 (series_key p) = series_key p" by (simp only: make_series_key_def snprintf_text_def take_take) simp
  then show ?thesis by (simp add: seen_keys_def Let_def TELEMETRY_STORE_MAX_TAG_LEN_def)
qed

lemma seen_keys_set: "set (seen_keys t ps) = series_key ` {p \<in> set ps. td_tenant_id p = t} \<and> distinct (seen_keys t ps)"
proof (induction ps rule: rev_induct)
  case (snoc p ps)
  then show ?case unfolding seen_keys_snoc by auto
qed (simp add: seen_keys_def)

lemma length_seen_keys: "length (seen_keys t ps) = card (series_key ` {p \<in> set ps. td_tenant_id p = t})"
  using seen_keys_set[of t ps] distinct_card by metis

definition cardinality_ok :: "telemetry_store \<Rightarrow> bool" where
  "cardinality_ok g \<longleftrightarrow> tl_initialised g \<and> distinct (map tc_tenant_id (tl_cardinality g))
     \<and> set (map tc_tenant_id (tl_cardinality g)) = td_tenant_id ` set (tl_store g)
     \<and> (\<forall>c \<in> set (tl_cardinality g). tc_active c \<and> tc_series_count c = word_of_nat (length (seen_keys (tc_tenant_id c) (tl_store g))))"

lemma cardinality_ok_write:
  assumes ok: "cardinality_ok g" and len: "length (td_tenant_id p) < 64"
    and few: "card (insert (td_tenant_id p) (td_tenant_id ` set (tl_store g))) \<le> 16"
  shows "cardinality_ok (snd (telemetry_store_write g (Some p)))"
proof (cases "length (tl_store g) < TELEMETRY_STORE_MAX_SERIES")
  case False
  then show ?thesis using ok by (simp add: telemetry_store_write_def cardinality_ok_def)
next
  case True
  let ?t = "td_tenant_id p" and ?cs = "tl_cardinality g" and ?st = "tl_store g @ [p]"
  let ?n = "\<lambda>t. word_of_nat (length (seen_keys t ?st)) :: u32"
  have init: "tl_initialised g" using ok by (simp add: cardinality_ok_def)
  have other: "seen_keys t ?st = seen_keys t (tl_store g)" if "t \<noteq> ?t" for t using that by (simp add: seen_keys_snoc)
  show ?thesis
  proof (cases "find_index (\<lambda>c. tc_active c \<and> tc_tenant_id c = ?t) ?cs")
    case (Some i)
    have i: "i < length ?cs" "tc_tenant_id (?cs ! i) = ?t" using find_index_SomeD[OF Some] by auto
    let ?cs' = "?cs[i := (?cs ! i)\<lparr>tc_series_count := ?n ?t\<rparr>]"
    have w: "snd (telemetry_store_write g (Some p)) = g\<lparr>tl_store := ?st, tl_cardinality := ?cs'\<rparr>"
      using True init Some by (simp add: telemetry_store_write_def find_or_create_cardinality_def Let_def)
    have m: "map tc_tenant_id ?cs' = map tc_tenant_id ?cs" using i by (simp add: map_update list_update_same_conv)
    have "tc_active c \<and> tc_series_count c = ?n (tc_tenant_id c)" if "c \<in> set ?cs'" for c
    proof -
      obtain j where j: "j < length ?cs" "c = (if j = i then (?cs ! i)\<lparr>tc_series_count := ?n ?t\<rparr> else ?cs ! j)"
        using \<open>c \<in> set ?cs'\<close> by (auto simp: in_set_conv_nth nth_list_update)
      have "j \<noteq> i \<Longrightarrow> tc_tenant_id (?cs ! j) \<noteq> ?t"
        using ok i j(1) nth_eq_iff_index_eq[of "map tc_tenant_id ?cs" j i] by (simp add: cardinality_ok_def)
      then show ?thesis using ok i j other by (auto simp: cardinality_ok_def)
    qed
    moreover have "?t \<in> td_tenant_id ` set (tl_store g)" using ok i by (auto simp: cardinality_ok_def in_set_conv_nth) (metis image_eqI nth_mem)
    ultimately show ?thesis unfolding w using ok m by (auto simp: cardinality_ok_def)
  next
    case None
    have "\<forall>c \<in> set ?cs. tc_active c" using ok by (simp add: cardinality_ok_def)
    with None have new: "?t \<notin> set (map tc_tenant_id ?cs)" by (auto simp: find_index_None_iff)
    have "length ?cs = card (td_tenant_id ` set (tl_store g))"
      using ok by (metis cardinality_ok_def distinct_card length_map)
    then have room: "length ?cs < 16" using few new ok by (simp add: cardinality_ok_def card_insert_if)
    let ?c = "\<lparr>tc_tenant_id = ?t, tc_series_count = ?n ?t, tc_active = True\<rparr>"
    have w: "snd (telemetry_store_write g (Some p)) = g\<lparr>tl_store := ?st, tl_cardinality := ?cs @ [?c]\<rparr>"
      using True init None room len by (simp add: telemetry_store_write_def find_or_create_cardinality_def Let_def store_consts)
    have "tc_tenant_id c \<noteq> ?t" if "c \<in> set ?cs" for c using new that by (metis image_eqI list.set_map)
    then show ?thesis unfolding w using ok new other by (auto simp: cardinality_ok_def)
  qed
qed

lemma cardinality_ok_writes:
  assumes "cardinality_ok g" and "length (tl_store g) \<le> TELEMETRY_STORE_MAX_SERIES" and "\<forall>p \<in> set ps. length (td_tenant_id p) < 64"
    and "card (td_tenant_id ` (set (tl_store g) \<union> set ps)) \<le> 16"
  shows "cardinality_ok (store_writes g ps)"
  using assms
proof (induction ps arbitrary: g)
  case (Cons p ps)
  let ?g = "snd (telemetry_store_write g (Some p))"
  have sub: "insert (td_tenant_id p) (td_tenant_id ` set (tl_store g)) \<subseteq> td_tenant_id ` (set (tl_store g) \<union> set (p # ps))"
    "td_tenant_id ` (set (tl_store ?g) \<union> set ps) \<subseteq> td_tenant_id ` (set (tl_store g) \<union> set (p # ps))"
    using write_fields(1)[of g p] by auto
  have "cardinality_ok ?g"
    using Cons.prems order_trans[OF card_mono[OF _ sub(1)]] by (intro cardinality_ok_write) simp_all
  moreover have "card (td_tenant_id ` (set (tl_store ?g) \<union> set ps)) \<le> 16"
    using Cons.prems(4) order_trans[OF card_mono[OF _ sub(2)]] by simp
  moreover have "length (tl_store ?g) \<le> TELEMETRY_STORE_MAX_SERIES" using write_fields(1)[of g p] Cons.prems(2) by simp
  ultimately show ?case using Cons.IH[of ?g] Cons.prems(3) by (simp add: store_writes_def)
qed (simp add: store_writes_def)

lemma store_init_ok: "cardinality_ok (snd (telemetry_store_init g))" "tl_store (snd (telemetry_store_init g)) = []" "tl_initialised (snd (telemetry_store_init g))"
  by (simp_all add: telemetry_store_init_def cardinality_ok_def)

lemma split_at_colon:
  "CHR '':'' \<notin> set xs \<Longrightarrow> CHR '':'' \<notin> set ys \<Longrightarrow> xs @ CHR '':'' # us = ys @ CHR '':'' # vs \<Longrightarrow> xs = ys \<and> us = vs"
proof (induction xs arbitrary: ys)
  case Nil
  then show ?case by (cases ys) auto
next
  case (Cons x xs)
  then show ?case by (cases ys) auto
qed

section \<open>Properties\<close>

text \<open>
  C13.  Tenant isolation: after any sequence of writes to a fresh store, a query under a valid token returns, in the order of
  writing and up to the requested number, exactly the stored points whose tenant is the one the token is bound to;
  the store keeps the first 1024 points.
\<close>

theorem tenant_isolation:
  assumes "tk_valid tk" and "tk_bound_tenant_id tk \<noteq> []"
  shows "telemetry_store_query (store_writes (snd (telemetry_store_init g)) ps) (Some tk) n =
    (STORE_OK, Some (take (unat n) (filter (\<lambda>p. td_tenant_id p = tk_bound_tenant_id tk) (take TELEMETRY_STORE_MAX_SERIES ps))))"
proof -
  have "tl_store (store_writes (snd (telemetry_store_init g)) ps) = take TELEMETRY_STORE_MAX_SERIES ps \<and> tl_initialised (store_writes (snd (telemetry_store_init g)) ps)"
    using store_writes_store[of "snd (telemetry_store_init g)" ps] by (simp add: store_init_ok)
  then show ?thesis using assms by (simp add: telemetry_store_query_def query_loop_eq)
qed

definition cloud_point :: "string \<Rightarrow> string \<Rightarrow> f32 \<Rightarrow> TelemetryDataPoint_t" where
  "cloud_point t n v = \<lparr>td_tenant_id = t, td_site_id = ''s'', td_node_id = n, td_device_class = [], td_metric_id = ''m'',
     td_domain_profile_id = [], td_value = v, td_timestamp_ms = 0\<rparr>"

definition cloud_demo :: telemetry_store where
  "cloud_demo = \<lparr>tl_store = [], tl_initialised = False, tl_cardinality = [], tl_next_token_id = 0\<rparr>"

theorem tenant_isolation_witness:
  "telemetry_store_query (store_writes (snd (telemetry_store_init cloud_demo)) [cloud_point ''a'' ''n'' 1, cloud_point ''b'' ''n'' 2, cloud_point ''a'' ''o'' 3])
     (Some \<lparr>tk_token_id = 1, tk_bound_tenant_id = ''a'', tk_valid = True\<rparr>) 8 = (STORE_OK, Some [cloud_point ''a'' ''n'' 1, cloud_point ''a'' ''o'' 3])"
  by (subst tenant_isolation) (simp_all add: cloud_point_def store_consts)

text \<open>
  The series count: as long as no more than 16 tenants write, tags fit their fields and sites and nodes contain no
  colon, the cardinality reported for a tenant is the number of its distinct combinations of site, node and metric.
\<close>

theorem cardinality_counts_series:
  assumes "card (td_tenant_id ` set ps) \<le> TELEMETRY_STORE_MAX_TENANTS"
    and "\<forall>p \<in> set ps. length (td_tenant_id p) < 64 \<and> length (td_site_id p) < 64 \<and> length (td_node_id p) < 64 \<and> length (td_metric_id p) < 64"
    and "\<forall>p \<in> set ps. CHR '':'' \<notin> set (td_site_id p @ td_node_id p)"
  shows "telemetry_store_get_cardinality (store_writes (snd (telemetry_store_init g)) ps) (Some t) =
    word_of_nat (card ((\<lambda>p. (td_site_id p, td_node_id p, td_metric_id p)) ` {p \<in> set (take TELEMETRY_STORE_MAX_SERIES ps). td_tenant_id p = t}))"
proof -
  let ?g = "store_writes (snd (telemetry_store_init g)) ps" and ?ps = "take TELEMETRY_STORE_MAX_SERIES ps"
  let ?P = "{p \<in> set ?ps. td_tenant_id p = t}" and ?tr = "\<lambda>p. (td_site_id p, td_node_id p, td_metric_id p)"
  have st: "tl_store ?g = ?ps" using store_writes_store[of "snd (telemetry_store_init g)" ps] by (simp add: store_init_ok)
  have ok: "cardinality_ok ?g" using assms(1,2) by (intro cardinality_ok_writes) (simp_all add: store_init_ok store_consts)
  have sub: "set ?ps \<subseteq> set ps" by (rule set_take_subset)
  have key: "series_key p = td_site_id p @ CHR '':'' # td_node_id p @ CHR '':'' # td_metric_id p" if "p \<in> set ps" for p
    using assms(2) that by (fastforce simp: make_series_key_def snprintf_text_def)
  have "inj_on (\<lambda>(s, n, m). s @ CHR '':'' # n @ CHR '':'' # m) (?tr ` ?P)"
  proof (rule inj_onI)
    fix x y assume "x \<in> ?tr ` ?P" "y \<in> ?tr ` ?P" and eq: "(\<lambda>(s, n, m). s @ CHR '':'' # n @ CHR '':'' # m) x = (\<lambda>(s, n, m). s @ CHR '':'' # n @ CHR '':'' # m) y"
    then obtain p q where pq: "p \<in> set ps" "q \<in> set ps" "x = ?tr p" "y = ?tr q" using sub by blast
    have c: "CHR '':'' \<notin> set (td_site_id p)" "CHR '':'' \<notin> set (td_node_id p)" "CHR '':'' \<notin> set (td_site_id q)" "CHR '':'' \<notin> set (td_node_id q)"
      using assms(3) pq by auto
    have e: "td_site_id p @ CHR '':'' # td_node_id p @ CHR '':'' # td_metric_id p = td_site_id q @ CHR '':'' # td_node_id q @ CHR '':'' # td_metric_id q"
      using eq pq by simp
    have 1: "td_site_id p = td_site_id q" "td_node_id p @ CHR '':'' # td_metric_id p = td_node_id q @ CHR '':'' # td_metric_id q"
      using split_at_colon[OF c(1,3) e] by auto
    have "td_node_id p = td_node_id q" "td_metric_id p = td_metric_id q" using split_at_colon[OF c(2,4) 1(2)] by auto
    with 1 show "x = y" by (simp add: pq)
  qed
  note inj = this
  have "series_key ` ?P = (\<lambda>(s, n, m). s @ CHR '':'' # n @ CHR '':'' # m) ` ?tr ` ?P"
    unfolding image_image using key sub by (intro image_cong) auto
  then have "card (series_key ` ?P) = card (?tr ` ?P)" using inj by (simp add: card_image)
  then have n: "length (seen_keys t ?ps) = card (?tr ` ?P)" by (simp add: length_seen_keys)
  show ?thesis
  proof (cases "find (\<lambda>c. tc_active c \<and> tc_tenant_id c = t) (tl_cardinality ?g)")
    case (Some c)
    then have "c \<in> set (tl_cardinality ?g)" "tc_tenant_id c = t" by (auto simp: find_Some_iff)
    then show ?thesis using Some ok n st by (auto simp: telemetry_store_get_cardinality_def cardinality_ok_def)
  next
    case None
    moreover have "\<forall>c \<in> set (tl_cardinality ?g). tc_active c" using ok by (simp add: cardinality_ok_def)
    ultimately have "t \<notin> set (map tc_tenant_id (tl_cardinality ?g))" by (auto simp: find_None_iff)
    then have "t \<notin> td_tenant_id ` set ?ps" using ok st by (simp add: cardinality_ok_def)
    then have "?P = {}" by auto
    then have "card (?tr ` ?P) = 0" by (simp only: image_empty card.empty)
    then show ?thesis using None ok by (simp only: telemetry_store_get_cardinality_def option.case if_cancel) simp
  qed
qed

theorem cardinality_counts_series_witness:
  "telemetry_store_get_cardinality (store_writes (snd (telemetry_store_init cloud_demo)) [cloud_point ''a'' ''n'' 1, cloud_point ''b'' ''n'' 2, cloud_point ''a'' ''n'' 3])
     (Some ''a'') = 1"
proof -
  let ?ps = "[cloud_point ''a'' ''n'' 1, cloud_point ''b'' ''n'' 2, cloud_point ''a'' ''n'' 3]"
  have "{p \<in> set (take TELEMETRY_STORE_MAX_SERIES ?ps). td_tenant_id p = ''a''} = {cloud_point ''a'' ''n'' 1, cloud_point ''a'' ''n'' 3}"
    by (auto simp: store_consts cloud_point_def)
  then show ?thesis using cardinality_counts_series[of ?ps cloud_demo "''a''"] by (simp add: store_consts cloud_point_def card_insert_if)
qed

text \<open>
  Topics: for non-empty tenant, site and device names without a slash, parsing the topic built from them gives the three
  names back, each cut to the 63 characters that fit its field.
\<close>

theorem topic_roundtrip:
  assumes "tenant \<noteq> []" and "site \<noteq> []" and "device \<noteq> []" and "CHR ''/'' \<notin> set (tenant @ site @ device)"
  shows "ingestion_parse_topic (Some (telemetry_topic tenant site device)) = (INGEST_OK, Some (take 63 tenant, take 63 site, take 63 device))"
  by (rule parse_telemetry_topic[OF assms])

theorem topic_roundtrip_witness:
  "ingestion_parse_topic (Some ''rainmaker/acme/plant/pump7/telemetry'') = (INGEST_OK, Some (''acme'', ''plant'', ''pump7''))"
  using topic_roundtrip[of "''acme''" "''plant''" "''pump7''"] by (simp add: telemetry_topic_def)

text \<open>
  Isolation fails for long names: when two tenant names agree in their first 63 characters, a value that is ingested for one
  of them is returned to the holder of a token issued for the other.
\<close>

theorem long_tenants_share_data:
  assumes "take 63 a = take 63 b" and "a \<noteq> []" and "site \<noteq> []" and "device \<noteq> []" and "CHR ''/'' \<notin> set (a @ site @ device)"
    and "is_initialised svc" and "tl_initialised st" and "tl_store st = []"
  shows "\<exists>svc' st' tk st'' p. ingestion_ingest svc st (Some (telemetry_topic a site device)) (Some pl) ts = (INGEST_OK, svc', st')
    \<and> telemetry_issue_tenant_token st' (Some b) = (STORE_OK, Some tk, st'')
    \<and> telemetry_store_query st'' (Some tk) 1 = (STORE_OK, Some [p]) \<and> td_value p = snd (parse_payload pl) \<and> td_timestamp_ms p = ts"
proof -
  obtain m v where pl: "parse_payload pl = (m, v)" by (cases "parse_payload pl")
  let ?p = "\<lparr>td_tenant_id = take 63 a, td_site_id = take 63 site, td_node_id = take 63 device, td_device_class = [],
     td_metric_id = m, td_domain_profile_id = ''unknown'', td_value = v, td_timestamp_ms = ts\<rparr>"
  obtain r st' where w: "telemetry_store_write st (Some ?p) = (r, st')" by (cases "telemetry_store_write st (Some ?p)")
  have r: "r = STORE_OK" using w assms(7,8) by (auto simp: telemetry_store_write_def store_consts Let_def split: prod.splits option.splits)
  have s: "tl_store st' = [?p]" "tl_initialised st'" using write_fields[of st ?p] w assms(7,8) by (simp_all add: store_consts)
  have i: "\<exists>svc'. ingestion_ingest svc st (Some (telemetry_topic a site device)) (Some pl) ts = (INGEST_OK, svc', st')"
    using assms(6) w r by (simp add: ingestion_ingest_def parse_telemetry_topic[OF assms(2-5)] pl Let_def)
  have "take 63 b \<noteq> []" using assms(1,2) by (metis take_eq_Nil zero_neq_numeral)
  then have "telemetry_store_query (st'\<lparr>tl_next_token_id := tl_next_token_id st' + 1\<rparr>)
      (Some \<lparr>tk_token_id = tl_next_token_id st', tk_bound_tenant_id = take 63 b, tk_valid = True\<rparr>) 1 = (STORE_OK, Some [?p])"
    using s assms(1) by (simp add: telemetry_store_query_def)
  moreover have "telemetry_issue_tenant_token st' (Some b) = (STORE_OK, Some \<lparr>tk_token_id = tl_next_token_id st', tk_bound_tenant_id = take 63 b, tk_valid = True\<rparr>,
      st'\<lparr>tl_next_token_id := tl_next_token_id st' + 1\<rparr>)"
    using s(2) by (simp add: telemetry_issue_tenant_token_def store_consts)
  moreover have "td_value ?p = snd (parse_payload pl)" "td_timestamp_ms ?p = ts" by (simp_all add: pl)
  ultimately show ?thesis using i by blast
qed

theorem long_tenants_share_data_witness:
  "\<exists>svc' st' tk st'' p. ingestion_ingest \<lparr>is_threshold = 0, is_initialised = True, is_callback = False, is_warnings = []\<rparr>
        (snd (telemetry_store_init cloud_demo)) (Some (telemetry_topic (replicate 63 (CHR ''x'') @ ''1'') ''s'' ''d'')) (Some ''m:5'') 0 = (INGEST_OK, svc', st')
    \<and> telemetry_issue_tenant_token st' (Some (replicate 63 (CHR ''x'') @ ''2'')) = (STORE_OK, Some tk, st'')
    \<and> telemetry_store_query st'' (Some tk) 1 = (STORE_OK, Some [p])"
  using long_tenants_share_data[of "replicate 63 (CHR ''x'') @ ''1''" "replicate 63 (CHR ''x'') @ ''2''" "''s''" "''d''"
      "\<lparr>is_threshold = 0, is_initialised = True, is_callback = False, is_warnings = []\<rparr>" "snd (telemetry_store_init cloud_demo)" "''m:5''" 0]
  by (auto simp: store_init_ok)

end
