(* ===== verification/Config_Engine.thy ===== *)
theory Config_Engine
  imports Rule_Engine Device_Identity
begin

text \<open>
  The runtime configuration engine (\<open>shared/config_engine.c\<close>): a registry of domain profiles with one active
  profile, and a store of named parameters.  The arrays with their counts are lists of the used prefix; strings
  are C strings, so copying into a buffer of \<open>n\<close> bytes keeps the first \<open>n - 1\<close> characters.
\<close>

section \<open>Data\<close>

definition CONFIG_MAX_PROFILES :: nat where "CONFIG_MAX_PROFILES = 4"
definition CONFIG_MAX_PARAMS :: nat where "CONFIG_MAX_PARAMS = 32"
definition CONFIG_KEY_MAX_LEN :: nat where "CONFIG_KEY_MAX_LEN = 32"
definition CONFIG_VALUE_MAX_LEN :: nat where "CONFIG_VALUE_MAX_LEN = 64"

lemmas config_consts = CONFIG_MAX_PROFILES_def CONFIG_MAX_PARAMS_def CONFIG_KEY_MAX_LEN_def CONFIG_VALUE_MAX_LEN_def

datatype ConfigResult_t =
  CE_CONFIG_OK | CE_CONFIG_ERR_FULL | CE_CONFIG_ERR_NOT_FOUND | CE_CONFIG_ERR_READONLY | CE_CONFIG_ERR_PARAM_NULL

record 'p ProfileRegistration_t =
  pr_id :: DomainProfileId_t
  pr_vtable :: "'p DomainProfileVTable_t"
  pr_name :: string
  pr_active :: bool

record ConfigParam_t =
  cp_key :: string
  cp_value :: string
  cp_editable :: bool
  cp_active :: bool

record 'p ConfigEngineContext_t =
  ce_profiles :: "'p ProfileRegistration_t list"
  ce_active_profile_index :: u8
  ce_params :: "ConfigParam_t list"
  ce_initialized :: bool

section \<open>Operations\<close>

definition config_engine_init :: "'p ConfigEngineContext_t option \<Rightarrow> ConfigResult_t \<times> 'p ConfigEngineContext_t option" where
  "config_engine_init ctx =
    (case ctx of None \<Rightarrow> (CE_CONFIG_ERR_PARAM_NULL, None)
     | Some _ \<Rightarrow> (CE_CONFIG_OK, Some \<lparr>ce_profiles = [], ce_active_profile_index = 0xFF, ce_params = [], ce_initialized = True\<rparr>))"

definition config_register_profile ::
  "'p ConfigEngineContext_t \<Rightarrow> DomainProfileId_t \<Rightarrow> 'p DomainProfileVTable_t option \<Rightarrow> string option \<Rightarrow>
   ConfigResult_t \<times> 'p ConfigEngineContext_t"
where
  "config_register_profile ctx pid vtable name =
    (case (vtable, name) of
       (Some vt, Some nm) \<Rightarrow>
         if \<not> ce_initialized ctx then (CE_CONFIG_ERR_PARAM_NULL, ctx)
         else if CONFIG_MAX_PROFILES \<le> length (ce_profiles ctx) then (CE_CONFIG_ERR_FULL, ctx)
         else (case upd_first (\<lambda>r. pr_id r = pid) (\<lambda>r. r\<lparr>pr_vtable := vt, pr_name := nm\<rparr>) (ce_profiles ctx) of
            Some ps \<Rightarrow> (CE_CONFIG_OK, ctx\<lparr>ce_profiles := ps\<rparr>)
          | None \<Rightarrow> (CE_CONFIG_OK, ctx\<lparr>ce_profiles := ce_profiles ctx @
                [\<lparr>pr_id = pid, pr_vtable = vt, pr_name = nm, pr_active = False\<rparr>]\<rparr>))
     | _ \<Rightarrow> (CE_CONFIG_ERR_PARAM_NULL, ctx))"

definition config_set_active_profile ::
  "'p ConfigEngineContext_t \<Rightarrow> DomainProfileId_t \<Rightarrow> ConfigResult_t \<times> 'p ConfigEngineContext_t"
where
  "config_set_active_profile ctx pid =
    (if \<not> ce_initialized ctx then (CE_CONFIG_ERR_PARAM_NULL, ctx)
     else
       let ps = map (\<lambda>r. r\<lparr>pr_active := False\<rparr>) (ce_profiles ctx) in
       (case find_index (\<lambda>r. pr_id r = pid) ps of
          Some i \<Rightarrow> (CE_CONFIG_OK, ctx\<lparr>ce_profiles := ps[i := (ps ! i)\<lparr>pr_active := True\<rparr>], ce_active_profile_index := word_of_nat i\<rparr>)
        | None \<Rightarrow> (CE_CONFIG_ERR_NOT_FOUND, ctx\<lparr>ce_profiles := ps\<rparr>)))"

definition config_get_active_vtable :: "'p ConfigEngineContext_t \<Rightarrow> 'p DomainProfileVTable_t option" where
  "config_get_active_vtable ctx =
    (if \<not> ce_initialized ctx then None
     else if length (ce_profiles ctx) \<le> unat (ce_active_profile_index ctx) then None
     else Some (pr_vtable (ce_profiles ctx ! unat (ce_active_profile_index ctx))))"

definition config_get_active_profile_id :: "'p ConfigEngineContext_t \<Rightarrow> DomainProfileId_t" where
  "config_get_active_profile_id ctx =
    (if \<not> ce_initialized ctx then 0
     else if length (ce_profiles ctx) \<le> unat (ce_active_profile_index ctx) then 0
     else pr_id (ce_profiles ctx ! unat (ce_active_profile_index ctx)))"

definition config_set_param :: "'p ConfigEngineContext_t \<Rightarrow> string option \<Rightarrow> string option \<Rightarrow> ConfigResult_t \<times> 'p ConfigEngineContext_t" where
  "config_set_param ctx key v =
    (case (key, v) of
       (Some k, Some val) \<Rightarrow>
         if \<not> ce_initialized ctx then (CE_CONFIG_ERR_PARAM_NULL, ctx)
         else (case find (\<lambda>p. cp_key p = k) (ce_params ctx) of
            Some p \<Rightarrow>
              if \<not> cp_editable p then (CE_CONFIG_ERR_READONLY, ctx)
              else (CE_CONFIG_OK, ctx\<lparr>ce_params :=
                the (upd_first (\<lambda>p. cp_key p = k) (\<lambda>p. p\<lparr>cp_value := take (CONFIG_VALUE_MAX_LEN - 1) val\<rparr>) (ce_params ctx))\<rparr>)
          | None \<Rightarrow>
              if CONFIG_MAX_PARAMS \<le> length (ce_params ctx) then (CE_CONFIG_ERR_FULL, ctx)
              else (CE_CONFIG_OK, ctx\<lparr>ce_params := ce_params ctx @
                [\<lparr>cp_key = take (CONFIG_KEY_MAX_LEN - 1) k, cp_value = take (CONFIG_VALUE_MAX_LEN - 1) val,
                  cp_editable = True, cp_active = True\<rparr>]\<rparr>))
     | _ \<Rightarrow> (CE_CONFIG_ERR_PARAM_NULL, ctx))"

text \<open>
  \<open>want\<close> says whether a buffer was passed.  With a buffer length of 0 the copy length wraps around and the
  function writes outside the buffer: the outer \<open>None\<close>.
\<close>

definition config_get_param ::
  "'p ConfigEngineContext_t \<Rightarrow> string option \<Rightarrow> bool \<Rightarrow> nat \<Rightarrow> (ConfigResult_t \<times> string option) option"
where
  "config_get_param ctx key want len =
    (case key of
       None \<Rightarrow> Some (CE_CONFIG_ERR_PARAM_NULL, None)
     | Some k \<Rightarrow>
         if \<not> ce_initialized ctx \<or> \<not> want then Some (CE_CONFIG_ERR_PARAM_NULL, None)
         else (case find (\<lambda>p. cp_key p = k) (ce_params ctx) of
            Some p \<Rightarrow> if len = 0 then None else Some (CE_CONFIG_OK, Some (take (len - 1) (cp_value p)))
          | None \<Rightarrow> Some (CE_CONFIG_ERR_NOT_FOUND, None)))"

definition config_is_param_editable :: "'p ConfigEngineContext_t \<Rightarrow> string option \<Rightarrow> bool" where
  "config_is_param_editable ctx key =
    (case key of None \<Rightarrow> False
     | Some k \<Rightarrow> ce_initialized ctx \<and>
         (case find (\<lambda>p. cp_key p = k) (ce_params ctx) of Some p \<Rightarrow> cp_editable p | None \<Rightarrow> False))"

definition config_get_profile_count :: "'p ConfigEngineContext_t \<Rightarrow> u8" where
  "config_get_profile_count ctx = (if \<not> ce_initialized ctx then 0 else word_of_nat (length (ce_profiles ctx)))"

definition config_get_param_count :: "'p ConfigEngineContext_t \<Rightarrow> u8" where
  "config_get_param_count ctx = (if \<not> ce_initialized ctx then 0 else word_of_nat (length (ce_params ctx)))"

section \<open>Invariant\<close>

definition config_ok :: "'p ConfigEngineContext_t \<Rightarrow> bool" where
  "config_ok ctx \<longleftrightarrow> ce_initialized ctx \<and> length (ce_profiles ctx) \<le> CONFIG_MAX_PROFILES
     \<and> length (ce_params ctx) \<le> CONFIG_MAX_PARAMS \<and> distinct (map pr_id (ce_profiles ctx))
     \<and> (\<forall>p \<in> set (ce_params ctx). cp_editable p \<and> length (cp_key p) < CONFIG_KEY_MAX_LEN \<and> length (cp_value p) < CONFIG_VALUE_MAX_LEN)"

inductive config_step :: "'p ConfigEngineContext_t \<Rightarrow> 'p ConfigEngineContext_t \<Rightarrow> bool" where
  register: "config_step ctx (snd (config_register_profile ctx pid vt nm))"
| activate: "config_step ctx (snd (config_set_active_profile ctx pid))"
| set_param: "config_step ctx (snd (config_set_param ctx k v))"

lemma config_ok_register: "config_ok ctx \<Longrightarrow> config_ok (snd (config_register_profile ctx pid vt nm))"
proof -
  assume ok: "config_ok ctx"
  have "distinct (map pr_id ps) \<and> length ps = length (ce_profiles ctx)"
    if "upd_first (\<lambda>r. pr_id r = pid) (\<lambda>r. r\<lparr>pr_vtable := w, pr_name := n\<rparr>) (ce_profiles ctx) = Some ps" for w n ps
  proof -
    have "map pr_id ps = map pr_id (ce_profiles ctx)" using that by (rule upd_first_map_inv) simp
    then show ?thesis using ok by (metis config_ok_def length_map)
  qed
  then show ?thesis using ok
    by (auto simp: config_register_profile_def config_ok_def split: option.splits)
qed

lemma map_update_same: "i < length xs \<Longrightarrow> (map f xs)[i := f (xs ! i)] = map f xs"
  by (simp add: list_update_same_conv)

lemma config_ok_activate: "config_ok ctx \<Longrightarrow> config_ok (snd (config_set_active_profile ctx pid))"
  by (auto simp: config_set_active_profile_def config_ok_def Let_def map_update comp_def map_update_same
      split: option.splits dest!: find_index_SomeD)

lemma upd_first_found: "find P xs = Some x \<Longrightarrow> \<exists>ys. upd_first P f xs = Some ys"
  by (cases "upd_first P f xs") (auto simp: find_Some_iff)

lemma config_ok_set_param: "config_ok ctx \<Longrightarrow> config_ok (snd (config_set_param ctx k v))"
proof (cases "\<exists>k' v'. k = Some k' \<and> v = Some v'")
  case True
  then obtain k' v' where kv: "k = Some k'" "v = Some v'" by blast
  assume ok: "config_ok ctx"
  show ?thesis
  proof (cases "find (\<lambda>p. cp_key p = k') (ce_params ctx)")
    case None
    then show ?thesis using ok by (auto simp: config_set_param_def kv config_ok_def config_consts)
  next
    case (Some p)
    let ?f = "\<lambda>p. p\<lparr>cp_value := take (CONFIG_VALUE_MAX_LEN - 1) v'\<rparr>"
    obtain ys where ys: "upd_first (\<lambda>p. cp_key p = k') ?f (ce_params ctx) = Some ys" using upd_first_found[OF Some] by blast
    have "set ys \<subseteq> set (ce_params ctx) \<union> ?f ` set (ce_params ctx)" "length ys = length (ce_params ctx)"
      using upd_first_set[OF ys] upd_first_length[OF ys] by auto
    then show ?thesis using ok Some ys
      by (auto simp: config_set_param_def kv config_ok_def config_consts dest!: subsetD)
  qed
qed (auto simp: config_set_param_def split: option.splits)

lemma config_ok_init: "config_engine_init c = (CE_CONFIG_OK, Some ctx) \<Longrightarrow> config_ok ctx"
  by (auto simp: config_engine_init_def config_ok_def split: option.splits)

interpretation config_run: invariant_system "\<lambda>ctx. \<exists>c. config_engine_init c = (CE_CONFIG_OK, Some ctx)" config_step config_ok
  by unfold_locales (auto elim!: config_step.cases intro: config_ok_init config_ok_register config_ok_activate config_ok_set_param)

section \<open>The parameter store as a table\<close>

definition config_put :: "'p ConfigEngineContext_t \<Rightarrow> string \<times> string \<Rightarrow> 'p ConfigEngineContext_t option" where
  "config_put ctx e =
    (if length (fst e) < CONFIG_KEY_MAX_LEN \<and> length (snd e) < CONFIG_VALUE_MAX_LEN
     then (case config_set_param ctx (Some (fst e)) (Some (snd e)) of (r, ctx') \<Rightarrow> if r = CE_CONFIG_OK then Some ctx' else None)
     else None)"

definition config_lookup :: "'p ConfigEngineContext_t \<Rightarrow> string \<Rightarrow> (string \<times> string) option" where
  "config_lookup ctx k = map_option (\<lambda>p. (k, cp_value p)) (find (\<lambda>p. cp_key p = k) (ce_params ctx))"

interpretation param_table: keyed_table fst config_lookup config_put config_ok
proof
  fix ctx ctx' :: "'a ConfigEngineContext_t" and e :: "string \<times> string" and k
  assume ok: "config_ok ctx" and put: "config_put ctx e = Some ctx'"
  have s: "config_set_param ctx (Some (fst e)) (Some (snd e)) = (CE_CONFIG_OK, ctx')"
    and l: "length (fst e) < 32" "length (snd e) < 64"
    using put by (auto simp: config_put_def config_consts split: if_splits prod.splits)
  show "config_ok ctx'" using config_ok_set_param[OF ok, of "Some (fst e)" "Some (snd e)"] s by simp
  show "config_lookup ctx' k = (if k = fst e then Some e else config_lookup ctx k)"
  proof (cases "find (\<lambda>p. cp_key p = fst e) (ce_params ctx)")
    case None
    then show ?thesis using s l
      by (auto simp: config_set_param_def config_lookup_def config_consts find_snoc split: if_splits option.splits)
  next
    case (Some p)
    let ?f = "\<lambda>p. p\<lparr>cp_value := take (CONFIG_VALUE_MAX_LEN - 1) (snd e)\<rparr>"
    obtain ys where ys: "upd_first (\<lambda>p. cp_key p = fst e) ?f (ce_params ctx) = Some ys" using upd_first_found[OF Some] by blast
    have "find (\<lambda>p. cp_key p = k) ys = (if k = fst e then map_option ?f (find (\<lambda>p. cp_key p = fst e) (ce_params ctx))
        else find (\<lambda>p. cp_key p = k) (ce_params ctx))"
      by (rule find_upd_first_key[OF ys]) simp
    then show ?thesis using s l Some ys
      by (auto simp: config_set_param_def config_lookup_def config_consts split: if_splits)
  qed
qed

section \<open>Properties\<close>

text \<open>
  C34.  The parameter store is a map for keys and values that fit their buffers: after any sequence of writes that
  were accepted, reading a key gives the value written to it last, and a key never written is not found.
\<close>

theorem config_reads_last_write:
  assumes "config_engine_init c = (CE_CONFIG_OK, Some ctx)" and "put_all config_put ctx es = Some ctx'"
  shows "config_get_param ctx' (Some k) True CONFIG_VALUE_MAX_LEN =
    Some (case find (\<lambda>e. fst e = k) (rev es) of Some e \<Rightarrow> (CE_CONFIG_OK, Some (snd e)) | None \<Rightarrow> (CE_CONFIG_ERR_NOT_FOUND, None))"
proof -
  note ok = config_ok_init[OF assms(1)]
  have "config_lookup ctx k = None" using assms(1) by (auto simp: config_engine_init_def config_lookup_def split: option.splits)
  then have l: "config_lookup ctx' k = find (\<lambda>e. fst e = k) (rev es)"
    using param_table.get_put_all[OF ok assms(2), of k] by (simp split: option.splits)
  have ok': "config_ok ctx'" by (rule param_table.put_all_inv[OF ok assms(2)])
  show ?thesis
  proof (cases "find (\<lambda>p. cp_key p = k) (ce_params ctx')")
    case (Some p)
    then have "length (cp_value p) < 64" using ok' by (auto simp: config_ok_def config_consts find_Some_iff)
    then show ?thesis using Some l[symmetric] ok' by (simp add: config_get_param_def config_lookup_def config_ok_def config_consts)
  qed (use l[symmetric] ok' in \<open>simp add: config_get_param_def config_lookup_def config_ok_def\<close>)
qed

definition config_demo :: "RuleEntry_t list ConfigEngineContext_t" where
  "config_demo = \<lparr>ce_profiles = [], ce_active_profile_index = 0xFF, ce_params = [], ce_initialized = True\<rparr>"

lemma config_demo_init: "config_engine_init (Some config_demo) = (CE_CONFIG_OK, Some config_demo)"
  by (simp add: config_engine_init_def config_demo_def)

theorem config_reads_last_write_witness:
  "\<exists>ctx'. put_all config_put config_demo [(''site'', ''a''), (''rate'', ''5''), (''site'', ''b'')] = Some ctx' \<and>
     config_get_param ctx' (Some ''site'') True CONFIG_VALUE_MAX_LEN = Some (CE_CONFIG_OK, Some ''b'')"
proof -
  have "\<exists>ctx'. put_all config_put config_demo [(''site'', ''a''), (''rate'', ''5''), (''site'', ''b'')] = Some ctx'"
    by (simp add: config_put_def config_set_param_def config_demo_def config_consts)
  then obtain ctx' where p: "put_all config_put config_demo [(''site'', ''a''), (''rate'', ''5''), (''site'', ''b'')] = Some ctx'" by blast
  from config_reads_last_write[OF config_demo_init p, of "''site''"] p show ?thesis by auto
qed

text \<open>
  A key of 32 characters or more is stored cut off and never found again: after a successful write under such a
  key, reading it reports that there is no such parameter, and every further write under it takes another slot.
\<close>

theorem config_long_key_lost:
  assumes "config_ok ctx" and "CONFIG_KEY_MAX_LEN \<le> length k" and "config_set_param ctx (Some k) (Some v) = (CE_CONFIG_OK, ctx')"
  shows "config_get_param ctx' (Some k) True n = Some (CE_CONFIG_ERR_NOT_FOUND, None) \<and>
    length (ce_params ctx') = Suc (length (ce_params ctx))"
proof -
  have none: "find (\<lambda>p. cp_key p = k) ps = None" if "\<forall>p \<in> set ps. length (cp_key p) < CONFIG_KEY_MAX_LEN" for ps
    using that assms(2) by (auto simp: find_None_iff)
  then have "find (\<lambda>p. cp_key p = k) (ce_params ctx) = None" using assms(1) by (auto simp: config_ok_def)
  then have "length (ce_params ctx') = Suc (length (ce_params ctx))"
    using assms(3) by (auto simp: config_set_param_def split: if_splits)
  moreover have "config_ok ctx'" using config_ok_set_param[OF assms(1), of "Some k" "Some v"] assms(3) by simp
  then have "find (\<lambda>p. cp_key p = k) (ce_params ctx') = None" "ce_initialized ctx'" using none by (auto simp: config_ok_def)
  ultimately show ?thesis by (simp add: config_get_param_def)
qed

theorem config_long_key_lost_witness:
  "config_get_param (snd (config_set_param config_demo (Some (replicate 32 (CHR ''k''))) (Some ''v''))) (Some (replicate 32 (CHR ''k''))) True 64
     = Some (CE_CONFIG_ERR_NOT_FOUND, None)"
proof -
  have "config_set_param config_demo (Some (replicate 32 (CHR ''k''))) (Some ''v'') =
      (CE_CONFIG_OK, snd (config_set_param config_demo (Some (replicate 32 (CHR ''k''))) (Some ''v'')))"
    by (simp add: config_set_param_def config_demo_def config_consts)
  from config_long_key_lost[OF config_ok_init[OF config_demo_init] _ this] show ?thesis by (simp add: config_consts)
qed

text \<open>
  No sequence of calls makes a parameter read-only: the answer \<open>CONFIG_ERR_READONLY\<close> is never given.
\<close>

theorem config_never_readonly:
  assumes "config_engine_init c = (CE_CONFIG_OK, Some ctx)" and "config_step\<^sup>*\<^sup>* ctx ctx'"
  shows "fst (config_set_param ctx' k v) \<noteq> CE_CONFIG_ERR_READONLY"
proof -
  have "config_ok ctx'" using config_run.reachable_inv[OF _ assms(2)] assms(1) by blast
  then show ?thesis by (auto simp: config_set_param_def config_ok_def find_Some_iff split: option.splits)
qed

text \<open>
  Selecting a profile: a registered profile becomes the active one, with its own id and vtable and the only one
  flagged active.  An id that is not registered is refused, but the flags of all profiles are cleared while the
  previous profile stays the one that id and vtable are taken from.
\<close>

theorem config_activate:
  assumes "config_ok ctx"
  shows "(case find (\<lambda>r. pr_id r = pid) (ce_profiles ctx) of
      Some r \<Rightarrow> fst (config_set_active_profile ctx pid) = CE_CONFIG_OK
        \<and> config_get_active_profile_id (snd (config_set_active_profile ctx pid)) = pid
        \<and> config_get_active_vtable (snd (config_set_active_profile ctx pid)) = Some (pr_vtable r)
        \<and> (\<forall>q \<in> set (ce_profiles (snd (config_set_active_profile ctx pid))). pr_active q \<longleftrightarrow> pr_id q = pid)
    | None \<Rightarrow> fst (config_set_active_profile ctx pid) = CE_CONFIG_ERR_NOT_FOUND
        \<and> config_get_active_vtable (snd (config_set_active_profile ctx pid)) = config_get_active_vtable ctx
        \<and> (\<forall>q \<in> set (ce_profiles (snd (config_set_active_profile ctx pid))). \<not> pr_active q))"
proof (cases "find_index (\<lambda>r. pr_id r = pid) (map (\<lambda>r. r\<lparr>pr_active := False\<rparr>) (ce_profiles ctx))")
  case None
  then have "find (\<lambda>r. pr_id r = pid) (ce_profiles ctx) = None" by (auto simp: find_index_None_iff find_None_iff)
  then show ?thesis using None assms
    by (auto simp: config_set_active_profile_def config_get_active_vtable_def config_ok_def Let_def)
next
  case (Some i)
  let ?ps = "ce_profiles ctx"
  have i: "i < length ?ps" "pr_id (?ps ! i) = pid" using find_index_SomeD[OF Some] by auto
  then have "find (\<lambda>r. pr_id r = pid) ?ps = Some (?ps ! i)"
    using assms by (auto simp: find_Some_iff config_ok_def distinct_conv_nth intro!: exI[of _ i])
  moreover have "i < 4" using i assms by (auto simp: config_ok_def config_consts)
  then have "unat (word_of_nat i :: u8) = i" by (simp add: unat_of_nat take_bit_eq_mod)
  moreover have "pr_active q \<longleftrightarrow> pr_id q = pid"
    if q: "q \<in> set ((map (\<lambda>r. r\<lparr>pr_active := False\<rparr>) ?ps)[i := (?ps ! i)\<lparr>pr_active := True\<rparr>])" for q
  proof -
    obtain j where j: "j < length ?ps" "q = (if j = i then (?ps ! i)\<lparr>pr_active := True\<rparr> else (?ps ! j)\<lparr>pr_active := False\<rparr>)"
      using q i by (auto simp: in_set_conv_nth nth_list_update)
    moreover have "j \<noteq> i \<Longrightarrow> pr_id (?ps ! j) \<noteq> pid" using j(1) i assms by (auto simp: config_ok_def distinct_conv_nth)
    ultimately show ?thesis using i by simp
  qed
  ultimately show ?thesis using Some i assms
    by (auto simp: config_set_active_profile_def config_get_active_vtable_def config_get_active_profile_id_def config_ok_def Let_def)
qed

theorem config_activate_witness:
  "fst (config_set_active_profile (config_demo\<lparr>ce_profiles := [\<lparr>pr_id = 7, pr_vtable = demo_vtable, pr_name = ''home'', pr_active = False\<rparr>]\<rparr>) 7) = CE_CONFIG_OK"
  using config_activate[of "config_demo\<lparr>ce_profiles := [\<lparr>pr_id = 7, pr_vtable = demo_vtable, pr_name = ''home'', pr_active = False\<rparr>]\<rparr>" 7]
  by (simp add: config_ok_def config_demo_def config_consts)

end
