(* ===== verification/Diagnostics.thy ===== *)
theory Diagnostics
  imports Text_Format Fault_Tree
begin

text \<open>
  System diagnostics (\<open>shared/diagnostics.c\<close>): named counters, the ring of the last 64 changes, and the JSON
  rendering.  A counter that the code finds by name is a pair of a selector and an update of the snapshot.
  The console summary only prints and is left out.
\<close>

section \<open>Data\<close>

definition DIAG_JSON_MAX_SIZE :: nat where "DIAG_JSON_MAX_SIZE = 2048"
definition DIAG_HISTORY_SIZE :: nat where "DIAG_HISTORY_SIZE = 64"

datatype DiagResult_t = DIAG_OP_OK | DIAG_OP_ERR_NOT_INIT | DIAG_OP_ERR_PARAM_NULL | DIAG_OP_ERR_BUFFER_TOO_SMALL

record SystemDiagnostics_t =
  dg_uptime_ms :: u32
  dg_free_heap_bytes :: u32
  dg_radio_tx_count :: u32
  dg_radio_rx_count :: u32
  dg_radio_errors :: u32
  dg_attestation_success :: u32
  dg_attestation_failures :: u32
  dg_rule_engine_evaluations :: u32
  dg_rule_engine_safety_fires :: u32
  dg_historian_writes :: u32
  dg_historian_evictions :: u32
  dg_ota_transfers_attempted :: u32
  dg_ota_transfers_succeeded :: u32
  dg_ota_transfers_failed :: u32
  dg_mqtt_publish_count :: u32
  dg_mqtt_reconnect_count :: u32
  dg_watchdog_resets :: u32
  dg_active_fault_count :: u32
  dg_current_degradation :: DegradationLevel_t

definition diagnostics_zero :: SystemDiagnostics_t where
  "diagnostics_zero = \<lparr>dg_uptime_ms = 0, dg_free_heap_bytes = 0, dg_radio_tx_count = 0, dg_radio_rx_count = 0, dg_radio_errors = 0,
     dg_attestation_success = 0, dg_attestation_failures = 0, dg_rule_engine_evaluations = 0, dg_rule_engine_safety_fires = 0,
     dg_historian_writes = 0, dg_historian_evictions = 0, dg_ota_transfers_attempted = 0, dg_ota_transfers_succeeded = 0,
     dg_ota_transfers_failed = 0, dg_mqtt_publish_count = 0, dg_mqtt_reconnect_count = 0, dg_watchdog_resets = 0,
     dg_active_fault_count = 0, dg_current_degradation = 0\<rparr>"

record DiagEvent_t =
  de_timestamp_ms :: u32
  de_old_value :: u32
  de_new_value :: u32
  de_counter_index :: u8

definition diag_event_zero :: DiagEvent_t where
  "diag_event_zero = \<lparr>de_timestamp_ms = 0, de_old_value = 0, de_new_value = 0, de_counter_index = 0\<rparr>"

record DiagnosticsContext_t =
  dx_snapshot :: SystemDiagnostics_t
  dx_history :: "DiagEvent_t list"
  dx_history_head :: u16
  dx_history_count :: u16
  dx_initialized :: bool

section \<open>Operations\<close>

type_synonym counter = "(SystemDiagnostics_t \<Rightarrow> u32) \<times> (u32 \<Rightarrow> SystemDiagnostics_t \<Rightarrow> SystemDiagnostics_t)"

definition counter_fields :: "(string \<times> counter) list" where
  "counter_fields = [
    (''uptime_ms'', dg_uptime_ms, \<lambda>v. dg_uptime_ms_update (\<lambda>_. v)),
    (''free_heap_bytes'', dg_free_heap_bytes, \<lambda>v. dg_free_heap_bytes_update (\<lambda>_. v)),
    (''radio_tx_count'', dg_radio_tx_count, \<lambda>v. dg_radio_tx_count_update (\<lambda>_. v)),
    (''radio_rx_count'', dg_radio_rx_count, \<lambda>v. dg_radio_rx_count_update (\<lambda>_. v)),
    (''radio_errors'', dg_radio_errors, \<lambda>v. dg_radio_errors_update (\<lambda>_. v)),
    (''attestation_success'', dg_attestation_success, \<lambda>v. dg_attestation_success_update (\<lambda>_. v)),
    (''attestation_failures'', dg_attestation_failures, \<lambda>v. dg_attestation_failures_update (\<lambda>_. v)),
    (''rule_engine_evaluations'', dg_rule_engine_evaluations, \<lambda>v. dg_rule_engine_evaluations_update (\<lambda>_. v)),
    (''rule_engine_safety_fires'', dg_rule_engine_safety_fires, \<lambda>v. dg_rule_engine_safety_fires_update (\<lambda>_. v)),
    (''historian_writes'', dg_historian_writes, \<lambda>v. dg_historian_writes_update (\<lambda>_. v)),
    (''historian_evictions'', dg_historian_evictions, \<lambda>v. dg_historian_evictions_update (\<lambda>_. v)),
    (''ota_transfers_attempted'', dg_ota_transfers_attempted, \<lambda>v. dg_ota_transfers_attempted_update (\<lambda>_. v)),
    (''ota_transfers_succeeded'', dg_ota_transfers_succeeded, \<lambda>v. dg_ota_transfers_succeeded_update (\<lambda>_. v)),
    (''ota_transfers_failed'', dg_ota_transfers_failed, \<lambda>v. dg_ota_transfers_failed_update (\<lambda>_. v)),
    (''mqtt_publish_count'', dg_mqtt_publish_count, \<lambda>v. dg_mqtt_publish_count_update (\<lambda>_. v)),
    (''mqtt_reconnect_count'', dg_mqtt_reconnect_count, \<lambda>v. dg_mqtt_reconnect_count_update (\<lambda>_. v)),
    (''watchdog_resets'', dg_watchdog_resets, \<lambda>v. dg_watchdog_resets_update (\<lambda>_. v))]"

definition find_counter :: "string \<Rightarrow> counter option" where
  "find_counter name = map_of counter_fields name"

definition find_counter_index :: "string \<Rightarrow> u8" where
  "find_counter_index name = (case find_index (\<lambda>n. n = name) (map fst counter_fields) of Some i \<Rightarrow> word_of_nat i | None \<Rightarrow> 0xFF)"

definition diagnostics_init :: "DiagnosticsContext_t option \<Rightarrow> DiagResult_t \<times> DiagnosticsContext_t option" where
  "diagnostics_init ctx =
    (case ctx of None \<Rightarrow> (DIAG_OP_ERR_PARAM_NULL, None)
     | Some _ \<Rightarrow> (DIAG_OP_OK, Some \<lparr>dx_snapshot = diagnostics_zero, dx_history = replicate DIAG_HISTORY_SIZE diag_event_zero,
         dx_history_head = 0, dx_history_count = 0, dx_initialized = True\<rparr>))"

definition diagnostics_record_event ::
  "DiagnosticsContext_t \<Rightarrow> u8 \<Rightarrow> u32 \<Rightarrow> u32 \<Rightarrow> DiagResult_t \<times> DiagnosticsContext_t"
where
  "diagnostics_record_event ctx counter_index old_value new_value =
    (if \<not> dx_initialized ctx then (DIAG_OP_ERR_PARAM_NULL, ctx)
     else
       let slot = (unat (dx_history_head ctx) + unat (dx_history_count ctx)) mod DIAG_HISTORY_SIZE;
           e = (dx_history ctx ! slot)\<lparr>de_counter_index := counter_index, de_old_value := old_value, de_new_value := new_value\<rparr>;
           ctx = (if unat (dx_history_count ctx) < DIAG_HISTORY_SIZE then ctx\<lparr>dx_history_count := dx_history_count ctx + 1\<rparr>
                  else ctx\<lparr>dx_history_head := word_of_nat ((unat (dx_history_head ctx) + 1) mod DIAG_HISTORY_SIZE)\<rparr>)
       in (DIAG_OP_OK, ctx\<lparr>dx_history := (dx_history ctx)[slot := e]\<rparr>))"

definition diagnostics_add :: "DiagnosticsContext_t \<Rightarrow> string option \<Rightarrow> u32 \<Rightarrow> DiagResult_t \<times> DiagnosticsContext_t" where
  "diagnostics_add ctx counter_name amount =
    (case counter_name of
       None \<Rightarrow> (DIAG_OP_ERR_PARAM_NULL, ctx)
     | Some name \<Rightarrow>
         if \<not> dx_initialized ctx then (DIAG_OP_ERR_PARAM_NULL, ctx)
         else (case find_counter name of
            None \<Rightarrow> (DIAG_OP_OK, ctx)
          | Some (get, put) \<Rightarrow>
              let old_value = get (dx_snapshot ctx);
                  ctx = ctx\<lparr>dx_snapshot := put (old_value + amount) (dx_snapshot ctx)\<rparr>;
                  idx = find_counter_index name
              in (DIAG_OP_OK, if idx \<noteq> 0xFF then snd (diagnostics_record_event ctx idx old_value (get (dx_snapshot ctx))) else ctx)))"

definition diagnostics_increment :: "DiagnosticsContext_t \<Rightarrow> string option \<Rightarrow> DiagResult_t \<times> DiagnosticsContext_t" where
  "diagnostics_increment ctx counter_name = diagnostics_add ctx counter_name 1"

definition diagnostics_get_snapshot :: "DiagnosticsContext_t option \<Rightarrow> DiagResult_t \<times> SystemDiagnostics_t option" where
  "diagnostics_get_snapshot ctx =
    (case ctx of None \<Rightarrow> (DIAG_OP_ERR_PARAM_NULL, None) | Some c \<Rightarrow> (DIAG_OP_OK, Some (dx_snapshot c)))"

definition diagnostics_get_counter :: "DiagnosticsContext_t option \<Rightarrow> string option \<Rightarrow> DiagResult_t \<times> u32 option" where
  "diagnostics_get_counter ctx counter_name =
    (case (ctx, counter_name) of
       (Some c, Some name) \<Rightarrow>
         (case find_counter name of None \<Rightarrow> (DIAG_OP_ERR_PARAM_NULL, None)
          | Some (get, _) \<Rightarrow> (DIAG_OP_OK, Some (get (dx_snapshot c))))
     | _ \<Rightarrow> (DIAG_OP_ERR_PARAM_NULL, None))"

definition diagnostics_set_uptime :: "DiagnosticsContext_t \<Rightarrow> u32 \<Rightarrow> DiagResult_t \<times> DiagnosticsContext_t" where
  "diagnostics_set_uptime ctx ms =
    (if \<not> dx_initialized ctx then (DIAG_OP_ERR_PARAM_NULL, ctx)
     else (DIAG_OP_OK, ctx\<lparr>dx_snapshot := (dx_snapshot ctx)\<lparr>dg_uptime_ms := ms\<rparr>\<rparr>))"

definition json_field :: "string \<Rightarrow> u32 \<Rightarrow> string" where
  "json_field name v = ''\"'' @ name @ ''\":'' @ dec (unat v) @ '',''"

definition json_text :: "SystemDiagnostics_t \<Rightarrow> string" where
  "json_text s = ''{'' @ json_field ''uptime_ms'' (dg_uptime_ms s) @ json_field ''free_heap_bytes'' (dg_free_heap_bytes s)
     @ json_field ''radio_tx'' (dg_radio_tx_count s) @ json_field ''radio_rx'' (dg_radio_rx_count s)
     @ json_field ''radio_errors'' (dg_radio_errors s) @ json_field ''attestation_ok'' (dg_attestation_success s)
     @ json_field ''attestation_fail'' (dg_attestation_failures s) @ json_field ''rule_eval'' (dg_rule_engine_evaluations s)
     @ json_field ''rule_safety'' (dg_rule_engine_safety_fires s) @ json_field ''historian_writes'' (dg_historian_writes s)
     @ json_field ''historian_evict'' (dg_historian_evictions s) @ json_field ''ota_attempted'' (dg_ota_transfers_attempted s)
     @ json_field ''ota_succeeded'' (dg_ota_transfers_succeeded s) @ json_field ''ota_failed'' (dg_ota_transfers_failed s)
     @ json_field ''mqtt_pub'' (dg_mqtt_publish_count s) @ json_field ''mqtt_reconn'' (dg_mqtt_reconnect_count s)
     @ json_field ''wdt_resets'' (dg_watchdog_resets s) @ json_field ''active_faults'' (dg_active_fault_count s)
     @ ''\"degradation\":'' @ dec (dg_current_degradation s) @ ''}''"

text \<open>The value returned and what is in the buffer.\<close>

definition diagnostics_to_json :: "DiagnosticsContext_t option \<Rightarrow> nat \<Rightarrow> nat \<times> string option" where
  "diagnostics_to_json ctx buf_size =
    (case ctx of
       None \<Rightarrow> (0, None)
     | Some c \<Rightarrow>
         if buf_size = 0 then (0, None)
         else let txt = json_text (dx_snapshot c)
              in (if length txt < buf_size then length txt else 0, Some (snprintf_text buf_size txt)))"

section \<open>Counters\<close>

lemma counter_lens:
  assumes "find_counter n = Some (g, p)" and "find_counter m = Some (g', p')"
  shows "g' (p v s) = (if m = n then v else g' s)"
proof -
  have "list_all (\<lambda>(n, g, p). list_all (\<lambda>(m, g', p'). g' (p v s) = (if m = n then v else g' s)) counter_fields) counter_fields"
    by (simp add: counter_fields_def)
  moreover have "(n, g, p) \<in> set counter_fields" "(m, g', p') \<in> set counter_fields"
    using assms map_of_SomeD by (simp_all add: find_counter_def)
  ultimately show ?thesis by (fastforce simp: list_all_iff)
qed

definition add_all :: "DiagnosticsContext_t \<Rightarrow> (string \<times> u32) list \<Rightarrow> DiagnosticsContext_t" where
  "add_all = foldl (\<lambda>ctx (n, a). snd (diagnostics_add ctx (Some n) a))"

lemma record_event_snapshot:
  "dx_snapshot (snd (diagnostics_record_event ctx i old new)) = dx_snapshot ctx"
  "dx_initialized (snd (diagnostics_record_event ctx i old new)) = dx_initialized ctx"
  by (simp_all add: diagnostics_record_event_def Let_def)

lemma add_snapshot:
  assumes "dx_initialized ctx" and "find_counter name = Some (g, p)"
  shows "g (dx_snapshot (snd (diagnostics_add ctx (Some n) a))) = g (dx_snapshot ctx) + (if n = name then a else 0)
    \<and> dx_initialized (snd (diagnostics_add ctx (Some n) a))"
proof (cases "find_counter n")
  case None
  then show ?thesis using assms by (auto simp: diagnostics_add_def)
next
  case (Some q)
  obtain g' p' where q: "q = (g', p')" by (cases q)
  show ?thesis using assms Some q counter_lens[of n g' p' name g p] counter_lens[of n g' p' n g' p']
    by (auto simp: diagnostics_add_def record_event_snapshot Let_def)
qed

section \<open>The history\<close>

definition event_change :: "DiagEvent_t \<Rightarrow> u8 \<times> u32 \<times> u32" where
  "event_change e = (de_counter_index e, de_old_value e, de_new_value e)"

definition diag_changes :: "DiagnosticsContext_t \<Rightarrow> (u8 \<times> u32 \<times> u32) list" where
  "diag_changes ctx =
    (let xs = map event_change (dx_history ctx); h = unat (dx_history_head ctx); n = unat (dx_history_count ctx)
     in if n < DIAG_HISTORY_SIZE then take n xs else drop h xs @ take h xs)"

definition diag_ok :: "DiagnosticsContext_t \<Rightarrow> bool" where
  "diag_ok ctx \<longleftrightarrow> dx_initialized ctx \<and> length (dx_history ctx) = DIAG_HISTORY_SIZE \<and> unat (dx_history_count ctx) \<le> DIAG_HISTORY_SIZE
     \<and> unat (dx_history_head ctx) < DIAG_HISTORY_SIZE \<and> (unat (dx_history_count ctx) < DIAG_HISTORY_SIZE \<longrightarrow> dx_history_head ctx = 0)
     \<and> (\<forall>e \<in> set (dx_history ctx). de_timestamp_ms e = 0)"

definition diag_push :: "DiagnosticsContext_t \<Rightarrow> u8 \<times> u32 \<times> u32 \<Rightarrow> DiagnosticsContext_t" where
  "diag_push ctx x = (case x of (i, old, new) \<Rightarrow> snd (diagnostics_record_event ctx i old new))"

lemma event_change_update [simp]:
  "event_change (e\<lparr>de_counter_index := i, de_old_value := old, de_new_value := new\<rparr>) = (i, old, new)"
  by (simp add: event_change_def)

lemma push_not_full:
  assumes "diag_ok ctx" and "unat (dx_history_count ctx) < 64"
  shows "diag_ok (diag_push ctx x)" and "diag_changes (diag_push ctx x) = diag_changes ctx @ [x]"
proof -
  let ?n = "unat (dx_history_count ctx)"
  obtain i old new where x: "x = (i, old, new)" by (cases x)
  have h: "dx_history_head ctx = 0" "length (dx_history ctx) = 64" "dx_initialized ctx" using assms by (auto simp: diag_ok_def DIAG_HISTORY_SIZE_def)
  have c: "unat (dx_history_count ctx + 1) = Suc ?n" using assms(2) by (simp add: unat_word_ariths)
  let ?e = "(dx_history ctx ! ?n)\<lparr>de_counter_index := i, de_old_value := old, de_new_value := new\<rparr>"
  have p: "diag_push ctx x = ctx\<lparr>dx_history_count := dx_history_count ctx + 1, dx_history := (dx_history ctx)[?n := ?e]\<rparr>"
    using assms(2) h by (simp add: diag_push_def x diagnostics_record_event_def Let_def DIAG_HISTORY_SIZE_def)
  show "diag_ok (diag_push ctx x)" unfolding p using assms h c
    by (auto simp: diag_ok_def DIAG_HISTORY_SIZE_def dest!: subsetD[OF set_update_subset_insert])
  have t: "take (Suc ?n) ((map event_change (dx_history ctx))[?n := x]) = take ?n (map event_change (dx_history ctx)) @ [x]"
    using assms(2) h by (intro take_Suc_update) simp
  have f: "\<not> ?n < 63 \<Longrightarrow> take (Suc ?n) ((map event_change (dx_history ctx))[?n := x]) = (map event_change (dx_history ctx))[?n := x]"
    using assms(2) h by (intro take_all) simp
  show "diag_changes (diag_push ctx x) = diag_changes ctx @ [x]" unfolding p
    using assms(2) h c t f by (cases "?n < 63") (simp_all add: diag_changes_def Let_def DIAG_HISTORY_SIZE_def map_update x)
qed

lemma push_full:
  assumes "diag_ok ctx" and "unat (dx_history_count ctx) = 64"
  shows "diag_ok (diag_push ctx x)" and "diag_changes (diag_push ctx x) = drop 1 (diag_changes ctx @ [x])"
proof -
  let ?h = "unat (dx_history_head ctx)"
  obtain i old new where x: "x = (i, old, new)" by (cases x)
  have h: "?h < 64" "length (dx_history ctx) = 64" "dx_initialized ctx" using assms by (auto simp: diag_ok_def DIAG_HISTORY_SIZE_def)
  let ?e = "(dx_history ctx ! ?h)\<lparr>de_counter_index := i, de_old_value := old, de_new_value := new\<rparr>"
  have p: "diag_push ctx x = ctx\<lparr>dx_history_head := word_of_nat (Suc ?h mod 64), dx_history := (dx_history ctx)[?h := ?e]\<rparr>"
    using assms(2) h by (simp add: diag_push_def x diagnostics_record_event_def Let_def DIAG_HISTORY_SIZE_def)
  have u: "unat (word_of_nat (Suc ?h mod 64) :: u16) = Suc ?h mod 64"
    using mod_less_divisor[of 64 "Suc ?h"] by (simp add: unat_of_nat take_bit_eq_mod del: mod_less_divisor)
  show "diag_ok (diag_push ctx x)" unfolding p using assms h u
    by (auto simp: diag_ok_def DIAG_HISTORY_SIZE_def dest!: subsetD[OF set_update_subset_insert])
  have "diag_changes (diag_push ctx x) = (let w' = Suc ?h mod 64; ys = (map event_change (dx_history ctx))[?h := x] in drop w' ys @ take w' ys)"
    unfolding p using assms(2) u by (simp add: diag_changes_def Let_def DIAG_HISTORY_SIZE_def map_update x)
  also have "\<dots> = drop (Suc ?h) (map event_change (dx_history ctx)) @ take ?h (map event_change (dx_history ctx)) @ [x]"
    using h by (intro ring_shift) simp_all
  also have "\<dots> = drop 1 (diag_changes ctx @ [x])"
    using ring_drop_oldest[of ?h "map event_change (dx_history ctx)" x] h assms(2) by (simp add: diag_changes_def Let_def DIAG_HISTORY_SIZE_def)
  finally show "diag_changes (diag_push ctx x) = drop 1 (diag_changes ctx @ [x])" .
qed

lemma length_changes: "diag_ok ctx \<Longrightarrow> length (diag_changes ctx) = unat (dx_history_count ctx)"
  by (auto simp: diag_ok_def diag_changes_def Let_def DIAG_HISTORY_SIZE_def)

interpretation diag_log: ring_log diag_push diag_changes DIAG_HISTORY_SIZE diag_ok
proof
  fix ctx x assume ok: "diag_ok ctx"
  consider "unat (dx_history_count ctx) < 64" | "unat (dx_history_count ctx) = 64" using ok unfolding diag_ok_def DIAG_HISTORY_SIZE_def by linarith
  then have "diag_ok (diag_push ctx x) \<and> diag_changes (diag_push ctx x) = last_n DIAG_HISTORY_SIZE (diag_changes ctx @ [x])"
  proof cases
    case 1
    then show ?thesis using push_not_full[OF ok 1, of x] length_changes[OF ok] by (simp add: DIAG_HISTORY_SIZE_def)
  next
    case 2
    then show ?thesis using push_full[OF ok 2, of x] length_changes[OF ok] by (simp add: last_n_def DIAG_HISTORY_SIZE_def)
  qed
  then show "diag_ok (diag_push ctx x)" "diag_changes (diag_push ctx x) = last_n DIAG_HISTORY_SIZE (diag_changes ctx @ [x])" by simp_all
qed

section \<open>Properties\<close>

text \<open>
  Counting: after initialisation and any sequence of additions to named counters, every known counter holds the
  sum of the amounts added under its own name, modulo the counter width, and unknown names change nothing.
\<close>

theorem diagnostics_counts:
  assumes "diagnostics_init c = (DIAG_OP_OK, Some ctx)" and "name \<in> set (map fst counter_fields)"
  shows "diagnostics_get_counter (Some (add_all ctx adds)) (Some name) =
    (DIAG_OP_OK, Some (\<Sum>(n, a) \<leftarrow> adds. if n = name then a else 0))"
proof -
  obtain g p where f: "find_counter name = Some (g, p)"
    using assms(2) by (cases "find_counter name") (auto simp: find_counter_def map_of_eq_None_iff)
  have "g (dx_snapshot (add_all x adds)) = g (dx_snapshot x) + (\<Sum>(n, a) \<leftarrow> adds. if n = name then a else 0)" if "dx_initialized x" for x
    using that
  proof (induction adds arbitrary: x)
    case (Cons na adds)
    then show ?case using add_snapshot[OF Cons.prems f, of "fst na" "snd na"]
      by (auto simp: add_all_def split: prod.splits)
  qed (simp add: add_all_def)
  moreover have "g (dx_snapshot ctx) = 0" "dx_initialized ctx"
    using assms(1) f by (auto simp: diagnostics_init_def find_counter_def counter_fields_def diagnostics_zero_def split: option.splits if_splits)
  ultimately show ?thesis by (simp add: diagnostics_get_counter_def f)
qed

definition diag_demo :: DiagnosticsContext_t where
  "diag_demo = \<lparr>dx_snapshot = diagnostics_zero, dx_history = replicate DIAG_HISTORY_SIZE diag_event_zero,
         dx_history_head = 0, dx_history_count = 0, dx_initialized = True\<rparr>"

lemma diag_demo_init: "diagnostics_init (Some diag_demo) = (DIAG_OP_OK, Some diag_demo)"
  by (simp add: diagnostics_init_def diag_demo_def)

theorem diagnostics_counts_witness:
  "diagnostics_get_counter (Some (add_all diag_demo [(''radio_errors'', 2), (''nonsense'', 7), (''radio_errors'', 0xFFFFFFFF)])) (Some ''radio_errors'')
     = (DIAG_OP_OK, Some 1)"
  using diagnostics_counts[OF diag_demo_init, of "''radio_errors''" "[(''radio_errors'', 2), (''nonsense'', 7), (''radio_errors'', 0xFFFFFFFF)]"]
  by (simp add: counter_fields_def)

text \<open>
  The history is the list of the last 64 recorded changes, in order; no entry ever gets a time stamp.
\<close>

theorem diagnostics_history:
  assumes "diagnostics_init c = (DIAG_OP_OK, Some ctx)"
  shows "diag_changes (foldl diag_push ctx xs) = last_n DIAG_HISTORY_SIZE xs
    \<and> (\<forall>e \<in> set (dx_history (foldl diag_push ctx xs)). de_timestamp_ms e = 0)"
proof -
  have ok: "diag_ok ctx" "diag_changes ctx = []"
    using assms by (auto simp: diagnostics_init_def diag_ok_def DIAG_HISTORY_SIZE_def diag_event_zero_def diag_changes_def split: option.splits)
  then show ?thesis
    using diag_log.contents_push_all[OF ok(1), of xs] diag_log.push_all_inv[OF ok(1), of xs] by (simp add: diag_ok_def)
qed

theorem diagnostics_history_witness:
  "diag_changes (foldl diag_push diag_demo [(3, 0, 1), (3, 1, 2)]) = [(3, 0, 1), (3, 1, 2)]"
  using diagnostics_history[OF diag_demo_init, of "[(3, 0, 1), (3, 1, 2)]"] by (simp add: DIAG_HISTORY_SIZE_def)

lemma length_json_field: "length (json_field name v) \<le> length name + 14"
  using length_dec_u32[of v] by (simp add: json_field_def)

text \<open>
  The JSON text of a snapshot, whatever its counters, fits the buffer size that the header recommends: with at
  most nine degradation levels the function returns the full length and the whole text.
\<close>

theorem diagnostics_json_fits:
  assumes "dg_current_degradation (dx_snapshot ctx) < 10"
  shows "diagnostics_to_json (Some ctx) DIAG_JSON_MAX_SIZE = (length (json_text (dx_snapshot ctx)), Some (json_text (dx_snapshot ctx)))
    \<and> 0 < length (json_text (dx_snapshot ctx)) \<and> length (json_text (dx_snapshot ctx)) \<le> 600"
proof -
  let ?s = "dx_snapshot ctx"
  have d: "length (dec (dg_current_degradation ?s)) \<le> 1" using length_dec[of "dg_current_degradation ?s" 1] assms by simp
  have "length (json_text ?s) \<le> 600"
    unfolding json_text_def length_append
    using d length_json_field[of "''uptime_ms''" "dg_uptime_ms ?s"] length_json_field[of "''free_heap_bytes''" "dg_free_heap_bytes ?s"]
      length_json_field[of "''radio_tx''" "dg_radio_tx_count ?s"] length_json_field[of "''radio_rx''" "dg_radio_rx_count ?s"]
      length_json_field[of "''radio_errors''" "dg_radio_errors ?s"] length_json_field[of "''attestation_ok''" "dg_attestation_success ?s"]
      length_json_field[of "''attestation_fail''" "dg_attestation_failures ?s"] length_json_field[of "''rule_eval''" "dg_rule_engine_evaluations ?s"]
      length_json_field[of "''rule_safety''" "dg_rule_engine_safety_fires ?s"] length_json_field[of "''historian_writes''" "dg_historian_writes ?s"]
      length_json_field[of "''historian_evict''" "dg_historian_evictions ?s"] length_json_field[of "''ota_attempted''" "dg_ota_transfers_attempted ?s"]
      length_json_field[of "''ota_succeeded''" "dg_ota_transfers_succeeded ?s"] length_json_field[of "''ota_failed''" "dg_ota_transfers_failed ?s"]
      length_json_field[of "''mqtt_pub''" "dg_mqtt_publish_count ?s"] length_json_field[of "''mqtt_reconn''" "dg_mqtt_reconnect_count ?s"]
      length_json_field[of "''wdt_resets''" "dg_watchdog_resets ?s"] length_json_field[of "''active_faults''" "dg_active_fault_count ?s"]
    by simp
  moreover from this have "snprintf_text DIAG_JSON_MAX_SIZE (json_text ?s) = json_text ?s"
    by (simp add: snprintf_text_def DIAG_JSON_MAX_SIZE_def)
  moreover have "0 < length (json_text ?s)" by (simp add: json_text_def)
  ultimately show ?thesis by (simp add: diagnostics_to_json_def Let_def DIAG_JSON_MAX_SIZE_def)
qed

theorem diagnostics_json_fits_witness:
  "fst (diagnostics_to_json (Some diag_demo) DIAG_JSON_MAX_SIZE) = length (json_text diagnostics_zero)"
  using diagnostics_json_fits[of diag_demo] by (simp add: diag_demo_def diagnostics_zero_def)

end
