(* ===== verification/Edge_Node.thy ===== *)
theory Edge_Node
  imports Rs485 Attestation Float32
begin

text \<open>
  The edge node (\<open>edge/sensor_driver.c\<close>, \<open>edge_config.c\<close>, \<open>edge_attestation.c\<close>, \<open>edge_node.c\<close>): the registry
  of sensor drivers over the hardware registers they read, the stored configuration that selects a driver, the
  node's side of attestation, and the cycle that reads, checks, scales, encodes and sends a value.  The context that
  \<open>edge_node_init\<close> keeps a pointer to is shared with the attestation functions, so it is a field of the node's
  state beside the statics of the files.
\<close>

section \<open>Sensor drivers\<close>

text \<open>\<open>SENSOR_TYPE_COUNT\<close> stands for every number that is no sensor type.\<close>

datatype SensorType_t = SENSOR_DISTANCE | SENSOR_ANALOG | SENSOR_I2C | SENSOR_TYPE_COUNT

record SensorConfig_t =
  sc_pin_or_addr :: u8
  sc_scale_factor :: f32
  sc_offset :: f32
  sc_sample_count :: u8

record SensorDriverReading_t =
  dr_value :: f32
  dr_valid :: bool

record sensor_hw =
  hw_distance_cm :: f32
  hw_distance_fault :: bool
  hw_adc_raw :: f32
  hw_adc_fault :: bool
  hw_i2c_temp_c :: f32
  hw_i2c_humidity :: f32
  hw_i2c_fault :: bool

definition sensor_hw_initial :: sensor_hw where
  "sensor_hw_initial = \<lparr>hw_distance_cm = 0x42C80000, hw_distance_fault = False, hw_adc_raw = 0x44000000, hw_adc_fault = False,
     hw_i2c_temp_c = 0x41B40000, hw_i2c_humidity = 0x42340000, hw_i2c_fault = False\<rparr>"

definition sensor_driver_mock_set_distance :: "f32 \<Rightarrow> bool \<Rightarrow> sensor_hw \<Rightarrow> sensor_hw" where
  "sensor_driver_mock_set_distance cm fault hw = hw\<lparr>hw_distance_cm := cm, hw_distance_fault := fault\<rparr>"

definition sensor_driver_mock_set_adc :: "f32 \<Rightarrow> bool \<Rightarrow> sensor_hw \<Rightarrow> sensor_hw" where
  "sensor_driver_mock_set_adc raw fault hw = hw\<lparr>hw_adc_raw := raw, hw_adc_fault := fault\<rparr>"

definition sensor_driver_mock_set_i2c :: "f32 \<Rightarrow> f32 \<Rightarrow> bool \<Rightarrow> sensor_hw \<Rightarrow> sensor_hw" where
  "sensor_driver_mock_set_i2c temp_c humidity fault hw =
     hw\<lparr>hw_i2c_temp_c := temp_c, hw_i2c_humidity := humidity, hw_i2c_fault := fault\<rparr>"

record SensorDriver_t =
  sd_type :: SensorType_t
  sd_init :: "SensorConfig_t \<Rightarrow> bool"
  sd_read :: "sensor_hw \<Rightarrow> SensorDriverReading_t"
  sd_validate :: "f32 \<Rightarrow> bool"

definition distance_init :: "SensorConfig_t \<Rightarrow> bool" where "distance_init cfg = True"

definition distance_read :: "sensor_hw \<Rightarrow> SensorDriverReading_t" where
  "distance_read hw = \<lparr>dr_value = hw_distance_cm hw, dr_valid = (\<not> hw_distance_fault hw)\<rparr>"

text \<open>2.0 and 400.0.\<close>

definition distance_validate :: "f32 \<Rightarrow> bool" where
  "distance_validate raw_value \<longleftrightarrow> f32_le 0x40000000 raw_value \<and> f32_le raw_value 0x43C80000"

definition s_distance_driver :: SensorDriver_t where
  "s_distance_driver = \<lparr>sd_type = SENSOR_DISTANCE, sd_init = distance_init, sd_read = distance_read, sd_validate = distance_validate\<rparr>"

definition analog_init :: "SensorConfig_t \<Rightarrow> bool" where "analog_init cfg = True"

definition analog_read :: "sensor_hw \<Rightarrow> SensorDriverReading_t" where
  "analog_read hw = \<lparr>dr_value = hw_adc_raw hw, dr_valid = (\<not> hw_adc_fault hw)\<rparr>"

text \<open>0.0 and 4095.0.\<close>

definition analog_validate :: "f32 \<Rightarrow> bool" where
  "analog_validate raw_value \<longleftrightarrow> f32_le 0 raw_value \<and> f32_le raw_value 0x457FF000"

definition s_analog_driver :: SensorDriver_t where
  "s_analog_driver = \<lparr>sd_type = SENSOR_ANALOG, sd_init = analog_init, sd_read = analog_read, sd_validate = analog_validate\<rparr>"

definition i2c_init :: "SensorConfig_t \<Rightarrow> bool" where "i2c_init cfg = True"

definition i2c_read :: "sensor_hw \<Rightarrow> SensorDriverReading_t" where
  "i2c_read hw = \<lparr>dr_value = hw_i2c_temp_c hw, dr_valid = (\<not> hw_i2c_fault hw)\<rparr>"

text \<open>-40.0 and 125.0.\<close>

definition i2c_validate :: "f32 \<Rightarrow> bool" where
  "i2c_validate raw_value \<longleftrightarrow> f32_le 0xC2200000 raw_value \<and> f32_le raw_value 0x42FA0000"

definition s_i2c_driver :: SensorDriver_t where
  "s_i2c_driver = \<lparr>sd_type = SENSOR_I2C, sd_init = i2c_init, sd_read = i2c_read, sd_validate = i2c_validate\<rparr>"

definition s_driver_registry :: "SensorDriver_t list" where
  "s_driver_registry = [s_distance_driver, s_analog_driver, s_i2c_driver]"

definition sensor_driver_registry_count :: u8 where
  "sensor_driver_registry_count = word_of_nat (length s_driver_registry)"

definition sensor_driver_find :: "SensorType_t \<Rightarrow> SensorDriver_t option" where
  "sensor_driver_find type = find (\<lambda>d. sd_type d = type) s_driver_registry"

text \<open>The function returns the first driver itself, next to the number of entries.\<close>

definition sensor_driver_registry_get_all :: "SensorDriver_t \<times> u8" where
  "sensor_driver_registry_get_all = (s_driver_registry ! 0, word_of_nat (length s_driver_registry))"

section \<open>Configuration\<close>

record EdgeNodeConfig_t =
  nc_node_id :: u8
  nc_active_driver :: SensorType_t
  nc_metric_id :: u8
  nc_driver_config :: SensorConfig_t
  nc_gw_dest_addr :: u8
  nc_valid :: bool

definition edge_config_zero :: EdgeNodeConfig_t where
  "edge_config_zero = \<lparr>nc_node_id = 0, nc_active_driver = SENSOR_DISTANCE, nc_metric_id = 0,
     nc_driver_config = \<lparr>sc_pin_or_addr = 0, sc_scale_factor = 0, sc_offset = 0, sc_sample_count = 0\<rparr>,
     nc_gw_dest_addr = 0, nc_valid = False\<rparr>"

text \<open>The storage callbacks act on a backend state of their own; a load that returns false gives nothing.\<close>

record 'st EdgeConfigStorage_t =
  es_save :: "(EdgeNodeConfig_t \<Rightarrow> 'st \<Rightarrow> bool \<times> 'st) option"
  es_load :: "('st \<Rightarrow> EdgeNodeConfig_t option) option"

datatype EdgeConfigResult_t =
  EDGE_CONFIG_OK | EDGE_CONFIG_ERR_NOT_PROVISIONED | EDGE_CONFIG_ERR_DRIVER_NOT_FOUND | EDGE_CONFIG_ERR_DRIVER_INIT_FAIL
| EDGE_CONFIG_ERR_PARAM_NULL | EDGE_CONFIG_ERR_STORAGE

record 'st edge_config =
  ec_config :: EdgeNodeConfig_t
  ec_storage :: "'st EdgeConfigStorage_t option"
  ec_initialised :: bool
  ec_backend :: 'st

definition edge_config_init :: "'st EdgeConfigStorage_t option \<Rightarrow> 'st edge_config \<Rightarrow> bool \<times> 'st edge_config" where
  "edge_config_init storage g =
    (let g = g\<lparr>ec_config := edge_config_zero, ec_storage := storage, ec_initialised := True\<rparr> in
     case storage of
       None \<Rightarrow> (True, g)
     | Some s \<Rightarrow>
         (case es_load s of
            None \<Rightarrow> (True, g)
          | Some load \<Rightarrow>
              (case load (ec_backend g) of
                 Some loaded \<Rightarrow> if nc_valid loaded then (True, g\<lparr>ec_config := loaded\<rparr>) else (True, g)
               | None \<Rightarrow> (True, g))))"

definition edge_config_get :: "'st edge_config \<Rightarrow> EdgeNodeConfig_t option" where
  "edge_config_get g =
    (if \<not> ec_initialised g then None else if \<not> nc_valid (ec_config g) then None else Some (ec_config g))"

definition edge_config_set :: "EdgeNodeConfig_t option \<Rightarrow> 'st edge_config \<Rightarrow> EdgeConfigResult_t \<times> 'st edge_config" where
  "edge_config_set config g =
    (case config of
       None \<Rightarrow> (EDGE_CONFIG_ERR_PARAM_NULL, g)
     | Some c \<Rightarrow>
         if \<not> ec_initialised g then (EDGE_CONFIG_ERR_STORAGE, g)
         else if sensor_driver_find (nc_active_driver c) = None then (EDGE_CONFIG_ERR_DRIVER_NOT_FOUND, g)
         else
           let g = g\<lparr>ec_config := c\<lparr>nc_valid := True\<rparr>\<rparr> in
           (case ec_storage g of
              None \<Rightarrow> (EDGE_CONFIG_OK, g)
            | Some s \<Rightarrow>
                (case es_save s of
                   None \<Rightarrow> (EDGE_CONFIG_OK, g)
                 | Some save \<Rightarrow>
                     (case save (ec_config g) (ec_backend g) of
                        (ok, st) \<Rightarrow>
                          (if ok then EDGE_CONFIG_OK else EDGE_CONFIG_ERR_STORAGE, g\<lparr>ec_backend := st\<rparr>)))))"

definition edge_config_is_provisioned :: "'st edge_config \<Rightarrow> bool" where
  "edge_config_is_provisioned g \<longleftrightarrow> ec_initialised g \<and> nc_valid (ec_config g)"

section \<open>Attestation\<close>

datatype EdgeAuthState_t = EDGE_AUTH_UNINIT | EDGE_AUTH_IDLE | EDGE_AUTH_AUTHENTICATED | EDGE_AUTH_FAILED

record EdgeAuthContext_t =
  ea_node_id :: u8
  ea_pre_shared_key :: bytes
  ea_key_set :: bool
  ea_state :: EdgeAuthState_t

datatype EdgeAttestResult_t = EDGE_ATTEST_OK | EDGE_ATTEST_ERR_NOT_READY | EDGE_ATTEST_ERR_PARAM_NULL

definition edge_auth_init :: "EdgeAuthContext_t option \<Rightarrow> u8 \<Rightarrow> EdgeAuthContext_t option" where
  "edge_auth_init ctx node_id =
    (case ctx of None \<Rightarrow> None
     | Some _ \<Rightarrow> Some \<lparr>ea_node_id = node_id, ea_pre_shared_key = replicate ATTESTATION_KEY_SIZE 0, ea_key_set = False,
         ea_state = EDGE_AUTH_IDLE\<rparr>)"

definition edge_auth_set_key :: "EdgeAuthContext_t option \<Rightarrow> bytes option \<Rightarrow> bool \<times> EdgeAuthContext_t option" where
  "edge_auth_set_key ctx key =
    (case (ctx, key) of
       (Some x, Some k) \<Rightarrow> (True, Some (x\<lparr>ea_pre_shared_key := k, ea_key_set := True\<rparr>))
     | _ \<Rightarrow> (False, ctx))"

text \<open>\<open>want\<close> says whether the caller passed a place for the response.\<close>

definition edge_auth_respond ::
  "md_hmac \<Rightarrow> EdgeAuthContext_t option \<Rightarrow> AttestationChallenge_t option \<Rightarrow> bool \<Rightarrow>
   EdgeAttestResult_t \<times> AttestationResponse_t option \<times> EdgeAuthContext_t option"
where
  "edge_auth_respond md ctx challenge want =
    (case (ctx, challenge) of
       (Some x, Some c) \<Rightarrow>
         if \<not> want then (EDGE_ATTEST_ERR_PARAM_NULL, None, ctx)
         else if \<not> ea_key_set x then (EDGE_ATTEST_ERR_NOT_READY, None, Some (x\<lparr>ea_state := EDGE_AUTH_FAILED\<rparr>))
         else (EDGE_ATTEST_OK,
               Some \<lparr>ar_response = attestation_compute_response md (ea_pre_shared_key x) c,
                     ar_timestamp_ms = ac_timestamp_ms c, ar_responder_id = ea_node_id x\<rparr>,
               Some (x\<lparr>ea_state := EDGE_AUTH_AUTHENTICATED\<rparr>))
     | _ \<Rightarrow> (EDGE_ATTEST_ERR_PARAM_NULL, None, ctx))"

definition edge_auth_get_state :: "EdgeAuthContext_t option \<Rightarrow> EdgeAuthState_t" where
  "edge_auth_get_state ctx = (case ctx of None \<Rightarrow> EDGE_AUTH_UNINIT | Some x \<Rightarrow> ea_state x)"

definition edge_auth_is_authenticated :: "EdgeAuthContext_t option \<Rightarrow> bool" where
  "edge_auth_is_authenticated ctx = (case ctx of None \<Rightarrow> False | Some x \<Rightarrow> ea_state x = EDGE_AUTH_AUTHENTICATED)"

section \<open>The read cycle\<close>

record EdgeNodeResult_t =
  er_value :: f32
  er_valid :: bool
  er_node_id :: u8
  er_gw_addr :: u8
  er_frame_sent :: bool

record EdgeNodeStats_t =
  st_reads_total :: u32
  st_reads_valid :: u32
  st_reads_invalid :: u32
  st_frames_sent :: u32
  st_frames_failed :: u32

definition edge_stats_zero :: EdgeNodeStats_t where
  "edge_stats_zero = \<lparr>st_reads_total = 0, st_reads_valid = 0, st_reads_invalid = 0, st_frames_sent = 0, st_frames_failed = 0\<rparr>"

text \<open>The argument of \<open>edge_node_init\<close>: a null pointer, the sentinel for tests, or the node's context.\<close>

datatype auth_arg = Auth_Null | EDGE_AUTH_UNGATED_TESTING_ONLY | Auth_Context

text \<open>\<open>en_auth_ctx\<close> says whether the pointer to the context is set; the line is the state that the send callback acts on.\<close>

record ('st, 'l) edge_node =
  en_send_fn :: "(bytes \<Rightarrow> 'l \<Rightarrow> bool \<times> 'l) option"
  en_auth_ctx :: bool
  en_auth_disabled_test_only :: bool
  en_stats :: EdgeNodeStats_t
  en_config :: "'st edge_config"
  en_auth :: EdgeAuthContext_t
  en_hw :: sensor_hw
  en_line :: 'l

definition edge_node_init :: "(bytes \<Rightarrow> 'l \<Rightarrow> bool \<times> 'l) option \<Rightarrow> auth_arg \<Rightarrow> ('st, 'l) edge_node \<Rightarrow> ('st, 'l) edge_node" where
  "edge_node_init send_fn auth g =
     g\<lparr>en_send_fn := send_fn, en_auth_ctx := (auth = Auth_Context),
       en_auth_disabled_test_only := (auth = EDGE_AUTH_UNGATED_TESTING_ONLY), en_stats := edge_stats_zero\<rparr>"

definition count_invalid :: "('st, 'l) edge_node \<Rightarrow> ('st, 'l) edge_node" where
  "count_invalid g = g\<lparr>en_stats := (en_stats g)\<lparr>st_reads_invalid := st_reads_invalid (en_stats g) + 1\<rparr>\<rparr>"

definition edge_result_zero :: EdgeNodeResult_t where
  "edge_result_zero = \<lparr>er_value = 0, er_valid = False, er_node_id = 0, er_gw_addr = 0, er_frame_sent = False\<rparr>"

text \<open>The frame on the stack is not initialised; only the payload bytes that \<open>rs485_create_frame\<close> writes are encoded.\<close>

definition edge_frame :: "EdgeNodeConfig_t \<Rightarrow> f32 \<Rightarrow> RS485Frame_t" where
  "edge_frame cfg physical_value =
     rs485_create_frame \<lparr>rs_dest_addr = 0, rs_src_addr = 0, rs_payload_len = 0, rs_payload = replicate RS485_MAX_FRAME_PAYLOAD 0\<rparr>
       (nc_gw_dest_addr cfg) (nc_node_id cfg)
       (Some ([nc_node_id cfg, nc_metric_id cfg] @ le_bytes32 physical_value)) 6"

definition edge_send :: "EdgeNodeResult_t \<Rightarrow> EdgeNodeConfig_t \<Rightarrow> ('st, 'l) edge_node \<Rightarrow> EdgeNodeResult_t \<times> ('st, 'l) edge_node" where
  "edge_send result cfg g =
    (let failed = g\<lparr>en_stats := (en_stats g)\<lparr>st_frames_failed := st_frames_failed (en_stats g) + 1\<rparr>\<rparr> in
     case rs485_encode (Some (edge_frame cfg (er_value result))) (RS485_MAX_FRAME_PAYLOAD + 8) of
       None \<Rightarrow> (result, failed)
     | Some wire \<Rightarrow>
         (case en_send_fn g of
            None \<Rightarrow> (result, failed)
          | Some send \<Rightarrow>
              (case send wire (en_line g) of
                 (ok, l) \<Rightarrow>
                   if ok then (result\<lparr>er_frame_sent := True\<rparr>,
                     g\<lparr>en_line := l, en_stats := (en_stats g)\<lparr>st_frames_sent := st_frames_sent (en_stats g) + 1\<rparr>\<rparr>)
                   else (result, failed\<lparr>en_line := l\<rparr>))))"

definition edge_node_read_and_send :: "('st, 'l) edge_node \<Rightarrow> EdgeNodeResult_t \<times> ('st, 'l) edge_node" where
  "edge_node_read_and_send g =
    (let g = g\<lparr>en_stats := (en_stats g)\<lparr>st_reads_total := st_reads_total (en_stats g) + 1\<rparr>\<rparr>; result = edge_result_zero in
     if \<not> en_auth_disabled_test_only g \<and> \<not> en_auth_ctx g then (result, count_invalid g)
     else if \<not> en_auth_disabled_test_only g \<and> \<not> edge_auth_is_authenticated (Some (en_auth g)) then (result, count_invalid g)
     else (case edge_config_get (en_config g) of
        None \<Rightarrow> (result, count_invalid g)
      | Some cfg \<Rightarrow>
          let result = result\<lparr>er_node_id := nc_node_id cfg, er_gw_addr := nc_gw_dest_addr cfg\<rparr> in
          (case sensor_driver_find (nc_active_driver cfg) of
             None \<Rightarrow> (result, count_invalid g)
           | Some driver \<Rightarrow>
               let reading = sd_read driver (en_hw g) in
               if \<not> dr_valid reading then (result, count_invalid g)
               else if \<not> sd_validate driver (dr_value reading) then (result, count_invalid g)
               else
                 let physical_value = f32_add (f32_mul (dr_value reading) (sc_scale_factor (nc_driver_config cfg)))
                       (sc_offset (nc_driver_config cfg));
                     result = result\<lparr>er_value := physical_value, er_valid := True\<rparr>
                 in edge_send result cfg
                      (g\<lparr>en_stats := (en_stats g)\<lparr>st_reads_valid := st_reads_valid (en_stats g) + 1\<rparr>\<rparr>))))"

definition edge_node_reset_stats :: "('st, 'l) edge_node \<Rightarrow> ('st, 'l) edge_node" where
  "edge_node_reset_stats g = g\<lparr>en_stats := edge_stats_zero\<rparr>"

definition edge_node_get_stats :: "('st, 'l) edge_node \<Rightarrow> EdgeNodeStats_t" where
  "edge_node_get_stats g = en_stats g"

section \<open>What a cycle sends\<close>

text \<open>The reading that a node in state \<open>g\<close> is entitled to send, with the configuration it is sent under.\<close>

definition edge_reading :: "('st, 'l) edge_node \<Rightarrow> (EdgeNodeConfig_t \<times> f32) option" where
  "edge_reading g =
    (if \<not> (en_auth_disabled_test_only g \<or> en_auth_ctx g \<and> ea_state (en_auth g) = EDGE_AUTH_AUTHENTICATED) then None
     else if \<not> (ec_initialised (en_config g) \<and> nc_valid (ec_config (en_config g))) then None
     else
       let cfg = ec_config (en_config g); dc = nc_driver_config cfg; hw = en_hw g;
           raw = (case nc_active_driver cfg of
                    SENSOR_DISTANCE \<Rightarrow> if \<not> hw_distance_fault hw \<and> f32_le 0x40000000 (hw_distance_cm hw) \<and> f32_le (hw_distance_cm hw) 0x43C80000
                      then Some (hw_distance_cm hw) else None
                  | SENSOR_ANALOG \<Rightarrow> if \<not> hw_adc_fault hw \<and> f32_le 0 (hw_adc_raw hw) \<and> f32_le (hw_adc_raw hw) 0x457FF000
                      then Some (hw_adc_raw hw) else None
                  | SENSOR_I2C \<Rightarrow> if \<not> hw_i2c_fault hw \<and> f32_le 0xC2200000 (hw_i2c_temp_c hw) \<and> f32_le (hw_i2c_temp_c hw) 0x42FA0000
                      then Some (hw_i2c_temp_c hw) else None
                  | SENSOR_TYPE_COUNT \<Rightarrow> None)
       in map_option (\<lambda>v. (cfg, f32_add (f32_mul v (sc_scale_factor dc)) (sc_offset dc))) raw)"

lemmas driver_defs = s_driver_registry_def s_distance_driver_def s_analog_driver_def s_i2c_driver_def distance_read_def
  analog_read_def i2c_read_def distance_validate_def analog_validate_def i2c_validate_def

lemma find_driver: "sensor_driver_find t = (case t of SENSOR_DISTANCE \<Rightarrow> Some s_distance_driver | SENSOR_ANALOG \<Rightarrow> Some s_analog_driver
    | SENSOR_I2C \<Rightarrow> Some s_i2c_driver | SENSOR_TYPE_COUNT \<Rightarrow> None)"
  by (cases t) (simp_all add: sensor_driver_find_def driver_defs)

lemma cycle_eq:
  "edge_node_read_and_send g =
    (let g1 = g\<lparr>en_stats := (en_stats g)\<lparr>st_reads_total := st_reads_total (en_stats g) + 1\<rparr>\<rparr>
     in case edge_reading g of
          None \<Rightarrow> (fst (edge_node_read_and_send g), count_invalid g1)
        | Some (cfg, v) \<Rightarrow> edge_send (edge_result_zero\<lparr>er_node_id := nc_node_id cfg, er_gw_addr := nc_gw_dest_addr cfg, er_value := v, er_valid := True\<rparr>) cfg
            (g1\<lparr>en_stats := (en_stats g1)\<lparr>st_reads_valid := st_reads_valid (en_stats g1) + 1\<rparr>\<rparr>))"
  by (cases "nc_active_driver (ec_config (en_config g))")
    (auto simp: edge_node_read_and_send_def edge_reading_def edge_config_get_def edge_auth_is_authenticated_def find_driver driver_defs Let_def
      split: if_splits)

lemma cycle_rejected: "edge_reading g = None \<Longrightarrow> \<not> er_valid (fst (edge_node_read_and_send g)) \<and> \<not> er_frame_sent (fst (edge_node_read_and_send g))"
  by (cases "nc_active_driver (ec_config (en_config g))")
    (auto simp: edge_node_read_and_send_def edge_reading_def edge_config_get_def edge_auth_is_authenticated_def find_driver driver_defs Let_def
      edge_result_zero_def split: if_splits)

lemma edge_frame_fields:
  "rs_dest_addr (edge_frame cfg v) = nc_gw_dest_addr cfg" "rs_src_addr (edge_frame cfg v) = nc_node_id cfg"
  "rs_payload_len (edge_frame cfg v) = 6" "length (rs_payload (edge_frame cfg v)) = RS485_MAX_FRAME_PAYLOAD"
  "take 6 (rs_payload (edge_frame cfg v)) = [nc_node_id cfg, nc_metric_id cfg] @ le_bytes32 v"
  by (simp_all add: edge_frame_def rs485_create_frame_def Let_def RS485_MAX_FRAME_PAYLOAD_def)

lemma edge_encodes: "\<exists>w. rs485_encode (Some (edge_frame cfg v)) (RS485_MAX_FRAME_PAYLOAD + 8) = Some w"
  by (simp add: rs485_encode_def edge_frame_fields Let_def rs485_consts)

lemma edge_wire_parses:
  assumes "rs485_encode (Some (edge_frame cfg v)) n = Some w"
  shows "rs485_parse (Some w) out = (RS485_OK, out\<lparr>rs_dest_addr := nc_gw_dest_addr cfg, rs_src_addr := nc_node_id cfg,
     rs_payload_len := 6, rs_payload := [nc_node_id cfg, nc_metric_id cfg] @ le_bytes32 v @ drop 6 (rs_payload out)\<rparr>)"
  using parse_encode[OF assms edge_frame_fields(4), of "[]" out] by (simp add: edge_frame_fields)

section \<open>Properties\<close>

text \<open>
  C14.  One cycle of the node: when the node is not attested (and not in test mode), not configured, its driver is
  unknown, reports a fault or a value outside its range, nothing is sent and the line is not touched.  Otherwise
  the callback gets a frame that the gateway's parser accepts and that carries the node's address, the metric and
  the scaled value, and the result reports exactly what the callback answered.
\<close>

theorem edge_cycle:
  "case edge_reading g of
     None \<Rightarrow> \<not> er_valid (fst (edge_node_read_and_send g)) \<and> \<not> er_frame_sent (fst (edge_node_read_and_send g))
             \<and> en_line (snd (edge_node_read_and_send g)) = en_line g
   | Some (cfg, v) \<Rightarrow> er_valid (fst (edge_node_read_and_send g)) \<and> er_value (fst (edge_node_read_and_send g)) = v
       \<and> (\<exists>wire. (\<forall>out. rs485_parse (Some wire) out = (RS485_OK, out\<lparr>rs_dest_addr := nc_gw_dest_addr cfg, rs_src_addr := nc_node_id cfg,
              rs_payload_len := 6, rs_payload := [nc_node_id cfg, nc_metric_id cfg] @ le_bytes32 v @ drop 6 (rs_payload out)\<rparr>))
          \<and> (er_frame_sent (fst (edge_node_read_and_send g)), en_line (snd (edge_node_read_and_send g))) =
              (case en_send_fn g of None \<Rightarrow> (False, en_line g) | Some send \<Rightarrow> send wire (en_line g)))"
proof (cases "edge_reading g")
  case None
  then show ?thesis using cycle_rejected[OF None] arg_cong[OF cycle_eq[of g], of snd] by (simp add: Let_def count_invalid_def)
next
  case (Some p)
  obtain cfg v where p: "p = (cfg, v)" by (cases p)
  obtain w where w: "rs485_encode (Some (edge_frame cfg v)) (RS485_MAX_FRAME_PAYLOAD + 8) = Some w" using edge_encodes by blast
  show ?thesis
    unfolding Some p option.case prod.case cycle_eq[of g, unfolded Some p option.case prod.case] Let_def
    using edge_wire_parses[OF w] w
    by (intro conjI exI[of _ w] allI)
      (auto simp: edge_send_def Let_def edge_result_zero_def split: option.splits prod.splits)
qed

definition edge_demo :: "(EdgeNodeConfig_t option, bytes list) edge_node" where
  "edge_demo = \<lparr>en_send_fn = Some (\<lambda>w l. (True, l @ [w])), en_auth_ctx = True, en_auth_disabled_test_only = False,
     en_stats = edge_stats_zero,
     en_config = \<lparr>ec_config = \<lparr>nc_node_id = 5, nc_active_driver = SENSOR_I2C, nc_metric_id = 1,
         nc_driver_config = \<lparr>sc_pin_or_addr = 0, sc_scale_factor = 0x3F800000, sc_offset = 0, sc_sample_count = 1\<rparr>,
         nc_gw_dest_addr = 2, nc_valid = True\<rparr>,
       ec_storage = Some \<lparr>es_save = Some (\<lambda>c st. (True, Some c)), es_load = Some (\<lambda>st. st)\<rparr>,
       ec_initialised = True, ec_backend = None\<rparr>,
     en_auth = \<lparr>ea_node_id = 5, ea_pre_shared_key = replicate 32 5, ea_key_set = True, ea_state = EDGE_AUTH_IDLE\<rparr>,
     en_hw = sensor_hw_initial, en_line = []\<rparr>"

text \<open>Everything that can happen to a node between two cycles.\<close>

inductive edge_step :: "('st, 'l) edge_node \<Rightarrow> ('st, 'l) edge_node \<Rightarrow> bool" where
  cycle: "edge_step g (snd (edge_node_read_and_send g))"
| reinit: "edge_step g (edge_node_init send auth g)"
| reset: "edge_step g (edge_node_reset_stats g)"
| respond: "edge_auth_respond md (Some (en_auth g)) ch want = (res, rsp, Some a) \<Longrightarrow> edge_step g (g\<lparr>en_auth := a\<rparr>)"
| configure: "edge_step g (g\<lparr>en_config := snd (edge_config_set c (en_config g))\<rparr>)"
| hardware: "edge_step g (g\<lparr>en_hw := hw\<rparr>)"

definition stats_balanced :: "('st, 'l) edge_node \<Rightarrow> bool" where
  "stats_balanced g \<longleftrightarrow> st_reads_total (en_stats g) = st_reads_valid (en_stats g) + st_reads_invalid (en_stats g)
     \<and> st_reads_valid (en_stats g) = st_frames_sent (en_stats g) + st_frames_failed (en_stats g)"

lemma balanced_cycle: "stats_balanced g \<Longrightarrow> stats_balanced (snd (edge_node_read_and_send g))"
  by (subst cycle_eq)
    (auto simp: stats_balanced_def count_invalid_def edge_send_def Let_def split: option.splits prod.splits)

lemma balanced_same: "en_stats g' = en_stats g \<Longrightarrow> stats_balanced g \<Longrightarrow> stats_balanced g'"
  and balanced_zero: "en_stats g = edge_stats_zero \<Longrightarrow> stats_balanced g"
  by (simp_all add: stats_balanced_def edge_stats_zero_def)

interpretation edge_run: invariant_system "\<lambda>g. en_stats g = edge_stats_zero" edge_step stats_balanced
proof
  fix g g' :: "('a, 'b) edge_node"
  show "en_stats g = edge_stats_zero \<Longrightarrow> stats_balanced g" by (rule balanced_zero)
  show "edge_step g g' \<Longrightarrow> stats_balanced g \<Longrightarrow> stats_balanced g'"
    by (cases rule: edge_step.cases)
      (auto simp: edge_node_init_def edge_node_reset_stats_def intro: balanced_cycle balanced_zero balanced_same[of _ g])
qed

text \<open>
  The statistics balance: from any state with cleared counters, after any interleaving of cycles,
  re-initialisations, resets, attestations, reconfigurations and changes of the hardware, the reads are the valid plus
  the invalid ones and the valid ones are the frames sent plus the frames failed, modulo the counter width.
\<close>

theorem edge_stats_balance:
  assumes "en_stats g = edge_stats_zero" and "edge_step\<^sup>*\<^sup>* g g'"
  shows "st_reads_total (en_stats g') = st_reads_valid (en_stats g') + st_reads_invalid (en_stats g') \<and>
    st_reads_valid (en_stats g') = st_frames_sent (en_stats g') + st_frames_failed (en_stats g')"
  using edge_run.reachable_inv[OF assms] by (simp add: stats_balanced_def)

theorem edge_stats_balance_witness:
  "st_reads_total (en_stats (snd (edge_node_read_and_send edge_demo))) =
     st_reads_valid (en_stats (snd (edge_node_read_and_send edge_demo))) + st_reads_invalid (en_stats (snd (edge_node_read_and_send edge_demo)))"
proof -
  have "edge_step\<^sup>*\<^sup>* edge_demo (snd (edge_node_read_and_send edge_demo))" by (rule r_into_rtranclp) (rule edge_step.cycle)
  from edge_stats_balance[OF _ this] show ?thesis by (simp add: edge_demo_def)
qed

text \<open>
  A node and the hub agree: when the hub holds the node's key as active, the response that the node computes to
  any challenge is accepted, whatever drift is allowed, and it leaves the node authenticated, so that the next cycle is not
  refused for lack of attestation.
\<close>

theorem edge_attests_to_hub:
  assumes "md_hmac_ok md" and "attestation_ok h" and "ea_key_set a"
    and "attestation_get h (ea_node_id a) = Some \<lparr>ak_node_id = ea_node_id a, ak_key = ea_pre_shared_key a, ak_active = True\<rparr>"
  shows "\<exists>rsp a'. edge_auth_respond md (Some a) (Some c) True = (EDGE_ATTEST_OK, Some rsp, Some a')
    \<and> attestation_verify md h (Some c) (Some rsp) drift = ATTEST_OK \<and> edge_auth_is_authenticated (Some a')"
proof -
  have "attestation_compute_response md (ea_pre_shared_key a) c = attestation_compute_response md (ea_pre_shared_key a) c" by simp
  then show ?thesis using assms
    by (simp add: edge_auth_respond_def attestation_verify_def attestation_find_active attestation_ok_def Let_def ct_diff_eq_0_iff
        edge_auth_is_authenticated_def)
qed

theorem edge_attests_to_hub_witness:
  "\<exists>rsp a'. edge_auth_respond demo_md (Some (en_auth edge_demo)) (Some demo_challenge) True = (EDGE_ATTEST_OK, Some rsp, Some a')
    \<and> attestation_verify demo_md \<lparr>at_key_table = [demo_key 5 True], at_g_initialised = True\<rparr> (Some demo_challenge) (Some rsp) 0 = ATTEST_OK"
proof -
  let ?h = "\<lparr>at_key_table = [demo_key 5 True], at_g_initialised = True\<rparr>"
  have "attestation_ok ?h" "ea_key_set (en_auth edge_demo)"
    "attestation_get ?h (ea_node_id (en_auth edge_demo)) =
      Some \<lparr>ak_node_id = ea_node_id (en_auth edge_demo), ak_key = ea_pre_shared_key (en_auth edge_demo), ak_active = True\<rparr>"
    by (simp_all add: attestation_ok_def ATTESTATION_MAX_KEYS_def attestation_get_def demo_key_def edge_demo_def)
  from edge_attests_to_hub[OF demo_md_ok this, of demo_challenge 0] show ?thesis by blast
qed

text \<open>
  A stored configuration survives a restart: when \<open>edge_config_set\<close> reports success over a storage that gives
  back what was saved last, initialising the module again from that storage makes the same configuration current.
\<close>

theorem edge_config_survives_restart:
  assumes "ec_storage g = Some s" and "es_save s = Some save" and "es_load s = Some load"
    and "\<And>c st. fst (save c st) \<Longrightarrow> load (snd (save c st)) = Some c"
    and "edge_config_set (Some c) g = (EDGE_CONFIG_OK, g')"
  shows "edge_config_get (snd (edge_config_init (Some s) g')) = Some (c\<lparr>nc_valid := True\<rparr>)"
proof -
  obtain st where "save (c\<lparr>nc_valid := True\<rparr>) (ec_backend g) = (True, st)" "ec_backend g' = st"
    using assms(1,2,5) by (auto simp: edge_config_set_def Let_def split: if_splits prod.splits)
  then have "load (ec_backend g') = Some (c\<lparr>nc_valid := True\<rparr>)" using assms(4)[of "c\<lparr>nc_valid := True\<rparr>" "ec_backend g"] by simp
  then show ?thesis using assms(3) by (simp add: edge_config_init_def edge_config_get_def)
qed

theorem edge_config_survives_restart_witness:
  "edge_config_get (snd (edge_config_init (ec_storage (en_config edge_demo))
     (snd (edge_config_set (Some (ec_config (en_config edge_demo))) (en_config edge_demo))))) = Some (ec_config (en_config edge_demo))"
proof -
  let ?g = "en_config edge_demo"
  have r: "edge_config_set (Some (ec_config ?g)) ?g = (EDGE_CONFIG_OK, ?g\<lparr>ec_backend := Some (ec_config ?g)\<rparr>)"
    by (simp add: edge_config_set_def edge_demo_def find_driver Let_def)
  have "edge_config_get (snd (edge_config_init (Some \<lparr>es_save = Some (\<lambda>c st. (True, Some c)), es_load = Some (\<lambda>st. st)\<rparr>)
      (?g\<lparr>ec_backend := Some (ec_config ?g)\<rparr>))) = Some ((ec_config ?g)\<lparr>nc_valid := True\<rparr>)"
    by (rule edge_config_survives_restart[where save = "\<lambda>c st. (True, Some c)" and load = "\<lambda>st. st", OF _ _ _ _ r]) (simp_all add: edge_demo_def)
  then show ?thesis unfolding r by (simp add: edge_demo_def)
qed

end
