(* ===== verification/Edge_Power.thy ===== *)
theory Edge_Power
  imports Iot_Prelude
begin

text \<open>
  Battery-aware power states of an edge node (\<open>edge/power_state.c\<close>): thresholds, the evaluation of a battery
  reading, and the queries that switch sensors, radio, cloud and safety functions.  The states are ordered from
  \<open>ACTIVE\<close> to \<open>SHUTDOWN\<close>, and one evaluation takes the maximum of the current state and the class of the
  reading.
\<close>

section \<open>Data\<close>

definition POWER_LOW_BATTERY_MV :: u32 where "POWER_LOW_BATTERY_MV = 3200"
definition POWER_CRITICAL_BATTERY_MV :: u32 where "POWER_CRITICAL_BATTERY_MV = 2800"
definition POWER_EMERGENCY_BATTERY_MV :: u32 where "POWER_EMERGENCY_BATTERY_MV = 2500"
definition POWER_SHUTDOWN_BATTERY_MV :: u32 where "POWER_SHUTDOWN_BATTERY_MV = 2300"

lemmas power_consts = POWER_LOW_BATTERY_MV_def POWER_CRITICAL_BATTERY_MV_def POWER_EMERGENCY_BATTERY_MV_def
  POWER_SHUTDOWN_BATTERY_MV_def

datatype EdgePowerState_t =
  POWER_STATE_ACTIVE | POWER_STATE_IDLE | POWER_STATE_SLEEP | POWER_STATE_EMERGENCY | POWER_STATE_SHUTDOWN

datatype PowerTransitionResult_t =
  POWER_TRANSITION_OK | POWER_TRANSITION_ERR_PARAM_NULL | POWER_TRANSITION_ERR_INVALID

record PowerStateConfig_t =
  pc_low_battery_mv :: u32
  pc_critical_battery_mv :: u32
  pc_emergency_battery_mv :: u32
  pc_shutdown_battery_mv :: u32

record PowerStateContext_t =
  px_current :: EdgePowerState_t
  px_config :: PowerStateConfig_t
  px_battery_mv :: u32
  px_wake_on_radio :: bool
  px_wake_on_timer :: bool
  px_initialized :: bool

text \<open>The enumeration's numbers give the order of the states.\<close>

fun state_code :: "EdgePowerState_t \<Rightarrow> nat" where
  "state_code POWER_STATE_ACTIVE = 0"
| "state_code POWER_STATE_IDLE = 1"
| "state_code POWER_STATE_SLEEP = 2"
| "state_code POWER_STATE_EMERGENCY = 3"
| "state_code POWER_STATE_SHUTDOWN = 4"

lemma state_code_inj: "state_code s = state_code t \<longleftrightarrow> s = t"
  by (cases s; cases t) simp_all

instantiation EdgePowerState_t :: linorder
begin

definition less_eq_EdgePowerState_t :: "EdgePowerState_t \<Rightarrow> EdgePowerState_t \<Rightarrow> bool" where
  "less_eq_EdgePowerState_t s t \<longleftrightarrow> state_code s \<le> state_code t"

definition less_EdgePowerState_t :: "EdgePowerState_t \<Rightarrow> EdgePowerState_t \<Rightarrow> bool" where
  "less_EdgePowerState_t s t \<longleftrightarrow> state_code s < state_code t"

instance
  by standard (auto simp: less_eq_EdgePowerState_t_def less_EdgePowerState_t_def state_code_inj)

end

section \<open>Operations\<close>

definition power_state_init_custom ::
  "PowerStateContext_t option \<Rightarrow> PowerStateConfig_t option \<Rightarrow> PowerTransitionResult_t \<times> PowerStateContext_t option"
where
  "power_state_init_custom ctx config =
    (case (ctx, config) of
       (Some _, Some c) \<Rightarrow> (POWER_TRANSITION_OK,
          Some \<lparr>px_current = POWER_STATE_ACTIVE, px_config = c, px_battery_mv = 0, px_wake_on_radio = False,
            px_wake_on_timer = False, px_initialized = True\<rparr>)
     | _ \<Rightarrow> (POWER_TRANSITION_ERR_PARAM_NULL, ctx))"

definition power_defaults :: PowerStateConfig_t where
  "power_defaults = \<lparr>pc_low_battery_mv = POWER_LOW_BATTERY_MV, pc_critical_battery_mv = POWER_CRITICAL_BATTERY_MV,
     pc_emergency_battery_mv = POWER_EMERGENCY_BATTERY_MV, pc_shutdown_battery_mv = POWER_SHUTDOWN_BATTERY_MV\<rparr>"

definition power_state_init :: "PowerStateContext_t option \<Rightarrow> PowerTransitionResult_t \<times> PowerStateContext_t option" where
  "power_state_init ctx = power_state_init_custom ctx (Some power_defaults)"

definition power_state_evaluate :: "PowerStateContext_t option \<Rightarrow> u32 \<Rightarrow> EdgePowerState_t \<times> PowerStateContext_t option" where
  "power_state_evaluate ctx battery_mv =
    (case ctx of
       None \<Rightarrow> (POWER_STATE_SHUTDOWN, None)
     | Some x \<Rightarrow>
         if \<not> px_initialized x then (POWER_STATE_SHUTDOWN, Some x)
         else
           let cur = px_current x; cfg = px_config x;
               new =
                (if battery_mv \<le> pc_shutdown_battery_mv cfg then POWER_STATE_SHUTDOWN
                 else if battery_mv \<le> pc_emergency_battery_mv cfg
                   then (if cur \<noteq> POWER_STATE_SHUTDOWN then POWER_STATE_EMERGENCY else cur)
                 else if battery_mv \<le> pc_critical_battery_mv cfg
                   then (if cur = POWER_STATE_ACTIVE \<or> cur = POWER_STATE_IDLE then POWER_STATE_SLEEP else cur)
                 else if battery_mv \<le> pc_low_battery_mv cfg
                   then (if cur = POWER_STATE_ACTIVE then POWER_STATE_IDLE else cur)
                 else cur)
           in (new, Some (x\<lparr>px_battery_mv := battery_mv, px_current := new\<rparr>)))"

definition power_state_get_current :: "PowerStateContext_t option \<Rightarrow> EdgePowerState_t" where
  "power_state_get_current ctx =
    (case ctx of None \<Rightarrow> POWER_STATE_SHUTDOWN
     | Some x \<Rightarrow> if \<not> px_initialized x then POWER_STATE_SHUTDOWN else px_current x)"

definition power_state_sensors_active :: "PowerStateContext_t option \<Rightarrow> bool" where
  "power_state_sensors_active ctx =
    (case ctx of None \<Rightarrow> False | Some x \<Rightarrow> px_initialized x \<and> px_current x = POWER_STATE_ACTIVE)"

definition power_state_radio_active :: "PowerStateContext_t option \<Rightarrow> bool" where
  "power_state_radio_active ctx =
    (case ctx of None \<Rightarrow> False | Some x \<Rightarrow> px_initialized x \<and> px_current x = POWER_STATE_ACTIVE)"

definition power_state_cloud_active :: "PowerStateContext_t option \<Rightarrow> bool" where
  "power_state_cloud_active ctx =
    (case ctx of None \<Rightarrow> False
     | Some x \<Rightarrow> px_initialized x \<and> (px_current x = POWER_STATE_ACTIVE \<or> px_current x = POWER_STATE_IDLE))"

definition power_state_safety_active :: "PowerStateContext_t option \<Rightarrow> bool" where
  "power_state_safety_active ctx =
    (case ctx of None \<Rightarrow> False | Some x \<Rightarrow> px_initialized x \<and> px_current x \<noteq> POWER_STATE_SHUTDOWN)"

definition power_state_should_shutdown :: "PowerStateContext_t option \<Rightarrow> bool" where
  "power_state_should_shutdown ctx =
    (case ctx of None \<Rightarrow> True | Some x \<Rightarrow> \<not> px_initialized x \<or> px_current x = POWER_STATE_SHUTDOWN)"

section \<open>Runs\<close>

text \<open>The state that a single reading asks for, and the context after a sequence of readings.\<close>

definition battery_class :: "PowerStateConfig_t \<Rightarrow> u32 \<Rightarrow> EdgePowerState_t" where
  "battery_class c b =
    (if b \<le> pc_shutdown_battery_mv c then POWER_STATE_SHUTDOWN
     else if b \<le> pc_emergency_battery_mv c then POWER_STATE_EMERGENCY
     else if b \<le> pc_critical_battery_mv c then POWER_STATE_SLEEP
     else if b \<le> pc_low_battery_mv c then POWER_STATE_IDLE
     else POWER_STATE_ACTIVE)"

definition power_run :: "PowerStateContext_t option \<Rightarrow> u32 list \<Rightarrow> PowerStateContext_t option" where
  "power_run = foldl (\<lambda>ctx b. snd (power_state_evaluate ctx b))"

lemma evaluate_max:
  assumes "px_initialized x"
  shows "power_state_evaluate (Some x) b =
    (let s = max (px_current x) (battery_class (px_config x) b) in (s, Some (x\<lparr>px_battery_mv := b, px_current := s\<rparr>)))"
  using assms
  by (cases "px_current x")
    (auto simp: power_state_evaluate_def battery_class_def Let_def max_def less_eq_EdgePowerState_t_def)

lemma run_max:
  "px_initialized x \<Longrightarrow> \<exists>b. power_run (Some x) bs =
     Some (x\<lparr>px_battery_mv := b, px_current := foldl max (px_current x) (map (battery_class (px_config x)) bs)\<rparr>)"
proof (induction bs arbitrary: x)
  case Nil
  then show ?case by (intro exI[of _ "px_battery_mv x"]) (simp add: power_run_def)
next
  case (Cons b bs)
  let ?s = "max (px_current x) (battery_class (px_config x) b)"
  from Cons.IH[of "x\<lparr>px_battery_mv := b, px_current := ?s\<rparr>"] Cons.prems show ?case
    by (auto simp: power_run_def evaluate_max Let_def)
qed

lemma foldl_max_Max: "foldl max (a :: 'a :: linorder) xs = Max (insert a (set xs))"
proof (induction xs arbitrary: a)
  case (Cons y ys)
  have "max (max a y) m = max a (max y m)" for m by (simp add: max.assoc)
  with Cons show ?case by (cases "ys = []") (simp_all add: insert_commute)
qed simp

section \<open>Properties\<close>

text \<open>
  After initialisation with any thresholds and any sequence of battery readings, in any order, the power state
  is the worst state that any single reading asked for: the order of the readings does not matter, and a node never
  returns to a better state, whatever the battery reads later.
\<close>

theorem power_state_is_worst:
  "power_state_get_current (power_run (snd (power_state_init_custom (Some x) (Some c))) bs) =
     Max (insert POWER_STATE_ACTIVE (battery_class c ` set bs))"
proof -
  let ?x = "\<lparr>px_current = POWER_STATE_ACTIVE, px_config = c, px_battery_mv = 0, px_wake_on_radio = False,
            px_wake_on_timer = False, px_initialized = True\<rparr>"
  obtain b where "power_run (Some ?x) bs =
      Some (?x\<lparr>px_battery_mv := b, px_current := foldl max (px_current ?x) (map (battery_class (px_config ?x)) bs)\<rparr>)"
    using run_max[of ?x bs] by auto
  then show ?thesis
    by (simp add: power_state_init_custom_def power_state_get_current_def foldl_max_Max)
qed

lemma class_levels:
  "battery_class power_defaults b = POWER_STATE_ACTIVE \<longleftrightarrow> 3200 < b"
  "battery_class power_defaults b = POWER_STATE_SHUTDOWN \<longleftrightarrow> b \<le> 2300"
  by (auto simp: battery_class_def power_defaults_def power_consts word_less_nat_alt word_le_nat_alt)

text \<open>
  With the default thresholds sensors and radio stay on exactly as long as every reading was above 3200 mV, and
  the node shuts down exactly when some reading was at most 2300 mV.
\<close>

theorem power_default_gates:
  fixes bs x
  defines "ctx \<equiv> power_run (snd (power_state_init (Some x))) bs"
  shows "power_state_radio_active ctx \<longleftrightarrow> (\<forall>b \<in> set bs. 3200 < b)"
    and "power_state_should_shutdown ctx \<longleftrightarrow> (\<exists>b \<in> set bs. b \<le> 2300)"
proof -
  let ?x = "\<lparr>px_current = POWER_STATE_ACTIVE, px_config = power_defaults, px_battery_mv = 0, px_wake_on_radio = False,
            px_wake_on_timer = False, px_initialized = True\<rparr>"
  obtain b where "power_run (Some ?x) bs =
      Some (?x\<lparr>px_battery_mv := b, px_current := foldl max (px_current ?x) (map (battery_class (px_config ?x)) bs)\<rparr>)"
    using run_max[of ?x bs] by auto
  then have c: "ctx = Some (?x\<lparr>px_battery_mv := b, px_current := Max (insert POWER_STATE_ACTIVE (battery_class power_defaults ` set bs))\<rparr>)"
    by (simp add: ctx_def power_state_init_def power_state_init_custom_def foldl_max_Max)
  have least: "POWER_STATE_ACTIVE \<le> s" and greatest: "s \<le> POWER_STATE_SHUTDOWN" for s
    by (cases s; simp add: less_eq_EdgePowerState_t_def)+
  let ?S = "insert POWER_STATE_ACTIVE (battery_class power_defaults ` set bs)"
  have "Max ?S = POWER_STATE_ACTIVE \<longleftrightarrow> (\<forall>s \<in> ?S. s \<le> POWER_STATE_ACTIVE)"
    using least by (metis Max_ge Max_in antisym finite_imageI finite_insert insertI1 insert_not_empty List.finite_set)
  also have "\<dots> \<longleftrightarrow> (\<forall>b \<in> set bs. 3200 < b)" using least class_levels(1) by (auto simp: antisym_conv)
  finally show "power_state_radio_active ctx \<longleftrightarrow> (\<forall>b \<in> set bs. 3200 < b)" by (simp add: c power_state_radio_active_def)
  have "Max ?S = POWER_STATE_SHUTDOWN \<longleftrightarrow> POWER_STATE_SHUTDOWN \<in> ?S"
    using greatest by (metis Max_ge Max_in antisym finite_imageI finite_insert insert_not_empty List.finite_set)
  also have "\<dots> \<longleftrightarrow> (\<exists>b \<in> set bs. b \<le> 2300)" using class_levels(2) by (auto simp: image_iff) (metis class_levels(2))+
  finally show "power_state_should_shutdown ctx \<longleftrightarrow> (\<exists>b \<in> set bs. b \<le> 2300)" by (simp add: c power_state_should_shutdown_def)
qed

end
