(* ===== verification/Lora.thy ===== *)
theory Lora
  imports Audit_Log
begin

text \<open>
  The LoRa link between gateway and hub (\<open>firmware/shared/lora_handler.{h,c}\<close>): CRC-16/CCITT, packet building and
  parsing, the loopback radio the file provides in place of a transceiver, joining by module attestation, sending
  with acknowledgement and retry, and receiving.  The \<open>static\<close> variables are the record \<open>lora\<close>; \<open>lora_join\<close>
  also acts on the attestation keys, the clock and the audit log.  A received packet is the list of its \<open>in_len\<close>
  bytes.
\<close>

section \<open>Data\<close>

definition LORA_MAX_PAYLOAD :: nat where "LORA_MAX_PAYLOAD = 255"
definition LORA_PACKET_OVERHEAD :: nat where "LORA_PACKET_OVERHEAD = 10"
definition LORA_MAX_RETRIES :: nat where "LORA_MAX_RETRIES = 3"
definition LORA_ACK_TIMEOUT_MS :: u32 where "LORA_ACK_TIMEOUT_MS = 5000"

record LoRaConfig_t =
  lc_spreading_factor :: u8
  lc_bandwidth :: u8
  lc_coding_rate :: u8
  lc_tx_power_dbm :: u8
  lc_frequency_mhz :: u16
  lc_crc_enabled :: bool

datatype LoRaMsgType_t = LORA_MSG_DATA | LORA_MSG_ACK | LORA_MSG_NACK

primrec lora_msg_code :: "LoRaMsgType_t \<Rightarrow> u8" where
  "lora_msg_code LORA_MSG_DATA = 1"
| "lora_msg_code LORA_MSG_ACK = 2"
| "lora_msg_code LORA_MSG_NACK = 3"

record LoRaPacketHeader_t =
  lh_dest_addr :: u16
  lh_src_addr :: u16
  lh_seq_num :: u8
  lh_msg_type :: u8
  lh_payload_len :: u8
  lh_flags :: u8

text \<open>The payload is the whole array of 255 bytes.\<close>

record LoRaFrame_t =
  lf_src_addr :: u16
  lf_dest_addr :: u16
  lf_rssi :: u16
  lf_snr :: u32
  lf_seq_num :: u8
  lf_payload_len :: u8
  lf_payload :: bytes

datatype LoRaResult_t =
  LORA_OK | LORA_ERR_NOT_INIT | LORA_ERR_SEND_FAILED | LORA_ERR_NO_DATA | LORA_ERR_PARAM_NULL | LORA_ERR_BUSY
| LORA_ERR_CRC_FAIL | LORA_ERR_ACK_TIMEOUT | LORA_ERR_NO_SPACE | LORA_ERR_NOT_JOINED | LORA_ERR_JOIN_FAILED

record LoRaStats_t =
  ls_tx_packets :: u32
  ls_tx_retries :: u32
  ls_tx_acks_received :: u32
  ls_tx_ack_timeouts :: u32
  ls_rx_packets :: u32
  ls_rx_crc_errors :: u32
  ls_join_attempts :: u32
  ls_join_failures :: u32

datatype LoRaInternalState_t =
  LORA_STATE_UNINIT | LORA_STATE_JOINING | LORA_STATE_JOINED | LORA_STATE_TX_BUSY | LORA_STATE_WAIT_ACK

record lora =
  lo_state :: LoRaInternalState_t
  lo_config :: LoRaConfig_t
  lo_initialised :: bool
  lo_tx_seq :: u8
  lo_rx_expected_seq :: u8
  lo_rx_buffer :: LoRaFrame_t
  lo_rx_pending :: bool
  lo_last_rssi :: u16
  lo_stats :: LoRaStats_t
  lo_mock_ack_fail_count :: u8
  lo_mock_module_stored_key :: bytes
  lo_mock_module_key_set :: bool

definition lora_frame_zero :: LoRaFrame_t where
  "lora_frame_zero = \<lparr>lf_src_addr = 0, lf_dest_addr = 0, lf_rssi = 0, lf_snr = 0, lf_seq_num = 0, lf_payload_len = 0,
     lf_payload = replicate LORA_MAX_PAYLOAD 0\<rparr>"

definition lora_header_zero :: LoRaPacketHeader_t where
  "lora_header_zero = \<lparr>lh_dest_addr = 0, lh_src_addr = 0, lh_seq_num = 0, lh_msg_type = 0, lh_payload_len = 0, lh_flags = 0\<rparr>"

definition lora_stats_zero :: LoRaStats_t where
  "lora_stats_zero = \<lparr>ls_tx_packets = 0, ls_tx_retries = 0, ls_tx_acks_received = 0, ls_tx_ack_timeouts = 0,
     ls_rx_packets = 0, ls_rx_crc_errors = 0, ls_join_attempts = 0, ls_join_failures = 0\<rparr>"

definition lora_config_zero :: LoRaConfig_t where
  "lora_config_zero = \<lparr>lc_spreading_factor = 0, lc_bandwidth = 0, lc_coding_rate = 0, lc_tx_power_dbm = 0,
     lc_frequency_mhz = 0, lc_crc_enabled = False\<rparr>"

text \<open>The statics as the program is loaded.\<close>

definition lora_boot :: lora where
  "lora_boot = \<lparr>lo_state = LORA_STATE_UNINIT, lo_config = lora_config_zero, lo_initialised = False, lo_tx_seq = 0,
     lo_rx_expected_seq = 0, lo_rx_buffer = lora_frame_zero, lo_rx_pending = False, lo_last_rssi = 0,
     lo_stats = lora_stats_zero, lo_mock_ack_fail_count = 0, lo_mock_module_stored_key = replicate 32 0,
     lo_mock_module_key_set = False\<rparr>"

definition lora_upd_stats :: "(LoRaStats_t \<Rightarrow> LoRaStats_t) \<Rightarrow> lora \<Rightarrow> lora" where
  "lora_upd_stats f s = s\<lparr>lo_stats := f (lo_stats s)\<rparr>"

section \<open>Packets\<close>

definition ccitt_shift :: "u16 \<Rightarrow> u16" where
  "ccitt_shift crc = (if crc AND 0x8000 \<noteq> 0 then push_bit 1 crc XOR 0x1021 else push_bit 1 crc)"

definition ccitt_byte :: "u16 \<Rightarrow> u8 \<Rightarrow> u16" where
  "ccitt_byte crc b = (ccitt_shift ^^ 8) (crc XOR push_bit 8 (ucast b))"

definition lora_crc16 :: "bytes \<Rightarrow> u16" where
  "lora_crc16 data = foldl ccitt_byte 0xFFFF data"

definition lora_build_packet ::
  "u16 \<Rightarrow> u16 \<Rightarrow> u8 \<Rightarrow> LoRaMsgType_t \<Rightarrow> bytes option \<Rightarrow> u8 \<Rightarrow> bytes"
where
  "lora_build_packet dest_addr src_addr seq_num msg_type payload payload_len =
    (let hdr = le_bytes16 dest_addr @ le_bytes16 src_addr @ [seq_num, lora_msg_code msg_type, payload_len, 0];
         body = (case payload of
                   Some p \<Rightarrow> if payload_len > 0 then hdr @ take (unat payload_len) p else hdr
                 | None \<Rightarrow> hdr)
     in body @ le_bytes16 (lora_crc16 body))"

definition lora_parse_packet ::
  "lora \<Rightarrow> bytes option \<Rightarrow> LoRaFrame_t \<Rightarrow> LoRaPacketHeader_t \<Rightarrow>
   LoRaResult_t \<times> LoRaFrame_t \<times> LoRaPacketHeader_t \<times> lora"
where
  "lora_parse_packet s packet out hdr =
    (case packet of
       None \<Rightarrow> (LORA_ERR_PARAM_NULL, out, hdr, s)
     | Some inp \<Rightarrow>
         let in_len = length inp
         in if in_len < LORA_PACKET_OVERHEAD then (LORA_ERR_CRC_FAIL, out, hdr, s)
            else
              let received_crc = le_word16 (inp ! (in_len - 2)) (inp ! (in_len - 1));
                  computed_crc = lora_crc16 (take (in_len - 2) inp)
              in if received_crc \<noteq> computed_crc
                 then (LORA_ERR_CRC_FAIL, out, hdr,
                       lora_upd_stats (\<lambda>st. st\<lparr>ls_rx_crc_errors := ls_rx_crc_errors st + 1\<rparr>) s)
                 else
                   let hdr = \<lparr>lh_dest_addr = le_word16 (inp ! 0) (inp ! 1), lh_src_addr = le_word16 (inp ! 2) (inp ! 3),
                              lh_seq_num = inp ! 4, lh_msg_type = inp ! 5, lh_payload_len = inp ! 6, lh_flags = inp ! 7\<rparr>;
                       n = unat (lh_payload_len hdr)
                   in if in_len \<noteq> LORA_PACKET_OVERHEAD + n then (LORA_ERR_CRC_FAIL, out, hdr, s)
                      else (LORA_OK, out\<lparr>lf_src_addr := lh_src_addr hdr, lf_dest_addr := lh_dest_addr hdr,
                              lf_seq_num := lh_seq_num hdr, lf_payload_len := lh_payload_len hdr,
                              lf_payload := take n (drop 8 inp) @ drop n (lf_payload out)\<rparr>, hdr, s))"

section \<open>The loopback radio\<close>

definition mock_radio_send :: "lora \<Rightarrow> bytes \<Rightarrow> bool \<times> lora" where
  "mock_radio_send s packet =
    (if packet = [] then (False, s)
     else (case lora_parse_packet s (Some packet) lora_frame_zero lora_header_zero of
         (r, rx, hdr, s) \<Rightarrow>
           if r = LORA_OK then
             let rx = rx\<lparr>lf_src_addr := lf_dest_addr rx, lf_dest_addr := lf_src_addr rx\<rparr>
             in if lh_msg_type hdr = lora_msg_code LORA_MSG_ACK \<or> lh_msg_type hdr = lora_msg_code LORA_MSG_NACK
                then (True, s)
                else (True, s\<lparr>lo_rx_buffer := rx, lo_rx_pending := True\<rparr>)
           else (True, s)))"

definition mock_radio_receive :: "lora \<Rightarrow> bytes option \<times> lora" where
  "mock_radio_receive s =
    (if \<not> lo_rx_pending s then (None, s)
     else let b = lo_rx_buffer s;
              pkt = lora_build_packet (lf_dest_addr b) (lf_src_addr b) (lf_seq_num b) LORA_MSG_DATA
                      (Some (lf_payload b)) (lf_payload_len b)
          in if pkt = [] then (None, s) else (Some pkt, s\<lparr>lo_rx_pending := False\<rparr>))"

definition mock_radio_wait_ack :: "lora \<Rightarrow> u8 \<Rightarrow> u32 \<Rightarrow> bool \<times> lora" where
  "mock_radio_wait_ack s expected_seq timeout_ms =
    (if lo_mock_ack_fail_count s > 0 then (False, s\<lparr>lo_mock_ack_fail_count := lo_mock_ack_fail_count s - 1\<rparr>)
     else (True, s))"

definition lora_mock_set_ack_fail_count :: "lora \<Rightarrow> u8 \<Rightarrow> lora" where
  "lora_mock_set_ack_fail_count s n = s\<lparr>lo_mock_ack_fail_count := n\<rparr>"

definition lora_mock_set_module_key :: "lora \<Rightarrow> bytes \<Rightarrow> lora" where
  "lora_mock_set_module_key s key = s\<lparr>lo_mock_module_stored_key := take 32 key, lo_mock_module_key_set := True\<rparr>"

section \<open>Operations\<close>

definition lora_default_config :: "string option \<Rightarrow> LoRaConfig_t" where
  "lora_default_config region =
    (if region = Some ''US915''
     then \<lparr>lc_spreading_factor = 10, lc_bandwidth = 0, lc_coding_rate = 1, lc_tx_power_dbm = 14,
           lc_frequency_mhz = 915, lc_crc_enabled = True\<rparr>
     else \<lparr>lc_spreading_factor = 10, lc_bandwidth = 0, lc_coding_rate = 1, lc_tx_power_dbm = 14,
           lc_frequency_mhz = 868, lc_crc_enabled = True\<rparr>)"

definition lora_init :: "lora \<Rightarrow> LoRaConfig_t option \<Rightarrow> bool \<times> lora" where
  "lora_init s config =
    (let c = (case config of Some c \<Rightarrow> c | None \<Rightarrow> lora_default_config (Some ''EU868''));
         c = (if lc_spreading_factor c < 7 \<or> lc_spreading_factor c > 12 then c\<lparr>lc_spreading_factor := 10\<rparr> else c);
         c = (if lc_tx_power_dbm c < 2 \<or> lc_tx_power_dbm c > 20 then c\<lparr>lc_tx_power_dbm := 14\<rparr> else c)
     in (True, s\<lparr>lo_config := c, lo_state := LORA_STATE_JOINING, lo_tx_seq := 0, lo_rx_expected_seq := 0,
           lo_rx_pending := False, lo_last_rssi := 0, lo_initialised := True, lo_stats := lora_stats_zero,
           lo_mock_ack_fail_count := 0, lo_mock_module_key_set := False\<rparr>))"

definition LORA_RADIO_ID :: u8 where "LORA_RADIO_ID = 0xF0"

definition lora_challenge :: "u64 \<Rightarrow> AttestationChallenge_t" where
  "lora_challenge now = \<lparr>ac_challenge = replicate ATTESTATION_CHALLENGE_SIZE 0x42, ac_timestamp_ms = now, ac_sender_id = 1\<rparr>"

definition msg_lora_join_failed :: bytes where
  "msg_lora_join_failed = cstr ''LoRa radio module attestation failed''"

type_synonym lora_env = "lora \<times> attestation \<times> audit_env"

definition lora_join :: "md_hmac \<Rightarrow> lora_env \<Rightarrow> bytes option \<Rightarrow> LoRaResult_t \<times> lora_env" where
  "lora_join md env module_key =
    (case env of (s, at, au, ts) \<Rightarrow>
      if \<not> lo_initialised s then (LORA_ERR_NOT_INIT, env)
      else (case module_key of
          None \<Rightarrow> (LORA_ERR_PARAM_NULL, env)
        | Some key \<Rightarrow>
            if length key < 32 then (LORA_ERR_PARAM_NULL, env)
            else if lo_state s = LORA_STATE_JOINED then (LORA_OK, env)
            else if lo_state s \<noteq> LORA_STATE_JOINING then (LORA_ERR_BUSY, env)
            else
              let s = lora_upd_stats (\<lambda>st. st\<lparr>ls_join_attempts := ls_join_attempts st + 1\<rparr>) s;
                  (_, at) = attestation_register_key at
                              (Some \<lparr>ak_node_id = LORA_RADIO_ID, ak_key = take 32 key, ak_active = True\<rparr>);
                  (t1, ts) = time_source_get_ms ts;
                  challenge = lora_challenge t1;
                  mac = attestation_compute_response md
                          (if lo_mock_module_key_set s then lo_mock_module_stored_key s else take 32 key) challenge;
                  (t2, ts) = time_source_get_ms ts;
                  response = \<lparr>ar_response = mac, ar_timestamp_ms = t2, ar_responder_id = LORA_RADIO_ID\<rparr>
              in if attestation_verify md at (Some challenge) (Some response) 5000 = ATTEST_OK
                 then (LORA_OK, s\<lparr>lo_state := LORA_STATE_JOINED\<rparr>, at, au, ts)
                 else (LORA_ERR_JOIN_FAILED, lora_upd_stats (\<lambda>st. st\<lparr>ls_join_failures := ls_join_failures st + 1\<rparr>) s,
                       at, audit_note md (au, ts) AUDIT_MODULE_ATTESTATION_FAIL 0 0 msg_lora_join_failed)))"

text \<open>\<open>send_loop n\<close> is the loop with \<open>n\<close> attempts left.  A packet is never empty, so building it never fails.\<close>

primrec send_loop :: "nat \<Rightarrow> lora \<Rightarrow> u16 \<Rightarrow> bytes \<Rightarrow> u8 \<Rightarrow> LoRaResult_t \<times> lora" where
  "send_loop 0 s dest_addr payload payload_len = (LORA_ERR_ACK_TIMEOUT, s\<lparr>lo_state := LORA_STATE_JOINED\<rparr>)"
| "send_loop (Suc n) s dest_addr payload payload_len =
    (let s = s\<lparr>lo_state := LORA_STATE_TX_BUSY\<rparr>;
         packet = lora_build_packet dest_addr (if lc_crc_enabled (lo_config s) then 0 else 0) (lo_tx_seq s)
                    LORA_MSG_DATA (Some payload) payload_len
     in if packet = [] then (LORA_ERR_SEND_FAILED, s\<lparr>lo_state := LORA_STATE_JOINED\<rparr>)
        else
          let s = lora_upd_stats (\<lambda>st. st\<lparr>ls_tx_packets := ls_tx_packets st + 1\<rparr>) s;
              (send_ok, s) = mock_radio_send s packet
          in if \<not> send_ok then (LORA_ERR_SEND_FAILED, s\<lparr>lo_state := LORA_STATE_JOINED\<rparr>)
             else
               let s = s\<lparr>lo_state := LORA_STATE_WAIT_ACK\<rparr>;
                   (ack_received, s) = mock_radio_wait_ack s (lo_tx_seq s) LORA_ACK_TIMEOUT_MS
               in if ack_received
                  then (LORA_OK, (lora_upd_stats (\<lambda>st. st\<lparr>ls_tx_acks_received := ls_tx_acks_received st + 1\<rparr>) s)
                          \<lparr>lo_tx_seq := lo_tx_seq s + 1, lo_state := LORA_STATE_JOINED\<rparr>)
                  else send_loop n
                         (lora_upd_stats (\<lambda>st. st\<lparr>ls_tx_retries := ls_tx_retries st + 1,
                            ls_tx_ack_timeouts := ls_tx_ack_timeouts st + 1\<rparr>) s) dest_addr payload payload_len)"

definition lora_send :: "lora \<Rightarrow> u16 \<Rightarrow> bytes option \<Rightarrow> u8 \<Rightarrow> LoRaResult_t \<times> lora" where
  "lora_send s dest_addr payload payload_len =
    (if \<not> lo_initialised s then (LORA_ERR_NOT_INIT, s)
     else (case payload of
         None \<Rightarrow> (LORA_ERR_PARAM_NULL, s)
       | Some p \<Rightarrow>
           if lo_state s = LORA_STATE_JOINING then (LORA_ERR_NOT_JOINED, s)
           else if lo_state s \<noteq> LORA_STATE_JOINED then (LORA_ERR_BUSY, s)
           else send_loop (Suc LORA_MAX_RETRIES) s dest_addr p payload_len))"

definition lora_receive :: "lora \<Rightarrow> LoRaFrame_t option \<Rightarrow> LoRaResult_t \<times> LoRaFrame_t option \<times> lora" where
  "lora_receive s out_frame =
    (if \<not> lo_initialised s then (LORA_ERR_NOT_INIT, out_frame, s)
     else (case out_frame of
         None \<Rightarrow> (LORA_ERR_PARAM_NULL, out_frame, s)
       | Some out \<Rightarrow>
           if lo_state s = LORA_STATE_JOINING then (LORA_ERR_NOT_JOINED, out_frame, s)
           else (case mock_radio_receive s of
               (None, s) \<Rightarrow> (LORA_ERR_NO_DATA, out_frame, s)
             | (Some raw, s) \<Rightarrow>
                 if raw = [] then (LORA_ERR_NO_DATA, out_frame, s)
                 else (case lora_parse_packet s (Some raw) out lora_header_zero of
                     (r, out, hdr, s) \<Rightarrow>
                       if r \<noteq> LORA_OK then (r, Some out, s)
                       else if lh_msg_type hdr \<noteq> lora_msg_code LORA_MSG_DATA then (LORA_ERR_NO_DATA, Some out, s)
                       else (LORA_OK, Some out,
                             (lora_upd_stats (\<lambda>st. st\<lparr>ls_rx_packets := ls_rx_packets st + 1\<rparr>) s)
                               \<lparr>lo_rx_expected_seq := lh_seq_num hdr + 1\<rparr>)))))"

definition lora_is_ready :: "lora \<Rightarrow> bool" where
  "lora_is_ready s \<longleftrightarrow> lo_initialised s \<and> lo_state s = LORA_STATE_JOINED"

definition lora_is_joined :: "lora \<Rightarrow> bool" where
  "lora_is_joined s \<longleftrightarrow> lo_initialised s \<and> lo_state s = LORA_STATE_JOINED"

definition lora_get_rssi :: "lora \<Rightarrow> u16" where "lora_get_rssi s = lo_last_rssi s"

definition lora_get_stats :: "lora \<Rightarrow> LoRaStats_t" where "lora_get_stats s = lo_stats s"

definition lora_get_config :: "lora \<Rightarrow> LoRaConfig_t option" where
  "lora_get_config s = (if lo_initialised s then Some (lo_config s) else None)"

section \<open>The CRC register\<close>

text \<open>The polynomial has its lowest bit set, so that bit of the shifted register is the bit shifted out.\<close>

lemma ccitt_top: "(crc AND 0x8000 \<noteq> 0) \<longleftrightarrow> bit (crc :: u16) 15"
  using and_exp_eq_0_iff_not_bit[of crc 15] by simp

lemma bit_ccitt_shift_0: "bit (ccitt_shift c) 0 \<longleftrightarrow> bit c 15"
  by (auto simp: ccitt_shift_def ccitt_top bit_xor_iff bit_push_bit_iff simp del: push_bit_numeral push_bit_of_1 push_bit_Suc)

lemma ccitt_shift_inj: "inj ccitt_shift"
proof (rule injI)
  fix c d
  assume eq: "ccitt_shift c = ccitt_shift d"
  then have top: "bit c 15 \<longleftrightarrow> bit d 15" using bit_ccitt_shift_0 by metis
  then have sh: "push_bit 1 c = push_bit 1 d"
    using eq by (auto simp: ccitt_shift_def ccitt_top split: if_splits)
  show "c = d"
  proof (rule bit_word_eqI)
    fix n
    assume "n < LENGTH(16)"
    moreover have "n < 15 \<Longrightarrow> bit (push_bit 1 c) (Suc n) = bit c n" "n < 15 \<Longrightarrow> bit (push_bit 1 d) (Suc n) = bit d n"
      by (simp_all only: bit_push_bit_iff) simp_all
    ultimately show "bit c n \<longleftrightarrow> bit d n" using top sh by (cases "n = 15") auto
  qed
qed

lemma ccitt_funpow: "(ccitt_shift ^^ n) c = (ccitt_shift ^^ n) d \<longleftrightarrow> c = d"
  using inj_fn[OF ccitt_shift_inj] by (rule inj_eq)

lemma push_bit_8_inj: "push_bit 8 (ucast (a :: u8)) = (push_bit 8 (ucast b) :: u16) \<Longrightarrow> a = b"
proof -
  assume eq: "push_bit 8 (ucast a) = (push_bit 8 (ucast b) :: u16)"
  have "drop_bit 8 (push_bit 8 (ucast x) :: u16) = ucast x" for x :: u8
    by (rule bit_word_eqI) (auto simp: bit_simps dest: bit_imp_le_length)
  with eq have "(ucast a :: u16) = ucast b" by metis
  then show ?thesis by (rule ucast_up_inj[rotated]) simp
qed

interpretation ccitt: checksum_register ccitt_byte
proof
  show "ccitt_byte c b = ccitt_byte d b \<Longrightarrow> c = d" for c d b
    by (simp add: ccitt_byte_def ccitt_funpow)
  show "ccitt_byte c a = ccitt_byte c b \<Longrightarrow> a = b" for c a b
    by (auto simp: ccitt_byte_def ccitt_funpow dest: push_bit_8_inj)
qed

section \<open>Packets\<close>

definition packet_body :: "u16 \<Rightarrow> u16 \<Rightarrow> u8 \<Rightarrow> LoRaMsgType_t \<Rightarrow> bytes \<Rightarrow> u8 \<Rightarrow> bytes" where
  "packet_body d a q t p len = le_bytes16 d @ le_bytes16 a @ [q, lora_msg_code t, len, 0] @ take (unat len) p"

lemma build_packet_eq:
  "lora_build_packet d a q t (Some p) len = packet_body d a q t p len @ le_bytes16 (lora_crc16 (packet_body d a q t p len))"
  by (auto simp: lora_build_packet_def packet_body_def Let_def word_gt_0)

lemma length_packet_body [simp]: "unat len \<le> length p \<Longrightarrow> length (packet_body d a q t p len) = 8 + unat len"
  by (simp add: packet_body_def le_bytes16_def)

lemma build_packet_not_Nil [simp]: "lora_build_packet d a q t (Some p) len \<noteq> []"
  by (simp add: build_packet_eq packet_body_def)

lemma parse_bad_crc:
  assumes "8 \<le> length body" and "le_word16 x y \<noteq> lora_crc16 body"
  shows "lora_parse_packet s (Some (body @ [x, y])) out hdr =
    (LORA_ERR_CRC_FAIL, out, hdr, lora_upd_stats (\<lambda>st. st\<lparr>ls_rx_crc_errors := ls_rx_crc_errors st + 1\<rparr>) s)"
  using assms by (simp add: lora_parse_packet_def LORA_PACKET_OVERHEAD_def nth_append Let_def)

lemma le_word16_inj: "le_word16 a b = le_word16 c d \<longleftrightarrow> a = c \<and> b = d"
proof
  assume eq: "le_word16 a b = le_word16 c d"
  have "ucast (le_word16 x y) = x \<and> ucast (drop_bit 8 (le_word16 x y)) = y" for x y
    unfolding le_word16_def by (intro conjI; rule bit_word_eqI) (auto simp: bit_simps dest: bit_imp_le_length)
  with eq show "a = c \<and> b = d" by metis
qed simp

lemma parse_build:
  assumes "unat len \<le> length p"
  shows "lora_parse_packet s (Some (lora_build_packet d a q t (Some p) len)) out hdr =
    (LORA_OK, out\<lparr>lf_src_addr := a, lf_dest_addr := d, lf_seq_num := q, lf_payload_len := len,
       lf_payload := take (unat len) p @ drop (unat len) (lf_payload out)\<rparr>,
     \<lparr>lh_dest_addr = d, lh_src_addr = a, lh_seq_num = q, lh_msg_type = lora_msg_code t, lh_payload_len = len, lh_flags = 0\<rparr>, s)"
proof -
  let ?b = "packet_body d a q t p len"
  let ?w = "?b @ le_bytes16 (lora_crc16 ?b)"
  have len: "length ?w = 10 + unat len" using assms by (simp add: le_bytes16_def)
  have crc: "le_word16 (?w ! (length ?w - 2)) (?w ! (length ?w - 1)) = lora_crc16 ?b"
    "take (length ?w - 2) ?w = ?b"
    using assms by (simp_all add: le_bytes16_def nth_append)
  have hdr: "le_word16 (?w ! 0) (?w ! 1) = d" "le_word16 (?w ! 2) (?w ! 3) = a" "?w ! 4 = q" "?w ! 5 = lora_msg_code t"
    "?w ! 6 = len" "?w ! 7 = 0" "drop 8 ?b = take (unat len) p"
    using assms by (simp_all add: packet_body_def le_bytes16_def)
  show ?thesis
    unfolding build_packet_eq lora_parse_packet_def option.case Let_def crc hdr
    using len assms by (simp add: LORA_PACKET_OVERHEAD_def hdr(7))
qed

lemma packet_corrupted:
  assumes "unat len \<le> length p" and "i < 10 + unat len" and "b \<noteq> lora_build_packet d a q t (Some p) len ! i"
  shows "lora_parse_packet s (Some ((lora_build_packet d a q t (Some p) len)[i := b])) out hdr =
    (LORA_ERR_CRC_FAIL, out, hdr, lora_upd_stats (\<lambda>st. st\<lparr>ls_rx_crc_errors := ls_rx_crc_errors st + 1\<rparr>) s)"
proof -
  let ?b = "packet_body d a q t p len"
  let ?x = "ucast (lora_crc16 ?b) :: u8" and ?y = "ucast (drop_bit 8 (lora_crc16 ?b)) :: u8"
  have len: "length ?b = 8 + unat len" using assms(1) by simp
  have w: "lora_build_packet d a q t (Some p) len = ?b @ [?x, ?y]" by (simp add: build_packet_eq le_bytes16_def)
  have crc: "le_word16 ?x ?y = lora_crc16 ?b" by simp
  consider (body) "i < length ?b" | (lo) "i = length ?b" | (hi) "i = Suc (length ?b)" using assms(2) len by linarith
  then show ?thesis
  proof cases
    case body
    then have "lora_crc16 (?b[i := b]) \<noteq> lora_crc16 ?b"
      using assms(3) ccitt.detects_update[of i ?b b] by (simp add: w nth_append lora_crc16_def)
    then have "lora_parse_packet s (Some (?b[i := b] @ [?x, ?y])) out hdr =
      (LORA_ERR_CRC_FAIL, out, hdr, lora_upd_stats (\<lambda>st. st\<lparr>ls_rx_crc_errors := ls_rx_crc_errors st + 1\<rparr>) s)"
      by (intro parse_bad_crc) (simp_all add: len)
    then show ?thesis using body by (simp add: w list_update_append)
  next
    case lo
    then have "b \<noteq> ?x" using assms(3) by (simp add: w)
    then have "le_word16 b ?y \<noteq> le_word16 ?x ?y" by (simp only: le_word16_inj simp_thms)
    then have "le_word16 b ?y \<noteq> lora_crc16 ?b" by (simp only: crc not_False_eq_True)
    then show ?thesis using parse_bad_crc[of ?b b ?y] lo by (simp add: w list_update_append len)
  next
    case hi
    then have "b \<noteq> ?y" using assms(3) by (simp add: w nth_append)
    then have "le_word16 ?x b \<noteq> le_word16 ?x ?y" by (simp only: le_word16_inj simp_thms)
    then have "le_word16 ?x b \<noteq> lora_crc16 ?b" by (simp only: crc not_False_eq_True)
    then show ?thesis using parse_bad_crc[of ?b ?x b] hi by (simp add: w list_update_append len)
  qed
qed

section \<open>Sending\<close>

text \<open>What the loopback radio holds after a data packet was sent.\<close>

definition looped_frame :: "u16 \<Rightarrow> u8 \<Rightarrow> bytes \<Rightarrow> u8 \<Rightarrow> LoRaFrame_t" where
  "looped_frame d q p len = \<lparr>lf_src_addr = d, lf_dest_addr = 0, lf_rssi = 0, lf_snr = 0, lf_seq_num = q,
     lf_payload_len = len, lf_payload = take (unat len) p @ replicate (LORA_MAX_PAYLOAD - unat len) 0\<rparr>"

lemma radio_send_data:
  "unat len \<le> length p \<Longrightarrow> mock_radio_send s (lora_build_packet d 0 q LORA_MSG_DATA (Some p) len) =
    (True, s\<lparr>lo_rx_buffer := looped_frame d q p len, lo_rx_pending := True\<rparr>)"
  by (simp add: mock_radio_send_def parse_build looped_frame_def lora_frame_zero_def Let_def)

text \<open>The counters after \<open>k\<close> transmissions of which the last one was acknowledged, or none.\<close>

definition sent_stats :: "nat \<Rightarrow> bool \<Rightarrow> LoRaStats_t \<Rightarrow> LoRaStats_t" where
  "sent_stats k ack st =
    (let missed = word_of_nat (if ack then k - 1 else k)
     in st\<lparr>ls_tx_packets := ls_tx_packets st + word_of_nat k, ls_tx_retries := ls_tx_retries st + missed,
           ls_tx_acks_received := ls_tx_acks_received st + (if ack then 1 else 0),
           ls_tx_ack_timeouts := ls_tx_ack_timeouts st + missed\<rparr>)"

definition lora_sent :: "nat \<Rightarrow> bool \<Rightarrow> u16 \<Rightarrow> bytes \<Rightarrow> u8 \<Rightarrow> lora \<Rightarrow> lora" where
  "lora_sent k ack d p len s = s\<lparr>lo_state := LORA_STATE_JOINED, lo_rx_buffer := looped_frame d (lo_tx_seq s) p len,
     lo_rx_pending := True, lo_stats := sent_stats k ack (lo_stats s),
     lo_tx_seq := (if ack then lo_tx_seq s + 1 else lo_tx_seq s),
     lo_mock_ack_fail_count := lo_mock_ack_fail_count s - word_of_nat (if ack then k - 1 else k)\<rparr>"

lemma send_loop_eq:
  assumes "unat len \<le> length p" and "0 < n"
  shows "send_loop n s d p len =
    (let k = unat (lo_mock_ack_fail_count s)
     in if k < n then (LORA_OK, lora_sent (Suc k) True d p len s)
        else (LORA_ERR_ACK_TIMEOUT, lora_sent n False d p len s))"
  using assms(2)
proof (induction n arbitrary: s)
  case (Suc n)
  let ?k = "lo_mock_ack_fail_count s"
  show ?case
  proof (cases "?k = 0")
    case True
    then show ?thesis
      by (simp add: radio_send_data[OF assms(1)] mock_radio_wait_ack_def lora_upd_stats_def lora_sent_def sent_stats_def Let_def)
  next
    case False
    then have k: "unat ?k = Suc (unat (?k - 1))" by (simp add: unat_minus_one unat_gt_0)
    show ?thesis
    proof (cases "n = 0")
      case True
      then show ?thesis using False k
        by (simp add: radio_send_data[OF assms(1)] mock_radio_wait_ack_def lora_upd_stats_def lora_sent_def sent_stats_def
            Let_def word_gt_0)
    next
      case n: False
      then show ?thesis using False k
        by (simp add: radio_send_data[OF assms(1)] mock_radio_wait_ack_def Suc.IH lora_upd_stats_def lora_sent_def sent_stats_def
            Let_def word_gt_0 algebra_simps)
    qed
  qed
qed simp

lemma send_ready_eq:
  assumes "lora_is_ready s" and "unat len \<le> length p"
  shows "lora_send s d (Some p) len =
    (let k = unat (lo_mock_ack_fail_count s)
     in if k \<le> LORA_MAX_RETRIES then (LORA_OK, lora_sent (Suc k) True d p len s)
        else (LORA_ERR_ACK_TIMEOUT, lora_sent (Suc LORA_MAX_RETRIES) False d p len s))"
proof -
  have "lora_send s d (Some p) len = send_loop (Suc LORA_MAX_RETRIES) s d p len"
    using assms(1) by (simp only: lora_send_def lora_is_ready_def option.case) simp
  then show ?thesis by (simp only: send_loop_eq[OF assms(2) zero_less_Suc] less_Suc_eq_le)
qed

section \<open>Receiving\<close>

lemma radio_receive_pending:
  "lo_rx_pending s \<Longrightarrow> mock_radio_receive s =
    (Some (lora_build_packet (lf_dest_addr (lo_rx_buffer s)) (lf_src_addr (lo_rx_buffer s)) (lf_seq_num (lo_rx_buffer s))
       LORA_MSG_DATA (Some (lf_payload (lo_rx_buffer s))) (lf_payload_len (lo_rx_buffer s))), s\<lparr>lo_rx_pending := False\<rparr>)"
  by (simp add: mock_radio_receive_def Let_def)

text \<open>A frame that was not fetched yet comes out with its addresses, number and payload.\<close>

lemma receive_pending:
  assumes "lora_is_ready s" and "lo_rx_pending s"
    and "unat (lf_payload_len (lo_rx_buffer s)) \<le> length (lf_payload (lo_rx_buffer s))"
  shows "lora_receive s (Some out) =
    (LORA_OK, Some (out\<lparr>lf_src_addr := lf_src_addr (lo_rx_buffer s), lf_dest_addr := lf_dest_addr (lo_rx_buffer s),
       lf_seq_num := lf_seq_num (lo_rx_buffer s), lf_payload_len := lf_payload_len (lo_rx_buffer s),
       lf_payload := take (unat (lf_payload_len (lo_rx_buffer s))) (lf_payload (lo_rx_buffer s))
         @ drop (unat (lf_payload_len (lo_rx_buffer s))) (lf_payload out)\<rparr>),
     s\<lparr>lo_rx_pending := False, lo_stats := (lo_stats s)\<lparr>ls_rx_packets := ls_rx_packets (lo_stats s) + 1\<rparr>,
       lo_rx_expected_seq := lf_seq_num (lo_rx_buffer s) + 1\<rparr>)"
  using assms(1,2)
  by (simp add: lora_receive_def lora_is_ready_def radio_receive_pending parse_build[OF assms(3)] lora_upd_stats_def)

section \<open>Well-formed states\<close>

text \<open>
  What holds between any two calls: the transient states are never seen, the configuration is one the radio
  supports, the counters add up, and before the module is attested nothing was sent or received.
\<close>

definition lora_config_ok :: "LoRaConfig_t \<Rightarrow> bool" where
  "lora_config_ok c \<longleftrightarrow> 7 \<le> lc_spreading_factor c \<and> lc_spreading_factor c \<le> 12 \<and> 2 \<le> lc_tx_power_dbm c \<and> lc_tx_power_dbm c \<le> 20"

definition lora_stats_ok :: "LoRaStats_t \<Rightarrow> bool" where
  "lora_stats_ok st \<longleftrightarrow> ls_tx_packets st = ls_tx_acks_received st + ls_tx_ack_timeouts st
     \<and> ls_tx_retries st = ls_tx_ack_timeouts st"

definition lora_wf :: "lora \<Rightarrow> bool" where
  "lora_wf s \<longleftrightarrow> lo_state s \<in> (if lo_initialised s then {LORA_STATE_JOINING, LORA_STATE_JOINED} else {LORA_STATE_UNINIT})
     \<and> (lo_initialised s \<longrightarrow> lora_config_ok (lo_config s))
     \<and> lora_stats_ok (lo_stats s)
     \<and> length (lf_payload (lo_rx_buffer s)) = LORA_MAX_PAYLOAD
     \<and> length (lo_mock_module_stored_key s) = 32
     \<and> (lo_state s \<noteq> LORA_STATE_JOINED \<longrightarrow>
          \<not> lo_rx_pending s \<and> ls_tx_packets (lo_stats s) = 0 \<and> ls_rx_packets (lo_stats s) = 0)"

lemma u8_fits_payload [simp]: "unat (len :: u8) \<le> LORA_MAX_PAYLOAD"
  using unat_u8_less[of len] by (simp add: LORA_MAX_PAYLOAD_def)

lemma lora_wf_boot: "lora_wf lora_boot"
  by (simp add: lora_wf_def lora_boot_def lora_stats_ok_def lora_stats_zero_def lora_frame_zero_def)

lemma lora_wf_init: "lora_wf s \<Longrightarrow> lora_wf (snd (lora_init s config))"
  by (auto simp: lora_wf_def lora_init_def Let_def lora_stats_ok_def lora_stats_zero_def lora_config_ok_def
      lora_default_config_def not_less split: option.splits)

lemma lora_stats_ok_sent: "lora_stats_ok st \<Longrightarrow> lora_stats_ok (sent_stats (Suc k) ack st)"
  by (simp add: lora_stats_ok_def sent_stats_def Let_def)

lemma lora_wf_sent:
  assumes "lora_wf s" and "lora_is_ready s" and "unat len \<le> length p"
  shows "lora_wf (lora_sent (Suc k) ack d p len s)"
  using assms by (simp add: lora_wf_def lora_sent_def lora_is_ready_def lora_stats_ok_sent looped_frame_def)

lemma lora_wf_send: "lora_wf s \<Longrightarrow> unat len \<le> length p \<Longrightarrow> lora_wf (snd (lora_send s d (Some p) len))"
proof (cases "lora_is_ready s")
  case True
  assume "lora_wf s" "unat len \<le> length p"
  then show ?thesis using True
    by (simp add: send_ready_eq Let_def lora_wf_sent)
qed (auto simp: lora_send_def lora_is_ready_def)

lemma receive_not_ready:
  "lora_wf s \<Longrightarrow> \<not> lora_is_ready s \<Longrightarrow> snd (snd (lora_receive s out)) = s"
  by (auto simp: lora_receive_def lora_is_ready_def lora_wf_def split: option.splits)

lemma receive_no_data: "\<not> lo_rx_pending s \<Longrightarrow> snd (snd (lora_receive s out)) = s"
  by (simp add: lora_receive_def mock_radio_receive_def split: option.splits)

lemma lora_wf_receive:
  assumes "lora_wf s"
  shows "lora_wf (snd (snd (lora_receive s out)))"
proof (cases "lora_is_ready s \<and> lo_rx_pending s \<and> out \<noteq> None")
  case True
  then obtain f where "out = Some f" by auto
  moreover have "length (lf_payload (lo_rx_buffer s)) = LORA_MAX_PAYLOAD" using assms by (simp add: lora_wf_def)
  ultimately show ?thesis using True assms
    by (simp add: receive_pending) (simp add: lora_wf_def lora_is_ready_def lora_stats_ok_def)
next
  case False
  then have "snd (snd (lora_receive s out)) = s"
    using receive_not_ready[OF assms] receive_no_data[of s] by (cases out) (auto simp: lora_receive_def[of s None])
  then show ?thesis using assms by simp
qed

lemma lora_wf_join: "lora_wf s \<Longrightarrow> lora_wf (fst (snd (lora_join md (s, at, env) key)))"
  by (cases env) (auto simp: lora_join_def lora_wf_def lora_upd_stats_def lora_stats_ok_def Let_def
      split: option.splits prod.splits if_splits)

text \<open>
  The calls a client can make, in any order; the keys, the log and the clock belong to other modules and may change
  in between.  A payload argument has at least the bytes its length says.
\<close>

inductive lora_step :: "md_hmac \<Rightarrow> lora_env \<Rightarrow> lora_env \<Rightarrow> bool" for md where
  init: "lora_step md (s, e) (snd (lora_init s config), e)"
| join: "lora_step md env (snd (lora_join md env key))"
| send: "unat len \<le> length p \<Longrightarrow> lora_step md (s, e) (snd (lora_send s d (Some p) len), e)"
| receive: "lora_step md (s, e) (snd (snd (lora_receive s out)), e)"
| mock_acks: "lora_step md (s, e) (lora_mock_set_ack_fail_count s n, e)"
| mock_key: "32 \<le> length k \<Longrightarrow> lora_step md (s, e) (lora_mock_set_module_key s k, e)"
| others: "lora_step md (s, e) (s, e')"

lemma lora_wf_step: "lora_step md env env' \<Longrightarrow> lora_wf (fst env) \<Longrightarrow> lora_wf (fst env')"
proof (induction rule: lora_step.induct)
  case (join env key)
  then show ?case by (cases env) (simp add: lora_wf_join)
next
  case (mock_key k s e)
  then show ?case by (simp add: lora_wf_def lora_mock_set_module_key_def)
next
  case (mock_acks s e n)
  then show ?case by (simp add: lora_wf_def lora_mock_set_ack_fail_count_def)
qed (auto simp: lora_wf_init lora_wf_send lora_wf_receive)

interpretation lora: invariant_system "\<lambda>env. fst env = lora_boot" "lora_step md" "\<lambda>env. lora_wf (fst env)" for md
  by unfold_locales (auto simp: lora_wf_boot lora_wf_step)

section \<open>Properties\<close>

definition demo_lora :: lora where
  "demo_lora = snd (lora_init lora_boot None)"

definition ready_lora :: "u8 \<Rightarrow> lora" where
  "ready_lora fails = demo_lora\<lparr>lo_state := LORA_STATE_JOINED, lo_mock_ack_fail_count := fails\<rparr>"

lemma ready_lora_ready: "lora_is_ready (ready_lora n)"
  and ready_lora_fails: "lo_mock_ack_fail_count (ready_lora n) = n"
  by (simp_all add: ready_lora_def lora_is_ready_def demo_lora_def lora_init_def Let_def)

text \<open>
  C15.  Between any two calls of its interface the handler is in a well-formed state: uninitialised, joining or
  joined but never in the middle of a transmission, with a spreading factor and a transmission power the radio
  supports, every transmitted packet counted as acknowledged or timed out, and nothing sent, received or
  pending before the radio module passed its attestation.
\<close>

theorem lora_reachable_wf:
  assumes "(lora_step md)\<^sup>*\<^sup>* (lora_boot, e) (s, e')"
  shows "lora_wf s"
  using lora.reachable_inv[OF _ assms] by simp

theorem lora_reachable_wf_witness: "lora_wf demo_lora"
proof (rule lora_reachable_wf)
  show "(lora_step demo_md)\<^sup>*\<^sup>* (lora_boot, undefined) (demo_lora, undefined)"
    unfolding demo_lora_def by (rule r_into_rtranclp) (rule lora_step.init)
qed

text \<open>
  C16.  Sending from the joined state transmits until an acknowledgement arrives, at most four times.  It succeeds
  exactly when one of the four is acknowledged; only then the sequence number advances.  Every attempt is counted,
  the handler is joined again afterwards, and the peer's next receive returns exactly the payload, with the sequence
  number of the transmission.
\<close>

theorem lora_transfer:
  assumes "lora_is_ready s" and "unat len \<le> length p" and "k = unat (lo_mock_ack_fail_count s)"
  shows "\<exists>r s' s''. lora_send s d (Some p) len = (r, s')
    \<and> r = (if k \<le> 3 then LORA_OK else LORA_ERR_ACK_TIMEOUT)
    \<and> lora_is_ready s'
    \<and> lo_tx_seq s' = lo_tx_seq s + (if k \<le> 3 then 1 else 0)
    \<and> ls_tx_packets (lo_stats s') = ls_tx_packets (lo_stats s) + word_of_nat (min 4 (Suc k))
    \<and> lora_receive s' (Some out) = (LORA_OK, Some (out\<lparr>lf_src_addr := d, lf_dest_addr := 0,
         lf_seq_num := lo_tx_seq s, lf_payload_len := len,
         lf_payload := take (unat len) p @ drop (unat len) (lf_payload out)\<rparr>), s'')"
proof -
  have r: "lora_is_ready (lora_sent j ack d p len s)" for j ack
    using assms(1) by (simp add: lora_is_ready_def lora_sent_def)
  have rx: "\<exists>s''. lora_receive (lora_sent j ack d p len s) (Some out) = (LORA_OK, Some (out\<lparr>lf_src_addr := d, lf_dest_addr := 0,
         lf_seq_num := lo_tx_seq s, lf_payload_len := len,
         lf_payload := take (unat len) p @ drop (unat len) (lf_payload out)\<rparr>), s'')" for j ack
    using receive_pending[OF r, of j ack out] assms(2)
    by (simp add: lora_sent_def looped_frame_def min_def)
  show ?thesis
  proof (cases "k \<le> 3")
    case True
    then show ?thesis using send_ready_eq[OF assms(1,2), of d] r rx[of "Suc k" True] assms(3)
      by (simp add: Let_def LORA_MAX_RETRIES_def) (simp add: lora_sent_def sent_stats_def Let_def min_def)
  next
    case False
    then show ?thesis using send_ready_eq[OF assms(1,2), of d] r rx[of 4 False] assms(3)
      by (simp add: Let_def LORA_MAX_RETRIES_def) (simp add: lora_sent_def sent_stats_def Let_def)
  qed
qed

theorem lora_transfer_witness:
  "fst (lora_send (ready_lora 2) 7 (Some [1, 2, 3]) 3) = LORA_OK \<and>
   fst (lora_send (ready_lora 9) 7 (Some [1, 2, 3]) 3) = LORA_ERR_ACK_TIMEOUT"
  using lora_transfer[OF ready_lora_ready _ refl, of 3 "[1, 2, 3]" 2 7 lora_frame_zero]
    lora_transfer[OF ready_lora_ready _ refl, of 3 "[1, 2, 3]" 9 7 lora_frame_zero]
  unfolding ready_lora_fails by force

text \<open>
  A packet in which any one byte was changed on the air - addresses, sequence number, type, length, payload or
  the CRC itself - is refused as corrupt and counted, and the caller's frame is not touched.
\<close>

theorem lora_detects_corruption:
  assumes "unat len \<le> length p" and "i < 10 + unat len" and "b \<noteq> lora_build_packet d a q t (Some p) len ! i"
  shows "lora_parse_packet s (Some ((lora_build_packet d a q t (Some p) len)[i := b])) out hdr =
    (LORA_ERR_CRC_FAIL, out, hdr, lora_upd_stats (\<lambda>st. st\<lparr>ls_rx_crc_errors := ls_rx_crc_errors st + 1\<rparr>) s)"
  by (rule packet_corrupted[OF assms])

theorem lora_detects_corruption_witness:
  "fst (lora_parse_packet demo_lora (Some ((lora_build_packet 2 1 5 LORA_MSG_DATA (Some [10, 20]) 2)[9 := 21]))
     lora_frame_zero lora_header_zero) = LORA_ERR_CRC_FAIL"
proof -
  have "21 \<noteq> lora_build_packet 2 1 5 LORA_MSG_DATA (Some [10, 20]) 2 ! 9"
    by (simp add: build_packet_eq packet_body_def le_bytes16_def)
  then show ?thesis using lora_detects_corruption[of 2 "[10, 20]" 9 21] by simp
qed

text \<open>
  C29.  Joining: with room in the key table, an initialised handler that is not joined yet joins exactly when the
  radio module's answer is the answer under the key the hub was given and the clock did not move by more than five
  seconds in between.  A refused module leaves the handler unjoined, is counted, and is written to the audit log.
\<close>

theorem lora_join_attested:
  assumes "md_hmac_ok md" and "attestation_ok at" and "length (at_key_table at) < ATTESTATION_MAX_KEYS"
    and "lo_initialised s" and "lo_state s = LORA_STATE_JOINING" and "32 \<le> length key"
    and "time_source_get_ms ts = (t1, ts1)" and "time_source_get_ms ts1 = (t2, ts2)"
    and "module_key = (if lo_mock_module_key_set s then lo_mock_module_stored_key s else take 32 key)"
  shows "\<exists>r s' at' env. lora_join md (s, at, au, ts) (Some key) = (r, s', at', env)
    \<and> (r = LORA_OK \<longleftrightarrow> ndist (unat t1) (unat t2) \<le> 5000 \<and>
         attestation_compute_response md module_key (lora_challenge t1) =
         attestation_compute_response md (take 32 key) (lora_challenge t1))
    \<and> (if r = LORA_OK then lora_is_joined s' \<and> env = (au, ts2)
       else r = LORA_ERR_JOIN_FAILED \<and> lo_state s' = LORA_STATE_JOINING
         \<and> ls_join_failures (lo_stats s') = ls_join_failures (lo_stats s) + 1
         \<and> env = audit_note md (au, ts2) AUDIT_MODULE_ATTESTATION_FAIL 0 0 msg_lora_join_failed)"
proof -
  let ?rec = "\<lparr>ak_node_id = LORA_RADIO_ID, ak_key = take 32 key, ak_active = True\<rparr>"
  let ?at = "at\<lparr>at_key_table := list_put ak_node_id ?rec (at_key_table at)\<rparr>"
  let ?resp = "\<lparr>ar_response = attestation_compute_response md module_key (lora_challenge t1), ar_timestamp_ms = t2,
     ar_responder_id = LORA_RADIO_ID\<rparr>"
  have put: "attestation_put at ?rec = Some ?at"
    using assms(2,3) by (simp add: attestation_put_eq attestation_ok_def)
  then have reg: "attestation_register_key at (Some ?rec) = (ATTEST_OK, ?at)"
    using assms(2,3) by (simp add: attestation_register_key_def attestation_ok_def)
  have get: "attestation_get ?at LORA_RADIO_ID = Some ?rec"
    using key_table.get_put[OF assms(2) put, of LORA_RADIO_ID] by simp
  have ok: "attestation_verify md ?at (Some (lora_challenge t1)) (Some ?resp) 5000 = ATTEST_OK \<longleftrightarrow>
      ndist (unat t1) (unat t2) \<le> 5000 \<and> attestation_compute_response md module_key (lora_challenge t1) =
         attestation_compute_response md (take 32 key) (lora_challenge t1)"
    using verify_iff[OF assms(1) attestation_put_ok[OF assms(2) put], of ?resp "lora_challenge t1" 5000] get assms(1)
    by (simp add: lora_challenge_def attestation_compute_response_def)
  let ?s = "lora_upd_stats (\<lambda>st. st\<lparr>ls_join_attempts := ls_join_attempts st + 1\<rparr>) s"
  have eq: "lora_join md (s, at, au, ts) (Some key) =
     (if attestation_verify md ?at (Some (lora_challenge t1)) (Some ?resp) 5000 = ATTEST_OK
      then (LORA_OK, ?s\<lparr>lo_state := LORA_STATE_JOINED\<rparr>, ?at, au, ts2)
      else (LORA_ERR_JOIN_FAILED, lora_upd_stats (\<lambda>st. st\<lparr>ls_join_failures := ls_join_failures st + 1\<rparr>) ?s, ?at,
            audit_note md (au, ts2) AUDIT_MODULE_ATTESTATION_FAIL 0 0 msg_lora_join_failed))"
    using assms(4-6,9) by (simp add: lora_join_def reg assms(7,8) Let_def lora_upd_stats_def)
  show ?thesis
    unfolding eq ok using assms(4,5)
    by (cases "ndist (unat t1) (unat t2) \<le> 5000 \<and> attestation_compute_response md module_key (lora_challenge t1) =
         attestation_compute_response md (take 32 key) (lora_challenge t1)")
      (simp_all add: lora_upd_stats_def lora_is_joined_def, metis surj_pair)
qed

definition demo_keys :: attestation where
  "demo_keys = snd (attestation_init \<lparr>at_key_table = [], at_g_initialised = False\<rparr>)"

theorem lora_join_attested_witness:
  "fst (lora_join demo_md (lora_mock_set_module_key demo_lora (replicate 32 5), demo_keys, demo_audit, demo_time)
     (Some (replicate 32 5))) = LORA_OK \<and>
   fst (lora_join demo_md (lora_mock_set_module_key demo_lora (replicate 32 5), demo_keys, demo_audit, demo_time)
     (Some (replicate 32 6))) = LORA_ERR_JOIN_FAILED"
proof -
  let ?s = "lora_mock_set_module_key demo_lora (replicate 32 5)"
  let ?t = "demo_time\<lparr>ts_state := TIME_SRC_NTP_ACTIVE\<rparr>"
  have clock: "time_source_get_ms demo_time = (5, ?t)" "time_source_get_ms ?t = (5, ?t)"
    by (simp_all add: time_source_get_ms_def demo_time_def)
  have s: "lo_initialised ?s" "lo_state ?s = LORA_STATE_JOINING" "lo_mock_module_key_set ?s"
    "lo_mock_module_stored_key ?s = replicate 32 5"
    by (simp_all add: lora_mock_set_module_key_def demo_lora_def lora_init_def Let_def)
  have k: "attestation_ok demo_keys" "length (at_key_table demo_keys) < ATTESTATION_MAX_KEYS"
    by (simp_all add: demo_keys_def attestation_ok_init) (simp add: attestation_init_def ATTESTATION_MAX_KEYS_def)
  have "attestation_compute_response demo_md (replicate 32 5) (lora_challenge 5) \<noteq>
      attestation_compute_response demo_md (replicate 32 6) (lora_challenge 5)"
    by (simp add: attestation_compute_response_def iot_hmac_sha256_def demo_md_def attestation_payload_def
        lora_challenge_def be_bytes64_def be_bytes32_def ATTESTATION_CHALLENGE_SIZE_def numeral_eq_Suc)
  then show ?thesis
    using lora_join_attested[OF demo_md_ok k s(1,2) _ clock refl, of "replicate 32 5" demo_audit]
      lora_join_attested[OF demo_md_ok k s(1,2) _ clock refl, of "replicate 32 6" demo_audit]
    by (auto simp: s ndist_def)
qed

end
