(* ===== verification/Zigbee.thy ===== *)
theory Zigbee
  imports Iot_Prelude
begin

text \<open>
  The Zigbee link of the home profile (\<open>firmware/shared/zigbee_handler.{h,c}\<close>): the APS frame, the loopback radio the
  file provides in place of a transceiver, joining and leaving, sending and receiving.  The \<open>static\<close> variables are the
  record \<open>zigbee\<close>; a payload in a frame is the whole array of 72 bytes.
\<close>

section \<open>Data\<close>

definition ZIGBEE_MAX_PAYLOAD :: nat where "ZIGBEE_MAX_PAYLOAD = 72"
definition ZIGBEE_SHORT_ADDR_INVALID :: u16 where "ZIGBEE_SHORT_ADDR_INVALID = 0xFFFF"
definition ZIGBEE_CHANNEL_DEFAULT :: u8 where "ZIGBEE_CHANNEL_DEFAULT = 15"
definition ZIGBEE_APS_OVERHEAD :: nat where "ZIGBEE_APS_OVERHEAD = 7"
definition ZIGBEE_PROFILE_HOME :: u16 where "ZIGBEE_PROFILE_HOME = 0x0104"
definition ZIGBEE_CLUSTER_DEFAULT :: u16 where "ZIGBEE_CLUSTER_DEFAULT = 0"

record ZigbeeNodeInfo_t =
  zn_short_addr :: u16
  zn_extended_addr :: u64
  zn_endpoint :: u8
  zn_node_id :: u8
  zn_joined :: bool

record ZigbeeFrame_t =
  zf_src_addr :: u16
  zf_dest_addr :: u16
  zf_src_endpoint :: u8
  zf_dest_endpoint :: u8
  zf_payload_len :: u8
  zf_payload :: bytes

datatype ZigbeeResult_t =
  ZIGBEE_OK | ZIGBEE_ERR_NOT_JOINED | ZIGBEE_ERR_SEND_FAILED | ZIGBEE_ERR_NO_DATA | ZIGBEE_ERR_PARAM_NULL

datatype ZigbeeInternalState_t =
  ZIGBEE_STATE_UNINIT | ZIGBEE_STATE_IDLE | ZIGBEE_STATE_JOINING | ZIGBEE_STATE_JOINED | ZIGBEE_STATE_LEAVE_PENDING

record zigbee =
  zb_state :: ZigbeeInternalState_t
  zb_node_info :: ZigbeeNodeInfo_t
  zb_channel :: u8
  zb_initialised :: bool
  zb_aps_sequence :: u8
  zb_rx_buffer :: ZigbeeFrame_t
  zb_rx_pending :: bool

definition zigbee_node_zero :: ZigbeeNodeInfo_t where
  "zigbee_node_zero = \<lparr>zn_short_addr = 0, zn_extended_addr = 0, zn_endpoint = 0, zn_node_id = 0, zn_joined = False\<rparr>"

definition zigbee_frame_zero :: ZigbeeFrame_t where
  "zigbee_frame_zero = \<lparr>zf_src_addr = 0, zf_dest_addr = 0, zf_src_endpoint = 0, zf_dest_endpoint = 0, zf_payload_len = 0,
     zf_payload = replicate ZIGBEE_MAX_PAYLOAD 0\<rparr>"

text \<open>The statics as the program is loaded.\<close>

definition zigbee_boot :: zigbee where
  "zigbee_boot = \<lparr>zb_state = ZIGBEE_STATE_UNINIT, zb_node_info = zigbee_node_zero, zb_channel = ZIGBEE_CHANNEL_DEFAULT,
     zb_initialised = False, zb_aps_sequence = 0, zb_rx_buffer = zigbee_frame_zero, zb_rx_pending = False\<rparr>"

section \<open>Operations\<close>

text \<open>The frame, empty when the payload does not fit; the sequence counter advances only when a frame is built.\<close>

definition zigbee_build_aps_frame :: "zigbee \<Rightarrow> u8 \<Rightarrow> u8 \<Rightarrow> bytes option \<Rightarrow> u8 \<Rightarrow> bytes \<times> zigbee" where
  "zigbee_build_aps_frame s src_endpoint dest_endpoint payload payload_len =
    (if ZIGBEE_MAX_PAYLOAD - ZIGBEE_APS_OVERHEAD < unat payload_len then ([], s)
     else
       let hdr = [dest_endpoint, src_endpoint] @ le_bytes16 ZIGBEE_CLUSTER_DEFAULT @ le_bytes16 ZIGBEE_PROFILE_HOME
                 @ [zb_aps_sequence s];
           s = s\<lparr>zb_aps_sequence := zb_aps_sequence s + 1\<rparr>
       in (case payload of
             Some p \<Rightarrow> (if payload_len > 0 then hdr @ take (unat payload_len) p else hdr, s)
           | None \<Rightarrow> (hdr, s)))"

definition zigbee_parse_aps_frame :: "bytes option \<Rightarrow> ZigbeeFrame_t \<Rightarrow> bool \<times> ZigbeeFrame_t" where
  "zigbee_parse_aps_frame frame out =
    (case frame of
       None \<Rightarrow> (False, out)
     | Some inp \<Rightarrow>
         if length inp < ZIGBEE_APS_OVERHEAD then (False, out)
         else
           let out = out\<lparr>zf_dest_endpoint := inp ! 0, zf_src_endpoint := inp ! 1\<rparr>;
               n = length inp - 7
           in if ZIGBEE_MAX_PAYLOAD < n then (False, out)
              else (True, out\<lparr>zf_payload_len := word_of_nat n,
                              zf_payload := take n (drop 7 inp) @ drop n (zf_payload out)\<rparr>))"

definition zigbee_radio_send :: "zigbee \<Rightarrow> u16 \<Rightarrow> bytes \<Rightarrow> bool \<times> zigbee" where
  "zigbee_radio_send s dest_addr frame =
    (if frame = [] then (False, s)
     else (True,
           if length frame \<le> ZIGBEE_MAX_PAYLOAD + ZIGBEE_APS_OVERHEAD then
             (case zigbee_parse_aps_frame (Some frame) (zigbee_frame_zero\<lparr>zf_src_addr := 0, zf_dest_addr := dest_addr\<rparr>) of
                (ok, rx) \<Rightarrow> if ok then s\<lparr>zb_rx_buffer := rx, zb_rx_pending := True\<rparr> else s)
           else s))"

definition zigbee_radio_receive :: "zigbee \<Rightarrow> ZigbeeFrame_t option \<times> zigbee" where
  "zigbee_radio_receive s =
    (if \<not> zb_rx_pending s then (None, s) else (Some (zb_rx_buffer s), s\<lparr>zb_rx_pending := False\<rparr>))"

definition zigbee_init :: "zigbee \<Rightarrow> u8 \<Rightarrow> bool \<times> zigbee" where
  "zigbee_init s channel =
    (True, s\<lparr>zb_node_info := zigbee_node_zero, zb_state := ZIGBEE_STATE_IDLE, zb_rx_pending := False, zb_aps_sequence := 0,
       zb_channel := (if 11 \<le> channel \<and> channel \<le> 26 then channel else ZIGBEE_CHANNEL_DEFAULT), zb_initialised := True\<rparr>)"

definition zigbee_join :: "zigbee \<Rightarrow> ZigbeeNodeInfo_t option \<Rightarrow> ZigbeeResult_t \<times> ZigbeeNodeInfo_t option \<times> zigbee" where
  "zigbee_join s node_info =
    (if \<not> zb_initialised s then (ZIGBEE_ERR_PARAM_NULL, node_info, s)
     else if node_info = None then (ZIGBEE_ERR_PARAM_NULL, node_info, s)
     else if zb_state s \<noteq> ZIGBEE_STATE_IDLE then (ZIGBEE_ERR_SEND_FAILED, node_info, s)
     else
       let s = s\<lparr>zb_state := ZIGBEE_STATE_JOINING\<rparr>;
           s = s\<lparr>zb_node_info := \<lparr>zn_short_addr = 0x1234, zn_extended_addr = 0x00124B0014D2A1B2, zn_endpoint = 1,
                   zn_node_id = 1, zn_joined = True\<rparr>\<rparr>;
           s = s\<lparr>zb_state := ZIGBEE_STATE_JOINED\<rparr>
       in (ZIGBEE_OK, Some (zb_node_info s), s))"

definition zigbee_leave :: "zigbee \<Rightarrow> ZigbeeResult_t \<times> zigbee" where
  "zigbee_leave s =
    (if \<not> zb_initialised s then (ZIGBEE_ERR_NOT_JOINED, s)
     else if zb_state s \<noteq> ZIGBEE_STATE_JOINED then (ZIGBEE_ERR_NOT_JOINED, s)
     else
       let s = s\<lparr>zb_state := ZIGBEE_STATE_LEAVE_PENDING\<rparr>;
           s = s\<lparr>zb_node_info := zigbee_node_zero\<lparr>zn_short_addr := ZIGBEE_SHORT_ADDR_INVALID\<rparr>\<rparr>
       in (ZIGBEE_OK, s\<lparr>zb_state := ZIGBEE_STATE_IDLE, zb_rx_pending := False\<rparr>))"

definition zigbee_send :: "zigbee \<Rightarrow> u16 \<Rightarrow> u8 \<Rightarrow> bytes option \<Rightarrow> u8 \<Rightarrow> ZigbeeResult_t \<times> zigbee" where
  "zigbee_send s dest_addr dest_endpoint payload payload_len =
    (if \<not> zb_initialised s then (ZIGBEE_ERR_PARAM_NULL, s)
     else if zb_state s \<noteq> ZIGBEE_STATE_JOINED then (ZIGBEE_ERR_NOT_JOINED, s)
     else if payload = None \<or> ZIGBEE_MAX_PAYLOAD < unat payload_len then (ZIGBEE_ERR_PARAM_NULL, s)
     else (case zigbee_build_aps_frame s (zn_endpoint (zb_node_info s)) dest_endpoint payload payload_len of
         (aps_frame, s) \<Rightarrow>
           if aps_frame = [] then (ZIGBEE_ERR_PARAM_NULL, s)
           else (case zigbee_radio_send s dest_addr aps_frame of
               (send_ok, s) \<Rightarrow> (if send_ok then ZIGBEE_OK else ZIGBEE_ERR_SEND_FAILED, s))))"

definition zigbee_receive :: "zigbee \<Rightarrow> ZigbeeFrame_t option \<Rightarrow> ZigbeeResult_t \<times> ZigbeeFrame_t option \<times> zigbee" where
  "zigbee_receive s out_frame =
    (if \<not> zb_initialised s then (ZIGBEE_ERR_PARAM_NULL, out_frame, s)
     else if out_frame = None then (ZIGBEE_ERR_PARAM_NULL, out_frame, s)
     else if zb_state s \<noteq> ZIGBEE_STATE_JOINED then (ZIGBEE_ERR_NOT_JOINED, out_frame, s)
     else (case zigbee_radio_receive s of
         (Some f, s) \<Rightarrow> (ZIGBEE_OK, Some f, s)
       | (None, s) \<Rightarrow> (ZIGBEE_ERR_NO_DATA, out_frame, s)))"

definition zigbee_is_joined :: "zigbee \<Rightarrow> bool" where
  "zigbee_is_joined s \<longleftrightarrow> zb_state s = ZIGBEE_STATE_JOINED"

section \<open>Frames\<close>

lemmas zigbee_consts = ZIGBEE_MAX_PAYLOAD_def ZIGBEE_APS_OVERHEAD_def

text \<open>The largest payload a frame really carries.\<close>

definition zigbee_mtu :: nat where "zigbee_mtu = ZIGBEE_MAX_PAYLOAD - ZIGBEE_APS_OVERHEAD"

lemma zigbee_mtu_eq: "zigbee_mtu = 65"
  by (simp add: zigbee_mtu_def zigbee_consts)

lemma build_too_long: "zigbee_mtu < unat len \<Longrightarrow> zigbee_build_aps_frame s a b p len = ([], s)"
  by (simp add: zigbee_build_aps_frame_def zigbee_mtu_def)

lemma build_fits:
  "unat len \<le> zigbee_mtu \<Longrightarrow> zigbee_build_aps_frame s a b (Some p) len =
    ([b, a] @ le_bytes16 ZIGBEE_CLUSTER_DEFAULT @ le_bytes16 ZIGBEE_PROFILE_HOME @ [zb_aps_sequence s] @ take (unat len) p,
     s\<lparr>zb_aps_sequence := zb_aps_sequence s + 1\<rparr>)"
  by (auto simp: zigbee_build_aps_frame_def zigbee_mtu_def Let_def word_gt_0)

text \<open>What the loopback radio holds after a payload was sent.\<close>

definition zigbee_looped :: "zigbee \<Rightarrow> u16 \<Rightarrow> u8 \<Rightarrow> bytes \<Rightarrow> u8 \<Rightarrow> ZigbeeFrame_t" where
  "zigbee_looped s d ep p len = \<lparr>zf_src_addr = 0, zf_dest_addr = d, zf_src_endpoint = zn_endpoint (zb_node_info s),
     zf_dest_endpoint = ep, zf_payload_len = len,
     zf_payload = take (unat len) p @ replicate (ZIGBEE_MAX_PAYLOAD - unat len) 0\<rparr>"

lemma parse_built:
  assumes "unat len \<le> length p" and "unat len \<le> zigbee_mtu"
  shows "zigbee_parse_aps_frame (Some ([b, a] @ le_bytes16 c @ le_bytes16 f @ [q] @ take (unat len) p)) out =
    (True, out\<lparr>zf_dest_endpoint := b, zf_src_endpoint := a, zf_payload_len := len,
       zf_payload := take (unat len) p @ drop (unat len) (zf_payload out)\<rparr>)"
  using assms by (simp add: zigbee_parse_aps_frame_def le_bytes16_def Let_def zigbee_mtu_eq zigbee_consts)

lemma send_fits:
  assumes "zb_initialised s" and "zigbee_is_joined s" and "unat len \<le> length p" and "unat len \<le> zigbee_mtu"
  shows "zigbee_send s d ep (Some p) len = (ZIGBEE_OK, s\<lparr>zb_aps_sequence := zb_aps_sequence s + 1,
     zb_rx_buffer := zigbee_looped s d ep p len, zb_rx_pending := True\<rparr>)"
proof -
  let ?f = "[ep, zn_endpoint (zb_node_info s)] @ le_bytes16 ZIGBEE_CLUSTER_DEFAULT @ le_bytes16 ZIGBEE_PROFILE_HOME
    @ [zb_aps_sequence s] @ take (unat len) p"
  have "length ?f \<le> ZIGBEE_MAX_PAYLOAD + ZIGBEE_APS_OVERHEAD"
    using assms(3,4) by (simp add: zigbee_consts le_bytes16_def zigbee_mtu_eq)
  then have radio: "zigbee_radio_send (s\<lparr>zb_aps_sequence := zb_aps_sequence s + 1\<rparr>) d ?f =
      (True, s\<lparr>zb_aps_sequence := zb_aps_sequence s + 1, zb_rx_buffer := zigbee_looped s d ep p len, zb_rx_pending := True\<rparr>)"
    unfolding zigbee_radio_send_def parse_built[OF assms(3,4)]
    by (simp add: zigbee_looped_def zigbee_frame_zero_def)
  have small: "\<not> ZIGBEE_MAX_PAYLOAD < unat len" using assms(4) by (simp add: zigbee_mtu_def)
  show ?thesis
    unfolding zigbee_send_def build_fits[OF assms(4)] prod.case radio
    using assms(1,2) small by (simp add: zigbee_is_joined_def)
qed

section \<open>Well-formed states\<close>

definition zigbee_wf :: "zigbee \<Rightarrow> bool" where
  "zigbee_wf s \<longleftrightarrow> zb_state s \<in> (if zb_initialised s then {ZIGBEE_STATE_IDLE, ZIGBEE_STATE_JOINED} else {ZIGBEE_STATE_UNINIT})
     \<and> (zn_joined (zb_node_info s) \<longleftrightarrow> zigbee_is_joined s)
     \<and> 11 \<le> zb_channel s \<and> zb_channel s \<le> 26
     \<and> (zb_rx_pending s \<longrightarrow> zigbee_is_joined s)
     \<and> length (zf_payload (zb_rx_buffer s)) = ZIGBEE_MAX_PAYLOAD \<and> unat (zf_payload_len (zb_rx_buffer s)) \<le> zigbee_mtu"

inductive zigbee_step :: "zigbee \<Rightarrow> zigbee \<Rightarrow> bool" where
  init: "zigbee_step s (snd (zigbee_init s channel))"
| join: "zigbee_step s (snd (snd (zigbee_join s info)))"
| leave: "zigbee_step s (snd (zigbee_leave s))"
| send: "unat len \<le> length p \<Longrightarrow> zigbee_step s (snd (zigbee_send s d ep (Some p) len))"
| receive: "zigbee_step s (snd (snd (zigbee_receive s out)))"

lemma send_refused:
  "\<not> (zb_initialised s \<and> zigbee_is_joined s \<and> unat len \<le> zigbee_mtu) \<Longrightarrow>
     zigbee_send s d ep (Some p) len = (if zb_initialised s \<and> \<not> zigbee_is_joined s then ZIGBEE_ERR_NOT_JOINED
       else ZIGBEE_ERR_PARAM_NULL, s)"
  by (auto simp: zigbee_send_def zigbee_is_joined_def build_too_long not_le)

lemma zigbee_wf_send:
  assumes "zigbee_wf s" and "unat len \<le> length p"
  shows "zigbee_wf (snd (zigbee_send s d ep (Some p) len))"
proof (cases "zb_initialised s \<and> zigbee_is_joined s \<and> unat len \<le> zigbee_mtu")
  case True
  then show ?thesis using send_fits[of s len p d ep] assms
    by (auto simp: zigbee_wf_def zigbee_is_joined_def zigbee_looped_def zigbee_mtu_eq zigbee_consts)
qed (use assms send_refused in auto)

lemma zigbee_wf_step: "zigbee_step s s' \<Longrightarrow> zigbee_wf s \<Longrightarrow> zigbee_wf s'"
proof (induction rule: zigbee_step.induct)
  case (receive s out)
  then show ?case by (auto simp: zigbee_receive_def zigbee_radio_receive_def zigbee_wf_def zigbee_is_joined_def split: if_splits)
next
  case (send len p s d ep)
  then show ?case by (simp add: zigbee_wf_send)
qed (auto simp: zigbee_init_def zigbee_join_def zigbee_leave_def zigbee_wf_def zigbee_is_joined_def
    zigbee_node_zero_def ZIGBEE_CHANNEL_DEFAULT_def Let_def split: if_splits)

lemma zigbee_wf_boot: "zigbee_wf zigbee_boot"
  by (simp add: zigbee_boot_def zigbee_wf_def zigbee_is_joined_def zigbee_node_zero_def zigbee_frame_zero_def
      ZIGBEE_CHANNEL_DEFAULT_def)

interpretation zigbee: invariant_system "\<lambda>s. s = zigbee_boot" zigbee_step zigbee_wf
  by unfold_locales (auto simp: zigbee_wf_step zigbee_wf_boot)

section \<open>Properties\<close>

text \<open>
  In every state the handler can reach, a payload of at most 65 bytes sent while joined is accepted and the next
  receive returns exactly it, with its endpoints and length; every longer payload is refused and changes nothing,
  also the ones of 66 to 72 bytes that the interface admits; and while not joined nothing is sent or received.
\<close>

theorem zigbee_transfer:
  assumes "zigbee_step\<^sup>*\<^sup>* zigbee_boot s" and "unat len \<le> length p"
  shows "if zigbee_is_joined s \<and> unat len \<le> 65
    then \<exists>s'. zigbee_send s d ep (Some p) len = (ZIGBEE_OK, s') \<and>
      zigbee_receive s' (Some out) = (ZIGBEE_OK, Some \<lparr>zf_src_addr = 0, zf_dest_addr = d,
        zf_src_endpoint = zn_endpoint (zb_node_info s), zf_dest_endpoint = ep, zf_payload_len = len,
        zf_payload = take (unat len) p @ replicate (72 - unat len) 0\<rparr>, s'\<lparr>zb_rx_pending := False\<rparr>)
    else fst (zigbee_send s d ep (Some p) len) \<noteq> ZIGBEE_OK \<and> snd (zigbee_send s d ep (Some p) len) = s \<and>
      (zigbee_is_joined s \<or> fst (zigbee_receive s (Some out)) \<noteq> ZIGBEE_OK)"
proof -
  have wf: "zigbee_wf s" using zigbee.reachable_inv[OF refl assms(1)] .
  show ?thesis
  proof (cases "zigbee_is_joined s \<and> unat len \<le> 65")
    case True
    then have "zb_initialised s" using wf by (auto simp: zigbee_wf_def zigbee_is_joined_def split: if_splits)
    then show ?thesis using True send_fits[of s len p d ep] assms(2)
      by (simp add: zigbee_mtu_eq) (simp add: zigbee_receive_def zigbee_radio_receive_def zigbee_is_joined_def zigbee_looped_def zigbee_consts)
  next
    case False
    then show ?thesis using send_refused[of s len d ep p]
      by (auto simp: zigbee_mtu_eq zigbee_receive_def zigbee_is_joined_def)
  qed
qed

definition demo_zigbee :: zigbee where
  "demo_zigbee = snd (snd (zigbee_join (snd (zigbee_init zigbee_boot 0)) (Some zigbee_node_zero)))"

lemma demo_zigbee_reachable: "zigbee_step\<^sup>*\<^sup>* zigbee_boot demo_zigbee"
  unfolding demo_zigbee_def using zigbee_step.init zigbee_step.join by (meson converse_rtranclp_into_rtranclp r_into_rtranclp)

lemma demo_zigbee_joined: "zigbee_is_joined demo_zigbee"
  by (simp add: demo_zigbee_def zigbee_join_def zigbee_init_def zigbee_is_joined_def Let_def)

theorem zigbee_transfer_witness:
  "fst (zigbee_send demo_zigbee 1 2 (Some (replicate 72 9)) 65) = ZIGBEE_OK \<and>
   fst (zigbee_send demo_zigbee 1 2 (Some (replicate 72 9)) 66) \<noteq> ZIGBEE_OK"
  using zigbee_transfer[OF demo_zigbee_reachable, of 65 "replicate 72 9" 1 2 zigbee_frame_zero]
    zigbee_transfer[OF demo_zigbee_reachable, of 66 "replicate 72 9" 1 2 zigbee_frame_zero]
  by (auto simp: demo_zigbee_joined)

end
