(* ===== verification/Hub.thy ===== *)
theory Hub
  imports Ingestion_Handler Profiles Lora Zigbee Replay_Protection Boot_Security Config_Portal Device_Crypto
begin

text \<open>
  The start-up of the hub (\<open>firmware/hub/main.c\<close>, and the loop of \<open>firmware/hub/app_main.cpp\<close>): the adapters that turn
  a radio into the byte source of the ingestion handler, the initialisation of the modules in their order, and the
  polling loop.  The macro that selects the domain profile at compile time is an argument, \<open>None\<close> for the native build.
  The hub's state gathers the states of the modules it starts; those the ingestion handler calls are in its own record,
  and so are, from \<open>ingestion_handler_init\<close> on, the two trackers it was given pointers to.  Console output is left out.
\<close>

section \<open>Data\<close>

datatype build_profile = PROFILE_HOME | PROFILE_AGRICULTURE | PROFILE_HVAC | PROFILE_WATER_TREATMENT

text \<open>A build has one of the two radios; the record has room for both.\<close>

record hub_radio =
  hr_zigbee :: zigbee
  hr_lora :: lora

record ('cp, 'st) hub =
  hb_attestation :: attestation
  hb_transport :: transport
  hb_replay :: replay
  hb_firmware_integrity :: firmware_integrity
  hb_failsafe :: failsafe
  hb_portal :: "'cp config_portal"
  hb_gw_tracker :: GatewayGatewayTracker_t
  hb_edge_tracker :: EdgeNodeTracker_t
  hb_ingestion :: "(unit, hub_radio, 'st) ingestion"
  hb_last_poll_ms :: u32

section \<open>Radio adapters\<close>

definition zigbee_radio_adapter :: "nat \<Rightarrow> hub_radio \<Rightarrow> bytes option \<times> hub_radio" where
  "zigbee_radio_adapter max_len r =
    (case zigbee_receive (hr_zigbee r) (Some zigbee_frame_zero) of
       (res, out, z) \<Rightarrow>
         let r = r\<lparr>hr_zigbee := z\<rparr>
         in (case (res, out) of
               (ZIGBEE_OK, Some frame) \<Rightarrow>
                 if zf_payload_len frame = 0 then (None, r)
                 else if max_len < unat (zf_payload_len frame) then (None, r)
                 else (Some (take (unat (zf_payload_len frame)) (zf_payload frame)), r)
             | _ \<Rightarrow> (None, r)))"

definition lora_radio_adapter :: "nat \<Rightarrow> hub_radio \<Rightarrow> bytes option \<times> hub_radio" where
  "lora_radio_adapter max_len r =
    (case lora_receive (hr_lora r) (Some lora_frame_zero) of
       (res, out, l) \<Rightarrow>
         let r = r\<lparr>hr_lora := l\<rparr>
         in (case (res, out) of
               (LORA_OK, Some frame) \<Rightarrow>
                 if lf_payload_len frame = 0 then (None, r)
                 else if max_len < unat (lf_payload_len frame) then (None, r)
                 else (Some (take (unat (lf_payload_len frame)) (lf_payload frame)), r)
             | _ \<Rightarrow> (None, r)))"

section \<open>Start-up\<close>

text \<open>The size of the buffer that \<open>ingestion_handler_poll\<close> hands to the radio.\<close>

definition RADIO_BUFFER_SIZE :: nat where "RADIO_BUFFER_SIZE = 256"

definition zero_key :: bytes where "zero_key = replicate 32 0"

definition profile_failsafe :: "build_profile \<Rightarrow> failsafe \<Rightarrow> bool \<times> failsafe" where
  "profile_failsafe p g =
    (case p of
       PROFILE_HOME \<Rightarrow> home_failsafe_register_all g
     | PROFILE_AGRICULTURE \<Rightarrow> agriculture_failsafe_register_all g
     | PROFILE_HVAC \<Rightarrow> hvac_failsafe_register_all g
     | PROFILE_WATER_TREATMENT \<Rightarrow> water_failsafe_register_all g)"

definition ih_config ::
  "build_profile \<Rightarrow> GatewayGatewayTracker_t \<Rightarrow> EdgeNodeTracker_t \<Rightarrow> (unit, hub_radio) IngestionHandlerConfig_t"
where
  "ih_config p gw edge =
    (let c = \<lparr>ic_gw_tracker = Some gw, ic_edge_tracker = Edge_Tracker edge, ic_vtable = None, ic_radio_receive = None,
              ic_bounds_lookup = None, ic_history_lookup = None, ic_domain_profile_id = 0\<rparr>
     in case p of
          PROFILE_HOME \<Rightarrow> c\<lparr>ic_vtable := Some home_profile_vtable,
            ic_radio_receive := Some (zigbee_radio_adapter RADIO_BUFFER_SIZE),
            ic_bounds_lookup := Some home_get_validation_bounds, ic_domain_profile_id := 0\<rparr>
        | PROFILE_AGRICULTURE \<Rightarrow> c\<lparr>ic_vtable := Some agriculture_profile_vtable,
            ic_radio_receive := Some (lora_radio_adapter RADIO_BUFFER_SIZE),
            ic_bounds_lookup := Some agriculture_get_validation_bounds, ic_domain_profile_id := 1\<rparr>
        | PROFILE_HVAC \<Rightarrow> c\<lparr>ic_vtable := Some hvac_profile_vtable,
            ic_radio_receive := Some (lora_radio_adapter RADIO_BUFFER_SIZE),
            ic_bounds_lookup := Some hvac_get_validation_bounds, ic_domain_profile_id := 2\<rparr>
        | PROFILE_WATER_TREATMENT \<Rightarrow> c\<lparr>ic_vtable := Some water_profile_vtable,
            ic_radio_receive := Some (lora_radio_adapter RADIO_BUFFER_SIZE),
            ic_bounds_lookup := Some water_get_validation_bounds, ic_domain_profile_id := 3\<rparr>)"

text \<open>The part of \<open>hub_init\<close> after the configuration portal; the trackers are set up twice.\<close>

definition hub_init_ingestion :: "build_profile option \<Rightarrow> ('cp, 'st) hub \<Rightarrow> bool \<times> ('cp, 'st) hub" where
  "hub_init_ingestion profile g =
    (let g = g\<lparr>hb_gw_tracker := gateway_tracker_init (hb_gw_tracker g) 0xF0 (Some zero_key),
              hb_edge_tracker := edge_tracker_init 0\<rparr>;
         g = g\<lparr>hb_ingestion := (hb_ingestion g)\<lparr>in_historian := snd (historian_init (in_historian (hb_ingestion g)))\<rparr>\<rparr>;
         g = g\<lparr>hb_gw_tracker := gateway_tracker_init (hb_gw_tracker g) 0xF0 (Some zero_key),
              hb_edge_tracker := edge_tracker_init 0\<rparr>
     in case profile of
          None \<Rightarrow> (True, g)
        | Some p \<Rightarrow>
            (case ingestion_handler_init (hb_ingestion g) (Some (ih_config p (hb_gw_tracker g) (hb_edge_tracker g))) of
               (ok, ih) \<Rightarrow> let g = g\<lparr>hb_ingestion := ih\<rparr> in if \<not> ok then (False, g) else (True, g)))"

definition hub_init :: "build_profile option \<Rightarrow> ('cp, 'st) hub \<Rightarrow> bool \<times> ('cp, 'st) hub" where
  "hub_init profile g =
    (let (ok, keys) = attestation_init (hb_attestation g); g = g\<lparr>hb_attestation := keys\<rparr> in if \<not> ok then (False, g) else
     let (ok, tr) = transport_init (hb_transport g); g = g\<lparr>hb_transport := tr\<rparr> in if \<not> ok then (False, g) else
     let (ok, rp) = replay_init (hb_replay g); g = g\<lparr>hb_replay := rp\<rparr> in if \<not> ok then (False, g) else
     let (ok, fi) = firmware_integrity_init (hb_firmware_integrity g); g = g\<lparr>hb_firmware_integrity := fi\<rparr>
       in if \<not> ok then (False, g) else
     let (ok, re) = rule_engine_init (in_rules (hb_ingestion g));
         g = g\<lparr>hb_ingestion := (hb_ingestion g)\<lparr>in_rules := re\<rparr>\<rparr> in if \<not> ok then (False, g) else
     let (ok, sv) = sensor_validation_init (in_validation (hb_ingestion g));
         g = g\<lparr>hb_ingestion := (hb_ingestion g)\<lparr>in_validation := sv\<rparr>\<rparr> in if \<not> ok then (False, g) else
     let (ok, fs) = actuator_failsafe_init (hb_failsafe g); g = g\<lparr>hb_failsafe := fs\<rparr> in if \<not> ok then (False, g) else
     let (ok, fs) = (case profile of None \<Rightarrow> (True, hb_failsafe g) | Some p \<Rightarrow> profile_failsafe p (hb_failsafe g));
         g = g\<lparr>hb_failsafe := fs\<rparr> in if \<not> ok then (False, g) else
     let (ok, cp) = config_portal_init (hb_portal g); g = g\<lparr>hb_portal := cp\<rparr> in if \<not> ok then (False, g) else
     hub_init_ingestion profile g)"

text \<open>One pass of \<open>loop()\<close> at the time \<open>now_ms\<close> of \<open>millis()\<close>.\<close>

definition hub_loop ::
  "md_hmac \<Rightarrow> ccm_enc \<Rightarrow> ccm_dec \<Rightarrow> u32 \<Rightarrow> ('cp, 'st) hub \<Rightarrow> ('cp, 'st) hub"
where
  "hub_loop md enc dec now_ms g =
    (if now_ms - hb_last_poll_ms g \<ge> 1000
     then g\<lparr>hb_last_poll_ms := now_ms, hb_ingestion := snd (ingestion_handler_poll md enc dec (hb_ingestion g) (ucast now_ms))\<rparr>
     else g)"

section \<open>The state after start-up\<close>

lemma inits_ok:
  "fst (attestation_init a) = True" "fst (transport_init b) = True" "fst (replay_init c) = True"
  "fst (firmware_integrity_init d) = True" "fst (rule_engine_init e) = True" "fst (sensor_validation_init f) = True"
  "fst (actuator_failsafe_init h) = True" "fst (config_portal_init i) = True"
  by (simp_all add: attestation_init_def transport_init_def replay_init_def firmware_integrity_init_def
      rule_engine_init_def sensor_validation_init_def actuator_failsafe_init_def config_portal_init_def Let_def)

definition profile_table :: "build_profile \<Rightarrow> ActuatorFailSafeEntry_t list" where
  "profile_table p =
    (case p of PROFILE_HOME \<Rightarrow> home_failsafe_table | PROFILE_AGRICULTURE \<Rightarrow> agriculture_failsafe_table
     | PROFILE_HVAC \<Rightarrow> hvac_failsafe_table | PROFILE_WATER_TREATMENT \<Rightarrow> water_failsafe_table)"

lemma profile_registers:
  "\<exists>g'. profile_failsafe p (snd (actuator_failsafe_init g)) = (True, g') \<and>
     (\<forall>a. failsafe_get g' a = find (\<lambda>e. fs_actuator_id e = a) (rev (profile_table p)))"
  using home.registers[of g] agriculture.registers[of g] hvac.registers[of g] water.registers[of g]
  by (cases p) (auto simp: profile_failsafe_def profile_table_def home_failsafe_register_all_def
      agriculture_failsafe_register_all_def hvac_failsafe_register_all_def water_failsafe_register_all_def)

definition fresh_tracker :: GatewayGatewayTracker_t where
  "fresh_tracker = gateway_tracker_init undefined 0xF0 (Some zero_key)"

lemma tracker_init_fresh: "gateway_tracker_init t 0xF0 (Some zero_key) = fresh_tracker"
  by (simp add: fresh_tracker_def gateway_tracker_init_def)

lemma fresh_tracker_untrusted: "\<not> gt_authenticated fresh_tracker"
  by (simp add: fresh_tracker_def gateway_tracker_init_def)

lemma ih_config_sel [simp]:
  "ic_gw_tracker (ih_config p gw edge) = Some gw" "ic_edge_tracker (ih_config p gw edge) = Edge_Tracker edge"
  "ic_vtable (ih_config p gw edge) \<noteq> None" "ic_radio_receive (ih_config p gw edge) \<noteq> None"
  "ic_history_lookup (ih_config p gw edge) = None"
  by (cases p; simp add: ih_config_def)+

lemma hub_init_ingestion_eq:
  "\<exists>g'. hub_init_ingestion (Some p) g = (True, g') \<and> hb_failsafe g' = hb_failsafe g
    \<and> hb_ingestion g' = (hb_ingestion g)\<lparr>in_historian := snd (historian_init (in_historian (hb_ingestion g))),
        in_config := ih_config p fresh_tracker (edge_tracker_init 0), in_stats := ingestion_stats_zero, in_initialised := True\<rparr>"
  by (simp add: hub_init_ingestion_def ingestion_handler_init_def tracker_init_fresh Let_def)

lemma hub_init_eq:
  "\<exists>g'. hub_init (Some p) g = (True, g')
    \<and> (\<forall>a. failsafe_get (hb_failsafe g') a = find (\<lambda>e. fs_actuator_id e = a) (rev (profile_table p)))
    \<and> hb_ingestion g' = (hb_ingestion g)\<lparr>in_rules := snd (rule_engine_init (in_rules (hb_ingestion g))),
        in_validation := snd (sensor_validation_init (in_validation (hb_ingestion g))),
        in_historian := snd (historian_init (in_historian (hb_ingestion g))),
        in_config := ih_config p fresh_tracker (edge_tracker_init 0), in_stats := ingestion_stats_zero, in_initialised := True\<rparr>"
proof -
  obtain fs where fs: "profile_failsafe p (snd (actuator_failsafe_init (hb_failsafe g))) = (True, fs)"
    "\<forall>a. failsafe_get fs a = find (\<lambda>e. fs_actuator_id e = a) (rev (profile_table p))" using profile_registers by blast
  define g1 where "g1 = g\<lparr>hb_attestation := snd (attestation_init (hb_attestation g)),
    hb_transport := snd (transport_init (hb_transport g)), hb_replay := snd (replay_init (hb_replay g)),
    hb_firmware_integrity := snd (firmware_integrity_init (hb_firmware_integrity g)),
    hb_ingestion := (hb_ingestion g)\<lparr>in_rules := snd (rule_engine_init (in_rules (hb_ingestion g))),
        in_validation := snd (sensor_validation_init (in_validation (hb_ingestion g)))\<rparr>,
    hb_failsafe := fs, hb_portal := snd (config_portal_init (hb_portal g))\<rparr>"
  have "hub_init (Some p) g = hub_init_ingestion (Some p) g1"
    by (simp add: hub_init_def g1_def case_prod_beta inits_ok Let_def fs(1))
  moreover obtain g' where "hub_init_ingestion (Some p) g1 = (True, g')" "hb_failsafe g' = hb_failsafe g1"
    "hb_ingestion g' = (hb_ingestion g1)\<lparr>in_historian := snd (historian_init (in_historian (hb_ingestion g1))),
        in_config := ih_config p fresh_tracker (edge_tracker_init 0), in_stats := ingestion_stats_zero, in_initialised := True\<rparr>"
    using hub_init_ingestion_eq by blast
  ultimately show ?thesis using fs(2) by (simp add: g1_def)
qed

section \<open>A hub that trusts no gateway\<close>

text \<open>What a poll may change before a gateway is authenticated: the radio, the clock, the log and three counters.\<close>

definition untrusted :: "('p, 'r, 'st) ingestion \<Rightarrow> bool" where
  "untrusted h \<longleftrightarrow> (\<exists>t. ic_gw_tracker (in_config h) = Some t \<and> \<not> gt_authenticated t)"

definition nothing_done :: "('p, 'r, 'st) ingestion \<Rightarrow> ('p, 'r, 'st) ingestion \<Rightarrow> bool" where
  "nothing_done h h' \<longleftrightarrow> in_historian h' = in_historian h \<and> in_profile h' = in_profile h \<and> in_histories h' = in_histories h
     \<and> is_frames_ingested (in_stats h') = is_frames_ingested (in_stats h)
     \<and> is_entries_processed (in_stats h') = is_entries_processed (in_stats h)
     \<and> is_rules_triggered (in_stats h') = is_rules_triggered (in_stats h)
     \<and> is_frames_received (in_stats h') - is_frames_rejected (in_stats h') = is_frames_received (in_stats h) - is_frames_rejected (in_stats h)"

lemma ingest_untrusted:
  "\<not> gt_authenticated t \<Longrightarrow> gateway_ingest_frame md env (Some t) et (Some f) k = (GW_FRAME_ERR_NOT_AUTH, None, Some t, env)"
  by (simp add: gateway_ingest_frame_def gateway_verify_frame_def)

lemma poll_untrusted:
  assumes "untrusted h"
  shows "fst (ingestion_handler_poll md enc dec h now) = 0
    \<and> untrusted (snd (ingestion_handler_poll md enc dec h now)) \<and> nothing_done h (snd (ingestion_handler_poll md enc dec h now))"
proof -
  obtain t where t: "ic_gw_tracker (in_config h) = Some t" "\<not> gt_authenticated t" using assms by (auto simp: untrusted_def)
  show ?thesis
    using t by (auto simp: ingestion_handler_poll_def Let_def upd_stats_def ingest_untrusted untrusted_def nothing_done_def
        split: option.split prod.split)
qed

text \<open>The hub's loop over a sequence of passes, each at its time and with what the radio has received by then.\<close>

definition hub_pass ::
  "md_hmac \<Rightarrow> ccm_enc \<Rightarrow> ccm_dec \<Rightarrow> ('cp, 'st) hub \<Rightarrow> u32 \<times> hub_radio \<Rightarrow> ('cp, 'st) hub"
where
  "hub_pass md enc dec g ev = hub_loop md enc dec (fst ev) (g\<lparr>hb_ingestion := (hb_ingestion g)\<lparr>in_radio := snd ev\<rparr>\<rparr>)"

lemma nothing_done_refl: "nothing_done h h"
  by (simp add: nothing_done_def)

lemma nothing_done_trans: "nothing_done h1 h2 \<Longrightarrow> nothing_done h2 h3 \<Longrightarrow> nothing_done h1 h3"
  by (simp add: nothing_done_def)

lemma pass_untrusted:
  assumes "untrusted (hb_ingestion g)"
  shows "untrusted (hb_ingestion (hub_pass md enc dec g ev)) \<and> nothing_done (hb_ingestion g) (hb_ingestion (hub_pass md enc dec g ev))"
proof -
  let ?h = "(hb_ingestion g)\<lparr>in_radio := snd ev\<rparr>"
  have "untrusted ?h" "nothing_done (hb_ingestion g) ?h" using assms by (simp_all add: untrusted_def nothing_done_def)
  then show ?thesis using poll_untrusted[of ?h md enc dec "ucast (fst ev)"] nothing_done_trans[of "hb_ingestion g" ?h]
    by (simp add: hub_pass_def hub_loop_def)
qed

lemma passes_untrusted:
  "untrusted (hb_ingestion g) \<Longrightarrow> nothing_done (hb_ingestion g) (hb_ingestion (foldl (hub_pass md enc dec) g evs))"
proof (induction evs arbitrary: g)
  case (Cons ev evs)
  from pass_untrusted[OF Cons.prems, of md enc dec ev] Cons.IH[of "hub_pass md enc dec g ev"]
  show ?case using nothing_done_trans by fastforce
qed (simp add: nothing_done_refl)

section \<open>The radios as links to the hub\<close>

text \<open>The sending side in the same terms as the adapters: the C call with the length of the byte string.\<close>

definition lora_link_send :: "u16 \<Rightarrow> hub_radio \<Rightarrow> bytes \<Rightarrow> bool \<times> hub_radio" where
  "lora_link_send d r p =
    (case lora_send (hr_lora r) d (Some p) (word_of_nat (length p)) of (res, l) \<Rightarrow> (res = LORA_OK, r\<lparr>hr_lora := l\<rparr>))"

definition zigbee_link_send :: "u16 \<Rightarrow> u8 \<Rightarrow> hub_radio \<Rightarrow> bytes \<Rightarrow> bool \<times> hub_radio" where
  "zigbee_link_send d ep r p =
    (case zigbee_send (hr_zigbee r) d ep (Some p) (word_of_nat (length p)) of
       (res, z) \<Rightarrow> (res = ZIGBEE_OK, r\<lparr>hr_zigbee := z\<rparr>))"

definition lora_link_ready :: "hub_radio \<Rightarrow> bool" where
  "lora_link_ready r \<longleftrightarrow> lora_is_ready (hr_lora r) \<and> unat (lo_mock_ack_fail_count (hr_lora r)) \<le> LORA_MAX_RETRIES"

definition zigbee_link_ready :: "hub_radio \<Rightarrow> bool" where
  "zigbee_link_ready r \<longleftrightarrow> zb_initialised (hr_zigbee r) \<and> zigbee_is_joined (hr_zigbee r)"

lemma word_length_pos: "p \<noteq> [] \<Longrightarrow> length p \<le> 255 \<Longrightarrow> word_of_nat (length p) \<noteq> (0 :: u8)"
  using unat_word_of_nat_small[of "length p", where 'a = 8] by (auto simp flip: unat_eq_0)

interpretation lora_link: datagram_link lora_link_ready LORA_MAX_PAYLOAD "lora_link_send d" "lora_radio_adapter RADIO_BUFFER_SIZE" for d
proof
  fix r :: hub_radio and p :: bytes
  let ?l = "hr_lora r" and ?n = "word_of_nat (length p) :: u8"
  assume r: "lora_link_ready r" and p: "p \<noteq> []" "length p \<le> LORA_MAX_PAYLOAD"
  let ?l1 = "lora_sent (Suc (unat (lo_mock_ack_fail_count ?l))) True d p ?n ?l"
  have len: "unat ?n = length p" using p(2) by (simp add: unat_word_of_nat_small LORA_MAX_PAYLOAD_def)
  have send: "lora_send ?l d (Some p) ?n = (LORA_OK, ?l1)"
    using send_ready_eq[of ?l ?n p d] r len by (simp add: lora_link_ready_def Let_def)
  have fails: "lo_mock_ack_fail_count ?l1 = 0" by (simp add: lora_sent_def)
  have ready1: "lora_is_ready ?l1" "lo_rx_pending ?l1" "lo_rx_buffer ?l1 = looped_frame d (lo_tx_seq ?l) p ?n"
    using r by (simp_all add: lora_link_ready_def lora_is_ready_def lora_sent_def)
  have rx: "\<exists>l2. lora_receive ?l1 (Some lora_frame_zero) = (LORA_OK, Some (looped_frame d (lo_tx_seq ?l) p ?n), l2)
      \<and> lora_is_ready l2 \<and> lo_mock_ack_fail_count l2 = 0"
    using receive_pending[OF ready1(1,2), of lora_frame_zero] ready1 len p(2) fails
    by (simp add: looped_frame_def lora_frame_zero_def lora_is_ready_def)
  then obtain l2 where l2: "lora_receive ?l1 (Some lora_frame_zero) = (LORA_OK, Some (looped_frame d (lo_tx_seq ?l) p ?n), l2)"
    "lora_is_ready l2" "lo_mock_ack_fail_count l2 = 0" by blast
  have nz: "?n \<noteq> 0" using word_length_pos[of p] p by (simp add: LORA_MAX_PAYLOAD_def)
  have "lora_radio_adapter RADIO_BUFFER_SIZE (r\<lparr>hr_lora := ?l1\<rparr>) = (Some p, r\<lparr>hr_lora := l2\<rparr>)"
    using nz p(2) len by (simp add: lora_radio_adapter_def l2(1) looped_frame_def RADIO_BUFFER_SIZE_def LORA_MAX_PAYLOAD_def)
  then show "\<exists>s1 s2. lora_link_send d r p = (True, s1) \<and> lora_link_ready s1 \<and>
      lora_radio_adapter RADIO_BUFFER_SIZE s1 = (Some p, s2) \<and> lora_link_ready s2"
    using send ready1(1) fails l2(2,3) by (simp add: lora_link_send_def lora_link_ready_def)
qed

interpretation zigbee_link: datagram_link zigbee_link_ready zigbee_mtu "zigbee_link_send d ep" "zigbee_radio_adapter RADIO_BUFFER_SIZE"
  for d ep
proof
  fix r :: hub_radio and p :: bytes
  let ?z = "hr_zigbee r" and ?n = "word_of_nat (length p) :: u8"
  assume r: "zigbee_link_ready r" and p: "p \<noteq> []" "length p \<le> zigbee_mtu"
  have len: "unat ?n = length p" using p(2) by (simp add: unat_word_of_nat_small zigbee_mtu_eq)
  have nz: "?n \<noteq> 0" using word_length_pos[of p] p by (simp add: zigbee_mtu_eq)
  let ?z1 = "?z\<lparr>zb_aps_sequence := zb_aps_sequence ?z + 1, zb_rx_buffer := zigbee_looped ?z d ep p ?n, zb_rx_pending := True\<rparr>"
  have send: "zigbee_send ?z d ep (Some p) ?n = (ZIGBEE_OK, ?z1)"
    using r p(2) len by (intro send_fits) (simp_all add: zigbee_link_ready_def)
  have "zigbee_receive ?z1 (Some zigbee_frame_zero) = (ZIGBEE_OK, Some (zigbee_looped ?z d ep p ?n), ?z1\<lparr>zb_rx_pending := False\<rparr>)"
    using r by (simp add: zigbee_receive_def zigbee_radio_receive_def zigbee_link_ready_def zigbee_is_joined_def)
  then have "zigbee_radio_adapter RADIO_BUFFER_SIZE (r\<lparr>hr_zigbee := ?z1\<rparr>) = (Some p, r\<lparr>hr_zigbee := ?z1\<lparr>zb_rx_pending := False\<rparr>\<rparr>)"
    using nz p(2) len by (simp add: zigbee_radio_adapter_def zigbee_looped_def RADIO_BUFFER_SIZE_def zigbee_mtu_eq)
  then show "\<exists>s1 s2. zigbee_link_send d ep r p = (True, s1) \<and> zigbee_link_ready s1 \<and>
      zigbee_radio_adapter RADIO_BUFFER_SIZE s1 = (Some p, s2) \<and> zigbee_link_ready s2"
    using send r by (simp add: zigbee_link_send_def zigbee_link_ready_def zigbee_is_joined_def)
qed

lemma length_flush_frame: "md_hmac_ok md \<Longrightarrow> length (flush_frame md ctx dirty) = 40 + 7 * length dirty"
  using length_encode_entries[of "map batch_entry_of dirty"]
  by (simp add: flush_frame_def flush_body_def ATTESTATION_HMAC_SIZE_def del: length_encode_entries map_map)

section \<open>From the gateway's cache to the historian\<close>

lemma end_to_end:
  assumes "bf_send_func b = Some send" and "bf_auth_ctx b = Some ctx" and "ga_state ctx = GW_AUTH_AUTHENTICATED"
    and "cache_get_dirty c 22 \<noteq> []"
    and "in_initialised g" and "ic_vtable (in_config g) = Some vt" and "ic_radio_receive (in_config g) = Some receive"
    and "receive (in_radio g) = (fst (snd (batch_forwarder_flush device_hmac b c)), r)"
    and "ic_gw_tracker (in_config g) = Some t" and "gt_authenticated t" and "gt_session_key t = ga_session_key ctx"
    and "ic_edge_tracker (in_config g) \<noteq> Edge_Null"
    and "historian_ready (in_historian g)" and "historian_slots device_ccm_dec (in_historian g) = map Some cs"
    and "acc = batch_accepted vt now g
          (filter (edge_trusts (ic_edge_tracker (in_config g))) (map batch_entry_of (cache_get_dirty c 22)))"
  shows "\<exists>n g'. ingestion_handler_poll device_hmac historian_ccm device_ccm_dec g now = (n, g')
    \<and> (\<forall>q k. fst (historian_read device_ccm_dec (in_historian g') q k) =
         spec_read (foldl spec_write cs (map (reading_record (ic_domain_profile_id (in_config g))) acc)) q (unat k))
    \<and> n = (\<Sum>x \<leftarrow> acc. fires (in_rules g) (in_profile g) vt x)
    \<and> in_profile g' = in_profile g"
proof -
  from flush_ingest[OF device_hmac_ok assms(1,2,3,10,11,4,12), of 22 "in_audit g"] obtain frame h env' where
    f: "fst (snd (batch_forwarder_flush device_hmac b c)) = Some frame"
    and i: "gateway_ingest_frame device_hmac (in_audit g) (Some t) (ic_edge_tracker (in_config g)) (Some frame) 22 =
      (GW_FRAME_OK, Some (h, filter (edge_trusts (ic_edge_tracker (in_config g))) (map batch_entry_of (cache_get_dirty c 22))),
       Some (gateway_tracker_update_sequence t (ga_tx_sequence ctx)), env')" by auto
  from poll_processes_frame[OF assms(5,7,6) assms(8)[unfolded f] i[folded assms(9)], of historian_ccm device_ccm_dec now] obtain n g' where
    p: "ingestion_handler_poll device_hmac historian_ccm device_ccm_dec g now = (n, g')"
      "in_historian g' = writes historian_ccm device_ccm_dec (in_historian g) (map (reading_record (ic_domain_profile_id (in_config g))) acc)"
      "n = (\<Sum>x \<leftarrow> acc. fires (in_rules g) (in_profile g) vt x)" "in_profile g' = in_profile g"
    unfolding assms(15) by blast
  have "fst (historian_read device_ccm_dec (in_historian g') q k) =
      spec_read (foldl spec_write cs (map (reading_record (ic_domain_profile_id (in_config g))) acc)) q (unat k)" for q k
    unfolding p(2) by (rule read_refines) (use writes_refine[OF device_historian_ccm_ok assms(13,14)] in simp_all)
  with p show ?thesis by blast
qed

text \<open>The same over any link that meets the contract, as long as the frame fits.\<close>

context datagram_link
begin

lemma end_to_end_link:
  fixes b :: batch_forwarder
  assumes "bf_send_func b = Some snd_func" and "bf_auth_ctx b = Some ctx" and "ga_state ctx = GW_AUTH_AUTHENTICATED"
    and "cache_get_dirty c 22 \<noteq> []" and "40 + 7 * length (cache_get_dirty c 22) \<le> mtu"
    and "frame = flush_frame device_hmac ctx (cache_get_dirty c 22)"
    and "in_initialised g" and "ic_vtable (in_config g) = Some vt" and "ic_radio_receive (in_config g) = Some recv"
    and "ready (in_radio g)"
    and "ic_gw_tracker (in_config g) = Some t" and "gt_authenticated t" and "gt_session_key t = ga_session_key ctx"
    and "ic_edge_tracker (in_config g) \<noteq> Edge_Null"
    and "historian_ready (in_historian g)" and "historian_slots device_ccm_dec (in_historian g) = map Some cs"
    and "acc = batch_accepted vt now g
          (filter (edge_trusts (ic_edge_tracker (in_config g))) (map batch_entry_of (cache_get_dirty c 22)))"
  shows "\<exists>r n g'. send (in_radio g) frame = (True, r)
    \<and> ingestion_handler_poll device_hmac historian_ccm device_ccm_dec (g\<lparr>in_radio := r\<rparr>) now = (n, g')
    \<and> (\<forall>q k. fst (historian_read device_ccm_dec (in_historian g') q k) =
         spec_read (foldl spec_write cs (map (reading_record (ic_domain_profile_id (in_config g))) acc)) q (unat k))
    \<and> n = (\<Sum>x \<leftarrow> acc. fires (in_rules g) (in_profile g) vt x)"
proof -
  have len: "length frame = 40 + 7 * length (cache_get_dirty c 22)"
    using length_flush_frame[OF device_hmac_ok] assms(6) by simp
  then obtain r r2 where tr: "send (in_radio g) frame = (True, r)" "recv r = (Some frame, r2)"
    using transfer[OF assms(10), of frame] assms(5) by fastforce
  have sent: "fst (snd (batch_forwarder_flush device_hmac b c)) = Some frame"
    using flush_sends[OF assms(1-3) refl assms(4) assms(6)] by auto
  have "acc = batch_accepted vt now (g\<lparr>in_radio := r\<rparr>)
      (filter (edge_trusts (ic_edge_tracker (in_config (g\<lparr>in_radio := r\<rparr>)))) (map batch_entry_of (cache_get_dirty c 22)))"
    using assms(17) by (simp add: batch_accepted_def)
  from end_to_end[OF assms(1-4), of "g\<lparr>in_radio := r\<rparr>" vt recv r2 t cs, OF _ _ _ _ _ _ _ _ _ _ this] show ?thesis
    using assms tr sent by auto
qed

end

section \<open>Properties\<close>

text \<open>
  Start-up succeeds for each of the four profiles, from every state of the modules, and then every actuator of the
  profile has its fail-safe entry, the rule engine and the validation are initialised, the handler listens with
  the vtable of the profile and its radio, no gateway is authenticated and no edge node is trusted.
\<close>

theorem hub_starts:
  "\<exists>g'. hub_init (Some p) g = (True, g')
    \<and> (\<forall>e \<in> set (profile_table p). failsafe_get (hb_failsafe g') (fs_actuator_id e) = Some e)
    \<and> rule_g_initialised (in_rules (hb_ingestion g')) \<and> sv_g_initialised (in_validation (hb_ingestion g'))
    \<and> in_initialised (hb_ingestion g')
    \<and> ic_domain_profile_id (in_config (hb_ingestion g')) =
        (case p of PROFILE_HOME \<Rightarrow> 0 | PROFILE_AGRICULTURE \<Rightarrow> 1 | PROFILE_HVAC \<Rightarrow> 2 | PROFILE_WATER_TREATMENT \<Rightarrow> 3)
    \<and> untrusted (hb_ingestion g')
    \<and> (\<exists>et. ic_edge_tracker (in_config (hb_ingestion g')) = Edge_Tracker et \<and> (\<forall>n now. \<not> edge_tracker_is_trusted (Some et) n now))"
proof -
  obtain g' where g': "hub_init (Some p) g = (True, g')"
    "\<And>a. failsafe_get (hb_failsafe g') a = find (\<lambda>e. fs_actuator_id e = a) (rev (profile_table p))"
    "hb_ingestion g' = (hb_ingestion g)\<lparr>in_rules := snd (rule_engine_init (in_rules (hb_ingestion g))),
        in_validation := snd (sensor_validation_init (in_validation (hb_ingestion g))),
        in_historian := snd (historian_init (in_historian (hb_ingestion g))),
        in_config := ih_config p fresh_tracker (edge_tracker_init 0), in_stats := ingestion_stats_zero, in_initialised := True\<rparr>"
    using hub_init_eq by blast
  have "distinct (map fs_actuator_id (rev (profile_table p)))"
    using home.fs_distinct agriculture.fs_distinct hvac.fs_distinct water.fs_distinct
    by (cases p) (simp_all add: profile_table_def flip: rev_map)
  then have "failsafe_get (hb_failsafe g') (fs_actuator_id e) = Some e" if "e \<in> set (profile_table p)" for e
    using find_distinct_member[of fs_actuator_id "rev (profile_table p)" e] that g'(2) by simp
  moreover have "\<not> edge_tracker_is_trusted (Some (edge_tracker_init 0)) n now" for n now
    by (simp add: edge_tracker_is_trusted_def edge_tracker_init_def)
  moreover have "ic_domain_profile_id (ih_config p fresh_tracker (edge_tracker_init 0)) =
      (case p of PROFILE_HOME \<Rightarrow> 0 | PROFILE_AGRICULTURE \<Rightarrow> 1 | PROFILE_HVAC \<Rightarrow> 2 | PROFILE_WATER_TREATMENT \<Rightarrow> 3)"
    by (simp add: ih_config_def Let_def split: build_profile.split)
  ultimately show ?thesis
    using g'(1,3) fresh_tracker_untrusted by (simp add: untrusted_def rule_engine_init_def sensor_validation_init_def)
qed

text \<open>
  C35.  A hub that was started and then only runs its loop never ingests anything: whatever the radio receives, in
  every sequence of passes, no frame passes the gateway check, no entry is processed, no rule fires and nothing is
  written to the historian; every received frame is counted as rejected.
\<close>

theorem hub_never_ingests:
  assumes "hub_init (Some p) g = (True, g')" and "h = hb_ingestion (foldl (hub_pass md enc dec) g' evs)"
  shows "in_historian h = in_historian (hb_ingestion g') \<and> in_profile h = in_profile (hb_ingestion g')
    \<and> is_frames_ingested (in_stats h) = 0 \<and> is_entries_processed (in_stats h) = 0 \<and> is_rules_triggered (in_stats h) = 0
    \<and> is_frames_rejected (in_stats h) = is_frames_received (in_stats h)"
proof -
  have ih: "in_config (hb_ingestion g') = ih_config p fresh_tracker (edge_tracker_init 0)"
    "in_stats (hb_ingestion g') = ingestion_stats_zero" using hub_init_eq[of p g] assms(1) by auto
  then have "untrusted (hb_ingestion g')" using fresh_tracker_untrusted by (simp add: untrusted_def)
  from passes_untrusted[OF this, of md enc dec evs] show ?thesis
    using ih(2) by (simp add: assms(2) nothing_done_def ingestion_stats_zero_def)
qed

text \<open>The statics of the modules as the program is loaded, with a radio that is ready.\<close>

definition hub_boot :: "(unit, (u32 \<Rightarrow> bytes) \<times> u32 \<times> u32) hub" where
  "hub_boot = \<lparr>hb_attestation = \<lparr>at_key_table = [], at_g_initialised = False\<rparr>,
     hb_transport = \<lparr>tr_g_initialised = False, tr_next_session_id = 1\<rparr>,
     hb_replay = \<lparr>rp_nodes = replicate REPLAY_MAX_NODES replay_node_zero, rp_g_initialised = False\<rparr>,
     hb_firmware_integrity = \<lparr>fi_hmac_key = replicate 32 0, fi_key_set = False, fi_initialised = False\<rparr>,
     hb_failsafe = \<lparr>fs_table = [], fs_g_initialised = False\<rparr>, hb_portal = demo_portal [],
     hb_gw_tracker = fresh_tracker, hb_edge_tracker = edge_tracker_init 0,
     hb_ingestion = \<lparr>in_config = ih_config PROFILE_HVAC fresh_tracker (edge_tracker_init 0), in_stats = ingestion_stats_zero,
        in_initialised = False, in_profile = (), in_radio = \<lparr>hr_zigbee = demo_zigbee, hr_lora = ready_lora 0\<rparr>,
        in_histories = (\<lambda>_. sensor_history_zero), in_rules = \<lparr>rule_g_initialised = False\<rparr>,
        in_validation = \<lparr>sv_g_initialised = False\<rparr>, in_audit = (demo_audit, demo_time), in_historian = hdemo\<rparr>,
     hb_last_poll_ms = 0\<rparr>"

theorem hub_never_ingests_witness:
  "is_frames_ingested (in_stats (hb_ingestion (foldl (hub_pass demo_md hdemo_enc hdemo_dec)
     (snd (hub_init (Some PROFILE_HVAC) hub_boot))
     [(5000, \<lparr>hr_zigbee = demo_zigbee, hr_lora = snd (lora_send (ready_lora 0) 1 (Some (replicate 40 2)) 40)\<rparr>)]))) = 0"
proof -
  have "hub_init (Some PROFILE_HVAC) hub_boot = (True, snd (hub_init (Some PROFILE_HVAC) hub_boot))"
    using hub_init_eq[of PROFILE_HVAC hub_boot] by auto
  from hub_never_ingests[OF this refl] show ?thesis by blast
qed

text \<open>
  The home profile's radio cannot carry its gateway's batches: when more than three readings are waiting, every
  flush of an authenticated gateway that sends over Zigbee is refused by the radio, so that the cache stays as it is,
  with the same readings waiting, and the sequence number does not advance.
\<close>

theorem zigbee_stalls_gateway:
  assumes "bf_send_func b = Some (\<lambda>f. fst (zigbee_link_send d ep r f))"
    and "bf_auth_ctx b = Some ctx" and "ga_state ctx = GW_AUTH_AUTHENTICATED"
    and "3 < length (cache_get_dirty c 22)"
  shows "\<exists>n frame b'. batch_forwarder_flush device_hmac b c = (n, Some frame, c, b') \<and> bf_auth_ctx b' = Some ctx"
proof -
  let ?d = "cache_get_dirty c 22" and ?f = "flush_frame device_hmac ctx (cache_get_dirty c 22)"
  have len: "length ?f = 40 + 7 * length ?d" using length_flush_frame[OF device_hmac_ok] .
  moreover have "length ?d \<le> 22" using length_cache_get_dirty[of c 22] by simp
  ultimately have "unat (word_of_nat (length ?f) :: u8) = length ?f" by (intro unat_word_of_nat_small) simp
  then have "\<not> unat (word_of_nat (length ?f) :: u8) \<le> zigbee_mtu" using len assms(4) by (simp add: zigbee_mtu_eq)
  then have refused: "\<not> fst (zigbee_link_send d ep r ?f)"
    using send_refused[of "hr_zigbee r" "word_of_nat (length ?f)" d ep ?f] by (auto simp: zigbee_link_send_def)
  have "?d \<noteq> []" using assms(4) by auto
  from flush_sends[OF assms(1-3) refl this refl, of device_hmac] refused show ?thesis by auto
qed

definition busy_cache :: cache where
  "busy_cache = demo_cache\<lparr>ca_entries := map (\<lambda>m. \<lparr>ce_node_id = 7, ce_metric_id = m, ce_value = 0, ce_valid = True, ce_dirty = True\<rparr>) [1, 2, 3, 4]\<rparr>"

definition home_forwarder :: batch_forwarder where
  "home_forwarder = \<lparr>bf_send_func = Some (\<lambda>f. fst (zigbee_link_send 0 1 \<lparr>hr_zigbee = demo_zigbee, hr_lora = lora_boot\<rparr> f)),
     bf_stats = batch_stats_zero, bf_auth_ctx = Some demo_ctx\<rparr>"

theorem zigbee_stalls_gateway_witness:
  "fst (snd (snd (batch_forwarder_flush device_hmac home_forwarder busy_cache))) = busy_cache"
proof -
  have b: "bf_send_func home_forwarder = Some (\<lambda>f. fst (zigbee_link_send 0 1 \<lparr>hr_zigbee = demo_zigbee, hr_lora = lora_boot\<rparr> f))"
    "bf_auth_ctx home_forwarder = Some demo_ctx" "ga_state demo_ctx = GW_AUTH_AUTHENTICATED"
    by (simp_all add: home_forwarder_def demo_ctx_def)
  have "3 < length (cache_get_dirty busy_cache 22)" by (simp add: cache_get_dirty_eq busy_cache_def)
  from zigbee_stalls_gateway[OF b this] show ?thesis by auto
qed

end
