(* ===== verification/Mqtt_Client.thy ===== *)
theory Mqtt_Client
  imports Cloud_Ingestion "HOL-Library.Multiset"
begin

text \<open>
  The MQTT client of the hub (\<open>firmware/shared/mqtt_client.{h,c}\<close>), in its two builds.  On the ESP32 it wraps the
  \<open>esp_mqtt_client\<close> library, which is not part of the sources: the library's calls are the functions of the record
  \<open>esp_mqtt\<close>, acting on a client state \<open>'c\<close>, and its events are arguments of the event handler.  A message callback is a
  value \<open>'k\<close> that stands for the function pointer, and the handler returns the call it makes.  The native build is the stub
  the unit tests use.
\<close>

section \<open>Data\<close>

definition MQTT_MAX_TOPIC_LEN :: nat where "MQTT_MAX_TOPIC_LEN = 128"
definition MQTT_MAX_PAYLOAD :: nat where "MQTT_MAX_PAYLOAD = 256"
definition MQTT_KEEPALIVE_SEC :: u16 where "MQTT_KEEPALIVE_SEC = 60"
definition MQTT_DEFAULT_PORT :: u16 where "MQTT_DEFAULT_PORT = 8883"
definition MQTT_MAX_SUBSCRIPTIONS :: nat where "MQTT_MAX_SUBSCRIPTIONS = 8"

datatype MQTTState_t = MQTT_STATE_DISCONNECTED | MQTT_STATE_CONNECTING | MQTT_STATE_CONNECTED | MQTT_STATE_ERROR

datatype MQTTQoS_t = MQTT_QOS_0 | MQTT_QOS_1 | MQTT_QOS_2

primrec qos_code :: "MQTTQoS_t \<Rightarrow> int" where
  "qos_code MQTT_QOS_0 = 0"
| "qos_code MQTT_QOS_1 = 1"
| "qos_code MQTT_QOS_2 = 2"

record MQTTMessage_t =
  mm_topic :: string
  mm_payload :: bytes
  mm_payload_len :: u16
  mm_qos :: MQTTQoS_t
  mm_retain :: bool

record MQTTClientConfig_t =
  mc_broker_host :: "string option"
  mc_broker_port :: u16
  mc_client_id :: "string option"
  mc_username :: "string option"
  mc_password :: "string option"
  mc_ca_cert_pem :: "string option"
  mc_keepalive_sec :: u16
  mc_use_tls :: bool

section \<open>The ESP32 build\<close>

record esp_mqtt_client_config_t =
  esp_host :: "string option"
  esp_port :: u16
  esp_client_id :: "string option"
  esp_username :: "string option"
  esp_password :: "string option"
  esp_keepalive :: u16
  esp_cert_pem :: "string option"

text \<open>The library: creation may fail, start and stop report success, publish and subscribe a message number.\<close>

record 'c esp_mqtt =
  esp_mqtt_client_init :: "esp_mqtt_client_config_t \<Rightarrow> 'c option"
  esp_mqtt_client_start :: "'c \<Rightarrow> bool \<times> 'c"
  esp_mqtt_client_stop :: "'c \<Rightarrow> bool \<times> 'c"
  esp_mqtt_client_publish :: "'c \<Rightarrow> string \<Rightarrow> bytes \<Rightarrow> int \<Rightarrow> int \<Rightarrow> int \<times> 'c"
  esp_mqtt_client_subscribe :: "'c \<Rightarrow> string \<Rightarrow> int \<Rightarrow> int \<times> 'c"
  esp_mqtt_client_unsubscribe :: "'c \<Rightarrow> string \<Rightarrow> 'c"

record 'k MQTTSubscription_t =
  su_topic_filter :: string
  su_qos :: MQTTQoS_t
  su_callback :: "'k option"
  su_active :: bool
  su_esp_msg_id :: int

record ('c, 'k) mqtt =
  mq_client :: "'c option"
  mq_state :: MQTTState_t
  mq_initialised :: bool
  mq_subscriptions :: "'k MQTTSubscription_t list"

definition subscription_zero :: "'k MQTTSubscription_t" where
  "subscription_zero = \<lparr>su_topic_filter = [], su_qos = MQTT_QOS_0, su_callback = None, su_active = False, su_esp_msg_id = 0\<rparr>"

datatype esp_mqtt_event =
  MQTT_EVENT_CONNECTED | MQTT_EVENT_DISCONNECTED | MQTT_EVENT_SUBSCRIBED int | MQTT_EVENT_DATA string bytes
| MQTT_EVENT_ERROR | MQTT_EVENT_OTHER

text \<open>The bytes of a topic up to a zero byte, as the string functions see the copied buffer.\<close>

definition topic_buf :: "string \<Rightarrow> string" where
  "topic_buf topic = takeWhile (\<lambda>c. c \<noteq> CHR 0x00) (take (MQTT_MAX_TOPIC_LEN - 1) topic)"

definition received_message :: "string \<Rightarrow> bytes \<Rightarrow> MQTTQoS_t \<Rightarrow> MQTTMessage_t" where
  "received_message topic data qos =
    (let data_len = min (length data) MQTT_MAX_PAYLOAD
     in \<lparr>mm_topic = topic, mm_payload = take data_len data @ replicate (MQTT_MAX_PAYLOAD - data_len) 0,
         mm_payload_len = word_of_nat data_len, mm_qos = qos, mm_retain = False\<rparr>)"

definition esp_mqtt_event_handler :: "esp_mqtt_event \<Rightarrow> ('c, 'k) mqtt \<Rightarrow> ('k \<times> MQTTMessage_t) option \<times> ('c, 'k) mqtt" where
  "esp_mqtt_event_handler event g =
    (case event of
       MQTT_EVENT_CONNECTED \<Rightarrow> (None, g\<lparr>mq_state := MQTT_STATE_CONNECTED\<rparr>)
     | MQTT_EVENT_DISCONNECTED \<Rightarrow> (None, g\<lparr>mq_state := MQTT_STATE_DISCONNECTED\<rparr>)
     | MQTT_EVENT_SUBSCRIBED msg_id \<Rightarrow> (None, g)
     | MQTT_EVENT_DATA topic data \<Rightarrow>
         let t = topic_buf topic
         in (case find (\<lambda>s. su_active s \<and> su_topic_filter s = t) (mq_subscriptions g) of
               None \<Rightarrow> (None, g)
             | Some s \<Rightarrow> (map_option (\<lambda>k. (k, received_message t data (su_qos s))) (su_callback s), g))
     | MQTT_EVENT_ERROR \<Rightarrow> (None, g\<lparr>mq_state := MQTT_STATE_ERROR\<rparr>)
     | MQTT_EVENT_OTHER \<Rightarrow> (None, g))"

definition mqtt_client_init :: "('c, 'k) mqtt \<Rightarrow> bool \<times> ('c, 'k) mqtt" where
  "mqtt_client_init g = (True, g\<lparr>mq_subscriptions := replicate MQTT_MAX_SUBSCRIPTIONS subscription_zero,
     mq_state := MQTT_STATE_DISCONNECTED, mq_initialised := True\<rparr>)"

definition mqtt_client_configure ::
  "'c esp_mqtt \<Rightarrow> MQTTClientConfig_t option \<Rightarrow> ('c, 'k) mqtt \<Rightarrow> bool \<times> ('c, 'k) mqtt"
where
  "mqtt_client_configure esp config g =
    (case config of
       None \<Rightarrow> (False, g)
     | Some c \<Rightarrow>
         if \<not> mq_initialised g then (False, g)
         else
           let cfg = \<lparr>esp_host = mc_broker_host c, esp_port = mc_broker_port c, esp_client_id = mc_client_id c,
                 esp_username = mc_username c, esp_password = mc_password c, esp_keepalive = mc_keepalive_sec c,
                 esp_cert_pem = (if mc_use_tls c \<and> mc_ca_cert_pem c \<noteq> None then mc_ca_cert_pem c else None)\<rparr>;
               g = g\<lparr>mq_client := esp_mqtt_client_init esp cfg\<rparr>
           in (mq_client g \<noteq> None, g))"

definition mqtt_client_connect :: "'c esp_mqtt \<Rightarrow> ('c, 'k) mqtt \<Rightarrow> bool \<times> ('c, 'k) mqtt" where
  "mqtt_client_connect esp g =
    (case (mq_initialised g, mq_client g) of
       (True, Some c) \<Rightarrow>
         let g = g\<lparr>mq_state := MQTT_STATE_CONNECTING\<rparr>; (ok, c) = esp_mqtt_client_start esp c; g = g\<lparr>mq_client := Some c\<rparr>
         in if \<not> ok then (False, g\<lparr>mq_state := MQTT_STATE_ERROR\<rparr>) else (True, g)
     | _ \<Rightarrow> (False, g))"

definition mqtt_client_disconnect :: "'c esp_mqtt \<Rightarrow> ('c, 'k) mqtt \<Rightarrow> bool \<times> ('c, 'k) mqtt" where
  "mqtt_client_disconnect esp g =
    (case (mq_initialised g, mq_client g) of
       (True, Some c) \<Rightarrow>
         let (ok, c) = esp_mqtt_client_stop esp c
         in (ok, g\<lparr>mq_client := Some c, mq_state := MQTT_STATE_DISCONNECTED\<rparr>)
     | _ \<Rightarrow> (False, g))"

definition mqtt_client_publish ::
  "'c esp_mqtt \<Rightarrow> ('c, 'k) mqtt \<Rightarrow> string option \<Rightarrow> bytes option \<Rightarrow> MQTTQoS_t \<Rightarrow> bool \<Rightarrow> bool \<times> ('c, 'k) mqtt"
where
  "mqtt_client_publish esp g topic payload qos retain =
    (case (mq_initialised g, mq_client g) of
       (True, Some c) \<Rightarrow>
         if mq_state g \<noteq> MQTT_STATE_CONNECTED then (False, g)
         else (case (topic, payload) of
             (Some t, Some p) \<Rightarrow>
               if MQTT_MAX_PAYLOAD < length p then (False, g)
               else (case esp_mqtt_client_publish esp c t p (qos_code qos) (if retain then 1 else 0) of
                   (msg_id, c) \<Rightarrow> (msg_id \<ge> 0, g\<lparr>mq_client := Some c\<rparr>))
           | _ \<Rightarrow> (False, g))
     | _ \<Rightarrow> (False, g))"

definition mqtt_client_subscribe ::
  "'c esp_mqtt \<Rightarrow> ('c, 'k) mqtt \<Rightarrow> string option \<Rightarrow> MQTTQoS_t \<Rightarrow> 'k option \<Rightarrow> bool \<times> ('c, 'k) mqtt"
where
  "mqtt_client_subscribe esp g topic qos callback =
    (case (mq_initialised g, mq_client g, topic, callback) of
       (True, Some c, Some t, Some k) \<Rightarrow>
         (case find_index (\<lambda>s. \<not> su_active s) (mq_subscriptions g) of
            None \<Rightarrow> (False, g)
          | Some slot \<Rightarrow>
              (case esp_mqtt_client_subscribe esp c t (qos_code qos) of
                 (msg_id, c) \<Rightarrow>
                   let g = g\<lparr>mq_client := Some c\<rparr>
                   in if msg_id < 0 then (False, g)
                      else (True, g\<lparr>mq_subscriptions := (mq_subscriptions g)[slot :=
                        \<lparr>su_topic_filter = take (MQTT_MAX_TOPIC_LEN - 1) t, su_qos = qos, su_callback = Some k,
                         su_active = True, su_esp_msg_id = msg_id\<rparr>]\<rparr>)))
     | _ \<Rightarrow> (False, g))"

definition mqtt_client_unsubscribe :: "'c esp_mqtt \<Rightarrow> ('c, 'k) mqtt \<Rightarrow> string option \<Rightarrow> bool \<times> ('c, 'k) mqtt" where
  "mqtt_client_unsubscribe esp g topic =
    (case (mq_initialised g, mq_client g, topic) of
       (True, Some c, Some t) \<Rightarrow>
         (case upd_first (\<lambda>s. su_active s \<and> su_topic_filter s = t) (\<lambda>s. s\<lparr>su_active := False, su_callback := None\<rparr>)
                 (mq_subscriptions g) of
            None \<Rightarrow> (False, g)
          | Some subs \<Rightarrow> (True, g\<lparr>mq_client := Some (esp_mqtt_client_unsubscribe esp c t), mq_subscriptions := subs\<rparr>))
     | _ \<Rightarrow> (False, g))"

definition mqtt_client_get_state :: "('c, 'k) mqtt \<Rightarrow> MQTTState_t" where
  "mqtt_client_get_state g = mq_state g"

section \<open>The native build\<close>

text \<open>The stub keeps the configuration in place of a client; its subscriptions have no message number.\<close>

record 'k mqtt_native =
  nm_config :: MQTTClientConfig_t
  nm_state :: MQTTState_t
  nm_initialised :: bool
  nm_subscriptions :: "'k MQTTSubscription_t list"

definition mqtt_config_zero :: MQTTClientConfig_t where
  "mqtt_config_zero = \<lparr>mc_broker_host = None, mc_broker_port = 0, mc_client_id = None, mc_username = None, mc_password = None,
     mc_ca_cert_pem = None, mc_keepalive_sec = 0, mc_use_tls = False\<rparr>"

definition native_init :: "'k mqtt_native \<Rightarrow> bool \<times> 'k mqtt_native" where
  "native_init g = (True, \<lparr>nm_config = mqtt_config_zero, nm_state = MQTT_STATE_DISCONNECTED, nm_initialised = True,
     nm_subscriptions = replicate MQTT_MAX_SUBSCRIPTIONS subscription_zero\<rparr>)"

definition native_configure :: "MQTTClientConfig_t option \<Rightarrow> 'k mqtt_native \<Rightarrow> bool \<times> 'k mqtt_native" where
  "native_configure config g =
    (case config of
       None \<Rightarrow> (False, g)
     | Some c \<Rightarrow>
         if \<not> nm_initialised g then (False, g)
         else
           let c = (if mc_keepalive_sec c = 0 then c\<lparr>mc_keepalive_sec := MQTT_KEEPALIVE_SEC\<rparr> else c);
               c = (if mc_broker_port c = 0 then c\<lparr>mc_broker_port := MQTT_DEFAULT_PORT\<rparr> else c)
           in (True, g\<lparr>nm_config := c\<rparr>))"

definition native_connect :: "'k mqtt_native \<Rightarrow> bool \<times> 'k mqtt_native" where
  "native_connect g =
    (if \<not> nm_initialised g then (False, g)
     else if mc_broker_host (nm_config g) = None then (False, g)
     else (True, g\<lparr>nm_state := MQTT_STATE_CONNECTED\<rparr>))"

definition native_disconnect :: "'k mqtt_native \<Rightarrow> bool \<times> 'k mqtt_native" where
  "native_disconnect g =
    (if \<not> nm_initialised g then (False, g) else (True, g\<lparr>nm_state := MQTT_STATE_DISCONNECTED\<rparr>))"

definition native_publish :: "'k mqtt_native \<Rightarrow> string option \<Rightarrow> bytes option \<Rightarrow> MQTTQoS_t \<Rightarrow> bool \<Rightarrow> bool" where
  "native_publish g topic payload qos retain =
    (if \<not> nm_initialised g then False
     else if nm_state g \<noteq> MQTT_STATE_CONNECTED then False
     else (case (topic, payload) of (Some t, Some p) \<Rightarrow> \<not> MQTT_MAX_PAYLOAD < length p | _ \<Rightarrow> False))"

definition native_subscribe :: "'k mqtt_native \<Rightarrow> string option \<Rightarrow> MQTTQoS_t \<Rightarrow> 'k option \<Rightarrow> bool \<times> 'k mqtt_native" where
  "native_subscribe g topic qos callback =
    (case (nm_initialised g, topic, callback) of
       (True, Some t, Some k) \<Rightarrow>
         (case upd_first (\<lambda>s. \<not> su_active s)
                 (\<lambda>s. s\<lparr>su_topic_filter := take (MQTT_MAX_TOPIC_LEN - 1) t, su_qos := qos, su_callback := Some k, su_active := True\<rparr>)
                 (nm_subscriptions g) of
            None \<Rightarrow> (False, g)
          | Some subs \<Rightarrow> (True, g\<lparr>nm_subscriptions := subs\<rparr>))
     | _ \<Rightarrow> (False, g))"

definition native_unsubscribe :: "'k mqtt_native \<Rightarrow> string option \<Rightarrow> bool \<times> 'k mqtt_native" where
  "native_unsubscribe g topic =
    (case (nm_initialised g, topic) of
       (True, Some t) \<Rightarrow>
         (case upd_first (\<lambda>s. su_active s \<and> su_topic_filter s = t) (\<lambda>s. s\<lparr>su_active := False, su_callback := None\<rparr>)
                 (nm_subscriptions g) of
            None \<Rightarrow> (False, g)
          | Some subs \<Rightarrow> (True, g\<lparr>nm_subscriptions := subs\<rparr>))
     | _ \<Rightarrow> (False, g))"

definition native_get_state :: "'k mqtt_native \<Rightarrow> MQTTState_t" where
  "native_get_state g = nm_state g"

section \<open>Common code\<close>

text \<open>The result and what is in the buffer afterwards.\<close>

definition mqtt_build_telemetry_topic ::
  "nat \<Rightarrow> string option \<Rightarrow> string option \<Rightarrow> string option \<Rightarrow> bool \<times> string option"
where
  "mqtt_build_telemetry_topic buf_size tenant_id site_id device_id =
    (case (tenant_id, site_id, device_id) of
       (Some tenant, Some site, Some device) \<Rightarrow>
         let txt = ''rainmaker/'' @ tenant @ ''/'' @ site @ ''/'' @ device @ ''/telemetry''
         in (length txt > 0 \<and> length txt < buf_size, Some (snprintf_text buf_size txt))
     | _ \<Rightarrow> (False, None))"

section \<open>Calls, events and runs\<close>

text \<open>
  What happens to a configured client: a call of its interface, with any arguments, or an event of the library, at any time.
  The record of an item is the answer of a call together with the library's own verdict on the request, or the callback an
  event leads to.  Nothing is assumed about the library: its calls may fail at any time and its events may come in any order.
\<close>

datatype 'k mqtt_op =
  Connect | Disconnect | Publish "string option" "bytes option" MQTTQoS_t bool
| Subscribe "string option" MQTTQoS_t "'k option" | Unsubscribe "string option"

datatype 'k mqtt_item = Call "'k mqtt_op" | Event esp_mqtt_event

datatype 'k mqtt_obs = Answer (verdict: bool) (answer: bool) | Delivered "('k \<times> MQTTMessage_t) option"

definition esp_op :: "'c esp_mqtt \<Rightarrow> ('c, 'k) mqtt \<Rightarrow> 'k mqtt_op \<Rightarrow> bool \<times> ('c, 'k) mqtt" where
  "esp_op esp g op =
    (case op of
       Connect \<Rightarrow> mqtt_client_connect esp g
     | Disconnect \<Rightarrow> mqtt_client_disconnect esp g
     | Publish t p q r \<Rightarrow> mqtt_client_publish esp g t p q r
     | Subscribe t q k \<Rightarrow> mqtt_client_subscribe esp g t q k
     | Unsubscribe t \<Rightarrow> mqtt_client_unsubscribe esp g t)"

text \<open>What the library in state \<open>c\<close> says to the request of a call.\<close>

definition esp_accepts :: "'c esp_mqtt \<Rightarrow> 'c \<Rightarrow> 'k mqtt_op \<Rightarrow> bool" where
  "esp_accepts esp c op =
    (case op of
       Connect \<Rightarrow> fst (esp_mqtt_client_start esp c)
     | Disconnect \<Rightarrow> fst (esp_mqtt_client_stop esp c)
     | Publish (Some t) (Some p) q r \<Rightarrow> fst (esp_mqtt_client_publish esp c t p (qos_code q) (if r then 1 else 0)) \<ge> 0
     | Subscribe (Some t) q k \<Rightarrow> fst (esp_mqtt_client_subscribe esp c t (qos_code q)) \<ge> 0
     | _ \<Rightarrow> True)"

definition esp_item :: "'c esp_mqtt \<Rightarrow> ('c, 'k) mqtt \<Rightarrow> 'k mqtt_item \<Rightarrow> 'k mqtt_obs \<times> ('c, 'k) mqtt" where
  "esp_item esp g item =
    (case item of
       Call op \<Rightarrow> (case esp_op esp g op of
           (r, g') \<Rightarrow> (Answer (case mq_client g of None \<Rightarrow> False | Some c \<Rightarrow> esp_accepts esp c op) r, g'))
     | Event e \<Rightarrow> (case esp_mqtt_event_handler e g of (d, g') \<Rightarrow> (Delivered d, g')))"

text \<open>The stub has no library and no events; its requests are always granted.\<close>

definition native_op :: "'k mqtt_native \<Rightarrow> 'k mqtt_op \<Rightarrow> bool \<times> 'k mqtt_native" where
  "native_op g op =
    (case op of
       Connect \<Rightarrow> native_connect g
     | Disconnect \<Rightarrow> native_disconnect g
     | Publish t p q r \<Rightarrow> (native_publish g t p q r, g)
     | Subscribe t q k \<Rightarrow> native_subscribe g t q k
     | Unsubscribe t \<Rightarrow> native_unsubscribe g t)"

definition native_item :: "'k mqtt_native \<Rightarrow> 'k mqtt_op \<Rightarrow> 'k mqtt_obs \<times> 'k mqtt_native" where
  "native_item g op = (case native_op g op of (r, g') \<Rightarrow> (Answer True r, g'))"

primrec run_items :: "('s \<Rightarrow> 'i \<Rightarrow> 'o \<times> 's) \<Rightarrow> 's \<Rightarrow> 'i list \<Rightarrow> 'o list \<times> 's" where
  "run_items f s [] = ([], s)"
| "run_items f s (x # xs) = (case f s x of (r, s) \<Rightarrow> (case run_items f s xs of (rs, s) \<Rightarrow> (r # rs, s)))"

section \<open>The specification of a client\<close>

text \<open>
  A client is a connection state and a bag of at most eight subscriptions, without slots or message numbers.  \<open>c\<close> is the state a
  granted \<open>Connect\<close> leads to.  Publishing needs an established connection; a subscription is entered exactly when there is
  room and the library grants it; unsubscribing removes one subscription of the topic; a message goes to one subscription of
  its topic, if there is any.
\<close>

type_synonym 'k mqtt_spec = "MQTTState_t \<times> (string \<times> MQTTQoS_t \<times> 'k) multiset"

definition publishable :: "string option \<Rightarrow> bytes option \<Rightarrow> bool" where
  "publishable topic payload = (case (topic, payload) of (Some t, Some p) \<Rightarrow> length p \<le> MQTT_MAX_PAYLOAD | _ \<Rightarrow> False)"

inductive mqtt_spec_step :: "MQTTState_t \<Rightarrow> 'k mqtt_spec \<Rightarrow> 'k mqtt_item \<Rightarrow> 'k mqtt_obs \<Rightarrow> 'k mqtt_spec \<Rightarrow> bool" for c where
  connect: "mqtt_spec_step c (s, B) (Call Connect) (Answer True True) (c, B)"
| connect_fails: "mqtt_spec_step c (s, B) (Call Connect) (Answer False False) (MQTT_STATE_ERROR, B)"
| disconnect: "mqtt_spec_step c (s, B) (Call Disconnect) (Answer ok ok) (MQTT_STATE_DISCONNECTED, B)"
| publish: "r = (ok \<and> s = MQTT_STATE_CONNECTED \<and> publishable t p) \<Longrightarrow>
    mqtt_spec_step c (s, B) (Call (Publish t p q retain)) (Answer ok r) (s, B)"
| subscribe: "size B < MQTT_MAX_SUBSCRIPTIONS \<Longrightarrow>
    mqtt_spec_step c (s, B) (Call (Subscribe (Some t) q (Some k))) (Answer True True) (s, add_mset (take (MQTT_MAX_TOPIC_LEN - 1) t, q, k) B)"
| not_subscribed: "\<not> ok \<or> t = None \<or> k = None \<or> size B = MQTT_MAX_SUBSCRIPTIONS \<Longrightarrow>
    mqtt_spec_step c (s, B) (Call (Subscribe t q k)) (Answer ok False) (s, B)"
| unsubscribe: "(t, q, k) \<in># B \<Longrightarrow>
    mqtt_spec_step c (s, B) (Call (Unsubscribe (Some t))) (Answer True True) (s, B - {#(t, q, k)#})"
| not_unsubscribed: "\<forall>q k. t \<noteq> None \<longrightarrow> (the t, q, k) \<notin># B \<Longrightarrow>
    mqtt_spec_step c (s, B) (Call (Unsubscribe t)) (Answer True False) (s, B)"
| connected: "mqtt_spec_step c (s, B) (Event MQTT_EVENT_CONNECTED) (Delivered None) (MQTT_STATE_CONNECTED, B)"
| disconnected: "mqtt_spec_step c (s, B) (Event MQTT_EVENT_DISCONNECTED) (Delivered None) (MQTT_STATE_DISCONNECTED, B)"
| error: "mqtt_spec_step c (s, B) (Event MQTT_EVENT_ERROR) (Delivered None) (MQTT_STATE_ERROR, B)"
| subscribed: "mqtt_spec_step c (s, B) (Event (MQTT_EVENT_SUBSCRIBED i)) (Delivered None) (s, B)"
| other: "mqtt_spec_step c (s, B) (Event MQTT_EVENT_OTHER) (Delivered None) (s, B)"
| data: "(topic_buf topic, q, k) \<in># B \<Longrightarrow>
    mqtt_spec_step c (s, B) (Event (MQTT_EVENT_DATA topic d)) (Delivered (Some (k, received_message (topic_buf topic) d q))) (s, B)"
| no_data: "\<forall>q k. (topic_buf topic, q, k) \<notin># B \<Longrightarrow>
    mqtt_spec_step c (s, B) (Event (MQTT_EVENT_DATA topic d)) (Delivered None) (s, B)"

inductive spec_run :: "('a \<Rightarrow> 'i \<Rightarrow> 'o \<Rightarrow> 'a \<Rightarrow> bool) \<Rightarrow> 'a \<Rightarrow> 'i list \<Rightarrow> 'o list \<Rightarrow> 'a \<Rightarrow> bool" for R where
  finished: "spec_run R S [] [] S"
| step: "R S x r S' \<Longrightarrow> spec_run R S' xs rs S'' \<Longrightarrow> spec_run R S (x # xs) (r # rs) S''"

text \<open>A client whose single items are steps of a specification has only runs of the specification.\<close>

locale run_refinement =
  fixes item :: "'s \<Rightarrow> 'i \<Rightarrow> 'o \<times> 's" and R :: "'a \<Rightarrow> 'i \<Rightarrow> 'o \<Rightarrow> 'a \<Rightarrow> bool" and rel :: "'s \<Rightarrow> 'a \<Rightarrow> bool"
  assumes item_step: "rel s S \<Longrightarrow> \<exists>S'. R S x (fst (item s x)) S' \<and> rel (snd (item s x)) S'"
begin

lemma run: "rel s S \<Longrightarrow> \<exists>S'. spec_run R S xs (fst (run_items item s xs)) S' \<and> rel (snd (run_items item s xs)) S'"
proof (induction xs arbitrary: s S)
  case Nil
  then show ?case by (auto intro: spec_run.finished)
next
  case (Cons x xs)
  obtain r s1 where x: "item s x = (r, s1)" by force
  with item_step[OF Cons.prems, of x] obtain S1 where "R S x r S1" "rel s1 S1" by auto
  with Cons.IH[of s1 S1] show ?case by (auto simp: x case_prod_beta intro: spec_run.step)
qed

end

section \<open>The subscription table as a bag\<close>

definition sub_entry :: "'k MQTTSubscription_t \<Rightarrow> string \<times> MQTTQoS_t \<times> 'k" where
  "sub_entry s = (su_topic_filter s, su_qos s, the (su_callback s))"

definition sub_bag :: "'k MQTTSubscription_t list \<Rightarrow> (string \<times> MQTTQoS_t \<times> 'k) multiset" where
  "sub_bag xs = mset (map sub_entry (filter su_active xs))"

definition subs_ok :: "'k MQTTSubscription_t list \<Rightarrow> bool" where
  "subs_ok xs \<longleftrightarrow> length xs = MQTT_MAX_SUBSCRIPTIONS \<and> (\<forall>s \<in> set xs. su_active s \<longrightarrow> su_callback s \<noteq> None)"

lemma subs_zero: "subs_ok (replicate MQTT_MAX_SUBSCRIPTIONS subscription_zero)" "sub_bag (replicate MQTT_MAX_SUBSCRIPTIONS subscription_zero) = {#}"
  by (simp_all add: subs_ok_def sub_bag_def subscription_zero_def)

lemma sub_bag_full: "\<forall>s \<in> set xs. su_active s \<Longrightarrow> size (sub_bag xs) = length xs"
  by (simp add: sub_bag_def)

lemma size_sub_bag: "size (sub_bag xs) = length (filter su_active xs)"
  unfolding sub_bag_def size_mset length_map by (rule refl)

text \<open>Entering and removing a subscription.\<close>

lemma bag_enter:
  assumes "upd_first (\<lambda>s. \<not> su_active s) f xs = Some ys" and "subs_ok xs"
    and "\<And>s. su_active (f s) \<and> su_callback (f s) = Some k \<and> sub_entry (f s) = e"
  shows "subs_ok ys \<and> sub_bag ys = add_mset e (sub_bag xs) \<and> size (sub_bag xs) < MQTT_MAX_SUBSCRIPTIONS"
  using assms(1)
proof (rule upd_first_SomeE)
  fix us x vs
  assume l: "xs = us @ x # vs" "\<not> su_active x" "ys = us @ f x # vs"
  have "size (sub_bag xs) \<le> length us + length vs"
    using l(2) add_mono[OF length_filter_le[of su_active us] length_filter_le[of su_active vs]] by (simp add: l(1) size_sub_bag)
  then show ?thesis using l assms(2,3) by (auto simp: subs_ok_def sub_bag_def)
qed

lemma bag_remove:
  assumes "upd_first (\<lambda>s. su_active s \<and> su_topic_filter s = t) (\<lambda>s. s\<lparr>su_active := False, su_callback := None\<rparr>) xs = Some ys" and "subs_ok xs"
  shows "subs_ok ys \<and> (\<exists>q k. (t, q, k) \<in># sub_bag xs \<and> sub_bag ys = sub_bag xs - {#(t, q, k)#})"
  using assms(1)
proof (rule upd_first_SomeE)
  fix us x vs
  assume l: "xs = us @ x # vs" "su_active x \<and> su_topic_filter x = t" "ys = us @ x\<lparr>su_active := False, su_callback := None\<rparr> # vs"
  then have "sub_bag xs = add_mset (t, su_qos x, the (su_callback x)) (sub_bag ys)" by (auto simp: sub_bag_def sub_entry_def)
  moreover have "subs_ok ys" using l assms(2) by (auto simp: subs_ok_def)
  ultimately show ?thesis by (auto intro!: exI[of _ "su_qos x"] exI[of _ "the (su_callback x)"])
qed

lemma bag_none: "\<forall>s \<in> set xs. \<not> (su_active s \<and> su_topic_filter s = t) \<Longrightarrow> (t, q, k) \<notin># sub_bag xs"
  by (auto simp: sub_bag_def sub_entry_def)

lemma bag_find:
  "find (\<lambda>s. su_active s \<and> su_topic_filter s = t) xs = Some s \<Longrightarrow> subs_ok xs \<Longrightarrow> \<exists>k. su_callback s = Some k \<and> (t, su_qos s, k) \<in># sub_bag xs"
  by (force simp: sub_bag_def sub_entry_def subs_ok_def dest!: find_SomeD)

section \<open>Both builds meet the specification\<close>

definition esp_rel :: "('c, 'k) mqtt \<Rightarrow> 'k mqtt_spec \<Rightarrow> bool" where
  "esp_rel g S \<longleftrightarrow> mq_initialised g \<and> mq_client g \<noteq> None \<and> subs_ok (mq_subscriptions g) \<and> S = (mq_state g, sub_bag (mq_subscriptions g))"

definition native_rel :: "'k mqtt_native \<Rightarrow> 'k mqtt_spec \<Rightarrow> bool" where
  "native_rel n S \<longleftrightarrow> nm_initialised n \<and> mc_broker_host (nm_config n) \<noteq> None \<and> subs_ok (nm_subscriptions n)
     \<and> S = (nm_state n, sub_bag (nm_subscriptions n))"

definition subscribed :: "string \<Rightarrow> MQTTQoS_t \<Rightarrow> 'k \<Rightarrow> int \<Rightarrow> 'k MQTTSubscription_t" where
  "subscribed t qos k n = \<lparr>su_topic_filter = take (MQTT_MAX_TOPIC_LEN - 1) t, su_qos = qos, su_callback = Some k,
     su_active = True, su_esp_msg_id = n\<rparr>"

lemma subscribe_eq:
  assumes "mq_initialised g" and "mq_client g = Some c" and "fst (esp_mqtt_client_subscribe esp c t (qos_code qos)) = i" and "0 \<le> i"
  shows "mqtt_client_subscribe esp g (Some t) qos (Some k) =
    (case upd_first (\<lambda>s. \<not> su_active s) (\<lambda>_. subscribed t qos k i) (mq_subscriptions g) of
       None \<Rightarrow> (False, g)
     | Some subs \<Rightarrow> (True, g\<lparr>mq_client := Some (snd (esp_mqtt_client_subscribe esp c t (qos_code qos))), mq_subscriptions := subs\<rparr>))"
  using assms by (auto simp: mqtt_client_subscribe_def upd_first_find_index subscribed_def Let_def split: option.splits prod.splits)

text \<open>A request the library refuses, or that lacks an argument, leaves the table alone.\<close>

lemma subscribe_refused:
  assumes "mq_client g = Some c" and "\<not> esp_accepts esp c (Subscribe t qos k) \<or> t = None \<or> k = None"
  shows "\<not> fst (mqtt_client_subscribe esp g t qos k) \<and> (esp_rel g S \<longrightarrow> esp_rel (snd (mqtt_client_subscribe esp g t qos k)) S)"
  using assms by (cases "mq_initialised g")
    (auto simp: mqtt_client_subscribe_def esp_accepts_def esp_rel_def Let_def split: option.splits prod.splits)

text \<open>The proofs below give the state of the specification as a whole.\<close>

declare split_paired_Ex [simp del]

lemma esp_subscribe_step:
  assumes "esp_rel g S"
  shows "\<exists>S'. mqtt_spec_step c0 S (Call (Subscribe t qos k)) (fst (esp_item esp g (Call (Subscribe t qos k)))) S'
    \<and> esp_rel (snd (esp_item esp g (Call (Subscribe t qos k)))) S'"
proof -
  obtain c where c: "mq_client g = Some c" and g: "mq_initialised g" "subs_ok (mq_subscriptions g)" and S: "S = (mq_state g, sub_bag (mq_subscriptions g))"
    using assms by (auto simp: esp_rel_def)
  let ?ok = "esp_accepts esp c (Subscribe t qos k)"
  have item: "esp_item esp g (Call (Subscribe t qos k)) =
      (Answer ?ok (fst (mqtt_client_subscribe esp g t qos k)), snd (mqtt_client_subscribe esp g t qos k))"
    by (simp add: esp_item_def esp_op_def c case_prod_beta)
  show ?thesis
  proof (cases "\<not> ?ok \<or> t = None \<or> k = None")
    case True
    have "mqtt_spec_step c0 S (Call (Subscribe t qos k)) (Answer ?ok False) S"
      unfolding S using True by (intro mqtt_spec_step.not_subscribed) auto
    then show ?thesis using subscribe_refused[OF c True, of S] assms unfolding item by auto
  next
    case False
    then obtain tt kk where tk: "t = Some tt" "k = Some kk" and ok: "?ok" by auto
    define i where "i = fst (esp_mqtt_client_subscribe esp c tt (qos_code qos))"
    have i: "0 \<le> i" using ok by (simp add: esp_accepts_def tk i_def)
    note eq = subscribe_eq[OF g(1) c i_def[symmetric] i, of kk, folded tk]
    show ?thesis
    proof (cases "upd_first (\<lambda>s. \<not> su_active s) (\<lambda>_. subscribed tt qos kk i) (mq_subscriptions g)")
      case None
      then have "size (sub_bag (mq_subscriptions g)) = MQTT_MAX_SUBSCRIPTIONS" using g(2) by (auto simp: sub_bag_full subs_ok_def)
      then have "mqtt_spec_step c0 S (Call (Subscribe t qos k)) (Answer ?ok False) S"
        unfolding S by (intro mqtt_spec_step.not_subscribed) simp
      then show ?thesis unfolding item eq None using assms by auto
    next
      case (Some subs)
      from bag_enter[OF Some g(2), of kk "(take (MQTT_MAX_TOPIC_LEN - 1) tt, qos, kk)"]
      have b: "subs_ok subs" "sub_bag subs = add_mset (take (MQTT_MAX_TOPIC_LEN - 1) tt, qos, kk) (sub_bag (mq_subscriptions g))"
        "size (sub_bag (mq_subscriptions g)) < MQTT_MAX_SUBSCRIPTIONS" by (simp_all add: subscribed_def sub_entry_def)
      have "mqtt_spec_step c0 S (Call (Subscribe t qos k)) (Answer ?ok True) (mq_state g, sub_bag subs)"
        unfolding S b(2) tk using ok mqtt_spec_step.subscribe[OF b(3)] by (simp add: tk)
      then show ?thesis unfolding item eq Some using g b(1) by (auto simp: esp_rel_def)
    qed
  qed
qed

lemma esp_unsubscribe_step:
  assumes "esp_rel g S"
  shows "\<exists>S'. mqtt_spec_step c0 S (Call (Unsubscribe t)) (fst (esp_item esp g (Call (Unsubscribe t)))) S'
    \<and> esp_rel (snd (esp_item esp g (Call (Unsubscribe t)))) S'"
proof -
  obtain c where c: "mq_client g = Some c" and g: "mq_initialised g" "subs_ok (mq_subscriptions g)" and S: "S = (mq_state g, sub_bag (mq_subscriptions g))"
    using assms by (auto simp: esp_rel_def)
  have item: "esp_item esp g (Call (Unsubscribe t)) =
      (Answer True (fst (mqtt_client_unsubscribe esp g t)), snd (mqtt_client_unsubscribe esp g t))"
    by (simp add: esp_item_def esp_op_def esp_accepts_def c case_prod_beta)
  show ?thesis
  proof (cases t)
    case None
    have "mqtt_spec_step c0 S (Call (Unsubscribe t)) (Answer True False) S"
      unfolding S None by (intro mqtt_spec_step.not_unsubscribed) simp
    then show ?thesis unfolding item using assms by (auto simp: mqtt_client_unsubscribe_def None g c)
  next
    case t: (Some tt)
    let ?u = "upd_first (\<lambda>s. su_active s \<and> su_topic_filter s = tt) (\<lambda>s. s\<lparr>su_active := False, su_callback := None\<rparr>) (mq_subscriptions g)"
    show ?thesis
    proof (cases ?u)
      case None
      then have "mqtt_spec_step c0 S (Call (Unsubscribe t)) (Answer True False) S"
        unfolding S t by (intro mqtt_spec_step.not_unsubscribed) (simp add: bag_none)
      then show ?thesis unfolding item using assms by (auto simp: mqtt_client_unsubscribe_def t g c None simp del: upd_first_None_iff)
    next
      case (Some subs)
      from bag_remove[OF Some g(2)] obtain q k where b: "subs_ok subs" "(tt, q, k) \<in># sub_bag (mq_subscriptions g)"
        "sub_bag subs = sub_bag (mq_subscriptions g) - {#(tt, q, k)#}" by blast
      have "mqtt_spec_step c0 S (Call (Unsubscribe t)) (Answer True True) (mq_state g, sub_bag subs)"
        unfolding S t b(3) by (rule mqtt_spec_step.unsubscribe[OF b(2)])
      then show ?thesis unfolding item using b(1) g by (auto simp: mqtt_client_unsubscribe_def t c Some esp_rel_def)
    qed
  qed
qed

lemma esp_event_step:
  assumes "esp_rel g S"
  shows "\<exists>S'. mqtt_spec_step c0 S (Event e) (fst (esp_item esp g (Event e))) S' \<and> esp_rel (snd (esp_item esp g (Event e))) S'"
proof (cases e)
  case (MQTT_EVENT_DATA topic d)
  let ?f = "find (\<lambda>s. su_active s \<and> su_topic_filter s = topic_buf topic) (mq_subscriptions g)"
  have S: "S = (mq_state g, sub_bag (mq_subscriptions g))" "subs_ok (mq_subscriptions g)" using assms by (simp_all add: esp_rel_def)
  show ?thesis
  proof (cases ?f)
    case None
    then have "\<forall>s \<in> set (mq_subscriptions g). \<not> (su_active s \<and> su_topic_filter s = topic_buf topic)" unfolding find_None_iff by blast
    then have "mqtt_spec_step c0 S (Event e) (Delivered None) S"
      unfolding S(1) MQTT_EVENT_DATA by (intro mqtt_spec_step.no_data) (simp add: bag_none)
    then show ?thesis using assms None by (auto simp: esp_item_def esp_mqtt_event_handler_def MQTT_EVENT_DATA Let_def)
  next
    case (Some s)
    from bag_find[OF Some S(2)] obtain k where k: "su_callback s = Some k" "(topic_buf topic, su_qos s, k) \<in># sub_bag (mq_subscriptions g)" by blast
    have "mqtt_spec_step c0 S (Event e) (Delivered (Some (k, received_message (topic_buf topic) d (su_qos s)))) S"
      unfolding S(1) MQTT_EVENT_DATA by (rule mqtt_spec_step.data[OF k(2)])
    then show ?thesis using assms Some k(1) by (auto simp: esp_item_def esp_mqtt_event_handler_def MQTT_EVENT_DATA Let_def)
  qed
qed (use assms in \<open>auto simp: esp_item_def esp_mqtt_event_handler_def esp_rel_def intro: mqtt_spec_step.intros\<close>)

interpretation esp_run: run_refinement "esp_item esp" "mqtt_spec_step MQTT_STATE_CONNECTING" "esp_rel :: ('c, 'k) mqtt \<Rightarrow> _" for esp :: "'c esp_mqtt"
proof
  fix g :: "('c, 'k) mqtt" and S :: "'k mqtt_spec" and x
  assume rel: "esp_rel g S"
  then obtain c where c: "mq_client g = Some c" and g: "mq_initialised g" "subs_ok (mq_subscriptions g)"
    "S = (mq_state g, sub_bag (mq_subscriptions g))" by (auto simp: esp_rel_def)
  show "\<exists>S'. mqtt_spec_step MQTT_STATE_CONNECTING S x (fst (esp_item esp g x)) S' \<and> esp_rel (snd (esp_item esp g x)) S'"
  proof (cases x)
    case (Event e)
    then show ?thesis using esp_event_step[OF rel] by simp
  next
    case (Call op)
    show ?thesis
    proof (cases op)
      case Connect
      show ?thesis using c g by (cases "esp_mqtt_client_start esp c")
          (auto simp: Call Connect esp_item_def esp_op_def esp_accepts_def mqtt_client_connect_def esp_rel_def Let_def
            intro: mqtt_spec_step.connect mqtt_spec_step.connect_fails)
    next
      case Disconnect
      show ?thesis using c g by (cases "esp_mqtt_client_stop esp c")
          (auto simp: Call Disconnect esp_item_def esp_op_def esp_accepts_def mqtt_client_disconnect_def esp_rel_def
            intro: mqtt_spec_step.disconnect)
    next
      case (Publish t p q r)
      have "fst (mqtt_client_publish esp g t p q r) \<longleftrightarrow> esp_accepts esp c op \<and> mq_state g = MQTT_STATE_CONNECTED \<and> publishable t p"
        using c g by (cases t; cases p) (auto simp: Publish mqtt_client_publish_def esp_accepts_def publishable_def case_prod_beta)
      then have "mqtt_spec_step MQTT_STATE_CONNECTING S x (fst (esp_item esp g x)) S"
        unfolding g(3) by (simp add: Call Publish esp_item_def esp_op_def c case_prod_beta mqtt_spec_step.publish)
      moreover have "esp_rel (snd (esp_item esp g x)) S"
        using rel c g by (cases t; cases p) (auto simp: Call Publish esp_item_def esp_op_def mqtt_client_publish_def esp_rel_def case_prod_beta)
      ultimately show ?thesis by blast
    next
      case (Subscribe t q k)
      show ?thesis unfolding Call Subscribe by (rule esp_subscribe_step[OF rel])
    next
      case (Unsubscribe t)
      show ?thesis unfolding Call Unsubscribe by (rule esp_unsubscribe_step[OF rel])
    qed
  qed
qed

lemma native_subscribe_step:
  assumes "native_rel n S"
  shows "\<exists>S'. mqtt_spec_step c0 S (Call (Subscribe t q k)) (fst (native_item n (Subscribe t q k))) S' \<and> native_rel (snd (native_item n (Subscribe t q k))) S'"
proof -
  have n: "nm_initialised n" "subs_ok (nm_subscriptions n)" and S: "S = (nm_state n, sub_bag (nm_subscriptions n))"
    using assms by (simp_all add: native_rel_def)
  let ?u = "\<lambda>tt kk. upd_first (\<lambda>s. \<not> su_active s)
     (\<lambda>s. s\<lparr>su_topic_filter := take (MQTT_MAX_TOPIC_LEN - 1) tt, su_qos := q, su_callback := Some kk, su_active := True\<rparr>) (nm_subscriptions n)"
  have refused: "mqtt_spec_step c0 S (Call (Subscribe t q k)) (Answer True False) S"
    if "t = None \<or> k = None \<or> size (sub_bag (nm_subscriptions n)) = MQTT_MAX_SUBSCRIPTIONS"
    unfolding S using that by (intro mqtt_spec_step.not_subscribed) auto
  show ?thesis
  proof (cases "t = None \<or> k = None")
    case True
    then show ?thesis using refused assms by (auto simp: native_item_def native_op_def native_subscribe_def n split: option.split)
  next
    case False
    then obtain tt kk where tk: "t = Some tt" "k = Some kk" by auto
    show ?thesis
    proof (cases "?u tt kk")
      case None
      then have "size (sub_bag (nm_subscriptions n)) = MQTT_MAX_SUBSCRIPTIONS" using n(2) by (auto simp: sub_bag_full subs_ok_def)
      then show ?thesis using refused assms None
        by (auto simp: native_item_def native_op_def native_subscribe_def n tk simp del: upd_first_None_iff)
    next
      case (Some subs)
      from bag_enter[OF Some n(2), of kk "(take (MQTT_MAX_TOPIC_LEN - 1) tt, q, kk)"]
      have b: "subs_ok subs" "sub_bag subs = add_mset (take (MQTT_MAX_TOPIC_LEN - 1) tt, q, kk) (sub_bag (nm_subscriptions n))"
        "size (sub_bag (nm_subscriptions n)) < MQTT_MAX_SUBSCRIPTIONS" by (simp_all add: sub_entry_def)
      have "mqtt_spec_step c0 S (Call (Subscribe t q k)) (Answer True True) (nm_state n, sub_bag subs)"
        unfolding S b(2) tk by (rule mqtt_spec_step.subscribe[OF b(3)])
      then show ?thesis using assms b(1) Some
        by (auto simp: native_item_def native_op_def native_subscribe_def n tk native_rel_def)
    qed
  qed
qed

lemma native_unsubscribe_step:
  assumes "native_rel n S"
  shows "\<exists>S'. mqtt_spec_step c0 S (Call (Unsubscribe t)) (fst (native_item n (Unsubscribe t))) S' \<and> native_rel (snd (native_item n (Unsubscribe t))) S'"
proof -
  have n: "nm_initialised n" "subs_ok (nm_subscriptions n)" and S: "S = (nm_state n, sub_bag (nm_subscriptions n))"
    using assms by (simp_all add: native_rel_def)
  have unknown: "mqtt_spec_step c0 S (Call (Unsubscribe t)) (Answer True False) S"
    if "\<And>q k. t \<noteq> None \<Longrightarrow> (the t, q, k) \<notin># sub_bag (nm_subscriptions n)"
    unfolding S using that by (intro mqtt_spec_step.not_unsubscribed) blast
  show ?thesis
  proof (cases t)
    case None
    then show ?thesis using unknown assms by (auto simp: native_item_def native_op_def native_unsubscribe_def n)
  next
    case t: (Some tt)
    let ?u = "upd_first (\<lambda>s. su_active s \<and> su_topic_filter s = tt) (\<lambda>s. s\<lparr>su_active := False, su_callback := None\<rparr>) (nm_subscriptions n)"
    show ?thesis
    proof (cases ?u)
      case None
      then have "(tt, q, k) \<notin># sub_bag (nm_subscriptions n)" for q k by (simp add: bag_none)
      then show ?thesis using unknown assms None
        by (auto simp: native_item_def native_op_def native_unsubscribe_def n t simp del: upd_first_None_iff)
    next
      case (Some subs)
      from bag_remove[OF Some n(2)] obtain q k where b: "subs_ok subs" "(tt, q, k) \<in># sub_bag (nm_subscriptions n)"
        "sub_bag subs = sub_bag (nm_subscriptions n) - {#(tt, q, k)#}" by blast
      have "mqtt_spec_step c0 S (Call (Unsubscribe t)) (Answer True True) (nm_state n, sub_bag subs)"
        unfolding S t b(3) by (rule mqtt_spec_step.unsubscribe[OF b(2)])
      then show ?thesis using assms b(1) Some
        by (auto simp: native_item_def native_op_def native_unsubscribe_def n t native_rel_def)
    qed
  qed
qed

interpretation native_run: run_refinement native_item "\<lambda>S op. mqtt_spec_step MQTT_STATE_CONNECTED S (Call op)" "native_rel :: 'k mqtt_native \<Rightarrow> _"
proof
  fix n :: "'k mqtt_native" and S :: "'k mqtt_spec" and op
  assume rel: "native_rel n S"
  then have n: "nm_initialised n" "mc_broker_host (nm_config n) \<noteq> None" "subs_ok (nm_subscriptions n)"
    "S = (nm_state n, sub_bag (nm_subscriptions n))" by (simp_all add: native_rel_def)
  show "\<exists>S'. mqtt_spec_step MQTT_STATE_CONNECTED S (Call op) (fst (native_item n op)) S' \<and> native_rel (snd (native_item n op)) S'"
  proof (cases op)
    case Connect
    show ?thesis using n by (auto simp: Connect native_item_def native_op_def native_connect_def native_rel_def intro: mqtt_spec_step.connect)
  next
    case Disconnect
    show ?thesis using n by (auto simp: Disconnect native_item_def native_op_def native_disconnect_def native_rel_def intro: mqtt_spec_step.disconnect)
  next
    case (Publish t p q r)
    have "native_publish n t p q r \<longleftrightarrow> nm_state n = MQTT_STATE_CONNECTED \<and> publishable t p"
      using n(1) by (auto simp: native_publish_def publishable_def split: option.split)
    then have "mqtt_spec_step MQTT_STATE_CONNECTED S (Call op) (fst (native_item n op)) S"
      unfolding n(4) by (simp add: Publish native_item_def native_op_def mqtt_spec_step.publish)
    then show ?thesis using rel by (auto simp: Publish native_item_def native_op_def)
  next
    case (Subscribe t q k)
    show ?thesis unfolding Subscribe by (rule native_subscribe_step[OF rel])
  next
    case (Unsubscribe t)
    show ?thesis unfolding Unsubscribe by (rule native_unsubscribe_step[OF rel])
  qed
qed

declare split_paired_Ex [simp]

section \<open>Properties\<close>

text \<open>
  C18.  Both builds of the client meet one specification, a connection state with a bag of at most eight subscriptions.
  Real client: once initialised and configured, for any library, in any sequence of calls and of library events, with
  requests that the library may refuse at any point, the answers and the delivered messages are those of a run of the
  specification, and the reported state is the state of that run.  Test stub: the same for any sequence of calls with
  every request granted, except that a granted connection is established at once instead of by a later event.
\<close>

theorem mqtt_clients_refine:
  assumes "mc_broker_host cfg \<noteq> None"
    and "mqtt_client_configure esp (Some cfg) (snd (mqtt_client_init g)) = (True, g')"
  shows "(\<forall>items. \<exists>S. spec_run (mqtt_spec_step MQTT_STATE_CONNECTING) (MQTT_STATE_DISCONNECTED, {#}) items (fst (run_items (esp_item esp) g' items)) S
        \<and> mqtt_client_get_state (snd (run_items (esp_item esp) g' items)) = fst S)
    \<and> (\<forall>n ops. let n' = snd (native_configure (Some cfg) (snd (native_init n)))
        in \<exists>S. spec_run (\<lambda>S op. mqtt_spec_step MQTT_STATE_CONNECTED S (Call op)) (MQTT_STATE_DISCONNECTED, {#}) ops (fst (run_items native_item n' ops)) S
          \<and> native_get_state (snd (run_items native_item n' ops)) = fst S)"
proof -
  have e: "esp_rel g' (MQTT_STATE_DISCONNECTED, {#})"
    using assms(2) by (auto simp: esp_rel_def mqtt_client_configure_def mqtt_client_init_def Let_def subs_zero)
  have n: "native_rel (snd (native_configure (Some cfg) (snd (native_init n)))) (MQTT_STATE_DISCONNECTED, {#})" for n
    using assms(1) by (simp add: native_rel_def native_configure_def native_init_def Let_def subs_zero)
  show ?thesis using esp_run.run[OF e] native_run.run[OF n]
    by (fastforce simp: Let_def esp_rel_def native_rel_def mqtt_client_get_state_def native_get_state_def)
qed

text \<open>A library with one connection, which refuses to start twice and to publish while stopped.\<close>

definition esp_stub :: "bool esp_mqtt" where
  "esp_stub = \<lparr>esp_mqtt_client_init = (\<lambda>_. Some False), esp_mqtt_client_start = (\<lambda>c. (\<not> c, True)), esp_mqtt_client_stop = (\<lambda>c. (c, False)),
     esp_mqtt_client_publish = (\<lambda>c t p q r. (if c then 3 else -1, c)), esp_mqtt_client_subscribe = (\<lambda>c t q. (if c then 7 else -1, c)),
     esp_mqtt_client_unsubscribe = (\<lambda>c t. c)\<rparr>"

definition mqtt_boot :: "(bool, nat) mqtt" where
  "mqtt_boot = \<lparr>mq_client = None, mq_state = MQTT_STATE_DISCONNECTED, mq_initialised = False,
     mq_subscriptions = replicate MQTT_MAX_SUBSCRIPTIONS subscription_zero\<rparr>"

definition demo_mqtt :: "(bool, nat) mqtt" where
  "demo_mqtt = snd (mqtt_client_configure esp_stub (Some (mqtt_config_zero\<lparr>mc_broker_host := Some ''hub''\<rparr>)) (snd (mqtt_client_init mqtt_boot)))"

theorem mqtt_clients_refine_witness:
  "\<exists>S. spec_run (mqtt_spec_step MQTT_STATE_CONNECTING) (MQTT_STATE_DISCONNECTED, {#})
      [Call (Publish (Some ''a'') (Some [1]) MQTT_QOS_0 False), Call Connect, Call (Subscribe (Some ''a'') MQTT_QOS_0 (Some 5)),
       Event MQTT_EVENT_CONNECTED, Event (MQTT_EVENT_DATA ''a'' [1]), Call Connect]
      [Answer False False, Answer True True, Answer True True, Delivered None,
       Delivered (Some (5 :: nat, received_message ''a'' [1] MQTT_QOS_0)), Answer False False] S"
proof -
  let ?c = "mqtt_config_zero\<lparr>mc_broker_host := Some ''hub''\<rparr>"
  let ?items = "[Call (Publish (Some ''a'') (Some [1]) MQTT_QOS_0 False), Call Connect, Call (Subscribe (Some ''a'') MQTT_QOS_0 (Some 5)),
       Event MQTT_EVENT_CONNECTED, Event (MQTT_EVENT_DATA ''a'' [1]), Call Connect]"
  have "mqtt_client_configure esp_stub (Some ?c) (snd (mqtt_client_init mqtt_boot)) = (True, demo_mqtt)"
    by (simp add: demo_mqtt_def mqtt_client_configure_def mqtt_client_init_def Let_def esp_stub_def del: not_None_eq)
  moreover have "mc_broker_host ?c \<noteq> None" by simp
  ultimately have "\<forall>items. \<exists>S. spec_run (mqtt_spec_step MQTT_STATE_CONNECTING) (MQTT_STATE_DISCONNECTED, {#}) items
      (fst (run_items (esp_item esp_stub) demo_mqtt items)) S"
    using mqtt_clients_refine[of ?c esp_stub mqtt_boot demo_mqtt] by blast
  then obtain S where
    "spec_run (mqtt_spec_step MQTT_STATE_CONNECTING) (MQTT_STATE_DISCONNECTED, {#}) ?items (fst (run_items (esp_item esp_stub) demo_mqtt ?items)) S"
    by blast
  moreover have "fst (run_items (esp_item esp_stub) demo_mqtt ?items) = [Answer False False, Answer True True, Answer True True, Delivered None,
       Delivered (Some (5, received_message ''a'' [1] MQTT_QOS_0)), Answer False False]"
    by (simp add: esp_item_def esp_op_def esp_accepts_def demo_mqtt_def mqtt_client_configure_def mqtt_client_init_def esp_stub_def Let_def
        mqtt_client_publish_def mqtt_client_connect_def mqtt_client_subscribe_def esp_mqtt_event_handler_def subscription_zero_def
        MQTT_MAX_SUBSCRIPTIONS_def MQTT_MAX_TOPIC_LEN_def topic_buf_def numeral_eq_Suc)
  ultimately show ?thesis by metis
qed

text \<open>
  Subscribing delivers: when a slot is free and the topic, of at most 127 characters, has no subscription yet, then
  after a subscription the library accepts, a message on exactly this topic calls the given callback with the topic and
  the data (cut at 256 bytes), messages on other topics are delivered as before, and after unsubscribing
  the topic calls nothing any more.
\<close>

theorem mqtt_subscribe_delivers:
  assumes "mq_initialised g" and "mq_client g = Some c" and "0 \<le> fst (esp_mqtt_client_subscribe esp c t (qos_code qos))"
    and "length t < 128" and "CHR 0x00 \<notin> set t"
    and "\<forall>s \<in> set (mq_subscriptions g). su_active s \<longrightarrow> su_topic_filter s \<noteq> t"
    and "\<exists>s \<in> set (mq_subscriptions g). \<not> su_active s"
  shows "\<exists>g' g''. mqtt_client_subscribe esp g (Some t) qos (Some k) = (True, g')
    \<and> fst (esp_mqtt_event_handler (MQTT_EVENT_DATA t data) g') = Some (k, received_message t data qos)
    \<and> (\<forall>u. topic_buf u \<noteq> t \<longrightarrow> fst (esp_mqtt_event_handler (MQTT_EVENT_DATA u data) g') = fst (esp_mqtt_event_handler (MQTT_EVENT_DATA u data) g))
    \<and> mqtt_client_unsubscribe esp g' (Some t) = (True, g'')
    \<and> fst (esp_mqtt_event_handler (MQTT_EVENT_DATA t data) g'') = None"
proof -
  define i where "i = fst (esp_mqtt_client_subscribe esp c t (qos_code qos))"
  let ?c = "snd (esp_mqtt_client_subscribe esp c t (qos_code qos))" and ?s = "subscribed t qos k i"
  obtain subs where u: "upd_first (\<lambda>s. \<not> su_active s) (\<lambda>_. ?s) (mq_subscriptions g) = Some subs"
    using assms(7) by (metis (no_types, lifting) upd_first_None_iff option.exhaust)
  then obtain us x vs where l: "mq_subscriptions g = us @ x # vs" "\<not> su_active x" "subs = us @ ?s # vs"
    by (elim upd_first_SomeE) auto
  let ?g = "g\<lparr>mq_client := Some ?c, mq_subscriptions := subs\<rparr>"
  have sub: "mqtt_client_subscribe esp g (Some t) qos (Some k) = (True, ?g)"
    using subscribe_eq[OF assms(1,2) i_def[symmetric], of k] assms(3) u by (simp add: i_def)
  have s: "su_topic_filter ?s = t" "su_active ?s" "su_callback ?s = Some k" "su_qos ?s = qos"
    using assms(4) by (simp_all add: subscribed_def MQTT_MAX_TOPIC_LEN_def)
  have buf: "topic_buf t = t"
    using assms(4,5) by (simp add: topic_buf_def MQTT_MAX_TOPIC_LEN_def takeWhile_eq_all_conv) (metis)
  have none: "\<forall>y \<in> set us \<union> set vs. \<not> (su_active y \<and> su_topic_filter y = t)" using assms(6) l(1) by auto
  have hit: "find (\<lambda>y. su_active y \<and> su_topic_filter y = t) subs = Some ?s"
    using none s by (auto simp: l(3) find_append find_None_iff split: option.splits dest: find_SomeD)
  have other: "find (\<lambda>y. su_active y \<and> su_topic_filter y = topic_buf u) subs =
      find (\<lambda>y. su_active y \<and> su_topic_filter y = topic_buf u) (mq_subscriptions g)" if "topic_buf u \<noteq> t" for u
    using that s l by (auto simp: find_append split: option.split)
  let ?off = "\<lambda>y :: 'b MQTTSubscription_t. y\<lparr>su_active := False, su_callback := None\<rparr>"
  have off: "upd_first (\<lambda>y. su_active y \<and> su_topic_filter y = t) ?off subs = Some (us @ ?off ?s # vs)"
    unfolding l(3) using none s by (induction us) auto
  have "find (\<lambda>y. su_active y \<and> su_topic_filter y = t) us = None" "find (\<lambda>y. su_active y \<and> su_topic_filter y = t) vs = None"
    using none by (auto simp: find_None_iff)
  then have gone: "find (\<lambda>y. su_active y \<and> su_topic_filter y = t) (us @ ?off ?s # vs) = None"
    by (simp add: find_append)
  show ?thesis
    using sub hit other off gone assms(1) s buf
    by (auto simp: esp_mqtt_event_handler_def Let_def mqtt_client_unsubscribe_def split: option.split)
qed

theorem mqtt_subscribe_delivers_witness:
  "fst (esp_mqtt_event_handler (MQTT_EVENT_DATA ''cmd'' [1, 2])
      (snd (mqtt_client_subscribe esp_stub (snd (mqtt_client_connect esp_stub demo_mqtt)) (Some ''cmd'') MQTT_QOS_1 (Some 5))))
    = Some (5, received_message ''cmd'' [1, 2] MQTT_QOS_1)"
proof -
  let ?g = "snd (mqtt_client_connect esp_stub demo_mqtt)"
  have d: "mq_initialised ?g" "mq_client ?g = Some True" "mq_subscriptions ?g = replicate 8 subscription_zero"
    by (simp_all add: demo_mqtt_def mqtt_client_connect_def mqtt_client_configure_def mqtt_client_init_def Let_def esp_stub_def MQTT_MAX_SUBSCRIPTIONS_def)
  have e: "0 \<le> fst (esp_mqtt_client_subscribe esp_stub True ''cmd'' (qos_code MQTT_QOS_1))" by (simp add: esp_stub_def)
  show ?thesis
    using mqtt_subscribe_delivers[OF d(1,2) e, of 5 "[1, 2]"] by (auto simp: d(3) subscription_zero_def)
qed

text \<open>
  C19.  The topic a device builds is the topic the cloud understands: for non-empty names without a slash and of at most 63
  characters, building succeeds exactly when the topic with its terminator fits the buffer, and then the ingestion
  service parses it to the same tenant, site and device.
\<close>

theorem mqtt_topic_reaches_cloud:
  assumes "tenant \<noteq> []" and "site \<noteq> []" and "device \<noteq> []" and "CHR ''/'' \<notin> set (tenant @ site @ device)"
    and "length tenant < 64" and "length site < 64" and "length device < 64"
  shows "\<exists>ok txt. mqtt_build_telemetry_topic n (Some tenant) (Some site) (Some device) = (ok, Some txt)
    \<and> (ok \<longleftrightarrow> 22 + length tenant + length site + length device < n)
    \<and> (ok \<longrightarrow> ingestion_parse_topic (Some txt) = (INGEST_OK, Some (tenant, site, device)))"
proof -
  let ?t = "telemetry_topic tenant site device"
  have "''rainmaker/'' @ tenant @ ''/'' @ site @ ''/'' @ device @ ''/telemetry'' = ?t" by (simp add: telemetry_topic_def)
  then have b: "mqtt_build_telemetry_topic n (Some tenant) (Some site) (Some device) =
      (0 < length ?t \<and> length ?t < n, Some (snprintf_text n ?t))"
    by (simp only: mqtt_build_telemetry_topic_def option.case prod.case Let_def)
  have len: "length ?t = 22 + length tenant + length site + length device" by (simp add: telemetry_topic_def)
  have "length ?t < n \<Longrightarrow> snprintf_text n ?t = ?t" by (simp add: snprintf_text_def)
  then show ?thesis using b len parse_telemetry_topic[OF assms(1-4)] assms(5-7) by simp
qed

theorem mqtt_topic_reaches_cloud_witness:
  "\<exists>txt. mqtt_build_telemetry_topic 128 (Some ''acme'') (Some ''plant'') (Some ''pump7'') = (True, Some txt)
    \<and> ingestion_parse_topic (Some txt) = (INGEST_OK, Some (''acme'', ''plant'', ''pump7''))"
  using mqtt_topic_reaches_cloud[of "''acme''" "''plant''" "''pump7''" 128] by auto

end
