(* ===== verification/Influxdb_Client.thy ===== *)
theory Influxdb_Client
  imports Cloud_Ingestion
begin

text \<open>
  The InfluxDB client (\<open>firmware/shared/influxdb_client.{h,c}\<close>): encoding points in the line protocol, the URLs and headers,
  and the write and query calls over the HTTP transport the caller provides, which acts on a state \<open>'t\<close> of its own.  Strings
  are C strings.  Encoding writes into a buffer of a given size; a result \<open>None\<close> means that the code writes outside of it.
\<close>

section \<open>Printing a number\<close>

text \<open>\<open>printf\<close>'s \<open>%g\<close> for a \<open>float\<close> passed as a \<open>double\<close>: six significant digits of the exact value, ties to even.\<close>

definition round_even :: "nat \<Rightarrow> nat \<Rightarrow> nat" where
  "round_even n d = (let q = n div d; r = n mod d in if 2 * r > d \<or> 2 * r = d \<and> odd q then q + 1 else q)"

text \<open>The exponent of the first decimal digit of \<open>n / d\<close>.\<close>

definition dec_exponent :: "nat \<Rightarrow> nat \<Rightarrow> int" where
  "dec_exponent n d =
    (case find (\<lambda>x. d * 10 ^ nat x \<le> n * 10 ^ nat (- x)) (rev [-46..38]) of Some x \<Rightarrow> x | None \<Rightarrow> -46)"

definition strip_zeros :: "string \<Rightarrow> string" where
  "strip_zeros s = rev (dropWhile (\<lambda>c. c = CHR ''0'') (rev s))"

definition with_point :: "string \<Rightarrow> string \<Rightarrow> string" where
  "with_point a b = (if b = [] then a else a @ ''.'' @ b)"

definition g_digits :: "nat \<Rightarrow> int \<Rightarrow> string" where
  "g_digits d x =
    (let ds = dec d in
     if -4 \<le> x \<and> x < 6 then
       (if 0 \<le> x then with_point (take (nat x + 1) ds) (strip_zeros (drop (nat x + 1) ds))
        else ''0.'' @ replicate (nat (- x) - 1) (CHR ''0'') @ strip_zeros ds)
     else with_point (take 1 ds) (strip_zeros (drop 1 ds)) @ ''e'' @ (if x < 0 then ''-'' else ''+'')
          @ (let e = dec (nat \<bar>x\<bar>) in if length e < 2 then CHR ''0'' # e else e))"

definition format_g :: "f32 \<Rightarrow> string" where
  "format_g v =
    (if f32_sign v then ''-'' else []) @
    (if f32_is_nan v then ''nan'' else if f32_is_inf v then ''inf'' else if f32_mag v = 0 then ''0''
     else
       let n = mag_units (f32_mag v); d = 2 ^ 149; x = dec_exponent n d;
           k = round_even (n * 10 ^ nat (5 - x)) (d * 10 ^ nat (x - 5))
       in if k < 10 ^ 6 then g_digits k x else g_digits (k div 10) (x + 1))"

section \<open>Data\<close>

definition INFLUXDB_MAX_URL_LEN :: nat where "INFLUXDB_MAX_URL_LEN = 256"
definition INFLUXDB_MAX_TOKEN_LEN :: nat where "INFLUXDB_MAX_TOKEN_LEN = 128"
definition INFLUXDB_MAX_BUCKET_LEN :: nat where "INFLUXDB_MAX_BUCKET_LEN = 64"
definition INFLUXDB_MAX_LINE_LEN :: nat where "INFLUXDB_MAX_LINE_LEN = 512"

text \<open>URL, method, headers, body and the size of the response buffer; whether the request succeeded, and the response.\<close>

type_synonym 't InfluxDBTransport_t = "string \<Rightarrow> string \<Rightarrow> string list \<Rightarrow> string \<Rightarrow> nat \<Rightarrow> 't \<Rightarrow> (bool \<times> string) \<times> 't"

record InfluxDBConfig_t =
  if_base_url :: string
  if_api_token :: string
  if_org :: string

record InfluxDBPoint_t =
  ip_measurement :: string
  ip_tags :: "string list"
  ip_tag_count :: u8
  ip_field_key :: string
  ip_field_value :: f32
  ip_timestamp_ns :: u64

datatype InfluxDBResult_t =
  INFLUX_OK | INFLUX_ERR_PARAM_NULL | INFLUX_ERR_TRANSPORT | INFLUX_ERR_BUFFER_FULL | INFLUX_ERR_LINE_TOO_LONG
| INFLUX_ERR_QUERY_FAILED | INFLUX_ERR_NOT_CONFIGURED | INFLUX_ERR_UNAUTHORIZED

record 't influxdb =
  si_config :: InfluxDBConfig_t
  si_transport :: "'t InfluxDBTransport_t option"
  si_initialised :: bool

definition influxdb_config_zero :: InfluxDBConfig_t where
  "influxdb_config_zero = \<lparr>if_base_url = [], if_api_token = [], if_org = []\<rparr>"

section \<open>Line protocol\<close>

definition derive_bucket :: "string \<Rightarrow> nat \<Rightarrow> string" where
  "derive_bucket tenant_id bucket_size = snprintf_text bucket_size (''telemetry-'' @ tenant_id)"

definition validate_token :: "TenantToken_t option \<Rightarrow> bool" where
  "validate_token token = (case token of None \<Rightarrow> False | Some t \<Rightarrow> tk_valid t \<and> tk_bound_tenant_id t \<noteq> [])"

definition special :: "char \<Rightarrow> bool" where
  "special c \<longleftrightarrow> c = CHR '','' \<or> c = CHR '' ''"

fun escape_loop :: "nat \<Rightarrow> string \<Rightarrow> string \<Rightarrow> string" where
  "escape_loop buf_size out [] = out"
| "escape_loop buf_size out (c # cs) =
    (if \<not> length out < buf_size - 1 then out
     else if special c then
       (if length out + 1 < buf_size then escape_loop buf_size (out @ [CHR 0x5C, c]) cs else out)
     else escape_loop buf_size (out @ [c]) cs)"

definition escape_tag_value :: "string \<Rightarrow> nat \<Rightarrow> string" where
  "escape_tag_value v buf_size = escape_loop buf_size [] v"

text \<open>The guarded copy loops: \<open>out\<close> is what is in the buffer, \<open>room\<close> the limit.\<close>

definition append_upto :: "nat \<Rightarrow> string \<Rightarrow> string \<Rightarrow> string" where
  "append_upto room out s = out @ take (room - length out) s"

fun copy_measurement :: "nat \<Rightarrow> string \<Rightarrow> string \<Rightarrow> string" where
  "copy_measurement room out [] = out"
| "copy_measurement room out (c # cs) =
    (if \<not> length out < room then out
     else
       let out = (if special c then out @ [CHR 0x5C] else out);
           out = (if length out < room then out @ [c] else out)
       in copy_measurement room out cs)"

definition copy_tag :: "nat \<Rightarrow> string \<Rightarrow> string \<Rightarrow> string" where
  "copy_tag room out tag =
    (if tag = [] then out
     else
       let out = append_upto room out '',''
       in (case find_index (\<lambda>c. c = CHR ''='') tag of
             None \<Rightarrow> out
           | Some i \<Rightarrow>
               append_upto room (append_upto room (append_upto room out (take i tag)) ''='') (escape_tag_value (drop (Suc i) tag) 128)))"

text \<open>
  \<open>snprintf\<close> at the end of the text, with the space up to the limit; the position advances by the full length of the text.  Past
  the limit the buffer is overrun: the code goes on to write a terminator at that position, or prints there with a size
  that wrapped around.  Exactly at the limit the last character is lost to the terminator.
\<close>

definition snprintf_at :: "nat \<Rightarrow> string \<Rightarrow> string \<Rightarrow> string option" where
  "snprintf_at room out txt =
    (if room < length out + length txt then None
     else if length out + length txt = room then Some (out @ butlast txt @ [CHR 0x00])
     else Some (out @ txt))"

definition influxdb_encode_line :: "InfluxDBPoint_t option \<Rightarrow> nat \<Rightarrow> string option" where
  "influxdb_encode_line point buf_size =
    (case point of
       None \<Rightarrow> Some []
     | Some p \<Rightarrow>
         if buf_size = 0 then Some []
         else
           let room = buf_size - 1;
               out = copy_measurement room [] (ip_measurement p);
               out = foldl (copy_tag room) out (take (min (unat (ip_tag_count p)) 8) (ip_tags p));
               out = append_upto room out '' '';
               out = append_upto room out (ip_field_key p);
               out = append_upto room out ''=''
           in (case snprintf_at room out (format_g (ip_field_value p)) of
                 None \<Rightarrow> None
               | Some out \<Rightarrow>
                   if ip_timestamp_ns p > 0
                   then snprintf_at room (append_upto room out '' '') (dec (unat (ip_timestamp_ns p)))
                   else Some out))"

section \<open>Requests\<close>

definition make_write_url :: "'t influxdb \<Rightarrow> nat \<Rightarrow> TenantToken_t \<Rightarrow> bool \<times> string" where
  "make_write_url g url_size token =
    (if if_base_url (si_config g) = [] then (False, [])
     else
       let bucket = derive_bucket (tk_bound_tenant_id token) INFLUXDB_MAX_BUCKET_LEN;
           txt = if_base_url (si_config g) @ ''/api/v2/write?org='' @ if_org (si_config g) @ ''&bucket='' @ bucket @ ''&precision=ns''
       in (length txt > 0 \<and> length txt < url_size, snprintf_text url_size txt))"

definition make_auth_header :: "'t influxdb \<Rightarrow> nat \<Rightarrow> string" where
  "make_auth_header g header_size = snprintf_text header_size (''Authorization: Token '' @ if_api_token (si_config g))"

definition make_query_url :: "'t influxdb \<Rightarrow> nat \<Rightarrow> bool \<times> string" where
  "make_query_url g url_size =
    (if if_base_url (si_config g) = [] then (False, [])
     else
       let txt = if_base_url (si_config g) @ ''/api/v2/query?org='' @ if_org (si_config g)
       in (length txt > 0 \<and> length txt < url_size, snprintf_text url_size txt))"

text \<open>The common end of the two write calls.\<close>

definition post_lines :: "'t influxdb \<Rightarrow> 't InfluxDBTransport_t \<Rightarrow> TenantToken_t \<Rightarrow> string \<Rightarrow> 't \<Rightarrow> InfluxDBResult_t \<times> 't" where
  "post_lines g http token body t =
    (case make_write_url g INFLUXDB_MAX_URL_LEN token of
       (ok, url) \<Rightarrow>
         if \<not> ok then (INFLUX_ERR_BUFFER_FULL, t)
         else (case http url ''POST'' [make_auth_header g (INFLUXDB_MAX_TOKEN_LEN + 32), ''Content-Type: text/plain; charset=utf-8'']
                 body 64 t of
             ((sent, _), t) \<Rightarrow> (if sent then INFLUX_OK else INFLUX_ERR_TRANSPORT, t)))"

definition influxdb_write ::
  "'t influxdb \<Rightarrow> InfluxDBPoint_t option \<Rightarrow> TenantToken_t option \<Rightarrow> 't \<Rightarrow> (InfluxDBResult_t \<times> 't) option"
where
  "influxdb_write g point token t =
    (case (si_initialised g, si_transport g) of
       (True, Some http) \<Rightarrow>
         (case (point, token) of
            (Some p, Some tok) \<Rightarrow>
              if \<not> validate_token token then Some (INFLUX_ERR_UNAUTHORIZED, t)
              else (case influxdb_encode_line (Some p) INFLUXDB_MAX_LINE_LEN of
                  None \<Rightarrow> None
                | Some line \<Rightarrow>
                    if line = [] then Some (INFLUX_ERR_LINE_TOO_LONG, t) else Some (post_lines g http tok line t))
          | _ \<Rightarrow> Some (INFLUX_ERR_PARAM_NULL, t))
     | _ \<Rightarrow> Some (INFLUX_ERR_NOT_CONFIGURED, t))"

text \<open>The batch loop: \<open>out\<close> is the buffer up to \<open>total\<close>; \<open>Some None\<close> when the buffer is full.\<close>

fun batch_loop :: "nat \<Rightarrow> string \<Rightarrow> InfluxDBPoint_t list \<Rightarrow> string option option" where
  "batch_loop buf_size out [] = Some (Some out)"
| "batch_loop buf_size out (p # ps) =
    (case influxdb_encode_line (Some p) (buf_size - length out - 1) of
       None \<Rightarrow> None
     | Some line \<Rightarrow>
         if line = [] then Some None
         else
           let out = out @ line;
               out = (if length out < buf_size - 1 then out @ [CHR 0x0A] else out)
           in batch_loop buf_size out ps)"

text \<open>With a buffer of size 0 the size passed on wraps around, so that the first line is written past the buffer.\<close>

definition influxdb_write_batch ::
  "'t influxdb \<Rightarrow> InfluxDBPoint_t list option \<Rightarrow> nat \<Rightarrow> TenantToken_t option \<Rightarrow> 't \<Rightarrow> (InfluxDBResult_t \<times> 't) option"
where
  "influxdb_write_batch g points buf_size token t =
    (case (si_initialised g, si_transport g) of
       (True, Some http) \<Rightarrow>
         (case (points, token) of
            (Some ps, Some tok) \<Rightarrow>
              if ps = [] then Some (INFLUX_ERR_PARAM_NULL, t)
              else if \<not> validate_token token then Some (INFLUX_ERR_UNAUTHORIZED, t)
              else if buf_size = 0 then None
              else (case batch_loop buf_size [] ps of
                  None \<Rightarrow> None
                | Some None \<Rightarrow> Some (INFLUX_ERR_BUFFER_FULL, t)
                | Some (Some out) \<Rightarrow>
                    Some (post_lines g http tok (if out \<noteq> [] \<and> last out = CHR 0x0A then butlast out else out) t))
          | _ \<Rightarrow> Some (INFLUX_ERR_PARAM_NULL, t))
     | _ \<Rightarrow> Some (INFLUX_ERR_NOT_CONFIGURED, t))"

definition influxdb_query ::
  "'t influxdb \<Rightarrow> string option \<Rightarrow> nat \<Rightarrow> TenantToken_t option \<Rightarrow> 't \<Rightarrow> (InfluxDBResult_t \<times> string option) \<times> 't"
where
  "influxdb_query g flux_query resp_len token t =
    (case (si_initialised g, si_transport g) of
       (True, Some http) \<Rightarrow>
         (case (flux_query, token) of
            (Some q, Some tok) \<Rightarrow>
              if \<not> validate_token token then ((INFLUX_ERR_UNAUTHORIZED, None), t)
              else (case make_query_url g INFLUXDB_MAX_URL_LEN of
                  (ok, url) \<Rightarrow>
                    if \<not> ok then ((INFLUX_ERR_BUFFER_FULL, None), t)
                    else (case http url ''POST'' [make_auth_header g (INFLUXDB_MAX_TOKEN_LEN + 32),
                              ''Content-Type: application/vnd.flux'', ''Accept: application/csv''] q resp_len t of
                        ((sent, resp), t) \<Rightarrow> ((if sent then INFLUX_OK else INFLUX_ERR_QUERY_FAILED, Some resp), t)))
          | _ \<Rightarrow> ((INFLUX_ERR_PARAM_NULL, None), t))
     | _ \<Rightarrow> ((INFLUX_ERR_NOT_CONFIGURED, None), t))"

text \<open>The tag pairs of a telemetry value, in their order; a missing or empty name gives none.\<close>

definition telemetry_tag :: "string \<Rightarrow> string option \<Rightarrow> string list" where
  "telemetry_tag key v = (case v of None \<Rightarrow> [] | Some s \<Rightarrow> if s = [] then [] else [snprintf_text 64 (key @ s)])"

definition telemetry_point ::
  "string \<Rightarrow> string option \<Rightarrow> string option \<Rightarrow> string option \<Rightarrow> string option \<Rightarrow> string option \<Rightarrow> f32 \<Rightarrow> u64 \<Rightarrow> InfluxDBPoint_t"
where
  "telemetry_point tenant_id site_id node_id device_class metric_id domain_profile_id v timestamp_ms =
    (let tags = telemetry_tag ''tenant_id='' (Some (take (64 - 11) tenant_id)) @ telemetry_tag ''site_id='' site_id
                @ telemetry_tag ''node_id='' node_id @ telemetry_tag ''device_class='' device_class
                @ telemetry_tag ''metric_id='' metric_id @ telemetry_tag ''domain_profile_id='' domain_profile_id
     in \<lparr>ip_measurement = ''node_telemetry'', ip_tags = tags, ip_tag_count = word_of_nat (length tags), ip_field_key = ''value'',
         ip_field_value = v, ip_timestamp_ns = timestamp_ms * 1000000\<rparr>)"

definition influxdb_write_telemetry ::
  "'t influxdb \<Rightarrow> TenantToken_t option \<Rightarrow> string option \<Rightarrow> string option \<Rightarrow> string option \<Rightarrow> string option \<Rightarrow> string option \<Rightarrow>
   f32 \<Rightarrow> u64 \<Rightarrow> 't \<Rightarrow> (InfluxDBResult_t \<times> 't) option"
where
  "influxdb_write_telemetry g token site_id node_id device_class metric_id domain_profile_id v timestamp_ms t =
    (if \<not> validate_token token then Some (INFLUX_ERR_UNAUTHORIZED, t)
     else if node_id = None \<or> metric_id = None then Some (INFLUX_ERR_PARAM_NULL, t)
     else (case token of
         None \<Rightarrow> Some (INFLUX_ERR_UNAUTHORIZED, t)
       | Some tok \<Rightarrow>
           influxdb_write g (Some (telemetry_point (tk_bound_tenant_id tok) site_id node_id device_class metric_id
             domain_profile_id v timestamp_ms)) token t))"

definition influxdb_reset :: "'t influxdb \<Rightarrow> 't influxdb" where
  "influxdb_reset g = \<lparr>si_config = influxdb_config_zero, si_transport = None, si_initialised = False\<rparr>"

definition influxdb_init ::
  "'t influxdb \<Rightarrow> InfluxDBConfig_t option \<Rightarrow> 't InfluxDBTransport_t option \<Rightarrow> bool \<times> 't influxdb"
where
  "influxdb_init g config transport =
    (let g = influxdb_reset g
     in case (config, transport) of
          (Some c, Some tr) \<Rightarrow> (True, g\<lparr>si_config := c, si_transport := Some tr, si_initialised := True\<rparr>)
        | _ \<Rightarrow> (False, g))"

section \<open>The length of a printed number\<close>

lemma find_rev_upto:
  assumes "find P (rev [a..b]) = r" and "(case r of Some x \<Rightarrow> x | None \<Rightarrow> a) < y" and "y \<le> b"
  shows "\<not> P y"
proof (cases r)
  case None
  then show ?thesis using assms by (auto simp: find_None_iff)
next
  case (Some x)
  then obtain i where i: "i < length [a..b]" "x = rev [a..b] ! i" "\<And>j. j < i \<Longrightarrow> \<not> P (rev [a..b] ! j)"
    using assms(1) by (auto simp: find_Some_iff)
  have nth: "rev [a..b] ! j = b - int j" if "j < length [a..b]" for j
    using that by (simp add: rev_nth)
  have "nat (b - y) < i" using assms(2,3) Some nth[OF i(1)] i(2) by simp
  moreover from this have "nat (b - y) < length [a..b]" using i(1) by linarith
  ultimately show ?thesis using i(3)[of "nat (b - y)"] nth[of "nat (b - y)"] assms(3) by simp
qed

lemma dec_exponent_bound:
  assumes "n < d * 10 ^ 39"
  shows "n * 10 ^ nat (- (dec_exponent n d + 1)) < d * 10 ^ nat (dec_exponent n d + 1)" and "dec_exponent n d \<le> 38"
proof -
  let ?P = "\<lambda>x. d * 10 ^ nat x \<le> n * 10 ^ nat (- x)" and ?x = "dec_exponent n d"
  show le: "?x \<le> 38"
    by (auto simp: dec_exponent_def split: option.split dest!: find_SomeD)
  show "n * 10 ^ nat (- (?x + 1)) < d * 10 ^ nat (?x + 1)"
  proof (cases "?x = 38")
    case True
    then show ?thesis using assms by simp
  next
    case False
    then have "\<not> ?P (?x + 1)"
      using le find_rev_upto[OF refl, where P = ?P and a = "-46" and b = 38 and y = "?x + 1"] by (simp add: dec_exponent_def)
    then show ?thesis by simp
  qed
qed

lemma power10_split: "0 \<le> a \<Longrightarrow> 0 \<le> b \<Longrightarrow> (10 :: nat) ^ nat (a + b) = 10 ^ nat a * 10 ^ nat b"
  by (simp add: nat_add_distrib power_add)

lemma six_digits:
  assumes "n < d * 10 ^ 39"
  shows "round_even (n * 10 ^ nat (5 - dec_exponent n d)) (d * 10 ^ nat (dec_exponent n d - 5)) \<le> 10 ^ 6"
proof -
  let ?x = "dec_exponent n d"
  let ?n = "n * 10 ^ nat (5 - ?x)" and ?d = "d * 10 ^ nat (?x - 5)"
  note b = dec_exponent_bound(1)[OF assms]
  have d: "0 < d" using assms by (cases d) auto
  have "?n < 10 ^ 6 * ?d"
  proof -
    consider "5 \<le> ?x" | "-1 \<le> ?x" "?x < 5" | "?x < -1" by linarith
    then show ?thesis
    proof cases
      case 1
      then have "(10 :: nat) ^ nat (?x + 1) = 10 ^ nat (?x - 5) * 10 ^ nat 6"
        using power10_split[of "?x - 5" 6] by (simp add: algebra_simps)
      then show ?thesis using b 1 by (simp add: mult_ac)
    next
      case 2
      then have "(10 :: nat) ^ nat 6 = 10 ^ nat (?x + 1) * 10 ^ nat (5 - ?x)"
        using power10_split[of "?x + 1" "5 - ?x"] by simp
      moreover have "n < d * 10 ^ nat (?x + 1)" using b 2 by simp
      then have "n * 10 ^ nat (5 - ?x) < d * 10 ^ nat (?x + 1) * 10 ^ nat (5 - ?x)" by simp
      ultimately show ?thesis using 2 by (simp add: mult_ac)
    next
      case 3
      then have "(10 :: nat) ^ nat (5 - ?x) = 10 ^ nat (- (?x + 1)) * 10 ^ nat 6"
        using power10_split[of "- (?x + 1)" 6] by (simp add: algebra_simps)
      moreover have "n * 10 ^ nat (- (?x + 1)) < d" using b 3 by simp
      ultimately show ?thesis using 3 by (simp add: mult_ac)
    qed
  qed
  then have "?n div ?d < 10 ^ 6" using d by (intro less_mult_imp_div_less) simp
  then show ?thesis by (simp add: round_even_def Let_def)
qed

lemma mag_units_less: "m < 2139095040 \<Longrightarrow> mag_units m < 2 ^ 277"
proof -
  assume "m < 2139095040"
  then have e: "m div 8388608 \<le> 254" by simp
  have f: "8388608 + m mod 8388608 < (2 ^ 24 :: nat)" by (simp add: add.commute less_diff_conv[symmetric])
  have "(8388608 + m mod 8388608) * 2 ^ (m div 8388608 - 1) < 2 ^ 24 * (2 ^ 253 :: nat)"
    using f power_increasing[of "m div 8388608 - 1" 253 "2 :: nat"] e by (intro mult_less_le_imp_less) simp_all
  moreover have "m mod 8388608 < (2 ^ 277 :: nat)" by (rule order_less_trans[OF mod_less_divisor]) simp_all
  ultimately show ?thesis by (auto simp: mag_units_def Let_def)
qed

lemma length_strip_zeros: "length (strip_zeros s) \<le> length s"
  using length_dropWhile_le[of "\<lambda>c. c = CHR ''0''" "rev s"] by (simp add: strip_zeros_def)

lemma length_g_digits:
  assumes "k < 10 ^ 6" and "-50 < x" and "x < 50"
  shows "length (g_digits k x) \<le> 12" and "g_digits k x \<noteq> []"
proof -
  have d: "length (dec k) \<le> 6" using length_dec[of k 6] assms(1) by simp
  have e: "length (dec (nat \<bar>x\<bar>)) \<le> 2" using length_dec[of "nat \<bar>x\<bar>" 2] assms(2,3) by simp
  have s: "length (strip_zeros (drop n (dec k))) \<le> 6 - n" for n
    using length_strip_zeros[of "drop n (dec k)"] d by simp
  have p: "length (with_point a b) \<le> length a + 1 + length b" for a b by (simp add: with_point_def)
  show "length (g_digits k x) \<le> 12"
  proof (cases "-4 \<le> x \<and> x < 6")
    case True
    show ?thesis
    proof (cases "0 \<le> x")
      case pos: True
      have "nat x \<le> 5" using True by linarith
      moreover have "length (take (nat x + 1) (dec k)) \<le> nat x + 1" by simp
      ultimately have "length (with_point (take (nat x + 1) (dec k)) (strip_zeros (drop (nat x + 1) (dec k)))) \<le> 12"
        using p[of "take (nat x + 1) (dec k)" "strip_zeros (drop (nat x + 1) (dec k))"] s[of "nat x + 1"] by linarith
      then show ?thesis using True pos by (simp add: g_digits_def Let_def)
    qed (use True s[of 0] in \<open>simp add: g_digits_def Let_def\<close>)
  next
    case False
    then show ?thesis using p[of "take 1 (dec k)" "strip_zeros (drop 1 (dec k))"] s[of 1] d e
      by (auto simp: g_digits_def Let_def)
  qed
  show "g_digits k x \<noteq> []" using dec_nonempty by (auto simp: g_digits_def Let_def with_point_def)
qed

lemma length_format_g: "length (format_g v) \<le> 13" and format_g_not_Nil: "format_g v \<noteq> []"
proof -
  let ?n = "mag_units (f32_mag v)" and ?d = "2 ^ 149 :: nat"
  let ?x = "dec_exponent ?n ?d"
  let ?k = "round_even (?n * 10 ^ nat (5 - ?x)) (?d * 10 ^ nat (?x - 5))"
  have "length (format_g v) \<le> 13 \<and> format_g v \<noteq> []"
  proof (cases "f32_is_nan v \<or> f32_is_inf v \<or> f32_mag v = 0")
    case False
    then have "f32_mag v < 2139095040" by (auto simp: f32_is_nan_def f32_is_inf_def)
    then have n: "?n < ?d * 10 ^ 39" using mag_units_less[of "f32_mag v"] by simp
    have x: "-50 < ?x" "?x \<le> 38"
      by (auto simp: dec_exponent_def split: option.split dest!: find_SomeD)
    have k: "?k \<le> 10 ^ 6" by (rule six_digits[OF n])
    then have "\<not> ?k < 10 ^ 6 \<Longrightarrow> ?k div 10 < 10 ^ 6" by simp
    then show ?thesis
      using False length_g_digits[of ?k ?x] length_g_digits[of "?k div 10" "?x + 1"] x
      by (simp add: format_g_def Let_def del: power_numeral split del: if_split) (cases "?k < 10 ^ 6"; simp)
  qed (auto simp: format_g_def)
  then show "length (format_g v) \<le> 13" "format_g v \<noteq> []" by simp_all
qed

section \<open>What a line says\<close>

text \<open>The text of a point without regard to the buffer.\<close>

definition esc :: "string \<Rightarrow> string" where
  "esc s = concat (map (\<lambda>c. if special c then [CHR 0x5C, c] else [c]) s)"

definition tag_text :: "string \<Rightarrow> string" where
  "tag_text tag =
    (if tag = [] then []
     else '','' @ (case find_index (\<lambda>c. c = CHR ''='') tag of
         None \<Rightarrow> [] | Some i \<Rightarrow> take i tag @ ''='' @ esc (drop (Suc i) tag)))"

definition point_head :: "InfluxDBPoint_t \<Rightarrow> string" where
  "point_head p = esc (ip_measurement p) @ concat (map tag_text (take (min (unat (ip_tag_count p)) 8) (ip_tags p)))
     @ '' '' @ ip_field_key p @ ''=''"

definition line_text :: "InfluxDBPoint_t \<Rightarrow> string" where
  "line_text p = point_head p @ format_g (ip_field_value p)
     @ (if ip_timestamp_ns p > 0 then '' '' @ dec (unat (ip_timestamp_ns p)) else [])"

lemma esc_simps [simp]: "esc [] = []" "esc (c # s) = (if special c then CHR 0x5C # c # esc s else c # esc s)"
  by (simp_all add: esc_def)

lemma length_esc: "length (esc s) \<le> 2 * length s"
  by (induction s) auto

lemma esc_plain: "\<forall>c \<in> set s. \<not> special c \<Longrightarrow> esc s = s"
  by (induction s) auto

lemma escape_loop_eq: "length out + length (esc s) < n \<Longrightarrow> escape_loop n out s = out @ esc s"
proof (induction s arbitrary: out)
  case (Cons c s)
  then show ?case using Cons.IH[of "out @ [CHR 0x5C, c]"] Cons.IH[of "out @ [c]"] by auto
qed simp

lemma append_upto_eq: "length out \<le> room \<Longrightarrow> append_upto room out s = take room (out @ s)"
  by (simp add: append_upto_def)

lemma copy_measurement_eq: "length out \<le> room \<Longrightarrow> copy_measurement room out s = take room (out @ esc s)"
proof (induction s arbitrary: out)
  case (Cons c s)
  consider "length out = room" | "length out < room" "\<not> special c" | "length out = room - 1" "special c" "0 < room"
    | "length out < room - 1" "special c" using Cons.prems by linarith
  then show ?case
  proof cases
    case 3
    then show ?thesis using Cons.IH[of "out @ [CHR 0x5C]"] by simp
  qed (use Cons.IH[of "out @ [c]"] Cons.IH[of "out @ [CHR 0x5C, c]"] in \<open>auto simp: Let_def\<close>)
qed simp

lemma take_take_append: "take n (take n a @ b) = take n (a @ b)"
  by (cases "length a \<le> n") simp_all

lemma append_upto_take: "append_upto room (take room a) s = take room (a @ s)"
  by (simp only: append_upto_eq take_take_append length_take min.cobounded2)

lemma escape_tag: "length tag < 64 \<Longrightarrow> escape_tag_value (drop k tag) 128 = esc (drop k tag)"
  using length_esc[of "drop k tag"] by (simp add: escape_tag_value_def escape_loop_eq)

lemma copy_tag_take: "length tag < 64 \<Longrightarrow> copy_tag room (take room a) tag = take room (a @ tag_text tag)"
  by (cases "find_index (\<lambda>c. c = CHR ''='') tag")
    (simp_all add: copy_tag_def tag_text_def append_upto_take escape_tag Let_def del: take_append)

lemma copy_tags_take:
  "\<forall>t \<in> set tags. length t < 64 \<Longrightarrow> foldl (copy_tag room) (take room a) tags = take room (a @ concat (map tag_text tags))"
  by (induction tags arbitrary: a) (simp_all add: copy_tag_take del: take_append)

definition tags_fit :: "InfluxDBPoint_t \<Rightarrow> bool" where
  "tags_fit p \<longleftrightarrow> (\<forall>t \<in> set (ip_tags p). length t < 64)"

lemma encode_head:
  assumes "tags_fit p"
  shows "append_upto room (append_upto room (append_upto room (foldl (copy_tag room) (copy_measurement room [] (ip_measurement p))
      (take (min (unat (ip_tag_count p)) 8) (ip_tags p))) '' '') (ip_field_key p)) ''='' = take room (point_head p)"
proof -
  have "\<forall>t \<in> set (take (min (unat (ip_tag_count p)) 8) (ip_tags p)). length t < 64"
    using assms in_set_takeD by (fastforce simp: tags_fit_def)
  then show ?thesis
    using copy_measurement_eq[of "[]" room "ip_measurement p"]
    by (simp add: copy_tags_take append_upto_take point_head_def del: take_append)
qed

lemma snprintf_at_take:
  "txt \<noteq> [] \<Longrightarrow> snprintf_at room (take room a) txt =
    (if room < length (a @ txt) then None else if length (a @ txt) = room then Some (butlast (a @ txt) @ [CHR 0x00]) else Some (a @ txt))"
  by (auto simp: snprintf_at_def butlast_append min_def)

lemma encode_line_eq:
  assumes "tags_fit p"
  shows "influxdb_encode_line (Some p) (Suc room) =
    (if room < length (line_text p) then None
     else if length (line_text p) = room then Some (butlast (line_text p) @ [CHR 0x00])
     else Some (line_text p))"
proof (cases "ip_timestamp_ns p > 0")
  case False
  then show ?thesis
    by (simp add: influxdb_encode_line_def Let_def encode_head[OF assms] snprintf_at_take[OF format_g_not_Nil] line_text_def)
next
  case True
  let ?h = "point_head p @ format_g (ip_field_value p)" and ?t = "dec (unat (ip_timestamp_ns p))"
  have lt: "line_text p = (?h @ '' '') @ ?t" using True by (simp add: line_text_def)
  have t: "?t \<noteq> []" by (rule dec_nonempty)
  have enc: "influxdb_encode_line (Some p) (Suc room) =
      (case snprintf_at room (take room (point_head p)) (format_g (ip_field_value p)) of
         None \<Rightarrow> None | Some out \<Rightarrow> snprintf_at room (append_upto room out '' '') ?t)"
    using True by (simp add: influxdb_encode_line_def Let_def encode_head[OF assms] split: option.split)
  consider "room < length ?h" | "length ?h = room" | "length ?h < room" by linarith
  then show ?thesis
  proof cases
    case 1
    then show ?thesis unfolding enc by (simp add: snprintf_at_take[OF format_g_not_Nil] line_text_def)
  next
    case 2
    have "0 < length (format_g (ip_field_value p))" using format_g_not_Nil by simp
    then have len: "length (butlast ?h @ [CHR 0x00]) = room" using 2 by (cases room) simp_all
    have "snprintf_at room (take room (point_head p)) (format_g (ip_field_value p)) = Some (butlast ?h @ [CHR 0x00])"
      using 2 by (subst snprintf_at_take[OF format_g_not_Nil]) simp
    moreover have "append_upto room (butlast ?h @ [CHR 0x00]) '' '' = butlast ?h @ [CHR 0x00]"
      using len by (simp add: append_upto_def)
    moreover have "snprintf_at room (butlast ?h @ [CHR 0x00]) ?t = None"
      unfolding snprintf_at_def len using t by simp
    moreover have "room < length (line_text p)" using 2 unfolding lt by simp
    ultimately show ?thesis unfolding enc by simp
  next
    case 3
    then have "snprintf_at room (take room (point_head p)) (format_g (ip_field_value p)) = Some ?h"
      by (subst snprintf_at_take[OF format_g_not_Nil]) simp
    moreover have "append_upto room ?h '' '' = take room (?h @ '' '')" using 3 by (intro append_upto_eq) simp
    ultimately show ?thesis unfolding enc lt using snprintf_at_take[OF t, of room "?h @ '' ''"] by simp
  qed
qed

section \<open>Telemetry values\<close>

lemma length_dec_u64: "length (dec (unat (w :: u64))) \<le> 20"
proof -
  have "unat w < 10 ^ 20" using unat_u64_less[of w] by simp
  then show ?thesis by (intro length_dec) simp_all
qed

lemma length_telemetry_tag: "t \<in> set (telemetry_tag key v) \<Longrightarrow> length t < 64"
  by (auto simp: telemetry_tag_def snprintf_text_def split: option.splits if_splits)

lemma telemetry_tags_fit: "tags_fit (telemetry_point a b c d e f v ts)"
  by (auto simp: tags_fit_def telemetry_point_def Let_def dest: length_telemetry_tag)

text \<open>A name without commas and spaces gives a tag that is copied as it is.\<close>

definition plain :: "string \<Rightarrow> bool" where
  "plain s \<longleftrightarrow> (\<forall>c \<in> set s. \<not> special c)"

lemma find_index_first: "P x \<Longrightarrow> \<forall>y \<in> set us. \<not> P y \<Longrightarrow> find_index P (us @ x # vs) = Some (length us)"
  by (induction us) auto

lemma tag_text_plain:
  assumes "CHR ''='' \<notin> set key" and "length key < 60" and "plain v" and "v \<noteq> []"
  shows "tag_text (snprintf_text 64 (key @ ''='' @ v)) = '','' @ snprintf_text 64 (key @ ''='' @ v)"
proof -
  let ?v = "take (63 - Suc (length key)) v"
  have t: "snprintf_text 64 (key @ ''='' @ v) = key @ CHR ''='' # ?v"
    using assms(2) by (simp add: snprintf_text_def take_Cons')
  have "find_index (\<lambda>c. c = CHR ''='') (key @ CHR ''='' # ?v) = Some (length key)"
    using assms(1) by (intro find_index_first) auto
  moreover have "esc ?v = ?v" using assms(3) by (intro esc_plain) (auto simp: plain_def dest: in_set_takeD)
  ultimately show ?thesis unfolding t by (simp add: tag_text_def)
qed

lemma tags_text_plain:
  assumes "CHR ''='' \<notin> set key" and "length key < 60" and "case v of Some s \<Rightarrow> plain s | None \<Rightarrow> True"
  shows "concat (map tag_text (telemetry_tag (key @ ''='') v)) = concat (map (\<lambda>t. '','' @ t) (telemetry_tag (key @ ''='') v))"
  using tag_text_plain[OF assms(1,2)] assms(3) by (auto simp: telemetry_tag_def split: option.splits)

lemma length_telemetry_tags: "length (telemetry_tag key v) \<le> 1"
  by (simp add: telemetry_tag_def split: option.split)

lemma length_tag_list: "(\<forall>t \<in> set ts. length t < 64) \<Longrightarrow> length (concat (map (\<lambda>t. '','' @ t) ts)) \<le> 64 * length ts"
  by (induction ts) auto

definition names_plain :: "string option list \<Rightarrow> bool" where
  "names_plain vs \<longleftrightarrow> (\<forall>v \<in> set vs. case v of Some s \<Rightarrow> plain s | None \<Rightarrow> True)"

lemma telemetry_line_fits:
  assumes "plain a" and "names_plain [b, c, d, e, f]"
  shows "length (line_text (telemetry_point a b c d e f v ts)) < 511"
proof -
  let ?p = "telemetry_point a b c d e f v ts"
  let ?tags = "ip_tags ?p"
  have tags: "?tags = telemetry_tag (''tenant_id'' @ ''='') (Some (take 53 a)) @ telemetry_tag (''site_id'' @ ''='') b
      @ telemetry_tag (''node_id'' @ ''='') c @ telemetry_tag (''device_class'' @ ''='') d
      @ telemetry_tag (''metric_id'' @ ''='') e @ telemetry_tag (''domain_profile_id'' @ ''='') f"
    by (simp add: telemetry_point_def Let_def)
  have pl: "plain (take 53 a)" using assms(1) by (auto simp: plain_def dest: in_set_takeD)
  have "concat (map tag_text ?tags) = concat (map (\<lambda>t. '','' @ t) ?tags)"
    unfolding tags map_append concat_append using assms(2) pl
    by (intro arg_cong2[where f = "(@)"] tags_text_plain) (simp_all add: names_plain_def)
  moreover have n: "length ?tags \<le> 6"
    unfolding tags using length_telemetry_tags[of "''tenant_id='' " "Some (take 53 a)"] length_telemetry_tags[of "''site_id='' " b]
      length_telemetry_tags[of "''node_id=''" c] length_telemetry_tags[of "''device_class=''" d]
      length_telemetry_tags[of "''metric_id=''" e] length_telemetry_tags[of "''domain_profile_id=''" f] by simp
  moreover have "length (concat (map (\<lambda>t. '','' @ t) ?tags)) \<le> 64 * length ?tags"
    using telemetry_tags_fit[of a b c d e f v ts] by (intro length_tag_list) (simp add: tags_fit_def)
  ultimately have t: "length (concat (map tag_text ?tags)) \<le> 384" by simp
  have "length (concat (map tag_text (take k ?tags))) \<le> length (concat (map tag_text ?tags))" for k
    by (subst (2) append_take_drop_id[symmetric, of _ k]) (simp only: map_append concat_append length_append le_add1)
  then have h: "length (concat (map tag_text (take k ?tags))) \<le> 384" for k using t le_trans by blast
  have sel: "ip_measurement ?p = ''node_telemetry''" "ip_field_key ?p = ''value''" "ip_field_value ?p = v"
    by (simp_all add: telemetry_point_def Let_def)
  have m: "esc ''node_telemetry'' = ''node_telemetry''" by (rule esc_plain) (simp add: special_def)
  show ?thesis
    using h[of "min (unat (ip_tag_count ?p)) 8"] length_format_g[of v] length_dec_u64[of "ip_timestamp_ns ?p"]
    unfolding line_text_def point_head_def sel m by simp
qed

section \<open>Properties\<close>

text \<open>
  C20.  Encoding a point into a buffer: the result is the text of the point in line protocol exactly when the text is at least
  two characters shorter than the buffer; one character more and the last character of the text is replaced by a zero byte,
  without an error; and a longer text makes the code write past the end of the buffer.  The documented result 0
  for a line that is too long does not occur.
\<close>

theorem influx_line_exact:
  assumes "tags_fit p" and "0 < n"
  shows "influxdb_encode_line (Some p) n =
    (if length (line_text p) + 2 \<le> n then Some (line_text p)
     else if length (line_text p) + 1 = n then Some (butlast (line_text p) @ [CHR 0x00])
     else None)"
proof -
  obtain room where "n = Suc room" using assms(2) by (cases n) auto
  then show ?thesis using encode_line_eq[OF assms(1), of room] by auto
qed

definition comma_point :: InfluxDBPoint_t where
  "comma_point = telemetry_point ''t'' (Some (replicate 45 (CHR '',''))) (Some (replicate 45 (CHR '',''))) (Some (replicate 45 (CHR '','')))
     (Some (replicate 45 (CHR '',''))) (Some (replicate 45 (CHR '',''))) 0 0"

lemma special_comma: "special (CHR '','')"
  by (simp add: special_def)

lemma esc_commas: "esc (replicate k (CHR '','')) = concat (replicate k [CHR 0x5C, CHR '',''])"
  by (induction k) (simp_all add: special_comma)

lemma length_tag_commas:
  assumes "CHR ''='' \<notin> set key" and "length key < 18"
  shows "length (tag_text (snprintf_text 64 (key @ ''='' @ replicate 45 (CHR '','')))) = length key + 92"
proof -
  have t: "snprintf_text 64 (key @ ''='' @ replicate 45 (CHR '','')) = key @ CHR ''='' # replicate 45 (CHR '','')"
    using assms(2) by (simp add: snprintf_text_def)
  have "find_index (\<lambda>c. c = CHR ''='') (key @ CHR ''='' # replicate 45 (CHR '','')) = Some (length key)"
    using assms(1) by (intro find_index_first) auto
  then show ?thesis unfolding t by (simp add: tag_text_def esc_commas length_concat sum_list_replicate)
qed

lemma comma_point_long: "511 < length (line_text comma_point)"
proof -
  let ?c = "replicate 45 (CHR '','')"
  have tags: "ip_tags comma_point = [''tenant_id=t'', snprintf_text 64 (''site_id'' @ ''='' @ ?c), snprintf_text 64 (''node_id'' @ ''='' @ ?c),
      snprintf_text 64 (''device_class'' @ ''='' @ ?c), snprintf_text 64 (''metric_id'' @ ''='' @ ?c), snprintf_text 64 (''domain_profile_id'' @ ''='' @ ?c)]"
    and cnt: "unat (ip_tag_count comma_point) = 6" and sel: "ip_measurement comma_point = ''node_telemetry''"
    by (simp_all add: comma_point_def telemetry_point_def telemetry_tag_def Let_def snprintf_text_def)
  have m: "esc ''node_telemetry'' = ''node_telemetry''" by (rule esc_plain) (simp add: special_def)
  have "length (concat (map tag_text (ip_tags comma_point))) \<ge> 512"
    unfolding tags using length_tag_commas[of "''site_id''"] length_tag_commas[of "''node_id''"] length_tag_commas[of "''device_class''"]
      length_tag_commas[of "''metric_id''"] length_tag_commas[of "''domain_profile_id''"] by simp
  moreover have "take (min (unat (ip_tag_count comma_point)) 8) (ip_tags comma_point) = ip_tags comma_point"
    by (simp add: cnt tags)
  ultimately show ?thesis unfolding line_text_def point_head_def sel m by simp
qed

theorem influx_line_exact_witness: "influxdb_encode_line (Some comma_point) 512 = None"
  using influx_line_exact[of comma_point 512] comma_point_long telemetry_tags_fit by (auto simp: comma_point_def)

text \<open>
  C21.  A telemetry value of a valid token, with names free of commas and spaces, on a configured client whose URL fits, is
  always encoded completely, whatever the value and the time are; the one request that is made carries exactly the text of
  the point and names the bucket of the token's tenant, not one of the caller's choice.
\<close>

theorem influx_telemetry_delivered:
  assumes "si_initialised g" and "si_transport g = Some http" and "tk_valid tok" and "tk_bound_tenant_id tok \<noteq> []"
    and "plain (tk_bound_tenant_id tok)" and "names_plain [site, Some node, cls, Some metric, domain]"
    and "url = if_base_url (si_config g) @ ''/api/v2/write?org='' @ if_org (si_config g)
           @ ''&bucket=telemetry-'' @ take 53 (tk_bound_tenant_id tok) @ ''&precision=ns''"
    and "if_base_url (si_config g) \<noteq> []" and "length url < 256"
    and "p = telemetry_point (tk_bound_tenant_id tok) site (Some node) cls (Some metric) domain v ts"
    and "http url ''POST'' [make_auth_header g 160, ''Content-Type: text/plain; charset=utf-8''] (line_text p) 64 t = ((sent, resp), t')"
  shows "influxdb_write_telemetry g (Some tok) site (Some node) cls (Some metric) domain v ts t =
    Some (if sent then INFLUX_OK else INFLUX_ERR_TRANSPORT, t')"
proof -
  have fits: "length (line_text p) + 2 \<le> 512"
    using telemetry_line_fits[OF assms(5,6), of v ts] assms(10) by simp
  have tags: "tags_fit p" using telemetry_tags_fit assms(10) by simp
  have enc: "influxdb_encode_line (Some p) 512 = Some (line_text p)" using encode_line_eq[OF tags, of 511] fits by simp
  have ne: "line_text p \<noteq> []" by (simp add: line_text_def point_head_def)
  have bucket: "derive_bucket (tk_bound_tenant_id tok) 64 = ''telemetry-'' @ take 53 (tk_bound_tenant_id tok)"
    by (simp add: derive_bucket_def snprintf_text_def)
  have "make_write_url g 256 tok = (True, url)"
    using assms(7-9) by (simp add: make_write_url_def Let_def INFLUXDB_MAX_BUCKET_LEN_def bucket snprintf_text_def)
  then show ?thesis
    using assms(1-4,11) enc ne unfolding influxdb_write_telemetry_def influxdb_write_def
    by (simp add: validate_token_def assms(10)[symmetric] INFLUXDB_MAX_LINE_LEN_def post_lines_def INFLUXDB_MAX_URL_LEN_def
        INFLUXDB_MAX_TOKEN_LEN_def)
qed

definition demo_influx :: "string list influxdb" where
  "demo_influx = snd (influxdb_init \<lparr>si_config = influxdb_config_zero, si_transport = None, si_initialised = False\<rparr>
     (Some \<lparr>if_base_url = ''http://db'', if_api_token = ''k'', if_org = ''o''\<rparr>)
     (Some (\<lambda>url m hs body n t. ((True, []), t @ [body]))))"

definition demo_tenant :: "string \<Rightarrow> TenantToken_t" where
  "demo_tenant n = \<lparr>tk_token_id = 1, tk_bound_tenant_id = n, tk_valid = True\<rparr>"

theorem influx_telemetry_delivered_witness:
  "influxdb_write_telemetry demo_influx (Some (demo_tenant ''acme'')) None (Some ''n1'') None (Some ''temp'') None 0x41200000 5 [] =
    Some (INFLUX_OK, [line_text (telemetry_point ''acme'' None (Some ''n1'') None (Some ''temp'') None 0x41200000 5)])"
proof -
  have g: "si_initialised demo_influx" "si_transport demo_influx = Some (\<lambda>url m hs body n t. ((True, []), t @ [body]))"
    "if_base_url (si_config demo_influx) = ''http://db''" "if_org (si_config demo_influx) = ''o''"
    by (simp_all add: demo_influx_def influxdb_init_def Let_def)
  have "influxdb_write_telemetry demo_influx (Some (demo_tenant ''acme'')) None (Some ''n1'') None (Some ''temp'') None 0x41200000 5 [] =
    Some (if True then INFLUX_OK else INFLUX_ERR_TRANSPORT,
      [line_text (telemetry_point (tk_bound_tenant_id (demo_tenant ''acme'')) None (Some ''n1'') None (Some ''temp'') None 0x41200000 5)])"
    by (rule influx_telemetry_delivered[OF g(1,2) _ _ _ _ refl _ _ refl])
      (simp_all add: g demo_tenant_def plain_def names_plain_def special_def)
  then show ?thesis by (simp add: demo_tenant_def)
qed

text \<open>
  Queries are not scoped: with any two valid tokens, of the same or of different tenants, a query sends the same
  request and returns the same answer, so that a tenant's token reads the data of every tenant the query text names.
\<close>

theorem influx_query_unscoped:
  assumes "validate_token (Some a)" and "validate_token (Some b)"
  shows "influxdb_query g q n (Some a) t = influxdb_query g q n (Some b) t"
  using assms by (simp add: influxdb_query_def split: option.split bool.split)

theorem influx_query_unscoped_witness:
  "influxdb_query demo_influx (Some ''from(bucket: telemetry-b)'') 64 (Some (demo_tenant ''a'')) [] =
   influxdb_query demo_influx (Some ''from(bucket: telemetry-b)'') 64 (Some (demo_tenant ''b'')) []"
  by (rule influx_query_unscoped) (simp_all add: validate_token_def demo_tenant_def)

text \<open>
  Buckets are shared by long names: two tenants write to the same bucket exactly when their names agree in the first 53
  characters.
\<close>

theorem influx_buckets_shared:
  "derive_bucket a INFLUXDB_MAX_BUCKET_LEN = derive_bucket b INFLUXDB_MAX_BUCKET_LEN \<longleftrightarrow> take 53 a = take 53 b"
  by (simp add: derive_bucket_def INFLUXDB_MAX_BUCKET_LEN_def snprintf_text_def)

end
