(* ===== verification/Historian_Eviction.thy ===== *)
theory Historian_Eviction
  imports Historian "HOL-Library.While_Combinator"
begin

text \<open>
  The two loops of \<open>historian_evict\<close> (\<open>src/firmware/hub/historian.c\<close>) as loops: the bodies as they are written, run by the
  \<open>while\<close> combinator of the library, which has a result only when the loop ends.  The recursive functions of \<open>Historian\<close> are
  their results.
\<close>

text \<open>The body of the age loop; the flag is false after \<open>break\<close>.\<close>

definition age_body :: "ccm_dec \<Rightarrow> u64 \<Rightarrow> bool \<times> 'st historian \<Rightarrow> bool \<times> 'st historian" where
  "age_body dec current_ms s =
    (let h = snd s; pos = oldest_pos h
     in case decrypt_record dec h pos pos (h_ring h pos) of
          Some oldest \<Rightarrow> if too_old current_ms oldest then (True, count_evicted h) else (False, h)
        | None \<Rightarrow> (True, count_dec_error (count_evicted h)))"

definition age_loop :: "ccm_dec \<Rightarrow> u64 \<Rightarrow> 'st historian \<Rightarrow> (bool \<times> 'st historian) option" where
  "age_loop dec current_ms h = while_option (\<lambda>s. fst s \<and> h_count (snd s) > 0) (age_body dec current_ms) (True, h)"

definition capacity_loop :: "'st historian \<Rightarrow> 'st historian option" where
  "capacity_loop h = while_option (\<lambda>h. h_count h \<ge> HISTORIAN_CAPACITY) count_evicted h"

lemma age_body_simps:
  "decrypt_record dec h (oldest_pos h) (oldest_pos h) (h_ring h (oldest_pos h)) = None \<Longrightarrow>
     age_body dec now (go, h) = (True, count_dec_error (count_evicted h))"
  "decrypt_record dec h (oldest_pos h) (oldest_pos h) (h_ring h (oldest_pos h)) = Some r \<Longrightarrow>
     age_body dec now (go, h) = (if too_old now r then (True, count_evicted h) else (False, h))"
  by (simp_all add: age_body_def Let_def)

lemma age_loop_result: "\<exists>go. age_loop dec now h = Some (go, evict_by_age dec now h)"
  unfolding age_loop_def
proof (induction dec now h rule: evict_by_age.induct)
  case (1 dec now h)
  let ?b = "\<lambda>s :: bool \<times> 'a historian. fst s \<and> h_count (snd s) > 0" and ?c = "age_body dec now"
  let ?pos = "oldest_pos h"
  show ?case
  proof (cases "h_count h > 0")
    case False
    then have "while_option ?b ?c (True, h) = Some (True, h)" by (subst while_option_unfold) simp
    moreover from False have "evict_by_age dec now h = h" by (subst evict_by_age.simps) simp
    ultimately show ?thesis by (intro exI[of _ True]) simp
  next
    case pos: True
    then have unfold: "while_option ?b ?c (True, h) = while_option ?b ?c (age_body dec now (True, h))"
      by (subst while_option_unfold) simp
    show ?thesis
    proof (cases "decrypt_record dec h ?pos ?pos (h_ring h ?pos)")
      case None
      then show ?thesis unfolding unfold using 1(1)[OF pos None] pos
        by (subst evict_by_age.simps) (simp add: age_body_simps)
    next
      case (Some oldest)
      then show ?thesis
      proof (cases "too_old now oldest")
        case True
        then show ?thesis unfolding unfold using 1(2)[OF pos Some True] pos Some
          by (subst evict_by_age.simps) (simp add: age_body_simps)
      next
        case False
        then have "while_option ?b ?c (age_body dec now (True, h)) = Some (False, h)"
          using Some by (simp add: age_body_simps) (subst while_option_unfold, simp)
        moreover from pos Some False have "evict_by_age dec now h = h" by (subst evict_by_age.simps) simp
        ultimately show ?thesis unfolding unfold by (intro exI[of _ False]) simp
      qed
    qed
  qed
qed

lemma capacity_loop_result: "capacity_loop h = Some (evict_by_capacity h)"
  unfolding capacity_loop_def
proof (induction h rule: evict_by_capacity.induct)
  case (1 h)
  then show ?case by (subst while_option_unfold, subst evict_by_capacity.simps) simp
qed

text \<open>Every round of either loop takes one record away and counts it.\<close>

definition evicts :: "'st historian \<Rightarrow> 'st historian \<Rightarrow> bool" where
  "evicts h h' \<longleftrightarrow> unat (h_count h') \<le> unat (h_count h)
     \<and> hs_records_evicted (h_stats h') = hs_records_evicted (h_stats h) + (h_count h - h_count h')"

lemma evicts_refl: "evicts h h"
  by (simp add: evicts_def)

lemma evicts_trans: "evicts h1 h2 \<Longrightarrow> evicts h2 h3 \<Longrightarrow> evicts h1 h3"
  by (simp add: evicts_def)

lemma evicts_one: "h_count h > 0 \<Longrightarrow> evicts h (count_evicted h)" "h_count h > 0 \<Longrightarrow> evicts h (count_dec_error (count_evicted h))"
  by (simp_all add: evicts_def count_evicted_def count_dec_error_def unat_minus_one word_gt_0)

lemma age_evicts: "evicts h (evict_by_age dec now h)"
proof (induction dec now h rule: evict_by_age.induct)
  case (1 dec now h)
  then show ?case
    using evicts_one[of h] by (subst evict_by_age.simps) (auto simp: evicts_refl split: option.split intro: evicts_trans)
qed

lemma capacity_evicts: "evicts h (evict_by_capacity h)"
proof (induction h rule: evict_by_capacity.induct)
  case (1 h)
  show ?case
  proof (cases "h_count h \<ge> HISTORIAN_CAPACITY")
    case True
    then have "h_count h > 0" by (auto simp: word_le_nat_alt word_gt_0)
    then show ?thesis using True "1.IH"[OF True] evicts_one(1)[of h]
      by (subst evict_by_capacity.simps) (auto intro: evicts_trans)
  next
    case False
    then show ?thesis by (subst evict_by_capacity.simps) (simp add: evicts_refl)
  qed
qed

lemma age_stops: "h_count (evict_by_age dec now h) > 0 \<Longrightarrow>
    \<exists>r. decrypt_record dec (evict_by_age dec now h) (oldest_pos (evict_by_age dec now h)) (oldest_pos (evict_by_age dec now h))
        (h_ring (evict_by_age dec now h) (oldest_pos (evict_by_age dec now h))) = Some r \<and> \<not> too_old now r"
proof (induction dec now h rule: evict_by_age.induct)
  case (1 dec now h)
  have eq: "evict_by_age dec now h = (if h_count h > 0 then
       (case decrypt_record dec h (oldest_pos h) (oldest_pos h) (h_ring h (oldest_pos h)) of
          Some oldest \<Rightarrow> if too_old now oldest then evict_by_age dec now (count_evicted h) else h
        | None \<Rightarrow> evict_by_age dec now (count_dec_error (count_evicted h))) else h)"
    by (rule evict_by_age.simps)
  show ?case
  proof (cases "h_count h > 0")
    case pos: True
    show ?thesis
    proof (cases "decrypt_record dec h (oldest_pos h) (oldest_pos h) (h_ring h (oldest_pos h))")
      case None
      then have step: "evict_by_age dec now h = evict_by_age dec now (count_dec_error (count_evicted h))" using eq pos by simp
      show ?thesis using "1.IH"(1)[OF pos None] "1.prems" unfolding step by blast
    next
      case (Some r)
      show ?thesis
      proof (cases "too_old now r")
        case True
        then have step: "evict_by_age dec now h = evict_by_age dec now (count_evicted h)" using eq pos Some by simp
        show ?thesis using "1.IH"(2)[OF pos Some True] "1.prems" unfolding step by blast
      next
        case False
        then have "evict_by_age dec now h = h" using eq pos Some by simp
        then show ?thesis using Some False by simp
      qed
    qed
  next
    case False
    then show ?thesis using "1.prems" eq by simp
  qed
qed

lemma capacity_below: "h_count (evict_by_capacity h) < HISTORIAN_CAPACITY"
proof (induction h rule: evict_by_capacity.induct)
  case (1 h)
  then show ?case by (subst evict_by_capacity.simps) (simp add: not_le)
qed

text \<open>
  C17.  Eviction ends, from every state of the ring, also one with records that do not decrypt: both loops have a final state, and
  the two together give the result of \<open>historian_evict\<close>.  As many records are counted as are removed, the
  first loop leaves the ring empty or with an oldest record that decrypts and is not too old, and in the end there is
  room for a record.
\<close>

theorem eviction_terminates:
  "\<exists>go h1 h2. age_loop dec now h = Some (go, h1) \<and> capacity_loop h1 = Some h2 \<and> h2 = historian_evict dec h now
    \<and> evicts h h1 \<and> evicts h1 h2 \<and> h_count h2 < HISTORIAN_CAPACITY
    \<and> (h_count h1 = 0 \<or> (\<exists>r. decrypt_record dec h1 (oldest_pos h1) (oldest_pos h1) (h_ring h1 (oldest_pos h1)) = Some r \<and> \<not> too_old now r))"
proof -
  let ?h1 = "evict_by_age dec now h"
  obtain go where "age_loop dec now h = Some (go, ?h1)" using age_loop_result by blast
  moreover have "h_count ?h1 = 0 \<or> (\<exists>r. decrypt_record dec ?h1 (oldest_pos ?h1) (oldest_pos ?h1) (h_ring ?h1 (oldest_pos ?h1)) = Some r \<and> \<not> too_old now r)"
    using age_stops[of dec now h] by (auto simp: word_gt_0)
  ultimately show ?thesis
    using capacity_loop_result[of ?h1] age_evicts[of h dec now] capacity_evicts[of ?h1] capacity_below[of ?h1]
    by (simp add: historian_evict_def)
qed

end
