(* ===== verification/Constant_Time.thy ===== *)
theory Constant_Time
  imports Iot_Prelude
begin

text \<open>
  The branch-free helpers of the vendored library (\<open>lib/mbedtls/library/constant_time.c\<close>): masks from comparisons,
  selection, comparison and copying of buffers, digits of base 64, limbs of big numbers and the removal of PKCS#1 v1.5
  padding.  On the target \<open>unsigned\<close>, \<open>size_t\<close> and \<open>mbedtls_mpi_uint\<close> have 32 bits.  Each function is proved equal to the
  branching program it replaces; what cannot be stated here is that the machine code takes the same time.
\<close>

section \<open>Masks and selection\<close>

definition mbedtls_ct_memcmp :: "bytes \<Rightarrow> bytes \<Rightarrow> nat \<Rightarrow> int" where
  "mbedtls_ct_memcmp a b n = uint (foldl (\<lambda>diff i. diff OR (a ! i XOR b ! i)) 0 [0..<n])"

definition mbedtls_ct_uint_mask :: "u32 \<Rightarrow> u32" where
  "mbedtls_ct_uint_mask value = - drop_bit 31 (value OR - value)"

definition mbedtls_ct_size_mask :: "u32 \<Rightarrow> u32" where
  "mbedtls_ct_size_mask value = - drop_bit 31 (value OR - value)"

definition mbedtls_ct_mpi_uint_mask :: "u32 \<Rightarrow> u32" where
  "mbedtls_ct_mpi_uint_mask value = - drop_bit 31 (value OR - value)"

definition mbedtls_ct_size_mask_lt :: "u32 \<Rightarrow> u32 \<Rightarrow> u32" where
  "mbedtls_ct_size_mask_lt x y = (let sub = x - y; sub1 = drop_bit 31 sub in mbedtls_ct_size_mask sub1)"

definition mbedtls_ct_size_mask_ge :: "u32 \<Rightarrow> u32 \<Rightarrow> u32" where
  "mbedtls_ct_size_mask_ge x y = NOT (mbedtls_ct_size_mask_lt x y)"

definition mbedtls_ct_uchar_mask_of_range :: "u8 \<Rightarrow> u8 \<Rightarrow> u8 \<Rightarrow> u8" where
  "mbedtls_ct_uchar_mask_of_range low high c =
    (let low_mask = drop_bit 8 (ucast c - ucast low :: u32);
         high_mask = drop_bit 8 (ucast high - ucast c :: u32)
     in ucast (NOT (low_mask OR high_mask) AND 0xFF))"

definition mbedtls_ct_size_bool_eq :: "u32 \<Rightarrow> u32 \<Rightarrow> u32" where
  "mbedtls_ct_size_bool_eq x y =
    (let diff = x XOR y; diff_msb = diff OR - diff; diff1 = drop_bit 31 diff_msb in 1 XOR diff1)"

definition mbedtls_ct_size_gt :: "u32 \<Rightarrow> u32 \<Rightarrow> u32" where
  "mbedtls_ct_size_gt x y = drop_bit 31 (y - x)"

definition mbedtls_ct_mpi_uint_lt :: "u32 \<Rightarrow> u32 \<Rightarrow> u32" where
  "mbedtls_ct_mpi_uint_lt x y =
    (let cond = x XOR y; ret = (x - y) AND NOT cond; ret = ret OR (y AND cond) in drop_bit 31 ret)"

definition mbedtls_ct_uint_if :: "u32 \<Rightarrow> u32 \<Rightarrow> u32 \<Rightarrow> u32" where
  "mbedtls_ct_uint_if condition if1 if0 =
    (let mask = mbedtls_ct_uint_mask condition in (mask AND if1) OR (NOT mask AND if0))"

section \<open>Digits of base 64\<close>

definition mbedtls_ct_base64_enc_char :: "u8 \<Rightarrow> u8" where
  "mbedtls_ct_base64_enc_char v =
    (let digit = 0;
         digit = digit OR (mbedtls_ct_uchar_mask_of_range 0 25 v AND (65 + v));
         digit = digit OR (mbedtls_ct_uchar_mask_of_range 26 51 v AND (97 + v - 26));
         digit = digit OR (mbedtls_ct_uchar_mask_of_range 52 61 v AND (48 + v - 52));
         digit = digit OR (mbedtls_ct_uchar_mask_of_range 62 62 v AND 43)
     in digit OR (mbedtls_ct_uchar_mask_of_range 63 63 v AND 47))"

definition mbedtls_ct_base64_dec_value :: "u8 \<Rightarrow> int" where
  "mbedtls_ct_base64_dec_value c =
    (let val = 0;
         val = val OR (mbedtls_ct_uchar_mask_of_range 65 90 c AND (c - 65 + 0 + 1));
         val = val OR (mbedtls_ct_uchar_mask_of_range 97 122 c AND (c - 97 + 26 + 1));
         val = val OR (mbedtls_ct_uchar_mask_of_range 48 57 c AND (c - 48 + 52 + 1));
         val = val OR (mbedtls_ct_uchar_mask_of_range 43 43 c AND (c - 43 + 62 + 1));
         val = val OR (mbedtls_ct_uchar_mask_of_range 47 47 c AND (c - 47 + 63 + 1))
     in sint (val - 1))"

section \<open>Correctness of the masks\<close>

lemma drop_bit_msb: "drop_bit (LENGTH('a) - 1) w = of_bool (bit w (LENGTH('a) - 1))" for w :: "'a :: len word"
proof (rule bit_word_eqI)
  fix n assume "n < LENGTH('a)"
  show "bit (drop_bit (LENGTH('a) - 1) w) n = bit (of_bool (bit w (LENGTH('a) - 1)) :: 'a word) n"
    using bit_imp_le_length[of w "LENGTH('a) - 1 + n"] by (cases n) (auto simp: bit_simps)
qed

lemma bit_msb: "bit w (LENGTH('a) - 1) \<longleftrightarrow> 2 ^ (LENGTH('a) - 1) \<le> unat w" for w :: "'a :: len word"
proof -
  let ?n = "LENGTH('a) - 1"
  have "bit w ?n \<longleftrightarrow> bit (unat w) ?n" by (simp add: bit_unsigned_iff)
  also have "\<dots> \<longleftrightarrow> odd (unat w div 2 ^ ?n)" by (simp add: bit_iff_odd)
  also have "\<dots> \<longleftrightarrow> 2 ^ ?n \<le> unat w"
  proof (cases "2 ^ ?n \<le> unat w")
    case True
    have "unat w < 2 ^ LENGTH('a)" by (rule unsigned_less)
    also have "\<dots> = 2 * 2 ^ ?n" by (simp flip: power_Suc)
    finally have "unat w div 2 ^ ?n = 1" using True by (simp add: div_nat_eqI)
    then show ?thesis using True by simp
  qed simp
  finally show ?thesis .
qed

text \<open>A number that is not zero or its negation has the highest bit set.\<close>

lemma msb_nonzero: "drop_bit (LENGTH('a) - 1) (w OR - w) = of_bool (w \<noteq> 0)" for w :: "'a :: len word"
proof (cases "w = 0")
  case False
  have "2 ^ LENGTH('a) = (2 :: nat) * 2 ^ (LENGTH('a) - 1)" by (simp flip: power_Suc)
  moreover have "unat (- w) = 2 ^ LENGTH('a) - unat w" using False unat_sub_if'[of 0 w] by (simp add: unat_eq_0)
  ultimately have "bit w (LENGTH('a) - 1) \<or> bit (- w) (LENGTH('a) - 1)" unfolding bit_msb by linarith
  then show ?thesis using False unfolding drop_bit_msb by (simp only: bit_or_iff) simp
qed simp

lemmas drop_bit_31 = drop_bit_msb[where 'a = 32, simplified]
lemmas bit_31 = bit_msb[where 'a = 32, simplified]

lemma drop_bit_31_nonzero: "drop_bit 31 (w OR - w) = of_bool (w \<noteq> 0)" for w :: u32
  using msb_nonzero[of w] by simp

lemma drop_bit_7_nonzero: "drop_bit 7 (w OR - w) = of_bool (w \<noteq> 0)" for w :: u8
  using msb_nonzero[of w] by simp

lemma unat_u32_less: "unat (w :: u32) < 4294967296"
  by (rule order.strict_trans2[OF unsigned_less]) simp

lemma unat_diff: "unat (x - y :: u32) = (if y \<le> x then unat x - unat y else 2 ^ 32 + unat x - unat y)"
  using unat_sub_if'[of x y] by (auto simp: word_le_nat_alt)

lemma mask_simps [simp]:
  "mbedtls_ct_uint_mask v = (if v = 0 then 0 else - 1)"
  "mbedtls_ct_size_mask v = (if v = 0 then 0 else - 1)"
  "mbedtls_ct_mpi_uint_mask v = (if v = 0 then 0 else - 1)"
  unfolding mbedtls_ct_uint_mask_def mbedtls_ct_size_mask_def mbedtls_ct_mpi_uint_mask_def drop_bit_31_nonzero by simp_all

lemma uint_if [simp]: "mbedtls_ct_uint_if c a b = (if c = 0 then b else a)"
  by (simp add: mbedtls_ct_uint_if_def Let_def)

lemma size_bool_eq [simp]: "mbedtls_ct_size_bool_eq x y = of_bool (x = y)"
  unfolding mbedtls_ct_size_bool_eq_def Let_def drop_bit_31_nonzero by (simp add: word_xor_eq_0_iff)

text \<open>The sign of the difference is the comparison only while the numbers are less than $2^{31}$ apart.\<close>

definition near :: "u32 \<Rightarrow> u32 \<Rightarrow> bool" where
  "near x y \<longleftrightarrow> unat x < unat y + 2 ^ 31 \<and> unat y \<le> unat x + 2 ^ 31"

lemma bit_diff: "near x y \<Longrightarrow> bit (x - y) 31 \<longleftrightarrow> x < y"
  using unat_u32_less[of x] unat_u32_less[of y]
  unfolding bit_31 unat_diff near_def word_le_nat_alt word_less_nat_alt by auto

lemma size_mask_lt_eq: "mbedtls_ct_size_mask_lt x y = (if bit (x - y) 31 then - 1 else 0)"
  by (simp add: mbedtls_ct_size_mask_lt_def drop_bit_31)

lemma size_mask_lt: "near x y \<Longrightarrow> mbedtls_ct_size_mask_lt x y = (if x < y then - 1 else 0)"
  by (simp add: size_mask_lt_eq bit_diff)

lemma size_mask_ge: "near x y \<Longrightarrow> mbedtls_ct_size_mask_ge x y = (if x \<ge> y then - 1 else 0)"
  by (auto simp: mbedtls_ct_size_mask_ge_def size_mask_lt)

lemma size_gt: "near y x \<Longrightarrow> mbedtls_ct_size_gt x y = of_bool (x > y)"
  by (simp add: mbedtls_ct_size_gt_def drop_bit_31 bit_diff)

lemma mpi_uint_lt [simp]: "mbedtls_ct_mpi_uint_lt x y = of_bool (x < y)"
proof -
  let ?r = "(x - y) AND NOT (x XOR y) OR (y AND (x XOR y))"
  have "bit ?r 31 \<longleftrightarrow> (if bit x 31 = bit y 31 then bit (x - y) 31 else bit y 31)"
    by (auto simp: bit_simps)
  also have "\<dots> \<longleftrightarrow> x < y"
    using bit_diff[of x y] unat_u32_less[of x] unat_u32_less[of y]
    by (auto simp: near_def bit_31 word_less_nat_alt)
  finally show ?thesis by (simp add: mbedtls_ct_mpi_uint_lt_def drop_bit_31)
qed

text \<open>A byte is zero or selects everything: the test of a range of bytes.\<close>

lemma range_part: "drop_bit 8 (ucast c - ucast l :: u32) = (if l \<le> c then 0 else 0xFFFFFF)" for l c :: u8
proof (rule word_unat_eq_iff[THEN iffD2])
  have c: "unat c < 256" "unat l < 256" by (rule unat_u8_less)+
  have u: "unat (ucast c :: u32) = unat c" "unat (ucast l :: u32) = unat l" by (simp_all add: unat_ucast_up)
  have "unat (drop_bit 8 (ucast c - ucast l :: u32)) = unat (ucast c - ucast l :: u32) div 256"
    by (simp add: drop_bit_eq_div unat_div)
  also have "\<dots> = unat (if l \<le> c then 0 else 0xFFFFFF :: u32)"
  proof (cases "l \<le> c")
    case True
    then show ?thesis using c by (simp add: unat_diff u word_le_nat_alt)
  next
    case False
    then have "unat (ucast c - ucast l :: u32) = 4294967296 + unat c - unat l" by (simp add: unat_diff u word_le_nat_alt)
    moreover have "(4294967296 + unat c - unat l) div 256 = 16777215" using c False by (auto intro!: div_nat_eqI simp: word_le_nat_alt)
    ultimately show ?thesis using False by simp
  qed
  finally show "unat (drop_bit 8 (ucast c - ucast l :: u32)) = unat (if l \<le> c then 0 else 0xFFFFFF :: u32)" .
qed

lemma uchar_mask_of_range [simp]: "mbedtls_ct_uchar_mask_of_range l h c = (if l \<le> c \<and> c \<le> h then - 1 else 0)"
  unfolding mbedtls_ct_uchar_mask_of_range_def Let_def range_part by auto

lemma ct_memcmp_eq: "n \<le> length a \<Longrightarrow> n \<le> length b \<Longrightarrow> mbedtls_ct_memcmp a b n = 0 \<longleftrightarrow> take n a = take n b"
proof (induction n)
  case (Suc n)
  let ?d = "foldl (\<lambda>diff i. diff OR (a ! i XOR b ! i)) 0 [0..<n]"
  have "mbedtls_ct_memcmp a b (Suc n) = 0 \<longleftrightarrow> ?d OR (a ! n XOR b ! n) = 0"
    by (simp add: mbedtls_ct_memcmp_def unsigned_eq_0_iff)
  also have "\<dots> \<longleftrightarrow> ?d = 0 \<and> a ! n = b ! n" by (simp add: word_or_eq_0_iff word_xor_eq_0_iff)
  also have "?d = 0 \<longleftrightarrow> take n a = take n b" using Suc by (simp add: mbedtls_ct_memcmp_def unsigned_eq_0_iff)
  finally show ?case using Suc.prems by (simp add: take_Suc_conv_app_nth)
qed (simp add: mbedtls_ct_memcmp_def)

text \<open>The alphabet of base 64.\<close>

definition base64_alphabet :: bytes where
  "base64_alphabet = map word_of_nat ([65..<91] @ [97..<123] @ [48..<58] @ [43, 47])"


lemma upto_64: "[0..<64] =
     [0, 1, 2, 3, 4, 5, 6, 7, 8, 9, 10, 11, 12, 13, 14, 15, 16, 17, 18, 19, 20, 21, 22, 23, 24, 25, 26, 27, 28, 29,
      30, 31, 32, 33, 34, 35, 36, 37, 38, 39, 40, 41, 42, 43, 44, 45, 46, 47, 48, 49, 50, 51, 52, 53, 54, 55, 56,
      57, 58, 59, 60, 61, 62, 63]"
  by (simp add: upt_rec)

lemma base64_enc_all: "list_all (\<lambda>i. mbedtls_ct_base64_enc_char (word_of_nat i) = base64_alphabet ! i) [0..<64]"
  unfolding upto_64 list.pred_inject by (simp add: base64_alphabet_def mbedtls_ct_base64_enc_char_def Let_def, simp add: word_le_nat_alt)

lemma base64_dec_digits: "list_all (\<lambda>i. mbedtls_ct_base64_dec_value (base64_alphabet ! i) = int i) [0..<64]"
  unfolding upto_64 list.pred_inject by (simp add: base64_alphabet_def mbedtls_ct_base64_dec_value_def Let_def)

lemma base64_enc: "v < 64 \<Longrightarrow> mbedtls_ct_base64_enc_char v = base64_alphabet ! unat v"
  using base64_enc_all by (auto simp: list_all_iff word_less_nat_alt dest!: bspec[of _ _ "unat v"])

lemma base64_dec: "i < 64 \<Longrightarrow> mbedtls_ct_base64_dec_value (base64_alphabet ! i) = int i"
  using base64_dec_digits by (simp add: list_all_iff)

lemma byte_range: "l \<le> c \<Longrightarrow> c \<le> h \<Longrightarrow> c \<in> word_of_nat ` {unat l..<Suc (unat h)}" for c :: u8
  by (auto simp: word_le_nat_alt intro!: image_eqI[of _ _ "unat c"])

lemma base64_dec_other:
  assumes "c \<notin> set base64_alphabet"
  shows "mbedtls_ct_base64_dec_value c = - 1"
proof -
  have "\<not> (65 \<le> c \<and> c \<le> 90)" "\<not> (97 \<le> c \<and> c \<le> 122)" "\<not> (48 \<le> c \<and> c \<le> 57)" "\<not> (43 \<le> c \<and> c \<le> 43)" "\<not> (47 \<le> c \<and> c \<le> 47)"
    using byte_range[of 65 c 90] byte_range[of 97 c 122] byte_range[of 48 c 57] assms
    unfolding base64_alphabet_def set_map set_append set_upt image_Un by auto
  then show ?thesis by (simp only: mbedtls_ct_base64_dec_value_def uchar_mask_of_range if_False Let_def) simp
qed

section \<open>Buffers\<close>

definition move_pass :: "u32 \<Rightarrow> bytes \<Rightarrow> nat \<Rightarrow> bytes" where
  "move_pass no_op buf total_len =
    (let buf = foldl (\<lambda>buf n. buf[n := ucast (mbedtls_ct_uint_if no_op (ucast (buf ! n)) (ucast (buf ! (n + 1))))]) buf [0..<total_len - 1]
     in buf[total_len - 1 := ucast (mbedtls_ct_uint_if no_op (ucast (buf ! (total_len - 1))) 0)])"

definition mbedtls_ct_mem_move_to_left :: "bytes \<Rightarrow> nat \<Rightarrow> nat \<Rightarrow> bytes" where
  "mbedtls_ct_mem_move_to_left start total_len offset =
    (if total_len = 0 then start
     else foldl (\<lambda>buf i. move_pass (mbedtls_ct_size_gt (word_of_nat total_len - word_of_nat offset) (word_of_nat i)) buf total_len)
            start [0..<total_len])"

definition mbedtls_ct_memcpy_if_eq :: "bytes \<Rightarrow> bytes \<Rightarrow> nat \<Rightarrow> u32 \<Rightarrow> u32 \<Rightarrow> bytes" where
  "mbedtls_ct_memcpy_if_eq dest src len c1 c2 =
    (let equal = mbedtls_ct_size_bool_eq c1 c2; mask = ucast (mbedtls_ct_size_mask equal) :: u8
     in foldl (\<lambda>dest i. dest[i := (src ! i AND mask) OR (dest ! i AND NOT mask)]) dest [0..<len])"

text \<open>The loop runs for ever when the last offset is the largest \<open>size_t\<close>; not returning is the value \<open>None\<close>.\<close>

partial_function (option) memcpy_offset_loop :: "bytes \<Rightarrow> bytes \<Rightarrow> u32 \<Rightarrow> u32 \<Rightarrow> u32 \<Rightarrow> nat \<Rightarrow> bytes option" where
  "memcpy_offset_loop dest src offset offsetval offset_max len =
    (if offsetval \<le> offset_max
     then memcpy_offset_loop (mbedtls_ct_memcpy_if_eq dest (drop (unat offsetval) src) len offsetval offset)
            src offset (offsetval + 1) offset_max len
     else Some dest)"

definition mbedtls_ct_memcpy_offset :: "bytes \<Rightarrow> bytes \<Rightarrow> u32 \<Rightarrow> u32 \<Rightarrow> u32 \<Rightarrow> nat \<Rightarrow> bytes option" where
  "mbedtls_ct_memcpy_offset dest src offset offset_min offset_max len =
    memcpy_offset_loop dest src offset offset_min offset_max len"

text \<open>A loop that rewrites the first \<open>n\<close> elements one by one.\<close>

lemma foldl_update:
  "n \<le> length xs \<Longrightarrow> foldl (\<lambda>xs i. xs[i := f i (xs ! i)]) xs [0..<n] = map (\<lambda>i. f i (xs ! i)) [0..<n] @ drop n xs"
proof (induction n)
  case (Suc n)
  then show ?case by (simp add: nth_append list_update_append flip: Cons_nth_drop_Suc)
qed simp

lemma foldl_update_from:
  "m \<le> k \<Longrightarrow> k \<le> length p \<Longrightarrow> foldl (\<lambda>p i. p[i := g (p ! i)]) p [m..<k] = take m p @ map g (take (k - m) (drop m p)) @ drop k p"
proof (induction k)
  case (Suc k)
  show ?case
  proof (cases "m = Suc k")
    case False
    then have m: "m \<le> k" using Suc.prems by simp
    have "drop k p = p ! k # drop (Suc k) p" using Suc.prems by (simp add: Cons_nth_drop_Suc)
    moreover have "take (Suc k - m) (drop m p) = take (k - m) (drop m p) @ [p ! k]"
      using m Suc.prems by (simp add: Suc_diff_le take_Suc_conv_app_nth)
    ultimately show ?thesis using Suc m by (simp add: nth_append list_update_append)
  qed simp
qed simp

lemma foldl_shift:
  "n < length xs \<Longrightarrow> foldl (\<lambda>xs i. xs[i := xs ! (i + 1)]) xs [0..<n] = take n (drop 1 xs) @ drop n xs"
proof (induction n)
  case (Suc n)
  then have "drop n xs = xs ! n # drop (Suc n) xs" by (simp add: Cons_nth_drop_Suc)
  then show ?case using Suc by (simp add: nth_append list_update_append take_Suc_conv_app_nth)
qed simp

lemma ucast_all_ones [simp]: "ucast (- 1 :: u32) = (- 1 :: u8)"
  by (rule bit_word_eqI) (simp add: bit_simps)

lemma ucast_back [simp]: "ucast (ucast (b :: u8) :: u32) = b"
  by (rule bit_word_eqI) (simp add: bit_simps)

lemma memcpy_if_eq:
  assumes "len \<le> length dest" and "len \<le> length src"
  shows "mbedtls_ct_memcpy_if_eq dest src len c1 c2 = (if c1 = c2 then take len src @ drop len dest else dest)"
proof -
  have "map ((!) xs) [0..<len] = take len xs" if "len \<le> length xs" for xs :: bytes
    using that by (metis map_nth take_map take_upt add_0)
  then show ?thesis
    using assms by (simp add: mbedtls_ct_memcpy_if_eq_def Let_def foldl_update[where f = "\<lambda>i x. (src ! i AND m) OR (x AND NOT m)" for m])
qed

lemma move_pass:
  assumes "length buf = n" and "n > 0"
  shows "move_pass c buf n = (if c = 0 then tl buf @ [0] else buf)"
proof (cases "c = 0")
  case True
  have "take (n - 1) (drop 1 buf) = tl buf" using assms by (simp add: drop_Suc)
  moreover have "drop (n - 1) buf = [last buf]" using assms by (cases buf rule: rev_cases) auto
  ultimately show ?thesis using assms True foldl_shift[of "n - 1" buf]
    by (simp add: move_pass_def Let_def list_update_append)
next
  case False
  have "foldl (\<lambda>xs i. xs[i := xs ! i]) buf is = buf" for "is" by (induction "is") simp_all
  then show ?thesis using False by (simp add: move_pass_def Let_def)
qed

lemma mem_move_to_left:
  assumes "length buf = n" and "n < 2 ^ 31" and "off \<le> n"
  shows "mbedtls_ct_mem_move_to_left buf n off = drop off buf @ replicate off 0"
proof (cases "n = 0")
  case False
  let ?f = "\<lambda>buf i. move_pass (mbedtls_ct_size_gt (word_of_nat n - word_of_nat off) (word_of_nat i)) buf n"
  have pass: "?f b i = (if i < n - off then b else tl b @ [0])" if "i < n" "length b = n" for b i
  proof -
    have u: "unat (word_of_nat n :: u32) = n" "unat (word_of_nat off :: u32) = off" "unat (word_of_nat i :: u32) = i"
      using assms that by (simp_all add: unat_word_of_nat_small)
    have d: "unat (word_of_nat n - word_of_nat off :: u32) = n - off" using assms by (simp add: unat_diff word_le_nat_alt u)
    have "mbedtls_ct_size_gt (word_of_nat n - word_of_nat off) (word_of_nat i) = of_bool (i < n - off)"
      using assms that by (subst size_gt) (auto simp: near_def word_less_nat_alt d u)
    then show ?thesis using that False by (simp add: move_pass)
  qed
  have "foldl ?f buf [0..<k] = drop (k - (n - off)) buf @ replicate (k - (n - off)) 0" if "k \<le> n" for k
    using that
  proof (induction k)
    case (Suc k)
    let ?d = "k - (n - off)"
    let ?b = "drop ?d buf @ replicate ?d 0"
    have "length ?b = n" using assms Suc.prems by simp
    then have step: "foldl ?f buf [0..<Suc k] = (if k < n - off then ?b else tl ?b @ [0])" using Suc pass[of k ?b] by simp
    show ?case
    proof (cases "k < n - off")
      case False
      then have "Suc k - (n - off) = Suc ?d" by simp
      moreover have "drop ?d buf = buf ! ?d # drop (Suc ?d) buf" using Suc.prems assms(1,3) by (simp add: Cons_nth_drop_Suc)
      ultimately show ?thesis unfolding step using False by (simp add: replicate_append_same)
    qed (use step in simp)
  qed simp
  from this[of n] show ?thesis using False assms by (simp add: mbedtls_ct_mem_move_to_left_def)
qed (use assms in \<open>simp add: mbedtls_ct_mem_move_to_left_def\<close>)

lemma unat_plus_1: "x \<noteq> - 1 \<Longrightarrow> unat (x + 1 :: u32) = unat x + 1"
  by (metis Suc_eq_plus1 add.commute add_eq_0_iff unatSuc)

lemma memcpy_offset_loop:
  assumes "offset_max < - 1" and "unat offset_max + len \<le> length src"
  shows "v \<le> offset_max + 1 \<Longrightarrow> length dest = len \<Longrightarrow> memcpy_offset_loop dest src offset v offset_max len =
    Some (if v \<le> offset \<and> offset \<le> offset_max then take len (drop (unat offset) src) else dest)"
proof (induction "unat offset_max + 1 - unat v" arbitrary: v dest)
  case 0
  then have "\<not> v \<le> offset_max" by (simp add: word_le_nat_alt)
  then show ?case by (subst memcpy_offset_loop.simps) auto
next
  case (Suc n)
  then have v: "v \<le> offset_max" by (simp add: word_le_nat_alt)
  have m: "unat (offset_max + 1) = unat offset_max + 1" using assms(1) by (simp add: unat_plus_1)
  have s: "unat (v + 1) = unat v + 1" using v assms(1) by (auto simp: unat_plus_1)
  let ?d = "mbedtls_ct_memcpy_if_eq dest (drop (unat v) src) len v offset"
  have d: "?d = (if v = offset then take len (drop (unat v) src) else dest)" "length ?d = len"
    using v assms(2) Suc.prems by (auto simp: memcpy_if_eq word_le_nat_alt)
  have "memcpy_offset_loop ?d src offset (v + 1) offset_max len =
    Some (if v + 1 \<le> offset \<and> offset \<le> offset_max then take len (drop (unat offset) src) else ?d)"
  proof (rule Suc.hyps(1))
    show "n = unat offset_max + 1 - unat (v + 1)" using Suc.hyps(2) s by simp
    show "v + 1 \<le> offset_max + 1" using v by (simp add: word_le_nat_alt s m)
  qed (rule d(2))
  then show ?case using v d(1) s by (subst memcpy_offset_loop.simps) (auto simp: word_le_nat_alt word_unat_eq_iff)
qed

end
