(* ===== verification/Ct_Bignum.thy ===== *)
theory Ct_Bignum
  imports Constant_Time
begin

text \<open>
  The big-number helpers of \<open>constant_time.c\<close>: conditional copy, conditional swap and comparison of numbers in limbs
  of 32 bits.  \<open>mbedtls_mpi_grow\<close> belongs to \<open>bignum.c\<close>, which is not part of the repository: it is the argument \<open>grow\<close>,
  and \<open>mpi_grow_ok\<close> states what \<open>bignum.h\<close> promises of it.
\<close>

section \<open>Code\<close>

text \<open>The sign is the \<open>int\<close> of the C structure as its 32-bit pattern, 1 or -1; the number of limbs is the length of the list.\<close>

record mbedtls_mpi =
  mpi_s :: u32
  mpi_p :: "u32 list"

definition MBEDTLS_ERR_MPI_BAD_INPUT_DATA :: int where "MBEDTLS_ERR_MPI_BAD_INPUT_DATA = - 4"

definition mbedtls_ct_mpi_uint_cond_assign :: "nat \<Rightarrow> u32 list \<Rightarrow> u32 list \<Rightarrow> u8 \<Rightarrow> u32 list" where
  "mbedtls_ct_mpi_uint_cond_assign n dest src condition =
    (let msk = - ucast condition in foldl (\<lambda>dest i. dest[i := (src ! i AND msk) OR (dest ! i AND NOT msk)]) dest [0..<n])"

definition mbedtls_mpi_safe_cond_assign ::
  "(mbedtls_mpi \<Rightarrow> nat \<Rightarrow> int \<times> mbedtls_mpi) \<Rightarrow> mbedtls_mpi \<Rightarrow> mbedtls_mpi \<Rightarrow> u8 \<Rightarrow> int \<times> mbedtls_mpi" where
  "mbedtls_mpi_safe_cond_assign grow X Y assign =
    (let limb_mask = mbedtls_ct_mpi_uint_mask (ucast assign);
         (ret, X) = grow X (length (mpi_p Y))
     in if ret \<noteq> 0 then (ret, X)
        else
          let X = X\<lparr>mpi_s := mbedtls_ct_uint_if (ucast assign) (mpi_s Y) (mpi_s X)\<rparr>;
              X = X\<lparr>mpi_p := mbedtls_ct_mpi_uint_cond_assign (length (mpi_p Y)) (mpi_p X) (mpi_p Y) assign\<rparr>
          in (0, X\<lparr>mpi_p := foldl (\<lambda>p i. p[i := p ! i AND NOT limb_mask]) (mpi_p X) [length (mpi_p Y)..<length (mpi_p X)]\<rparr>))"

text \<open>\<open>same\<close> says whether both arguments point to one number.\<close>

definition mbedtls_mpi_safe_cond_swap ::
  "(mbedtls_mpi \<Rightarrow> nat \<Rightarrow> int \<times> mbedtls_mpi) \<Rightarrow> bool \<Rightarrow> mbedtls_mpi \<Rightarrow> mbedtls_mpi \<Rightarrow> u8 \<Rightarrow> int \<times> mbedtls_mpi \<times> mbedtls_mpi" where
  "mbedtls_mpi_safe_cond_swap grow same X Y swap =
    (if same then (0, X, Y)
     else
       let limb_mask = mbedtls_ct_mpi_uint_mask (ucast swap);
           (ret, X) = grow X (length (mpi_p Y))
       in if ret \<noteq> 0 then (ret, X, Y)
          else
            let (ret, Y) = grow Y (length (mpi_p X))
            in if ret \<noteq> 0 then (ret, X, Y)
               else
                 let s = mpi_s X;
                     X = X\<lparr>mpi_s := mbedtls_ct_uint_if (ucast swap) (mpi_s Y) (mpi_s X)\<rparr>;
                     Y = Y\<lparr>mpi_s := mbedtls_ct_uint_if (ucast swap) s (mpi_s Y)\<rparr>;
                     (p, q) = foldl (\<lambda>(p, q) i.
                        let tmp = p ! i;
                            p = p[i := (p ! i AND NOT limb_mask) OR (q ! i AND limb_mask)]
                        in (p, q[i := (q ! i AND NOT limb_mask) OR (tmp AND limb_mask)]))
                       (mpi_p X, mpi_p Y) [0..<length (mpi_p X)]
                 in (0, X\<lparr>mpi_p := p\<rparr>, Y\<lparr>mpi_p := q\<rparr>))"

text \<open>One turn of the comparison, on the limbs \<open>x\<close> and \<open>y\<close> at one position.\<close>

definition lt_step :: "u32 \<Rightarrow> u32 \<times> u32 \<Rightarrow> u32 \<times> u32 \<Rightarrow> u32 \<times> u32" where
  "lt_step X_is_negative = (\<lambda>(ret, done) (x, y).
     let cond = mbedtls_ct_mpi_uint_lt y x;
         ret = ret OR (cond AND (1 - done) AND X_is_negative);
         done = done OR cond;
         cond = mbedtls_ct_mpi_uint_lt x y;
         ret = ret OR (cond AND (1 - done) AND (1 - X_is_negative));
         done = done OR cond
     in (ret, done))"

definition mbedtls_mpi_lt_mpi_ct :: "mbedtls_mpi \<Rightarrow> mbedtls_mpi \<Rightarrow> int + u32" where
  "mbedtls_mpi_lt_mpi_ct X Y =
    (if length (mpi_p X) \<noteq> length (mpi_p Y) then Inl MBEDTLS_ERR_MPI_BAD_INPUT_DATA
     else
       let X_is_negative = drop_bit 1 (mpi_s X AND 2);
           Y_is_negative = drop_bit 1 (mpi_s Y AND 2);
           cond = X_is_negative XOR Y_is_negative;
           ret = cond AND X_is_negative;
           done = cond
       in Inr (fst (foldl (\<lambda>s i. lt_step X_is_negative s (mpi_p X ! (i - 1), mpi_p Y ! (i - 1))) (ret, done)
                 (rev [1..<length (mpi_p X) + 1]))))"

section \<open>Values\<close>

primrec limbs_value :: "u32 list \<Rightarrow> nat" where
  "limbs_value [] = 0"
| "limbs_value (l # ls) = unat l + 2 ^ 32 * limbs_value ls"

definition mpi_value :: "mbedtls_mpi \<Rightarrow> int" where
  "mpi_value X = (if mpi_s X = 1 then int (limbs_value (mpi_p X)) else - int (limbs_value (mpi_p X)))"

text \<open>A number as the library keeps it: the sign is 1 or -1, and zero has the sign 1.\<close>

definition mpi_wf :: "mbedtls_mpi \<Rightarrow> bool" where
  "mpi_wf X \<longleftrightarrow> mpi_s X = 1 \<or> mpi_s X = - 1 \<and> limbs_value (mpi_p X) \<noteq> 0"

text \<open>What \<open>bignum.h\<close> promises: enough limbs and the same number, or an error.\<close>

definition mpi_grow_ok :: "(mbedtls_mpi \<Rightarrow> nat \<Rightarrow> int \<times> mbedtls_mpi) \<Rightarrow> bool" where
  "mpi_grow_ok grow \<longleftrightarrow> (\<forall>X n r X'. grow X n = (r, X') \<longrightarrow>
     (if r = 0 then X' = X\<lparr>mpi_p := mpi_p X @ replicate (n - length (mpi_p X)) 0\<rparr> else X' = X))"

lemma limbs_value_append: "limbs_value (ps @ qs) = limbs_value ps + 2 ^ (32 * length ps) * limbs_value qs"
  by (induction ps) (simp_all add: algebra_simps power_add)

lemma limbs_value_zeros [simp]: "limbs_value (replicate n 0) = 0"
  by (induction n) simp_all

lemma limbs_value_pad [simp]: "limbs_value (ps @ replicate n 0) = limbs_value ps"
  by (simp add: limbs_value_append)

lemma limbs_value_bound: "limbs_value ps < 2 ^ (32 * length ps)"
proof (induction ps)
  case (Cons l ls)
  have "unat l < 2 ^ 32" using unat_u32_less[of l] by simp
  moreover have "Suc (limbs_value ls) \<le> 2 ^ (32 * length ls)" using Cons by simp
  then have "2 ^ 32 * Suc (limbs_value ls) \<le> 2 ^ 32 * 2 ^ (32 * length ls)" by (rule mult_le_mono2)
  ultimately show ?case by (simp add: power_add)
qed simp

section \<open>Copy and swap\<close>

lemma cond_bit: "c = 0 \<or> c = (1 :: u8) \<Longrightarrow> (- ucast c :: u32) = (if c = 0 then 0 else - 1) \<and> (ucast c = (0 :: u32) \<longleftrightarrow> c = 0)"
  by auto

lemma map_nth_prefix: "n \<le> length xs \<Longrightarrow> map ((!) xs) [0..<n] = take n xs"
  by (metis map_nth take_map take_upt add_0)

lemma cond_assign:
  assumes "c = 0 \<or> c = 1" and "n \<le> length d" and "n \<le> length s"
  shows "mbedtls_ct_mpi_uint_cond_assign n d s c = (if c = 0 then d else take n s @ drop n d)"
  using assms cond_bit[OF assms(1)]
  by (simp add: mbedtls_ct_mpi_uint_cond_assign_def Let_def foldl_update[where f = "\<lambda>i x. (s ! i AND m) OR (x AND NOT m)" for m]
      map_nth_prefix)

lemma swap_loop:
  assumes "m = (0 :: u32) \<or> m = - 1" and "n \<le> length p" and "n \<le> length q"
  shows "foldl (\<lambda>(p, q) i. let tmp = p ! i; p = p[i := (p ! i AND NOT m) OR (q ! i AND m)]
            in (p, q[i := (q ! i AND NOT m) OR (tmp AND m)])) (p, q) [0..<n]
     = (if m = 0 then (p, q) else (take n q @ drop n p, take n p @ drop n q))"
  using assms(2,3)
proof (induction n)
  case (Suc n)
  have "drop n p = p ! n # drop (Suc n) p" "drop n q = q ! n # drop (Suc n) q" using Suc.prems by (simp_all add: Cons_nth_drop_Suc)
  then show ?case using Suc assms(1) by (auto simp: nth_append list_update_append take_Suc_conv_app_nth Let_def)
qed simp

text \<open>The copied number has the value of \<open>Y\<close> and at least as many limbs as either number.\<close>

lemma safe_cond_assign:
  assumes "mpi_grow_ok grow" and "c = 0 \<or> c = 1" and "mbedtls_mpi_safe_cond_assign grow X Y c = (r, X')"
  shows "if r = 0 then mpi_s X' = (if c = 0 then mpi_s X else mpi_s Y)
       \<and> mpi_p X' = (let n = max (length (mpi_p X)) (length (mpi_p Y)); p = mpi_p (if c = 0 then X else Y) in p @ replicate (n - length p) 0)
     else X' = X"
proof -
  obtain r0 X0 where g: "grow X (length (mpi_p Y)) = (r0, X0)" by force
  note ok = assms(1)[unfolded mpi_grow_ok_def, rule_format, OF g]
  show ?thesis
  proof (cases "r0 = 0")
    case True
    let ?n = "length (mpi_p Y)"
    define p where "p = mpi_p X @ replicate (?n - length (mpi_p X)) 0"
    have X0: "X0 = X\<lparr>mpi_p := p\<rparr>" using ok True by (simp add: p_def)
    have k: "?n \<le> length p" "length p = max (length (mpi_p X)) ?n" by (simp_all add: p_def max_def)
    have keep: "foldl (\<lambda>p i. p[i := p ! i]) q is = q" for q :: "u32 list" and "is" by (induction "is") simp_all
    have clear: "foldl (\<lambda>p i. p[i := 0]) (mpi_p Y @ drop ?n p) [?n..<length p] = mpi_p Y @ replicate (length p - ?n) 0"
      using foldl_update_from[of ?n "length p" "mpi_p Y @ drop ?n p" "\<lambda>_. 0"] k by (simp add: map_replicate_const)
    have "r = 0 \<and> X' = X\<lparr>mpi_s := mpi_s (if c = 0 then X else Y),
        mpi_p := (if c = 0 then p else mpi_p Y @ replicate (length p - ?n) 0)\<rparr>"
      using assms(2,3) g True X0 clear keep le_add_diff_inverse[OF k(1)] cond_assign[OF assms(2) k(1) order_refl]
      by (auto simp: mbedtls_mpi_safe_cond_assign_def Let_def)
    then show ?thesis by (auto simp: Let_def k(2) p_def max_def)
  next
    case False
    then show ?thesis using assms(3) g ok by (simp add: mbedtls_mpi_safe_cond_assign_def Let_def)
  qed
qed

lemma limbs_less: "length xs = length ys \<Longrightarrow> limbs_value (x # xs) < limbs_value (y # ys) \<longleftrightarrow>
    limbs_value xs < limbs_value ys \<or> limbs_value xs = limbs_value ys \<and> x < y"
  using unat_u32_less[of x] unat_u32_less[of y] by (auto simp: word_less_nat_alt)

lemma limbs_eq: "length xs = length ys \<Longrightarrow> limbs_value xs = limbs_value ys \<Longrightarrow> xs = ys"
proof (induction xs ys rule: list_induct2)
  case (Cons x xs y ys)
  have "limbs_value xs = limbs_value ys"
    using arg_cong[OF Cons.prems, of "\<lambda>n. n div 4294967296"] unat_u32_less[of x] unat_u32_less[of y] by simp
  then show ?case using Cons by (simp add: word_unat_eq_iff)
qed simp

lemma lt_step_bool:
  "lt_step (of_bool neg) (of_bool r, of_bool d) (x, y) = (of_bool (r \<or> \<not> d \<and> (if neg then y < x else x < y)), of_bool (d \<or> x \<noteq> y))"
proof (cases "x = y")
  case False
  then have "y < x \<longleftrightarrow> \<not> x < y" by auto
  then show ?thesis using False by (cases neg; cases r; cases d; cases "x < y"; simp add: lt_step_def)
qed (cases r; cases d; simp add: lt_step_def)

lemma lt_decided: "foldr (\<lambda>z s. lt_step neg s z) zs (r, 1) = (r, 1)"
  by (induction zs) (auto simp: lt_step_def Let_def split: prod.split)

lemma lt_same_sign:
  "length xs = length ys \<Longrightarrow> foldr (\<lambda>z s. lt_step (of_bool neg) s z) (zip xs ys) (0, 0)
     = (of_bool (if neg then limbs_value ys < limbs_value xs else limbs_value xs < limbs_value ys), of_bool (limbs_value xs \<noteq> limbs_value ys))"
proof (induction xs ys rule: list_induct2)
  case (Cons x xs y ys)
  have "limbs_value (x # xs) = limbs_value (y # ys) \<longleftrightarrow> limbs_value xs = limbs_value ys \<and> x = y"
    using limbs_eq[of "x # xs" "y # ys"] Cons.hyps by auto
  then show ?case using Cons.hyps unfolding zip_Cons_Cons foldr_Cons o_apply Cons.IH lt_step_bool
    by (auto simp: limbs_less simp del: limbs_value.simps)
qed simp

lemma foldl_limbs:
  "length xs = n \<Longrightarrow> length ys = n \<Longrightarrow> foldl (\<lambda>s i. f s (xs ! (i - 1), ys ! (i - 1))) s (rev [1..<n + 1]) = foldr (\<lambda>z s. f s z) (zip xs ys) s"
proof -
  assume n: "length xs = n" "length ys = n"
  have "map (\<lambda>i. (xs ! (i - 1), ys ! (i - 1))) [1..<n + 1] = zip xs ys"
    by (rule nth_equalityI) (use n in \<open>auto simp del: upt_Suc\<close>)
  moreover have "foldl (\<lambda>s i. f s (g i)) s is = foldl f s (map g is)" for g :: "nat \<Rightarrow> _" and "is"
    by (induction "is" arbitrary: s) simp_all
  ultimately show ?thesis by (simp add: foldr_conv_foldl rev_map[symmetric] del: upt_Suc rev_map)
qed

text \<open>A number is negative exactly when the second bit of its sign is set.\<close>

lemma sign_bit: "mpi_wf X \<Longrightarrow> drop_bit 1 (mpi_s X AND 2) = of_bool (mpi_value X < 0) \<and> (mpi_value X < 0 \<longleftrightarrow> mpi_s X = - 1)"
  by (auto simp: mpi_wf_def mpi_value_def drop_bit_eq_div)

lemma lt_mpi_ct:
  assumes "mpi_wf X" and "mpi_wf Y" and "length (mpi_p X) = length (mpi_p Y)"
  shows "mbedtls_mpi_lt_mpi_ct X Y = Inr (of_bool (mpi_value X < mpi_value Y))"
proof -
  let ?x = "mpi_value X < 0" and ?y = "mpi_value Y < 0"
  let ?z = "zip (mpi_p X) (mpi_p Y)"
  have r: "mbedtls_mpi_lt_mpi_ct X Y =
      Inr (fst (foldr (\<lambda>z s. lt_step (of_bool ?x) s z) ?z ((of_bool ?x XOR of_bool ?y) AND of_bool ?x, of_bool ?x XOR of_bool ?y)))"
    using assms(3) sign_bit[OF assms(1)] sign_bit[OF assms(2)] unfolding mbedtls_mpi_lt_mpi_ct_def Let_def
    by (simp only: foldl_limbs[OF assms(3) refl] simp_thms if_False)
  show ?thesis
  proof (cases "?x = ?y")
    case True
    then have "mpi_s X = mpi_s Y" using assms(1,2) sign_bit[OF assms(1)] sign_bit[OF assms(2)] by (auto simp: mpi_wf_def)
    then show ?thesis unfolding r True using lt_same_sign[OF assms(3), of ?y] sign_bit[OF assms(2)] assms(2)
      by (auto simp: mpi_value_def mpi_wf_def)
  next
    case False
    then have "mpi_value X < mpi_value Y \<longleftrightarrow> ?x" by auto
    then show ?thesis unfolding r using False by (auto simp: lt_decided)
  qed
qed

lemma safe_cond_swap:
  assumes "mpi_grow_ok grow" and "c = 0 \<or> c = 1" and "mbedtls_mpi_safe_cond_swap grow False X Y c = (r, X', Y')"
  shows "if r = 0 then mpi_value X' = mpi_value (if c = 0 then X else Y) \<and> mpi_value Y' = mpi_value (if c = 0 then Y else X)
     else mpi_value X' = mpi_value X \<and> mpi_value Y' = mpi_value Y"
proof -
  obtain r0 X0 where g: "grow X (length (mpi_p Y)) = (r0, X0)" by force
  obtain r1 Y0 where h: "grow Y (length (mpi_p X0)) = (r1, Y0)" by force
  note ok = assms(1)[unfolded mpi_grow_ok_def, rule_format, OF g] assms(1)[unfolded mpi_grow_ok_def, rule_format, OF h]
  have X0: "mpi_value X0 = mpi_value X" using ok(1) by (auto simp: mpi_value_def split: if_splits)
  have Y0: "mpi_value Y0 = mpi_value Y" using ok(2) by (auto simp: mpi_value_def split: if_splits)
  show ?thesis
  proof (cases "r0 = 0 \<and> r1 = 0")
    case True
    then have len: "length (mpi_p X0) = length (mpi_p Y0)" using ok by auto
    have "r = 0 \<and> X' = X0\<lparr>mpi_s := mpi_s (if c = 0 then X0 else Y0), mpi_p := mpi_p (if c = 0 then X0 else Y0)\<rparr>
       \<and> Y' = Y0\<lparr>mpi_s := mpi_s (if c = 0 then Y0 else X0), mpi_p := mpi_p (if c = 0 then Y0 else X0)\<rparr>"
      using assms(2,3) g h True len swap_loop[of 0 "length (mpi_p X0)" "mpi_p X0" "mpi_p Y0"] swap_loop[of "- 1" "length (mpi_p X0)" "mpi_p X0" "mpi_p Y0"]
      by (auto simp: mbedtls_mpi_safe_cond_swap_def Let_def)
    then show ?thesis using X0 Y0 by (auto simp: mpi_value_def)
  next
    case False
    then show ?thesis using assms(3) g h X0 Y0 by (auto simp: mbedtls_mpi_safe_cond_swap_def Let_def split: if_splits)
  qed
qed

end
