(* ===== verification/Ct_Pkcs1.thy ===== *)
theory Ct_Pkcs1
  imports Constant_Time
begin

text \<open>
  Removal of PKCS#1 v1.5 padding without branches (\<open>mbedtls_ct_rsaes_pkcs1_v15_unpadding\<close> of \<open>constant_time.c\<close>), against the
  decoding rule of the standard, which splits the block at its first zero byte.  The function works in place on its
  input buffer and copies to the output; both are results here.
\<close>

section \<open>Code\<close>

definition MBEDTLS_RSA_PUBLIC :: int where "MBEDTLS_RSA_PUBLIC = 0"
definition MBEDTLS_RSA_PRIVATE :: int where "MBEDTLS_RSA_PRIVATE = 1"
definition MBEDTLS_RSA_SIGN :: u32 where "MBEDTLS_RSA_SIGN = 1"
definition MBEDTLS_RSA_CRYPT :: u32 where "MBEDTLS_RSA_CRYPT = 2"
definition MBEDTLS_ERR_RSA_INVALID_PADDING :: int where "MBEDTLS_ERR_RSA_INVALID_PADDING = - 0x4100"
definition MBEDTLS_ERR_RSA_OUTPUT_TOO_LARGE :: int where "MBEDTLS_ERR_RSA_OUTPUT_TOO_LARGE = - 0x4400"

text \<open>The two loops over the block: padding found, its length, and what is wrong so far.\<close>

definition private_step :: "u8 \<times> u32 \<Rightarrow> u8 \<Rightarrow> u8 \<times> u32" where
  "private_step = (\<lambda>(pad_done, pad_count) b.
     let pad_done = pad_done OR (drop_bit 7 (b OR - b) XOR 1)
     in (pad_done, pad_count + ucast (drop_bit 7 (pad_done OR - pad_done) XOR 1)))"

definition public_step :: "u8 \<times> u32 \<times> u32 \<Rightarrow> u8 \<Rightarrow> u8 \<times> u32 \<times> u32" where
  "public_step = (\<lambda>(pad_done, pad_count, bad) b.
     let pad_done = pad_done OR ucast (mbedtls_ct_uint_if (ucast b) 0 1);
         pad_count = pad_count + mbedtls_ct_uint_if (ucast pad_done) 0 1
     in (pad_done, pad_count, bad OR mbedtls_ct_uint_if (ucast pad_done) 0 (ucast (b XOR 0xFF))))"

definition unpad_scan :: "int \<Rightarrow> bytes \<Rightarrow> u32 \<times> u32" where
  "unpad_scan mode input =
    (let bad = ucast (input ! 0);
         (pad_done, pad_count, bad) =
           (if mode = MBEDTLS_RSA_PRIVATE
            then let bad = bad OR (ucast (input ! 1) XOR MBEDTLS_RSA_CRYPT);
                     (pad_done, pad_count) = foldl private_step (0, 0) (drop 2 input)
                 in (pad_done, pad_count, bad)
            else let bad = bad OR (ucast (input ! 1) XOR MBEDTLS_RSA_SIGN)
                 in foldl public_step (0, 0, bad) (drop 2 input));
         bad = bad OR mbedtls_ct_uint_if (ucast pad_done) 0 1
     in (pad_count, bad OR mbedtls_ct_size_gt 8 pad_count))"

text \<open>The second half: the selection of the result and the copy.\<close>

definition unpad_copy :: "u32 \<Rightarrow> u32 \<Rightarrow> u32 \<Rightarrow> bytes \<Rightarrow> bytes \<Rightarrow> u32 \<Rightarrow> int \<times> u32 \<times> bytes \<times> bytes" where
  "unpad_copy plaintext_max_size pad_count bad input output output_max_len =
    (let ilen = word_of_nat (length input) :: u32;
         plaintext_size = mbedtls_ct_uint_if bad plaintext_max_size (ilen - pad_count - 3);
         output_too_large = mbedtls_ct_size_gt plaintext_size plaintext_max_size;
         ret = - sint (mbedtls_ct_uint_if bad (word_of_int (- MBEDTLS_ERR_RSA_INVALID_PADDING))
                 (mbedtls_ct_uint_if output_too_large (word_of_int (- MBEDTLS_ERR_RSA_OUTPUT_TOO_LARGE)) 0));
         bad = mbedtls_ct_uint_mask (bad OR output_too_large);
         input = foldl (\<lambda>input i. input[i := input ! i AND ucast (NOT bad)]) input [11..<length input];
         plaintext_size = mbedtls_ct_uint_if output_too_large plaintext_max_size plaintext_size;
         start = length input - unat plaintext_max_size;
         input = take start input
           @ mbedtls_ct_mem_move_to_left (drop start input) (unat plaintext_max_size) (unat (plaintext_max_size - plaintext_size));
         output = (if output_max_len \<noteq> 0
           then take (unat plaintext_max_size) (drop start input) @ drop (unat plaintext_max_size) output else output)
     in (ret, plaintext_size, output, input))"

definition mbedtls_ct_rsaes_pkcs1_v15_unpadding :: "int \<Rightarrow> bytes \<Rightarrow> bytes \<Rightarrow> u32 \<Rightarrow> int \<times> u32 \<times> bytes \<times> bytes" where
  "mbedtls_ct_rsaes_pkcs1_v15_unpadding mode input output output_max_len =
    (let ilen = word_of_nat (length input) :: u32;
         plaintext_max_size = (if output_max_len > ilen - 11 then ilen - 11 else output_max_len);
         (pad_count, bad) = unpad_scan mode input
     in unpad_copy plaintext_max_size pad_count bad input output output_max_len)"

section \<open>The standard\<close>

definition pkcs1_decode :: "bool \<Rightarrow> bytes \<Rightarrow> bytes option" where
  "pkcs1_decode private em =
    (let ps = takeWhile (\<lambda>b. b \<noteq> 0) (drop 2 em)
     in if take 2 em = [0, if private then 2 else 1] \<and> length ps < length (drop 2 em) \<and> 8 \<le> length ps \<and> (private \<or> set ps \<subseteq> {0xFF})
        then Some (drop (length ps + 3) em) else None)"

text \<open>Decoding accepts exactly the encodings, and returns the message that was encoded.\<close>

lemma pkcs1_decode_iff:
  "pkcs1_decode private em = Some m \<longleftrightarrow>
    (\<exists>ps. em = 0 # (if private then 2 else 1) # ps @ 0 # m \<and> 0 \<notin> set ps \<and> 8 \<le> length ps \<and> (private \<or> set ps \<subseteq> {0xFF}))"
proof
  let ?t = "if private then 2 else 1 :: u8"
  assume d: "pkcs1_decode private em = Some m"
  define ps where "ps = takeWhile (\<lambda>b. b \<noteq> 0) (drop 2 em)"
  have h: "take 2 em = [0, ?t]" "length ps < length (drop 2 em)" "8 \<le> length ps" "private \<or> set ps \<subseteq> {0xFF}" "m = drop (length ps + 3) em"
    using d by (auto simp: pkcs1_decode_def ps_def Let_def split: if_splits)
  have "dropWhile (\<lambda>b. b \<noteq> 0) (drop 2 em) = drop (length ps) (drop 2 em)" by (simp add: ps_def dropWhile_eq_drop)
  moreover have "dropWhile (\<lambda>b. b \<noteq> 0) (drop 2 em) \<noteq> []" using h(2) calculation by simp
  then have "dropWhile (\<lambda>b. b \<noteq> 0) (drop 2 em) = 0 # tl (dropWhile (\<lambda>b. b \<noteq> 0) (drop 2 em))"
    using hd_dropWhile[of "\<lambda>b. b \<noteq> 0" "drop 2 em"] by (metis list.collapse)
  ultimately have "drop 2 em = ps @ 0 # tl (drop (length ps) (drop 2 em))"
    unfolding ps_def by (metis takeWhile_dropWhile_id)
  then have "em = 0 # ?t # ps @ 0 # m" using h(1,5) append_take_drop_id[of 2 em]
    by (simp add: tl_drop drop_Suc numeral_3_eq_3 add.commute)
  moreover have "0 \<notin> set ps" by (auto simp: ps_def dest: set_takeWhileD)
  ultimately show "\<exists>ps. em = 0 # ?t # ps @ 0 # m \<and> 0 \<notin> set ps \<and> 8 \<le> length ps \<and> (private \<or> set ps \<subseteq> {0xFF})"
    using h(3,4) by blast
next
  assume "\<exists>ps. em = 0 # (if private then 2 else 1) # ps @ 0 # m \<and> 0 \<notin> set ps \<and> 8 \<le> length ps \<and> (private \<or> set ps \<subseteq> {0xFF})"
  then obtain ps where em: "em = 0 # (if private then 2 else 1) # ps @ 0 # m" "0 \<notin> set ps" "8 \<le> length ps" "private \<or> set ps \<subseteq> {0xFF}" by blast
  then have "takeWhile (\<lambda>b. b \<noteq> 0) (drop 2 em) = ps" by (auto simp: takeWhile_tail takeWhile_eq_all_conv)
  then show "pkcs1_decode private em = Some m" using em by (simp add: pkcs1_decode_def Let_def numeral_3_eq_3)
qed

section \<open>Correctness\<close>

lemma ucast_zero_iff [simp]: "(ucast (b :: u8) :: u32) = 0 \<longleftrightarrow> b = 0"
  by (metis ucast_0 ucast_back)

lemma private_step_bool:
  "private_step (of_bool d, n) b = (of_bool (d \<or> b = 0), n + of_bool (\<not> (d \<or> b = 0)))"
  unfolding private_step_def Let_def split drop_bit_7_nonzero by (cases d; cases "b = 0") simp_all

lemma private_scan:
  "foldl private_step (of_bool d, n) bs = (of_bool (d \<or> 0 \<in> set bs), n + (if d then 0 else word_of_nat (length (takeWhile (\<lambda>b. b \<noteq> 0) bs))))"
  by (induction bs arbitrary: d n) (auto simp: private_step_bool)

lemma public_step_bool:
  "public_step (of_bool d, n, e) b = (of_bool (d \<or> b = 0), n + of_bool (\<not> (d \<or> b = 0)), e OR (if d \<or> b = 0 then 0 else ucast (b XOR 0xFF)))"
  by (cases d; cases "b = 0") (simp_all add: public_step_def)

lemma public_scan:
  "\<exists>e'. foldl public_step (of_bool d, n, e) bs =
      (of_bool (d \<or> 0 \<in> set bs), n + (if d then 0 else word_of_nat (length (takeWhile (\<lambda>b. b \<noteq> 0) bs))), e')
    \<and> (e' = 0 \<longleftrightarrow> e = 0 \<and> (d \<or> set (takeWhile (\<lambda>b. b \<noteq> 0) bs) \<subseteq> {0xFF}))"
proof (induction bs arbitrary: d n e)
  case (Cons b bs)
  from Cons[of "d \<or> b = 0" "n + of_bool (\<not> (d \<or> b = 0))" "e OR (if d \<or> b = 0 then 0 else ucast (b XOR 0xFF))"]
  show ?case by (auto simp: public_step_bool word_or_eq_0_iff word_xor_eq_0_iff)
qed auto

lemma nonzero_prefix: "length (takeWhile (\<lambda>b. b \<noteq> 0) bs) < length bs \<longleftrightarrow> 0 \<in> set bs" for bs :: bytes
  by (induction bs) auto

lemma suffix_drop: "drop (length (xs @ ys) - length ys) (xs @ ys) = ys"
  by simp

lemma take_2: "2 \<le> length xs \<Longrightarrow> take 2 xs = [xs ! 0, xs ! 1]"
  by (cases xs; cases "tl xs") (auto simp: take_Cons')

text \<open>The scan finds the length of the padding, and accepts exactly what the standard decodes.\<close>

lemma unpad_scan:
  assumes "11 \<le> length em" and "length em < 2 ^ 31"
  shows "\<exists>bad. unpad_scan mode em = (word_of_nat (length (takeWhile (\<lambda>b. b \<noteq> 0) (drop 2 em))), bad)
    \<and> (bad = 0 \<longleftrightarrow> pkcs1_decode (mode = MBEDTLS_RSA_PRIVATE) em \<noteq> None)"
proof -
  let ?rest = "drop 2 em"
  let ?ps = "takeWhile (\<lambda>b. b \<noteq> 0) ?rest"
  let ?p = "mode = MBEDTLS_RSA_PRIVATE"
  have "length ?ps \<le> length ?rest" by (rule length_takeWhile_le)
  then have "length ?ps < 2 ^ 31" using assms by simp
  then have u: "unat (word_of_nat (length ?ps) :: u32) = length ?ps" "length ?ps < 2 ^ 31" by (simp_all add: unat_word_of_nat_small)
  then have gt: "mbedtls_ct_size_gt 8 (word_of_nat (length ?ps)) = of_bool (length ?ps < 8)"
    by (subst size_gt) (simp_all add: near_def word_less_nat_alt)
  have cmp: "ucast b XOR w = (0 :: u32) \<longleftrightarrow> ucast b = w" for b :: u8 and w by (rule word_xor_eq_0_iff)
  have two: "ucast b = (2 :: u32) \<longleftrightarrow> b = 2" "ucast b = (1 :: u32) \<longleftrightarrow> b = 1" for b :: u8
    by (simp_all add: word_unat_eq_iff unat_ucast_up)
  show ?thesis
  proof (cases ?p)
    case True
    then show ?thesis using assms(1) private_scan[of False 0 ?rest]
      by (auto simp: unpad_scan_def Let_def gt word_or_eq_0_iff cmp two MBEDTLS_RSA_CRYPT_def pkcs1_decode_def take_2 nonzero_prefix[symmetric] split: if_splits)
  next
    case False
    let ?e = "ucast (em ! 0) OR (ucast (em ! 1) XOR MBEDTLS_RSA_SIGN)"
    have e: "?e = 0 \<longleftrightarrow> take 2 em = [0, 1]" using assms(1) by (simp add: word_or_eq_0_iff cmp two MBEDTLS_RSA_SIGN_def take_2)
    from public_scan[of False 0 ?e ?rest] obtain e' where
      "foldl public_step (0, 0, ?e) ?rest = (of_bool (0 \<in> set ?rest), word_of_nat (length ?ps), e')"
      "e' = 0 \<longleftrightarrow> take 2 em = [0, 1] \<and> set ?ps \<subseteq> {0xFF}" unfolding e by auto
    then show ?thesis using False
      by (auto simp: unpad_scan_def Let_def gt word_or_eq_0_iff pkcs1_decode_def nonzero_prefix[symmetric] split: if_splits)
  qed
qed

lemma wipe:
  assumes "bad = 0 \<or> bad = (- 1 :: u32)" and "11 \<le> length (em :: bytes)"
  shows "foldl (\<lambda>input i. input[i := input ! i AND ucast (NOT bad)]) em [11..<length em]
     = (if bad = 0 then em else take 11 em @ replicate (length em - 11) 0)"
  using assms foldl_update_from[OF assms(2) order_refl, of "\<lambda>b. b AND ucast (NOT bad)"]
  by (auto simp: map_replicate_const)

text \<open>Nothing of the block reaches the output when the padding is wrong or the message too long.\<close>

lemma unpad_copy_bad:
  assumes "11 \<le> length em" and "length em < 2 ^ 31" and "unat P \<le> length em - 11" and "n = unat P"
    and "bad \<noteq> 0 \<or> sz > P \<and> unat sz < 2 ^ 31" and "sz = word_of_nat (length em) - pad_count - 3"
  shows "\<exists>em'. unpad_copy P pad_count bad em out L
    = (if bad \<noteq> 0 then MBEDTLS_ERR_RSA_INVALID_PADDING else MBEDTLS_ERR_RSA_OUTPUT_TOO_LARGE, P,
       (if L \<noteq> 0 then replicate n 0 @ drop n out else out), em')"
proof -
  let ?start = "length em - n"
  let ?w = "take 11 em @ replicate (length em - 11) (0 :: u8)"
  have d: "drop ?start ?w = replicate n 0" using assms(1,3,4) by simp
  have m: "mbedtls_ct_mem_move_to_left (replicate n 0) n 0 = replicate n 0" using assms(1-4) by (subst mem_move_to_left) simp_all
  have gt: "mbedtls_ct_size_gt P P = 0" "bad = 0 \<Longrightarrow> mbedtls_ct_size_gt sz P = of_bool (P < sz)"
    using assms by (subst size_gt; auto simp: near_def)+
  have l: "length ?w = length em" using assms(1) by simp
  have "foldl (\<lambda>input i. input[i := input ! i AND ucast (NOT (- 1 :: u32))]) em [11..<length em] = ?w"
    using wipe[of "- 1" em] assms(1) by simp
  then show ?thesis using assms(1,3-6) d m gt l
    by (auto simp: unpad_copy_def Let_def MBEDTLS_ERR_RSA_INVALID_PADDING_def MBEDTLS_ERR_RSA_OUTPUT_TOO_LARGE_def)
qed

lemma unpad_copy_good:
  assumes "11 \<le> length em" and "length em < 2 ^ 31" and "unat P \<le> length em - 11" and "n = unat P"
    and "sz = word_of_nat (length em) - pad_count - 3" and "sz \<le> P"
  shows "\<exists>em'. unpad_copy P pad_count 0 em out L
    = (0, sz, (if L \<noteq> 0 then drop (length em - unat sz) em @ replicate (n - unat sz) 0 @ drop n out else out), em')"
proof -
  let ?start = "length em - n"
  have s: "unat sz \<le> n" "n \<le> length em" "n < 2 ^ 31" using assms by (simp_all add: word_le_nat_alt)
  have gt: "mbedtls_ct_size_gt sz P = 0" using assms s by (subst size_gt) (auto simp: near_def)
  have o: "unat (P - sz) = n - unat sz" using assms(4,6) by (simp add: unat_diff)
  have m: "mbedtls_ct_mem_move_to_left (drop ?start em) n (n - unat sz) = drop (length em - unat sz) em @ replicate (n - unat sz) 0"
    using s by (subst mem_move_to_left) simp_all
  show ?thesis using assms(4,5) gt o m wipe[of 0 em] assms(1) s
    by (simp add: unpad_copy_def Let_def)
qed

text \<open>A block that decodes to \<open>m\<close> ends in it, and the padding count gives its length.\<close>

lemma decoded_block:
  assumes "pkcs1_decode priv em = Some m" and "length em < 2 ^ 31"
  defines "q \<equiv> length (takeWhile (\<lambda>b. b \<noteq> 0) (drop 2 em))"
  shows "drop (length em - length m) em = m" and "11 + length m \<le> length em"
    and "unat (word_of_nat (length em) - word_of_nat q - 3 :: u32) = length m"
proof -
  from assms(1) obtain ps where em: "em = 0 # (if priv then 2 else 1) # ps @ 0 # m" "0 \<notin> set ps" "8 \<le> length ps"
    unfolding pkcs1_decode_iff by blast
  then have "takeWhile (\<lambda>b. b \<noteq> 0) (drop 2 em) = ps" by (auto simp: takeWhile_tail takeWhile_eq_all_conv)
  then have q: "q = length ps" by (simp add: q_def)
  then have len: "length em = q + 3 + length m" "8 \<le> q" using em by simp_all
  then show "11 + length m \<le> length em" by simp
  show "drop (length em - length m) em = m" using suffix_drop[of "0 # (if priv then 2 else 1) # ps @ [0]" m] em(1) by simp
  define K where "K = (word_of_nat (length em) :: u32)"
  have "unat K = length em" using assms(2) by (simp add: K_def unat_word_of_nat_small)
  moreover have "unat (word_of_nat q :: u32) = q" using assms(2) len(1) by (simp add: unat_word_of_nat_small)
  ultimately show "unat (word_of_nat (length em) - word_of_nat q - 3 :: u32) = length m"
    using len unfolding K_def[symmetric] by (simp add: unat_diff word_le_nat_alt)
qed

text \<open>
  C40.  Unpadding: for a block of at least 11 bytes the function agrees with the decoding rule of the standard.  A message that
  fits is returned with its length, followed by zeros up to the space available; when the padding is wrong or the message does
  not fit, the error says so and the output holds only zeros, so nothing of the block is revealed.
\<close>

theorem unpadding_correct:
  assumes "11 \<le> length em" and "length em < 2 ^ 31" and "n = min (unat output_max_len) (length em - 11)"
  shows "\<exists>olen em'. mbedtls_ct_rsaes_pkcs1_v15_unpadding mode em out output_max_len =
    (case pkcs1_decode (mode = MBEDTLS_RSA_PRIVATE) em of
       None \<Rightarrow> (MBEDTLS_ERR_RSA_INVALID_PADDING, olen, replicate n 0 @ drop n out, em')
     | Some m \<Rightarrow> if unat output_max_len < length m then (MBEDTLS_ERR_RSA_OUTPUT_TOO_LARGE, olen, replicate n 0 @ drop n out, em')
                 else (0, word_of_nat (length m), m @ replicate (n - length m) 0 @ drop n out, em'))"
proof -
  let ?k = "word_of_nat (length em) :: u32"
  let ?ps = "takeWhile (\<lambda>b. b \<noteq> 0) (drop 2 em)"
  define P where "P = (if output_max_len > ?k - 11 then ?k - 11 else output_max_len)"
  have k: "unat ?k = length em" using assms(2) by (simp add: unat_word_of_nat_small)
  have k11: "unat (?k - 11) = length em - 11" using assms(1) by (simp add: unat_diff word_le_nat_alt k)
  have P: "unat P = n" "unat P \<le> length em - 11"
    unfolding P_def assms(3) by (auto simp: word_less_nat_alt k11 min_def)
  have L: "L = 0 \<Longrightarrow> n = 0" if "L = output_max_len" for L using assms(3) that by simp
  from unpad_scan[OF assms(1,2), of mode] obtain bad where
    sc: "unpad_scan mode em = (word_of_nat (length ?ps), bad)"
    and b: "bad = 0 \<longleftrightarrow> pkcs1_decode (mode = MBEDTLS_RSA_PRIVATE) em \<noteq> None" by blast
  define sz where "sz = ?k - word_of_nat (length ?ps) - 3"
  have r: "mbedtls_ct_rsaes_pkcs1_v15_unpadding mode em out output_max_len = unpad_copy P (word_of_nat (length ?ps)) bad em out output_max_len"
    by (simp add: mbedtls_ct_rsaes_pkcs1_v15_unpadding_def Let_def sc P_def)
  show ?thesis
  proof (cases "pkcs1_decode (mode = MBEDTLS_RSA_PRIVATE) em")
    case None
    then have "bad \<noteq> 0" using b by simp
    then show ?thesis unfolding r None using unpad_copy_bad[OF assms(1,2) P(2) P(1)[symmetric] _ sz_def, where bad = bad and out = out and L = output_max_len] L
      by fastforce
  next
    case (Some m)
    note d = decoded_block[OF Some assms(2)]
    have z: "unat sz = length m" unfolding sz_def by (rule d(3))
    have bad: "bad = 0" using b Some by simp
    show ?thesis
    proof (cases "unat output_max_len < length m")
      case True
      then have "P < sz \<and> unat sz < 2 ^ 31" using z P(1) d(2) assms(2,3) by (auto simp: word_less_nat_alt)
      then show ?thesis unfolding r Some bad using unpad_copy_bad[OF assms(1,2) P(2) P(1)[symmetric] _ sz_def, where bad = 0 and out = out and L = output_max_len] L True
        by fastforce
    next
      case False
      then have "sz \<le> P" using z P(1) d(2) assms(3) by (simp add: word_le_nat_alt)
      moreover have "sz = word_of_nat (length m)" using arg_cong[OF z, of "word_of_nat :: nat \<Rightarrow> u32"] by simp
      ultimately show ?thesis unfolding r Some bad using unpad_copy_good[OF assms(1,2) P(2) P(1)[symmetric] sz_def, where out = out and L = output_max_len] L False z d(1)
        by fastforce
    qed
  qed
qed

theorem unpadding_correct_witness:
  "\<exists>em'. mbedtls_ct_rsaes_pkcs1_v15_unpadding MBEDTLS_RSA_PRIVATE ([0, 2] @ replicate 9 7 @ [0, 65, 66]) [1, 1, 1, 1] 4 =
    (0, 2, [65, 66, 0, 1], em')"
proof -
  let ?em = "[0, 2] @ replicate 9 7 @ [0, 65, 66] :: bytes"
  have d: "pkcs1_decode True ?em = Some [65, 66]" unfolding pkcs1_decode_iff by (rule exI[of _ "replicate 9 7"]) simp
  have "3 = min (unat (4 :: u32)) (length ?em - 11)" by simp
  from unpadding_correct[OF _ _ this, of MBEDTLS_RSA_PRIVATE "[1, 1, 1, 1]"] have "\<exists>olen em'. mbedtls_ct_rsaes_pkcs1_v15_unpadding MBEDTLS_RSA_PRIVATE ?em [1, 1, 1, 1] 4
      = (0, word_of_nat (length [65, 66 :: u8]), [65, 66] @ replicate (3 - length [65, 66 :: u8]) 0 @ drop 3 [1, 1, 1, 1], em')"
    by (simp add: d del: append_Cons)
  then show ?thesis by (simp del: append_Cons) simp
qed

end
