(* ===== verification/Ct_Hmac.thy ===== *)
theory Ct_Hmac
  imports Md_Hmac Constant_Time
begin

text \<open>
  HMAC of a message whose length is secret (\<open>mbedtls_ct_hmac\<close> of \<open>constant_time.c\<close>), over the digest context of \<open>Md_Hmac\<close>:
  the digest is finished on a clone of the context after every possible length, and a masked copy keeps the right one.
\<close>

section \<open>Code\<close>

definition mbedtls_md_clone :: "mbedtls_md_context_t \<Rightarrow> mbedtls_md_context_t \<Rightarrow> mbedtls_md_context_t" where
  "mbedtls_md_clone dst src = dst\<lparr>md_ctx := md_ctx src\<rparr>"

text \<open>One possible length: \<open>offset\<close> bytes of the data have been taken in.\<close>

definition ct_hmac_step ::
  "bytes \<Rightarrow> nat \<Rightarrow> nat \<Rightarrow> mbedtls_md_context_t \<times> mbedtls_md_context_t \<times> bytes \<Rightarrow> nat \<Rightarrow> mbedtls_md_context_t \<times> mbedtls_md_context_t \<times> bytes" where
  "ct_hmac_step data data_len_secret max_data_len = (\<lambda>(aux, ctx, out) offset.
     let aux = mbedtls_md_clone aux ctx;
         (aux_out, aux) = mbedtls_md_finish aux;
         out = mbedtls_ct_memcpy_if_eq out aux_out md_size (word_of_nat offset) (word_of_nat data_len_secret);
         ctx = (if offset < max_data_len then mbedtls_md_update ctx [data ! offset] else ctx)
     in (aux, ctx, out))"

definition mbedtls_ct_hmac ::
  "bool \<Rightarrow> mbedtls_md_context_t \<Rightarrow> bytes \<Rightarrow> bytes \<Rightarrow> nat \<Rightarrow> nat \<Rightarrow> nat \<Rightarrow> (bytes \<times> mbedtls_md_context_t) option" where
  "mbedtls_ct_hmac alloc ctx add_data data data_len_secret min_data_len max_data_len =
    (case (mbedtls_md_setup alloc alloc False, md_hmac_ctx ctx) of
       (Some aux, Some pads) \<Rightarrow>
         let okey = drop md_block_size pads;
             ctx = mbedtls_md_update ctx add_data;
             ctx = mbedtls_md_update ctx (take min_data_len data);
             out = replicate md_size 33;
             (aux, ctx, out) = foldl (ct_hmac_step data data_len_secret max_data_len) (aux, ctx, out) [min_data_len..<Suc max_data_len];
             (aux_out, ctx) = mbedtls_md_finish ctx;
             ctx = mbedtls_md_starts ctx;
             ctx = mbedtls_md_update ctx okey;
             ctx = mbedtls_md_update ctx out;
             (out, ctx) = mbedtls_md_finish ctx
         in map_option (\<lambda>ctx. (out, ctx)) (mbedtls_md_hmac_reset ctx)
     | _ \<Rightarrow> None)"

section \<open>Correctness\<close>

text \<open>A context that holds the pads of a key and has taken in the inner pad, as \<open>mbedtls_md_hmac_starts\<close> leaves it.\<close>

definition hmac_keyed :: "mbedtls_md_context_t \<Rightarrow> bytes \<Rightarrow> bool" where
  "hmac_keyed ctx key \<longleftrightarrow> md_rel ctx (Some (map ((XOR) 0x36) (hmac_key key) @ map ((XOR) 0x5C) (hmac_key key))) (map ((XOR) 0x36) (hmac_key key))"

lemma hmac_starts_keyed:
  assumes "mbedtls_md_setup True True True = Some ctx" and "length key < 2 ^ 32"
  shows "\<exists>ctx'. mbedtls_md_hmac_starts ctx key = Some ctx' \<and> hmac_keyed ctx' key"
proof -
  have "md_hmac_ctx ctx = Some (replicate (2 * md_block_size) 0)" "length (dg_buffer (md_ctx ctx)) = 64"
    using assms(1) by (auto simp: mbedtls_md_setup_def mbedtls_sha256_init_def)
  from hmac_starts_rel[OF this assms(2)] show ?thesis unfolding hmac_keyed_def by blast
qed

lemma hmac_loop:
  assumes "md_rel ctx pads (p @ take lo data)" and "lo \<le> hi" and "hi \<le> length data" and "length data < 2 ^ 32" and "s < 2 ^ 32"
    and "length out0 = 32"
  shows "n \<le> Suc hi \<Longrightarrow> lo \<le> n \<Longrightarrow> \<exists>aux' ctx'. foldl (ct_hmac_step data s hi) (aux, ctx, out0) [lo..<n]
      = (aux', ctx', if lo \<le> s \<and> s < n then sha256_spec (p @ take s data) else out0)
    \<and> md_rel ctx' pads (p @ take (min n hi) data)"
proof (induction n)
  case 0
  then show ?case using assms(1) by simp
next
  case (Suc n)
  show ?case
  proof (cases "lo = Suc n")
    case True
    then show ?thesis using assms(1,2) by (auto simp: min_def)
  next
    case False
    let ?o = "if lo \<le> s \<and> s < n then sha256_spec (p @ take s data) else out0"
    from False Suc obtain a c where st: "foldl (ct_hmac_step data s hi) (aux, ctx, out0) [lo..<n] = (a, c, ?o)"
      and c: "md_rel c pads (p @ take n data)" by (auto simp: min_def)
    from c have "md_rel (mbedtls_md_clone a c) (md_hmac_ctx a) (p @ take n data)" by (simp add: md_rel_def mbedtls_md_clone_def)
    then obtain a' where f: "mbedtls_md_finish (mbedtls_md_clone a c) = (sha256_spec (p @ take n data), a')"
      by (rule md_rel_finish)
    have "n < 2 ^ 32" using Suc.prems assms(3,4) by simp
    then have eq: "(word_of_nat n = (word_of_nat s :: u32)) \<longleftrightarrow> n = s"
      using assms(5) by (auto dest: arg_cong[of _ _ unat] simp: unat_word_of_nat_small)
    have l: "length ?o = 32" using assms(6) by simp
    let ?c = "if n < hi then mbedtls_md_update c [data ! n] else c"
    have step: "foldl (ct_hmac_step data s hi) (aux, ctx, out0) [lo..<Suc n] = (a', ?c, if n = s then sha256_spec (p @ take n data) else ?o)"
      using st False Suc.prems f memcpy_if_eq[of md_size ?o "sha256_spec (p @ take n data)"] l eq assms(6)
      by (simp add: ct_hmac_step_def Let_def md_size_def)
    have "md_rel ?c pads (p @ take (min (Suc n) hi) data)"
      using c md_rel_update[OF c, of "[data ! n]"] assms(3) Suc.prems by (auto simp: min_def take_Suc_conv_app_nth)
    then show ?thesis unfolding step using False Suc.prems by (auto simp: less_Suc_eq)
  qed
qed

lemma ct_hmac_value:
  assumes "hmac_keyed ctx key" and "length add < 2 ^ 32" and "length data < 2 ^ 32"
    and "lo \<le> s" and "s \<le> hi" and "hi \<le> length data"
  shows "\<exists>ctx'. mbedtls_ct_hmac True ctx add data s lo hi = Some (hmac_spec key (add @ take s data), ctx') \<and> hmac_keyed ctx' key"
proof -
  let ?i = "map ((XOR) 0x36) (hmac_key key)" and ?o = "map ((XOR) 0x5C) (hmac_key key)"
  let ?pads = "Some (?i @ ?o)"
  let ?aux = "\<lparr>md_ctx = mbedtls_sha256_init, md_hmac_ctx = None\<rparr>"
  note rel = assms(1)[unfolded hmac_keyed_def]
  have "md_rel (mbedtls_md_update (mbedtls_md_update ctx add) (take lo data)) ?pads ((?i @ add) @ take lo data)"
    using md_rel_update[OF md_rel_update[OF rel assms(2)], of "take lo data"] assms(3) by simp
  from hmac_loop[OF this _ assms(6,3) _ _ order_refl, of s "replicate 32 33" ?aux] assms(3-6)
  obtain aux' c where loop: "foldl (ct_hmac_step data s hi) (?aux, mbedtls_md_update (mbedtls_md_update ctx add) (take lo data), replicate 32 33)
      [lo..<Suc hi] = (aux', c, sha256_spec ((?i @ add) @ take s data))"
    and c: "md_rel c ?pads ((?i @ add) @ take (min (Suc hi) hi) data)" by (auto simp del: upt_Suc)
  obtain c1 where c1: "mbedtls_md_finish c = (sha256_spec ((?i @ add) @ take (min (Suc hi) hi) data), c1)" "md_hmac_ctx c1 = ?pads"
    "length (dg_buffer (md_ctx c1)) = 64" using md_rel_finish[OF c] by blast
  let ?c2 = "mbedtls_md_update (mbedtls_md_update (mbedtls_md_starts c1) ?o) (sha256_spec ((?i @ add) @ take s data))"
  have "md_rel ?c2 ?pads (?o @ sha256_spec ((?i @ add) @ take s data))"
    using md_rel_update[OF md_rel_update[OF md_rel_starts[OF c1(3)], of ?o], of "sha256_spec ((?i @ add) @ take s data)"] c1(2) by simp
  then obtain c3 where c3: "mbedtls_md_finish ?c2 = (sha256_spec (?o @ sha256_spec ((?i @ add) @ take s data)), c3)" "md_hmac_ctx c3 = ?pads"
    "length (dg_buffer (md_ctx c3)) = 64" using md_rel_finish by blast
  have "md_rel (mbedtls_md_update (mbedtls_md_starts c3) ?i) ?pads ?i"
    using md_rel_update[OF md_rel_starts[OF c3(3)], of ?i] c3(2) by simp
  then have k: "hmac_keyed (mbedtls_md_update (mbedtls_md_starts c3) ?i) key" by (simp add: hmac_keyed_def)
  show ?thesis using k loop c1(1) c3(1,2) rel
    by (simp add: mbedtls_ct_hmac_def mbedtls_md_setup_def md_rel_def md_size_def md_block_size_def mbedtls_md_hmac_reset_def hmac_spec_def del: upt_Suc)
qed

lemma keyed_hmac:
  assumes "hmac_keyed ctx key" and "length m < 2 ^ 32"
  shows "\<exists>c c'. mbedtls_md_hmac_update ctx m = Some c \<and> mbedtls_md_hmac_finish c = Some (hmac_spec key m, c')"
  using hmac_finish_rel[OF md_rel_update[OF assms(1)[unfolded hmac_keyed_def] assms(2)]] assms(1)
  by (simp add: mbedtls_md_hmac_update_def hmac_keyed_def md_rel_def hmac_spec_def)

text \<open>
  C38.  HMAC of a secret length: after a key was set, the function returns the HMAC of the additional data and the first
  \<open>s\<close> bytes of the buffer for every secret length \<open>s\<close> between the two public bounds, and leaves the context ready for
  the next message under the same key.
\<close>

theorem ct_hmac_correct:
  assumes "mbedtls_md_setup True True True = Some ctx0" and "mbedtls_md_hmac_starts ctx0 key = Some ctx" and "length key < 2 ^ 32"
    and "length add < 2 ^ 32" and "length data < 2 ^ 32" and "lo \<le> s" and "s \<le> hi" and "hi \<le> length data"
  shows "\<exists>ctx'. mbedtls_ct_hmac True ctx add data s lo hi = Some (hmac_spec key (add @ take s data), ctx')
    \<and> (\<forall>m. length m < 2 ^ 32 \<longrightarrow> (\<exists>c c'. mbedtls_md_hmac_update ctx' m = Some c \<and> mbedtls_md_hmac_finish c = Some (hmac_spec key m, c')))"
proof -
  have "hmac_keyed ctx key" using hmac_starts_keyed[OF assms(1,3)] assms(2) by auto
  from ct_hmac_value[OF this assms(4-8)] show ?thesis using keyed_hmac by blast
qed

theorem ct_hmac_correct_witness:
  "\<exists>ctx ctx'. mbedtls_md_hmac_starts (the (mbedtls_md_setup True True True)) [1, 2, 3] = Some ctx
    \<and> mbedtls_ct_hmac True ctx [9] [4, 5, 6] 2 1 3 = Some (hmac_spec [1, 2, 3] [9, 4, 5], ctx')"
proof -
  have s: "mbedtls_md_setup True True True = Some (the (mbedtls_md_setup True True True))" by (simp add: mbedtls_md_setup_def)
  obtain ctx where "mbedtls_md_hmac_starts (the (mbedtls_md_setup True True True)) [1, 2, 3] = Some ctx"
    using hmac_starts_keyed[OF s, of "[1, 2, 3]"] by auto
  with ct_hmac_correct[OF s this, of "[9]" "[4, 5, 6]" 1 2 3] show ?thesis by auto
qed

end
