(* ===== verification/Sha512.thy ===== *)
theory Sha512
  imports Sha2_Rounds
begin

text \<open>
  SHA-512 and SHA-384 of the vendored library (\<open>lib/mbedtls/library/sha512.c\<close>, the unrolled variant), against the text of the standard.
  The build of the devices leaves the file out; it is verified here as one more instance of \<open>block_digest\<close>, with
  words of 64 bits and blocks of 128 bytes.
\<close>

section \<open>Code\<close>

definition sha512_K :: "u64 list" where
  "sha512_K = [0x428A2F98D728AE22, 0x7137449123EF65CD, 0xB5C0FBCFEC4D3B2F, 0xE9B5DBA58189DBBC, 0x3956C25BF348B538,
    0x59F111F1B605D019, 0x923F82A4AF194F9B, 0xAB1C5ED5DA6D8118, 0xD807AA98A3030242, 0x12835B0145706FBE,
    0x243185BE4EE4B28C, 0x550C7DC3D5FFB4E2, 0x72BE5D74F27B896F, 0x80DEB1FE3B1696B1, 0x9BDC06A725C71235,
    0xC19BF174CF692694, 0xE49B69C19EF14AD2, 0xEFBE4786384F25E3, 0x0FC19DC68B8CD5B5, 0x240CA1CC77AC9C65,
    0x2DE92C6F592B0275, 0x4A7484AA6EA6E483, 0x5CB0A9DCBD41FBD4, 0x76F988DA831153B5, 0x983E5152EE66DFAB,
    0xA831C66D2DB43210, 0xB00327C898FB213F, 0xBF597FC7BEEF0EE4, 0xC6E00BF33DA88FC2, 0xD5A79147930AA725,
    0x06CA6351E003826F, 0x142929670A0E6E70, 0x27B70A8546D22FFC, 0x2E1B21385C26C926, 0x4D2C6DFC5AC42AED,
    0x53380D139D95B3DF, 0x650A73548BAF63DE, 0x766A0ABB3C77B2A8, 0x81C2C92E47EDAEE6, 0x92722C851482353B,
    0xA2BFE8A14CF10364, 0xA81A664BBC423001, 0xC24B8B70D0F89791, 0xC76C51A30654BE30, 0xD192E819D6EF5218,
    0xD69906245565A910, 0xF40E35855771202A, 0x106AA07032BBD1B8, 0x19A4C116B8D2D0C8, 0x1E376C085141AB53,
    0x2748774CDF8EEB99, 0x34B0BCB5E19B48A8, 0x391C0CB3C5C95A63, 0x4ED8AA4AE3418ACB, 0x5B9CCA4F7763E373,
    0x682E6FF3D6B2B8A3, 0x748F82EE5DEFB2FC, 0x78A5636F43172F60, 0x84C87814A1F0AB72, 0x8CC702081A6439EC,
    0x90BEFFFA23631E28, 0xA4506CEBDE82BDE9, 0xBEF9A3F7B2C67915, 0xC67178F2E372532B, 0xCA273ECEEA26619C,
    0xD186B8C721C0C207, 0xEADA7DD6CDE0EB1E, 0xF57D4F7FEE6ED178, 0x06F067AA72176FBA, 0x0A637DC5A2C898A6,
    0x113F9804BEF90DAE, 0x1B710B35131C471B, 0x28DB77F523047D84, 0x32CAAB7B40C72493, 0x3C9EBE0A15C9BEBC,
    0x431D67C49C100D4C, 0x4CC5D4BECB3E42B6, 0x597F299CFC657E2A, 0x5FCB6FAB3AD6FAEC, 0x6C44198C4A475817]"

definition sha512_ROTR :: "u64 \<Rightarrow> nat \<Rightarrow> u64" where
  "sha512_ROTR x n = drop_bit n x OR push_bit (64 - n) x"

definition sha512_S0 :: "u64 \<Rightarrow> u64" where "sha512_S0 x = sha512_ROTR x 1 XOR sha512_ROTR x 8 XOR drop_bit 7 x"
definition sha512_S1 :: "u64 \<Rightarrow> u64" where "sha512_S1 x = sha512_ROTR x 19 XOR sha512_ROTR x 61 XOR drop_bit 6 x"
definition sha512_S2 :: "u64 \<Rightarrow> u64" where "sha512_S2 x = sha512_ROTR x 28 XOR sha512_ROTR x 34 XOR sha512_ROTR x 39"
definition sha512_S3 :: "u64 \<Rightarrow> u64" where "sha512_S3 x = sha512_ROTR x 14 XOR sha512_ROTR x 18 XOR sha512_ROTR x 41"

definition get_uint64_be :: "bytes \<Rightarrow> nat \<Rightarrow> u64" where
  "get_uint64_be d i = push_bit 56 (ucast (d ! i)) OR push_bit 48 (ucast (d ! (i + 1)))
     OR push_bit 40 (ucast (d ! (i + 2))) OR push_bit 32 (ucast (d ! (i + 3))) OR push_bit 24 (ucast (d ! (i + 4)))
     OR push_bit 16 (ucast (d ! (i + 5))) OR push_bit 8 (ucast (d ! (i + 6))) OR ucast (d ! (i + 7))"

record mbedtls_sha512_context = "u64 digest_ctx" +
  sha_is384 :: bool

definition mbedtls_sha512_init :: mbedtls_sha512_context where
  "mbedtls_sha512_init = \<lparr>dg_total0 = 0, dg_total1 = 0, dg_state = replicate 8 0, dg_buffer = replicate 128 0, sha_is384 = False\<rparr>"

definition mbedtls_sha512_starts_ret :: "mbedtls_sha512_context \<Rightarrow> bool \<Rightarrow> mbedtls_sha512_context" where
  "mbedtls_sha512_starts_ret ctx is384 = ctx\<lparr>dg_total0 := 0, dg_total1 := 0,
     dg_state := (if \<not> is384
       then [0x6A09E667F3BCC908, 0xBB67AE8584CAA73B, 0x3C6EF372FE94F82B, 0xA54FF53A5F1D36F1, 0x510E527FADE682D1, 0x9B05688C2B3E6C1F, 0x1F83D9ABFB41BD6B, 0x5BE0CD19137E2179]
       else [0xCBBB9D5DC1059ED8, 0x629A292A367CD507, 0x9159015A3070DD17, 0x152FECD8F70E5939, 0x67332667FFC00B31, 0x8EB44A8768581511, 0xDB0C2E0D64F98FA7, 0x47B5481DBEFA4FA4]),
     sha_is384 := is384\<rparr>"

text \<open>The schedule is computed first, in two loops; then the eight-fold unrolled loop of rounds.\<close>

definition sha512_W :: "bytes \<Rightarrow> u64 list" where
  "sha512_W data = foldl (\<lambda>W t. W @ [sha512_S1 (W ! (t - 2)) + W ! (t - 7) + sha512_S0 (W ! (t - 15)) + W ! (t - 16)])
     (map (\<lambda>i. get_uint64_be data (push_bit 3 i)) [0..<16]) [16..<80]"

definition mbedtls_internal_sha512_process :: "mbedtls_sha512_context \<Rightarrow> bytes \<Rightarrow> mbedtls_sha512_context" where
  "mbedtls_internal_sha512_process ctx data =
    (let W = sha512_W data;
         A = foldl (\<lambda>A t. sha_P sha512_S2 sha512_S3 A t (W ! t) (sha512_K ! t)) (dg_state ctx) [0..<80]
     in ctx\<lparr>dg_state := map2 (+) (dg_state ctx) A\<rparr>)"

definition mbedtls_sha512_update_ret :: "mbedtls_sha512_context \<Rightarrow> bytes \<Rightarrow> mbedtls_sha512_context" where
  "mbedtls_sha512_update_ret = digest_update 128 mbedtls_internal_sha512_process"

definition put_len_be64 :: "u64 \<Rightarrow> u64 \<Rightarrow> bytes" where
  "put_len_be64 high low = be_bytes64 high @ be_bytes64 low"

definition mbedtls_sha512_finish_ret :: "mbedtls_sha512_context \<Rightarrow> bytes \<times> mbedtls_sha512_context" where
  "mbedtls_sha512_finish_ret ctx =
    (let ctx = digest_finish 128 112 put_len_be64 mbedtls_internal_sha512_process ctx
     in (concat (map be_bytes64 (if sha_is384 ctx then take 6 (dg_state ctx) else dg_state ctx)), ctx))"

definition mbedtls_sha512_ret :: "bytes \<Rightarrow> bool \<Rightarrow> bytes" where
  "mbedtls_sha512_ret input is384 =
    fst (mbedtls_sha512_finish_ret (mbedtls_sha512_update_ret (mbedtls_sha512_starts_ret mbedtls_sha512_init is384) input))"

section \<open>Reference: the standard\<close>

definition sha512_bsig0 :: "u64 \<Rightarrow> u64" where "sha512_bsig0 x = word_rotr 28 x XOR word_rotr 34 x XOR word_rotr 39 x"
definition sha512_bsig1 :: "u64 \<Rightarrow> u64" where "sha512_bsig1 x = word_rotr 14 x XOR word_rotr 18 x XOR word_rotr 41 x"
definition sha512_ssig0 :: "u64 \<Rightarrow> u64" where "sha512_ssig0 x = word_rotr 1 x XOR word_rotr 8 x XOR drop_bit 7 x"
definition sha512_ssig1 :: "u64 \<Rightarrow> u64" where "sha512_ssig1 x = word_rotr 19 x XOR word_rotr 61 x XOR drop_bit 6 x"

primrec sha512_schedule :: "u64 list \<Rightarrow> nat \<Rightarrow> u64 list" where
  "sha512_schedule M 0 = M"
| "sha512_schedule M (Suc n) = (let W = sha512_schedule M n; t = 16 + n in
     W @ [sha512_ssig1 (W ! (t - 2)) + W ! (t - 7) + sha512_ssig0 (W ! (t - 15)) + W ! (t - 16)])"

definition sha512_compress :: "u64 list \<Rightarrow> bytes \<Rightarrow> u64 list" where
  "sha512_compress h block = map2 (+) h (foldl (sha_step sha512_bsig0 sha512_bsig1) h
     (zip sha512_K (sha512_schedule (map (\<lambda>i. get_uint64_be block (8 * i)) [0..<16]) 64)))"

definition sha512_H0 :: "u64 list" where
  "sha512_H0 = [0x6A09E667F3BCC908, 0xBB67AE8584CAA73B, 0x3C6EF372FE94F82B, 0xA54FF53A5F1D36F1, 0x510E527FADE682D1, 0x9B05688C2B3E6C1F, 0x1F83D9ABFB41BD6B, 0x5BE0CD19137E2179]"

definition sha384_H0 :: "u64 list" where
  "sha384_H0 = [0xCBBB9D5DC1059ED8, 0x629A292A367CD507, 0x9159015A3070DD17, 0x152FECD8F70E5939, 0x67332667FFC00B31, 0x8EB44A8768581511, 0xDB0C2E0D64F98FA7, 0x47B5481DBEFA4FA4]"

definition sha512_spec :: "bytes \<Rightarrow> bytes" where
  "sha512_spec m = concat (map be_bytes64 (chain_blocks 128 sha512_compress sha512_H0 (m @ digest_padding 128 112 put_len_be64 m)))"

definition sha384_spec :: "bytes \<Rightarrow> bytes" where
  "sha384_spec m = concat (map be_bytes64 (take 6 (chain_blocks 128 sha512_compress sha384_H0 (m @ digest_padding 128 112 put_len_be64 m))))"

section \<open>Correctness\<close>

lemma sha512_ROTR_rotr: "n < 64 \<Longrightarrow> sha512_ROTR x n = word_rotr n x"
  using rotate_by_shifts[of n x] by (simp add: sha512_ROTR_def)

lemma sha512_sigma: "sha512_S0 = sha512_ssig0" "sha512_S1 = sha512_ssig1" "sha512_S2 = sha512_bsig0" "sha512_S3 = sha512_bsig1"
  by (auto simp: fun_eq_iff sha512_S0_def sha512_S1_def sha512_S2_def sha512_S3_def sha512_ssig0_def sha512_ssig1_def
    sha512_bsig0_def sha512_bsig1_def sha512_ROTR_rotr)

lemma sha512_schedule_length [simp]: "length (sha512_schedule M n) = length M + n"
  by (induction n) (simp_all add: Let_def)

lemma sha512_schedule_eq:
  "foldl (\<lambda>W t. W @ [sha512_S1 (W ! (t - 2)) + W ! (t - 7) + sha512_S0 (W ! (t - 15)) + W ! (t - 16)]) M [16..<16 + n] = sha512_schedule M n"
proof (induction n)
  case (Suc n)
  have "[16..<16 + Suc n] = [16..<16 + n] @ [16 + n]" unfolding add_Suc_right upt_Suc by simp
  then show ?case using Suc by (simp only: foldl_append foldl.simps sha512_schedule.simps Let_def sha512_sigma)
qed simp

lemma sha512_rounds:
  assumes "length A = 8" and "length W = 80" and "n \<le> 80"
  shows "length (foldl (\<lambda>A t. sha_P sha512_S2 sha512_S3 A t (W ! t) (sha512_K ! t)) A [0..<n]) = 8
    \<and> view (foldl (\<lambda>A t. sha_P sha512_S2 sha512_S3 A t (W ! t) (sha512_K ! t)) A [0..<n]) n =
        foldl (sha_step sha512_bsig0 sha512_bsig1) A (zip (take n sha512_K) (take n W))"
  using assms(3)
proof (induction n)
  case (Suc n)
  have "n < length sha512_K" "n < length W" using Suc.prems assms(2) by (simp_all add: sha512_K_def)
  then show ?case using Suc by (simp add: view_step take_Suc_conv_app_nth sha512_sigma)
qed (use assms in simp)

lemma sha512_process_compress:
  assumes "length (dg_state ctx) = 8"
  shows "mbedtls_internal_sha512_process ctx data = ctx\<lparr>dg_state := sha512_compress (dg_state ctx) data\<rparr>"
proof -
  let ?W = "sha512_W data" and ?M = "map (\<lambda>i. get_uint64_be data (8 * i)) [0..<16]"
  have W: "?W = sha512_schedule ?M 64"
  proof -
    have M: "map (\<lambda>i. get_uint64_be data (push_bit 3 i)) [0..<16] = ?M" by (rule map_cong) (simp_all add: push_bit_eq_mult mult.commute)
    have e: "(80 :: nat) = 16 + 64" by simp
    show ?thesis unfolding sha512_W_def M e sha512_schedule_eq ..
  qed
  then have len: "length ?W = 80" "length sha512_K = 80" by (simp_all add: sha512_K_def)
  note r = sha512_rounds[OF assms len(1) order_refl]
  have "foldl (\<lambda>A t. sha_P sha512_S2 sha512_S3 A t (?W ! t) (sha512_K ! t)) (dg_state ctx) [0..<80] =
      foldl (sha_step sha512_bsig0 sha512_bsig1) (dg_state ctx) (zip sha512_K ?W)"
    using conjunct2[OF r] len unfolding view_turn[OF conjunct1[OF r], of 80, simplified] by (simp only: take_all order_refl)
  then show ?thesis unfolding mbedtls_internal_sha512_process_def sha512_compress_def Let_def by (simp only: W)
qed

lemma length_sha512_compress: "length (sha512_compress h b) = length h"
proof -
  have "length (foldl (sha_step f g) h kws) = length h" for kws f g by (induction kws arbitrary: h) simp_all
  then show ?thesis by (simp add: sha512_compress_def)
qed

lemma length_be_bytes64_pair: "length (put_len_be64 h l) = 16"
  by (simp add: put_len_be64_def)

interpretation sha512: block_digest mbedtls_internal_sha512_process sha512_compress 128 112 8 7 put_len_be64
  by unfold_locales (simp_all add: sha512_process_compress length_sha512_compress length_be_bytes64_pair)

lemma sha512_more: "digest_ctx.more ctx = digest_ctx.more ctx' \<Longrightarrow> sha_is384 ctx = sha_is384 ctx'"
  by (cases ctx; cases ctx') simp

text \<open>
  SHA-512 and SHA-384 in pieces: whatever pieces a message is fed in, the digest is that of the standard.
\<close>

theorem sha512_stream_correct:
  assumes "\<forall>p \<in> set ps. length p < 2 ^ 64" and "length (dg_buffer ctx) = 128"
  shows "fst (mbedtls_sha512_finish_ret (foldl mbedtls_sha512_update_ret (mbedtls_sha512_starts_ret ctx is384) ps)) =
    (if is384 then sha384_spec (concat ps) else sha512_spec (concat ps))"
proof -
  let ?c = "mbedtls_sha512_starts_ret ctx is384"
  have c: "length (dg_state ?c) = 8" "length (dg_buffer ?c) = 128" "dg_total0 ?c = 0" "dg_total1 ?c = 0" "sha_is384 ?c = is384"
    "dg_state ?c = (if is384 then sha384_H0 else sha512_H0)"
    using assms(2) by (simp_all add: mbedtls_sha512_starts_ret_def sha512_H0_def sha384_H0_def)
  have "\<forall>p \<in> set ps. length p < 2 ^ LENGTH(64)" using assms(1) by simp
  note st = sha512.stream_correct[OF c(1-4) this, folded mbedtls_sha512_update_ret_def]
  show ?thesis
  proof (cases is384)
    case True
    then show ?thesis using st(1) sha512_more[OF st(2)] c(5,6)
      by (simp add: mbedtls_sha512_finish_ret_def Let_def sha384_spec_def)
  next
    case False
    then show ?thesis using st(1) sha512_more[OF st(2)] c(5,6)
      by (simp add: mbedtls_sha512_finish_ret_def Let_def sha512_spec_def)
  qed
qed

end
