(* ===== verification/Sha1.thy ===== *)
theory Sha1
  imports Sha2_Rounds
begin

text \<open>
  SHA-1 of the vendored library (\<open>lib/mbedtls/library/sha1.c\<close>) against the text of the standard: eighty unrolled steps on five
  rotating registers, with a schedule kept in a window of sixteen words.  The build of the devices leaves the file out; it
  is one more instance of \<open>block_digest\<close>.
\<close>

section \<open>Code\<close>

text \<open>The macro \<open>R\<close>: the window \<open>W\<close> with its next word.\<close>

definition sha1_R :: "u32 list \<Rightarrow> nat \<Rightarrow> u32 list" where
  "sha1_R W t =
    (let temp = W ! ((t - 3) mod 16) XOR W ! ((t - 8) mod 16) XOR W ! ((t - 14) mod 16) XOR W ! (t mod 16)
     in W[t mod 16 := shift_S temp 1])"

text \<open>The definitions of \<open>F\<close> and \<open>K\<close> in force at step \<open>t\<close>.\<close>

definition sha1_F :: "nat \<Rightarrow> u32 \<Rightarrow> u32 \<Rightarrow> u32 \<Rightarrow> u32" where
  "sha1_F t x y z = (if t < 20 then z XOR (x AND (y XOR z)) else if t < 40 then x XOR y XOR z
     else if t < 60 then (x AND y) OR (z AND (x OR y)) else x XOR y XOR z)"

definition sha1_K :: "nat \<Rightarrow> u32" where
  "sha1_K t = (if t < 20 then 0x5A827999 else if t < 40 then 0x6ED9EBA1 else if t < 60 then 0x8F1BBCDC else 0xCA62C1D6)"

text \<open>
  The macro \<open>P\<close> at step \<open>t\<close>, whose arguments are the five registers rotated by one position more in every step: its
  argument \<open>j\<close> is register \<open>(j - t) mod 5\<close>.
\<close>

definition sha1_P :: "u32 list \<Rightarrow> nat \<Rightarrow> u32 \<Rightarrow> u32 list" where
  "sha1_P A t x =
    (let v = (\<lambda>j. A ! reg5 t j)
     in A[reg5 t 4 := v 4 + (shift_S (v 0) 5 + sha1_F t (v 1) (v 2) (v 3) + sha1_K t + x), reg5 t 1 := shift_S (v 1) 30])"

definition sha1_round :: "u32 list \<times> u32 list \<Rightarrow> nat \<Rightarrow> u32 list \<times> u32 list" where
  "sha1_round = (\<lambda>(A, W) t. let W = (if t < 16 then W else sha1_R W t) in (sha1_P A t (W ! (t mod 16)), W))"

type_synonym mbedtls_sha1_context = "u32 digest_ctx"

definition mbedtls_sha1_init :: mbedtls_sha1_context where
  "mbedtls_sha1_init = \<lparr>dg_total0 = 0, dg_total1 = 0, dg_state = replicate 5 0, dg_buffer = replicate 64 0\<rparr>"

definition mbedtls_sha1_starts_ret :: "mbedtls_sha1_context \<Rightarrow> mbedtls_sha1_context" where
  "mbedtls_sha1_starts_ret ctx = ctx\<lparr>dg_total0 := 0, dg_total1 := 0,
     dg_state := [0x67452301, 0xEFCDAB89, 0x98BADCFE, 0x10325476, 0xC3D2E1F0]\<rparr>"

definition mbedtls_internal_sha1_process :: "mbedtls_sha1_context \<Rightarrow> bytes \<Rightarrow> mbedtls_sha1_context" where
  "mbedtls_internal_sha1_process ctx data =
    (let W = map (\<lambda>i. get_uint32_be data (4 * i)) [0..<16];
         A = fst (foldl sha1_round (dg_state ctx, W) [0..<80])
     in ctx\<lparr>dg_state := map2 (+) (dg_state ctx) A\<rparr>)"

definition mbedtls_sha1_update_ret :: "mbedtls_sha1_context \<Rightarrow> bytes \<Rightarrow> mbedtls_sha1_context" where
  "mbedtls_sha1_update_ret = digest_update 64 mbedtls_internal_sha1_process"

definition mbedtls_sha1_finish_ret :: "mbedtls_sha1_context \<Rightarrow> bytes \<times> mbedtls_sha1_context" where
  "mbedtls_sha1_finish_ret ctx =
    (let ctx = digest_finish 64 56 put_len_be32 mbedtls_internal_sha1_process ctx
     in (concat (map be_bytes32 (dg_state ctx)), ctx))"

definition mbedtls_sha1_ret :: "bytes \<Rightarrow> bytes" where
  "mbedtls_sha1_ret input =
    fst (mbedtls_sha1_finish_ret (mbedtls_sha1_update_ret (mbedtls_sha1_starts_ret mbedtls_sha1_init) input))"

section \<open>Reference: the standard\<close>

definition sha1_f :: "nat \<Rightarrow> u32 \<Rightarrow> u32 \<Rightarrow> u32 \<Rightarrow> u32" where
  "sha1_f t = (if t < 20 then Ch else if 40 \<le> t \<and> t < 60 then Maj else (\<lambda>x y z. x XOR y XOR z))"

primrec sha1_schedule :: "u32 list \<Rightarrow> nat \<Rightarrow> u32 list" where
  "sha1_schedule M 0 = M"
| "sha1_schedule M (Suc n) = (let W = sha1_schedule M n; t = 16 + n in
     W @ [word_rotl 1 (W ! (t - 3) XOR W ! (t - 8) XOR W ! (t - 14) XOR W ! (t - 16))])"

fun sha1_step :: "u32 list \<Rightarrow> nat \<times> u32 \<Rightarrow> u32 list" where
  "sha1_step [a, b, c, d, e] (t, w) = [word_rotl 5 a + sha1_f t b c d + e + sha1_K t + w, a, word_rotl 30 b, c, d]"
| "sha1_step v tw = v"

definition sha1_compress :: "u32 list \<Rightarrow> bytes \<Rightarrow> u32 list" where
  "sha1_compress h block = map2 (+) h (foldl sha1_step h
     (zip [0..<80] (sha1_schedule (map (\<lambda>i. get_uint32_be block (4 * i)) [0..<16]) 64)))"

definition sha1_H0 :: "u32 list" where
  "sha1_H0 = [0x67452301, 0xEFCDAB89, 0x98BADCFE, 0x10325476, 0xC3D2E1F0]"

definition sha1_spec :: "bytes \<Rightarrow> bytes" where
  "sha1_spec m = concat (map be_bytes32 (chain_blocks 64 sha1_compress sha1_H0 (m @ digest_padding 64 56 put_len_be32 m)))"

section \<open>Correctness\<close>

lemma sha1_F_f: "sha1_F t = sha1_f t"
  by (auto simp: fun_eq_iff sha1_F_def sha1_f_def choice_eq[symmetric] F0_def F1_def)

lemma length_sha1_P [simp]: "length (sha1_P A t x) = length A"
  by (simp add: sha1_P_def Let_def)

lemma view5_step:
  assumes "length A = 5"
  shows "view5 (sha1_P A t x) (Suc t) = sha1_step (view5 A t) (t, x)"
proof -
  have up: "[0..<5] = [0, 1, 2, 3, 4 :: nat]" by (simp add: upt_rec)
  have "t mod 5 < 5" by simp
  then consider "t mod 5 = 0" | "t mod 5 = 1" | "t mod 5 = 2" | "t mod 5 = 3" | "t mod 5 = 4"
    by linarith
  then show ?thesis
    by cases (simp_all add: view5_def up sha1_P_def Let_def reg5_def sha1_F_f shift_S_rotl mod_Suc nth_list_update assms,
      simp_all add: numeral_2_eq_2 numeral_3_eq_3)
qed

lemma sha1_schedule_length [simp]: "length (sha1_schedule M n) = length M + n"
  by (induction n) (simp_all add: Let_def)

lemma sha1_schedule_prefix: "m \<le> n \<Longrightarrow> i < length M + m \<Longrightarrow> sha1_schedule M n ! i = sha1_schedule M m ! i"
  by (induction n) (auto simp: le_Suc_eq Let_def nth_append)

lemma sha1_schedule_nth:
  assumes "length M = 16" and "16 \<le> t" and "t < 16 + n"
  shows "sha1_schedule M n ! t = word_rotl 1 (sha1_schedule M n ! (t - 3) XOR sha1_schedule M n ! (t - 8)
     XOR sha1_schedule M n ! (t - 14) XOR sha1_schedule M n ! (t - 16))"
proof -
  let ?m = "t - 16"
  have p: "sha1_schedule M n ! i = sha1_schedule M ?m ! i" if "i < t" for i
    using sha1_schedule_prefix[of ?m n i M] assms that by auto
  have "sha1_schedule M n ! t = sha1_schedule M (Suc ?m) ! t"
    using sha1_schedule_prefix[of "Suc ?m" n t M] assms by auto
  also have "\<dots> = word_rotl 1 (sha1_schedule M ?m ! (t - 3) XOR sha1_schedule M ?m ! (t - 8) XOR sha1_schedule M ?m ! (t - 14) XOR sha1_schedule M ?m ! (t - 16))"
    using assms by (simp add: Let_def nth_append)
  finally show ?thesis using assms(2) by (simp add: p)
qed

text \<open>The window holds the last sixteen words of the schedule.\<close>

definition sha1_window :: "u32 list \<Rightarrow> u32 list \<Rightarrow> nat \<Rightarrow> bool" where
  "sha1_window S W t \<longleftrightarrow> length W = 16 \<and> (\<forall>j < max 16 t. t \<le> j + 16 \<longrightarrow> W ! (j mod 16) = S ! j)"

lemma sha1_window_step:
  assumes "sha1_window (sha1_schedule M 64) W t" and "length M = 16" and "t < 80"
  shows "sha1_window (sha1_schedule M 64) (if t < 16 then W else sha1_R W t) (Suc t)
    \<and> (if t < 16 then W else sha1_R W t) ! (t mod 16) = sha1_schedule M 64 ! t"
proof (cases "t < 16")
  case True
  then show ?thesis using assms(1) by (auto simp: sha1_window_def)
next
  case False
  let ?S = "sha1_schedule M 64"
  have w: "W ! (j mod 16) = ?S ! j" if "j < t" "t \<le> j + 16" for j using assms(1) that by (auto simp: sha1_window_def)
  have "W ! (t mod 16) = ?S ! (t - 16)" using w[of "t - 16"] False le_mod_geq[of 16 t] by simp
  then have R: "sha1_R W t = W[t mod 16 := ?S ! t]"
    using False w[of "t - 3"] w[of "t - 8"] w[of "t - 14"] sha1_schedule_nth[of M t 64] assms(2,3)
    by (simp add: sha1_R_def Let_def shift_S_rotl)
  have n: "j mod 16 \<noteq> t mod 16" if "j < t" "Suc t \<le> j + 16" for j
  proof
    assume "j mod 16 = t mod 16"
    then have "(t - j) mod 16 = 0" using that(1) by (metis less_imp_le mod_eq_dvd_iff_nat dvd_imp_mod_0)
    then show False using that by auto
  qed
  show ?thesis using assms(1) False n n[THEN not_sym] w by (auto simp: R sha1_window_def nth_list_update less_Suc_eq)
qed

lemma sha1_rounds:
  assumes "length A = 5" and "length M = 16" and "n \<le> 80"
  shows "length (fst (foldl sha1_round (A, M) [0..<n])) = 5
    \<and> sha1_window (sha1_schedule M 64) (snd (foldl sha1_round (A, M) [0..<n])) n
    \<and> view5 (fst (foldl sha1_round (A, M) [0..<n])) n = foldl sha1_step A (zip [0..<n] (take n (sha1_schedule M 64)))"
  using assms(3)
proof (induction n)
  case 0
  have "view5 A 0 = A" using assms(1) by (rule view5_turn) simp
  moreover have "sha1_schedule M 64 ! j = M ! j" if "j < 16" for j using sha1_schedule_prefix[of 0 64 j M] assms(2) that by simp
  ultimately show ?case using assms by (simp add: sha1_window_def)
next
  case (Suc n)
  obtain B W where BW: "foldl sha1_round (A, M) [0..<n] = (B, W)" by force
  then have IH: "length B = 5" "sha1_window (sha1_schedule M 64) W n"
    "view5 B n = foldl sha1_step A (zip [0..<n] (take n (sha1_schedule M 64)))" using Suc by simp_all
  have "n < length (sha1_schedule M 64)" using Suc.prems assms(2) by simp
  then show ?case using BW IH Suc.prems sha1_window_step[OF IH(2) assms(2)] view5_step[OF IH(1), of n]
    by (simp add: sha1_round_def Let_def take_Suc_conv_app_nth zip_append1)
qed

lemma sha1_process_compress:
  assumes "length (dg_state ctx) = 5"
  shows "mbedtls_internal_sha1_process ctx data = ctx\<lparr>dg_state := sha1_compress (dg_state ctx) data\<rparr>"
proof -
  let ?M = "map (\<lambda>i. get_uint32_be data (4 * i)) [0..<16]"
  let ?A = "fst (foldl sha1_round (dg_state ctx, ?M) [0..<80])"
  have len: "length ?M = 16" by simp
  note r = sha1_rounds[OF assms len order_refl]
  have "view5 ?A 80 = ?A" using conjunct1[OF r] by (rule view5_turn) simp
  then have "?A = foldl sha1_step (dg_state ctx) (zip [0..<80] (take 80 (sha1_schedule ?M 64)))" using r by (simp only: simp_thms)
  moreover have "take 80 (sha1_schedule ?M 64) = sha1_schedule ?M 64" by (rule take_all) simp
  ultimately show ?thesis unfolding mbedtls_internal_sha1_process_def sha1_compress_def Let_def by (simp only:)
qed

lemma length_sha1_compress: "length h = 5 \<Longrightarrow> length (sha1_compress h b) = 5"
proof -
  assume h: "length h = 5"
  have "length (sha1_step v tw) = length v" for v tw by (cases "(v, tw)" rule: sha1_step.cases) simp_all
  then have "length (foldl sha1_step h tws) = length h" for tws by (induction tws arbitrary: h) simp_all
  then show ?thesis using h by (simp add: sha1_compress_def)
qed

interpretation sha1: block_digest mbedtls_internal_sha1_process sha1_compress 64 56 5 6 put_len_be32
  by unfold_locales (simp_all add: sha1_process_compress length_sha1_compress)

text \<open>SHA-1 in pieces: whatever pieces of less than 4 GiB a message is fed in, the digest is that of the standard.\<close>

theorem sha1_stream_correct:
  assumes "\<forall>p \<in> set ps. length p < 2 ^ 32" and "length (dg_buffer ctx) = 64"
  shows "fst (mbedtls_sha1_finish_ret (foldl mbedtls_sha1_update_ret (mbedtls_sha1_starts_ret ctx) ps)) = sha1_spec (concat ps)"
proof -
  let ?c = "mbedtls_sha1_starts_ret ctx"
  have c: "length (dg_state ?c) = 5" "length (dg_buffer ?c) = 64" "dg_total0 ?c = 0" "dg_total1 ?c = 0" "dg_state ?c = sha1_H0"
    using assms(2) by (simp_all add: mbedtls_sha1_starts_ret_def sha1_H0_def)
  have "\<forall>p \<in> set ps. length p < 2 ^ LENGTH(32)" using assms(1) by simp
  from sha1.stream_correct(1)[OF c(1-4) this, folded mbedtls_sha1_update_ret_def] show ?thesis
    using c(5) by (simp add: mbedtls_sha1_finish_ret_def Let_def sha1_spec_def)
qed

end
