(* ===== verification/Md5.thy ===== *)
theory Md5
  imports Digest_Stream
begin

text \<open>
  MD5 of the vendored library (\<open>lib/mbedtls/library/md5.c\<close>) against RFC 1321: sixty-four unrolled steps on four rotating
  registers, whose constants stand in the code as one list of arguments and in the RFC as index formulas and a table.  The
  build of the devices leaves the file out; it is one more instance of \<open>block_digest\<close>.
\<close>

section \<open>Code\<close>

text \<open>The last three arguments of the calls of \<open>P\<close>: message word, rotation, constant.\<close>

definition md5_args :: "(nat \<times> nat \<times> u32) list" where
  "md5_args = [(0, 7, 0xD76AA478), (1, 12, 0xE8C7B756), (2, 17, 0x242070DB), (3, 22, 0xC1BDCEEE),
    (4, 7, 0xF57C0FAF), (5, 12, 0x4787C62A), (6, 17, 0xA8304613), (7, 22, 0xFD469501),
    (8, 7, 0x698098D8), (9, 12, 0x8B44F7AF), (10, 17, 0xFFFF5BB1), (11, 22, 0x895CD7BE),
    (12, 7, 0x6B901122), (13, 12, 0xFD987193), (14, 17, 0xA679438E), (15, 22, 0x49B40821),
    (1, 5, 0xF61E2562), (6, 9, 0xC040B340), (11, 14, 0x265E5A51), (0, 20, 0xE9B6C7AA),
    (5, 5, 0xD62F105D), (10, 9, 0x02441453), (15, 14, 0xD8A1E681), (4, 20, 0xE7D3FBC8),
    (9, 5, 0x21E1CDE6), (14, 9, 0xC33707D6), (3, 14, 0xF4D50D87), (8, 20, 0x455A14ED),
    (13, 5, 0xA9E3E905), (2, 9, 0xFCEFA3F8), (7, 14, 0x676F02D9), (12, 20, 0x8D2A4C8A),
    (5, 4, 0xFFFA3942), (8, 11, 0x8771F681), (11, 16, 0x6D9D6122), (14, 23, 0xFDE5380C),
    (1, 4, 0xA4BEEA44), (4, 11, 0x4BDECFA9), (7, 16, 0xF6BB4B60), (10, 23, 0xBEBFBC70),
    (13, 4, 0x289B7EC6), (0, 11, 0xEAA127FA), (3, 16, 0xD4EF3085), (6, 23, 0x04881D05),
    (9, 4, 0xD9D4D039), (12, 11, 0xE6DB99E5), (15, 16, 0x1FA27CF8), (2, 23, 0xC4AC5665),
    (0, 6, 0xF4292244), (7, 10, 0x432AFF97), (14, 15, 0xAB9423A7), (5, 21, 0xFC93A039),
    (12, 6, 0x655B59C3), (3, 10, 0x8F0CCC92), (10, 15, 0xFFEFF47D), (1, 21, 0x85845DD1),
    (8, 6, 0x6FA87E4F), (15, 10, 0xFE2CE6E0), (6, 15, 0xA3014314), (13, 21, 0x4E0811A1),
    (4, 6, 0xF7537E82), (11, 10, 0xBD3AF235), (2, 15, 0x2AD7D2BB), (9, 21, 0xEB86D391)]"

text \<open>The definition of \<open>F\<close> in force at step \<open>t\<close>.\<close>

definition md5_F :: "nat \<Rightarrow> u32 \<Rightarrow> u32 \<Rightarrow> u32 \<Rightarrow> u32" where
  "md5_F t x y z = (if t < 16 then z XOR (x AND (y XOR z)) else if t < 32 then y XOR (z AND (x XOR y))
     else if t < 48 then x XOR y XOR z else y XOR (x OR NOT z))"

text \<open>The first four arguments of the calls are the registers, rotated by one position more in every step.\<close>

definition reg4 :: "nat \<Rightarrow> nat \<Rightarrow> nat" where
  "reg4 t j = (j + 4 - t mod 4) mod 4"

definition md5_P :: "u32 list \<Rightarrow> u32 list \<Rightarrow> nat \<Rightarrow> u32 list" where
  "md5_P X A t =
    (let v = (\<lambda>j. A ! reg4 t j);
         (k, s, c) = md5_args ! t;
         a = v 0 + (md5_F t (v 1) (v 2) (v 3) + X ! k + c)
     in A[reg4 t 0 := shift_S a s + v 1])"

type_synonym mbedtls_md5_context = "u32 digest_ctx"

definition mbedtls_md5_init :: mbedtls_md5_context where
  "mbedtls_md5_init = \<lparr>dg_total0 = 0, dg_total1 = 0, dg_state = replicate 4 0, dg_buffer = replicate 64 0\<rparr>"

definition mbedtls_md5_starts_ret :: "mbedtls_md5_context \<Rightarrow> mbedtls_md5_context" where
  "mbedtls_md5_starts_ret ctx = ctx\<lparr>dg_total0 := 0, dg_total1 := 0, dg_state := [0x67452301, 0xEFCDAB89, 0x98BADCFE, 0x10325476]\<rparr>"

definition mbedtls_internal_md5_process :: "mbedtls_md5_context \<Rightarrow> bytes \<Rightarrow> mbedtls_md5_context" where
  "mbedtls_internal_md5_process ctx data =
    (let X = map (\<lambda>i. get_uint32_le data (4 * i)) [0..<16];
         A = foldl (md5_P X) (dg_state ctx) [0..<64]
     in ctx\<lparr>dg_state := map2 (+) (dg_state ctx) A\<rparr>)"

definition mbedtls_md5_update_ret :: "mbedtls_md5_context \<Rightarrow> bytes \<Rightarrow> mbedtls_md5_context" where
  "mbedtls_md5_update_ret = digest_update 64 mbedtls_internal_md5_process"

definition mbedtls_md5_finish_ret :: "mbedtls_md5_context \<Rightarrow> bytes \<times> mbedtls_md5_context" where
  "mbedtls_md5_finish_ret ctx =
    (let ctx = digest_finish 64 56 put_len_le32 mbedtls_internal_md5_process ctx
     in (concat (map le_bytes32 (dg_state ctx)), ctx))"

definition mbedtls_md5_ret :: "bytes \<Rightarrow> bytes" where
  "mbedtls_md5_ret input =
    fst (mbedtls_md5_finish_ret (mbedtls_md5_update_ret (mbedtls_md5_starts_ret mbedtls_md5_init) input))"

section \<open>Reference: RFC 1321\<close>

definition md5_T :: "u32 list" where
  "md5_T = [0xD76AA478, 0xE8C7B756, 0x242070DB, 0xC1BDCEEE, 0xF57C0FAF, 0x4787C62A, 0xA8304613, 0xFD469501,
    0x698098D8, 0x8B44F7AF, 0xFFFF5BB1, 0x895CD7BE, 0x6B901122, 0xFD987193, 0xA679438E, 0x49B40821,
    0xF61E2562, 0xC040B340, 0x265E5A51, 0xE9B6C7AA, 0xD62F105D, 0x02441453, 0xD8A1E681, 0xE7D3FBC8,
    0x21E1CDE6, 0xC33707D6, 0xF4D50D87, 0x455A14ED, 0xA9E3E905, 0xFCEFA3F8, 0x676F02D9, 0x8D2A4C8A,
    0xFFFA3942, 0x8771F681, 0x6D9D6122, 0xFDE5380C, 0xA4BEEA44, 0x4BDECFA9, 0xF6BB4B60, 0xBEBFBC70,
    0x289B7EC6, 0xEAA127FA, 0xD4EF3085, 0x04881D05, 0xD9D4D039, 0xE6DB99E5, 0x1FA27CF8, 0xC4AC5665,
    0xF4292244, 0x432AFF97, 0xAB9423A7, 0xFC93A039, 0x655B59C3, 0x8F0CCC92, 0xFFEFF47D, 0x85845DD1,
    0x6FA87E4F, 0xFE2CE6E0, 0xA3014314, 0x4E0811A1, 0xF7537E82, 0xBD3AF235, 0x2AD7D2BB, 0xEB86D391]"

definition md5_word :: "nat \<Rightarrow> nat" where
  "md5_word t = (if t < 16 then t else if t < 32 then (5 * t + 1) mod 16 else if t < 48 then (3 * t + 5) mod 16 else 7 * t mod 16)"

definition md5_shift :: "nat \<Rightarrow> nat" where
  "md5_shift t = [[7, 12, 17, 22], [5, 9, 14, 20], [4, 11, 16, 23], [6, 10, 15, 21]] ! (t div 16) ! (t mod 4)"

definition md5_f :: "nat \<Rightarrow> u32 \<Rightarrow> u32 \<Rightarrow> u32 \<Rightarrow> u32" where
  "md5_f t x y z = (if t < 16 then (x AND y) OR (NOT x AND z) else if t < 32 then (x AND z) OR (y AND NOT z)
     else if t < 48 then x XOR y XOR z else y XOR (x OR NOT z))"

fun md5_step :: "u32 list \<Rightarrow> u32 list \<Rightarrow> nat \<Rightarrow> u32 list" where
  "md5_step X [a, b, c, d] t = [d, b + word_rotl (md5_shift t) (a + md5_f t b c d + X ! md5_word t + md5_T ! t), b, c]"
| "md5_step X v t = v"

definition md5_compress :: "u32 list \<Rightarrow> bytes \<Rightarrow> u32 list" where
  "md5_compress h block = map2 (+) h (foldl (md5_step (map (\<lambda>i. get_uint32_le block (4 * i)) [0..<16])) h [0..<64])"

definition md5_H0 :: "u32 list" where
  "md5_H0 = [0x67452301, 0xEFCDAB89, 0x98BADCFE, 0x10325476]"

definition md5_spec :: "bytes \<Rightarrow> bytes" where
  "md5_spec m = concat (map le_bytes32 (chain_blocks 64 md5_compress md5_H0 (m @ digest_padding 64 56 put_len_le32 m)))"

section \<open>Correctness\<close>

text \<open>The list of arguments is what the formulas of the RFC give.\<close>

lemma md5_args_eq: "md5_args = map (\<lambda>t. (md5_word t, md5_shift t, md5_T ! t)) [0..<64]"
  by code_simp

lemma md5_args_nth: "t < 64 \<Longrightarrow> md5_args ! t = (md5_word t, md5_shift t, md5_T ! t)"
  by (simp add: md5_args_eq del: upt_conv_Cons)

lemma md5_shift_range: "t < 64 \<Longrightarrow> 0 < md5_shift t \<and> md5_shift t < 32"
proof -
  have "list_all (\<lambda>t. 0 < md5_shift t \<and> md5_shift t < 32) [0..<64]" by code_simp
  then show "t < 64 \<Longrightarrow> 0 < md5_shift t \<and> md5_shift t < 32" by (simp only: list_all_iff set_upt) simp
qed

lemma md5_F_f: "md5_F t = md5_f t"
  by (intro ext bit_word_eqI) (auto simp: md5_F_def md5_f_def bit_simps)

definition view4 :: "u32 list \<Rightarrow> nat \<Rightarrow> u32 list" where
  "view4 A t = map (\<lambda>j. A ! reg4 t j) [0..<4]"

lemma view4_turn: "length A = 4 \<Longrightarrow> t mod 4 = 0 \<Longrightarrow> view4 A t = A"
  by (auto simp: view4_def reg4_def intro: nth_equalityI)

lemma length_md5_P [simp]: "length (md5_P X A t) = length A"
  by (simp add: md5_P_def Let_def split: prod.split)

lemma view4_step:
  assumes "length A = 4" and "t < 64"
  shows "view4 (md5_P X A t) (Suc t) = md5_step X (view4 A t) t"
proof -
  have up: "[0..<4] = [0, 1, 2, 3 :: nat]" by (simp add: upt_rec)
  have "t mod 4 < 4" by simp
  then consider "t mod 4 = 0" | "t mod 4 = 1" | "t mod 4 = 2" | "t mod 4 = 3"
    by linarith
  then show ?thesis using md5_shift_range[OF assms(2)]
    by cases (simp_all add: view4_def up md5_P_def Let_def reg4_def md5_args_nth[OF assms(2)] md5_F_f shift_S_rotl mod_Suc nth_list_update assms(1),
      simp_all add: numeral_2_eq_2 numeral_3_eq_3 ac_simps)
qed

lemma md5_rounds:
  "length A = 4 \<Longrightarrow> n \<le> 64 \<Longrightarrow> length (foldl (md5_P X) A [0..<n]) = 4 \<and> view4 (foldl (md5_P X) A [0..<n]) n = foldl (md5_step X) A [0..<n]"
proof (induction n)
  case 0
  then show ?case by (simp add: view4_turn)
next
  case (Suc n)
  then show ?case by (simp add: view4_step)
qed

lemma md5_process_compress:
  assumes "length (dg_state ctx) = 4"
  shows "mbedtls_internal_md5_process ctx data = ctx\<lparr>dg_state := md5_compress (dg_state ctx) data\<rparr>"
proof -
  let ?X = "map (\<lambda>i. get_uint32_le data (4 * i)) [0..<16]"
  let ?A = "foldl (md5_P ?X) (dg_state ctx) [0..<64]"
  note r = md5_rounds[OF assms order_refl, of ?X]
  have "view4 ?A 64 = ?A" using conjunct1[OF r] by (rule view4_turn) simp
  then have "?A = foldl (md5_step ?X) (dg_state ctx) [0..<64]" using r by (simp only: simp_thms)
  then show ?thesis unfolding mbedtls_internal_md5_process_def md5_compress_def Let_def by (simp only:)
qed

lemma length_md5_compress: "length h = 4 \<Longrightarrow> length (md5_compress h b) = 4"
proof -
  assume h: "length h = 4"
  have "length (md5_step X v t) = length v" for X v t by (cases "(X, v, t)" rule: md5_step.cases) simp_all
  then have "length (foldl (md5_step X) h ts) = length h" for X ts by (induction ts arbitrary: h) simp_all
  then show ?thesis using h by (simp add: md5_compress_def)
qed

interpretation md5: block_digest mbedtls_internal_md5_process md5_compress 64 56 4 6 put_len_le32
  by unfold_locales (simp_all add: md5_process_compress length_md5_compress)

text \<open>MD5 in pieces: whatever pieces of less than 4 GiB a message is fed in, the digest is that of the RFC.\<close>

theorem md5_stream_correct:
  assumes "\<forall>p \<in> set ps. length p < 2 ^ 32" and "length (dg_buffer ctx) = 64"
  shows "fst (mbedtls_md5_finish_ret (foldl mbedtls_md5_update_ret (mbedtls_md5_starts_ret ctx) ps)) = md5_spec (concat ps)"
proof -
  let ?c = "mbedtls_md5_starts_ret ctx"
  have c: "length (dg_state ?c) = 4" "length (dg_buffer ?c) = 64" "dg_total0 ?c = 0" "dg_total1 ?c = 0" "dg_state ?c = md5_H0"
    using assms(2) by (simp_all add: mbedtls_md5_starts_ret_def md5_H0_def)
  have "\<forall>p \<in> set ps. length p < 2 ^ LENGTH(32)" using assms(1) by simp
  from md5.stream_correct(1)[OF c(1-4) this, folded mbedtls_md5_update_ret_def] show ?thesis
    using c(5) by (simp add: mbedtls_md5_finish_ret_def Let_def md5_spec_def)
qed

end
