(* ===== verification/Ripemd160.thy ===== *)
theory Ripemd160
  imports Digest_Stream
begin

text \<open>
  RIPEMD-160 of the vendored library (\<open>lib/mbedtls/library/ripemd160.c\<close>) against its specification: two lines of eighty steps on five
  rotating registers each.  The code lists the message words and rotations of every step; the specification derives them
  from two permutations and a table of rotations per message word.  The build of the devices leaves the file out; it is
  one more instance of \<open>block_digest\<close>.
\<close>

section \<open>Code\<close>

definition rmd_F1 :: "u32 \<Rightarrow> u32 \<Rightarrow> u32 \<Rightarrow> u32" where "rmd_F1 x y z = x XOR y XOR z"
definition rmd_F2 :: "u32 \<Rightarrow> u32 \<Rightarrow> u32 \<Rightarrow> u32" where "rmd_F2 x y z = (x AND y) OR (NOT x AND z)"
definition rmd_F3 :: "u32 \<Rightarrow> u32 \<Rightarrow> u32 \<Rightarrow> u32" where "rmd_F3 x y z = (x OR NOT y) XOR z"
definition rmd_F4 :: "u32 \<Rightarrow> u32 \<Rightarrow> u32 \<Rightarrow> u32" where "rmd_F4 x y z = (x AND z) OR (y AND NOT z)"
definition rmd_F5 :: "u32 \<Rightarrow> u32 \<Rightarrow> u32 \<Rightarrow> u32" where "rmd_F5 x y z = x XOR (y OR NOT z)"

definition rmd_S :: "u32 \<Rightarrow> nat \<Rightarrow> u32" where
  "rmd_S x n = push_bit n x OR drop_bit (32 - n) x"

text \<open>The last four arguments of the calls of \<open>P2\<close>.\<close>

definition rmd_args :: "(nat \<times> nat \<times> nat \<times> nat) list" where
  "rmd_args = [(0, 11, 5, 8), (1, 14, 14, 9), (2, 15, 7, 9), (3, 12, 0, 11), (4, 5, 9, 13), (5, 8, 2, 15),
    (6, 7, 11, 15), (7, 9, 4, 5), (8, 11, 13, 7), (9, 13, 6, 7), (10, 14, 15, 8), (11, 15, 8, 11),
    (12, 6, 1, 14), (13, 7, 10, 14), (14, 9, 3, 12), (15, 8, 12, 6), (7, 7, 6, 9), (4, 6, 11, 13),
    (13, 8, 3, 15), (1, 13, 7, 7), (10, 11, 0, 12), (6, 9, 13, 8), (15, 7, 5, 9), (3, 15, 10, 11),
    (12, 7, 14, 7), (0, 12, 15, 7), (9, 15, 8, 12), (5, 9, 12, 7), (2, 11, 4, 6), (14, 7, 9, 15),
    (11, 13, 1, 13), (8, 12, 2, 11), (3, 11, 15, 9), (10, 13, 5, 7), (14, 6, 1, 15), (4, 7, 3, 11),
    (9, 14, 7, 8), (15, 9, 14, 6), (8, 13, 6, 6), (1, 15, 9, 14), (2, 14, 11, 12), (7, 8, 8, 13),
    (0, 13, 12, 5), (6, 6, 2, 14), (13, 5, 10, 13), (11, 12, 0, 13), (5, 7, 4, 7), (12, 5, 13, 5),
    (1, 11, 8, 15), (9, 12, 6, 5), (11, 14, 4, 8), (10, 15, 1, 11), (0, 14, 3, 14), (8, 15, 11, 14),
    (12, 9, 15, 6), (4, 8, 0, 14), (13, 9, 5, 6), (3, 14, 12, 9), (7, 5, 2, 12), (15, 6, 13, 9),
    (14, 8, 9, 12), (5, 6, 7, 5), (6, 5, 10, 15), (2, 12, 14, 8), (4, 9, 12, 8), (0, 15, 15, 5),
    (5, 5, 10, 12), (9, 11, 4, 9), (7, 6, 1, 12), (12, 8, 5, 5), (2, 13, 8, 14), (10, 12, 7, 6),
    (14, 5, 6, 8), (1, 12, 2, 13), (3, 13, 13, 6), (8, 14, 14, 5), (11, 11, 0, 15), (6, 8, 3, 13),
    (15, 5, 9, 11), (13, 6, 11, 11)]"

text \<open>The definitions of \<open>F\<close>, \<open>K\<close>, \<open>Fp\<close> and \<open>Kp\<close> in force in the five rounds.\<close>

definition rmd_F :: "(u32 \<Rightarrow> u32 \<Rightarrow> u32 \<Rightarrow> u32) list" where "rmd_F = [rmd_F1, rmd_F2, rmd_F3, rmd_F4, rmd_F5]"
definition rmd_K :: "u32 list" where "rmd_K = [0x00000000, 0x5A827999, 0x6ED9EBA1, 0x8F1BBCDC, 0xA953FD4E]"
definition rmd_Fp :: "(u32 \<Rightarrow> u32 \<Rightarrow> u32 \<Rightarrow> u32) list" where "rmd_Fp = [rmd_F5, rmd_F4, rmd_F3, rmd_F2, rmd_F1]"
definition rmd_Kp :: "u32 list" where "rmd_Kp = [0x50A28BE6, 0x5C4DD124, 0x6D703EF3, 0x7A6D76E9, 0x00000000]"

definition rmd_P :: "u32 list \<Rightarrow> u32 list \<Rightarrow> nat \<Rightarrow> nat \<Rightarrow> nat \<Rightarrow> (u32 \<Rightarrow> u32 \<Rightarrow> u32 \<Rightarrow> u32) \<Rightarrow> u32 \<Rightarrow> u32 list" where
  "rmd_P X A t r s f k =
    (let v = (\<lambda>j. A ! reg5 t j);
         a = v 0 + (f (v 1) (v 2) (v 3) + X ! r + k)
     in A[reg5 t 0 := rmd_S a s + v 4, reg5 t 2 := rmd_S (v 2) 10])"

definition rmd_P2 :: "u32 list \<Rightarrow> u32 list \<times> u32 list \<Rightarrow> nat \<Rightarrow> u32 list \<times> u32 list" where
  "rmd_P2 X = (\<lambda>(A, Ap) t. case rmd_args ! t of (r, s, rp, sp) \<Rightarrow>
     (rmd_P X A t r s (rmd_F ! (t div 16)) (rmd_K ! (t div 16)), rmd_P X Ap t rp sp (rmd_Fp ! (t div 16)) (rmd_Kp ! (t div 16))))"

type_synonym mbedtls_ripemd160_context = "u32 digest_ctx"

definition mbedtls_ripemd160_init :: mbedtls_ripemd160_context where
  "mbedtls_ripemd160_init = \<lparr>dg_total0 = 0, dg_total1 = 0, dg_state = replicate 5 0, dg_buffer = replicate 64 0\<rparr>"

definition mbedtls_ripemd160_starts_ret :: "mbedtls_ripemd160_context \<Rightarrow> mbedtls_ripemd160_context" where
  "mbedtls_ripemd160_starts_ret ctx = ctx\<lparr>dg_total0 := 0, dg_total1 := 0,
     dg_state := [0x67452301, 0xEFCDAB89, 0x98BADCFE, 0x10325476, 0xC3D2E1F0]\<rparr>"

definition mbedtls_internal_ripemd160_process :: "mbedtls_ripemd160_context \<Rightarrow> bytes \<Rightarrow> mbedtls_ripemd160_context" where
  "mbedtls_internal_ripemd160_process ctx data =
    (let X = map (\<lambda>i. get_uint32_le data (4 * i)) [0..<16];
         h = dg_state ctx;
         (A, Ap) = foldl (rmd_P2 X) (h, h) [0..<80]
     in ctx\<lparr>dg_state := [h ! 1 + A ! 2 + Ap ! 3, h ! 2 + A ! 3 + Ap ! 4, h ! 3 + A ! 4 + Ap ! 0, h ! 4 + A ! 0 + Ap ! 1, h ! 0 + A ! 1 + Ap ! 2]\<rparr>)"

definition mbedtls_ripemd160_update_ret :: "mbedtls_ripemd160_context \<Rightarrow> bytes \<Rightarrow> mbedtls_ripemd160_context" where
  "mbedtls_ripemd160_update_ret = digest_update 64 mbedtls_internal_ripemd160_process"

text \<open>Unlike the other digests, the finish function feeds padding and length through the update function.\<close>

definition ripemd160_padding :: bytes where
  "ripemd160_padding = 0x80 # replicate 63 0"

definition mbedtls_ripemd160_finish_ret :: "mbedtls_ripemd160_context \<Rightarrow> bytes \<times> mbedtls_ripemd160_context" where
  "mbedtls_ripemd160_finish_ret ctx =
    (let high = drop_bit 29 (dg_total0 ctx) OR push_bit 3 (dg_total1 ctx);
         low = push_bit 3 (dg_total0 ctx);
         msglen = le_bytes32 low @ le_bytes32 high;
         last = unat (dg_total0 ctx AND 0x3F);
         padn = (if last < 56 then 56 - last else 120 - last);
         ctx = mbedtls_ripemd160_update_ret ctx (take padn ripemd160_padding);
         ctx = mbedtls_ripemd160_update_ret ctx msglen
     in (concat (map le_bytes32 (dg_state ctx)), ctx))"

definition mbedtls_ripemd160_ret :: "bytes \<Rightarrow> bytes" where
  "mbedtls_ripemd160_ret input =
    fst (mbedtls_ripemd160_finish_ret (mbedtls_ripemd160_update_ret (mbedtls_ripemd160_starts_ret mbedtls_ripemd160_init) input))"

section \<open>Reference: the specification\<close>

definition rmd_rho :: "nat \<Rightarrow> nat" where
  "rmd_rho i = [7, 4, 13, 1, 10, 6, 15, 3, 12, 0, 9, 5, 2, 14, 11, 8] ! i"

definition rmd_r :: "nat \<Rightarrow> nat" where "rmd_r t = (rmd_rho ^^ (t div 16)) (t mod 16)"
definition rmd_r' :: "nat \<Rightarrow> nat" where "rmd_r' t = (rmd_rho ^^ (t div 16)) ((9 * (t mod 16) + 5) mod 16)"

definition rmd_shift :: "nat \<Rightarrow> nat \<Rightarrow> nat" where
  "rmd_shift i x = [[11, 14, 15, 12, 5, 8, 7, 9, 11, 13, 14, 15, 6, 7, 9, 8], [12, 13, 11, 15, 6, 9, 9, 7, 12, 15, 11, 13, 7, 8, 7, 7],
     [13, 15, 14, 11, 7, 7, 6, 8, 13, 14, 13, 12, 5, 5, 6, 9], [14, 11, 12, 14, 8, 6, 5, 5, 15, 12, 15, 14, 9, 9, 8, 6],
     [15, 12, 13, 13, 9, 5, 8, 6, 14, 11, 12, 11, 8, 6, 5, 5]] ! i ! x"

definition rmd_f :: "nat \<Rightarrow> u32 \<Rightarrow> u32 \<Rightarrow> u32 \<Rightarrow> u32" where
  "rmd_f t x y z = (if t < 16 then x XOR y XOR z else if t < 32 then (x AND y) OR (NOT x AND z) else if t < 48 then (x OR NOT y) XOR z
     else if t < 64 then (x AND z) OR (y AND NOT z) else x XOR (y OR NOT z))"

fun rmd_step :: "(u32 \<Rightarrow> u32 \<Rightarrow> u32 \<Rightarrow> u32) \<Rightarrow> u32 \<Rightarrow> nat \<Rightarrow> u32 list \<Rightarrow> u32 list" where
  "rmd_step f xk s [a, b, c, d, e] = [e, word_rotl s (a + f b c d + xk) + e, b, word_rotl 10 c, d]"
| "rmd_step f xk s v = v"

definition rmd_left :: "u32 list \<Rightarrow> u32 list \<Rightarrow> nat \<Rightarrow> u32 list" where
  "rmd_left X v t = rmd_step (rmd_f t) (X ! rmd_r t + rmd_K ! (t div 16)) (rmd_shift (t div 16) (rmd_r t)) v"

definition rmd_right :: "u32 list \<Rightarrow> u32 list \<Rightarrow> nat \<Rightarrow> u32 list" where
  "rmd_right X v t = rmd_step (rmd_f (79 - t)) (X ! rmd_r' t + rmd_Kp ! (t div 16)) (rmd_shift (t div 16) (rmd_r' t)) v"

definition rmd_compress :: "u32 list \<Rightarrow> bytes \<Rightarrow> u32 list" where
  "rmd_compress h block =
    (let X = map (\<lambda>i. get_uint32_le block (4 * i)) [0..<16];
         v = foldl (rmd_left X) h [0..<80]; v' = foldl (rmd_right X) h [0..<80]
     in map (\<lambda>i. h ! ((i + 1) mod 5) + v ! ((i + 2) mod 5) + v' ! ((i + 3) mod 5)) [0..<5])"

definition rmd_H0 :: "u32 list" where
  "rmd_H0 = [0x67452301, 0xEFCDAB89, 0x98BADCFE, 0x10325476, 0xC3D2E1F0]"

definition rmd_spec :: "bytes \<Rightarrow> bytes" where
  "rmd_spec m = concat (map le_bytes32 (chain_blocks 64 rmd_compress rmd_H0 (m @ digest_padding 64 56 put_len_le32 m)))"

section \<open>Correctness\<close>

lemma rmd_S_rotl: "0 < n \<Longrightarrow> n < 32 \<Longrightarrow> rmd_S x n = word_rotl n x"
proof -
  have m: "(0xFFFFFFFF :: u32) = - 1" by simp
  have "rmd_S x n = shift_S x n" unfolding shift_S_def rmd_S_def m by simp
  then show "0 < n \<Longrightarrow> n < 32 \<Longrightarrow> ?thesis" by (simp add: shift_S_rotl)
qed

text \<open>The list of arguments is what the permutations and the table of the specification give.\<close>

lemma rmd_args_eq:
  "rmd_args = map (\<lambda>t. (rmd_r t, rmd_shift (t div 16) (rmd_r t), rmd_r' t, rmd_shift (t div 16) (rmd_r' t))) [0..<80]"
  by code_simp

lemma rmd_args_nth: "t < 80 \<Longrightarrow> rmd_args ! t = (rmd_r t, rmd_shift (t div 16) (rmd_r t), rmd_r' t, rmd_shift (t div 16) (rmd_r' t))"
  by (simp add: rmd_args_eq del: upt_conv_Cons)

lemma rmd_shift_range:
  "t < 80 \<Longrightarrow> 0 < rmd_shift (t div 16) (rmd_r t) \<and> rmd_shift (t div 16) (rmd_r t) < 32
     \<and> 0 < rmd_shift (t div 16) (rmd_r' t) \<and> rmd_shift (t div 16) (rmd_r' t) < 32"
proof -
  have "list_all (\<lambda>(_, s, _, s'). 0 < s \<and> s < 32 \<and> 0 < s' \<and> s' < 32) rmd_args" by code_simp
  moreover have "length rmd_args = 80" by (simp add: rmd_args_eq)
  ultimately show "t < 80 \<Longrightarrow> ?thesis" using rmd_args_nth[of t] by (auto simp: list_all_length)
qed

lemma rmd_functions:
  assumes "t < 80"
  shows "rmd_F ! (t div 16) = rmd_f t \<and> rmd_Fp ! (t div 16) = rmd_f (79 - t)"
proof -
  have "t div 16 < 5" using assms by simp
  then consider "t div 16 = 0" | "t div 16 = 1" | "t div 16 = 2" | "t div 16 = 3" | "t div 16 = 4" by linarith
  then show ?thesis
  proof cases
    case 1
    then have "t < 16" by simp
    then show ?thesis using 1 by (auto simp: rmd_F_def rmd_Fp_def fun_eq_iff rmd_f_def rmd_F1_def rmd_F5_def)
  next
    case 2
    then have "16 \<le> t" "t < 32" by simp_all
    then show ?thesis using 2 by (auto simp: rmd_F_def rmd_Fp_def fun_eq_iff rmd_f_def rmd_F2_def rmd_F4_def)
  next
    case 3
    then have "32 \<le> t" "t < 48" by simp_all
    then show ?thesis using 3 by (auto simp: rmd_F_def rmd_Fp_def fun_eq_iff rmd_f_def rmd_F3_def)
  next
    case 4
    then have "48 \<le> t" "t < 64" by simp_all
    then show ?thesis using 4 by (auto simp: rmd_F_def rmd_Fp_def fun_eq_iff rmd_f_def rmd_F2_def rmd_F4_def)
  next
    case 5
    then have "64 \<le> t" "t < 80" using assms by simp_all
    then show ?thesis using 5 by (auto simp: rmd_F_def rmd_Fp_def fun_eq_iff rmd_f_def rmd_F1_def rmd_F5_def)
  qed
qed

lemma length_rmd_P [simp]: "length (rmd_P X A t r s f k) = length A"
  by (simp add: rmd_P_def Let_def)

lemma rmd_P_step:
  assumes "length A = 5" and "0 < s" and "s < 32"
  shows "view5 (rmd_P X A t r s f k) (Suc t) = rmd_step f (X ! r + k) s (view5 A t)"
proof -
  have up: "[0..<5] = [0, 1, 2, 3, 4 :: nat]" by (simp add: upt_rec)
  have "t mod 5 < 5" by simp
  then consider "t mod 5 = 0" | "t mod 5 = 1" | "t mod 5 = 2" | "t mod 5 = 3" | "t mod 5 = 4"
    by linarith
  then show ?thesis using assms(2,3)
    by cases (simp_all add: view5_def up rmd_P_def Let_def reg5_def rmd_S_rotl mod_Suc nth_list_update assms(1) ac_simps,
      simp_all add: numeral_2_eq_2 numeral_3_eq_3)
qed

lemma rmd_P2_step:
  assumes "length A = 5" and "length B = 5" and "t < 80" and "rmd_P2 X (A, B) t = (A', B')"
  shows "length A' = 5 \<and> length B' = 5 \<and> view5 A' (Suc t) = rmd_left X (view5 A t) t \<and> view5 B' (Suc t) = rmd_right X (view5 B t) t"
proof -
  have "A' = rmd_P X A t (rmd_r t) (rmd_shift (t div 16) (rmd_r t)) (rmd_f t) (rmd_K ! (t div 16))"
    "B' = rmd_P X B t (rmd_r' t) (rmd_shift (t div 16) (rmd_r' t)) (rmd_f (79 - t)) (rmd_Kp ! (t div 16))"
    using assms(4) rmd_args_nth[OF assms(3)] rmd_functions[OF assms(3)] by (simp_all add: rmd_P2_def)
  then show ?thesis using rmd_shift_range[OF assms(3)] assms(1,2) by (simp add: rmd_P_step rmd_left_def rmd_right_def)
qed

lemma rmd_rounds:
  assumes "length h = 5" and "n \<le> 80" and "foldl (rmd_P2 X) (h, h) [0..<n] = (A, B)"
  shows "length A = 5 \<and> length B = 5 \<and> view5 A n = foldl (rmd_left X) h [0..<n] \<and> view5 B n = foldl (rmd_right X) h [0..<n]"
  using assms(2,3)
proof (induction n arbitrary: A B)
  case 0
  have "view5 h 0 = h" using assms(1) by (rule view5_turn) simp
  then show ?case using 0 assms(1) by auto
next
  case (Suc n)
  obtain A0 B0 where 0: "foldl (rmd_P2 X) (h, h) [0..<n] = (A0, B0)" by force
  then show ?case using Suc.IH[OF _ 0] Suc.prems rmd_P2_step[of A0 B0 n X A B] by simp
qed

lemma rmd_process_compress:
  assumes "length (dg_state ctx) = 5"
  shows "mbedtls_internal_ripemd160_process ctx data = ctx\<lparr>dg_state := rmd_compress (dg_state ctx) data\<rparr>"
proof -
  let ?X = "map (\<lambda>i. get_uint32_le data (4 * i)) [0..<16]" and ?h = "dg_state ctx"
  obtain A B where AB: "foldl (rmd_P2 ?X) (?h, ?h) [0..<80] = (A, B)" by force
  note r = rmd_rounds[OF assms order_refl AB]
  have "view5 A 80 = A" using conjunct1[OF r] by (rule view5_turn) simp
  moreover have "view5 B 80 = B" using conjunct1[OF conjunct2[OF r]] by (rule view5_turn) simp
  ultimately have e: "foldl (rmd_left ?X) ?h [0..<80] = A" "foldl (rmd_right ?X) ?h [0..<80] = B" using r by (simp_all only: simp_thms)
  have up: "[0..<5] = [0, 1, 2, 3, 4 :: nat]" by (simp add: upt_rec)
  show ?thesis unfolding mbedtls_internal_ripemd160_process_def rmd_compress_def Let_def AB e prod.case up list.map
    by (simp add: numeral_2_eq_2)
qed

lemma length_rmd_compress: "length (rmd_compress h b) = 5"
  by (simp add: rmd_compress_def Let_def)

interpretation ripemd160: block_digest mbedtls_internal_ripemd160_process rmd_compress 64 56 5 6 put_len_le32
  by unfold_locales (simp_all add: rmd_process_compress length_rmd_compress)

lemma ripemd160_pad:
  "take (if length m mod 64 < 56 then 56 - length m mod 64 else 120 - length m mod 64) ripemd160_padding
     @ put_len_le32 (word_of_nat (8 * length m div 2 ^ 32)) (word_of_nat (8 * length m)) = digest_padding 64 56 put_len_le32 m"
proof -
  define u where "u = length m mod 64"
  have u: "u < 64" by (simp add: u_def)
  have z: "Suc ((119 - u) mod 64) = (if u < 56 then 56 - u else 120 - u)"
  proof (cases "u < 56")
    case True
    then have "119 - u = (55 - u) + 64" by linarith
    then have "(119 - u) mod 64 = 55 - u" by (simp only: mod_add_self2) simp
    then show ?thesis using True by simp
  next
    case False
    then show ?thesis using u by simp
  qed
  then show ?thesis using u unfolding u_def[symmetric] ripemd160_padding_def digest_padding_def
    by (auto simp: min_def simp flip: z)
qed

lemma ripemd160_finish:
  assumes "ripemd160.digest_rel H ctx m"
  shows "dg_state (snd (mbedtls_ripemd160_finish_ret ctx)) = chain_blocks 64 rmd_compress H (m @ digest_padding 64 56 put_len_le32 m)"
    and "fst (mbedtls_ripemd160_finish_ret ctx) = concat (map le_bytes32 (dg_state (snd (mbedtls_ripemd160_finish_ret ctx))))"
proof -
  have t: "dg_total0 ctx = word_of_nat (length m)" "dg_total1 ctx = word_of_nat (length m div 2 ^ 32)"
    using assms by (simp_all add: ripemd160.digest_rel_def)
  have u: "unat (dg_total0 ctx AND 0x3F) = length m mod 64" using ripemd160.used_bytes[OF assms] by simp
  let ?p = "take (if length m mod 64 < 56 then 56 - length m mod 64 else 120 - length m mod 64) ripemd160_padding"
  let ?l = "put_len_le32 (word_of_nat (8 * length m div 2 ^ 32)) (word_of_nat (8 * length m))"
  have l: "le_bytes32 (push_bit 3 (dg_total0 ctx)) @ le_bytes32 (drop_bit 29 (dg_total0 ctx) OR push_bit 3 (dg_total1 ctx)) = ?l"
    using length_words[where 'w = 32, of "length m"] by (simp add: t put_len_le32_def)
  have "length ?p \<le> 64" by (simp add: ripemd160_padding_def)
  then have s: "\<forall>p \<in> set [?p, ?l]. length p < 2 ^ LENGTH(32)" by simp
  have "mbedtls_ripemd160_finish_ret ctx = (let ctx = foldl mbedtls_ripemd160_update_ret ctx [?p, ?l] in (concat (map le_bytes32 (dg_state ctx)), ctx))"
    unfolding mbedtls_ripemd160_finish_ret_def Let_def u l by simp
  moreover have "dg_state (foldl mbedtls_ripemd160_update_ret ctx [?p, ?l]) = chain_blocks 64 rmd_compress H (m @ digest_padding 64 56 put_len_le32 m)"
    using conjunct1[OF ripemd160.rel_updates[OF assms s, folded mbedtls_ripemd160_update_ret_def]] ripemd160_pad[of m]
    by (simp add: ripemd160.digest_rel_def)
  ultimately show "dg_state (snd (mbedtls_ripemd160_finish_ret ctx)) = chain_blocks 64 rmd_compress H (m @ digest_padding 64 56 put_len_le32 m)"
    and "fst (mbedtls_ripemd160_finish_ret ctx) = concat (map le_bytes32 (dg_state (snd (mbedtls_ripemd160_finish_ret ctx))))"
    by (simp_all add: Let_def)
qed

text \<open>RIPEMD-160 in pieces: whatever pieces of less than 4 GiB a message is fed in, the digest is that of the specification.\<close>

theorem ripemd160_stream_correct:
  assumes "\<forall>p \<in> set ps. length p < 2 ^ 32" and "length (dg_buffer ctx) = 64"
  shows "fst (mbedtls_ripemd160_finish_ret (foldl mbedtls_ripemd160_update_ret (mbedtls_ripemd160_starts_ret ctx) ps)) = rmd_spec (concat ps)"
proof -
  let ?c = "mbedtls_ripemd160_starts_ret ctx"
  have c: "length (dg_state ?c) = 5" "length (dg_buffer ?c) = 64" "dg_total0 ?c = 0" "dg_total1 ?c = 0" "dg_state ?c = rmd_H0"
    using assms(2) by (simp_all add: mbedtls_ripemd160_starts_ret_def rmd_H0_def)
  have "\<forall>p \<in> set ps. length p < 2 ^ LENGTH(32)" using assms(1) by simp
  from ripemd160.rel_updates[OF ripemd160.rel_start[OF c(1-4)] this, folded mbedtls_ripemd160_update_ret_def]
  have "ripemd160.digest_rel rmd_H0 (foldl mbedtls_ripemd160_update_ret ?c ps) (concat ps)" by (simp add: c(5))
  then show ?thesis by (simp add: ripemd160_finish rmd_spec_def)
qed

end
