(* ===== verification/Oid_Numeric.thy ===== *)
theory Oid_Numeric
  imports Text_Format
begin

text \<open>
  Object identifiers in their numeric form: \<open>mbedtls_oid_get_numeric_string\<close> (\<open>lib/mbedtls/library/oid.c\<close>) turns the DER
  contents, subidentifiers in base 128 with a continuation bit, into the dotted text.  It is shown to be the inverse
  of the encoding: it succeeds on exactly the contents that encode subidentifiers of at most 32 bits, and then writes
  their text.
\<close>

section \<open>Code\<close>

datatype oid_error = MBEDTLS_ERR_ASN1_INVALID_LENGTH | MBEDTLS_ERR_ASN1_OUT_OF_DATA | MBEDTLS_ERR_ASN1_INVALID_DATA
  | MBEDTLS_ERR_OID_BUF_TOO_SMALL | MBEDTLS_ERR_OID_NOT_FOUND

record mbedtls_asn1_buf =
  asn1_tag :: int
  asn1_p :: bytes

text \<open>
  The text printed for one subidentifier; the first one stands for two components.
\<close>

definition oid_component :: "bool \<Rightarrow> u32 \<Rightarrow> string" where
  "oid_component first value =
    (if first
     then (if value \<ge> 80 then ''2'' @ ''.'' @ dec (unat (value - 80))
           else if value \<ge> 40 then ''1'' @ ''.'' @ dec (unat (value - 40))
           else ''0'' @ ''.'' @ dec (unat value))
     else ''.'' @ dec (unat value))"

text \<open>
  \<open>snprintf\<close> at the end of the text \<open>w\<close> with \<open>n\<close> bytes left; \<open>None\<close> stands for a buffer nothing was written to.
\<close>

definition oid_snprintf_at :: "string option \<Rightarrow> nat \<Rightarrow> string \<Rightarrow> string option" where
  "oid_snprintf_at w n s = (if n = 0 then w else Some ((case w of None \<Rightarrow> [] | Some t \<Rightarrow> t) @ snprintf_text n s))"

fun oid_loop :: "nat \<Rightarrow> bytes \<Rightarrow> nat \<Rightarrow> u32 \<Rightarrow> string option \<Rightarrow> (oid_error + nat) \<times> string option" where
  "oid_loop sz [] n value w = (if value \<noteq> 0 then (Inl MBEDTLS_ERR_ASN1_OUT_OF_DATA, w) else (Inr (sz - n), w))"
| "oid_loop sz (b # bs) n value w =
    (if value > drop_bit 7 0xFFFFFFFF then (Inl MBEDTLS_ERR_ASN1_INVALID_DATA, w)
     else if value = 0 \<and> b = 0x80 then (Inl MBEDTLS_ERR_ASN1_INVALID_DATA, w)
     else
       let value = push_bit 7 value OR ucast (b AND 0x7F)
       in if b AND 0x80 = 0
          then
            let s = oid_component (n = sz) value;
                w = oid_snprintf_at w n s
            in if length s < 2 \<or> length s \<ge> n then (Inl MBEDTLS_ERR_OID_BUF_TOO_SMALL, w)
               else oid_loop sz bs (n - length s) 0 w
          else oid_loop sz bs n value w)"

definition mbedtls_oid_get_numeric_string :: "nat \<Rightarrow> mbedtls_asn1_buf \<Rightarrow> (oid_error + nat) \<times> string option" where
  "mbedtls_oid_get_numeric_string sz oid =
    (if sz > 2 ^ 31 - 1 then (Inl MBEDTLS_ERR_ASN1_INVALID_LENGTH, None)
     else if length (asn1_p oid) = 0 then (Inl MBEDTLS_ERR_ASN1_OUT_OF_DATA, None)
     else oid_loop sz (asn1_p oid) sz 0 None)"

section \<open>Reference: the encoding\<close>

fun base128_high :: "nat \<Rightarrow> bytes" where
  "base128_high v = (if v = 0 then [] else base128_high (v div 128) @ [word_of_nat (128 + v mod 128)])"

declare base128_high.simps [simp del]

text \<open>A subidentifier: its digits in base 128, all but the last with the top bit set.\<close>

definition base128 :: "nat \<Rightarrow> bytes" where
  "base128 v = base128_high (v div 128) @ [word_of_nat (v mod 128)]"

fun oid_components :: "nat list \<Rightarrow> nat list" where
  "oid_components [] = []"
| "oid_components (x # xs) = (let a = min 2 (x div 40) in a # (x - 40 * a) # xs)"

definition dotted :: "nat list \<Rightarrow> string" where
  "dotted xs = concat (map (\<lambda>x. ''.'' @ dec x) xs)"

text \<open>The dotted text of the components.\<close>

definition oid_text :: "nat list \<Rightarrow> string" where
  "oid_text xs = tl (dotted (oid_components xs))"

section \<open>Correctness\<close>

lemma top_bit_u8: "(b :: u8) AND 0x80 = 0 \<longleftrightarrow> unat b < 128"
proof -
  have "b AND 0x80 = 0 \<longleftrightarrow> \<not> bit b 7" using and_exp_eq_0_iff_not_bit[of b 7] by simp
  also have "\<dots> \<longleftrightarrow> \<not> bit (unat b) 7" by (simp add: bit_unsigned_iff)
  also have "\<dots> \<longleftrightarrow> unat b div 128 mod 2 = 0" by (simp add: bit_iff_odd even_iff_mod_2_eq_zero)
  also have "\<dots> \<longleftrightarrow> unat b < 128" using unsigned_less[of b, where ?'a = nat] by auto
  finally show ?thesis .
qed

lemma append_digit:
  assumes "value \<le> drop_bit 7 0xFFFFFFFF"
  shows "unat (push_bit 7 value OR ucast ((b :: u8) AND 0x7F) :: u32) = 128 * unat value + unat b mod 128"
proof -
  have v: "unat value < 2 ^ 25" using assms by (simp add: word_le_nat_alt)
  have m: "unat (b AND 0x7F) = unat b mod 128"
  proof -
    have "(0x7F :: u8) = mask 7" by (simp add: mask_eq_exp_minus_1)
    then have "b AND 0x7F = take_bit 7 b" by (simp only: take_bit_eq_mask)
    then show ?thesis by (simp only: unsigned_take_bit_eq) (simp add: take_bit_eq_mod)
  qed
  have "push_bit 7 value AND ucast (b AND 0x7F) = (0 :: u32)"
  proof (rule bit_eqI)
    fix n
    have m: "(0x7F :: u8) = mask 7" by (simp add: mask_eq_exp_minus_1)
    have "\<not> bit (0x7F :: u8) n" if "7 \<le> n" using that unfolding m by (simp only: bit_mask_iff) simp
    then show "bit (push_bit 7 value AND ucast (b AND 0x7F)) n = bit (0 :: u32) n" by (auto simp: bit_simps)
  qed
  then have "push_bit 7 value OR ucast (b AND 0x7F) = push_bit 7 value + (ucast (b AND 0x7F) :: u32)"
    by (simp add: disjunctive_add_eq_or)
  moreover have "unat (push_bit 7 value :: u32) = 128 * unat value" using v
    by (simp add: push_bit_eq_mult unat_word_ariths)
  moreover have "unat (ucast (b AND 0x7F) :: u32) = unat b mod 128" using m by (simp add: unsigned_ucast_eq take_bit_nat_eq_self)
  ultimately show ?thesis using v by (simp add: unat_word_ariths)
qed

lemma oid_component_first: "v < 2 ^ 32 \<Longrightarrow> oid_component True (word_of_nat v) = oid_text [v]"
proof -
  assume v: "v < 2 ^ 32"
  have w: "(x :: u32) \<le> word_of_nat v \<longleftrightarrow> unat x \<le> v" "unat (word_of_nat v :: u32) = v" for x
    using v by (simp_all add: word_le_nat_alt unat_of_nat)
  have d: "dec 0 = ''0''" "dec 1 = ''1''" "dec 2 = ''2''" by code_simp+
  consider "80 \<le> v" | "40 \<le> v" "v < 80" | "v < 40" by linarith
  then show ?thesis
  proof cases
    case 1
    then have "min 2 (v div 40) = 2" by simp
    then show ?thesis using 1 by (simp add: oid_component_def oid_text_def dotted_def w d Let_def unat_sub word_le_nat_alt)
  next
    case 2
    then have "v div 40 = 1" by simp
    then show ?thesis using 2 by (simp add: oid_component_def oid_text_def dotted_def w d[simplified] Let_def unat_sub word_le_nat_alt)
  next
    case 3
    then show ?thesis by (simp add: oid_component_def oid_text_def dotted_def w d Let_def)
  qed
qed

lemma oid_component_rest: "v < 2 ^ 32 \<Longrightarrow> oid_component False (word_of_nat v) = dotted [v]"
  by (simp add: oid_component_def dotted_def unat_of_nat)

lemma oid_text_Cons: "oid_text (x # xs) = oid_text [x] @ dotted xs"
  by (simp add: oid_text_def dotted_def Let_def)

lemma dotted_Nil [simp]: "dotted [] = []"
  by (simp add: dotted_def)

lemma dotted_Cons: "dotted (x # xs) = dotted [x] @ dotted xs"
  by (simp add: dotted_def)

lemma component_length: "2 \<le> length (oid_text (x # xs))" "2 \<le> length (dotted [x])"
  using dec_nonempty by (auto simp: oid_text_def dotted_def Let_def Suc_le_eq)

text \<open>The continuation bytes of a subidentifier.\<close>

lemma oid_loop_high:
  "v < 2 ^ 25 \<Longrightarrow> oid_loop sz (base128_high v @ bs) n 0 w = oid_loop sz bs n (word_of_nat v) w"
proof (induction v arbitrary: bs rule: base128_high.induct)
  case (1 v)
  show ?case
  proof (cases "v = 0")
    case True
    then show ?thesis by (simp add: base128_high.simps)
  next
    case False
    define b where "b = (word_of_nat (128 + v mod 128) :: u8)"
    have "128 + v mod 128 < 2 ^ LENGTH(8)" by simp
    then have ub: "unat b = 128 + v mod 128" by (simp only: b_def unat_of_nat mod_less)
    have "(word_of_nat (v div 128) :: u32) \<le> drop_bit 7 0xFFFFFFFF"
      using 1(2) by (simp add: word_le_nat_alt unat_of_nat)
    then have u: "unat (push_bit 7 (word_of_nat (v div 128)) OR ucast (b AND 0x7F) :: u32) = v" and le: "\<not> (word_of_nat (v div 128) :: u32) > drop_bit 7 0xFFFFFFFF"
      using 1(2) by (simp_all add: append_digit ub unat_of_nat)
    have nz: "\<not> ((word_of_nat (v div 128) :: u32) = 0 \<and> b = 0x80)"
    proof
      assume "(word_of_nat (v div 128) :: u32) = 0 \<and> b = 0x80"
      then have "unat (word_of_nat (v div 128) :: u32) = 0" "unat b = 128" by simp_all
      then show False using ub False 1(2) by (simp add: unat_of_nat)
    qed
    have "oid_loop sz (base128_high v @ bs) n 0 w = oid_loop sz (b # bs) n (word_of_nat (v div 128)) w"
      using 1 False by (subst base128_high.simps) (simp add: b_def)
    also have "\<dots> = oid_loop sz bs n (push_bit 7 (word_of_nat (v div 128)) OR ucast (b AND 0x7F)) w"
      unfolding oid_loop.simps Let_def by (simp only: le nz top_bit_u8 ub) simp
    also have "(push_bit 7 (word_of_nat (v div 128)) OR ucast (b AND 0x7F) :: u32) = word_of_nat v"
      unfolding word_unat_eq_iff u using 1(2) by (simp add: unat_of_nat)
    finally show ?thesis .
  qed
qed

text \<open>A whole subidentifier.\<close>

lemma oid_loop_group:
  assumes "v < 2 ^ 32"
  shows "oid_loop sz (base128 v @ bs) n 0 w =
    (let s = oid_component (n = sz) (word_of_nat v); w = oid_snprintf_at w n s
     in if length s \<ge> n then (Inl MBEDTLS_ERR_OID_BUF_TOO_SMALL, w) else oid_loop sz bs (n - length s) 0 w)"
proof -
  let ?b = "word_of_nat (v mod 128) :: u8" and ?v = "word_of_nat (v div 128) :: u32"
  have ub: "unat ?b = v mod 128" by (simp add: unat_of_nat)
  have "?v \<le> drop_bit 7 0xFFFFFFFF" using assms by (simp add: word_le_nat_alt unat_of_nat)
  then have u: "unat (push_bit 7 ?v OR ucast (?b AND 0x7F) :: u32) = v" and le: "\<not> ?v > drop_bit 7 0xFFFFFFFF"
    using assms by (simp_all add: append_digit ub unat_of_nat)
  have nz: "?b \<noteq> 0x80"
  proof
    assume "?b = 0x80"
    then have "unat ?b = 128" by simp
    then show False using ub by simp
  qed
  have v: "push_bit 7 ?v OR ucast (?b AND 0x7F) = (word_of_nat v :: u32)"
    unfolding word_unat_eq_iff u using assms by (simp add: unat_of_nat)
  have l: "\<not> length (oid_component (n = sz) (word_of_nat v)) < 2"
    using component_length oid_component_first[OF assms] oid_component_rest[OF assms] by (cases "n = sz") (simp_all add: not_less)
  have "oid_loop sz (base128 v @ bs) n 0 w = oid_loop sz (?b # bs) n ?v w"
    using oid_loop_high[of "v div 128"] assms by (simp add: base128_def)
  moreover have "?b AND 0x80 = 0" by (simp only: top_bit_u8 ub)
  ultimately show ?thesis unfolding oid_loop.simps Let_def by (simp only: le nz v l if_False if_True simp_thms)
qed

lemma length_put: "0 < n \<Longrightarrow> length s < n \<Longrightarrow> oid_snprintf_at (Some t) n s = Some (t @ s)"
  by (simp add: oid_snprintf_at_def snprintf_text_def)

lemma oid_loop_rest:
  assumes "list_all (\<lambda>x. x < 2 ^ 32) xs" and "0 < n" and "n < sz"
  shows "oid_loop sz (concat (map base128 xs)) n 0 (Some t) =
      (if length (dotted xs) < n then (Inr (sz - (n - length (dotted xs))), Some (t @ dotted xs))
       else (Inl MBEDTLS_ERR_OID_BUF_TOO_SMALL, Some (t @ take (n - 1) (dotted xs))))"
  using assms
proof (induction xs arbitrary: n t)
  case (Cons x xs)
  have x: "x < 2 ^ 32" using Cons by simp
  let ?s = "dotted [x]"
  have L: "oid_loop sz (concat (map base128 (x # xs))) n 0 (Some t) =
      (if length ?s \<ge> n then (Inl MBEDTLS_ERR_OID_BUF_TOO_SMALL, oid_snprintf_at (Some t) n ?s)
       else oid_loop sz (concat (map base128 xs)) (n - length ?s) 0 (oid_snprintf_at (Some t) n ?s))"
    using Cons.prems oid_loop_group[OF x, of sz "concat (map base128 xs)" n "Some t"] by (simp add: oid_component_rest[OF x] Let_def)
  show ?case
  proof (cases "length ?s \<ge> n")
    case True
    then show ?thesis using Cons.prems unfolding L dotted_Cons[of x xs] by (simp add: oid_snprintf_at_def snprintf_text_def)
  next
    case False
    then show ?thesis using Cons.prems Cons.IH[of "n - length ?s" "t @ ?s"] unfolding L dotted_Cons[of x xs]
      by (simp add: length_put less_diff_conv add.commute)
  qed
qed simp

lemma oid_loop_all:
  assumes "list_all (\<lambda>x. x < 2 ^ 32) xs" and "xs \<noteq> []"
  shows "oid_loop sz (concat (map base128 xs)) sz 0 None =
      (if length (oid_text xs) < sz then (Inr (length (oid_text xs)), Some (oid_text xs))
       else (Inl MBEDTLS_ERR_OID_BUF_TOO_SMALL, if sz = 0 then None else Some (take (sz - 1) (oid_text xs))))"
proof -
  obtain x ys where xs: "xs = x # ys" using assms(2) by (cases xs) auto
  have x: "x < 2 ^ 32" and ys: "list_all (\<lambda>x. x < 2 ^ 32) ys" using assms(1) xs by simp_all
  let ?s = "oid_text [x]"
  have L: "oid_loop sz (concat (map base128 (x # ys))) sz 0 None =
      (if length ?s \<ge> sz then (Inl MBEDTLS_ERR_OID_BUF_TOO_SMALL, oid_snprintf_at None sz ?s)
       else oid_loop sz (concat (map base128 ys)) (sz - length ?s) 0 (oid_snprintf_at None sz ?s))"
    using oid_loop_group[OF x, of sz "concat (map base128 ys)" sz None] by (simp add: oid_component_first[OF x] Let_def)
  show ?thesis
  proof (cases "length ?s \<ge> sz")
    case True
    then show ?thesis unfolding xs L oid_text_Cons[of x ys] by (simp add: oid_snprintf_at_def snprintf_text_def)
  next
    case False
    have "0 < length ?s" using component_length(1)[of x "[]"] by linarith
    then show ?thesis using False oid_loop_rest[OF ys, of "sz - length ?s" sz ?s] unfolding xs L oid_text_Cons[of x ys]
      by (simp add: oid_snprintf_at_def snprintf_text_def less_diff_conv add.commute)
  qed
qed

text \<open>Success means that the contents are an encoding.\<close>

lemma oid_loop_success:
  "oid_loop sz bs n acc w = (Inr k, w') \<Longrightarrow> \<exists>xs. base128_high (unat acc) @ bs = concat (map base128 xs) \<and> list_all (\<lambda>x. x < 2 ^ 32) xs"
proof (induction bs arbitrary: n acc w)
  case Nil
  then show ?case by (intro exI[of _ "[]"]) (simp add: base128_high.simps split: if_splits)
next
  case (Cons b bs)
  let ?v = "push_bit 7 acc OR ucast (b AND 0x7F)"
  have le: "acc \<le> drop_bit 7 0xFFFFFFFF" and nz: "\<not> (acc = 0 \<and> b = 0x80)"
    using Cons.prems by (auto simp: not_less[symmetric] split: if_splits)
  note u = append_digit[OF le, of b]
  have v: "unat ?v div 128 = unat acc" "unat ?v mod 128 = unat b mod 128" unfolding u by simp_all
  show ?case
  proof (cases "b AND 0x80 = 0")
    case True
    then obtain n2 w2 where "oid_loop sz bs n2 0 w2 = (Inr k, w')"
      using Cons.prems by (auto simp: Let_def split: if_splits)
    from Cons.IH[OF this] obtain xs where xs: "bs = concat (map base128 xs)" "list_all (\<lambda>x. x < 2 ^ 32) xs"
      by (auto simp: base128_high.simps)
    have "unat b < 128" using True by (simp only: top_bit_u8)
    then have "base128 (unat ?v) = base128_high (unat acc) @ [b]" by (simp add: base128_def v)
    moreover have "unat ?v < 2 ^ 32" using unsigned_less[of ?v, where ?'a = nat] by simp
    ultimately show ?thesis using xs by (intro exI[of _ "unat ?v # xs"]) simp
  next
    case False
    then have "oid_loop sz bs n ?v w = (Inr k, w')" using Cons.prems le nz by (simp add: not_less Let_def split: if_splits)
    from Cons.IH[OF this] obtain xs where xs: "base128_high (unat ?v) @ bs = concat (map base128 xs)" "list_all (\<lambda>x. x < 2 ^ 32) xs" by auto
    have b: "128 \<le> unat b" "unat b < 256" using False unsigned_less[of b, where ?'a = nat] by (simp_all add: top_bit_u8)
    have w: "word_of_nat (unat b) = b" by simp
    from b have c: "128 + unat b mod 128 = unat b" by (simp add: le_mod_geq)
    have e: "word_of_nat (128 + unat b mod 128) = b" unfolding c by (rule w)
    have "unat ?v \<noteq> 0"
    proof
      assume "unat ?v = 0"
      then have "unat acc = 0" "unat b mod 128 = 0" unfolding u by simp_all
      then have "acc = 0" "unat b = 128" using c by (simp_all add: unat_eq_0)
      then show False using nz w by simp
    qed
    then have "base128_high (unat ?v) = base128_high (unat acc) @ [b]"
      by (subst base128_high.simps) (simp only: v e if_False)
    then show ?thesis using xs by auto
  qed
qed

text \<open>
  C36.  The numeric text of an object identifier: the function succeeds exactly when the contents are the base-128
  encoding of one or more subidentifiers below \<open>2 ^ 32\<close> and their dotted text, the first one split into two
  components, fits the buffer with its terminator; it then has written this text and returns its length.
\<close>

theorem oid_numeric_string_iff:
  "mbedtls_oid_get_numeric_string sz oid = (Inr n, Some s) \<longleftrightarrow>
    sz < 2 ^ 31 \<and> (\<exists>xs. xs \<noteq> [] \<and> list_all (\<lambda>x. x < 2 ^ 32) xs \<and> asn1_p oid = concat (map base128 xs)
      \<and> s = oid_text xs \<and> n = length s \<and> n < sz)"
proof
  assume L: "mbedtls_oid_get_numeric_string sz oid = (Inr n, Some s)"
  then have z: "sz < 2 ^ 31" and ne: "asn1_p oid \<noteq> []" and l: "oid_loop sz (asn1_p oid) sz 0 None = (Inr n, Some s)"
    by (auto simp: mbedtls_oid_get_numeric_string_def split: if_splits)
  from oid_loop_success[OF l] obtain xs where xs: "asn1_p oid = concat (map base128 xs)" "list_all (\<lambda>x. x < 2 ^ 32) xs"
    by (auto simp: base128_high.simps)
  then have "xs \<noteq> []" using ne by auto
  then show "sz < 2 ^ 31 \<and> (\<exists>xs. xs \<noteq> [] \<and> list_all (\<lambda>x. x < 2 ^ 32) xs \<and> asn1_p oid = concat (map base128 xs)
      \<and> s = oid_text xs \<and> n = length s \<and> n < sz)"
    using z xs l oid_loop_all[OF xs(2)] by (auto simp: xs(1) split: if_splits)
next
  assume "sz < 2 ^ 31 \<and> (\<exists>xs. xs \<noteq> [] \<and> list_all (\<lambda>x. x < 2 ^ 32) xs \<and> asn1_p oid = concat (map base128 xs)
      \<and> s = oid_text xs \<and> n = length s \<and> n < sz)"
  then obtain xs where z: "sz < 2 ^ 31" and xs: "xs \<noteq> []" "list_all (\<lambda>x. x < 2 ^ 32) xs" "asn1_p oid = concat (map base128 xs)"
    and n: "s = oid_text xs" "n = length s" "n < sz" by blast
  have "asn1_p oid \<noteq> []" using xs by (cases xs) (simp_all add: base128_def)
  then show "mbedtls_oid_get_numeric_string sz oid = (Inr n, Some s)"
    using z xs n oid_loop_all[OF xs(2,1)] by (simp add: mbedtls_oid_get_numeric_string_def)
qed

end
