(* ===== verification/Oid.thy ===== *)
theory Oid
  imports Oid_Numeric
begin

text \<open>
  The database of object identifiers (\<open>lib/mbedtls/library/oid.c\<close>, \<open>include/mbedtls/oid.h\<close>) as the configuration of the devices
  compiles it: the byte strings of the header, the tables, and the functions that the macros \<open>FN_OID_\<dots>\<close> generate.
  Signature algorithms need RSA or ECDSA, which the configuration does not have, so that table is empty.  Every
  table ends with an entry without bytes; \<open>oid_table\<close> states what the lookups need of a table and is
  interpreted for each of them.
\<close>

section \<open>The byte strings\<close>

text \<open>The components, and the identifiers the tables use, in the order of the header.\<close>

definition MBEDTLS_OID_ISO_MEMBER_BODIES :: bytes where "MBEDTLS_OID_ISO_MEMBER_BODIES = [0x2A]"
definition MBEDTLS_OID_ISO_IDENTIFIED_ORG :: bytes where "MBEDTLS_OID_ISO_IDENTIFIED_ORG = [0x2B]"
definition MBEDTLS_OID_ISO_CCITT_DS :: bytes where "MBEDTLS_OID_ISO_CCITT_DS = [0x55]"
definition MBEDTLS_OID_ISO_ITU_COUNTRY :: bytes where "MBEDTLS_OID_ISO_ITU_COUNTRY = [0x60]"
definition MBEDTLS_OID_COUNTRY_US :: bytes where "MBEDTLS_OID_COUNTRY_US = [0x86, 0x48]"
definition MBEDTLS_OID_ORG_RSA_DATA_SECURITY :: bytes where "MBEDTLS_OID_ORG_RSA_DATA_SECURITY = [0x86, 0xF7, 0x0D]"
definition MBEDTLS_OID_RSA_COMPANY :: bytes where "MBEDTLS_OID_RSA_COMPANY = MBEDTLS_OID_ISO_MEMBER_BODIES @ MBEDTLS_OID_COUNTRY_US @ MBEDTLS_OID_ORG_RSA_DATA_SECURITY"
definition MBEDTLS_OID_ORG_ANSI_X9_62 :: bytes where "MBEDTLS_OID_ORG_ANSI_X9_62 = [0xCE, 0x3D]"
definition MBEDTLS_OID_ANSI_X9_62 :: bytes where "MBEDTLS_OID_ANSI_X9_62 = MBEDTLS_OID_ISO_MEMBER_BODIES @ MBEDTLS_OID_COUNTRY_US @ MBEDTLS_OID_ORG_ANSI_X9_62"
definition MBEDTLS_OID_ORG_DOD :: bytes where "MBEDTLS_OID_ORG_DOD = [0x06]"
definition MBEDTLS_OID_ORG_OIW :: bytes where "MBEDTLS_OID_ORG_OIW = [0x0E]"
definition MBEDTLS_OID_OIW_SECSIG :: bytes where "MBEDTLS_OID_OIW_SECSIG = MBEDTLS_OID_ORG_OIW @ [0x03]"
definition MBEDTLS_OID_OIW_SECSIG_ALG :: bytes where "MBEDTLS_OID_OIW_SECSIG_ALG = MBEDTLS_OID_OIW_SECSIG @ [0x02]"
definition MBEDTLS_OID_ORG_CERTICOM :: bytes where "MBEDTLS_OID_ORG_CERTICOM = [0x81, 0x04]"
definition MBEDTLS_OID_CERTICOM :: bytes where "MBEDTLS_OID_CERTICOM = MBEDTLS_OID_ISO_IDENTIFIED_ORG @ MBEDTLS_OID_ORG_CERTICOM"
definition MBEDTLS_OID_ORGANIZATION :: bytes where "MBEDTLS_OID_ORGANIZATION = [0x01]"
definition MBEDTLS_OID_ISO_ITU_US_ORG :: bytes where "MBEDTLS_OID_ISO_ITU_US_ORG = MBEDTLS_OID_ISO_ITU_COUNTRY @ MBEDTLS_OID_COUNTRY_US @ MBEDTLS_OID_ORGANIZATION"
definition MBEDTLS_OID_ORG_GOV :: bytes where "MBEDTLS_OID_ORG_GOV = [0x65]"
definition MBEDTLS_OID_GOV :: bytes where "MBEDTLS_OID_GOV = MBEDTLS_OID_ISO_ITU_US_ORG @ MBEDTLS_OID_ORG_GOV"
definition MBEDTLS_OID_ORG_NETSCAPE :: bytes where "MBEDTLS_OID_ORG_NETSCAPE = [0x86, 0xF8, 0x42]"
definition MBEDTLS_OID_NETSCAPE :: bytes where "MBEDTLS_OID_NETSCAPE = MBEDTLS_OID_ISO_ITU_US_ORG @ MBEDTLS_OID_ORG_NETSCAPE"
definition MBEDTLS_OID_ID_CE :: bytes where "MBEDTLS_OID_ID_CE = MBEDTLS_OID_ISO_CCITT_DS @ [0x1D]"
definition MBEDTLS_OID_NIST_ALG :: bytes where "MBEDTLS_OID_NIST_ALG = MBEDTLS_OID_GOV @ [0x03, 0x04]"
definition MBEDTLS_OID_INTERNET :: bytes where "MBEDTLS_OID_INTERNET = MBEDTLS_OID_ISO_IDENTIFIED_ORG @ MBEDTLS_OID_ORG_DOD @ [0x01]"
definition MBEDTLS_OID_PKIX :: bytes where "MBEDTLS_OID_PKIX = MBEDTLS_OID_INTERNET @ [0x05, 0x05, 0x07]"
definition MBEDTLS_OID_AT :: bytes where "MBEDTLS_OID_AT = MBEDTLS_OID_ISO_CCITT_DS @ [0x04]"
definition MBEDTLS_OID_AT_CN :: bytes where "MBEDTLS_OID_AT_CN = MBEDTLS_OID_AT @ [0x03]"
definition MBEDTLS_OID_AT_SUR_NAME :: bytes where "MBEDTLS_OID_AT_SUR_NAME = MBEDTLS_OID_AT @ [0x04]"
definition MBEDTLS_OID_AT_SERIAL_NUMBER :: bytes where "MBEDTLS_OID_AT_SERIAL_NUMBER = MBEDTLS_OID_AT @ [0x05]"
definition MBEDTLS_OID_AT_COUNTRY :: bytes where "MBEDTLS_OID_AT_COUNTRY = MBEDTLS_OID_AT @ [0x06]"
definition MBEDTLS_OID_AT_LOCALITY :: bytes where "MBEDTLS_OID_AT_LOCALITY = MBEDTLS_OID_AT @ [0x07]"
definition MBEDTLS_OID_AT_STATE :: bytes where "MBEDTLS_OID_AT_STATE = MBEDTLS_OID_AT @ [0x08]"
definition MBEDTLS_OID_AT_ORGANIZATION :: bytes where "MBEDTLS_OID_AT_ORGANIZATION = MBEDTLS_OID_AT @ [0x0A]"
definition MBEDTLS_OID_AT_ORG_UNIT :: bytes where "MBEDTLS_OID_AT_ORG_UNIT = MBEDTLS_OID_AT @ [0x0B]"
definition MBEDTLS_OID_AT_TITLE :: bytes where "MBEDTLS_OID_AT_TITLE = MBEDTLS_OID_AT @ [0x0C]"
definition MBEDTLS_OID_AT_POSTAL_ADDRESS :: bytes where "MBEDTLS_OID_AT_POSTAL_ADDRESS = MBEDTLS_OID_AT @ [0x10]"
definition MBEDTLS_OID_AT_POSTAL_CODE :: bytes where "MBEDTLS_OID_AT_POSTAL_CODE = MBEDTLS_OID_AT @ [0x11]"
definition MBEDTLS_OID_AT_GIVEN_NAME :: bytes where "MBEDTLS_OID_AT_GIVEN_NAME = MBEDTLS_OID_AT @ [0x2A]"
definition MBEDTLS_OID_AT_INITIALS :: bytes where "MBEDTLS_OID_AT_INITIALS = MBEDTLS_OID_AT @ [0x2B]"
definition MBEDTLS_OID_AT_GENERATION_QUALIFIER :: bytes where "MBEDTLS_OID_AT_GENERATION_QUALIFIER = MBEDTLS_OID_AT @ [0x2C]"
definition MBEDTLS_OID_AT_UNIQUE_IDENTIFIER :: bytes where "MBEDTLS_OID_AT_UNIQUE_IDENTIFIER = MBEDTLS_OID_AT @ [0x2D]"
definition MBEDTLS_OID_AT_DN_QUALIFIER :: bytes where "MBEDTLS_OID_AT_DN_QUALIFIER = MBEDTLS_OID_AT @ [0x2E]"
definition MBEDTLS_OID_AT_PSEUDONYM :: bytes where "MBEDTLS_OID_AT_PSEUDONYM = MBEDTLS_OID_AT @ [0x41]"
definition MBEDTLS_OID_DOMAIN_COMPONENT :: bytes where "MBEDTLS_OID_DOMAIN_COMPONENT = [0x09, 0x92, 0x26, 0x89, 0x93, 0xF2, 0x2C, 0x64, 0x01, 0x19]"
definition MBEDTLS_OID_KEY_USAGE :: bytes where "MBEDTLS_OID_KEY_USAGE = MBEDTLS_OID_ID_CE @ [0x0F]"
definition MBEDTLS_OID_CERTIFICATE_POLICIES :: bytes where "MBEDTLS_OID_CERTIFICATE_POLICIES = MBEDTLS_OID_ID_CE @ [0x20]"
definition MBEDTLS_OID_SUBJECT_ALT_NAME :: bytes where "MBEDTLS_OID_SUBJECT_ALT_NAME = MBEDTLS_OID_ID_CE @ [0x11]"
definition MBEDTLS_OID_BASIC_CONSTRAINTS :: bytes where "MBEDTLS_OID_BASIC_CONSTRAINTS = MBEDTLS_OID_ID_CE @ [0x13]"
definition MBEDTLS_OID_EXTENDED_KEY_USAGE :: bytes where "MBEDTLS_OID_EXTENDED_KEY_USAGE = MBEDTLS_OID_ID_CE @ [0x25]"
definition MBEDTLS_OID_ANY_POLICY :: bytes where "MBEDTLS_OID_ANY_POLICY = MBEDTLS_OID_CERTIFICATE_POLICIES @ [0x00]"
definition MBEDTLS_OID_NS_CERT :: bytes where "MBEDTLS_OID_NS_CERT = MBEDTLS_OID_NETSCAPE @ [0x01]"
definition MBEDTLS_OID_NS_CERT_TYPE :: bytes where "MBEDTLS_OID_NS_CERT_TYPE = MBEDTLS_OID_NS_CERT @ [0x01]"
definition MBEDTLS_OID_KP :: bytes where "MBEDTLS_OID_KP = MBEDTLS_OID_PKIX @ [0x03]"
definition MBEDTLS_OID_SERVER_AUTH :: bytes where "MBEDTLS_OID_SERVER_AUTH = MBEDTLS_OID_KP @ [0x01]"
definition MBEDTLS_OID_CLIENT_AUTH :: bytes where "MBEDTLS_OID_CLIENT_AUTH = MBEDTLS_OID_KP @ [0x02]"
definition MBEDTLS_OID_CODE_SIGNING :: bytes where "MBEDTLS_OID_CODE_SIGNING = MBEDTLS_OID_KP @ [0x03]"
definition MBEDTLS_OID_EMAIL_PROTECTION :: bytes where "MBEDTLS_OID_EMAIL_PROTECTION = MBEDTLS_OID_KP @ [0x04]"
definition MBEDTLS_OID_TIME_STAMPING :: bytes where "MBEDTLS_OID_TIME_STAMPING = MBEDTLS_OID_KP @ [0x08]"
definition MBEDTLS_OID_OCSP_SIGNING :: bytes where "MBEDTLS_OID_OCSP_SIGNING = MBEDTLS_OID_KP @ [0x09]"
definition MBEDTLS_OID_WISUN_FAN :: bytes where "MBEDTLS_OID_WISUN_FAN = MBEDTLS_OID_INTERNET @ [0x04, 0x01, 0x82, 0xE4, 0x25, 0x01]"
definition MBEDTLS_OID_PKCS :: bytes where "MBEDTLS_OID_PKCS = MBEDTLS_OID_RSA_COMPANY @ [0x01]"
definition MBEDTLS_OID_PKCS1 :: bytes where "MBEDTLS_OID_PKCS1 = MBEDTLS_OID_PKCS @ [0x01]"
definition MBEDTLS_OID_PKCS9 :: bytes where "MBEDTLS_OID_PKCS9 = MBEDTLS_OID_PKCS @ [0x09]"
definition MBEDTLS_OID_PKCS1_RSA :: bytes where "MBEDTLS_OID_PKCS1_RSA = MBEDTLS_OID_PKCS1 @ [0x01]"
definition MBEDTLS_OID_PKCS9_EMAIL :: bytes where "MBEDTLS_OID_PKCS9_EMAIL = MBEDTLS_OID_PKCS9 @ [0x01]"
definition MBEDTLS_OID_DIGEST_ALG_SHA224 :: bytes where "MBEDTLS_OID_DIGEST_ALG_SHA224 = MBEDTLS_OID_NIST_ALG @ [0x02, 0x04]"
definition MBEDTLS_OID_DIGEST_ALG_SHA256 :: bytes where "MBEDTLS_OID_DIGEST_ALG_SHA256 = MBEDTLS_OID_NIST_ALG @ [0x02, 0x01]"
definition MBEDTLS_OID_HMAC_SHA224 :: bytes where "MBEDTLS_OID_HMAC_SHA224 = MBEDTLS_OID_RSA_COMPANY @ [0x02, 0x08]"
definition MBEDTLS_OID_HMAC_SHA256 :: bytes where "MBEDTLS_OID_HMAC_SHA256 = MBEDTLS_OID_RSA_COMPANY @ [0x02, 0x09]"
definition MBEDTLS_OID_DES_CBC :: bytes where "MBEDTLS_OID_DES_CBC = MBEDTLS_OID_ISO_IDENTIFIED_ORG @ MBEDTLS_OID_OIW_SECSIG_ALG @ [0x07]"
definition MBEDTLS_OID_DES_EDE3_CBC :: bytes where "MBEDTLS_OID_DES_EDE3_CBC = MBEDTLS_OID_RSA_COMPANY @ [0x03, 0x07]"
definition MBEDTLS_OID_EC_ALG_UNRESTRICTED :: bytes where "MBEDTLS_OID_EC_ALG_UNRESTRICTED = MBEDTLS_OID_ANSI_X9_62 @ [0x02, 0x01]"
definition MBEDTLS_OID_EC_ALG_ECDH :: bytes where "MBEDTLS_OID_EC_ALG_ECDH = MBEDTLS_OID_CERTICOM @ [0x01, 0x0C]"

section \<open>Descriptors and lookups\<close>

record mbedtls_oid_descriptor_t =
  od_asn1 :: "bytes option"
  od_name :: "string option"
  od_description :: "string option"

definition add_len :: "bytes \<Rightarrow> string \<Rightarrow> string \<Rightarrow> mbedtls_oid_descriptor_t" where
  "add_len s name desc = \<lparr>od_asn1 = Some s, od_name = Some name, od_description = Some desc\<rparr>"

definition oid_end :: mbedtls_oid_descriptor_t where
  "oid_end = \<lparr>od_asn1 = None, od_name = None, od_description = None\<rparr>"

text \<open>The loop of \<open>FN_OID_TYPED_FROM_ASN1\<close>; equal lengths and equal bytes are equal lists.\<close>

fun from_asn1_loop :: "('t \<Rightarrow> mbedtls_oid_descriptor_t) \<Rightarrow> 't list \<Rightarrow> bytes \<Rightarrow> 't option" where
  "from_asn1_loop desc [] oid = None"
| "from_asn1_loop desc (p # ps) oid =
    (case od_asn1 (desc p) of None \<Rightarrow> None
     | Some asn1 \<Rightarrow> if length asn1 = length oid \<and> asn1 = oid then Some p else from_asn1_loop desc ps oid)"

definition FN_OID_TYPED_FROM_ASN1 :: "('t \<Rightarrow> mbedtls_oid_descriptor_t) \<Rightarrow> 't list \<Rightarrow> mbedtls_asn1_buf option \<Rightarrow> 't option" where
  "FN_OID_TYPED_FROM_ASN1 desc tbl oid = (case oid of None \<Rightarrow> None | Some oid \<Rightarrow> from_asn1_loop desc tbl (asn1_p oid))"

definition FN_OID_GET_ATTR1 :: "('t \<Rightarrow> mbedtls_oid_descriptor_t) \<Rightarrow> 't list \<Rightarrow> ('t \<Rightarrow> 'a) \<Rightarrow> mbedtls_asn1_buf option \<Rightarrow> oid_error + 'a" where
  "FN_OID_GET_ATTR1 desc tbl attr1 oid =
    (case FN_OID_TYPED_FROM_ASN1 desc tbl oid of None \<Rightarrow> Inl MBEDTLS_ERR_OID_NOT_FOUND | Some p \<Rightarrow> Inr (attr1 p))"

definition FN_OID_GET_DESCRIPTOR_ATTR1 ::
  "('t \<Rightarrow> mbedtls_oid_descriptor_t) \<Rightarrow> 't list \<Rightarrow> (mbedtls_oid_descriptor_t \<Rightarrow> 'a) \<Rightarrow> mbedtls_asn1_buf option \<Rightarrow> oid_error + 'a" where
  "FN_OID_GET_DESCRIPTOR_ATTR1 desc tbl attr1 oid =
    (case FN_OID_TYPED_FROM_ASN1 desc tbl oid of None \<Rightarrow> Inl MBEDTLS_ERR_OID_NOT_FOUND | Some p \<Rightarrow> Inr (attr1 (desc p)))"

definition FN_OID_GET_ATTR2 ::
  "('t \<Rightarrow> mbedtls_oid_descriptor_t) \<Rightarrow> 't list \<Rightarrow> ('t \<Rightarrow> 'a) \<Rightarrow> ('t \<Rightarrow> 'b) \<Rightarrow> mbedtls_asn1_buf option \<Rightarrow> oid_error + 'a \<times> 'b" where
  "FN_OID_GET_ATTR2 desc tbl attr1 attr2 oid =
    (case FN_OID_TYPED_FROM_ASN1 desc tbl oid of None \<Rightarrow> Inl MBEDTLS_ERR_OID_NOT_FOUND | Some p \<Rightarrow> Inr (attr1 p, attr2 p))"

fun FN_OID_GET_OID_BY_ATTR1 :: "('t \<Rightarrow> mbedtls_oid_descriptor_t) \<Rightarrow> 't list \<Rightarrow> ('t \<Rightarrow> 'a) \<Rightarrow> 'a \<Rightarrow> oid_error + bytes" where
  "FN_OID_GET_OID_BY_ATTR1 desc [] attr1 a = Inl MBEDTLS_ERR_OID_NOT_FOUND"
| "FN_OID_GET_OID_BY_ATTR1 desc (p # ps) attr1 a =
    (case od_asn1 (desc p) of None \<Rightarrow> Inl MBEDTLS_ERR_OID_NOT_FOUND
     | Some asn1 \<Rightarrow> if attr1 p = a then Inr asn1 else FN_OID_GET_OID_BY_ATTR1 desc ps attr1 a)"

fun FN_OID_GET_OID_BY_ATTR2 :: "('t \<Rightarrow> mbedtls_oid_descriptor_t) \<Rightarrow> 't list \<Rightarrow> ('t \<Rightarrow> 'a) \<Rightarrow> ('t \<Rightarrow> 'b) \<Rightarrow> 'a \<Rightarrow> 'b \<Rightarrow> oid_error + bytes" where
  "FN_OID_GET_OID_BY_ATTR2 desc [] attr1 attr2 a b = Inl MBEDTLS_ERR_OID_NOT_FOUND"
| "FN_OID_GET_OID_BY_ATTR2 desc (p # ps) attr1 attr2 a b =
    (case od_asn1 (desc p) of None \<Rightarrow> Inl MBEDTLS_ERR_OID_NOT_FOUND
     | Some asn1 \<Rightarrow> if attr1 p = a \<and> attr2 p = b then Inr asn1 else FN_OID_GET_OID_BY_ATTR2 desc ps attr1 attr2 a b)"

section \<open>The tables and their functions\<close>

text \<open>Attributes of distinguished names.\<close>

record oid_x520_attr_t =
  x520_descriptor :: mbedtls_oid_descriptor_t
  x520_short_name :: "string option"

definition oid_x520_attr_type :: "oid_x520_attr_t list" where
  "oid_x520_attr_type =
    [\<lparr>x520_descriptor = add_len MBEDTLS_OID_AT_CN ''id-at-commonName'' ''Common Name'', x520_short_name = Some ''CN''\<rparr>,
     \<lparr>x520_descriptor = add_len MBEDTLS_OID_AT_COUNTRY ''id-at-countryName'' ''Country'', x520_short_name = Some ''C''\<rparr>,
     \<lparr>x520_descriptor = add_len MBEDTLS_OID_AT_LOCALITY ''id-at-locality'' ''Locality'', x520_short_name = Some ''L''\<rparr>,
     \<lparr>x520_descriptor = add_len MBEDTLS_OID_AT_STATE ''id-at-state'' ''State'', x520_short_name = Some ''ST''\<rparr>,
     \<lparr>x520_descriptor = add_len MBEDTLS_OID_AT_ORGANIZATION ''id-at-organizationName'' ''Organization'', x520_short_name = Some ''O''\<rparr>,
     \<lparr>x520_descriptor = add_len MBEDTLS_OID_AT_ORG_UNIT ''id-at-organizationalUnitName'' ''Org Unit'', x520_short_name = Some ''OU''\<rparr>,
     \<lparr>x520_descriptor = add_len MBEDTLS_OID_PKCS9_EMAIL ''emailAddress'' ''E-mail address'', x520_short_name = Some ''emailAddress''\<rparr>,
     \<lparr>x520_descriptor = add_len MBEDTLS_OID_AT_SERIAL_NUMBER ''id-at-serialNumber'' ''Serial number'', x520_short_name = Some ''serialNumber''\<rparr>,
     \<lparr>x520_descriptor = add_len MBEDTLS_OID_AT_POSTAL_ADDRESS ''id-at-postalAddress'' ''Postal address'', x520_short_name = Some ''postalAddress''\<rparr>,
     \<lparr>x520_descriptor = add_len MBEDTLS_OID_AT_POSTAL_CODE ''id-at-postalCode'' ''Postal code'', x520_short_name = Some ''postalCode''\<rparr>,
     \<lparr>x520_descriptor = add_len MBEDTLS_OID_AT_SUR_NAME ''id-at-surName'' ''Surname'', x520_short_name = Some ''SN''\<rparr>,
     \<lparr>x520_descriptor = add_len MBEDTLS_OID_AT_GIVEN_NAME ''id-at-givenName'' ''Given name'', x520_short_name = Some ''GN''\<rparr>,
     \<lparr>x520_descriptor = add_len MBEDTLS_OID_AT_INITIALS ''id-at-initials'' ''Initials'', x520_short_name = Some ''initials''\<rparr>,
     \<lparr>x520_descriptor = add_len MBEDTLS_OID_AT_GENERATION_QUALIFIER ''id-at-generationQualifier'' ''Generation qualifier'', x520_short_name = Some ''generationQualifier''\<rparr>,
     \<lparr>x520_descriptor = add_len MBEDTLS_OID_AT_TITLE ''id-at-title'' ''Title'', x520_short_name = Some ''title''\<rparr>,
     \<lparr>x520_descriptor = add_len MBEDTLS_OID_AT_DN_QUALIFIER ''id-at-dnQualifier'' ''Distinguished Name qualifier'', x520_short_name = Some ''dnQualifier''\<rparr>,
     \<lparr>x520_descriptor = add_len MBEDTLS_OID_AT_PSEUDONYM ''id-at-pseudonym'' ''Pseudonym'', x520_short_name = Some ''pseudonym''\<rparr>,
     \<lparr>x520_descriptor = add_len MBEDTLS_OID_DOMAIN_COMPONENT ''id-domainComponent'' ''Domain component'', x520_short_name = Some ''DC''\<rparr>,
     \<lparr>x520_descriptor = add_len MBEDTLS_OID_AT_UNIQUE_IDENTIFIER ''id-at-uniqueIdentifier'' ''Unique Identifier'', x520_short_name = Some ''uniqueIdentifier''\<rparr>,
     \<lparr>x520_descriptor = oid_end, x520_short_name = None\<rparr>]"

definition mbedtls_oid_get_attr_short_name :: "mbedtls_asn1_buf option \<Rightarrow> oid_error + string option" where
  "mbedtls_oid_get_attr_short_name = FN_OID_GET_ATTR1 x520_descriptor oid_x520_attr_type x520_short_name"

text \<open>Certificate extensions.\<close>

definition MBEDTLS_OID_X509_EXT_BASIC_CONSTRAINTS :: int where "MBEDTLS_OID_X509_EXT_BASIC_CONSTRAINTS = push_bit 8 1"
definition MBEDTLS_OID_X509_EXT_KEY_USAGE :: int where "MBEDTLS_OID_X509_EXT_KEY_USAGE = push_bit 2 1"
definition MBEDTLS_OID_X509_EXT_EXTENDED_KEY_USAGE :: int where "MBEDTLS_OID_X509_EXT_EXTENDED_KEY_USAGE = push_bit 11 1"
definition MBEDTLS_OID_X509_EXT_SUBJECT_ALT_NAME :: int where "MBEDTLS_OID_X509_EXT_SUBJECT_ALT_NAME = push_bit 5 1"
definition MBEDTLS_OID_X509_EXT_NS_CERT_TYPE :: int where "MBEDTLS_OID_X509_EXT_NS_CERT_TYPE = push_bit 16 1"
definition MBEDTLS_OID_X509_EXT_CERTIFICATE_POLICIES :: int where "MBEDTLS_OID_X509_EXT_CERTIFICATE_POLICIES = push_bit 3 1"

record oid_x509_ext_t =
  ext_descriptor :: mbedtls_oid_descriptor_t
  ext_type :: int

definition oid_x509_ext :: "oid_x509_ext_t list" where
  "oid_x509_ext =
    [\<lparr>ext_descriptor = add_len MBEDTLS_OID_BASIC_CONSTRAINTS ''id-ce-basicConstraints'' ''Basic Constraints'', ext_type = MBEDTLS_OID_X509_EXT_BASIC_CONSTRAINTS\<rparr>,
     \<lparr>ext_descriptor = add_len MBEDTLS_OID_KEY_USAGE ''id-ce-keyUsage'' ''Key Usage'', ext_type = MBEDTLS_OID_X509_EXT_KEY_USAGE\<rparr>,
     \<lparr>ext_descriptor = add_len MBEDTLS_OID_EXTENDED_KEY_USAGE ''id-ce-extKeyUsage'' ''Extended Key Usage'', ext_type = MBEDTLS_OID_X509_EXT_EXTENDED_KEY_USAGE\<rparr>,
     \<lparr>ext_descriptor = add_len MBEDTLS_OID_SUBJECT_ALT_NAME ''id-ce-subjectAltName'' ''Subject Alt Name'', ext_type = MBEDTLS_OID_X509_EXT_SUBJECT_ALT_NAME\<rparr>,
     \<lparr>ext_descriptor = add_len MBEDTLS_OID_NS_CERT_TYPE ''id-netscape-certtype'' ''Netscape Certificate Type'', ext_type = MBEDTLS_OID_X509_EXT_NS_CERT_TYPE\<rparr>,
     \<lparr>ext_descriptor = add_len MBEDTLS_OID_CERTIFICATE_POLICIES ''id-ce-certificatePolicies'' ''Certificate Policies'', ext_type = MBEDTLS_OID_X509_EXT_CERTIFICATE_POLICIES\<rparr>,
     \<lparr>ext_descriptor = oid_end, ext_type = 0\<rparr>]"

definition mbedtls_oid_get_x509_ext_type :: "mbedtls_asn1_buf option \<Rightarrow> oid_error + int" where
  "mbedtls_oid_get_x509_ext_type = FN_OID_GET_ATTR1 ext_descriptor oid_x509_ext ext_type"

definition oid_ext_key_usage :: "mbedtls_oid_descriptor_t list" where
  "oid_ext_key_usage =
    [add_len MBEDTLS_OID_SERVER_AUTH ''id-kp-serverAuth'' ''TLS Web Server Authentication'',
     add_len MBEDTLS_OID_CLIENT_AUTH ''id-kp-clientAuth'' ''TLS Web Client Authentication'',
     add_len MBEDTLS_OID_CODE_SIGNING ''id-kp-codeSigning'' ''Code Signing'',
     add_len MBEDTLS_OID_EMAIL_PROTECTION ''id-kp-emailProtection'' ''E-mail Protection'',
     add_len MBEDTLS_OID_TIME_STAMPING ''id-kp-timeStamping'' ''Time Stamping'',
     add_len MBEDTLS_OID_OCSP_SIGNING ''id-kp-OCSPSigning'' ''OCSP Signing'',
     add_len MBEDTLS_OID_WISUN_FAN ''id-kp-wisun-fan-device'' ''Wi-SUN Alliance Field Area Network (FAN)'',
     oid_end]"

definition mbedtls_oid_get_extended_key_usage :: "mbedtls_asn1_buf option \<Rightarrow> oid_error + string option" where
  "mbedtls_oid_get_extended_key_usage = FN_OID_GET_ATTR1 (\<lambda>d. d) oid_ext_key_usage od_description"

definition oid_certificate_policies :: "mbedtls_oid_descriptor_t list" where
  "oid_certificate_policies =
    [add_len MBEDTLS_OID_ANY_POLICY ''anyPolicy'' ''Any Policy'',
     oid_end]"

definition mbedtls_oid_get_certificate_policies :: "mbedtls_asn1_buf option \<Rightarrow> oid_error + string option" where
  "mbedtls_oid_get_certificate_policies = FN_OID_GET_ATTR1 (\<lambda>d. d) oid_certificate_policies od_description"

text \<open>Public keys, ciphers and digests.  The cipher types are the positions in the enumeration of \<open>cipher.h\<close>.\<close>

datatype mbedtls_pk_type_t = MBEDTLS_PK_NONE | MBEDTLS_PK_RSA | MBEDTLS_PK_ECKEY | MBEDTLS_PK_ECKEY_DH
  | MBEDTLS_PK_ECDSA | MBEDTLS_PK_RSA_ALT | MBEDTLS_PK_RSASSA_PSS | MBEDTLS_PK_OPAQUE

datatype mbedtls_md_type_t = MBEDTLS_MD_NONE | MBEDTLS_MD_MD2 | MBEDTLS_MD_MD4 | MBEDTLS_MD_MD5 | MBEDTLS_MD_SHA1
  | MBEDTLS_MD_SHA224 | MBEDTLS_MD_SHA256 | MBEDTLS_MD_SHA384 | MBEDTLS_MD_SHA512 | MBEDTLS_MD_RIPEMD160

record oid_sig_alg_t =
  sig_descriptor :: mbedtls_oid_descriptor_t
  sig_md_alg :: mbedtls_md_type_t
  sig_pk_alg :: mbedtls_pk_type_t

definition oid_sig_alg :: "oid_sig_alg_t list" where
  "oid_sig_alg = [\<lparr>sig_descriptor = oid_end, sig_md_alg = MBEDTLS_MD_NONE, sig_pk_alg = MBEDTLS_PK_NONE\<rparr>]"

definition mbedtls_oid_get_sig_alg_desc :: "mbedtls_asn1_buf option \<Rightarrow> oid_error + string option" where
  "mbedtls_oid_get_sig_alg_desc = FN_OID_GET_DESCRIPTOR_ATTR1 sig_descriptor oid_sig_alg od_description"

definition mbedtls_oid_get_sig_alg :: "mbedtls_asn1_buf option \<Rightarrow> oid_error + mbedtls_md_type_t \<times> mbedtls_pk_type_t" where
  "mbedtls_oid_get_sig_alg = FN_OID_GET_ATTR2 sig_descriptor oid_sig_alg sig_md_alg sig_pk_alg"

definition mbedtls_oid_get_oid_by_sig_alg :: "mbedtls_pk_type_t \<Rightarrow> mbedtls_md_type_t \<Rightarrow> oid_error + bytes" where
  "mbedtls_oid_get_oid_by_sig_alg = FN_OID_GET_OID_BY_ATTR2 sig_descriptor oid_sig_alg sig_pk_alg sig_md_alg"

record oid_pk_alg_t =
  pk_descriptor :: mbedtls_oid_descriptor_t
  pk_pk_alg :: mbedtls_pk_type_t

definition oid_pk_alg :: "oid_pk_alg_t list" where
  "oid_pk_alg =
    [\<lparr>pk_descriptor = add_len MBEDTLS_OID_PKCS1_RSA ''rsaEncryption'' ''RSA'', pk_pk_alg = MBEDTLS_PK_RSA\<rparr>,
     \<lparr>pk_descriptor = add_len MBEDTLS_OID_EC_ALG_UNRESTRICTED ''id-ecPublicKey'' ''Generic EC key'', pk_pk_alg = MBEDTLS_PK_ECKEY\<rparr>,
     \<lparr>pk_descriptor = add_len MBEDTLS_OID_EC_ALG_ECDH ''id-ecDH'' ''EC key for ECDH'', pk_pk_alg = MBEDTLS_PK_ECKEY_DH\<rparr>,
     \<lparr>pk_descriptor = oid_end, pk_pk_alg = MBEDTLS_PK_NONE\<rparr>]"

definition mbedtls_oid_get_pk_alg :: "mbedtls_asn1_buf option \<Rightarrow> oid_error + mbedtls_pk_type_t" where
  "mbedtls_oid_get_pk_alg = FN_OID_GET_ATTR1 pk_descriptor oid_pk_alg pk_pk_alg"

definition mbedtls_oid_get_oid_by_pk_alg :: "mbedtls_pk_type_t \<Rightarrow> oid_error + bytes" where
  "mbedtls_oid_get_oid_by_pk_alg = FN_OID_GET_OID_BY_ATTR1 pk_descriptor oid_pk_alg pk_pk_alg"

definition cipher_none :: nat where "cipher_none = 0"
definition cipher_des_cbc :: nat where "cipher_des_cbc = 33"
definition cipher_des_ede3_cbc :: nat where "cipher_des_ede3_cbc = 37"

record oid_cipher_alg_t =
  cipher_descriptor :: mbedtls_oid_descriptor_t
  cipher_cipher_alg :: nat

definition oid_cipher_alg :: "oid_cipher_alg_t list" where
  "oid_cipher_alg =
    [\<lparr>cipher_descriptor = add_len MBEDTLS_OID_DES_CBC ''desCBC'' ''DES-CBC'', cipher_cipher_alg = cipher_des_cbc\<rparr>,
     \<lparr>cipher_descriptor = add_len MBEDTLS_OID_DES_EDE3_CBC ''des-ede3-cbc'' ''DES-EDE3-CBC'', cipher_cipher_alg = cipher_des_ede3_cbc\<rparr>,
     \<lparr>cipher_descriptor = oid_end, cipher_cipher_alg = cipher_none\<rparr>]"

definition mbedtls_oid_get_cipher_alg :: "mbedtls_asn1_buf option \<Rightarrow> oid_error + nat" where
  "mbedtls_oid_get_cipher_alg = FN_OID_GET_ATTR1 cipher_descriptor oid_cipher_alg cipher_cipher_alg"

record oid_md_alg_t =
  md_alg_descriptor :: mbedtls_oid_descriptor_t
  md_alg_md :: mbedtls_md_type_t

definition oid_md_alg :: "oid_md_alg_t list" where
  "oid_md_alg =
    [\<lparr>md_alg_descriptor = add_len MBEDTLS_OID_DIGEST_ALG_SHA224 ''id-sha224'' ''SHA-224'', md_alg_md = MBEDTLS_MD_SHA224\<rparr>,
     \<lparr>md_alg_descriptor = add_len MBEDTLS_OID_DIGEST_ALG_SHA256 ''id-sha256'' ''SHA-256'', md_alg_md = MBEDTLS_MD_SHA256\<rparr>,
     \<lparr>md_alg_descriptor = oid_end, md_alg_md = MBEDTLS_MD_NONE\<rparr>]"

definition mbedtls_oid_get_md_alg :: "mbedtls_asn1_buf option \<Rightarrow> oid_error + mbedtls_md_type_t" where
  "mbedtls_oid_get_md_alg = FN_OID_GET_ATTR1 md_alg_descriptor oid_md_alg md_alg_md"

definition mbedtls_oid_get_oid_by_md :: "mbedtls_md_type_t \<Rightarrow> oid_error + bytes" where
  "mbedtls_oid_get_oid_by_md = FN_OID_GET_OID_BY_ATTR1 md_alg_descriptor oid_md_alg md_alg_md"

record oid_md_hmac_t =
  md_hmac_descriptor :: mbedtls_oid_descriptor_t
  md_hmac_md :: mbedtls_md_type_t

definition oid_md_hmac :: "oid_md_hmac_t list" where
  "oid_md_hmac =
    [\<lparr>md_hmac_descriptor = add_len MBEDTLS_OID_HMAC_SHA224 ''hmacSHA224'' ''HMAC-SHA-224'', md_hmac_md = MBEDTLS_MD_SHA224\<rparr>,
     \<lparr>md_hmac_descriptor = add_len MBEDTLS_OID_HMAC_SHA256 ''hmacSHA256'' ''HMAC-SHA-256'', md_hmac_md = MBEDTLS_MD_SHA256\<rparr>,
     \<lparr>md_hmac_descriptor = oid_end, md_hmac_md = MBEDTLS_MD_NONE\<rparr>]"

definition mbedtls_oid_get_md_hmac :: "mbedtls_asn1_buf option \<Rightarrow> oid_error + mbedtls_md_type_t" where
  "mbedtls_oid_get_md_hmac = FN_OID_GET_ATTR1 md_hmac_descriptor oid_md_hmac md_hmac_md"

section \<open>Lookups in a table\<close>

locale oid_table =
  fixes desc :: "'t \<Rightarrow> mbedtls_oid_descriptor_t" and tbl :: "'t list"
  assumes last_end: "tbl \<noteq> [] \<and> od_asn1 (desc (last tbl)) = None"
    and before_end: "list_all (\<lambda>e. od_asn1 (desc e) \<noteq> None) (butlast tbl)"
    and distinct_asn1: "distinct (map (od_asn1 \<circ> desc) tbl)"
begin

lemma from_asn1:
  "FN_OID_TYPED_FROM_ASN1 desc tbl (Some oid) = Some e \<longleftrightarrow> e \<in> set tbl \<and> od_asn1 (desc e) = Some (asn1_p oid)"
proof -
  obtain es z where tbl: "tbl = es @ [z]" and z: "od_asn1 (desc z) = None" using last_end by (cases tbl rule: rev_cases) auto
  have "list_all (\<lambda>e. od_asn1 (desc e) \<noteq> None) es" "distinct (map (od_asn1 \<circ> desc) es)"
    using before_end distinct_asn1 by (simp_all add: tbl)
  then have "from_asn1_loop desc (es @ [z]) b = Some e \<longleftrightarrow> e \<in> set es \<and> od_asn1 (desc e) = Some b" for b
  proof (induction es)
    case (Cons x es)
    obtain a where a: "od_asn1 (desc x) = Some a" using Cons.prems(1) by auto
    have "od_asn1 (desc e) \<noteq> Some a" if "e \<in> set es"
    proof
      assume "od_asn1 (desc e) = Some a"
      then have "(od_asn1 \<circ> desc) x = (od_asn1 \<circ> desc) e" using a by simp
      then show False using Cons.prems(2) that by (metis distinct.simps(2) image_eqI list.simps(9) list.set_map)
    qed
    then show ?case using Cons a by auto
  qed (simp add: z)
  then show ?thesis using z by (auto simp: FN_OID_TYPED_FROM_ASN1_def tbl)
qed

lemma get_attr:
  "FN_OID_GET_ATTR1 desc tbl f (Some oid) = Inr a \<longleftrightarrow> (\<exists>e \<in> set tbl. od_asn1 (desc e) = Some (asn1_p oid) \<and> f e = a)"
proof (cases "FN_OID_TYPED_FROM_ASN1 desc tbl (Some oid)")
  case None
  then have "\<not> (e \<in> set tbl \<and> od_asn1 (desc e) = Some (asn1_p oid))" for e using from_asn1[of oid e] by simp
  then show ?thesis using None by (auto simp: FN_OID_GET_ATTR1_def)
next
  case (Some p)
  then have "(e \<in> set tbl \<and> od_asn1 (desc e) = Some (asn1_p oid)) = (e = p)" for e using from_asn1[of oid e] by auto
  then have "(\<exists>e \<in> set tbl. od_asn1 (desc e) = Some (asn1_p oid) \<and> f e = a) \<longleftrightarrow> f p = a" unfolding Bex_def by (simp flip: conj_assoc)
  then show ?thesis using Some by (simp add: FN_OID_GET_ATTR1_def)
qed

text \<open>What the search by attribute finds, the search by bytes maps back.\<close>

lemma by_attr:
  assumes "FN_OID_GET_OID_BY_ATTR1 desc tbl f a = Inr b"
  shows "FN_OID_GET_ATTR1 desc tbl f (Some \<lparr>asn1_tag = t, asn1_p = b\<rparr>) = Inr a"
proof -
  have "FN_OID_GET_OID_BY_ATTR1 desc ps f a = Inr b \<Longrightarrow> \<exists>e \<in> set ps. od_asn1 (desc e) = Some b \<and> f e = a" for ps
    by (induction ps) (auto split: option.splits if_splits)
  then show ?thesis using assms by (simp add: get_attr)
qed

end

interpretation x520: oid_table x520_descriptor oid_x520_attr_type
  by unfold_locales code_simp+

interpretation x509: oid_table ext_descriptor oid_x509_ext
  by unfold_locales code_simp+

interpretation key_usage: oid_table "\<lambda>d. d" oid_ext_key_usage
  by unfold_locales code_simp+

interpretation policies: oid_table "\<lambda>d. d" oid_certificate_policies
  by unfold_locales code_simp+

interpretation pk: oid_table pk_descriptor oid_pk_alg
  by unfold_locales code_simp+

interpretation cipher: oid_table cipher_descriptor oid_cipher_alg
  by unfold_locales code_simp+

interpretation md: oid_table md_alg_descriptor oid_md_alg
  by unfold_locales code_simp+

interpretation hmac: oid_table md_hmac_descriptor oid_md_hmac
  by unfold_locales code_simp+

section \<open>The database\<close>

text \<open>The dotted texts of the identifiers of a table.\<close>

definition table_texts :: "('t \<Rightarrow> mbedtls_oid_descriptor_t) \<Rightarrow> 't list \<Rightarrow> string option list" where
  "table_texts desc tbl = map (\<lambda>e. case od_asn1 (desc e) of None \<Rightarrow> None
     | Some b \<Rightarrow> snd (mbedtls_oid_get_numeric_string 40 \<lparr>asn1_tag = 6, asn1_p = b\<rparr>)) (butlast tbl)"

lemma digit_chars: "digit_char 0 = CHR ''0''" "digit_char 1 = CHR ''1''" "digit_char 2 = CHR ''2''" "digit_char 3 = CHR ''3''" "digit_char 4 = CHR ''4''"
  "digit_char 5 = CHR ''5''" "digit_char 6 = CHR ''6''" "digit_char 7 = CHR ''7''" "digit_char 8 = CHR ''8''" "digit_char 9 = CHR ''9''"
  by code_simp+

lemmas oid_bytes = MBEDTLS_OID_ISO_MEMBER_BODIES_def MBEDTLS_OID_ISO_IDENTIFIED_ORG_def MBEDTLS_OID_ISO_CCITT_DS_def MBEDTLS_OID_ISO_ITU_COUNTRY_def
  MBEDTLS_OID_COUNTRY_US_def MBEDTLS_OID_ORG_RSA_DATA_SECURITY_def MBEDTLS_OID_RSA_COMPANY_def MBEDTLS_OID_ORG_ANSI_X9_62_def
  MBEDTLS_OID_ANSI_X9_62_def MBEDTLS_OID_ORG_DOD_def MBEDTLS_OID_ORG_OIW_def MBEDTLS_OID_OIW_SECSIG_def
  MBEDTLS_OID_OIW_SECSIG_ALG_def MBEDTLS_OID_ORG_CERTICOM_def MBEDTLS_OID_CERTICOM_def MBEDTLS_OID_ORGANIZATION_def
  MBEDTLS_OID_ISO_ITU_US_ORG_def MBEDTLS_OID_ORG_GOV_def MBEDTLS_OID_GOV_def MBEDTLS_OID_ORG_NETSCAPE_def
  MBEDTLS_OID_NETSCAPE_def MBEDTLS_OID_ID_CE_def MBEDTLS_OID_NIST_ALG_def MBEDTLS_OID_INTERNET_def
  MBEDTLS_OID_PKIX_def MBEDTLS_OID_AT_def MBEDTLS_OID_AT_CN_def MBEDTLS_OID_AT_SUR_NAME_def
  MBEDTLS_OID_AT_SERIAL_NUMBER_def MBEDTLS_OID_AT_COUNTRY_def MBEDTLS_OID_AT_LOCALITY_def MBEDTLS_OID_AT_STATE_def
  MBEDTLS_OID_AT_ORGANIZATION_def MBEDTLS_OID_AT_ORG_UNIT_def MBEDTLS_OID_AT_TITLE_def MBEDTLS_OID_AT_POSTAL_ADDRESS_def
  MBEDTLS_OID_AT_POSTAL_CODE_def MBEDTLS_OID_AT_GIVEN_NAME_def MBEDTLS_OID_AT_INITIALS_def MBEDTLS_OID_AT_GENERATION_QUALIFIER_def
  MBEDTLS_OID_AT_UNIQUE_IDENTIFIER_def MBEDTLS_OID_AT_DN_QUALIFIER_def MBEDTLS_OID_AT_PSEUDONYM_def MBEDTLS_OID_DOMAIN_COMPONENT_def
  MBEDTLS_OID_KEY_USAGE_def MBEDTLS_OID_CERTIFICATE_POLICIES_def MBEDTLS_OID_SUBJECT_ALT_NAME_def MBEDTLS_OID_BASIC_CONSTRAINTS_def
  MBEDTLS_OID_EXTENDED_KEY_USAGE_def MBEDTLS_OID_ANY_POLICY_def MBEDTLS_OID_NS_CERT_def MBEDTLS_OID_NS_CERT_TYPE_def
  MBEDTLS_OID_KP_def MBEDTLS_OID_SERVER_AUTH_def MBEDTLS_OID_CLIENT_AUTH_def MBEDTLS_OID_CODE_SIGNING_def
  MBEDTLS_OID_EMAIL_PROTECTION_def MBEDTLS_OID_TIME_STAMPING_def MBEDTLS_OID_OCSP_SIGNING_def MBEDTLS_OID_WISUN_FAN_def
  MBEDTLS_OID_PKCS_def MBEDTLS_OID_PKCS1_def MBEDTLS_OID_PKCS9_def MBEDTLS_OID_PKCS1_RSA_def
  MBEDTLS_OID_PKCS9_EMAIL_def MBEDTLS_OID_DIGEST_ALG_SHA224_def MBEDTLS_OID_DIGEST_ALG_SHA256_def MBEDTLS_OID_HMAC_SHA224_def
  MBEDTLS_OID_HMAC_SHA256_def MBEDTLS_OID_DES_CBC_def MBEDTLS_OID_DES_EDE3_CBC_def MBEDTLS_OID_EC_ALG_UNRESTRICTED_def
  MBEDTLS_OID_EC_ALG_ECDH_def

lemmas oid_print = table_texts_def add_len_def oid_end_def mbedtls_oid_get_numeric_string_def oid_component_def oid_snprintf_at_def snprintf_text_def
  dec.simps digit_chars digit_chars(2)[simplified] oid_bytes Let_def

text \<open>
  The bytes in the header are the identifiers the standards assign: X.520 attributes under 2.5.4, certificate
  extensions under 2.5.29, key purposes under 1.3.6.1.5.5.7.3, RSA's and NIST's algorithms.
\<close>

theorem oid_database_numbers:
  "table_texts x520_descriptor oid_x520_attr_type = map Some
     [''2.5.4.3'', ''2.5.4.6'', ''2.5.4.7'', ''2.5.4.8'', ''2.5.4.10'', ''2.5.4.11'', ''1.2.840.113549.1.9.1'', ''2.5.4.5'', ''2.5.4.16'', ''2.5.4.17'',
      ''2.5.4.4'', ''2.5.4.42'', ''2.5.4.43'', ''2.5.4.44'', ''2.5.4.12'', ''2.5.4.46'', ''2.5.4.65'', ''0.9.2342.19200300.100.1.25'', ''2.5.4.45'']
   \<and> table_texts ext_descriptor oid_x509_ext = map Some
     [''2.5.29.19'', ''2.5.29.15'', ''2.5.29.37'', ''2.5.29.17'', ''2.16.840.1.113730.1.1'', ''2.5.29.32'']
   \<and> table_texts (\<lambda>d. d) oid_ext_key_usage = map Some
     [''1.3.6.1.5.5.7.3.1'', ''1.3.6.1.5.5.7.3.2'', ''1.3.6.1.5.5.7.3.3'', ''1.3.6.1.5.5.7.3.4'', ''1.3.6.1.5.5.7.3.8'', ''1.3.6.1.5.5.7.3.9'', ''1.3.6.1.4.1.45605.1'']
   \<and> table_texts (\<lambda>d. d) oid_certificate_policies = [Some ''2.5.29.32.0'']
   \<and> table_texts pk_descriptor oid_pk_alg = map Some [''1.2.840.113549.1.1.1'', ''1.2.840.10045.2.1'', ''1.3.132.1.12'']
   \<and> table_texts cipher_descriptor oid_cipher_alg = map Some [''1.3.14.3.2.7'', ''1.2.840.113549.3.7'']
   \<and> table_texts md_alg_descriptor oid_md_alg = map Some [''2.16.840.1.101.3.4.2.4'', ''2.16.840.1.101.3.4.2.1'']
   \<and> table_texts md_hmac_descriptor oid_md_hmac = map Some [''1.2.840.113549.2.8'', ''1.2.840.113549.2.9'']"
proof (intro conjI)
  show "table_texts x520_descriptor oid_x520_attr_type = map Some [''2.5.4.3'', ''2.5.4.6'', ''2.5.4.7'', ''2.5.4.8'', ''2.5.4.10'', ''2.5.4.11'', ''1.2.840.113549.1.9.1'', ''2.5.4.5'', ''2.5.4.16'', ''2.5.4.17'', ''2.5.4.4'', ''2.5.4.42'', ''2.5.4.43'', ''2.5.4.44'', ''2.5.4.12'', ''2.5.4.46'', ''2.5.4.65'', ''0.9.2342.19200300.100.1.25'', ''2.5.4.45'']"
    by (simp add: oid_print oid_x520_attr_type_def)
  show "table_texts ext_descriptor oid_x509_ext = map Some [''2.5.29.19'', ''2.5.29.15'', ''2.5.29.37'', ''2.5.29.17'', ''2.16.840.1.113730.1.1'', ''2.5.29.32'']"
    by (simp add: oid_print oid_x509_ext_def)
  show "table_texts (\<lambda>d. d) oid_ext_key_usage = map Some [''1.3.6.1.5.5.7.3.1'', ''1.3.6.1.5.5.7.3.2'', ''1.3.6.1.5.5.7.3.3'', ''1.3.6.1.5.5.7.3.4'', ''1.3.6.1.5.5.7.3.8'', ''1.3.6.1.5.5.7.3.9'', ''1.3.6.1.4.1.45605.1'']"
    by (simp add: oid_print oid_ext_key_usage_def)
  show "table_texts (\<lambda>d. d) oid_certificate_policies = [Some ''2.5.29.32.0'']"
    by (simp add: oid_print oid_certificate_policies_def)
  show "table_texts pk_descriptor oid_pk_alg = map Some [''1.2.840.113549.1.1.1'', ''1.2.840.10045.2.1'', ''1.3.132.1.12'']"
    by (simp add: oid_print oid_pk_alg_def)
  show "table_texts cipher_descriptor oid_cipher_alg = map Some [''1.3.14.3.2.7'', ''1.2.840.113549.3.7'']"
    by (simp add: oid_print oid_cipher_alg_def)
  show "table_texts md_alg_descriptor oid_md_alg = map Some [''2.16.840.1.101.3.4.2.4'', ''2.16.840.1.101.3.4.2.1'']"
    by (simp add: oid_print oid_md_alg_def)
  show "table_texts md_hmac_descriptor oid_md_hmac = map Some [''1.2.840.113549.2.8'', ''1.2.840.113549.2.9'']"
    by (simp add: oid_print oid_md_hmac_def)
qed

text \<open>An identifier looked up by public-key or digest algorithm maps back to that algorithm.\<close>

lemma oid_by_pk_alg_roundtrip:
  "mbedtls_oid_get_oid_by_pk_alg a = Inr b \<Longrightarrow> mbedtls_oid_get_pk_alg (Some \<lparr>asn1_tag = t, asn1_p = b\<rparr>) = Inr a"
  unfolding mbedtls_oid_get_oid_by_pk_alg_def mbedtls_oid_get_pk_alg_def by (rule pk.by_attr)

lemma oid_by_md_roundtrip:
  "mbedtls_oid_get_oid_by_md a = Inr b \<Longrightarrow> mbedtls_oid_get_md_alg (Some \<lparr>asn1_tag = t, asn1_p = b\<rparr>) = Inr a"
  unfolding mbedtls_oid_get_oid_by_md_def mbedtls_oid_get_md_alg_def by (rule md.by_attr)

text \<open>Without RSA and ECDSA no signature algorithm is known.\<close>

interpretation sig: oid_table sig_descriptor oid_sig_alg
  by unfold_locales code_simp+

lemma no_signature_algorithms: "mbedtls_oid_get_sig_alg oid = Inl MBEDTLS_ERR_OID_NOT_FOUND"
proof (cases oid)
  case (Some b)
  have "FN_OID_TYPED_FROM_ASN1 sig_descriptor oid_sig_alg (Some b) = None"
    using sig.from_asn1[of b] by (cases "FN_OID_TYPED_FROM_ASN1 sig_descriptor oid_sig_alg (Some b)") (auto simp: oid_sig_alg_def oid_end_def)
  then show ?thesis using Some by (simp add: mbedtls_oid_get_sig_alg_def FN_OID_GET_ATTR2_def)
qed (simp add: mbedtls_oid_get_sig_alg_def FN_OID_GET_ATTR2_def FN_OID_TYPED_FROM_ASN1_def)

end
