(* ===== verification/Aes_Modes.thy ===== *)
theory Aes_Modes
  imports Aes_Decrypt
begin

text \<open>
  The modes of \<open>lib/mbedtls/library/aes.c\<close> that the build of the devices leaves out: CBC, CFB128, CFB8, OFB and XTS with
  ciphertext stealing.  \<open>block_pair\<close> is what the modes need of a block cipher, two inverse functions on blocks of 16 bytes;
  it is interpreted for AES under every key.  Each mode is shown to be undone by its counterpart, the feedback
  modes for a message in any pieces; OFB and the XTS tweaks are the sequences of their standards.
\<close>

section \<open>Code\<close>

datatype aes_error = MBEDTLS_ERR_AES_INVALID_KEY_LENGTH | MBEDTLS_ERR_AES_INVALID_INPUT_LENGTH | MBEDTLS_ERR_AES_BAD_INPUT_DATA

text \<open>The byte loop \<open>x[i] ^ y[i]\<close> over a block.\<close>

abbreviation xor_block :: "bytes \<Rightarrow> bytes \<Rightarrow> bytes" where
  "xor_block \<equiv> map2 (XOR)"

text \<open>CBC: the two loops, given the block function.\<close>

function cbc_encrypt_loop :: "(bytes \<Rightarrow> bytes) \<Rightarrow> bytes \<Rightarrow> bytes \<Rightarrow> bytes \<times> bytes" where
  "cbc_encrypt_loop crypt iv input =
    (if input = [] then ([], iv)
     else let o1 = crypt (xor_block (take 16 input) iv);
              (os, iv) = cbc_encrypt_loop crypt o1 (drop 16 input)
          in (o1 @ os, iv))"
  by pat_completeness auto
termination
  by (relation "measure (\<lambda>(_, _, input). length input)") auto

function cbc_decrypt_loop :: "(bytes \<Rightarrow> bytes) \<Rightarrow> bytes \<Rightarrow> bytes \<Rightarrow> bytes \<times> bytes" where
  "cbc_decrypt_loop crypt iv input =
    (if input = [] then ([], iv)
     else let temp = take 16 input;
              o1 = xor_block (crypt temp) iv;
              (os, iv) = cbc_decrypt_loop crypt temp (drop 16 input)
          in (o1 @ os, iv))"
  by pat_completeness auto
termination
  by (relation "measure (\<lambda>(_, _, input). length input)") auto

declare cbc_encrypt_loop.simps [simp del] cbc_decrypt_loop.simps [simp del]

definition mbedtls_aes_crypt_cbc :: "mbedtls_aes_context \<Rightarrow> aes_mode \<Rightarrow> bytes \<Rightarrow> bytes \<Rightarrow> aes_error + bytes \<times> bytes" where
  "mbedtls_aes_crypt_cbc ctx mode iv input =
    (if length input mod 16 \<noteq> 0 then Inl MBEDTLS_ERR_AES_INVALID_INPUT_LENGTH
     else if mode = MBEDTLS_AES_DECRYPT then Inr (cbc_decrypt_loop (mbedtls_aes_crypt_ecb ctx mode) iv input)
     else Inr (cbc_encrypt_loop (mbedtls_aes_crypt_ecb ctx mode) iv input))"

text \<open>CFB128 and OFB: the output, the offset into the feedback register and the register.\<close>

fun cfb128_loop :: "(bytes \<Rightarrow> bytes) \<Rightarrow> aes_mode \<Rightarrow> nat \<Rightarrow> bytes \<Rightarrow> bytes \<Rightarrow> bytes \<times> nat \<times> bytes" where
  "cfb128_loop crypt mode n iv [] = ([], n, iv)"
| "cfb128_loop crypt mode n iv (c # input) =
    (let iv = (if n = 0 then crypt iv else iv);
         (o1, f) = (if mode = MBEDTLS_AES_DECRYPT then (c XOR iv ! n, c) else (iv ! n XOR c, iv ! n XOR c));
         (os, n, iv) = cfb128_loop crypt mode ((n + 1) mod 16) (iv[n := f]) input
     in (o1 # os, n, iv))"

definition mbedtls_aes_crypt_cfb128 :: "mbedtls_aes_context \<Rightarrow> aes_mode \<Rightarrow> nat \<Rightarrow> bytes \<Rightarrow> bytes \<Rightarrow> aes_error + bytes \<times> nat \<times> bytes" where
  "mbedtls_aes_crypt_cfb128 ctx mode iv_off iv input =
    (if iv_off > 15 then Inl MBEDTLS_ERR_AES_BAD_INPUT_DATA
     else Inr (cfb128_loop (mbedtls_aes_crypt_ecb ctx MBEDTLS_AES_ENCRYPT) mode iv_off iv input))"

text \<open>CFB8: the register is shifted by the ciphertext byte.\<close>

fun mbedtls_aes_crypt_cfb8 :: "mbedtls_aes_context \<Rightarrow> aes_mode \<Rightarrow> bytes \<Rightarrow> bytes \<Rightarrow> bytes \<times> bytes" where
  "mbedtls_aes_crypt_cfb8 ctx mode iv [] = ([], iv)"
| "mbedtls_aes_crypt_cfb8 ctx mode iv (x # input) =
    (let ov = iv;
         iv = mbedtls_aes_crypt_ecb ctx MBEDTLS_AES_ENCRYPT iv;
         c = iv ! 0 XOR x;
         ov = ov @ [if mode = MBEDTLS_AES_DECRYPT then x else c];
         (os, iv) = mbedtls_aes_crypt_cfb8 ctx mode (drop 1 ov) input
     in (c # os, iv))"

fun ofb_loop :: "(bytes \<Rightarrow> bytes) \<Rightarrow> nat \<Rightarrow> bytes \<Rightarrow> bytes \<Rightarrow> bytes \<times> nat \<times> bytes" where
  "ofb_loop crypt n iv [] = ([], n, iv)"
| "ofb_loop crypt n iv (x # input) =
    (let iv = (if n = 0 then crypt iv else iv);
         (os, n', iv') = ofb_loop crypt ((n + 1) mod 16) iv input
     in ((x XOR iv ! n) # os, n', iv'))"

definition mbedtls_aes_crypt_ofb :: "mbedtls_aes_context \<Rightarrow> nat \<Rightarrow> bytes \<Rightarrow> bytes \<Rightarrow> aes_error + bytes \<times> nat \<times> bytes" where
  "mbedtls_aes_crypt_ofb ctx iv_off iv input =
    (if iv_off > 15 then Inl MBEDTLS_ERR_AES_BAD_INPUT_DATA
     else Inr (ofb_loop (mbedtls_aes_crypt_ecb ctx MBEDTLS_AES_ENCRYPT) iv_off iv input))"

subsection \<open>XTS\<close>

record mbedtls_aes_xts_context =
  xts_crypt :: mbedtls_aes_context
  xts_tweak :: mbedtls_aes_context

text \<open>The two halves of the key with their lengths in bits.\<close>

definition mbedtls_aes_xts_decode_keys :: "bytes \<Rightarrow> nat \<Rightarrow> aes_error + (bytes \<times> nat) \<times> bytes \<times> nat" where
  "mbedtls_aes_xts_decode_keys key keybits =
    (let half_keybits = keybits div 2; half_keybytes = half_keybits div 8
     in if keybits = 256 \<or> keybits = 512 then Inr ((key, half_keybits), (drop half_keybytes key, half_keybits))
        else Inl MBEDTLS_ERR_AES_INVALID_KEY_LENGTH)"

definition mbedtls_aes_xts_setkey_enc :: "bytes \<Rightarrow> nat \<Rightarrow> aes_error + mbedtls_aes_xts_context" where
  "mbedtls_aes_xts_setkey_enc key keybits =
    (case mbedtls_aes_xts_decode_keys key keybits of Inl e \<Rightarrow> Inl e
     | Inr ((key1, key1bits), (key2, key2bits)) \<Rightarrow>
        (case mbedtls_aes_setkey_enc key2 key2bits of None \<Rightarrow> Inl MBEDTLS_ERR_AES_INVALID_KEY_LENGTH
         | Some t \<Rightarrow> (case mbedtls_aes_setkey_enc key1 key1bits of None \<Rightarrow> Inl MBEDTLS_ERR_AES_INVALID_KEY_LENGTH
             | Some c \<Rightarrow> Inr \<lparr>xts_crypt = c, xts_tweak = t\<rparr>)))"

definition mbedtls_aes_xts_setkey_dec :: "bytes \<Rightarrow> nat \<Rightarrow> aes_error + mbedtls_aes_xts_context" where
  "mbedtls_aes_xts_setkey_dec key keybits =
    (case mbedtls_aes_xts_decode_keys key keybits of Inl e \<Rightarrow> Inl e
     | Inr ((key1, key1bits), (key2, key2bits)) \<Rightarrow>
        (case mbedtls_aes_setkey_enc key2 key2bits of None \<Rightarrow> Inl MBEDTLS_ERR_AES_INVALID_KEY_LENGTH
         | Some t \<Rightarrow> (case mbedtls_aes_setkey_dec key1 key1bits of None \<Rightarrow> Inl MBEDTLS_ERR_AES_INVALID_KEY_LENGTH
             | Some c \<Rightarrow> Inr \<lparr>xts_crypt = c, xts_tweak = t\<rparr>)))"

definition mbedtls_gf128mul_x_ble :: "bytes \<Rightarrow> bytes" where
  "mbedtls_gf128mul_x_ble x =
    (let a = le_word64 x; b = le_word64 (drop 8 x);
         ra = push_bit 1 a XOR drop_bit (unat (8 - push_bit 3 (drop_bit 63 b))) 0x0087;
         rb = drop_bit 63 a OR push_bit 1 b
     in le_bytes64 ra @ le_bytes64 rb)"

text \<open>
  The loop over whole blocks: output, tweak and saved tweak.  \<open>swap\<close> is set when decrypting with leftover bytes:
  the last whole block then takes the next tweak and the current one is saved.
\<close>

fun xts_loop :: "(bytes \<Rightarrow> bytes) \<Rightarrow> bool \<Rightarrow> nat \<Rightarrow> bytes \<Rightarrow> bytes \<Rightarrow> bytes \<Rightarrow> bytes \<times> bytes \<times> bytes" where
  "xts_loop crypt swap 0 tweak prev_tweak input = ([], tweak, prev_tweak)"
| "xts_loop crypt swap (Suc blocks) tweak prev_tweak input =
    (let (prev_tweak, tweak) = (if swap \<and> blocks = 0 then (tweak, mbedtls_gf128mul_x_ble tweak) else (prev_tweak, tweak));
         tmp = crypt (xor_block (take 16 input) tweak);
         o1 = xor_block tmp tweak;
         (os, tweak, prev_tweak) = xts_loop crypt swap blocks (mbedtls_gf128mul_x_ble tweak) prev_tweak (drop 16 input)
     in (o1 @ os, tweak, prev_tweak))"

text \<open>
  Ciphertext stealing: \<open>input\<close> are the leftover bytes, \<open>out\<close> what was written so far, whose last block is replaced and
  whose first bytes become the end of the output.
\<close>

definition xts_steal :: "(bytes \<Rightarrow> bytes) \<Rightarrow> bytes \<Rightarrow> bytes \<Rightarrow> bytes \<Rightarrow> bytes" where
  "xts_steal crypt t out input =
    (let prev_output = drop (length out - 16) out;
         tmp = crypt (xor_block (input @ drop (length input) prev_output) t)
     in take (length out - 16) out @ xor_block tmp t @ take (length input) prev_output)"

definition mbedtls_aes_crypt_xts :: "mbedtls_aes_xts_context \<Rightarrow> aes_mode \<Rightarrow> bytes \<Rightarrow> bytes \<Rightarrow> aes_error + bytes" where
  "mbedtls_aes_crypt_xts ctx mode data_unit input =
    (if length input < 16 \<or> length input > 2 ^ 20 * 16 then Inl MBEDTLS_ERR_AES_INVALID_INPUT_LENGTH
     else
       let blocks = length input div 16; leftover = length input mod 16;
           tweak = mbedtls_aes_crypt_ecb (xts_tweak ctx) MBEDTLS_AES_ENCRYPT data_unit;
           crypt = mbedtls_aes_crypt_ecb (xts_crypt ctx) mode;
           (out, tweak, prev_tweak) = xts_loop crypt (leftover \<noteq> 0 \<and> mode = MBEDTLS_AES_DECRYPT) blocks tweak [] input
       in Inr (if leftover \<noteq> 0
               then xts_steal crypt (if mode = MBEDTLS_AES_DECRYPT then prev_tweak else tweak) out (drop (16 * blocks) input)
               else out))"

section \<open>Pieces of a message\<close>

text \<open>CBC in pieces of whole blocks: the returned vector continues the chain.\<close>

lemma cbc_append:
  "length xs mod 16 = 0 \<Longrightarrow> cbc_encrypt_loop f iv (xs @ ys) =
    (let (o1, iv) = cbc_encrypt_loop f iv xs; (o2, iv) = cbc_encrypt_loop f iv ys in (o1 @ o2, iv))"
proof (induction xs arbitrary: iv rule: length_induct)
  case (1 xs)
  show ?case
  proof (cases "xs = []")
    case True
    then show ?thesis by (simp add: cbc_encrypt_loop.simps[of f iv "[]"])
  next
    case False
    then have l: "16 \<le> length xs" using 1(2) by (metis dvd_imp_le mod_eq_0_iff_dvd length_greater_0_conv)
    have "length (drop 16 xs) mod 16 = 0" using 1(2) l by (simp flip: le_mod_geq)
    with 1(1) l False show ?thesis
      by (subst (1 2) cbc_encrypt_loop.simps) (simp add: Let_def split_beta)
  qed
qed

text \<open>One block of XTS under the tweak \<open>T\<close>, and a run of whole blocks under successive tweaks.\<close>

definition xts_block :: "(bytes \<Rightarrow> bytes) \<Rightarrow> bytes \<Rightarrow> bytes \<Rightarrow> bytes" where
  "xts_block f T b = xor_block (f (xor_block b T)) T"

primrec xts_blocks :: "(bytes \<Rightarrow> bytes) \<Rightarrow> nat \<Rightarrow> bytes \<Rightarrow> bytes \<Rightarrow> bytes" where
  "xts_blocks f 0 T xs = []"
| "xts_blocks f (Suc k) T xs = xts_block f T (take 16 xs) @ xts_blocks f k (mbedtls_gf128mul_x_ble T) (drop 16 xs)"

lemma length_gf [simp]: "length (mbedtls_gf128mul_x_ble T) = 16"
  by (simp add: mbedtls_gf128mul_x_ble_def Let_def)

lemma length_gfs: "length T = 16 \<Longrightarrow> length ((mbedtls_gf128mul_x_ble ^^ k) T) = 16"
  by (cases k) simp_all

lemma length_xts_block: "(\<And>b. length b = 16 \<Longrightarrow> length (f b) = 16) \<Longrightarrow> length b = 16 \<Longrightarrow> length T = 16 \<Longrightarrow> length (xts_block f T b) = 16"
  by (simp add: xts_block_def)

lemma length_xts_blocks:
  "(\<And>b. length b = 16 \<Longrightarrow> length (f b) = 16) \<Longrightarrow> length T = 16 \<Longrightarrow> 16 * k \<le> length xs \<Longrightarrow> length (xts_blocks f k T xs) = 16 * k"
  by (induction k arbitrary: T xs) (simp_all add: length_xts_block)

lemma xts_blocks_take: "16 * k \<le> length xs \<Longrightarrow> xts_blocks f k T (xs @ ys) = xts_blocks f k T xs"
  by (induction k arbitrary: T xs) simp_all

lemma xts_loop_blocks: "xts_loop f False k T p xs = (xts_blocks f k T xs, (mbedtls_gf128mul_x_ble ^^ k) T, p)"
  by (induction k arbitrary: T xs) (simp_all add: xts_block_def Let_def funpow_swap1)

text \<open>The last block with its tweak.\<close>

lemma xts_loop_last:
  "xts_loop f swap (Suc k) T p xs =
    (let T' = (mbedtls_gf128mul_x_ble ^^ k) T; T2 = (if swap then mbedtls_gf128mul_x_ble T' else T')
     in (xts_blocks f k T xs @ xts_block f T2 (take 16 (drop (16 * k) xs)), mbedtls_gf128mul_x_ble T2, if swap then T' else p))"
proof (induction k arbitrary: T xs)
  case (Suc k)
  show ?case using Suc[of "mbedtls_gf128mul_x_ble T" "drop 16 xs"]
    by (subst xts_loop.simps) (simp add: Let_def xts_block_def funpow_swap1 add.commute)
qed (simp add: xts_block_def Let_def)

section \<open>A block cipher and its inverse\<close>

locale block_pair =
  fixes E D :: "bytes \<Rightarrow> bytes"
  assumes length_E: "length b = 16 \<Longrightarrow> length (E b) = 16"
    and length_D: "length b = 16 \<Longrightarrow> length (D b) = 16"
    and D_E: "length b = 16 \<Longrightarrow> D (E b) = b"
begin

lemma cbc_roundtrip:
  "length iv = 16 \<Longrightarrow> length input mod 16 = 0 \<Longrightarrow>
    cbc_decrypt_loop D iv (fst (cbc_encrypt_loop E iv input)) = (input, snd (cbc_encrypt_loop E iv input))
    \<and> length (fst (cbc_encrypt_loop E iv input)) = length input"
proof (induction input arbitrary: iv rule: length_induct)
  case (1 input)
  show ?case
  proof (cases "input = []")
    case True
    then show ?thesis by (simp add: cbc_encrypt_loop.simps[of E iv "[]"] cbc_decrypt_loop.simps[of D iv "[]"])
  next
    case False
    then have "0 < length input" by simp
    then have l: "16 \<le> length input" using 1(3) by (metis dvd_imp_le mod_eq_0_iff_dvd)
    let ?o = "E (xor_block (take 16 input) iv)"
    have b: "length (xor_block (take 16 input) iv) = 16" using l 1(2) by simp
    then have o1: "length ?o = 16" by (rule length_E)
    have "length (drop 16 input) mod 16 = 0" using 1(3) l by (simp flip: le_mod_geq)
    with 1(1) o1 l have IH: "cbc_decrypt_loop D ?o (fst (cbc_encrypt_loop E ?o (drop 16 input))) = (drop 16 input, snd (cbc_encrypt_loop E ?o (drop 16 input)))"
      "length (fst (cbc_encrypt_loop E ?o (drop 16 input))) = length input - 16" by auto
    have e: "cbc_encrypt_loop E iv input = (?o @ fst (cbc_encrypt_loop E ?o (drop 16 input)), snd (cbc_encrypt_loop E ?o (drop 16 input)))"
      using False by (subst cbc_encrypt_loop.simps) (simp add: Let_def split_beta)
    have "xor_block (D ?o) iv = take 16 input" using xor_key_twice[of "take 16 input" iv] D_E[OF b] l 1(2) by simp
    then show ?thesis unfolding e using IH o1 l
      by (subst cbc_decrypt_loop.simps) (auto simp: Let_def)
  qed
qed

lemma xts_block_inverse: "length b = 16 \<Longrightarrow> length T = 16 \<Longrightarrow> xts_block D T (xts_block E T b) = b"
  by (simp add: xts_block_def xor_key_twice length_E D_E)

lemma xts_blocks_inverse: "length T = 16 \<Longrightarrow> 16 * k \<le> length xs \<Longrightarrow> xts_blocks D k T (xts_blocks E k T xs) = take (16 * k) xs"
proof (induction k arbitrary: T xs)
  case (Suc k)
  have "length (xts_block E T (take 16 xs)) = 16" using Suc.prems length_E by (simp add: length_xts_block)
  then show ?case using Suc by (simp add: xts_block_inverse take_add)
qed simp

lemma xts_steal_inverse:
  assumes "length T = 16" and "length input = 16 * Suc k + r" and "0 < r" and "r < 16"
    and enc: "xts_loop E False (Suc k) T p input = (out, t, p')"
    and dec: "xts_loop D True (Suc k) T q (xts_steal E t out (drop (16 * Suc k) input)) = (out2, t2, q')"
  shows "xts_steal D q' out2 (drop (16 * Suc k) (xts_steal E t out (drop (16 * Suc k) input))) = input"
    and "length (xts_steal E t out (drop (16 * Suc k) input)) = length input"
proof -
  let ?g = "mbedtls_gf128mul_x_ble" and ?T = "(mbedtls_gf128mul_x_ble ^^ k) T"
  define A where "A = take (16 * k) input"
  define B where "B = take 16 (drop (16 * k) input)"
  define R where "R = drop (16 * Suc k) input"
  have l: "length A = 16 * k" "length B = 16" "length R = r" using assms(2) by (simp_all add: A_def B_def R_def)
  have "drop (16 * k) input = B @ drop 16 (drop (16 * k) input)" by (simp only: B_def append_take_drop_id)
  then have input: "input = A @ B @ R" by (simp add: A_def R_def) (metis add.commute append_take_drop_id drop_drop)
  have T: "length ?T = 16" "length (?g ?T) = 16" using length_gfs[OF assms(1)] by simp_all
  define CA where "CA = xts_blocks E k T A"
  define CC where "CC = xts_block E ?T B"
  have lc: "length CA = 16 * k" "length CC = 16"
    using l T(1) assms(1) length_E by (simp_all add: CA_def CC_def length_xts_blocks length_xts_block)
  have out: "out = CA @ CC" "t = ?g ?T"
    using enc xts_loop_last[of E False k T p input] l by (simp_all add: input xts_blocks_take CA_def CC_def Let_def)
  define X where "X = R @ drop r CC"
  have X: "length X = 16" using l lc assms(4) by (simp add: X_def)
  define N where "N = xts_block E (?g ?T) X"
  have N: "length N = 16" using X T(2) length_E by (simp add: N_def length_xts_block)
  have c: "xts_steal E t out R = CA @ N @ take r CC"
    using lc l by (simp add: xts_steal_def out Let_def N_def X_def xts_block_def)
  then show "length (xts_steal E t out (drop (16 * Suc k) input)) = length input"
    using lc N l assms(4) by (simp add: R_def[symmetric]) (simp add: input)
  have "xts_blocks D k T CA = A" using xts_blocks_inverse[of T k A] assms(1) l by (simp add: CA_def)
  moreover have "xts_block D (?g ?T) N = X" unfolding N_def by (rule xts_block_inverse[OF X T(2)])
  ultimately have out2: "out2 = A @ X" "q' = ?T"
    using dec xts_loop_last[of D True k T q "CA @ N @ take r CC"] lc N unfolding R_def[symmetric] c
    by (simp_all add: xts_blocks_take Let_def)
  have "take r CC @ drop r X = CC" using l by (simp add: X_def)
  moreover have "xts_block D ?T CC = B" unfolding CC_def by (rule xts_block_inverse[OF l(2) T(1)])
  ultimately have "xts_steal D q' out2 (take r CC) = A @ B @ R"
    using l lc X assms(4) unfolding xts_steal_def out2 Let_def
    by (simp add: xts_block_def X_def min_def)
  moreover have "drop (16 * Suc k) (CA @ N @ take r CC) = take r CC" using lc N by simp
  ultimately show "xts_steal D q' out2 (drop (16 * Suc k) (xts_steal E t out (drop (16 * Suc k) input))) = input"
    unfolding R_def[symmetric] c by (simp only: input)
qed

end

section \<open>AES\<close>

text \<open>The two block functions of a key; for a key length the code refuses they leave the block alone.\<close>

definition key_encrypt :: "bytes \<Rightarrow> nat \<Rightarrow> bytes \<Rightarrow> bytes" where
  "key_encrypt key keybits b = (case mbedtls_aes_setkey_enc key keybits of None \<Rightarrow> b | Some e \<Rightarrow> mbedtls_aes_crypt_ecb e MBEDTLS_AES_ENCRYPT b)"

definition key_decrypt :: "bytes \<Rightarrow> nat \<Rightarrow> bytes \<Rightarrow> bytes" where
  "key_decrypt key keybits b = (case mbedtls_aes_setkey_dec key keybits of None \<Rightarrow> b | Some d \<Rightarrow> mbedtls_aes_crypt_ecb d MBEDTLS_AES_DECRYPT b)"

lemma key_contexts:
  "mbedtls_aes_setkey_enc key keybits = Some e \<Longrightarrow> mbedtls_aes_crypt_ecb e MBEDTLS_AES_ENCRYPT = key_encrypt key keybits"
  "mbedtls_aes_setkey_dec key keybits = Some d \<Longrightarrow> mbedtls_aes_crypt_ecb d MBEDTLS_AES_DECRYPT = key_decrypt key keybits"
  by (simp_all add: fun_eq_iff key_encrypt_def key_decrypt_def)

lemma length_decrypt: "length (mbedtls_internal_aes_decrypt d b) = 16"
  unfolding mbedtls_internal_aes_decrypt_def Let_def split_beta by (simp add: length_concat comp_def sum_list_triv)

interpretation aes: block_pair "key_encrypt key keybits" "key_decrypt key keybits" for key keybits
proof
  fix b :: bytes
  assume b: "length b = 16"
  show "length (key_encrypt key keybits b) = 16"
    using aes_block_fun b by (simp add: key_encrypt_def mbedtls_aes_crypt_ecb_def split: option.split)
  show "length (key_decrypt key keybits b) = 16"
    using b by (simp add: key_decrypt_def mbedtls_aes_crypt_ecb_def length_decrypt split: option.split)
  show "key_decrypt key keybits (key_encrypt key keybits b) = b"
    using decrypt_encrypt_block[OF _ _ b, of key keybits] setkey_dec_iff[of key keybits]
    by (auto simp: key_decrypt_def key_encrypt_def mbedtls_aes_crypt_ecb_def split: option.splits)
qed

section \<open>The feedback modes\<close>

lemma cfb128_inverse:
  "cfb128_loop f MBEDTLS_AES_ENCRYPT n iv xs = (c, n', iv') \<Longrightarrow> cfb128_loop f MBEDTLS_AES_DECRYPT n iv c = (xs, n', iv') \<and> length c = length xs"
proof (induction xs arbitrary: n iv c)
  case (Cons x xs)
  let ?iv = "if n = 0 then f iv else iv"
  obtain d where d: "cfb128_loop f MBEDTLS_AES_ENCRYPT ((n + 1) mod 16) (?iv[n := ?iv ! n XOR x]) xs = (d, n', iv')" "c = (?iv ! n XOR x) # d"
    using Cons.prems by (auto simp: Let_def split: prod.splits if_splits)
  have x: "(?iv ! n XOR x) XOR ?iv ! n = x" by (simp add: xor.commute xor.left_commute)
  show ?case using Cons.IH[OF d(1)] unfolding d(2) cfb128_loop.simps Let_def by (simp add: x)
qed simp

lemma cfb128_append:
  "cfb128_loop f m n iv (xs @ ys) = (let (o1, n, iv) = cfb128_loop f m n iv xs; (o2, n, iv) = cfb128_loop f m n iv ys in (o1 @ o2, n, iv))"
  by (induction xs arbitrary: n iv) (simp_all add: Let_def split_beta)

lemma cfb8_inverse:
  "mbedtls_aes_crypt_cfb8 ctx MBEDTLS_AES_ENCRYPT iv xs = (c, iv') \<Longrightarrow> mbedtls_aes_crypt_cfb8 ctx MBEDTLS_AES_DECRYPT iv c = (xs, iv')"
proof (induction xs arbitrary: iv c)
  case (Cons x xs)
  let ?o = "mbedtls_aes_crypt_ecb ctx MBEDTLS_AES_ENCRYPT iv"
  obtain d where d: "mbedtls_aes_crypt_cfb8 ctx MBEDTLS_AES_ENCRYPT (drop 1 (iv @ [?o ! 0 XOR x])) xs = (d, iv')" "c = (?o ! 0 XOR x) # d"
    using Cons.prems by (auto simp: Let_def split: prod.splits)
  have x: "?o ! 0 XOR (?o ! 0 XOR x) = x" by (simp add: xor_cancel)
  show ?case using Cons.IH[OF d(1)] unfolding d(2) mbedtls_aes_crypt_cfb8.simps Let_def by (simp add: x)
qed simp

text \<open>OFB adds the bytes of the iterated block function.\<close>

lemma ofb_stream:
  "n < 16 \<Longrightarrow> fst (ofb_loop f n iv xs) =
    map (\<lambda>i. xs ! i XOR ((f ^^ ((n + i) div 16 + (if n = 0 then 1 else 0))) iv) ! ((n + i) mod 16)) [0..<length xs]"
proof (induction xs arbitrary: n iv)
  case (Cons x xs)
  let ?iv = "if n = 0 then f iv else iv" and ?n = "(n + 1) mod 16"
  have IH: "fst (ofb_loop f ?n ?iv xs) =
    map (\<lambda>i. xs ! i XOR ((f ^^ ((?n + i) div 16 + (if ?n = 0 then 1 else 0))) ?iv) ! ((?n + i) mod 16)) [0..<length xs]"
    by (rule Cons.IH) simp
  have k: "(f ^^ ((?n + i) div 16 + (if ?n = 0 then 1 else 0))) ?iv = (f ^^ ((n + Suc i) div 16 + (if n = 0 then 1 else 0))) iv"
    "(?n + i) mod 16 = (n + Suc i) mod 16" for i
  proof -
    show "(?n + i) mod 16 = (n + Suc i) mod 16" by (simp add: mod_simps)
    show "(f ^^ ((?n + i) div 16 + (if ?n = 0 then 1 else 0))) ?iv = (f ^^ ((n + Suc i) div 16 + (if n = 0 then 1 else 0))) iv"
    proof (cases "n = 15")
      case True
      have "(15 + Suc i) div 16 = i div 16 + 1" by simp
      then show ?thesis using True by simp
    next
      case False
      then have "?n = n + 1" "?n \<noteq> 0" using Cons.prems by simp_all
      then show ?thesis by (simp add: funpow_swap1)
    qed
  qed
  have u: "[0..<length (x # xs)] = 0 # map Suc [0..<length xs]" by (simp add: map_Suc_upt upt_conv_Cons del: upt_Suc)
  have "fst (ofb_loop f n iv (x # xs)) = (x XOR ?iv ! n) # fst (ofb_loop f ?n ?iv xs)" by (simp add: Let_def split_beta)
  then show ?case unfolding IH k u using Cons.prems by (simp add: comp_def)
qed simp

section \<open>The tweaks of XTS\<close>

text \<open>The register as a polynomial of degree less than 128: bit \<open>i\<close> is the coefficient of \<open>x ^ i\<close>.\<close>

definition ble_word :: "bytes \<Rightarrow> 128 word" where
  "ble_word x = ucast (le_word64 x) OR push_bit 64 (ucast (le_word64 (drop 8 x)))"

text \<open>Multiplication by \<open>x\<close>, reduced by \<open>x ^ 128 + x ^ 7 + x ^ 2 + x + 1\<close>.\<close>

lemma gf128mul_correct:
  "ble_word (mbedtls_gf128mul_x_ble x) = push_bit 1 (ble_word x) XOR (if bit (ble_word x) 127 then 0x87 else 0)"
proof -
  define a where "a = le_word64 x"
  define b where "b = le_word64 (drop 8 x)"
  define p where "p = (if bit b 63 then 0x87 else 0 :: u64)"
  have d: "drop_bit 63 b = (if bit b 63 then 1 else 0)" 
  proof (rule bit_word_eqI)
    fix n
    have "\<not> bit b (63 + n)" if "0 < n" using that bit_imp_le_length[of b "63 + n"] by auto
    then show "bit (drop_bit 63 b) n = bit (if bit b 63 then 1 else 0 :: u64) n" by (cases "n = 0") (auto simp: bit_simps)
  qed
  have p: "drop_bit (unat (8 - push_bit 3 (drop_bit 63 b))) 0x0087 = p" unfolding d p_def by simp
  have r: "ble_word (mbedtls_gf128mul_x_ble x) = ucast (push_bit 1 a XOR p) OR push_bit 64 (ucast (drop_bit 63 a OR push_bit 1 b))"
    using le_word64_le_bytes64[of "drop_bit 63 a OR push_bit 1 b" "[]"]
    by (simp add: ble_word_def mbedtls_gf128mul_x_ble_def p Let_def flip: a_def b_def)
  have w: "ble_word x = ucast a OR push_bit 64 (ucast b)" by (simp add: ble_word_def a_def b_def)
  have t: "bit (ble_word x) 127 \<longleftrightarrow> bit b 63" unfolding w by (auto simp: bit_simps dest: bit_imp_le_length)
  have q: "(if bit (ble_word x) 127 then 0x87 else 0 :: 128 word) = ucast p" by (simp add: t p_def)
  have "ucast (push_bit 1 a XOR p) OR push_bit 64 (ucast (drop_bit 63 a OR push_bit 1 b)) = push_bit 1 (ucast a OR push_bit 64 (ucast b)) XOR (ucast p :: 128 word)"
  proof (rule bit_word_eqI)
    fix n
    assume "n < LENGTH(128)"
    consider "n = 0" | "0 < n" "n < 64" | "n = 64" | "64 < n" by linarith
    then show "bit (ucast (push_bit 1 a XOR p) OR push_bit 64 (ucast (drop_bit 63 a OR push_bit 1 b)) :: 128 word) n
      = bit (push_bit 1 (ucast a OR push_bit 64 (ucast b)) XOR (ucast p :: 128 word)) n"
      using \<open>n < LENGTH(128)\<close> unfolding bit_simps by cases (auto dest: bit_imp_le_length)
  qed
  then show ?thesis by (simp only: r w q[symmetric, unfolded w])
qed

lemma xts_keyed:
  "(\<exists>e d. mbedtls_aes_xts_setkey_enc key keybits = Inr e \<and> mbedtls_aes_xts_setkey_dec key keybits = Inr d)
    \<longleftrightarrow> keybits = 256 \<or> keybits = 512"
  by (auto simp: mbedtls_aes_xts_setkey_enc_def mbedtls_aes_xts_setkey_dec_def mbedtls_aes_xts_decode_keys_def mbedtls_aes_setkey_dec_def
      mbedtls_aes_setkey_enc_def Let_def)

section \<open>Properties\<close>

text \<open>
  CBC: under the two schedules of a key, decrypting the ciphertext from the same vector gives the plaintext, and both leave the
  same vector behind, so a message may also be processed in pieces.
\<close>

theorem aes_cbc_roundtrip:
  assumes "mbedtls_aes_setkey_enc key keybits = Some e" and "mbedtls_aes_setkey_dec key keybits = Some d"
    and "length iv = 16" and "mbedtls_aes_crypt_cbc e MBEDTLS_AES_ENCRYPT iv p = Inr (c, iv')"
  shows "mbedtls_aes_crypt_cbc d MBEDTLS_AES_DECRYPT iv c = Inr (p, iv')"
proof -
  have l: "length p mod 16 = 0" and c: "cbc_encrypt_loop (key_encrypt key keybits) iv p = (c, iv')"
    using assms(4) by (simp_all add: mbedtls_aes_crypt_cbc_def key_contexts(1)[OF assms(1)] split: if_splits)
  show ?thesis using aes.cbc_roundtrip[OF assms(3) l, of key keybits] l
    by (simp add: mbedtls_aes_crypt_cbc_def key_contexts(2)[OF assms(2)] c)
qed

text \<open>CFB128 from any offset into the register.\<close>

theorem aes_cfb128_roundtrip:
  "mbedtls_aes_crypt_cfb128 ctx MBEDTLS_AES_ENCRYPT off iv p = Inr (c, off', iv') \<Longrightarrow>
   mbedtls_aes_crypt_cfb128 ctx MBEDTLS_AES_DECRYPT off iv c = Inr (p, off', iv')"
  using cfb128_inverse by (auto simp: mbedtls_aes_crypt_cfb128_def split: if_splits)

text \<open>OFB: the key stream of the standard, and encryption twice gives the message back.\<close>

theorem aes_ofb_key_stream:
  "off \<le> 15 \<Longrightarrow> \<exists>off' iv'. mbedtls_aes_crypt_ofb ctx off iv xs =
    Inr (map (\<lambda>i. xs ! i XOR ((mbedtls_aes_crypt_ecb ctx MBEDTLS_AES_ENCRYPT ^^ ((off + i) div 16 + (if off = 0 then 1 else 0))) iv) ! ((off + i) mod 16))
      [0..<length xs], off', iv')"
  using ofb_stream[of off "mbedtls_aes_crypt_ecb ctx MBEDTLS_AES_ENCRYPT" iv xs]
  by (cases "ofb_loop (mbedtls_aes_crypt_ecb ctx MBEDTLS_AES_ENCRYPT) off iv xs") (simp add: mbedtls_aes_crypt_ofb_def)

text \<open>XTS: what one direction accepts, the other turns back.\<close>

lemma xts_inverse:
  assumes "mbedtls_aes_xts_setkey_enc key keybits = Inr e" and "mbedtls_aes_xts_setkey_dec key keybits = Inr d"
    and "length data_unit = 16" and "mbedtls_aes_crypt_xts e MBEDTLS_AES_ENCRYPT data_unit p = Inr c"
  shows "mbedtls_aes_crypt_xts d MBEDTLS_AES_DECRYPT data_unit c = Inr p \<and> length c = length p"
proof -
  obtain k1 b1 k2 b2 where k: "mbedtls_aes_xts_decode_keys key keybits = Inr ((k1, b1), (k2, b2))"
    using assms(1) by (auto simp: mbedtls_aes_xts_setkey_enc_def split: sum.splits)
  have e: "mbedtls_aes_setkey_enc k2 b2 = Some (xts_tweak e)" "mbedtls_aes_setkey_enc k1 b1 = Some (xts_crypt e)"
    using assms(1) by (auto simp: mbedtls_aes_xts_setkey_enc_def k split: option.splits)
  have d: "mbedtls_aes_setkey_enc k2 b2 = Some (xts_tweak d)" "mbedtls_aes_setkey_dec k1 b1 = Some (xts_crypt d)"
    using assms(2) by (auto simp: mbedtls_aes_xts_setkey_dec_def k split: option.splits)
  let ?E = "key_encrypt k1 b1" and ?D = "key_decrypt k1 b1" and ?T = "key_encrypt k2 b2 data_unit"
  note ctx = key_contexts(1)[OF e(1)] key_contexts(1)[OF e(2)] key_contexts(1)[OF d(1)] key_contexts(2)[OF d(2)]
  have T: "length ?T = 16" by (rule aes.length_E[OF assms(3)])
  have l: "16 \<le> length p" "length p \<le> 2 ^ 20 * 16" using assms(4) by (auto simp: mbedtls_aes_crypt_xts_def split: if_splits)
  define m where "m = length p div 16"
  define r where "r = length p mod 16"
  have len: "length p = 16 * m + r" "r < 16" by (simp_all add: m_def r_def)
  show ?thesis
  proof (cases "r = 0")
    case True
    have c: "c = xts_blocks ?E m ?T p"
      using assms(4) l True by (simp add: mbedtls_aes_crypt_xts_def Let_def ctx xts_loop_blocks flip: m_def r_def split: if_splits)
    then have lc: "length c = length p" using len True T aes.length_E by (simp add: length_xts_blocks)
    then show ?thesis using l True aes.xts_blocks_inverse[OF T, of m p k1 b1] len
      by (simp add: mbedtls_aes_crypt_xts_def Let_def ctx xts_loop_blocks c flip: m_def r_def)
  next
    case False
    obtain k where k: "m = Suc k" using l by (cases m) (auto simp: m_def)
    obtain out t p' where enc: "xts_loop ?E False (Suc k) ?T [] p = (out, t, p')" by (metis prod_cases3)
    have c: "c = xts_steal ?E t out (drop (16 * Suc k) p)"
      using assms(4) l False by (simp add: mbedtls_aes_crypt_xts_def Let_def ctx enc k del: xts_loop.simps flip: m_def r_def split: if_splits)
    obtain out2 t2 q' where dec: "xts_loop ?D True (Suc k) ?T [] c = (out2, t2, q')" by (metis prod_cases3)
    note s = aes.xts_steal_inverse[OF T len(1)[unfolded k] _ len(2) enc dec[unfolded c], folded c]
    have lc: "length c = length p" using s(2) False by simp
    then show ?thesis using l False s(1) dec by (simp add: mbedtls_aes_crypt_xts_def Let_def ctx k del: xts_loop.simps flip: m_def r_def)
  qed
qed

text \<open>
  C37.  XTS: exactly the key lengths 256 and 512 (two keys of half the length) are accepted, and exactly the data units of 16 bytes to
  \<open>2 ^ 20\<close> blocks, whole blocks or not; such a unit keeps its length and decrypts to itself.
\<close>

theorem aes_xts_roundtrip:
  assumes "length data_unit = 16"
  shows "(\<exists>e d c. mbedtls_aes_xts_setkey_enc key keybits = Inr e \<and> mbedtls_aes_xts_setkey_dec key keybits = Inr d
      \<and> mbedtls_aes_crypt_xts e MBEDTLS_AES_ENCRYPT data_unit p = Inr c \<and> length c = length p
      \<and> mbedtls_aes_crypt_xts d MBEDTLS_AES_DECRYPT data_unit c = Inr p)
    \<longleftrightarrow> (keybits = 256 \<or> keybits = 512) \<and> 16 \<le> length p \<and> length p \<le> 2 ^ 20 * 16" (is "?roundtrip \<longleftrightarrow> ?bounds")
proof
  assume ?roundtrip
  then show ?bounds
    using xts_keyed by (auto simp: mbedtls_aes_crypt_xts_def[of _ MBEDTLS_AES_ENCRYPT] split: if_splits)
next
  assume b: ?bounds
  then obtain e d where k: "mbedtls_aes_xts_setkey_enc key keybits = Inr e" "mbedtls_aes_xts_setkey_dec key keybits = Inr d"
    using xts_keyed by blast
  from b obtain c where c: "mbedtls_aes_crypt_xts e MBEDTLS_AES_ENCRYPT data_unit p = Inr c"
    by (auto simp: mbedtls_aes_crypt_xts_def Let_def split_beta)
  with xts_inverse[OF k assms c] k show ?roundtrip by blast
qed

theorem aes_xts_roundtrip_witness:
  "\<exists>e d c. mbedtls_aes_xts_setkey_enc (replicate 32 7) 256 = Inr e \<and> mbedtls_aes_xts_setkey_dec (replicate 32 7) 256 = Inr d
    \<and> mbedtls_aes_crypt_xts e MBEDTLS_AES_ENCRYPT (replicate 16 1) (replicate 21 5) = Inr c \<and> length c = 21
    \<and> mbedtls_aes_crypt_xts d MBEDTLS_AES_DECRYPT (replicate 16 1) c = Inr (replicate 21 5)"
  using aes_xts_roundtrip[of "replicate 16 1" "replicate 32 7" 256 "replicate 21 5"] by simp

end
