(* ===== verification/Cmac.thy ===== *)
theory Cmac
  imports Cipher_Layer Digest_Stream
begin

text \<open>
  CMAC of the vendored library (\<open>lib/mbedtls/library/cmac.c\<close>) on top of the cipher layer, which the build of the devices leaves
  out: subkeys by doubling in \<open>GF(2 ^ 128)\<close>, a state that absorbs whole blocks but always keeps the last one back, the
  padded or unpadded last block.  A message fed in any pieces gives the value of NIST SP 800-38B, and the context is
  ready for the next message.  All ciphers of the build have blocks of 16 bytes, the size of the buffers.
\<close>

section \<open>Code\<close>

text \<open>The loop of the multiplication runs from the last byte to the first.\<close>

fun shift_left_rev :: "u8 \<Rightarrow> bytes \<Rightarrow> bytes" where
  "shift_left_rev overflow [] = []"
| "shift_left_rev overflow (b # bs) = (push_bit 1 b OR overflow) # shift_left_rev (drop_bit 7 b) bs"

definition cmac_multiply_by_u :: "bytes \<Rightarrow> nat \<Rightarrow> cipher_error + bytes" where
  "cmac_multiply_by_u input blocksize =
    (if blocksize \<noteq> 16 \<and> blocksize \<noteq> 8 then Inl MBEDTLS_ERR_CIPHER_BAD_INPUT_DATA
     else
       let R_n = (if blocksize = 16 then 0x87 else 0x1B);
           out = rev (shift_left_rev 0 (rev (take blocksize input)));
           mask = - drop_bit 7 (input ! 0)
       in Inr (out[blocksize - 1 := out ! (blocksize - 1) XOR (R_n AND mask)]))"

text \<open>The return code and the two subkeys, which the caller has zeroed.\<close>

definition cmac_generate_subkeys :: "mbedtls_cipher_context_t \<Rightarrow> cipher_error option \<times> bytes \<times> bytes" where
  "cmac_generate_subkeys ctx =
    (let zero = replicate 16 0; block_size = mbedtls_cipher_get_block_size ctx
     in case mbedtls_cipher_update ctx True (take block_size zero) of
          (Some ret, _, _) \<Rightarrow> (Some ret, zero, zero)
        | (None, L, ctx) \<Rightarrow>
           (case cmac_multiply_by_u L block_size of Inl ret \<Rightarrow> (Some ret, zero, zero)
            | Inr K1 \<Rightarrow> (case cmac_multiply_by_u K1 block_size of Inl ret \<Rightarrow> (Some ret, K1, zero) | Inr K2 \<Rightarrow> (None, K1, K2))))"

definition cmac_xor_block :: "bytes \<Rightarrow> bytes \<Rightarrow> nat \<Rightarrow> bytes" where
  "cmac_xor_block input1 input2 block_size = map (\<lambda>idx. input1 ! idx XOR input2 ! idx) [0..<block_size]"

definition cmac_pad :: "nat \<Rightarrow> bytes \<Rightarrow> nat \<Rightarrow> bytes" where
  "cmac_pad padded_block_len last_block last_block_len =
    map (\<lambda>j. if j < last_block_len then last_block ! j else if j = last_block_len then 0x80 else 0x00) [0..<padded_block_len]"

record mbedtls_cmac_context_t =
  cm_state :: bytes
  cm_unprocessed_block :: bytes
  cm_unprocessed_len :: nat

text \<open>A cipher context with its member \<open>cmac_ctx\<close>.\<close>

type_synonym cmac_cipher = "mbedtls_cipher_context_t \<times> mbedtls_cmac_context_t option"

text \<open>\<open>alloc\<close> and \<open>calloc\<close> say which allocations succeed.\<close>

definition mbedtls_cipher_cmac_starts ::
  "(mbedtls_cipher_base_t \<Rightarrow> bool) \<Rightarrow> bool \<Rightarrow> cmac_cipher \<Rightarrow> bytes \<Rightarrow> nat \<Rightarrow> cipher_error option \<times> cmac_cipher"
where
  "mbedtls_cipher_cmac_starts alloc calloc = (\<lambda>(ctx, cm) key keybits.
     if cc_info ctx = None then (Some MBEDTLS_ERR_CIPHER_BAD_INPUT_DATA, (ctx, cm))
     else (case mbedtls_cipher_setkey alloc ctx key keybits MBEDTLS_ENCRYPT of
             (Some retval, ctx) \<Rightarrow> (Some retval, (ctx, cm))
           | (None, ctx) \<Rightarrow>
              if map_option ci_type (cc_info ctx) \<notin> Some ` {MBEDTLS_CIPHER_AES_128_ECB, MBEDTLS_CIPHER_AES_192_ECB, MBEDTLS_CIPHER_AES_256_ECB}
              then (Some MBEDTLS_ERR_CIPHER_BAD_INPUT_DATA, (ctx, cm))
              else if \<not> calloc then (Some MBEDTLS_ERR_CIPHER_ALLOC_FAILED, (ctx, cm))
              else (None, (ctx, Some \<lparr>cm_state = replicate 16 0, cm_unprocessed_block = replicate 16 0, cm_unprocessed_len = 0\<rparr>))))"

text \<open>\<open>n\<close> turns of the loop over blocks: the result, context, state and remaining input.\<close>

fun cmac_loop :: "nat \<Rightarrow> nat \<Rightarrow> mbedtls_cipher_context_t \<Rightarrow> bytes \<Rightarrow> bytes \<Rightarrow> cipher_error option \<times> mbedtls_cipher_context_t \<times> bytes \<times> bytes" where
  "cmac_loop 0 block_size ctx state input = (None, ctx, state, input)"
| "cmac_loop (Suc n) block_size ctx state input =
    (let state = cmac_xor_block input state block_size
     in case mbedtls_cipher_update ctx True state of
          (Some ret, _, ctx) \<Rightarrow> (Some ret, ctx, state, input)
        | (None, state, ctx) \<Rightarrow> cmac_loop n block_size ctx state (drop block_size input))"

definition mbedtls_cipher_cmac_update :: "cmac_cipher \<Rightarrow> bytes \<Rightarrow> cipher_error option \<times> cmac_cipher" where
  "mbedtls_cipher_cmac_update = (\<lambda>(ctx, cm) input.
    (case (cc_info ctx, cm) of
       (Some i, Some c) \<Rightarrow>
         let block_size = ci_block_size i;
             fill = block_size - cm_unprocessed_len c;
             (ret, ctx, c, input) =
               (if cm_unprocessed_len c > 0 \<and> length input > fill
                then
                  let c = c\<lparr>cm_unprocessed_block := buf_put (cm_unprocessed_block c) (cm_unprocessed_len c) (take fill input)\<rparr>;
                      c = c\<lparr>cm_state := cmac_xor_block (cm_unprocessed_block c) (cm_state c) block_size\<rparr>
                  in (case mbedtls_cipher_update ctx True (cm_state c) of
                        (Some ret, _, ctx) \<Rightarrow> (Some ret, ctx, c, input)
                      | (None, state, ctx) \<Rightarrow> (None, ctx, c\<lparr>cm_state := state, cm_unprocessed_len := 0\<rparr>, drop fill input))
                else (None, ctx, c, input))
         in (case ret of
               Some ret \<Rightarrow> (Some ret, (ctx, Some c))
             | None \<Rightarrow>
                let n = (length input + block_size - 1) div block_size
                in (case cmac_loop (n - 1) block_size ctx (cm_state c) input of
                      (Some ret, ctx, state, _) \<Rightarrow> (Some ret, (ctx, Some (c\<lparr>cm_state := state\<rparr>)))
                    | (None, ctx, state, input) \<Rightarrow>
                        let c = c\<lparr>cm_state := state\<rparr>;
                            c = (if length input > 0
                                 then c\<lparr>cm_unprocessed_block := buf_put (cm_unprocessed_block c) (cm_unprocessed_len c) input,
                                        cm_unprocessed_len := cm_unprocessed_len c + length input\<rparr>
                                 else c)
                        in (None, (ctx, Some c))))
     | _ \<Rightarrow> (Some MBEDTLS_ERR_CIPHER_BAD_INPUT_DATA, (ctx, cm))))"

text \<open>The return code of the subkey generation is ignored; the context is cleared in any case.\<close>

definition mbedtls_cipher_cmac_finish :: "cmac_cipher \<Rightarrow> (cipher_error + bytes) \<times> cmac_cipher" where
  "mbedtls_cipher_cmac_finish = (\<lambda>(ctx, cm).
    (case (cc_info ctx, cm) of
       (Some i, Some c) \<Rightarrow>
         let block_size = ci_block_size i;
             (_, K1, K2) = cmac_generate_subkeys ctx;
             last_block = cm_unprocessed_block c;
             M_last = (if cm_unprocessed_len c < block_size
                       then cmac_xor_block (cmac_pad block_size last_block (cm_unprocessed_len c)) K2 block_size
                       else cmac_xor_block last_block K1 block_size);
             state = cmac_xor_block M_last (cm_state c) block_size;
             cleared = Some (c\<lparr>cm_unprocessed_len := 0, cm_unprocessed_block := replicate 16 0, cm_state := replicate 16 0\<rparr>)
         in (case mbedtls_cipher_update ctx True state of
               (Some ret, _, ctx) \<Rightarrow> (Inl ret, (ctx, cleared))
             | (None, state, ctx) \<Rightarrow> (Inr (take block_size state), (ctx, cleared)))
     | _ \<Rightarrow> (Inl MBEDTLS_ERR_CIPHER_BAD_INPUT_DATA, (ctx, cm))))"

definition mbedtls_cipher_cmac_reset :: "cmac_cipher \<Rightarrow> cipher_error option \<times> cmac_cipher" where
  "mbedtls_cipher_cmac_reset = (\<lambda>(ctx, cm).
    (case (cc_info ctx, cm) of
       (Some i, Some c) \<Rightarrow> (None, (ctx, Some (c\<lparr>cm_unprocessed_len := 0, cm_unprocessed_block := replicate 16 0, cm_state := replicate 16 0\<rparr>)))
     | _ \<Rightarrow> (Some MBEDTLS_ERR_CIPHER_BAD_INPUT_DATA, (ctx, cm))))"

definition mbedtls_cipher_cmac ::
  "(mbedtls_cipher_base_t \<Rightarrow> bool) \<Rightarrow> bool \<Rightarrow> mbedtls_cipher_info_t option \<Rightarrow> bytes \<Rightarrow> nat \<Rightarrow> bytes \<Rightarrow> cipher_error + bytes"
where
  "mbedtls_cipher_cmac alloc calloc cipher_info key keylen input =
    (case cipher_info of
       None \<Rightarrow> Inl MBEDTLS_ERR_CIPHER_BAD_INPUT_DATA
     | Some info \<Rightarrow>
        (case mbedtls_cipher_setup alloc (Some info) mbedtls_cipher_init of
           (Some ret, _) \<Rightarrow> Inl ret
         | (None, ctx) \<Rightarrow>
            (case mbedtls_cipher_cmac_starts alloc calloc (ctx, None) key keylen of
               (Some ret, _) \<Rightarrow> Inl ret
             | (None, ctx) \<Rightarrow>
                (case mbedtls_cipher_cmac_update ctx input of
                   (Some ret, _) \<Rightarrow> Inl ret
                 | (None, ctx) \<Rightarrow> fst (mbedtls_cipher_cmac_finish ctx)))))"

definition mbedtls_aes_cmac_prf_128 :: "(mbedtls_cipher_base_t \<Rightarrow> bool) \<Rightarrow> bool \<Rightarrow> bytes \<Rightarrow> bytes \<Rightarrow> cipher_error + bytes" where
  "mbedtls_aes_cmac_prf_128 alloc calloc key input =
    (case mbedtls_cipher_info_from_type MBEDTLS_CIPHER_AES_128_ECB of
       None \<Rightarrow> Inl MBEDTLS_ERR_CIPHER_FEATURE_UNAVAILABLE
     | Some cipher_info \<Rightarrow>
        (case (if length key = 16 then Inr key else mbedtls_cipher_cmac alloc calloc (Some cipher_info) (replicate 16 0) 128 key) of
           Inl ret \<Rightarrow> Inl ret
         | Inr int_key \<Rightarrow> mbedtls_cipher_cmac alloc calloc (Some cipher_info) int_key 128 input))"

section \<open>Reference: NIST SP 800-38B\<close>

text \<open>A block as a number, least significant byte first in \<open>le_value\<close>; the standard reads it most significant byte first.\<close>

fun le_value :: "bytes \<Rightarrow> nat" where
  "le_value [] = 0"
| "le_value (b # bs) = unat b + 256 * le_value bs"

definition block_value :: "bytes \<Rightarrow> nat" where
  "block_value b = le_value (rev b)"

text \<open>\<open>K\<close> is the double of the block \<open>L\<close>: shifted by one, reduced by \<open>0x87\<close>.\<close>

definition doubled :: "bytes \<Rightarrow> bytes \<Rightarrow> bool" where
  "doubled L K \<longleftrightarrow> length K = 16 \<and> block_value K = (2 * block_value L mod 2 ^ 128) XOR (if block_value L \<ge> 2 ^ 127 then 0x87 else 0)"

text \<open>The blocks before the last one, and the last one, which is empty only for the empty message.\<close>

definition before_last :: "bytes \<Rightarrow> bytes" where
  "before_last m = take (16 * ((length m - 1) div 16)) m"

definition last_part :: "bytes \<Rightarrow> bytes" where
  "last_part m = drop (16 * ((length m - 1) div 16)) m"

definition cmac_chain :: "(bytes \<Rightarrow> bytes) \<Rightarrow> bytes \<Rightarrow> bytes \<Rightarrow> bytes" where
  "cmac_chain E = chain_blocks 16 (\<lambda>c b. E (map2 (XOR) b c))"

definition cmac_spec :: "(bytes \<Rightarrow> bytes) \<Rightarrow> bytes \<Rightarrow> bytes \<Rightarrow> bytes \<Rightarrow> bytes" where
  "cmac_spec E K1 K2 m =
    (let w = last_part m;
         M = (if length w = 16 then map2 (XOR) w K1 else map2 (XOR) (w @ 0x80 # replicate (15 - length w) 0) K2)
     in E (map2 (XOR) M (cmac_chain E (replicate 16 0) (before_last m))))"

section \<open>Doubling\<close>

lemma le_value_append: "le_value (xs @ ys) = le_value xs + 256 ^ length xs * le_value ys"
  by (induction xs) (simp_all add: algebra_simps)

lemma le_value_bound: "le_value xs < 256 ^ length xs"
proof (induction xs)
  case (Cons b xs)
  have "unat b < 256" using unsigned_less[of b, where ?'a = nat] by simp
  then show ?case using Cons by (simp add: algebra_simps)
qed simp

lemma length_shift [simp]: "length (shift_left_rev c bs) = length bs"
  by (induction bs arbitrary: c) simp_all

text \<open>The carry out of a shift.\<close>

lemma unat_drop_7: "unat (drop_bit 7 (b :: u8)) = unat b div 128"
  by (simp add: drop_bit_eq_div unat_div_distrib)

lemma shift_carry: "drop_bit 7 (b :: u8) \<le> 1"
  using unsigned_less[of b, where ?'a = nat] by (simp add: word_le_nat_alt unat_drop_7)

lemma shift_byte:
  assumes "c \<le> (1 :: u8)"
  shows "unat (push_bit 1 b OR c) + 256 * unat (drop_bit 7 b) = 2 * unat b + unat c"
proof -
  have "unat c \<le> 1" using assms by (simp add: word_le_nat_alt)
  then have c: "c = 0 \<or> c = 1" by (auto simp: le_Suc_eq word_unat_eq_iff)
  then have "push_bit 1 b AND c = 0"
  proof
    assume "c = 1"
    have "bit (push_bit 1 b AND 1) n = bit (0 :: u8) n" for n unfolding bit_simps by (cases "n = 0") (auto simp: bit_1_iff)
    then show "push_bit 1 b AND c = 0" unfolding \<open>c = 1\<close> by (intro bit_word_eqI)
  qed simp
  then have e: "push_bit 1 b OR c = push_bit 1 b + c" by (simp add: disjunctive_add_eq_or)
  have p: "unat (push_bit 1 b) = 2 * unat b mod 256" by (simp add: push_bit_eq_mult unat_word_ariths mult.commute)
  have "unat (push_bit 1 b + c) = 2 * unat b mod 256 + unat c"
  proof -
    have "2 * unat b mod 256 = 2 * (unat b mod 128)" using mult_mod_right[of 2 "unat b" 128] by simp
    moreover have "unat b mod 128 < 128" by simp
    ultimately have "2 * unat b mod 256 + unat c < 256" using \<open>unat c \<le> 1\<close> by linarith
    then show ?thesis unfolding unat_word_ariths p by simp
  qed
  moreover have "2 * unat b = 2 * unat b mod 256 + 256 * (unat b div 128)"
  proof -
    have "2 * unat b div 256 = unat b div 128" using div_mult_mult1[of 2 "unat b" 128] by simp
    then show ?thesis using mult_div_mod_eq[of 256 "2 * unat b"] by simp
  qed
  ultimately show ?thesis unfolding e unat_drop_7 by linarith
qed

lemma shift_value:
  "c \<le> 1 \<Longrightarrow> bs \<noteq> [] \<Longrightarrow> le_value (shift_left_rev c bs) + 256 ^ length bs * unat (drop_bit 7 (last bs)) = 2 * le_value bs + unat c"
proof (induction bs arbitrary: c)
  case (Cons b bs)
  note b = shift_byte[OF Cons.prems(1), of b]
  show ?case
  proof (cases "bs = []")
    case True
    then show ?thesis using b by simp
  next
    case False
    have "le_value (shift_left_rev (drop_bit 7 b) bs) + 256 ^ length bs * unat (drop_bit 7 (last bs)) = 2 * le_value bs + unat (drop_bit 7 b)"
      by (rule Cons.IH[OF shift_carry False])
    then have "256 * le_value (shift_left_rev (drop_bit 7 b) bs) + 256 ^ length (b # bs) * unat (drop_bit 7 (last bs)) = 256 * (2 * le_value bs + unat (drop_bit 7 b))"
      by (simp add: algebra_simps) 
    then show ?thesis using b False by (simp add: algebra_simps)
  qed
qed simp

lemma xor_low_byte: "unat (b XOR (r :: u8)) + 256 * k = (unat b + 256 * k) XOR unat r"
proof (rule bit_eqI)
  fix n
  have s: "x + 256 * k = x OR push_bit 8 k" if "x < 256" for x :: nat
  proof -
    have "x = take_bit 8 x" using that by (simp add: take_bit_nat_eq_self)
    then have "x AND push_bit 8 k = 0" by (auto intro!: bit_eqI simp: bit_simps) (metis bit_take_bit_iff not_le)
    then show ?thesis by (simp add: disjunctive_add_eq_or push_bit_eq_mult mult.commute)
  qed
  have u: "unat x < 256" for x :: u8 using unsigned_less[of x, where ?'a = nat] by simp
  have "\<not> bit (unat x) n" if "8 \<le> n" for x :: u8 using that using bit_imp_le_length[of x n] by (auto simp: bit_unsigned_iff)
  then show "bit (unat (b XOR r) + 256 * k) n = bit ((unat b + 256 * k) XOR unat r) n"
    unfolding s[OF u] by (auto simp: bit_simps unsigned_xor_eq)
qed

lemma multiply_by_u:
  assumes "length L = 16"
  shows "\<exists>K. cmac_multiply_by_u L 16 = Inr K \<and> doubled L K"
proof -
  define S where "S = shift_left_rev 0 (rev L)"
  define r where "r = (0x87 AND - drop_bit 7 (L ! 0) :: u8)"
  have lS: "length S = 16" by (simp add: S_def assms)
  then obtain s0 S' where S: "S = s0 # S'" by (cases S) auto
  have last: "last (rev L) = L ! 0" using assms by (cases L) simp_all
  have ne: "rev L \<noteq> []" using assms by auto
  have v: "le_value S + 2 ^ 128 * unat (drop_bit 7 (L ! 0)) = 2 * block_value L"
    using shift_value[of 0 "rev L", OF _ ne] unfolding last block_value_def S_def by (simp add: assms)
  have "le_value S < 2 ^ 128" using le_value_bound[of S] by (simp add: lS)
  have d: "unat (drop_bit 7 (L ! 0)) = (if block_value L \<ge> 2 ^ 127 then 1 else 0)"
  proof -
    have "unat (drop_bit 7 (L ! 0)) \<le> 1" using shift_carry[of "L ! 0"] by (simp add: word_le_nat_alt)
    then have "unat (drop_bit 7 (L ! 0)) = 0 \<or> unat (drop_bit 7 (L ! 0)) = 1" by linarith
    then show ?thesis using v \<open>le_value S < 2 ^ 128\<close> by auto
  qed
  have m: "le_value S = 2 * block_value L mod 2 ^ 128"
    using v \<open>le_value S < 2 ^ 128\<close> by (metis mod_less mod_mult_self1 mult.commute)
  have w: "drop_bit 7 (L ! 0) = (if block_value L \<ge> 2 ^ 127 then 1 else 0)"
    using d by (auto simp: word_unat_eq_iff)
  have r: "unat r = (if block_value L \<ge> 2 ^ 127 then 0x87 else 0)" unfolding r_def w by simp
  define K where "K = (rev S)[15 := rev S ! 15 XOR r]"
  have rK: "rev K = (s0 XOR r) # S'"
  proof -
    have "length (rev S) = 16" by (simp add: lS)
    then have "rev K = S[0 := rev S ! 15 XOR r]" unfolding K_def by (subst rev_update) simp_all
    moreover have "rev S ! 15 = s0" using lS by (subst rev_nth) (simp_all add: S)
    ultimately show ?thesis by (simp add: S)
  qed
  have "block_value K = le_value S XOR unat r" unfolding block_value_def rK S using xor_low_byte[of s0 r "le_value S'"] by simp
  then have "doubled L K" using lS unfolding doubled_def r m by (simp add: K_def)
  moreover have "cmac_multiply_by_u L 16 = Inr K"
    using assms by (simp add: cmac_multiply_by_u_def Let_def K_def S_def r_def)
  ultimately show ?thesis by blast
qed

text \<open>A double is determined by its block.\<close>

lemma le_value_inj: "length xs = length ys \<Longrightarrow> le_value xs = le_value ys \<Longrightarrow> xs = ys"
proof (induction xs arbitrary: ys)
  case (Cons x xs)
  then obtain y ys' where ys: "ys = y # ys'" by (cases ys) auto
  have b: "unat x < 256" "unat y < 256" using unsigned_less[of x, where ?'a = nat] unsigned_less[of y, where ?'a = nat] by simp_all
  have "unat x + 256 * le_value xs = unat y + 256 * le_value ys'" using Cons.prems(2) by (simp add: ys)
  then have "(unat x + 256 * le_value xs) mod 256 = (unat y + 256 * le_value ys') mod 256" "(unat x + 256 * le_value xs) div 256 = (unat y + 256 * le_value ys') div 256"
    by (rule arg_cong)+
  then have "unat x = unat y" "le_value xs = le_value ys'" using b by simp_all
  then show ?case using Cons ys by (simp add: word_unat_eq_iff)
qed simp

lemma doubled_unique: "doubled L K \<Longrightarrow> doubled L K' \<Longrightarrow> K = K'"
  using le_value_inj[of "rev K" "rev K'"] by (simp add: doubled_def block_value_def)

section \<open>The stream\<close>

lemma before_last_part: "before_last m @ last_part m = m"
  by (simp add: before_last_def last_part_def)

lemma before_last_short: "length m \<le> 16 \<Longrightarrow> before_last m = [] \<and> last_part m = m"
proof -
  assume "length m \<le> 16"
  then have "(length m - 1) div 16 = 0" by (cases "length m") auto
  then show ?thesis by (simp add: before_last_def last_part_def)
qed

lemma before_last_block:
  assumes "length b = 16" and "r \<noteq> []"
  shows "before_last (b @ r) = b @ before_last r" and "last_part (b @ r) = last_part r"
    and "(length (b @ r) - 1) div 16 = Suc ((length r - 1) div 16)"
proof -
  show q: "(length (b @ r) - 1) div 16 = Suc ((length r - 1) div 16)" using assms by (cases r) simp_all
  show "before_last (b @ r) = b @ before_last r" "last_part (b @ r) = last_part r"
    unfolding before_last_def last_part_def q using assms(1) by simp_all
qed

lemma before_last_append:
  "xs \<noteq> [] \<Longrightarrow> before_last (m @ xs) = before_last m @ before_last (last_part m @ xs) \<and> last_part (m @ xs) = last_part (last_part m @ xs)"
proof (induction m rule: length_induct)
  case (1 m)
  show ?case
  proof (cases "length m \<le> 16")
    case True
    then show ?thesis by (simp add: before_last_short)
  next
    case False
    define b where "b = take 16 m"
    define r where "r = drop 16 m"
    have m: "m = b @ r" "length b = 16" "r \<noteq> []" "length r < length m" using False by (simp_all add: b_def r_def)
    then have "r @ xs \<noteq> []" by simp
    then show ?thesis using 1 m(4) before_last_block[OF m(2,3)] before_last_block[OF m(2), of "r @ xs"] by (simp add: m(1))
  qed
qed

lemma length_last_part: "length (last_part m) \<le> 16 \<and> (last_part m = [] \<longleftrightarrow> m = []) \<and> length (before_last m) mod 16 = 0"
proof (induction m rule: length_induct)
  case (1 m)
  show ?case
  proof (cases "length m \<le> 16")
    case True
    then show ?thesis by (simp add: before_last_short)
  next
    case False
    define b where "b = take 16 m"
    define r where "r = drop 16 m"
    have m: "m = b @ r" "length b = 16" "r \<noteq> []" "length r < length m" using False by (simp_all add: b_def r_def)
    then show ?thesis using 1 before_last_block[OF m(2,3)] by simp
  qed
qed

lemma cmac_chain_append: "length m mod 16 = 0 \<Longrightarrow> cmac_chain E c (m @ xs) = cmac_chain E (cmac_chain E c m) xs"
  using chain_append[of 16 "\<lambda>c b. E (map2 (XOR) b c)" c m xs] by (simp add: cmac_chain_def block_tail_def)

lemma xor_block_eq: "length a = 16 \<Longrightarrow> length b = 16 \<Longrightarrow> cmac_xor_block a b 16 = map2 (XOR) a b"
  by (simp add: cmac_xor_block_def list_eq_iff_nth_eq)

lemma xor_block_take: "16 \<le> length a \<Longrightarrow> length b = 16 \<Longrightarrow> cmac_xor_block a b 16 = map2 (XOR) (take 16 a) b"
  by (simp add: cmac_xor_block_def list_eq_iff_nth_eq)

lemma cmac_chain_Nil [simp]: "cmac_chain E c [] = c"
  by (simp add: cmac_chain_def chain_short)

lemma cmac_chain_block: "length b = 16 \<Longrightarrow> cmac_chain E c (b @ m) = cmac_chain E (E (map2 (XOR) b c)) m"
  by (simp add: cmac_chain_def chain_block)

section \<open>Correctness\<close>

text \<open>A context that encrypts blocks with \<open>E\<close>.\<close>

definition ecb_keyed :: "mbedtls_cipher_context_t \<Rightarrow> (bytes \<Rightarrow> bytes) \<Rightarrow> bool" where
  "ecb_keyed ctx E \<longleftrightarrow> (\<exists>i. cc_info ctx = Some i \<and> ci_block_size i = 16)
    \<and> (\<forall>b. length b = 16 \<longrightarrow> length (E b) = 16 \<and> mbedtls_cipher_update ctx True b = (None, E b, ctx))"

lemma length_cmac_chain: "ecb_keyed ctx E \<Longrightarrow> length c = 16 \<Longrightarrow> length m mod 16 = 0 \<Longrightarrow> length (cmac_chain E c m) = 16"
proof (induction m arbitrary: c rule: length_induct)
  case (1 m)
  show ?case
  proof (cases "m = []")
    case False
    then have l: "16 \<le> length m" using 1(4) by (metis dvd_imp_le length_greater_0_conv mod_eq_0_iff_dvd)
    then have "length (drop 16 m) mod 16 = 0" using 1(4) by (simp flip: le_mod_geq)
    then have "length (cmac_chain E (E (map2 (XOR) (take 16 m) c)) (drop 16 m)) = 16" using 1 l by (simp add: ecb_keyed_def)
    then show ?thesis using cmac_chain_block[of "take 16 m" E c "drop 16 m"] l by simp
  qed (simp add: 1)
qed

lemma loop_keyed:
  assumes "ecb_keyed ctx E"
  shows "length c = 16 \<Longrightarrow> 16 * n \<le> length xs \<Longrightarrow> cmac_loop n 16 ctx c xs = (None, ctx, cmac_chain E c (take (16 * n) xs), drop (16 * n) xs)"
proof (induction n arbitrary: c xs)
  case (Suc n)
  let ?b = "take 16 xs"
  have x: "cmac_xor_block xs c 16 = map2 (XOR) ?b c" using Suc.prems by (simp add: xor_block_take)
  have u: "mbedtls_cipher_update ctx True (map2 (XOR) ?b c) = (None, E (map2 (XOR) ?b c), ctx)" "length (E (map2 (XOR) ?b c)) = 16"
    using assms Suc.prems by (simp_all add: ecb_keyed_def)
  have "take (16 * Suc n) xs = ?b @ take (16 * n) (drop 16 xs)" by (simp add: take_add)
  moreover have "length ?b = 16" using Suc.prems by simp
  ultimately have "cmac_chain E c (take (16 * Suc n) xs) = cmac_chain E (E (map2 (XOR) ?b c)) (take (16 * n) (drop 16 xs))"
    by (simp only: cmac_chain_block)
  moreover have "cmac_loop n 16 ctx (E (map2 (XOR) ?b c)) (drop 16 xs) =
      (None, ctx, cmac_chain E (E (map2 (XOR) ?b c)) (take (16 * n) (drop 16 xs)), drop (16 * n) (drop 16 xs))"
    using Suc.IH[OF u(2), of "drop 16 xs"] Suc.prems by simp
  ultimately show ?case by (simp add: Let_def x u(1) add.commute del: replicate.simps)
qed simp

lemma loop_turns: "xs \<noteq> [] \<Longrightarrow> (length xs + 16 - 1) div 16 - 1 = (length xs - 1) div 16"
proof -
  assume "xs \<noteq> []"
  then obtain k where "length xs = Suc k" by (cases xs) auto
  then show ?thesis by simp
qed

lemma loop_last:
  "ecb_keyed ctx E \<Longrightarrow> length c = 16 \<Longrightarrow> xs \<noteq> [] \<Longrightarrow>
    cmac_loop ((length xs + 16 - 1) div 16 - 1) 16 ctx c xs = (None, ctx, cmac_chain E c (before_last xs), last_part xs)"
  unfolding loop_turns before_last_def last_part_def by (rule loop_keyed) (auto intro: le_trans[OF times_div_less_eq_dividend])

text \<open>The state after the message \<open>m\<close>: everything but its last part is absorbed.\<close>

definition cmac_rel :: "(bytes \<Rightarrow> bytes) \<Rightarrow> mbedtls_cmac_context_t \<Rightarrow> bytes \<Rightarrow> bool" where
  "cmac_rel E c m \<longleftrightarrow> cm_state c = cmac_chain E (replicate 16 0) (before_last m) \<and> cm_unprocessed_len c = length (last_part m)
    \<and> length (cm_unprocessed_block c) = 16 \<and> take (length (last_part m)) (cm_unprocessed_block c) = last_part m"

lemma update_keyed:
  assumes "ecb_keyed ctx E" and "cmac_rel E c m"
  shows "\<exists>c'. mbedtls_cipher_cmac_update (ctx, Some c) xs = (None, (ctx, Some c')) \<and> cmac_rel E c' (m @ xs)"
proof (cases "xs = []")
  case True
  obtain i where "cc_info ctx = Some i" "ci_block_size i = 16" using assms(1) by (auto simp: ecb_keyed_def)
  then show ?thesis using assms(2) True by (simp add: mbedtls_cipher_cmac_update_def)
next
  case xs: False
  obtain i where i: "cc_info ctx = Some i" "ci_block_size i = 16" using assms(1) by (auto simp: ecb_keyed_def)
  let ?w = "last_part m" and ?st = "cmac_chain E (replicate 16 0) (before_last m)"
  note lm = length_last_part[of m]
  have st: "length ?st = 16" using length_cmac_chain[OF assms(1)] lm by simp
  note c = assms(2)[unfolded cmac_rel_def]
  note app = before_last_append[OF xs, of m]
  show ?thesis
  proof (cases "?w \<noteq> [] \<and> length xs > 16 - length ?w")
    case True
    let ?fill = "16 - length ?w"
    define b where "b = ?w @ take ?fill xs"
    define r where "r = drop ?fill xs"
    have b: "length b = 16" "r \<noteq> []" "?w @ xs = b @ r" using True lm by (simp_all add: b_def r_def)
    have m: "before_last (m @ xs) = before_last m @ b @ before_last r" "last_part (m @ xs) = last_part r"
      using app before_last_block[OF b(1,2)] unfolding b(3) by simp_all
    let ?st' = "E (map2 (XOR) b ?st)"
    have u: "mbedtls_cipher_update ctx True (map2 (XOR) b ?st) = (None, ?st', ctx)" "length ?st' = 16"
      using assms(1) b st by (simp_all add: ecb_keyed_def)
    have put: "buf_put (cm_unprocessed_block c) (length ?w) (take ?fill xs) = b"
      using take_buf_put[of "length ?w" "cm_unprocessed_block c" 16 "take ?fill xs"] c lm True by (simp add: b_def)
    have "cmac_xor_block b ?st 16 = map2 (XOR) b ?st" by (rule xor_block_eq[OF b(1) st])
    moreover have "cmac_chain E (replicate 16 0) (before_last (m @ xs)) = cmac_chain E ?st' (before_last r)"
      unfolding m using cmac_chain_append[of "before_last m"] lm cmac_chain_block[OF b(1)] by simp
    moreover have "cmac_loop ((length r + 16 - 1) div 16 - 1) 16 ctx ?st' r = (None, ctx, cmac_chain E ?st' (before_last r), last_part r)"
      by (rule loop_last[OF assms(1) u(2) b(2)])
    moreover have "last_part r \<noteq> []" "length (last_part r) \<le> 16" using length_last_part[of r] b(2) by simp_all
    ultimately show ?thesis using True c i u(1) b(1) put
      by (simp add: mbedtls_cipher_cmac_update_def cmac_rel_def m(2) Let_def take_buf_put flip: r_def)
  next
    case False
    show ?thesis
    proof (cases "?w = []")
      case True
      then have "m = []" using lm by simp
      moreover have "last_part xs \<noteq> []" "length (last_part xs) \<le> 16" using length_last_part[of xs] xs by simp_all
      ultimately show ?thesis using c i True loop_last[OF assms(1) st xs]
        by (simp add: mbedtls_cipher_cmac_update_def cmac_rel_def Let_def take_buf_put before_last_short)
    next
      case w: False
      then have "length xs \<le> 16 - length ?w" using False by simp
      then have l: "length (?w @ xs) \<le> 16" using lm by (simp add: le_diff_conv2 add.commute)
      then have m: "before_last (m @ xs) = before_last m" "last_part (m @ xs) = ?w @ xs"
        using app before_last_short[OF l] by simp_all
      have n: "(length xs + 15) div 16 - 1 = 0" using l w by (cases "length ?w") auto
      show ?thesis using c i False w xs l n
        by (simp add: mbedtls_cipher_cmac_update_def cmac_rel_def m Let_def take_buf_put)
    qed
  qed
qed

text \<open>The subkeys.\<close>

lemma subkeys_keyed:
  assumes "ecb_keyed ctx E"
  shows "\<exists>K1 K2. cmac_generate_subkeys ctx = (None, K1, K2) \<and> doubled (E (replicate 16 0)) K1 \<and> doubled K1 K2"
proof -
  let ?L = "E (replicate 16 0)"
  have l: "length ?L = 16" and u: "mbedtls_cipher_update ctx True (replicate 16 0) = (None, ?L, ctx)"
    using assms by (simp_all add: ecb_keyed_def del: replicate.simps)
  obtain K1 where K1: "cmac_multiply_by_u ?L 16 = Inr K1" "doubled ?L K1" using multiply_by_u[OF l] by blast
  then have "length K1 = 16" by (simp add: doubled_def)
  then obtain K2 where K2: "cmac_multiply_by_u K1 16 = Inr K2" "doubled K1 K2" using multiply_by_u by blast
  have "mbedtls_cipher_get_block_size ctx = 16" using assms by (auto simp: ecb_keyed_def mbedtls_cipher_get_block_size_def)
  then show ?thesis using u K1 K2
    by (simp add: cmac_generate_subkeys_def Let_def del: replicate.simps)
qed

definition cmac_zero :: mbedtls_cmac_context_t where
  "cmac_zero = \<lparr>cm_state = replicate 16 0, cm_unprocessed_block = replicate 16 0, cm_unprocessed_len = 0\<rparr>"

lemma rel_zero: "cmac_rel E cmac_zero []"
  by (simp add: cmac_rel_def cmac_zero_def before_last_def last_part_def)

lemma pad_eq:
  "length w < 16 \<Longrightarrow> take (length w) b = w \<Longrightarrow> length b = 16 \<Longrightarrow> cmac_pad 16 b (length w) = w @ 0x80 # replicate (15 - length w) 0"
  apply (rule nth_equalityI)
   apply (simp add: cmac_pad_def)
  apply (auto simp: cmac_pad_def nth_append nth_Cons' simp del: replicate.simps)
  apply (metis nth_take)
  done

lemma finish_keyed:
  assumes "ecb_keyed ctx E" and "cmac_rel E c m" and "doubled (E (replicate 16 0)) K1" and "doubled K1 K2"
  shows "mbedtls_cipher_cmac_finish (ctx, Some c) = (Inr (cmac_spec E K1 K2 m), (ctx, Some cmac_zero))"
proof -
  let ?w = "last_part m" and ?st = "cmac_chain E (replicate 16 0) (before_last m)"
  note lm = length_last_part[of m]
  note c = assms(2)[unfolded cmac_rel_def]
  obtain i where i: "cc_info ctx = Some i" "ci_block_size i = 16" using assms(1) by (auto simp: ecb_keyed_def)
  have k: "cmac_generate_subkeys ctx = (None, K1, K2)"
    using subkeys_keyed[OF assms(1)] assms(3,4) doubled_unique by blast
  have st: "length ?st = 16" using length_cmac_chain[OF assms(1)] lm by simp
  have K: "length K1 = 16" "length K2 = 16" using assms(3,4) by (simp_all add: doubled_def)
  define M where "M = (if length ?w = 16 then map2 (XOR) ?w K1 else map2 (XOR) (?w @ 0x80 # replicate (15 - length ?w) 0) K2)"
  have M: "(if length ?w < 16 then cmac_xor_block (cmac_pad 16 (cm_unprocessed_block c) (length ?w)) K2 16
      else cmac_xor_block (cm_unprocessed_block c) K1 16) = M" and lM: "length M = 16"
    using c K lm pad_eq[of ?w "cm_unprocessed_block c"] by (auto simp: M_def xor_block_eq)
  have "cmac_xor_block M ?st 16 = map2 (XOR) M ?st" by (rule xor_block_eq[OF lM st])
  moreover have "mbedtls_cipher_update ctx True (map2 (XOR) M ?st) = (None, E (map2 (XOR) M ?st), ctx)" "length (E (map2 (XOR) M ?st)) = 16"
    using assms(1) lM st by (simp_all add: ecb_keyed_def)
  moreover have "cmac_spec E K1 K2 m = E (map2 (XOR) M ?st)" by (simp add: cmac_spec_def M_def Let_def)
  moreover have "c\<lparr>cm_unprocessed_len := 0, cm_unprocessed_block := replicate 16 0, cm_state := replicate 16 0\<rparr> = cmac_zero"
    by (cases c) (simp add: cmac_zero_def)
  ultimately show ?thesis using c
    by (simp add: mbedtls_cipher_cmac_finish_def k i M Let_def split del: if_split cong: if_cong del: replicate.simps)
qed

text \<open>A message fed in pieces.\<close>

fun cmac_feed :: "cmac_cipher \<Rightarrow> bytes list \<Rightarrow> cipher_error option \<times> cmac_cipher" where
  "cmac_feed cm [] = (None, cm)"
| "cmac_feed cm (p # ps) = (case mbedtls_cipher_cmac_update cm p of (Some e, cm) \<Rightarrow> (Some e, cm) | (None, cm) \<Rightarrow> cmac_feed cm ps)"

lemma feed_keyed:
  "ecb_keyed ctx E \<Longrightarrow> cmac_rel E c m \<Longrightarrow> \<exists>c'. cmac_feed (ctx, Some c) ps = (None, (ctx, Some c')) \<and> cmac_rel E c' (m @ concat ps)"
proof (induction ps arbitrary: c m)
  case (Cons p ps)
  obtain c1 where c1: "mbedtls_cipher_cmac_update (ctx, Some c) p = (None, (ctx, Some c1))" "cmac_rel E c1 (m @ p)"
    using update_keyed[OF Cons.prems] by blast
  from Cons.IH[OF Cons.prems(1) c1(2)] show ?case by (simp add: c1(1))
qed auto

text \<open>Setting up any of the AES ciphers for CMAC.\<close>

lemma cmac_setup:
  assumes "mbedtls_cipher_info_from_type t = Some i" and "ci_mode i = MBEDTLS_MODE_ECB" and "alloc aes_info"
  obtains c ctx a where "mbedtls_cipher_setup alloc (Some i) mbedtls_cipher_init = (None, c)"
    "mbedtls_cipher_cmac_starts alloc True (c, None) key (ci_key_bitlen i) = (None, (ctx, Some cmac_zero))"
    "mbedtls_aes_setkey_enc key (ci_key_bitlen i) = Some a" "ecb_keyed ctx (mbedtls_internal_aes_encrypt a)"
proof -
  from info_from_type[OF assms(1)] have i: "ci_type i = t" "info_ok i" by simp_all
  have "list_all (\<lambda>def. ci_mode (snd def) = MBEDTLS_MODE_ECB \<longrightarrow>
      fst def \<in> {MBEDTLS_CIPHER_AES_128_ECB, MBEDTLS_CIPHER_AES_192_ECB, MBEDTLS_CIPHER_AES_256_ECB}) mbedtls_cipher_definitions"
    by (simp add: mbedtls_cipher_definitions_def info_defs)
  then have t: "t \<in> {MBEDTLS_CIPHER_AES_128_ECB, MBEDTLS_CIPHER_AES_192_ECB, MBEDTLS_CIPHER_AES_256_ECB}"
    using assms(1,2) by (auto simp: mbedtls_cipher_info_from_type_def list_all_iff dest!: find_SomeD)
  have base: "ci_base i = aes_info" using i(2) assms(2) by (simp add: info_ok_def)
  have "\<exists>c ctx. mbedtls_cipher_setup alloc (Some i) mbedtls_cipher_init = (None, c)
      \<and> setkey_through (base_setkey alloc) c key (ci_key_bitlen i) MBEDTLS_ENCRYPT = (None, ctx) \<and> aes_context i key MBEDTLS_ENCRYPT ctx"
    by (rule through_aes[where setkey = "base_setkey alloc", OF i(2)]) (simp_all add: assms(2,3) base_setkey_def fun_eq_iff)
  then obtain c ctx where c: "mbedtls_cipher_setup alloc (Some i) mbedtls_cipher_init = (None, c)"
    "mbedtls_cipher_setkey alloc c key (ci_key_bitlen i) MBEDTLS_ENCRYPT = (None, ctx)" "aes_context i key MBEDTLS_ENCRYPT ctx"
    unfolding mbedtls_cipher_setkey_def by blast
  from c(3) obtain a where a: "mbedtls_aes_setkey_enc key (ci_key_bitlen i) = Some a"
    "ctx = Cipher_Context (Some i) (ci_key_bitlen i) MBEDTLS_ENCRYPT (replicate 16 0) 0 (replicate 16 0) 0 (Some (Aes_Ctx a))"
    by (auto simp: aes_context_def)
  have E: "ecb_keyed ctx (mbedtls_internal_aes_encrypt a)"
    using i(2) aes_block_fun[OF a(1)] assms(2)
    by (simp add: ecb_keyed_def a(2) mbedtls_cipher_update_def mbedtls_cipher_get_block_size_def ecb_func_def mbedtls_aes_crypt_ecb_def
        info_ok_def block_fun_def)
  have info: "cc_info c = Some i" "cc_info ctx = Some i"
    using c(1) by (auto simp: mbedtls_cipher_setup_def a(2) split: option.splits)
  have "mbedtls_cipher_cmac_starts alloc True (c, None) key (ci_key_bitlen i) = (None, (ctx, Some cmac_zero))"
    using c(2) info i(1) t by (auto simp: mbedtls_cipher_cmac_starts_def cmac_zero_def)
  with that c(1) a(1) E show thesis by blast
qed

text \<open>The one-shot function.\<close>

lemma cmac_one_shot:
  assumes "mbedtls_cipher_info_from_type t = Some i" and "ci_mode i = MBEDTLS_MODE_ECB" and "alloc aes_info"
    and "mbedtls_aes_setkey_enc key (ci_key_bitlen i) = Some a"
    and "doubled (mbedtls_internal_aes_encrypt a (replicate 16 0)) K1" and "doubled K1 K2"
  shows "mbedtls_cipher_cmac alloc True (Some i) key (ci_key_bitlen i) m = Inr (cmac_spec (mbedtls_internal_aes_encrypt a) K1 K2 m)"
proof -
  obtain c ctx a' where s: "mbedtls_cipher_setup alloc (Some i) mbedtls_cipher_init = (None, c)"
    "mbedtls_cipher_cmac_starts alloc True (c, None) key (ci_key_bitlen i) = (None, (ctx, Some cmac_zero))"
    "mbedtls_aes_setkey_enc key (ci_key_bitlen i) = Some a'" "ecb_keyed ctx (mbedtls_internal_aes_encrypt a')"
    by (rule cmac_setup[where alloc = alloc and key = key, OF assms(1-3)])
  then have k: "ecb_keyed ctx (mbedtls_internal_aes_encrypt a)" using assms(4) by simp
  from update_keyed[OF k rel_zero, of m] obtain c' where c': "mbedtls_cipher_cmac_update (ctx, Some cmac_zero) m = (None, (ctx, Some c'))"
    "cmac_rel (mbedtls_internal_aes_encrypt a) c' m" by auto
  show ?thesis using s(1,2) c'(1) finish_keyed[OF k c'(2) assms(5,6)] by (simp add: mbedtls_cipher_cmac_def)
qed

section \<open>Properties\<close>

text \<open>
  CMAC in pieces: each AES cipher can be set up and keyed, any pieces can be fed in, and finishing returns the value of the
  standard for the whole message under the subkeys, which are the doubles of the encrypted zero block; the context is then
  as it was after the start, so the next message can follow.
\<close>

theorem cmac_stream_correct:
  assumes "mbedtls_cipher_info_from_type t = Some i" and "ci_mode i = MBEDTLS_MODE_ECB" and "alloc aes_info"
  shows "\<exists>c started a K1 K2. mbedtls_cipher_setup alloc (Some i) mbedtls_cipher_init = (None, c)
    \<and> mbedtls_cipher_cmac_starts alloc True (c, None) key (ci_key_bitlen i) = (None, started)
    \<and> mbedtls_aes_setkey_enc key (ci_key_bitlen i) = Some a
    \<and> doubled (mbedtls_internal_aes_encrypt a (replicate 16 0)) K1 \<and> doubled K1 K2
    \<and> (\<forall>ps. \<exists>fed. cmac_feed started ps = (None, fed)
        \<and> mbedtls_cipher_cmac_finish fed = (Inr (cmac_spec (mbedtls_internal_aes_encrypt a) K1 K2 (concat ps)), started))"
proof -
  obtain c ctx a where c: "mbedtls_cipher_setup alloc (Some i) mbedtls_cipher_init = (None, c)"
    "mbedtls_cipher_cmac_starts alloc True (c, None) key (ci_key_bitlen i) = (None, (ctx, Some cmac_zero))"
    "mbedtls_aes_setkey_enc key (ci_key_bitlen i) = Some a" "ecb_keyed ctx (mbedtls_internal_aes_encrypt a)"
    by (rule cmac_setup[where alloc = alloc, OF assms, of key])
  obtain K1 K2 where K: "doubled (mbedtls_internal_aes_encrypt a (replicate 16 0)) K1" "doubled K1 K2"
    using subkeys_keyed[OF c(4)] by blast
  have "\<exists>fed. cmac_feed (ctx, Some cmac_zero) ps = (None, fed)
      \<and> mbedtls_cipher_cmac_finish fed = (Inr (cmac_spec (mbedtls_internal_aes_encrypt a) K1 K2 (concat ps)), (ctx, Some cmac_zero))" for ps
    using feed_keyed[OF c(4) rel_zero, of ps] finish_keyed[OF c(4) _ K] by fastforce
  then show ?thesis using c(1-3) K by blast
qed

theorem cmac_stream_correct_witness:
  "\<exists>c started a K1 K2 fed. mbedtls_cipher_setup (\<lambda>_. True) (Some aes_128_ecb_info) mbedtls_cipher_init = (None, c)
    \<and> mbedtls_cipher_cmac_starts (\<lambda>_. True) True (c, None) (replicate 16 1) 128 = (None, started)
    \<and> cmac_feed started [[1, 2], [], [3]] = (None, fed)
    \<and> mbedtls_cipher_cmac_finish fed = (Inr (cmac_spec (mbedtls_internal_aes_encrypt a) K1 K2 [1, 2, 3]), started)"
proof -
  have i: "mbedtls_cipher_info_from_type MBEDTLS_CIPHER_AES_128_ECB = Some aes_128_ecb_info" "ci_mode aes_128_ecb_info = MBEDTLS_MODE_ECB"
    "ci_key_bitlen aes_128_ecb_info = 128"
    by (simp_all add: mbedtls_cipher_info_from_type_def mbedtls_cipher_definitions_def info_defs)
  from cmac_stream_correct[OF i(1,2), of "\<lambda>_. True" "replicate 16 1"] obtain c started a K1 K2 where c:
    "mbedtls_cipher_setup (\<lambda>_. True) (Some aes_128_ecb_info) mbedtls_cipher_init = (None, c)"
    "mbedtls_cipher_cmac_starts (\<lambda>_. True) True (c, None) (replicate 16 1) 128 = (None, started)"
    "\<exists>fed. cmac_feed started [[1, 2], [], [3]] = (None, fed)
      \<and> mbedtls_cipher_cmac_finish fed = (Inr (cmac_spec (mbedtls_internal_aes_encrypt a) K1 K2 (concat [[1, 2], [], [3]])), started)"
    unfolding i(3) by (metis (no_types))
  then show ?thesis by (simp only: concat.simps append.simps) blast
qed

text \<open>AES-CMAC-PRF-128 of RFC 4615: a key of another length is first turned into one by the CMAC under the zero key.\<close>

theorem cmac_prf_correct:
  assumes "alloc aes_info"
  shows "\<exists>k a K1 K2. mbedtls_aes_cmac_prf_128 alloc True key m = Inr (cmac_spec (mbedtls_internal_aes_encrypt a) K1 K2 m)
    \<and> mbedtls_aes_setkey_enc k 128 = Some a
    \<and> doubled (mbedtls_internal_aes_encrypt a (replicate 16 0)) K1 \<and> doubled K1 K2
    \<and> (if length key = 16 then k = key else mbedtls_cipher_cmac alloc True (Some aes_128_ecb_info) (replicate 16 0) 128 key = Inr k)"
proof -
  have i: "mbedtls_cipher_info_from_type MBEDTLS_CIPHER_AES_128_ECB = Some aes_128_ecb_info" "ci_mode aes_128_ecb_info = MBEDTLS_MODE_ECB"
    "ci_key_bitlen aes_128_ecb_info = 128"
    by (simp_all add: mbedtls_cipher_info_from_type_def mbedtls_cipher_definitions_def info_defs)
  have one: "\<exists>a K1 K2. mbedtls_aes_setkey_enc k 128 = Some a \<and> doubled (mbedtls_internal_aes_encrypt a (replicate 16 0)) K1 \<and> doubled K1 K2
      \<and> mbedtls_cipher_cmac alloc True (Some aes_128_ecb_info) k 128 x = Inr (cmac_spec (mbedtls_internal_aes_encrypt a) K1 K2 x)" for k x
  proof -
    obtain ctx a where a: "mbedtls_aes_setkey_enc k 128 = Some a" "ecb_keyed ctx (mbedtls_internal_aes_encrypt a)"
      using cmac_setup[where alloc = alloc, OF i(1,2) assms, of k] unfolding i(3) by metis
    from subkeys_keyed[OF a(2)] show ?thesis using cmac_one_shot[where alloc = alloc, OF i(1,2) assms, unfolded i(3), OF a(1)] a(1) by blast
  qed
  obtain k where k: "if length key = 16 then k = key else mbedtls_cipher_cmac alloc True (Some aes_128_ecb_info) (replicate 16 0) 128 key = Inr k"
    using one[of "replicate 16 0" key] by (cases "length key = 16") auto
  then have "mbedtls_aes_cmac_prf_128 alloc True key m = mbedtls_cipher_cmac alloc True (Some aes_128_ecb_info) k 128 m"
    by (simp add: mbedtls_aes_cmac_prf_128_def i(1) split: if_splits)
  moreover from one[of k m] obtain a K1 K2 where "mbedtls_aes_setkey_enc k 128 = Some a"
    "doubled (mbedtls_internal_aes_encrypt a (replicate 16 0)) K1" "doubled K1 K2"
    "mbedtls_cipher_cmac alloc True (Some aes_128_ecb_info) k 128 m = Inr (cmac_spec (mbedtls_internal_aes_encrypt a) K1 K2 m)" by blast
  ultimately show ?thesis using k by metis
qed

end
