(* ===== verification/Spec2Isabelle.thy ===== *)
theory Spec2Isabelle
  imports Ingestion_Handler Replay_Protection Rs485 Profiles Ota Ota_Canary Fault_Tree Safety_Monitor
    Net_Resilience Power_Profile Config_Portal Device_Crypto Boot_Security Cloud_Ingestion Config_Engine
    Diagnostics Edge_Node Edge_Power Hub
    Mqtt_Client Influxdb_Client Historian_Eviction Ct_Bignum Ct_Pkcs1 Ct_Hmac Sha512 Sha1 Md5 Ripemd160 Oid
    Aes_Modes Cmac
begin

text \<open>
  A verification of an IoT platform: sensor nodes, a gateway that batches their readings, a hub that checks,
  stores and evaluates them, cloud services that keep them per tenant, and the services around them (over-the-air
  update, verified boot, audit log, fail-safe actuators, configuration).  The C sources are under \<open>src/firmware\<close>
  and \<open>src/cloud\<close>, the cryptographic library under \<open>src/lib/mbedtls\<close>; every theory models the files it names, one
  definition per function, and carries the lemmas and properties of that part.

  \<^bold>\<open>How the parts interact.\<close>  An edge node (\<open>Edge_Node\<close>: drivers, stored configuration, the node's side of
  attestation, the read-check-send cycle; \<open>Edge_Power\<close>: its power states) sends readings to the gateway, over
  RS-485 (\<open>Rs485\<close>) or an encrypted session (\<open>Transport\<close>), protected against replays (\<open>Replay_Protection\<close>).  The
  gateway keeps the last value per node and metric and decides what to forward (\<open>Stateful_Cache\<close>: the cache and
  the delta filter), and sends authenticated batch frames (\<open>Gateway\<close>: forwarder, frame codec, gateway and edge
  trackers) over one of the radios (\<open>Lora\<close>, \<open>Zigbee\<close>).  The hub (\<open>Hub\<close>: start-up, radio adapters and polling loop)
  polls frames (\<open>Ingestion_Handler\<close>), runs the gateway check, the validation function of the domain profile and
  the range, rate and stuck checks (\<open>Sensor_Validation\<close>), evaluates the rules (\<open>Rule_Engine\<close>, tables in
  \<open>Profiles\<close>) and stores the readings encrypted (\<open>Historian\<close>; \<open>Historian_Eviction\<close> has its eviction loops).  Devices
  publish over MQTT (\<open>Mqtt_Client\<close>) to the cloud (\<open>Cloud_Ingestion\<close>: topic and payload parsing, the tenant store) or
  write to InfluxDB (\<open>Influxdb_Client\<close>).  Every module writes to the audit log (\<open>Audit_Log\<close>), which reads the clock
  (\<open>Time_Source\<close>) and chains its entries with the HMAC of \<open>Attestation\<close>.  \<open>Actuator_Failsafe\<close>, \<open>Safety_Monitor\<close>
  and \<open>Fault_Tree\<close> decide about safe states; \<open>Device_Identity\<close>, \<open>Flash_Partition\<close>, \<open>Ota\<close>, \<open>Ota_Canary\<close> and
  \<open>Boot_Security\<close> (image check, tamper switch, debug port) form the update and boot path; \<open>Net_Resilience\<close>,
  \<open>Power_Profile\<close>, \<open>Config_Portal\<close>, \<open>Config_Engine\<close> and \<open>Diagnostics\<close> serve the hub.  \<open>Device_Crypto\<close> puts the library's
  primitives in place of the parameters of the parts above.

  \<^bold>\<open>The vendored library\<close> is modelled against its standards.  \<open>Digest_Stream\<close> holds the buffering and padding that all the
  digests share; \<open>Sha256\<close> and \<open>Sha512\<close> (over \<open>Sha2_Rounds\<close>), \<open>Sha1\<close>, \<open>Md5\<close> and \<open>Ripemd160\<close> instantiate it, and \<open>Md_Hmac\<close>
  builds the HMAC.  \<open>Aes\<close>, \<open>Aes_Decrypt\<close> and \<open>Aes_Cipher\<close> have the tables, the key schedules and the block functions,
  \<open>Aes_Modes\<close> CBC, CFB, OFB and XTS, \<open>Ccm\<close> the authenticated mode, \<open>Cipher_Layer\<close> the generic interface above them and
  \<open>Cmac\<close> the message authentication code on top.  The build of the devices uses SHA-256, HMAC, AES in ECB, counter and CCM mode; the
  other parts are the code of the library as it stands.
  \<open>Constant_Time\<close>, \<open>Ct_Bignum\<close>, \<open>Ct_Pkcs1\<close> and \<open>Ct_Hmac\<close> are the branch-free helpers of \<open>constant_time.c\<close>; \<open>Oid_Numeric\<close>
  and \<open>Oid\<close> the object identifiers.

  \<^bold>\<open>Conventions.\<close>  Integers are words of their C width; \<open>float\<close> is the 32-bit pattern with the IEEE 754
  comparison and rounding of \<open>Float32\<close>, so that NaN and rounding behave as in C; \<open>Text_Format\<close> holds the
  decimal output of \<open>snprintf\<close>.  The static variables of a file are one record, passed in and returned.  A pointer
  argument that is compared with \<open>NULL\<close> is an option; an out-parameter is part of the result; a write past the end of
  a buffer is the result \<open>None\<close>.  Callbacks and storage backends are functions in those records, acting on a state of
  their own.  Loops are recursive functions with termination proofs, the eviction loops of the historian also
  \<open>while_option\<close> loops whose result is proved to exist; there is no fuel anywhere, apart from the retry count of the
  radio, which is the counter of the code.

  \<^bold>\<open>Interfaces.\<close>  \<open>Iot_Prelude\<close> states the contracts shared by the parts as locales: keyed tables with and
  without a bound (fail-safe table, attestation keys, configuration parameters), logs that keep the last entries
  (sensor history, audit ring, diagnostics history), first-in first-out buffers (the offline queue), registers that
  detect single changed bytes (the checksums of RS-485 and LoRa), links that deliver a datagram unchanged (both radios,
  through the adapters of the hub) and transition systems with an invariant (replay protection, fault tree, safety
  monitor, device identity, flash slots, both configuration modules, edge node and both radio handlers).
  \<open>Digest_Stream\<close> states what a block digest has to provide, \<open>Aes_Modes\<close> what the modes need of a block cipher and its
  inverse, \<open>Oid\<close> what makes a table of identifiers searchable both ways (nine tables);
  \<open>Profiles\<close> states the contract of a domain profile and interprets it for all four;
  \<open>Mqtt_Client\<close> lifts a step-wise refinement to runs and interprets it for both builds.

  \<^bold>\<open>What is shown.\<close>  Functional correctness and refinement: the evaluation loop against a loop-free reference,
  the sliding window against a checker with unbounded memory, the historian ring against a list, the offline
  queue against a list, both builds of the MQTT client against one specification, digests, HMAC and block cipher against
  their standards.  Round trips: RS-485 frames, encrypted streams, cipher modes, object identifiers, batch frames,
  radio packets, topics, parameters, a restart of the historian.  Safety: no nonce is accepted twice, tamper evidence of the audit log, tenants do not see
  each other's data, the running firmware slot is never written, the identity is immutable, the last administrator
  stays, a radio joins only with the right key.  And the places where the code does not do what its comments say,
  each as a theorem about the code as it is.  The properties below span the gateway, the radio, the hub and the
  historian.

  \<^bold>\<open>Parameters.\<close>  In the components the HMAC and the CCM cipher are arguments (\<open>md_hmac\<close>, \<open>ccm_enc\<close>, \<open>ccm_dec\<close>) with
  named hypotheses about lengths and decryption (\<open>md_hmac_ok\<close>, \<open>ccm_ok\<close>, \<open>historian_ccm_ok\<close>), which
  \<open>Device_Crypto\<close> discharges for the library's code.  Storage backends, hardware registers and clocks, the vendor's
  MQTT library (\<open>esp_mqtt\<close>) and the HTTP transport are arguments as well.

  \<^bold>\<open>Not modelled.\<close>  Of the vendored library: ciphers other than AES, TLS, PSA, the hardware back ends, the self tests
  and the platform helpers.  Console output, the Arduino entry point \<open>setup\<close>, which only prints and calls \<open>hub_init\<close>,
  and the tests.
\<close>

section \<open>From the gateway's cache to the hub's historian\<close>

text \<open>
  C1.  End to end: when an authenticated gateway flushes its cache and the hub, which tracks this gateway with
  the same session key, polls the frame off the radio, then a query of the historian afterwards returns what
  the specification list gives after appending, in cache order, the readings of the sent cache entries that
  belong to trusted edge nodes and pass both validation gates; the value of the poll is the number of rules
  these readings fire (modulo 256), and the profile with its actuators is left alone.
\<close>

theorem telemetry_end_to_end:
  assumes "bf_send_func b = Some send" and "bf_auth_ctx b = Some ctx" and "ga_state ctx = GW_AUTH_AUTHENTICATED"
    and "cache_get_dirty c 22 \<noteq> []"
    and "in_initialised g" and "ic_vtable (in_config g) = Some vt" and "ic_radio_receive (in_config g) = Some receive"
    and "receive (in_radio g) = (fst (snd (batch_forwarder_flush device_hmac b c)), r)"
    and "ic_gw_tracker (in_config g) = Some t" and "gt_authenticated t" and "gt_session_key t = ga_session_key ctx"
    and "ic_edge_tracker (in_config g) \<noteq> Edge_Null"
    and "historian_ready (in_historian g)" and "historian_slots device_ccm_dec (in_historian g) = map Some cs"
    and "acc = batch_accepted vt now g
          (filter (edge_trusts (ic_edge_tracker (in_config g))) (map batch_entry_of (cache_get_dirty c 22)))"
  shows "\<exists>n g'. ingestion_handler_poll device_hmac historian_ccm device_ccm_dec g now = (n, g')
    \<and> (\<forall>q k. fst (historian_read device_ccm_dec (in_historian g') q k) =
         spec_read (foldl spec_write cs (map (reading_record (ic_domain_profile_id (in_config g))) acc)) q (unat k))
    \<and> n = (\<Sum>x \<leftarrow> acc. fires (in_rules g) (in_profile g) vt x)
    \<and> in_profile g' = in_profile g"
  by (rule end_to_end[OF assms])

definition device_wire :: bytes where
  "device_wire = the (fst (snd (batch_forwarder_flush device_hmac (demo_forwarder True) demo_cache)))"

theorem telemetry_end_to_end_witness:
  "\<exists>n g'. ingestion_handler_poll device_hmac historian_ccm device_ccm_dec (demo_hub device_wire) 5000 = (n, g') \<and> n = 1
    \<and> fst (historian_read device_ccm_dec (in_historian g') (Some \<lparr>hq_time_start_ms = 0, hq_time_end_ms = 0, hq_node_id = 0, hq_metric_id = 1\<rparr>) 8)
        = [reading_record 3 (entry_reading 5000 demo_entry)]"
proof -
  let ?g = "demo_hub device_wire"
  let ?r = "entry_reading 5000 demo_entry"
  obtain frame where fl: "fst (snd (batch_forwarder_flush device_hmac (demo_forwarder True) demo_cache)) = Some frame"
    using flush_ingest[OF device_hmac_ok, of "demo_forwarder True" "\<lambda>_. True" demo_ctx demo_tracker demo_cache demo_edge 22]
    by (auto simp: demo_cache_dirty demo_forwarder_def demo_ctx_def demo_tracker_def demo_edge_def)
  then have fr: "fst (snd (batch_forwarder_flush device_hmac (demo_forwarder True) demo_cache)) = Some device_wire"
    by (simp add: device_wire_def)
  have acc: "[?r] = batch_accepted demo_vtable 5000 ?g
      (filter (edge_trusts (ic_edge_tracker (in_config ?g))) (map batch_entry_of (cache_get_dirty demo_cache 22)))"
    by (simp add: demo_cache_dirty batch_entry_of_def demo_hub_fields demo_edge_def edge_trusts_def edge_tracker_is_trusted_def
        demo_hub_accepts[unfolded demo_entry_def] demo_entry_def)
  have f: "fires \<lparr>rule_g_initialised = True\<rparr> [demo_rule 7 0x40800000 1 0] demo_vtable ?r = 1"
    by (simp add: fires_def rule_engine_evaluate_def demo_defs entry_reading_def demo_entry_def f32_cmp_defs Let_def rule_consts)
  have "\<exists>n g'. ingestion_handler_poll device_hmac historian_ccm device_ccm_dec ?g 5000 = (n, g')
    \<and> (\<forall>q k. fst (historian_read device_ccm_dec (in_historian g') q k) =
         spec_read (foldl spec_write [] (map (reading_record (ic_domain_profile_id (in_config ?g))) [?r])) q (unat k))
    \<and> n = (\<Sum>x \<leftarrow> [?r]. fires (in_rules ?g) (in_profile ?g) demo_vtable x) \<and> in_profile g' = in_profile ?g"
    by (rule telemetry_end_to_end[where b = "demo_forwarder True" and c = demo_cache and ctx = demo_ctx
          and receive = "\<lambda>r. (r, None)" and r = None and t = demo_tracker and send = "\<lambda>_. True", OF _ _ _ _ _ _ _ _ _ _ _ _ _ _ acc])
      (simp_all only: demo_hub_fields fr, simp_all add: demo_forwarder_def demo_ctx_def demo_tracker_def demo_cache_dirty demo_edge_def hdemo_ready hdemo_slots)
  moreover have "spec_read (foldl spec_write [] (map (reading_record 3) [?r]))
      (Some \<lparr>hq_time_start_ms = 0, hq_time_end_ms = 0, hq_node_id = 0, hq_metric_id = 1\<rparr>) (unat (8 :: u32)) = [reading_record 3 ?r]"
    by (simp add: spec_read_def spec_write_def query_matches_def) (simp add: reading_record_def entry_reading_def demo_entry_def)
  ultimately show ?thesis unfolding demo_hub_fields by (auto simp: f)
qed

text \<open>
  C2.  The same over the LoRa radio: a batch of an authenticated gateway, which always fits one packet, is accepted by
  the radio when at most three acknowledgements are lost, and the hub's next poll, through the radio adapter of the
  hub, stores exactly the readings of trusted nodes that pass both gates and counts the rules they fire.
\<close>

theorem telemetry_over_lora:
  assumes "bf_send_func b = Some send" and "bf_auth_ctx b = Some ctx" and "ga_state ctx = GW_AUTH_AUTHENTICATED"
    and "cache_get_dirty c 22 \<noteq> []"
    and "fst (snd (batch_forwarder_flush device_hmac b c)) = Some frame"
    and "in_initialised g" and "ic_vtable (in_config g) = Some vt"
    and "ic_radio_receive (in_config g) = Some (lora_radio_adapter RADIO_BUFFER_SIZE)"
    and "lora_is_ready (hr_lora (in_radio g))" and "unat (lo_mock_ack_fail_count (hr_lora (in_radio g))) \<le> 3"
    and "ic_gw_tracker (in_config g) = Some t" and "gt_authenticated t" and "gt_session_key t = ga_session_key ctx"
    and "ic_edge_tracker (in_config g) \<noteq> Edge_Null"
    and "historian_ready (in_historian g)" and "historian_slots device_ccm_dec (in_historian g) = map Some cs"
    and "acc = batch_accepted vt now g
          (filter (edge_trusts (ic_edge_tracker (in_config g))) (map batch_entry_of (cache_get_dirty c 22)))"
  shows "\<exists>l n g'. lora_send (hr_lora (in_radio g)) d (Some frame) (word_of_nat (length frame)) = (LORA_OK, l)
    \<and> ingestion_handler_poll device_hmac historian_ccm device_ccm_dec (g\<lparr>in_radio := (in_radio g)\<lparr>hr_lora := l\<rparr>\<rparr>) now = (n, g')
    \<and> (\<forall>q k. fst (historian_read device_ccm_dec (in_historian g') q k) =
         spec_read (foldl spec_write cs (map (reading_record (ic_domain_profile_id (in_config g))) acc)) q (unat k))
    \<and> n = (\<Sum>x \<leftarrow> acc. fires (in_rules g) (in_profile g) vt x)"
proof -
  have frame: "frame = flush_frame device_hmac ctx (cache_get_dirty c 22)"
    using flush_sends[OF assms(1-3) refl assms(4) refl, of device_hmac] assms(5) by auto
  have "40 + 7 * length (cache_get_dirty c 22) \<le> LORA_MAX_PAYLOAD"
    using length_cache_get_dirty[of c 22] by (simp add: LORA_MAX_PAYLOAD_def)
  moreover have "lora_link_ready (in_radio g)" using assms(9,10) by (simp add: lora_link_ready_def LORA_MAX_RETRIES_def)
  ultimately obtain r n g' where l: "lora_link_send d (in_radio g) frame = (True, r)"
    and rest: "ingestion_handler_poll device_hmac historian_ccm device_ccm_dec (g\<lparr>in_radio := r\<rparr>) now = (n, g')"
      "\<forall>q k. fst (historian_read device_ccm_dec (in_historian g') q k) =
         spec_read (foldl spec_write cs (map (reading_record (ic_domain_profile_id (in_config g))) acc)) q (unat k)"
      "n = (\<Sum>x \<leftarrow> acc. fires (in_rules g) (in_profile g) vt x)"
    using lora_link.end_to_end_link[OF assms(1-4) _ frame assms(6-8) _ assms(11-17), of d] by blast
  obtain l' where "lora_send (hr_lora (in_radio g)) d (Some frame) (word_of_nat (length frame)) = (LORA_OK, l')"
    "r = (in_radio g)\<lparr>hr_lora := l'\<rparr>"
    using l by (auto simp: lora_link_send_def split: prod.splits)
  with rest show ?thesis by blast
qed

text \<open>The hub of the previous witness, with the LoRa radio in place of the stub.\<close>

definition lora_hub :: "(RuleEntry_t list, hub_radio, (u32 \<Rightarrow> bytes) \<times> u32 \<times> u32) ingestion" where
  "lora_hub = \<lparr>in_config = \<lparr>ic_gw_tracker = Some demo_tracker, ic_edge_tracker = demo_edge, ic_vtable = Some demo_vtable,
       ic_radio_receive = Some (lora_radio_adapter RADIO_BUFFER_SIZE), ic_bounds_lookup = None, ic_history_lookup = None,
       ic_domain_profile_id = 1\<rparr>,
     in_stats = ingestion_stats_zero, in_initialised = True, in_profile = [demo_rule 7 0x40800000 1 0],
     in_radio = \<lparr>hr_zigbee = zigbee_boot, hr_lora = ready_lora 2\<rparr>, in_histories = (\<lambda>_. sensor_history_zero),
     in_rules = \<lparr>rule_g_initialised = True\<rparr>, in_validation = \<lparr>sv_g_initialised = True\<rparr>,
     in_audit = (demo_audit, demo_time), in_historian = hdemo\<rparr>"

lemma lora_hub_accepts: "batch_accepted demo_vtable now lora_hub [demo_entry] = [entry_reading now demo_entry]"
  by (simp add: batch_accepted_def lora_hub_def demo_vtable_def entry_reading_def demo_entry_def gate2_lookup_def Let_def)

theorem telemetry_over_lora_witness:
  "\<exists>l n g'. lora_send (ready_lora 2) 9 (Some device_wire) (word_of_nat (length device_wire)) = (LORA_OK, l)
    \<and> ingestion_handler_poll device_hmac historian_ccm device_ccm_dec (lora_hub\<lparr>in_radio := (in_radio lora_hub)\<lparr>hr_lora := l\<rparr>\<rparr>) 5000 = (n, g')
    \<and> n = 1"
proof -
  let ?r = "entry_reading 5000 demo_entry"
  have b: "bf_send_func (demo_forwarder True) = Some (\<lambda>_. True)" "bf_auth_ctx (demo_forwarder True) = Some demo_ctx"
    "ga_state demo_ctx = GW_AUTH_AUTHENTICATED" "cache_get_dirty demo_cache 22 \<noteq> []"
    by (simp_all add: demo_forwarder_def demo_ctx_def demo_cache_dirty)
  have wire: "fst (snd (batch_forwarder_flush device_hmac (demo_forwarder True) demo_cache)) = Some device_wire"
    using flush_sends[OF b(1-3) refl b(4) refl, of device_hmac] by (auto simp: device_wire_def)
  have h: "in_initialised lora_hub" "ic_vtable (in_config lora_hub) = Some demo_vtable"
    "ic_radio_receive (in_config lora_hub) = Some (lora_radio_adapter RADIO_BUFFER_SIZE)"
    "lora_is_ready (hr_lora (in_radio lora_hub))" "unat (lo_mock_ack_fail_count (hr_lora (in_radio lora_hub))) \<le> 3"
    "ic_gw_tracker (in_config lora_hub) = Some demo_tracker" "gt_authenticated demo_tracker"
    "gt_session_key demo_tracker = ga_session_key demo_ctx" "ic_edge_tracker (in_config lora_hub) \<noteq> Edge_Null"
    "historian_ready (in_historian lora_hub)" "historian_slots device_ccm_dec (in_historian lora_hub) = map Some []"
    by (simp_all add: lora_hub_def ready_lora_ready ready_lora_fails demo_tracker_def demo_ctx_def demo_edge_def hdemo_ready hdemo_slots)
  have acc: "[?r] = batch_accepted demo_vtable 5000 lora_hub
      (filter (edge_trusts (ic_edge_tracker (in_config lora_hub))) (map batch_entry_of (cache_get_dirty demo_cache 22)))"
    by (simp add: demo_cache_dirty batch_entry_of_def lora_hub_def[THEN arg_cong, of in_config] demo_edge_def edge_trusts_def
        edge_tracker_is_trusted_def lora_hub_accepts[unfolded demo_entry_def] demo_entry_def)
  have f: "fires (in_rules lora_hub) (in_profile lora_hub) demo_vtable ?r = 1"
    by (simp add: lora_hub_def fires_def rule_engine_evaluate_def demo_defs entry_reading_def demo_entry_def f32_cmp_defs Let_def rule_consts)
  show ?thesis using telemetry_over_lora[OF b wire h acc, of 9] f by (auto simp: lora_hub_def[THEN arg_cong, of in_radio])
qed

end
